(* ===== verification/Prelude.thy ===== *)
theory Prelude
  imports Main "HOL-Library.AList" "HOL-Library.Word"
begin

text \<open>
  Shared vocabulary of the pirc development: results, Rust strings (UTF-8 byte lists),
  decimal numerals as \<^verbatim>\<open>to_string\<close> and \<^verbatim>\<open>str::parse\<close> treat them, splitting at a
  byte, hash maps as association lists, and majorities.

  A Rust \<^verbatim>\<open>str\<close> is a \<^typ>\<open>string\<close> whose characters are its UTF-8 bytes, so \<open>length\<close> is
  \<^verbatim>\<open>str::len\<close>; \<open>utf8_chars\<close> gives the code points that \<^verbatim>\<open>str::chars\<close> iterates.
  A \<^verbatim>\<open>Result<A, E>\<close> is \<open>'e + 'a\<close> with \<open>Err\<close> and \<open>Ok\<close>. A \<^verbatim>\<open>HashMap\<close> is an association
  list with distinct keys (its iteration order, unspecified in Rust, is the list order),
  a \<^verbatim>\<open>HashSet\<close> is a finite set.
\<close>

named_theorems raft_defs \<open>definitions of the Raft node's operations\<close>
named_theorems raft_frame \<open>what an operation of the Raft node leaves unchanged\<close>
named_theorems split_byte \<open>evaluation of splitting at a byte\<close>

section \<open>Results\<close>

abbreviation Ok :: "'a \<Rightarrow> 'e + 'a" where "Ok \<equiv> Inr"
abbreviation Err :: "'e \<Rightarrow> 'e + 'a" where "Err \<equiv> Inl"

definition map_err :: "('e \<Rightarrow> 'f) \<Rightarrow> 'e + 'a \<Rightarrow> 'f + 'a" where
  "map_err f r = (case r of Err e \<Rightarrow> Err (f e) | Ok a \<Rightarrow> Ok a)"

definition ok_or :: "'e \<Rightarrow> 'a option \<Rightarrow> 'e + 'a" where
  "ok_or e x = (case x of None \<Rightarrow> Err e | Some a \<Rightarrow> Ok a)"

definition result_bind :: "'e + 'a \<Rightarrow> ('a \<Rightarrow> 'e + 'b) \<Rightarrow> 'e + 'b" where
  "result_bind r k = (case r of Err e \<Rightarrow> Err e | Ok a \<Rightarrow> k a)"

lemma result_bind_simps [simp]:
  "result_bind (Ok a) k = k a"
  "result_bind (Err e) k = Err e"
  by (simp_all add: result_bind_def)

lemma result_bind_eq_Ok [simp]:
  "result_bind r k = Ok b \<longleftrightarrow> (\<exists>a. r = Ok a \<and> k a = Ok b)"
  by (cases r) auto

lemma result_bind_OkE:
  assumes "result_bind r k = Ok b"
  obtains a where "r = Ok a" "k a = Ok b"
  using assms by auto

lemma ok_or_simps [simp]: "ok_or e None = Err e" "ok_or e (Some a) = Ok a"
  by (simp_all add: ok_or_def)

lemma ok_or_eq_Ok [simp]: "ok_or e x = Ok a \<longleftrightarrow> x = Some a"
  by (cases x) auto

lemma map_err_simps [simp]: "map_err f (Ok a) = Ok a" "map_err f (Err e) = Err (f e)"
  by (simp_all add: map_err_def)

lemma map_err_eq_Ok [simp]: "map_err f r = Ok a \<longleftrightarrow> r = Ok a"
  by (cases r) auto

text \<open>A call that may panic: a panic unwinds past every caller.\<close>

datatype 'a outcome = Returns 'a | Panics string

section \<open>Characters and strings\<close>

text \<open>\<^verbatim>\<open>str::chars\<close>: the code points of a UTF-8 byte sequence.\<close>

fun utf8_chars :: "string \<Rightarrow> nat list" where
  "utf8_chars [] = []"
| "utf8_chars (b0 # bs) =
     (let n = of_char b0 in
      if n < 128 then n # utf8_chars bs
      else if n < 224 then
        (case bs of b1 # r \<Rightarrow> ((n mod 32) * 64 + of_char b1 mod 64) # utf8_chars r
         | _ \<Rightarrow> [n])
      else if n < 240 then
        (case bs of b1 # b2 # r \<Rightarrow>
           ((n mod 16) * 4096 + (of_char b1 mod 64) * 64 + of_char b2 mod 64) # utf8_chars r
         | _ \<Rightarrow> [n])
      else
        (case bs of b1 # b2 # b3 # r \<Rightarrow>
           ((n mod 8) * 262144 + (of_char b1 mod 64) * 4096 + (of_char b2 mod 64) * 64
              + of_char b3 mod 64) # utf8_chars r
         | _ \<Rightarrow> [n]))"

definition is_ascii_alphabetic :: "nat \<Rightarrow> bool" where
  "is_ascii_alphabetic c \<longleftrightarrow> 65 \<le> c \<and> c \<le> 90 \<or> 97 \<le> c \<and> c \<le> 122"

definition is_ascii_digit :: "nat \<Rightarrow> bool" where
  "is_ascii_digit c \<longleftrightarrow> 48 \<le> c \<and> c \<le> 57"

text \<open>\<^verbatim>\<open>char::is_control\<close>: Unicode general category Cc.\<close>

definition is_control :: "nat \<Rightarrow> bool" where
  "is_control c \<longleftrightarrow> c < 32 \<or> 127 \<le> c \<and> c < 160"

text \<open>\<^verbatim>\<open>str::to_ascii_lowercase\<close> and \<^verbatim>\<open>str::eq_ignore_ascii_case\<close> work bytewise.\<close>

definition ascii_lower :: "char \<Rightarrow> char" where
  "ascii_lower c = (if 65 \<le> (of_char c :: nat) \<and> (of_char c :: nat) \<le> 90
                    then char_of (of_char c + 32 :: nat) else c)"

definition to_ascii_lowercase :: "string \<Rightarrow> string" where
  "to_ascii_lowercase s = map ascii_lower s"

definition eq_ignore_ascii_case :: "string \<Rightarrow> string \<Rightarrow> bool" where
  "eq_ignore_ascii_case s t \<longleftrightarrow>
     length s = length t \<and> list_all2 (\<lambda>a b. ascii_lower a = ascii_lower b) s t"

lemma ascii_lower_idem [simp]: "ascii_lower (ascii_lower c) = ascii_lower c"
proof -
  have "(of_char c :: nat) \<le> 90 \<Longrightarrow> (of_char (char_of (of_char c + 32 :: nat)) :: nat) = of_char c + 32"
    by simp
  then show ?thesis by (auto simp: ascii_lower_def)
qed

lemma to_ascii_lowercase_idem [simp]:
  "to_ascii_lowercase (to_ascii_lowercase s) = to_ascii_lowercase s"
  by (simp add: to_ascii_lowercase_def)

lemma length_to_ascii_lowercase [simp]: "length (to_ascii_lowercase s) = length s"
  by (simp add: to_ascii_lowercase_def)

lemma eq_ignore_ascii_case_iff:
  "eq_ignore_ascii_case s t \<longleftrightarrow> to_ascii_lowercase s = to_ascii_lowercase t"
  unfolding eq_ignore_ascii_case_def to_ascii_lowercase_def
  by (auto simp: list_all2_conv_all_nth list_eq_iff_nth_eq)

section \<open>Splitting at a byte\<close>

text \<open>
  \<^verbatim>\<open>find_byte(s, b)\<close> followed by \<^verbatim>\<open>&s[..pos]\<close> and \<^verbatim>\<open>&s[pos + 1..]\<close>: the part before
  the first occurrence of \<open>b\<close> and the part after it.
\<close>

fun split_at_byte :: "char \<Rightarrow> string \<Rightarrow> (string \<times> string) option" where
  "split_at_byte b [] = None"
| "split_at_byte b (c # cs) =
     (if c = b then Some ([], cs)
      else map_option (\<lambda>(p, r). (c # p, r)) (split_at_byte b cs))"

lemma split_at_byte_None_iff: "split_at_byte b s = None \<longleftrightarrow> b \<notin> set s"
  by (induction s) auto

lemma split_at_byte_append [split_byte]:
  "b \<notin> set p \<Longrightarrow> split_at_byte b (p @ b # r) = Some (p, r)"
  by (induction p) auto

lemma split_at_byte_notin [split_byte]: "b \<notin> set p \<Longrightarrow> split_at_byte b p = None"
  by (simp add: split_at_byte_None_iff)

lemma split_at_byte_Some:
  "split_at_byte b s = Some (p, r) \<Longrightarrow> s = p @ b # r \<and> b \<notin> set p"
proof (induction s arbitrary: p)
  case Nil
  then show ?case by simp
next
  case (Cons c cs)
  then show ?case by (cases "c = b") auto
qed

lemma split_at_byte_length:
  "split_at_byte b s = Some (p, r) \<Longrightarrow> length r < length s"
  by (auto dest: split_at_byte_Some)

section \<open>Decimal numerals\<close>

text \<open>\<^verbatim>\<open>u64::to_string\<close> and \<^verbatim>\<open>{}\<close> formatting of unsigned integers.\<close>

definition digit_char :: "nat \<Rightarrow> char" where
  "digit_char d = char_of (48 + d)"

function nat_to_string :: "nat \<Rightarrow> string" where
  "nat_to_string n =
     (if n < 10 then [digit_char n] else nat_to_string (n div 10) @ [digit_char (n mod 10)])"
  by pat_completeness auto
termination
  by (relation "measure id") auto

declare nat_to_string.simps [simp del]

text \<open>
  \<^verbatim>\<open>str::parse::<uN>()\<close>: an optional \<open>+\<close>, then at least one digit and nothing else, and
  a value of at most \<open>bound\<close>; every other input is an error.
\<close>

fun parse_digits :: "nat \<Rightarrow> string \<Rightarrow> nat option" where
  "parse_digits acc [] = Some acc"
| "parse_digits acc (c # cs) =
     (if is_ascii_digit (of_char c) then parse_digits (acc * 10 + (of_char c - 48)) cs
      else None)"

definition parse_unsigned :: "nat \<Rightarrow> string \<Rightarrow> nat option" where
  "parse_unsigned bound s =
     (let ds = (case s of c # cs \<Rightarrow> if c = CHR ''+'' then cs else s | [] \<Rightarrow> []) in
      if ds = [] then None
      else case parse_digits 0 ds of None \<Rightarrow> None
           | Some n \<Rightarrow> if n \<le> bound then Some n else None)"

abbreviation U16_MAX :: nat where "U16_MAX \<equiv> 65535"
abbreviation U32_MAX :: nat where "U32_MAX \<equiv> 4294967295"
abbreviation U64_MAX :: nat where "U64_MAX \<equiv> 18446744073709551615"

lemma of_char_digit_char [simp]: "d < 10 \<Longrightarrow> (of_char (digit_char d) :: nat) = 48 + d"
  by (simp add: digit_char_def)

lemma is_ascii_digit_48 [simp]: "d < 10 \<Longrightarrow> is_ascii_digit (48 + d)"
  by (simp add: is_ascii_digit_def)

lemma parse_digits_append:
  "parse_digits a (s @ t) = (case parse_digits a s of None \<Rightarrow> None | Some b \<Rightarrow> parse_digits b t)"
  by (induction s arbitrary: a) auto

lemma parse_digits_nat_to_string: "parse_digits 0 (nat_to_string n) = Some n"
proof (induction n rule: nat_to_string.induct)
  case (1 n)
  then show ?case
    by (cases "n < 10")
       (simp_all add: nat_to_string.simps [of n] parse_digits_append)
qed

lemma nat_to_string_nonempty [simp]: "nat_to_string n \<noteq> []"
  by (subst nat_to_string.simps) simp

lemma nat_to_string_digits:
  "c \<in> set (nat_to_string n) \<Longrightarrow> is_ascii_digit (of_char c)"
proof (induction n rule: nat_to_string.induct)
  case (1 n)
  then show ?case
    by (cases "n < 10") (auto simp: nat_to_string.simps [of n])
qed

lemma nat_to_string_no_byte:
  "\<not> is_ascii_digit (of_char b) \<Longrightarrow> b \<notin> set (nat_to_string n)"
  using nat_to_string_digits by blast

lemma parse_unsigned_nat_to_string:
  assumes "n \<le> bound"
  shows "parse_unsigned bound (nat_to_string n) = Some n"
proof -
  obtain c cs where s: "nat_to_string n = c # cs" by (cases "nat_to_string n") simp_all
  have "c \<noteq> CHR ''+''"
    using nat_to_string_digits [of c n] by (auto simp: s is_ascii_digit_def)
  then show ?thesis
    using parse_digits_nat_to_string [of n] assms by (simp add: parse_unsigned_def s)
qed

lemma parse_unsigned_bound: "parse_unsigned bound s = Some n \<Longrightarrow> n \<le> bound"
  by (auto simp: parse_unsigned_def Let_def split: if_splits option.splits)

section \<open>Searching and splitting strings\<close>

text \<open>\<^verbatim>\<open>str::split(b)\<close>, \<^verbatim>\<open>str::starts_with\<close>, \<^verbatim>\<open>str::ends_with\<close> and \<^verbatim>\<open>str::find\<close>.\<close>

fun str_split :: "char \<Rightarrow> string \<Rightarrow> string list" where
  "str_split b [] = [[]]"
| "str_split b (c # cs) =
     (if c = b then [] # str_split b cs
      else case str_split b cs of [] \<Rightarrow> [[c]] | p # ps \<Rightarrow> (c # p) # ps)"

definition starts_with :: "string \<Rightarrow> string \<Rightarrow> bool" where
  "starts_with s p \<longleftrightarrow> take (length p) s = p"

definition ends_with :: "string \<Rightarrow> string \<Rightarrow> bool" where
  "ends_with s p \<longleftrightarrow> length p \<le> length s \<and> drop (length s - length p) s = p"

fun str_find :: "string \<Rightarrow> string \<Rightarrow> nat option" where
  "str_find p [] = (if p = [] then Some 0 else None)"
| "str_find p (c # cs) =
     (if take (length p) (c # cs) = p then Some 0 else map_option Suc (str_find p cs))"

text \<open>\<^verbatim>\<open>str::chars\<close>, each code point as the bytes of its \<^verbatim>\<open>to_string\<close>.\<close>

function str_chars :: "string \<Rightarrow> string list" where
  "str_chars [] = []"
| "str_chars (b # bs) =
     (let n = (of_char b :: nat);
          k = (if n < 128 then 0 else if n < 224 then 1 else if n < 240 then 2 else 3 :: nat) in
      (b # take k bs) # str_chars (drop k bs))"
  by pat_completeness auto
termination
  by (relation "measure length") auto

text \<open>\<^verbatim>\<open>[String]::join\<close>.\<close>

fun join_with :: "string \<Rightarrow> string list \<Rightarrow> string" where
  "join_with sep [] = []"
| "join_with sep [x] = x"
| "join_with sep (x # y # zs) = x @ sep @ join_with sep (y # zs)"

section \<open>Vectors\<close>

text \<open>\<^verbatim>\<open>Vec::remove\<close> and \<^verbatim>\<open>Iterator::position\<close>.\<close>

definition list_remove :: "nat \<Rightarrow> 'a list \<Rightarrow> 'a list" where
  "list_remove k xs = take k xs @ drop (Suc k) xs"

fun position :: "('a \<Rightarrow> bool) \<Rightarrow> 'a list \<Rightarrow> nat option" where
  "position p [] = None"
| "position p (x # xs) = (if p x then Some 0 else map_option Suc (position p xs))"

lemma position_Some: "position p xs = Some k \<Longrightarrow> k < length xs \<and> p (xs ! k)"
  by (induction xs arbitrary: k) (auto split: if_splits)

lemma position_None: "position p xs = None \<longleftrightarrow> (\<forall>x\<in>set xs. \<not> p x)"
  by (induction xs) auto

lemma list_remove_split [simp]:
  "k < length xs \<Longrightarrow> take k (list_remove k xs) = take k xs" "k < length xs \<Longrightarrow> drop k (list_remove k xs) = drop (Suc k) xs"
  "k < length xs \<Longrightarrow> length (list_remove k xs) = length xs - 1"
  by (simp_all add: list_remove_def)

section \<open>Text files\<close>

text \<open>\<^verbatim>\<open>String::from_utf8\<close> succeeds exactly on well-formed UTF-8.\<close>

definition byte_in :: "nat \<Rightarrow> nat \<Rightarrow> char \<Rightarrow> bool" where
  "byte_in lo hi c \<longleftrightarrow> lo \<le> of_char c \<and> of_char c \<le> hi"

abbreviation utf8_cont :: "char \<Rightarrow> bool" where "utf8_cont \<equiv> byte_in 128 191"

fun valid_utf8 :: "string \<Rightarrow> bool" where
  "valid_utf8 [] = True"
| "valid_utf8 (b0 # bs) =
     (if byte_in 0 127 b0 then valid_utf8 bs
      else if byte_in 194 223 b0 then
        (case bs of b1 # r \<Rightarrow> utf8_cont b1 \<and> valid_utf8 r | _ \<Rightarrow> False)
      else if byte_in 224 239 b0 then
        (case bs of b1 # b2 # r \<Rightarrow>
           (if of_char b0 = (224 :: nat) then byte_in 160 191 b1
            else if of_char b0 = (237 :: nat) then byte_in 128 159 b1 else utf8_cont b1)
           \<and> utf8_cont b2 \<and> valid_utf8 r
         | _ \<Rightarrow> False)
      else if byte_in 240 244 b0 then
        (case bs of b1 # b2 # b3 # r \<Rightarrow>
           (if of_char b0 = (240 :: nat) then byte_in 144 191 b1
            else if of_char b0 = (244 :: nat) then byte_in 128 143 b1 else utf8_cont b1)
           \<and> utf8_cont b2 \<and> utf8_cont b3 \<and> valid_utf8 r
         | _ \<Rightarrow> False)
      else False)"

text \<open>\<^verbatim>\<open>str::trim\<close> removes the code points with the Unicode property White\_Space.\<close>

definition whitespace_seqs :: "string list" where
  "whitespace_seqs = map (map char_of)
     ([[9], [10], [11], [12], [13], [32], [194, 133], [194, 160], [225, 154, 128],
       [226, 128, 168], [226, 128, 169], [226, 128, 175], [226, 129, 159], [227, 128, 128]]
      @ map (\<lambda>i. [226, 128, 128 + i]) [0 ..< 11 :: nat])"

fun strip_one :: "string list \<Rightarrow> string \<Rightarrow> string option" where
  "strip_one [] s = None"
| "strip_one (p # ps) s =
     (if p \<noteq> [] \<and> take (length p) s = p then Some (drop (length p) s) else strip_one ps s)"

lemma strip_one_shorter: "strip_one ps s = Some r \<Longrightarrow> length r < length s"
proof (induction ps)
  case (Cons p ps)
  then show ?case by (cases s) (auto split: if_splits)
qed simp

function trim_start_seqs :: "string list \<Rightarrow> string \<Rightarrow> string" where
  "trim_start_seqs ps s = (case strip_one ps s of None \<Rightarrow> s | Some r \<Rightarrow> trim_start_seqs ps r)"
  by pat_completeness auto
termination
  by (relation "measure (\<lambda>(ps, s). length s)") (auto dest: strip_one_shorter)

declare trim_start_seqs.simps [simp del]

definition trim_end :: "string \<Rightarrow> string" where
  "trim_end s = rev (trim_start_seqs (map rev whitespace_seqs) (rev s))"

definition trim :: "string \<Rightarrow> string" where
  "trim s = rev (trim_start_seqs (map rev whitespace_seqs) (rev (trim_start_seqs whitespace_seqs s)))"

text \<open>\<^verbatim>\<open>str::lines\<close>: lines end at a newline, with an optional carriage return before it.\<close>

definition strip_cr :: "string \<Rightarrow> string" where
  "strip_cr l = (if l \<noteq> [] \<and> last l = CHR 0x0D then butlast l else l)"

function str_lines :: "string \<Rightarrow> string list" where
  "str_lines s =
     (if s = [] then []
      else case split_at_byte (CHR 0x0A) s of None \<Rightarrow> [s]
           | Some (l, r) \<Rightarrow> strip_cr l # str_lines r)"
  by pat_completeness auto
termination
  by (relation "measure length") (auto dest: split_at_byte_length)

declare str_lines.simps [simp del]

lemma str_lines_Nil [simp]: "str_lines [] = []"
  by (simp add: str_lines.simps)

lemma str_lines_line:
  "CHR 0x0A \<notin> set l \<Longrightarrow> str_lines (l @ CHR 0x0A # r) = strip_cr l # str_lines r"
  by (subst str_lines.simps) (simp add: split_byte)

lemma str_lines_last: "CHR 0x0A \<notin> set l \<Longrightarrow> l \<noteq> [] \<Longrightarrow> str_lines l = [l]"
  by (subst str_lines.simps) (simp add: split_byte)

lemma valid_utf8_append: "valid_utf8 s \<Longrightarrow> valid_utf8 t \<Longrightarrow> valid_utf8 (s @ t)"
  by (induction s rule: valid_utf8.induct) (auto split: if_splits list.splits)

lemma valid_utf8_ascii: "(\<And>c. c \<in> set s \<Longrightarrow> of_char c < (128 :: nat)) \<Longrightarrow> valid_utf8 s"
proof (induction s)
  case (Cons c s)
  have "of_char c < (128 :: nat)" by (rule Cons.prems) simp
  then have "of_char c \<le> (127 :: nat)" by simp
  with Cons show ?case by (simp add: byte_in_def)
qed simp

lemma strip_one_hd:
  assumes "s \<noteq> []" "\<And>p. p \<in> set ps \<Longrightarrow> p \<noteq> [] \<Longrightarrow> hd p \<noteq> hd s"
  shows "strip_one ps s = None"
  using assms
proof (induction ps)
  case (Cons p ps)
  have "take (length p) s = p \<Longrightarrow> p \<noteq> [] \<Longrightarrow> hd p = hd s" using Cons.prems(1)
    by (metis hd_append2 append_take_drop_id)
  then show ?case using Cons by auto
qed simp

text \<open>Printable ASCII at both ends: trimming is the identity.\<close>

definition ascii_graphic :: "char \<Rightarrow> bool" where
  "ascii_graphic c \<longleftrightarrow> byte_in 33 126 c"

lemma trim_start_graphic:
  assumes "s \<noteq> []" "ascii_graphic (hd s)" "\<And>p. p \<in> set ps \<Longrightarrow> p \<noteq> [] \<Longrightarrow> \<not> ascii_graphic (hd p)"
  shows "trim_start_seqs ps s = s"
proof -
  have "hd p \<noteq> hd s" if "p \<in> set ps" "p \<noteq> []" for p using assms(2,3) that by metis
  then have "strip_one ps s = None" by (rule strip_one_hd [OF assms(1)])
  then show ?thesis by (simp add: trim_start_seqs.simps [of ps s])
qed

lemma whitespace_not_graphic:
  "p \<in> set whitespace_seqs \<Longrightarrow> \<not> ascii_graphic (hd p)"
  "p \<in> set (map rev whitespace_seqs) \<Longrightarrow> \<not> ascii_graphic (hd p)"
  by (auto simp: whitespace_seqs_def ascii_graphic_def byte_in_def upt_rec)

lemma trim_graphic:
  assumes "s \<noteq> []" "ascii_graphic (hd s)" "ascii_graphic (last s)"
  shows "trim s = s"
  using assms trim_start_graphic [OF assms(1,2), of whitespace_seqs]
    trim_start_graphic [of "rev s" "map rev whitespace_seqs"]
  by (simp add: trim_def whitespace_not_graphic hd_rev)

lemma trim_Nil [simp]: "trim [] = []"
proof -
  have "strip_one ps [] = None" for ps by (induction ps) auto
  then show ?thesis by (simp add: trim_def trim_start_seqs.simps)
qed

text \<open>\<^verbatim>\<open>str::split_whitespace\<close>.\<close>

fun split_blank :: "string list \<Rightarrow> string \<Rightarrow> string list" where
  "split_blank [] word = (if word = [] then [] else [word])"
| "split_blank (ch # chs) word =
     (if ch \<in> set whitespace_seqs then (if word = [] then [] else [word]) @ split_blank chs []
      else split_blank chs (word @ ch))"

definition split_whitespace :: "string \<Rightarrow> string list" where
  "split_whitespace s = split_blank (str_chars s) []"

lemma split_blank_graphic:
  "list_all ascii_graphic w \<Longrightarrow> split_blank (str_chars (w @ s)) acc = split_blank (str_chars s) (acc @ w)"
proof (induction w arbitrary: acc)
  case (Cons c w)
  have "of_char c < (128 :: nat)" "[c] \<notin> set whitespace_seqs"
    using Cons.prems whitespace_not_graphic(1) [of "[c]"] by (auto simp: ascii_graphic_def byte_in_def)
  then show ?case using Cons by simp
qed simp

text \<open>Words without blanks are found again between single spaces.\<close>

lemma split_whitespace_words:
  "list_all (\<lambda>w. w \<noteq> [] \<and> list_all ascii_graphic w) ws \<Longrightarrow> split_whitespace (join_with '' '' ws) = ws"
proof (induction "'' ''" ws rule: join_with.induct)
  case (3 x y zs)
  have "char_of (of_char (CHR '' '') :: nat) = CHR '' ''" by (rule char_of_char)
  then have "CHR '' '' = char_of (32 :: nat)" by simp
  then have "[CHR '' ''] \<in> set whitespace_seqs" by (simp add: whitespace_seqs_def upt_rec)
  then show ?case using 3 split_blank_graphic [of x _ "[]"] by (simp add: split_whitespace_def)
qed (use split_blank_graphic [of _ "[]" "[]"] in \<open>auto simp: split_whitespace_def\<close>)

lemma digits_graphic: "c \<in> set (nat_to_string n) \<Longrightarrow> ascii_graphic c"
  by (auto simp: ascii_graphic_def byte_in_def is_ascii_digit_def dest: nat_to_string_digits)

lemma trim_nat_to_string [simp]: "trim (nat_to_string n) = nat_to_string n"
  by (rule trim_graphic) (simp_all add: digits_graphic [OF hd_in_set] digits_graphic [OF last_in_set])

lemma valid_utf8_nat_to_string [simp]: "valid_utf8 (nat_to_string n)"
  by (rule valid_utf8_ascii) (auto dest!: nat_to_string_digits simp: is_ascii_digit_def)

section \<open>Hash maps as association lists\<close>

text \<open>\<^verbatim>\<open>insert\<close>, \<^verbatim>\<open>remove\<close> and \<^verbatim>\<open>get\<close> are \<^const>\<open>AList.update\<close>, \<^const>\<open>AList.delete\<close> and
  \<^const>\<open>map_of\<close>; \<^verbatim>\<open>values_mut\<close> and \<^verbatim>\<open>retain\<close> are the two functions below.\<close>

abbreviation hm_get :: "('k \<times> 'v) list \<Rightarrow> 'k \<Rightarrow> 'v option" where "hm_get m k \<equiv> map_of m k"
abbreviation hm_insert :: "'k \<Rightarrow> 'v \<Rightarrow> ('k \<times> 'v) list \<Rightarrow> ('k \<times> 'v) list" where
  "hm_insert \<equiv> AList.update"
abbreviation hm_remove :: "'k \<Rightarrow> ('k \<times> 'v) list \<Rightarrow> ('k \<times> 'v) list" where
  "hm_remove \<equiv> AList.delete"
abbreviation hm_wf :: "('k \<times> 'v) list \<Rightarrow> bool" where "hm_wf m \<equiv> distinct (map fst m)"

definition hm_map_values :: "('v \<Rightarrow> 'v) \<Rightarrow> ('k \<times> 'v) list \<Rightarrow> ('k \<times> 'v) list" where
  "hm_map_values f m = map (\<lambda>(k, v). (k, f v)) m"

definition hm_retain :: "('k \<Rightarrow> 'v \<Rightarrow> bool) \<Rightarrow> ('k \<times> 'v) list \<Rightarrow> ('k \<times> 'v) list" where
  "hm_retain P m = filter (\<lambda>(k, v). P k v) m"

lemma map_of_update [simp]: "map_of (AList.update k v m) k' = (if k' = k then Some v else map_of m k')"
  by (simp add: update_conv')

lemma map_of_delete [simp]: "map_of (AList.delete k m) k' = (if k' = k then None else map_of m k')"
  by (simp add: delete_conv')

lemma hm_wf_update [simp, intro]: "hm_wf m \<Longrightarrow> hm_wf (AList.update k v m)"
  by (rule distinct_update)

lemma hm_wf_delete [simp, intro]: "hm_wf m \<Longrightarrow> hm_wf (AList.delete k m)"
  by (rule distinct_delete)

lemma fst_hm_map_values [simp]: "map fst (hm_map_values f m) = map fst m"
  by (simp add: hm_map_values_def case_prod_beta comp_def)

lemma map_of_hm_map_values [simp]: "map_of (hm_map_values f m) k = map_option f (map_of m k)"
  by (induction m) (auto simp: hm_map_values_def)

lemma hm_wf_retain [simp, intro]: "hm_wf m \<Longrightarrow> hm_wf (hm_retain P m)"
  by (simp add: hm_retain_def distinct_map_filter)

lemma map_of_hm_retain:
  "hm_wf m \<Longrightarrow> map_of (hm_retain P m) k =
     (case map_of m k of None \<Rightarrow> None | Some v \<Rightarrow> if P k v then Some v else None)"
proof (induction m)
  case Nil
  then show ?case by (simp add: hm_retain_def)
next
  case (Cons a m)
  obtain k' v' where a: "a = (k', v')" by (cases a)
  from Cons.prems have "map_of m k' = None" by (simp add: a map_of_eq_None_iff)
  with Cons show ?case by (auto simp: a hm_retain_def split: option.splits)
qed

lemma hm_empty_iff: "m = [] \<longleftrightarrow> (\<forall>k. map_of m k = None)"
  by (cases m) auto

lemma set_alist_update:
  "hm_wf m \<Longrightarrow> set (AList.update k v m) = insert (k, v) {p \<in> set m. fst p \<noteq> k}"
proof (induction m)
  case Nil
  then show ?case by simp
next
  case (Cons a m)
  then show ?case by (cases a) (auto dest: in_set_zipE simp: image_iff)
qed

section \<open>Majorities\<close>

text \<open>Two majorities of the same finite set share a member.\<close>

lemma majorities_intersect:
  assumes "finite S" "A \<subseteq> S" "B \<subseteq> S"
    and "card S < card A + card B"
  shows "\<exists>x. x \<in> A \<and> x \<in> B"
proof (rule ccontr)
  assume "\<nexists>x. x \<in> A \<and> x \<in> B"
  then have "A \<inter> B = {}" by blast
  moreover have "finite A" "finite B" using assms finite_subset by blast+
  ultimately have "card A + card B = card (A \<union> B)" by (simp add: card_Un_disjoint)
  also have "\<dots> \<le> card S" using assms by (intro card_mono) auto
  finally show False using assms(4) by simp
qed

end
