(* ===== verification/Raft_Log.thy ===== *)
theory Raft_Log
  imports Prelude
begin

text \<open>
  The replicated log of \<^verbatim>\<open>pirc-server/src/raft/log.rs\<close> and the entry type of
  \<^verbatim>\<open>raft/types.rs\<close>. Terms and log indices (\<^verbatim>\<open>u64\<close>) are natural numbers; every
  subtraction of the source is guarded by a comparison, and the guard is kept.

  The second half gives the log its meaning: \<open>log_get\<close> as a partial map from indices to
  entries, the invariant \<open>log_wf\<close> (an entry's index is its position), the recursive
  reference \<open>merge_suffix\<close> for the conflict-resolving loop of \<^verbatim>\<open>append_entries\<close>, and
  the effect of truncation and compaction on look-ups.
\<close>

section \<open>Data\<close>

record 'c log_entry =
  e_term :: nat
  e_index :: nat
  e_command :: 'c

record 'c raft_log =
  entries :: "'c log_entry list"
  log_offset :: nat
  snapshot_term :: nat

section \<open>Operations\<close>

definition log_new :: "'c raft_log" where
  "log_new = \<lparr>entries = [], log_offset = 0, snapshot_term = 0\<rparr>"

definition to_internal :: "'c raft_log \<Rightarrow> nat \<Rightarrow> nat option" where
  "to_internal L i =
     (if i \<le> log_offset L then None
      else let internal = (i - log_offset L) - 1 in
           if internal \<ge> length (entries L) then None else Some internal)"

definition log_append :: "'c raft_log \<Rightarrow> 'c log_entry \<Rightarrow> 'c raft_log" where
  "log_append L e = L\<lparr>entries := entries L @ [e]\<rparr>"

definition log_get :: "'c raft_log \<Rightarrow> nat \<Rightarrow> 'c log_entry option" where
  "log_get L i = map_option (\<lambda>k. entries L ! k) (to_internal L i)"

definition last_index :: "'c raft_log \<Rightarrow> nat" where
  "last_index L = log_offset L + length (entries L)"

definition last_term :: "'c raft_log \<Rightarrow> nat" where
  "last_term L = (if entries L = [] then snapshot_term L else e_term (last (entries L)))"

definition log_slice :: "'c raft_log \<Rightarrow> nat \<Rightarrow> nat \<Rightarrow> 'c log_entry list" where
  "log_slice L start end' =
     (if start \<le> log_offset L \<or> start \<ge> end' then []
      else let start_internal = (start - log_offset L) - 1 in
           if start_internal \<ge> length (entries L) then []
           else let end_internal = min ((end' - log_offset L) - 1) (length (entries L)) in
                if end_internal \<le> start_internal then []
                else take (end_internal - start_internal) (drop start_internal (entries L)))"

definition truncate_from :: "'c raft_log \<Rightarrow> nat \<Rightarrow> 'c raft_log" where
  "truncate_from L i =
     (if i \<le> log_offset L then L
      else L\<lparr>entries := take ((i - log_offset L) - 1) (entries L)\<rparr>)"

definition entries_from :: "'c raft_log \<Rightarrow> nat \<Rightarrow> 'c log_entry list" where
  "entries_from L i =
     (if i \<le> log_offset L \<or> i > log_offset L + length (entries L) then []
      else drop ((i - log_offset L) - 1) (entries L))"

definition term_at :: "'c raft_log \<Rightarrow> nat \<Rightarrow> nat option" where
  "term_at L i =
     (if i = log_offset L \<and> log_offset L > 0 then Some (snapshot_term L)
      else map_option e_term (log_get L i))"

text \<open>One round of the loop of \<^verbatim>\<open>append_entries\<close>.\<close>

definition append_one :: "'c raft_log \<Rightarrow> 'c log_entry \<Rightarrow> 'c raft_log" where
  "append_one L e =
     (if e_index e \<le> log_offset L then L
      else let internal_pos = e_index e - log_offset L in
           if internal_pos \<le> length (entries L) then
             (if e_term (entries L ! (internal_pos - 1)) \<noteq> e_term e
              then L\<lparr>entries := take (internal_pos - 1) (entries L) @ [e]\<rparr>
              else L)
           else L\<lparr>entries := entries L @ [e]\<rparr>)"

fun append_loop :: "'c log_entry list \<Rightarrow> 'c raft_log \<Rightarrow> 'c raft_log" where
  "append_loop [] L = L"
| "append_loop (e # es) L = append_loop es (append_one L e)"

definition log_append_entries ::
  "'c raft_log \<Rightarrow> nat \<Rightarrow> nat \<Rightarrow> 'c log_entry list \<Rightarrow> bool \<times> 'c raft_log" where
  "log_append_entries L prev_log_index prev_log_term es =
     (if prev_log_index > 0 \<and> term_at L prev_log_index \<noteq> Some prev_log_term
      then (False, L)
      else (True, append_loop es L))"

definition from_entries :: "'c log_entry list \<Rightarrow> 'c raft_log" where
  "from_entries es = \<lparr>entries = es, log_offset = 0, snapshot_term = 0\<rparr>"

definition compact_to :: "'c raft_log \<Rightarrow> nat \<Rightarrow> 'c raft_log" where
  "compact_to L target =
     (if target \<le> log_offset L then L
      else if target > last_index L then L
      else let compacted_term =
                 (case log_get L target of None \<Rightarrow> snapshot_term L | Some e \<Rightarrow> e_term e) in
           L\<lparr>entries := drop (target - log_offset L) (entries L),
             log_offset := target, snapshot_term := compacted_term\<rparr>)"

definition reset_to_snapshot :: "'c raft_log \<Rightarrow> nat \<Rightarrow> nat \<Rightarrow> 'c raft_log" where
  "reset_to_snapshot L idx t = L\<lparr>entries := [], log_offset := idx, snapshot_term := t\<rparr>"

definition is_compacted :: "'c raft_log \<Rightarrow> nat \<Rightarrow> bool" where
  "is_compacted L i \<longleftrightarrow> i \<le> log_offset L"

section \<open>Invariant and reference definitions\<close>

text \<open>Entries whose indices follow \<open>p\<close> without a gap.\<close>

definition contiguous :: "nat \<Rightarrow> 'c log_entry list \<Rightarrow> bool" where
  "contiguous p es \<longleftrightarrow> (\<forall>i < length es. e_index (es ! i) = p + i + 1)"

definition log_wf :: "'c raft_log \<Rightarrow> bool" where
  "log_wf L \<longleftrightarrow> contiguous (log_offset L) (entries L)"

text \<open>Terms never decrease along the log, and start at or above the snapshot's term.\<close>

definition terms_sorted :: "'c raft_log \<Rightarrow> bool" where
  "terms_sorted L \<longleftrightarrow> sorted (snapshot_term L # map e_term (entries L))"

text \<open>
  What Raft asks of \<^verbatim>\<open>append_entries\<close>, by recursion on the two suffixes: keep the own
  entry while the terms agree, and take everything from the leader at the first conflict.
\<close>

fun merge_suffix :: "'c log_entry list \<Rightarrow> 'c log_entry list \<Rightarrow> 'c log_entry list" where
  "merge_suffix xs [] = xs"
| "merge_suffix [] (e # es) = e # es"
| "merge_suffix (x # xs) (e # es) =
     (if e_term x = e_term e then x # merge_suffix xs es else e # es)"

section \<open>Lemmas\<close>

lemma contiguous_Nil [simp]: "contiguous p []"
  by (simp add: contiguous_def)

lemma contiguous_Cons [simp]:
  "contiguous p (e # es) \<longleftrightarrow> e_index e = Suc p \<and> contiguous (Suc p) es"
  by (auto simp: contiguous_def nth_Cons' less_Suc_eq_0_disj)

lemma contiguous_append [simp]:
  "contiguous p (xs @ ys) \<longleftrightarrow> contiguous p xs \<and> contiguous (p + length xs) ys"
  by (induction xs arbitrary: p) auto

lemma contiguous_take [intro]: "contiguous p es \<Longrightarrow> contiguous p (take n es)"
  by (simp add: contiguous_def)

lemma contiguous_drop: "contiguous p es \<Longrightarrow> n \<le> length es \<Longrightarrow> contiguous (p + n) (drop n es)"
  by (simp add: contiguous_def)

lemma log_get_eq:
  "log_get L i = (if log_offset L < i \<and> i \<le> last_index L
                  then Some (entries L ! (i - log_offset L - 1)) else None)"
  by (auto simp: log_get_def to_internal_def last_index_def Let_def)

lemma log_get_Some_iff:
  "log_get L i = Some e \<longleftrightarrow>
     log_offset L < i \<and> i \<le> last_index L \<and> e = entries L ! (i - log_offset L - 1)"
  by (auto simp: log_get_eq)

lemma log_get_None_iff: "log_get L i = None \<longleftrightarrow> i \<le> log_offset L \<or> last_index L < i"
  by (auto simp: log_get_eq)

lemma log_wf_get_index: "log_wf L \<Longrightarrow> log_get L i = Some e \<Longrightarrow> e_index e = i"
  by (auto simp: log_wf_def contiguous_def log_get_Some_iff last_index_def)

lemma term_at_Some_bounds:
  "term_at L i = Some t \<Longrightarrow> log_offset L \<le> i \<and> i \<le> last_index L"
  by (auto simp: term_at_def log_get_Some_iff last_index_def split: if_splits)

lemma term_at_above: "log_offset L < i \<Longrightarrow> term_at L i = map_option e_term (log_get L i)"
  by (simp add: term_at_def)

lemma log_wf_new [simp]: "log_wf log_new"
  by (simp add: log_wf_def log_new_def)

lemma log_wf_append: "log_wf L \<Longrightarrow> e_index e = Suc (last_index L) \<Longrightarrow> log_wf (log_append L e)"
  by (simp add: log_wf_def log_append_def last_index_def)

lemma last_index_append [simp]: "last_index (log_append L e) = Suc (last_index L)"
  by (simp add: last_index_def log_append_def)

lemma log_get_append:
  "log_get (log_append L e) i = (if i = Suc (last_index L) then Some e else log_get L i)"
  by (auto simp: log_get_eq last_index_def log_append_def nth_append)

lemma log_wf_truncate: "log_wf L \<Longrightarrow> log_wf (truncate_from L i)"
  by (auto simp: log_wf_def truncate_from_def)

lemma log_get_truncate:
  "log_offset L < i \<Longrightarrow>
     log_get (truncate_from L i) j = (if j < i then log_get L j else None)"
  by (auto simp: log_get_eq truncate_from_def last_index_def min_def)

lemma log_wf_reset [simp]: "log_wf (reset_to_snapshot L i t)"
  by (simp add: log_wf_def reset_to_snapshot_def)

lemma last_index_reset [simp]: "last_index (reset_to_snapshot L i t) = i"
  by (simp add: last_index_def reset_to_snapshot_def)

subsection \<open>The conflict-resolving loop\<close>

lemma merge_suffix_Nil [simp]: "merge_suffix [] es = es"
  by (cases es) simp_all

lemma append_loop_frame [simp]:
  "log_offset (append_loop es L) = log_offset L"
  "snapshot_term (append_loop es L) = snapshot_term L"
  by (induction es arbitrary: L) (auto simp: append_one_def Let_def)

lemma append_loop_merge:
  assumes "contiguous p es" "log_offset L \<le> p" "p \<le> last_index L"
  shows "entries (append_loop es L) =
           take (p - log_offset L) (entries L)
             @ merge_suffix (drop (p - log_offset L) (entries L)) es"
  using assms
proof (induction es arbitrary: p L)
  case Nil
  then show ?case by simp
next
  case (Cons e es)
  let ?k = "p - log_offset L" and ?xs = "entries L"
  from Cons.prems have idx: "e_index e = Suc p" and cont: "contiguous (Suc p) es" by auto
  from Cons.prems have pos: "e_index e - log_offset L = Suc ?k" and k: "?k \<le> length ?xs"
    by (auto simp: idx last_index_def)
  have one: "append_one L e = L\<lparr>entries :=
      (if ?k < length ?xs \<and> e_term (?xs ! ?k) = e_term e then ?xs else take ?k ?xs @ [e])\<rparr>"
    using Cons.prems(2) k by (auto simp: append_one_def idx pos Let_def Suc_diff_le)
  show ?case
  proof (cases "?k < length ?xs \<and> e_term (?xs ! ?k) = e_term e")
    case True
    then have one': "append_one L e = L" using one by simp
    have "drop ?k ?xs = ?xs ! ?k # drop (Suc ?k) ?xs" using True by (simp add: Cons_nth_drop_Suc)
    moreover have "entries (append_loop es L) =
        take (Suc p - log_offset L) ?xs @ merge_suffix (drop (Suc p - log_offset L) ?xs) es"
      using Cons.prems(2) True by (intro Cons.IH [OF cont]) (auto simp: last_index_def)
    ultimately show ?thesis
      using True Cons.prems(2) by (simp add: one' Suc_diff_le take_Suc_conv_app_nth)
  next
    case False
    let ?L = "append_one L e"
    have L: "?L = L\<lparr>entries := take ?k ?xs @ [e]\<rparr>" using one False by simp
    have len: "length (take ?k ?xs @ [e]) = Suc ?k" using k by simp
    have "entries (append_loop es ?L) = take ?k ?xs @ e # es"
      using Cons.IH [OF cont, of ?L] Cons.prems(2) len k by (simp add: L last_index_def Suc_diff_le)
    moreover have "merge_suffix (drop ?k ?xs) (e # es) = e # es"
    proof (cases "?k < length ?xs")
      case True
      then have "drop ?k ?xs = ?xs ! ?k # drop (Suc ?k) ?xs" by (simp add: Cons_nth_drop_Suc)
      with False True show ?thesis by simp
    qed simp
    ultimately show ?thesis by simp
  qed
qed

text \<open>Entries at or below the compaction point are skipped.\<close>

lemma append_loop_skip:
  "contiguous p es \<Longrightarrow> p \<le> log_offset L \<Longrightarrow>
     append_loop es L = append_loop (drop (log_offset L - p) es) L"
proof (induction es arbitrary: p)
  case Nil
  then show ?case by simp
next
  case (Cons e es)
  then show ?case
    by (cases "p = log_offset L") (auto simp: append_one_def drop_Cons' Suc_diff_Suc)
qed

lemma contiguous_merge:
  "contiguous p xs \<Longrightarrow> contiguous p es \<Longrightarrow> contiguous p (merge_suffix xs es)"
  by (induction xs es arbitrary: p rule: merge_suffix.induct) auto

lemma length_merge_suffix_ge: "length es \<le> length (merge_suffix xs es)"
  by (induction xs es rule: merge_suffix.induct) auto

lemma merge_suffix_idem: "merge_suffix (merge_suffix xs es) es = merge_suffix xs es"
proof (induction xs es rule: merge_suffix.induct)
  case (2 e es)
  have "merge_suffix es es = es" by (induction es) auto
  then show ?case by simp
next
  case (3 x xs e es)
  have "merge_suffix es es = es" by (induction es) auto
  then show ?case using 3 by simp
qed simp

lemma merge_suffix_agree:
  "(\<And>i. i < length xs \<Longrightarrow> i < length es \<Longrightarrow> e_term (xs ! i) = e_term (es ! i) \<Longrightarrow> xs ! i = es ! i)
     \<Longrightarrow> take (length es) (merge_suffix xs es) = es"
proof (induction xs es rule: merge_suffix.induct)
  case (3 x xs e es)
  show ?case
  proof (cases "e_term x = e_term e")
    case True
    then have "x = e" using "3.prems" [of 0] by simp
    moreover have "take (length es) (merge_suffix xs es) = es"
      by (rule "3.IH" [OF True]) (use "3.prems" [of "Suc _"] in simp)
    ultimately show ?thesis by simp
  qed simp
qed simp_all

text \<open>
  Prefix agreement implies the merge changes nothing: a delayed or repeated
  \<^verbatim>\<open>AppendEntries\<close> whose entries are already in the log does not truncate it.
\<close>

lemma merge_suffix_prefix:
  "length es \<le> length xs \<Longrightarrow> (\<And>i. i < length es \<Longrightarrow> e_term (xs ! i) = e_term (es ! i))
     \<Longrightarrow> merge_suffix xs es = xs"
proof (induction xs es rule: merge_suffix.induct)
  case (3 x xs e es)
  have "e_term x = e_term e" using "3.prems"(2) [of 0] by simp
  moreover have "merge_suffix xs es = xs"
    by (rule "3.IH" [OF calculation]) (use "3.prems"(1) "3.prems"(2) [of "Suc _"] in auto)
  ultimately show ?case by simp
qed simp_all

lemma log_append_entries_False:
  "log_append_entries L p t es = (False, L') \<Longrightarrow> L' = L"
  by (auto simp: log_append_entries_def split: if_splits)

text \<open>
  The full effect of a successful \<^verbatim>\<open>append_entries\<close> on contiguous entries: above
  \<open>max prev offset\<close> the log is the reference merge, below it is untouched.
\<close>

lemma log_append_entries_merge:
  assumes ok: "log_append_entries L prev t es = (True, L')"
    and cont: "contiguous prev es"
  defines "q \<equiv> max prev (log_offset L)"
  shows "L' = L\<lparr>entries := take (q - log_offset L) (entries L)
             @ merge_suffix (drop (q - log_offset L) (entries L)) (drop (q - prev) es)\<rparr>"
proof -
  have L': "L' = append_loop es L" and chk: "prev = 0 \<or> term_at L prev = Some t"
    using ok by (auto simp: log_append_entries_def split: if_splits)
  have "entries L' = take (q - log_offset L) (entries L)
             @ merge_suffix (drop (q - log_offset L) (entries L)) (drop (q - prev) es)"
  proof (cases "prev \<le> log_offset L")
    case True
    then have q: "q = log_offset L" unfolding q_def by (rule max_absorb2)
    have "contiguous (log_offset L) (drop (log_offset L - prev) es)"
      using contiguous_drop [OF cont, of "log_offset L - prev"] True
      by (cases "log_offset L - prev \<le> length es") auto
    then have "entries (append_loop (drop (log_offset L - prev) es) L) =
        merge_suffix (entries L) (drop (log_offset L - prev) es)"
      using append_loop_merge [of "log_offset L" "drop (log_offset L - prev) es" L]
      by (simp add: last_index_def)
    then show ?thesis
      unfolding L' append_loop_skip [OF cont True] q by simp
  next
    case False
    then have q: "q = prev" by (simp add: q_def)
    have "prev \<le> last_index L" using False chk by (auto dest: term_at_Some_bounds)
    then show ?thesis using append_loop_merge [OF cont] False by (simp add: L' q)
  qed
  then show ?thesis by (simp add: L')
qed

lemma log_wf_append_entries:
  assumes "log_wf L" "contiguous prev es" "log_append_entries L prev t es = (True, L')"
  shows "log_wf L'"
proof -
  let ?q = "max prev (log_offset L)" and ?o = "log_offset L"
  have le: "?q - ?o \<le> length (entries L)"
    using assms(3) by (auto simp: log_append_entries_def last_index_def max_def
        split: if_splits dest: term_at_Some_bounds)
  have d: "contiguous ?q (drop (?q - prev) es)"
    using contiguous_drop [OF assms(2), of "?q - prev"]
    by (cases "?q - prev \<le> length es") (auto simp: max_def)
  have "contiguous (?o + (?q - ?o)) (drop (?q - ?o) (entries L))"
    using contiguous_drop [OF _ le, of ?o] assms(1) by (simp add: log_wf_def)
  moreover have "?o + (?q - ?o) = ?q" by simp
  ultimately have "contiguous ?q (drop (?q - ?o) (entries L))" by metis
  then have "contiguous ?q (merge_suffix (drop (?q - ?o) (entries L)) (drop (?q - prev) es))"
    using d by (rule contiguous_merge)
  then have "contiguous ?o (take (?q - ?o) (entries L)
      @ merge_suffix (drop (?q - ?o) (entries L)) (drop (?q - prev) es))"
    using assms(1) le by (simp add: log_wf_def contiguous_take)
  then show ?thesis
    using log_append_entries_merge [OF assms(3,2)] by (simp add: log_wf_def)
qed

subsection \<open>Compaction\<close>

lemma last_index_compact [simp]: "last_index (compact_to L target) = last_index L"
  by (auto simp: compact_to_def last_index_def Let_def)

lemma log_offset_compact:
  "log_offset (compact_to L target) =
     (if log_offset L < target \<and> target \<le> last_index L then target else log_offset L)"
  by (auto simp: compact_to_def Let_def)

lemma log_get_compact:
  "log_get (compact_to L target) i =
     (if log_offset L < target \<and> target \<le> last_index L \<and> i \<le> target then None else log_get L i)"
  by (auto simp: compact_to_def log_get_eq last_index_def Let_def add.commute)

lemma term_at_compact:
  assumes "log_offset L < target" "target \<le> last_index L" "target \<le> i"
  shows "term_at (compact_to L target) i = term_at L i"
proof -
  obtain e where "log_get L target = Some e" using assms by (simp add: log_get_eq)
  then show ?thesis
    using assms log_get_compact [of L target i]
    by (auto simp: term_at_def log_offset_compact) (simp add: compact_to_def)
qed

lemma last_term_compact [simp]: "last_term (compact_to L target) = last_term L"
proof (cases "log_offset L < target \<and> target \<le> last_index L")
  case True
  then have g: "log_get L target = Some (entries L ! (target - log_offset L - 1))"
    and ne: "entries L \<noteq> []" by (auto simp: log_get_eq last_index_def)
  show ?thesis
  proof (cases "target = last_index L")
    case True
    then have "target - log_offset L - 1 = length (entries L) - 1" by (simp add: last_index_def)
    with True ne g show ?thesis
      by (simp add: last_term_def compact_to_def last_index_def last_conv_nth)
  next
    case False
    with True have "target - log_offset L < length (entries L)" by (auto simp: last_index_def)
    with True ne show ?thesis by (simp add: last_term_def compact_to_def Let_def)
  qed
qed (auto simp: compact_to_def)

lemma log_wf_compact: "log_wf L \<Longrightarrow> log_wf (compact_to L target)"
  using contiguous_drop [of "log_offset L" "entries L" "target - log_offset L"]
  by (auto simp: log_wf_def compact_to_def last_index_def Let_def)

subsection \<open>Ranges\<close>

lemma entries_from_nth:
  "i < length (entries_from L s) \<Longrightarrow> log_get L (s + i) = Some (entries_from L s ! i)"
  by (auto simp: entries_from_def log_get_eq last_index_def split: if_splits)

lemma length_entries_from:
  "log_offset L < s \<Longrightarrow> length (entries_from L s) = Suc (last_index L) - s"
  by (auto simp: entries_from_def last_index_def)

lemma contiguous_entries_from: "log_wf L \<Longrightarrow> contiguous p (entries_from L (Suc p))"
  by (auto simp: contiguous_def dest!: entries_from_nth log_wf_get_index)

text \<open>Reading a range is reading every index of it.\<close>

lemma log_slice_conv:
  assumes "log_offset L < start"
  shows "log_slice L start end' =
    take (end' - start) (drop (start - log_offset L - 1) (entries L))"
proof -
  obtain d where d: "start = Suc (log_offset L + d)" using assms by (metis less_iff_Suc_add)
  show ?thesis
    by (cases "end' \<le> start") (auto simp: log_slice_def Let_def d min_def)
qed

lemma log_slice_eq:
  assumes "log_offset L < start"
  shows "map Some (log_slice L start end')
         = map (log_get L) [start ..< min end' (Suc (last_index L))]"
proof (rule nth_equalityI)
  show "length (map Some (log_slice L start end'))
      = length (map (log_get L) [start ..< min end' (Suc (last_index L))])"
    using assms by (simp add: log_slice_conv last_index_def min_def) linarith
next
  fix i assume i: "i < length (map Some (log_slice L start end'))"
  obtain d where d: "start = Suc (log_offset L + d)" using assms by (metis less_iff_Suc_add)
  from i show "map Some (log_slice L start end') ! i
      = map (log_get L) [start ..< min end' (Suc (last_index L))] ! i"
    using assms by (simp add: log_slice_conv log_get_eq last_index_def less_diff_conv d)
qed

subsection \<open>Sorted terms\<close>

lemma sorted_merge:
  "sorted (b # map e_term xs) \<Longrightarrow> sorted (b # map e_term es) \<Longrightarrow>
     sorted (b # map e_term (merge_suffix xs es))"
proof (induction xs es arbitrary: b rule: merge_suffix.induct)
  case (3 x xs e es)
  show ?case
  proof (cases "e_term x = e_term e")
    case True
    have "sorted (e_term x # map e_term xs)" "sorted (e_term x # map e_term es)"
      using "3.prems" True by (simp_all del: sorted_wrt.simps add: sorted2)
    then have "sorted (e_term x # map e_term (merge_suffix xs es))"
      by (rule "3.IH" [OF True])
    with True "3.prems"(1) show ?thesis by (simp del: sorted_wrt.simps add: sorted2)
  qed (use "3.prems" in simp)
qed simp_all

lemma terms_sorted_nth_mono:
  assumes "terms_sorted L" "log_get L i = Some a" "log_get L j = Some b" "i \<le> j"
  shows "e_term a \<le> e_term b"
proof -
  have "sorted (map e_term (entries L))" using assms(1) by (simp add: terms_sorted_def)
  then have "map e_term (entries L) ! (i - log_offset L - 1)
      \<le> map e_term (entries L) ! (j - log_offset L - 1)"
    using assms(2-4) by (intro sorted_nth_mono) (auto simp: log_get_Some_iff last_index_def)
  then show ?thesis using assms(2,3) by (auto simp: log_get_Some_iff last_index_def)
qed

lemma terms_sorted_term_at_mono:
  assumes "terms_sorted L" "term_at L i = Some a" "term_at L j = Some b" "i \<le> j"
  shows "a \<le> b"
proof (cases "i = log_offset L \<and> log_offset L > 0")
  case True
  then have a: "a = snapshot_term L" using assms(2) by (simp add: term_at_def)
  show ?thesis
  proof (cases "j = i")
    case False
    with assms(3,4) True obtain e where e: "log_get L j = Some e" "b = e_term e"
      by (auto simp: term_at_def)
    then have "e \<in> set (entries L)" by (auto simp: log_get_Some_iff last_index_def)
    then show ?thesis using assms(1) a e by (auto simp: terms_sorted_def)
  qed (use assms in simp)
next
  case False
  then obtain e where e: "log_get L i = Some e" "a = e_term e" using assms(2)
    by (auto simp: term_at_def split: if_splits)
  then have "log_offset L < j" using assms(4) by (auto simp: log_get_Some_iff)
  then obtain e' where "log_get L j = Some e'" "b = e_term e'"
    using assms(3) by (auto simp: term_at_def split: if_splits)
  then show ?thesis using terms_sorted_nth_mono [OF assms(1) e(1)] e(2) assms(4) by simp
qed

section \<open>Log matching\<close>

text \<open>
  Raft's Log Matching property between two logs: where both hold an entry (or a snapshot
  boundary) of the same term at the same index, they agree on every index up to it.
\<close>

definition log_matching :: "'c raft_log \<Rightarrow> 'c raft_log \<Rightarrow> bool" where
  "log_matching A B \<longleftrightarrow>
     (\<forall>i t. term_at A i = Some t \<longrightarrow> term_at B i = Some t \<longrightarrow>
        (\<forall>j \<le> i. log_get A j \<noteq> None \<longrightarrow> log_get B j \<noteq> None \<longrightarrow> log_get A j = log_get B j))"

lemma log_matchingD:
  assumes "log_matching A B" "term_at A i = Some t" "term_at B i = Some t" "j \<le> i"
    "log_get A j = Some a" "log_get B j = Some b"
  shows "a = b"
  using assms unfolding log_matching_def by fastforce

lemma log_get_append_entries_low:
  assumes "log_append_entries L prev t es = (True, L')" "contiguous prev es" "j \<le> prev"
  shows "log_get L' j = log_get L j"
proof (cases "prev \<le> log_offset L")
  case True
  then show ?thesis
    using assms by (simp add: log_get_eq log_append_entries_merge [OF assms(1,2)])
next
  case False
  then have "prev \<le> last_index L"
    using assms(1) by (auto simp: log_append_entries_def split: if_splits dest: term_at_Some_bounds)
  with False show ?thesis
    using assms(3) log_append_entries_merge [OF assms(1,2)]
    by (auto simp: log_get_eq last_index_def nth_append)
qed

lemma append_entries_agree_high:
  assumes ok: "log_append_entries L prev t es = (True, L')" and cont: "contiguous prev es"
    and same: "\<And>j a b. prev < j \<Longrightarrow> log_get L j = Some a \<Longrightarrow> j - prev - 1 < length es \<Longrightarrow>
                 b = es ! (j - prev - 1) \<Longrightarrow> e_term a = e_term b \<Longrightarrow> a = b"
    and j: "prev < j" "log_offset L < j" "j \<le> prev + length es"
  shows "log_get L' j = Some (es ! (j - prev - 1))"
proof -
  define o' where "o' = log_offset L"
  define q where "q = max prev o'"
  define xs where "xs = drop (q - o') (entries L)"
  define ys where "ys = drop (q - prev) es"
  have q: "prev \<le> q" "o' \<le> q" "q < j" using j by (auto simp: q_def o'_def)
  have le: "q - o' \<le> length (entries L)"
    using ok by (auto simp: q_def o'_def log_append_entries_def last_index_def max_def
        split: if_splits dest: term_at_Some_bounds)
  have n: "j - q - 1 < length ys" using j q by (simp add: ys_def)
  have "take (length ys) (merge_suffix xs ys) = ys"
  proof (rule merge_suffix_agree)
    fix i assume i: "i < length xs" "i < length ys" "e_term (xs ! i) = e_term (ys ! i)"
    have "log_get L (q + i + 1) = Some (xs ! i)"
      using i(1) le q by (simp add: log_get_eq last_index_def xs_def o'_def)
    moreover have "ys ! i = es ! (q + i + 1 - prev - 1)" "q + i + 1 - prev - 1 < length es"
      using i(2) q by (simp_all add: ys_def Suc_diff_le)
    ultimately show "xs ! i = ys ! i"
      using i(3) q same [of "q + i + 1" "xs ! i" "ys ! i"] by simp
  qed
  then have m: "merge_suffix xs ys ! (j - q - 1) = ys ! (j - q - 1)"
    using n by (metis nth_take)
  have L': "L' = L\<lparr>entries := take (q - o') (entries L) @ merge_suffix xs ys\<rparr>"
    using log_append_entries_merge [OF ok cont] by (simp add: q_def o'_def xs_def ys_def)
  have len: "j - q - 1 < length (merge_suffix xs ys)"
    using n length_merge_suffix_ge [of ys xs] by linarith
  have "log_get L' j = Some (merge_suffix xs ys ! (j - q - 1))"
    using le len q by (simp add: L' log_get_eq last_index_def nth_append o'_def [symmetric])
  moreover have "ys ! (j - q - 1) = es ! (j - prev - 1)" using n q by (simp add: ys_def)
  ultimately show ?thesis using m by simp
qed

section \<open>The log as an interface\<close>

text \<open>
  What the node relies on when it appends, compacts and reads its log: appending extends
  the index range by one and changes no other look-up, and compaction forgets a prefix
  only. The client lemmas are about any number of appends and about compacting after
  them.
\<close>

locale indexed_log =
  fixes invar :: "'l \<Rightarrow> bool"
    and get :: "'l \<Rightarrow> nat \<Rightarrow> 'e option"
    and top :: "'l \<Rightarrow> nat"
    and append :: "'l \<Rightarrow> 'e \<Rightarrow> 'l"
    and compact :: "'l \<Rightarrow> nat \<Rightarrow> 'l"
    and index_of :: "'e \<Rightarrow> nat"
  assumes get_index: "invar l \<Longrightarrow> get l i = Some e \<Longrightarrow> index_of e = i"
    and append_invar: "invar l \<Longrightarrow> index_of e = Suc (top l) \<Longrightarrow> invar (append l e)"
    and append_top: "top (append l e) = Suc (top l)"
    and append_get: "get (append l e) i = (if i = Suc (top l) then Some e else get l i)"
    and compact_invar: "invar l \<Longrightarrow> invar (compact l k)"
    and compact_top: "top (compact l k) = top l"
    and compact_get: "k < i \<Longrightarrow> get (compact l k) i = get l i"
begin

lemma foldl_append_top: "top (foldl append l es) = top l + length es"
  by (induction es arbitrary: l) (simp_all add: append_top)

lemma foldl_append_get_old: "i \<le> top l \<Longrightarrow> get (foldl append l es) i = get l i"
  by (induction es arbitrary: l) (simp_all add: append_top append_get)

lemma foldl_append_get_new:
  "k < length es \<Longrightarrow> get (foldl append l es) (Suc (top l + k)) = Some (es ! k)"
proof (induction es arbitrary: l k)
  case Nil
  then show ?case by simp
next
  case (Cons e es)
  show ?case
  proof (cases k)
    case 0
    have "get (foldl append (append l e) es) (Suc (top l)) = get (append l e) (Suc (top l))"
      by (rule foldl_append_get_old) (simp add: append_top)
    then show ?thesis by (simp add: 0 append_get)
  next
    case (Suc k')
    then show ?thesis using Cons.IH [of k' "append l e"] Cons.prems by (simp add: append_top)
  qed
qed

lemma compact_append_commutes_get:
  "k < i \<Longrightarrow> get (append (compact l k) e) i = get (compact (append l e) k) i"
  by (simp add: append_get compact_get compact_top)

end

interpretation rlog: indexed_log log_wf log_get last_index log_append compact_to e_index
  by unfold_locales
     (auto simp: log_wf_get_index log_wf_append log_get_append log_wf_compact log_get_compact)

section \<open>Properties\<close>

text \<open>
  C11. The conflict-resolving loop of \<^verbatim>\<open>RaftLog::append_entries\<close> is Raft's rule: on entries
  that follow \<open>prev_log_index\<close> without a gap it fails without touching the log when the
  entry at \<open>prev_log_index\<close> does not have \<open>prev_log_term\<close>, and otherwise keeps everything
  up to \<open>prev_log_index\<close> (and everything compacted) and replaces the rest by the recursive
  merge: own entries while terms agree, the leader's from the first conflict on.
\<close>

theorem append_entries_is_merge:
  fixes L :: "'c raft_log"
  assumes "contiguous prev es"
  shows "log_append_entries L prev t es =
     (if prev > 0 \<and> term_at L prev \<noteq> Some t then (False, L)
      else let q = max prev (log_offset L); k = q - log_offset L in
           (True, L\<lparr>entries := take k (entries L)
                      @ merge_suffix (drop k (entries L)) (drop (q - prev) es)\<rparr>))"
proof (cases "prev > 0 \<and> term_at L prev \<noteq> Some t")
  case False
  then obtain L' where "log_append_entries L prev t es = (True, L')"
    by (auto simp: log_append_entries_def)
  then show ?thesis using log_append_entries_merge [OF _ assms] False by (simp add: Let_def)
qed (simp add: log_append_entries_def)

theorem append_entries_is_merge_witness:
  "log_append_entries
     (from_entries [\<lparr>e_term = 1, e_index = 1, e_command = ''a''\<rparr>,
                    \<lparr>e_term = 1, e_index = 2, e_command = ''b''\<rparr>])
     1 1 [\<lparr>e_term = 2, e_index = 2, e_command = ''c''\<rparr>]
   = (True, from_entries [\<lparr>e_term = 1, e_index = 1, e_command = ''a''\<rparr>,
                          \<lparr>e_term = 2, e_index = 2, e_command = ''c''\<rparr>])"
proof -
  have "contiguous 1 [\<lparr>e_term = 2, e_index = 2, e_command = ''c''\<rparr>]" by simp
  from append_entries_is_merge [OF this] show ?thesis
    by (simp add: from_entries_def term_at_def log_get_def to_internal_def)
qed

text \<open>
  Replaying an \<^verbatim>\<open>AppendEntries\<close> is harmless: applying the same contiguous request a
  second time succeeds and changes nothing, and the invariant (each entry sits at its own
  index) survives.
\<close>

theorem append_entries_idempotent:
  fixes L :: "'c raft_log"
  assumes wf: "log_wf L" and cont: "contiguous prev es"
    and ok: "log_append_entries L prev t es = (True, L')"
  shows "log_wf L' \<and> log_append_entries L' prev t es = (True, L')"
proof
  show wf': "log_wf L'" by (rule log_wf_append_entries [OF wf cont ok])
  have "term_at L' prev = term_at L prev"
    using log_get_append_entries_low [OF ok cont, of prev] log_append_entries_merge [OF ok cont]
    by (simp add: term_at_def)
  then obtain L'' where ok': "log_append_entries L' prev t es = (True, L'')"
    using ok by (auto simp: log_append_entries_def split: if_splits)
  let ?k = "max prev (log_offset L) - log_offset L"
  have le: "?k \<le> length (entries L)"
    using ok by (auto simp: log_append_entries_def last_index_def max_def
        split: if_splits dest: term_at_Some_bounds)
  have "L'' = L'"
    using log_append_entries_merge [OF ok' cont] log_append_entries_merge [OF ok cont] le
    by (simp add: merge_suffix_idem)
  then show "log_append_entries L' prev t es = (True, L')" using ok' by simp
qed

theorem append_entries_idempotent_witness:
  "let L = from_entries [\<lparr>e_term = 1, e_index = 1, e_command = ''a''\<rparr>];
       es = [\<lparr>e_term = 2, e_index = 2, e_command = ''b''\<rparr>];
       L' = from_entries [\<lparr>e_term = 1, e_index = 1, e_command = ''a''\<rparr>,
                          \<lparr>e_term = 2, e_index = 2, e_command = ''b''\<rparr>]
   in log_wf L' \<and> log_append_entries L' 1 1 es = (True, L')"
  using append_entries_idempotent
    [of "from_entries [\<lparr>e_term = 1, e_index = 1, e_command = ''a''\<rparr>]" 1
        "[\<lparr>e_term = 2, e_index = 2, e_command = ''b''\<rparr>]" 1
        "from_entries [\<lparr>e_term = 1, e_index = 1, e_command = ''a''\<rparr>,
                       \<lparr>e_term = 2, e_index = 2, e_command = ''b''\<rparr>]"]
  by (simp add: log_wf_def from_entries_def log_append_entries_def append_one_def
      term_at_def log_get_def to_internal_def)

text \<open>
  Compaction is invisible above the snapshot point: for a target inside the log,
  \<^verbatim>\<open>compact_to\<close> keeps the last index and the last term, every entry above the target, and
  the term at the target itself (which the consistency check of the next
  \<^verbatim>\<open>AppendEntries\<close> needs), and it drops every entry at or below the target.
\<close>

theorem compact_to_transparent:
  fixes L :: "'c raft_log"
  assumes "log_wf L" "log_offset L < target" "target \<le> last_index L"
  shows "log_wf (compact_to L target)
    \<and> log_offset (compact_to L target) = target
    \<and> last_index (compact_to L target) = last_index L
    \<and> last_term (compact_to L target) = last_term L
    \<and> (\<forall>i. log_get (compact_to L target) i = (if i \<le> target then None else log_get L i))
    \<and> (\<forall>i. target \<le> i \<longrightarrow> term_at (compact_to L target) i = term_at L i)"
  using assms
  by (simp add: log_wf_compact log_offset_compact log_get_compact term_at_compact)

theorem compact_to_transparent_witness:
  "let L = from_entries [\<lparr>e_term = 1, e_index = 1, e_command = ''a''\<rparr>,
                         \<lparr>e_term = 3, e_index = 2, e_command = ''b''\<rparr>]
   in last_index (compact_to L 2) = 2 \<and> last_term (compact_to L 2) = 3
      \<and> term_at (compact_to L 2) 2 = Some 3"
proof -
  define L where "L = from_entries [\<lparr>e_term = 1, e_index = 1, e_command = ''a''\<rparr>,
                                    \<lparr>e_term = 3, e_index = 2, e_command = ''b''\<rparr>]"
  have "log_wf L" "log_offset L < 2" "2 \<le> last_index L"
    by (simp_all add: L_def log_wf_def from_entries_def last_index_def)
  note t = compact_to_transparent [OF this]
  have "last_index L = 2" "last_term L = 3" "term_at L 2 = Some 3"
    by (simp_all add: L_def from_entries_def last_index_def last_term_def term_at_def
        log_get_def to_internal_def)
  with t have "last_index (compact_to L 2) = 2 \<and> last_term (compact_to L 2) = 3
      \<and> term_at (compact_to L 2) 2 = Some 3" by auto
  then show ?thesis by (simp add: L_def Let_def)
qed

end
