(* ===== verification/Raft_Membership.thy ===== *)
theory Raft_Membership
  imports Prelude
begin

text \<open>
  Configuration, vote counting and cluster membership of the Raft node:
  \<^verbatim>\<open>RaftConfig\<close> of \<^verbatim>\<open>raft/types.rs\<close>, \<^verbatim>\<open>raft/election.rs\<close> and \<^verbatim>\<open>raft/membership.rs\<close>.

  Both the election tracker and the membership count a majority as \<open>n div 2 + 1\<close>; the
  locale \<open>majority_quorum\<close> states that contract once, proves that quorums intersect, also
  across a change of one server, and is interpreted for both.
\<close>

type_synonym node_id = nat
type_synonym socket_addr = string

section \<open>Configuration\<close>

text \<open>Durations are in nanoseconds.\<close>

record raft_config =
  election_timeout_min :: nat
  election_timeout_max :: nat
  heartbeat_interval :: nat
  cfg_node_id :: node_id
  cfg_peers :: "node_id list"
  snapshot_threshold :: nat
  snapshot_chunk_size :: nat

definition raft_config_default :: raft_config where
  "raft_config_default = \<lparr>
     election_timeout_min = 150000000, election_timeout_max = 300000000,
     heartbeat_interval = 50000000, cfg_node_id = 0, cfg_peers = [],
     snapshot_threshold = 1000, snapshot_chunk_size = 65536\<rparr>"

section \<open>Votes\<close>

record election_tracker =
  votes :: "node_id set"
  cluster_size :: nat

definition tracker_new :: "nat \<Rightarrow> election_tracker" where
  "tracker_new n = \<lparr>votes = {}, cluster_size = n\<rparr>"

definition tracker_quorum_size :: "election_tracker \<Rightarrow> nat" where
  "tracker_quorum_size tr = cluster_size tr div 2 + 1"

definition has_quorum :: "election_tracker \<Rightarrow> bool" where
  "has_quorum tr \<longleftrightarrow> card (votes tr) \<ge> tracker_quorum_size tr"

definition record_vote :: "election_tracker \<Rightarrow> node_id \<Rightarrow> election_tracker" where
  "record_vote tr from = tr\<lparr>votes := insert from (votes tr)\<rparr>"

definition tracker_reset :: "election_tracker \<Rightarrow> election_tracker" where
  "tracker_reset tr = tr\<lparr>votes := {}\<rparr>"

text \<open>
  \<^verbatim>\<open>compute_election_timeout\<close>. The scaling of the timeout range by
  \<^verbatim>\<open>position as f64 / (total - 1) as f64\<close> is floating-point arithmetic followed by
  \<^verbatim>\<open>Duration::from_secs_f64\<close>; it is the parameter \<open>scale\<close>, applied to the range, the
  position and \<open>total - 1\<close>.
\<close>

definition election_position :: "raft_config \<Rightarrow> nat" where
  "election_position cfg = length (filter (\<lambda>p. p < cfg_node_id cfg) (cfg_peers cfg))"

definition compute_election_timeout :: "(nat \<Rightarrow> nat \<Rightarrow> nat \<Rightarrow> nat) \<Rightarrow> raft_config \<Rightarrow> nat" where
  "compute_election_timeout scale cfg =
     (let range = election_timeout_max cfg - election_timeout_min cfg;
          total = length (cfg_peers cfg) + 1 in
      if total \<le> 1 then election_timeout_min cfg
      else election_timeout_min cfg + scale range (election_position cfg) (total - 1))"

definition is_log_up_to_date :: "nat \<Rightarrow> nat \<Rightarrow> nat \<Rightarrow> nat \<Rightarrow> bool" where
  "is_log_up_to_date candidate_last_term candidate_last_index our_last_term our_last_index \<longleftrightarrow>
     candidate_last_term > our_last_term
     \<or> candidate_last_term = our_last_term \<and> candidate_last_index \<ge> our_last_index"

section \<open>Membership\<close>

datatype membership_change = AddServer node_id socket_addr | RemoveServer node_id

record pending_change =
  pc_index :: nat
  pc_change :: membership_change

record cluster_membership =
  members :: "node_id set"
  generation :: nat
  pending :: "pending_change option"

datatype membership_error =
    NotLeader
  | ChangePending nat
  | NoCurrentTermCommit
  | AlreadyMember node_id
  | NotMember node_id
  | CannotRemoveLastMember

definition membership_new :: "node_id \<Rightarrow> node_id list \<Rightarrow> cluster_membership" where
  "membership_new self_id peers =
     \<lparr>members = insert self_id (set peers), generation = 0, pending = None\<rparr>"

definition member_count :: "cluster_membership \<Rightarrow> nat" where
  "member_count m = card (members m)"

definition quorum_size :: "cluster_membership \<Rightarrow> nat" where
  "quorum_size m = card (members m) div 2 + 1"

definition has_pending_change :: "cluster_membership \<Rightarrow> bool" where
  "has_pending_change m \<longleftrightarrow> pending m \<noteq> None"

definition is_member :: "cluster_membership \<Rightarrow> node_id \<Rightarrow> bool" where
  "is_member m n \<longleftrightarrow> n \<in> members m"

fun change_members :: "membership_change \<Rightarrow> node_id set \<Rightarrow> node_id set" where
  "change_members (AddServer n _) S = insert n S"
| "change_members (RemoveServer n) S = S - {n}"

definition begin_change :: "cluster_membership \<Rightarrow> nat \<Rightarrow> membership_change \<Rightarrow> cluster_membership" where
  "begin_change m index change =
     m\<lparr>members := change_members change (members m),
       pending := Some \<lparr>pc_index = index, pc_change = change\<rparr>\<rparr>"

definition commit_change :: "cluster_membership \<Rightarrow> cluster_membership" where
  "commit_change m =
     (if pending m \<noteq> None then m\<lparr>generation := generation m + 1, pending := None\<rparr> else m)"

definition rollback_change :: "cluster_membership \<Rightarrow> cluster_membership" where
  "rollback_change m =
     (case pending m of None \<Rightarrow> m
      | Some p \<Rightarrow>
          (case pc_change p of
             AddServer n _ \<Rightarrow> m\<lparr>members := members m - {n}, pending := None\<rparr>
           | RemoveServer n \<Rightarrow> m\<lparr>members := insert n (members m), pending := None\<rparr>))"

text \<open>\<^verbatim>\<open>peers\<close> collects a \<^verbatim>\<open>HashSet\<close> in its iteration order; ascending order stands for it.\<close>

definition membership_peers :: "cluster_membership \<Rightarrow> node_id \<Rightarrow> node_id list" where
  "membership_peers m self_id = sorted_list_of_set (members m - {self_id})"

text \<open>The checks of \<^verbatim>\<open>propose_membership_change\<close> that concern the change itself.\<close>

fun validate_change :: "cluster_membership \<Rightarrow> membership_change \<Rightarrow> membership_error + unit" where
  "validate_change m (AddServer n _) = (if is_member m n then Err (AlreadyMember n) else Ok ())"
| "validate_change m (RemoveServer n) =
     (if \<not> is_member m n then Err (NotMember n)
      else if member_count m \<le> 1 then Err CannotRemoveLastMember
      else Ok ())"

section \<open>Lemmas\<close>

lemma tracker_frame [simp]:
  "cluster_size (record_vote tr v) = cluster_size tr"
  "cluster_size (tracker_reset tr) = cluster_size tr"
  "votes (record_vote tr v) = insert v (votes tr)"
  "votes (tracker_reset tr) = {}"
  by (simp_all add: record_vote_def tracker_reset_def)

lemma set_membership_peers [simp]:
  "finite (members m) \<Longrightarrow> set (membership_peers m self) = members m - {self}"
  by (simp add: membership_peers_def)

lemma finite_change_members [simp]: "finite S \<Longrightarrow> finite (change_members c S)"
  by (cases c) auto

lemma finite_members_begin [simp]: "finite (members m) \<Longrightarrow> finite (members (begin_change m i c))"
  by (simp add: begin_change_def)

lemma finite_members_commit [simp]: "members (commit_change m) = members m"
  by (simp add: commit_change_def)

lemma finite_members_rollback [simp]:
  "finite (members m) \<Longrightarrow> finite (members (rollback_change m))"
  by (auto simp: rollback_change_def split: option.splits membership_change.splits)

lemma validated_begin_rollback:
  assumes "pending m = None" "validate_change m c = Ok ()"
  shows "rollback_change (begin_change m i c) = m"
proof (cases c)
  case (AddServer n a)
  then have "n \<notin> members m" using assms(2) by (auto simp: is_member_def split: if_splits)
  with AddServer assms(1) show ?thesis by (simp add: begin_change_def rollback_change_def)
next
  case (RemoveServer n)
  then have "n \<in> members m" using assms(2) by (auto simp: is_member_def split: if_splits)
  then have "insert n (members m) = members m" by blast
  with RemoveServer assms(1) show ?thesis by (simp add: begin_change_def rollback_change_def)
qed

lemma validated_members_nonempty:
  assumes "finite (members m)" "validate_change m c = Ok ()"
  shows "members (begin_change m i c) \<noteq> {}"
proof (cases c)
  case (RemoveServer n)
  then have "n \<in> members m" "card (members m) > 1"
    using assms(2) by (auto simp: is_member_def member_count_def split: if_splits)
  then have "card (members m - {n}) > 0" using assms(1) by (simp add: card_Diff_singleton)
  then show ?thesis using assms(1) RemoveServer by (auto simp: begin_change_def card_gt_0_iff)
qed (simp add: begin_change_def)

section \<open>Majorities\<close>

locale majority_quorum =
  fixes size_of :: "'s \<Rightarrow> nat"
    and quorum_of :: "'s \<Rightarrow> nat"
  assumes quorum_is_majority: "quorum_of s = size_of s div 2 + 1"
begin

lemma quorum_bounds: "size_of s < 2 * quorum_of s"
  by (simp add: quorum_is_majority)

lemma quorum_le_size: "size_of s \<noteq> 0 \<Longrightarrow> quorum_of s \<le> size_of s"
  by (simp add: quorum_is_majority)

lemma quorums_intersect:
  assumes "finite S" "card S \<le> size_of s" "A \<subseteq> S" "B \<subseteq> S"
    and "quorum_of s \<le> card A" "quorum_of s \<le> card B"
  shows "\<exists>x. x \<in> A \<and> x \<in> B"
  by (rule majorities_intersect [OF assms(1,3,4)]) (use quorum_bounds [of s] assms in linarith)

text \<open>Quorums of two configurations that differ by one server intersect as well.\<close>

lemma adjacent_quorums_intersect:
  assumes "finite S" "card S = size_of s" "size_of s' = size_of s + 1" "card S' = size_of s'"
    and "S \<subseteq> S'" "A \<subseteq> S" "B \<subseteq> S'"
    and "quorum_of s \<le> card A" "quorum_of s' \<le> card B"
  shows "\<exists>x. x \<in> A \<and> x \<in> B"
proof (rule majorities_intersect)
  show "finite S'" using assms(3,4) by (metis add_is_0 card_eq_0_iff one_neq_zero)
  show "A \<subseteq> S'" "B \<subseteq> S'" using assms by auto
  have "size_of s' < (size_of s div 2 + 1) + (size_of s' div 2 + 1)" using assms(3) by presburger
  then show "card S' < card A + card B"
    using assms(4,8,9) by (simp add: quorum_is_majority)
qed

end

interpretation tracker: majority_quorum cluster_size tracker_quorum_size
  by unfold_locales (simp add: tracker_quorum_size_def)

interpretation membership: majority_quorum member_count quorum_size
  by unfold_locales (simp add: quorum_size_def member_count_def)

section \<open>Properties\<close>

text \<open>
  A membership change that passes the checks of \<^verbatim>\<open>propose_membership_change\<close> is safe to
  take effect at once: every quorum of the old configuration intersects every quorum of
  the new one, the new configuration is not empty, and rolling the uncommitted change back
  restores the old membership exactly.
\<close>

theorem single_server_change_safe:
  assumes "finite (members m)" "pending m = None" "validate_change m c = Ok ()"
    and "A \<subseteq> members m" "quorum_size m \<le> card A"
    and "B \<subseteq> members (begin_change m i c)" "quorum_size (begin_change m i c) \<le> card B"
  shows "(\<exists>x. x \<in> A \<and> x \<in> B) \<and> members (begin_change m i c) \<noteq> {}
    \<and> rollback_change (begin_change m i c) = m"
proof (intro conjI)
  let ?m' = "begin_change m i c"
  show "members ?m' \<noteq> {}" by (rule validated_members_nonempty [OF assms(1,3)])
  show "rollback_change ?m' = m" by (rule validated_begin_rollback [OF assms(2,3)])
  show "\<exists>x. x \<in> A \<and> x \<in> B"
  proof (cases c)
    case (AddServer n a)
    then have n: "n \<notin> members m" using assms(3) by (auto simp: is_member_def split: if_splits)
    have m': "members ?m' = insert n (members m)" by (simp add: AddServer begin_change_def)
    have sz: "member_count ?m' = member_count m + 1"
      using assms(1) n by (simp add: member_count_def m')
    have sub: "members m \<subseteq> members ?m'" by (auto simp: m')
    have c: "card (members m) = member_count m" "card (members ?m') = member_count ?m'"
      by (simp_all add: member_count_def)
    show ?thesis
      by (rule membership.adjacent_quorums_intersect [OF assms(1) c(1) sz c(2) sub assms(4,6,5,7)])
  next
    case (RemoveServer n)
    then have n: "n \<in> members m" using assms(3) by (auto simp: is_member_def split: if_splits)
    have m': "members ?m' = members m - {n}" by (simp add: RemoveServer begin_change_def)
    have sz: "member_count m = member_count ?m' + 1"
      using card.remove [OF assms(1) n] by (simp add: member_count_def m')
    have fin: "finite (members ?m')" using assms(1) by (simp add: m')
    have sub: "members ?m' \<subseteq> members m" by (auto simp: m')
    have c: "card (members m) = member_count m" "card (members ?m') = member_count ?m'"
      by (simp_all add: member_count_def)
    have "\<exists>x. x \<in> B \<and> x \<in> A"
      by (rule membership.adjacent_quorums_intersect [OF fin c(2) sz c(1) sub assms(6,4,7,5)])
    then show ?thesis by blast
  qed
qed

theorem single_server_change_safe_witness:
  "let m = membership_new 1 [2, 3] in
   (\<exists>x. x \<in> {1, 2} \<and> x \<in> {2, 3, 4::nat})
   \<and> members (begin_change m 5 (AddServer 4 ''10.0.0.4:7000'')) \<noteq> {}
   \<and> rollback_change (begin_change m 5 (AddServer 4 ''10.0.0.4:7000'')) = m"
  using single_server_change_safe
    [of "membership_new 1 [2, 3]" "AddServer 4 ''10.0.0.4:7000''" "{1, 2}" "{2, 3, 4}" 5]
  by (simp add: membership_new_def begin_change_def is_member_def quorum_size_def)

text \<open>
  Succession order: in a cluster \<open>S\<close> of distinct nodes with common timeout bounds, a
  node with a smaller identifier never waits longer before it stands for election than
  one with a larger identifier, and every timeout lies between the configured bounds.
  The floating-point scaling is assumed monotone in the position and to stay inside the
  range for positions up to \<open>total - 1\<close>.
\<close>

theorem election_timeout_order:
  assumes mono: "\<And>r k k' n. k \<le> k' \<Longrightarrow> scale r k n \<le> scale r k' n"
    and range: "\<And>r k n. 0 < n \<Longrightarrow> k \<le> n \<Longrightarrow> scale r k n \<le> r"
    and S: "distinct S" "a \<in> set S" "b \<in> set S" "a < b"
    and bounds: "tmin \<le> tmax"
    and ca: "ca = \<lparr>election_timeout_min = tmin, election_timeout_max = tmax,
                   heartbeat_interval = h, cfg_node_id = a, cfg_peers = removeAll a S,
                   snapshot_threshold = st, snapshot_chunk_size = sc\<rparr>"
    and cb: "cb = ca\<lparr>cfg_node_id := b, cfg_peers := removeAll b S\<rparr>"
  shows "compute_election_timeout scale ca \<le> compute_election_timeout scale cb
    \<and> tmin \<le> compute_election_timeout scale ca \<and> compute_election_timeout scale cb \<le> tmax"
proof -
  have pos: "election_position ca = length (filter (\<lambda>p. p < a) S)"
    "election_position cb = length (filter (\<lambda>p. p < b) S)"
    by (auto simp: election_position_def ca cb removeAll_filter_not_eq filter_filter
        intro!: arg_cong [where f = length] filter_cong)
  have sub: "length (filter (\<lambda>p. p < a) S) \<le> length (filter (\<lambda>p. p < b) S)"
    unfolding distinct_card [OF distinct_filter [OF S(1)], symmetric]
    by (rule card_mono) (use S(4) in auto)
  have len: "length (cfg_peers ca) = length S - 1" "length (cfg_peers cb) = length S - 1"
    using S by (simp_all add: ca cb distinct_remove1_removeAll [symmetric] length_remove1)
  have "length (filter (\<lambda>p. p < b) S) < length S"
    using S(3) by (intro length_filter_less [of b]) auto
  then have b1: "election_position cb \<le> length (cfg_peers cb)" by (simp add: pos len)
  have le: "scale (tmax - tmin) (election_position ca) n \<le> scale (tmax - tmin) (election_position cb) n"
    for n using mono sub pos by simp
  have hi: "1 < length S \<Longrightarrow>
      scale (tmax - tmin) (election_position cb) (length S - 1) \<le> tmax - tmin"
    using range b1 len by simp
  have fields: "election_timeout_min ca = tmin" "election_timeout_max ca = tmax"
    "election_timeout_min cb = tmin" "election_timeout_max cb = tmax" by (simp_all add: ca cb)
  show ?thesis
    using le [of "length S - 1"] hi bounds unfolding compute_election_timeout_def Let_def fields len
    by auto
qed

theorem election_timeout_order_witness:
  "let c = \<lparr>election_timeout_min = 150, election_timeout_max = 300, heartbeat_interval = 50,
            cfg_node_id = 1, cfg_peers = [2, 3], snapshot_threshold = 1000,
            snapshot_chunk_size = 65536\<rparr>;
       scale = (\<lambda>r k n :: nat. min r (r * k div 2))
   in compute_election_timeout scale c
        \<le> compute_election_timeout scale (c\<lparr>cfg_node_id := 3, cfg_peers := [1, 2]\<rparr>)"
  using election_timeout_order
    [of "\<lambda>r k n. min r (r * k div 2)" "[1, 2, 3]" 1 3 150 300 _ 50 1000 65536, OF _ _ _ _ _ _ _ refl refl]
  by (simp add: div_le_mono min.coboundedI2 Let_def)

end
