(* ===== verification/Raft_State.thy ===== *)
theory Raft_State
  imports Raft_Log Raft_Membership
begin

text \<open>
  The data of a Raft node: roles, leader bookkeeping (\<^verbatim>\<open>raft/state.rs\<close>), messages
  (\<^verbatim>\<open>raft/rpc.rs\<close>, \<^verbatim>\<open>raft/snapshot.rs\<close>), the storage and state-machine traits
  (\<^verbatim>\<open>raft/storage.rs\<close>, \<^verbatim>\<open>raft/snapshot.rs\<close>) and the struct \<^verbatim>\<open>RaftNode\<close> (\<^verbatim>\<open>raft/node.rs\<close>).

  A trait is a record of functions, the dictionary a generic Rust function receives:
  \<open>raft_env\<close> holds the operations of the node's \<^verbatim>\<open>RaftStorage\<close> over a storage state \<open>'s\<close>
  (each returns its result and the storage afterwards) and the floating-point scaling of
  the election timeout. The channel \<^verbatim>\<open>outbound\<close> is the list of messages an operation
  returns; \<^verbatim>\<open>VolatileState\<close> is the pair of fields \<open>commit_index\<close>, \<open>last_applied\<close> of the node.
\<close>

text \<open>A byte is a \<^typ>\<open>char\<close> (eight bits), so a \<^verbatim>\<open>Vec<u8>\<close> and a string share one type.\<close>

type_synonym byte = char

datatype raft_role = Follower | Candidate | Leader

section \<open>Leader bookkeeping\<close>

record leader_state =
  next_index :: "(node_id \<times> nat) list"
  match_index :: "(node_id \<times> nat) list"

definition leader_state_new :: "node_id list \<Rightarrow> nat \<Rightarrow> leader_state" where
  "leader_state_new peers last_log_index =
     \<lparr>next_index = fold (\<lambda>p m. hm_insert p (last_log_index + 1) m) peers [],
      match_index = fold (\<lambda>p m. hm_insert p 0 m) peers []\<rparr>"

section \<open>Messages\<close>

record snapshot =
  last_included_index :: nat
  last_included_term :: nat
  snap_data :: "byte list"

record request_vote =
  rv_term :: nat
  candidate_id :: node_id
  last_log_index :: nat
  last_log_term :: nat

record request_vote_response =
  rvr_term :: nat
  vote_granted :: bool

record 'c append_entries =
  ae_term :: nat
  ae_leader_id :: node_id
  prev_log_index :: nat
  prev_log_term :: nat
  ae_entries :: "'c log_entry list"
  leader_commit :: nat

record append_entries_response =
  aer_term :: nat
  aer_success :: bool
  aer_match_index :: nat

record install_snapshot =
  is_term :: nat
  is_leader_id :: node_id
  is_last_included_index :: nat
  is_last_included_term :: nat
  is_offset :: nat
  is_data :: "byte list"
  is_done :: bool

record install_snapshot_response =
  isr_term :: nat

datatype 'c raft_message =
    RequestVote request_vote
  | RequestVoteResponse request_vote_response
  | AppendEntries "'c append_entries"
  | AppendEntriesResponse append_entries_response
  | InstallSnapshot install_snapshot
  | InstallSnapshotResponse install_snapshot_response

type_synonym 'c outbound = "(node_id \<times> 'c raft_message) list"

section \<open>Traits\<close>

datatype storage_error =
    Io string
  | Serialization string
  | Deserialization string
  | Corrupted string

datatype snapshot_error = InvalidData string | StorageFailure storage_error

record ('s, 'c) raft_env =
  save_term :: "nat \<Rightarrow> 's \<Rightarrow> (storage_error + unit) \<times> 's"
  load_term :: "'s \<Rightarrow> storage_error + nat"
  save_voted_for :: "node_id option \<Rightarrow> 's \<Rightarrow> (storage_error + unit) \<times> 's"
  load_voted_for :: "'s \<Rightarrow> storage_error + node_id option"
  st_append_entries :: "'c log_entry list \<Rightarrow> 's \<Rightarrow> (storage_error + unit) \<times> 's"
  load_log :: "'s \<Rightarrow> storage_error + 'c log_entry list"
  truncate_log_from :: "nat \<Rightarrow> 's \<Rightarrow> (storage_error + unit) \<times> 's"
  save_snapshot :: "byte list \<Rightarrow> nat \<Rightarrow> nat \<Rightarrow> 's \<Rightarrow> (storage_error + unit) \<times> 's"
  load_snapshot :: "'s \<Rightarrow> storage_error + (byte list \<times> nat \<times> nat) option"
  timeout_scale :: "nat \<Rightarrow> nat \<Rightarrow> nat \<Rightarrow> nat"

record ('m, 'c) state_machine_ops =
  sm_apply :: "'c \<Rightarrow> 'm \<Rightarrow> 'm"
  sm_snapshot :: "'m \<Rightarrow> byte list"
  sm_restore :: "byte list \<Rightarrow> 'm \<Rightarrow> (snapshot_error + unit) \<times> 'm"

text \<open>\<^verbatim>\<open>NullStateMachine\<close>.\<close>

definition null_state_machine :: "(unit, 'c) state_machine_ops" where
  "null_state_machine =
     \<lparr>sm_apply = (\<lambda>_ m. m), sm_snapshot = (\<lambda>_. []), sm_restore = (\<lambda>_ m. (Ok (), m))\<rparr>"

section \<open>The node\<close>

record ('c, 's) raft_node =
  config :: raft_config
  role :: raft_role
  current_term :: nat
  voted_for :: "node_id option"
  rlog :: "'c raft_log"
  commit_index :: nat
  last_applied :: nat
  leader_st :: "leader_state option"
  current_leader :: "node_id option"
  tracker :: election_tracker
  storage :: 's
  last_snapshot :: "snapshot option"
  pending_snapshot :: "byte list option"
  membership :: cluster_membership
  cached_election_timeout :: nat

definition node_id :: "('c, 's) raft_node \<Rightarrow> node_id" where
  "node_id n = cfg_node_id (config n)"

text \<open>\<^verbatim>\<open>RaftNode::new\<close>: start, or restart, from persistent storage.\<close>

definition restore_log :: "'c log_entry list \<Rightarrow> (byte list \<times> nat \<times> nat) option \<Rightarrow> 'c raft_log" where
  "restore_log es snap =
     (case snap of None \<Rightarrow> from_entries es
      | Some (_, idx, t) \<Rightarrow>
          (let log = compact_to (from_entries es) idx in
           if log_offset log < idx then reset_to_snapshot log idx t else log))"

definition raft_node_new ::
  "('s, 'c) raft_env \<Rightarrow> raft_config \<Rightarrow> 's \<Rightarrow> storage_error + ('c, 's) raft_node" where
  "raft_node_new E cfg st =
     result_bind (load_term E st) (\<lambda>t.
     result_bind (load_voted_for E st) (\<lambda>v.
     result_bind (load_log E st) (\<lambda>es.
     result_bind (load_snapshot E st) (\<lambda>snap.
       let m = membership_new (cfg_node_id cfg) (cfg_peers cfg) in
       Ok \<lparr>config = cfg, role = Follower, current_term = t, voted_for = v,
           rlog = restore_log es snap, commit_index = 0, last_applied = 0,
           leader_st = None, current_leader = None,
           tracker = tracker_new (member_count m), storage = st,
           last_snapshot = map_option (\<lambda>(d, i, t). \<lparr>last_included_index = i,
               last_included_term = t, snap_data = d\<rparr>) snap,
           pending_snapshot = None, membership = m,
           cached_election_timeout = compute_election_timeout (timeout_scale E) cfg\<rparr>))))"

lemma leader_state_new_wf [simp]:
  "hm_wf (match_index (leader_state_new ps i))" "hm_wf (next_index (leader_state_new ps i))"
proof -
  have "hm_wf m \<Longrightarrow> hm_wf (fold (\<lambda>p m. hm_insert p v m) ps m)" for m :: "(nat \<times> nat) list" and v
    by (induction ps arbitrary: m) auto
  then show "hm_wf (match_index (leader_state_new ps i))" "hm_wf (next_index (leader_state_new ps i))"
    by (simp_all add: leader_state_new_def)
qed

lemma leader_state_new_get:
  "hm_get (match_index (leader_state_new ps i)) p = (if p \<in> set ps then Some 0 else None)"
  "hm_get (next_index (leader_state_new ps i)) p = (if p \<in> set ps then Some (i + 1) else None)"
proof -
  have "hm_get (fold (\<lambda>p m. hm_insert p v m) ps m) p = (if p \<in> set ps then Some v else hm_get m p)"
    for m :: "(nat \<times> nat) list" and v
    by (induction ps arbitrary: m) auto
  then show "hm_get (match_index (leader_state_new ps i)) p = (if p \<in> set ps then Some 0 else None)"
    "hm_get (next_index (leader_state_new ps i)) p = (if p \<in> set ps then Some (i + 1) else None)"
    by (simp_all add: leader_state_new_def)
qed

end
