(* ===== verification/Raft_Replication.thy ===== *)
theory Raft_Replication
  imports Raft_State
begin

text \<open>
  The leader's side of \<^verbatim>\<open>raft/replication.rs\<close> and the parts of \<^verbatim>\<open>raft/node.rs\<close> it calls:
  building \<^verbatim>\<open>AppendEntries\<close>, chunking a snapshot, advancing the commit index, applying
  committed entries, accepting client requests and membership changes.

  The chunking loop of \<^verbatim>\<open>send_snapshot_to_peer\<close> makes no progress for a chunk size of
  zero; it is a \<^theory_text>\<open>partial_function\<close> whose value \<open>None\<close> means that it does not return.
  Every configuration the program builds has the default chunk size (\<^verbatim>\<open>to_raft_config\<close>,
  \<^verbatim>\<open>to_bootstrap_raft_config\<close>, \<^verbatim>\<open>main.rs\<close>), for which the loop is shown to return; a call
  that does not return sends nothing in the model.
\<close>

section \<open>Sending\<close>

partial_function (option) snapshot_chunks ::
  "nat \<Rightarrow> byte list \<Rightarrow> nat \<Rightarrow> (nat \<times> byte list \<times> bool) list option" where
  "snapshot_chunks chunk_size data offset =
     (if offset < length data then
        (let end' = min (offset + chunk_size) (length data);
             done' = (end' \<ge> length data);
             chunk = take (end' - offset) (drop offset data) in
         Option.bind (snapshot_chunks chunk_size data end')
           (\<lambda>rest. Some ((offset, chunk, done') # rest)))
      else Some [])"

declare snapshot_chunks.simps [code]

definition snapshot_message ::
  "('c, 's) raft_node \<Rightarrow> snapshot \<Rightarrow> nat \<Rightarrow> byte list \<Rightarrow> bool \<Rightarrow> 'c raft_message" where
  "snapshot_message n snap off data done' =
     InstallSnapshot \<lparr>is_term = current_term n, is_leader_id = node_id n,
       is_last_included_index = last_included_index snap,
       is_last_included_term = last_included_term snap,
       is_offset = off, is_data = data, is_done = done'\<rparr>"

definition send_snapshot_to_peer :: "('c, 's) raft_node \<Rightarrow> node_id \<Rightarrow> 'c outbound" where
  "send_snapshot_to_peer n peer =
     (case last_snapshot n of None \<Rightarrow> []
      | Some snap \<Rightarrow>
          if snap_data snap = [] then [(peer, snapshot_message n snap 0 [] True)]
          else (case snapshot_chunks (snapshot_chunk_size (config n)) (snap_data snap) 0 of
                  None \<Rightarrow> []
                | Some cs \<Rightarrow> map (\<lambda>(off, d, dn). (peer, snapshot_message n snap off d dn)) cs))"

definition replicate_to_peer :: "('c, 's) raft_node \<Rightarrow> node_id \<Rightarrow> 'c outbound" where
  "replicate_to_peer n peer =
     (if role n \<noteq> Leader then []
      else case leader_st n of None \<Rightarrow> []
      | Some leader \<Rightarrow>
          (let next_idx = (case hm_get (next_index leader) peer of None \<Rightarrow> 1 | Some i \<Rightarrow> i);
               offset = log_offset (rlog n) in
           if offset > 0 \<and> next_idx \<le> offset then send_snapshot_to_peer n peer
           else
             let prev = (if next_idx > 0 then next_idx - 1 else 0);
                 prev_t = (if prev > 0
                           then (case term_at (rlog n) prev of None \<Rightarrow> 0 | Some t \<Rightarrow> t) else 0) in
             [(peer, AppendEntries \<lparr>ae_term = current_term n, ae_leader_id = node_id n,
                 prev_log_index = prev, prev_log_term = prev_t,
                 ae_entries = entries_from (rlog n) next_idx,
                 leader_commit = commit_index n\<rparr>)]))"

definition send_append_entries_to_all :: "('c, 's) raft_node \<Rightarrow> 'c outbound" where
  "send_append_entries_to_all n =
     (if role n \<noteq> Leader then []
      else concat (map (replicate_to_peer n) (membership_peers (membership n) (node_id n))))"

section \<open>Committing\<close>

text \<open>\<^verbatim>\<open>has_committed_in_current_term\<close>: the downward scan from the commit index.\<close>

fun committed_scan :: "'c raft_log \<Rightarrow> nat \<Rightarrow> nat \<Rightarrow> bool" where
  "committed_scan L cur 0 = False"
| "committed_scan L cur (Suc k) =
     (case term_at L (Suc k) of
        Some t \<Rightarrow> if t = cur then True else if t < cur then False else committed_scan L cur k
      | None \<Rightarrow> committed_scan L cur k)"

definition has_committed_in_current_term :: "('c, 's) raft_node \<Rightarrow> bool" where
  "has_committed_in_current_term n =
     (if commit_index n = 0 then False
      else committed_scan (rlog n) (current_term n) (commit_index n))"

definition recompute_election_timeout ::
  "('s, 'c) raft_env \<Rightarrow> ('c, 's) raft_node \<Rightarrow> ('c, 's) raft_node" where
  "recompute_election_timeout E n =
     n\<lparr>cached_election_timeout := compute_election_timeout (timeout_scale E) (config n)\<rparr>"

definition is_self_removal :: "node_id \<Rightarrow> membership_change \<Rightarrow> bool" where
  "is_self_removal self c = (case c of RemoveServer i \<Rightarrow> i = self | AddServer _ _ \<Rightarrow> False)"

definition commit_membership_change_if_pending ::
  "('s, 'c) raft_env \<Rightarrow> ('c, 's) raft_node \<Rightarrow> nat \<Rightarrow> bool \<times> ('c, 's) raft_node" where
  "commit_membership_change_if_pending E n committed_index =
     (case pending (membership n) of None \<Rightarrow> (False, n)
      | Some p \<Rightarrow>
          if committed_index \<ge> pc_index p then
            (let self_removal = is_self_removal (node_id n) (pc_change p);
                 n1 = recompute_election_timeout E (n\<lparr>membership := commit_change (membership n)\<rparr>);
                 keep = (\<lambda>i (_::nat). is_member (membership n1) i);
                 n2 = n1\<lparr>leader_st := map_option (\<lambda>l. \<lparr>next_index = hm_retain keep (next_index l),
                                                     match_index = hm_retain keep (match_index l)\<rparr>)
                                       (leader_st n1)\<rparr> in
             if self_removal
             then (True, n2\<lparr>role := Follower, leader_st := None, current_leader := None\<rparr>)
             else (False, n2))
          else (False, n))"

text \<open>Counting replicas stops early once the quorum is reached.\<close>

fun count_replicas :: "nat \<Rightarrow> nat \<Rightarrow> nat list \<Rightarrow> nat \<Rightarrow> nat" where
  "count_replicas quorum idx [] c = c"
| "count_replicas quorum idx (m # ms) c =
     (if m \<ge> idx then (if c + 1 \<ge> quorum then c + 1 else count_replicas quorum idx ms (c + 1))
      else count_replicas quorum idx ms c)"

text \<open>The downward scan of \<^verbatim>\<open>advance_commit_index\<close>; \<open>floor\<close> is the current commit index.\<close>

function commit_scan :: "'c raft_log \<Rightarrow> nat \<Rightarrow> nat list \<Rightarrow> nat \<Rightarrow> nat \<Rightarrow> nat \<Rightarrow> nat" where
  "commit_scan L cur ms quorum floor k =
     (if k > floor then
        (case term_at L k of
           Some t \<Rightarrow>
             if t = cur then
               (if count_replicas quorum k ms 1 \<ge> quorum then k
                else commit_scan L cur ms quorum floor (k - 1))
             else if t < cur then floor
             else commit_scan L cur ms quorum floor (k - 1)
         | None \<Rightarrow> commit_scan L cur ms quorum floor (k - 1))
      else floor)"
  by pat_completeness auto
termination
  by (relation "measure (\<lambda>(L, cur, ms, quorum, floor, k). k)") auto

declare commit_scan.simps [simp del]

definition advance_commit_index ::
  "('s, 'c) raft_env \<Rightarrow> ('c, 's) raft_node \<Rightarrow> ('c, 's) raft_node" where
  "advance_commit_index E n =
     (if role n \<noteq> Leader then n
      else case leader_st n of None \<Rightarrow> n
      | Some leader \<Rightarrow>
          (let new_commit = commit_scan (rlog n) (current_term n) (map snd (match_index leader))
                              (quorum_size (membership n)) (commit_index n) (last_index (rlog n)) in
           if new_commit > commit_index n
           then snd (commit_membership_change_if_pending E (n\<lparr>commit_index := new_commit\<rparr>) new_commit)
           else n))"

section \<open>Applying\<close>

text \<open>
  \<^verbatim>\<open>apply_committed_with_entries\<close>: the state machine is threaded through \<open>ap\<close>, the emitted
  entries are collected in order.
\<close>

function apply_loop ::
  "('c \<Rightarrow> 'm \<Rightarrow> 'm) \<Rightarrow> 'c raft_log \<Rightarrow> nat \<Rightarrow> nat \<Rightarrow> 'm \<Rightarrow> 'm \<times> 'c log_entry list \<times> nat" where
  "apply_loop ap L commit last' m =
     (if last' < commit then
        (case log_get L (Suc last') of
           Some e \<Rightarrow> (case apply_loop ap L commit (Suc last') (ap (e_command e) m) of
                        (m', es, l) \<Rightarrow> (m', e # es, l))
         | None \<Rightarrow> apply_loop ap L commit (Suc last') m)
      else (m, [], last'))"
  by pat_completeness auto
termination
  by (relation "measure (\<lambda>(ap, L, commit, last', m). commit - last')") auto

declare apply_loop.simps [simp del]

definition apply_committed_with_entries ::
  "('c \<Rightarrow> 'm \<Rightarrow> 'm) \<Rightarrow> ('c, 's) raft_node \<Rightarrow> 'm \<Rightarrow> ('c, 's) raft_node \<times> 'm \<times> 'c log_entry list" where
  "apply_committed_with_entries ap n m =
     (case apply_loop ap (rlog n) (commit_index n) (last_applied n) m of
        (m', es, l) \<Rightarrow> (n\<lparr>last_applied := l\<rparr>, m', es))"

text \<open>\<^verbatim>\<open>apply_committed\<close> collects the commands instead of the entries.\<close>

definition apply_committed ::
  "('c \<Rightarrow> 'm \<Rightarrow> 'm) \<Rightarrow> ('c, 's) raft_node \<Rightarrow> 'm \<Rightarrow> ('c, 's) raft_node \<times> 'm \<times> 'c list" where
  "apply_committed ap n m =
     (case apply_committed_with_entries ap n m of (n', m', es) \<Rightarrow> (n', m', map e_command es))"

section \<open>Proposing\<close>

definition client_request ::
  "('c, 's) raft_node \<Rightarrow> 'c \<Rightarrow> nat option \<times> ('c, 's) raft_node \<times> 'c outbound" where
  "client_request n cmd =
     (if role n \<noteq> Leader then (None, n, [])
      else let index = last_index (rlog n) + 1;
               n' = n\<lparr>rlog := log_append (rlog n)
                       \<lparr>e_term = current_term n, e_index = index, e_command = cmd\<rparr>\<rparr> in
           (Some index, n', send_append_entries_to_all n'))"

definition added_node :: "membership_change \<Rightarrow> node_id option" where
  "added_node c = (case c of AddServer i _ \<Rightarrow> Some i | RemoveServer _ \<Rightarrow> None)"

definition propose_membership_change ::
  "('s, 'c) raft_env \<Rightarrow> ('c, 's) raft_node \<Rightarrow> membership_change \<Rightarrow> 'c \<Rightarrow>
     (membership_error + nat) \<times> ('c, 's) raft_node \<times> 'c outbound" where
  "propose_membership_change E n change noop =
     (if role n \<noteq> Leader then (Err NotLeader, n, [])
      else case pending (membership n) of
        Some p \<Rightarrow> (Err (ChangePending (pc_index p)), n, [])
      | None \<Rightarrow>
          if \<not> has_committed_in_current_term n then (Err NoCurrentTermCommit, n, [])
          else case validate_change (membership n) change of
            Err e \<Rightarrow> (Err e, n, [])
          | Ok _ \<Rightarrow>
              (let index = last_index (rlog n) + 1;
                   n1 = n\<lparr>rlog := log_append (rlog n)
                            \<lparr>e_term = current_term n, e_index = index, e_command = noop\<rparr>\<rparr>;
                   n2 = recompute_election_timeout E
                          (n1\<lparr>membership := begin_change (membership n1) index change\<rparr>);
                   n3 = (case added_node change of None \<Rightarrow> n2
                         | Some new_node \<Rightarrow>
                             n2\<lparr>leader_st := map_option (\<lambda>l.
                                 \<lparr>next_index = hm_insert new_node (last_index (rlog n2) + 1) (next_index l),
                                  match_index = hm_insert new_node 0 (match_index l)\<rparr>)
                               (leader_st n2)\<rparr>) in
               (Ok index, n3, send_append_entries_to_all n3)))"

section \<open>Lemmas\<close>

subsection \<open>Snapshot chunks\<close>

text \<open>With a positive chunk size the loop returns, and its chunks concatenate to the data.\<close>

lemma snapshot_chunks_returns:
  "0 < chunk \<Longrightarrow> \<exists>cs. snapshot_chunks chunk data off = Some cs
     \<and> concat (map (fst \<circ> snd) cs) = drop off data"
proof (induction "length data - off" arbitrary: off rule: less_induct)
  case less
  show ?case
  proof (cases "off < length data")
    case False
    then show ?thesis by (simp add: snapshot_chunks.simps [of chunk data off])
  next
    case True
    let ?e = "min (off + chunk) (length data)"
    have "off < ?e" "?e \<le> length data" using True less.prems by auto
    then obtain cs where cs: "snapshot_chunks chunk data ?e = Some cs"
      "concat (map (fst \<circ> snd) cs) = drop ?e data"
      using less.hyps [of ?e] less.prems diff_less_mono2 [OF \<open>off < ?e\<close> True] by blast
    have "take (?e - off) (drop off data) @ drop ?e data = drop off data"
      using \<open>off < ?e\<close> append_take_drop_id [of "?e - off" "drop off data"] by simp
    then show ?thesis
      using True cs by (simp add: snapshot_chunks.simps [of chunk data off] Let_def)
  qed
qed

lemma snapshot_chunks_offsets:
  assumes "0 < chunk" "off < length data"
  obtains d dn cs where "snapshot_chunks chunk data off = Some ((off, d, dn) # cs)"
  using snapshot_chunks_returns [OF assms(1), of data "min (off + chunk) (length data)"] assms(2)
  by (auto simp: snapshot_chunks.simps [of chunk data off] Let_def)

text \<open>A chunk size of zero never returns on a non-empty snapshot.\<close>

lemma snapshot_chunks_zero_diverges:
  assumes "data \<noteq> []" shows "snapshot_chunks 0 data 0 = None"
proof (rule ccontr)
  assume "snapshot_chunks 0 data 0 \<noteq> None"
  then obtain cs where ret: "snapshot_chunks 0 data 0 = Some cs" by blast
  have "c = 0 \<Longrightarrow> off < length d \<Longrightarrow> False" if "snapshot_chunks c d off = Some r" for c d off r
  proof (rule snapshot_chunks.raw_induct [where P = "\<lambda>c d off r. c = 0 \<longrightarrow> \<not> off < length d", OF _ that, THEN mp, THEN notE])
    fix f c d off r
    assume IH: "\<And>c d off r. f c d off = Some r \<Longrightarrow> c = 0 \<longrightarrow> \<not> off < length d"
      and eq: "(if off < length d then
        (let end' = min (off + c) (length d); done' = (end' \<ge> length d);
             chunk = take (end' - off) (drop off d) in
         Option.bind (f c d end') (\<lambda>rest. Some ((off, chunk, done') # rest))) else Some []) = Some r"
    show "c = 0 \<longrightarrow> \<not> off < length d"
    proof (intro impI notI)
      assume "c = 0" "off < length d"
      with eq obtain r' where "f c d off = Some r'" by (auto simp: Let_def bind_eq_Some_conv min_def)
      with IH \<open>c = 0\<close> \<open>off < length d\<close> show False by blast
    qed
  qed
  from this [OF ret] assms show False by simp
qed

subsection \<open>Counting and scanning\<close>

lemma count_replicas_quorum:
  "quorum \<le> count_replicas quorum idx ms c \<longleftrightarrow> quorum \<le> c + length (filter (\<lambda>m. idx \<le> m) ms)"
  by (induction ms arbitrary: c) auto

text \<open>The commit indices Raft allows a leader to move to.\<close>

definition committable :: "'c raft_log \<Rightarrow> nat \<Rightarrow> nat list \<Rightarrow> nat \<Rightarrow> nat \<Rightarrow> nat \<Rightarrow> bool" where
  "committable L cur ms quorum floor k \<longleftrightarrow>
     floor < k \<and> term_at L k = Some cur \<and> quorum \<le> 1 + length (filter (\<lambda>m. k \<le> m) ms)"

lemma commit_scan_sound:
  "commit_scan L cur ms quorum floor k = r \<Longrightarrow>
     r = floor \<or> committable L cur ms quorum floor r \<and> r \<le> k"
proof (induction L cur ms quorum floor k rule: commit_scan.induct)
  case (1 L cur ms quorum floor k)
  show ?case
    using 1 by (auto simp: commit_scan.simps [of L cur ms quorum floor k] committable_def
        count_replicas_quorum split: if_splits option.splits)
qed

lemma commit_scan_ge: "floor \<le> commit_scan L cur ms quorum floor k"
  using commit_scan_sound [of L cur ms quorum floor k, OF refl] by (auto simp: committable_def)

lemma commit_scan_complete:
  assumes "terms_sorted L" "committable L cur ms quorum floor j" "j \<le> k"
  shows "j \<le> commit_scan L cur ms quorum floor k"
  using assms
proof (induction L cur ms quorum floor k rule: commit_scan.induct)
  case (1 L cur ms quorum floor k)
  have fj: "floor < j" and tj: "term_at L j = Some cur" using "1.prems" by (auto simp: committable_def)
  note unf = commit_scan.simps [of L cur ms quorum floor k]
  have k: "k > floor" using fj "1.prems"(3) by simp
  show ?case
  proof (cases "j = k")
    case True
    then show ?thesis
      using "1.prems"(2) k by (simp add: unf committable_def count_replicas_quorum)
  next
    case False
    then have jk: "j \<le> k - 1" using "1.prems"(3) by simp
    show ?thesis
    proof (cases "term_at L k")
      case None
      then show ?thesis using "1.IH"(1) [OF k None "1.prems"(1,2) jk] k by (simp add: unf)
    next
      case (Some t)
      have "cur \<le> t" by (rule terms_sorted_term_at_mono [OF "1.prems"(1) tj Some "1.prems"(3)])
      then show ?thesis
        using "1.IH"(2) [OF k Some _ _ "1.prems"(1,2) jk] "1.IH"(3) [OF k Some _ _ "1.prems"(1,2) jk]
          k Some "1.prems"(3) by (auto simp: unf)
    qed
  qed
qed

lemma committed_scan_iff:
  assumes "terms_sorted L"
  shows "committed_scan L cur k \<longleftrightarrow> (\<exists>i. 0 < i \<and> i \<le> k \<and> term_at L i = Some cur)"
proof (induction k)
  case 0
  then show ?case by simp
next
  case (Suc k)
  show ?case
  proof (cases "term_at L (Suc k)")
    case None
    then show ?thesis using Suc by (auto simp: le_Suc_eq)
  next
    case (Some t)
    have "t < cur \<Longrightarrow> \<not> (\<exists>i. 0 < i \<and> i \<le> Suc k \<and> term_at L i = Some cur)"
      using terms_sorted_term_at_mono [OF assms _ Some] by fastforce
    then show ?thesis using Suc Some by (auto simp: le_Suc_eq)
  qed
qed

subsection \<open>Frames\<close>

lemma commit_membership_frame [raft_frame]:
  "commit_membership_change_if_pending E n i = (b, n') \<Longrightarrow>
     config n' = config n \<and> current_term n' = current_term n \<and> voted_for n' = voted_for n
     \<and> rlog n' = rlog n \<and> commit_index n' = commit_index n \<and> last_applied n' = last_applied n
     \<and> tracker n' = tracker n \<and> storage n' = storage n \<and> last_snapshot n' = last_snapshot n
     \<and> pending_snapshot n' = pending_snapshot n \<and> (role n' = role n \<or> role n' = Follower)
     \<and> (\<not> b \<longrightarrow> role n' = role n)"
  by (auto simp: commit_membership_change_if_pending_def recompute_election_timeout_def Let_def
      split: option.splits if_splits)

lemma advance_commit_frame [raft_frame]:
  "config (advance_commit_index E n) = config n"
  "current_term (advance_commit_index E n) = current_term n"
  "voted_for (advance_commit_index E n) = voted_for n"
  "rlog (advance_commit_index E n) = rlog n"
  "last_applied (advance_commit_index E n) = last_applied n"
  "tracker (advance_commit_index E n) = tracker n"
  "storage (advance_commit_index E n) = storage n"
  "last_snapshot (advance_commit_index E n) = last_snapshot n"
  "role (advance_commit_index E n) = role n \<or> role (advance_commit_index E n) = Follower"
proof -
  have "advance_commit_index E n = n \<or> (\<exists>c b. commit_membership_change_if_pending E (n\<lparr>commit_index := c\<rparr>) c
      = (b, advance_commit_index E n))"
    by (auto simp: advance_commit_index_def Let_def prod_eq_iff split: option.splits)
  then show "config (advance_commit_index E n) = config n"
    "current_term (advance_commit_index E n) = current_term n"
    "voted_for (advance_commit_index E n) = voted_for n"
    "rlog (advance_commit_index E n) = rlog n"
    "last_applied (advance_commit_index E n) = last_applied n"
    "tracker (advance_commit_index E n) = tracker n"
    "storage (advance_commit_index E n) = storage n"
    "last_snapshot (advance_commit_index E n) = last_snapshot n"
    "role (advance_commit_index E n) = role n \<or> role (advance_commit_index E n) = Follower"
    by (auto dest!: commit_membership_frame)
qed

lemma commit_index_advance:
  "commit_index (advance_commit_index E n) =
     (case leader_st n of
        Some l \<Rightarrow> if role n = Leader
                  then commit_scan (rlog n) (current_term n) (map snd (match_index l))
                         (quorum_size (membership n)) (commit_index n) (last_index (rlog n))
                  else commit_index n
      | None \<Rightarrow> commit_index n)"
proof -
  have "commit_index (snd (commit_membership_change_if_pending E m i)) = commit_index m"
    for m i
    using commit_membership_frame [of E m i] by (metis prod.collapse)
  then show ?thesis
    by (auto simp: advance_commit_index_def Let_def not_less commit_scan_ge le_antisym
        split: option.splits)
qed

subsection \<open>Applying\<close>

lemma apply_loop_spec:
  assumes "\<And>i. last' < i \<Longrightarrow> i \<le> commit \<Longrightarrow> log_get L i \<noteq> None"
  shows "apply_loop ap L commit last' m =
    (let es = map (\<lambda>i. the (log_get L i)) [Suc last' ..< Suc commit]
     in (fold ap (map e_command es) m, es, max last' commit))"
  using assms
proof (induction ap L commit last' m rule: apply_loop.induct)
  case (1 ap L commit last' m)
  show ?case
  proof (cases "last' < commit")
    case False
    then show ?thesis by (simp add: apply_loop.simps [of ap L commit last' m] max_def)
  next
    case True
    then obtain e where e: "log_get L (Suc last') = Some e"
      using "1.prems" [of "Suc last'"] by auto
    have "[Suc last' ..< Suc commit] = Suc last' # [Suc (Suc last') ..< Suc commit]"
      using True by (simp add: upt_rec [of "Suc last'"])
    then show ?thesis
      using "1.IH"(2) [OF True e] "1.prems" True
      by (simp add: apply_loop.simps [of ap L commit last' m] e Let_def max_def del: upt_Suc)
  qed
qed

lemma apply_committed_spec:
  assumes "log_offset (rlog n) \<le> last_applied n" "commit_index n \<le> last_index (rlog n)"
  shows "apply_committed_with_entries ap n m =
    (let es = map (\<lambda>i. the (log_get (rlog n) i)) [Suc (last_applied n) ..< Suc (commit_index n)]
     in (n\<lparr>last_applied := max (last_applied n) (commit_index n)\<rparr>,
         fold ap (map e_command es) m, es))"
proof -
  have "apply_loop ap (rlog n) (commit_index n) (last_applied n) m =
    (let es = map (\<lambda>i. the (log_get (rlog n) i)) [Suc (last_applied n) ..< Suc (commit_index n)]
     in (fold ap (map e_command es) m, es, max (last_applied n) (commit_index n)))"
    by (rule apply_loop_spec) (use assms in \<open>simp add: log_get_eq\<close>)
  then show ?thesis by (simp add: apply_committed_with_entries_def Let_def del: upt_Suc)
qed

section \<open>Properties\<close>

text \<open>
  C12. The commit rule: with non-decreasing terms in its log, a leader's
  \<^verbatim>\<open>advance_commit_index\<close> moves the commit index to the greatest index of the log that
  holds an entry of the current term and is replicated on a quorum (itself included), and
  leaves it alone when there is none. The downward scan with its two early exits computes
  this maximum.
\<close>

theorem advance_commit_index_is_max:
  assumes lead: "role n = Leader" "leader_st n = Some l" and sorted: "terms_sorted (rlog n)"
  shows "commit_index (advance_commit_index E n) =
    Max (insert (commit_index n)
      {k. commit_index n < k \<and> k \<le> last_index (rlog n)
          \<and> term_at (rlog n) k = Some (current_term n)
          \<and> quorum_size (membership n)
              \<le> 1 + length (filter (\<lambda>m. k \<le> m) (map snd (match_index l)))})"
    (is "_ = Max (insert ?f ?S)")
proof -
  let ?r = "commit_scan (rlog n) (current_term n) (map snd (match_index l))
      (quorum_size (membership n)) ?f (last_index (rlog n))"
  have S: "?S = {k. committable (rlog n) (current_term n) (map snd (match_index l))
      (quorum_size (membership n)) ?f k \<and> k \<le> last_index (rlog n)}"
    by (auto simp: committable_def)
  have fin: "finite ?S" by (rule finite_subset [of _ "{..last_index (rlog n)}"]) auto
  have "?r = Max (insert ?f ?S)"
  proof (rule Max_eqI [symmetric])
    show "?r \<in> insert ?f ?S" using commit_scan_sound [OF refl] unfolding S by blast
    fix k assume "k \<in> insert ?f ?S"
    moreover have "?f \<le> ?r" by (rule commit_scan_ge)
    ultimately show "k \<le> ?r" using commit_scan_complete [OF sorted] unfolding S by blast
  qed (use fin in simp)
  then show ?thesis using lead by (simp add: commit_index_advance)
qed

definition sample_log :: "nat raft_log" where
  "sample_log = from_entries [\<lparr>e_term = 1, e_index = 1, e_command = 7\<rparr>,
     \<lparr>e_term = 2, e_index = 2, e_command = 8\<rparr>, \<lparr>e_term = 2, e_index = 3, e_command = 9\<rparr>]"

definition sample_leader :: "(nat, unit) raft_node" where
  "sample_leader = \<lparr>config = raft_config_default\<lparr>cfg_node_id := 1, cfg_peers := [2, 3]\<rparr>,
     role = Leader, current_term = 2, voted_for = Some 1, rlog = sample_log, commit_index = 0,
     last_applied = 0,
     leader_st = Some \<lparr>next_index = [(2, 3), (3, 1)], match_index = [(2, 2), (3, 0)]\<rparr>,
     current_leader = Some 1, tracker = tracker_new 3, storage = (), last_snapshot = None,
     pending_snapshot = None, membership = membership_new 1 [2, 3], cached_election_timeout = 150\<rparr>"

lemma sample_log_get:
  "log_get sample_log k = (if k = 1 then Some \<lparr>e_term = 1, e_index = 1, e_command = 7\<rparr>
     else if k = 2 then Some \<lparr>e_term = 2, e_index = 2, e_command = 8\<rparr>
     else if k = 3 then Some \<lparr>e_term = 2, e_index = 3, e_command = 9\<rparr> else None)"
  by (auto simp: sample_log_def from_entries_def log_get_def to_internal_def nth_Cons' Let_def
      numeral_3_eq_3 numeral_2_eq_2)

lemma sample_log_facts: "log_offset sample_log = 0" "last_index sample_log = 3" "terms_sorted sample_log"
  by (simp_all add: sample_log_def from_entries_def last_index_def terms_sorted_def)

theorem advance_commit_index_is_max_witness:
  "\<forall>E :: (unit, nat) raft_env. commit_index (advance_commit_index E sample_leader) = Max (insert 0 {2})"
proof -
  have "{k. commit_index sample_leader < k \<and> k \<le> last_index (rlog sample_leader)
      \<and> term_at (rlog sample_leader) k = Some (current_term sample_leader)
      \<and> quorum_size (membership sample_leader) \<le> 1 + length (filter (\<lambda>m. k \<le> m)
            (map snd [(2 :: nat, 2), (3, 0 :: nat)]))} = {2}"
    by (auto simp: sample_leader_def sample_log_facts term_at_def sample_log_get quorum_size_def
        membership_new_def split: if_splits)
  then show ?thesis
    using advance_commit_index_is_max [of sample_leader "\<lparr>next_index = [(2, 3), (3, 1)], match_index = [(2, 2), (3, 0)]\<rparr>"]
    by (simp add: sample_leader_def sample_log_facts)
qed

text \<open>
  C24. Applying committed entries is exactly-once and in order: when no unapplied committed
  entry has been compacted away, \<^verbatim>\<open>apply_committed_with_entries\<close> applies and emits the
  entries at \<open>last_applied + 1, ..., commit_index\<close> in this order and moves
  \<open>last_applied\<close> to the commit index; and applying up to an intermediate commit index \<open>c\<close>
  first and then the rest gives the same state and the same emitted sequence.
\<close>

theorem apply_committed_exactly_once:
  assumes "log_offset (rlog n) \<le> last_applied n" "commit_index n \<le> last_index (rlog n)"
    and "last_applied n \<le> c" "c \<le> commit_index n"
    and "apply_committed_with_entries ap (n\<lparr>commit_index := c\<rparr>) m = (n1, m1, es1)"
    and "apply_committed_with_entries ap (n1\<lparr>commit_index := commit_index n\<rparr>) m1 = (n2, m2, es2)"
  shows "map Some (es1 @ es2)
           = map (log_get (rlog n)) [Suc (last_applied n) ..< Suc (commit_index n)]
    \<and> m2 = fold ap (map e_command (es1 @ es2)) m
    \<and> last_applied n2 = commit_index n
    \<and> apply_committed_with_entries ap n m = (n2, m2, es1 @ es2)"
proof -
  let ?g = "\<lambda>i. the (log_get (rlog n) i)"
  let ?A = "[Suc (last_applied n) ..< Suc c]" and ?B = "[Suc c ..< Suc (commit_index n)]"
  have one: "n1 = n\<lparr>commit_index := c, last_applied := c\<rparr>" "m1 = fold ap (map e_command es1) m"
    "es1 = map ?g ?A"
    using apply_committed_spec [of "n\<lparr>commit_index := c\<rparr>" ap m] assms
    by (simp_all add: Let_def max_def)
  have two: "n2 = n1\<lparr>commit_index := commit_index n, last_applied := commit_index n\<rparr>"
    "m2 = fold ap (map e_command es2) m1" "es2 = map ?g ?B"
    using apply_committed_spec [of "n1\<lparr>commit_index := commit_index n\<rparr>" ap m1] assms
    by (auto simp: one(1) Let_def max_def simp del: upt_Suc)
  have cat: "?A @ ?B = [Suc (last_applied n) ..< Suc (commit_index n)]"
    using assms(3,4) upt_add_eq_append [of "Suc (last_applied n)" "Suc c" "commit_index n - c"]
    by simp
  have es: "es1 @ es2 = map ?g [Suc (last_applied n) ..< Suc (commit_index n)]"
    unfolding cat [symmetric] one(3) two(3) by simp
  have "\<forall>i \<in> set [Suc (last_applied n) ..< Suc (commit_index n)]. Some (?g i) = log_get (rlog n) i"
    using assms(1,2) by (auto simp: log_get_eq)
  then have g: "map Some (es1 @ es2)
      = map (log_get (rlog n)) [Suc (last_applied n) ..< Suc (commit_index n)]"
    unfolding es by (simp del: upt_Suc)
  have all: "apply_committed_with_entries ap n m
      = (n\<lparr>last_applied := commit_index n\<rparr>, fold ap (map e_command (es1 @ es2)) m, es1 @ es2)"
    using apply_committed_spec [OF assms(1,2), of ap m] assms(3,4) es
    by (simp add: Let_def max_def del: upt_Suc)
  show ?thesis using g all by (simp add: one(1,2) two(1,2))
qed

theorem apply_committed_exactly_once_witness:
  "let n = sample_leader\<lparr>commit_index := 3\<rparr>;
       (n1, m1, es1) = apply_committed_with_entries (#) (n\<lparr>commit_index := 2\<rparr>) [];
       (n2, m2, es2) = apply_committed_with_entries (#) (n1\<lparr>commit_index := 3\<rparr>) m1
   in m2 = [9, 8, 7] \<and> apply_committed_with_entries (#) n [] = (n2, m2, es1 @ es2)"
proof -
  define n where "n = sample_leader\<lparr>commit_index := 3\<rparr>"
  obtain n1 m1 es1 where one: "apply_committed_with_entries (#) (n\<lparr>commit_index := 2\<rparr>) [] = (n1, m1, es1)"
    by (metis prod_cases3)
  obtain n2 m2 es2 where two: "apply_committed_with_entries (#) (n1\<lparr>commit_index := 3\<rparr>) m1 = (n2, m2, es2)"
    by (metis prod_cases3)
  have f: "rlog n = sample_log" "last_applied n = 0" "commit_index n = 3"
    by (simp_all add: n_def sample_leader_def)
  note t = apply_committed_exactly_once [of n 2 "(#)" "[]" n1 m1 es1 n2 m2 es2, unfolded f sample_log_facts,
      simplified, OF one two]
  have "map Some (es1 @ es2) = map (log_get sample_log) [1, 2, 3]"
    using t by (simp add: upt_rec numeral_3_eq_3 numeral_2_eq_2)
  from arg_cong [OF this, of "map (e_command \<circ> the)"]
  have cmds: "map e_command (es1 @ es2) = [7, 8, 9]" by (simp add: sample_log_get comp_def)
  have "m2 = fold (#) (map e_command (es1 @ es2)) []" using t by simp
  then have "m2 = [9, 8, 7] \<and> apply_committed_with_entries (#) n [] = (n2, m2, es1 @ es2)"
    using t unfolding cmds by simp
  then show ?thesis using one two by (simp add: n_def [symmetric] Let_def)
qed

end
