(* ===== verification/Raft_Node.thy ===== *)
theory Raft_Node
  imports Raft_Replication
begin

text \<open>
  The handlers of \<^verbatim>\<open>raft/node.rs\<close> (elections, \<^verbatim>\<open>AppendEntries\<close>, snapshots), the response
  handlers of \<^verbatim>\<open>raft/replication.rs\<close> and the dispatch of \<^verbatim>\<open>raft/driver.rs\<close>.

  Every handler returns its result, the node afterwards (also on the error paths, where
  the fields changed before a failing storage call stay changed, as in the source) and
  the messages sent.
\<close>

section \<open>Terms and elections\<close>

definition handle_term_update ::
  "('s, 'c) raft_env \<Rightarrow> ('c, 's) raft_node \<Rightarrow> nat \<Rightarrow> (storage_error + bool) \<times> ('c, 's) raft_node" where
  "handle_term_update E n received_term =
     (if received_term > current_term n then
        (let n1 = n\<lparr>current_term := received_term, voted_for := None, role := Follower,
                    leader_st := None, tracker := tracker_reset (tracker n),
                    membership := rollback_change (membership n)\<rparr> in
         case save_term E (current_term n1) (storage n1) of
           (Err e, st) \<Rightarrow> (Err e, n1\<lparr>storage := st\<rparr>)
         | (Ok _, st) \<Rightarrow>
             (case save_voted_for E None st of
                (Err e, st') \<Rightarrow> (Err e, n1\<lparr>storage := st'\<rparr>)
              | (Ok _, st') \<Rightarrow> (Ok True, n1\<lparr>storage := st'\<rparr>)))
      else (Ok False, n))"

definition become_leader :: "('c, 's) raft_node \<Rightarrow> ('c, 's) raft_node \<times> 'c outbound" where
  "become_leader n =
     (let n' = n\<lparr>role := Leader, current_leader := Some (node_id n),
                 leader_st := Some (leader_state_new (membership_peers (membership n) (node_id n))
                                      (last_index (rlog n)))\<rparr> in
      (n', send_append_entries_to_all n'))"

definition start_election ::
  "('s, 'c) raft_env \<Rightarrow> ('c, 's) raft_node \<Rightarrow> (storage_error + unit) \<times> ('c, 's) raft_node \<times> 'c outbound" where
  "start_election E n =
     (let n1 = n\<lparr>current_term := current_term n + 1, role := Candidate,
                 voted_for := Some (node_id n), current_leader := None, leader_st := None,
                 tracker := record_vote (tracker_reset (tracker n)) (node_id n)\<rparr> in
      case save_term E (current_term n1) (storage n1) of
        (Err e, st) \<Rightarrow> (Err e, n1\<lparr>storage := st\<rparr>, [])
      | (Ok _, st) \<Rightarrow>
          (case save_voted_for E (voted_for n1) st of
             (Err e, st') \<Rightarrow> (Err e, n1\<lparr>storage := st'\<rparr>, [])
           | (Ok _, st') \<Rightarrow>
               (let n2 = n1\<lparr>storage := st'\<rparr> in
                if has_quorum (tracker n2) then
                  (case become_leader n2 of (n3, out) \<Rightarrow> (Ok (), n3, out))
                else
                  let request = \<lparr>rv_term = current_term n2, candidate_id = node_id n2,
                                 last_log_index = last_index (rlog n2),
                                 last_log_term = last_term (rlog n2)\<rparr> in
                  (Ok (), n2, map (\<lambda>peer. (peer, RequestVote request)) (cfg_peers (config n2))))))"

definition can_vote_for :: "('c, 's) raft_node \<Rightarrow> node_id \<Rightarrow> bool" where
  "can_vote_for n cand = (case voted_for n of None \<Rightarrow> True | Some i \<Rightarrow> i = cand)"

definition handle_request_vote ::
  "('s, 'c) raft_env \<Rightarrow> ('c, 's) raft_node \<Rightarrow> request_vote \<Rightarrow>
     (storage_error + request_vote_response) \<times> ('c, 's) raft_node" where
  "handle_request_vote E n req =
     (case handle_term_update E n (rv_term req) of
        (Err e, n1) \<Rightarrow> (Err e, n1)
      | (Ok _, n1) \<Rightarrow>
          if rv_term req < current_term n1
          then (Ok \<lparr>rvr_term = current_term n1, vote_granted = False\<rparr>, n1)
          else if \<not> can_vote_for n1 (candidate_id req)
          then (Ok \<lparr>rvr_term = current_term n1, vote_granted = False\<rparr>, n1)
          else if \<not> is_log_up_to_date (last_log_term req) (last_log_index req)
                     (last_term (rlog n1)) (last_index (rlog n1))
          then (Ok \<lparr>rvr_term = current_term n1, vote_granted = False\<rparr>, n1)
          else
            (let n2 = n1\<lparr>voted_for := Some (candidate_id req)\<rparr> in
             case save_voted_for E (voted_for n2) (storage n2) of
               (Err e, st) \<Rightarrow> (Err e, n2\<lparr>storage := st\<rparr>)
             | (Ok _, st) \<Rightarrow>
                 (Ok \<lparr>rvr_term = current_term n2, vote_granted = True\<rparr>, n2\<lparr>storage := st\<rparr>)))"

definition handle_request_vote_response ::
  "('s, 'c) raft_env \<Rightarrow> ('c, 's) raft_node \<Rightarrow> node_id \<Rightarrow> request_vote_response \<Rightarrow>
     (storage_error + unit) \<times> ('c, 's) raft_node \<times> 'c outbound" where
  "handle_request_vote_response E n from resp =
     (case handle_term_update E n (rvr_term resp) of
        (Err e, n1) \<Rightarrow> (Err e, n1, [])
      | (Ok _, n1) \<Rightarrow>
          if role n1 \<noteq> Candidate then (Ok (), n1, [])
          else if vote_granted resp then
            (let n2 = n1\<lparr>tracker := record_vote (tracker n1) from\<rparr> in
             if has_quorum (tracker n2)
             then (case become_leader n2 of (n3, out) \<Rightarrow> (Ok (), n3, out))
             else (Ok (), n2, []))
          else (Ok (), n1, []))"

section \<open>Log replication\<close>

definition handle_append_entries ::
  "('s, 'c) raft_env \<Rightarrow> ('c, 's) raft_node \<Rightarrow> 'c append_entries \<Rightarrow>
     (storage_error + append_entries_response) \<times> ('c, 's) raft_node" where
  "handle_append_entries E n req =
     (case handle_term_update E n (ae_term req) of
        (Err e, n1) \<Rightarrow> (Err e, n1)
      | (Ok _, n1) \<Rightarrow>
          if ae_term req < current_term n1
          then (Ok \<lparr>aer_term = current_term n1, aer_success = False, aer_match_index = 0\<rparr>, n1)
          else
            (let n2 = n1\<lparr>role := Follower, current_leader := Some (ae_leader_id req),
                         leader_st := None, tracker := tracker_reset (tracker n1)\<rparr> in
             case log_append_entries (rlog n2) (prev_log_index req) (prev_log_term req) (ae_entries req) of
               (success, log') \<Rightarrow>
                 (let n3 = n2\<lparr>rlog := log'\<rparr> in
                  if \<not> success
                  then (Ok \<lparr>aer_term = current_term n3, aer_success = False, aer_match_index = 0\<rparr>, n3)
                  else
                    let n4 = (if leader_commit req > commit_index n3
                              then n3\<lparr>commit_index := min (leader_commit req) (last_index (rlog n3))\<rparr>
                              else n3) in
                    (Ok \<lparr>aer_term = current_term n4, aer_success = True,
                         aer_match_index = last_index (rlog n4)\<rparr>, n4))))"

definition handle_append_entries_response ::
  "('s, 'c) raft_env \<Rightarrow> ('c, 's) raft_node \<Rightarrow> node_id \<Rightarrow> append_entries_response \<Rightarrow>
     (storage_error + unit) \<times> ('c, 's) raft_node" where
  "handle_append_entries_response E n from resp =
     (case handle_term_update E n (aer_term resp) of
        (Err e, n1) \<Rightarrow> (Err e, n1)
      | (Ok _, n1) \<Rightarrow>
          if role n1 \<noteq> Leader then (Ok (), n1)
          else
            (let n2 = n1\<lparr>leader_st := map_option (\<lambda>l.
                   if aer_success resp
                   then \<lparr>next_index = hm_insert from (aer_match_index resp + 1) (next_index l),
                         match_index = hm_insert from (aer_match_index resp) (match_index l)\<rparr>
                   else
                     (let nxt = (case hm_get (next_index l) from of None \<Rightarrow> 1 | Some i \<Rightarrow> i) in
                      if nxt > 1 then l\<lparr>next_index := hm_insert from (nxt - 1) (next_index l)\<rparr>
                      else l)) (leader_st n1)\<rparr> in
             (Ok (), advance_commit_index E n2)))"

section \<open>Snapshots\<close>

definition should_snapshot :: "('c, 's) raft_node \<Rightarrow> bool" where
  "should_snapshot n \<longleftrightarrow> length (entries (rlog n)) \<ge> snapshot_threshold (config n)"

definition create_snapshot ::
  "('s, 'c) raft_env \<Rightarrow> ('m, 'c) state_machine_ops \<Rightarrow> ('c, 's) raft_node \<Rightarrow> 'm \<Rightarrow>
     (snapshot_error + unit) \<times> ('c, 's) raft_node" where
  "create_snapshot E M n m =
     (let applied = last_applied n in
      if applied = 0 then (Ok (), n)
      else if (case last_snapshot n of None \<Rightarrow> False | Some snap \<Rightarrow> last_included_index snap \<ge> applied)
      then (Ok (), n)
      else
        let t = (case term_at (rlog n) applied of None \<Rightarrow> snapshot_term (rlog n) | Some t \<Rightarrow> t);
            data = sm_snapshot M m in
        case save_snapshot E data applied t (storage n) of
          (Err e, st) \<Rightarrow> (Err (StorageFailure e), n\<lparr>storage := st\<rparr>)
        | (Ok _, st) \<Rightarrow>
            (Ok (), n\<lparr>storage := st, rlog := compact_to (rlog n) applied,
                      last_snapshot := Some \<lparr>last_included_index = applied,
                        last_included_term = t, snap_data = data\<rparr>\<rparr>))"

text \<open>The chunk buffer: start at offset 0, otherwise extend; \<open>None\<close> without a buffer.\<close>

definition receive_chunk :: "byte list option \<Rightarrow> install_snapshot \<Rightarrow> byte list option" where
  "receive_chunk buf req =
     (if is_offset req = 0 then Some (is_data req)
      else case buf of None \<Rightarrow> None | Some b \<Rightarrow> Some (b @ is_data req))"

text \<open>Installing a complete snapshot: cut or reset the log, restore, persist, move the indices.\<close>

definition finish_install ::
  "('s, 'c) raft_env \<Rightarrow> ('m, 'c) state_machine_ops \<Rightarrow> ('c, 's) raft_node \<Rightarrow> install_snapshot \<Rightarrow>
     byte list \<Rightarrow> 'm \<Rightarrow> (snapshot_error + install_snapshot_response) \<times> ('c, 's) raft_node \<times> 'm" where
  "finish_install E M n req snapshot_data m =
     (let idx = is_last_included_index req; t = is_last_included_term req;
          keep_suffix = (term_at (rlog n) idx = Some t);
          n1 = n\<lparr>rlog := (if keep_suffix then compact_to (rlog n) idx
                          else reset_to_snapshot (rlog n) idx t)\<rparr> in
      case sm_restore M snapshot_data m of
        (Err e, m') \<Rightarrow> (Err e, n1, m')
      | (Ok _, m') \<Rightarrow>
          (case save_snapshot E snapshot_data idx t (storage n1) of
             (Err e, st) \<Rightarrow> (Err (StorageFailure e), n1\<lparr>storage := st\<rparr>, m')
           | (Ok _, st) \<Rightarrow>
               (Ok \<lparr>isr_term = current_term n1\<rparr>,
                n1\<lparr>storage := st,
                   commit_index := (if idx > commit_index n1 then idx else commit_index n1),
                   last_applied := (if idx > last_applied n1 then idx else last_applied n1),
                   last_snapshot := Some \<lparr>last_included_index = idx, last_included_term = t,
                                          snap_data = snapshot_data\<rparr>\<rparr>, m')))"

definition handle_install_snapshot ::
  "('s, 'c) raft_env \<Rightarrow> ('m, 'c) state_machine_ops \<Rightarrow> ('c, 's) raft_node \<Rightarrow> install_snapshot \<Rightarrow> 'm \<Rightarrow>
     (snapshot_error + install_snapshot_response) \<times> ('c, 's) raft_node \<times> 'm" where
  "handle_install_snapshot E M n req m =
     (case handle_term_update E n (is_term req) of
        (Err e, n1) \<Rightarrow> (Err (StorageFailure e), n1, m)
      | (Ok _, n1) \<Rightarrow>
          if is_term req < current_term n1 then (Ok \<lparr>isr_term = current_term n1\<rparr>, n1, m)
          else
            (let n2 = n1\<lparr>role := Follower, current_leader := Some (is_leader_id req),
                         leader_st := None, tracker := tracker_reset (tracker n1)\<rparr> in
             case receive_chunk (pending_snapshot n2) req of
               None \<Rightarrow> (Ok \<lparr>isr_term = current_term n2\<rparr>, n2, m)
             | Some buf \<Rightarrow>
                 if \<not> is_done req
                 then (Ok \<lparr>isr_term = current_term n2\<rparr>, n2\<lparr>pending_snapshot := Some buf\<rparr>, m)
                 else finish_install E M (n2\<lparr>pending_snapshot := None\<rparr>) req buf m))"

definition handle_install_snapshot_response ::
  "('s, 'c) raft_env \<Rightarrow> ('c, 's) raft_node \<Rightarrow> node_id \<Rightarrow> install_snapshot_response \<Rightarrow>
     (storage_error + unit) \<times> ('c, 's) raft_node" where
  "handle_install_snapshot_response E n from resp =
     (case handle_term_update E n (isr_term resp) of
        (Err e, n1) \<Rightarrow> (Err e, n1)
      | (Ok _, n1) \<Rightarrow>
          if role n1 \<noteq> Leader then (Ok (), n1)
          else
            (let n2 = (case last_snapshot n1 of None \<Rightarrow> n1
                       | Some snap \<Rightarrow>
                           n1\<lparr>leader_st := map_option (\<lambda>l.
                               \<lparr>next_index = hm_insert from (last_included_index snap + 1) (next_index l),
                                match_index = hm_insert from (last_included_index snap) (match_index l)\<rparr>)
                             (leader_st n1)\<rparr>) in
             (Ok (), advance_commit_index E n2)))"

section \<open>The driver's dispatch\<close>

text \<open>
  \<^verbatim>\<open>handle_inbound_message\<close> of \<^verbatim>\<open>raft/driver.rs\<close>: the node, the state machine, the messages
  sent and the flag \<^verbatim>\<open>election_reset\<close>. An error is logged and answered by nothing. The
  health monitor, which only observes responses, is left out.
\<close>

fun handle_inbound_message ::
  "('s, 'c) raft_env \<Rightarrow> ('m, 'c) state_machine_ops \<Rightarrow> ('c, 's) raft_node \<Rightarrow> 'm \<Rightarrow> node_id \<Rightarrow>
     'c raft_message \<Rightarrow> ('c, 's) raft_node \<times> 'm \<times> 'c outbound \<times> bool" where
  "handle_inbound_message E M n m from (RequestVote req) =
     (case handle_request_vote E n req of
        (Ok resp, n') \<Rightarrow> (n', m, [(from, RequestVoteResponse resp)], vote_granted resp)
      | (Err _, n') \<Rightarrow> (n', m, [], False))"
| "handle_inbound_message E M n m from (RequestVoteResponse resp) =
     (case handle_request_vote_response E n from resp of (_, n', out) \<Rightarrow> (n', m, out, False))"
| "handle_inbound_message E M n m from (AppendEntries req) =
     (case handle_append_entries E n req of
        (Ok resp, n') \<Rightarrow>
          (n', m, [(from, AppendEntriesResponse resp)], ae_term req \<ge> current_term n')
      | (Err _, n') \<Rightarrow> (n', m, [], False))"
| "handle_inbound_message E M n m from (AppendEntriesResponse resp) =
     (case handle_append_entries_response E n from resp of (_, n') \<Rightarrow> (n', m, [], False))"
| "handle_inbound_message E M n m from (InstallSnapshot req) =
     (case handle_install_snapshot E M n req m of
        (Ok resp, n', m') \<Rightarrow>
          (n', m', [(from, InstallSnapshotResponse resp)], is_term req \<ge> current_term n')
      | (Err _, n', m') \<Rightarrow> (n', m', [], False))"
| "handle_inbound_message E M n m from (InstallSnapshotResponse resp) =
     (case handle_install_snapshot_response E n from resp of (_, n') \<Rightarrow> (n', m, [], False))"

text \<open>\<^verbatim>\<open>handle_proposal\<close> and \<^verbatim>\<open>handle_membership_proposal\<close>.\<close>

definition handle_proposal ::
  "('s, 'c) raft_env \<Rightarrow> ('c, 's) raft_node \<Rightarrow> 'c \<Rightarrow> ('c, 's) raft_node \<times> 'c outbound" where
  "handle_proposal E n cmd =
     (if role n \<noteq> Leader then (n, [])
      else case client_request n cmd of
        (Some _, n', out) \<Rightarrow> (advance_commit_index E n', out)
      | (None, n', out) \<Rightarrow> (n', out))"

definition handle_membership_proposal ::
  "('s, 'c) raft_env \<Rightarrow> ('c, 's) raft_node \<Rightarrow> membership_change \<Rightarrow> 'c \<Rightarrow>
     (membership_error + nat) \<times> ('c, 's) raft_node \<times> 'c outbound" where
  "handle_membership_proposal E n change noop =
     (case propose_membership_change E n change noop of
        (Ok i, n', out) \<Rightarrow> (Ok i, advance_commit_index E n', out)
      | (Err e, n', out) \<Rightarrow> (Err e, n', out))"

definition apply_committed_entries ::
  "('m, 'c) state_machine_ops \<Rightarrow> ('c, 's) raft_node \<Rightarrow> 'm \<Rightarrow> ('c, 's) raft_node \<times> 'm \<times> 'c log_entry list" where
  "apply_committed_entries M n m =
     (if last_applied n \<ge> commit_index n then (n, m, [])
      else apply_committed_with_entries (sm_apply M) n m)"

definition maybe_snapshot ::
  "('s, 'c) raft_env \<Rightarrow> ('m, 'c) state_machine_ops \<Rightarrow> ('c, 's) raft_node \<Rightarrow> 'm \<Rightarrow> ('c, 's) raft_node" where
  "maybe_snapshot E M n m = (if should_snapshot n then snd (create_snapshot E M n m) else n)"

text \<open>
  One iteration of the loop \<^verbatim>\<open>run\<close>: one ready branch of the \<^verbatim>\<open>select!\<close> (a timer branch only
  under its guard), then applying and snapshotting. The result holds the node, the machine,
  the messages sent, the entries handed to \<^verbatim>\<open>commit_tx\<close>, and whether the election deadline
  is set anew.
\<close>

datatype 'c driver_event =
    ElectionTimeout
  | HeartbeatTick
  | Inbound node_id "'c raft_message"
  | ClientProposal 'c
  | MembershipProposal membership_change 'c

fun handle_event ::
  "('s, 'c) raft_env \<Rightarrow> ('m, 'c) state_machine_ops \<Rightarrow> ('c, 's) raft_node \<Rightarrow> 'm \<Rightarrow> 'c driver_event \<Rightarrow>
     ('c, 's) raft_node \<times> 'm \<times> 'c outbound \<times> bool" where
  "handle_event E M n m ElectionTimeout =
     (if role n \<noteq> Leader then (case start_election E n of (_, n', out) \<Rightarrow> (n', m, out, True))
      else (n, m, [], False))"
| "handle_event E M n m HeartbeatTick =
     (if role n = Leader then (n, m, send_append_entries_to_all n, False) else (n, m, [], False))"
| "handle_event E M n m (Inbound from msg) = handle_inbound_message E M n m from msg"
| "handle_event E M n m (ClientProposal cmd) =
     (case handle_proposal E n cmd of (n', out) \<Rightarrow> (n', m, out, False))"
| "handle_event E M n m (MembershipProposal change noop) =
     (case handle_membership_proposal E n change noop of (_, n', out) \<Rightarrow> (n', m, out, False))"

definition driver_step ::
  "('s, 'c) raft_env \<Rightarrow> ('m, 'c) state_machine_ops \<Rightarrow> ('c, 's) raft_node \<Rightarrow> 'm \<Rightarrow> 'c driver_event \<Rightarrow>
     ('c, 's) raft_node \<times> 'm \<times> 'c outbound \<times> 'c log_entry list \<times> bool" where
  "driver_step E M n m ev =
     (case handle_event E M n m ev of
        (n1, m1, out, reset) \<Rightarrow>
          (case apply_committed_entries M n1 m1 of
             (n2, m2, es) \<Rightarrow> (maybe_snapshot E M n2 m2, m2, out, es, reset)))"

end
