(* ===== verification/Raft_Storage.thy ===== *)
theory Raft_Storage
  imports Raft_State
begin

text \<open>
  \<^verbatim>\<open>FileStorage\<close> of \<^verbatim>\<open>raft/file_storage.rs\<close>: the node's persistent state in five files of
  one directory.

  The directory is a map from file names to contents. The file system may fail: each
  \<^verbatim>\<open>atomic_write\<close> takes the next element of \<open>write_faults\<close> (an empty list: no further
  failures), which says at which of its four calls it fails and how much of the temporary
  file was written by then, and \<open>read_fault\<close> makes every read fail with an I/O error other
  than not-found. The JSON encoding of log entries (\<^verbatim>\<open>serde_json\<close>) is a pair of parameters.

  The locale \<open>durable_storage\<close> is the contract of the trait \<^verbatim>\<open>RaftStorage\<close> that the node
  relies on (what a load returns after each save); \<^verbatim>\<open>FileStorage\<close> without failures meets it.
\<close>

section \<open>The directory\<close>

datatype fs_fault = FailCreate | FailWrite nat | FailSync | FailRename

record file_storage =
  files :: "string \<Rightarrow> string option"
  write_faults :: "fs_fault option list"
  read_fault :: bool

definition TERM_FILE :: string where "TERM_FILE = ''term''"
definition VOTED_FOR_FILE :: string where "VOTED_FOR_FILE = ''voted_for''"
definition LOG_FILE :: string where "LOG_FILE = ''log.jsonl''"
definition SNAPSHOT_FILE :: string where "SNAPSHOT_FILE = ''snapshot.bin''"
definition SNAPSHOT_META_FILE :: string where "SNAPSHOT_META_FILE = ''snapshot.meta''"

definition tmp_name :: "string \<Rightarrow> string" where
  "tmp_name path = ''.tmp.'' @ path"

definition file_storage_new :: "file_storage" where
  "file_storage_new = \<lparr>files = (\<lambda>_. None), write_faults = [], read_fault = False\<rparr>"

text \<open>Write to a temporary file, sync, rename over the target.\<close>

definition atomic_write :: "string \<Rightarrow> string \<Rightarrow> file_storage \<Rightarrow> (storage_error + unit) \<times> file_storage" where
  "atomic_write path data s =
     (let fault = (case write_faults s of [] \<Rightarrow> None | f # _ \<Rightarrow> f);
          s1 = s\<lparr>write_faults := tl (write_faults s)\<rparr>;
          tmp = tmp_name path in
      case fault of
        Some FailCreate \<Rightarrow> (Err (Io ''create''), s1)
      | Some (FailWrite k) \<Rightarrow> (Err (Io ''write''), s1\<lparr>files := (files s1)(tmp := Some (take k data))\<rparr>)
      | Some FailSync \<Rightarrow> (Err (Io ''sync''), s1\<lparr>files := (files s1)(tmp := Some data)\<rparr>)
      | Some FailRename \<Rightarrow> (Err (Io ''rename''), s1\<lparr>files := (files s1)(tmp := Some data)\<rparr>)
      | None \<Rightarrow> (Ok (), s1\<lparr>files := (files s1)(tmp := None, path := Some data)\<rparr>))"

definition read_file :: "string \<Rightarrow> file_storage \<Rightarrow> storage_error + string option" where
  "read_file path s = (if read_fault s then Err (Io ''read'') else Ok (files s path))"

definition from_utf8 :: "string \<Rightarrow> string \<Rightarrow> storage_error + string" where
  "from_utf8 what data = (if valid_utf8 data then Ok data else Err (Corrupted (what @ '' not valid UTF-8'')))"

definition parse_u64 :: "string \<Rightarrow> string \<Rightarrow> storage_error + nat" where
  "parse_u64 what str = ok_or (Corrupted (what @ '' not a number'')) (parse_unsigned U64_MAX str)"

section \<open>The operations of the trait\<close>

definition fs_save_term :: "nat \<Rightarrow> file_storage \<Rightarrow> (storage_error + unit) \<times> file_storage" where
  "fs_save_term t s = atomic_write TERM_FILE (nat_to_string t) s"

definition fs_load_term :: "file_storage \<Rightarrow> storage_error + nat" where
  "fs_load_term s =
     result_bind (read_file TERM_FILE s) (\<lambda>c. case c of
       None \<Rightarrow> Ok 0
     | Some data \<Rightarrow> result_bind (from_utf8 ''term file'' data) (\<lambda>str.
                      parse_u64 ''term file'' (trim str)))"

definition fs_save_voted_for ::
  "node_id option \<Rightarrow> file_storage \<Rightarrow> (storage_error + unit) \<times> file_storage" where
  "fs_save_voted_for v s =
     atomic_write VOTED_FOR_FILE (case v of Some i \<Rightarrow> nat_to_string i | None \<Rightarrow> []) s"

definition fs_load_voted_for :: "file_storage \<Rightarrow> storage_error + node_id option" where
  "fs_load_voted_for s =
     result_bind (read_file VOTED_FOR_FILE s) (\<lambda>c. case c of
       None \<Rightarrow> Ok None
     | Some data \<Rightarrow> result_bind (from_utf8 ''voted_for file'' data) (\<lambda>str.
                      let trimmed = trim str in
                      if trimmed = [] then Ok None
                      else result_bind (parse_u64 ''voted_for file'' trimmed) (\<lambda>i. Ok (Some i))))"

fun encode_lines ::
  "('c log_entry \<Rightarrow> string + string) \<Rightarrow> string \<Rightarrow> 'c log_entry list \<Rightarrow> storage_error + string" where
  "encode_lines to_json content [] = Ok content"
| "encode_lines to_json content (e # es) =
     result_bind (map_err Serialization (to_json e)) (\<lambda>line.
       encode_lines to_json (content @ line @ [CHR 0x0A]) es)"

fun decode_lines ::
  "(string \<Rightarrow> string + 'c log_entry) \<Rightarrow> nat \<Rightarrow> string list \<Rightarrow> storage_error + 'c log_entry list" where
  "decode_lines from_json i [] = Ok []"
| "decode_lines from_json i (l # ls) =
     (if trim l = [] then decode_lines from_json (i + 1) ls
      else result_bind
             (map_err (\<lambda>m. Deserialization (''log line '' @ nat_to_string (i + 1) @ '': '' @ m)) (from_json l))
             (\<lambda>e. result_bind (decode_lines from_json (i + 1) ls) (\<lambda>es. Ok (e # es))))"

definition fs_append_entries ::
  "('c log_entry \<Rightarrow> string + string) \<Rightarrow> 'c log_entry list \<Rightarrow> file_storage \<Rightarrow>
     (storage_error + unit) \<times> file_storage" where
  "fs_append_entries to_json es s =
     (if es = [] then (Ok (), s)
      else case result_bind (read_file LOG_FILE s) (\<lambda>c. case c of
                  Some data \<Rightarrow> from_utf8 ''log file'' data | None \<Rightarrow> Ok []) of
        Err e \<Rightarrow> (Err e, s)
      | Ok content \<Rightarrow>
          (case encode_lines to_json content es of
             Err e \<Rightarrow> (Err e, s)
           | Ok content' \<Rightarrow> atomic_write LOG_FILE content' s))"

definition fs_load_log ::
  "(string \<Rightarrow> string + 'c log_entry) \<Rightarrow> file_storage \<Rightarrow> storage_error + 'c log_entry list" where
  "fs_load_log from_json s =
     result_bind (read_file LOG_FILE s) (\<lambda>c. case c of
       Some data \<Rightarrow> result_bind (from_utf8 ''log file'' data) (\<lambda>str.
                      decode_lines from_json 0 (str_lines str))
     | None \<Rightarrow> Ok [])"

definition fs_truncate_log_from ::
  "('c log_entry \<Rightarrow> string + string) \<Rightarrow> (string \<Rightarrow> string + 'c log_entry) \<Rightarrow> nat \<Rightarrow> file_storage \<Rightarrow>
     (storage_error + unit) \<times> file_storage" where
  "fs_truncate_log_from to_json from_json index s =
     (case result_bind (fs_load_log from_json s) (\<lambda>es. encode_lines to_json [] (take (index - 1) es)) of
        Err e \<Rightarrow> (Err e, s)
      | Ok content \<Rightarrow> atomic_write LOG_FILE content s)"

definition fs_save_snapshot ::
  "byte list \<Rightarrow> nat \<Rightarrow> nat \<Rightarrow> file_storage \<Rightarrow> (storage_error + unit) \<times> file_storage" where
  "fs_save_snapshot data idx t s =
     (case atomic_write SNAPSHOT_FILE data s of
        (Err e, s1) \<Rightarrow> (Err e, s1)
      | (Ok _, s1) \<Rightarrow>
          atomic_write SNAPSHOT_META_FILE (nat_to_string idx @ [CHR 0x0A] @ nat_to_string t) s1)"

definition fs_load_snapshot :: "file_storage \<Rightarrow> storage_error + (byte list \<times> nat \<times> nat) option" where
  "fs_load_snapshot s =
     result_bind (read_file SNAPSHOT_META_FILE s) (\<lambda>meta. case meta of None \<Rightarrow> Ok None
     | Some meta_data \<Rightarrow>
         result_bind (read_file SNAPSHOT_FILE s) (\<lambda>snap. case snap of None \<Rightarrow> Ok None
         | Some data \<Rightarrow>
             result_bind (from_utf8 ''snapshot meta'' meta_data) (\<lambda>str.
             case str_lines str of
               [] \<Rightarrow> Err (Corrupted ''snapshot meta missing index line'')
             | [_] \<Rightarrow> Err (Corrupted ''snapshot meta missing term line'')
             | index_str # term_str # _ \<Rightarrow>
                 result_bind (parse_u64 ''snapshot meta index'' (trim index_str)) (\<lambda>idx.
                 result_bind (parse_u64 ''snapshot meta term'' (trim term_str)) (\<lambda>t.
                   Ok (Some (data, idx, t)))))))"

definition file_env ::
  "('c log_entry \<Rightarrow> string + string) \<Rightarrow> (string \<Rightarrow> string + 'c log_entry) \<Rightarrow>
     (nat \<Rightarrow> nat \<Rightarrow> nat \<Rightarrow> nat) \<Rightarrow> (file_storage, 'c) raft_env" where
  "file_env to_json from_json scale = \<lparr>
     save_term = fs_save_term, load_term = fs_load_term,
     save_voted_for = fs_save_voted_for, load_voted_for = fs_load_voted_for,
     st_append_entries = fs_append_entries to_json, load_log = fs_load_log from_json,
     truncate_log_from = fs_truncate_log_from to_json from_json,
     save_snapshot = fs_save_snapshot, load_snapshot = fs_load_snapshot,
     timeout_scale = scale\<rparr>"

section \<open>Lemmas\<close>

lemmas file_names = TERM_FILE_def VOTED_FOR_FILE_def LOG_FILE_def SNAPSHOT_FILE_def SNAPSHOT_META_FILE_def

lemma atomic_write_shape:
  assumes "atomic_write path data s = (r, s')"
  shows "read_fault s' = read_fault s \<and> write_faults s' = tl (write_faults s)
    \<and> (r = Ok () \<and> files s' = (files s)(tmp_name path := None, path := Some data)
       \<or> (\<exists>e c. r = Err e \<and> write_faults s \<noteq> [] \<and> files s' = (files s)(tmp_name path := c)))"
  using assms unfolding atomic_write_def Let_def
  by (auto split: list.splits option.splits fs_fault.splits) (metis fun_upd_triv)+

lemma atomic_write_cases:
  obtains (ok) s' where "atomic_write path data s = (Ok (), s')"
      "files s' = (files s)(tmp_name path := None, path := Some data)"
      "read_fault s' = read_fault s" "write_faults s' = tl (write_faults s)"
  | (fail) e s' c where "atomic_write path data s = (Err e, s')" "write_faults s \<noteq> []"
      "files s' = (files s)(tmp_name path := c)"
      "read_fault s' = read_fault s" "write_faults s' = tl (write_faults s)"
  using atomic_write_shape [of path data s] that by (cases "atomic_write path data s") metis

lemma atomic_write_no_fault:
  "write_faults s = [] \<Longrightarrow> \<exists>s'. atomic_write path data s = (Ok (), s')
     \<and> files s' = (files s)(tmp_name path := None, path := Some data)
     \<and> read_fault s' = read_fault s \<and> write_faults s' = []"
  by (simp add: atomic_write_def)

lemma tmp_name_neq [simp]:
  "tmp_name p \<noteq> TERM_FILE" "tmp_name p \<noteq> VOTED_FOR_FILE" "tmp_name p \<noteq> LOG_FILE"
  "tmp_name p \<noteq> SNAPSHOT_FILE" "tmp_name p \<noteq> SNAPSHOT_META_FILE"
  by (simp_all add: tmp_name_def file_names)

lemma file_names_neq [simp]:
  "TERM_FILE \<noteq> VOTED_FOR_FILE" "TERM_FILE \<noteq> LOG_FILE" "TERM_FILE \<noteq> SNAPSHOT_FILE"
  "TERM_FILE \<noteq> SNAPSHOT_META_FILE" "VOTED_FOR_FILE \<noteq> LOG_FILE" "VOTED_FOR_FILE \<noteq> SNAPSHOT_FILE"
  "VOTED_FOR_FILE \<noteq> SNAPSHOT_META_FILE" "LOG_FILE \<noteq> SNAPSHOT_FILE"
  "LOG_FILE \<noteq> SNAPSHOT_META_FILE" "SNAPSHOT_FILE \<noteq> SNAPSHOT_META_FILE"
  by (simp_all add: file_names)

lemmas file_names_neq' [simp] = file_names_neq [symmetric] tmp_name_neq [symmetric]

text \<open>A load depends on the read fault and on the files it names only.\<close>

lemma fs_load_term_cong:
  "read_fault s' = read_fault s \<Longrightarrow> files s' TERM_FILE = files s TERM_FILE \<Longrightarrow>
     fs_load_term s' = fs_load_term s"
  by (simp add: fs_load_term_def read_file_def)

lemma fs_load_voted_for_cong:
  "read_fault s' = read_fault s \<Longrightarrow> files s' VOTED_FOR_FILE = files s VOTED_FOR_FILE \<Longrightarrow>
     fs_load_voted_for s' = fs_load_voted_for s"
  by (simp add: fs_load_voted_for_def read_file_def)

lemma fs_load_log_cong:
  "read_fault s' = read_fault s \<Longrightarrow> files s' LOG_FILE = files s LOG_FILE \<Longrightarrow>
     fs_load_log from_json s' = fs_load_log from_json s"
  by (simp add: fs_load_log_def read_file_def)

lemma fs_load_snapshot_cong:
  "read_fault s' = read_fault s \<Longrightarrow> files s' SNAPSHOT_FILE = files s SNAPSHOT_FILE \<Longrightarrow>
     files s' SNAPSHOT_META_FILE = files s SNAPSHOT_META_FILE \<Longrightarrow>
     fs_load_snapshot s' = fs_load_snapshot s"
  unfolding fs_load_snapshot_def read_file_def by simp

lemmas fs_load_congs = fs_load_term_cong fs_load_voted_for_cong fs_load_log_cong fs_load_snapshot_cong

lemma parse_u64_nat_to_string [simp]: "t \<le> U64_MAX \<Longrightarrow> parse_u64 w (nat_to_string t) = Ok t"
  by (simp add: parse_u64_def parse_unsigned_nat_to_string)

lemma fs_load_term_eq:
  "\<not> read_fault s \<Longrightarrow> files s TERM_FILE = Some (nat_to_string t) \<Longrightarrow> t \<le> U64_MAX \<Longrightarrow>
     fs_load_term s = Ok t"
  by (simp add: fs_load_term_def read_file_def from_utf8_def)

lemma fs_load_voted_for_eq:
  assumes "\<not> read_fault s" "\<And>i. v = Some i \<Longrightarrow> i \<le> U64_MAX"
    and "files s VOTED_FOR_FILE = Some (case v of Some i \<Rightarrow> nat_to_string i | None \<Rightarrow> [])"
  shows "fs_load_voted_for s = Ok v"
  using assms
  by (cases v) (simp_all add: fs_load_voted_for_def read_file_def from_utf8_def Let_def)

lemma str_lines_meta:
  "str_lines (nat_to_string i @ CHR 0x0A # nat_to_string t) = [nat_to_string i, nat_to_string t]"
proof -
  have no: "CHR 0x0A \<notin> set (nat_to_string k)" for k
    by (rule nat_to_string_no_byte) (simp add: is_ascii_digit_def)
  have "last (nat_to_string i) \<noteq> CHR 0x0D"
    using nat_to_string_digits [OF last_in_set, of i] by (auto simp: is_ascii_digit_def)
  then show ?thesis by (simp add: str_lines_line no str_lines_last strip_cr_def)
qed

lemma fs_load_snapshot_eq:
  assumes "\<not> read_fault s" "i \<le> U64_MAX" "t \<le> U64_MAX" "files s SNAPSHOT_FILE = Some d"
    and "files s SNAPSHOT_META_FILE = Some (nat_to_string i @ CHR 0x0A # nat_to_string t)"
  shows "fs_load_snapshot s = Ok (Some (d, i, t))"
proof -
  have "valid_utf8 (nat_to_string i @ CHR 0x0A # nat_to_string t)"
    by (rule valid_utf8_append) (simp_all add: byte_in_def)
  then show ?thesis
    using assms by (simp add: fs_load_snapshot_def read_file_def from_utf8_def str_lines_meta)
qed

section \<open>The contract of the trait\<close>

text \<open>
  \<open>fine s\<close> says that the storage works: the save operations the node uses succeed, a load
  returns what was saved last, and saving one item leaves the others alone.
\<close>

locale durable_storage =
  fixes E :: "('s, 'c) raft_env" and fine :: "'s \<Rightarrow> bool"
  assumes load_term_bound: "load_term E s = Ok t \<Longrightarrow> t \<le> U64_MAX"
    and load_voted_for_bound: "load_voted_for E s = Ok (Some i) \<Longrightarrow> i \<le> U64_MAX"
    and save_term_ok: "fine s \<Longrightarrow> t \<le> U64_MAX \<Longrightarrow>
      \<exists>s'. save_term E t s = (Ok (), s') \<and> fine s' \<and> load_term E s' = Ok t
           \<and> load_voted_for E s' = load_voted_for E s"
    and save_voted_for_ok: "fine s \<Longrightarrow> (\<And>i. v = Some i \<Longrightarrow> i \<le> U64_MAX) \<Longrightarrow>
      \<exists>s'. save_voted_for E v s = (Ok (), s') \<and> fine s' \<and> load_voted_for E s' = Ok v
           \<and> load_term E s' = load_term E s"
    and save_snapshot_ok: "fine s \<Longrightarrow>
      \<exists>s'. save_snapshot E d i t s = (Ok (), s') \<and> fine s'
           \<and> load_term E s' = load_term E s \<and> load_voted_for E s' = load_voted_for E s"
begin

text \<open>Saving a term and then a vote, as \<^verbatim>\<open>handle_term_update\<close> and \<^verbatim>\<open>start_election\<close> do.\<close>

lemma save_term_vote:
  assumes "fine s" "t \<le> U64_MAX" "\<And>i. v = Some i \<Longrightarrow> i \<le> U64_MAX"
  obtains s1 s2 where "save_term E t s = (Ok (), s1)" "save_voted_for E v s1 = (Ok (), s2)"
    "fine s2" "load_term E s2 = Ok t" "load_voted_for E s2 = Ok v"
proof -
  obtain s1 where s1: "save_term E t s = (Ok (), s1)" "fine s1" "load_term E s1 = Ok t"
    using save_term_ok [OF assms(1,2)] by blast
  obtain s2 where "save_voted_for E v s1 = (Ok (), s2)" "fine s2" "load_voted_for E s2 = Ok v"
    "load_term E s2 = load_term E s1"
    using save_voted_for_ok [OF s1(2) assms(3)] by blast
  with s1 that show ?thesis by metis
qed

end

definition fs_fine :: "file_storage \<Rightarrow> bool" where
  "fs_fine s \<longleftrightarrow> write_faults s = [] \<and> \<not> read_fault s"

interpretation fs: durable_storage "file_env to_json from_json scale" fs_fine
proof
  fix s :: file_storage and t i :: nat
  show "load_term (file_env to_json from_json scale) s = Ok t \<Longrightarrow> t \<le> U64_MAX"
    by (auto simp: file_env_def fs_load_term_def parse_u64_def dest: parse_unsigned_bound
        split: option.splits)
  show "load_voted_for (file_env to_json from_json scale) s = Ok (Some i) \<Longrightarrow> i \<le> U64_MAX"
    by (auto simp: file_env_def fs_load_voted_for_def parse_u64_def Let_def dest: parse_unsigned_bound
        split: option.splits if_splits)
next
  fix s :: file_storage and t :: nat
  assume "fs_fine s" "t \<le> U64_MAX"
  then show "\<exists>s'. save_term (file_env to_json from_json scale) t s = (Ok (), s') \<and> fs_fine s'
      \<and> load_term (file_env to_json from_json scale) s' = Ok t
      \<and> load_voted_for (file_env to_json from_json scale) s' = load_voted_for (file_env to_json from_json scale) s"
    using atomic_write_no_fault [of s TERM_FILE "nat_to_string t"]
    by (auto simp: file_env_def fs_save_term_def fs_fine_def
        intro!: fs_load_term_eq fs_load_voted_for_cong)
next
  fix s :: file_storage and v :: "node_id option"
  assume "fs_fine s" "\<And>i. v = Some i \<Longrightarrow> i \<le> U64_MAX"
  then show "\<exists>s'. save_voted_for (file_env to_json from_json scale) v s = (Ok (), s') \<and> fs_fine s'
      \<and> load_voted_for (file_env to_json from_json scale) s' = Ok v
      \<and> load_term (file_env to_json from_json scale) s' = load_term (file_env to_json from_json scale) s"
    using atomic_write_no_fault [of s VOTED_FOR_FILE "case v of Some i \<Rightarrow> nat_to_string i | None \<Rightarrow> []"]
    by (auto simp: file_env_def fs_save_voted_for_def fs_fine_def
        intro!: fs_load_voted_for_eq fs_load_term_cong)
next
  fix s :: file_storage and d :: "byte list" and i t :: nat
  assume s: "fs_fine s"
  obtain s1 where s1: "atomic_write SNAPSHOT_FILE d s = (Ok (), s1)"
    "files s1 = (files s)(tmp_name SNAPSHOT_FILE := None, SNAPSHOT_FILE := Some d)"
    "read_fault s1 = read_fault s" "write_faults s1 = []"
    using atomic_write_no_fault [of s] s by (auto simp: fs_fine_def)
  then show "\<exists>s'. save_snapshot (file_env to_json from_json scale) d i t s = (Ok (), s') \<and> fs_fine s'
      \<and> load_term (file_env to_json from_json scale) s' = load_term (file_env to_json from_json scale) s
      \<and> load_voted_for (file_env to_json from_json scale) s' = load_voted_for (file_env to_json from_json scale) s"
    using atomic_write_no_fault [OF s1(4), of SNAPSHOT_META_FILE
        "nat_to_string i @ [CHR 0x0A] @ nat_to_string t"] s
    by (auto simp: file_env_def fs_save_snapshot_def fs_fine_def intro!: fs_load_congs)
qed

section \<open>The log file\<close>

text \<open>
  What \<^verbatim>\<open>FileStorage\<close> relies on of \<^verbatim>\<open>serde_json\<close>: a value that is written reads back, and
  compact JSON is one non-blank line of valid UTF-8.
\<close>

definition json_line_codec ::
  "('c log_entry \<Rightarrow> string + string) \<Rightarrow> (string \<Rightarrow> string + 'c log_entry) \<Rightarrow> bool" where
  "json_line_codec to_json from_json \<longleftrightarrow>
     (\<forall>e line. to_json e = Ok line \<longrightarrow>
        from_json line = Ok e \<and> trim line \<noteq> [] \<and> CHR 0x0A \<notin> set line
        \<and> last line \<noteq> CHR 0x0D \<and> valid_utf8 line)"

text \<open>The log file holds the entries \<open>es\<close>, one line each (no file: no entries).\<close>

definition log_file_holds :: "('c log_entry \<Rightarrow> string + string) \<Rightarrow> file_storage \<Rightarrow> 'c log_entry list \<Rightarrow> bool" where
  "log_file_holds to_json s es \<longleftrightarrow>
     \<not> read_fault s \<and>
     (case files s LOG_FILE of None \<Rightarrow> es = [] | Some c \<Rightarrow> encode_lines to_json [] es = Ok c)"

lemma encode_lines_append:
  "encode_lines tj c (xs @ ys) = result_bind (encode_lines tj c xs) (\<lambda>c'. encode_lines tj c' ys)"
  by (induction xs arbitrary: c) (auto simp: result_bind_def split: sum.splits)

lemma encode_lines_acc:
  "encode_lines tj (c @ d) es = result_bind (encode_lines tj d es) (\<lambda>x. Ok (c @ x))"
  by (induction es arbitrary: d) (auto simp: result_bind_def split: sum.splits)

lemmas encode_lines_acc0 = encode_lines_acc [where d = "[]", simplified]

lemma encode_lines_take:
  "encode_lines tj c es = Ok c' \<Longrightarrow> \<exists>c''. encode_lines tj c (take k es) = Ok c''"
  by (metis append_take_drop_id encode_lines_append result_bind_eq_Ok)

lemma decode_encode_lines:
  assumes "json_line_codec tj fj" "encode_lines tj [] es = Ok c"
  shows "decode_lines fj i (str_lines c) = Ok es" "valid_utf8 c"
proof -
  have "decode_lines fj i (str_lines c) = Ok es \<and> valid_utf8 c"
    using assms(2)
  proof (induction es arbitrary: c i)
    case Nil
    then show ?case by simp
  next
    case (Cons e es)
    obtain l where l: "tj e = Ok l" and rest: "encode_lines tj (l @ [CHR 0x0A]) es = Ok c"
      using Cons.prems by auto
    obtain d where d: "encode_lines tj [] es = Ok d" and c: "c = l @ CHR 0x0A # d"
      using rest [unfolded encode_lines_acc [of tj "l @ [CHR 0x0A]" "[]" es, simplified append_Nil2]]
      by auto
    have codec: "fj l = Ok e" "trim l \<noteq> []" "CHR 0x0A \<notin> set l" "strip_cr l = l" "valid_utf8 l"
      using assms(1) l by (auto simp: json_line_codec_def strip_cr_def)
    have "valid_utf8 (l @ [CHR 0x0A])"
      by (rule valid_utf8_append) (simp_all add: codec byte_in_def)
    then have "valid_utf8 c" using valid_utf8_append [of "l @ [CHR 0x0A]" d] Cons.IH [OF d] c by simp
    then show ?case
      using Cons.IH [OF d] codec by (simp add: c str_lines_line)
  qed
  then show "decode_lines fj i (str_lines c) = Ok es" "valid_utf8 c" by auto
qed

lemma log_file_holds_load:
  "json_line_codec tj fj \<Longrightarrow> log_file_holds tj s es \<Longrightarrow> fs_load_log fj s = Ok es"
  by (auto simp: log_file_holds_def fs_load_log_def read_file_def from_utf8_def
      decode_encode_lines split: option.splits)

lemma log_file_holds_write:
  assumes "log_file_holds tj s old" "encode_lines tj [] es = Ok c"
    "atomic_write LOG_FILE c s = (r, s')"
  shows "(r = Ok () \<and> log_file_holds tj s' es) \<or> (\<exists>e. r = Err e \<and> log_file_holds tj s' old)"
  using atomic_write_shape [OF assms(3)] assms(1,2) by (auto simp: log_file_holds_def)

lemma log_file_holds_append:
  assumes codec: "json_line_codec tj fj" and "log_file_holds tj s old"
    and "fs_append_entries tj es s = (r, s')"
  shows "(r = Ok () \<and> log_file_holds tj s' (old @ es)) \<or> (\<exists>e. r = Err e \<and> log_file_holds tj s' old)"
proof (cases "es = []")
  case True
  then show ?thesis using assms by (auto simp: fs_append_entries_def)
next
  case False
  define c where "c = (case files s LOG_FILE of None \<Rightarrow> [] | Some c \<Rightarrow> c)"
  have enc: "encode_lines tj [] old = Ok c"
    using assms(2) by (auto simp: log_file_holds_def c_def split: option.splits)
  have read: "result_bind (read_file LOG_FILE s) (\<lambda>c. case c of
      Some data \<Rightarrow> from_utf8 ''log file'' data | None \<Rightarrow> Ok []) = Ok c"
    using assms(2) decode_encode_lines(2) [OF codec enc]
    by (auto simp: log_file_holds_def c_def read_file_def from_utf8_def split: option.splits)
  have app: "(case encode_lines tj c es of Err e \<Rightarrow> (Err e, s) | Ok c' \<Rightarrow> atomic_write LOG_FILE c' s) = (r, s')"
    using assms(3) False unfolding fs_append_entries_def read by simp
  show ?thesis
  proof (cases "encode_lines tj c es")
    case (Inl e)
    then show ?thesis using assms(2) app by auto
  next
    case (Inr c')
    then have "encode_lines tj [] (old @ es) = Ok c'" using enc by (simp add: encode_lines_append)
    then show ?thesis
      using log_file_holds_write [OF assms(2)] app Inr by simp
  qed
qed

lemma log_file_holds_truncate:
  assumes codec: "json_line_codec tj fj" and "log_file_holds tj s old"
    and "fs_truncate_log_from tj fj i s = (r, s')"
  shows "(r = Ok () \<and> log_file_holds tj s' (take (i - 1) old)) \<or> (\<exists>e. r = Err e \<and> log_file_holds tj s' old)"
proof -
  have "\<exists>c. encode_lines tj [] old = Ok c"
    using assms(2) by (auto simp: log_file_holds_def split: option.splits)
  then obtain c where c: "encode_lines tj [] (take (i - 1) old) = Ok c"
    using encode_lines_take by blast
  then have "atomic_write LOG_FILE c s = (r, s')"
    using assms(3) log_file_holds_load [OF codec assms(2)] by (simp add: fs_truncate_log_from_def)
  then show ?thesis by (rule log_file_holds_write [OF assms(2) c])
qed

section \<open>Properties\<close>

text \<open>
  C16. Term and vote are stored atomically and independently: whatever write faults occur, a
  \<^verbatim>\<open>save_term\<close> or \<^verbatim>\<open>save_voted_for\<close> that reports success is what the next load returns, one
  that reports an error leaves the loaded value as it was, and neither affects what is
  loaded of the other, of the log or of the snapshot.
\<close>

theorem term_and_vote_saves_atomic:
  assumes "\<not> read_fault s" "t \<le> U64_MAX" "case v of None \<Rightarrow> True | Some i \<Rightarrow> i \<le> U64_MAX"
    and "fs_save_term t s = (r, s')" "fs_save_voted_for v s = (q, s'')"
  shows "(r = Ok () \<and> fs_load_term s' = Ok t \<or> (\<exists>e. r = Err e \<and> fs_load_term s' = fs_load_term s))
    \<and> fs_load_voted_for s' = fs_load_voted_for s
    \<and> (q = Ok () \<and> fs_load_voted_for s'' = Ok v
       \<or> (\<exists>e. q = Err e \<and> fs_load_voted_for s'' = fs_load_voted_for s))
    \<and> fs_load_term s'' = fs_load_term s
    \<and> (\<forall>u \<in> {s', s''}. fs_load_log from_json u = fs_load_log from_json s
                          \<and> fs_load_snapshot u = fs_load_snapshot s)"
proof -
  let ?vs = "case v of Some i \<Rightarrow> nat_to_string i | None \<Rightarrow> []"
  have v: "\<And>i. v = Some i \<Longrightarrow> i \<le> U64_MAX" using assms(3) by simp
  note S = atomic_write_shape [of TERM_FILE "nat_to_string t" s r s']
    and V = atomic_write_shape [of VOTED_FOR_FILE ?vs s q s'']
  have s': "r = Ok () \<and> fs_load_term s' = Ok t \<or> (\<exists>e. r = Err e \<and> fs_load_term s' = fs_load_term s)"
    using S assms by (auto simp: fs_save_term_def intro!: fs_load_term_eq fs_load_term_cong)
  have s'': "q = Ok () \<and> fs_load_voted_for s'' = Ok v
       \<or> (\<exists>e. q = Err e \<and> fs_load_voted_for s'' = fs_load_voted_for s)"
    using V assms v by (auto simp: fs_save_voted_for_def intro!: fs_load_voted_for_eq fs_load_voted_for_cong)
  have "fs_load_voted_for s' = fs_load_voted_for s" "fs_load_log from_json s' = fs_load_log from_json s"
    "fs_load_snapshot s' = fs_load_snapshot s"
    using S assms by (auto simp: fs_save_term_def intro!: fs_load_congs)
  moreover have "fs_load_term s'' = fs_load_term s" "fs_load_log from_json s'' = fs_load_log from_json s"
    "fs_load_snapshot s'' = fs_load_snapshot s"
    using V assms by (auto simp: fs_save_voted_for_def intro!: fs_load_congs)
  ultimately show ?thesis using s' s'' by simp
qed

theorem term_and_vote_saves_atomic_witness:
  "let s = file_storage_new\<lparr>write_faults := [Some FailSync]\<rparr>;
       s' = snd (fs_save_voted_for (Some 3) s)
   in fst (fs_save_voted_for (Some 3) s) = Err (Io ''sync'')
      \<and> fs_load_voted_for s' = fs_load_voted_for s \<and> fs_load_term s' = fs_load_term s"
proof -
  define s where "s = file_storage_new\<lparr>write_faults := [Some FailSync]\<rparr>"
  obtain r s1 where t: "fs_save_term 4 s = (r, s1)" by fastforce
  have e: "fst (fs_save_voted_for (Some 3) s) = Err (Io ''sync'')" and "\<not> read_fault s"
    by (simp_all add: s_def file_storage_new_def fs_save_voted_for_def atomic_write_def Let_def)
  then have v: "fs_save_voted_for (Some 3) s = (Err (Io ''sync''), snd (fs_save_voted_for (Some 3) s))"
    by (simp add: prod_eq_iff)
  from term_and_vote_saves_atomic [OF \<open>\<not> read_fault s\<close> _ _ t v]
  show ?thesis using e by (auto simp: s_def Let_def)
qed

text \<open>
  C15. The log file implements an append-only list with truncation: if it holds \<open>old\<close>, then
  after \<^verbatim>\<open>append_entries\<close> it holds \<open>old @ es\<close>, after \<^verbatim>\<open>truncate_log_from i\<close> the first
  \<open>i - 1\<close> entries, and on any failure still \<open>old\<close>; and \<^verbatim>\<open>load_log\<close> returns exactly the list
  that is held.
\<close>

theorem log_file_refines_list:
  assumes "json_line_codec to_json from_json" "log_file_holds to_json s old"
    and "fs_append_entries to_json es s = (r, s')"
    and "fs_truncate_log_from to_json from_json i s = (q, s'')"
  shows "fs_load_log from_json s = Ok old
    \<and> (r = Ok () \<and> log_file_holds to_json s' (old @ es) \<and> fs_load_log from_json s' = Ok (old @ es)
       \<or> (\<exists>e. r = Err e \<and> log_file_holds to_json s' old \<and> fs_load_log from_json s' = Ok old))
    \<and> (q = Ok () \<and> log_file_holds to_json s'' (take (i - 1) old)
            \<and> fs_load_log from_json s'' = Ok (take (i - 1) old)
       \<or> (\<exists>e. q = Err e \<and> log_file_holds to_json s'' old \<and> fs_load_log from_json s'' = Ok old))"
  using log_file_holds_append [OF assms(1-3)] log_file_holds_truncate [OF assms(1,2,4)]
    log_file_holds_load [OF assms(1)] assms(2) by blast

theorem log_file_refines_list_witness:
  "let e = \<lparr>e_term = 1, e_index = 1, e_command = ()\<rparr>;
       tj = (\<lambda>x. if x = e then Ok ''1'' else Err ''no'');
       fj = (\<lambda>l. if l = ''1'' then Ok e else Err ''no'') in
   fs_load_log fj (snd (fs_append_entries tj [e, e] file_storage_new)) = Ok [e, e]
   \<and> log_file_holds tj (snd (fs_truncate_log_from tj fj 1 file_storage_new)) []"
proof -
  define e where "e = \<lparr>e_term = 1, e_index = 1, e_command = ()\<rparr>"
  define tj where "tj = (\<lambda>x. if x = e then Ok ''1'' else Err ''no'' :: string + string)"
  define fj where "fj = (\<lambda>l. if l = ''1'' then Ok e else Err ''no'' :: string + unit log_entry)"
  have "trim ''1'' = ''1''" by (rule trim_graphic) (simp_all add: ascii_graphic_def byte_in_def)
  then have codec: "json_line_codec tj fj"
    by (auto simp: json_line_codec_def tj_def fj_def byte_in_def split: if_splits)
  have holds: "log_file_holds tj file_storage_new []"
    by (simp add: log_file_holds_def file_storage_new_def)
  have app: "fs_append_entries tj [e, e] file_storage_new
      = (Ok (), snd (fs_append_entries tj [e, e] file_storage_new))"
    by (simp add: fs_append_entries_def file_storage_new_def read_file_def tj_def atomic_write_def Let_def)
  have "fs_truncate_log_from tj fj 1 file_storage_new
      = (Ok (), snd (fs_truncate_log_from tj fj 1 file_storage_new))"
    by (simp add: fs_truncate_log_from_def fs_load_log_def file_storage_new_def read_file_def
        atomic_write_def Let_def)
  from log_file_refines_list [OF codec holds app this]
  have "fs_load_log fj (snd (fs_append_entries tj [e, e] file_storage_new)) = Ok [e, e]
    \<and> log_file_holds tj (snd (fs_truncate_log_from tj fj 1 file_storage_new)) []" by simp
  then show ?thesis unfolding e_def tj_def fj_def Let_def .
qed

lemma load_torn_snapshot:
  assumes "\<not> read_fault s" "fs_load_snapshot s = Ok (Some (d0, j, u))"
    and "read_fault s' = read_fault s" "files s' SNAPSHOT_FILE = Some d"
    and "files s' SNAPSHOT_META_FILE = files s SNAPSHOT_META_FILE"
  shows "fs_load_snapshot s' = Ok (Some (d, j, u))"
proof -
  obtain m d1 where "files s SNAPSHOT_META_FILE = Some m" "files s SNAPSHOT_FILE = Some d1"
    using assms(1,2) by (cases "files s SNAPSHOT_META_FILE"; cases "files s SNAPSHOT_FILE")
      (simp_all add: fs_load_snapshot_def read_file_def)
  then show ?thesis
    using assms by (auto simp: fs_load_snapshot_def read_file_def split: list.splits)
qed

text \<open>
  A snapshot is written in two steps. After \<^verbatim>\<open>save_snapshot\<close> reports success the next
  load returns it; if the first write fails the old snapshot stays; if the second one
  fails the files are torn: the load then returns the \<^emph>\<open>new\<close> data under the \<^emph>\<open>old\<close> index and
  term.
\<close>

theorem snapshot_save_outcomes:
  assumes "\<not> read_fault s" "i \<le> U64_MAX" "t \<le> U64_MAX" "fs_load_snapshot s = Ok (Some (d0, j, u))"
    and "fs_save_snapshot d i t s = (r, s')"
  shows "(r = Ok () \<and> fs_load_snapshot s' = Ok (Some (d, i, t)))
    \<or> (\<exists>e. r = Err e \<and> fs_load_snapshot s' = Ok (Some (d0, j, u)))
    \<or> (\<exists>e. r = Err e \<and> fs_load_snapshot s' = Ok (Some (d, j, u)))"
proof (cases rule: atomic_write_cases [of SNAPSHOT_FILE d s])
  case (fail e s1 c)
  then have "fs_load_snapshot s1 = fs_load_snapshot s" by (intro fs_load_snapshot_cong) simp_all
  then show ?thesis using fail assms(4,5) by (auto simp: fs_save_snapshot_def)
next
  case (ok s1)
  have torn: "fs_load_snapshot s1 = Ok (Some (d, j, u))"
    by (rule load_torn_snapshot [OF assms(1,4)]) (simp_all add: ok)
  let ?meta = "nat_to_string i @ CHR 0x0A # nat_to_string t"
  show ?thesis
  proof (cases rule: atomic_write_cases [of SNAPSHOT_META_FILE ?meta s1])
    case (fail e s2 c)
    then have "fs_load_snapshot s2 = fs_load_snapshot s1" by (intro fs_load_snapshot_cong) simp_all
    then show ?thesis using fail ok assms(5) torn by (auto simp: fs_save_snapshot_def)
  next
    case ok2: (ok s2)
    then have "fs_load_snapshot s2 = Ok (Some (d, i, t))"
      using ok assms by (intro fs_load_snapshot_eq) simp_all
    then show ?thesis using ok2 ok assms(5) by (auto simp: fs_save_snapshot_def)
  qed
qed

theorem snapshot_save_outcomes_witness:
  "let s = snd (fs_save_snapshot ''old'' 3 1 file_storage_new);
       s' = snd (fs_save_snapshot ''new'' 9 2 (s\<lparr>write_faults := [None, Some FailRename]\<rparr>))
   in fs_load_snapshot s' = Ok (Some (''new'', 3, 1)) \<or> fs_load_snapshot s' = Ok (Some (''old'', 3, 1))"
proof -
  define s where "s = (snd (fs_save_snapshot ''old'' 3 1 file_storage_new))\<lparr>write_faults := [None, Some FailRename]\<rparr>"
  define p where "p = fs_save_snapshot ''new'' 9 2 s"
  have f: "\<not> read_fault s" "files s SNAPSHOT_FILE = Some ''old''"
    "files s SNAPSHOT_META_FILE = Some (nat_to_string 3 @ CHR 0x0A # nat_to_string 1)"
    by (simp_all add: s_def fs_save_snapshot_def atomic_write_def file_storage_new_def Let_def)
  have "fs_load_snapshot s = Ok (Some (''old'', 3, 1))" using f by (intro fs_load_snapshot_eq) simp_all
  note load = this
  have "fst p = Err (Io ''rename'')"
    by (simp add: p_def s_def fs_save_snapshot_def atomic_write_def file_storage_new_def Let_def)
  then have save: "fs_save_snapshot ''new'' 9 2 s = (Err (Io ''rename''), snd p)"
    unfolding p_def by (simp add: prod_eq_iff)
  have "fs_load_snapshot (snd p) = Ok (Some (''new'', 3, 1))
      \<or> fs_load_snapshot (snd p) = Ok (Some (''old'', 3, 1))"
    using snapshot_save_outcomes [OF f(1) _ _ load save] by auto
  then show ?thesis unfolding s_def p_def Let_def .
qed

text \<open>The torn outcome does happen: the second of the two writes fails.\<close>

lemma snapshot_save_torn:
  assumes "\<not> read_fault s" "fs_load_snapshot s = Ok (Some (d0, j, u))"
    and "write_faults s = [None, Some FailRename]"
  shows "fs_load_snapshot (snd (fs_save_snapshot d i t s)) = Ok (Some (d, j, u))"
  by (rule load_torn_snapshot [OF assms(1,2)])
    (simp_all add: fs_save_snapshot_def atomic_write_def assms(3) Let_def)

end
