(* ===== verification/Raft_Cluster.thy ===== *)
theory Raft_Cluster
  imports Raft_Node Raft_Storage
begin

text \<open>
  A cluster of Raft nodes and the safety of its elections.

  The cluster is a set of drivers (\<^verbatim>\<open>raft/driver.rs\<close>) that share a network. A step is one
  iteration of one driver's loop, or a restart of a node from its storage. The network
  never invents a message; it may lose, duplicate, delay and reorder them (a message once
  sent stays available, and nothing forces its delivery).
\<close>

section \<open>The cluster\<close>

record ('c, 's, 'm) cluster =
  nodes :: "node_id \<Rightarrow> ('c, 's) raft_node"
  machines :: "node_id \<Rightarrow> 'm"
  net :: "(node_id \<times> node_id \<times> 'c raft_message) set"

text \<open>
  A delivery discipline says which messages of the network a node may receive. The
  transport gives no guarantee (\<open>any_delivery\<close>). Under \<open>fresh_votes\<close> a granted vote does not
  arrive after its candidate has moved to a later term.
\<close>

fun any_delivery :: "('c, 's) raft_node \<Rightarrow> 'c raft_message \<Rightarrow> bool" where
  "any_delivery n msg = True"

fun fresh_votes :: "('c, 's) raft_node \<Rightarrow> 'c raft_message \<Rightarrow> bool" where
  "fresh_votes n (RequestVoteResponse r) = (vote_granted r \<longrightarrow> current_term n \<le> rvr_term r)"
| "fresh_votes n _ = True"

text \<open>
  Terms are 64-bit: a driver at the largest term is not started another election
  (\<^verbatim>\<open>Term::increment\<close> would overflow there).
\<close>

fun event_enabled ::
  "(('c, 's) raft_node \<Rightarrow> 'c raft_message \<Rightarrow> bool) \<Rightarrow> ('c, 's, 'm) cluster \<Rightarrow> node_id \<Rightarrow> 'c driver_event \<Rightarrow> bool" where
  "event_enabled delivery S i (Inbound j msg) \<longleftrightarrow> (j, i, msg) \<in> net S \<and> delivery (nodes S i) msg"
| "event_enabled delivery S i ElectionTimeout \<longleftrightarrow> current_term (nodes S i) < U64_MAX"
| "event_enabled delivery S i _ \<longleftrightarrow> True"

inductive cluster_step ::
  "('s, 'c) raft_env \<Rightarrow> ('m, 'c) state_machine_ops \<Rightarrow> 'm \<Rightarrow> node_id set \<Rightarrow>
     (('c, 's) raft_node \<Rightarrow> 'c raft_message \<Rightarrow> bool) \<Rightarrow> ('c, 's, 'm) cluster \<Rightarrow> ('c, 's, 'm) cluster \<Rightarrow> bool"
  for E M m0 ids delivery where
  event: "i \<in> ids \<Longrightarrow> event_enabled delivery S i ev \<Longrightarrow>
     driver_step E M (nodes S i) (machines S i) ev = (n', m', out, es, reset) \<Longrightarrow>
     cluster_step E M m0 ids delivery S
       (S\<lparr>nodes := (nodes S)(i := n'), machines := (machines S)(i := m'),
          net := net S \<union> Pair i ` set out\<rparr>)"
| restart: "i \<in> ids \<Longrightarrow> raft_node_new E (config (nodes S i)) (storage (nodes S i)) = Ok n' \<Longrightarrow>
     cluster_step E M m0 ids delivery S
       (S\<lparr>nodes := (nodes S)(i := n'), machines := (machines S)(i := m0)\<rparr>)"

text \<open>Every node starts from a working storage, with a configuration that names the others as its peers.\<close>

definition cluster_init ::
  "('s, 'c) raft_env \<Rightarrow> ('s \<Rightarrow> bool) \<Rightarrow> node_id set \<Rightarrow> ('c, 's, 'm) cluster \<Rightarrow> bool" where
  "cluster_init E fine ids S \<longleftrightarrow>
     net S = {} \<and>
     (\<forall>i \<in> ids. \<exists>cfg st. raft_node_new E cfg st = Ok (nodes S i) \<and> fine st
        \<and> cfg_node_id cfg = i \<and> set (cfg_peers cfg) = ids - {i})"

inductive reachable ::
  "('s, 'c) raft_env \<Rightarrow> ('m, 'c) state_machine_ops \<Rightarrow> 'm \<Rightarrow> ('s \<Rightarrow> bool) \<Rightarrow> node_id set \<Rightarrow>
     (('c, 's) raft_node \<Rightarrow> 'c raft_message \<Rightarrow> bool) \<Rightarrow> ('c, 's, 'm) cluster \<Rightarrow> bool"
  for E M m0 fine ids delivery where
  init: "cluster_init E fine ids S \<Longrightarrow> reachable E M m0 fine ids delivery S"
| step: "reachable E M m0 fine ids delivery S \<Longrightarrow> cluster_step E M m0 ids delivery S S' \<Longrightarrow>
     reachable E M m0 fine ids delivery S'"

section \<open>The invariant\<close>

text \<open>What holds of one node: identity, durable term and vote, self-vote, quorum.\<close>

definition node_inv :: "('s, 'c) raft_env \<Rightarrow> ('s \<Rightarrow> bool) \<Rightarrow> node_id set \<Rightarrow> node_id \<Rightarrow> ('c, 's) raft_node \<Rightarrow> bool" where
  "node_inv E fine ids i n \<longleftrightarrow>
     node_id n = i \<and> set (cfg_peers (config n)) = ids - {i} \<and> cluster_size (tracker n) = card ids
     \<and> fine (storage n) \<and> load_term E (storage n) = Ok (current_term n)
     \<and> load_voted_for E (storage n) = Ok (voted_for n)
     \<and> (role n \<noteq> Follower \<longrightarrow> voted_for n = Some i)
     \<and> (role n = Leader \<longrightarrow> has_quorum (tracker n))"

fun msg_term :: "'c raft_message \<Rightarrow> nat" where
  "msg_term (RequestVote r) = rv_term r"
| "msg_term (RequestVoteResponse r) = rvr_term r"
| "msg_term (AppendEntries r) = ae_term r"
| "msg_term (AppendEntriesResponse r) = aer_term r"
| "msg_term (InstallSnapshot r) = is_term r"
| "msg_term (InstallSnapshotResponse r) = isr_term r"

definition granted :: "(node_id \<times> node_id \<times> 'c raft_message) set \<Rightarrow> node_id \<Rightarrow> node_id \<Rightarrow> nat \<Rightarrow> bool" where
  "granted N v c t \<longleftrightarrow> (\<exists>r. (v, c, RequestVoteResponse r) \<in> N \<and> vote_granted r \<and> rvr_term r = t)"

definition votes_backed :: "(node_id \<times> node_id \<times> 'c raft_message) set \<Rightarrow> node_id \<Rightarrow> ('c, 's) raft_node \<Rightarrow> bool" where
  "votes_backed N i n \<longleftrightarrow>
     (role n \<noteq> Follower \<longrightarrow> votes (tracker n) \<subseteq> insert i {v. granted N v i (current_term n)})"

definition cluster_inv :: "('s, 'c) raft_env \<Rightarrow> ('s \<Rightarrow> bool) \<Rightarrow> node_id set \<Rightarrow> ('c, 's, 'm) cluster \<Rightarrow> bool" where
  "cluster_inv E fine ids S \<longleftrightarrow>
     (\<forall>i \<in> ids. node_inv E fine ids i (nodes S i) \<and> votes_backed (net S) i (nodes S i))
     \<and> (\<forall>j i msg. (j, i, msg) \<in> net S \<longrightarrow> j \<in> ids \<and> msg_term msg \<le> U64_MAX
           \<and> (\<forall>r. msg = RequestVote r \<longrightarrow> candidate_id r = j))
     \<and> (\<forall>v c t. granted (net S) v c t \<longrightarrow> t \<le> current_term (nodes S v)
           \<and> (t = current_term (nodes S v) \<longrightarrow> voted_for (nodes S v) = Some c))
     \<and> (\<forall>v c c' t. granted (net S) v c t \<longrightarrow> granted (net S) v c' t \<longrightarrow> c = c')"

text \<open>
  What a driver iteration may do, as far as elections are concerned: the term never goes
  back, a vote is never changed within a term, recorded votes are old ones or granted ones,
  and the messages sent carry the new term, the own identity and the own vote.
\<close>

definition msg_ok :: "node_id \<Rightarrow> ('c, 's) raft_node \<Rightarrow> node_id \<times> 'c raft_message \<Rightarrow> bool" where
  "msg_ok i n p \<longleftrightarrow>
     msg_term (snd p) = current_term n
     \<and> (\<forall>r. snd p = RequestVote r \<longrightarrow> candidate_id r = i)
     \<and> (\<forall>r. snd p = RequestVoteResponse r \<longrightarrow> vote_granted r \<longrightarrow> voted_for n = Some (fst p))"

definition out_ok :: "node_id \<Rightarrow> ('c, 's) raft_node \<Rightarrow> 'c outbound \<Rightarrow> bool" where
  "out_ok i n out \<longleftrightarrow> list_all (msg_ok i n) out"

definition progress ::
  "('s, 'c) raft_env \<Rightarrow> ('s \<Rightarrow> bool) \<Rightarrow> node_id set \<Rightarrow> (node_id \<times> node_id \<times> 'c raft_message) set \<Rightarrow>
     node_id \<Rightarrow> ('c, 's) raft_node \<Rightarrow> ('c, 's) raft_node \<Rightarrow> bool" where
  "progress E fine ids N i n n' \<longleftrightarrow>
     node_inv E fine ids i n' \<and> votes_backed N i n' \<and> current_term n \<le> current_term n'
     \<and> (current_term n = current_term n' \<longrightarrow> voted_for n \<noteq> None \<longrightarrow> voted_for n' = voted_for n)"

text \<open>Housekeeping: nothing an election depends on changes, except that the node may step down.\<close>

definition calm :: "('s, 'c) raft_env \<Rightarrow> ('s \<Rightarrow> bool) \<Rightarrow> ('c, 's) raft_node \<Rightarrow> ('c, 's) raft_node \<Rightarrow> bool" where
  "calm E fine n n' \<longleftrightarrow>
     config n' = config n \<and> current_term n' = current_term n \<and> voted_for n' = voted_for n
     \<and> cluster_size (tracker n') = cluster_size (tracker n)
     \<and> (fine (storage n) \<longrightarrow> fine (storage n') \<and> load_term E (storage n') = load_term E (storage n)
          \<and> load_voted_for E (storage n') = load_voted_for E (storage n))
     \<and> (role n' = Follower \<or> role n' = role n \<and> tracker n' = tracker n)"

lemma cluster_invI:
  assumes "\<And>i. i \<in> ids \<Longrightarrow> node_inv E fine ids i (nodes S i)"
    and "\<And>i. i \<in> ids \<Longrightarrow> votes_backed (net S) i (nodes S i)"
    and "\<And>j i msg. (j, i, msg) \<in> net S \<Longrightarrow> j \<in> ids"
    and "\<And>j i msg. (j, i, msg) \<in> net S \<Longrightarrow> msg_term msg \<le> U64_MAX"
    and "\<And>j i r. (j, i, RequestVote r) \<in> net S \<Longrightarrow> candidate_id r = j"
    and "\<And>v c t. granted (net S) v c t \<Longrightarrow> t \<le> current_term (nodes S v)
           \<and> (t = current_term (nodes S v) \<longrightarrow> voted_for (nodes S v) = Some c)"
    and "\<And>v c c' t. granted (net S) v c t \<Longrightarrow> granted (net S) v c' t \<Longrightarrow> c = c'"
  shows "cluster_inv E fine ids S"
  unfolding cluster_inv_def using assms by blast

lemma cluster_invD:
  assumes "cluster_inv E fine ids S"
  shows "i \<in> ids \<Longrightarrow> node_inv E fine ids i (nodes S i)"
    and "i \<in> ids \<Longrightarrow> votes_backed (net S) i (nodes S i)"
    and "(j, i, msg) \<in> net S \<Longrightarrow> j \<in> ids"
    and "(j, i, msg) \<in> net S \<Longrightarrow> msg_term msg \<le> U64_MAX"
    and "(j, i, RequestVote r) \<in> net S \<Longrightarrow> candidate_id r = j"
    and "granted (net S) v c t \<Longrightarrow> t \<le> current_term (nodes S v)"
    and "granted (net S) v c (current_term (nodes S v)) \<Longrightarrow> voted_for (nodes S v) = Some c"
    and "granted (net S) v c t \<Longrightarrow> granted (net S) v c' t \<Longrightarrow> c = c'"
  using assms unfolding cluster_inv_def by blast+

lemma calm_refl [simp, intro]: "calm E fine n n"
  by (simp add: calm_def)

lemma calm_trans [trans]: "calm E fine a b \<Longrightarrow> calm E fine b c \<Longrightarrow> calm E fine a c"
  unfolding calm_def by (elim conjE disjE) simp_all

lemma calm_node_inv: "calm E fine n n' \<Longrightarrow> node_inv E fine ids i n \<Longrightarrow> node_inv E fine ids i n'"
  unfolding calm_def node_inv_def node_id_def by (elim conjE disjE) simp_all

lemma calm_votes_backed: "calm E fine n n' \<Longrightarrow> votes_backed N i n \<Longrightarrow> votes_backed N i n'"
  unfolding calm_def votes_backed_def by (elim conjE disjE) simp_all

lemma progress_calm:
  assumes "progress E fine ids N i n n1" "calm E fine n1 n2"
  shows "progress E fine ids N i n n2"
proof -
  have "node_inv E fine ids i n2" "votes_backed N i n2"
    using assms calm_node_inv calm_votes_backed unfolding progress_def by blast+
  then show ?thesis using assms unfolding progress_def calm_def by simp
qed

lemma progress_refl:
  "node_inv E fine ids i n \<Longrightarrow> votes_backed N i n \<Longrightarrow> progress E fine ids N i n n"
  by (simp add: progress_def)

lemma out_ok_simps [simp]:
  "out_ok i n []" "out_ok i n (p # out) \<longleftrightarrow> msg_ok i n p \<and> out_ok i n out"
  "out_ok i n (a @ b) \<longleftrightarrow> out_ok i n a \<and> out_ok i n b"
  by (simp_all add: out_ok_def)

lemma out_ok_concat: "(\<And>out. out \<in> set outs \<Longrightarrow> out_ok i n out) \<Longrightarrow> out_ok i n (concat outs)"
  by (induction outs) auto

lemma out_ok_map: "(\<And>x. x \<in> set xs \<Longrightarrow> msg_ok i n (f x)) \<Longrightarrow> out_ok i n (map f xs)"
  by (auto simp: out_ok_def list_all_iff)

lemma out_ok_calm: "calm E fine n n' \<Longrightarrow> out_ok i n out \<Longrightarrow> out_ok i n' out"
  unfolding out_ok_def calm_def msg_ok_def [abs_def] by simp

lemma sends_ok:
  "out_ok i n (send_snapshot_to_peer n p)" "out_ok i n (replicate_to_peer n p)"
  "out_ok i n (send_append_entries_to_all n)"
proof -
  show snap: "out_ok i n (send_snapshot_to_peer n p)" for p
    by (auto simp: send_snapshot_to_peer_def snapshot_message_def msg_ok_def intro!: out_ok_map
        split: option.split)
  show repl: "out_ok i n (replicate_to_peer n p)" for p
    using snap by (auto simp: replicate_to_peer_def msg_ok_def Let_def split: option.split)
  show "out_ok i n (send_append_entries_to_all n)"
    using repl by (auto simp: send_append_entries_to_all_def intro!: out_ok_concat)
qed

section \<open>Housekeeping is calm\<close>

lemma calm_advance: "calm E fine n (advance_commit_index E n)"
  using advance_commit_frame(9) [of E n] by (auto simp: calm_def advance_commit_frame(1-8))

lemma calm_apply: "apply_committed_entries M n m = (n', m', es) \<Longrightarrow> calm E fine n n'"
  by (auto simp: apply_committed_entries_def apply_committed_with_entries_def calm_def
      split: if_splits prod.splits)

lemma calm_proposal: "handle_proposal E n cmd = (n', out) \<Longrightarrow> calm E fine n n' \<and> out_ok i n' out"
proof (cases "role n = Leader")
  case True
  assume eq: "handle_proposal E n cmd = (n', out)"
  define n1 where "n1 = n\<lparr>rlog := log_append (rlog n)
      \<lparr>e_term = current_term n, e_index = last_index (rlog n) + 1, e_command = cmd\<rparr>\<rparr>"
  have "calm E fine n n1" by (simp add: n1_def calm_def)
  moreover have "n' = advance_commit_index E n1" "out = send_append_entries_to_all n1"
    using eq True by (simp_all add: handle_proposal_def client_request_def n1_def Let_def)
  ultimately show ?thesis
    using calm_trans [OF _ calm_advance] out_ok_calm [OF calm_advance] sends_ok(3) by metis
qed (simp add: handle_proposal_def)

lemma calm_membership_proposal:
  assumes "handle_membership_proposal E n change noop = (r, n', out)"
  shows "calm E fine n n' \<and> out_ok i n' out"
proof -
  obtain r1 n1 out1 where p: "propose_membership_change E n change noop = (r1, n1, out1)"
    by (metis prod_cases3)
  have "calm E fine n n1 \<and> out_ok i n1 out1"
    using p sends_ok(3)
    by (auto simp: propose_membership_change_def calm_def recompute_election_timeout_def Let_def
        split: if_splits option.splits sum.splits)
  moreover have "out = out1" "n' = n1 \<or> n' = advance_commit_index E n1"
    using assms p by (auto simp: handle_membership_proposal_def split: sum.splits)
  ultimately show ?thesis
    using calm_trans [OF _ calm_advance] out_ok_calm [OF calm_advance] by metis
qed

lemma progress_trans [trans]:
  assumes "progress E fine ids N i a b" "progress E fine ids N i b c"
  shows "progress E fine ids N i a c"
proof -
  have le: "current_term a \<le> current_term b" "current_term b \<le> current_term c"
    using assms by (simp_all add: progress_def)
  have b: "current_term a = current_term b \<longrightarrow> voted_for a \<noteq> None \<longrightarrow> voted_for b = voted_for a"
    and c: "current_term b = current_term c \<longrightarrow> voted_for b \<noteq> None \<longrightarrow> voted_for c = voted_for b"
    using assms unfolding progress_def by blast+
  have "voted_for c = voted_for a" if "current_term a = current_term c" "voted_for a \<noteq> None"
  proof -
    have "current_term a = current_term b" "current_term b = current_term c" using le that(1) by linarith+
    then show ?thesis using b c that(2) by metis
  qed
  moreover have "node_inv E fine ids i c" "votes_backed N i c" using assms(2) by (simp_all add: progress_def)
  ultimately show ?thesis using le_trans [OF le] unfolding progress_def by blast
qed

lemma become_leader_progress:
  assumes "node_inv E fine ids i n" "votes_backed N i n" "role n = Candidate" "has_quorum (tracker n)"
    and "become_leader n = (n', out)"
  shows "progress E fine ids N i n n' \<and> out_ok i n' out"
proof -
  obtain l where n': "n' = n\<lparr>role := Leader, current_leader := Some (node_id n), leader_st := l\<rparr>"
    and out: "out = send_append_entries_to_all n'"
    using assms(5) unfolding become_leader_def Let_def by blast
  have "node_inv E fine ids i n'" "votes_backed N i n'"
    using assms(1-4) by (simp_all add: n' node_inv_def votes_backed_def node_id_def)
  then show ?thesis using out sends_ok(3) by (simp add: progress_def n')
qed

lemma raft_node_new_fields:
  assumes "raft_node_new E cfg st = Ok n"
  shows "config n = cfg" "role n = Follower" "load_term E st = Ok (current_term n)"
    "load_voted_for E st = Ok (voted_for n)"
    "tracker n = tracker_new (member_count (membership_new (cfg_node_id cfg) (cfg_peers cfg)))"
    "storage n = st"
  using assms by (auto simp: raft_node_new_def Let_def)

section \<open>Handlers make progress\<close>

context durable_storage
begin

lemma calm_save_snapshot:
  assumes "save_snapshot E d k t (storage n) = (r, st)"
  shows "calm E fine n (n\<lparr>storage := st\<rparr>)"
  using save_snapshot_ok [of "storage n" d k t] assms by (auto simp: calm_def)

lemma calm_create_snapshot: "calm E fine n (snd (create_snapshot E M n m))"
proof (cases "last_applied n = 0
    \<or> (case last_snapshot n of None \<Rightarrow> False | Some snap \<Rightarrow> last_included_index snap \<ge> last_applied n)")
  case True
  then show ?thesis by (auto simp: create_snapshot_def Let_def)
next
  case False
  define t where "t = (case term_at (rlog n) (last_applied n) of None \<Rightarrow> snapshot_term (rlog n) | Some t \<Rightarrow> t)"
  obtain r st where sv: "save_snapshot E (sm_snapshot M m) (last_applied n) t (storage n) = (r, st)"
    by fastforce
  have "calm E fine (n\<lparr>storage := st\<rparr>) (snd (create_snapshot E M n m))"
    using False sv by (cases r) (simp_all add: create_snapshot_def Let_def t_def [symmetric] calm_def)
  with calm_save_snapshot [OF sv] show ?thesis by (rule calm_trans)
qed

lemma calm_maybe_snapshot: "calm E fine n (maybe_snapshot E M n m)"
  by (simp add: maybe_snapshot_def calm_create_snapshot)

lemma term_update:
  assumes inv: "node_inv E fine ids i n" "votes_backed N i n" and t: "t \<le> U64_MAX"
  obtains b n1 where "handle_term_update E n t = (Ok b, n1)" "progress E fine ids N i n n1"
    "node_inv E fine ids i n1" "votes_backed N i n1"
    "current_term n1 = max (current_term n) t" "t \<le> current_term n \<Longrightarrow> n1 = n"
    "current_term n < t \<Longrightarrow> role n1 = Follower \<and> voted_for n1 = None"
proof (cases "current_term n < t")
  case False
  then show ?thesis
    using that [of False n] progress_refl [OF inv] inv by (simp add: handle_term_update_def)
next
  case True
  have "fine (storage n)" using inv(1) by (simp add: node_inv_def)
  then obtain s1 s2 where s: "save_term E t (storage n) = (Ok (), s1)"
    "save_voted_for E None s1 = (Ok (), s2)" "fine s2" "load_term E s2 = Ok t"
    "load_voted_for E s2 = Ok None"
    using save_term_vote [OF _ t, of "storage n" None] by blast
  define n1 where "n1 = n\<lparr>current_term := t, voted_for := None, role := Follower, leader_st := None,
      tracker := tracker_reset (tracker n), membership := rollback_change (membership n), storage := s2\<rparr>"
  have "handle_term_update E n t = (Ok True, n1)"
    using True s(1,2) by (simp add: handle_term_update_def n1_def)
  moreover have "node_inv E fine ids i n1" "votes_backed N i n1"
    using inv(1) s(3-5) by (simp_all add: n1_def node_inv_def node_id_def votes_backed_def)
  ultimately show ?thesis
    using that [of True n1] True by (simp add: progress_def n1_def)
qed

lemma request_vote_progress:
  assumes inv: "node_inv E fine ids i n" "votes_backed N i n" and t: "rv_term req \<le> U64_MAX"
    and c: "candidate_id req \<le> U64_MAX"
  obtains resp n' where "handle_request_vote E n req = (Ok resp, n')"
    "progress E fine ids N i n n'" "msg_ok i n' (candidate_id req, RequestVoteResponse resp)"
proof -
  obtain b n1 where tu: "handle_term_update E n (rv_term req) = (Ok b, n1)" "progress E fine ids N i n n1"
    and inv1: "node_inv E fine ids i n1" "votes_backed N i n1"
    using term_update [OF inv t] by metis
  show ?thesis
  proof (cases "rv_term req < current_term n1 \<or> \<not> can_vote_for n1 (candidate_id req)
      \<or> \<not> is_log_up_to_date (last_log_term req) (last_log_index req) (last_term (rlog n1)) (last_index (rlog n1))")
    case True
    then have "handle_request_vote E n req = (Ok \<lparr>rvr_term = current_term n1, vote_granted = False\<rparr>, n1)"
      by (auto simp: handle_request_vote_def tu(1))
    then show ?thesis by (rule that) (simp_all add: tu(2) msg_ok_def)
  next
    case False
    have "fine (storage n1)" using inv1(1) by (simp add: node_inv_def)
    then obtain st where st: "save_voted_for E (Some (candidate_id req)) (storage n1) = (Ok (), st)"
      "fine st" "load_voted_for E st = Ok (Some (candidate_id req))"
      "load_term E st = load_term E (storage n1)"
      using save_voted_for_ok [of "storage n1" "Some (candidate_id req)"] c by auto
    define n2 where "n2 = n1\<lparr>voted_for := Some (candidate_id req), storage := st\<rparr>"
    have "handle_request_vote E n req = (Ok \<lparr>rvr_term = current_term n2, vote_granted = True\<rparr>, n2)"
      using False st(1) by (simp add: handle_request_vote_def tu(1) n2_def)
    moreover have "progress E fine ids N i n1 n2"
      using inv1 st(2-4) False
      by (auto simp: progress_def n2_def node_inv_def node_id_def votes_backed_def can_vote_for_def
          split: option.splits)
    then have "progress E fine ids N i n n2" using tu(2) progress_trans by blast
    ultimately show ?thesis by (rule that) (simp add: msg_ok_def n2_def)
  qed
qed

lemma vote_response_progress:
  assumes inv: "node_inv E fine ids i n" "votes_backed N i n" and t: "rvr_term resp \<le> U64_MAX"
    and msg: "(from, i, RequestVoteResponse resp) \<in> N" "vote_granted resp \<Longrightarrow> current_term n \<le> rvr_term resp"
    and eq: "handle_request_vote_response E n from resp = (r, n', out)"
  shows "progress E fine ids N i n n' \<and> out_ok i n' out"
proof -
  obtain b n1 where tu: "handle_term_update E n (rvr_term resp) = (Ok b, n1)" "progress E fine ids N i n n1"
    and inv1: "node_inv E fine ids i n1" "votes_backed N i n1"
    and same: "rvr_term resp \<le> current_term n \<Longrightarrow> n1 = n" "current_term n < rvr_term resp \<Longrightarrow> role n1 = Follower"
    using term_update [OF inv t] by metis
  show ?thesis
  proof (cases "role n1 = Candidate \<and> vote_granted resp")
    case False
    then have "n' = n1" "out = []" using eq by (auto simp: handle_request_vote_response_def tu(1) split: if_splits)
    then show ?thesis using tu(2) by simp
  next
    case True
    then have "rvr_term resp \<le> current_term n" using same(2) by (metis not_le raft_role.distinct(1))
    then have n1: "n1 = n" and teq: "rvr_term resp = current_term n" using same(1) msg(2) True by auto
    define n2 where "n2 = n\<lparr>tracker := record_vote (tracker n) from\<rparr>"
    have "granted N from i (current_term n)" using msg(1) True teq by (auto simp: granted_def)
    then have n2: "node_inv E fine ids i n2" "votes_backed N i n2" "role n2 = Candidate"
      using inv True n1 by (auto simp: n2_def node_inv_def node_id_def votes_backed_def)
    then have pr: "progress E fine ids N i n n2" by (simp add: progress_def n2_def)
    have "out = [] \<and> n' = n2 \<or> has_quorum (tracker n2) \<and> become_leader n2 = (n', out)"
      using eq True by (auto simp: handle_request_vote_response_def tu(1) n1 n2_def Let_def
          split: if_splits prod.splits)
    then show ?thesis
      using pr become_leader_progress [OF n2] progress_trans [OF pr] by auto
  qed
qed

lemma append_entries_progress:
  assumes inv: "node_inv E fine ids i n" "votes_backed N i n" and t: "ae_term req \<le> U64_MAX"
  obtains resp n' where "handle_append_entries E n req = (Ok resp, n')"
    "progress E fine ids N i n n'" "aer_term resp = current_term n'"
proof -
  obtain b n1 where tu: "handle_term_update E n (ae_term req) = (Ok b, n1)" "progress E fine ids N i n n1"
    using term_update [OF inv t] by metis
  obtain r n' where eq: "handle_append_entries E n req = (r, n')" by fastforce
  then have calm: "calm E fine n1 n'" and "\<exists>resp. r = Ok resp \<and> aer_term resp = current_term n'"
    by (auto simp: handle_append_entries_def tu(1) Let_def calm_def split: if_splits prod.splits)
  then show ?thesis using that progress_calm [OF tu(2) calm] eq by blast
qed

lemma append_response_progress:
  assumes inv: "node_inv E fine ids i n" "votes_backed N i n" and t: "aer_term resp \<le> U64_MAX"
    and eq: "handle_append_entries_response E n from resp = (r, n')"
  shows "progress E fine ids N i n n'"
proof -
  obtain b n1 where tu: "handle_term_update E n (aer_term resp) = (Ok b, n1)" "progress E fine ids N i n n1"
    using term_update [OF inv t] by metis
  have "n' = n1 \<or> (\<exists>l. n' = advance_commit_index E (n1\<lparr>leader_st := l\<rparr>))"
    using eq by (auto simp: handle_append_entries_response_def tu(1) Let_def split: if_splits)
  moreover have "calm E fine n1 (n1\<lparr>leader_st := l\<rparr>)" for l by (simp add: calm_def)
  ultimately have "calm E fine n1 n'" using calm_trans calm_advance calm_refl by metis
  then show ?thesis by (rule progress_calm [OF tu(2)])
qed

lemma snapshot_response_progress:
  assumes inv: "node_inv E fine ids i n" "votes_backed N i n" and t: "isr_term resp \<le> U64_MAX"
    and eq: "handle_install_snapshot_response E n from resp = (r, n')"
  shows "progress E fine ids N i n n'"
proof -
  obtain b n1 where tu: "handle_term_update E n (isr_term resp) = (Ok b, n1)" "progress E fine ids N i n n1"
    using term_update [OF inv t] by metis
  have "n' = n1 \<or> n' = advance_commit_index E n1 \<or> (\<exists>l. n' = advance_commit_index E (n1\<lparr>leader_st := l\<rparr>))"
    using eq by (auto simp: handle_install_snapshot_response_def tu(1) Let_def split: if_splits option.splits)
  moreover have "calm E fine n1 (n1\<lparr>leader_st := l\<rparr>)" for l by (simp add: calm_def)
  ultimately have "calm E fine n1 n'" using calm_trans calm_advance calm_refl by metis
  then show ?thesis by (rule progress_calm [OF tu(2)])
qed

lemma finish_install_calm:
  assumes "finish_install E M n req d m = (r, n', m')"
  shows "calm E fine n n'" "r = Ok resp \<Longrightarrow> isr_term resp = current_term n'"
proof -
  let ?sv = "save_snapshot E d (is_last_included_index req) (is_last_included_term req) (storage n)"
  obtain q st where sv: "?sv = (q, st)" by fastforce
  have "calm E fine n n' \<or> calm E fine (n\<lparr>storage := st\<rparr>) n'"
    using assms sv unfolding finish_install_def Let_def
    by (cases "sm_restore M d m"; cases "fst (sm_restore M d m)"; cases q) (auto simp: calm_def)
  then show "calm E fine n n'" using calm_trans [OF calm_save_snapshot [OF sv]] by blast
  show "r = Ok resp \<Longrightarrow> isr_term resp = current_term n'"
    using assms sv unfolding finish_install_def Let_def
    by (cases "sm_restore M d m"; cases "fst (sm_restore M d m)"; cases q) auto
qed

lemma install_snapshot_progress:
  assumes inv: "node_inv E fine ids i n" "votes_backed N i n" and t: "is_term req \<le> U64_MAX"
    and eq: "handle_install_snapshot E M n req m = (r, n', m')"
  shows "progress E fine ids N i n n' \<and> (\<forall>resp. r = Ok resp \<longrightarrow> isr_term resp = current_term n')"
proof -
  obtain b n1 where tu: "handle_term_update E n (is_term req) = (Ok b, n1)" "progress E fine ids N i n n1"
    using term_update [OF inv t] by metis
  define n2 where "n2 = n1\<lparr>role := Follower, current_leader := Some (is_leader_id req),
      leader_st := None, tracker := tracker_reset (tracker n1)\<rparr>"
  have c2: "calm E fine n1 (n2\<lparr>pending_snapshot := p\<rparr>)" "calm E fine n1 n2" for p
    by (simp_all add: n2_def calm_def)
  have "calm E fine n1 n' \<and> (\<forall>resp. r = Ok resp \<longrightarrow> isr_term resp = current_term n')"
  proof (cases "is_term req < current_term n1")
    case True
    then show ?thesis using eq by (auto simp: handle_install_snapshot_def tu(1))
  next
    case False
    have eq2: "(case receive_chunk (pending_snapshot n2) req of
        None \<Rightarrow> (Ok \<lparr>isr_term = current_term n2\<rparr>, n2, m)
      | Some buf \<Rightarrow> if \<not> is_done req
          then (Ok \<lparr>isr_term = current_term n2\<rparr>, n2\<lparr>pending_snapshot := Some buf\<rparr>, m)
          else finish_install E M (n2\<lparr>pending_snapshot := None\<rparr>) req buf m) = (r, n', m')"
      using eq False unfolding handle_install_snapshot_def tu(1) Let_def n2_def by simp
    show ?thesis
    proof (cases "receive_chunk (pending_snapshot n2) req")
      case None
      then show ?thesis using eq2 c2 by auto
    next
      case (Some buf)
      then show ?thesis
        using eq2 c2 calm_trans [OF c2(1) finish_install_calm(1)] finish_install_calm(2)
        by (auto split: if_splits)
    qed
  qed
  then show ?thesis using progress_calm [OF tu(2)] by blast
qed

lemma start_election_progress:
  assumes inv: "node_inv E fine ids i n" and t: "current_term n < U64_MAX" and i: "i \<le> U64_MAX"
    and eq: "start_election E n = (r, n', out)"
  shows "progress E fine ids N i n n' \<and> out_ok i n' out"
proof -
  have "fine (storage n)" and id: "node_id n = i" using inv by (simp_all add: node_inv_def)
  then obtain s1 s2 where s: "save_term E (current_term n + 1) (storage n) = (Ok (), s1)"
    "save_voted_for E (Some i) s1 = (Ok (), s2)" "fine s2" "load_term E s2 = Ok (current_term n + 1)"
    "load_voted_for E s2 = Ok (Some i)"
    using save_term_vote [of "storage n" "current_term n + 1" "Some i"] t i by auto
  define n2 where "n2 = n\<lparr>current_term := current_term n + 1, role := Candidate,
      voted_for := Some i, current_leader := None, leader_st := None,
      tracker := record_vote (tracker_reset (tracker n)) i, storage := s2\<rparr>"
  have n2: "node_inv E fine ids i n2" "votes_backed N i n2" "role n2 = Candidate"
    using inv s(3-5) by (simp_all add: n2_def node_inv_def node_id_def votes_backed_def)
  then have pr: "progress E fine ids N i n n2" by (simp add: progress_def n2_def)
  have "has_quorum (tracker n2) \<and> become_leader n2 = (n', out)
      \<or> n' = n2 \<and> out = map (\<lambda>p. (p, RequestVote \<lparr>rv_term = current_term n2, candidate_id = i,
            last_log_index = last_index (rlog n2), last_log_term = last_term (rlog n2)\<rparr>))
          (cfg_peers (config n2))"
    using eq s(1,2) id
    by (auto simp: start_election_def Let_def n2_def node_id_def split: if_splits prod.splits)
  then show ?thesis
    using pr become_leader_progress [OF n2] progress_trans [OF pr]
    by (auto simp: msg_ok_def intro!: out_ok_map)
qed

lemma inbound_progress:
  assumes inv: "node_inv E fine ids i n" "votes_backed N i n" and ids: "ids \<subseteq> {..U64_MAX}" "j \<in> ids"
    and msg: "(j, i, msg) \<in> N" "fresh_votes n msg" "msg_term msg \<le> U64_MAX"
      "\<And>r. msg = RequestVote r \<Longrightarrow> candidate_id r = j"
    and eq: "handle_inbound_message E M n m j msg = (n', m', out, reset)"
  shows "progress E fine ids N i n n' \<and> out_ok i n' out"
proof (cases msg)
  case (RequestVote r)
  moreover have "candidate_id r = j" "j \<le> U64_MAX" using msg(4) RequestVote ids by auto
  moreover have "rv_term r \<le> U64_MAX" using msg(3) RequestVote by simp
  ultimately obtain resp n1 where "handle_request_vote E n r = (Ok resp, n1)"
    "progress E fine ids N i n n1" "msg_ok i n1 (j, RequestVoteResponse resp)"
    using request_vote_progress [OF inv, of r] by metis
  then show ?thesis using eq RequestVote by auto
next
  case (RequestVoteResponse r)
  then show ?thesis
    using vote_response_progress [OF inv, of r j] msg eq by (auto split: prod.splits)
next
  case (AppendEntries r)
  then obtain resp n1 where "handle_append_entries E n r = (Ok resp, n1)"
    "progress E fine ids N i n n1" "aer_term resp = current_term n1"
    using append_entries_progress [OF inv, of r] msg(3) by auto
  then show ?thesis using eq AppendEntries by (auto simp: msg_ok_def)
next
  case (AppendEntriesResponse r)
  then show ?thesis using append_response_progress [OF inv, of r] msg(3) eq by (auto split: prod.splits)
next
  case (InstallSnapshot r)
  then show ?thesis
    using install_snapshot_progress [OF inv, of r M m] msg(3) eq
    by (auto simp: msg_ok_def split: prod.splits sum.splits)
next
  case (InstallSnapshotResponse r)
  then show ?thesis using snapshot_response_progress [OF inv, of r] msg(3) eq by (auto split: prod.splits)
qed

lemma event_progress:
  assumes S: "cluster_inv E fine ids S" and ids: "ids \<subseteq> {..U64_MAX}" "i \<in> ids"
    and en: "event_enabled fresh_votes S i ev"
    and eq: "handle_event E M (nodes S i) m ev = (n', m', out, reset)"
  shows "progress E fine ids (net S) i (nodes S i) n' \<and> out_ok i n' out"
proof -
  have inv: "node_inv E fine ids i (nodes S i)" "votes_backed (net S) i (nodes S i)"
    using cluster_invD(1,2) [OF S ids(2)] by simp_all
  show ?thesis
  proof (cases ev)
    case ElectionTimeout
    have "i \<le> U64_MAX" using ids by auto
    then show ?thesis
      using start_election_progress [OF inv(1), where N = "net S"] en eq ElectionTimeout progress_refl [OF inv]
      by (auto split: if_splits prod.splits)
  next
    case HeartbeatTick
    then show ?thesis using eq progress_refl [OF inv] sends_ok(3) by (auto split: if_splits)
  next
    case (Inbound j msg)
    then have m: "(j, i, msg) \<in> net S" "fresh_votes (nodes S i) msg" using en by auto
    then have "j \<in> ids" "msg_term msg \<le> U64_MAX" "\<And>r. msg = RequestVote r \<Longrightarrow> candidate_id r = j"
      using cluster_invD(3-5) [OF S] by blast+
    then show ?thesis using inbound_progress [OF inv ids(1) _ m] eq Inbound by simp
  next
    case (ClientProposal cmd)
    then show ?thesis
      using calm_proposal [of E "nodes S i" cmd] progress_calm [OF progress_refl [OF inv]] eq
      by (auto split: prod.splits)
  next
    case (MembershipProposal change noop)
    then show ?thesis
      using calm_membership_proposal [of E "nodes S i" change noop] progress_calm [OF progress_refl [OF inv]] eq
      by (auto split: prod.splits)
  qed
qed

lemma driver_step_progress:
  assumes S: "cluster_inv E fine ids S" and ids: "ids \<subseteq> {..U64_MAX}" "i \<in> ids"
    and en: "event_enabled fresh_votes S i ev"
    and eq: "driver_step E M (nodes S i) m ev = (n', m', out, es, reset)"
  shows "progress E fine ids (net S) i (nodes S i) n' \<and> out_ok i n' out"
proof -
  obtain n1 m1 n2 where 1: "handle_event E M (nodes S i) m ev = (n1, m1, out, reset)"
    and 2: "apply_committed_entries M n1 m1 = (n2, m', es)" and 3: "n' = maybe_snapshot E M n2 m'"
    using eq by (auto simp: driver_step_def split: prod.splits)
  have "calm E fine n1 n'" using calm_trans [OF calm_apply [OF 2] calm_maybe_snapshot] 3 by simp
  then show ?thesis
    using event_progress [OF S ids en 1] progress_calm out_ok_calm by blast
qed

text \<open>One node's progress keeps the invariant of the cluster.\<close>

lemma granted_net_union:
  "granted (N \<union> Pair i ` set out) v c t \<longleftrightarrow>
     granted N v c t \<or> v = i \<and> (\<exists>r. (c, RequestVoteResponse r) \<in> set out \<and> vote_granted r \<and> rvr_term r = t)"
  by (auto simp: granted_def)

lemma cluster_inv_progress:
  assumes S: "cluster_inv E fine ids S" and i: "i \<in> ids"
    and pr: "progress E fine ids (net S) i (nodes S i) n'" and out: "out_ok i n' out"
  shows "cluster_inv E fine ids (S\<lparr>nodes := (nodes S)(i := n'), machines := ms,
      net := net S \<union> Pair i ` set out\<rparr>)" (is "cluster_inv _ _ _ ?S'")
proof -
  have new: "\<And>p. p \<in> set out \<Longrightarrow> msg_ok i n' p" using out by (auto simp: out_ok_def list_all_iff)
  have newt: "(c, RequestVoteResponse r) \<in> set out \<Longrightarrow> rvr_term r = current_term n'" for c r
    using new [of "(c, RequestVoteResponse r)"] by (simp add: msg_ok_def)
  have mono: "granted (net S) v c t \<Longrightarrow> granted (net ?S') v c t" for v c t by (simp add: granted_net_union)
  have vote: "granted (net ?S') v c t \<Longrightarrow> t \<le> current_term (nodes ?S' v)
      \<and> (t = current_term (nodes ?S' v) \<longrightarrow> voted_for (nodes ?S' v) = Some c)" for v c t
  proof -
    have old: "granted (net S) v c t \<Longrightarrow> t \<le> current_term (nodes S v)
        \<and> (t = current_term (nodes S v) \<longrightarrow> voted_for (nodes S v) = Some c)"
      using cluster_invD(6,7) [OF S] by blast
    assume "granted (net ?S') v c t"
    then consider "granted (net S) v c t" "v \<noteq> i" | "granted (net S) v c t" "v = i"
      | r where "v = i" "(c, RequestVoteResponse r) \<in> set out" "vote_granted r" "rvr_term r = t"
      by (auto simp: granted_net_union)
    then show ?thesis
    proof cases
      case 2
      have "t \<le> current_term n'" using old 2 pr by (auto simp: progress_def)
      moreover have "voted_for n' = Some c" if "t = current_term n'"
      proof -
        have "current_term (nodes S i) = current_term n'" "voted_for (nodes S i) = Some c"
          using old 2 pr that by (auto simp: progress_def)
        then show ?thesis using pr by (simp add: progress_def)
      qed
      ultimately show ?thesis using 2 by simp
    next
      case 3
      then show ?thesis using new [OF 3(2)] by (simp add: msg_ok_def)
    qed (use old in simp)
  qed
  have uniq: "c = c'" if g: "granted (net ?S') v c t" "granted (net ?S') v c' t" for v c c' t
  proof (cases "granted (net S) v c t \<and> granted (net S) v c' t")
    case True
    then show ?thesis using cluster_invD(8) [OF S] by blast
  next
    case False
    then have "v = i" "t = current_term n'"
      using g newt by (auto simp: granted_net_union)
    then show ?thesis using vote [OF g(1)] vote [OF g(2)] by simp
  qed
  show ?thesis
  proof (rule cluster_invI)
    fix k assume k: "k \<in> ids"
    show "node_inv E fine ids k (nodes ?S' k)"
      using cluster_invD(1) [OF S k] pr by (simp add: progress_def)
    have "votes_backed (net S) k (nodes ?S' k)"
      using cluster_invD(2) [OF S k] pr by (simp add: progress_def)
    then show "votes_backed (net ?S') k (nodes ?S' k)"
      using mono unfolding votes_backed_def by blast
  next
    have "current_term n' \<le> U64_MAX"
      using pr load_term_bound unfolding progress_def node_inv_def by blast
    then have new': "(j, k, msg) \<in> net ?S' \<Longrightarrow> (j, k, msg) \<in> net S
        \<or> j = i \<and> msg_term msg \<le> U64_MAX \<and> (\<forall>r. msg = RequestVote r \<longrightarrow> candidate_id r = i)" for j k msg
      using new [of "(k, msg)"] by (auto simp: msg_ok_def)
    show "(j, k, msg) \<in> net ?S' \<Longrightarrow> j \<in> ids" for j k msg
      using new' cluster_invD(3) [OF S] i by blast
    show "(j, k, msg) \<in> net ?S' \<Longrightarrow> msg_term msg \<le> U64_MAX" for j k msg
      using new' cluster_invD(4) [OF S] by blast
    show "(j, k, RequestVote r) \<in> net ?S' \<Longrightarrow> candidate_id r = j" for j k r
      using new' cluster_invD(5) [OF S] by blast
  qed (use vote uniq in blast)+
qed

lemma node_inv_new:
  assumes "raft_node_new E cfg st = Ok n" "fine st" "cfg_node_id cfg = i" "set (cfg_peers cfg) = ids - {i}"
    and "i \<in> ids"
  shows "node_inv E fine ids i n" "role n = Follower" "load_term E st = Ok (current_term n)"
    "load_voted_for E st = Ok (voted_for n)"
proof -
  note f = raft_node_new_fields [OF assms(1)]
  show "role n = Follower" "load_term E st = Ok (current_term n)" "load_voted_for E st = Ok (voted_for n)"
    using f by simp_all
  have "insert i (ids - {i}) = ids" using assms(5) by blast
  then have "cluster_size (tracker n) = card ids"
    using f(5) assms(3,4) by (simp add: tracker_new_def member_count_def membership_new_def)
  then show "node_inv E fine ids i n"
    unfolding node_inv_def node_id_def f(1,2,6) assms(3,4)
    using assms(2) f(3,4) by simp
qed

lemma cluster_inv_init:
  assumes "cluster_init E fine ids S" shows "cluster_inv E fine ids S"
proof -
  have new: "node_inv E fine ids i (nodes S i)" "role (nodes S i) = Follower" if i: "i \<in> ids" for i
  proof -
    obtain cfg st where *: "raft_node_new E cfg st = Ok (nodes S i)" "fine st" "cfg_node_id cfg = i"
      "set (cfg_peers cfg) = ids - {i}"
      using assms i unfolding cluster_init_def by blast
    show "node_inv E fine ids i (nodes S i)" "role (nodes S i) = Follower"
      using node_inv_new(1,2) [OF * i] by simp_all
  qed
  have "net S = {}" using assms by (simp add: cluster_init_def)
  then show ?thesis
    by (intro cluster_invI) (simp_all add: new votes_backed_def granted_def)
qed

lemma cluster_inv_step:
  assumes "cluster_step E M m0 ids fresh_votes S S'" "ids \<subseteq> {..U64_MAX}" "cluster_inv E fine ids S"
  shows "cluster_inv E fine ids S'"
  using assms(1)
proof cases
  case (event i ev n' m' out es reset)
  have "progress E fine ids (net S) i (nodes S i) n'" "out_ok i n' out"
    using driver_step_progress [OF assms(3,2) event(2,3,4)] by simp_all
  from cluster_inv_progress [OF assms(3) event(2) this] show ?thesis by (simp add: event(1))
next
  case (restart i n')
  have inv: "fine (storage (nodes S i))" "cfg_node_id (config (nodes S i)) = i"
    "set (cfg_peers (config (nodes S i))) = ids - {i}"
    "load_term E (storage (nodes S i)) = Ok (current_term (nodes S i))"
    "load_voted_for E (storage (nodes S i)) = Ok (voted_for (nodes S i))"
    using cluster_invD(1) [OF assms(3) restart(2)] by (simp_all add: node_inv_def node_id_def)
  note new0 = node_inv_new [OF restart(3) inv(1-3) restart(2)]
  have new: "current_term n' = current_term (nodes S i)" "voted_for n' = voted_for (nodes S i)"
    using inv(4,5) new0(3,4) by simp_all
  then have "progress E fine ids (net S) i (nodes S i) n'"
    using new0(1,2) unfolding progress_def votes_backed_def by simp
  from cluster_inv_progress [OF assms(3) restart(2) this out_ok_simps(1)]
  show ?thesis using restart(1) by simp
qed

lemma cluster_inv_reachable:
  "reachable E M m0 fine ids fresh_votes S \<Longrightarrow> ids \<subseteq> {..U64_MAX} \<Longrightarrow> cluster_inv E fine ids S"
  by (induction rule: reachable.induct) (auto intro: cluster_inv_init cluster_inv_step)

lemma leader_unique:
  assumes S: "cluster_inv E fine ids S" and fin: "finite ids" and ab: "a \<in> ids" "b \<in> ids"
    and lead: "role (nodes S a) = Leader" "role (nodes S b) = Leader"
    and t: "current_term (nodes S a) = current_term (nodes S b)"
  shows "a = b"
proof -
  let ?V = "\<lambda>i. votes (tracker (nodes S i))" and ?t = "current_term (nodes S a)"
  have inv: "node_inv E fine ids i (nodes S i)" "?V i \<subseteq> insert i {v. granted (net S) v i ?t}"
    "voted_for (nodes S i) = Some i" "card ids div 2 + 1 \<le> card (?V i)" if "i = a \<or> i = b" for i
  proof -
    have i: "i \<in> ids" "role (nodes S i) = Leader" "current_term (nodes S i) = ?t" using that ab lead t by auto
    show "node_inv E fine ids i (nodes S i)" by (rule cluster_invD(1) [OF S i(1)])
    then have "cluster_size (tracker (nodes S i)) = card ids" "voted_for (nodes S i) = Some i"
      "has_quorum (tracker (nodes S i))"
      using i(2) by (simp_all add: node_inv_def)
    then show "voted_for (nodes S i) = Some i" "card ids div 2 + 1 \<le> card (?V i)"
      by (simp_all add: has_quorum_def tracker_quorum_size_def)
    show "?V i \<subseteq> insert i {v. granted (net S) v i ?t}"
      using cluster_invD(2) [OF S i(1)] i(2,3) by (simp add: votes_backed_def)
  qed
  have "\<And>v i. granted (net S) v i ?t \<Longrightarrow> v \<in> ids"
    using cluster_invD(3) [OF S] unfolding granted_def by blast
  then have "?V a \<subseteq> ids" "?V b \<subseteq> ids" using inv(2) ab by blast+
  moreover have "card ids < card (?V a) + card (?V b)" using inv(4) [of a] inv(4) [of b] by simp
  ultimately obtain v where v: "v \<in> ?V a" "v \<in> ?V b"
    using majorities_intersect [OF fin] by blast
  have vote: "granted (net S) v c ?t \<Longrightarrow> v = i \<Longrightarrow> i = a \<or> i = b \<Longrightarrow> c = i" for c i
    using cluster_invD(7) [OF S, of i c] inv(3) [of i] t by auto
  have "granted (net S) v a ?t \<Longrightarrow> granted (net S) v b ?t \<Longrightarrow> a = b"
    by (rule cluster_invD(8) [OF S])
  then show ?thesis using v inv(2) [of a] inv(2) [of b] vote by blast
qed

end

section \<open>A run with a delayed vote\<close>

text \<open>Three fresh nodes with empty logs; \<open>plain\<close> describes such a node during an election.\<close>

definition sample_env :: "(file_storage, unit) raft_env" where
  "sample_env = file_env (\<lambda>_. Err ''none'') (\<lambda>_. Err ''none'') (\<lambda>r k n. 0)"

definition sample_config :: "node_id \<Rightarrow> raft_config" where
  "sample_config i = raft_config_default\<lparr>cfg_node_id := i, cfg_peers := filter (\<lambda>j. j \<noteq> i) [1, 2, 3]\<rparr>"

definition vote_request :: "nat \<Rightarrow> node_id \<Rightarrow> unit raft_message" where
  "vote_request t c = RequestVote \<lparr>rv_term = t, candidate_id = c, last_log_index = 0, last_log_term = 0\<rparr>"

definition vote_grant :: "nat \<Rightarrow> unit raft_message" where
  "vote_grant t = RequestVoteResponse \<lparr>rvr_term = t, vote_granted = True\<rparr>"

definition plain ::
  "node_id \<Rightarrow> raft_role \<Rightarrow> nat \<Rightarrow> node_id option \<Rightarrow> node_id set \<Rightarrow> (unit, file_storage) raft_node \<Rightarrow> bool" where
  "plain i r t v vs n \<longleftrightarrow>
     config n = sample_config i \<and> role n = r \<and> current_term n = t \<and> voted_for n = v \<and> rlog n = log_new
     \<and> commit_index n = 0 \<and> last_applied n = 0 \<and> tracker n = \<lparr>votes = vs, cluster_size = 3\<rparr>
     \<and> fs_fine (storage n)"

abbreviation sample_step :: "(unit, file_storage) raft_node \<Rightarrow> unit driver_event \<Rightarrow> _" where
  "sample_step n ev \<equiv> driver_step sample_env null_state_machine n () ev"

lemma driver_step_plain:
  assumes "handle_event E M n m ev = (n', m', out, reset)" "plain i r t v vs n'"
  shows "driver_step E M n m ev = (n', m', out, [], reset)"
  using assms by (simp add: driver_step_def apply_committed_entries_def maybe_snapshot_def
      should_snapshot_def plain_def log_new_def sample_config_def raft_config_default_def)

lemma plain_timeout:
  assumes p: "plain i r t v vs n" and "r \<noteq> Leader" "t < U64_MAX" "i \<le> U64_MAX"
  obtains n' where "sample_step n ElectionTimeout
      = (n', (), map (\<lambda>p. (p, vote_request (t + 1) i)) (cfg_peers (sample_config i)), [], True)"
    "plain i Candidate (t + 1) (Some i) {i} n'"
proof -
  have f: "fs_fine (storage n)" and id: "node_id n = i"
    using p by (simp_all add: plain_def node_id_def sample_config_def)
  obtain s1 s2 where s: "save_term sample_env (t + 1) (storage n) = (Ok (), s1)"
    "save_voted_for sample_env (Some i) s1 = (Ok (), s2)" "fs_fine s2"
    using fs.save_term_vote [OF f, of "t + 1" "Some i"] assms(3,4) unfolding sample_env_def by (metis Suc_eq_plus1 Suc_leI option.inject)
  define n' where "n' = n\<lparr>current_term := t + 1, role := Candidate, voted_for := Some i,
      current_leader := None, leader_st := None, tracker := record_vote (tracker_reset (tracker n)) i, storage := s2\<rparr>"
  have p': "plain i Candidate (t + 1) (Some i) {i} n'"
    using p s(3) by (simp add: plain_def n'_def record_vote_def tracker_reset_def)
  have "handle_event sample_env null_state_machine n () ElectionTimeout
      = (n', (), map (\<lambda>p. (p, vote_request (t + 1) i)) (cfg_peers (sample_config i)), True)"
    using p assms(2) s(1,2) id
    by (simp add: plain_def start_election_def Let_def n'_def has_quorum_def tracker_quorum_size_def
        vote_request_def log_new_def last_index_def last_term_def node_id_def record_vote_def tracker_reset_def)
  from driver_step_plain [OF this p'] p' that show ?thesis by blast
qed

lemma plain_grant:
  assumes p: "plain i r t v vs n" and "t < t'" "t' \<le> U64_MAX" "c \<le> U64_MAX"
  obtains n' where "sample_step n (Inbound c (vote_request t' c)) = (n', (), [(c, vote_grant t')], [], True)"
    "plain i Follower t' (Some c) {} n'"
proof -
  have f: "fs_fine (storage n)" using p by (simp add: plain_def)
  obtain s1 s2 where s: "save_term sample_env t' (storage n) = (Ok (), s1)"
    "save_voted_for sample_env None s1 = (Ok (), s2)" "fs_fine s2"
    using fs.save_term_vote [OF f, of t' None] assms(3) unfolding sample_env_def by (metis option.distinct(1))
  obtain s3 where s3: "save_voted_for sample_env (Some c) s2 = (Ok (), s3)" "fs_fine s3"
    using fs.save_voted_for_ok [OF s(3), of "Some c"] assms(4) unfolding sample_env_def
    by (metis option.inject)
  define n' where "n' = n\<lparr>current_term := t', voted_for := Some c, role := Follower, leader_st := None,
      tracker := tracker_reset (tracker n), membership := rollback_change (membership n), storage := s3\<rparr>"
  have p': "plain i Follower t' (Some c) {} n'"
    using p s3(2) by (simp add: plain_def n'_def tracker_reset_def)
  have "handle_event sample_env null_state_machine n () (Inbound c (vote_request t' c))
      = (n', (), [(c, vote_grant t')], True)"
    using p assms(2) s(1,2) s3(1)
    by (simp add: plain_def vote_request_def vote_grant_def handle_request_vote_def handle_term_update_def
        Let_def can_vote_for_def is_log_up_to_date_def log_new_def last_index_def last_term_def n'_def)
  from driver_step_plain [OF this p'] p' that show ?thesis by blast
qed

lemma plain_win:
  assumes p: "plain i Candidate t (Some i) {i} n" and "t' \<le> t" "j \<noteq> i"
  obtains n' out where "sample_step n (Inbound j (vote_grant t')) = (n', (), out, [], False)"
    "plain i Leader t (Some i) {i, j} n'"
proof -
  define n1 where "n1 = n\<lparr>tracker := record_vote (tracker n) j\<rparr>"
  obtain n' out where bl: "become_leader n1 = (n', out)" by fastforce
  have p': "plain i Leader t (Some i) {i, j} n'"
    using p bl by (auto simp: plain_def n1_def become_leader_def Let_def record_vote_def)
  have "has_quorum (tracker n1)"
    using p assms(3) by (simp add: plain_def n1_def has_quorum_def tracker_quorum_size_def)
  then have "handle_event sample_env null_state_machine n () (Inbound j (vote_grant t')) = (n', (), out, False)"
    using p assms(2) bl by (simp add: plain_def vote_grant_def handle_request_vote_response_def
        handle_term_update_def n1_def Let_def)
  from driver_step_plain [OF this p'] p' that show ?thesis by blast
qed

text \<open>Following one event from a reachable cluster.\<close>

abbreviation sample_reachable where
  "sample_reachable d S \<equiv> reachable sample_env null_state_machine () fs_fine {1, 2, 3} d S"

lemma follow_event:
  assumes "sample_reachable d S" "i \<in> {1, 2, 3}" "event_enabled d S i ev"
    and "sample_step (nodes S i) ev = (n', (), out, es, reset)"
  obtains S' where "sample_reachable d S'" "nodes S' = (nodes S)(i := n')" "net S' = net S \<union> Pair i ` set out"
  using reachable.step [OF assms(1) cluster_step.event [OF assms(2,3)], of n' "()" out es reset] assms(4) that
  by auto

lemma sample_start:
  obtains S where "sample_reachable d S" "\<And>i. i \<in> {1, 2, 3} \<Longrightarrow> plain i Follower 0 None {} (nodes S i)"
proof -
  define S :: "(unit, file_storage, unit) cluster" where
    "S = \<lparr>nodes = (\<lambda>i. projr (raft_node_new sample_env (sample_config i) file_storage_new)),
          machines = (\<lambda>_. ()), net = {}\<rparr>"
  have load: "load_term sample_env file_storage_new = Ok 0" "load_voted_for sample_env file_storage_new = Ok None"
    "load_log sample_env file_storage_new = Ok []" "load_snapshot sample_env file_storage_new = Ok None"
    by (simp_all add: sample_env_def file_env_def file_storage_new_def fs_load_term_def fs_load_voted_for_def
        fs_load_log_def fs_load_snapshot_def read_file_def)
  have new: "raft_node_new sample_env (sample_config i) file_storage_new = Ok (nodes S i)" for i
    by (simp add: S_def raft_node_new_def load Let_def)
  have fine: "fs_fine file_storage_new" by (simp add: fs_fine_def file_storage_new_def)
  have plain: "plain i Follower 0 None {} (nodes S i)" if i: "i \<in> {1, 2, 3}" for i
  proof -
    have "cfg_node_id (sample_config i) = i" "insert i (set (cfg_peers (sample_config i))) = {1, 2, 3}"
      using i by (auto simp: sample_config_def)
    then show ?thesis
      using fine by (simp add: S_def raft_node_new_def load Let_def plain_def restore_log_def from_entries_def
          log_new_def tracker_new_def member_count_def membership_new_def)
  qed
  have "cluster_init sample_env fs_fine {1, 2, 3} S"
    unfolding cluster_init_def
  proof (intro conjI ballI)
    fix i :: nat assume "i \<in> {1, 2, 3}"
    then have "set (cfg_peers (sample_config i)) = {1, 2, 3} - {i}" "cfg_node_id (sample_config i) = i"
      by (auto simp: sample_config_def)
    with new fine show "\<exists>cfg st. raft_node_new sample_env cfg st = Ok (nodes S i) \<and> fs_fine st
        \<and> cfg_node_id cfg = i \<and> set (cfg_peers cfg) = {1, 2, 3} - {i}" by blast
  qed (simp add: S_def)
  then show ?thesis by (intro that [OF reachable.init plain])
qed

lemma delayed_vote:
  obtains S where "sample_reachable any_delivery S" "plain 1 Candidate 2 (Some 1) {1} (nodes S 1)"
    "plain 2 Follower 1 (Some 1) {} (nodes S 2)" "plain 3 Follower 0 None {} (nodes S 3)"
    "(2, 1, vote_grant 1) \<in> net S"
proof -
  let ?R = "sample_reachable any_delivery"
  obtain S0 where S0: "?R S0" "plain 1 Follower 0 None {} (nodes S0 1)" "plain 2 Follower 0 None {} (nodes S0 2)"
    "plain 3 Follower 0 None {} (nodes S0 3)"
    by (rule sample_start) auto
  have cur: "plain i r t v vs n \<Longrightarrow> current_term n = t" for i r t v vs n by (simp add: plain_def)
  note peers = sample_config_def raft_config_default_def
  obtain n1 where n1: "sample_step (nodes S0 1) ElectionTimeout
      = (n1, (), [(2, vote_request 1 1), (3, vote_request 1 1)], [], True)" "plain 1 Candidate 1 (Some 1) {1} n1"
    by (rule plain_timeout [OF S0(2)]) (auto simp: peers simp del: One_nat_def)
  obtain S1 where S1: "?R S1" "nodes S1 = (nodes S0)(1 := n1)" "(1, 2, vote_request 1 1) \<in> net S1"
    by (rule follow_event [OF S0(1) _ _ n1(1)]) (auto simp: cur [OF S0(2)] simp del: One_nat_def)
  obtain n2 where n2: "sample_step (nodes S1 2) (Inbound 1 (vote_request 1 1)) = (n2, (), [(1, vote_grant 1)], [], True)"
    "plain 2 Follower 1 (Some 1) {} n2"
    by (rule plain_grant [OF S0(3), of 1 1]) (auto simp: S1(2) simp del: One_nat_def)
  obtain S2 where S2: "?R S2" "nodes S2 = (nodes S0)(1 := n1, 2 := n2)" "(2, 1, vote_grant 1) \<in> net S2"
    by (rule follow_event [OF S1(1) _ _ n2(1)]) (auto simp: S1 simp del: One_nat_def)
  obtain n1' out1 where n1': "sample_step (nodes S2 1) ElectionTimeout = (n1', (), out1, [], True)"
    "plain 1 Candidate 2 (Some 1) {1} n1'"
    by (rule plain_timeout [OF n1(2)]) (auto simp: S2(2) simp del: One_nat_def)
  obtain S3 where S3: "?R S3" "nodes S3 = (nodes S0)(2 := n2, 1 := n1')" "(2, 1, vote_grant 1) \<in> net S3"
    by (rule follow_event [OF S2(1) _ _ n1'(1)]) (auto simp: S2 cur [OF n1(2)] simp del: One_nat_def)
  show ?thesis by (rule that [OF S3(1) _ _ _ S3(3)]) (use S0 n2 n1' in \<open>simp_all add: S3(2) del: One_nat_def\<close>)
qed

section \<open>Properties\<close>

text \<open>
  C1. Election safety of the cluster: nodes that store their state in files, start from
  any contents of these files, restart at any time and exchange messages over a network
  that loses, duplicates and reorders them never have two leaders in one term, provided
  that no granted vote arrives after its candidate has moved on to a later term
  (\<open>fresh_votes\<close>). The proof goes through the contract \<open>durable_storage\<close>.
\<close>

theorem election_safety:
  assumes "reachable (file_env to_json from_json scale) M m0 fs_fine ids fresh_votes S"
    and "finite ids" "ids \<subseteq> {..U64_MAX}" "a \<in> ids" "b \<in> ids"
    and "role (nodes S a) = Leader" "role (nodes S b) = Leader"
    and "current_term (nodes S a) = current_term (nodes S b)"
  shows "a = b"
  using fs.leader_unique [OF fs.cluster_inv_reachable [OF assms(1,3)] assms(2,4-8)] .

theorem election_safety_witness:
  "\<exists>S. reachable sample_env null_state_machine () fs_fine {1, 2, 3} fresh_votes S
     \<and> role (nodes S 3) = Leader \<and> current_term (nodes S 3) = 1
     \<and> (\<forall>a \<in> {1, 2, 3}. role (nodes S a) = Leader \<and> current_term (nodes S a) = 1 \<longrightarrow> a = 3)"
proof -
  let ?R = "sample_reachable fresh_votes"
  obtain S0 where S0: "?R S0" "plain 2 Follower 0 None {} (nodes S0 2)" "plain 3 Follower 0 None {} (nodes S0 3)"
    by (rule sample_start) auto
  obtain n3 where n3: "sample_step (nodes S0 3) ElectionTimeout
      = (n3, (), [(1, vote_request 1 3), (2, vote_request 1 3)], [], True)" "plain 3 Candidate 1 (Some 3) {3} n3"
    by (rule plain_timeout [OF S0(3)]) (auto simp: sample_config_def raft_config_default_def)
  have c0: "current_term (nodes S0 3) = 0" using S0(3) by (simp add: plain_def)
  obtain S1 where S1: "?R S1" "nodes S1 = (nodes S0)(3 := n3)" "(3, 2, vote_request 1 3) \<in> net S1"
    by (rule follow_event [OF S0(1) _ _ n3(1)]) (auto simp: c0)
  obtain n2 where n2: "sample_step (nodes S1 2) (Inbound 3 (vote_request 1 3)) = (n2, (), [(3, vote_grant 1)], [], True)"
    by (rule plain_grant [OF S0(2), of 1 3]) (auto simp: S1(2))
  obtain S2 where S2: "?R S2" "nodes S2 = (nodes S0)(3 := n3, 2 := n2)" "(2, 3, vote_grant 1) \<in> net S2"
    by (rule follow_event [OF S1(1) _ _ n2]) (use S1 in \<open>auto simp: vote_request_def\<close>)
  obtain l3 o3 where l3: "sample_step (nodes S2 3) (Inbound 2 (vote_grant 1)) = (l3, (), o3, [], False)"
    "plain 3 Leader 1 (Some 3) {3, 2} l3"
    by (rule plain_win [OF n3(2), of 1 2]) (auto simp: S2(2))
  obtain S where S: "?R S" "nodes S = (nodes S0)(2 := n2, 3 := l3)"
    by (rule follow_event [OF S2(1) _ _ l3(1)])
      (use S2 n3(2) in \<open>auto simp: vote_grant_def plain_def\<close>)
  then have lead: "role (nodes S 3) = Leader" "current_term (nodes S 3) = 1"
    using l3(2) by (simp_all add: plain_def)
  have "a = 3" if "a \<in> {1, 2, 3}" "role (nodes S a) = Leader" "current_term (nodes S a) = 1" for a
    by (rule election_safety [OF S(1) [unfolded sample_env_def], of a 3]) (use that lead in auto)
  then show ?thesis using S(1) lead by blast
qed

text \<open>
  C23. Delayed votes break election safety: \<^verbatim>\<open>handle_request_vote_response\<close> counts a granted
  vote without comparing its term with the current one. In a cluster of three nodes with
  empty logs and working storage the network can delay node 2's vote of term 1 until node 1
  stands in term 2, which makes node 1 leader of term 2 next to node 3, whom node 2 elected.
\<close>

theorem stale_vote_two_leaders:
  "\<exists>S. reachable sample_env null_state_machine () fs_fine {1, 2, 3} any_delivery S
     \<and> role (nodes S 1) = Leader \<and> role (nodes S 3) = Leader
     \<and> current_term (nodes S 1) = 2 \<and> current_term (nodes S 3) = 2"
proof -
  let ?R = "sample_reachable any_delivery"
  obtain S where S: "?R S" "plain 1 Candidate 2 (Some 1) {1} (nodes S 1)"
    "plain 2 Follower 1 (Some 1) {} (nodes S 2)" "plain 3 Follower 0 None {} (nodes S 3)"
    "(2, 1, vote_grant 1) \<in> net S"
    by (rule delayed_vote)
  have cur: "plain i r t v vs n \<Longrightarrow> current_term n = t" for i r t v vs n by (simp add: plain_def)
  note peers = sample_config_def raft_config_default_def
  obtain n3 out3 where n3: "sample_step (nodes S 3) ElectionTimeout = (n3, (), out3, [], True)"
    "plain 3 Candidate 1 (Some 3) {3} n3"
    by (rule plain_timeout [OF S(4)]) (auto simp del: One_nat_def)
  obtain S4 where S4: "?R S4" "nodes S4 = (nodes S)(3 := n3)" "(2, 1, vote_grant 1) \<in> net S4"
    by (rule follow_event [OF S(1) _ _ n3(1)]) (auto simp: S cur [OF S(4)] simp del: One_nat_def)
  obtain n3' where n3': "sample_step (nodes S4 3) ElectionTimeout
      = (n3', (), [(1, vote_request 2 3), (2, vote_request 2 3)], [], True)" "plain 3 Candidate 2 (Some 3) {3} n3'"
    by (rule plain_timeout [OF n3(2)]) (auto simp: peers S4(2) simp del: One_nat_def)
  obtain S5 where S5: "?R S5" "nodes S5 = (nodes S)(3 := n3')" "(2, 1, vote_grant 1) \<in> net S5"
    "(3, 2, vote_request 2 3) \<in> net S5"
    by (rule follow_event [OF S4(1) _ _ n3'(1)]) (auto simp: S4 cur [OF n3(2)] simp del: One_nat_def)
  obtain n2' where n2': "sample_step (nodes S5 2) (Inbound 3 (vote_request 2 3)) = (n2', (), [(3, vote_grant 2)], [], True)"
    "plain 2 Follower 2 (Some 3) {} n2'"
    by (rule plain_grant [OF S(3), of 2 3]) (auto simp: S5(2) simp del: One_nat_def)
  obtain S6 where S6: "?R S6" "nodes S6 = (nodes S)(3 := n3', 2 := n2')" "(2, 1, vote_grant 1) \<in> net S6"
    "(2, 3, vote_grant 2) \<in> net S6"
    by (rule follow_event [OF S5(1) _ _ n2'(1)]) (auto simp: S5 simp del: One_nat_def)
  obtain l3 o3 where l3: "sample_step (nodes S6 3) (Inbound 2 (vote_grant 2)) = (l3, (), o3, [], False)"
    "plain 3 Leader 2 (Some 3) {3, 2} l3"
    by (rule plain_win [OF n3'(2), of 2 2]) (auto simp: S6(2) simp del: One_nat_def)
  obtain S7 where S7: "?R S7" "nodes S7 = (nodes S)(2 := n2', 3 := l3)" "(2, 1, vote_grant 1) \<in> net S7"
    by (rule follow_event [OF S6(1) _ _ l3(1)]) (auto simp: S6 simp del: One_nat_def)
  obtain l1 o1 where l1: "sample_step (nodes S7 1) (Inbound 2 (vote_grant 1)) = (l1, (), o1, [], False)"
    "plain 1 Leader 2 (Some 1) {1, 2} l1"
    by (rule plain_win [OF S(2), of 1 2]) (auto simp: S7(2) simp del: One_nat_def)
  obtain S8 where "?R S8" "nodes S8 = (nodes S)(2 := n2', 3 := l3, 1 := l1)"
    by (rule follow_event [OF S7(1) _ _ l1(1)]) (auto simp: S7 simp del: One_nat_def)
  then show ?thesis using l1(2) l3(2) by (intro exI [of _ S8]) (auto simp: plain_def simp del: One_nat_def)
qed

end
