(* ===== verification/Cluster_State.thy ===== *)
theory Cluster_State
  imports Raft_State
begin

text \<open>
  The replicated IRC state: \<^verbatim>\<open>ClusterCommand\<close> (\<^verbatim>\<open>raft/cluster_command.rs\<close>) and the
  \<^verbatim>\<open>ClusterStateMachine\<close> that applies committed commands (\<^verbatim>\<open>raft/state_machine.rs\<close>).

  A \<^verbatim>\<open>HashMap\<close> is an association list, a \<^verbatim>\<open>HashSet\<close> a set. The JSON encoding of a
  snapshot (\<^verbatim>\<open>serde_json::to_vec\<close>, \<^verbatim>\<open>serde_json::from_slice\<close>) is a pair of parameters.
\<close>

section \<open>Data\<close>

record replicated_user =
  ru_nickname :: string
  ru_username :: string
  ru_realname :: string
  ru_hostname :: string
  ru_modes :: "string set"
  ru_away_message :: "string option"
  ru_signon_time :: nat
  ru_home_node :: "node_id option"
  ru_is_oper :: bool

record replicated_ban_entry =
  rb_mask :: string
  rb_who_set :: string
  rb_timestamp :: nat

record replicated_channel =
  rc_name :: string
  rc_topic :: "(string \<times> string \<times> nat) option"
  rc_modes :: "string set"
  rc_members :: "(string \<times> string) list"
  rc_ban_list :: "replicated_ban_entry list"
  rc_invite_list :: "string set"
  rc_key :: "string option"
  rc_user_limit :: "nat option"
  rc_created_at :: nat

record replicated_server =
  rs_node_id :: node_id
  rs_addr :: socket_addr

record cluster_state =
  cs_users :: "(string \<times> replicated_user) list"
  cs_channels :: "(string \<times> replicated_channel) list"
  cs_servers :: "(nat \<times> replicated_server) list"

record topic_info =
  ti_text :: string
  ti_who :: string
  ti_timestamp :: nat

datatype cluster_command =
    UserRegistered (ur_connection_id: nat) (ur_nickname: string) (ur_username: string)
      (ur_realname: string) (ur_hostname: string) (ur_signon_time: nat) (ur_home_node: "node_id option")
  | NickChanged (nc_old: string) (nc_new: string)
  | UserQuit (uq_nickname: string) (uq_reason: "string option")
  | UserAway string "string option"
  | UserModeChanged string "string list" "string list"
  | is_ChannelJoined: ChannelJoined (cj_nickname: string) (cj_channel: string) (cj_status: string)
  | ChannelParted string string "string option"
  | TopicSet string "topic_info option"
  | ChannelModeChanged string "string list" "string list" "string option" "nat option"
      "(string \<times> string) list"
  | BanAdded string string string nat
  | BanRemoved string string
  | InviteAdded string string
  | UserKicked string string string "string option"
  | UserKilled string string
  | OperGranted string
  | ServerAdded node_id socket_addr
  | ServerRemoved node_id
  | UserMigrated string node_id node_id
  | Noop string

section \<open>Operations\<close>

definition cluster_state_new :: cluster_state where
  "cluster_state_new = \<lparr>cs_users = [], cs_channels = [], cs_servers = []\<rparr>"

definition get_user :: "cluster_state \<Rightarrow> string \<Rightarrow> replicated_user option" where
  "get_user s nickname = hm_get (cs_users s) (to_ascii_lowercase nickname)"

definition get_channel :: "cluster_state \<Rightarrow> string \<Rightarrow> replicated_channel option" where
  "get_channel s name = hm_get (cs_channels s) (to_ascii_lowercase name)"

text \<open>\<^verbatim>\<open>if let Some(x) = map.get_mut(key) { ... }\<close>\<close>

definition update_user :: "string \<Rightarrow> (replicated_user \<Rightarrow> replicated_user) \<Rightarrow> cluster_state \<Rightarrow> cluster_state" where
  "update_user key f s =
     (case hm_get (cs_users s) key of None \<Rightarrow> s
      | Some u \<Rightarrow> s\<lparr>cs_users := hm_insert key (f u) (cs_users s)\<rparr>)"

definition update_channel ::
  "string \<Rightarrow> (replicated_channel \<Rightarrow> replicated_channel) \<Rightarrow> cluster_state \<Rightarrow> cluster_state" where
  "update_channel key f s =
     (case hm_get (cs_channels s) key of None \<Rightarrow> s
      | Some c \<Rightarrow> s\<lparr>cs_channels := hm_insert key (f c) (cs_channels s)\<rparr>)"

definition new_channel :: "string \<Rightarrow> replicated_channel" where
  "new_channel channel = \<lparr>rc_name = channel, rc_topic = None, rc_modes = {}, rc_members = [],
     rc_ban_list = [], rc_invite_list = {}, rc_key = None, rc_user_limit = None, rc_created_at = 0\<rparr>"

definition ensure_channel :: "string \<Rightarrow> cluster_state \<Rightarrow> cluster_state" where
  "ensure_channel channel s =
     (let key = to_ascii_lowercase channel in
      case hm_get (cs_channels s) key of Some _ \<Rightarrow> s
      | None \<Rightarrow> s\<lparr>cs_channels := hm_insert key (new_channel channel) (cs_channels s)\<rparr>)"

text \<open>\<^verbatim>\<open>let ch = self.ensure_channel(channel); ...\<close>\<close>

definition with_channel ::
  "string \<Rightarrow> (replicated_channel \<Rightarrow> replicated_channel) \<Rightarrow> cluster_state \<Rightarrow> cluster_state" where
  "with_channel channel f s = update_channel (to_ascii_lowercase channel) f (ensure_channel channel s)"

definition remove_user_from_all_channels :: "string \<Rightarrow> cluster_state \<Rightarrow> cluster_state" where
  "remove_user_from_all_channels nick_key s =
     s\<lparr>cs_channels := hm_retain (\<lambda>_ ch. rc_members ch \<noteq> [])
        (hm_map_values (\<lambda>ch. ch\<lparr>rc_members := hm_remove nick_key (rc_members ch)\<rparr>) (cs_channels s))\<rparr>"

definition remove_member_from_channel :: "string \<Rightarrow> string \<Rightarrow> cluster_state \<Rightarrow> cluster_state" where
  "remove_member_from_channel channel nickname s =
     (let chan_key = to_ascii_lowercase channel; nick_key = to_ascii_lowercase nickname in
      case hm_get (cs_channels s) chan_key of None \<Rightarrow> s
      | Some ch \<Rightarrow>
          (let ch' = ch\<lparr>rc_members := hm_remove nick_key (rc_members ch)\<rparr> in
           if rc_members ch' = [] then s\<lparr>cs_channels := hm_remove chan_key (cs_channels s)\<rparr>
           else s\<lparr>cs_channels := hm_insert chan_key ch' (cs_channels s)\<rparr>))"

definition apply_user_registered ::
  "string \<Rightarrow> string \<Rightarrow> string \<Rightarrow> string \<Rightarrow> nat \<Rightarrow> node_id option \<Rightarrow> cluster_state \<Rightarrow> cluster_state" where
  "apply_user_registered nickname username realname hostname signon_time home_node s =
     s\<lparr>cs_users := hm_insert (to_ascii_lowercase nickname)
         \<lparr>ru_nickname = nickname, ru_username = username, ru_realname = realname,
          ru_hostname = hostname, ru_modes = {}, ru_away_message = None,
          ru_signon_time = signon_time, ru_home_node = home_node, ru_is_oper = False\<rparr> (cs_users s)\<rparr>"

definition rename_member :: "string \<Rightarrow> string \<Rightarrow> replicated_channel \<Rightarrow> replicated_channel" where
  "rename_member old_key new_key ch =
     (case hm_get (rc_members ch) old_key of None \<Rightarrow> ch
      | Some status \<Rightarrow>
          ch\<lparr>rc_members := hm_insert new_key status (hm_remove old_key (rc_members ch))\<rparr>)"

definition apply_nick_changed :: "string \<Rightarrow> string \<Rightarrow> cluster_state \<Rightarrow> cluster_state" where
  "apply_nick_changed old_nick new_nick s =
     (let old_key = to_ascii_lowercase old_nick; new_key = to_ascii_lowercase new_nick;
          s1 = (case hm_get (cs_users s) old_key of None \<Rightarrow> s
                | Some user \<Rightarrow>
                    s\<lparr>cs_users := hm_insert new_key (user\<lparr>ru_nickname := new_nick\<rparr>)
                                   (hm_remove old_key (cs_users s))\<rparr>) in
      s1\<lparr>cs_channels := hm_map_values (rename_member old_key new_key) (cs_channels s1)\<rparr>)"

fun set_member_status :: "string \<times> string \<Rightarrow> (string \<times> string) list \<Rightarrow> (string \<times> string) list" where
  "set_member_status (nick, status) ms =
     (let nick_key = to_ascii_lowercase nick in
      if hm_get ms nick_key \<noteq> None then hm_insert nick_key status ms else ms)"

definition apply_channel_mode_changed ::
  "string \<Rightarrow> string list \<Rightarrow> string list \<Rightarrow> string option \<Rightarrow> nat option \<Rightarrow> (string \<times> string) list \<Rightarrow>
     cluster_state \<Rightarrow> cluster_state" where
  "apply_channel_mode_changed channel modes_added modes_removed key user_limit member_status_changes =
     with_channel channel (\<lambda>ch.
       ch\<lparr>rc_modes := (rc_modes ch \<union> set modes_added) - set modes_removed,
          rc_key := (case key of Some k \<Rightarrow> Some k | None \<Rightarrow> rc_key ch),
          rc_user_limit := (case user_limit of Some l \<Rightarrow> Some l | None \<Rightarrow> rc_user_limit ch),
          rc_members := fold set_member_status member_status_changes (rc_members ch)\<rparr>)"

definition remove_user :: "string \<Rightarrow> cluster_state \<Rightarrow> cluster_state" where
  "remove_user nickname s =
     (let key = to_ascii_lowercase nickname in
      remove_user_from_all_channels key (s\<lparr>cs_users := hm_remove key (cs_users s)\<rparr>))"

fun cluster_apply :: "cluster_command \<Rightarrow> cluster_state \<Rightarrow> cluster_state" where
  "cluster_apply (UserRegistered _ nickname username realname hostname signon_time home_node) s =
     apply_user_registered nickname username realname hostname signon_time home_node s"
| "cluster_apply (NickChanged old_nick new_nick) s = apply_nick_changed old_nick new_nick s"
| "cluster_apply (UserQuit nickname _) s = remove_user nickname s"
| "cluster_apply (UserKilled nickname _) s = remove_user nickname s"
| "cluster_apply (UserAway nickname message) s =
     update_user (to_ascii_lowercase nickname) (\<lambda>u. u\<lparr>ru_away_message := message\<rparr>) s"
| "cluster_apply (UserModeChanged nickname modes_added modes_removed) s =
     update_user (to_ascii_lowercase nickname)
       (\<lambda>u. u\<lparr>ru_modes := (ru_modes u \<union> set modes_added) - set modes_removed\<rparr>) s"
| "cluster_apply (ChannelJoined nickname channel status) s =
     with_channel channel (\<lambda>ch. ch\<lparr>rc_members :=
       hm_insert (to_ascii_lowercase nickname) status (rc_members ch)\<rparr>) s"
| "cluster_apply (ChannelParted nickname channel _) s = remove_member_from_channel channel nickname s"
| "cluster_apply (UserKicked channel nickname _ _) s = remove_member_from_channel channel nickname s"
| "cluster_apply (TopicSet channel topic) s =
     with_channel channel (\<lambda>ch. ch\<lparr>rc_topic :=
       map_option (\<lambda>t. (ti_text t, ti_who t, ti_timestamp t)) topic\<rparr>) s"
| "cluster_apply (ChannelModeChanged channel modes_added modes_removed key user_limit changes) s =
     apply_channel_mode_changed channel modes_added modes_removed key user_limit changes s"
| "cluster_apply (BanAdded channel mask' who_set timestamp) s =
     with_channel channel (\<lambda>ch. ch\<lparr>rc_ban_list := rc_ban_list ch @
       [\<lparr>rb_mask = mask', rb_who_set = who_set, rb_timestamp = timestamp\<rparr>]\<rparr>) s"
| "cluster_apply (BanRemoved channel mask') s =
     update_channel (to_ascii_lowercase channel)
       (\<lambda>ch. ch\<lparr>rc_ban_list := filter (\<lambda>b. rb_mask b \<noteq> mask') (rc_ban_list ch)\<rparr>) s"
| "cluster_apply (InviteAdded channel nickname) s =
     with_channel channel (\<lambda>ch. ch\<lparr>rc_invite_list := insert (to_ascii_lowercase nickname) (rc_invite_list ch)\<rparr>) s"
| "cluster_apply (OperGranted nickname) s =
     update_user (to_ascii_lowercase nickname) (\<lambda>u. u\<lparr>ru_is_oper := True\<rparr>) s"
| "cluster_apply (ServerAdded i addr) s =
     s\<lparr>cs_servers := hm_insert i \<lparr>rs_node_id = i, rs_addr = addr\<rparr> (cs_servers s)\<rparr>"
| "cluster_apply (ServerRemoved i) s = s\<lparr>cs_servers := hm_remove i (cs_servers s)\<rparr>"
| "cluster_apply (UserMigrated nickname _ to_node) s =
     update_user (to_ascii_lowercase nickname) (\<lambda>u. u\<lparr>ru_home_node := Some to_node\<rparr>) s"
| "cluster_apply (Noop _) s = s"

definition cluster_snapshot :: "(cluster_state \<Rightarrow> byte list) \<Rightarrow> cluster_state \<Rightarrow> byte list" where
  "cluster_snapshot to_vec s = to_vec s"

definition cluster_restore ::
  "(byte list \<Rightarrow> string + cluster_state) \<Rightarrow> byte list \<Rightarrow> cluster_state \<Rightarrow> (snapshot_error + unit) \<times> cluster_state" where
  "cluster_restore from_slice data s =
     (if data = [] then (Ok (), s\<lparr>cs_users := [], cs_channels := [], cs_servers := []\<rparr>)
      else case from_slice data of
        Err e \<Rightarrow> (Err (InvalidData e), s)
      | Ok st \<Rightarrow> (Ok (), s\<lparr>cs_users := cs_users st, cs_channels := cs_channels st, cs_servers := cs_servers st\<rparr>))"

definition cluster_state_machine ::
  "(cluster_state \<Rightarrow> byte list) \<Rightarrow> (byte list \<Rightarrow> string + cluster_state) \<Rightarrow>
     (cluster_state, cluster_command) state_machine_ops" where
  "cluster_state_machine to_vec from_slice = \<lparr>sm_apply = cluster_apply,
     sm_snapshot = cluster_snapshot to_vec, sm_restore = cluster_restore from_slice\<rparr>"

section \<open>Lemmas\<close>

declare map_of_eq_Some_iff [simp del]

lemma update_user_simps [simp]:
  "map_of (cs_users (update_user k f s)) k' =
     (if k' = k then map_option f (map_of (cs_users s) k) else map_of (cs_users s) k')"
  "cs_channels (update_user k f s) = cs_channels s" "cs_servers (update_user k f s) = cs_servers s"
  by (auto simp: update_user_def split: option.split)

lemma update_channel_simps [simp]:
  "map_of (cs_channels (update_channel k f s)) k' =
     (if k' = k then map_option f (map_of (cs_channels s) k) else map_of (cs_channels s) k')"
  "cs_users (update_channel k f s) = cs_users s" "cs_servers (update_channel k f s) = cs_servers s"
  by (auto simp: update_channel_def split: option.split)

lemma ensure_channel_simps [simp]:
  "map_of (cs_channels (ensure_channel c s)) k' =
     (if k' = to_ascii_lowercase c \<and> map_of (cs_channels s) k' = None then Some (new_channel c)
      else map_of (cs_channels s) k')"
  "cs_users (ensure_channel c s) = cs_users s" "cs_servers (ensure_channel c s) = cs_servers s"
  by (auto simp: ensure_channel_def Let_def split: option.split)

lemma with_channel_simps [simp]:
  "map_of (cs_channels (with_channel c f s)) k' =
     (if k' = to_ascii_lowercase c
      then Some (f (case map_of (cs_channels s) k' of None \<Rightarrow> new_channel c | Some ch \<Rightarrow> ch))
      else map_of (cs_channels s) k')"
  "cs_users (with_channel c f s) = cs_users s" "cs_servers (with_channel c f s) = cs_servers s"
  by (auto simp: with_channel_def split: option.split)

lemma hm_wf_state_updates [simp]:
  "hm_wf (cs_users s) \<Longrightarrow> hm_wf (cs_users (update_user k g s))"
  "hm_wf (cs_channels s) \<Longrightarrow> hm_wf (cs_channels (update_channel k f s))"
  "hm_wf (cs_channels s) \<Longrightarrow> hm_wf (cs_channels (ensure_channel c s))"
  "hm_wf (cs_channels s) \<Longrightarrow> hm_wf (cs_channels (with_channel c f s))"
  by (auto simp: update_user_def update_channel_def ensure_channel_def with_channel_def Let_def
      split: option.split)

lemma remove_all_get:
  "hm_wf (cs_channels s) \<Longrightarrow>
   map_of (cs_channels (remove_user_from_all_channels nk s)) k =
     (case map_of (cs_channels s) k of None \<Rightarrow> None
      | Some ch \<Rightarrow> let ms = hm_remove nk (rc_members ch) in
                  if ms = [] then None else Some (ch\<lparr>rc_members := ms\<rparr>))"
  by (simp add: remove_user_from_all_channels_def map_of_hm_retain Let_def split: option.split)

lemma remove_member_get:
  "hm_wf (cs_channels s) \<Longrightarrow>
   map_of (cs_channels (remove_member_from_channel c n s)) k =
     (if k = to_ascii_lowercase c
      then (case map_of (cs_channels s) k of None \<Rightarrow> None
            | Some ch \<Rightarrow> let ms = hm_remove (to_ascii_lowercase n) (rc_members ch) in
                        if ms = [] then None else Some (ch\<lparr>rc_members := ms\<rparr>))
      else map_of (cs_channels s) k)"
  by (auto simp: remove_member_from_channel_def Let_def split: option.split)

lemma rename_member_get:
  "map_of (rc_members (rename_member a b ch)) n =
     (if map_of (rc_members ch) a = None then map_of (rc_members ch) n
      else if n = b then map_of (rc_members ch) a
      else if n = a then None else map_of (rc_members ch) n)"
  by (auto simp: rename_member_def split: option.split)

lemma rename_member_frame [simp]: "rc_name (rename_member a b ch) = rc_name ch"
  "rc_invite_list (rename_member a b ch) = rc_invite_list ch"
  "hm_wf (rc_members ch) \<Longrightarrow> hm_wf (rc_members (rename_member a b ch))"
  by (auto simp: rename_member_def split: option.split)

lemma set_member_status_None [simp]: "map_of (set_member_status p ms) n = None \<longleftrightarrow> map_of ms n = None"
  by (cases p) (auto simp: Let_def)

lemma set_member_status_wf [simp]: "hm_wf ms \<Longrightarrow> hm_wf (set_member_status p ms)"
  by (cases p) (auto simp: Let_def)

lemma fold_member_status [simp]:
  "map_of (fold set_member_status ps ms) n = None \<longleftrightarrow> map_of ms n = None"
  "hm_wf ms \<Longrightarrow> hm_wf (fold set_member_status ps ms)"
  by (induction ps arbitrary: ms) auto

section \<open>Invariants\<close>

text \<open>
  Well-formedness: every map has unique keys, users and channels are filed under the
  lower-cased name they carry, members and invitations under lower-cased nicknames.
\<close>

definition channel_wf :: "string \<Rightarrow> replicated_channel \<Rightarrow> bool" where
  "channel_wf k ch \<longleftrightarrow> k = to_ascii_lowercase (rc_name ch) \<and> hm_wf (rc_members ch)
     \<and> (\<forall>n. map_of (rc_members ch) n \<noteq> None \<or> n \<in> rc_invite_list ch \<longrightarrow> to_ascii_lowercase n = n)"

definition state_wf :: "cluster_state \<Rightarrow> bool" where
  "state_wf s \<longleftrightarrow> hm_wf (cs_users s) \<and> hm_wf (cs_channels s) \<and> hm_wf (cs_servers s)
     \<and> (\<forall>k u. map_of (cs_users s) k = Some u \<longrightarrow> k = to_ascii_lowercase (ru_nickname u))
     \<and> (\<forall>k ch. map_of (cs_channels s) k = Some ch \<longrightarrow> channel_wf k ch)
     \<and> (\<forall>k v. map_of (cs_servers s) k = Some v \<longrightarrow> k = rs_node_id v)"

text \<open>Every member of a channel is a registered user.\<close>

definition members_registered :: "cluster_state \<Rightarrow> bool" where
  "members_registered s \<longleftrightarrow> (\<forall>k ch n. map_of (cs_channels s) k = Some ch \<longrightarrow>
     map_of (rc_members ch) n \<noteq> None \<longrightarrow> map_of (cs_users s) n \<noteq> None)"

lemma channel_wf_new [simp]: "channel_wf (to_ascii_lowercase c) (new_channel c)"
  by (simp add: channel_wf_def new_channel_def)

lemma state_wf_update_user:
  assumes "state_wf s" "\<And>u. ru_nickname (f u) = ru_nickname u"
  shows "state_wf (update_user k f s)"
  using assms by (auto simp: state_wf_def)

lemma state_wf_update_channel:
  assumes "state_wf s" "\<And>ch. channel_wf k ch \<Longrightarrow> channel_wf k (f ch)"
  shows "state_wf (update_channel k f s)"
  using assms by (auto simp: state_wf_def)

lemma state_wf_ensure: "state_wf s \<Longrightarrow> state_wf (ensure_channel c s)"
  by (auto simp: state_wf_def)

lemma state_wf_with_channel:
  assumes "state_wf s" "\<And>ch. channel_wf (to_ascii_lowercase c) ch \<Longrightarrow> channel_wf (to_ascii_lowercase c) (f ch)"
  shows "state_wf (with_channel c f s)"
  unfolding with_channel_def using assms by (intro state_wf_update_channel state_wf_ensure)

lemma channel_wf_remove: "channel_wf k ch \<Longrightarrow> channel_wf k (ch\<lparr>rc_members := hm_remove n (rc_members ch)\<rparr>)"
  by (auto simp: channel_wf_def split: if_splits)

lemma channel_wf_rename:
  "channel_wf k ch \<Longrightarrow> channel_wf k (rename_member (to_ascii_lowercase a) (to_ascii_lowercase b) ch)"
  by (auto simp: channel_wf_def rename_member_get dom_def split: if_splits)

lemma state_wf_channels:
  assumes "state_wf s" "hm_wf (cs_channels s')" "cs_users s' = cs_users s" "cs_servers s' = cs_servers s"
    and "\<And>k ch. map_of (cs_channels s') k = Some ch \<Longrightarrow> channel_wf k ch"
  shows "state_wf s'"
  using assms by (simp add: state_wf_def)

lemma state_wf_remove_user:
  assumes "state_wf s" shows "state_wf (remove_user n s)"
proof -
  define s1 where "s1 = s\<lparr>cs_users := hm_remove (to_ascii_lowercase n) (cs_users s)\<rparr>"
  have s1: "state_wf s1" using assms by (auto simp: s1_def state_wf_def split: if_splits)
  have "state_wf (remove_user_from_all_channels (to_ascii_lowercase n) s1)"
  proof (rule state_wf_channels [OF s1])
    fix k ch
    assume "map_of (cs_channels (remove_user_from_all_channels (to_ascii_lowercase n) s1)) k = Some ch"
    then obtain ch0 where "map_of (cs_channels s1) k = Some ch0"
      "ch = ch0\<lparr>rc_members := hm_remove (to_ascii_lowercase n) (rc_members ch0)\<rparr>"
      using s1 by (auto simp: remove_all_get state_wf_def Let_def split: option.splits if_splits)
    then show "channel_wf k ch" using s1 channel_wf_remove by (auto simp: state_wf_def)
  qed (use s1 in \<open>auto simp: remove_user_from_all_channels_def state_wf_def\<close>)
  then show ?thesis by (simp add: remove_user_def s1_def Let_def)
qed

lemma state_wf_remove_member:
  assumes "state_wf s" shows "state_wf (remove_member_from_channel c n s)"
proof (rule state_wf_channels [OF assms])
  fix k ch
  assume "map_of (cs_channels (remove_member_from_channel c n s)) k = Some ch"
  then have "map_of (cs_channels s) k = Some ch \<or> (\<exists>ch0. map_of (cs_channels s) k = Some ch0
      \<and> ch = ch0\<lparr>rc_members := hm_remove (to_ascii_lowercase n) (rc_members ch0)\<rparr>)"
    using assms by (auto simp: remove_member_get state_wf_def Let_def split: option.splits if_splits)
  then show "channel_wf k ch" using assms channel_wf_remove by (auto simp: state_wf_def)
qed (use assms in \<open>auto simp: remove_member_from_channel_def state_wf_def Let_def split: option.split\<close>)

lemma state_wf_nick_changed:
  assumes "state_wf s" shows "state_wf (apply_nick_changed a b s)"
proof -
  define s1 where "s1 = (case hm_get (cs_users s) (to_ascii_lowercase a) of None \<Rightarrow> s
    | Some user \<Rightarrow> s\<lparr>cs_users := hm_insert (to_ascii_lowercase b) (user\<lparr>ru_nickname := b\<rparr>)
        (hm_remove (to_ascii_lowercase a) (cs_users s))\<rparr>)"
  have s1: "state_wf s1" using assms by (auto simp: s1_def state_wf_def split: option.split if_splits)
  have "state_wf (s1\<lparr>cs_channels := hm_map_values (rename_member (to_ascii_lowercase a) (to_ascii_lowercase b)) (cs_channels s1)\<rparr>)"
    by (rule state_wf_channels [OF s1]) (use s1 channel_wf_rename in \<open>auto simp: state_wf_def\<close>)
  then show ?thesis by (simp add: apply_nick_changed_def s1_def Let_def)
qed

lemma state_wf_apply: "state_wf s \<Longrightarrow> state_wf (cluster_apply cmd s)"
proof (cases cmd)
  case (UserRegistered x1 x2 x3 x4 x5 x6 x7)
  then show "state_wf s \<Longrightarrow> ?thesis" by (auto simp: apply_user_registered_def state_wf_def split: if_splits)
next
  case (ServerAdded x y)
  then show "state_wf s \<Longrightarrow> ?thesis" by (auto simp: state_wf_def split: if_splits)
next
  case (ServerRemoved x)
  then show "state_wf s \<Longrightarrow> ?thesis" by (auto simp: state_wf_def split: if_splits)
qed (auto simp: apply_channel_mode_changed_def
    intro!: state_wf_update_user state_wf_update_channel state_wf_with_channel state_wf_remove_user
      state_wf_remove_member state_wf_nick_changed
    simp: channel_wf_def split: if_splits)

text \<open>A command is admissible if it lets only registered users join a channel.\<close>

definition command_ok :: "cluster_state \<Rightarrow> cluster_command \<Rightarrow> bool" where
  "command_ok s cmd \<longleftrightarrow> (is_ChannelJoined cmd \<longrightarrow> get_user s (cj_nickname cmd) \<noteq> None)"

lemma members_registeredI:
  "(\<And>k ch n. map_of (cs_channels s) k = Some ch \<Longrightarrow> map_of (rc_members ch) n \<noteq> None \<Longrightarrow>
      map_of (cs_users s) n \<noteq> None) \<Longrightarrow> members_registered s"
  by (auto simp: members_registered_def)

lemma members_registered_update_user:
  "members_registered s \<Longrightarrow> members_registered (update_user k f s)"
  by (auto simp: members_registered_def)

lemma members_registered_update_channel:
  assumes "members_registered s"
    and "\<And>ch n. map_of (rc_members (f ch)) n \<noteq> None \<Longrightarrow> map_of (rc_members ch) n \<noteq> None"
  shows "members_registered (update_channel k f s)"
proof (rule members_registeredI)
  fix k' ch n
  assume ch: "map_of (cs_channels (update_channel k f s)) k' = Some ch" and n: "map_of (rc_members ch) n \<noteq> None"
  then obtain ch0 where "map_of (cs_channels s) k' = Some ch0" "ch = ch0 \<or> ch = f ch0"
    by (auto split: if_splits)
  then show "map_of (cs_users (update_channel k f s)) n \<noteq> None"
    using assms n by (auto simp: members_registered_def)
qed

lemma members_registered_with_channel:
  assumes "members_registered s"
    and "\<And>ch n. map_of (rc_members (f ch)) n \<noteq> None \<Longrightarrow>
           map_of (rc_members ch) n \<noteq> None \<or> map_of (cs_users s) n \<noteq> None"
  shows "members_registered (with_channel c f s)"
proof (rule members_registeredI)
  fix k ch n
  assume ch: "map_of (cs_channels (with_channel c f s)) k = Some ch" and n: "map_of (rc_members ch) n \<noteq> None"
  then consider "map_of (cs_channels s) k = Some ch"
    | ch0 where "map_of (cs_channels s) k = Some ch0" "ch = f ch0" | "ch = f (new_channel c)"
    by (auto split: if_splits option.splits)
  then show "map_of (cs_users (with_channel c f s)) n \<noteq> None"
  proof cases
    case (2 ch0)
    then have "map_of (rc_members ch0) n \<noteq> None \<or> map_of (cs_users s) n \<noteq> None"
      using assms(2) [of ch0 n] n by simp
    then show ?thesis using assms(1) 2(1) by (auto simp: members_registered_def)
  next
    case 3
    then show ?thesis using assms(2) [of "new_channel c" n] n by (simp add: new_channel_def)
  qed (use assms(1) n in \<open>auto simp: members_registered_def\<close>)
qed

lemma members_registered_remove_user:
  assumes "state_wf s" "members_registered s" shows "members_registered (remove_user x s)"
proof (rule members_registeredI)
  let ?x = "to_ascii_lowercase x"
  fix k ch n
  assume "map_of (cs_channels (remove_user x s)) k = Some ch" "map_of (rc_members ch) n \<noteq> None"
  then obtain ch0 where "map_of (cs_channels s) k = Some ch0" "map_of (rc_members ch0) n \<noteq> None" "n \<noteq> ?x"
    using assms(1) by (auto simp: remove_user_def Let_def remove_all_get state_wf_def split: option.splits if_splits)
  then show "map_of (cs_users (remove_user x s)) n \<noteq> None"
    using assms(2) by (auto simp: remove_user_def Let_def members_registered_def remove_user_from_all_channels_def)
qed

lemma members_registered_remove_member:
  assumes "state_wf s" "members_registered s" shows "members_registered (remove_member_from_channel c x s)"
proof (rule members_registeredI)
  fix k ch n
  assume "map_of (cs_channels (remove_member_from_channel c x s)) k = Some ch" "map_of (rc_members ch) n \<noteq> None"
  then obtain ch0 where "map_of (cs_channels s) k = Some ch0" "map_of (rc_members ch0) n \<noteq> None"
    using assms(1) by (auto simp: remove_member_get state_wf_def Let_def split: option.splits if_splits)
  moreover have "cs_users (remove_member_from_channel c x s) = cs_users s"
    by (auto simp: remove_member_from_channel_def Let_def split: option.split)
  ultimately show "map_of (cs_users (remove_member_from_channel c x s)) n \<noteq> None"
    using assms(2) by (auto simp: members_registered_def)
qed

lemma nick_changed_users:
  "map_of (cs_users (apply_nick_changed a b s)) n =
     (case map_of (cs_users s) (to_ascii_lowercase a) of
        None \<Rightarrow> map_of (cs_users s) n
      | Some u \<Rightarrow> if n = to_ascii_lowercase b then Some (u\<lparr>ru_nickname := b\<rparr>)
                  else if n = to_ascii_lowercase a then None else map_of (cs_users s) n)"
  by (auto simp: apply_nick_changed_def Let_def split: option.split)

lemma nick_changed_channels:
  "map_of (cs_channels (apply_nick_changed a b s)) k =
     map_option (rename_member (to_ascii_lowercase a) (to_ascii_lowercase b)) (map_of (cs_channels s) k)"
  by (auto simp: apply_nick_changed_def Let_def split: option.split)

lemma members_registered_nick_changed:
  assumes "members_registered s" shows "members_registered (apply_nick_changed a b s)"
proof (rule members_registeredI)
  fix k ch n
  assume "map_of (cs_channels (apply_nick_changed a b s)) k = Some ch" "map_of (rc_members ch) n \<noteq> None"
  then obtain ch0 where ch0: "map_of (cs_channels s) k = Some ch0"
    "map_of (rc_members (rename_member (to_ascii_lowercase a) (to_ascii_lowercase b) ch0)) n \<noteq> None"
    by (auto simp: nick_changed_channels)
  have reg: "map_of (rc_members ch0) x \<noteq> None \<Longrightarrow> map_of (cs_users s) x \<noteq> None" for x
    using assms ch0(1) by (auto simp: members_registered_def)
  show "map_of (cs_users (apply_nick_changed a b s)) n \<noteq> None"
    using ch0(2) reg [of n] reg [of "to_ascii_lowercase a"]
    by (auto simp: nick_changed_users rename_member_get split: option.split if_splits)
qed

lemma members_registered_apply:
  assumes "state_wf s" "members_registered s" "command_ok s cmd"
  shows "members_registered (cluster_apply cmd s)"
proof (cases cmd)
  case (UserRegistered x1 x2 x3 x4 x5 x6 x7)
  then show ?thesis using assms(2) by (auto simp: apply_user_registered_def members_registered_def)
next
  case (ServerAdded x y)
  then show ?thesis using assms(2) by (simp add: members_registered_def)
next
  case (ServerRemoved x)
  then show ?thesis using assms(2) by (simp add: members_registered_def)
next
  case (ChannelJoined x c st)
  then show ?thesis
    using assms by (auto simp: command_ok_def get_user_def intro!: members_registered_with_channel split: if_splits)
next
  case (BanRemoved c x)
  then show ?thesis using assms by (auto intro!: members_registered_update_channel)
next
  case (ChannelModeChanged x1 x2 x3 x4 x5 x6)
  have "members_registered (apply_channel_mode_changed x1 x2 x3 x4 x5 x6 s)"
    unfolding apply_channel_mode_changed_def
    by (rule members_registered_with_channel [OF assms(2)]) (simp del: not_None_eq)
  then show ?thesis by (simp add: ChannelModeChanged)
qed (use assms in \<open>auto simp: apply_channel_mode_changed_def
    intro!: members_registered_update_user members_registered_with_channel members_registered_remove_user
      members_registered_remove_member members_registered_nick_changed\<close>)

section \<open>Properties\<close>

text \<open>
  C14. The replicated state stays consistent: applying any sequence of committed commands
  in which only registered users join channels keeps every map keyed by the lower-cased
  name of what it holds, and keeps every channel member a registered user, also across
  nickname changes, quits, kills, kicks and parts.
\<close>

fun admissible :: "cluster_state \<Rightarrow> cluster_command list \<Rightarrow> bool" where
  "admissible s [] \<longleftrightarrow> True"
| "admissible s (c # cs) \<longleftrightarrow> command_ok s c \<and> admissible (cluster_apply c s) cs"

theorem cluster_state_consistent:
  assumes "admissible s cmds" "state_wf s" "members_registered s"
  shows "state_wf (fold cluster_apply cmds s) \<and> members_registered (fold cluster_apply cmds s)"
  using assms by (induction cmds arbitrary: s) (simp_all add: state_wf_apply members_registered_apply)

theorem cluster_state_consistent_witness:
  "let cmds = [UserRegistered 1 ''Ann'' ''a'' ''A'' ''h'' 5 None, ChannelJoined ''ANN'' ''#X'' ''operator'',
               NickChanged ''ann'' ''Bea'']
   in members_registered (fold cluster_apply cmds cluster_state_new)"
proof -
  have lower: "to_ascii_lowercase ''Ann'' = ''ann''" "to_ascii_lowercase ''ANN'' = ''ann''"
    by code_simp+
  have "state_wf cluster_state_new" "members_registered cluster_state_new"
    by (simp_all add: state_wf_def members_registered_def cluster_state_new_def)
  moreover have "admissible cluster_state_new [UserRegistered 1 ''Ann'' ''a'' ''A'' ''h'' 5 None,
      ChannelJoined ''ANN'' ''#X'' ''operator'', NickChanged ''ann'' ''Bea'']"
    by (simp add: command_ok_def get_user_def apply_user_registered_def lower)
  ultimately show ?thesis unfolding Let_def using cluster_state_consistent by blast
qed

text \<open>
  A quit or kill removes a user completely: the user is gone, no channel lists the
  user, no channel is left empty, the other members keep their status in the channels that
  remain, channels vanish only when nobody else is in them, and other users are untouched.
\<close>

theorem user_removal_complete:
  assumes "state_wf s" "cmd = UserQuit nick reason \<or> cmd = UserKilled nick why"
  defines "s' \<equiv> cluster_apply cmd s" and "x \<equiv> to_ascii_lowercase nick"
  shows "get_user s' nick = None
    \<and> (\<forall>n. n \<noteq> x \<longrightarrow> hm_get (cs_users s') n = hm_get (cs_users s) n)
    \<and> (\<forall>k. hm_get (cs_channels s') k = None \<longleftrightarrow>
          (case hm_get (cs_channels s) k of None \<Rightarrow> True
           | Some ch \<Rightarrow> \<forall>n. n \<noteq> x \<longrightarrow> hm_get (rc_members ch) n = None))
    \<and> (\<forall>k ch ch'. hm_get (cs_channels s) k = Some ch \<longrightarrow> hm_get (cs_channels s') k = Some ch' \<longrightarrow>
          rc_members ch' \<noteq> [] \<and> hm_get (rc_members ch') x = None
          \<and> (\<forall>n. n \<noteq> x \<longrightarrow> hm_get (rc_members ch') n = hm_get (rc_members ch) n)
          \<and> ch'\<lparr>rc_members := []\<rparr> = ch\<lparr>rc_members := []\<rparr>)"
proof -
  have s': "s' = remove_user_from_all_channels x (s\<lparr>cs_users := hm_remove x (cs_users s)\<rparr>)"
    using assms(2) by (auto simp: s'_def x_def remove_user_def Let_def)
  have users: "cs_users s' = hm_remove x (cs_users s)"
    by (simp add: s' remove_user_from_all_channels_def)
  have chans: "hm_get (cs_channels s') k = (case hm_get (cs_channels s) k of None \<Rightarrow> None
      | Some ch \<Rightarrow> let ms = hm_remove x (rc_members ch) in if ms = [] then None else Some (ch\<lparr>rc_members := ms\<rparr>))" for k
    using assms(1) by (simp add: s' remove_all_get state_wf_def)
  have empty: "hm_remove x ms = [] \<longleftrightarrow> (\<forall>n. n \<noteq> x \<longrightarrow> hm_get ms n = None)" for ms :: "(string \<times> string) list"
    using map_of_delete [of x ms] by (metis hm_empty_iff)
  show ?thesis
    by (auto simp: users chans get_user_def x_def [symmetric] Let_def empty split: option.splits)
qed

theorem user_removal_complete_witness:
  "let s = fold cluster_apply [UserRegistered 1 ''ann'' ''a'' ''A'' ''h'' 5 None,
             ChannelJoined ''ann'' ''#x'' ''operator'', ChannelJoined ''bea'' ''#y'' ''normal''] cluster_state_new;
       s' = cluster_apply (UserQuit ''ANN'' None) s
   in get_user s' ''ANN'' = None \<and> hm_get (cs_channels s') ''#x'' = None"
proof -
  have lower: "to_ascii_lowercase ''ANN'' = ''ann''" "to_ascii_lowercase ''ann'' = ''ann''"
    "to_ascii_lowercase ''#x'' = ''#x''" "to_ascii_lowercase ''#y'' = ''#y''"
    by code_simp+
  define s where "s = fold cluster_apply [UserRegistered 1 ''ann'' ''a'' ''A'' ''h'' 5 None,
    ChannelJoined ''ann'' ''#x'' ''operator'', ChannelJoined ''bea'' ''#y'' ''normal''] cluster_state_new"
  have "state_wf cluster_state_new" by (simp add: state_wf_def cluster_state_new_def)
  then have "state_wf s" by (simp add: s_def state_wf_apply del: cluster_apply.simps)
  note t = user_removal_complete [OF this, of "UserQuit ''ANN'' None" "''ANN''" None, simplified]
  have "hm_get (cs_channels s) ''#x'' = Some ((new_channel ''#x'')\<lparr>rc_members := [(''ann'', ''operator'')]\<rparr>)"
    by (simp add: s_def lower cluster_state_new_def apply_user_registered_def new_channel_def)
  then have "get_user (cluster_apply (UserQuit ''ANN'' None) s) ''ANN'' = None
    \<and> hm_get (cs_channels (cluster_apply (UserQuit ''ANN'' None) s)) ''#x'' = None"
    using t by (simp add: lower)
  then show ?thesis by (simp add: s_def Let_def)
qed

text \<open>
  A nickname change moves the user and the membership status in every channel to the
  new name and changes nothing else; it is undone by changing the name back, so no status
  (operator, voice) is lost or gained by renaming. The new name must be free.
\<close>

theorem nick_change_moves:
  assumes reg: "members_registered s" and u: "get_user s old = Some u" and free: "get_user s new = None"
  defines "s' \<equiv> cluster_apply (NickChanged old new) s"
    and "a \<equiv> to_ascii_lowercase old" and "b \<equiv> to_ascii_lowercase new"
  shows "get_user s' old = None \<and> get_user s' new = Some (u\<lparr>ru_nickname := new\<rparr>)
    \<and> (\<forall>n. n \<noteq> a \<longrightarrow> n \<noteq> b \<longrightarrow> hm_get (cs_users s') n = hm_get (cs_users s) n)
    \<and> (\<forall>k. case (hm_get (cs_channels s) k, hm_get (cs_channels s') k) of
          (None, None) \<Rightarrow> True
        | (Some ch, Some ch') \<Rightarrow>
            (\<forall>n. hm_get (rc_members ch') n = (if n = b then hm_get (rc_members ch) a
                  else if n = a then None else hm_get (rc_members ch) n))
            \<and> (\<forall>n. hm_get (rc_members (rename_member b a ch')) n = hm_get (rc_members ch) n)
        | _ \<Rightarrow> False)"
proof -
  have ab: "a \<noteq> b" using u free by (auto simp: a_def b_def get_user_def)
  have nob: "hm_get (cs_channels s) k = Some ch \<Longrightarrow> hm_get (rc_members ch) b = None" for k ch
    using reg free unfolding members_registered_def b_def get_user_def by blast
  have users: "hm_get (cs_users s') n = (if n = b then Some (u\<lparr>ru_nickname := new\<rparr>)
      else if n = a then None else hm_get (cs_users s) n)" for n
    using u by (simp add: s'_def nick_changed_users a_def b_def get_user_def)
  have chans: "hm_get (cs_channels s') k = map_option (rename_member a b) (hm_get (cs_channels s) k)" for k
    by (simp add: s'_def nick_changed_channels a_def b_def)
  show ?thesis
    using ab nob by (auto simp: users chans get_user_def a_def [symmetric] b_def [symmetric]
        rename_member_get split: option.splits)
qed

theorem nick_change_moves_witness:
  "let s = fold cluster_apply [UserRegistered 1 ''ann'' ''a'' ''A'' ''h'' 5 None,
             ChannelJoined ''ann'' ''#x'' ''operator''] cluster_state_new;
       s' = cluster_apply (NickChanged ''ann'' ''bea'') s
   in get_user s' ''ann'' = None \<and> map_option ru_nickname (get_user s' ''bea'') = Some ''bea''"
proof -
  have lower: "to_ascii_lowercase ''ann'' = ''ann''" "to_ascii_lowercase ''bea'' = ''bea''"
    "to_ascii_lowercase ''#x'' = ''#x''"
    by code_simp+
  define s where "s = fold cluster_apply [UserRegistered 1 ''ann'' ''a'' ''A'' ''h'' 5 None,
    ChannelJoined ''ann'' ''#x'' ''operator''] cluster_state_new"
  have reg: "members_registered s"
    by (auto simp: members_registered_def s_def lower cluster_state_new_def apply_user_registered_def
        new_channel_def split: if_splits)
  have "\<exists>u. get_user s ''ann'' = Some u" "get_user s ''bea'' = None"
    by (simp_all add: s_def lower get_user_def cluster_state_new_def apply_user_registered_def)
  then obtain u where "get_user s ''ann'' = Some u" "get_user s ''bea'' = None" by blast
  from nick_change_moves [OF reg this]
  have "get_user (cluster_apply (NickChanged ''ann'' ''bea'') s) ''ann'' = None
    \<and> map_option ru_nickname (get_user (cluster_apply (NickChanged ''ann'' ''bea'') s) ''bea'') = Some ''bea''"
    by simp
  then show ?thesis by (simp add: s_def Let_def)
qed

end
