(* ===== verification/Raft_Sync.thy ===== *)
theory Raft_Sync
  imports Raft_Node Raft_Storage Cluster_State
begin

text \<open>
  How a follower is brought up to date: rounds of \<^verbatim>\<open>AppendEntries\<close> with the leader stepping
  back on a mismatch, and the transfer of a snapshot in chunks. The definitions compose the
  handlers of the two nodes the way the drivers do when messages are delivered in order.
\<close>

section \<open>Compositions\<close>

text \<open>
  One exchange of the leader \<open>n\<close> with the peer \<open>p\<close>, the follower \<open>f\<close>: \<^verbatim>\<open>replicate_to_peer\<close>,
  \<^verbatim>\<open>handle_append_entries\<close> at the follower, \<^verbatim>\<open>handle_append_entries_response\<close> at the leader.
\<close>

definition sync_round ::
  "('s, 'c) raft_env \<Rightarrow> node_id \<Rightarrow> ('c, 's) raft_node \<times> ('c, 's) raft_node \<Rightarrow>
     ('c, 's) raft_node \<times> ('c, 's) raft_node" where
  "sync_round E p = (\<lambda>(n, f).
     case replicate_to_peer n p of
       [(_, AppendEntries req)] \<Rightarrow>
         (case handle_append_entries E f req of
            (Ok resp, f') \<Rightarrow> (snd (handle_append_entries_response E n p resp), f')
          | (Err _, f') \<Rightarrow> (n, f'))
     | _ \<Rightarrow> (n, f))"

text \<open>Delivering a list of messages to a follower; only \<^verbatim>\<open>InstallSnapshot\<close> occurs here.\<close>

fun install_all ::
  "('s, 'c) raft_env \<Rightarrow> ('m, 'c) state_machine_ops \<Rightarrow> 'c outbound \<Rightarrow> ('c, 's) raft_node \<times> 'm \<Rightarrow>
     ('c, 's) raft_node \<times> 'm" where
  "install_all E M [] s = s"
| "install_all E M ((_, InstallSnapshot req) # out) (f, m) =
     (case handle_install_snapshot E M f req m of (_, f', m') \<Rightarrow> install_all E M out (f', m'))"
| "install_all E M (_ # out) s = install_all E M out s"

section \<open>The follower's side\<close>

context durable_storage
begin

lemma term_update_fields:
  assumes "fine (storage f)" "t \<le> U64_MAX"
  obtains b f1 where "handle_term_update E f t = (Ok b, f1)" "fine (storage f1)" "rlog f1 = rlog f"
    "current_term f1 = max (current_term f) t" "pending_snapshot f1 = pending_snapshot f"
    "commit_index f1 = commit_index f" "last_applied f1 = last_applied f" "config f1 = config f"
proof (cases "current_term f < t")
  case True
  then obtain s1 s2 where "save_term E t (storage f) = (Ok (), s1)"
    "save_voted_for E None s1 = (Ok (), s2)" "fine s2"
    using save_term_vote [OF assms, of None] by blast
  with True show ?thesis
    using that [of True "f\<lparr>current_term := t, voted_for := None, role := Follower, leader_st := None,
      tracker := tracker_reset (tracker f), membership := rollback_change (membership f), storage := s2\<rparr>"]
    by (simp add: handle_term_update_def)
next
  case False
  then show ?thesis using that [of False f] assms by (simp add: handle_term_update_def)
qed

lemma append_entries_result:
  assumes "fine (storage f)" "ae_term req \<le> U64_MAX" "current_term f \<le> ae_term req"
    and app: "log_append_entries (rlog f) (prev_log_index req) (prev_log_term req) (ae_entries req) = (ok, L)"
  obtains f' where "handle_append_entries E f req = (Ok \<lparr>aer_term = ae_term req, aer_success = ok,
      aer_match_index = (if ok then last_index L else 0)\<rparr>, f')"
    "rlog f' = L" "current_term f' = ae_term req" "fine (storage f')"
proof -
  obtain b f1 where f1: "handle_term_update E f (ae_term req) = (Ok b, f1)" "fine (storage f1)"
    "rlog f1 = rlog f" "current_term f1 = ae_term req"
    using term_update_fields [OF assms(1,2)] assms(3) by (metis max.absorb2)
  obtain r f' where eq: "handle_append_entries E f req = (r, f')" by fastforce
  have "r = Ok \<lparr>aer_term = ae_term req, aer_success = ok, aer_match_index = (if ok then last_index L else 0)\<rparr>
      \<and> rlog f' = L \<and> current_term f' = ae_term req \<and> fine (storage f')"
    using eq f1(2-4) app by (auto simp: handle_append_entries_def f1(1) Let_def split: if_splits)
  with eq that show ?thesis by blast
qed

end

section \<open>One round\<close>

text \<open>The request a leader builds for a peer, when no snapshot is needed.\<close>

lemma replicate_request:
  assumes "role n = Leader" "leader_st n = Some l" "hm_get (next_index l) p = Some i" "0 < i"
    "log_offset (rlog n) = 0"
  obtains req where "replicate_to_peer n p = [(p, AppendEntries req)]"
    "ae_term req = current_term n" "prev_log_index req = i - 1"
    "prev_log_term req = (if i - 1 > 0 then (case term_at (rlog n) (i - 1) of None \<Rightarrow> 0 | Some t \<Rightarrow> t) else 0)"
    "ae_entries req = entries_from (rlog n) i"
  using assms by (simp add: replicate_to_peer_def Let_def)

text \<open>
  If the follower accepts, and the two logs satisfy the log matching property, the logs
  agree from then on, up to the leader's last entry.
\<close>

lemma accepted_logs_agree:
  assumes n: "log_wf N" "log_offset N = 0" and f: "log_offset F = 0" and match: "log_matching N F"
    and i: "0 < i" "i \<le> last_index N + 1"
    and t: "i - 1 > 0 \<Longrightarrow> term_at N (i - 1) = Some t"
    and ok: "log_append_entries F (i - 1) t (entries_from N i) = (True, F')"
    and j: "0 < j" "j \<le> last_index N"
  shows "log_get F' j = log_get N j"
proof -
  have cont: "contiguous (i - 1) (entries_from N i)" using contiguous_entries_from [OF n(1), of "i - 1"] i by simp
  have len: "length (entries_from N i) = last_index N - (i - 1)" using i n by (simp add: length_entries_from)
  have inN: "0 < k \<Longrightarrow> k \<le> last_index N \<Longrightarrow> log_get N k \<noteq> None" for k
    using n(2) by (simp add: log_get_None_iff)
  show ?thesis
  proof (cases "i \<le> j")
    case True
    have nth: "i \<le> k \<Longrightarrow> k \<le> last_index N \<Longrightarrow> log_get N k = Some (entries_from N i ! (k - (i - 1) - 1))" for k
      using entries_from_nth [of "k - i" N i] i(1) by (simp add: len)
    have "log_get F' j = Some (entries_from N i ! (j - (i - 1) - 1))"
    proof (rule append_entries_agree_high [OF ok cont])
      fix k a b
      assume k: "i - 1 < k" "log_get F k = Some a" "k - (i - 1) - 1 < length (entries_from N i)"
        "b = entries_from N i ! (k - (i - 1) - 1)" "e_term a = e_term b"
      have "i \<le> k" "k \<le> last_index N" using k(1,3) len by simp_all
      then have b: "log_get N k = Some b" using nth k(4) by simp
      have "term_at F k = Some (e_term a)" "term_at N k = Some (e_term a)"
        using k(1,2,5) b f n(2) by (simp_all add: term_at_above)
      then show "a = b" using log_matchingD [OF match _ _ le_refl b k(2)] by simp
    qed (use True j f len in simp_all)
    then show ?thesis using nth [of j] True j(2) by simp
  next
    case False
    then have prev: "i - 1 > 0" "j \<le> i - 1" using j by simp_all
    have tF: "term_at F (i - 1) = Some t"
      using ok prev by (auto simp: log_append_entries_def split: if_splits)
    have low: "log_get F' j = log_get F j" using log_get_append_entries_low [OF ok cont prev(2)] .
    obtain a where a: "log_get N j = Some a" using inN [of j] j by auto
    have "i - 1 \<le> last_index F" using term_at_Some_bounds [OF tF] by simp
    then obtain b where b: "log_get F j = Some b" using f prev j(1) by (cases "log_get F j") (auto simp: log_get_None_iff)
    from log_matchingD [OF match t [OF prev(1)] tF prev(2) a b] show ?thesis using low a b by simp
  qed
qed

section \<open>Catching up\<close>

text \<open>The leader's bookkeeping while it serves a peer that rejects.\<close>

definition serving ::
  "'c raft_log \<Rightarrow> nat \<Rightarrow> node_id \<Rightarrow> nat \<Rightarrow> ('c, 's) raft_node \<Rightarrow> bool" where
  "serving L t p i n \<longleftrightarrow> role n = Leader \<and> rlog n = L \<and> current_term n = t
     \<and> pending (membership n) = None
     \<and> (\<exists>l. leader_st n = Some l \<and> hm_get (next_index l) p = Some i)"

lemma commit_no_pending:
  "pending (membership n) = None \<Longrightarrow> commit_membership_change_if_pending E n i = (False, n)"
  by (simp add: commit_membership_change_if_pending_def)

lemma serving_advance:
  assumes "serving L t p i n" shows "serving L t p i (advance_commit_index E n)"
  using assms by (auto simp: serving_def advance_commit_index_def commit_no_pending Let_def)

definition stepped_next :: "bool \<Rightarrow> nat \<Rightarrow> nat \<Rightarrow> nat" where
  "stepped_next ok m i = (if ok then m + 1 else if i > 1 then i - 1 else i)"

lemma serving_response:
  fixes E :: "('s, 'c) raft_env" and n :: "('c, 's) raft_node"
  assumes "serving L t p i n" "aer_term resp \<le> t"
  defines "n' \<equiv> snd (handle_append_entries_response E n p resp)"
  shows "serving L t p (stepped_next (aer_success resp) (aer_match_index resp) i) n'"
proof -
  obtain l where l: "role n = Leader" "rlog n = L" "current_term n = t" "pending (membership n) = None"
    "leader_st n = Some l" "hm_get (next_index l) p = Some i"
    using assms(1) by (auto simp: serving_def)
  define l' where "l' = (if aer_success resp
      then \<lparr>next_index = hm_insert p (aer_match_index resp + 1) (next_index l),
            match_index = hm_insert p (aer_match_index resp) (match_index l)\<rparr>
      else if i > 1 then l\<lparr>next_index := hm_insert p (i - 1) (next_index l)\<rparr> else l)"
  have "n' = advance_commit_index E (n\<lparr>leader_st := Some l'\<rparr>)"
    using l assms(2) by (simp add: n'_def handle_append_entries_response_def handle_term_update_def l'_def Let_def)
  moreover have "serving L t p (stepped_next (aer_success resp) (aer_match_index resp) i) (n\<lparr>leader_st := Some l'\<rparr>)"
    using l by (simp add: serving_def l'_def stepped_next_def)
  ultimately show ?thesis by (simp add: serving_advance)
qed

context durable_storage
begin

text \<open>A round either succeeds, and then the logs agree, or moves \<open>next_index\<close> one step down.\<close>

lemma sync_round_cases:
  assumes n: "serving L t p i n" and L: "log_wf L" "log_offset L = 0" and i: "0 < i" "i \<le> last_index L + 1"
    and f: "fine (storage f)" "current_term f \<le> t" "t \<le> U64_MAX" "log_offset (rlog f) = 0"
      "log_matching L (rlog f)"
  obtains (agree) n' f' i' where "sync_round E p (n, f) = (n', f')" "serving L t p i' n'"
      "\<And>j. 0 < j \<Longrightarrow> j \<le> last_index L \<Longrightarrow> log_get (rlog f') j = log_get L j"
  | (step_back) n' f' where "sync_round E p (n, f) = (n', f')" "serving L t p (i - 1) n'" "1 < i"
      "rlog f' = rlog f" "fine (storage f')" "current_term f' = t"
proof -
  obtain l where l: "role n = Leader" "rlog n = L" "current_term n = t"
    "leader_st n = Some l" "hm_get (next_index l) p = Some i"
    using n by (auto simp: serving_def)
  obtain req where req: "replicate_to_peer n p = [(p, AppendEntries req)]" "ae_term req = t"
    "prev_log_index req = i - 1"
    "prev_log_term req = (if i - 1 > 0 then (case term_at L (i - 1) of None \<Rightarrow> 0 | Some t \<Rightarrow> t) else 0)"
    "ae_entries req = entries_from L i"
    using replicate_request [OF l(1,4,5) i(1)] l(2,3) L(2) by metis
  obtain ok F where app: "log_append_entries (rlog f) (i - 1) (prev_log_term req) (entries_from L i) = (ok, F)"
    by fastforce
  obtain f' where f': "handle_append_entries E f req = (Ok \<lparr>aer_term = t, aer_success = ok,
      aer_match_index = (if ok then last_index F else 0)\<rparr>, f')"
    "rlog f' = F" "current_term f' = t" "fine (storage f')"
    using append_entries_result [OF f(1), of req ok F] req(2,3,5) f(2,3) app by metis
  define n' where "n' = snd (handle_append_entries_response E n p
      \<lparr>aer_term = t, aer_success = ok, aer_match_index = (if ok then last_index F else 0)\<rparr>)"
  have round: "sync_round E p (n, f) = (n', f')" by (simp add: sync_round_def req(1) f'(1) n'_def)
  have serv: "serving L t p (stepped_next ok (if ok then last_index F else 0) i) n'"
    using serving_response [OF n, of "\<lparr>aer_term = t, aer_success = ok,
      aer_match_index = (if ok then last_index F else 0)\<rparr>" E] unfolding n'_def by simp
  show ?thesis
  proof (cases ok)
    case True
    have tt: "i - 1 > 0 \<Longrightarrow> term_at L (i - 1) = Some (prev_log_term req)"
      using i L(2) req(4) by (cases "term_at L (i - 1)") (auto simp: term_at_above log_get_None_iff)
    show ?thesis
    proof (rule agree [OF round serv])
      fix j assume "0 < j" "j \<le> last_index L"
      then show "log_get (rlog f') j = log_get L j"
        using accepted_logs_agree [OF L f(4,5) i tt] app True f'(2) by simp
    qed
  next
    case False
    have "i > 1"
    proof (rule ccontr)
      assume "\<not> i > 1"
      then have "i - 1 = 0" by simp
      then show False using app False by (simp add: log_append_entries_def)
    qed
    moreover have "F = rlog f" using app False by (auto simp: log_append_entries_def split: if_splits)
    ultimately show ?thesis using step_back [OF round] serv False f'(2-4) by (simp add: stepped_next_def)
  qed
qed

lemma sync_catches_up:
  assumes n: "serving L t p i n" and L: "log_wf L" "log_offset L = 0" and i: "0 < i" "i \<le> last_index L + 1"
    and f: "fine (storage f)" "current_term f \<le> t" "t \<le> U64_MAX" "log_offset (rlog f) = 0"
      "log_matching L (rlog f)"
  shows "\<exists>k \<le> i. \<exists>n' f' i'. (sync_round E p ^^ k) (n, f) = (n', f') \<and> serving L t p i' n'
    \<and> (\<forall>j. 0 < j \<longrightarrow> j \<le> last_index L \<longrightarrow> log_get (rlog f') j = log_get L j)"
  using n i f
proof (induction i arbitrary: n f)
  case 0
  then show ?case by simp
next
  case (Suc i)
  show ?case
  proof (cases rule: sync_round_cases [OF Suc.prems(1) L Suc.prems(2,3) Suc.prems(4-8)])
    case (1 n' f' i')
    then show ?thesis by (intro exI [of _ 1]) auto
  next
    case (2 n' f')
    then have "\<exists>k \<le> i. \<exists>n'' f'' i'. (sync_round E p ^^ k) (n', f') = (n'', f'') \<and> serving L t p i' n''
        \<and> (\<forall>j. 0 < j \<longrightarrow> j \<le> last_index L \<longrightarrow> log_get (rlog f'') j = log_get L j)"
      using Suc.IH [of n' f'] Suc.prems by simp
    then obtain k n'' f'' i' where k: "k \<le> i" "(sync_round E p ^^ k) (n', f') = (n'', f'')"
      "serving L t p i' n''" "\<forall>j. 0 < j \<longrightarrow> j \<le> last_index L \<longrightarrow> log_get (rlog f'') j = log_get L j"
      by blast
    have "(sync_round E p ^^ Suc k) (n, f) = (n'', f'')"
      using 2(1) k(2) by (simp add: funpow_swap1)
    then show ?thesis using k by (intro exI [of _ "Suc k"]) auto
  qed
qed

end

section \<open>Transferring a snapshot\<close>

text \<open>What a completed installation of \<open>snap\<close> leaves behind.\<close>

definition installed :: "snapshot \<Rightarrow> ('c, 's) raft_node \<Rightarrow> bool" where
  "installed snap f \<longleftrightarrow> log_offset (rlog f) = last_included_index snap
     \<and> term_at (rlog f) (last_included_index snap) = Some (last_included_term snap)
     \<and> last_included_index snap \<le> commit_index f \<and> last_included_index snap \<le> last_applied f
     \<and> pending_snapshot f = None \<and> last_snapshot f = Some snap"

definition snapshot_request :: "nat \<Rightarrow> node_id \<Rightarrow> snapshot \<Rightarrow> nat \<times> byte list \<times> bool \<Rightarrow> install_snapshot" where
  "snapshot_request t ldr snap c = \<lparr>is_term = t, is_leader_id = ldr,
     is_last_included_index = last_included_index snap, is_last_included_term = last_included_term snap,
     is_offset = fst c, is_data = fst (snd c), is_done = snd (snd c)\<rparr>"

lemma snapshot_message_request:
  "snapshot_message n snap off d dn = InstallSnapshot (snapshot_request (current_term n) (node_id n) snap (off, d, dn))"
  by (simp add: snapshot_message_def snapshot_request_def)

lemma install_log:
  fixes L :: "'c raft_log" and t :: nat
  assumes "0 < idx"
  defines "L' \<equiv> (if term_at L idx = Some t then compact_to L idx else reset_to_snapshot L idx t)"
  shows "log_offset L' = idx" "term_at L' idx = Some t"
proof -
  have "log_offset L' = idx \<and> term_at L' idx = Some t"
  proof (cases "term_at L idx = Some t")
    case True
    then have b: "log_offset L \<le> idx" "idx \<le> last_index L" using term_at_Some_bounds by blast+
    show ?thesis
    proof (cases "log_offset L = idx")
      case eq: True
      then have "compact_to L idx = L" by (simp add: compact_to_def)
      then show ?thesis using True eq by (simp add: L'_def)
    next
      case False
      then show ?thesis using True b term_at_compact [of L idx idx] by (simp add: L'_def log_offset_compact)
    qed
  next
    case False
    then show ?thesis using assms(1) by (simp add: L'_def reset_to_snapshot_def term_at_def)
  qed
  then show "log_offset L' = idx" "term_at L' idx = Some t" by simp_all
qed

lemma snapshot_chunks_Cons:
  assumes "0 < chunk" "off < length data"
  defines "e \<equiv> min (off + chunk) (length data)"
  obtains cs where "snapshot_chunks chunk data e = Some cs" "off < e" "e \<le> length data"
    "snapshot_chunks chunk data off = Some ((off, take (e - off) (drop off data), length data \<le> e) # cs)"
    "take off data @ take (e - off) (drop off data) = take e data"
    "length data \<le> e \<Longrightarrow> cs = []"
proof -
  obtain cs where cs: "snapshot_chunks chunk data e = Some cs" using snapshot_chunks_returns [OF assms(1)] by blast
  have e: "off < e" "e \<le> length data" using assms by auto
  have "take off data @ take (e - off) (drop off data) = take e data"
    using e(1) take_add [of off "e - off" data] by simp
  moreover have "length data \<le> e \<Longrightarrow> cs = []" using cs by (simp add: snapshot_chunks.simps [of chunk data e])
  moreover have "snapshot_chunks chunk data off = Some ((off, take (e - off) (drop off data), length data \<le> e) # cs)"
    using cs assms(2) unfolding e_def by (simp add: snapshot_chunks.simps [of chunk data off] Let_def)
  ultimately show ?thesis using that cs e by blast
qed

context durable_storage
begin

lemma install_step:
  assumes f: "fine (storage f)" "current_term f \<le> t" "t \<le> U64_MAX"
    and req: "is_term req = t" "receive_chunk (pending_snapshot f) req = Some buf"
  shows "\<not> is_done req \<Longrightarrow> \<exists>r f'. handle_install_snapshot E M f req m = (r, f', m)
      \<and> fine (storage f') \<and> current_term f' = t \<and> pending_snapshot f' = Some buf"
    and "is_done req \<Longrightarrow> 0 < is_last_included_index req \<Longrightarrow> sm_restore M buf m = (Ok (), m') \<Longrightarrow>
      \<exists>r f'. handle_install_snapshot E M f req m = (Ok r, f', m')
      \<and> installed \<lparr>last_included_index = is_last_included_index req,
          last_included_term = is_last_included_term req, snap_data = buf\<rparr> f'"
proof -
  obtain b f1 where f1: "handle_term_update E f t = (Ok b, f1)" "fine (storage f1)" "rlog f1 = rlog f"
    "current_term f1 = t" "pending_snapshot f1 = pending_snapshot f"
    using term_update_fields [OF f(1,3)] f(2) by (metis max.absorb2)
  define f2 where "f2 = f1\<lparr>role := Follower, current_leader := Some (is_leader_id req),
      leader_st := None, tracker := tracker_reset (tracker f1)\<rparr>"
  have eq: "handle_install_snapshot E M f req m =
      (if \<not> is_done req then (Ok \<lparr>isr_term = t\<rparr>, f2\<lparr>pending_snapshot := Some buf\<rparr>, m)
       else finish_install E M (f2\<lparr>pending_snapshot := None\<rparr>) req buf m)"
    using f1 req unfolding handle_install_snapshot_def f2_def Let_def by simp
  show "\<not> is_done req \<Longrightarrow> \<exists>r f'. handle_install_snapshot E M f req m = (r, f', m)
      \<and> fine (storage f') \<and> current_term f' = t \<and> pending_snapshot f' = Some buf"
    using f1 by (simp add: eq f2_def)
  assume fin: "is_done req" "0 < is_last_included_index req" "sm_restore M buf m = (Ok (), m')"
  obtain st where st: "save_snapshot E buf (is_last_included_index req) (is_last_included_term req) (storage f1) = (Ok (), st)"
    using save_snapshot_ok [OF f1(2)] by blast
  let ?L = "if term_at (rlog f1) (is_last_included_index req) = Some (is_last_included_term req)
    then compact_to (rlog f1) (is_last_included_index req)
    else reset_to_snapshot (rlog f1) (is_last_included_index req) (is_last_included_term req)"
  note L = install_log [OF fin(2), of "rlog f1" "is_last_included_term req"]
  obtain f' where f': "finish_install E M (f2\<lparr>pending_snapshot := None\<rparr>) req buf m = (Ok \<lparr>isr_term = t\<rparr>, f', m')"
    "rlog f' = ?L" "pending_snapshot f' = None" "is_last_included_index req \<le> commit_index f'"
    "is_last_included_index req \<le> last_applied f'"
    "last_snapshot f' = Some \<lparr>last_included_index = is_last_included_index req,
          last_included_term = is_last_included_term req, snap_data = buf\<rparr>"
    using st fin(3) f1(4) by (simp add: finish_install_def f2_def Let_def)
  then show "\<exists>r f'. handle_install_snapshot E M f req m = (Ok r, f', m')
      \<and> installed \<lparr>last_included_index = is_last_included_index req,
          last_included_term = is_last_included_term req, snap_data = buf\<rparr> f'"
    using fin(1) L by (auto simp: eq installed_def)
qed

text \<open>The chunks from \<open>off\<close> on, once everything before \<open>off\<close> is buffered.\<close>

lemma install_chunks:
  assumes c: "0 < chunk" and t: "t \<le> U64_MAX" and idx: "0 < last_included_index snap"
    and rest: "sm_restore M (snap_data snap) m = (Ok (), m')"
    and f: "fine (storage f)" "current_term f \<le> t" "off < length (snap_data snap)"
      "off > 0 \<Longrightarrow> pending_snapshot f = Some (take off (snap_data snap))"
    and cs: "snapshot_chunks chunk (snap_data snap) off = Some cs"
  shows "\<exists>f'. install_all E M (map (\<lambda>c. (p, InstallSnapshot (snapshot_request t ldr snap c))) cs) (f, m) = (f', m')
    \<and> installed snap f'"
  using f cs
proof (induction "length (snap_data snap) - off" arbitrary: off f cs rule: less_induct)
  case less
  let ?d = "snap_data snap" and ?e = "min (off + chunk) (length (snap_data snap))"
  obtain cs' where cs': "snapshot_chunks chunk ?d ?e = Some cs'" "off < ?e" "?e \<le> length ?d"
    "snapshot_chunks chunk ?d off = Some ((off, take (?e - off) (drop off ?d), length ?d \<le> ?e) # cs')"
    "take off ?d @ take (?e - off) (drop off ?d) = take ?e ?d" "length ?d \<le> ?e \<Longrightarrow> cs' = []"
    using snapshot_chunks_Cons [OF c less.prems(3)] by blast
  define req where "req = snapshot_request t ldr snap (off, take (?e - off) (drop off ?d), length ?d \<le> ?e)"
  have cs: "cs = (off, take (?e - off) (drop off ?d), length ?d \<le> ?e) # cs'" using cs'(4) less.prems(5) by simp
  have out: "map (\<lambda>c. (p, InstallSnapshot (snapshot_request t ldr snap c))) cs
      = (p, InstallSnapshot req) # map (\<lambda>c. (p, InstallSnapshot (snapshot_request t ldr snap c))) cs'"
    unfolding cs req_def by (simp only: list.map)
  have buf: "receive_chunk (pending_snapshot f) req = Some (take ?e ?d)"
    using less.prems(4) cs'(5) by (simp add: receive_chunk_def req_def snapshot_request_def)
  have rt: "is_term req = t" by (simp add: req_def snapshot_request_def)
  show ?case
  proof (cases "length ?d \<le> ?e")
    case True
    then have "is_done req" "take ?e ?d = ?d" "cs' = []" "0 < is_last_included_index req"
      using cs'(6) idx by (simp_all add: req_def snapshot_request_def)
    moreover have "\<lparr>last_included_index = is_last_included_index req,
        last_included_term = is_last_included_term req, snap_data = ?d\<rparr> = snap"
      by (simp add: req_def snapshot_request_def)
    ultimately obtain r f' where "handle_install_snapshot E M f req m = (Ok r, f', m')" "installed snap f'"
      using install_step(2) [OF less.prems(1,2) t rt buf] rest by metis
    then show ?thesis using \<open>cs' = []\<close> by (simp add: out)
  next
    case False
    then have nd: "\<not> is_done req" by (simp add: req_def snapshot_request_def)
    from False have e': "?e < length ?d" by linarith
    obtain r f1 where f1: "handle_install_snapshot E M f req m = (r, f1, m)" "fine (storage f1)"
      "current_term f1 = t" "pending_snapshot f1 = Some (take ?e ?d)"
      using install_step(1) [OF less.prems(1,2) t rt buf nd, where M = M and m = m] by (elim exE conjE)
    have dec: "length ?d - ?e < length ?d - off" by (rule diff_less_mono2 [OF cs'(2) less.prems(3)])
    have "\<exists>f'. install_all E M (map (\<lambda>c. (p, InstallSnapshot (snapshot_request t ldr snap c))) cs') (f1, m) = (f', m')
        \<and> installed snap f'"
      by (rule less.hyps [OF dec f1(2) _ e' f1(4) cs'(1)]) (simp add: f1(3))
    then show ?thesis using f1(1) by (simp add: out)
  qed
qed

lemma snapshot_transferred:
  assumes lead: "last_snapshot n = Some snap" "0 < snapshot_chunk_size (config n)"
      "current_term n \<le> U64_MAX" "0 < last_included_index snap"
    and f: "fine (storage f)" "current_term f \<le> current_term n"
    and rest: "sm_restore M (snap_data snap) m = (Ok (), m')"
  shows "\<exists>f'. install_all E M (send_snapshot_to_peer n p) (f, m) = (f', m') \<and> installed snap f'"
proof (cases "snap_data snap = []")
  case True
  define req where "req = snapshot_request (current_term n) (node_id n) snap (0, [], True)"
  have "is_term req = current_term n" "receive_chunk (pending_snapshot f) req = Some []" "is_done req"
    "0 < is_last_included_index req"
    using lead(4) by (simp_all add: req_def snapshot_request_def receive_chunk_def)
  then obtain r f' where f': "handle_install_snapshot E M f req m = (Ok r, f', m')"
    "installed \<lparr>last_included_index = is_last_included_index req, last_included_term = is_last_included_term req,
        snap_data = []\<rparr> f'"
    using install_step(2) [OF f lead(3)] rest True by metis
  moreover have "\<lparr>last_included_index = is_last_included_index req,
      last_included_term = is_last_included_term req, snap_data = []\<rparr> = snap"
    using True by (simp add: req_def snapshot_request_def)
  ultimately show ?thesis
    using True lead(1) by (simp add: send_snapshot_to_peer_def snapshot_message_request req_def [symmetric])
next
  case False
  obtain cs where cs: "snapshot_chunks (snapshot_chunk_size (config n)) (snap_data snap) 0 = Some cs"
    using snapshot_chunks_returns [OF lead(2)] by blast
  have "send_snapshot_to_peer n p
      = map (\<lambda>c. (p, InstallSnapshot (snapshot_request (current_term n) (node_id n) snap c))) cs"
    using False lead(1) cs by (simp add: send_snapshot_to_peer_def snapshot_message_request case_prod_beta)
  then show ?thesis
    using install_chunks [OF lead(2,3,4) rest f _ _ cs] False by simp
qed

end

section \<open>Properties\<close>

text \<open>
  C2. A follower catches up: if the leader's and the follower's log satisfy the log
  matching property, then after at most \<open>next_index\<close> rounds of \<^verbatim>\<open>AppendEntries\<close> and response
  (each rejection moves \<^verbatim>\<open>next_index\<close> one step back) the follower holds every entry of the
  leader's log, whatever its log was before; the leader keeps its role and its log.
\<close>

theorem follower_catches_up:
  assumes "role n = Leader" "leader_st n = Some l" "hm_get (next_index l) p = Some i"
    and "0 < i" "i \<le> last_index (rlog n) + 1" "pending (membership n) = None"
    and "log_wf (rlog n)" "log_offset (rlog n) = 0" "log_offset (rlog f) = 0"
    and "log_matching (rlog n) (rlog f)" "fs_fine (storage f)"
    and "current_term f \<le> current_term n" "current_term n \<le> U64_MAX"
  shows "\<exists>k \<le> i. \<exists>n' f'. (sync_round (file_env to_json from_json scale) p ^^ k) (n, f) = (n', f')
    \<and> role n' = Leader \<and> rlog n' = rlog n
    \<and> (\<forall>j. 0 < j \<longrightarrow> j \<le> last_index (rlog n) \<longrightarrow> log_get (rlog f') j = log_get (rlog n) j)"
proof -
  have "serving (rlog n) (current_term n) p i n" using assms(1-3,6) by (simp add: serving_def)
  from fs.sync_catches_up [OF this assms(7,8,4,5,11,12,13,9,10), of to_json from_json scale]
  obtain k n' f' i' where "k \<le> i" "(sync_round (file_env to_json from_json scale) p ^^ k) (n, f) = (n', f')"
    "serving (rlog n) (current_term n) p i' n'"
    "\<forall>j. 0 < j \<longrightarrow> j \<le> last_index (rlog n) \<longrightarrow> log_get (rlog f') j = log_get (rlog n) j"
    by (elim exE conjE)
  then show ?thesis unfolding serving_def by blast
qed

definition sample_peer :: "'c raft_log \<Rightarrow> ('c, file_storage) raft_node" where
  "sample_peer L = \<lparr>config = raft_config_default\<lparr>cfg_node_id := 2, cfg_peers := [1]\<rparr>,
     role = Follower, current_term = 1, voted_for = None, rlog = L, commit_index = 0,
     last_applied = 0, leader_st = None, current_leader = None, tracker = tracker_new 2,
     storage = file_storage_new, last_snapshot = None, pending_snapshot = None,
     membership = membership_new 2 [1], cached_election_timeout = 150\<rparr>"

theorem follower_catches_up_witness:
  "let E = file_env (\<lambda>_. Err ''none'') (\<lambda>_. Err ''none'') (\<lambda>_ _ _. 0);
       n = (sample_peer sample_log)\<lparr>role := Leader, current_term := 2,
             leader_st := Some \<lparr>next_index = [(2, 3)], match_index = [(2, 0)]\<rparr>\<rparr>
   in \<exists>k \<le> 3. \<exists>n' f'. (sync_round E 2 ^^ k) (n, sample_peer log_new) = (n', f')
        \<and> log_get (rlog f') 3 = Some \<lparr>e_term = 2, e_index = 3, e_command = 9\<rparr>"
proof -
  define n where "n = (sample_peer sample_log)\<lparr>role := Leader, current_term := 2,
      leader_st := Some \<lparr>next_index = [(2, 3)], match_index = [(2, 0)]\<rparr>\<rparr>"
  have f: "rlog n = sample_log" "role n = Leader" "current_term n = 2" "pending (membership n) = None"
    "leader_st n = Some \<lparr>next_index = [(2, 3)], match_index = [(2, 0)]\<rparr>"
    by (simp_all add: n_def sample_peer_def membership_new_def)
  have g: "rlog (sample_peer log_new) = (log_new :: nat raft_log)" "current_term (sample_peer (log_new :: nat raft_log)) = 1"
    "fs_fine (storage (sample_peer (log_new :: nat raft_log)))"
    by (simp_all add: sample_peer_def fs_fine_def file_storage_new_def)
  have wf: "log_wf sample_log" by (simp add: log_wf_def sample_log_def from_entries_def)
  have match: "log_matching sample_log log_new"
    by (auto simp: log_matching_def term_at_def log_get_def log_new_def to_internal_def Let_def split: if_splits)
  have off: "log_offset (log_new :: nat raft_log) = 0" by (simp add: log_new_def)
  have "\<exists>k \<le> 3. \<exists>n' f'. (sync_round (file_env (\<lambda>_. Err ''none'') (\<lambda>_. Err ''none'') (\<lambda>_ _ _. 0)) 2 ^^ k)
        (n, sample_peer log_new) = (n', f') \<and> role n' = Leader \<and> rlog n' = rlog n
      \<and> (\<forall>j. 0 < j \<longrightarrow> j \<le> last_index (rlog n) \<longrightarrow> log_get (rlog f') j = log_get (rlog n) j)"
    by (rule follower_catches_up [OF f(2,5)]) (use g in \<open>simp_all add: f sample_log_facts wf match off\<close>)
  then have "\<exists>k \<le> 3. \<exists>n' f'. (sync_round (file_env (\<lambda>_. Err ''none'') (\<lambda>_. Err ''none'') (\<lambda>_ _ _. 0)) 2 ^^ k)
        (n, sample_peer log_new) = (n', f') \<and> log_get (rlog f') 3 = Some \<lparr>e_term = 2, e_index = 3, e_command = 9\<rparr>"
    by (fastforce simp: f sample_log_facts sample_log_get)
  then show ?thesis by (simp add: n_def Let_def)
qed

text \<open>
  C22. A snapshot arrives intact: the chunks a leader sends of its snapshot of the cluster
  state \<open>st\<close>, delivered in order to a follower in any earlier state (a half-received older
  snapshot included), restore exactly \<open>st\<close> in the follower's state machine, leave no
  partial buffer, and place the follower's log at the snapshot's index and term, so that
  the next \<^verbatim>\<open>AppendEntries\<close> passes its consistency check. Of \<^verbatim>\<open>serde_json\<close> it is assumed that
  \<open>st\<close> is read back from its encoding.
\<close>

theorem snapshot_transfer:
  assumes "last_snapshot n = Some snap" "snap_data snap = cluster_snapshot to_vec st"
    and "0 < snapshot_chunk_size (config n)" "current_term n \<le> U64_MAX" "0 < last_included_index snap"
    and "fs_fine (storage f)" "current_term f \<le> current_term n"
    and serde: "to_vec st \<noteq> []" "from_slice (to_vec st) = Ok st"
  shows "\<exists>f'. install_all (file_env to_json from_json scale) (cluster_state_machine to_vec from_slice)
           (send_snapshot_to_peer n p) (f, m) = (f', st)
    \<and> pending_snapshot f' = None \<and> last_included_index snap \<le> last_applied f'
    \<and> fst (log_append_entries (rlog f') (last_included_index snap) (last_included_term snap) es)"
proof -
  have "sm_restore (cluster_state_machine to_vec from_slice) (snap_data snap) m = (Ok (), st)"
    using serde assms(2) by (simp add: cluster_state_machine_def cluster_snapshot_def cluster_restore_def)
  from fs.snapshot_transferred [OF assms(1,3,4,5,6,7) this, of to_json from_json scale p]
  show ?thesis by (auto simp: installed_def log_append_entries_def)
qed

theorem snapshot_transfer_witness:
  "let E = file_env (\<lambda>_. Err ''none'') (\<lambda>_. Err ''none'') (\<lambda>_ _ _. 0);
       st = cluster_apply (ServerAdded 7 ''10.0.0.7:1'') cluster_state_new;
       M = cluster_state_machine (\<lambda>_. ''abc'') (\<lambda>_. Ok st);
       n = (sample_peer log_new)\<lparr>config := raft_config_default\<lparr>snapshot_chunk_size := 2\<rparr>,
             last_snapshot := Some \<lparr>last_included_index = 4, last_included_term = 1, snap_data = ''abc''\<rparr>\<rparr>
   in \<exists>f'. install_all E M (send_snapshot_to_peer n 2) (sample_peer log_new, cluster_state_new) = (f', st)
        \<and> pending_snapshot f' = None \<and> 4 \<le> last_applied f'"
proof -
  define st where "st = cluster_apply (ServerAdded 7 ''10.0.0.7:1'') cluster_state_new"
  define n :: "(cluster_command, file_storage) raft_node" where
    "n = (sample_peer log_new)\<lparr>config := raft_config_default\<lparr>snapshot_chunk_size := 2\<rparr>,
      last_snapshot := Some \<lparr>last_included_index = 4, last_included_term = 1, snap_data = ''abc''\<rparr>\<rparr>"
  have "\<exists>f'. install_all (file_env (\<lambda>_. Err ''none'') (\<lambda>_. Err ''none'') (\<lambda>_ _ _. 0))
          (cluster_state_machine (\<lambda>_. ''abc'') (\<lambda>_. Ok st)) (send_snapshot_to_peer n 2)
          (sample_peer log_new, cluster_state_new) = (f', st)
      \<and> pending_snapshot f' = None
      \<and> last_included_index \<lparr>last_included_index = 4, last_included_term = 1, snap_data = ''abc''\<rparr> \<le> last_applied f'
      \<and> fst (log_append_entries (rlog f')
          (last_included_index \<lparr>last_included_index = 4, last_included_term = 1, snap_data = ''abc''\<rparr>)
          (last_included_term \<lparr>last_included_index = 4, last_included_term = 1, snap_data = ''abc''\<rparr>) [])"
    by (rule snapshot_transfer)
      (simp_all add: n_def sample_peer_def cluster_snapshot_def raft_config_default_def fs_fine_def file_storage_new_def)
  then show ?thesis by (auto simp: st_def n_def Let_def)
qed

end
