(* ===== verification/Names.thy ===== *)
theory Names
  imports Prelude
begin

text \<open>
  The types of \<^verbatim>\<open>pirc-common\<close> shared by client and server: validated nicknames and channel
  names, channel and user modes, group membership, identifiers
  (\<^verbatim>\<open>types/nickname.rs\<close>, \<^verbatim>\<open>types/channel.rs\<close>, \<^verbatim>\<open>types/mode.rs\<close>, \<^verbatim>\<open>types/group.rs\<close>,
  \<^verbatim>\<open>types/identifiers.rs\<close>).

  A string is its UTF-8 bytes; \<open>utf8_chars\<close> gives the code points \<^verbatim>\<open>str::chars\<close> iterates over.
\<close>

section \<open>Nicknames\<close>

datatype nickname_error =
    NickEmpty
  | NickTooLong nat
  | InvalidFirstChar nat
  | NickInvalidChar nat nat

text \<open>The code points of \<^verbatim>\<open>_ \ ` [ ] { } ^ |\<close>.\<close>

definition is_valid_first_char :: "nat \<Rightarrow> bool" where
  "is_valid_first_char c \<longleftrightarrow> is_ascii_alphabetic c \<or> c \<in> {95, 92, 96, 91, 93, 123, 125, 94, 124}"

definition is_valid_subsequent_char :: "nat \<Rightarrow> bool" where
  "is_valid_subsequent_char c \<longleftrightarrow> is_valid_first_char c \<or> is_ascii_digit c \<or> c = 45"

fun validate_subsequent :: "nat \<Rightarrow> nat list \<Rightarrow> nickname_error + unit" where
  "validate_subsequent i [] = Ok ()"
| "validate_subsequent i (c # cs) =
     (if \<not> is_valid_subsequent_char c then Err (NickInvalidChar c i)
      else validate_subsequent (i + 1) cs)"

definition validate_nickname :: "string \<Rightarrow> nickname_error + unit" where
  "validate_nickname s =
     (if s = [] then Err NickEmpty
      else if length s > 30 then Err (NickTooLong (length s))
      else case utf8_chars s of
        [] \<Rightarrow> Ok ()
      | c # cs \<Rightarrow>
          if \<not> is_valid_first_char c then Err (InvalidFirstChar c)
          else validate_subsequent 1 cs)"

definition nickname_new :: "string \<Rightarrow> nickname_error + string" where
  "nickname_new s = result_bind (validate_nickname s) (\<lambda>_. Ok s)"

text \<open>\<^verbatim>\<open>PartialEq\<close> and \<^verbatim>\<open>Hash\<close> (through the string that is hashed).\<close>

definition nickname_eq :: "string \<Rightarrow> string \<Rightarrow> bool" where
  "nickname_eq a b = eq_ignore_ascii_case a b"

definition nickname_hash_key :: "string \<Rightarrow> string" where
  "nickname_hash_key a = to_ascii_lowercase a"

section \<open>Channel names\<close>

datatype channel_name_error =
    ChanEmpty
  | MissingPrefix nat
  | TooShort
  | ChanTooLong nat
  | ChanInvalidChar nat nat

fun validate_channel_chars :: "nat \<Rightarrow> nat list \<Rightarrow> channel_name_error + unit" where
  "validate_channel_chars i [] = Ok ()"
| "validate_channel_chars i (c # cs) =
     (if c = 32 \<or> c = 44 \<or> is_control c then Err (ChanInvalidChar c i)
      else validate_channel_chars (i + 1) cs)"

definition validate_channel_name :: "string \<Rightarrow> channel_name_error + unit" where
  "validate_channel_name s =
     (case utf8_chars s of
        [] \<Rightarrow> Err ChanEmpty
      | first # cs \<Rightarrow>
          if first \<noteq> 35 then Err (MissingPrefix first)
          else if length s < 2 then Err TooShort
          else if length s > 50 then Err (ChanTooLong (length s))
          else validate_channel_chars 1 cs)"

definition channel_name_new :: "string \<Rightarrow> channel_name_error + string" where
  "channel_name_new s = result_bind (validate_channel_name s) (\<lambda>_. Ok s)"

definition name_without_prefix :: "string \<Rightarrow> string" where
  "name_without_prefix s = drop 1 s"

definition channel_name_eq :: "string \<Rightarrow> string \<Rightarrow> bool" where
  "channel_name_eq a b = eq_ignore_ascii_case a b"

definition channel_name_hash_key :: "string \<Rightarrow> string" where
  "channel_name_hash_key a = to_ascii_lowercase a"

section \<open>Modes\<close>

datatype channel_mode =
    InviteOnly | Moderated | NoExternalMessages | Secret | TopicProtected
  | KeyRequired string | UserLimit nat

fun channel_mode_char :: "channel_mode \<Rightarrow> char" where
  "channel_mode_char InviteOnly = CHR ''i''"
| "channel_mode_char Moderated = CHR ''m''"
| "channel_mode_char NoExternalMessages = CHR ''n''"
| "channel_mode_char Secret = CHR ''s''"
| "channel_mode_char TopicProtected = CHR ''t''"
| "channel_mode_char (KeyRequired _) = CHR ''k''"
| "channel_mode_char (UserLimit _) = CHR ''l''"

definition channel_mode_display :: "channel_mode \<Rightarrow> string" where
  "channel_mode_display m = [CHR ''+'', channel_mode_char m]"

datatype user_mode = Normal | Voiced | Operator | Admin

fun user_mode_char :: "user_mode \<Rightarrow> char option" where
  "user_mode_char Voiced = Some (CHR ''v'')"
| "user_mode_char Operator = Some (CHR ''o'')"
| "user_mode_char Normal = None"
| "user_mode_char Admin = None"

fun user_mode_display :: "user_mode \<Rightarrow> string" where
  "user_mode_display Normal = ''Normal''"
| "user_mode_display Voiced = ''+v''"
| "user_mode_display Operator = ''+o''"
| "user_mode_display Admin = ''Admin''"

text \<open>The derived order of the privilege levels is the order of declaration.\<close>

fun user_mode_rank :: "user_mode \<Rightarrow> nat" where
  "user_mode_rank Normal = 0"
| "user_mode_rank Voiced = 1"
| "user_mode_rank Operator = 2"
| "user_mode_rank Admin = 3"

instantiation user_mode :: linorder
begin

definition less_eq_user_mode :: "user_mode \<Rightarrow> user_mode \<Rightarrow> bool" where
  "less_eq_user_mode a b \<longleftrightarrow> user_mode_rank a \<le> user_mode_rank b"

definition less_user_mode :: "user_mode \<Rightarrow> user_mode \<Rightarrow> bool" where
  "less_user_mode a b \<longleftrightarrow> user_mode_rank a < user_mode_rank b"

instance
proof
  have inj: "user_mode_rank a = user_mode_rank b \<Longrightarrow> a = b" for a b
    by (cases a; cases b) simp_all
  fix x y z :: user_mode
  show "x \<le> y \<Longrightarrow> y \<le> x \<Longrightarrow> x = y" by (auto simp: less_eq_user_mode_def intro: inj)
qed (auto simp: less_eq_user_mode_def less_user_mode_def)

end

datatype group_member_role = Member | GroupAdmin

fun group_member_role_display :: "group_member_role \<Rightarrow> string" where
  "group_member_role_display Member = ''member''"
| "group_member_role_display GroupAdmin = ''admin''"

section \<open>Groups\<close>

type_synonym group_id = nat

definition group_id_from_str :: "string \<Rightarrow> group_id option" where
  "group_id_from_str s = parse_unsigned U64_MAX s"

definition group_id_display :: "group_id \<Rightarrow> string" where
  "group_id_display g = nat_to_string g"

record group_member =
  gm_nickname :: string
  gm_joined_at :: nat
  gm_role :: group_member_role

record group_membership =
  gr_group_id :: group_id
  gr_members :: "(string \<times> group_member) list"

definition group_membership_new :: "group_id \<Rightarrow> group_membership" where
  "group_membership_new g = \<lparr>gr_group_id = g, gr_members = []\<rparr>"

definition add_member :: "group_member \<Rightarrow> group_membership \<Rightarrow> group_member option \<times> group_membership" where
  "add_member m g = (hm_get (gr_members g) (gm_nickname m),
     g\<lparr>gr_members := hm_insert (gm_nickname m) m (gr_members g)\<rparr>)"

definition remove_member :: "string \<Rightarrow> group_membership \<Rightarrow> group_member option \<times> group_membership" where
  "remove_member nickname g = (hm_get (gr_members g) nickname,
     g\<lparr>gr_members := hm_remove nickname (gr_members g)\<rparr>)"

definition get_member :: "group_membership \<Rightarrow> string \<Rightarrow> group_member option" where
  "get_member g nickname = hm_get (gr_members g) nickname"

definition group_member_count :: "group_membership \<Rightarrow> nat" where
  "group_member_count g = length (gr_members g)"

definition group_contains :: "group_membership \<Rightarrow> string \<Rightarrow> bool" where
  "group_contains g nickname \<longleftrightarrow> hm_get (gr_members g) nickname \<noteq> None"

section \<open>Lemmas\<close>

text \<open>In well-formed UTF-8 every sequence of more than one byte encodes a code point of at least 128.\<close>

lemma mod_offset: "c mod m = 0 \<Longrightarrow> c \<le> n \<Longrightarrow> n < c + m \<Longrightarrow> n mod m = n - (c :: nat)"
  by (metis add_diff_cancel_left' le_add_diff_inverse less_diff_conv2 mod_add_left_eq mod_less add.commute add_0)

lemma utf8_two:
  fixes n :: nat
  assumes "194 \<le> n" "n \<le> 223" shows "128 \<le> (n mod 32) * 64 + k"
proof -
  have "n mod 32 = n - 192" using assms by (intro mod_offset) simp_all
  then show ?thesis using assms by simp
qed

lemma utf8_three:
  fixes n b :: nat
  assumes "224 \<le> n" "n \<le> 239" "n = 224 \<Longrightarrow> 160 \<le> b \<and> b \<le> 191"
  shows "128 \<le> (n mod 16) * 4096 + (b mod 64) * 64 + k"
proof (cases "n = 224")
  case True
  then have b: "160 \<le> b" "b \<le> 191" using assms(3) by simp_all
  then have "b mod 64 = b - 128" by (intro mod_offset) simp_all
  then show ?thesis using b by simp
next
  case False
  have "n mod 16 = n - 224" using assms by (intro mod_offset) simp_all
  then show ?thesis using False assms(1) by simp
qed

lemma utf8_four:
  fixes n b :: nat
  assumes "240 \<le> n" "n \<le> 244" "n = 240 \<Longrightarrow> 144 \<le> b \<and> b \<le> 191"
  shows "128 \<le> (n mod 8) * 262144 + (b mod 64) * 4096 + j * 64 + k"
proof (cases "n = 240")
  case True
  then have b: "144 \<le> b" "b \<le> 191" using assms(3) by simp_all
  then have "b mod 64 = b - 128" by (intro mod_offset) simp_all
  then show ?thesis using b by simp
next
  case False
  have "n mod 8 = n - 240" using assms by (intro mod_offset) simp_all
  then show ?thesis using False assms(1) by simp
qed

lemma utf8_chars_high':
  assumes "valid_utf8 (b0 # bs)" "\<not> (of_char b0 :: nat) < 128"
  shows "utf8_chars (b0 # bs) \<noteq> [] \<and> 128 \<le> hd (utf8_chars (b0 # bs))"
proof -
  define n :: nat where "n = of_char b0"
  have v: "\<not> byte_in 0 127 b0" using assms(2) by (simp add: byte_in_def)
  consider (two) b1 r where "194 \<le> n" "n \<le> 223" "bs = b1 # r"
    | (three) b1 b2 r where "224 \<le> n" "n \<le> 239" "bs = b1 # b2 # r"
        "n = 224 \<Longrightarrow> 160 \<le> (of_char b1 :: nat) \<and> (of_char b1 :: nat) \<le> 191"
    | (four) b1 b2 b3 r where "240 \<le> n" "n \<le> 244" "bs = b1 # b2 # b3 # r"
        "n = 240 \<Longrightarrow> 144 \<le> (of_char b1 :: nat) \<and> (of_char b1 :: nat) \<le> 191"
    using assms(1) v by (auto simp: byte_in_def n_def split: if_splits list.splits)
  then show ?thesis
  proof cases
    case two
    then show ?thesis using utf8_two [of n] by (simp add: n_def [symmetric] Let_def)
  next
    case three
    then show ?thesis using utf8_three [of n "of_char b1"] by (simp add: n_def [symmetric] Let_def)
  next
    case four
    then show ?thesis using utf8_four [of n "of_char b1"] by (simp add: n_def [symmetric] Let_def)
  qed
qed

lemma utf8_chars_high:
  "valid_utf8 (b0 # bs) \<Longrightarrow> \<not> (of_char b0 :: nat) < 128 \<Longrightarrow> \<exists>c \<in> set (utf8_chars (b0 # bs)). 128 \<le> c"
  using utf8_chars_high' hd_in_set by blast

lemma utf8_Cons_ascii:
  assumes "(of_char b :: nat) < 128"
  shows "utf8_chars (b # bs) = of_char b # utf8_chars bs" "valid_utf8 (b # bs) = valid_utf8 bs"
  using assms by (simp_all add: Let_def byte_in_def)

declare utf8_chars.simps(2) [simp del] valid_utf8.simps(2) [simp del]

lemma utf8_chars_ascii:
  "valid_utf8 s \<Longrightarrow> \<forall>c \<in> set (utf8_chars s). c < 128 \<Longrightarrow> utf8_chars s = map of_char s"
proof (induction s)
  case Nil
  then show ?case by simp
next
  case (Cons b0 bs)
  have "(of_char b0 :: nat) < 128"
    using utf8_chars_high [OF Cons.prems(1)] Cons.prems(2) by (meson not_less)
  then show ?case using Cons by (simp add: utf8_Cons_ascii)
qed

lemma utf8_chars_all_ascii: "\<forall>c \<in> set s. (of_char c :: nat) < 128 \<Longrightarrow> utf8_chars s = map of_char s"
  by (induction s) (simp_all add: utf8_Cons_ascii)

lemma utf8_chars_Nil_iff [simp]: "utf8_chars s = [] \<longleftrightarrow> s = []"
  by (cases s) (auto simp: utf8_chars.simps Let_def split: list.split)

lemma validate_subsequent_Ok [simp]:
  "validate_subsequent i cs = Ok () \<longleftrightarrow> (\<forall>c \<in> set cs. is_valid_subsequent_char c)"
  by (induction cs arbitrary: i) auto

lemma validate_channel_chars_Ok [simp]:
  "validate_channel_chars i cs = Ok () \<longleftrightarrow> (\<forall>c \<in> set cs. c \<noteq> 32 \<and> c \<noteq> 44 \<and> \<not> is_control c)"
  by (induction cs arbitrary: i) auto

lemma nick_first_char: "is_valid_first_char c \<Longrightarrow> is_valid_subsequent_char c"
  by (simp add: is_valid_subsequent_char_def)

lemma nick_char_ascii:
  "is_valid_subsequent_char c \<Longrightarrow> 32 < c \<and> c < 128 \<and> c \<noteq> 33 \<and> c \<noteq> 64 \<and> c \<noteq> 58"
  unfolding is_valid_subsequent_char_def is_valid_first_char_def is_ascii_alphabetic_def is_ascii_digit_def
  by (elim disjE conjE insertE emptyE; simp)

text \<open>Nicknames the constructor accepts, byte by byte.\<close>

definition nickname_valid :: "string \<Rightarrow> bool" where
  "nickname_valid s \<longleftrightarrow> s \<noteq> [] \<and> length s \<le> 30 \<and> is_valid_first_char (of_char (hd s))
     \<and> (\<forall>c \<in> set (tl s). is_valid_subsequent_char (of_char c))"

lemma nickname_valid_bytes: "nickname_valid s \<Longrightarrow> c \<in> set s \<Longrightarrow> is_valid_subsequent_char (of_char c)"
  by (cases s) (auto simp: nickname_valid_def nick_first_char)

lemma nickname_new_valid: "nickname_valid s \<Longrightarrow> nickname_new s = Ok s"
proof -
  assume v: "nickname_valid s"
  have "\<forall>c \<in> set s. (of_char c :: nat) < 128"
    using nickname_valid_bytes [OF v] nick_char_ascii by blast
  then have "utf8_chars s = map of_char s" by (rule utf8_chars_all_ascii)
  then show ?thesis
    using v by (cases s) (auto simp: nickname_new_def validate_nickname_def nickname_valid_def)
qed

lemma nickname_new_Ok:
  assumes "valid_utf8 s" "nickname_new s = Ok s'"
  shows "s' = s \<and> nickname_valid s"
proof (cases "utf8_chars s")
  case Nil
  then show ?thesis using assms(2) by (simp add: nickname_new_def validate_nickname_def)
next
  case (Cons c cs)
  have len: "s \<noteq> []" "length s \<le> 30" and "s' = s" and c: "is_valid_first_char c"
    and cs: "\<forall>x \<in> set cs. is_valid_subsequent_char x"
    using assms(2) by (auto simp: nickname_new_def validate_nickname_def Cons split: if_splits)
  have "\<forall>x \<in> set (utf8_chars s). x < 128"
    using Cons c cs nick_char_ascii nick_first_char by simp
  from utf8_chars_ascii [OF assms(1) this] Cons c cs len \<open>s' = s\<close>
  show ?thesis by (cases s) (auto simp: nickname_valid_def)
qed

section \<open>Properties\<close>

text \<open>
  C31. \<^verbatim>\<open>Nickname::new\<close> accepts exactly the documented nicknames: 1 to 30 bytes, the first an
  ASCII letter or one of the nine special characters, the others also digits or hyphens; it
  returns the input unchanged. In particular an accepted nickname is pure ASCII and contains
  no space, \<open>!\<close>, \<open>@\<close> or \<open>:\<close>, which the prefix syntax relies on. Every other input gets the
  error of the first rule it breaks.
\<close>

theorem nickname_new_exact:
  assumes "valid_utf8 s"
  shows "(nickname_new s = Ok s' \<longleftrightarrow> s' = s \<and> nickname_valid s)
    \<and> (nickname_valid s \<longrightarrow> (\<forall>c \<in> set s. 32 < (of_char c :: nat) \<and> (of_char c :: nat) < 128
          \<and> c \<noteq> CHR ''!'' \<and> c \<noteq> CHR ''@'' \<and> c \<noteq> CHR '':''))
    \<and> (nickname_new s = Err e \<longrightarrow>
         (case e of NickEmpty \<Rightarrow> s = [] | NickTooLong n \<Rightarrow> n = length s \<and> 30 < n
          | InvalidFirstChar c \<Rightarrow> c = hd (utf8_chars s) \<and> \<not> is_valid_first_char c
          | NickInvalidChar c i \<Rightarrow> 0 < i \<and> i < length (utf8_chars s) \<and> c = utf8_chars s ! i
               \<and> \<not> is_valid_subsequent_char c))"
proof (intro conjI impI)
  show "nickname_new s = Ok s' \<longleftrightarrow> s' = s \<and> nickname_valid s"
    using nickname_new_Ok [OF assms] nickname_new_valid by blast
  show "\<forall>c \<in> set s. 32 < (of_char c :: nat) \<and> (of_char c :: nat) < 128
      \<and> c \<noteq> CHR ''!'' \<and> c \<noteq> CHR ''@'' \<and> c \<noteq> CHR '':''" if "nickname_valid s"
  proof
    fix c assume "c \<in> set s"
    from nick_char_ascii [OF nickname_valid_bytes [OF that this]]
    show "32 < (of_char c :: nat) \<and> (of_char c :: nat) < 128
      \<and> c \<noteq> CHR ''!'' \<and> c \<noteq> CHR ''@'' \<and> c \<noteq> CHR '':''" by auto
  qed
  have sub: "validate_subsequent k cs = Err e \<Longrightarrow> \<exists>i < length cs. e = NickInvalidChar (cs ! i) (k + i)
      \<and> \<not> is_valid_subsequent_char (cs ! i)" for k cs
    by (induction cs arbitrary: k) (auto simp: less_Suc_eq_0_disj split: if_splits; fastforce)+
  assume err: "nickname_new s = Err e"
  show "case e of NickEmpty \<Rightarrow> s = [] | NickTooLong n \<Rightarrow> n = length s \<and> 30 < n
      | InvalidFirstChar c \<Rightarrow> c = hd (utf8_chars s) \<and> \<not> is_valid_first_char c
      | NickInvalidChar c i \<Rightarrow> 0 < i \<and> i < length (utf8_chars s) \<and> c = utf8_chars s ! i
           \<and> \<not> is_valid_subsequent_char c"
    using err unfolding nickname_new_def validate_nickname_def
    by (auto simp: result_bind_def split: if_splits list.splits sum.splits dest!: sub)
qed

theorem nickname_new_exact_witness:
  "nickname_new ''[ann-7]'' = Ok ''[ann-7]'' \<and> nickname_valid ''[ann-7]''"
proof -
  have "valid_utf8 ''[ann-7]''" by (simp add: utf8_Cons_ascii)
  moreover have "nickname_valid ''[ann-7]''"
    by (simp add: nickname_valid_def is_valid_first_char_def is_valid_subsequent_char_def is_ascii_alphabetic_def
        is_ascii_digit_def)
  ultimately show ?thesis using nickname_new_exact [of "''[ann-7]''" "''[ann-7]''"] by blast
qed

lemma utf8_ascii_bytes:
  assumes "valid_utf8 s" "b \<in> set s" "(of_char b :: nat) < 128"
  shows "of_char b \<in> set (utf8_chars s)"
  using assms(1,2)
proof (induction s rule: valid_utf8.induct)
  case 1
  then show ?case by simp
next
  case (2 b0 bs)
  consider (one) "(of_char b0 :: nat) < 128" "valid_utf8 bs"
    | (two) b1 r where "\<not> (of_char b0 :: nat) < 128" "(of_char b0 :: nat) < 224" "bs = b1 # r" "utf8_cont b1" "valid_utf8 r"
    | (three) b1 b2 r where "\<not> (of_char b0 :: nat) < 224" "(of_char b0 :: nat) < 240" "bs = b1 # b2 # r"
        "128 \<le> (of_char b1 :: nat)" "utf8_cont b2" "valid_utf8 r"
    | (four) b1 b2 b3 r where "\<not> (of_char b0 :: nat) < 240" "bs = b1 # b2 # b3 # r"
        "128 \<le> (of_char b1 :: nat)" "utf8_cont b2" "utf8_cont b3" "valid_utf8 r"
    using 2(5) by (auto simp: valid_utf8.simps(2) byte_in_def split: if_splits list.splits)
  then show ?case
  proof cases
    case one
    then show ?thesis using 2 by (auto simp: utf8_Cons_ascii byte_in_def)
  next
    case two
    then show ?thesis using 2 assms(3) by (auto simp: utf8_chars.simps(2) valid_utf8.simps(2) Let_def byte_in_def split: if_splits)
  next
    case three
    then show ?thesis using 2 assms(3) by (auto simp: utf8_chars.simps(2) valid_utf8.simps(2) Let_def byte_in_def split: if_splits)
  next
    case four
    then show ?thesis using 2 assms(3) by (auto simp: utf8_chars.simps(2) valid_utf8.simps(2) Let_def byte_in_def split: if_splits)
  qed
qed

lemma channel_name_new_Ok:
  assumes "channel_name_new s = Ok s'"
  obtains cs where "utf8_chars s = 35 # cs" "2 \<le> length s" "length s \<le> 50" "s' = s"
    "\<forall>c \<in> set cs. c \<noteq> 32 \<and> c \<noteq> 44 \<and> \<not> is_control c"
proof (cases "utf8_chars s")
  case Nil
  then show ?thesis using assms by (simp add: channel_name_new_def validate_channel_name_def)
next
  case (Cons c cs)
  have "c = 35" "2 \<le> length s" "length s \<le> 50" "s' = s" "\<forall>c \<in> set cs. c \<noteq> 32 \<and> c \<noteq> 44 \<and> \<not> is_control c"
    using assms by (auto simp: channel_name_new_def validate_channel_name_def Cons split: if_splits)
  then show ?thesis using that Cons by blast
qed

text \<open>
  A channel name that \<^verbatim>\<open>ChannelName::new\<close> accepts is a legal middle parameter of a
  protocol line: it is the input unchanged, has 2 to 50 bytes, begins with \<open>#\<close> and contains
  no space, comma, carriage return, line feed or other ASCII control byte; and two names are
  equal for the program exactly if they have the same hash key.
\<close>

theorem channel_name_wire_safe:
  assumes "valid_utf8 s" "channel_name_new s = Ok s'"
  shows "s' = s \<and> 2 \<le> length s \<and> length s \<le> 50 \<and> hd s = CHR ''#''
    \<and> (\<forall>b \<in> set s. 32 < (of_char b :: nat) \<and> b \<noteq> CHR '','' \<and> (of_char b :: nat) \<noteq> 127)
    \<and> (channel_name_eq s t \<longleftrightarrow> channel_name_hash_key s = channel_name_hash_key t)"
proof -
  obtain cs where cs: "utf8_chars s = 35 # cs" "2 \<le> length s" "length s \<le> 50" "s' = s"
    and ok: "\<forall>c \<in> set cs. c \<noteq> 32 \<and> c \<noteq> 44 \<and> \<not> is_control c"
    using channel_name_new_Ok [OF assms(2)] by blast
  have byte: "32 < (of_char b :: nat) \<and> b \<noteq> CHR '','' \<and> (of_char b :: nat) \<noteq> 127" if "b \<in> set s" for b
  proof (cases "(of_char b :: nat) < 128")
    case True
    then have "of_char b \<in> set (35 # cs)" using utf8_ascii_bytes [OF assms(1) that] cs(1) by simp
    then have "(of_char b :: nat) \<noteq> 32 \<and> (of_char b :: nat) \<noteq> 44 \<and> \<not> is_control (of_char b)"
      using ok by (elim set_ConsD [THEN disjE]) (simp_all add: is_control_def)
    then have "32 < (of_char b :: nat)" "(of_char b :: nat) \<noteq> 44" "(of_char b :: nat) \<noteq> 127"
      unfolding is_control_def by linarith+
    moreover have "(of_char (CHR '','') :: nat) = 44" by simp
    ultimately show ?thesis by metis
  qed auto
  obtain b bs where s: "s = b # bs" using cs(2) by (cases s) auto
  have "b = CHR ''#''"
  proof (cases "(of_char b :: nat) < 128")
    case True
    then have "(of_char b :: nat) = of_char (CHR ''#'')" using cs(1) s by (simp add: utf8_Cons_ascii)
    then show ?thesis by (simp only: of_char_eq_iff)
  next
    case False
    then have "128 \<le> hd (utf8_chars s)"
      using utf8_chars_high' [of b bs] assms(1) s by simp
    then show ?thesis using cs(1) by simp
  qed
  then show ?thesis
    using cs byte s by (simp add: channel_name_eq_def channel_name_hash_key_def eq_ignore_ascii_case_iff)
qed

theorem channel_name_wire_safe_witness:
  "channel_name_new ''#rust'' = Ok ''#rust'' \<and> list_all (\<lambda>b. 32 < (of_char b :: nat)) ''#rust''"
proof -
  have "valid_utf8 ''#rust''" by (simp add: utf8_Cons_ascii)
  moreover have "channel_name_new ''#rust'' = Ok ''#rust''"
    by (simp add: channel_name_new_def validate_channel_name_def utf8_Cons_ascii is_control_def)
  ultimately show ?thesis
    using channel_name_wire_safe [of "''#rust''" "''#rust''"] unfolding list_all_iff by blast
qed

end
