(* ===== verification/Protocol.thy ===== *)
theory Protocol
  imports Names
begin

text \<open>
  The wire protocol of \<^verbatim>\<open>pirc-protocol\<close>: commands (\<^verbatim>\<open>command.rs\<close>), prefixes (\<^verbatim>\<open>prefix.rs\<close>),
  messages and their textual form (\<^verbatim>\<open>message.rs\<close>), errors (\<^verbatim>\<open>error.rs\<close>), versions
  (\<^verbatim>\<open>version.rs\<close>) and the parser of protocol lines (\<^verbatim>\<open>parser.rs\<close>).

  A line is a list of bytes. All delimiters are ASCII, so slicing a Rust string at them is
  splitting the byte list. An error that carries a nickname error keeps it as a value
  instead of its text.
\<close>

section \<open>Errors\<close>

datatype protocol_error =
    EmptyMessage
  | MessageTooLong (too_long_length: nat) (too_long_max: nat)
  | MissingCommand
  | UnknownCommand string
  | InvalidPrefix string
  | InvalidNickname nickname_error
  | TooManyParams (too_many_count: nat) (too_many_max: nat)
  | MissingParameter string string
  | InvalidVersion string

fun protocol_error_kind :: "protocol_error \<Rightarrow> string" where
  "protocol_error_kind EmptyMessage = ''empty_message''"
| "protocol_error_kind (MessageTooLong _ _) = ''message_too_long''"
| "protocol_error_kind MissingCommand = ''missing_command''"
| "protocol_error_kind (UnknownCommand _) = ''unknown_command''"
| "protocol_error_kind (InvalidPrefix _) = ''invalid_prefix''"
| "protocol_error_kind (InvalidNickname _) = ''invalid_nickname''"
| "protocol_error_kind (TooManyParams _ _) = ''too_many_params''"
| "protocol_error_kind (MissingParameter _ _) = ''missing_parameter''"
| "protocol_error_kind (InvalidVersion _) = ''invalid_version''"

section \<open>Commands\<close>

datatype pirc_subcommand =
    Version | Cap
  | KeyExchange | KeyExchangeAck | KeyExchangeComplete | Fingerprint | Encrypted
  | ClusterJoin | ClusterWelcome | ClusterSync | ClusterHeartbeat | ClusterMigrate | ClusterRaft
  | ClusterStatus | ClusterMembers
  | InviteKeyGenerate | InviteKeyList | InviteKeyRevoke
  | NetworkInfo
  | P2pOffer | P2pAnswer | P2pIce | P2pEstablished | P2pFailed
  | GroupCreate | GroupInvite | GroupJoin | GroupLeave | GroupMessage | GroupMembers
  | GroupKeyExchange | GroupP2pOffer | GroupP2pAnswer | GroupP2pIce

fun subcommand_as_str :: "pirc_subcommand \<Rightarrow> string" where
  "subcommand_as_str Version = ''VERSION''"
| "subcommand_as_str Cap = ''CAP''"
| "subcommand_as_str KeyExchange = ''KEYEXCHANGE''"
| "subcommand_as_str KeyExchangeAck = ''KEYEXCHANGE-ACK''"
| "subcommand_as_str KeyExchangeComplete = ''KEYEXCHANGE-COMPLETE''"
| "subcommand_as_str Fingerprint = ''FINGERPRINT''"
| "subcommand_as_str Encrypted = ''ENCRYPTED''"
| "subcommand_as_str ClusterJoin = ''CLUSTER JOIN''"
| "subcommand_as_str ClusterWelcome = ''CLUSTER WELCOME''"
| "subcommand_as_str ClusterSync = ''CLUSTER SYNC''"
| "subcommand_as_str ClusterHeartbeat = ''CLUSTER HEARTBEAT''"
| "subcommand_as_str ClusterMigrate = ''CLUSTER MIGRATE''"
| "subcommand_as_str ClusterRaft = ''CLUSTER RAFT''"
| "subcommand_as_str ClusterStatus = ''CLUSTER STATUS''"
| "subcommand_as_str ClusterMembers = ''CLUSTER MEMBERS''"
| "subcommand_as_str InviteKeyGenerate = ''INVITE-KEY GENERATE''"
| "subcommand_as_str InviteKeyList = ''INVITE-KEY LIST''"
| "subcommand_as_str InviteKeyRevoke = ''INVITE-KEY REVOKE''"
| "subcommand_as_str NetworkInfo = ''NETWORK INFO''"
| "subcommand_as_str P2pOffer = ''P2P OFFER''"
| "subcommand_as_str P2pAnswer = ''P2P ANSWER''"
| "subcommand_as_str P2pIce = ''P2P ICE''"
| "subcommand_as_str P2pEstablished = ''P2P ESTABLISHED''"
| "subcommand_as_str P2pFailed = ''P2P FAILED''"
| "subcommand_as_str GroupCreate = ''GROUP CREATE''"
| "subcommand_as_str GroupInvite = ''GROUP INVITE''"
| "subcommand_as_str GroupJoin = ''GROUP JOIN''"
| "subcommand_as_str GroupLeave = ''GROUP LEAVE''"
| "subcommand_as_str GroupMessage = ''GROUP MSG''"
| "subcommand_as_str GroupMembers = ''GROUP MEMBERS''"
| "subcommand_as_str GroupKeyExchange = ''GROUP KEYEX''"
| "subcommand_as_str GroupP2pOffer = ''GROUP P2P-OFFER''"
| "subcommand_as_str GroupP2pAnswer = ''GROUP P2P-ANSWER''"
| "subcommand_as_str GroupP2pIce = ''GROUP P2P-ICE''"

text \<open>A \<^verbatim>\<open>match\<close> on string literals is a lookup in the list of its arms.\<close>

definition subcommand_from_keyword :: "string \<Rightarrow> pirc_subcommand option" where
  "subcommand_from_keyword s = map_of
     [(''VERSION'', Version), (''CAP'', Cap), (''KEYEXCHANGE'', KeyExchange),
      (''KEYEXCHANGE-ACK'', KeyExchangeAck), (''KEYEXCHANGE-COMPLETE'', KeyExchangeComplete),
      (''FINGERPRINT'', Fingerprint), (''ENCRYPTED'', Encrypted)] s"

definition subcommand_from_namespace :: "string \<Rightarrow> string \<Rightarrow> pirc_subcommand option" where
  "subcommand_from_namespace namespace inner =
     (if namespace = ''CLUSTER'' then map_of
        [(''JOIN'', ClusterJoin), (''WELCOME'', ClusterWelcome), (''SYNC'', ClusterSync),
         (''HEARTBEAT'', ClusterHeartbeat), (''MIGRATE'', ClusterMigrate), (''RAFT'', ClusterRaft),
         (''STATUS'', ClusterStatus), (''MEMBERS'', ClusterMembers)] inner
      else if namespace = ''INVITE-KEY'' then map_of
        [(''GENERATE'', InviteKeyGenerate), (''LIST'', InviteKeyList), (''REVOKE'', InviteKeyRevoke)] inner
      else if namespace = ''NETWORK'' then map_of [(''INFO'', NetworkInfo)] inner
      else if namespace = ''P2P'' then map_of
        [(''OFFER'', P2pOffer), (''ANSWER'', P2pAnswer), (''ICE'', P2pIce),
         (''ESTABLISHED'', P2pEstablished), (''FAILED'', P2pFailed)] inner
      else if namespace = ''GROUP'' then map_of
        [(''CREATE'', GroupCreate), (''INVITE'', GroupInvite), (''JOIN'', GroupJoin),
         (''LEAVE'', GroupLeave), (''MSG'', GroupMessage), (''MEMBERS'', GroupMembers),
         (''KEYEX'', GroupKeyExchange), (''P2P-OFFER'', GroupP2pOffer),
         (''P2P-ANSWER'', GroupP2pAnswer), (''P2P-ICE'', GroupP2pIce)] inner
      else None)"

definition is_namespaced :: "pirc_subcommand \<Rightarrow> bool" where
  "is_namespaced c \<longleftrightarrow> c \<in>
     {ClusterJoin, ClusterWelcome, ClusterSync, ClusterHeartbeat, ClusterMigrate, ClusterRaft,
      ClusterStatus, ClusterMembers, InviteKeyGenerate, InviteKeyList, InviteKeyRevoke, NetworkInfo,
      P2pOffer, P2pAnswer, P2pIce, P2pEstablished, P2pFailed, GroupCreate, GroupInvite, GroupJoin,
      GroupLeave, GroupMessage, GroupMembers, GroupKeyExchange, GroupP2pOffer, GroupP2pAnswer,
      GroupP2pIce}"

datatype command =
    Nick | User | Join | Part | Privmsg | Notice | Quit | Kick | Ban | Mode | Topic | Whois
  | ListCmd | NamesCmd | Invite | Away | Oper | Kill | Die | Restart | Wallops | Motd
  | Ping | Pong | ErrorCmd | Numeric nat | Pirc pirc_subcommand

fun command_keyword :: "command \<Rightarrow> string option" where
  "command_keyword Privmsg = Some ''PRIVMSG''"
| "command_keyword Ping = Some ''PING''"
| "command_keyword Pong = Some ''PONG''"
| "command_keyword Notice = Some ''NOTICE''"
| "command_keyword Nick = Some ''NICK''"
| "command_keyword Join = Some ''JOIN''"
| "command_keyword Part = Some ''PART''"
| "command_keyword Quit = Some ''QUIT''"
| "command_keyword Mode = Some ''MODE''"
| "command_keyword User = Some ''USER''"
| "command_keyword Topic = Some ''TOPIC''"
| "command_keyword Kick = Some ''KICK''"
| "command_keyword Ban = Some ''BAN''"
| "command_keyword Whois = Some ''WHOIS''"
| "command_keyword ListCmd = Some ''LIST''"
| "command_keyword NamesCmd = Some ''NAMES''"
| "command_keyword Invite = Some ''INVITE''"
| "command_keyword Away = Some ''AWAY''"
| "command_keyword Oper = Some ''OPER''"
| "command_keyword Kill = Some ''KILL''"
| "command_keyword Die = Some ''DIE''"
| "command_keyword Restart = Some ''RESTART''"
| "command_keyword Wallops = Some ''WALLOPS''"
| "command_keyword Motd = Some ''MOTD''"
| "command_keyword ErrorCmd = Some ''ERROR''"
| "command_keyword (Pirc _) = Some ''PIRC''"
| "command_keyword (Numeric _) = None"

text \<open>\<^verbatim>\<open>format!("{code:03}")\<close>\<close>

definition pad3 :: "nat \<Rightarrow> string" where
  "pad3 code = replicate (3 - length (nat_to_string code)) CHR ''0'' @ nat_to_string code"

fun command_as_str :: "command \<Rightarrow> string" where
  "command_as_str (Numeric code) = pad3 code"
| "command_as_str c = (case command_keyword c of Some kw \<Rightarrow> kw | None \<Rightarrow> [])"

definition numeric_from_str :: "string \<Rightarrow> command option" where
  "numeric_from_str s =
     (if is_ascii_digit (of_char (s ! 0)) \<and> is_ascii_digit (of_char (s ! 1)) \<and> is_ascii_digit (of_char (s ! 2))
      then Some (Numeric ((of_char (s ! 0) - 48) * 100 + (of_char (s ! 1) - 48) * 10 + (of_char (s ! 2) - 48)))
      else None)"

definition command_from_keyword :: "string \<Rightarrow> command option" where
  "command_from_keyword s =
     (if length s = 3 then
        (if s = ''BAN'' then Some Ban else if s = ''DIE'' then Some Die else numeric_from_str s)
      else if length s = 4 then map_of
        [(''PING'', Ping), (''PONG'', Pong), (''NICK'', Nick), (''JOIN'', Join), (''PART'', Part),
         (''QUIT'', Quit), (''MODE'', Mode), (''USER'', User), (''KICK'', Kick), (''KILL'', Kill),
         (''LIST'', ListCmd), (''OPER'', Oper), (''AWAY'', Away), (''MOTD'', Motd)] s
      else if length s = 5 then map_of
        [(''TOPIC'', Topic), (''WHOIS'', Whois), (''NAMES'', NamesCmd), (''ERROR'', ErrorCmd)] s
      else if length s = 6 then map_of [(''NOTICE'', Notice), (''INVITE'', Invite)] s
      else if length s = 7 then map_of
        [(''PRIVMSG'', Privmsg), (''WALLOPS'', Wallops), (''RESTART'', Restart)] s
      else None)"

section \<open>Prefixes and messages\<close>

datatype prefix = Server string | UserPrefix (pf_nick: string) (pf_user: string) (pf_host: string)

fun prefix_display :: "prefix \<Rightarrow> string" where
  "prefix_display (Server name) = name"
| "prefix_display (UserPrefix nick user host) = nick @ ''!'' @ user @ ''@'' @ host"

definition MAX_PARAMS :: nat where "MAX_PARAMS = 15"

record message =
  msg_prefix :: "prefix option"
  msg_command :: command
  msg_params :: "string list"

definition message_new :: "command \<Rightarrow> string list \<Rightarrow> message" where
  "message_new c ps = \<lparr>msg_prefix = None, msg_command = c, msg_params = ps\<rparr>"

definition message_with_prefix :: "prefix \<Rightarrow> command \<Rightarrow> string list \<Rightarrow> message" where
  "message_with_prefix p c ps = \<lparr>msg_prefix = Some p, msg_command = c, msg_params = ps\<rparr>"

fun numeric_code :: "command \<Rightarrow> nat option" where
  "numeric_code (Numeric code) = Some code"
| "numeric_code _ = None"

definition is_numeric :: "message \<Rightarrow> bool" where
  "is_numeric m \<longleftrightarrow> numeric_code (msg_command m) \<noteq> None"

definition trailing :: "message \<Rightarrow> string option" where
  "trailing m = (if msg_params m = [] then None else Some (last (msg_params m)))"

fun required_params :: "command \<Rightarrow> nat \<times> string" where
  "required_params Nick = (1, ''nickname'')"
| "required_params Whois = (1, ''nickname'')"
| "required_params Join = (1, ''channel'')"
| "required_params Part = (1, ''channel'')"
| "required_params Topic = (1, ''channel'')"
| "required_params Mode = (1, ''target'')"
| "required_params Ping = (1, ''server'')"
| "required_params Pong = (1, ''server'')"
| "required_params Privmsg = (2, ''target and message'')"
| "required_params Notice = (2, ''target and message'')"
| "required_params Kick = (2, ''channel and target'')"
| "required_params Ban = (2, ''channel and target'')"
| "required_params Invite = (2, ''nickname and channel'')"
| "required_params Oper = (2, ''name and password'')"
| "required_params Kill = (2, ''nickname and comment'')"
| "required_params Wallops = (1, ''message'')"
| "required_params _ = (0, '''')"

definition message_validate :: "message \<Rightarrow> protocol_error + unit" where
  "message_validate m =
     (if length (msg_params m) > MAX_PARAMS then Err (TooManyParams (length (msg_params m)) MAX_PARAMS)
      else case required_params (msg_command m) of (min_params, expected) \<Rightarrow>
        if length (msg_params m) < min_params
        then Err (MissingParameter (command_as_str (msg_command m)) expected)
        else Ok ())"

definition needs_colon :: "string \<Rightarrow> bool" where
  "needs_colon s \<longleftrightarrow> s = [] \<or> CHR '' '' \<in> set s \<or> hd s = CHR '':''"

definition params_display :: "string list \<Rightarrow> string" where
  "params_display ps =
     (if ps = [] then []
      else concat (map (\<lambda>p. CHR '' '' # p) (butlast ps))
           @ CHR '' '' # (if needs_colon (last ps) then CHR '':'' # last ps else last ps))"

definition message_display :: "message \<Rightarrow> string" where
  "message_display m =
     (case msg_prefix m of None \<Rightarrow> [] | Some p \<Rightarrow> CHR '':'' # prefix_display p @ [CHR '' ''])
     @ command_as_str (msg_command m)
     @ (case msg_command m of Pirc sub \<Rightarrow> CHR '' '' # subcommand_as_str sub | _ \<Rightarrow> [])
     @ params_display (msg_params m)"

section \<open>The parser\<close>

definition MAX_MESSAGE_LEN :: nat where "MAX_MESSAGE_LEN = 512"

fun skip_spaces :: "string \<Rightarrow> string" where
  "skip_spaces [] = []"
| "skip_spaces (c # cs) = (if c = CHR '' '' then skip_spaces cs else c # cs)"

text \<open>The token up to the next space and what follows the space.\<close>

definition next_token :: "string \<Rightarrow> string \<times> string" where
  "next_token s = (case split_at_byte (CHR '' '') s of Some (t, r) \<Rightarrow> (t, r) | None \<Rightarrow> (s, []))"

lemma next_token_shorter: "s \<noteq> [] \<Longrightarrow> length (snd (next_token s)) < length s"
  by (auto simp: next_token_def split: option.split dest: split_at_byte_length)

function params_loop :: "string list \<Rightarrow> string \<Rightarrow> string list" where
  "params_loop params rest =
     (if rest = [] then params
      else if hd rest = CHR '':'' then params @ [tl rest]
      else let param = fst (next_token rest); rest' = snd (next_token rest);
               params' = (if param \<noteq> [] then params @ [param] else params) in
           if length params' = MAX_PARAMS - 1 \<and> rest' \<noteq> [] then params' @ [rest']
           else params_loop params' rest')"
  by pat_completeness auto
termination
  by (relation "measure (\<lambda>(_, rest). length rest)") (auto simp: next_token_shorter)

declare params_loop.simps [simp del]

definition parse_params :: "string \<Rightarrow> protocol_error + string list" where
  "parse_params input =
     (if input = [] then Ok []
      else let params = params_loop [] input in
           if length params > MAX_PARAMS then Err (TooManyParams (length params) MAX_PARAMS)
           else Ok params)"

definition parse_prefix :: "string \<Rightarrow> protocol_error + prefix" where
  "parse_prefix s =
     (if s = [] then Err (InvalidPrefix ''empty prefix'')
      else case split_at_byte (CHR ''!'') s of
        None \<Rightarrow> Ok (Server s)
      | Some (nick_str, after_bang) \<Rightarrow>
          (case split_at_byte (CHR ''@'') after_bang of
             None \<Rightarrow> Err (InvalidPrefix (''missing '' @ [CHR 0x27] @ ''@'' @ [CHR 0x27] @ '' in user prefix: '' @ s))
           | Some (user, host) \<Rightarrow>
               if user = [] then Err (InvalidPrefix (''empty user in prefix: '' @ s))
               else if host = [] then Err (InvalidPrefix (''empty host in prefix: '' @ s))
               else result_bind (map_err InvalidNickname (nickname_new nick_str)) (\<lambda>nick.
                      Ok (UserPrefix nick user host))))"

definition make_message :: "prefix option \<Rightarrow> command \<Rightarrow> string list \<Rightarrow> message" where
  "make_message p c ps = (case p of Some p' \<Rightarrow> message_with_prefix p' c ps | None \<Rightarrow> message_new c ps)"

definition is_pirc_namespace :: "string \<Rightarrow> bool" where
  "is_pirc_namespace s \<longleftrightarrow> s \<in> {''CLUSTER'', ''P2P'', ''INVITE-KEY'', ''NETWORK'', ''GROUP''}"

definition parse_pirc_command :: "prefix option \<Rightarrow> string \<Rightarrow> protocol_error + message" where
  "parse_pirc_command p remainder0 =
     (let remainder = skip_spaces remainder0 in
      if remainder = [] then Err (UnknownCommand ''PIRC (missing subcommand)'')
      else let (sub_str, after_sub0) = next_token remainder in
        if is_pirc_namespace sub_str then
          (let after_sub = skip_spaces after_sub0 in
           if after_sub = [] then Err (UnknownCommand (''PIRC '' @ sub_str @ '' (missing subcommand)''))
           else let (inner_str, params_str) = next_token after_sub in
             result_bind (ok_or (UnknownCommand (''PIRC '' @ sub_str @ '' '' @ inner_str))
                            (subcommand_from_namespace sub_str inner_str)) (\<lambda>sub.
             result_bind (parse_params params_str) (\<lambda>ps. Ok (make_message p (Pirc sub) ps))))
        else
          result_bind (ok_or (UnknownCommand (''PIRC '' @ sub_str)) (subcommand_from_keyword sub_str)) (\<lambda>sub.
          result_bind (parse_params after_sub0) (\<lambda>ps. Ok (make_message p (Pirc sub) ps))))"

definition strip_line_end :: "string \<Rightarrow> string" where
  "strip_line_end input =
     (let len = length input in
      if len \<ge> 2 \<and> input ! (len - 2) = CHR 0x0D \<and> input ! (len - 1) = CHR 0x0A then take (len - 2) input
      else if len \<ge> 1 \<and> input ! (len - 1) = CHR 0x0A then take (len - 1) input
      else input)"

text \<open>What follows the optional prefix.\<close>

definition parse_command :: "prefix option \<Rightarrow> string \<Rightarrow> protocol_error + message" where
  "parse_command p rest0 =
     (let rest = skip_spaces rest0 in
      if rest = [] then Err MissingCommand
      else let (cmd_str, remainder) = next_token rest in
        if cmd_str = ''PIRC'' then parse_pirc_command p remainder
        else result_bind (ok_or (UnknownCommand cmd_str) (command_from_keyword cmd_str)) (\<lambda>c.
             result_bind (parse_params remainder) (\<lambda>ps. Ok (make_message p c ps))))"

definition parse :: "string \<Rightarrow> protocol_error + message" where
  "parse input =
     (if length input > MAX_MESSAGE_LEN then Err (MessageTooLong (length input) MAX_MESSAGE_LEN)
      else let line = strip_line_end input in
        if list_all (\<lambda>b. b = CHR '' '' \<or> b = CHR 0x09) line then Err EmptyMessage
        else if hd line = CHR '':'' then
          (case split_at_byte (CHR '' '') (tl line) of
             None \<Rightarrow> Err MissingCommand
           | Some (prefix_str, rest) \<Rightarrow>
               result_bind (parse_prefix prefix_str) (\<lambda>p. parse_command (Some p) rest))
        else parse_command None line)"

section \<open>Versions\<close>

datatype protocol_version = ProtocolVersion (major: nat) (minor: nat)

definition PROTOCOL_VERSION_CURRENT :: protocol_version where
  "PROTOCOL_VERSION_CURRENT = ProtocolVersion 1 0"

definition version_le :: "protocol_version \<Rightarrow> protocol_version \<Rightarrow> bool" where
  "version_le a b \<longleftrightarrow> major a < major b \<or> major a = major b \<and> minor a \<le> minor b"

instantiation protocol_version :: linorder
begin

definition less_eq_protocol_version :: "protocol_version \<Rightarrow> protocol_version \<Rightarrow> bool" where
  "less_eq_protocol_version = version_le"

definition less_protocol_version :: "protocol_version \<Rightarrow> protocol_version \<Rightarrow> bool" where
  "less_protocol_version a b \<longleftrightarrow> major a < major b \<or> major a = major b \<and> minor a < minor b"

instance
proof
  fix x y z :: protocol_version
  show "x \<le> y \<Longrightarrow> y \<le> x \<Longrightarrow> x = y"
    by (cases x; cases y) (auto simp: less_eq_protocol_version_def version_le_def)
qed (auto simp: less_eq_protocol_version_def version_le_def less_protocol_version_def)

end

definition is_compatible :: "protocol_version \<Rightarrow> protocol_version \<Rightarrow> bool" where
  "is_compatible a b \<longleftrightarrow> major a = major b"

definition negotiate :: "protocol_version \<Rightarrow> protocol_version \<Rightarrow> protocol_version option" where
  "negotiate local remote = (if \<not> is_compatible local remote then None else Some (min local remote))"

definition version_display :: "protocol_version \<Rightarrow> string" where
  "version_display v = nat_to_string (major v) @ ''.'' @ nat_to_string (minor v)"

definition version_from_str :: "string \<Rightarrow> protocol_error + protocol_version" where
  "version_from_str s =
     result_bind (ok_or (InvalidVersion (''missing '' @ [CHR 0x27] @ ''.'' @ [CHR 0x27] @ '' in version: '' @ s))
                    (split_at_byte (CHR ''.'') s)) (\<lambda>(major_str, minor_str).
     result_bind (ok_or (InvalidVersion (''invalid major version: '' @ major_str)) (parse_unsigned U16_MAX major_str)) (\<lambda>ma.
     result_bind (ok_or (InvalidVersion (''invalid minor version: '' @ minor_str)) (parse_unsigned U16_MAX minor_str)) (\<lambda>mi.
       Ok (ProtocolVersion ma mi))))"

end
