(* ===== verification/Protocol_Roundtrip.thy ===== *)
theory Protocol_Roundtrip
  imports Protocol
begin

text \<open>
  Printing and parsing of protocol lines: the parser inverts the printer on every message
  that fits the wire format, and what the parser accepts has the format's limits.
\<close>

section \<open>Tokens and commands\<close>

lemma next_token_space [simp]: "CHR '' '' \<notin> set t \<Longrightarrow> next_token (t @ CHR '' '' # r) = (t, r)"
  by (simp add: next_token_def split_byte)

lemma next_token_end [simp]: "CHR '' '' \<notin> set t \<Longrightarrow> next_token t = (t, [])"
  by (simp add: next_token_def split_byte)

lemma skip_spaces_word [simp]: "s \<noteq> [] \<Longrightarrow> hd s \<noteq> CHR '' '' \<Longrightarrow> skip_spaces s = s"
  by (cases s) auto

lemma of_char_digit [simp]: "d < 10 \<Longrightarrow> (of_char (digit_char d) :: nat) = 48 + d"
  by (simp add: digit_char_def)

lemma pad3_digits:
  assumes "n < 1000"
  shows "pad3 n = [digit_char (n div 100), digit_char (n div 10 mod 10), digit_char (n mod 10)]"
proof -
  have z: "digit_char 0 = CHR ''0''" by code_simp
  consider "n < 10" | "10 \<le> n" "n < 100" | "100 \<le> n" by linarith
  then show ?thesis
  proof cases
    case 1
    then show ?thesis by (simp add: pad3_def nat_to_string.simps [of n] z numeral_3_eq_3)
  next
    case 2
    then have "n div 10 < 10" "n div 10 mod 10 = n div 10" by simp_all
    then show ?thesis using 2 by (simp add: pad3_def nat_to_string.simps [of n] nat_to_string.simps [of "n div 10"] z)
  next
    case 3
    have "n div 10 div 10 = n div 100" by (simp add: div_mult2_eq [symmetric])
    moreover have "n div 100 < 10" "\<not> n div 10 < 10" using 3 assms by simp_all
    ultimately show ?thesis
      using 3 assms by (simp add: pad3_def nat_to_string.simps [of n] nat_to_string.simps [of "n div 10"]
          nat_to_string.simps [of "n div 100"])
  qed
qed

definition command_wire :: "command \<Rightarrow> bool" where
  "command_wire c \<longleftrightarrow> (case c of Numeric n \<Rightarrow> n \<le> 999 | _ \<Rightarrow> True)"

lemma digit_char_neq:
  assumes "d < 10" "(of_char c :: nat) < 48 \<or> 57 < (of_char c :: nat)"
  shows "digit_char d \<noteq> c" "c \<noteq> digit_char d"
  using assms by auto

lemma numeric_roundtrip:
  assumes "n \<le> 999"
  shows "command_from_keyword (pad3 n) = Some (Numeric n)" "pad3 n \<noteq> []" "CHR '' '' \<notin> set (pad3 n)"
    "hd (pad3 n) \<noteq> CHR '':''" "pad3 n \<noteq> ''PIRC''"
proof -
  define a b c where abc: "a = n div 100" "b = n div 10 mod 10" "c = n mod 10"
  have lt: "a < 10" "b < 10" "c < 10" using assms by (simp_all add: abc)
  have p: "pad3 n = [digit_char a, digit_char b, digit_char c]" using pad3_digits [of n] assms by (simp add: abc)
  have n: "n = a * 100 + b * 10 + c"
  proof -
    have "n div 10 = a * 10 + b" using div_mult_mod_eq [of "n div 10" 10] by (simp add: abc div_mult2_eq [symmetric])
    then show ?thesis using div_mult_mod_eq [of n 10] unfolding abc(3) by linarith
  qed
  have "numeric_from_str [digit_char a, digit_char b, digit_char c] = Some (Numeric (a * 100 + b * 10 + c))"
    using lt by (simp add: numeric_from_str_def is_ascii_digit_def)
  then have "numeric_from_str (pad3 n) = Some (Numeric n)" unfolding p [symmetric] n [symmetric] .
  moreover have "pad3 n \<noteq> ''BAN''" "pad3 n \<noteq> ''DIE''"
    using digit_char_neq [OF lt(1)] by (simp_all add: p)
  ultimately show "command_from_keyword (pad3 n) = Some (Numeric n)"
    by (simp add: command_from_keyword_def) (simp add: p)
  show "pad3 n \<noteq> []" "CHR '' '' \<notin> set (pad3 n)" "hd (pad3 n) \<noteq> CHR '':''" "pad3 n \<noteq> ''PIRC''"
    using digit_char_neq [OF lt(1)] digit_char_neq [OF lt(2)] digit_char_neq [OF lt(3)] by (simp_all add: p)
qed

lemma command_roundtrip:
  assumes "command_wire c" "\<And>sub. c \<noteq> Pirc sub"
  shows "command_from_keyword (command_as_str c) = Some c" "command_as_str c \<noteq> []"
    "CHR '' '' \<notin> set (command_as_str c)" "hd (command_as_str c) \<noteq> CHR '':''" "command_as_str c \<noteq> ''PIRC''"
  using assms numeric_roundtrip by (cases c; simp add: command_wire_def command_from_keyword_def)+

lemma command_first_byte:
  assumes "command_wire c" "\<nexists>sub. c = Pirc sub"
  shows "hd (command_as_str c) \<notin> {CHR '':'', CHR '' '', CHR 0x09}"
proof (cases c)
  case (Numeric n)
  define a where "a = n div 100"
  have a: "a < 10" "hd (pad3 n) = digit_char a"
    using assms(1) Numeric pad3_digits [of n] by (simp_all add: command_wire_def a_def)
  then show ?thesis using digit_char_neq [OF a(1)] Numeric by simp
qed (use assms in simp_all)

text \<open>A subcommand is one keyword, or a namespace and an inner keyword.\<close>

lemma subcommand_wire:
  "case split_at_byte (CHR '' '') (subcommand_as_str sub) of
     None \<Rightarrow> subcommand_from_keyword (subcommand_as_str sub) = Some sub
             \<and> \<not> is_pirc_namespace (subcommand_as_str sub) \<and> \<not> is_namespaced sub
   | Some (ns, inner) \<Rightarrow> is_pirc_namespace ns \<and> subcommand_from_namespace ns inner = Some sub
             \<and> CHR '' '' \<notin> set inner \<and> inner \<noteq> [] \<and> hd inner \<noteq> CHR '' '' \<and> is_namespaced sub"
  by (cases sub; simp add: subcommand_from_keyword_def subcommand_from_namespace_def is_pirc_namespace_def
      is_namespaced_def)

lemma subcommand_word: "subcommand_as_str sub \<noteq> []" "hd (subcommand_as_str sub) \<noteq> CHR '' ''"
  by (cases sub; simp)+

section \<open>Parameters\<close>

definition middle_param :: "string \<Rightarrow> bool" where
  "middle_param p \<longleftrightarrow> p \<noteq> [] \<and> CHR '' '' \<notin> set p \<and> hd p \<noteq> CHR '':''"

text \<open>
  Parameter lists the wire format can carry: at most 15, all but the last without spaces
  and not empty or beginning with a colon, and a fifteenth one that needs no colon.
\<close>

definition params_wire :: "string list \<Rightarrow> bool" where
  "params_wire ps \<longleftrightarrow> list_all middle_param (butlast ps)
     \<and> (length ps < MAX_PARAMS \<or> length ps = MAX_PARAMS \<and> \<not> needs_colon (last ps))"

fun params_body :: "string list \<Rightarrow> string" where
  "params_body [] = []"
| "params_body [p] = (if needs_colon p then CHR '':'' # p else p)"
| "params_body (p # q # ps) = p @ CHR '' '' # params_body (q # ps)"

lemma params_display_body: "params_display ps = (if ps = [] then [] else CHR '' '' # params_body ps)"
  by (induction ps rule: params_body.induct) (auto simp: params_display_def)

lemma params_body_neq [simp]: "ps \<noteq> [] \<Longrightarrow> params_body ps \<noteq> []"
  by (cases ps rule: params_body.cases) (auto simp: needs_colon_def)

lemma params_loop_body:
  assumes "ps \<noteq> []" "list_all middle_param (butlast ps)"
    and "length acc + length ps < MAX_PARAMS \<or> length acc + length ps = MAX_PARAMS \<and> \<not> needs_colon (last ps)"
  shows "params_loop acc (params_body ps) = acc @ ps"
  using assms
proof (induction ps arbitrary: acc rule: params_body.induct)
  case 1
  then show ?case by simp
next
  case (2 p)
  show ?case
  proof (cases "needs_colon p")
    case True
    then show ?thesis by (simp add: params_loop.simps [of acc "CHR '':'' # p"])
  next
    case False
    then show ?thesis
      by (simp add: params_loop.simps [of acc p] params_loop.simps [of _ "[]"] needs_colon_def)
  qed
next
  case (3 p q ps)
  have p: "p \<noteq> []" "CHR '' '' \<notin> set p" "hd p \<noteq> CHR '':''" using "3.prems"(2) by (simp_all add: middle_param_def)
  have len: "length acc + 1 = MAX_PARAMS - 1 \<Longrightarrow> ps = [] \<and> \<not> needs_colon q"
    using "3.prems"(3) by (cases ps) (auto simp: MAX_PARAMS_def)
  have rest: "params_body (q # ps) \<noteq> []" by simp
  note unf = params_loop.simps [of acc "p @ CHR '' '' # params_body (q # ps)"]
  show ?case
  proof (cases "length acc + 1 = MAX_PARAMS - 1")
    case True
    then have q: "ps = []" "params_body [q] = q" "q \<noteq> []" using len by (auto simp: needs_colon_def)
    have "params_loop acc (p @ CHR '' '' # q) = acc @ [p, q]"
      using p q(3) True by (simp add: params_loop.simps [of acc "p @ CHR '' '' # q"] Let_def)
    then show ?thesis using q(1,2) by simp
  next
    case False
    have "params_loop (acc @ [p]) (params_body (q # ps)) = (acc @ [p]) @ q # ps"
      by (rule "3.IH") (use "3.prems" in auto)
    then show ?thesis using p False by (simp add: unf Let_def)
  qed
qed

lemma parse_params_display:
  assumes "params_wire ps" "ps \<noteq> []"
  shows "parse_params (params_body ps) = Ok ps"
proof -
  have "params_loop [] (params_body ps) = [] @ ps"
    by (rule params_loop_body [OF assms(2)]) (use assms(1) in \<open>auto simp: params_wire_def\<close>)
  then show ?thesis using assms by (auto simp: parse_params_def params_wire_def)
qed

text \<open>The parser never produces more than 15 parameters.\<close>

lemma params_loop_bound:
  "length acc < MAX_PARAMS - 1 \<or> length acc < MAX_PARAMS \<and> rest = [] \<Longrightarrow>
     length (params_loop acc rest) \<le> MAX_PARAMS"
proof (induction acc rest rule: params_loop.induct)
  case (1 acc rest)
  define acc' where "acc' = (if fst (next_token rest) \<noteq> [] then acc @ [fst (next_token rest)] else acc)"
  show ?case
  proof (cases "rest = [] \<or> hd rest = CHR '':''")
    case True
    then show ?thesis using "1.prems" by (auto simp: params_loop.simps [of acc rest])
  next
    case False
    then have le: "length acc' \<le> MAX_PARAMS - 1" using "1.prems" by (auto simp: acc'_def)
    show ?thesis
    proof (cases "length acc' = MAX_PARAMS - 1 \<and> snd (next_token rest) \<noteq> []")
      case True
      then show ?thesis
        using False by (simp add: params_loop.simps [of acc rest] Let_def acc'_def [symmetric] MAX_PARAMS_def)
    next
      case stop: False
      have "length acc' < MAX_PARAMS - 1 \<or> length acc' < MAX_PARAMS \<and> snd (next_token rest) = []"
        using stop le by (auto simp: MAX_PARAMS_def)
      then have "length (params_loop acc' (snd (next_token rest))) \<le> MAX_PARAMS"
        using "1.IH" [OF _ _ refl refl acc'_def] False stop by (simp add: acc'_def)
      then show ?thesis
        using False stop by (auto simp: params_loop.simps [of acc rest] Let_def acc'_def [symmetric])
    qed
  qed
qed

lemma parse_params_never_too_many: "\<exists>ps. parse_params input = Ok ps \<and> length ps \<le> MAX_PARAMS"
  using params_loop_bound [of "[]" input] by (auto simp: parse_params_def MAX_PARAMS_def)

section \<open>Prefixes and lines\<close>

fun prefix_wire :: "prefix \<Rightarrow> bool" where
  "prefix_wire (Server name) \<longleftrightarrow> name \<noteq> [] \<and> CHR '' '' \<notin> set name \<and> CHR ''!'' \<notin> set name"
| "prefix_wire (UserPrefix nick user host) \<longleftrightarrow> nickname_valid nick
     \<and> user \<noteq> [] \<and> CHR '' '' \<notin> set user \<and> CHR ''@'' \<notin> set user
     \<and> host \<noteq> [] \<and> CHR '' '' \<notin> set host"

lemma nickname_no_delimiter:
  assumes "nickname_valid nick" shows "CHR '' '' \<notin> set nick" "CHR ''!'' \<notin> set nick"
  using nick_char_ascii [OF nickname_valid_bytes [OF assms]] by fastforce+

lemma prefix_roundtrip:
  assumes "prefix_wire p"
  shows "parse_prefix (prefix_display p) = Ok p" "CHR '' '' \<notin> set (prefix_display p)"
proof -
  show "parse_prefix (prefix_display p) = Ok p"
  proof (cases p)
    case (Server name)
    then show ?thesis using assms by (simp add: parse_prefix_def split_byte)
  next
    case (UserPrefix nick user host)
    have "split_at_byte (CHR ''!'') (nick @ CHR ''!'' # user @ CHR ''@'' # host) = Some (nick, user @ CHR ''@'' # host)"
      using assms UserPrefix nickname_no_delimiter by (simp add: split_byte)
    then show ?thesis using assms UserPrefix by (simp add: parse_prefix_def split_byte nickname_new_valid)
  qed
  show "CHR '' '' \<notin> set (prefix_display p)"
    using assms nickname_no_delimiter by (cases p) auto
qed

text \<open>Messages that fit the wire format.\<close>

definition message_wire :: "message \<Rightarrow> bool" where
  "message_wire m \<longleftrightarrow> (case msg_prefix m of None \<Rightarrow> True | Some p \<Rightarrow> prefix_wire p)
     \<and> command_wire (msg_command m) \<and> params_wire (msg_params m)"

definition after_prefix :: "message \<Rightarrow> string" where
  "after_prefix m = command_as_str (msg_command m)
     @ (case msg_command m of Pirc sub \<Rightarrow> CHR '' '' # subcommand_as_str sub | _ \<Rightarrow> [])
     @ params_display (msg_params m)"

lemma make_message_eq [simp]: "make_message (msg_prefix m) (msg_command m) (msg_params m) = m"
  by (simp add: make_message_def message_with_prefix_def message_new_def split: option.split)

lemma next_token_params:
  "CHR '' '' \<notin> set w \<Longrightarrow> next_token (w @ params_display ps) = (w, if ps = [] then [] else params_body ps)"
  by (simp add: params_display_body)

lemma parse_params_body:
  "params_wire ps \<Longrightarrow> parse_params (if ps = [] then [] else params_body ps) = Ok ps"
  using parse_params_display by (auto simp: parse_params_def)

lemma parse_pirc_roundtrip:
  assumes "params_wire ps"
  shows "parse_pirc_command p (subcommand_as_str sub @ params_display ps) = Ok (make_message p (Pirc sub) ps)"
proof (cases "split_at_byte (CHR '' '') (subcommand_as_str sub)")
  case None
  have "CHR '' '' \<notin> set (subcommand_as_str sub)" using None by (simp add: split_at_byte_None_iff)
  moreover have "subcommand_from_keyword (subcommand_as_str sub) = Some sub"
    "\<not> is_pirc_namespace (subcommand_as_str sub)"
    using subcommand_wire [of sub] None by simp_all
  ultimately show ?thesis
    using subcommand_word [of sub] parse_params_body [OF assms]
    by (simp add: parse_pirc_command_def next_token_params)
next
  case (Some r)
  obtain ns inner where r: "r = (ns, inner)" by (cases r)
  have sub: "is_pirc_namespace ns" "subcommand_from_namespace ns inner = Some sub"
    "CHR '' '' \<notin> set inner" "inner \<noteq> []" "hd inner \<noteq> CHR '' ''"
    using subcommand_wire [of sub] Some r by simp_all
  have str: "subcommand_as_str sub = ns @ CHR '' '' # inner" "CHR '' '' \<notin> set ns"
    using split_at_byte_Some Some r by blast+
  have "ns \<noteq> []" "hd ns \<noteq> CHR '' ''" using sub(1) by (auto simp: is_pirc_namespace_def)
  then show ?thesis
    using sub str parse_params_body [OF assms]
    by (simp add: parse_pirc_command_def next_token_params)
qed

lemma parse_command_roundtrip:
  assumes "command_wire (msg_command m)" "params_wire (msg_params m)"
  shows "parse_command (msg_prefix m) (after_prefix m) = Ok m" "after_prefix m \<noteq> []"
    "hd (after_prefix m) \<noteq> CHR '':''" "hd (after_prefix m) \<noteq> CHR '' ''" "hd (after_prefix m) \<noteq> CHR 0x09"
proof -
  have "parse_command (msg_prefix m) (after_prefix m) = Ok m \<and> after_prefix m \<noteq> []
    \<and> hd (after_prefix m) \<notin> {CHR '':'', CHR '' '', CHR 0x09}"
  proof (cases "\<exists>sub. msg_command m = Pirc sub")
    case True
    then obtain sub where sub: "msg_command m = Pirc sub" by blast
    have "after_prefix m = ''PIRC'' @ CHR '' '' # subcommand_as_str sub @ params_display (msg_params m)"
      by (simp add: after_prefix_def sub)
    moreover have "next_token (''PIRC'' @ CHR '' '' # subcommand_as_str sub @ params_display (msg_params m))
        = (''PIRC'', subcommand_as_str sub @ params_display (msg_params m))"
      by (rule next_token_space) simp
    ultimately show ?thesis
      using parse_pirc_roundtrip [OF assms(2), of "msg_prefix m" sub] make_message_eq [of m] sub
      by (simp add: parse_command_def)
  next
    case False
    then have a: "after_prefix m = command_as_str (msg_command m) @ params_display (msg_params m)"
      by (cases "msg_command m") (simp_all add: after_prefix_def)
    note c = command_roundtrip [OF assms(1)]
    have "hd (command_as_str (msg_command m)) \<notin> {CHR '':'', CHR '' '', CHR 0x09}"
      using assms(1) False command_first_byte by blast
    then show ?thesis
      using c False parse_params_body [OF assms(2)]
      by (simp add: a parse_command_def next_token_params)
  qed
  then show "parse_command (msg_prefix m) (after_prefix m) = Ok m" "after_prefix m \<noteq> []"
    "hd (after_prefix m) \<noteq> CHR '':''" "hd (after_prefix m) \<noteq> CHR '' ''" "hd (after_prefix m) \<noteq> CHR 0x09"
    by simp_all
qed

lemma strip_line_end_plain: "s = [] \<or> last s \<noteq> CHR 0x0A \<Longrightarrow> strip_line_end s = s"
  by (cases "s = []") (simp_all add: strip_line_end_def Let_def last_conv_nth)

lemma strip_line_end_crlf: "strip_line_end (s @ [CHR 0x0D, CHR 0x0A]) = s"
  by (simp add: strip_line_end_def Let_def nth_append)

lemma parse_line:
  assumes "message_wire m" "length input \<le> MAX_MESSAGE_LEN" "strip_line_end input = message_display m"
  shows "parse input = Ok m"
proof -
  have w: "command_wire (msg_command m)" "params_wire (msg_params m)" using assms(1) by (simp_all add: message_wire_def)
  note c = parse_command_roundtrip [OF w]
  show ?thesis
  proof (cases "msg_prefix m")
    case None
    then have "strip_line_end input = after_prefix m" using assms(3) by (simp add: message_display_def after_prefix_def)
    then show ?thesis using c assms(2) None by (cases "after_prefix m") (auto simp: parse_def Let_def)
  next
    case (Some p)
    then have p: "prefix_wire p" using assms(1) by (simp add: message_wire_def)
    have "strip_line_end input = CHR '':'' # prefix_display p @ CHR '' '' # after_prefix m"
      using assms(3) Some by (simp add: message_display_def after_prefix_def)
    then show ?thesis
      using c(1) assms(2) Some prefix_roundtrip [OF p] by (simp add: parse_def Let_def split_byte)
  qed
qed

section \<open>Properties\<close>

text \<open>
  C13. Printing and parsing are inverse: every message whose parts fit the wire format (a
  prefix without delimiters in its parts, a numeric of at most three digits, at most 15
  parameters of which only the last may be empty, contain spaces or start with a colon, the
  fifteenth excepted) is recovered by the parser from its printed line, with the line end
  \<open>CR LF\<close> that the transport adds, and without it unless the text itself ends in a line feed.
\<close>

theorem parse_display_roundtrip:
  assumes "message_wire m"
  shows "(length (message_display m) + 2 \<le> MAX_MESSAGE_LEN \<longrightarrow>
            parse (message_display m @ [CHR 0x0D, CHR 0x0A]) = Ok m)
    \<and> (length (message_display m) \<le> MAX_MESSAGE_LEN \<and> last (message_display m) \<noteq> CHR 0x0A \<longrightarrow>
            parse (message_display m) = Ok m)"
  using parse_line [OF assms] by (simp add: strip_line_end_crlf strip_line_end_plain)

theorem parse_display_roundtrip_witness:
  "parse (message_display \<lparr>msg_prefix = Some (Server ''s''), msg_command = Privmsg,
            msg_params = [''#a'', ''hi all'']\<rparr> @ [CHR 0x0D, CHR 0x0A])
   = Ok \<lparr>msg_prefix = Some (Server ''s''), msg_command = Privmsg, msg_params = [''#a'', ''hi all'']\<rparr>"
proof -
  have "message_wire \<lparr>msg_prefix = Some (Server ''s''), msg_command = Privmsg, msg_params = [''#a'', ''hi all'']\<rparr>"
    by (simp add: message_wire_def command_wire_def params_wire_def middle_param_def MAX_PARAMS_def)
  from parse_display_roundtrip [OF this] show ?thesis
    by (simp add: message_display_def params_display_def needs_colon_def MAX_MESSAGE_LEN_def)
qed

end
