(* ===== verification/Server_Registry.thy ===== *)
theory Server_Registry
  imports Names Protocol
begin

text \<open>
  The tables of a server: sessions (\<^verbatim>\<open>user.rs\<close>), the user registry (\<^verbatim>\<open>registry.rs\<close>), channels
  (\<^verbatim>\<open>channel.rs\<close>) and the channel registry (\<^verbatim>\<open>channel_registry.rs\<close>).

  A map keyed by \<^verbatim>\<open>Nickname\<close> or \<^verbatim>\<open>ChannelName\<close> compares keys without ASCII case and keeps the
  spelling of the key that was inserted first. It is a \<open>ci_map\<close>: the lower-case key with the
  spelling and the value. The locale \<open>ci_table\<close> states the laws of such a map that the server
  relies on, and derives the laws of the two-way user registry from them; \<open>ci_get\<close>, \<open>ci_insert\<close>,
  \<open>ci_remove\<close> provide them. A \<^verbatim>\<open>DashMap\<close> is used as such a map with atomic operations, an
  \<^verbatim>\<open>Arc<RwLock<T>>\<close> in it as the stored value, updated in place. A sender handle
  (\<^verbatim>\<open>mpsc::UnboundedSender\<close>) is the number of the connection whose queue it feeds.
\<close>

section \<open>Maps with case-insensitive keys\<close>

type_synonym 'v ci_map = "(string \<times> (string \<times> 'v)) list"

definition ci_get :: "'v ci_map \<Rightarrow> string \<Rightarrow> 'v option" where
  "ci_get m k = map_option snd (hm_get m (to_ascii_lowercase k))"

definition ci_contains :: "'v ci_map \<Rightarrow> string \<Rightarrow> bool" where
  "ci_contains m k \<longleftrightarrow> ci_get m k \<noteq> None"

definition ci_insert :: "string \<Rightarrow> 'v \<Rightarrow> 'v ci_map \<Rightarrow> 'v ci_map" where
  "ci_insert k v m =
     (let key = to_ascii_lowercase k in
      hm_insert key (case hm_get m key of None \<Rightarrow> (k, v) | Some (k0, _) \<Rightarrow> (k0, v)) m)"

definition ci_remove :: "string \<Rightarrow> 'v ci_map \<Rightarrow> 'v ci_map" where
  "ci_remove k m = hm_remove (to_ascii_lowercase k) m"

definition ci_update :: "string \<Rightarrow> ('v \<Rightarrow> 'v) \<Rightarrow> 'v ci_map \<Rightarrow> 'v ci_map" where
  "ci_update k f m = (case ci_get m k of None \<Rightarrow> m | Some v \<Rightarrow> ci_insert k (f v) m)"

definition ci_keys :: "'v ci_map \<Rightarrow> string list" where
  "ci_keys m = map (\<lambda>(_, k, _). k) m"

definition ci_values :: "'v ci_map \<Rightarrow> 'v list" where
  "ci_values m = map (\<lambda>(_, _, v). v) m"

definition ci_wf :: "'v ci_map \<Rightarrow> bool" where
  "ci_wf m \<longleftrightarrow> hm_wf m \<and> (\<forall>(key, k, v) \<in> set m. to_ascii_lowercase k = key)"

section \<open>Sessions and the user registry\<close>

record user_session =
  us_connection_id :: nat
  us_nickname :: string
  us_username :: string
  us_realname :: string
  us_hostname :: string
  us_modes :: "user_mode set"
  us_away_message :: "string option"
  us_connected_at :: nat
  us_signon_time :: nat
  us_last_active :: nat
  us_registered :: bool
  us_sender :: nat

datatype user_error =
    NickInUse string
  | InvalidNick string string
  | NotOperator
  | UserNotFound string

record user_registry =
  by_nick :: "user_session ci_map"
  by_connection :: "(nat \<times> string) list"
  connection_count :: nat

definition user_registry_new :: user_registry where
  "user_registry_new = \<lparr>by_nick = [], by_connection = [], connection_count = 0\<rparr>"

text \<open>The counter is an \<^verbatim>\<open>AtomicUsize\<close>: it wraps around.\<close>

abbreviation USIZE :: nat where "USIZE \<equiv> 18446744073709551616"

definition register :: "user_session \<Rightarrow> user_registry \<Rightarrow> (user_error + unit) \<times> user_registry" where
  "register session r =
     (let nick = us_nickname session in
      if ci_contains (by_nick r) nick then (Err (NickInUse nick), r)
      else (Ok (), r\<lparr>by_nick := ci_insert nick session (by_nick r),
                     by_connection := hm_insert (us_connection_id session) nick (by_connection r),
                     connection_count := (connection_count r + 1) mod USIZE\<rparr>))"

definition remove_by_connection :: "nat \<Rightarrow> user_registry \<Rightarrow> user_session option \<times> user_registry" where
  "remove_by_connection conn r =
     (case hm_get (by_connection r) conn of
        None \<Rightarrow> (None, r)
      | Some nick \<Rightarrow>
          (let r1 = r\<lparr>by_connection := hm_remove conn (by_connection r)\<rparr> in
           case ci_get (by_nick r1) nick of
             None \<Rightarrow> (None, r1)
           | Some session \<Rightarrow>
               (Some session, r1\<lparr>by_nick := ci_remove nick (by_nick r1),
                                 connection_count := (connection_count r1 + (USIZE - 1)) mod USIZE\<rparr>)))"

definition get_by_nick :: "user_registry \<Rightarrow> string \<Rightarrow> user_session option" where
  "get_by_nick r nick = ci_get (by_nick r) nick"

definition get_by_connection :: "user_registry \<Rightarrow> nat \<Rightarrow> user_session option" where
  "get_by_connection r conn =
     (case hm_get (by_connection r) conn of None \<Rightarrow> None | Some nick \<Rightarrow> ci_get (by_nick r) nick)"

definition nick_in_use :: "user_registry \<Rightarrow> string \<Rightarrow> bool" where
  "nick_in_use r nick = ci_contains (by_nick r) nick"

definition change_nick :: "string \<Rightarrow> string \<Rightarrow> user_registry \<Rightarrow> (user_error + unit) \<times> user_registry" where
  "change_nick old new r =
     (if nickname_eq old new then
        (Ok (), r\<lparr>by_nick := ci_update old (\<lambda>s. s\<lparr>us_nickname := new\<rparr>) (by_nick r)\<rparr>)
      else if ci_contains (by_nick r) new then (Err (NickInUse new), r)
      else case ci_get (by_nick r) old of
             None \<Rightarrow> (Err (UserNotFound old), r)
           | Some s \<Rightarrow>
               (Ok (), r\<lparr>by_nick := ci_insert new (s\<lparr>us_nickname := new\<rparr>) (ci_remove old (by_nick r)),
                         by_connection := hm_insert (us_connection_id s) new (by_connection r)\<rparr>))"

text \<open>Writing through the handle that \<^verbatim>\<open>get_by_connection\<close> returned.\<close>

definition update_session :: "nat \<Rightarrow> (user_session \<Rightarrow> user_session) \<Rightarrow> user_registry \<Rightarrow> user_registry" where
  "update_session conn f r =
     (case hm_get (by_connection r) conn of None \<Rightarrow> r
      | Some nick \<Rightarrow> r\<lparr>by_nick := ci_update nick f (by_nick r)\<rparr>)"

definition iter_sessions :: "user_registry \<Rightarrow> user_session list" where
  "iter_sessions r = ci_values (by_nick r)"

section \<open>Channels and the channel registry\<close>

datatype member_status = MsNormal | MsVoiced | MsOperator

fun member_prefix_char :: "member_status \<Rightarrow> char option" where
  "member_prefix_char MsNormal = None"
| "member_prefix_char MsVoiced = Some (CHR ''+'')"
| "member_prefix_char MsOperator = Some (CHR ''@'')"

fun member_mode_char :: "member_status \<Rightarrow> char option" where
  "member_mode_char MsNormal = None"
| "member_mode_char MsVoiced = Some (CHR ''v'')"
| "member_mode_char MsOperator = Some (CHR ''o'')"

record ban_entry =
  ban_mask :: string
  ban_who_set :: string
  ban_timestamp :: nat

record channel =
  ch_name :: string
  ch_topic :: "(string \<times> string \<times> nat) option"
  ch_modes :: "channel_mode list"
  ch_members :: "member_status ci_map"
  ch_ban_list :: "ban_entry list"
  ch_invite_list :: "unit ci_map"
  ch_key :: "string option"
  ch_user_limit :: "nat option"
  ch_created_at :: nat

definition channel_new :: "string \<Rightarrow> nat \<Rightarrow> channel" where
  "channel_new name created_at =
     \<lparr>ch_name = name, ch_topic = None, ch_modes = [], ch_members = [], ch_ban_list = [],
      ch_invite_list = [], ch_key = None, ch_user_limit = None, ch_created_at = created_at\<rparr>"

definition channel_member_count :: "channel \<Rightarrow> nat" where
  "channel_member_count ch = length (ch_members ch)"

definition channel_is_empty :: "channel \<Rightarrow> bool" where
  "channel_is_empty ch \<longleftrightarrow> ch_members ch = []"

type_synonym channel_registry = "channel ci_map"

definition channels_new :: channel_registry where "channels_new = []"

definition channels_get_or_create ::
  "string \<Rightarrow> nat \<Rightarrow> channel_registry \<Rightarrow> channel \<times> channel_registry" where
  "channels_get_or_create name now chans =
     (case ci_get chans name of
        Some ch \<Rightarrow> (ch, chans)
      | None \<Rightarrow> (channel_new name now, ci_insert name (channel_new name now) chans))"

definition channels_get :: "channel_registry \<Rightarrow> string \<Rightarrow> channel option" where
  "channels_get chans name = ci_get chans name"

definition channels_remove_if_empty :: "string \<Rightarrow> channel_registry \<Rightarrow> bool \<times> channel_registry" where
  "channels_remove_if_empty name chans =
     (case ci_get chans name of
        None \<Rightarrow> (False, chans)
      | Some ch \<Rightarrow> if channel_is_empty ch then (True, ci_remove name chans) else (False, chans))"

definition channels_list :: "channel_registry \<Rightarrow> (string \<times> nat \<times> string option) list" where
  "channels_list chans =
     map (\<lambda>(_, _, ch). (ch_name ch, channel_member_count ch, map_option fst (ch_topic ch))) chans"

definition channels_list_all :: "channel_registry \<Rightarrow> (string \<times> channel) list" where
  "channels_list_all chans = map snd chans"

definition channel_count :: "channel_registry \<Rightarrow> nat" where
  "channel_count chans = length chans"

definition channels_for_nick :: "channel_registry \<Rightarrow> string \<Rightarrow> nat" where
  "channels_for_nick chans nick =
     length (filter (\<lambda>(_, _, ch). ci_contains (ch_members ch) nick) chans)"

section \<open>Laws of case-insensitive maps\<close>

lemma nickname_eq_iff: "nickname_eq a b \<longleftrightarrow> to_ascii_lowercase a = to_ascii_lowercase b"
  by (simp add: nickname_eq_def eq_ignore_ascii_case_iff)

lemma nickname_eq_refl [simp]: "nickname_eq a a"
  by (simp add: nickname_eq_iff)

lemma nickname_eq_sym: "nickname_eq a b \<longleftrightarrow> nickname_eq b a"
  by (auto simp: nickname_eq_iff)

lemma nickname_eq_trans [trans]: "nickname_eq a b \<Longrightarrow> nickname_eq b c \<Longrightarrow> nickname_eq a c"
  by (simp add: nickname_eq_iff)

lemma nickname_eq_cong: "nickname_eq a b \<Longrightarrow> nickname_eq a c = nickname_eq b c \<and> nickname_eq c a = nickname_eq c b"
  by (auto simp: nickname_eq_iff)

lemma ci_get_ci: "nickname_eq k k' \<Longrightarrow> ci_get m k = ci_get m k'"
  by (simp add: ci_get_def nickname_eq_iff)

lemma ci_get_Nil [simp]: "ci_get [] k = None"
  by (simp add: ci_get_def)

lemma ci_get_insert [simp]:
  "ci_get (ci_insert k v m) k' = (if nickname_eq k k' then Some v else ci_get m k')"
  by (auto simp: ci_get_def ci_insert_def Let_def nickname_eq_iff split: option.splits)

lemma ci_get_remove [simp]:
  "ci_get (ci_remove k m) k' = (if nickname_eq k k' then None else ci_get m k')"
  by (auto simp: ci_get_def ci_remove_def nickname_eq_iff)

lemma ci_get_update [simp]:
  "ci_get (ci_update k f m) k' = (if nickname_eq k k' then map_option f (ci_get m k') else ci_get m k')"
  by (auto simp: ci_update_def dest: ci_get_ci [of k k' m] split: option.splits)

lemma ci_wf_Nil [simp]: "ci_wf []"
  by (simp add: ci_wf_def)

lemma ci_wfD: "ci_wf m \<Longrightarrow> hm_wf m" by (simp add: ci_wf_def)

lemma ci_wf_key: "ci_wf m \<Longrightarrow> (key, k, v) \<in> set m \<Longrightarrow> to_ascii_lowercase k = key"
  by (auto simp: ci_wf_def)

lemma ci_wf_insert [simp, intro]:
  assumes "ci_wf m"
  shows "ci_wf (ci_insert k v m)"
proof -
  have "to_ascii_lowercase k0 = to_ascii_lowercase k"
    if "map_of m (to_ascii_lowercase k) = Some (k0, v0)" for k0 v0
    using ci_wf_key [OF assms map_of_SomeD [OF that]] .
  then show ?thesis
    using assms unfolding ci_wf_def ci_insert_def Let_def
    by (auto simp: set_alist_update split: option.splits)
qed

lemma ci_wf_remove [simp, intro]: "ci_wf m \<Longrightarrow> ci_wf (ci_remove k m)"
  by (auto simp: ci_wf_def ci_remove_def AList.delete_eq distinct_map_filter)

lemma ci_wf_update [simp, intro]: "ci_wf m \<Longrightarrow> ci_wf (ci_update k f m)"
  by (auto simp: ci_update_def split: option.split)

lemma length_alist_update: "length (AList.update k v m) = (if k \<in> fst ` set m then length m else Suc (length m))"
  by (induction m) auto

lemma length_alist_delete: "hm_wf m \<Longrightarrow> length (AList.delete k m) = (if k \<in> fst ` set m then length m - 1 else length m)"
proof (induction m)
  case (Cons p m)
  have "k \<notin> fst ` set m \<Longrightarrow> AList.delete k m = m" by (simp add: delete_id)
  moreover have "k \<in> fst ` set m \<Longrightarrow> length m \<noteq> 0" by auto
  ultimately show ?case using Cons by (cases p) auto
qed simp

lemma ci_get_None_iff: "ci_get m k = None \<longleftrightarrow> to_ascii_lowercase k \<notin> fst ` set m"
  by (simp add: ci_get_def map_of_eq_None_iff)

lemma length_ci_insert: "length (ci_insert k v m) = (if ci_get m k = None then Suc (length m) else length m)"
  unfolding ci_get_None_iff ci_insert_def Let_def by (simp add: length_alist_update)

lemma length_ci_remove:
  "ci_wf m \<Longrightarrow> length (ci_remove k m) = (if ci_get m k = None then length m else length m - 1)"
  unfolding ci_get_None_iff ci_remove_def by (simp add: length_alist_delete ci_wfD)

lemma length_ci_update: "length (ci_update k f m) = length m"
  by (auto simp: ci_update_def length_ci_insert split: option.split)

lemma ci_empty_iff:
  assumes "ci_wf m"
  shows "m = [] \<longleftrightarrow> (\<forall>k. ci_get m k = None)"
proof
  assume n: "\<forall>k. ci_get m k = None"
  show "m = []"
  proof (rule ccontr)
    assume "m \<noteq> []"
    then obtain key k v where e: "(key, k, v) \<in> set m" by (cases m) auto
    then have "to_ascii_lowercase k \<in> fst ` set m" using ci_wf_key [OF assms e] by force
    with n show False unfolding ci_get_None_iff by blast
  qed
qed simp

lemma ci_get_in_set: "ci_get m k = Some v \<Longrightarrow> \<exists>k0. (to_ascii_lowercase k, k0, v) \<in> set m"
  by (auto simp: ci_get_def dest!: map_of_SomeD)

lemma in_set_ci_get: "ci_wf m \<Longrightarrow> (key, k, v) \<in> set m \<Longrightarrow> ci_get m k = Some v"
  by (auto simp: ci_get_def ci_wf_def map_of_is_SomeI)

section \<open>The two-way index\<close>

text \<open>
  The laws of a table of sessions under case-insensitive keys. From them alone: a table of
  sessions stays linked with the index from connections to nicknames when a session is
  added, removed, renamed or updated.
\<close>

locale ci_table =
  fixes get :: "'m \<Rightarrow> string \<Rightarrow> user_session option"
    and ins :: "string \<Rightarrow> user_session \<Rightarrow> 'm \<Rightarrow> 'm"
    and rem :: "string \<Rightarrow> 'm \<Rightarrow> 'm"
  assumes get_ins: "get (ins k v m) k' = (if nickname_eq k k' then Some v else get m k')"
    and get_rem: "get (rem k m) k' = (if nickname_eq k k' then None else get m k')"
    and get_ci: "nickname_eq k k' \<Longrightarrow> get m k = get m k'"
begin

definition linked :: "'m \<Rightarrow> (nat \<times> string) list \<Rightarrow> bool" where
  "linked m bc \<longleftrightarrow>
     (\<forall>c n. hm_get bc c = Some n \<longrightarrow> (\<exists>s. get m n = Some s \<and> us_connection_id s = c))
     \<and> (\<forall>k s. get m k = Some s \<longrightarrow> nickname_eq (us_nickname s) k
          \<and> (\<exists>n. hm_get bc (us_connection_id s) = Some n \<and> nickname_eq n k))"

lemma linkedD:
  assumes "linked m bc"
  shows "hm_get bc c = Some n \<Longrightarrow> \<exists>s. get m n = Some s \<and> us_connection_id s = c"
    and "get m k = Some s \<Longrightarrow> nickname_eq (us_nickname s) k"
    and "get m k = Some s \<Longrightarrow> \<exists>n. hm_get bc (us_connection_id s) = Some n \<and> nickname_eq n k"
  using assms unfolding linked_def by blast+

lemma linked_same:
  assumes "linked m bc" "get m k = Some s" "get m k' = Some s'" "us_connection_id s = us_connection_id s'"
  shows "nickname_eq k k'"
  using linkedD(3) [OF assms(1,2)] linkedD(3) [OF assms(1,3)] assms(4)
  by (metis nickname_eq_sym nickname_eq_trans option.inject)

lemma linked_add:
  assumes l: "linked m bc" and new: "get m (us_nickname s) = None" "hm_get bc (us_connection_id s) = None"
  shows "linked (ins (us_nickname s) s m) (hm_insert (us_connection_id s) (us_nickname s) bc)"
proof -
  have diff: "\<not> nickname_eq (us_nickname s) k" if "get m k = Some s'" for k s'
    using get_ci [of "us_nickname s" k m] new(1) that by auto
  have conn: "us_connection_id s' \<noteq> us_connection_id s" if "get m k = Some s'" for k s'
    using linkedD(3) [OF l that] new(2) by auto
  show ?thesis
    unfolding linked_def get_ins
    using linkedD [OF l] diff conn by (auto split: if_splits) (metis option.distinct(1))+
qed

lemma linked_del:
  assumes l: "linked m bc" and c: "hm_get bc c = Some n"
  shows "linked (rem n m) (hm_remove c bc)"
proof -
  obtain s where s: "get m n = Some s" "us_connection_id s = c" using linkedD(1) [OF l c] by blast
  have "\<not> nickname_eq n n'" if "hm_get bc c' = Some n'" "c' \<noteq> c" for c' n'
    using linkedD(1) [OF l that(1)] s that(2) get_ci [of n n' m] by auto
  moreover have "us_connection_id s' \<noteq> c" if "get m k = Some s'" "\<not> nickname_eq n k" for k s'
    using linked_same [OF l s(1) that(1)] s(2) that(2) by auto
  ultimately show ?thesis
    unfolding linked_def get_rem using linkedD [OF l] by (auto split: if_splits)
qed

lemma linked_set:
  assumes l: "linked m bc" and s: "get m k = Some s"
    and f: "us_connection_id s' = us_connection_id s" "nickname_eq (us_nickname s') (us_nickname s)"
  shows "linked (ins k s' m) bc"
  unfolding linked_def get_ins
proof (intro conjI allI impI)
  fix c n assume "hm_get bc c = Some n"
  then obtain s0 where "get m n = Some s0" "us_connection_id s0 = c" using linkedD(1) [OF l] by blast
  then show "\<exists>t. (if nickname_eq k n then Some s' else get m n) = Some t \<and> us_connection_id t = c"
    using get_ci [of k n m] s f(1) by auto
next
  fix j t assume "(if nickname_eq k j then Some s' else get m j) = Some t"
  then show "nickname_eq (us_nickname t) j" "\<exists>n. hm_get bc (us_connection_id t) = Some n \<and> nickname_eq n j"
    using linkedD(2,3) [OF l] s f get_ci [of k j m]
    by (auto split: if_splits intro: nickname_eq_trans [of _ "us_nickname s"])
qed

lemma linked_cong: "(\<And>c. hm_get bc c = hm_get bc' c) \<Longrightarrow> linked m bc = linked m bc'"
  by (simp add: linked_def)

lemma linked_move:
  assumes l: "linked m bc" and s: "get m old = Some s" and new: "get m new = None"
  shows "linked (ins new (s\<lparr>us_nickname := new\<rparr>) (rem old m)) (hm_insert (us_connection_id s) new bc)"
proof -
  obtain n where n: "hm_get bc (us_connection_id s) = Some n" "nickname_eq n old"
    using linkedD(3) [OF l s] by blast
  have l': "linked (rem n m) (hm_remove (us_connection_id s) bc)" by (rule linked_del [OF l n(1)])
  have g: "get (rem n m) k = get (rem old m) k" for k
    using n(2) by (auto simp: get_rem nickname_eq_iff)
  have l'': "linked (rem old m) (hm_remove (us_connection_id s) bc)"
    using l' unfolding linked_def g .
  have "get (rem old m) new = None" using new by (simp add: get_rem)
  from linked_add [OF l'', of "s\<lparr>us_nickname := new\<rparr>"] this
  have "linked (ins new (s\<lparr>us_nickname := new\<rparr>) (rem old m))
      (hm_insert (us_connection_id s) new (hm_remove (us_connection_id s) bc))" by simp
  then show ?thesis by (rule linked_cong [THEN iffD1, rotated]) simp
qed

end

interpretation nicks: ci_table ci_get ci_insert ci_remove
  by unfold_locales (auto dest: ci_get_ci)

definition registry_inv :: "user_registry \<Rightarrow> bool" where
  "registry_inv r \<longleftrightarrow> ci_wf (by_nick r) \<and> nicks.linked (by_nick r) (by_connection r)
     \<and> connection_count r = length (by_nick r) mod USIZE"

lemma registry_invD:
  assumes "registry_inv r"
  shows "ci_wf (by_nick r)" "nicks.linked (by_nick r) (by_connection r)"
    "connection_count r = length (by_nick r) mod USIZE"
  using assms by (simp_all add: registry_inv_def)

lemma ci_contains_iff: "ci_contains m k \<longleftrightarrow> (\<exists>v. ci_get m k = Some v)"
  by (auto simp: ci_contains_def)

lemma registry_inv_new: "registry_inv user_registry_new"
  by (simp add: registry_inv_def user_registry_new_def nicks.linked_def)

lemma registry_inv_register:
  assumes "registry_inv r" "hm_get (by_connection r) (us_connection_id s) = None"
  shows "registry_inv (snd (register s r))"
  using registry_invD [OF assms(1)] assms(2)
  by (auto simp: registry_inv_def register_def Let_def ci_contains_def length_ci_insert mod_Suc_eq
      intro: nicks.linked_add)

lemma registry_inv_remove:
  assumes "registry_inv r"
  shows "registry_inv (snd (remove_by_connection c r))"
proof (cases "hm_get (by_connection r) c")
  case None
  then show ?thesis using assms by (simp add: remove_by_connection_def)
next
  case (Some n)
  note inv = registry_invD [OF assms]
  obtain s where s: "ci_get (by_nick r) n = Some s" using nicks.linkedD(1) [OF inv(2) Some] by blast
  then have "length (by_nick r) \<noteq> 0" by auto
  then obtain l where l: "length (by_nick r) = Suc l" by (cases "length (by_nick r)") auto
  have "(connection_count r + (USIZE - 1)) mod USIZE = length (ci_remove n (by_nick r)) mod USIZE"
    using inv(1) s by (simp add: inv(3) length_ci_remove l mod_add_left_eq)
  then show ?thesis
    using Some s inv nicks.linked_del [OF inv(2) Some]
    by (simp add: remove_by_connection_def Let_def registry_inv_def)
qed

lemma linked_ci_update:
  assumes "nicks.linked m bc"
    and "\<And>s. us_connection_id (f s) = us_connection_id s"
    and "\<And>s. ci_get m k = Some s \<Longrightarrow> nickname_eq (us_nickname (f s)) (us_nickname s)"
  shows "nicks.linked (ci_update k f m) bc"
proof (cases "ci_get m k")
  case None
  then show ?thesis using assms(1) by (simp add: ci_update_def)
next
  case (Some s)
  then show ?thesis using nicks.linked_set [OF assms(1) Some assms(2) assms(3) [OF Some]]
    by (simp add: ci_update_def)
qed

lemma registry_inv_update:
  assumes "registry_inv r" "\<And>s. us_connection_id (f s) = us_connection_id s"
    "\<And>s. us_nickname (f s) = us_nickname s"
  shows "registry_inv (update_session c f r)"
  using registry_invD [OF assms(1)] assms
  by (auto simp: update_session_def registry_inv_def length_ci_update intro: linked_ci_update split: option.split)

lemma registry_inv_change_nick:
  assumes "registry_inv r"
  shows "registry_inv (snd (change_nick old new r))"
proof -
  note inv = registry_invD [OF assms]
  consider (same) "nickname_eq old new" | (used) "\<not> nickname_eq old new" "ci_contains (by_nick r) new"
    | (absent) "\<not> nickname_eq old new" "\<not> ci_contains (by_nick r) new" "ci_get (by_nick r) old = None"
    | (move) s where "\<not> nickname_eq old new" "\<not> ci_contains (by_nick r) new" "ci_get (by_nick r) old = Some s"
    by (cases "ci_get (by_nick r) old") auto
  then show ?thesis
  proof cases
    case same
    have "nicks.linked (ci_update old (us_nickname_update (\<lambda>_. new)) (by_nick r)) (by_connection r)"
      using nicks.linkedD(2) [OF inv(2)] same
      by (intro linked_ci_update [OF inv(2)]) (auto simp: nickname_eq_iff)
    then show ?thesis using same inv by (simp add: change_nick_def registry_inv_def length_ci_update)
  next
    case (move s)
    then have "nicks.linked (ci_insert new (s\<lparr>us_nickname := new\<rparr>) (ci_remove old (by_nick r)))
        (hm_insert (us_connection_id s) new (by_connection r))"
      using nicks.linked_move [OF inv(2), of old s new] by (simp add: ci_contains_def)
    moreover have "0 < length (by_nick r)" using move(3) by (cases "by_nick r") auto
    ultimately show ?thesis using move inv
      by (simp add: change_nick_def registry_inv_def length_ci_insert length_ci_remove ci_contains_def)
  qed (use assms in \<open>simp_all add: change_nick_def\<close>)
qed

lemma get_by_connection_iff:
  assumes "registry_inv r"
  shows "get_by_connection r c = Some s \<longleftrightarrow>
    us_connection_id s = c \<and> get_by_nick r (us_nickname s) = Some s"
proof
  assume a: "get_by_connection r c = Some s"
  then obtain n where n: "hm_get (by_connection r) c = Some n" "ci_get (by_nick r) n = Some s"
    by (auto simp: get_by_connection_def split: option.splits)
  note l = registry_invD(2) [OF assms]
  have "us_connection_id s = c" using nicks.linkedD(1) [OF l n(1)] n(2) by auto
  moreover have "ci_get (by_nick r) (us_nickname s) = ci_get (by_nick r) n"
    by (rule ci_get_ci [OF nicks.linkedD(2) [OF l n(2)]])
  ultimately show "us_connection_id s = c \<and> get_by_nick r (us_nickname s) = Some s"
    using n(2) by (simp add: get_by_nick_def)
next
  assume a: "us_connection_id s = c \<and> get_by_nick r (us_nickname s) = Some s"
  then obtain n where "hm_get (by_connection r) c = Some n" "nickname_eq n (us_nickname s)"
    using nicks.linkedD(3) [OF registry_invD(2) [OF assms]] by (auto simp: get_by_nick_def)
  then show "get_by_connection r c = Some s"
    using a ci_get_ci [of n "us_nickname s" "by_nick r"] by (simp add: get_by_connection_def get_by_nick_def)
qed

end
