(* ===== verification/Server_Messages.thy ===== *)
theory Server_Messages
  imports Server_Registry "HOL-Library.List_Lexorder" "HOL-Library.Char_ord"
begin

text \<open>
  What the handlers of the server send: the numeric codes of \<^verbatim>\<open>numeric.rs\<close>, \<^verbatim>\<open>send_numeric\<close>
  of \<^verbatim>\<open>handler.rs\<close> and the replies and broadcasts of \<^verbatim>\<open>handler_channel/util.rs\<close>.

  A handler returns its deliveries: the queue (a connection) and the message, in the order
  of the \<^verbatim>\<open>send\<close> calls.
\<close>

type_synonym delivery = "nat \<times> message"

section \<open>Numeric codes\<close>

definition RPL_WELCOME :: nat where "RPL_WELCOME = 1"
definition RPL_YOURHOST :: nat where "RPL_YOURHOST = 2"
definition RPL_CREATED :: nat where "RPL_CREATED = 3"
definition RPL_NAMREPLY :: nat where "RPL_NAMREPLY = 353"
definition RPL_ENDOFNAMES :: nat where "RPL_ENDOFNAMES = 366"
definition RPL_MOTD :: nat where "RPL_MOTD = 372"
definition RPL_MOTDSTART :: nat where "RPL_MOTDSTART = 375"
definition RPL_ENDOFMOTD :: nat where "RPL_ENDOFMOTD = 376"
definition RPL_UMODEIS :: nat where "RPL_UMODEIS = 221"
definition RPL_LIST :: nat where "RPL_LIST = 322"
definition RPL_LISTEND :: nat where "RPL_LISTEND = 323"
definition RPL_CHANNELMODEIS :: nat where "RPL_CHANNELMODEIS = 324"
definition RPL_AWAY :: nat where "RPL_AWAY = 301"
definition RPL_UNAWAY :: nat where "RPL_UNAWAY = 305"
definition RPL_NOWAWAY :: nat where "RPL_NOWAWAY = 306"
definition RPL_WHOISUSER :: nat where "RPL_WHOISUSER = 311"
definition RPL_WHOISSERVER :: nat where "RPL_WHOISSERVER = 312"
definition RPL_WHOISOPERATOR :: nat where "RPL_WHOISOPERATOR = 313"
definition RPL_WHOISIDLE :: nat where "RPL_WHOISIDLE = 317"
definition RPL_ENDOFWHOIS :: nat where "RPL_ENDOFWHOIS = 318"
definition RPL_NOTOPIC :: nat where "RPL_NOTOPIC = 331"
definition RPL_TOPIC :: nat where "RPL_TOPIC = 332"
definition RPL_TOPICWHOTIME :: nat where "RPL_TOPICWHOTIME = 333"
definition RPL_INVITING :: nat where "RPL_INVITING = 341"
definition RPL_YOUREOPER :: nat where "RPL_YOUREOPER = 381"
definition RPL_BANLIST :: nat where "RPL_BANLIST = 367"
definition RPL_ENDOFBANLIST :: nat where "RPL_ENDOFBANLIST = 368"
definition ERR_NOSUCHNICK :: nat where "ERR_NOSUCHNICK = 401"
definition ERR_NOSUCHCHANNEL :: nat where "ERR_NOSUCHCHANNEL = 403"
definition ERR_CANNOTSENDTOCHAN :: nat where "ERR_CANNOTSENDTOCHAN = 404"
definition ERR_TOOMANYCHANNELS :: nat where "ERR_TOOMANYCHANNELS = 405"
definition ERR_NONICKNAMEGIVEN :: nat where "ERR_NONICKNAMEGIVEN = 431"
definition ERR_ERRONEUSNICKNAME :: nat where "ERR_ERRONEUSNICKNAME = 432"
definition ERR_NICKNAMEINUSE :: nat where "ERR_NICKNAMEINUSE = 433"
definition ERR_NOMOTD :: nat where "ERR_NOMOTD = 422"
definition ERR_USERNOTINCHANNEL :: nat where "ERR_USERNOTINCHANNEL = 441"
definition ERR_NOTONCHANNEL :: nat where "ERR_NOTONCHANNEL = 442"
definition ERR_USERONCHANNEL :: nat where "ERR_USERONCHANNEL = 443"
definition ERR_NEEDMOREPARAMS :: nat where "ERR_NEEDMOREPARAMS = 461"
definition ERR_ALREADYREGISTERED :: nat where "ERR_ALREADYREGISTERED = 462"
definition ERR_PASSWDMISMATCH :: nat where "ERR_PASSWDMISMATCH = 464"
definition ERR_CHANNELISFULL :: nat where "ERR_CHANNELISFULL = 471"
definition ERR_UNKNOWNMODE :: nat where "ERR_UNKNOWNMODE = 472"
definition ERR_INVITEONLYCHAN :: nat where "ERR_INVITEONLYCHAN = 473"
definition ERR_BANNEDCHANNEL :: nat where "ERR_BANNEDCHANNEL = 474"
definition ERR_BADCHANNELKEY :: nat where "ERR_BADCHANNELKEY = 475"
definition ERR_NOPRIVILEGES :: nat where "ERR_NOPRIVILEGES = 481"
definition ERR_CHANOPRIVSNEEDED :: nat where "ERR_CHANOPRIVSNEEDED = 482"
definition ERR_NOOPERHOST :: nat where "ERR_NOOPERHOST = 491"
definition ERR_UMODEUNKNOWNFLAG :: nat where "ERR_UMODEUNKNOWNFLAG = 501"
definition ERR_USERSDONTMATCH :: nat where "ERR_USERSDONTMATCH = 502"

section \<open>Replies and broadcasts\<close>

definition SERVER_NAME :: string where "SERVER_NAME = ''pircd''"

definition send_numeric :: "nat \<Rightarrow> nat \<Rightarrow> string list \<Rightarrow> string \<Rightarrow> delivery list" where
  "send_numeric sender code params text =
     [(sender, message_with_prefix (Server SERVER_NAME) (Numeric code) (params @ [text]))]"

definition session_prefix :: "user_session \<Rightarrow> prefix" where
  "session_prefix s = UserPrefix (us_nickname s) (us_username s) (us_hostname s)"

definition send_to_nick :: "user_registry \<Rightarrow> string \<Rightarrow> message \<Rightarrow> delivery list" where
  "send_to_nick reg nick msg =
     (case get_by_nick reg nick of None \<Rightarrow> [] | Some s \<Rightarrow> [(us_sender s, msg)])"

definition broadcast_to_channel ::
  "channel \<Rightarrow> message \<Rightarrow> string option \<Rightarrow> user_registry \<Rightarrow> delivery list" where
  "broadcast_to_channel ch msg exclude reg =
     concat (map (\<lambda>member_nick.
       if (case exclude of None \<Rightarrow> False | Some e \<Rightarrow> nickname_eq e member_nick) then []
       else send_to_nick reg member_nick msg) (ci_keys (ch_members ch)))"

definition names_string :: "channel \<Rightarrow> string" where
  "names_string ch =
     join_with '' '' (sort (map (\<lambda>(_, member_nick, status).
       case member_prefix_char status of Some c \<Rightarrow> c # member_nick | None \<Rightarrow> member_nick) (ch_members ch)))"

definition send_names_reply :: "nat \<Rightarrow> string \<Rightarrow> string \<Rightarrow> channel \<Rightarrow> delivery list" where
  "send_names_reply sender nick chan_name ch =
     send_numeric sender RPL_NAMREPLY [nick, ''='', chan_name] (names_string ch)
     @ send_numeric sender RPL_ENDOFNAMES [nick, chan_name] ''End of /NAMES list''"

text \<open>The replies on the topic, shared by JOIN and TOPIC.\<close>

definition send_topic_reply :: "nat \<Rightarrow> string \<Rightarrow> string \<Rightarrow> channel \<Rightarrow> delivery list" where
  "send_topic_reply sender nick chan_name ch =
     (case ch_topic ch of
        Some (text, who, timestamp) \<Rightarrow>
          send_numeric sender RPL_TOPIC [nick, chan_name] text
          @ send_numeric sender RPL_TOPICWHOTIME [nick, chan_name, who, nat_to_string timestamp] []
      | None \<Rightarrow> send_numeric sender RPL_NOTOPIC [nick, chan_name] ''No topic is set'')"

definition send_ban_list :: "nat \<Rightarrow> string \<Rightarrow> string \<Rightarrow> channel \<Rightarrow> delivery list" where
  "send_ban_list sender nick chan_name ch =
     concat (map (\<lambda>ban. send_numeric sender RPL_BANLIST
        [nick, chan_name, ban_mask ban, ban_who_set ban, nat_to_string (ban_timestamp ban)] [])
        (ch_ban_list ch))
     @ send_numeric sender RPL_ENDOFBANLIST [nick, chan_name] ''End of channel ban list''"

text \<open>\<^verbatim>\<open>send_server_notice\<close>.\<close>

definition send_server_notice :: "nat \<Rightarrow> string \<Rightarrow> string \<Rightarrow> delivery list" where
  "send_server_notice sender nick text =
     [(sender, message_with_prefix (Server SERVER_NAME) Notice [nick, text])]"

lemma send_to_nick_Some: "get_by_nick reg n = Some s \<Longrightarrow> send_to_nick reg n m = [(us_sender s, m)]"
  by (simp add: send_to_nick_def)

end
