(* ===== verification/Glob.thy ===== *)
theory Glob
  imports Prelude
begin

text \<open>
  The iterative wildcard matcher that the server uses for masks and the scripting engine for event
  patterns, over any alphabet: \<open>any\<close> stands for one letter and \<open>star\<close> for any number of them.
  \<open>glob_loop\<close> is the loop of the source with its indices and its one remembered star; \<open>glob\<close> is the
  textbook definition of what a pattern denotes, by recursion on the pattern. The locale
  \<open>wildcards\<close> holds the laws of the matcher for two distinct wildcards.
\<close>

section \<open>The iterative matcher\<close>

text \<open>
  The loop over \<open>tx\<close>: \<open>None\<close> is the early \<^verbatim>\<open>return false\<close>, \<open>Some px\<close> the value of \<open>px\<close>
  when the text is used up. \<open>star_px\<close> is \<^verbatim>\<open>None\<close> for the sentinel \<^verbatim>\<open>usize::MAX\<close>.
\<close>

definition star_fits :: "nat \<Rightarrow> nat \<Rightarrow> nat option \<Rightarrow> nat \<Rightarrow> bool" where
  "star_fits px tx star_px star_tx \<longleftrightarrow>
     (case star_px of None \<Rightarrow> True | Some sp \<Rightarrow> sp < px \<and> star_tx \<le> tx)"

function glob_loop :: "'a \<Rightarrow> 'a \<Rightarrow> 'a list \<Rightarrow> 'a list \<Rightarrow> nat \<Rightarrow> nat \<Rightarrow> nat option \<Rightarrow> nat \<Rightarrow> nat option" where
  "glob_loop any star pb tb px tx star_px star_tx =
     (if tx < length tb then
        (if px < length pb \<and> (pb ! px = any \<or> pb ! px = tb ! tx)
         then glob_loop any star pb tb (px + 1) (tx + 1) star_px star_tx
         else if px < length pb \<and> pb ! px = star
         then glob_loop any star pb tb (px + 1) tx (Some px) tx
         else (case star_px of
                 Some sp \<Rightarrow> glob_loop any star pb tb (sp + 1) (star_tx + 1) (Some sp) (star_tx + 1)
               | None \<Rightarrow> None))
      else Some px)"
  by pat_completeness auto
termination
proof (relation "measures [\<lambda>(any, star, pb, tb, px, tx, sp, st). if star_fits px tx sp st then 0 else 1,
      \<lambda>(any, star, pb, tb, px, tx, sp, st). case sp of None \<Rightarrow> length pb + 1 | Some p \<Rightarrow> length pb - p,
      \<lambda>(any, star, pb, tb, px, tx, sp, st). length tb - (case sp of None \<Rightarrow> 0 | Some _ \<Rightarrow> st),
      \<lambda>(any, star, pb, tb, px, tx, sp, st). length tb - tx]", goal_cases)
  case 1
  then show ?case by simp
next
  case (2 any star pb tb px tx sp st)
  then show ?case by (auto simp: star_fits_def split: option.splits)
next
  case (3 any star pb tb px tx sp st)
  then show ?case by (auto simp: star_fits_def split: option.splits)
next
  case (4 any star pb tb px tx sp st p)
  then show ?case by (auto simp: star_fits_def)
qed

declare glob_loop.simps [simp del]

fun skip_stars :: "'a \<Rightarrow> 'a list \<Rightarrow> 'a list" where
  "skip_stars star [] = []"
| "skip_stars star (c # cs) = (if c = star then skip_stars star cs else c # cs)"

definition glob_accepts :: "'a \<Rightarrow> 'a \<Rightarrow> 'a list \<Rightarrow> 'a list \<Rightarrow> bool" where
  "glob_accepts any star pattern text =
     (case glob_loop any star pattern text 0 0 None 0 of
        None \<Rightarrow> False
      | Some px \<Rightarrow> skip_stars star (drop px pattern) = [])"

section \<open>What a pattern denotes\<close>

fun glob :: "'a \<Rightarrow> 'a \<Rightarrow> 'a list \<Rightarrow> 'a list \<Rightarrow> bool" where
  "glob any star [] t \<longleftrightarrow> t = []"
| "glob any star (c # p) [] \<longleftrightarrow> c = star \<and> glob any star p []"
| "glob any star (c # p) (d # t) \<longleftrightarrow>
     (if c = star then glob any star p (d # t) \<or> glob any star (c # p) t
      else (c = any \<or> c = d) \<and> glob any star p t)"

section \<open>The state of the loop\<close>

definition loop_accepts :: "'a \<Rightarrow> 'a \<Rightarrow> 'a list \<Rightarrow> 'a list \<Rightarrow> nat \<Rightarrow> nat \<Rightarrow> nat option \<Rightarrow> nat \<Rightarrow> bool" where
  "loop_accepts any star p t px tx sp st =
     (case glob_loop any star p t px tx sp st of None \<Rightarrow> False | Some q \<Rightarrow> skip_stars star (drop q p) = [])"

text \<open>What is still to be tried: the current position, or a later start of the remembered star.\<close>

definition remaining :: "'a \<Rightarrow> 'a \<Rightarrow> 'a list \<Rightarrow> 'a list \<Rightarrow> nat \<Rightarrow> nat \<Rightarrow> nat option \<Rightarrow> nat \<Rightarrow> bool" where
  "remaining any star p t px tx sp st \<longleftrightarrow> glob any star (drop px p) (drop tx t)
     \<or> (\<exists>s k. sp = Some s \<and> st < k \<and> glob any star (drop (s + 1) p) (drop k t))"

text \<open>Since the star, a star-free segment of the mask was matched byte by byte.\<close>

definition segment_matched :: "'a \<Rightarrow> 'a list \<Rightarrow> nat \<Rightarrow> nat \<Rightarrow> nat option \<Rightarrow> nat \<Rightarrow> bool" where
  "segment_matched star p px tx sp st \<longleftrightarrow> px \<le> length p
     \<and> (\<forall>s. sp = Some s \<longrightarrow> s < px \<and> st + (px - (s + 1)) = tx
              \<and> star \<notin> set (take (px - (s + 1)) (drop (s + 1) p)))"

section \<open>The matcher computes the denotation\<close>

locale wildcards =
  fixes any star :: 'a
  assumes any_star: "any \<noteq> star"
begin

lemma glob_star: "glob any star (star # p) t \<longleftrightarrow> (\<exists>k. glob any star p (drop k t))"
proof (induction t)
  case Nil
  then show ?case by simp
next
  case (Cons d t)
  have "(\<exists>k. glob any star p (drop k (d # t))) \<longleftrightarrow> glob any star p (d # t) \<or> (\<exists>k. glob any star p (drop k t))"
    by (metis drop0 drop_Suc_Cons not0_implies_Suc)
  with Cons show ?case by simp
qed

lemma glob_star_suffix: "glob any star (star # p) (drop k t) \<Longrightarrow> glob any star (star # p) t"
  by (auto simp: glob_star)

lemma glob_Nil_text: "glob any star p [] \<longleftrightarrow> skip_stars star p = []"
  by (induction p) auto

text \<open>A mask segment without stars takes as many bytes as it has.\<close>

lemma glob_segment:
  "star \<notin> set s \<Longrightarrow> glob any star (s @ p) t \<Longrightarrow> length s \<le> length t \<and> glob any star p (drop (length s) t)"
proof (induction s arbitrary: t)
  case (Cons c s)
  then show ?case by (cases t) auto
qed simp

lemma glob_at:
  assumes "px < length p" "tx < length t"
  shows "glob any star (drop px p) (drop tx t) \<longleftrightarrow>
    (if p ! px = star then glob any star (drop (px + 1) p) (drop tx t) \<or> glob any star (drop px p) (drop (tx + 1) t)
     else (p ! px = any \<or> p ! px = t ! tx) \<and> glob any star (drop (px + 1) p) (drop (tx + 1) t))"
  using assms by (simp add: Cons_nth_drop_Suc [symmetric])

lemma glob_at_star:
  assumes "px < length p" "p ! px = star"
  shows "glob any star (drop px p) (drop tx t) \<longleftrightarrow> (\<exists>k \<ge> tx. glob any star (drop (px + 1) p) (drop k t))"
proof -
  have "glob any star (drop px p) (drop tx t) \<longleftrightarrow> (\<exists>j. glob any star (drop (px + 1) p) (drop (tx + j) t))"
    using assms by (simp add: Cons_nth_drop_Suc [symmetric] glob_star add.commute)
  also have "\<dots> \<longleftrightarrow> (\<exists>k \<ge> tx. glob any star (drop (px + 1) p) (drop k t))"
    by (metis le_add1 le_iff_add)
  finally show ?thesis .
qed

lemma loop_accepts_step:
  "loop_accepts any star p t px tx sp st =
     (if tx < length t then
        (if px < length p \<and> (p ! px = any \<or> p ! px = t ! tx)
         then loop_accepts any star p t (px + 1) (tx + 1) sp st
         else if px < length p \<and> p ! px = star
         then loop_accepts any star p t (px + 1) tx (Some px) tx
         else (case sp of Some s \<Rightarrow> loop_accepts any star p t (s + 1) (st + 1) (Some s) (st + 1) | None \<Rightarrow> False))
      else skip_stars star (drop px p) = [])"
  unfolding loop_accepts_def by (subst glob_loop.simps, cases sp) auto

text \<open>The matcher never accepts a text that the mask does not denote.\<close>

lemma loop_sound: "loop_accepts any star p t px tx sp st \<Longrightarrow> remaining any star p t px tx sp st"
proof (induction a\<equiv>any b\<equiv>star p t px tx sp st rule: glob_loop.induct)
  case (1 p t px tx sp st)
  show ?case
  proof (cases "tx < length t")
    case False
    then show ?thesis
      using 1(4) by (subst (asm) loop_accepts_step) (simp add: remaining_def glob_Nil_text)
  next
    case tx: True
    consider (m) "px < length p" "p ! px = any \<or> p ! px = t ! tx"
      | (s) "\<not> (px < length p \<and> (p ! px = any \<or> p ! px = t ! tx))" "px < length p" "p ! px = star"
      | (b) "\<not> (px < length p \<and> (p ! px = any \<or> p ! px = t ! tx))"
          "\<not> (px < length p \<and> p ! px = star)" by blast
    then show ?thesis
    proof cases
      case m
      then have "remaining any star p t (px + 1) (tx + 1) sp st"
        using 1(1) [OF tx] 1(4) tx by (subst (asm) loop_accepts_step) simp
      moreover have "glob any star (drop (px + 1) p) (drop (tx + 1) t) \<Longrightarrow> glob any star (drop px p) (drop tx t)"
        using m tx glob_at_star [of px p tx t] by (auto simp: glob_at intro!: exI [of _ "tx + 1"])
      ultimately show ?thesis by (auto simp: remaining_def)
    next
      case s
      then have "remaining any star p t (px + 1) tx (Some px) tx"
        using 1(2) [OF tx] 1(4) tx by (subst (asm) loop_accepts_step) simp
      then have "glob any star (drop px p) (drop tx t)"
        unfolding remaining_def glob_at_star [OF s(2,3)] by (auto intro: less_imp_le)
      then show ?thesis by (simp add: remaining_def)
    next
      case b
      then obtain q where q: "sp = Some q" "loop_accepts any star p t (q + 1) (st + 1) (Some q) (st + 1)"
        using 1(4) tx by (subst (asm) loop_accepts_step) (auto split: option.splits)
      then have "remaining any star p t (q + 1) (st + 1) (Some q) (st + 1)" using 1(3) [OF tx b] by simp
      then show ?thesis using q(1) tx by (auto simp: remaining_def)
    qed
  qed
qed

text \<open>On a text without stars it accepts every text that the mask denotes.\<close>

lemma segment_next:
  assumes "segment_matched star p px tx sp st" "px < length p" "p ! px \<noteq> star"
  shows "segment_matched star p (px + 1) (tx + 1) sp st"
  unfolding segment_matched_def
proof (intro conjI allI impI)
  fix s assume s: "sp = Some s"
  then have sv: "s < px" "st + (px - (s + 1)) = tx" "star \<notin> set (take (px - (s + 1)) (drop (s + 1) p))"
    using assms(1) by (auto simp: segment_matched_def)
  then show "s < px + 1" "st + (px + 1 - (s + 1)) = tx + 1" by auto
  have "take (px + 1 - (s + 1)) (drop (s + 1) p) = take (px - (s + 1)) (drop (s + 1) p) @ [p ! px]"
    using sv(1) assms(2) take_Suc_conv_app_nth [of "px - (s + 1)" "drop (s + 1) p"]
    by (simp add: Suc_diff_Suc)
  then show "star \<notin> set (take (px + 1 - (s + 1)) (drop (s + 1) p))" using sv(3) assms(3) by auto
qed (use assms(2) in simp)

text \<open>A later start of the remembered star reaches the current place of the mask later.\<close>

lemma segment_later:
  assumes "segment_matched star p px tx (Some s) st" "st < k" "glob any star (drop (s + 1) p) (drop k t)"
  shows "\<exists>m > tx. glob any star (drop px p) (drop m t)"
proof -
  define seg where "seg = take (px - (s + 1)) (drop (s + 1) p)"
  have sv: "s < px" "px \<le> length p" "st + (px - (s + 1)) = tx" "star \<notin> set seg"
    using assms(1) by (auto simp: segment_matched_def seg_def)
  have len: "length seg = px - (s + 1)" using sv by (simp add: seg_def)
  have "drop (s + 1) p = seg @ drop px p"
    using sv(1) append_take_drop_id [of "px - (s + 1)" "drop (s + 1) p"] by (simp add: seg_def)
  with glob_segment [OF sv(4), of "drop px p" "drop k t"] assms(3) len
  have "length seg \<le> length t - k" "glob any star (drop px p) (drop (k + length seg) t)"
    by (simp_all add: add.commute)
  then show ?thesis using sv assms(2) len by (intro exI [of _ "k + length seg"]) auto
qed

lemma loop_complete:
  "star \<notin> set t \<Longrightarrow> segment_matched star p px tx sp st \<Longrightarrow> remaining any star p t px tx sp st \<Longrightarrow> loop_accepts any star p t px tx sp st"
proof (induction a\<equiv>any b\<equiv>star p t px tx sp st rule: glob_loop.induct)
  case (1 p t px tx sp st)
  note seg = 1(5) and rem = 1(6)
  have later: "\<exists>m > tx. glob any star (drop px p) (drop m t)" if "\<not> glob any star (drop px p) (drop tx t)"
    using that rem segment_later seg by (auto simp: remaining_def)
  show ?case
  proof (cases "tx < length t")
    case False
    then have "glob any star (drop px p) []" using later by (cases "glob any star (drop px p) (drop tx t)") auto
    then show ?thesis using False by (subst loop_accepts_step) (simp add: glob_Nil_text)
  next
    case tx: True
    then have nostar: "t ! tx \<noteq> star" using 1(4) nth_mem by metis
    consider (m) "px < length p" "p ! px = any \<or> p ! px = t ! tx"
      | (s) "\<not> (px < length p \<and> (p ! px = any \<or> p ! px = t ! tx))" "px < length p" "p ! px = star"
      | (b) "\<not> (px < length p \<and> (p ! px = any \<or> p ! px = t ! tx))"
          "\<not> (px < length p \<and> p ! px = star)" by blast
    then show ?thesis
    proof cases
      case m
      then have ns: "p ! px \<noteq> star" using nostar any_star by auto
      have "remaining any star p t (px + 1) (tx + 1) sp st"
        using rem m ns tx by (auto simp: remaining_def glob_at)
      then have "loop_accepts any star p t (px + 1) (tx + 1) sp st"
        using 1(1) [OF tx] m 1(4) segment_next [OF seg m(1) ns] by blast
      then show ?thesis using tx m by (subst loop_accepts_step) simp
    next
      case s
      have "glob any star (drop px p) (drop tx t)"
        using later glob_at_star [OF s(2,3)] by (meson less_imp_le order_trans)
      then have "remaining any star p t (px + 1) tx (Some px) tx"
        unfolding remaining_def glob_at_star [OF s(2,3)] by (auto simp: le_less)
      moreover have "segment_matched star p (px + 1) tx (Some px) tx" using s by (simp add: segment_matched_def)
      ultimately have "loop_accepts any star p t (px + 1) tx (Some px) tx" using 1(2) [OF tx s(1)] s 1(4) by blast
      then show ?thesis using tx s by (subst loop_accepts_step) simp
    next
      case b
      have "\<not> glob any star (drop px p) (drop tx t)"
      proof (cases "px < length p")
        case True
        then show ?thesis using b tx by (simp add: glob_at)
      qed (use tx in simp)
      then obtain q k where q: "sp = Some q" "st < k" "glob any star (drop (q + 1) p) (drop k t)"
        using rem by (auto simp: remaining_def)
      then have "remaining any star p t (q + 1) (st + 1) (Some q) (st + 1)"
        by (cases "k = st + 1") (auto simp: remaining_def intro!: exI [of _ k])
      moreover have "segment_matched star p (q + 1) (st + 1) (Some q) (st + 1)"
        using seg q(1) by (auto simp: segment_matched_def)
      ultimately have "loop_accepts any star p t (q + 1) (st + 1) (Some q) (st + 1)"
        using 1(3) [OF tx b q(1)] 1(4) by blast
      then show ?thesis using tx b q(1) by (subst loop_accepts_step) auto
    qed
  qed
qed

lemma glob_refl: "glob any star p p"
proof (induction p)
  case (Cons c p)
  then show ?case by (cases p; cases "c = star") (auto simp: glob_star intro: exI [of _ 1])
qed simp

text \<open>While the mask byte after the star does not occur, the star takes the text up to \<open>m\<close>.\<close>

lemma star_scan:
  assumes "tx \<le> m" "m \<le> length t" "\<And>j. tx \<le> j \<Longrightarrow> j < m \<Longrightarrow> t ! j \<noteq> p ! 1"
    and "1 < length p" "p ! 1 \<noteq> any" "p ! 1 \<noteq> star"
  shows "loop_accepts any star p t 1 tx (Some 0) tx = loop_accepts any star p t 1 m (Some 0) m"
  using assms(1,3)
proof (induction rule: inc_induct)
  case (step n)
  have "loop_accepts any star p t 1 n (Some 0) n = loop_accepts any star p t 1 (n + 1) (Some 0) (n + 1)"
    using step(2) assms(2,4,5,6) step(4) [of n] by (subst loop_accepts_step) auto
  with step show ?case by simp
qed simp

lemma accepts_sound: "glob_accepts any star p t \<Longrightarrow> glob any star p t"
  using loop_sound [of p t 0 0 None 0] by (simp add: glob_accepts_def loop_accepts_def remaining_def)

lemma accepts_complete: "star \<notin> set t \<Longrightarrow> glob any star p t \<Longrightarrow> glob_accepts any star p t"
  using loop_complete [of t p 0 0 None 0]
  by (simp add: glob_accepts_def loop_accepts_def remaining_def segment_matched_def)

end

end
