(* ===== verification/Server_Glob.thy ===== *)
theory Server_Glob
  imports Glob
begin

text \<open>
  Mask matching: \<^verbatim>\<open>glob_match\<close>, \<^verbatim>\<open>matches_ban_mask\<close> of \<^verbatim>\<open>handler_channel/util.rs\<close> (ban
  masks) and \<^verbatim>\<open>host_matches_mask\<close> of \<^verbatim>\<open>handler_oper.rs\<close> (operator host masks). The matcher is the one of
  \<open>Glob\<close> on bytes.
\<close>

abbreviation mask_denotes :: "string \<Rightarrow> string \<Rightarrow> bool" where
  "mask_denotes \<equiv> glob (CHR ''?'') (CHR ''*'')"

definition glob_match :: "string \<Rightarrow> string \<Rightarrow> bool" where
  "glob_match pattern text = glob_accepts (CHR ''?'') (CHR ''*'') pattern text"

definition matches_ban_mask :: "string \<Rightarrow> string \<Rightarrow> bool" where
  "matches_ban_mask mask' target = glob_match (to_ascii_lowercase mask') (to_ascii_lowercase target)"

section \<open>Operator host masks\<close>

fun middle_parts :: "string \<Rightarrow> nat \<Rightarrow> string list \<Rightarrow> bool" where
  "middle_parts host pos [] = True"
| "middle_parts host pos (part # parts) =
     (if part = [] then middle_parts host pos parts
      else case str_find part (drop pos host) of
        Some idx \<Rightarrow> middle_parts host (pos + (idx + length part)) parts
      | None \<Rightarrow> False)"

definition host_matches_mask :: "string \<Rightarrow> string \<Rightarrow> bool" where
  "host_matches_mask host mask' =
     (let parts = str_split (CHR ''*'') mask' in
      if length parts = 1 then host = mask'
      else if parts ! 0 \<noteq> [] \<and> \<not> starts_with host (parts ! 0) then False
      else let pos = length (parts ! 0); final = parts ! (length parts - 1) in
           if final \<noteq> [] \<and> \<not> ends_with host final then False
           else middle_parts host pos (butlast (tl parts)))"

section \<open>Ban masks\<close>

interpretation bytes: wildcards "CHR ''?''" "CHR ''*''"
  by unfold_locales simp

lemma ascii_lower_eq_iff:
  assumes "\<not> (97 \<le> (of_char b :: nat) \<and> (of_char b :: nat) \<le> 122)" "\<not> (65 \<le> (of_char b :: nat) \<and> (of_char b :: nat) \<le> 90)"
  shows "ascii_lower c = b \<longleftrightarrow> c = b"
proof
  assume eq: "ascii_lower c = b"
  show "c = b"
  proof (rule ccontr)
    assume "c \<noteq> b"
    then have "65 \<le> (of_char c :: nat)" "(of_char c :: nat) \<le> 90" "b = char_of (of_char c + 32 :: nat)"
      using eq by (auto simp: ascii_lower_def split: if_splits)
    then show False using assms(1) by simp
  qed
qed (use assms(2) in \<open>auto simp: ascii_lower_def\<close>)

lemma in_lowercase_iff:
  assumes "\<not> (97 \<le> (of_char b :: nat) \<and> (of_char b :: nat) \<le> 122)" "\<not> (65 \<le> (of_char b :: nat) \<and> (of_char b :: nat) \<le> 90)"
  shows "b \<in> set (to_ascii_lowercase s) \<longleftrightarrow> b \<in> set s"
  using ascii_lower_eq_iff [OF assms] unfolding to_ascii_lowercase_def set_map image_iff by metis

lemma lowercase_append [simp]: "to_ascii_lowercase (s @ t) = to_ascii_lowercase s @ to_ascii_lowercase t"
  by (simp add: to_ascii_lowercase_def)

text \<open>
  A ban mask bans exactly the users whose \<^verbatim>\<open>nick!user@host\<close> it denotes, ignoring case,
  as long as that text contains no \<open>*\<close>; for every text, a user who is found banned is
  denoted by the mask.
\<close>

theorem ban_mask_exact:
  shows "(matches_ban_mask m target \<longrightarrow> mask_denotes (to_ascii_lowercase m) (to_ascii_lowercase target))
    \<and> (CHR ''*'' \<notin> set target \<longrightarrow>
         matches_ban_mask m target = mask_denotes (to_ascii_lowercase m) (to_ascii_lowercase target))"
proof (intro conjI impI)
  assume "CHR ''*'' \<notin> set target"
  then have "CHR ''*'' \<notin> set (to_ascii_lowercase target)" by (subst in_lowercase_iff) simp_all
  then show "matches_ban_mask m target = mask_denotes (to_ascii_lowercase m) (to_ascii_lowercase target)"
    unfolding matches_ban_mask_def using bytes.accepts_sound bytes.accepts_complete unfolding glob_match_def by blast
qed (auto simp: matches_ban_mask_def glob_match_def intro: bytes.accepts_sound)

theorem ban_mask_exact_witness:
  "matches_ban_mask ''*!*@Evil.example'' ''Bob!u@evil.EXAMPLE''
   \<and> \<not> matches_ban_mask ''*!*@Evil.example'' ''Bob!u@good.example''"
proof -
  have "mask_denotes (to_ascii_lowercase ''*!*@Evil.example'') (to_ascii_lowercase ''Bob!u@evil.EXAMPLE'')"
    "\<not> mask_denotes (to_ascii_lowercase ''*!*@Evil.example'') (to_ascii_lowercase ''Bob!u@good.example'')"
    by code_simp+
  then show ?thesis
    using ban_mask_exact [of "''*!*@Evil.example''" "''Bob!u@evil.EXAMPLE''"]
      ban_mask_exact [of "''*!*@Evil.example''" "''Bob!u@good.example''"] by simp
qed

section \<open>Stars in the text\<close>

lemma star_text_not_matched:
  assumes "n \<noteq> []" "hd n \<noteq> CHR ''*''" "CHR ''!'' \<notin> set n \<union> set u \<union> set h" "u \<noteq> []" "hd u \<noteq> CHR ''@''"
  shows "\<not> glob_match (''*!*@'' @ h) (n @ ''!*'' @ u @ ''@'' @ h)"
proof -
  define p where "p = ''*!*@'' @ h"
  define t where "t = n @ ''!*'' @ u @ ''@'' @ h"
  have p: "p ! 0 = CHR ''*''" "p ! 1 = CHR ''!''" "p ! 2 = CHR ''*''" "p ! 3 = CHR ''@''" "4 \<le> length p"
    by (simp_all add: p_def)
  obtain c u' where u: "u = c # u'" "c \<noteq> CHR ''@''" using assms(4,5) by (cases u) auto
  have t: "t ! 0 \<noteq> CHR ''*''" "t ! length n = CHR ''!''" "t ! (length n + 1) = CHR ''*''"
    "t ! (length n + 2) = c" "length n + 2 < length t"
    using assms(1,2) by (cases n; simp add: t_def u nth_append)+
  have bang: "t ! j \<noteq> CHR ''!''" if "j < length t" "j \<noteq> length n" for j
  proof -
    have "t ! j \<in> set n \<union> set (''*'' @ u @ ''@'' @ h)"
    proof (cases "j < length n")
      case True
      then show ?thesis by (simp add: t_def nth_append)
    next
      case False
      then have "t ! j = (''*'' @ u @ ''@'' @ h) ! (j - length n - 1)" using that
        by (cases "j - length n") (auto simp: t_def nth_append)
      then show ?thesis using False that nth_mem [of "j - length n - 1" "''*'' @ u @ ''@'' @ h"]
        by (auto simp: t_def)
    qed
    then show ?thesis using assms(3) by auto
  qed
  have "loop_accepts (CHR ''?'') (CHR ''*'') p t 0 0 None 0 = loop_accepts (CHR ''?'') (CHR ''*'') p t 1 0 (Some 0) 0"
    using p t by (subst bytes.loop_accepts_step) auto
  also have "\<dots> = loop_accepts (CHR ''?'') (CHR ''*'') p t 1 (length n) (Some 0) (length n)"
    using p t bang by (intro bytes.star_scan) auto
  also have "\<dots> = loop_accepts (CHR ''?'') (CHR ''*'') p t 2 (length n + 1) (Some 0) (length n)"
    using p t by (subst bytes.loop_accepts_step) (simp add: numeral_2_eq_2)
  also have "\<dots> = loop_accepts (CHR ''?'') (CHR ''*'') p t 3 (length n + 2) (Some 0) (length n)"
    using p t by (subst bytes.loop_accepts_step) (simp add: numeral_2_eq_2 numeral_3_eq_3)
  also have "\<dots> = loop_accepts (CHR ''?'') (CHR ''*'') p t 1 (length n + 1) (Some 0) (length n + 1)"
    using p t u by (subst bytes.loop_accepts_step) auto
  also have "\<dots> = loop_accepts (CHR ''?'') (CHR ''*'') p t 1 (length t) (Some 0) (length t)"
    using p t bang by (intro bytes.star_scan) auto
  also have "\<dots> = False" by (subst bytes.loop_accepts_step) (simp add: p_def)
  finally show ?thesis by (simp add: glob_match_def glob_accepts_def loop_accepts_def p_def t_def)
qed

text \<open>
  A user evades a host ban by a username that begins with \<open>*\<close>: the matcher takes the star
  of the mask for that literal star and never lets it match more, so no mask
  \<^verbatim>\<open>*!*@host\<close> bans \<^verbatim>\<open>nick!*user@host\<close>, although it denotes it.
\<close>

theorem ban_mask_evaded:
  assumes "n \<noteq> []" "hd n \<noteq> CHR ''*''" "CHR ''!'' \<notin> set n \<union> set u \<union> set h" "u \<noteq> []" "hd u \<noteq> CHR ''@''"
  shows "\<not> matches_ban_mask (''*!*@'' @ h) (n @ ''!*'' @ u @ ''@'' @ h)
    \<and> mask_denotes (to_ascii_lowercase (''*!*@'' @ h)) (to_ascii_lowercase (n @ ''!*'' @ u @ ''@'' @ h))"
proof -
  let ?l = to_ascii_lowercase
  have l: "?l (''*!*@'' @ h) = ''*!*@'' @ ?l h"
    "?l (n @ ''!*'' @ u @ ''@'' @ h) = ?l n @ ''!*'' @ ?l u @ ''@'' @ ?l h"
    by (simp_all add: to_ascii_lowercase_def ascii_lower_def)
  have "mask_denotes (''*@'' @ ?l h) (''*'' @ ?l u @ ''@'' @ ?l h)"
    unfolding append_Cons append_Nil bytes.glob_star
    by (rule exI [of _ "length u + 1"]) (simp add: bytes.glob_refl)
  then have "mask_denotes (''!*@'' @ ?l h) (drop (length n) (?l n @ ''!*'' @ ?l u @ ''@'' @ ?l h))"
    by simp
  then have "mask_denotes (CHR ''*'' # ''!*@'' @ ?l h) (?l n @ ''!*'' @ ?l u @ ''@'' @ ?l h)"
    unfolding bytes.glob_star [of "''!*@'' @ ?l h"] by blast
  then have "mask_denotes (''*!*@'' @ ?l h) (?l n @ ''!*'' @ ?l u @ ''@'' @ ?l h)" by simp
  moreover have "\<not> glob_match (''*!*@'' @ ?l h) (?l n @ ''!*'' @ ?l u @ ''@'' @ ?l h)"
  proof (rule star_text_not_matched)
    show "?l n \<noteq> []" "?l u \<noteq> []" using assms by (simp_all add: to_ascii_lowercase_def)
    show "hd (?l n) \<noteq> CHR ''*''" "hd (?l u) \<noteq> CHR ''@''"
      using assms by (simp_all add: to_ascii_lowercase_def hd_map ascii_lower_eq_iff)
    show "CHR ''!'' \<notin> set (?l n) \<union> set (?l u) \<union> set (?l h)" using assms by (simp add: in_lowercase_iff)
  qed
  ultimately show ?thesis by (simp only: matches_ban_mask_def l) simp
qed

theorem ban_mask_evaded_witness:
  "\<not> matches_ban_mask (''*!*@'' @ ''evil.example'') (''bob'' @ ''!*'' @ ''x'' @ ''@'' @ ''evil.example'')"
  using ban_mask_evaded [of "''bob''" "''x''" "''evil.example''"] by simp

text \<open>
  An operator host mask with one star accepts a host that its two parts cover only with an
  overlap, which the mask does not denote.
\<close>

lemma oper_mask_overlap:
  "host_matches_mask ''10.0.0.1'' ''10.0.0.*.0.0.1'' \<and> \<not> mask_denotes ''10.0.0.*.0.0.1'' ''10.0.0.1''"
  by (simp add: host_matches_mask_def starts_with_def ends_with_def Let_def)

end
