(* ===== verification/Server_Channels.thy ===== *)
theory Server_Channels
  imports Server_Messages Server_Glob
begin

text \<open>
  The channel commands: \<^verbatim>\<open>handler_channel/\<close> (JOIN, PART, KICK, BAN, INVITE, TOPIC, MODE,
  PRIVMSG, NOTICE, LIST, NAMES). A handler takes the message, the number of the connection, the user
  registry, the channels and the sender's queue, and returns the channels afterwards and
  its deliveries. The wall clock in seconds is the argument \<open>now\<close>.
\<close>

section \<open>JOIN and PART\<close>

definition is_banned :: "ban_entry list \<Rightarrow> string \<Rightarrow> bool" where
  "is_banned bans user_mask \<longleftrightarrow> list_ex (\<lambda>ban. matches_ban_mask (ban_mask ban) user_mask) bans"

definition user_mask :: "user_session \<Rightarrow> string" where
  "user_mask s = us_nickname s @ ''!'' @ us_username s @ ''@'' @ us_hostname s"

abbreviation U32 :: nat where "U32 \<equiv> 4294967296"

text \<open>The restrictions of a channel that has members, in the order they are checked.\<close>

definition join_refusal :: "channel \<Rightarrow> user_session \<Rightarrow> string option \<Rightarrow> (nat \<times> string) option" where
  "join_refusal ch s key =
     (if is_banned (ch_ban_list ch) (user_mask s) then Some (ERR_BANNEDCHANNEL, ''Cannot join channel (+b)'')
      else if InviteOnly \<in> set (ch_modes ch) \<and> \<not> ci_contains (ch_invite_list ch) (us_nickname s)
      then Some (ERR_INVITEONLYCHAN, ''Cannot join channel (+i)'')
      else if ch_key ch \<noteq> None \<and> key \<noteq> ch_key ch
      then Some (ERR_BADCHANNELKEY, ''Cannot join channel (+k)'')
      else case ch_user_limit ch of
        Some limit \<Rightarrow> if length (ch_members ch) mod U32 \<ge> limit
                      then Some (ERR_CHANNELISFULL, ''Cannot join channel (+l)'') else None
      | None \<Rightarrow> None)"

definition join_member :: "user_session \<Rightarrow> channel \<Rightarrow> channel" where
  "join_member s ch =
     ch\<lparr>ch_members := ci_insert (us_nickname s)
            (if ch_members ch = [] then MsOperator else MsNormal) (ch_members ch),
        ch_invite_list := ci_remove (us_nickname s) (ch_invite_list ch)\<rparr>"

definition join_one ::
  "user_session \<Rightarrow> user_registry \<Rightarrow> nat \<Rightarrow> nat \<Rightarrow> nat \<Rightarrow> string option \<Rightarrow> string \<Rightarrow>
     nat \<times> channel_registry \<Rightarrow> (nat \<times> channel_registry) \<times> delivery list" where
  "join_one s reg sender max_channels now key raw_chan st =
     (case st of (count, chans) \<Rightarrow>
      let nick = us_nickname s; chan_str = trim raw_chan in
      if chan_str = [] then (st, [])
      else if count \<ge> max_channels
      then (st, send_numeric sender ERR_TOOMANYCHANNELS [nick, chan_str] ''You have joined too many channels'')
      else case channel_name_new chan_str of
        Err _ \<Rightarrow> (st, send_numeric sender ERR_NOSUCHCHANNEL [nick, chan_str] ''No such channel'')
      | Ok chan_name \<Rightarrow>
          (case channels_get_or_create chan_name now chans of (ch, chans1) \<Rightarrow>
             if ci_contains (ch_members ch) nick then ((count, chans1), [])
             else case (if ch_members ch = [] then None else join_refusal ch s key) of
               Some (code, text) \<Rightarrow> ((count, chans1), send_numeric sender code [nick, chan_str] text)
             | None \<Rightarrow>
                 (let ch' = join_member s ch in
                  ((count + 1, ci_update chan_name (\<lambda>_. ch') chans1),
                   broadcast_to_channel ch' (message_with_prefix (session_prefix s) Join [chan_name]) None reg
                   @ send_topic_reply sender nick chan_name ch'
                   @ send_names_reply sender nick chan_name ch'))))"

fun join_loop ::
  "user_session \<Rightarrow> user_registry \<Rightarrow> nat \<Rightarrow> nat \<Rightarrow> nat \<Rightarrow> string list \<Rightarrow> nat \<Rightarrow> string list \<Rightarrow>
     nat \<times> channel_registry \<Rightarrow> (nat \<times> channel_registry) \<times> delivery list" where
  "join_loop s reg sender max_channels now keys i [] st = (st, [])"
| "join_loop s reg sender max_channels now keys i (c # cs) st =
     (let key = (if i < length keys then Some (keys ! i) else None) in
      case join_one s reg sender max_channels now key c st of
        (st1, out1) \<Rightarrow>
          (case join_loop s reg sender max_channels now keys (i + 1) cs st1 of
             (st2, out2) \<Rightarrow> (st2, out1 @ out2)))"

definition handle_join ::
  "message \<Rightarrow> nat \<Rightarrow> user_registry \<Rightarrow> channel_registry \<Rightarrow> nat \<Rightarrow> nat \<Rightarrow> nat \<Rightarrow>
     channel_registry \<times> delivery list" where
  "handle_join msg conn reg chans sender max_channels now =
     (case get_by_connection reg conn of
        None \<Rightarrow> (chans, [])
      | Some s \<Rightarrow>
          if msg_params msg = []
          then (chans, send_numeric sender ERR_NEEDMOREPARAMS [us_nickname s, ''JOIN''] ''Not enough parameters'')
          else
            (let channel_names = str_split (CHR '','') (msg_params msg ! 0);
                 keys = (if length (msg_params msg) > 1 then str_split (CHR '','') (msg_params msg ! 1) else []);
                 count = channels_for_nick chans (us_nickname s) mod U32 in
             case join_loop s reg sender max_channels now keys 0 channel_names (count, chans) of
               ((_, chans'), out) \<Rightarrow> (chans', out)))"

definition part_member :: "string \<Rightarrow> string \<Rightarrow> channel_registry \<Rightarrow> channel_registry" where
  "part_member nick chan_name chans =
     snd (channels_remove_if_empty chan_name
       (ci_update chan_name (\<lambda>ch. ch\<lparr>ch_members := ci_remove nick (ch_members ch)\<rparr>) chans))"

definition part_one ::
  "user_session \<Rightarrow> user_registry \<Rightarrow> nat \<Rightarrow> string option \<Rightarrow> string \<Rightarrow> channel_registry \<Rightarrow>
     channel_registry \<times> delivery list" where
  "part_one s reg sender reason raw_chan chans =
     (let nick = us_nickname s; chan_str = trim raw_chan in
      if chan_str = [] then (chans, [])
      else case channel_name_new chan_str of
        Err _ \<Rightarrow> (chans, send_numeric sender ERR_NOSUCHCHANNEL [nick, chan_str] ''No such channel'')
      | Ok chan_name \<Rightarrow>
          (case channels_get chans chan_name of
             None \<Rightarrow> (chans, send_numeric sender ERR_NOSUCHCHANNEL [nick, chan_str] ''No such channel'')
           | Some ch \<Rightarrow>
               if \<not> ci_contains (ch_members ch) nick
               then (chans, send_numeric sender ERR_NOTONCHANNEL [nick, chan_str] ''You're not on that channel'')
               else
                 (part_member nick chan_name chans,
                  broadcast_to_channel ch (message_with_prefix (session_prefix s) Part
                    (chan_name # (case reason of None \<Rightarrow> [] | Some r \<Rightarrow> [r]))) None reg)))"

fun part_loop ::
  "user_session \<Rightarrow> user_registry \<Rightarrow> nat \<Rightarrow> string option \<Rightarrow> string list \<Rightarrow> channel_registry \<Rightarrow>
     channel_registry \<times> delivery list" where
  "part_loop s reg sender reason [] chans = (chans, [])"
| "part_loop s reg sender reason (c # cs) chans =
     (case part_one s reg sender reason c chans of
        (chans1, out1) \<Rightarrow>
          (case part_loop s reg sender reason cs chans1 of (chans2, out2) \<Rightarrow> (chans2, out1 @ out2)))"

definition handle_part ::
  "message \<Rightarrow> nat \<Rightarrow> user_registry \<Rightarrow> channel_registry \<Rightarrow> nat \<Rightarrow> channel_registry \<times> delivery list" where
  "handle_part msg conn reg chans sender =
     (case get_by_connection reg conn of
        None \<Rightarrow> (chans, [])
      | Some s \<Rightarrow>
          if msg_params msg = []
          then (chans, send_numeric sender ERR_NEEDMOREPARAMS [us_nickname s, ''PART''] ''Not enough parameters'')
          else part_loop s reg sender
                 (if length (msg_params msg) > 1 then Some (msg_params msg ! 1) else None)
                 (str_split (CHR '','') (msg_params msg ! 0)) chans)"

section \<open>KICK, BAN, INVITE and TOPIC\<close>

definition handle_kick ::
  "message \<Rightarrow> nat \<Rightarrow> user_registry \<Rightarrow> channel_registry \<Rightarrow> nat \<Rightarrow> channel_registry \<times> delivery list" where
  "handle_kick msg conn reg chans sender =
     (case get_by_connection reg conn of
        None \<Rightarrow> (chans, [])
      | Some s \<Rightarrow>
          (let nick = us_nickname s; params = msg_params msg in
           if length params < 2
           then (chans, send_numeric sender ERR_NEEDMOREPARAMS [nick, ''KICK''] ''Not enough parameters'')
           else
             (let chan_str = params ! 0; target_str = params ! 1;
                  reason = (if length params > 2 then params ! 2 else nick) in
              case channel_name_new chan_str of
                Err _ \<Rightarrow> (chans, send_numeric sender ERR_NOSUCHCHANNEL [nick, chan_str] ''No such channel'')
              | Ok chan_name \<Rightarrow>
                (case channels_get chans chan_name of
                   None \<Rightarrow> (chans, send_numeric sender ERR_NOSUCHCHANNEL [nick, chan_str] ''No such channel'')
                 | Some ch \<Rightarrow>
                   (case nickname_new target_str of
                      Err _ \<Rightarrow> (chans, send_numeric sender ERR_USERNOTINCHANNEL [nick, target_str, chan_str]
                                 ''They aren't on that channel'')
                    | Ok target_nick \<Rightarrow>
                      (case ci_get (ch_members ch) nick of
                         None \<Rightarrow> (chans, send_numeric sender ERR_NOTONCHANNEL [nick, chan_str]
                                    ''You're not on that channel'')
                       | Some status \<Rightarrow>
                         if status \<noteq> MsOperator
                         then (chans, send_numeric sender ERR_CHANOPRIVSNEEDED [nick, chan_str]
                                 ''You're not channel operator'')
                         else if \<not> ci_contains (ch_members ch) target_nick
                         then (chans, send_numeric sender ERR_USERNOTINCHANNEL [nick, target_str, chan_str]
                                 ''They aren't on that channel'')
                         else (part_member target_nick chan_name chans,
                               broadcast_to_channel ch (message_with_prefix (session_prefix s) Kick
                                 [chan_name, target_str, reason]) None reg)))))))"

definition remove_bans :: "string \<Rightarrow> channel \<Rightarrow> channel" where
  "remove_bans mask' ch =
     ch\<lparr>ch_ban_list := filter (\<lambda>b. \<not> eq_ignore_ascii_case (ban_mask b) mask') (ch_ban_list ch)\<rparr>"

definition add_ban :: "string \<Rightarrow> string \<Rightarrow> nat \<Rightarrow> channel \<Rightarrow> channel" where
  "add_ban mask' who now ch =
     ch\<lparr>ch_ban_list := ch_ban_list ch @ [\<lparr>ban_mask = mask', ban_who_set = who, ban_timestamp = now\<rparr>]\<rparr>"

definition handle_ban ::
  "message \<Rightarrow> nat \<Rightarrow> user_registry \<Rightarrow> channel_registry \<Rightarrow> nat \<Rightarrow> nat \<Rightarrow> channel_registry \<times> delivery list" where
  "handle_ban msg conn reg chans sender now =
     (case get_by_connection reg conn of
        None \<Rightarrow> (chans, [])
      | Some s \<Rightarrow>
          (let nick = us_nickname s; params = msg_params msg in
           if params = []
           then (chans, send_numeric sender ERR_NEEDMOREPARAMS [nick, ''BAN''] ''Not enough parameters'')
           else
             (let chan_str = params ! 0 in
              case channel_name_new chan_str of
                Err _ \<Rightarrow> (chans, send_numeric sender ERR_NOSUCHCHANNEL [nick, chan_str] ''No such channel'')
              | Ok chan_name \<Rightarrow>
                (case channels_get chans chan_name of
                   None \<Rightarrow> (chans, send_numeric sender ERR_NOSUCHCHANNEL [nick, chan_str] ''No such channel'')
                 | Some ch \<Rightarrow>
                   if length params < 2 then (chans, send_ban_list sender nick chan_name ch)
                   else
                     (case ci_get (ch_members ch) nick of
                        None \<Rightarrow> (chans, send_numeric sender ERR_NOTONCHANNEL [nick, chan_str]
                                   ''You're not on that channel'')
                      | Some status \<Rightarrow>
                        if status \<noteq> MsOperator
                        then (chans, send_numeric sender ERR_CHANOPRIVSNEEDED [nick, chan_str]
                                ''You're not channel operator'')
                        else
                          (let mask_str = params ! 1;
                               removing = (mask_str \<noteq> [] \<and> hd mask_str = CHR ''-'');
                               mask' = (if removing then tl mask_str else mask_str);
                               ch' = (if removing then remove_bans mask' ch else add_ban mask' nick now ch) in
                           (ci_update chan_name (\<lambda>_. ch') chans,
                            broadcast_to_channel ch' (message_with_prefix (session_prefix s) Mode
                              [chan_name, if removing then ''-b'' else ''+b'', mask']) None reg)))))))"

definition handle_invite ::
  "message \<Rightarrow> nat \<Rightarrow> user_registry \<Rightarrow> channel_registry \<Rightarrow> nat \<Rightarrow> channel_registry \<times> delivery list" where
  "handle_invite msg conn reg chans sender =
     (case get_by_connection reg conn of
        None \<Rightarrow> (chans, [])
      | Some s \<Rightarrow>
          (let nick = us_nickname s; params = msg_params msg in
           if length params < 2
           then (chans, send_numeric sender ERR_NEEDMOREPARAMS [nick, ''INVITE''] ''Not enough parameters'')
           else
             (let target_str = params ! 0; chan_str = params ! 1 in
              case nickname_new target_str of
                Err _ \<Rightarrow> (chans, send_numeric sender ERR_NOSUCHNICK [nick, target_str] ''No such nick/channel'')
              | Ok target_nick \<Rightarrow>
                if get_by_nick reg target_nick = None
                then (chans, send_numeric sender ERR_NOSUCHNICK [nick, target_str] ''No such nick/channel'')
                else
                  (case channel_name_new chan_str of
                     Err _ \<Rightarrow> (chans, send_numeric sender ERR_NOSUCHCHANNEL [nick, chan_str] ''No such channel'')
                   | Ok chan_name \<Rightarrow>
                     (case channels_get chans chan_name of
                        None \<Rightarrow> (chans, send_numeric sender ERR_NOSUCHCHANNEL [nick, chan_str] ''No such channel'')
                      | Some ch \<Rightarrow>
                        (case ci_get (ch_members ch) nick of
                           None \<Rightarrow> (chans, send_numeric sender ERR_NOTONCHANNEL [nick, chan_str]
                                      ''You're not on that channel'')
                         | Some status \<Rightarrow>
                           if InviteOnly \<in> set (ch_modes ch) \<and> status \<noteq> MsOperator
                           then (chans, send_numeric sender ERR_CHANOPRIVSNEEDED [nick, chan_str]
                                   ''You're not channel operator'')
                           else if ci_contains (ch_members ch) target_nick
                           then (chans, send_numeric sender ERR_USERONCHANNEL [nick, target_str, chan_str]
                                   ''is already on channel'')
                           else
                             (ci_update chan_name (\<lambda>ch. ch\<lparr>ch_invite_list :=
                                 ci_insert target_nick () (ch_invite_list ch)\<rparr>) chans,
                              send_numeric sender RPL_INVITING [nick, target_str, chan_str] []
                              @ send_to_nick reg target_nick (message_with_prefix (session_prefix s) Invite
                                  [target_str, chan_str]))))))))"

definition handle_topic ::
  "message \<Rightarrow> nat \<Rightarrow> user_registry \<Rightarrow> channel_registry \<Rightarrow> nat \<Rightarrow> nat \<Rightarrow> channel_registry \<times> delivery list" where
  "handle_topic msg conn reg chans sender now =
     (case get_by_connection reg conn of
        None \<Rightarrow> (chans, [])
      | Some s \<Rightarrow>
          (let nick = us_nickname s; params = msg_params msg in
           if params = []
           then (chans, send_numeric sender ERR_NEEDMOREPARAMS [nick, ''TOPIC''] ''Not enough parameters'')
           else
             (let chan_str = params ! 0 in
              case channel_name_new chan_str of
                Err _ \<Rightarrow> (chans, send_numeric sender ERR_NOSUCHCHANNEL [nick, chan_str] ''No such channel'')
              | Ok chan_name \<Rightarrow>
                (case channels_get chans chan_name of
                   None \<Rightarrow> (chans, send_numeric sender ERR_NOSUCHCHANNEL [nick, chan_str] ''No such channel'')
                 | Some ch \<Rightarrow>
                   if \<not> ci_contains (ch_members ch) nick
                   then (chans, send_numeric sender ERR_NOTONCHANNEL [nick, chan_str] ''You're not on that channel'')
                   else if length params < 2 then (chans, send_topic_reply sender nick chan_name ch)
                   else if TopicProtected \<in> set (ch_modes ch) \<and> ci_get (ch_members ch) nick \<noteq> Some MsOperator
                   then (chans, send_numeric sender ERR_CHANOPRIVSNEEDED [nick, chan_str] ''You're not channel operator'')
                   else
                     (let new_topic = params ! 1;
                          ch' = ch\<lparr>ch_topic := (if new_topic = [] then None else Some (new_topic, nick, now))\<rparr> in
                      (ci_update chan_name (\<lambda>_. ch') chans,
                       broadcast_to_channel ch' (message_with_prefix (session_prefix s) Topic
                         [chan_name, new_topic]) None reg))))))"

section \<open>MODE on a channel\<close>

text \<open>The variables of the loop over the mode string.\<close>

record mode_state =
  mo_channel :: channel
  mo_param_idx :: nat
  mo_adding :: bool
  mo_applied_modes :: string
  mo_applied_params :: "string list"
  mo_last_dir :: "bool option"

definition push_mode :: "char \<Rightarrow> mode_state \<Rightarrow> mode_state" where
  "push_mode c st =
     st\<lparr>mo_applied_modes := mo_applied_modes st
           @ (if mo_last_dir st \<noteq> Some (mo_adding st) then [if mo_adding st then CHR ''+'' else CHR ''-''] else [])
           @ [c],
        mo_last_dir := Some (mo_adding st)\<rparr>"

definition push_mode_param :: "char \<Rightarrow> string \<Rightarrow> mode_state \<Rightarrow> mode_state" where
  "push_mode_param c param st =
     (let st1 = push_mode c st in
      st1\<lparr>mo_applied_params := mo_applied_params st1 @ [param], mo_param_idx := mo_param_idx st1 + 1\<rparr>)"

definition mode_param :: "string list \<Rightarrow> mode_state \<Rightarrow> string option" where
  "mode_param ps st = (if mo_param_idx st < length ps then Some (ps ! mo_param_idx st) else None)"

definition flag_mode :: "char \<Rightarrow> channel_mode option" where
  "flag_mode c = map_of [(CHR ''i'', InviteOnly), (CHR ''m'', Moderated), (CHR ''n'', NoExternalMessages),
     (CHR ''s'', Secret), (CHR ''t'', TopicProtected)] c"

definition mode_flag :: "char \<Rightarrow> channel_mode \<Rightarrow> mode_state \<Rightarrow> mode_state" where
  "mode_flag c mode st =
     push_mode c (st\<lparr>mo_channel := (mo_channel st)\<lparr>ch_modes :=
        (if mo_adding st then List.insert mode (ch_modes (mo_channel st))
         else removeAll mode (ch_modes (mo_channel st)))\<rparr>\<rparr>)"

definition mode_key :: "string list \<Rightarrow> mode_state \<Rightarrow> mode_state" where
  "mode_key ps st =
     (if mo_adding st then
        (case mode_param ps st of
           None \<Rightarrow> st
         | Some key \<Rightarrow> push_mode_param (CHR ''k'') key (st\<lparr>mo_channel := (mo_channel st)\<lparr>ch_key := Some key\<rparr>\<rparr>))
      else
        (let st1 = push_mode (CHR ''k'') (st\<lparr>mo_channel := (mo_channel st)\<lparr>ch_key := None\<rparr>\<rparr>) in
         if mode_param ps st1 \<noteq> None then st1\<lparr>mo_param_idx := mo_param_idx st1 + 1\<rparr> else st1))"

definition mode_limit :: "string list \<Rightarrow> mode_state \<Rightarrow> mode_state" where
  "mode_limit ps st =
     (if mo_adding st then
        (case mode_param ps st of
           None \<Rightarrow> st
         | Some limit_str \<Rightarrow>
             (case parse_unsigned U32_MAX limit_str of
                None \<Rightarrow> st
              | Some limit \<Rightarrow>
                  push_mode_param (CHR ''l'') limit_str (st\<lparr>mo_channel := (mo_channel st)\<lparr>ch_user_limit := Some limit\<rparr>\<rparr>)))
      else push_mode (CHR ''l'') (st\<lparr>mo_channel := (mo_channel st)\<lparr>ch_user_limit := None\<rparr>\<rparr>))"

definition mode_ban :: "string \<Rightarrow> nat \<Rightarrow> string list \<Rightarrow> mode_state \<Rightarrow> mode_state" where
  "mode_ban nick now ps st =
     (case mode_param ps st of
        None \<Rightarrow> st
      | Some mask' \<Rightarrow>
          push_mode_param (CHR ''b'') mask' (st\<lparr>mo_channel :=
             (if mo_adding st then add_ban mask' nick now (mo_channel st)
              else remove_bans mask' (mo_channel st))\<rparr>))"

definition mode_status ::
  "nat \<Rightarrow> string \<Rightarrow> string \<Rightarrow> char \<Rightarrow> string list \<Rightarrow> mode_state \<Rightarrow> mode_state \<times> delivery list" where
  "mode_status sender nick chan_str c ps st =
     (case mode_param ps st of
        None \<Rightarrow> (st, [])
      | Some target_str \<Rightarrow>
          (let st1 = st\<lparr>mo_param_idx := mo_param_idx st + 1\<rparr> in
           case nickname_new target_str of
             Err _ \<Rightarrow> (st1, [])
           | Ok target_nick \<Rightarrow>
               if \<not> ci_contains (ch_members (mo_channel st1)) target_nick
               then (st1, send_numeric sender ERR_USERNOTINCHANNEL [nick, target_str, chan_str]
                       ''They aren't on that channel'')
               else
                 (let new_status = (if mo_adding st1 then (if c = CHR ''o'' then MsOperator else MsVoiced)
                                    else MsNormal);
                      ch = mo_channel st1;
                      st2 = push_mode c (st1\<lparr>mo_channel :=
                              ch\<lparr>ch_members := ci_insert target_nick new_status (ch_members ch)\<rparr>\<rparr>) in
                  (st2\<lparr>mo_applied_params := mo_applied_params st2 @ [target_str]\<rparr>, []))))"

definition mode_step ::
  "nat \<Rightarrow> string \<Rightarrow> string \<Rightarrow> nat \<Rightarrow> string list \<Rightarrow> string \<Rightarrow> mode_state \<Rightarrow> mode_state \<times> delivery list" where
  "mode_step sender nick chan_str now ps ch st =
     (if ch = ''+'' then (st\<lparr>mo_adding := True\<rparr>, [])
      else if ch = ''-'' then (st\<lparr>mo_adding := False\<rparr>, [])
      else case (if length ch = 1 then flag_mode (hd ch) else None) of
        Some mode \<Rightarrow> (mode_flag (hd ch) mode st, [])
      | None \<Rightarrow>
          if ch = ''k'' then (mode_key ps st, [])
          else if ch = ''l'' then (mode_limit ps st, [])
          else if ch = ''b'' then (mode_ban nick now ps st, [])
          else if ch = ''o'' \<or> ch = ''v'' then mode_status sender nick chan_str (hd ch) ps st
          else (st, send_numeric sender ERR_UNKNOWNMODE [nick, ch] ''is unknown mode char to me''))"

fun mode_loop ::
  "nat \<Rightarrow> string \<Rightarrow> string \<Rightarrow> nat \<Rightarrow> string list \<Rightarrow> string list \<Rightarrow> mode_state \<Rightarrow> mode_state \<times> delivery list" where
  "mode_loop sender nick chan_str now ps [] st = (st, [])"
| "mode_loop sender nick chan_str now ps (c # cs) st =
     (case mode_step sender nick chan_str now ps c st of
        (st1, out1) \<Rightarrow>
          (case mode_loop sender nick chan_str now ps cs st1 of (st2, out2) \<Rightarrow> (st2, out1 @ out2)))"

definition format_channel_modes :: "channel \<Rightarrow> string" where
  "format_channel_modes ch =
     ''+'' @ sort (map channel_mode_char (ch_modes ch))
     @ (case ch_key ch of None \<Rightarrow> [] | Some _ \<Rightarrow> ''k'')
     @ (case ch_user_limit ch of None \<Rightarrow> [] | Some _ \<Rightarrow> ''l'')
     @ (case ch_key ch of None \<Rightarrow> [] | Some key \<Rightarrow> '' '' @ key)
     @ (case ch_user_limit ch of None \<Rightarrow> [] | Some limit \<Rightarrow> '' '' @ nat_to_string limit)"

definition handle_channel_mode ::
  "message \<Rightarrow> nat \<Rightarrow> user_registry \<Rightarrow> channel_registry \<Rightarrow> nat \<Rightarrow> nat \<Rightarrow> channel_registry \<times> delivery list" where
  "handle_channel_mode msg conn reg chans sender now =
     (case get_by_connection reg conn of
        None \<Rightarrow> (chans, [])
      | Some s \<Rightarrow>
          (let nick = us_nickname s; params = msg_params msg; chan_str = params ! 0 in
           case channel_name_new chan_str of
             Err _ \<Rightarrow> (chans, send_numeric sender ERR_NOSUCHCHANNEL [nick, chan_str] ''No such channel'')
           | Ok chan_name \<Rightarrow>
             (case channels_get chans chan_name of
                None \<Rightarrow> (chans, send_numeric sender ERR_NOSUCHCHANNEL [nick, chan_str] ''No such channel'')
              | Some ch \<Rightarrow>
                if length params < 2
                then (chans, send_numeric sender RPL_CHANNELMODEIS [nick, chan_name, format_channel_modes ch] [])
                else if (params ! 1 = ''+b'' \<or> params ! 1 = ''b'') \<and> length params < 3
                then (chans, send_ban_list sender nick chan_name ch)
                else
                  (case ci_get (ch_members ch) nick of
                     None \<Rightarrow> (chans, send_numeric sender ERR_NOTONCHANNEL [nick, chan_str]
                                ''You're not on that channel'')
                   | Some status \<Rightarrow>
                     if status \<noteq> MsOperator
                     then (chans, send_numeric sender ERR_CHANOPRIVSNEEDED [nick, chan_str]
                             ''You're not channel operator'')
                     else
                       (case mode_loop sender nick chan_str now (drop 2 params) (str_chars (params ! 1))
                               \<lparr>mo_channel = ch, mo_param_idx = 0, mo_adding = True, mo_applied_modes = [],
                                mo_applied_params = [], mo_last_dir = None\<rparr> of
                          (st, out) \<Rightarrow>
                            (ci_update chan_name (\<lambda>_. mo_channel st) chans,
                             out @ (if mo_applied_modes st = [] then []
                                    else broadcast_to_channel (mo_channel st)
                                           (message_with_prefix (session_prefix s) Mode
                                             ([chan_name, mo_applied_modes st] @ mo_applied_params st)) None reg)))))))"

section \<open>PRIVMSG, NOTICE, LIST and NAMES\<close>

definition may_speak :: "channel \<Rightarrow> string \<Rightarrow> bool" where
  "may_speak ch nick \<longleftrightarrow>
     \<not> (\<not> ci_contains (ch_members ch) nick \<and> NoExternalMessages \<in> set (ch_modes ch))
     \<and> (Moderated \<in> set (ch_modes ch) \<longrightarrow>
          (case ci_get (ch_members ch) nick of
             Some MsOperator \<Rightarrow> True | Some MsVoiced \<Rightarrow> True | _ \<Rightarrow> False))"

definition handle_channel_message ::
  "string \<Rightarrow> string \<Rightarrow> user_session \<Rightarrow> user_registry \<Rightarrow> channel_registry \<Rightarrow> nat \<Rightarrow> command \<Rightarrow> delivery list" where
  "handle_channel_message target text s reg chans sender cmd =
     (let nick = us_nickname s;
          refused = send_numeric sender ERR_CANNOTSENDTOCHAN [nick, target] ''Cannot send to channel'' in
      case channel_name_new target of
        Err _ \<Rightarrow> refused
      | Ok chan_name \<Rightarrow>
          (case channels_get chans chan_name of
             None \<Rightarrow> refused
           | Some ch \<Rightarrow>
               if \<not> may_speak ch nick then refused
               else broadcast_to_channel ch (message_with_prefix (session_prefix s) cmd [target, text])
                      (Some nick) reg))"

definition handle_user_message ::
  "string \<Rightarrow> string \<Rightarrow> user_session \<Rightarrow> user_registry \<Rightarrow> nat \<Rightarrow> command \<Rightarrow> delivery list" where
  "handle_user_message target text s reg sender cmd =
     (let nick = us_nickname s;
          refused = send_numeric sender ERR_NOSUCHNICK [nick, target] ''No such nick/channel'' in
      case nickname_new target of
        Err _ \<Rightarrow> refused
      | Ok target_nick \<Rightarrow>
          (case get_by_nick reg target_nick of
             None \<Rightarrow> refused
           | Some t \<Rightarrow>
               (us_sender t, message_with_prefix (session_prefix s) cmd [target, text])
               # (if cmd = Privmsg
                  then (case us_away_message t of None \<Rightarrow> []
                        | Some away \<Rightarrow> send_numeric sender RPL_AWAY [nick, target] away)
                  else [])))"

definition handle_message_command ::
  "message \<Rightarrow> nat \<Rightarrow> user_registry \<Rightarrow> channel_registry \<Rightarrow> nat \<Rightarrow> command \<Rightarrow> delivery list" where
  "handle_message_command msg conn reg chans sender cmd =
     (case get_by_connection reg conn of
        None \<Rightarrow> []
      | Some s \<Rightarrow>
          (let params = msg_params msg in
           if length params < 2
           then send_numeric sender ERR_NEEDMOREPARAMS [us_nickname s, command_as_str cmd] ''Not enough parameters''
           else
             (let target = params ! 0; text = params ! 1 in
              if starts_with target ''#'' \<or> starts_with target ''&''
              then handle_channel_message target text s reg chans sender cmd
              else handle_user_message target text s reg sender cmd)))"

definition handle_privmsg ::
  "message \<Rightarrow> nat \<Rightarrow> user_registry \<Rightarrow> channel_registry \<Rightarrow> nat \<Rightarrow> delivery list" where
  "handle_privmsg msg conn reg chans sender = handle_message_command msg conn reg chans sender Privmsg"

definition handle_notice ::
  "message \<Rightarrow> nat \<Rightarrow> user_registry \<Rightarrow> channel_registry \<Rightarrow> nat \<Rightarrow> delivery list" where
  "handle_notice msg conn reg chans sender = handle_message_command msg conn reg chans sender Notice"

definition list_entry :: "nat \<Rightarrow> string \<Rightarrow> string list option \<Rightarrow> string \<times> channel \<Rightarrow> delivery list" where
  "list_entry sender nick filters entry =
     (case entry of (chan_name, ch) \<Rightarrow>
        if (case filters of None \<Rightarrow> False
            | Some fs \<Rightarrow> \<not> list_ex (\<lambda>f. eq_ignore_ascii_case f chan_name) fs) then []
        else if Secret \<in> set (ch_modes ch) \<and> \<not> ci_contains (ch_members ch) nick then []
        else send_numeric sender RPL_LIST [nick, chan_name, nat_to_string (channel_member_count ch)]
               (case ch_topic ch of None \<Rightarrow> [] | Some (text, _) \<Rightarrow> text))"

definition handle_list ::
  "message \<Rightarrow> nat \<Rightarrow> user_registry \<Rightarrow> channel_registry \<Rightarrow> nat \<Rightarrow> delivery list" where
  "handle_list msg conn reg chans sender =
     (case get_by_connection reg conn of
        None \<Rightarrow> []
      | Some s \<Rightarrow>
          (let filters = (case msg_params msg of [] \<Rightarrow> None | p # _ \<Rightarrow> Some (str_split (CHR '','') p)) in
           concat (map (list_entry sender (us_nickname s) filters) (channels_list_all chans))
           @ send_numeric sender RPL_LISTEND [us_nickname s] ''End of /LIST''))"

definition names_one :: "nat \<Rightarrow> string \<Rightarrow> channel_registry \<Rightarrow> string \<Rightarrow> delivery list" where
  "names_one sender nick chans chan_str =
     (case channel_name_new chan_str of
        Err _ \<Rightarrow> []
      | Ok chan_name \<Rightarrow>
          (case channels_get chans chan_name of
             Some ch \<Rightarrow> send_names_reply sender nick chan_name ch
           | None \<Rightarrow> send_numeric sender RPL_ENDOFNAMES [nick, chan_str] ''End of /NAMES list''))"

definition handle_names ::
  "message \<Rightarrow> nat \<Rightarrow> user_registry \<Rightarrow> channel_registry \<Rightarrow> nat \<Rightarrow> delivery list" where
  "handle_names msg conn reg chans sender =
     (case get_by_connection reg conn of
        None \<Rightarrow> []
      | Some s \<Rightarrow>
          (let nick = us_nickname s in
           case msg_params msg of
             [] \<Rightarrow> concat (map (\<lambda>(chan_name, ch).
                     if ci_contains (ch_members ch) nick then send_names_reply sender nick chan_name ch else [])
                     (channels_list_all chans))
           | p # _ \<Rightarrow> concat (map (names_one sender nick chans) (str_split (CHR '','') p))))"

section \<open>Leaving all channels\<close>

definition server_remove_user_from_all_channels :: "string \<Rightarrow> channel_registry \<Rightarrow> channel_registry" where
  "server_remove_user_from_all_channels nick chans =
     fold (\<lambda>(chan_name, _, _). part_member nick chan_name) (channels_list chans) chans"

end
