(* ===== verification/Server_Stores.thy ===== *)
theory Server_Stores
  imports Server_Registry
begin

text \<open>
  The stores of the server beside the registries: messages for offline users
  (\<^verbatim>\<open>offline_store.rs\<close>), pre-key bundles with their chunked uploads (\<^verbatim>\<open>prekey_store.rs\<close>) and
  group chats (\<^verbatim>\<open>group_registry.rs\<close>).
\<close>

section \<open>Messages for offline users\<close>

record queued_message =
  qm_message :: message
  qm_queued_at :: nat
  qm_size :: nat

record offline_store =
  os_queues :: "queued_message list ci_map"
  os_max_messages_per_user :: nat
  os_max_total_bytes :: nat
  os_message_ttl :: nat
  os_total_bytes :: nat

definition offline_store_new :: "nat \<Rightarrow> nat \<Rightarrow> nat \<Rightarrow> offline_store" where
  "offline_store_new max_messages max_bytes ttl =
     \<lparr>os_queues = [], os_max_messages_per_user = max_messages, os_max_total_bytes = max_bytes,
      os_message_ttl = ttl, os_total_bytes = 0\<rparr>"

definition estimate_message_size :: "message \<Rightarrow> nat" where
  "estimate_message_size m = length (message_display m)"

definition qm_fresh :: "offline_store \<Rightarrow> nat \<Rightarrow> queued_message \<Rightarrow> bool" where
  "qm_fresh st now qm \<longleftrightarrow> now - qm_queued_at qm < os_message_ttl st"

definition sub_bytes :: "nat \<Rightarrow> offline_store \<Rightarrow> offline_store" where
  "sub_bytes freed st = st\<lparr>os_total_bytes := (os_total_bytes st + (USIZE - freed mod USIZE)) mod USIZE\<rparr>"

definition queue_message :: "string \<Rightarrow> message \<Rightarrow> nat \<Rightarrow> offline_store \<Rightarrow> bool \<times> offline_store" where
  "queue_message nick m now st =
     (let size = estimate_message_size m in
      if os_total_bytes st + size > os_max_total_bytes st then (False, st)
      else
        (let old = (case ci_get (os_queues st) nick of None \<Rightarrow> [] | Some q \<Rightarrow> q);
             queue = filter (qm_fresh st now) old;
             freed = sum_list (map qm_size (filter (\<lambda>qm. \<not> qm_fresh st now qm) old));
             st1 = (if freed > 0 then sub_bytes freed st else st) in
         if length queue \<ge> os_max_messages_per_user st1
         then (False, st1\<lparr>os_queues := ci_insert nick queue (os_queues st1)\<rparr>)
         else (True, st1\<lparr>os_total_bytes := (os_total_bytes st1 + size) mod USIZE,
                         os_queues := ci_insert nick
                           (queue @ [\<lparr>qm_message = m, qm_queued_at = now, qm_size = size\<rparr>]) (os_queues st1)\<rparr>)))"

definition take_messages :: "string \<Rightarrow> nat \<Rightarrow> offline_store \<Rightarrow> message list \<times> offline_store" where
  "take_messages nick now st =
     (case ci_get (os_queues st) nick of
        None \<Rightarrow> ([], st)
      | Some queue \<Rightarrow>
          (map qm_message (filter (qm_fresh st now) queue),
           sub_bytes (sum_list (map qm_size queue)) (st\<lparr>os_queues := ci_remove nick (os_queues st)\<rparr>)))"

section \<open>Pre-key bundles\<close>

record prekey_store =
  pk_bundles :: "string ci_map"
  pk_chunk_buffer :: "(string option list \<times> nat) ci_map"

definition prekey_store_new :: prekey_store where
  "prekey_store_new = \<lparr>pk_bundles = [], pk_chunk_buffer = []\<rparr>"

definition add_bundle_chunk ::
  "string \<Rightarrow> string \<Rightarrow> nat \<Rightarrow> nat \<Rightarrow> prekey_store \<Rightarrow> string option \<times> prekey_store" where
  "add_bundle_chunk nick chunk n total_chunks st =
     (let entry = (case ci_get (pk_chunk_buffer st) nick of
                     None \<Rightarrow> (replicate total_chunks None, total_chunks) | Some e \<Rightarrow> e);
          entry1 = (if snd entry \<noteq> total_chunks then (replicate total_chunks None, total_chunks) else entry);
          slots = (if 1 \<le> n \<and> n \<le> total_chunks then (fst entry1)[n - 1 := Some chunk] else fst entry1) in
      if list_all (\<lambda>c. c \<noteq> None) slots
      then (Some (concat (map (\<lambda>c. case c of None \<Rightarrow> [] | Some x \<Rightarrow> x) slots)),
            st\<lparr>pk_chunk_buffer := ci_remove nick (pk_chunk_buffer st)\<rparr>)
      else (None, st\<lparr>pk_chunk_buffer := ci_insert nick (slots, snd entry1) (pk_chunk_buffer st)\<rparr>))"

definition store_bundle :: "string \<Rightarrow> string \<Rightarrow> prekey_store \<Rightarrow> prekey_store" where
  "store_bundle nick data st = st\<lparr>pk_bundles := ci_insert nick data (pk_bundles st)\<rparr>"

definition get_bundle :: "prekey_store \<Rightarrow> string \<Rightarrow> string option" where
  "get_bundle st nick = ci_get (pk_bundles st) nick"

definition remove_bundle :: "string \<Rightarrow> prekey_store \<Rightarrow> prekey_store" where
  "remove_bundle nick st = st\<lparr>pk_bundles := ci_remove nick (pk_bundles st)\<rparr>"

section \<open>Group chats\<close>

record server_group_member =
  sgm_nickname :: string
  sgm_joined_at :: nat
  sgm_is_admin :: bool

record server_group =
  sg_id :: nat
  sg_name :: string
  sg_creator :: string
  sg_members :: "(string \<times> server_group_member) list"

record remove_member_result =
  rm_remaining :: "string list"
  rm_new_admin :: "string option"
  rm_group_destroyed :: bool

record group_registry =
  gr_groups :: "(nat \<times> server_group) list"
  gr_next_id :: nat

definition group_registry_new :: group_registry where
  "group_registry_new = \<lparr>gr_groups = [], gr_next_id = 1\<rparr>"

definition sg_contains :: "server_group \<Rightarrow> string \<Rightarrow> bool" where
  "sg_contains g nickname \<longleftrightarrow> hm_get (sg_members g) nickname \<noteq> None"

text \<open>\<^verbatim>\<open>Iterator::min_by_key\<close>: the first of the least elements.\<close>

fun min_by_key :: "('a \<Rightarrow> nat) \<Rightarrow> 'a list \<Rightarrow> 'a option" where
  "min_by_key f [] = None"
| "min_by_key f (x # xs) =
     (case min_by_key f xs of None \<Rightarrow> Some x | Some y \<Rightarrow> if f y < f x then Some y else Some x)"

definition longest_tenured_member :: "server_group \<Rightarrow> string \<Rightarrow> server_group_member option" where
  "longest_tenured_member g exclude =
     min_by_key sgm_joined_at (filter (\<lambda>m. sgm_nickname m \<noteq> exclude) (map snd (sg_members g)))"

definition create_group :: "string \<Rightarrow> string \<Rightarrow> nat \<Rightarrow> group_registry \<Rightarrow> nat \<times> group_registry" where
  "create_group name creator now gr =
     (let i = gr_next_id gr;
          g = \<lparr>sg_id = i, sg_name = name, sg_creator = creator,
               sg_members = [(creator, \<lparr>sgm_nickname = creator, sgm_joined_at = now, sgm_is_admin = True\<rparr>)]\<rparr> in
      (i, gr\<lparr>gr_groups := hm_insert i g (gr_groups gr), gr_next_id := (i + 1) mod (U64_MAX + 1)\<rparr>))"

definition group_exists :: "group_registry \<Rightarrow> nat \<Rightarrow> bool" where
  "group_exists gr i \<longleftrightarrow> hm_get (gr_groups gr) i \<noteq> None"

definition group_is_member :: "group_registry \<Rightarrow> nat \<Rightarrow> string \<Rightarrow> bool" where
  "group_is_member gr i nickname \<longleftrightarrow>
     (case hm_get (gr_groups gr) i of None \<Rightarrow> False | Some g \<Rightarrow> sg_contains g nickname)"

definition group_add_member :: "nat \<Rightarrow> string \<Rightarrow> nat \<Rightarrow> group_registry \<Rightarrow> bool \<times> group_registry" where
  "group_add_member i nickname now gr =
     (case hm_get (gr_groups gr) i of
        None \<Rightarrow> (False, gr)
      | Some g \<Rightarrow>
          if sg_contains g nickname then (False, gr)
          else (True, gr\<lparr>gr_groups := hm_insert i (g\<lparr>sg_members := hm_insert nickname
                 \<lparr>sgm_nickname = nickname, sgm_joined_at = now, sgm_is_admin = False\<rparr> (sg_members g)\<rparr>)
                 (gr_groups gr)\<rparr>))"

text \<open>The transfer of the admin role to the longest-tenured member.\<close>

definition promote_successor :: "string \<Rightarrow> server_group \<Rightarrow> string option \<times> server_group" where
  "promote_successor nickname g =
     (case longest_tenured_member g nickname of
        None \<Rightarrow> (None, g)
      | Some m \<Rightarrow>
          (Some (sgm_nickname m),
           g\<lparr>sg_members := (case hm_get (sg_members g) (sgm_nickname m) of
                None \<Rightarrow> sg_members g
              | Some x \<Rightarrow> hm_insert (sgm_nickname m) (x\<lparr>sgm_is_admin := True\<rparr>) (sg_members g))\<rparr>))"

definition group_remove_member ::
  "nat \<Rightarrow> string \<Rightarrow> group_registry \<Rightarrow> remove_member_result option \<times> group_registry" where
  "group_remove_member i nickname gr =
     (case hm_get (gr_groups gr) i of
        None \<Rightarrow> (None, gr)
      | Some g \<Rightarrow>
          (let was_admin = (case hm_get (sg_members g) nickname of None \<Rightarrow> False | Some m \<Rightarrow> sgm_is_admin m);
               g1 = g\<lparr>sg_members := hm_remove nickname (sg_members g)\<rparr> in
           if sg_members g1 = []
           then (Some \<lparr>rm_remaining = [], rm_new_admin = None, rm_group_destroyed = True\<rparr>,
                 gr\<lparr>gr_groups := hm_remove i (gr_groups gr)\<rparr>)
           else
             (case (if was_admin then promote_successor nickname g1 else (None, g1)) of
                (new_admin, g2) \<Rightarrow>
                  (Some \<lparr>rm_remaining = map fst (sg_members g2), rm_new_admin = new_admin,
                          rm_group_destroyed = False\<rparr>,
                   gr\<lparr>gr_groups := hm_insert i g2 (gr_groups gr)\<rparr>))))"

definition group_members :: "group_registry \<Rightarrow> nat \<Rightarrow> string list" where
  "group_members gr i = (case hm_get (gr_groups gr) i of None \<Rightarrow> [] | Some g \<Rightarrow> map fst (sg_members g))"

definition group_name :: "group_registry \<Rightarrow> nat \<Rightarrow> string option" where
  "group_name gr i = map_option sg_name (hm_get (gr_groups gr) i)"

definition group_is_admin :: "group_registry \<Rightarrow> nat \<Rightarrow> string \<Rightarrow> bool" where
  "group_is_admin gr i nickname \<longleftrightarrow>
     (case hm_get (gr_groups gr) i of None \<Rightarrow> False
      | Some g \<Rightarrow> (case hm_get (sg_members g) nickname of None \<Rightarrow> False | Some m \<Rightarrow> sgm_is_admin m))"

definition groups_for_member :: "group_registry \<Rightarrow> string \<Rightarrow> nat list" where
  "groups_for_member gr nickname = map fst (filter (\<lambda>(_, g). sg_contains g nickname) (gr_groups gr))"

section \<open>Quotas of the offline store\<close>

definition queue_bytes :: "queued_message list ci_map \<Rightarrow> nat" where
  "queue_bytes qs = sum_list (map (\<lambda>e. sum_list (map qm_size (snd (snd e)))) qs)"

definition offline_inv :: "offline_store \<Rightarrow> bool" where
  "offline_inv st \<longleftrightarrow> ci_wf (os_queues st) \<and> os_max_total_bytes st < USIZE
     \<and> os_total_bytes st = queue_bytes (os_queues st) \<and> os_total_bytes st \<le> os_max_total_bytes st
     \<and> (\<forall>(_, _, q) \<in> set (os_queues st). length q \<le> os_max_messages_per_user st)"

lemma sum_list_alist_update:
  fixes w :: "'v \<Rightarrow> nat"
  assumes "hm_wf m"
  shows "sum_list (map (\<lambda>p. w (snd p)) (AList.update k x m)) + (case map_of m k of None \<Rightarrow> 0 | Some v \<Rightarrow> w v)
    = sum_list (map (\<lambda>p. w (snd p)) m) + w x"
  using assms
proof (induction m)
  case (Cons p m)
  obtain k' v where p: "p = (k', v)" by (cases p)
  show ?case
  proof (cases "k' = k")
    case False
    then show ?thesis using Cons by (simp add: p algebra_simps split: option.splits)
  qed (simp add: p)
qed simp

lemma sum_list_alist_delete:
  fixes w :: "'v \<Rightarrow> nat"
  assumes "hm_wf m"
  shows "sum_list (map (\<lambda>p. w (snd p)) (AList.delete k m)) + (case map_of m k of None \<Rightarrow> 0 | Some v \<Rightarrow> w v)
    = sum_list (map (\<lambda>p. w (snd p)) m)"
  using assms
proof (induction m)
  case (Cons p m)
  obtain k' v where p: "p = (k', v)" by (cases p)
  show ?case
  proof (cases "k' = k")
    case True
    then have "AList.delete k m = m" using Cons.prems p by (auto intro!: AList.delete_id)
    then show ?thesis using True by (simp add: p)
  next
    case False
    then show ?thesis using Cons by (simp add: p algebra_simps split: option.splits)
  qed
qed simp

definition held_bytes :: "queued_message list ci_map \<Rightarrow> string \<Rightarrow> nat" where
  "held_bytes qs n = (case ci_get qs n of None \<Rightarrow> 0 | Some q \<Rightarrow> sum_list (map qm_size q))"

lemma queue_bytes_insert:
  assumes "ci_wf qs"
  shows "queue_bytes (ci_insert n q qs) + held_bytes qs n = queue_bytes qs + sum_list (map qm_size q)"
  using sum_list_alist_update [OF ci_wfD [OF assms], of "\<lambda>v. sum_list (map qm_size (snd v))"
      "to_ascii_lowercase n"]
  by (auto simp: queue_bytes_def held_bytes_def ci_insert_def ci_get_def Let_def
      split: option.splits)

lemma queue_bytes_remove:
  assumes "ci_wf qs"
  shows "queue_bytes (ci_remove n qs) + held_bytes qs n = queue_bytes qs"
  using sum_list_alist_delete [OF ci_wfD [OF assms], of "\<lambda>v. sum_list (map qm_size (snd v))"
      "to_ascii_lowercase n"]
  by (auto simp: queue_bytes_def held_bytes_def ci_remove_def ci_get_def split: option.splits)

lemma ci_set_insert: "ci_wf m \<Longrightarrow> (key, k', v') \<in> set (ci_insert k v m) \<Longrightarrow> v' = v \<or> (key, k', v') \<in> set m"
  by (auto simp: ci_insert_def Let_def set_alist_update ci_wfD split: option.splits)

lemma ci_set_remove: "p \<in> set (ci_remove k m) \<Longrightarrow> p \<in> set m"
  by (auto simp: ci_remove_def AList.delete_eq)

lemma sum_list_filter_split:
  "sum_list (map w (filter P xs)) + sum_list (map w (filter (\<lambda>x. \<not> P x) xs)) = (sum_list (map w xs) :: nat)"
  by (induction xs) auto

lemma wrap_sub: "a \<le> b \<Longrightarrow> b < m \<Longrightarrow> (b + (m - a mod m)) mod m = (b - a :: nat)"
  by (simp add: mod_less) (metis add.commute add_diff_assoc2 less_imp_le_nat le_trans mod_add_self2 mod_less less_imp_diff_less)

lemma held_le: "ci_wf qs \<Longrightarrow> held_bytes qs n \<le> queue_bytes qs"
  using queue_bytes_remove [of qs n] by simp

lemma offline_invD:
  assumes "offline_inv st"
  shows "ci_wf (os_queues st)" "os_max_total_bytes st < USIZE" "os_total_bytes st = queue_bytes (os_queues st)"
    "os_total_bytes st \<le> os_max_total_bytes st"
    "(key, k, q) \<in> set (os_queues st) \<Longrightarrow> length q \<le> os_max_messages_per_user st"
  using assms unfolding offline_inv_def by blast+

lemma sub_bytes_simps [simp]:
  "os_queues (sub_bytes f st) = os_queues st"
  "os_max_messages_per_user (sub_bytes f st) = os_max_messages_per_user st"
  "os_max_total_bytes (sub_bytes f st) = os_max_total_bytes st"
  "os_message_ttl (sub_bytes f st) = os_message_ttl st"
  by (simp_all add: sub_bytes_def)

text \<open>Storing a queue under a nickname, with the byte count adjusted by the difference.\<close>

lemma offline_inv_store:
  assumes inv: "offline_inv st" and len: "length q \<le> os_max_messages_per_user st"
    and bytes: "b + held_bytes (os_queues st) n = os_total_bytes st + sum_list (map qm_size q)"
    and max: "b \<le> os_max_total_bytes st"
  shows "offline_inv (st\<lparr>os_total_bytes := b, os_queues := ci_insert n q (os_queues st)\<rparr>)"
proof -
  note I = offline_invD [OF inv]
  have "b = queue_bytes (ci_insert n q (os_queues st))"
    using queue_bytes_insert [OF I(1), of n q] bytes I(3) by simp
  then show ?thesis
    unfolding offline_inv_def using I len max ci_set_insert [OF I(1)] by fastforce
qed

lemma queue_message_split:
  fixes st :: offline_store and nick :: string and m :: message and now :: nat
  defines "old \<equiv> case ci_get (os_queues st) nick of None \<Rightarrow> [] | Some q \<Rightarrow> q"
  defines "queue \<equiv> filter (qm_fresh st now) old"
  defines "sz \<equiv> estimate_message_size m"
  defines "left \<equiv> os_total_bytes st - sum_list (map qm_size (filter (\<lambda>qm. \<not> qm_fresh st now qm) old))"
  assumes inv: "offline_inv st"
  shows "queue_message nick m now st =
    (if os_total_bytes st + sz > os_max_total_bytes st then (False, st)
     else if length queue \<ge> os_max_messages_per_user st
     then (False, st\<lparr>os_total_bytes := left, os_queues := ci_insert nick queue (os_queues st)\<rparr>)
     else (True, st\<lparr>os_total_bytes := left + sz,
                    os_queues := ci_insert nick (queue @ [\<lparr>qm_message = m, qm_queued_at = now, qm_size = sz\<rparr>])
                      (os_queues st)\<rparr>))"
    and "left + held_bytes (os_queues st) nick = os_total_bytes st + sum_list (map qm_size queue)"
proof -
  note I = offline_invD [OF inv]
  let ?freed = "sum_list (map qm_size (filter (\<lambda>qm. \<not> qm_fresh st now qm) old))"
  have held: "held_bytes (os_queues st) nick = sum_list (map qm_size old)"
    by (simp add: held_bytes_def old_def split: option.split)
  have le: "?freed \<le> os_total_bytes st"
    using sum_list_filter_split [of qm_size "qm_fresh st now" old] held_le [OF I(1), of nick] held I(3) by simp
  then show "left + held_bytes (os_queues st) nick = os_total_bytes st + sum_list (map qm_size queue)"
    using sum_list_filter_split [of qm_size "qm_fresh st now" old] by (simp add: held queue_def left_def)
  have lt: "os_total_bytes st < USIZE" using I(2,4) by linarith
  have sub: "(if ?freed > 0 then sub_bytes ?freed st else st) = st\<lparr>os_total_bytes := left\<rparr>"
  proof (cases "?freed = 0")
    case True
    then show ?thesis by (simp only: left_def True) simp
  next
    case False
    then have "0 < ?freed" by (rule neq0_conv [THEN iffD1])
    then show ?thesis unfolding sub_bytes_def left_def wrap_sub [OF le lt] by (simp only: if_True)
  qed
  have small: "(left + sz) mod USIZE = left + sz" if "os_total_bytes st + sz \<le> os_max_total_bytes st"
    using that I(2) by (simp add: left_def)
  show "queue_message nick m now st =
    (if os_total_bytes st + sz > os_max_total_bytes st then (False, st)
     else if length queue \<ge> os_max_messages_per_user st
     then (False, st\<lparr>os_total_bytes := left, os_queues := ci_insert nick queue (os_queues st)\<rparr>)
     else (True, st\<lparr>os_total_bytes := left + sz,
                    os_queues := ci_insert nick (queue @ [\<lparr>qm_message = m, qm_queued_at = now, qm_size = sz\<rparr>])
                      (os_queues st)\<rparr>))"
    unfolding queue_message_def Let_def old_def [symmetric] queue_def [symmetric] sz_def [symmetric] sub
    using small by simp
qed

lemma offline_inv_queue:
  assumes inv: "offline_inv st"
  shows "offline_inv (snd (queue_message nick m now st))"
proof -
  note I = offline_invD [OF inv]
  let ?old = "case ci_get (os_queues st) nick of None \<Rightarrow> [] | Some q \<Rightarrow> q"
  have "length ?old \<le> os_max_messages_per_user st"
    using I(5) ci_get_in_set [of "os_queues st" nick] by (auto split: option.split)
  then have "length (filter (qm_fresh st now) ?old) \<le> os_max_messages_per_user st"
    by (rule order_trans [OF length_filter_le])
  then show ?thesis
    using queue_message_split(2) [OF inv, where nick = nick and now = now] I(4)
    unfolding queue_message_split(1) [OF inv, where nick = nick and now = now and m = m]
    by (auto intro!: offline_inv_store [OF inv] simp: inv)
qed

lemma offline_inv_take:
  assumes inv: "offline_inv st"
  shows "offline_inv (snd (take_messages nick now st))"
proof (cases "ci_get (os_queues st) nick")
  case None
  then show ?thesis using inv by (simp add: take_messages_def)
next
  case (Some q)
  note I = offline_invD [OF inv]
  have h: "held_bytes (os_queues st) nick = sum_list (map qm_size q)" by (simp add: held_bytes_def Some)
  have q: "queue_bytes (ci_remove nick (os_queues st)) + sum_list (map qm_size q) = os_total_bytes st"
    using queue_bytes_remove [OF I(1), of nick] h I(3) by simp
  have lt: "os_total_bytes st < USIZE" using I(2,4) by linarith
  have "(os_total_bytes st + (USIZE - sum_list (map qm_size q) mod USIZE)) mod USIZE
      = queue_bytes (ci_remove nick (os_queues st))"
    using wrap_sub [OF _ lt, of "sum_list (map qm_size q)"] q by simp
  then show ?thesis
    using I q ci_set_remove by (fastforce simp: take_messages_def Some offline_inv_def sub_bytes_def)
qed

definition queue_of :: "offline_store \<Rightarrow> string \<Rightarrow> queued_message list" where
  "queue_of st n = (case ci_get (os_queues st) n of None \<Rightarrow> [] | Some q \<Rightarrow> q)"

text \<open>What a user would receive when connecting at time \<open>t\<close>.\<close>

abbreviation pending_for :: "offline_store \<Rightarrow> string \<Rightarrow> nat \<Rightarrow> message list" where
  "pending_for st n t \<equiv> fst (take_messages n t st)"

lemma pending_for_queue: "pending_for st n t = map qm_message (filter (qm_fresh st t) (queue_of st n))"
  by (simp add: take_messages_def queue_of_def split: option.split)

lemma filter_fresh_later: "now \<le> t \<Longrightarrow> filter (qm_fresh st t) (filter (qm_fresh st now) q) = filter (qm_fresh st t) q"
  by (auto simp: qm_fresh_def intro: filter_cong)

lemma queue_message_effect:
  assumes inv: "offline_inv st" and q: "queue_message n m now st = (ok, st')"
  shows "os_message_ttl st' = os_message_ttl st"
    and "\<not> nickname_eq n k \<Longrightarrow> queue_of st' k = queue_of st k"
    and "ok \<Longrightarrow> queue_of st' n = filter (qm_fresh st now) (queue_of st n)
           @ [\<lparr>qm_message = m, qm_queued_at = now, qm_size = estimate_message_size m\<rparr>]"
    and "\<not> ok \<Longrightarrow> queue_of st' n = queue_of st n \<or> queue_of st' n = filter (qm_fresh st now) (queue_of st n)"
  using q unfolding queue_message_split(1) [OF inv, where nick = n and now = now and m = m] queue_of_def
  by (auto split: if_splits)

lemma take_messages_effect:
  assumes "take_messages n t st = (ms, st')"
  shows "os_message_ttl st' = os_message_ttl st"
    and "queue_of st' k = (if nickname_eq n k then [] else queue_of st k)"
  using assms ci_get_ci [of n k "os_queues st"]
  by (auto simp: take_messages_def queue_of_def split: option.splits if_splits)

lemma qm_fresh_new [simp]:
  "qm_fresh st t \<lparr>qm_message = m, qm_queued_at = now, qm_size = z\<rparr> \<longleftrightarrow> t - now < os_message_ttl st"
  by (simp add: qm_fresh_def)

text \<open>
  C39. The offline store keeps its quotas and its order. Every operation keeps the byte count
  equal to the bytes held and within the global limit, and every queue within the limit per
  user; a message that \<^verbatim>\<open>queue_message\<close> accepts is delivered after all messages accepted
  before it for the same user, until it expires; a rejected one changes nothing that is
  delivered; other users' messages are untouched; and what was taken is gone.
\<close>

theorem offline_store_fifo_within_quota:
  assumes inv: "offline_inv st" and q: "queue_message n m now st = (ok, st')" and now: "now \<le> t"
    and t: "take_messages n t st' = (ms, st'')"
  shows "offline_inv st' \<and> offline_inv st''
    \<and> ms = pending_for st n t @ (if ok \<and> t - now < os_message_ttl st then [m] else [])
    \<and> pending_for st'' n t = []
    \<and> (\<not> nickname_eq n k \<longrightarrow> pending_for st' k t = pending_for st k t \<and> pending_for st'' k t = pending_for st k t)"
proof -
  have i': "offline_inv st'" using offline_inv_queue [OF inv, of n m now] q by simp
  have i'': "offline_inv st''" using offline_inv_take [OF i', of n t] t by simp
  note Q = queue_message_effect [OF inv q] and T = take_messages_effect [OF t]
  have fresh: "qm_fresh st' = qm_fresh st" "qm_fresh st'' = qm_fresh st"
    by (simp_all add: qm_fresh_def fun_eq_iff Q(1) T(1))
  have "ms = map qm_message (filter (qm_fresh st t) (queue_of st' n))"
    using pending_for_queue [of n t st'] t by (simp add: fresh)
  also have "\<dots> = pending_for st n t @ (if ok \<and> t - now < os_message_ttl st then [m] else [])"
  proof (cases ok)
    case True
    then show ?thesis using now by (simp add: Q(3) pending_for_queue filter_fresh_later del: filter_filter)
  next
    case False
    then show ?thesis using Q(4) now by (auto simp: pending_for_queue filter_fresh_later simp del: filter_filter)
  qed
  finally show ?thesis using i' i'' Q(2) T(2) by (simp add: pending_for_queue fresh)
qed

theorem offline_store_fifo_within_quota_witness:
  "let st = offline_store_new 2 1000 60; m = message_new Ping [''a'']; q = queue_message ''bob'' m 5 st
   in fst q \<and> fst (take_messages ''bob'' 30 (snd q)) = [m] \<and> fst (take_messages ''bob'' 65 (snd q)) = []"
proof -
  let ?st = "offline_store_new 2 1000 60" and ?m = "message_new Ping [''a'']"
  define q where "q = queue_message ''bob'' ?m 5 ?st"
  have inv: "offline_inv ?st" by (simp add: offline_inv_def offline_store_new_def queue_bytes_def)
  have ok: "fst q"
    by (simp add: q_def queue_message_def offline_store_new_def estimate_message_size_def Let_def
        message_display_def message_new_def params_display_def needs_colon_def)
  have p: "pending_for ?st ''bob'' t = []" "os_message_ttl ?st = 60" for t
    by (simp_all add: take_messages_def offline_store_new_def)
  have t: "fst (take_messages ''bob'' t (snd q)) = (if t - 5 < 60 then [?m] else [])" if "5 \<le> t" for t
    using offline_store_fifo_within_quota [OF inv, of "''bob''" ?m 5 "fst q" "snd q" t
        "fst (take_messages ''bob'' t (snd q))" "snd (take_messages ''bob'' t (snd q))"] ok that
    by (simp add: q_def p)
  show ?thesis using ok t [of 30] t [of 65] by (simp add: q_def [symmetric] Let_def)
qed

section \<open>Chunked uploads\<close>

fun feed_chunks ::
  "string \<Rightarrow> string list \<Rightarrow> nat list \<Rightarrow> prekey_store \<Rightarrow> string option list \<times> prekey_store" where
  "feed_chunks nick cs [] st = ([], st)"
| "feed_chunks nick cs (n # ns) st =
     (case add_bundle_chunk nick (cs ! (n - 1)) n (length cs) st of
        (r, st1) \<Rightarrow> (case feed_chunks nick cs ns st1 of (rs, st2) \<Rightarrow> (r # rs, st2)))"

text \<open>The slots after the chunks with the numbers in \<open>D\<close> have arrived.\<close>

definition slots_for :: "string list \<Rightarrow> nat set \<Rightarrow> string option list" where
  "slots_for cs D = map (\<lambda>i. if Suc i \<in> D then Some (cs ! i) else None) [0 ..< length cs]"

lemma slots_for_update:
  assumes "1 \<le> n" "n \<le> length cs"
  shows "(slots_for cs D)[n - 1 := Some (cs ! (n - 1))] = slots_for cs (insert n D)"
proof -
  obtain m where "n = Suc m" using assms(1) by (cases n) auto
  then show ?thesis
    using assms(2) by (intro nth_equalityI) (auto simp: slots_for_def nth_list_update)
qed

lemma slots_for_full:
  "list_all (\<lambda>c. c \<noteq> None) (slots_for cs D) \<longleftrightarrow> {1 .. length cs} \<subseteq> D"
  unfolding image_Suc_lessThan [symmetric] by (auto simp: slots_for_def list_all_iff image_subset_iff)

lemma slots_for_concat:
  assumes "{1 .. length cs} \<subseteq> D"
  shows "concat (map (\<lambda>c. case c of None \<Rightarrow> [] | Some x \<Rightarrow> x) (slots_for cs D)) = concat cs"
proof -
  have "map (\<lambda>c. case c of None \<Rightarrow> [] | Some x \<Rightarrow> x) (slots_for cs D) = map (\<lambda>i. cs ! i) [0 ..< length cs]"
    using assms unfolding image_Suc_lessThan [symmetric] by (auto simp: slots_for_def image_subset_iff)
  then show ?thesis by (simp add: map_nth)
qed

definition chunks_held :: "string \<Rightarrow> string list \<Rightarrow> nat set \<Rightarrow> prekey_store \<Rightarrow> bool" where
  "chunks_held nick cs D st \<longleftrightarrow>
     ci_get (pk_chunk_buffer st) nick = (if D = {} then None else Some (slots_for cs D, length cs))"

lemma add_bundle_chunk_held:
  assumes "chunks_held nick cs D st" "1 \<le> n" "n \<le> length cs"
  shows "add_bundle_chunk nick (cs ! (n - 1)) n (length cs) st =
    (if {1 .. length cs} \<subseteq> insert n D
     then (Some (concat cs), st\<lparr>pk_chunk_buffer := ci_remove nick (pk_chunk_buffer st)\<rparr>)
     else (None, st\<lparr>pk_chunk_buffer := ci_insert nick (slots_for cs (insert n D), length cs) (pk_chunk_buffer st)\<rparr>))"
proof -
  have "replicate (length cs) None = slots_for cs {}"
    by (simp add: slots_for_def map_replicate_const)
  then have e: "(case ci_get (pk_chunk_buffer st) nick of None \<Rightarrow> (replicate (length cs) None, length cs) | Some e \<Rightarrow> e)
      = (slots_for cs D, length cs)"
    using assms(1) by (simp add: chunks_held_def split: if_splits)
  show ?thesis
    unfolding add_bundle_chunk_def Let_def e fst_conv snd_conv
    using assms(2,3) slots_for_concat [of cs "insert n D"]
    by (simp add: slots_for_update slots_for_full del: One_nat_def not_None_eq)
qed

lemma feed_chunks_rest:
  assumes "chunks_held nick cs D st" "distinct ns" "set ns \<subseteq> {1 .. length cs}" "D \<subseteq> {1 .. length cs}"
    and "set ns \<inter> D = {}" "set ns \<union> D = {1 .. length cs}" "ns \<noteq> []"
  shows "fst (feed_chunks nick cs ns st) = replicate (length ns - 1) None @ [Some (concat cs)]
    \<and> ci_get (pk_chunk_buffer (snd (feed_chunks nick cs ns st))) nick = None"
  using assms
proof (induction ns arbitrary: D st)
  case (Cons n ns)
  have n: "1 \<le> n" "n \<le> length cs" "n \<notin> D" using Cons.prems by auto
  note add = add_bundle_chunk_held [OF Cons.prems(1) n(1,2)]
  show ?case
  proof (cases "ns = []")
    case True
    then have "{1 .. length cs} \<subseteq> insert n D" using Cons.prems(6) by auto
    then show ?thesis using True by (simp add: add del: One_nat_def)
  next
    case False
    then obtain k where "k \<in> set ns" by (cases ns) auto
    then have more: "\<not> {1 .. length cs} \<subseteq> insert n D" using Cons.prems by auto
    let ?st = "st\<lparr>pk_chunk_buffer := ci_insert nick (slots_for cs (insert n D), length cs) (pk_chunk_buffer st)\<rparr>"
    have "chunks_held nick cs (insert n D) ?st" by (simp add: chunks_held_def)
    from Cons.IH [OF this] Cons.prems False n
    have IH: "fst (feed_chunks nick cs ns ?st) = replicate (length ns - 1) None @ [Some (concat cs)]"
      "ci_get (pk_chunk_buffer (snd (feed_chunks nick cs ns ?st))) nick = None" by auto
    obtain j where "length ns = Suc j" using False by (cases ns) auto
    then show ?thesis using IH by (simp add: add more case_prod_beta del: One_nat_def)
  qed
qed simp

text \<open>
  A pre-key bundle that is uploaded in chunks is assembled, whatever the order in which its
  chunks arrive: all but the last arrival leave the upload open, the last one returns the
  concatenation of the chunks and clears the buffer.
\<close>

theorem bundle_chunks_assemble:
  assumes "ci_get (pk_chunk_buffer st) nick = None" "cs \<noteq> []" "distinct ns" "set ns = {1 .. length cs}"
  shows "fst (feed_chunks nick cs ns st) = replicate (length cs - 1) None @ [Some (concat cs)]
    \<and> ci_get (pk_chunk_buffer (snd (feed_chunks nick cs ns st))) nick = None"
proof -
  have "length ns = length cs" using distinct_card [OF assms(3)] assms(4) by simp
  moreover have "ns \<noteq> []" using assms(2,4) by (auto simp: Suc_le_eq)
  ultimately show ?thesis
    using feed_chunks_rest [of nick cs "{}" st ns] assms by (simp add: chunks_held_def)
qed

theorem bundle_chunks_assemble_witness:
  "fst (feed_chunks ''alice'' [''QUJ'', ''DREV'', ''G''] [2, 3, 1] prekey_store_new)
     = [None, None, Some ''QUJDREVG'']"
proof -
  have "{2, 3, 1 :: nat} = {1 .. length [''QUJ'', ''DREV'', ''G'']}" by auto
  then show ?thesis
    using bundle_chunks_assemble [of prekey_store_new "''alice''" "[''QUJ'', ''DREV'', ''G'']" "[2, 3, 1]"]
    by (simp add: prekey_store_new_def numeral_2_eq_2 del: feed_chunks.simps One_nat_def)
qed

section \<open>Every group has an admin\<close>

declare map_of_eq_Some_iff [simp del]

definition sg_wf :: "server_group \<Rightarrow> bool" where
  "sg_wf g \<longleftrightarrow> hm_wf (sg_members g)
     \<and> (\<forall>n m. hm_get (sg_members g) n = Some m \<longrightarrow> sgm_nickname m = n)
     \<and> (\<exists>n m. hm_get (sg_members g) n = Some m \<and> sgm_is_admin m)"

definition groups_inv :: "group_registry \<Rightarrow> bool" where
  "groups_inv gr \<longleftrightarrow> (\<forall>i g. hm_get (gr_groups gr) i = Some g \<longrightarrow> sg_wf g)"

lemma groups_invD: "groups_inv gr \<Longrightarrow> hm_get (gr_groups gr) i = Some g \<Longrightarrow> sg_wf g"
  by (simp add: groups_inv_def)

lemma groups_inv_new: "groups_inv group_registry_new"
  by (simp add: groups_inv_def group_registry_new_def)

lemma groups_inv_create: "groups_inv gr \<Longrightarrow> groups_inv (snd (create_group name creator now gr))"
  by (auto simp: groups_inv_def create_group_def Let_def sg_wf_def split: if_splits)

lemma groups_inv_add:
  assumes inv: "groups_inv gr"
  shows "groups_inv (snd (group_add_member i nick now gr))"
proof (cases "hm_get (gr_groups gr) i")
  case (Some g)
  show ?thesis
  proof (cases "sg_contains g nick")
    case False
    have wf: "sg_wf g" using inv Some by (rule groups_invD)
    then obtain n m where a: "hm_get (sg_members g) n = Some m" "sgm_is_admin m" by (auto simp: sg_wf_def)
    then have "n \<noteq> nick" using False by (auto simp: sg_contains_def)
    with wf a have "sg_wf (g\<lparr>sg_members := hm_insert nick
        \<lparr>sgm_nickname = nick, sgm_joined_at = now, sgm_is_admin = False\<rparr> (sg_members g)\<rparr>)"
      unfolding sg_wf_def by (auto intro!: exI [of _ n])
    then show ?thesis using inv Some False by (auto simp: groups_inv_def group_add_member_def)
  qed (simp add: group_add_member_def Some inv)
qed (simp add: group_add_member_def inv)

lemma min_by_key_None: "min_by_key f xs = None \<longleftrightarrow> xs = []"
  by (cases xs) (auto split: option.split)

lemma min_by_key_in: "min_by_key f xs = Some x \<Longrightarrow> x \<in> set xs \<and> (\<forall>y \<in> set xs. f x \<le> f y)"
proof (induction xs arbitrary: x)
  case (Cons y ys)
  show ?case
  proof (cases "min_by_key f ys")
    case None
    then show ?thesis using Cons.prems by (simp add: min_by_key_None)
  next
    case (Some z)
    then show ?thesis using Cons.prems Cons.IH [OF Some] by (cases "f z < f y") (auto dest: order_trans [rotated])
  qed
qed simp

lemma promote_successor_admin:
  assumes wf: "hm_wf (sg_members g)" "\<And>n m. hm_get (sg_members g) n = Some m \<Longrightarrow> sgm_nickname m = n"
    and ne: "sg_members g \<noteq> []" and gone: "hm_get (sg_members g) nick = None"
  shows "\<exists>n x. promote_successor nick g = (Some n, g\<lparr>sg_members := hm_insert n (x\<lparr>sgm_is_admin := True\<rparr>) (sg_members g)\<rparr>)
    \<and> hm_get (sg_members g) n = Some x \<and> (\<forall>k y. hm_get (sg_members g) k = Some y \<longrightarrow> sgm_joined_at x \<le> sgm_joined_at y)"
proof -
  have nick: "sgm_nickname m \<noteq> nick" if "m \<in> set (map snd (sg_members g))" for m
  proof -
    obtain k where "(k, m) \<in> set (sg_members g)" using \<open>m \<in> set (map snd (sg_members g))\<close> by auto
    then have "hm_get (sg_members g) k = Some m" using wf(1) by (simp add: map_of_is_SomeI)
    then show ?thesis using wf(2) gone by auto
  qed
  then have all: "filter (\<lambda>m. sgm_nickname m \<noteq> nick) (map snd (sg_members g)) = map snd (sg_members g)"
    by (auto intro!: filter_True)
  obtain x where x: "min_by_key sgm_joined_at (map snd (sg_members g)) = Some x"
    using ne min_by_key_None [of sgm_joined_at "map snd (sg_members g)"] by (cases "min_by_key sgm_joined_at (map snd (sg_members g))") auto
  note m = min_by_key_in [OF x]
  then obtain k where "(k, x) \<in> set (sg_members g)" by auto
  then have k: "hm_get (sg_members g) k = Some x" "sgm_nickname x = k" using wf by (simp_all add: map_of_is_SomeI)
  have "sgm_joined_at x \<le> sgm_joined_at y" if "hm_get (sg_members g) j = Some y" for j y
    using m map_of_SomeD [OF that] by force
  then show ?thesis
    using k unfolding promote_successor_def longest_tenured_member_def all x by auto
qed

lemma sg_wf_remove:
  assumes wf: "sg_wf g" and ne: "hm_remove nick (sg_members g) \<noteq> []"
    and adm: "(case hm_get (sg_members g) nick of None \<Rightarrow> False | Some m \<Rightarrow> sgm_is_admin m) = adm"
  shows "sg_wf (snd (if adm then promote_successor nick (g\<lparr>sg_members := hm_remove nick (sg_members g)\<rparr>)
      else (None, g\<lparr>sg_members := hm_remove nick (sg_members g)\<rparr>)))"
proof (cases adm)
  case True
  let ?g = "g\<lparr>sg_members := hm_remove nick (sg_members g)\<rparr>"
  have w: "hm_wf (sg_members ?g)" "\<And>n m. hm_get (sg_members ?g) n = Some m \<Longrightarrow> sgm_nickname m = n"
    using wf by (auto simp: sg_wf_def split: if_splits)
  obtain n x where "promote_successor nick ?g = (Some n, ?g\<lparr>sg_members := hm_insert n (x\<lparr>sgm_is_admin := True\<rparr>) (sg_members ?g)\<rparr>)"
    "hm_get (sg_members ?g) n = Some x"
    using promote_successor_admin [OF w, of nick] ne by auto
  then show ?thesis using True w by (fastforce simp: sg_wf_def)
next
  case False
  obtain n m where "hm_get (sg_members g) n = Some m" "sgm_is_admin m" using wf by (auto simp: sg_wf_def)
  moreover have "n \<noteq> nick" using calculation adm False by auto
  ultimately show ?thesis using False wf by (fastforce simp: sg_wf_def split: if_splits)
qed

lemma groups_inv_remove:
  assumes inv: "groups_inv gr"
  shows "groups_inv (snd (group_remove_member i nick gr))"
proof (cases "hm_get (gr_groups gr) i")
  case None
  then show ?thesis using inv by (simp add: group_remove_member_def)
next
  case (Some g)
  let ?adm = "case hm_get (sg_members g) nick of None \<Rightarrow> False | Some m \<Rightarrow> sgm_is_admin m"
  let ?g1 = "g\<lparr>sg_members := hm_remove nick (sg_members g)\<rparr>"
  show ?thesis
  proof (cases "hm_remove nick (sg_members g) = []")
    case True
    then show ?thesis using inv Some by (auto simp: groups_inv_def group_remove_member_def Let_def)
  next
    case False
    have "sg_wf (snd (if ?adm then promote_successor nick ?g1 else (None, ?g1)))"
      by (rule sg_wf_remove [OF groups_invD [OF inv Some] False refl])
    then show ?thesis using inv Some False
      by (auto simp: groups_inv_def group_remove_member_def Let_def case_prod_beta)
  qed
qed

text \<open>
  Leaving a group keeps it governed: the leaver is no member afterwards, the group is
  destroyed exactly if nobody else was in it, and otherwise it has an admin; when the role
  is handed over, it goes to a remaining member who joined no later than any other.
\<close>

theorem group_admin_succession:
  assumes inv: "groups_inv gr" and g: "hm_get (gr_groups gr) i = Some g"
    and r: "group_remove_member i nick gr = (Some res, gr')"
  shows "groups_inv gr' \<and> \<not> group_is_member gr' i nick
    \<and> (rm_group_destroyed res \<longleftrightarrow> hm_remove nick (sg_members g) = [])
    \<and> (if rm_group_destroyed res then \<not> group_exists gr' i else \<exists>n. group_is_admin gr' i n)
    \<and> (\<forall>n. rm_new_admin res = Some n \<longrightarrow> group_is_admin gr' i n
          \<and> (\<exists>x. hm_get (hm_remove nick (sg_members g)) n = Some x
               \<and> (\<forall>k y. hm_get (hm_remove nick (sg_members g)) k = Some y \<longrightarrow> sgm_joined_at x \<le> sgm_joined_at y)))"
proof -
  let ?g1 = "g\<lparr>sg_members := hm_remove nick (sg_members g)\<rparr>"
  let ?adm = "case hm_get (sg_members g) nick of None \<Rightarrow> False | Some m \<Rightarrow> sgm_is_admin m"
  have inv': "groups_inv gr'" using groups_inv_remove [OF inv, of i nick] r by simp
  have wf: "sg_wf g" using inv g by (rule groups_invD)
  have w: "hm_wf (sg_members ?g1)" "\<And>n m. hm_get (sg_members ?g1) n = Some m \<Longrightarrow> sgm_nickname m = n"
    using wf by (auto simp: sg_wf_def split: if_splits)
  show ?thesis
  proof (cases "hm_remove nick (sg_members g) = []")
    case True
    then have "res = \<lparr>rm_remaining = [], rm_new_admin = None, rm_group_destroyed = True\<rparr>"
      "gr' = gr\<lparr>gr_groups := hm_remove i (gr_groups gr)\<rparr>"
      using r by (simp_all add: group_remove_member_def g Let_def)
    then show ?thesis using True inv' by (simp add: group_is_member_def group_exists_def)
  next
    case False
    define p where "p = (if ?adm then promote_successor nick ?g1 else (None, ?g1))"
    have e: "res = \<lparr>rm_remaining = map fst (sg_members (snd p)), rm_new_admin = fst p, rm_group_destroyed = False\<rparr>"
      "gr' = gr\<lparr>gr_groups := hm_insert i (snd p) (gr_groups gr)\<rparr>"
      using r False by (simp_all add: group_remove_member_def g Let_def p_def [symmetric] case_prod_beta)
    have "sg_wf (snd p)" unfolding p_def by (rule sg_wf_remove [OF wf False refl])
    then obtain a m where "hm_get (sg_members (snd p)) a = Some m" "sgm_is_admin m" by (auto simp: sg_wf_def)
    then have adm: "\<exists>n. group_is_admin gr' i n"
      by (intro exI [of _ a]) (simp add: e group_is_admin_def)
    show ?thesis
    proof (cases ?adm)
      case True
      then obtain n x where s: "p = (Some n, ?g1\<lparr>sg_members := hm_insert n (x\<lparr>sgm_is_admin := True\<rparr>) (sg_members ?g1)\<rparr>)"
        "hm_get (sg_members ?g1) n = Some x"
        "\<forall>k y. hm_get (sg_members ?g1) k = Some y \<longrightarrow> sgm_joined_at x \<le> sgm_joined_at y"
        using promote_successor_admin [OF w, of nick] False by (auto simp: p_def)
      have "n \<noteq> nick" using s(2) by (auto split: if_splits)
      moreover have "group_is_admin gr' i n" by (simp add: e s(1) group_is_admin_def)
      moreover have "\<not> group_is_member gr' i nick"
        using calculation(1) by (simp add: e s(1) group_is_member_def sg_contains_def)
      ultimately show ?thesis using inv' False adm s(2,3) by (auto simp: e s(1))
    next
      case no: False
      then have "p = (None, ?g1)" by (simp add: p_def)
      then show ?thesis using inv' False adm by (simp add: e group_is_member_def sg_contains_def)
    qed
  qed
qed

theorem group_admin_succession_witness:
  "let gr = snd (group_add_member 1 ''bob'' 7 (snd (create_group ''g'' ''ann'' 5 group_registry_new)));
       (res, gr') = group_remove_member 1 ''ann'' gr
   in rm_new_admin (the res) = Some ''bob'' \<and> group_is_admin gr' 1 ''bob''"
proof -
  define gr where "gr = snd (group_add_member 1 ''bob'' 7 (snd (create_group ''g'' ''ann'' 5 group_registry_new)))"
  have inv: "groups_inv gr"
    unfolding gr_def by (intro groups_inv_add groups_inv_create groups_inv_new)
  have g: "\<exists>g. hm_get (gr_groups gr) 1 = Some g"
    by (simp add: gr_def group_add_member_def create_group_def group_registry_new_def sg_contains_def Let_def)
  have r: "\<exists>res. fst (group_remove_member 1 ''ann'' gr) = Some res \<and> rm_new_admin res = Some ''bob''"
    by (simp add: gr_def group_add_member_def create_group_def group_registry_new_def sg_contains_def Let_def
        group_remove_member_def promote_successor_def longest_tenured_member_def)
  obtain g' res where "hm_get (gr_groups gr) 1 = Some g'" "fst (group_remove_member 1 ''ann'' gr) = Some res"
    "rm_new_admin res = Some ''bob''" using g r by blast
  then show ?thesis
    using group_admin_succession [OF inv, of 1 g' "''ann''" res "snd (group_remove_member 1 ''ann'' gr)"]
    unfolding gr_def [symmetric] Let_def case_prod_beta by (simp add: prod_eq_iff)
qed

end
