(* ===== verification/Server_Users.thy ===== *)
theory Server_Users
  imports Server_Channels Server_Stores
begin

text \<open>
  The commands of \<^verbatim>\<open>handler.rs\<close> that concern users (registration, NICK, WHOIS, AWAY, user MODE,
  PING, QUIT, MOTD), the operator commands of \<^verbatim>\<open>handler_oper.rs\<close>, the relays of
  \<^verbatim>\<open>handler_relay.rs\<close> and \<^verbatim>\<open>handler_p2p.rs\<close>, the key exchange and the group commands of
  \<^verbatim>\<open>handler_group.rs\<close>.

  What is outside the program is in the record \<open>server_env\<close>: the clocks (wall clock in seconds,
  monotonic clock in milliseconds), the content of the message-of-the-day file, the version
  string of the build and the base64 codec of the \<^verbatim>\<open>base64\<close> package.
\<close>

record server_env =
  env_unix :: nat
  env_instant :: nat
  env_read_file :: "string \<Rightarrow> string option"
  env_version :: string
  env_encode :: "string \<Rightarrow> string"
  env_decode :: "string \<Rightarrow> string option"

record oper_config =
  oc_name :: string
  oc_password :: string
  oc_host_mask :: "string option"

record server_config =
  sc_max_channels_per_user :: nat
  sc_operators :: "oper_config list"
  sc_motd_text :: "string option"
  sc_motd_path :: "string option"

record pre_registration =
  pr_nick :: "string option"
  pr_username :: "string option"
  pr_realname :: "string option"
  pr_hostname :: string
  pr_registered :: bool

definition pre_registration_new :: "string \<Rightarrow> pre_registration" where
  "pre_registration_new hostname =
     \<lparr>pr_nick = None, pr_username = None, pr_realname = None, pr_hostname = hostname, pr_registered = False\<rparr>"

definition is_ready :: "pre_registration \<Rightarrow> bool" where
  "is_ready st \<longleftrightarrow> pr_nick st \<noteq> None \<and> pr_username st \<noteq> None"

section \<open>Registration\<close>

definition handle_nick ::
  "message \<Rightarrow> user_registry \<Rightarrow> nat \<Rightarrow> pre_registration \<Rightarrow> pre_registration \<times> delivery list" where
  "handle_nick msg reg sender st =
     (if msg_params msg = []
      then (st, send_numeric sender ERR_NONICKNAMEGIVEN [''*''] ''No nickname given'')
      else
        (let nick_str = msg_params msg ! 0 in
         case nickname_new nick_str of
           Err _ \<Rightarrow> (st, send_numeric sender ERR_ERRONEUSNICKNAME [nick_str] ''Erroneous nickname'')
         | Ok nick \<Rightarrow>
             if nick_in_use reg nick
             then (st, send_numeric sender ERR_NICKNAMEINUSE [nick] ''Nickname is already in use'')
             else (st\<lparr>pr_nick := Some nick\<rparr>, [])))"

definition handle_user :: "message \<Rightarrow> nat \<Rightarrow> pre_registration \<Rightarrow> pre_registration \<times> delivery list" where
  "handle_user msg sender st =
     (if pr_registered st
      then (st, send_numeric sender ERR_ALREADYREGISTERED [''*''] ''You may not reregister'')
      else if length (msg_params msg) < 4
      then (st, send_numeric sender ERR_NEEDMOREPARAMS [''USER''] ''Not enough parameters'')
      else (st\<lparr>pr_username := Some (msg_params msg ! 0), pr_realname := Some (msg_params msg ! 3)\<rparr>, []))"

definition send_motd :: "server_env \<Rightarrow> nat \<Rightarrow> string \<Rightarrow> server_config \<Rightarrow> delivery list" where
  "send_motd E sender nick cfg =
     (let motd = (case sc_motd_text cfg of
                    Some text \<Rightarrow> Some text
                  | None \<Rightarrow> (case sc_motd_path cfg of Some path \<Rightarrow> env_read_file E path | None \<Rightarrow> None)) in
      case motd of
        Some text \<Rightarrow>
          send_numeric sender RPL_MOTDSTART [nick] (''- '' @ SERVER_NAME @ '' Message of the day -'')
          @ concat (map (\<lambda>line. send_numeric sender RPL_MOTD [nick] (''- '' @ line)) (str_lines text))
          @ send_numeric sender RPL_ENDOFMOTD [nick] ''End of /MOTD command''
      | None \<Rightarrow> send_numeric sender ERR_NOMOTD [nick] ''MOTD File is missing'')"

definition offline_priority :: "message \<Rightarrow> nat" where
  "offline_priority m =
     (case msg_command m of
        Pirc KeyExchange \<Rightarrow> 0 | Pirc KeyExchangeAck \<Rightarrow> 1 | Pirc KeyExchangeComplete \<Rightarrow> 2 | _ \<Rightarrow> 3)"

definition deliver_offline_messages ::
  "server_env \<Rightarrow> string \<Rightarrow> nat \<Rightarrow> offline_store \<Rightarrow> offline_store \<times> delivery list" where
  "deliver_offline_messages E nick sender st =
     (case take_messages nick (env_instant E) st of
        (messages, st') \<Rightarrow> (st', map (Pair sender) (sort_key offline_priority messages)))"

definition new_session :: "server_env \<Rightarrow> nat \<Rightarrow> nat \<Rightarrow> pre_registration \<Rightarrow> user_session" where
  "new_session E conn sender st =
     \<lparr>us_connection_id = conn, us_nickname = the (pr_nick st), us_username = the (pr_username st),
      us_realname = the (pr_realname st), us_hostname = pr_hostname st, us_modes = {},
      us_away_message = None, us_connected_at = env_instant E, us_signon_time = env_unix E,
      us_last_active = env_instant E, us_registered = True, us_sender = sender\<rparr>"

definition complete_registration ::
  "server_env \<Rightarrow> nat \<Rightarrow> nat \<Rightarrow> server_config \<Rightarrow> pre_registration \<Rightarrow> user_registry \<Rightarrow> offline_store \<Rightarrow>
     pre_registration \<times> user_registry \<times> offline_store \<times> delivery list" where
  "complete_registration E conn sender cfg st reg off =
     (let session = new_session E conn sender st; nick = us_nickname session in
      case register session reg of
        (Err _, reg') \<Rightarrow>
          (st\<lparr>pr_nick := None\<rparr>, reg', off,
           send_numeric sender ERR_NICKNAMEINUSE [nick] ''Nickname is already in use'')
      | (Ok _, reg') \<Rightarrow>
          (case deliver_offline_messages E nick sender off of
             (off', out) \<Rightarrow>
               (st\<lparr>pr_registered := True\<rparr>, reg', off',
                send_numeric sender RPL_WELCOME [nick]
                  (''Welcome to the pirc network, '' @ nick @ ''!'' @ us_username session @ ''@'' @ pr_hostname st)
                @ send_numeric sender RPL_YOURHOST [nick]
                    (''Your host is '' @ SERVER_NAME @ '', running version '' @ env_version E)
                @ send_numeric sender RPL_CREATED [nick] (''This server was created '' @ SERVER_NAME)
                @ send_motd E sender nick cfg @ out)))"

section \<open>User commands\<close>

definition handle_nick_change ::
  "server_env \<Rightarrow> message \<Rightarrow> nat \<Rightarrow> user_registry \<Rightarrow> nat \<Rightarrow> user_registry \<times> delivery list" where
  "handle_nick_change E msg conn reg sender =
     (if msg_params msg = []
      then (reg, send_numeric sender ERR_NONICKNAMEGIVEN [''*''] ''No nickname given'')
      else
        (let nick_str = msg_params msg ! 0 in
         case nickname_new nick_str of
           Err _ \<Rightarrow> (reg, send_numeric sender ERR_ERRONEUSNICKNAME [nick_str] ''Erroneous nickname'')
         | Ok new_nick \<Rightarrow>
             (case get_by_connection reg conn of
                None \<Rightarrow> (reg, [])
              | Some s \<Rightarrow>
                  (case change_nick (us_nickname s) new_nick reg of
                     (Ok _, reg') \<Rightarrow>
                       (update_session conn (\<lambda>s. s\<lparr>us_last_active := env_instant E\<rparr>) reg',
                        [(sender, message_with_prefix (session_prefix s) Nick [new_nick])])
                   | (Err (NickInUse _), reg') \<Rightarrow>
                       (reg', send_numeric sender ERR_NICKNAMEINUSE [us_nickname s, new_nick]
                                ''Nickname is already in use'')
                   | (Err _, reg') \<Rightarrow> (reg', [])))))"

definition handle_whois ::
  "server_env \<Rightarrow> message \<Rightarrow> nat \<Rightarrow> user_registry \<Rightarrow> nat \<Rightarrow> delivery list" where
  "handle_whois E msg conn reg sender =
     (case get_by_connection reg conn of
        None \<Rightarrow> []
      | Some r \<Rightarrow>
          (let requestor = us_nickname r in
           if msg_params msg = [] then send_numeric sender ERR_NONICKNAMEGIVEN [requestor] ''No nickname given''
           else
             (let target_str = msg_params msg ! 0;
                  missing = send_numeric sender ERR_NOSUCHNICK [requestor, target_str] ''No such nick/channel''
                    @ send_numeric sender RPL_ENDOFWHOIS [requestor, target_str] ''End of /WHOIS list'' in
              case nickname_new target_str of
                Err _ \<Rightarrow> missing
              | Ok target_nick \<Rightarrow>
                  (case get_by_nick reg target_nick of
                     None \<Rightarrow> missing
                   | Some t \<Rightarrow>
                       (let nick = us_nickname t in
                        send_numeric sender RPL_WHOISUSER [requestor, nick, us_username t, us_hostname t, ''*''] (us_realname t)
                        @ send_numeric sender RPL_WHOISSERVER [requestor, nick, SERVER_NAME] (SERVER_NAME @ '' '' @ env_version E)
                        @ (if Operator \<in> us_modes t
                           then send_numeric sender RPL_WHOISOPERATOR [requestor, nick] ''is an IRC operator'' else [])
                        @ (case us_away_message t of None \<Rightarrow> []
                           | Some away \<Rightarrow> send_numeric sender RPL_AWAY [requestor, nick] away)
                        @ send_numeric sender RPL_WHOISIDLE
                            [requestor, nick, nat_to_string ((env_instant E - us_last_active t) div 1000),
                             nat_to_string (us_signon_time t)] ''seconds idle, signon time''
                        @ send_numeric sender RPL_ENDOFWHOIS [requestor, nick] ''End of /WHOIS list'')))))"

definition handle_away ::
  "message \<Rightarrow> nat \<Rightarrow> user_registry \<Rightarrow> nat \<Rightarrow> user_registry \<times> delivery list" where
  "handle_away msg conn reg sender =
     (case get_by_connection reg conn of
        None \<Rightarrow> (reg, [])
      | Some s \<Rightarrow>
          if msg_params msg = []
          then (update_session conn (\<lambda>s. s\<lparr>us_away_message := None\<rparr>) reg,
                send_numeric sender RPL_UNAWAY [us_nickname s] ''You are no longer marked as being away'')
          else (update_session conn (\<lambda>s. s\<lparr>us_away_message := Some (msg_params msg ! 0)\<rparr>) reg,
                send_numeric sender RPL_NOWAWAY [us_nickname s] ''You have been marked as being away''))"

definition format_user_modes :: "user_mode set \<Rightarrow> string" where
  "format_user_modes modes =
     ''+'' @ sort (List.map_filter user_mode_char (filter (\<lambda>m. m \<in> modes) [Normal, Voiced, Operator, Admin]))"

fun user_mode_loop :: "string list \<Rightarrow> bool \<Rightarrow> user_mode set \<Rightarrow> bool \<Rightarrow> user_mode set \<times> bool" where
  "user_mode_loop [] adding modes unknown = (modes, unknown)"
| "user_mode_loop (c # cs) adding modes unknown =
     (if c = ''+'' then user_mode_loop cs True modes unknown
      else if c = ''-'' then user_mode_loop cs False modes unknown
      else if c = ''o'' then user_mode_loop cs adding (if adding then modes else modes - {Operator}) unknown
      else if c = ''v'' then user_mode_loop cs adding (if adding then insert Voiced modes else modes - {Voiced}) unknown
      else user_mode_loop cs adding modes True)"

definition handle_user_mode ::
  "message \<Rightarrow> nat \<Rightarrow> user_registry \<Rightarrow> nat \<Rightarrow> user_registry \<times> delivery list" where
  "handle_user_mode msg conn reg sender =
     (case get_by_connection reg conn of
        None \<Rightarrow> (reg, [])
      | Some s \<Rightarrow>
          (let nick = us_nickname s; params = msg_params msg in
           if params = []
           then (reg, send_numeric sender ERR_NEEDMOREPARAMS [nick, ''MODE''] ''Not enough parameters'')
           else if \<not> eq_ignore_ascii_case (params ! 0) nick
           then (reg, send_numeric sender ERR_USERSDONTMATCH [nick] ''Cannot change mode for other users'')
           else if length params < 2
           then (reg, send_numeric sender RPL_UMODEIS [nick, format_user_modes (us_modes s)] [])
           else
             (case user_mode_loop (str_chars (params ! 1)) True (us_modes s) False of
                (modes, unknown) \<Rightarrow>
                  (update_session conn (\<lambda>s. s\<lparr>us_modes := modes\<rparr>) reg,
                   (if unknown then send_numeric sender ERR_UMODEUNKNOWNFLAG [nick] ''Unknown MODE flag'' else [])
                   @ send_numeric sender RPL_UMODEIS [nick, format_user_modes modes] []))))"

definition handle_ping :: "message \<Rightarrow> nat \<Rightarrow> delivery list" where
  "handle_ping msg sender =
     (case msg_params msg of [] \<Rightarrow> []
      | token # _ \<Rightarrow> [(sender, message_with_prefix (Server SERVER_NAME) Pong [token])])"

definition get_nick :: "nat \<Rightarrow> user_registry \<Rightarrow> string" where
  "get_nick conn reg = (case get_by_connection reg conn of Some s \<Rightarrow> us_nickname s | None \<Rightarrow> ''*'')"

section \<open>Leaving the server\<close>

text \<open>Sends to the members that were not notified yet; \<open>notified\<close> is a set of nicknames.\<close>

fun notify_members ::
  "string \<Rightarrow> message \<Rightarrow> user_registry \<Rightarrow> unit ci_map \<Rightarrow> string list \<Rightarrow> unit ci_map \<times> delivery list" where
  "notify_members nick msg reg notified [] = (notified, [])"
| "notify_members nick msg reg notified (m # ms) =
     (if nickname_eq m nick then notify_members nick msg reg notified ms
      else if ci_contains notified m then notify_members nick msg reg notified ms
      else case notify_members nick msg reg (ci_insert m () notified) ms of
             (notified', out) \<Rightarrow> (notified', send_to_nick reg m msg @ out))"

fun quit_loop ::
  "string \<Rightarrow> message \<Rightarrow> user_registry \<Rightarrow> (string \<times> channel) list \<Rightarrow> unit ci_map \<Rightarrow> channel_registry \<Rightarrow>
     channel_registry \<times> delivery list" where
  "quit_loop nick msg reg [] notified chans = (chans, [])"
| "quit_loop nick msg reg ((chan_name, ch) # rest) notified chans =
     (if \<not> ci_contains (ch_members ch) nick then quit_loop nick msg reg rest notified chans
      else case notify_members nick msg reg notified (ci_keys (ch_members ch)) of
             (notified', out1) \<Rightarrow>
               (case quit_loop nick msg reg rest notified' (part_member nick chan_name chans) of
                  (chans', out2) \<Rightarrow> (chans', out1 @ out2)))"

definition broadcast_quit_and_remove ::
  "string \<Rightarrow> message \<Rightarrow> channel_registry \<Rightarrow> user_registry \<Rightarrow> channel_registry \<times> delivery list" where
  "broadcast_quit_and_remove nick quit_msg chans reg =
     quit_loop nick quit_msg reg (channels_list_all chans) [] chans"

definition broadcast_to_group_members :: "user_registry \<Rightarrow> string list \<Rightarrow> message \<Rightarrow> delivery list" where
  "broadcast_to_group_members reg members msg =
     concat (map (\<lambda>n. case nickname_new n of Err _ \<Rightarrow> [] | Ok nick \<Rightarrow> send_to_nick reg nick msg) members)"

definition handle_member_leave ::
  "nat \<Rightarrow> string \<Rightarrow> prefix \<Rightarrow> user_registry \<Rightarrow> group_registry \<Rightarrow> group_registry \<times> delivery list" where
  "handle_member_leave group_id nick pfx reg gr =
     (case group_remove_member group_id nick gr of
        (None, gr') \<Rightarrow> (gr', [])
      | (Some res, gr') \<Rightarrow>
          if rm_group_destroyed res then (gr', [])
          else (gr', broadcast_to_group_members reg (rm_remaining res)
                  (message_with_prefix pfx (Pirc GroupLeave) [nat_to_string group_id])))"

fun leave_groups ::
  "string \<Rightarrow> prefix \<Rightarrow> user_registry \<Rightarrow> nat list \<Rightarrow> group_registry \<Rightarrow> group_registry \<times> delivery list" where
  "leave_groups nick pfx reg [] gr = (gr, [])"
| "leave_groups nick pfx reg (i # is) gr =
     (case handle_member_leave i nick pfx reg gr of
        (gr1, out1) \<Rightarrow> (case leave_groups nick pfx reg is gr1 of (gr2, out2) \<Rightarrow> (gr2, out1 @ out2)))"

definition remove_user_from_all_groups ::
  "string \<Rightarrow> prefix \<Rightarrow> user_registry \<Rightarrow> group_registry \<Rightarrow> group_registry \<times> delivery list" where
  "remove_user_from_all_groups nick pfx reg gr =
     leave_groups nick pfx reg (groups_for_member gr nick) gr"

definition handle_quit ::
  "message \<Rightarrow> nat \<Rightarrow> user_registry \<Rightarrow> channel_registry \<Rightarrow> group_registry \<Rightarrow> nat \<Rightarrow> pre_registration \<Rightarrow>
     pre_registration \<times> user_registry \<times> channel_registry \<times> group_registry \<times> delivery list" where
  "handle_quit msg conn reg chans gr sender st =
     (let quit_message = (case msg_params msg of [] \<Rightarrow> ''Client Quit'' | m # _ \<Rightarrow> m);
          hostname = (case get_by_connection reg conn of Some s \<Rightarrow> us_hostname s | None \<Rightarrow> pr_hostname st) in
      case (case get_by_connection reg conn of
              None \<Rightarrow> (chans, gr, [])
            | Some s \<Rightarrow>
                (case broadcast_quit_and_remove (us_nickname s)
                        (message_with_prefix (session_prefix s) Quit [quit_message]) chans reg of
                   (chans', out1) \<Rightarrow>
                     (case remove_user_from_all_groups (us_nickname s) (session_prefix s) reg gr of
                        (gr', out2) \<Rightarrow> (chans', gr', out1 @ out2)))) of
        (chans', gr', out) \<Rightarrow>
          ((if pr_registered st then st\<lparr>pr_registered := False\<rparr> else st),
           (if pr_registered st then snd (remove_by_connection conn reg) else reg),
           chans', gr',
           out @ [(sender, message_new ErrorCmd
             [''Closing Link: '' @ hostname @ '' (Quit: '' @ quit_message @ '')''])]))"

section \<open>Operator commands\<close>

definition is_oper :: "user_session \<Rightarrow> bool" where
  "is_oper s \<longleftrightarrow> Operator \<in> us_modes s"

definition handle_oper ::
  "message \<Rightarrow> nat \<Rightarrow> user_registry \<Rightarrow> nat \<Rightarrow> server_config \<Rightarrow> user_registry \<times> delivery list" where
  "handle_oper msg conn reg sender cfg =
     (case get_by_connection reg conn of
        None \<Rightarrow> (reg, [])
      | Some s \<Rightarrow>
          (let nick = us_nickname s; params = msg_params msg in
           if length params < 2
           then (reg, send_numeric sender ERR_NEEDMOREPARAMS [nick, ''OPER''] ''Not enough parameters'')
           else
             (case find (\<lambda>o'. oc_name o' = params ! 0) (sc_operators cfg) of
                None \<Rightarrow> (reg, send_numeric sender ERR_PASSWDMISMATCH [nick] ''Password incorrect'')
              | Some oc \<Rightarrow>
                  if oc_password oc \<noteq> params ! 1
                  then (reg, send_numeric sender ERR_PASSWDMISMATCH [nick] ''Password incorrect'')
                  else if (case oc_host_mask oc of None \<Rightarrow> False
                           | Some m \<Rightarrow> \<not> host_matches_mask (us_hostname s) m)
                  then (reg, send_numeric sender ERR_NOOPERHOST [nick] ''No O-lines for your host'')
                  else
                    (update_session conn (\<lambda>s. s\<lparr>us_modes := insert Operator (us_modes s)\<rparr>) reg,
                     send_numeric sender RPL_YOUREOPER [nick] ''You are now an IRC operator''
                     @ [(sender, message_with_prefix (session_prefix s) Mode [nick, ''+o''])]))))"

definition not_oper_reply :: "nat \<Rightarrow> user_session \<Rightarrow> delivery list" where
  "not_oper_reply sender s =
     send_numeric sender ERR_NOPRIVILEGES [us_nickname s] ''Permission Denied- You're not an IRC operator''"

definition handle_kill ::
  "message \<Rightarrow> nat \<Rightarrow> user_registry \<Rightarrow> channel_registry \<Rightarrow> nat \<Rightarrow>
     user_registry \<times> channel_registry \<times> delivery list" where
  "handle_kill msg conn reg chans sender =
     (case get_by_connection reg conn of
        None \<Rightarrow> (reg, chans, [])
      | Some s \<Rightarrow>
          if \<not> is_oper s then (reg, chans, not_oper_reply sender s)
          else
            (let nick = us_nickname s; params = msg_params msg in
             if params = []
             then (reg, chans, send_numeric sender ERR_NEEDMOREPARAMS [nick, ''KILL''] ''Not enough parameters'')
             else
               (let target_str = params ! 0;
                    reason = (if length params > 1 then params ! 1 else ''Killed'');
                    missing = send_numeric sender ERR_NOSUCHNICK [nick, target_str] ''No such nick/channel'' in
                case nickname_new target_str of
                  Err _ \<Rightarrow> (reg, chans, missing)
                | Ok target_nick \<Rightarrow>
                    (case get_by_nick reg target_nick of
                       None \<Rightarrow> (reg, chans, missing)
                     | Some t \<Rightarrow>
                         (let killed = ''Killed ('' @ nick @ '' ('' @ reason @ ''))'' in
                          case broadcast_quit_and_remove target_nick
                                 (message_with_prefix (UserPrefix target_nick (us_username t) (us_hostname t)) Quit [killed])
                                 chans reg of
                            (chans', out) \<Rightarrow>
                              (snd (remove_by_connection (us_connection_id t) reg), chans',
                               [(us_sender t, message_with_prefix (session_prefix s) Kill [target_str, reason]),
                                (us_sender t, message_new ErrorCmd
                                   [''Closing Link: '' @ us_hostname t @ '' ('' @ killed @ '')''])]
                               @ out))))))"

definition notice_all :: "user_registry \<Rightarrow> string \<Rightarrow> delivery list" where
  "notice_all reg text =
     map (\<lambda>s. (us_sender s, message_with_prefix (Server SERVER_NAME) Notice [''*'', text])) (iter_sessions reg)"

definition handle_die :: "nat \<Rightarrow> user_registry \<Rightarrow> nat \<Rightarrow> bool \<times> delivery list" where
  "handle_die conn reg sender =
     (case get_by_connection reg conn of
        None \<Rightarrow> (False, [])
      | Some s \<Rightarrow> if \<not> is_oper s then (False, not_oper_reply sender s)
                  else (True, notice_all reg (''Server shutting down by operator '' @ us_nickname s)))"

definition handle_restart :: "nat \<Rightarrow> user_registry \<Rightarrow> nat \<Rightarrow> bool \<times> delivery list" where
  "handle_restart conn reg sender =
     (case get_by_connection reg conn of
        None \<Rightarrow> (False, [])
      | Some s \<Rightarrow> if \<not> is_oper s then (False, not_oper_reply sender s)
                  else (True, notice_all reg (''Server restarting by operator '' @ us_nickname s)))"

definition handle_wallops :: "message \<Rightarrow> nat \<Rightarrow> user_registry \<Rightarrow> nat \<Rightarrow> delivery list" where
  "handle_wallops msg conn reg sender =
     (case get_by_connection reg conn of
        None \<Rightarrow> []
      | Some s \<Rightarrow>
          if \<not> is_oper s then not_oper_reply sender s
          else if msg_params msg = []
          then send_numeric sender ERR_NEEDMOREPARAMS [us_nickname s, ''WALLOPS''] ''Not enough parameters''
          else map (\<lambda>t. (us_sender t, message_with_prefix (session_prefix s) Wallops [msg_params msg ! 0]))
                 (filter is_oper (iter_sessions reg)))"

section \<open>Relays and the key exchange\<close>

definition offline_notice :: "nat \<Rightarrow> string \<Rightarrow> string \<Rightarrow> string \<Rightarrow> delivery list" where
  "offline_notice sender nick target what =
     send_server_notice sender nick (target @ '' is offline. '' @ what @ '' will be delivered when they reconnect.'')"

text \<open>Sends to the target, or queues the message and tells the sender.\<close>

definition send_or_queue ::
  "server_env \<Rightarrow> nat \<Rightarrow> string \<Rightarrow> string \<Rightarrow> string \<Rightarrow> message \<Rightarrow> user_registry \<Rightarrow> offline_store \<Rightarrow>
     offline_store \<times> delivery list" where
  "send_or_queue E sender nick target_nick what relay reg off =
     (case get_by_nick reg target_nick of
        Some t \<Rightarrow> (off, [(us_sender t, relay)])
      | None \<Rightarrow> (snd (queue_message target_nick relay (env_instant E) off),
                 offline_notice sender nick target_nick what))"

definition handle_relay ::
  "server_env \<Rightarrow> pirc_subcommand \<Rightarrow> message \<Rightarrow> nat \<Rightarrow> user_registry \<Rightarrow> nat \<Rightarrow> offline_store \<Rightarrow>
     offline_store \<times> delivery list" where
  "handle_relay E sub msg conn reg sender off =
     (case get_by_connection reg conn of
        None \<Rightarrow> (off, [])
      | Some s \<Rightarrow>
          (let nick = us_nickname s in
           if msg_params msg = []
           then (off, send_numeric sender ERR_NEEDMOREPARAMS [nick, subcommand_as_str sub] ''Not enough parameters'')
           else
             (let target_str = msg_params msg ! 0 in
              case nickname_new target_str of
                Err _ \<Rightarrow> (off, send_numeric sender ERR_NOSUCHNICK [nick, target_str] ''No such nick/channel'')
              | Ok target_nick \<Rightarrow>
                  send_or_queue E sender nick target_nick ''Message''
                    (message_with_prefix (session_prefix s) (Pirc sub) (msg_params msg)) reg off)))"

definition handle_p2p_relay ::
  "pirc_subcommand \<Rightarrow> message \<Rightarrow> nat \<Rightarrow> user_registry \<Rightarrow> nat \<Rightarrow> delivery list" where
  "handle_p2p_relay sub msg conn reg sender =
     (case get_by_connection reg conn of
        None \<Rightarrow> []
      | Some s \<Rightarrow>
          (let nick = us_nickname s in
           if msg_params msg = []
           then send_numeric sender ERR_NEEDMOREPARAMS [nick, subcommand_as_str sub] ''Not enough parameters''
           else
             (let target_str = msg_params msg ! 0 in
              case nickname_new target_str of
                Err _ \<Rightarrow> send_numeric sender ERR_NOSUCHNICK [nick, target_str] ''No such nick/channel''
              | Ok target_nick \<Rightarrow>
                  (case get_by_nick reg target_nick of
                     Some t \<Rightarrow> [(us_sender t, message_with_prefix (session_prefix s) (Pirc sub) (msg_params msg))]
                   | None \<Rightarrow> send_numeric sender ERR_NOSUCHNICK [nick, target_nick] ''No such nick/channel''))))"

definition BUNDLE_CHUNK_SIZE :: nat where "BUNDLE_CHUNK_SIZE = 400"

text \<open>\<^verbatim>\<open>slice::chunks\<close>.\<close>

function chunks_of :: "nat \<Rightarrow> 'a list \<Rightarrow> 'a list list" where
  "chunks_of k xs = (if xs = [] \<or> k = 0 then [] else take k xs # chunks_of k (drop k xs))"
  by pat_completeness auto
termination
  by (relation "measure (\<lambda>(k, xs). length xs)") auto

declare chunks_of.simps [simp del]

definition bundle_replies :: "string \<Rightarrow> string \<Rightarrow> message list" where
  "bundle_replies nick encoded =
     (if length encoded > BUNDLE_CHUNK_SIZE then
        (let chunks = chunks_of BUNDLE_CHUNK_SIZE encoded in
         map (\<lambda>(i, chunk). message_with_prefix (Server SERVER_NAME) (Pirc KeyExchange)
                [nick, nat_to_string (i + 1) @ ''/'' @ nat_to_string (length chunks), chunk])
           (List.enumerate 0 chunks))
      else [message_with_prefix (Server SERVER_NAME) (Pirc KeyExchange) [nick, encoded]])"

definition is_request_bundle :: "server_env \<Rightarrow> message \<Rightarrow> bool" where
  "is_request_bundle E msg \<longleftrightarrow>
     length (msg_params msg) < 2
     \<or> (case env_decode E (msg_params msg ! 1) of
          Some bytes \<Rightarrow> bytes \<noteq> [] \<and> hd bytes = CHR 0x00 | None \<Rightarrow> False)"

definition handle_key_exchange ::
  "server_env \<Rightarrow> message \<Rightarrow> nat \<Rightarrow> user_registry \<Rightarrow> nat \<Rightarrow> prekey_store \<Rightarrow> offline_store \<Rightarrow>
     offline_store \<times> delivery list" where
  "handle_key_exchange E msg conn reg sender pk off =
     (case get_by_connection reg conn of
        None \<Rightarrow> (off, [])
      | Some s \<Rightarrow>
          (let nick = us_nickname s in
           if msg_params msg = []
           then (off, send_numeric sender ERR_NEEDMOREPARAMS [nick, ''KEYEXCHANGE''] ''Not enough parameters'')
           else
             (let target_str = msg_params msg ! 0 in
              case nickname_new target_str of
                Err _ \<Rightarrow> (off, send_numeric sender ERR_NOSUCHNICK [nick, target_str] ''No such nick/channel'')
              | Ok target_nick \<Rightarrow>
                  if is_request_bundle E msg then
                    (case get_bundle pk target_nick of
                       Some bundle \<Rightarrow> (off, map (Pair sender) (bundle_replies nick (env_encode E bundle)))
                     | None \<Rightarrow> (off, send_server_notice sender nick
                                (''No pre-key bundle available for '' @ target_nick)))
                  else
                    send_or_queue E sender nick target_nick ''Message''
                      (message_with_prefix (session_prefix s) (Pirc KeyExchange)
                        (target_nick # tl (msg_params msg))) reg off)))"

definition parse_chunk_header :: "string \<Rightarrow> (nat \<times> nat) option" where
  "parse_chunk_header s =
     (case split_at_byte (CHR ''/'') s of
        None \<Rightarrow> None
      | Some (n_str, total_str) \<Rightarrow>
          (case parse_unsigned U64_MAX n_str of
             None \<Rightarrow> None
           | Some n \<Rightarrow>
               (case parse_unsigned U64_MAX total_str of
                  None \<Rightarrow> None
                | Some t \<Rightarrow> if n \<ge> 1 \<and> t \<ge> 1 \<and> n \<le> t then Some (n, t) else None)))"

definition upload_payload :: "string \<Rightarrow> string list \<Rightarrow> prekey_store \<Rightarrow> string option \<times> prekey_store" where
  "upload_payload nick params pk =
     (if length params \<ge> 3 then
        (case parse_chunk_header (params ! 1) of
           Some (n, t) \<Rightarrow> add_bundle_chunk nick (params ! 2) n t pk
         | None \<Rightarrow> (Some (params ! 1), pk))
      else (Some (params ! 1), pk))"

definition maybe_store_prekey_bundle ::
  "server_env \<Rightarrow> message \<Rightarrow> nat \<Rightarrow> user_registry \<Rightarrow> nat \<Rightarrow> prekey_store \<Rightarrow> prekey_store \<times> delivery list" where
  "maybe_store_prekey_bundle E msg conn reg sender pk =
     (if length (msg_params msg) < 2 \<or> msg_params msg ! 0 \<noteq> ''*'' then (pk, [])
      else case get_by_connection reg conn of
        None \<Rightarrow> (pk, [])
      | Some s \<Rightarrow>
          (let nick = us_nickname s in
           case upload_payload nick (msg_params msg) pk of
             (None, pk1) \<Rightarrow> (pk1, [])
           | (Some encoded, pk1) \<Rightarrow>
               (case env_decode E encoded of
                  None \<Rightarrow> (pk1, send_server_notice sender nick ''Invalid key exchange data encoding'')
                | Some data \<Rightarrow>
                    if data = [] \<or> hd data \<noteq> CHR 0x01
                    then (pk1, send_server_notice sender nick ''Expected a Bundle message for registration'')
                    else (store_bundle nick data pk1,
                          send_server_notice sender nick ''Pre-key bundle registered''))))"

section \<open>Group commands\<close>

definition handle_group_create ::
  "server_env \<Rightarrow> message \<Rightarrow> nat \<Rightarrow> user_registry \<Rightarrow> group_registry \<Rightarrow> nat \<Rightarrow> group_registry \<times> delivery list" where
  "handle_group_create E msg conn reg gr sender =
     (case get_by_connection reg conn of
        None \<Rightarrow> (gr, [])
      | Some s \<Rightarrow>
          if msg_params msg = []
          then (gr, send_numeric sender ERR_NEEDMOREPARAMS [us_nickname s, ''GROUP CREATE''] ''Not enough parameters'')
          else
            (case create_group (msg_params msg ! 0) (us_nickname s) (env_unix E) gr of
               (group_id, gr') \<Rightarrow>
                 (gr', [(sender, message_with_prefix (session_prefix s) (Pirc GroupCreate)
                          [nat_to_string group_id, msg_params msg ! 0])])))"

definition handle_group_invite ::
  "message \<Rightarrow> nat \<Rightarrow> user_registry \<Rightarrow> group_registry \<Rightarrow> nat \<Rightarrow> delivery list" where
  "handle_group_invite msg conn reg gr sender =
     (case get_by_connection reg conn of
        None \<Rightarrow> []
      | Some s \<Rightarrow>
          (let nick = us_nickname s; params = msg_params msg in
           if length params < 2
           then send_numeric sender ERR_NEEDMOREPARAMS [nick, ''GROUP INVITE''] ''Not enough parameters''
           else case group_id_from_str (params ! 0) of
             None \<Rightarrow> send_server_notice sender nick ''Invalid group ID''
           | Some group_id \<Rightarrow>
               if \<not> group_is_member gr group_id nick
               then send_server_notice sender nick ''You are not a member of this group''
               else case nickname_new (params ! 1) of
                 Err _ \<Rightarrow> send_numeric sender ERR_NOSUCHNICK [nick, params ! 1] ''No such nick/channel''
               | Ok target_nick \<Rightarrow>
                   (case get_by_nick reg target_nick of
                      Some t \<Rightarrow>
                        [(us_sender t, message_with_prefix (session_prefix s) (Pirc GroupInvite)
                           [nat_to_string group_id, target_nick,
                            case group_name gr group_id of None \<Rightarrow> [] | Some g \<Rightarrow> g])]
                    | None \<Rightarrow> send_numeric sender ERR_NOSUCHNICK [nick, target_nick] ''No such nick/channel'')))"

definition handle_group_join ::
  "server_env \<Rightarrow> message \<Rightarrow> nat \<Rightarrow> user_registry \<Rightarrow> group_registry \<Rightarrow> nat \<Rightarrow> group_registry \<times> delivery list" where
  "handle_group_join E msg conn reg gr sender =
     (case get_by_connection reg conn of
        None \<Rightarrow> (gr, [])
      | Some s \<Rightarrow>
          (let nick = us_nickname s; params = msg_params msg in
           if params = []
           then (gr, send_numeric sender ERR_NEEDMOREPARAMS [nick, ''GROUP JOIN''] ''Not enough parameters'')
           else case group_id_from_str (params ! 0) of
             None \<Rightarrow> (gr, send_server_notice sender nick ''Invalid group ID'')
           | Some group_id \<Rightarrow>
               if \<not> group_exists gr group_id then (gr, send_server_notice sender nick ''Group does not exist'')
               else case group_add_member group_id nick (env_unix E) gr of
                 (False, gr') \<Rightarrow> (gr', send_server_notice sender nick ''Already a member of this group'')
               | (True, gr') \<Rightarrow>
                   (let members = group_members gr' group_id in
                    (gr', broadcast_to_group_members reg members
                            (message_with_prefix (session_prefix s) (Pirc GroupJoin) [nat_to_string group_id])
                          @ [(sender, message_with_prefix (Server SERVER_NAME) (Pirc GroupMembers)
                               (nat_to_string group_id # members))]))))"

definition handle_group_leave ::
  "message \<Rightarrow> nat \<Rightarrow> user_registry \<Rightarrow> group_registry \<Rightarrow> nat \<Rightarrow> group_registry \<times> delivery list" where
  "handle_group_leave msg conn reg gr sender =
     (case get_by_connection reg conn of
        None \<Rightarrow> (gr, [])
      | Some s \<Rightarrow>
          (let nick = us_nickname s in
           if msg_params msg = []
           then (gr, send_numeric sender ERR_NEEDMOREPARAMS [nick, ''GROUP LEAVE''] ''Not enough parameters'')
           else case group_id_from_str (msg_params msg ! 0) of
             None \<Rightarrow> (gr, send_server_notice sender nick ''Invalid group ID'')
           | Some group_id \<Rightarrow> handle_member_leave group_id nick (session_prefix s) reg gr))"

definition handle_group_message_relay ::
  "server_env \<Rightarrow> message \<Rightarrow> nat \<Rightarrow> user_registry \<Rightarrow> group_registry \<Rightarrow> nat \<Rightarrow> offline_store \<Rightarrow>
     offline_store \<times> delivery list" where
  "handle_group_message_relay E msg conn reg gr sender off =
     (case get_by_connection reg conn of
        None \<Rightarrow> (off, [])
      | Some s \<Rightarrow>
          (let nick = us_nickname s; params = msg_params msg in
           if length params < 3
           then (off, send_numeric sender ERR_NEEDMOREPARAMS [nick, ''GROUP MSG''] ''Not enough parameters'')
           else case group_id_from_str (params ! 0) of
             None \<Rightarrow> (off, send_server_notice sender nick ''Invalid group ID'')
           | Some group_id \<Rightarrow>
               if \<not> group_is_member gr group_id nick
               then (off, send_server_notice sender nick ''You are not a member of this group'')
               else case nickname_new (params ! 1) of
                 Err _ \<Rightarrow> (off, send_numeric sender ERR_NOSUCHNICK [nick, params ! 1] ''No such nick/channel'')
               | Ok target_nick \<Rightarrow>
                   send_or_queue E sender nick target_nick ''Group message''
                     (message_with_prefix (session_prefix s) (Pirc GroupMessage)
                       [nat_to_string group_id, target_nick, params ! 2]) reg off))"

definition handle_group_signaling_relay ::
  "pirc_subcommand \<Rightarrow> message \<Rightarrow> nat \<Rightarrow> user_registry \<Rightarrow> group_registry \<Rightarrow> nat \<Rightarrow> delivery list" where
  "handle_group_signaling_relay sub msg conn reg gr sender =
     (case get_by_connection reg conn of
        None \<Rightarrow> []
      | Some s \<Rightarrow>
          (let nick = us_nickname s; params = msg_params msg in
           if length params < 2
           then send_numeric sender ERR_NEEDMOREPARAMS [nick, subcommand_as_str sub] ''Not enough parameters''
           else case group_id_from_str (params ! 0) of
             None \<Rightarrow> send_server_notice sender nick ''Invalid group ID''
           | Some group_id \<Rightarrow>
               if \<not> group_is_member gr group_id nick
               then send_server_notice sender nick ''You are not a member of this group''
               else case nickname_new (params ! 1) of
                 Err _ \<Rightarrow> send_numeric sender ERR_NOSUCHNICK [nick, params ! 1] ''No such nick/channel''
               | Ok target_nick \<Rightarrow>
                   (case get_by_nick reg target_nick of
                      Some t \<Rightarrow> [(us_sender t, message_with_prefix (session_prefix s) (Pirc sub) params)]
                    | None \<Rightarrow> send_numeric sender ERR_NOSUCHNICK [nick, target_nick] ''No such nick/channel'')))"

end
