(* ===== verification/Server.thy ===== *)
theory Server
  imports Server_Users
begin

text \<open>
  The dispatch of \<^verbatim>\<open>handler.rs\<close> (\<^verbatim>\<open>handle_message\<close>) and the life of the connections of a server
  (\<^verbatim>\<open>handle_connection\<close> of \<^verbatim>\<open>main.rs\<close>): accepting, receiving a message, losing the connection.

  A handler runs to its end before the next one starts, and the server has no cluster context, so
  that the cluster subcommands do nothing, as in the source when \<^verbatim>\<open>cluster_ctx\<close> is \<^verbatim>\<open>None\<close>.
  The invariants of the tables are proved for every sequence of such events.
\<close>

record server =
  sv_users :: user_registry
  sv_channels :: channel_registry
  sv_prekeys :: prekey_store
  sv_offline :: offline_store
  sv_groups :: group_registry

datatype handle_result = HrContinue | HrQuit | HrShutdown

text \<open>Dispatch for a registered connection.\<close>

definition handle_registered ::
  "server_env \<Rightarrow> server_config \<Rightarrow> message \<Rightarrow> nat \<Rightarrow> nat \<Rightarrow> pre_registration \<Rightarrow> server \<Rightarrow>
     handle_result \<times> pre_registration \<times> server \<times> delivery list" where
  "handle_registered E cfg msg conn sender st sv0 =
     (let sv = (if msg_command msg = Ping \<or> msg_command msg = Pong then sv0
                else sv0\<lparr>sv_users := update_session conn (\<lambda>s. s\<lparr>us_last_active := env_instant E\<rparr>) (sv_users sv0)\<rparr>);
          reg = sv_users sv; chans = sv_channels sv; now = env_unix E;
          users_out = (\<lambda>(reg', out). (HrContinue, st, sv\<lparr>sv_users := reg'\<rparr>, out));
          chans_out = (\<lambda>(chans', out). (HrContinue, st, sv\<lparr>sv_channels := chans'\<rparr>, out));
          offline_out = (\<lambda>(off', out). (HrContinue, st, sv\<lparr>sv_offline := off'\<rparr>, out));
          groups_out = (\<lambda>(gr', out). (HrContinue, st, sv\<lparr>sv_groups := gr'\<rparr>, out));
          only_out = (\<lambda>out. (HrContinue, st, sv, out));
          shutdown_out = (\<lambda>(b, out). (if b then HrShutdown else HrContinue, st, sv, out)) in
      case msg_command msg of
        Quit \<Rightarrow>
          (case handle_quit msg conn reg chans (sv_groups sv) sender st of
             (st', reg', chans', gr', out) \<Rightarrow>
               (HrQuit, st', sv\<lparr>sv_users := reg', sv_channels := chans', sv_groups := gr'\<rparr>, out))
      | Nick \<Rightarrow> users_out (handle_nick_change E msg conn reg sender)
      | User \<Rightarrow> (case handle_user msg sender st of (st', out) \<Rightarrow> (HrContinue, st', sv, out))
      | Whois \<Rightarrow> only_out (handle_whois E msg conn reg sender)
      | Away \<Rightarrow> users_out (handle_away msg conn reg sender)
      | Mode \<Rightarrow>
          (if (case msg_params msg of [] \<Rightarrow> False | t # _ \<Rightarrow> starts_with t ''#'' \<or> starts_with t ''&'')
           then chans_out (handle_channel_mode msg conn reg chans sender now)
           else users_out (handle_user_mode msg conn reg sender))
      | Join \<Rightarrow> chans_out (handle_join msg conn reg chans sender (sc_max_channels_per_user cfg) now)
      | Part \<Rightarrow> chans_out (handle_part msg conn reg chans sender)
      | Topic \<Rightarrow> chans_out (handle_topic msg conn reg chans sender now)
      | Kick \<Rightarrow> chans_out (handle_kick msg conn reg chans sender)
      | Invite \<Rightarrow> chans_out (handle_invite msg conn reg chans sender)
      | Ban \<Rightarrow> chans_out (handle_ban msg conn reg chans sender now)
      | Privmsg \<Rightarrow> only_out (handle_privmsg msg conn reg chans sender)
      | Notice \<Rightarrow> only_out (handle_notice msg conn reg chans sender)
      | ListCmd \<Rightarrow> only_out (handle_list msg conn reg chans sender)
      | NamesCmd \<Rightarrow> only_out (handle_names msg conn reg chans sender)
      | Oper \<Rightarrow> users_out (handle_oper msg conn reg sender cfg)
      | Kill \<Rightarrow>
          (case handle_kill msg conn reg chans sender of
             (reg', chans', out) \<Rightarrow> (HrContinue, st, sv\<lparr>sv_users := reg', sv_channels := chans'\<rparr>, out))
      | Die \<Rightarrow> shutdown_out (handle_die conn reg sender)
      | Restart \<Rightarrow> shutdown_out (handle_restart conn reg sender)
      | Wallops \<Rightarrow> only_out (handle_wallops msg conn reg sender)
      | Motd \<Rightarrow> only_out (send_motd E sender (get_nick conn reg) cfg)
      | Ping \<Rightarrow> only_out (handle_ping msg sender)
      | Pirc sub \<Rightarrow>
          (if sub = KeyExchange then
             (if (case msg_params msg of [] \<Rightarrow> False | t # _ \<Rightarrow> t = ''*'')
              then (case maybe_store_prekey_bundle E msg conn reg sender (sv_prekeys sv) of
                      (pk', out) \<Rightarrow> (HrContinue, st, sv\<lparr>sv_prekeys := pk'\<rparr>, out))
              else offline_out (handle_key_exchange E msg conn reg sender (sv_prekeys sv) (sv_offline sv)))
           else if sub \<in> {Encrypted, KeyExchangeAck, KeyExchangeComplete, Fingerprint}
           then offline_out (handle_relay E sub msg conn reg sender (sv_offline sv))
           else if sub \<in> {P2pOffer, P2pAnswer, P2pIce, P2pEstablished, P2pFailed}
           then only_out (handle_p2p_relay sub msg conn reg sender)
           else if sub = GroupCreate then groups_out (handle_group_create E msg conn reg (sv_groups sv) sender)
           else if sub = GroupInvite then only_out (handle_group_invite msg conn reg (sv_groups sv) sender)
           else if sub = GroupJoin then groups_out (handle_group_join E msg conn reg (sv_groups sv) sender)
           else if sub = GroupLeave then groups_out (handle_group_leave msg conn reg (sv_groups sv) sender)
           else if sub = GroupMessage
           then offline_out (handle_group_message_relay E msg conn reg (sv_groups sv) sender (sv_offline sv))
           else if sub \<in> {GroupKeyExchange, GroupP2pOffer, GroupP2pAnswer, GroupP2pIce}
           then only_out (handle_group_signaling_relay sub msg conn reg (sv_groups sv) sender)
           else only_out [])
      | _ \<Rightarrow> only_out [])"

text \<open>Dispatch before registration, and the attempt to complete it.\<close>

definition try_registration ::
  "server_env \<Rightarrow> server_config \<Rightarrow> nat \<Rightarrow> nat \<Rightarrow> pre_registration \<times> delivery list \<Rightarrow> server \<Rightarrow>
     handle_result \<times> pre_registration \<times> server \<times> delivery list" where
  "try_registration E cfg conn sender r sv =
     (case r of (st, out) \<Rightarrow>
        if is_ready st then
          (case complete_registration E conn sender cfg st (sv_users sv) (sv_offline sv) of
             (st', reg', off', out') \<Rightarrow>
               (HrContinue, st', sv\<lparr>sv_users := reg', sv_offline := off'\<rparr>, out @ out'))
        else (HrContinue, st, sv, out))"

definition handle_unregistered ::
  "server_env \<Rightarrow> server_config \<Rightarrow> message \<Rightarrow> nat \<Rightarrow> nat \<Rightarrow> pre_registration \<Rightarrow> server \<Rightarrow>
     handle_result \<times> pre_registration \<times> server \<times> delivery list" where
  "handle_unregistered E cfg msg conn sender st sv =
     (case msg_command msg of
        Quit \<Rightarrow> (HrQuit, st, sv, [])
      | Nick \<Rightarrow> try_registration E cfg conn sender (handle_nick msg (sv_users sv) sender st) sv
      | User \<Rightarrow> try_registration E cfg conn sender (handle_user msg sender st) sv
      | Ping \<Rightarrow> (HrContinue, st, sv, handle_ping msg sender)
      | _ \<Rightarrow> (HrContinue, st, sv, []))"

definition handle_message ::
  "server_env \<Rightarrow> server_config \<Rightarrow> message \<Rightarrow> nat \<Rightarrow> nat \<Rightarrow> pre_registration \<Rightarrow> server \<Rightarrow>
     handle_result \<times> pre_registration \<times> server \<times> delivery list" where
  "handle_message E cfg msg conn sender st sv =
     (if pr_registered st then handle_registered E cfg msg conn sender st sv
      else handle_unregistered E cfg msg conn sender st sv)"

text \<open>
  The cleanup after the loop of \<^verbatim>\<open>handle_connection\<close>, when the connection was closed, failed or
  timed out.
\<close>

definition cleanup_connection ::
  "nat \<Rightarrow> pre_registration \<Rightarrow> server \<Rightarrow> server \<times> delivery list" where
  "cleanup_connection conn st sv =
     (if \<not> pr_registered st then (sv, [])
      else case (case get_by_connection (sv_users sv) conn of
                   None \<Rightarrow> (sv_groups sv, [])
                 | Some s \<Rightarrow> remove_user_from_all_groups (us_nickname s) (session_prefix s) (sv_users sv) (sv_groups sv)) of
        (gr', out) \<Rightarrow>
          (sv\<lparr>sv_groups := gr', sv_users := snd (remove_by_connection conn (sv_users sv))\<rparr>, out))"

section \<open>A server and its connections\<close>

record world =
  w_server :: server
  w_conns :: "(nat \<times> pre_registration) list"

datatype server_event = Accept nat string | Receive nat message | Disconnect nat

text \<open>
  The queue of a connection has the number of the connection; \<^verbatim>\<open>handle_connection\<close> returns
  after QUIT and after a shutdown request.
\<close>

definition server_event_step ::
  "server_env \<Rightarrow> server_config \<Rightarrow> server_event \<Rightarrow> world \<Rightarrow> world \<times> delivery list" where
  "server_event_step E cfg ev w =
     (case ev of
        Accept conn hostname \<Rightarrow> (w\<lparr>w_conns := hm_insert conn (pre_registration_new hostname) (w_conns w)\<rparr>, [])
      | Receive conn msg \<Rightarrow>
          (case hm_get (w_conns w) conn of
             None \<Rightarrow> (w, [])
           | Some st \<Rightarrow>
               (case handle_message E cfg msg conn conn st (w_server w) of
                  (res, st', sv', out) \<Rightarrow>
                    (\<lparr>w_server = sv',
                      w_conns = (if res = HrContinue then hm_insert conn st' (w_conns w)
                                 else hm_remove conn (w_conns w))\<rparr>, out)))
      | Disconnect conn \<Rightarrow>
          (case hm_get (w_conns w) conn of
             None \<Rightarrow> (w, [])
           | Some st \<Rightarrow>
               (case cleanup_connection conn st (w_server w) of
                  (sv', out) \<Rightarrow> (\<lparr>w_server = sv', w_conns = hm_remove conn (w_conns w)\<rparr>, out))))"

definition world_new :: "offline_store \<Rightarrow> world" where
  "world_new off =
     \<lparr>w_server = \<lparr>sv_users = user_registry_new, sv_channels = channels_new, sv_prekeys = prekey_store_new,
                  sv_offline = off, sv_groups = group_registry_new\<rparr>,
      w_conns = []\<rparr>"

text \<open>Numbers of connections come from a counter and are not used twice.\<close>

definition event_fresh :: "server_event \<Rightarrow> world \<Rightarrow> bool" where
  "event_fresh ev w =
     (case ev of Accept conn _ \<Rightarrow> hm_get (w_conns w) conn = None
                   \<and> hm_get (by_connection (sv_users (w_server w))) conn = None
      | _ \<Rightarrow> True)"

inductive server_reachable :: "server_config \<Rightarrow> offline_store \<Rightarrow> world \<Rightarrow> bool" for cfg off where
  server_init: "server_reachable cfg off (world_new off)"
| server_step: "server_reachable cfg off w \<Longrightarrow> event_fresh ev w \<Longrightarrow>
    server_reachable cfg off (fst (server_event_step E cfg ev w))"

end
