(* ===== verification/Server_Access.thy ===== *)
theory Server_Access
  imports Server
begin

text \<open>
  Who may change a channel. The relation \<open>chan_change s\<close> is the abstract access policy of the
  channel table: the changes a user with session \<open>s\<close> may make, each with its right (joining
  past the restrictions, leaving, removing others and changing settings as a channel operator,
  setting the topic, inviting, removing a user as a server operator). The dispatch of the server
  refines it: whatever message a connection sends, the channel table moves by changes that the
  policy allows to the session of that connection. The protection of channels and the invariant
  of the channel table follow from the policy alone.
\<close>

section \<open>The policy\<close>

definition operator_in :: "user_session \<Rightarrow> channel \<Rightarrow> bool" where
  "operator_in s ch \<longleftrightarrow> ci_get (ch_members ch) (us_nickname s) = Some MsOperator"

definition member_in :: "user_session \<Rightarrow> channel \<Rightarrow> bool" where
  "member_in s ch \<longleftrightarrow> ci_contains (ch_members ch) (us_nickname s)"

text \<open>What a channel operator may set: everything but the name, the topic, the invitations, the
  creation time and who is a member.\<close>

definition settings_of :: "channel \<Rightarrow> channel \<Rightarrow> bool" where
  "settings_of ch ch' \<longleftrightarrow>
     ch_name ch' = ch_name ch \<and> ch_topic ch' = ch_topic ch \<and> ch_invite_list ch' = ch_invite_list ch
     \<and> ch_created_at ch' = ch_created_at ch
     \<and> (\<forall>n. ci_contains (ch_members ch') n = ci_contains (ch_members ch) n)
     \<and> (ci_wf (ch_members ch) \<longrightarrow> ci_wf (ch_members ch'))"

inductive chan_change :: "user_session \<Rightarrow> string option set \<Rightarrow> channel_registry \<Rightarrow> channel_registry \<Rightarrow> bool"
  for s keys where
  cc_join: "channels_get_or_create name now chans = (ch, chans1) \<Longrightarrow> \<not> member_in s ch \<Longrightarrow>
    ch_members ch = [] \<or> key \<in> keys \<and> join_refusal ch s key = None \<Longrightarrow>
    chan_change s keys chans (ci_update name (\<lambda>_. join_member s ch) chans1)"
| cc_part: "chan_change s keys chans (part_member (us_nickname s) name chans)"
| cc_kick: "ci_get chans name = Some ch \<Longrightarrow> operator_in s ch \<Longrightarrow>
    chan_change s keys chans (part_member target name chans)"
| cc_kill: "is_oper s \<Longrightarrow> chan_change s keys chans (part_member target name chans)"
| cc_settings: "ci_get chans name = Some ch \<Longrightarrow> operator_in s ch \<Longrightarrow> settings_of ch ch' \<Longrightarrow>
    chan_change s keys chans (ci_update name (\<lambda>_. ch') chans)"
| cc_topic: "ci_get chans name = Some ch \<Longrightarrow> member_in s ch \<Longrightarrow>
    TopicProtected \<in> set (ch_modes ch) \<longrightarrow> operator_in s ch \<Longrightarrow>
    chan_change s keys chans (ci_update name (\<lambda>_. ch\<lparr>ch_topic := topic\<rparr>) chans)"
| cc_invite: "ci_get chans name = Some ch \<Longrightarrow> member_in s ch \<Longrightarrow>
    InviteOnly \<in> set (ch_modes ch) \<longrightarrow> operator_in s ch \<Longrightarrow>
    chan_change s keys chans (ci_update name (\<lambda>ch. ch\<lparr>ch_invite_list := ci_insert target () (ch_invite_list ch)\<rparr>) chans)"

abbreviation chan_changes :: "user_session \<Rightarrow> string option set \<Rightarrow> channel_registry \<Rightarrow> channel_registry \<Rightarrow> bool" where
  "chan_changes s keys \<equiv> (chan_change s keys)\<^sup>*\<^sup>*"

section \<open>Every handler refines the policy\<close>

lemma get_or_create_cases:
  "channels_get_or_create name now chans =
     (case ci_get chans name of Some ch \<Rightarrow> (ch, chans)
      | None \<Rightarrow> (channel_new name now, ci_insert name (channel_new name now) chans))"
  by (rule channels_get_or_create_def)

lemma join_one_changes:
  assumes K: "key \<in> K"
  shows "chan_changes s K chans (snd (fst (join_one s reg sender mx now key raw (count, chans))))"
proof (cases "trim raw = [] \<or> count \<ge> mx")
  case True
  then show ?thesis by (auto simp: join_one_def Let_def)
next
  case False
  note nt = this
  show ?thesis
  proof (cases "channel_name_new (trim raw)")
    case (Inl e)
    then show ?thesis using nt by (simp add: join_one_def Let_def)
  next
    case (Inr name)
    obtain ch chans1 where g: "channels_get_or_create name now chans = (ch, chans1)" by force
    have old: "chans1 = chans" if "ch_members ch \<noteq> []"
      using g that by (auto simp: get_or_create_cases channel_new_def split: option.splits)
    have "chan_changes s K chans (ci_update name (\<lambda>_. join_member s ch) chans1)"
      if "\<not> member_in s ch" "ch_members ch = [] \<or> join_refusal ch s key = None"
      using cc_join [OF g that(1), of key K] that(2) K by blast
    then show ?thesis
      using nt Inr g old by (auto simp: join_one_def Let_def member_in_def ci_contains_def split: option.splits)
  qed
qed

lemma join_loop_changes:
  assumes "None \<in> K" "Some ` set keys \<subseteq> K"
  shows "chan_changes s K (snd st) (snd (fst (join_loop s reg sender mx now keys i cs st)))"
proof (induction cs arbitrary: st i)
  case (Cons c cs)
  obtain st1 out1 where j: "join_one s reg sender mx now (if i < length keys then Some (keys ! i) else None) c st = (st1, out1)"
    by (meson surj_pair)
  have "(if i < length keys then Some (keys ! i) else None) \<in> K" using assms by auto
  from join_one_changes [OF this, of s "snd st" reg sender mx now c "fst st"]
  have "chan_changes s K (snd st) (snd st1)" using j by (metis fst_conv prod.collapse)
  with Cons.IH [of st1 "i + 1"] j show ?case by (auto simp: Let_def split: prod.splits intro: rtranclp_trans)
qed simp

text \<open>The keys a message offers, position by position; a missing key is \<open>None\<close>.\<close>

definition offered_keys :: "message \<Rightarrow> string option set" where
  "offered_keys msg = insert None (Some ` set (if length (msg_params msg) > 1
     then str_split (CHR '','') (msg_params msg ! 1) else []))"

lemma handle_join_changes:
  assumes "get_by_connection reg conn = Some s"
  shows "chan_changes s (offered_keys msg) chans (fst (handle_join msg conn reg chans sender mx now))"
proof -
  define keys where "keys = (if length (msg_params msg) > 1 then str_split (CHR '','') (msg_params msg ! 1) else [])"
  have "None \<in> offered_keys msg" "Some ` set keys \<subseteq> offered_keys msg"
    by (auto simp: offered_keys_def keys_def)
  from join_loop_changes [OF this, of s "(n, chans)" for n] show ?thesis
    using assms
    unfolding handle_join_def keys_def [symmetric] by (simp add: Let_def case_prod_beta)
qed

lemma part_one_changes: "chan_changes s K chans (fst (part_one s reg sender reason c chans))"
  by (auto simp: part_one_def Let_def channels_get_def ci_contains_def member_in_def
      intro!: r_into_rtranclp cc_part split: option.splits sum.splits)

lemma part_loop_changes: "chan_changes s K chans (fst (part_loop s reg sender reason cs chans))"
proof (induction cs arbitrary: chans)
  case (Cons c cs)
  obtain ch1 out1 where p: "part_one s reg sender reason c chans = (ch1, out1)" by force
  then show ?case
    using part_one_changes [of s K chans reg sender reason c] Cons.IH [of ch1]
    by (auto split: prod.splits intro: rtranclp_trans)
qed simp

lemma handle_part_changes:
  "get_by_connection reg conn = Some s \<Longrightarrow> chan_changes s K chans (fst (handle_part msg conn reg chans sender))"
  using part_loop_changes by (simp add: handle_part_def)

lemma handle_kick_changes:
  assumes "get_by_connection reg conn = Some s"
  shows "chan_changes s K chans (fst (handle_kick msg conn reg chans sender))"
  using assms
  by (auto simp: handle_kick_def Let_def channels_get_def operator_in_def
      intro!: r_into_rtranclp cc_kick split: option.split sum.split)

lemma settings_bans [simp]:
  "settings_of ch (remove_bans m ch)" "settings_of ch (add_ban m w t ch)"
  by (simp_all add: settings_of_def remove_bans_def add_ban_def)

lemma settings_of_refl [simp]: "settings_of ch ch" by (simp add: settings_of_def)

lemma settings_of_trans: "settings_of a b \<Longrightarrow> settings_of b c \<Longrightarrow> settings_of a c"
  by (simp add: settings_of_def)

lemma handle_ban_changes:
  assumes "get_by_connection reg conn = Some s"
  shows "chan_changes s K chans (fst (handle_ban msg conn reg chans sender now))"
  using assms
  by (auto simp: handle_ban_def Let_def channels_get_def operator_in_def
      intro!: r_into_rtranclp cc_settings split: option.split sum.split)

lemma handle_invite_changes:
  assumes "get_by_connection reg conn = Some s"
  shows "chan_changes s K chans (fst (handle_invite msg conn reg chans sender))"
  using assms
  by (auto simp: handle_invite_def Let_def channels_get_def operator_in_def member_in_def ci_contains_def
      intro!: r_into_rtranclp cc_invite split: option.split sum.split)

lemma handle_topic_changes:
  assumes "get_by_connection reg conn = Some s"
  shows "chan_changes s K chans (fst (handle_topic msg conn reg chans sender now))"
  using assms
  by (auto simp: handle_topic_def Let_def channels_get_def operator_in_def member_in_def
      intro!: r_into_rtranclp cc_topic split: option.split sum.split)

section \<open>MODE\<close>

lemma push_mode_channel [simp]:
  "mo_channel (push_mode c st) = mo_channel st" "mo_channel (push_mode_param c p st) = mo_channel st"
  by (simp_all add: push_mode_def push_mode_param_def Let_def)

lemma mode_parts_settings:
  "settings_of (mo_channel st) (mo_channel (mode_flag c m st))"
  "settings_of (mo_channel st) (mo_channel (mode_key ps st))"
  "settings_of (mo_channel st) (mo_channel (mode_limit ps st))"
  "settings_of (mo_channel st) (mo_channel (mode_ban nick now ps st))"
  by (auto simp: settings_of_def mode_flag_def mode_key_def mode_limit_def mode_ban_def add_ban_def remove_bans_def
      Let_def split: option.split)

lemma settings_of_status:
  "ci_contains (ch_members ch) n \<Longrightarrow> settings_of ch (ch\<lparr>ch_members := ci_insert n st (ch_members ch)\<rparr>)"
  by (auto simp: settings_of_def ci_contains_def) (metis ci_get_ci option.exhaust)

lemma mode_status_settings:
  "settings_of (mo_channel st) (mo_channel (fst (mode_status sender nick cs c ps st)))"
  using settings_of_status [of "mo_channel st"]
  by (auto simp: mode_status_def Let_def split: option.split sum.split)

lemma mode_step_settings:
  "settings_of (mo_channel st) (mo_channel (fst (mode_step sender nick cs now ps c st)))"
  using mode_parts_settings [of st] mode_status_settings [of st]
  by (simp add: mode_step_def split: option.split)

lemma mode_loop_settings:
  "settings_of (mo_channel st) (mo_channel (fst (mode_loop sender nick cs now ps ms st)))"
proof (induction ms arbitrary: st)
  case (Cons c ms)
  show ?case
    using settings_of_trans [OF mode_step_settings Cons.IH]
    by (simp add: case_prod_beta)
qed simp

lemma handle_channel_mode_changes:
  assumes "get_by_connection reg conn = Some s"
  shows "chan_changes s K chans (fst (handle_channel_mode msg conn reg chans sender now))"
  using assms
  by (auto simp: handle_channel_mode_def Let_def channels_get_def operator_in_def case_prod_beta
      intro!: r_into_rtranclp cc_settings settings_of_trans [OF _ mode_loop_settings]
      split: option.split sum.split)

section \<open>QUIT and KILL\<close>

lemma quit_loop_steps:
  assumes step: "\<And>name ch c. (name, ch) \<in> set rest \<Longrightarrow> ci_contains (ch_members ch) nick \<Longrightarrow> P c \<Longrightarrow>
      P (part_member nick name c)"
    and "P chans"
  shows "P (fst (quit_loop nick msg reg rest notified chans))"
  using assms
proof (induction rest arbitrary: notified chans)
  case (Cons e rest)
  obtain name ch where e: "e = (name, ch)" by force
  show ?case
  proof (cases "ci_contains (ch_members ch) nick")
    case False
    then show ?thesis using Cons.IH [of chans notified] Cons.prems e by auto
  next
    case True
    obtain n' o1 where n: "notify_members nick msg reg notified (ci_keys (ch_members ch)) = (n', o1)"
      by (meson surj_pair)
    have "P (part_member nick name chans)" using Cons.prems True e by auto
    then have "P (fst (quit_loop nick msg reg rest n' (part_member nick name chans)))"
      by (rule Cons.IH [rotated]) (use Cons.prems(1) in auto)
    then show ?thesis using True n e by (simp add: case_prod_beta)
  qed
qed simp

lemma quit_changes:
  "chan_changes s K chans (fst (broadcast_quit_and_remove (us_nickname s) msg chans reg))"
  unfolding broadcast_quit_and_remove_def
  by (rule quit_loop_steps [where P = "chan_changes s K chans"])
    (auto intro: rtranclp.rtrancl_into_rtrancl cc_part)

lemma kill_changes:
  "is_oper s \<Longrightarrow> chan_changes s K chans (fst (broadcast_quit_and_remove nick msg chans reg))"
  unfolding broadcast_quit_and_remove_def
  by (rule quit_loop_steps [where P = "chan_changes s K chans"])
    (auto intro: rtranclp.rtrancl_into_rtrancl cc_kill)

lemma handle_quit_changes:
  "get_by_connection reg conn = Some s \<Longrightarrow>
    chan_changes s K chans (fst (snd (snd (handle_quit msg conn reg chans gr sender st))))"
  using quit_changes by (simp add: handle_quit_def Let_def case_prod_beta)

lemma handle_kill_changes:
  "get_by_connection reg conn = Some s \<Longrightarrow>
    chan_changes s K chans (fst (snd (handle_kill msg conn reg chans sender)))"
  using kill_changes [of s] by (simp add: handle_kill_def Let_def case_prod_beta split: option.split sum.split)


section \<open>The dispatch\<close>

lemma get_by_connection_update:
  "get_by_connection (update_session c f r) c = map_option f (get_by_connection r c)"
  by (auto simp: get_by_connection_def update_session_def split: option.split)

definition touched :: "server_env \<Rightarrow> message \<Rightarrow> nat \<Rightarrow> server \<Rightarrow> server" where
  "touched E msg conn sv =
     (if msg_command msg = Ping \<or> msg_command msg = Pong then sv
      else sv\<lparr>sv_users := update_session conn (\<lambda>s. s\<lparr>us_last_active := env_instant E\<rparr>) (sv_users sv)\<rparr>)"

lemma touched_channels [simp]: "sv_channels (touched E msg conn sv) = sv_channels sv"
  by (simp add: touched_def)

lemma touched_session:
  "get_by_connection (sv_users sv) conn = Some s \<Longrightarrow>
    \<exists>t. get_by_connection (sv_users (touched E msg conn sv)) conn = Some (s\<lparr>us_last_active := t\<rparr>)"
  by (auto simp: touched_def get_by_connection_update intro: exI [of _ "us_last_active s"])

lemma chan_change_touched:
  assumes "chan_change (s\<lparr>us_last_active := t\<rparr>) K c c'"
  shows "chan_change s K c c'"
proof -
  have eqs: "member_in (s\<lparr>us_last_active := t\<rparr>) = member_in s" "operator_in (s\<lparr>us_last_active := t\<rparr>) = operator_in s"
    "\<And>ch key. join_refusal ch (s\<lparr>us_last_active := t\<rparr>) key = join_refusal ch s key"
    "\<And>ch. join_member (s\<lparr>us_last_active := t\<rparr>) ch = join_member s ch" "is_oper (s\<lparr>us_last_active := t\<rparr>) = is_oper s"
    by (simp_all add: fun_eq_iff member_in_def operator_in_def join_refusal_def join_member_def user_mask_def is_oper_def)
  from assms show ?thesis
    unfolding chan_change.simps [of "s\<lparr>us_last_active := t\<rparr>"] eqs
    by (elim disjE exE conjE) (auto intro: chan_change.intros)
qed

lemma chan_changes_touched: "chan_changes (s\<lparr>us_last_active := t\<rparr>) K c c' \<Longrightarrow> chan_changes s K c c'"
  by (induction rule: rtranclp_induct) (auto intro: rtranclp.rtrancl_into_rtrancl chan_change_touched)

lemmas handler_changes = handle_part_changes handle_kick_changes handle_ban_changes
  handle_invite_changes handle_topic_changes handle_channel_mode_changes handle_quit_changes handle_kill_changes

lemma handle_registered_changes:
  assumes s: "get_by_connection (sv_users (touched E msg conn sv)) conn = Some s"
  shows "chan_changes s (offered_keys msg) (sv_channels sv)
    (sv_channels (fst (snd (snd (handle_registered E cfg msg conn sender st sv)))))"
  using handler_changes [OF s, where K = "offered_keys msg"] handle_join_changes [OF s]
  unfolding handle_registered_def touched_def [symmetric]
  by (cases "msg_command msg") (simp_all add: Let_def case_prod_beta split: pirc_subcommand.split)


lemma handle_registered_no_session:
  assumes "get_by_connection (sv_users (touched E msg conn sv)) conn = None"
  shows "sv_channels (fst (snd (snd (handle_registered E cfg msg conn sender st sv)))) = sv_channels sv"
  using assms
  unfolding handle_registered_def touched_def [symmetric]
  by (cases "msg_command msg")
    (simp_all add: Let_def case_prod_beta handle_join_def handle_part_def handle_kick_def handle_ban_def
      handle_invite_def handle_topic_def handle_channel_mode_def handle_quit_def handle_kill_def)

lemma handle_unregistered_channels:
  "sv_channels (fst (snd (snd (handle_unregistered E cfg msg conn sender st sv)))) = sv_channels sv"
  by (cases "msg_command msg") (simp_all add: handle_unregistered_def try_registration_def case_prod_beta)

definition server_after :: "server_env \<Rightarrow> server_config \<Rightarrow> message \<Rightarrow> nat \<Rightarrow> pre_registration \<Rightarrow> server \<Rightarrow> server" where
  "server_after E cfg msg conn st sv = fst (snd (snd (handle_message E cfg msg conn conn st sv)))"

lemma channel_moves:
  assumes "get_by_connection (sv_users sv) conn = Some s"
  shows "chan_changes s (offered_keys msg) (sv_channels sv) (sv_channels (server_after E cfg msg conn st sv))"
proof -
  obtain t where "get_by_connection (sv_users (touched E msg conn sv)) conn = Some (s\<lparr>us_last_active := t\<rparr>)"
    using touched_session [OF assms] by blast
  from chan_changes_touched [OF handle_registered_changes [OF this]] show ?thesis
    by (simp add: server_after_def handle_message_def handle_unregistered_channels)
qed

lemma channel_moves_none:
  assumes "get_by_connection (sv_users sv) conn = None"
  shows "sv_channels (server_after E cfg msg conn st sv) = sv_channels sv"
proof -
  have "get_by_connection (sv_users (touched E msg conn sv)) conn = None"
    using assms by (simp add: touched_def get_by_connection_update)
  then show ?thesis
    by (simp add: server_after_def handle_message_def handle_registered_no_session handle_unregistered_channels)
qed

text \<open>
  C32. The dispatch refines the access policy: a message of a connection without a session leaves the
  channel table as it is, and a message of a connection with session \<open>s\<close> changes the channel
  table only by a sequence of changes that the policy allows to \<open>s\<close> with the keys of the message.
\<close>

theorem channel_changes_authorised:
  "case get_by_connection (sv_users sv) conn of
     None \<Rightarrow> sv_channels (server_after E cfg msg conn st sv) = sv_channels sv
   | Some s \<Rightarrow> chan_changes s (offered_keys msg) (sv_channels sv) (sv_channels (server_after E cfg msg conn st sv))"
  by (simp add: channel_moves channel_moves_none split: option.split)

section \<open>Consequences of the policy\<close>

definition chan_wf :: "string \<Rightarrow> channel \<Rightarrow> bool" where
  "chan_wf k ch \<longleftrightarrow> nickname_eq (ch_name ch) k \<and> ci_wf (ch_members ch) \<and> ci_wf (ch_invite_list ch)
     \<and> ch_members ch \<noteq> []"

definition channels_inv :: "channel_registry \<Rightarrow> bool" where
  "channels_inv chans \<longleftrightarrow> ci_wf chans \<and> (\<forall>k ch. ci_get chans k = Some ch \<longrightarrow> chan_wf k ch)"

lemma channels_invD:
  assumes "channels_inv chans"
  shows "ci_wf chans" "ci_get chans k = Some ch \<Longrightarrow> chan_wf k ch"
  using assms by (simp_all add: channels_inv_def)

lemma chan_wf_ci: "nickname_eq k k' \<Longrightarrow> chan_wf k ch = chan_wf k' ch"
  by (simp add: chan_wf_def nickname_eq_iff)

lemma channels_inv_update:
  assumes "channels_inv chans" "\<And>ch. ci_get chans k = Some ch \<Longrightarrow> chan_wf k (f ch)"
  shows "channels_inv (ci_update k f chans)"
  unfolding channels_inv_def
  using channels_invD [OF assms(1)] assms(2)
  by (auto simp: chan_wf_ci) (metis ci_get_ci chan_wf_ci)

lemma ci_insert_nonempty [simp]: "ci_insert k v m \<noteq> []"
  by (metis ci_get_Nil ci_get_insert nickname_eq_refl option.distinct(1))

lemma ci_get_nonempty: "ci_get m k = Some v \<Longrightarrow> m \<noteq> []" by auto

lemma part_member_get:
  "ci_get (part_member nick name chans) k =
     (if nickname_eq name k
      then (case ci_get chans k of None \<Rightarrow> None
            | Some ch \<Rightarrow> if ci_remove nick (ch_members ch) = [] then None
                        else Some (ch\<lparr>ch_members := ci_remove nick (ch_members ch)\<rparr>))
      else ci_get chans k)"
  using ci_get_ci [of name k chans]
  by (auto simp: part_member_def channels_remove_if_empty_def channel_is_empty_def split: option.split)

lemma part_member_wf: "ci_wf chans \<Longrightarrow> ci_wf (part_member nick name chans)"
  by (auto simp: part_member_def channels_remove_if_empty_def split: option.split)

lemma channels_inv_part: "channels_inv chans \<Longrightarrow> channels_inv (part_member nick name chans)"
  by (auto simp: channels_inv_def part_member_wf part_member_get chan_wf_def split: option.splits if_splits)

lemma join_member_wf: "nickname_eq (ch_name ch) k \<Longrightarrow> ci_wf (ch_members ch) \<Longrightarrow> ci_wf (ch_invite_list ch) \<Longrightarrow>
    chan_wf k (join_member s ch)"
  by (simp add: chan_wf_def join_member_def)

lemma settings_of_wf: "settings_of ch ch' \<Longrightarrow> chan_wf k ch \<Longrightarrow> chan_wf k ch'"
  by (auto simp: settings_of_def chan_wf_def ci_empty_iff ci_contains_def)

lemma channels_inv_change:
  assumes "chan_change s K chans chans'" "channels_inv chans"
  shows "channels_inv chans'"
  using assms
proof cases
  case (cc_join name now ch chans1 key)
  have "nickname_eq (ch_name ch) name" "ci_wf (ch_members ch)" "ci_wf (ch_invite_list ch)"
    using cc_join(2) channels_invD(2) [OF assms(2), of name]
    by (auto simp: get_or_create_cases channel_new_def chan_wf_def split: option.splits)
  then have j: "chan_wf name (join_member s ch)" by (rule join_member_wf)
  have "ci_wf chans1" "\<And>k c. ci_get chans1 k = Some c \<Longrightarrow> \<not> nickname_eq name k \<Longrightarrow> chan_wf k c"
    using cc_join(2) channels_invD [OF assms(2)]
    by (auto simp: get_or_create_cases split: option.splits)
  then show ?thesis unfolding cc_join(1) channels_inv_def
    using j by (auto simp: chan_wf_ci split: if_splits)
qed (use channels_invD [OF assms(2)] in \<open>auto simp: channels_inv_part intro!: channels_inv_update
      intro: settings_of_wf simp: chan_wf_def\<close>)

lemma channels_inv_changes: "chan_changes s K chans chans' \<Longrightarrow> channels_inv chans \<Longrightarrow> channels_inv chans'"
  by (induction rule: rtranclp_induct) (auto intro: channels_inv_change)


text \<open>What a user without rights in a channel cannot change there.\<close>

definition untouched_by :: "user_session \<Rightarrow> channel \<Rightarrow> channel \<Rightarrow> bool" where
  "untouched_by s ch ch' \<longleftrightarrow>
     ch_modes ch' = ch_modes ch \<and> ch_key ch' = ch_key ch \<and> ch_user_limit ch' = ch_user_limit ch
     \<and> ch_ban_list ch' = ch_ban_list ch
     \<and> (TopicProtected \<in> set (ch_modes ch) \<longrightarrow> ch_topic ch' = ch_topic ch)
     \<and> (\<forall>n. \<not> nickname_eq n (us_nickname s) \<longrightarrow> ci_get (ch_members ch') n = ci_get (ch_members ch) n)
     \<and> \<not> operator_in s ch'"

lemma untouched_refl: "\<not> operator_in s ch \<Longrightarrow> untouched_by s ch ch"
  by (simp add: untouched_by_def)

lemma untouched_trans: "untouched_by s a b \<Longrightarrow> untouched_by s b c \<Longrightarrow> untouched_by s a c"
  by (simp add: untouched_by_def)

lemma untouched_part:
  "\<not> operator_in s ch \<Longrightarrow> untouched_by s ch (ch\<lparr>ch_members := ci_remove (us_nickname s) (ch_members ch)\<rparr>)"
  by (auto simp: untouched_by_def operator_in_def nickname_eq_sym)

lemma untouched_join: "ch_members ch \<noteq> [] \<Longrightarrow> untouched_by s ch (join_member s ch)"
  by (auto simp: untouched_by_def operator_in_def join_member_def nickname_eq_sym)

lemma change_untouched:
  assumes c: "chan_change s K chans chans'" and ch: "ci_get chans k = Some ch"
    and r: "\<not> operator_in s ch" "\<not> is_oper s" and n: "ci_contains (ch_members ch) n" "\<not> nickname_eq n (us_nickname s)"
  shows "\<exists>ch'. ci_get chans' k = Some ch' \<and> untouched_by s ch ch'"
proof -
  have ne: "ch_members ch \<noteq> []" using n(1) by (auto simp: ci_contains_def)
  have rem: "ci_remove (us_nickname s) (ch_members ch) \<noteq> []"
    using n ci_get_remove [of "us_nickname s" "ch_members ch" n]
    by (auto simp: ci_contains_def nickname_eq_sym simp del: ci_get_remove)
  have same: "ci_get chans name = Some ch" if "nickname_eq name k" for name
    using ci_get_ci [OF that, of chans] ch by simp
  note unt = untouched_refl [OF r(1)]
  from c show ?thesis
  proof cases
    case (cc_join name now ch1 chans1 key)
    then show ?thesis
      using ch same ne unt untouched_join [OF ne]
      by (cases "nickname_eq name k") (auto simp: get_or_create_cases split: option.splits)
  next
    case (cc_part name)
    then show ?thesis using ch rem untouched_part [OF r(1)] unt by (auto simp: part_member_get)
  next
    case (cc_kick name ch1 target)
    then show ?thesis using ch same r(1) unt by (auto simp: part_member_get)
  next
    case (cc_settings name ch1 ch')
    then show ?thesis using ch same r(1) unt by auto
  next
    case (cc_topic name ch1 topic)
    then show ?thesis using ch same r(1) unt by (auto simp: untouched_by_def operator_in_def)
  next
    case (cc_invite name ch1 target)
    then show ?thesis using ch r(1) unt by (auto simp: untouched_by_def operator_in_def)
  qed (use r(2) in simp)
qed

lemma changes_untouched:
  assumes "chan_changes s K chans chans'" and ch: "ci_get chans k = Some ch"
    and r: "\<not> operator_in s ch" "\<not> is_oper s" and n: "ci_contains (ch_members ch) n" "\<not> nickname_eq n (us_nickname s)"
  shows "\<exists>ch'. ci_get chans' k = Some ch' \<and> untouched_by s ch ch'"
  using assms(1)
proof (induction rule: rtranclp_induct)
  case base
  then show ?case using ch untouched_refl [OF r(1)] by blast
next
  case (step y z)
  then obtain c1 where c1: "ci_get y k = Some c1" "untouched_by s ch c1" by blast
  then have "\<not> operator_in s c1" "ci_contains (ch_members c1) n"
    using n by (auto simp: untouched_by_def ci_contains_def)
  from change_untouched [OF step(2) c1(1) this(1) r(2) this(2) n(2)] untouched_trans [OF c1(2)]
  show ?case by blast
qed

lemma change_shut_out:
  assumes c: "chan_change s K chans chans'" and ch: "ci_get chans k = Some ch" "ch_members ch \<noteq> []"
    and wf: "ci_wf (ch_members ch)"
    and r: "\<not> member_in s ch" "\<not> is_oper s" and no: "\<And>key. key \<in> K \<Longrightarrow> join_refusal ch s key \<noteq> None"
  shows "ci_get chans' k = Some ch"
proof -
  have same: "ci_get chans name = Some ch" if "nickname_eq name k" for name
    using ci_get_ci [OF that, of chans] ch by simp
  have rem: "ci_remove (us_nickname s) (ch_members ch) = ch_members ch"
    using r(1) by (simp add: member_in_def ci_contains_def ci_remove_def ci_get_None_iff delete_id)
  have nop: "\<not> operator_in s ch" using r(1) by (auto simp: operator_in_def member_in_def ci_contains_def)
  from c show ?thesis
  proof cases
    case (cc_join name now ch1 chans1 key)
    then show ?thesis using ch same no [of key]
      by (cases "nickname_eq name k") (auto simp: get_or_create_cases split: option.splits)
  next
    case (cc_part name)
    then show ?thesis using ch rem by (auto simp: part_member_get)
  next
    case (cc_kick name ch1 target)
    then show ?thesis using ch same nop by (auto simp: part_member_get)
  qed (use r ch same nop in auto)
qed


lemma changes_shut_out:
  assumes "chan_changes s K chans chans'" and ch: "ci_get chans k = Some ch" "chan_wf k ch"
    and r: "\<not> member_in s ch" "\<not> is_oper s" and no: "\<And>key. key \<in> K \<Longrightarrow> join_refusal ch s key \<noteq> None"
  shows "ci_get chans' k = Some ch"
  using assms(1)
proof (induction rule: rtranclp_induct)
  case (step y z)
  then show ?case using ch(2) r no change_shut_out [OF step(2)] by (simp add: chan_wf_def)
qed (use ch in simp)

text \<open>
  Channels are protected from users without rights: if the user of a connection is neither an operator of a
  channel nor a server operator, and somebody else is in the channel, then no message of that
  connection changes the modes, the key, the limit or the bans of the channel, the membership or
  the status of anybody else, or the topic of a channel with mode +t, and the user is still not an
  operator of the channel.
\<close>

theorem channel_protected:
  assumes "get_by_connection (sv_users sv) conn = Some s" "channels_get (sv_channels sv) k = Some ch"
    and "\<not> operator_in s ch" "\<not> is_oper s"
    and "ci_contains (ch_members ch) n" "\<not> nickname_eq n (us_nickname s)"
  shows "\<exists>ch'. channels_get (sv_channels (server_after E cfg msg conn st sv)) k = Some ch' \<and> untouched_by s ch ch'"
  using channel_moves [OF assms(1)] assms(2-6) unfolding channels_get_def by (rule changes_untouched)

text \<open>
  C34. The restrictions on joining hold: a user who is not in a channel and whom the ban list, the
  mode +i, the key (+k) or the limit (+l) refuses with each of the keys in the message cannot
  change anything in the channel, whatever the message, unless a server operator.
\<close>

theorem channel_entry_guarded:
  assumes "channels_inv (sv_channels sv)" "get_by_connection (sv_users sv) conn = Some s"
    and "channels_get (sv_channels sv) k = Some ch" "\<not> member_in s ch" "\<not> is_oper s"
    and "\<forall>key \<in> offered_keys msg. join_refusal ch s key \<noteq> None"
  shows "channels_get (sv_channels (server_after E cfg msg conn st sv)) k = Some ch"
  using changes_shut_out [OF channel_moves [OF assms(2)]] channels_invD(2) [OF assms(1)] assms
  unfolding channels_get_def by blast


section \<open>A sample server\<close>

text \<open>Alice (connection 1) is operator of the channel, Bob (2) a member, Carol (3) is banned.\<close>

definition sample_session :: "nat \<Rightarrow> string \<Rightarrow> user_session" where
  "sample_session c nick =
     \<lparr>us_connection_id = c, us_nickname = nick, us_username = ''u'', us_realname = ''r'', us_hostname = ''h'',
      us_modes = {}, us_away_message = None, us_connected_at = 0, us_signon_time = 0, us_last_active = 0,
      us_registered = True, us_sender = c\<rparr>"

definition sample_users :: user_registry where
  "sample_users = fold (\<lambda>s r. snd (register s r))
     [sample_session 1 ''alice'', sample_session 2 ''bob'', sample_session 3 ''carol''] user_registry_new"

definition sample_channel :: channel where
  "sample_channel = (channel_new ''#a'' 0)\<lparr>
     ch_members := ci_insert ''bob'' MsNormal (ci_insert ''alice'' MsOperator []),
     ch_ban_list := [\<lparr>ban_mask = ''carol!*@*'', ban_who_set = ''alice'', ban_timestamp = 0\<rparr>]\<rparr>"

definition sample_server :: server where
  "sample_server = \<lparr>sv_users = sample_users, sv_channels = ci_insert ''#a'' sample_channel [],
     sv_prekeys = prekey_store_new, sv_offline = offline_store_new 10 1000 60, sv_groups = group_registry_new\<rparr>"

definition sample_server_env :: server_env where
  "sample_server_env = \<lparr>env_unix = 0, env_instant = 0, env_read_file = (\<lambda>_. None), env_version = ''1'',
     env_encode = (\<lambda>x. x), env_decode = Some\<rparr>"

definition sample_server_config :: server_config where
  "sample_server_config = \<lparr>sc_max_channels_per_user = 10, sc_operators = [], sc_motd_text = None, sc_motd_path = None\<rparr>"

definition sample_st :: pre_registration where
  "sample_st = (pre_registration_new ''h'')\<lparr>pr_registered := True\<rparr>"

lemma sample_nicks:
  "\<not> nickname_eq ''alice'' ''bob''" "\<not> nickname_eq ''alice'' ''carol''" "\<not> nickname_eq ''bob'' ''carol''"
  "\<not> nickname_eq ''carol'' ''bob''" "\<not> nickname_eq ''carol'' ''alice''" "\<not> nickname_eq ''bob'' ''alice''"
  by code_simp+

lemma sample_sessions:
  "get_by_connection (sv_users sample_server) 2 = Some (sample_session 2 ''bob'')"
  "get_by_connection (sv_users sample_server) 3 = Some (sample_session 3 ''carol'')"
  "channels_get (sv_channels sample_server) ''#a'' = Some sample_channel"
  by (simp_all add: sample_server_def sample_users_def register_def Let_def ci_contains_def sample_session_def
      user_registry_new_def get_by_connection_def channels_get_def sample_nicks)

lemma sample_channels_inv: "channels_inv (sv_channels sample_server)"
  by (simp add: channels_inv_def chan_wf_def sample_server_def sample_channel_def channel_new_def nickname_eq_iff)

theorem channel_protected_witness:
  "\<exists>ch'. channels_get (sv_channels (server_after sample_server_env sample_server_config
       (message_new Kick [''#a'', ''alice'']) 2 sample_st sample_server)) ''#a'' = Some ch'
     \<and> untouched_by (sample_session 2 ''bob'') sample_channel ch'"
proof (rule channel_protected [OF sample_sessions(1,3)])
  show "\<not> operator_in (sample_session 2 ''bob'') sample_channel" by code_simp
  show "\<not> is_oper (sample_session 2 ''bob'')" by (simp add: is_oper_def sample_session_def)
  show "ci_contains (ch_members sample_channel) ''alice''" by code_simp
  show "\<not> nickname_eq ''alice'' (us_nickname (sample_session 2 ''bob''))" by code_simp
qed

lemma carol_refused: "join_refusal sample_channel (sample_session 3 ''carol'') key \<noteq> None"
proof -
  have "is_banned (ch_ban_list sample_channel) (user_mask (sample_session 3 ''carol''))" by code_simp
  then show ?thesis by (simp add: join_refusal_def)
qed

theorem channel_entry_guarded_witness:
  "channels_get (sv_channels (server_after sample_server_env sample_server_config
     (message_new Join [''#a'', ''key'']) 3 sample_st sample_server)) ''#a'' = Some sample_channel"
proof (rule channel_entry_guarded [OF sample_channels_inv sample_sessions(2,3)])
  show "\<not> member_in (sample_session 3 ''carol'') sample_channel" by code_simp
  show "\<not> is_oper (sample_session 3 ''carol'')" by (simp add: is_oper_def sample_session_def)
qed (simp add: carol_refused)

end
