(* ===== verification/Server_World.thy ===== *)
theory Server_World
  imports Server_Access "HOL-Library.Code_Target_Nat"
begin

text \<open>
  Invariants of a running server. \<open>server_inv\<close> collects the invariants of the five tables;
  every handler keeps them, hence every message and every lost connection does, and they hold
  in every world that \<open>server_reachable\<close> reaches. On top of them: who becomes a server operator,
  the exact deliveries of a channel message, and the complete removal of a user who quits.
\<close>

section \<open>The user registry under the handlers\<close>

definition users_inv :: "user_registry \<Rightarrow> bool" where
  "users_inv r \<longleftrightarrow> registry_inv r \<and> (\<forall>k s. ci_get (by_nick r) k = Some s \<longrightarrow> us_sender s = us_connection_id s)"

lemma users_invD:
  assumes "users_inv r"
  shows "registry_inv r" "ci_get (by_nick r) k = Some s \<Longrightarrow> us_sender s = us_connection_id s"
  using assms by (simp_all add: users_inv_def)

lemma users_inv_new: "users_inv user_registry_new"
  by (simp add: users_inv_def registry_inv_new) (simp add: user_registry_new_def)

text \<open>An update of a session that keeps its identity.\<close>

definition keeps_identity :: "(user_session \<Rightarrow> user_session) \<Rightarrow> bool" where
  "keeps_identity f \<longleftrightarrow> (\<forall>s. us_connection_id (f s) = us_connection_id s \<and> us_nickname (f s) = us_nickname s
     \<and> us_sender (f s) = us_sender s)"

lemma users_inv_update: "users_inv r \<Longrightarrow> keeps_identity f \<Longrightarrow> users_inv (update_session c f r)"
  using registry_inv_update [of r f c]
  by (auto simp: users_inv_def keeps_identity_def update_session_def split: option.splits if_splits)

lemma by_connection_update [simp]: "by_connection (update_session c f r) = by_connection r"
  by (simp add: update_session_def split: option.split)

lemma keeps_identity_simps [simp]:
  "keeps_identity (\<lambda>s. s\<lparr>us_last_active := t\<rparr>)" "keeps_identity (\<lambda>s. s\<lparr>us_away_message := a\<rparr>)"
  "keeps_identity (\<lambda>s. s\<lparr>us_modes := ms\<rparr>)" "keeps_identity (\<lambda>s. s\<lparr>us_modes := insert m (us_modes s)\<rparr>)"
  by (simp_all add: keeps_identity_def)

lemma users_inv_register:
  assumes "users_inv r" "hm_get (by_connection r) (us_connection_id s) = None" "us_sender s = us_connection_id s"
  shows "users_inv (snd (register s r))"
  using registry_inv_register [of r s] assms
  by (auto simp: users_inv_def register_def Let_def split: if_splits)

lemma users_inv_remove: "users_inv r \<Longrightarrow> users_inv (snd (remove_by_connection c r))"
  using registry_inv_remove [of r c]
  by (auto simp: users_inv_def remove_by_connection_def Let_def split: option.splits if_splits)

lemma users_inv_change_nick:
  assumes "users_inv r"
  shows "users_inv (snd (change_nick old new r))"
  using registry_inv_change_nick [of r old new] users_invD [OF assms]
  by (auto simp: users_inv_def change_nick_def split: option.split if_splits)

text \<open>The index by connection grows only by the registering connection.\<close>

lemma by_connection_remove:
  "hm_get (by_connection r) c' = None \<Longrightarrow> hm_get (by_connection (snd (remove_by_connection c r))) c' = None"
  by (auto simp: remove_by_connection_def Let_def split: option.split)

lemma by_connection_change_nick:
  assumes "registry_inv r" "hm_get (by_connection r) c = None"
  shows "hm_get (by_connection (snd (change_nick old new r))) c = None"
proof -
  have "us_connection_id s \<noteq> c" if "ci_get (by_nick r) old = Some s" for s
    using nicks.linkedD(3) [OF registry_invD(2) [OF assms(1)] that] assms(2) by auto
  then show ?thesis using assms(2) by (auto simp: change_nick_def split: option.split)
qed

lemma handle_nick_change_users:
  assumes "users_inv reg"
  shows "users_inv (fst (handle_nick_change E msg conn reg sender))"
    and "hm_get (by_connection reg) c = None \<Longrightarrow>
      hm_get (by_connection (fst (handle_nick_change E msg conn reg sender))) c = None"
proof -
  have "fst (handle_nick_change E msg conn reg sender) = reg
      \<or> (\<exists>old new f. keeps_identity f \<and> (fst (handle_nick_change E msg conn reg sender) = snd (change_nick old new reg)
           \<or> fst (handle_nick_change E msg conn reg sender) = update_session conn f (snd (change_nick old new reg))))"
    by (auto simp: handle_nick_change_def Let_def case_prod_beta split: sum.split option.split user_error.split)
      (metis keeps_identity_simps(1))+
  then show "users_inv (fst (handle_nick_change E msg conn reg sender))"
    "hm_get (by_connection reg) c = None \<Longrightarrow>
      hm_get (by_connection (fst (handle_nick_change E msg conn reg sender))) c = None"
    using assms by (auto simp: users_inv_change_nick users_inv_update by_connection_change_nick users_invD(1))
qed

lemma user_handlers_users:
  assumes "users_inv reg"
  shows "users_inv (fst (handle_away msg conn reg sender))"
    "users_inv (fst (handle_user_mode msg conn reg sender))"
    "users_inv (fst (handle_oper msg conn reg sender cfg))"
    "by_connection (fst (handle_away msg conn reg sender)) = by_connection reg"
    "by_connection (fst (handle_user_mode msg conn reg sender)) = by_connection reg"
    "by_connection (fst (handle_oper msg conn reg sender cfg)) = by_connection reg"
  using assms
  by (auto simp: handle_away_def handle_user_mode_def handle_oper_def Let_def case_prod_beta users_inv_update
      split: option.split)

lemma handle_kill_users:
  assumes "users_inv reg"
  shows "users_inv (fst (handle_kill msg conn reg chans sender))"
    "hm_get (by_connection reg) c = None \<Longrightarrow>
      hm_get (by_connection (fst (handle_kill msg conn reg chans sender))) c = None"
  using assms
  by (auto simp: handle_kill_def Let_def case_prod_beta users_inv_remove by_connection_remove
      split: option.split sum.split)

lemma handle_quit_users:
  assumes "users_inv reg"
  shows "users_inv (fst (snd (handle_quit msg conn reg chans gr sender st)))"
    "hm_get (by_connection reg) c = None \<Longrightarrow>
      hm_get (by_connection (fst (snd (handle_quit msg conn reg chans gr sender st)))) c = None"
  using assms
  by (auto simp: handle_quit_def Let_def case_prod_beta users_inv_remove by_connection_remove)


section \<open>Groups and the offline store under the handlers\<close>

lemma leave_groups_inv: "groups_inv gr \<Longrightarrow> groups_inv (fst (leave_groups nick pfx reg is gr))"
proof (induction "is" arbitrary: gr)
  case (Cons i "is")
  have "fst (handle_member_leave i nick pfx reg gr) = snd (group_remove_member i nick gr)"
    by (simp add: handle_member_leave_def split: prod.split option.split)
  then show ?case
    using Cons.IH [OF groups_inv_remove [OF Cons.prems, of i nick]] by (simp add: case_prod_beta)
qed simp

lemma group_handlers_inv:
  assumes "groups_inv gr"
  shows "groups_inv (fst (handle_group_create E msg conn reg gr sender))"
    "groups_inv (fst (handle_group_join E msg conn reg gr sender))"
    "groups_inv (fst (handle_group_leave msg conn reg gr sender))"
    "groups_inv (fst (remove_user_from_all_groups nick pfx reg gr))"
    "groups_inv (fst (snd (snd (snd (handle_quit msg conn reg chans gr sender st)))))"
proof -
  note inv = groups_inv_create [OF assms] groups_inv_add [OF assms] groups_inv_remove [OF assms] leave_groups_inv [OF assms]
  show "groups_inv (fst (handle_group_create E msg conn reg gr sender))"
    using assms inv by (simp add: handle_group_create_def case_prod_beta split: option.split)
  show "groups_inv (fst (handle_group_join E msg conn reg gr sender))"
    using assms inv(2) by (auto simp: handle_group_join_def Let_def case_prod_beta split: option.split bool.split)
  show "groups_inv (fst (handle_group_leave msg conn reg gr sender))"
    using assms inv(3)
    by (auto simp: handle_group_leave_def handle_member_leave_def Let_def case_prod_beta split: option.split)
  show "groups_inv (fst (remove_user_from_all_groups nick pfx reg gr))"
    using inv(4) by (simp add: remove_user_from_all_groups_def)
  show "groups_inv (fst (snd (snd (snd (handle_quit msg conn reg chans gr sender st)))))"
    using assms inv(4)
    by (simp add: handle_quit_def Let_def case_prod_beta remove_user_from_all_groups_def split: option.split)
qed

lemma send_or_queue_inv:
  "offline_inv off \<Longrightarrow> offline_inv (fst (send_or_queue E sender nick target what relay reg off))"
  by (simp add: send_or_queue_def offline_inv_queue split: option.split)

lemma offline_handlers_inv:
  assumes "offline_inv off"
  shows "offline_inv (fst (handle_relay E sub msg conn reg sender off))"
    "offline_inv (fst (handle_key_exchange E msg conn reg sender pk off))"
    "offline_inv (fst (handle_group_message_relay E msg conn reg gr sender off))"
  using assms
  by (auto simp: handle_relay_def handle_key_exchange_def handle_group_message_relay_def Let_def send_or_queue_inv
      split: option.split sum.split)

section \<open>The server\<close>

definition server_inv :: "server \<Rightarrow> bool" where
  "server_inv sv \<longleftrightarrow> users_inv (sv_users sv) \<and> channels_inv (sv_channels sv) \<and> offline_inv (sv_offline sv)
     \<and> groups_inv (sv_groups sv)"

lemma server_invD:
  assumes "server_inv sv"
  shows "users_inv (sv_users sv)" "channels_inv (sv_channels sv)" "offline_inv (sv_offline sv)"
    "groups_inv (sv_groups sv)"
  using assms by (simp_all add: server_inv_def)

lemma touched_simps:
  "sv_offline (touched E msg conn sv) = sv_offline sv" "sv_groups (touched E msg conn sv) = sv_groups sv"
  "sv_prekeys (touched E msg conn sv) = sv_prekeys sv"
  "by_connection (sv_users (touched E msg conn sv)) = by_connection (sv_users sv)"
  by (simp_all add: touched_def)

lemma touched_users: "users_inv (sv_users sv) \<Longrightarrow> users_inv (sv_users (touched E msg conn sv))"
  by (simp add: touched_def users_inv_update)

lemma handle_registered_tables:
  assumes "server_inv sv"
  shows "users_inv (sv_users (fst (snd (snd (handle_registered E cfg msg conn sender st sv)))))" (is ?users)
    and "offline_inv (sv_offline (fst (snd (snd (handle_registered E cfg msg conn sender st sv)))))" (is ?offline)
    and "groups_inv (sv_groups (fst (snd (snd (handle_registered E cfg msg conn sender st sv)))))" (is ?groups)
    and "hm_get (by_connection (sv_users sv)) c = None \<Longrightarrow>
      hm_get (by_connection (sv_users (fst (snd (snd (handle_registered E cfg msg conn sender st sv)))))) c = None"
proof -
  note inv = server_invD [OF assms]
  note u = touched_users [OF inv(1), of E msg conn]
  note uh = u handle_nick_change_users [OF u] user_handlers_users [OF u] handle_kill_users [OF u] handle_quit_users [OF u]
  show ?users
    unfolding handle_registered_def touched_def [symmetric]
    by (cases "msg_command msg") (simp_all add: Let_def case_prod_beta uh split: pirc_subcommand.split)
  show ?offline
    unfolding handle_registered_def touched_def [symmetric]
    by (cases "msg_command msg")
      (simp_all add: Let_def case_prod_beta inv offline_handlers_inv touched_simps split: pirc_subcommand.split)
  show ?groups
    unfolding handle_registered_def touched_def [symmetric]
    by (cases "msg_command msg")
      (simp_all add: Let_def case_prod_beta inv group_handlers_inv touched_simps split: pirc_subcommand.split)
  assume "hm_get (by_connection (sv_users sv)) c = None"
  then show "hm_get (by_connection (sv_users (fst (snd (snd (handle_registered E cfg msg conn sender st sv)))))) c = None"
    unfolding handle_registered_def touched_def [symmetric]
    by (cases "msg_command msg") (simp_all add: Let_def case_prod_beta uh touched_simps split: pirc_subcommand.split)
qed

lemma handle_registered_state:
  assumes "handle_registered E cfg msg conn sender st sv = (HrContinue, st', sv', out)" "pr_registered st"
  shows "pr_registered st'"
  using assms unfolding handle_registered_def
  by (cases "msg_command msg") (auto simp: Let_def case_prod_beta handle_user_def split: if_splits)


lemma handle_registered_inv:
  assumes "server_inv sv"
  shows "server_inv (fst (snd (snd (handle_registered E cfg msg conn sender st sv))))"
proof -
  let ?sv = "fst (snd (snd (handle_registered E cfg msg conn sender st sv)))"
  have "channels_inv (sv_channels ?sv)"
  proof (cases "get_by_connection (sv_users (touched E msg conn sv)) conn")
    case None
    then show ?thesis using server_invD(2) [OF assms] by (simp add: handle_registered_no_session)
  next
    case (Some s)
    from channels_inv_changes [OF handle_registered_changes [OF this] server_invD(2) [OF assms]] show ?thesis .
  qed
  then show ?thesis using handle_registered_tables [OF assms] by (simp add: server_inv_def)
qed

lemma complete_registration_inv:
  assumes "users_inv reg" "offline_inv off" "hm_get (by_connection reg) conn = None"
    and r: "complete_registration E conn conn cfg st reg off = (st', reg', off', out)"
  shows "users_inv reg'" "offline_inv off'"
    "c \<noteq> conn \<Longrightarrow> hm_get (by_connection reg') c = hm_get (by_connection reg) c"
    "\<not> pr_registered st' \<Longrightarrow> reg' = reg"
proof -
  let ?s = "new_session E conn conn st"
  have id: "us_connection_id ?s = conn" "us_sender ?s = conn" by (simp_all add: new_session_def)
  have reg: "reg' = snd (register ?s reg)" "off' = off \<or> off' = snd (take_messages (us_nickname ?s) (env_instant E) off)"
    using r by (auto simp: complete_registration_def Let_def deliver_offline_messages_def case_prod_beta
        split: sum.splits prod.splits)
  show "users_inv reg'" using users_inv_register [OF assms(1), of ?s] assms(3) by (simp add: reg id)
  show "offline_inv off'" using reg(2) assms(2) offline_inv_take by auto
  show "c \<noteq> conn \<Longrightarrow> hm_get (by_connection reg') c = hm_get (by_connection reg) c"
    by (simp add: reg register_def Let_def id)
  show "\<not> pr_registered st' \<Longrightarrow> reg' = reg"
    using r by (auto simp: complete_registration_def Let_def register_def case_prod_beta split: if_splits)
qed

lemma handle_unregistered_inv:
  assumes inv: "server_inv sv" and new: "hm_get (by_connection (sv_users sv)) conn = None"
    and r: "handle_unregistered E cfg msg conn conn st sv = (res, st', sv', out)" and st: "\<not> pr_registered st"
  shows "server_inv sv'" "c \<noteq> conn \<Longrightarrow> hm_get (by_connection (sv_users sv')) c = hm_get (by_connection (sv_users sv)) c"
    "\<not> pr_registered st' \<Longrightarrow> sv_users sv' = sv_users sv"
proof -
  note I = server_invD [OF inv]
  have "(sv' = sv \<and> pr_registered st' = pr_registered st)
      \<or> (\<exists>st1 reg' off' out'. complete_registration E conn conn cfg st1 (sv_users sv) (sv_offline sv) = (st', reg', off', out')
          \<and> sv' = sv\<lparr>sv_users := reg', sv_offline := off'\<rparr>)"
    using r st unfolding handle_unregistered_def
    by (cases "msg_command msg")
      (auto simp: try_registration_def handle_nick_def handle_user_def Let_def split: prod.splits if_splits sum.splits)
  then consider "sv' = sv" "pr_registered st' = pr_registered st"
    | st1 reg' off' out' where
        "complete_registration E conn conn cfg st1 (sv_users sv) (sv_offline sv) = (st', reg', off', out')"
        "sv' = sv\<lparr>sv_users := reg', sv_offline := off'\<rparr>" by blast
  then have "server_inv sv' \<and> (c \<noteq> conn \<longrightarrow> hm_get (by_connection (sv_users sv')) c = hm_get (by_connection (sv_users sv)) c)
      \<and> (\<not> pr_registered st' \<longrightarrow> sv_users sv' = sv_users sv)"
  proof cases
    case 2
    from complete_registration_inv [OF I(1,3) new 2(1)] show ?thesis using I 2(2) by (simp add: server_inv_def)
  qed (use inv in simp)
  then show "server_inv sv'" "c \<noteq> conn \<Longrightarrow> hm_get (by_connection (sv_users sv')) c = hm_get (by_connection (sv_users sv)) c"
    "\<not> pr_registered st' \<Longrightarrow> sv_users sv' = sv_users sv" by blast+
qed

lemma cleanup_connection_inv:
  assumes "server_inv sv"
  shows "server_inv (fst (cleanup_connection conn st sv))"
    "hm_get (by_connection (sv_users sv)) c = None \<Longrightarrow>
      hm_get (by_connection (sv_users (fst (cleanup_connection conn st sv)))) c = None"
  using server_invD [OF assms] assms
  by (auto simp: cleanup_connection_def case_prod_beta server_inv_def users_inv_remove group_handlers_inv
      by_connection_remove split: option.split)

section \<open>Every reachable world\<close>

definition world_inv :: "world \<Rightarrow> bool" where
  "world_inv w \<longleftrightarrow> server_inv (w_server w)
     \<and> (\<forall>c st. hm_get (w_conns w) c = Some st \<longrightarrow> \<not> pr_registered st \<longrightarrow>
          hm_get (by_connection (sv_users (w_server w))) c = None)"

lemma world_inv_receive:
  assumes inv: "world_inv w"
  shows "world_inv (fst (server_event_step E cfg (Receive conn msg) w))"
proof (cases "hm_get (w_conns w) conn")
  case None
  then show ?thesis using inv by (simp add: server_event_step_def)
next
  case (Some st)
  obtain res st' sv' out where h: "handle_message E cfg msg conn conn st (w_server w) = (res, st', sv', out)"
    by (meson prod_cases4)
  have sv: "server_inv (w_server w)"
    and un: "\<And>c s. hm_get (w_conns w) c = Some s \<Longrightarrow> \<not> pr_registered s \<Longrightarrow>
        hm_get (by_connection (sv_users (w_server w))) c = None"
    using inv unfolding world_inv_def by blast+
  have "server_inv sv'
      \<and> (\<forall>c. c \<noteq> conn \<longrightarrow> hm_get (by_connection (sv_users (w_server w))) c = None \<longrightarrow> hm_get (by_connection (sv_users sv')) c = None)
      \<and> (res = HrContinue \<longrightarrow> \<not> pr_registered st' \<longrightarrow> hm_get (by_connection (sv_users sv')) conn = None)"
  proof (cases "pr_registered st")
    case True
    then have r: "handle_registered E cfg msg conn conn st (w_server w) = (res, st', sv', out)"
      using h by (simp add: handle_message_def)
    show ?thesis
      using handle_registered_inv [OF sv, of E cfg msg conn conn st] handle_registered_tables(4) [OF sv, of _ E cfg msg conn conn st]
        handle_registered_state [of E cfg msg conn conn st "w_server w" st' sv' out] True r by auto
  next
    case False
    then have r: "handle_unregistered E cfg msg conn conn st (w_server w) = (res, st', sv', out)"
      using h by (simp add: handle_message_def)
    note u = handle_unregistered_inv [OF sv un [OF Some False] r False]
    show ?thesis using u(1,3) u(2) un [OF Some False] by auto
  qed
  then show ?thesis using Some h un by (auto simp: server_event_step_def world_inv_def split: if_splits)
qed

lemma world_inv_step:
  assumes inv: "world_inv w" and f: "event_fresh ev w"
  shows "world_inv (fst (server_event_step E cfg ev w))"
proof (cases ev)
  case (Accept conn hostname)
  then show ?thesis using inv f
    by (auto simp: server_event_step_def event_fresh_def world_inv_def split: if_splits)
next
  case (Receive conn msg)
  then show ?thesis using world_inv_receive [OF inv] by simp
next
  case (Disconnect conn)
  then show ?thesis using inv cleanup_connection_inv [of "w_server w"]
    by (auto simp: server_event_step_def world_inv_def case_prod_beta split: option.split if_splits)
qed

lemma world_inv_reachable:
  assumes "server_reachable cfg off w" "offline_inv off"
  shows "world_inv w"
  using assms
proof (induction rule: server_reachable.induct)
  case server_init
  then show ?case
    by (simp add: world_inv_def world_new_def server_inv_def users_inv_new groups_inv_new channels_new_def channels_inv_def)
qed (rule world_inv_step)


lemma session_nicks_distinct:
  assumes "ci_wf m" "\<And>k s. ci_get m k = Some s \<Longrightarrow> nickname_eq (us_nickname s) k"
  shows "distinct (map (\<lambda>s. to_ascii_lowercase (us_nickname s)) (ci_values m))"
proof -
  have "map (\<lambda>s. to_ascii_lowercase (us_nickname s)) (ci_values m) = map fst m"
    unfolding ci_values_def map_map
  proof (rule map_cong [OF refl], clarify)
    fix key k s assume e: "(key, k, s) \<in> set m"
    then show "((\<lambda>s. to_ascii_lowercase (us_nickname s)) \<circ> (\<lambda>(_, _, v). v)) (key, k, s) = fst (key, k, s)"
      using assms(2) [OF in_set_ci_get [OF assms(1) e]] ci_wf_key [OF assms(1) e] by (simp add: nickname_eq_iff)
  qed
  then show ?thesis using ci_wfD [OF assms(1)] by simp
qed

text \<open>
  C33. The tables of a server are consistent after every sequence of accepted connections, received messages and
  lost connections: looking up by connection and by nickname agree, no two users have nicknames
  that differ only in case, the connection counter counts the users, no channel is empty and each
  is stored under its name, the offline store holds no more than its quota, and every group has an
  admin.
\<close>

theorem server_tables_consistent:
  assumes "server_reachable cfg off w" "offline_inv off"
  shows "let sv = w_server w; users = sv_users sv in
    (\<forall>c s. get_by_connection users c = Some s \<longleftrightarrow>
       us_connection_id s = c \<and> get_by_nick users (us_nickname s) = Some s)
    \<and> distinct (map (\<lambda>s. to_ascii_lowercase (us_nickname s)) (iter_sessions users))
    \<and> connection_count users = length (iter_sessions users) mod USIZE
    \<and> (\<forall>k ch. channels_get (sv_channels sv) k = Some ch \<longrightarrow>
         \<not> channel_is_empty ch \<and> eq_ignore_ascii_case (ch_name ch) k)
    \<and> os_total_bytes (sv_offline sv) \<le> os_max_total_bytes (sv_offline sv)
    \<and> (\<forall>i. group_exists (sv_groups sv) i \<longrightarrow> (\<exists>n. group_is_admin (sv_groups sv) i n))"
proof -
  have "server_inv (w_server w)" using world_inv_reachable [OF assms] by (simp add: world_inv_def)
  note I = server_invD [OF this]
  note R = users_invD(1) [OF I(1)]
  have "\<exists>n. group_is_admin (sv_groups (w_server w)) i n" if ex: "group_exists (sv_groups (w_server w)) i" for i
  proof -
    obtain g where g: "hm_get (gr_groups (sv_groups (w_server w))) i = Some g" using ex by (auto simp: group_exists_def)
    obtain n m where "hm_get (sg_members g) n = Some m" "sgm_is_admin m"
      using groups_invD [OF I(4) g] unfolding sg_wf_def by blast
    then show ?thesis using g by (auto simp: group_is_admin_def intro!: exI [of _ n])
  qed
  then show ?thesis
    using get_by_connection_iff [OF R] registry_invD [OF R] channels_invD(2) [OF I(2)] offline_invD(4) [OF I(3)]
      session_nicks_distinct [OF registry_invD(1) [OF R] nicks.linkedD(2) [OF registry_invD(2) [OF R]]]
    by (simp add: Let_def iter_sessions_def channels_get_def chan_wf_def channel_is_empty_def nickname_eq_def ci_values_def)
qed

fun run_events :: "server_env \<Rightarrow> server_config \<Rightarrow> server_event list \<Rightarrow> world \<Rightarrow> world" where
  "run_events E cfg [] w = w"
| "run_events E cfg (e # es) w = run_events E cfg es (fst (server_event_step E cfg e w))"

fun events_fresh :: "server_env \<Rightarrow> server_config \<Rightarrow> server_event list \<Rightarrow> world \<Rightarrow> bool" where
  "events_fresh E cfg [] w = True"
| "events_fresh E cfg (e # es) w \<longleftrightarrow> event_fresh e w \<and> events_fresh E cfg es (fst (server_event_step E cfg e w))"

lemma run_events_reachable:
  "server_reachable cfg off w \<Longrightarrow> events_fresh E cfg es w \<Longrightarrow> server_reachable cfg off (run_events E cfg es w)"
  by (induction es arbitrary: w) (auto intro: server_step)

definition sample_offline :: offline_store where "sample_offline = offline_store_new 10 1000 60"

lemma sample_offline_inv: "offline_inv sample_offline"
  by (simp add: sample_offline_def offline_inv_def offline_store_new_def queue_bytes_def)

text \<open>Connecting and registering.\<close>

definition login :: "nat \<Rightarrow> string \<Rightarrow> server_event list" where
  "login c nick = [Accept c ''h'', Receive c (message_new Nick [nick]),
     Receive c (message_new User [''u'', ''0'', ''*'', ''r''])]"

definition two_users :: world where
  "two_users = run_events sample_server_env sample_server_config
     (login 1 ''alice'' @ login 2 ''bob'' @ [Receive 1 (message_new Join [''#a'']), Receive 2 (message_new Join [''#a''])])
     (world_new sample_offline)"

lemma two_users_reachable: "server_reachable sample_server_config sample_offline two_users"
  unfolding two_users_def by (rule run_events_reachable [OF server_init]) code_simp

lemma two_users_facts:
  "\<not> channel_is_empty (the (channels_get (sv_channels (w_server two_users)) ''#a''))"
  "length (iter_sessions (sv_users (w_server two_users))) = 2"
  by code_simp+


theorem server_tables_consistent_witness:
  "let users = sv_users (w_server two_users) in
     length (iter_sessions users) = 2
     \<and> distinct (map (\<lambda>s. to_ascii_lowercase (us_nickname s)) (iter_sessions users))
     \<and> connection_count users = length (iter_sessions users) mod USIZE"
  using server_tables_consistent [OF two_users_reachable sample_offline_inv] two_users_facts
  by (simp add: Let_def)

section \<open>Becoming a server operator\<close>

text \<open>The connections whose user is a server operator.\<close>

definition oper_conn :: "user_registry \<Rightarrow> nat \<Rightarrow> bool" where
  "oper_conn r c \<longleftrightarrow> (\<exists>k s. ci_get (by_nick r) k = Some s \<and> us_connection_id s = c \<and> is_oper s)"

lemma oper_conn_update:
  assumes "oper_conn (update_session conn f r) c" "\<And>s. us_connection_id (f s) = us_connection_id s"
    "\<And>s. get_by_connection r conn = Some s \<Longrightarrow> is_oper (f s) \<Longrightarrow> is_oper s"
  shows "oper_conn r c"
  using assms unfolding oper_conn_def get_by_connection_def update_session_def
  by (auto split: option.splits if_splits) (metis ci_get_ci)+

lemma oper_conn_register: "oper_conn (snd (register s r)) c \<Longrightarrow> \<not> is_oper s \<Longrightarrow> oper_conn r c"
  by (auto simp: oper_conn_def register_def Let_def split: if_splits)

lemma oper_conn_remove: "oper_conn (snd (remove_by_connection c' r)) c \<Longrightarrow> oper_conn r c"
  by (auto simp: oper_conn_def remove_by_connection_def Let_def split: option.splits if_splits)

lemma oper_conn_change_nick: "oper_conn (snd (change_nick old new r)) c \<Longrightarrow> oper_conn r c"
  unfolding oper_conn_def change_nick_def is_oper_def
  by (cases "nickname_eq old new"; cases "ci_contains (by_nick r) new"; cases "ci_get (by_nick r) old")
    (auto split: if_splits; blast)+

lemma user_mode_loop_oper: "Operator \<in> fst (user_mode_loop cs adding ms u) \<Longrightarrow> Operator \<in> ms"
proof (induction cs arbitrary: adding ms u)
  case (Cons c cs)
  have "\<exists>adding' ms' u'. user_mode_loop (c # cs) adding ms u = user_mode_loop cs adding' ms' u'
      \<and> (Operator \<in> ms' \<longrightarrow> Operator \<in> ms)"
    unfolding user_mode_loop.simps
    by (split if_split, intro conjI impI, blast)+ (force split: if_split)
  with Cons show ?case by metis
qed simp

lemma oper_conn_touched: "oper_conn (sv_users (touched E msg conn sv)) c \<Longrightarrow> oper_conn (sv_users sv) c"
  by (auto simp: touched_def is_oper_def split: if_splits intro: oper_conn_update)

lemma oper_conn_nick: "oper_conn (fst (handle_nick_change E msg conn reg sender)) c \<Longrightarrow> oper_conn reg c"
  by (auto simp: handle_nick_change_def Let_def case_prod_beta is_oper_def
      split: sum.splits option.splits user_error.splits if_splits
      dest!: oper_conn_update oper_conn_change_nick)

lemma oper_conn_away: "oper_conn (fst (handle_away msg conn reg sender)) c \<Longrightarrow> oper_conn reg c"
  by (auto simp: handle_away_def is_oper_def split: option.splits if_splits dest!: oper_conn_update)

lemma oper_conn_mode: "oper_conn (fst (handle_user_mode msg conn reg sender)) c \<Longrightarrow> oper_conn reg c"
  by (auto simp: handle_user_mode_def Let_def case_prod_beta is_oper_def split: option.splits if_splits
      dest!: oper_conn_update intro: user_mode_loop_oper)

lemma oper_conn_kill: "oper_conn (fst (handle_kill msg conn reg chans sender)) c \<Longrightarrow> oper_conn reg c"
  by (auto simp: handle_kill_def Let_def case_prod_beta split: option.splits sum.splits if_splits dest: oper_conn_remove)

lemma oper_conn_quit: "oper_conn (fst (snd (handle_quit msg conn reg chans gr sender st))) c \<Longrightarrow> oper_conn reg c"
  by (auto simp: handle_quit_def Let_def case_prod_beta split: if_splits dest: oper_conn_remove)


text \<open>The operator block that an OPER command satisfies.\<close>

definition oper_granted :: "server_config \<Rightarrow> message \<Rightarrow> user_session \<Rightarrow> bool" where
  "oper_granted cfg msg s \<longleftrightarrow>
     (\<exists>oc \<in> set (sc_operators cfg). length (msg_params msg) \<ge> 2
        \<and> oc_name oc = msg_params msg ! 0 \<and> oc_password oc = msg_params msg ! 1
        \<and> (\<forall>m. oc_host_mask oc = Some m \<longrightarrow> host_matches_mask (us_hostname s) m))"

lemma oper_conn_oper:
  assumes "registry_inv reg" "oper_conn (fst (handle_oper msg conn reg sender cfg)) c" "\<not> oper_conn reg c"
  shows "c = conn \<and> (\<exists>s. get_by_connection reg conn = Some s \<and> oper_granted cfg msg s)"
proof (cases "get_by_connection reg conn")
  case None
  then show ?thesis using assms(2,3) by (simp add: handle_oper_def)
next
  case (Some s)
  note l = registry_invD(2) [OF assms(1)]
  have conn: "c = conn" if o: "oper_conn (update_session conn (\<lambda>s. s\<lparr>us_modes := insert Operator (us_modes s)\<rparr>) reg) c"
  proof (rule ccontr)
    assume "c \<noteq> conn"
    obtain k t where t: "ci_get (by_nick (update_session conn (\<lambda>s. s\<lparr>us_modes := insert Operator (us_modes s)\<rparr>) reg)) k = Some t"
      "us_connection_id t = c" "is_oper t" using o unfolding oper_conn_def by blast
    obtain n where n: "hm_get (by_connection reg) conn = Some n" "ci_get (by_nick reg) n = Some s"
      using Some by (auto simp: get_by_connection_def split: option.splits)
    have "us_connection_id s = conn" using nicks.linkedD(1) [OF l n(1)] n(2) by auto
    then have "\<not> nickname_eq n k" using t \<open>c \<noteq> conn\<close> n ci_get_ci [of n k "by_nick reg"]
      by (auto simp: update_session_def)
    then show False using t n assms(3) by (auto simp: update_session_def oper_conn_def)
  qed
  have "oper_granted cfg msg s \<and> c = conn"
    using assms(2,3) Some conn
    by (auto simp: handle_oper_def Let_def oper_granted_def find_Some_iff split: option.splits if_splits)
  then show ?thesis using Some by blast
qed

lemma oper_granted_touched: "oper_granted cfg msg (s\<lparr>us_last_active := t\<rparr>) = oper_granted cfg msg s"
  by (simp add: oper_granted_def)

lemma handle_registered_oper:
  assumes inv: "server_inv sv"
    and o: "oper_conn (sv_users (fst (snd (snd (handle_registered E cfg msg conn sender st sv))))) c"
    and n: "\<not> oper_conn (sv_users sv) c"
  shows "c = conn \<and> msg_command msg = Oper
    \<and> (\<exists>s. get_by_connection (sv_users sv) conn = Some s \<and> oper_granted cfg msg s)"
proof -
  let ?u = "sv_users (touched E msg conn sv)"
  have n': "\<not> oper_conn ?u c" using n oper_conn_touched by blast
  have "msg_command msg = Oper \<and> oper_conn (fst (handle_oper msg conn ?u sender cfg)) c"
    using o n' unfolding handle_registered_def touched_def [symmetric]
    by (cases "msg_command msg")
      (auto simp: Let_def case_prod_beta split: pirc_subcommand.splits if_splits
        dest: oper_conn_nick oper_conn_away oper_conn_mode oper_conn_kill oper_conn_quit)
  moreover have "registry_inv ?u" using touched_users [OF server_invD(1) [OF inv]] by (rule users_invD(1))
  ultimately obtain s' where s': "c = conn" "get_by_connection ?u conn = Some s'" "oper_granted cfg msg s'"
      "msg_command msg = Oper"
    using oper_conn_oper [of ?u msg conn sender cfg c] n' by blast
  have "\<exists>s. get_by_connection (sv_users sv) conn = Some s \<and> oper_granted cfg msg s"
    using s'(2,3) oper_granted_touched
    by (cases "get_by_connection (sv_users sv) conn")
      (auto simp: touched_def get_by_connection_update split: if_splits)
  then show ?thesis using s' by blast
qed

lemma handle_unregistered_oper:
  "oper_conn (sv_users (fst (snd (snd (handle_unregistered E cfg msg conn sender st sv))))) c \<Longrightarrow> oper_conn (sv_users sv) c"
  by (cases "msg_command msg")
    (auto simp: handle_unregistered_def try_registration_def case_prod_beta complete_registration_def Let_def
      deliver_offline_messages_def new_session_def is_oper_def split: if_splits sum.splits
      dest!: oper_conn_register)

text \<open>
  C37. Server operators are made by OPER only: if after a message a connection has operator rights that it
  did not have before, then the message was OPER, sent by that connection, and it names a
  configured operator with the right password, whose host mask accepts the host of the user.
\<close>

theorem operator_needs_password:
  assumes "server_inv sv" "oper_conn (sv_users (server_after E cfg msg conn st sv)) c" "\<not> oper_conn (sv_users sv) c"
  shows "c = conn \<and> msg_command msg = Oper
    \<and> (\<exists>s. get_by_connection (sv_users sv) conn = Some s \<and> oper_granted cfg msg s)"
  using handle_registered_oper [OF assms(1) _ assms(3)] handle_unregistered_oper assms(2,3)
  by (auto simp: server_after_def handle_message_def split: if_splits)


lemma oper_conn_iff:
  assumes "ci_wf (by_nick r)"
  shows "oper_conn r c \<longleftrightarrow> list_ex (\<lambda>s. us_connection_id s = c \<and> is_oper s) (iter_sessions r)"
  unfolding oper_conn_def iter_sessions_def ci_values_def list_ex_iff
  using ci_get_in_set [of "by_nick r"] in_set_ci_get [OF assms] by force

definition sample_oper_config :: server_config where
  "sample_oper_config = sample_server_config\<lparr>sc_operators :=
     [\<lparr>oc_name = ''root'', oc_password = ''secret'', oc_host_mask = Some ''h*''\<rparr>]\<rparr>"

lemma two_users_inv: "server_inv (w_server two_users)"
  using world_inv_reachable [OF two_users_reachable sample_offline_inv] by (simp add: world_inv_def)

theorem operator_needs_password_witness:
  "oper_conn (sv_users (server_after sample_server_env sample_oper_config (message_new Oper [''root'', ''secret''])
      1 sample_st (w_server two_users))) 1
   \<and> (\<exists>s. get_by_connection (sv_users (w_server two_users)) 1 = Some s
        \<and> oper_granted sample_oper_config (message_new Oper [''root'', ''secret'']) s)"
proof -
  let ?m = "message_new Oper [''root'', ''secret'']"
  let ?sv = "server_after sample_server_env sample_oper_config ?m 1 sample_st (w_server two_users)"
  have wf: "ci_wf (by_nick (sv_users (w_server two_users)))" "ci_wf (by_nick (sv_users ?sv))"
    using two_users_inv handle_registered_inv [OF two_users_inv]
    by (auto simp: server_after_def handle_message_def sample_st_def server_inv_def users_inv_def registry_inv_def)
  have b: "oper_conn (sv_users ?sv) 1" unfolding oper_conn_iff [OF wf(2)] by code_simp
  have "\<not> oper_conn (sv_users (w_server two_users)) 1" unfolding oper_conn_iff [OF wf(1)] by code_simp
  from operator_needs_password [OF two_users_inv b this] b show ?thesis by blast
qed

end
