(* ===== verification/Server_Delivery.thy ===== *)
theory Server_Delivery
  imports Server_World
begin

text \<open>
  What users receive: the deliveries of a channel message, the removal and the notifications
  when a user quits, messages for users who are offline; and two ways in which a channel keeps a
  nickname that no longer belongs to the user who joined.
\<close>

section \<open>Channel messages\<close>

abbreviation received :: "nat \<Rightarrow> delivery list \<Rightarrow> message list" where
  "received c out \<equiv> map snd (filter (\<lambda>d. fst d = c) out)"

lemma concat_map_single:
  assumes "distinct xs" "\<And>x. x \<in> set xs \<Longrightarrow> g x \<noteq> [] \<Longrightarrow> x = a"
  shows "concat (map g xs) = (if a \<in> set xs then g a else [])"
  using assms
proof (induction xs)
  case (Cons x xs)
  have IH: "concat (map g xs) = (if a \<in> set xs then g a else [])" using Cons by simp
  have "g x = []" if "x \<noteq> a" using Cons.prems(2) [of x] that by auto
  then show ?case using Cons.prems(1) by (cases "x = a") (simp_all add: IH)
qed simp

lemma ci_keys_distinct: "ci_wf m \<Longrightarrow> distinct (ci_keys m)"
proof -
  assume wf: "ci_wf m"
  have "map to_ascii_lowercase (ci_keys m) = map fst m"
    unfolding ci_keys_def map_map by (rule map_cong) (auto dest: ci_wf_key [OF wf])
  then show ?thesis using ci_wfD [OF wf] by (metis distinct_map)
qed

lemma ci_keys_inj: "ci_wf m \<Longrightarrow> x \<in> set (ci_keys m) \<Longrightarrow> y \<in> set (ci_keys m) \<Longrightarrow> nickname_eq x y \<Longrightarrow> x = y"
  using ci_wf_key [of m] ci_wfD [of m] unfolding nickname_eq_iff ci_keys_def
  by (auto simp: image_iff) (metis eq_key_imp_eq_value prod.inject)

lemma ci_contains_keys: "ci_wf m \<Longrightarrow> ci_contains m n \<longleftrightarrow> (\<exists>k \<in> set (ci_keys m). nickname_eq k n)"
proof
  assume "ci_wf m" "ci_contains m n"
  then obtain v where v: "ci_get m n = Some v" by (auto simp: ci_contains_def)
  then obtain k where k: "(to_ascii_lowercase n, k, v) \<in> set m" using ci_get_in_set [OF v] by blast
  then show "\<exists>k \<in> set (ci_keys m). nickname_eq k n"
    using ci_wf_key [OF \<open>ci_wf m\<close> k] by (auto simp: ci_keys_def nickname_eq_iff intro!: bexI [of _ "(to_ascii_lowercase n, k, v)"])
next
  assume wf: "ci_wf m" and "\<exists>k \<in> set (ci_keys m). nickname_eq k n"
  then obtain key k v where "(key, k, v) \<in> set m" "nickname_eq k n" by (auto simp: ci_keys_def)
  then have "ci_get m n = Some v" using in_set_ci_get [OF wf] ci_get_ci [of k n m] by metis
  then show "ci_contains m n" by (simp add: ci_contains_def)
qed

text \<open>Sending to one member: the connection that holds the nickname receives the message.\<close>

lemma send_to_nick_received:
  assumes "users_inv reg" "get_by_connection reg c = Some t"
  shows "received c (send_to_nick reg k m) = (if nickname_eq k (us_nickname t) then [m] else [])"
proof -
  note R = users_invD(1) [OF assms(1)]
  have t: "us_connection_id t = c" "ci_get (by_nick reg) (us_nickname t) = Some t"
    using assms(2) by (simp_all add: get_by_connection_iff [OF R] get_by_nick_def)
  have "nickname_eq k (us_nickname t)" if "ci_get (by_nick reg) k = Some t'" "us_sender t' = c" for t'
    using nicks.linked_same [OF registry_invD(2) [OF R] that(1) t(2)] users_invD(2) [OF assms(1) that(1)] that(2) t(1)
    by simp
  moreover have "ci_get (by_nick reg) k = Some t" if "nickname_eq k (us_nickname t)"
    using ci_get_ci [OF that] t(2) by metis
  moreover have "us_sender t = c" using users_invD(2) [OF assms(1) t(2)] t(1) by simp
  ultimately show ?thesis by (auto simp: send_to_nick_def get_by_nick_def split: option.split)
qed

lemma send_to_nick_no_session:
  assumes "users_inv reg" "get_by_connection reg c = None"
  shows "received c (send_to_nick reg k m) = []"
proof -
  note R = users_invD(1) [OF assms(1)]
  have False if s: "ci_get (by_nick reg) k = Some t" "us_sender t = c" for t
  proof -
    have "us_connection_id t = c" using users_invD(2) [OF assms(1) s(1)] s(2) by simp
    moreover have "get_by_nick reg (us_nickname t) = Some t"
      using ci_get_ci [OF nicks.linkedD(2) [OF registry_invD(2) [OF R] s(1)]] s(1) by (metis get_by_nick_def)
    ultimately have "get_by_connection reg c = Some t" by (simp add: get_by_connection_iff [OF R])
    with assms(2) show False by simp
  qed
  then show ?thesis by (auto simp: send_to_nick_def get_by_nick_def split: option.split)
qed

lemma received_concat: "received c (concat (map g xs)) = concat (map (\<lambda>x. received c (g x)) xs)"
  by (induction xs) auto

lemma received_append: "received c (a @ b) = received c a @ received c b" by simp

lemma broadcast_received:
  assumes inv: "users_inv reg" and wf: "ci_wf (ch_members ch)"
  shows "received c (broadcast_to_channel ch m exclude reg) =
    (case get_by_connection reg c of
       Some t \<Rightarrow> if member_in t ch \<and> \<not> (\<exists>e. exclude = Some e \<and> nickname_eq e (us_nickname t)) then [m] else []
     | None \<Rightarrow> [])"
proof (cases "get_by_connection reg c")
  case None
  then show ?thesis unfolding broadcast_to_channel_def received_concat
    by (auto simp: concat_eq_Nil_conv dest: send_to_nick_no_session [OF inv])
next
  case (Some t)
  let ?x = "\<lambda>k. case exclude of None \<Rightarrow> False | Some e \<Rightarrow> nickname_eq e k"
  let ?g = "\<lambda>k. received c (if ?x k then [] else send_to_nick reg k m)"
  have g: "?g k = (if ?x k \<or> \<not> nickname_eq k (us_nickname t) then [] else [m])" for k
    using send_to_nick_received [OF inv Some, of k m] by auto
  have r: "received c (broadcast_to_channel ch m exclude reg) = concat (map ?g (ci_keys (ch_members ch)))"
    unfolding broadcast_to_channel_def received_concat ..
  show ?thesis
  proof (cases "member_in t ch")
    case False
    then have "?g k = []" if "k \<in> set (ci_keys (ch_members ch))" for k
      using that g ci_contains_keys [OF wf, of "us_nickname t"] by (auto simp: member_in_def)
    then show ?thesis using Some False unfolding r by (auto simp: concat_eq_Nil_conv)
  next
    case True
    then obtain a where a: "a \<in> set (ci_keys (ch_members ch))" "nickname_eq a (us_nickname t)"
      using ci_contains_keys [OF wf, of "us_nickname t"] by (auto simp: member_in_def)
    have "x = a" if "x \<in> set (ci_keys (ch_members ch))" "?g x \<noteq> []" for x
      using that g [of x] ci_keys_inj [OF wf that(1) a(1)] a(2) nickname_eq_trans nickname_eq_sym by (metis (full_types))
    then have "concat (map ?g (ci_keys (ch_members ch))) = (if a \<in> set (ci_keys (ch_members ch)) then ?g a else [])"
      by (rule concat_map_single [OF ci_keys_distinct [OF wf]])
    then have "received c (broadcast_to_channel ch m exclude reg) = ?g a" unfolding r if_P [OF a(1)] .
    then show ?thesis using Some True g [of a] a(2) by (auto simp: nickname_eq_iff split: option.split)
  qed
qed


definition deliveries :: "server_env \<Rightarrow> server_config \<Rightarrow> message \<Rightarrow> nat \<Rightarrow> pre_registration \<Rightarrow> server \<Rightarrow> delivery list" where
  "deliveries E cfg msg conn st sv = snd (snd (snd (handle_message E cfg msg conn conn st sv)))"

lemma session_prefix_touched [simp]: "session_prefix (s\<lparr>us_last_active := t\<rparr>) = session_prefix s"
  by (simp add: session_prefix_def)

lemma touched_other_sessions:
  assumes "users_inv (sv_users sv)"
  shows "(case get_by_connection (sv_users (touched E msg conn sv)) c of Some t \<Rightarrow> P (us_nickname t) | None \<Rightarrow> Q)
    = (case get_by_connection (sv_users sv) c of Some t \<Rightarrow> P (us_nickname t) | None \<Rightarrow> Q)"
proof -
  have "\<exists>t'. ci_get (by_nick (sv_users (touched E msg conn sv))) n = Some t' \<and> us_nickname t' = us_nickname t"
    if "ci_get (by_nick (sv_users sv)) n = Some t" for n t
    using that by (auto simp: touched_def update_session_def split: option.split)
  moreover have "ci_get (by_nick (sv_users (touched E msg conn sv))) n = None"
    if "ci_get (by_nick (sv_users sv)) n = None" for n
    using that by (auto simp: touched_def update_session_def split: option.split)
  ultimately show ?thesis
    by (auto simp: get_by_connection_def touched_simps split: option.splits) (metis option.inject option.distinct(1))+
qed

text \<open>
  C35. A channel message reaches exactly the right users. If the sender may speak in the channel (+n, +m), every other
  connected member of the channel receives the message once and nobody else receives anything,
  the sender included; otherwise the only message sent is the refusal to the sender.
\<close>

theorem channel_message_delivery:
  assumes inv: "server_inv sv" and st: "pr_registered st" and s: "get_by_connection (sv_users sv) conn = Some s"
    and m: "msg_command msg \<in> {Privmsg, Notice}" "msg_params msg = [target, text]"
    and t: "channel_name_new target = Ok name" "channels_get (sv_channels sv) name = Some ch"
    and h: "starts_with target ''#'' \<or> starts_with target ''&''"
  shows "received c (deliveries E cfg msg conn st sv) =
    (if may_speak ch (us_nickname s) then
       (case get_by_connection (sv_users sv) c of
          Some t \<Rightarrow> if ci_contains (ch_members ch) (us_nickname t) \<and> c \<noteq> conn
                     then [message_with_prefix (session_prefix s) (msg_command msg) [target, text]] else []
        | None \<Rightarrow> [])
     else if c = conn
     then [message_with_prefix (Server SERVER_NAME) (Numeric ERR_CANNOTSENDTOCHAN)
             [us_nickname s, target, ''Cannot send to channel'']]
     else [])"
proof -
  note I = server_invD [OF inv]
  let ?u = "sv_users (touched E msg conn sv)"
  note U = touched_users [OF I(1), of E msg conn]
  obtain l where l: "get_by_connection ?u conn = Some (s\<lparr>us_last_active := l\<rparr>)" using touched_session [OF s] by blast
  have wf: "ci_wf (ch_members ch)" using channels_invD(2) [OF I(2), of name ch] t(2) by (simp add: channels_get_def chan_wf_def)
  let ?m = "message_with_prefix (session_prefix s) (msg_command msg) [target, text]"
  have out: "deliveries E cfg msg conn st sv = handle_channel_message target text (s\<lparr>us_last_active := l\<rparr>) ?u
      (sv_channels sv) conn (msg_command msg)"
    using st m l h unfolding deliveries_def handle_message_def handle_registered_def touched_def [symmetric]
    by (auto simp: Let_def handle_privmsg_def handle_notice_def handle_message_command_def)
  have me: "nickname_eq (us_nickname s) (us_nickname v) \<longleftrightarrow> c = conn" if "get_by_connection (sv_users sv) c = Some v" for v
    using that s nicks.linked_same [OF registry_invD(2) [OF users_invD(1) [OF I(1)]], of "us_nickname v" v "us_nickname s" s]
      ci_get_ci [of "us_nickname s" "us_nickname v" "by_nick (sv_users sv)"]
    by (auto simp: get_by_connection_iff [OF users_invD(1) [OF I(1)]] get_by_nick_def nickname_eq_sym)
  have "received c (broadcast_to_channel ch ?m (Some (us_nickname s)) ?u) =
      (case get_by_connection (sv_users sv) c of
         Some v \<Rightarrow> if ci_contains (ch_members ch) (us_nickname v) \<and> \<not> nickname_eq (us_nickname s) (us_nickname v) then [?m] else []
       | None \<Rightarrow> [])"
    using broadcast_received [OF U wf, of c ?m "Some (us_nickname s)"]
      touched_other_sessions [OF I(1), where E = E and msg = msg and conn = conn and c = c and Q = "[]"
        and P = "\<lambda>n. if ci_contains (ch_members ch) n \<and> \<not> nickname_eq (us_nickname s) n then [?m] else []"]
    unfolding member_in_def option.inject simp_thms by simp
  then show ?thesis
    using me t unfolding out handle_channel_message_def
    by (auto simp: Let_def send_numeric_def split: option.split)
qed


section \<open>Quitting\<close>

text \<open>A channel after a user left.\<close>

definition without :: "string \<Rightarrow> channel option \<Rightarrow> channel option" where
  "without nick co =
     (case co of None \<Rightarrow> None
      | Some ch \<Rightarrow> if ci_remove nick (ch_members ch) = [] then None
                  else Some (ch\<lparr>ch_members := ci_remove nick (ch_members ch)\<rparr>))"

lemma part_member_without:
  "ci_get (part_member nick name chans) k = (if nickname_eq name k then without nick (ci_get chans k) else ci_get chans k)"
  by (simp add: part_member_get without_def split: option.split)

lemma ci_remove_idem [simp]: "ci_remove n (ci_remove n m) = ci_remove n m"
  by (simp add: ci_remove_def AList.delete_idem)

lemma without_idem [simp]: "without n (without n co) = without n co"
  by (auto simp: without_def split: option.split)

lemma quit_loop_get:
  "ci_get (fst (quit_loop nick msg reg rest notified chans)) k =
     (if \<exists>(name, ch) \<in> set rest. ci_contains (ch_members ch) nick \<and> nickname_eq name k
      then without nick (ci_get chans k) else ci_get chans k)"
proof (induction rest arbitrary: notified chans)
  case (Cons e rest)
  obtain name ch where e: "e = (name, ch)" by force
  show ?case
    using Cons.IH by (cases "ci_contains (ch_members ch) nick") (auto simp: e case_prod_beta part_member_without)
qed simp

lemma ci_remove_absent: "ci_get m n = None \<Longrightarrow> ci_remove n m = m"
  by (simp add: ci_get_None_iff ci_remove_def delete_id)

lemma channels_list_all_get:
  "ci_wf chans \<Longrightarrow> (name, ch) \<in> set (channels_list_all chans) \<Longrightarrow> ci_get chans name = Some ch"
  by (auto simp: channels_list_all_def dest: in_set_ci_get)

lemma channels_list_all_in:
  assumes "ci_wf chans" "ci_get chans k = Some ch"
  shows "\<exists>name. (name, ch) \<in> set (channels_list_all chans) \<and> nickname_eq name k"
proof -
  obtain name where n: "(to_ascii_lowercase k, name, ch) \<in> set chans" using ci_get_in_set [OF assms(2)] by blast
  then show ?thesis
    using ci_wf_key [OF assms(1) n]
    by (auto simp: channels_list_all_def nickname_eq_iff image_iff intro!: exI [of _ name] bexI [OF _ n])
qed

lemma quit_channels:
  assumes inv: "channels_inv chans"
  shows "ci_get (fst (broadcast_quit_and_remove nick msg chans reg)) k = without nick (ci_get chans k)"
proof (cases "ci_get chans k")
  case None
  then show ?thesis by (simp add: broadcast_quit_and_remove_def quit_loop_get without_def)
next
  case (Some ch)
  note I = channels_invD [OF inv]
  have wf: "chan_wf k ch" using I(2) Some by blast
  obtain name where n: "(name, ch) \<in> set (channels_list_all chans)" "nickname_eq name k"
    using channels_list_all_in [OF I(1) Some] by blast
  show ?thesis
  proof (cases "ci_contains (ch_members ch) nick")
    case True
    then show ?thesis using n by (auto simp: broadcast_quit_and_remove_def quit_loop_get)
  next
    case False
    have "ch' = ch" if "(name', ch') \<in> set (channels_list_all chans)" "nickname_eq name' k" for name' ch'
      using channels_list_all_get [OF I(1) that(1)] ci_get_ci [OF that(2), of chans] Some by simp
    then have "ci_get (fst (broadcast_quit_and_remove nick msg chans reg)) k = Some ch"
      using False Some by (auto simp: broadcast_quit_and_remove_def quit_loop_get)
    then show ?thesis
      using False wf Some by (simp add: without_def ci_contains_def ci_remove_absent chan_wf_def)
  qed
qed

subsection \<open>Notifications\<close>

lemma notify_members_effect:
  assumes inv: "users_inv reg" and t: "get_by_connection reg c = Some t"
  shows "ci_contains (fst (notify_members nick m reg notified ms)) n \<longleftrightarrow>
      ci_contains notified n \<or> (\<exists>x \<in> set ms. nickname_eq x n \<and> \<not> nickname_eq nick n)"
    and "received c (snd (notify_members nick m reg notified ms)) =
      (if \<not> ci_contains notified (us_nickname t) \<and> \<not> nickname_eq nick (us_nickname t)
          \<and> (\<exists>x \<in> set ms. nickname_eq x (us_nickname t)) then [m] else [])"
proof (induction ms arbitrary: notified)
  case (Cons x ms)
  {
    case 1
    show ?case
      using Cons(1) [of notified] Cons(1) [of "ci_insert x () notified"] ci_get_ci [of x n notified]
      by (auto simp: case_prod_beta ci_contains_def nickname_eq_iff)
  next
    case 2
    show ?case
      using Cons(2) [of notified] Cons(2) [of "ci_insert x () notified"] send_to_nick_received [OF inv t, of x m]
        ci_get_ci [of x "us_nickname t" notified]
      by (auto simp: case_prod_beta ci_contains_def nickname_eq_iff)
  }
qed simp_all


lemma quit_loop_received:
  assumes inv: "users_inv reg" and t: "get_by_connection reg c = Some t"
    and wf: "\<And>name ch. (name, ch) \<in> set rest \<Longrightarrow> ci_wf (ch_members ch)"
  shows "received c (snd (quit_loop nick m reg rest notified chans)) =
    (if \<not> ci_contains notified (us_nickname t) \<and> \<not> nickname_eq nick (us_nickname t)
        \<and> (\<exists>(name, ch) \<in> set rest. ci_contains (ch_members ch) nick \<and> member_in t ch) then [m] else [])"
  using wf
proof (induction rest arbitrary: notified chans)
  case (Cons e rest)
  obtain name ch where e: "e = (name, ch)" by force
  note IH = Cons.IH [OF Cons.prems [OF list.set_intros(2)]]
  have keys: "(\<exists>x \<in> set (ci_keys (ch_members ch)). nickname_eq x (us_nickname t)) \<longleftrightarrow> member_in t ch"
    using ci_contains_keys [of "ch_members ch" "us_nickname t"] Cons.prems [of name ch] e by (simp add: member_in_def)
  note N = notify_members_effect [OF inv t, of nick m notified "ci_keys (ch_members ch)", unfolded keys]
  show ?case
  proof (cases "ci_contains (ch_members ch) nick")
    case False
    then show ?thesis using IH by (simp add: e)
  next
    case True
    then show ?thesis
      using IH [where notified = "fst (notify_members nick m reg notified (ci_keys (ch_members ch)))"] N keys
      by (auto simp: e case_prod_beta)
  qed
qed simp

lemma quit_loop_no_session:
  assumes "users_inv reg" "get_by_connection reg c = None"
  shows "received c (snd (quit_loop nick m reg rest notified chans)) = []"
proof -
  have n: "received c (snd (notify_members nick m reg nf ms)) = []" for nf ms
    by (induction ms arbitrary: nf) (auto simp: case_prod_beta send_to_nick_no_session [OF assms, simplified])
  show ?thesis
    by (induction rest arbitrary: notified chans) (auto simp: case_prod_beta n [simplified])
qed

text \<open>What the farewell to the groups sends is never a QUIT.\<close>

lemma leave_groups_no_quit:
  "d \<in> set (snd (leave_groups nick pfx reg is gr)) \<Longrightarrow> msg_command (snd d) = Pirc GroupLeave"
proof (induction "is" arbitrary: gr)
  case (Cons i "is")
  have "msg_command (snd d) = Pirc GroupLeave" if "d \<in> set (snd (handle_member_leave i nick pfx reg gr))"
    using that by (auto simp: handle_member_leave_def broadcast_to_group_members_def send_to_nick_def message_with_prefix_def
        split: prod.splits option.splits if_splits sum.splits)
  then show ?case using Cons by (auto simp: case_prod_beta)
qed simp

lemma promote_successor_members:
  "hm_get (sg_members (snd (promote_successor nick g))) n = None \<longleftrightarrow> hm_get (sg_members g) n = None"
  by (auto simp: promote_successor_def split: option.split)

lemma remove_member_membership:
  "group_is_member (snd (group_remove_member i nick gr)) j nick \<longleftrightarrow> j \<noteq> i \<and> group_is_member gr j nick"
proof (cases "hm_get (gr_groups gr) i")
  case (Some g)
  let ?g1 = "g\<lparr>sg_members := hm_remove nick (sg_members g)\<rparr>"
  have "hm_get (sg_members (snd (promote_successor nick ?g1))) nick = None"
    unfolding promote_successor_members by simp
  then show ?thesis using Some
    by (auto simp: group_remove_member_def Let_def case_prod_beta group_is_member_def sg_contains_def)
qed (auto simp: group_remove_member_def group_is_member_def)

lemma leave_groups_membership:
  "group_is_member (fst (leave_groups nick pfx reg is gr)) j nick \<longleftrightarrow> j \<notin> set is \<and> group_is_member gr j nick"
proof (induction "is" arbitrary: gr)
  case (Cons i "is")
  have "fst (handle_member_leave i nick pfx reg gr) = snd (group_remove_member i nick gr)"
    by (simp add: handle_member_leave_def split: prod.split option.split)
  then show ?case using Cons.IH by (auto simp: case_prod_beta remove_member_membership)
qed simp

lemma remove_user_from_all_groups_complete:
  "\<not> group_is_member (fst (remove_user_from_all_groups nick pfx reg gr)) j nick"
proof -
  have "j \<in> set (groups_for_member gr nick)" if "group_is_member gr j nick"
    using that by (force simp: groups_for_member_def group_is_member_def split: option.splits dest: map_of_SomeD)
  then show ?thesis by (auto simp: remove_user_from_all_groups_def leave_groups_membership)
qed

lemma remove_by_connection_gone:
  assumes "registry_inv reg" "get_by_connection reg conn = Some s"
  shows "get_by_connection (snd (remove_by_connection conn reg)) conn = None"
    "get_by_nick (snd (remove_by_connection conn reg)) (us_nickname s) = None"
proof -
  obtain n where n: "hm_get (by_connection reg) conn = Some n" "ci_get (by_nick reg) n = Some s"
    using assms(2) by (auto simp: get_by_connection_def split: option.splits)
  have "nickname_eq n (us_nickname s)"
    using nicks.linkedD(2) [OF registry_invD(2) [OF assms(1)] n(2)] by (simp add: nickname_eq_iff)
  then show "get_by_connection (snd (remove_by_connection conn reg)) conn = None"
    "get_by_nick (snd (remove_by_connection conn reg)) (us_nickname s) = None"
    using n by (simp_all add: remove_by_connection_def Let_def get_by_connection_def get_by_nick_def)
qed


lemma handle_quit_Some:
  assumes "get_by_connection reg conn = Some s" "pr_registered st" "msg_params msg = [reason]"
  shows "\<exists>out. handle_quit msg conn reg chans gr sender st =
    (st\<lparr>pr_registered := False\<rparr>, snd (remove_by_connection conn reg),
     fst (broadcast_quit_and_remove (us_nickname s) (message_with_prefix (session_prefix s) Quit [reason]) chans reg),
     fst (remove_user_from_all_groups (us_nickname s) (session_prefix s) reg gr),
     snd (broadcast_quit_and_remove (us_nickname s) (message_with_prefix (session_prefix s) Quit [reason]) chans reg) @ out)
   \<and> (\<forall>d \<in> set out. msg_command (snd d) \<noteq> Quit)"
proof -
  have "\<forall>d \<in> set (snd (remove_user_from_all_groups (us_nickname s) (session_prefix s) reg gr)). msg_command (snd d) \<noteq> Quit"
    unfolding remove_user_from_all_groups_def using leave_groups_no_quit by fastforce
  then show ?thesis
    using assms by (auto simp: handle_quit_def Let_def case_prod_beta message_new_def)
qed

text \<open>Two users share a channel.\<close>

definition share_channel :: "channel_registry \<Rightarrow> string \<Rightarrow> string \<Rightarrow> bool" where
  "share_channel chans a b \<longleftrightarrow>
     (\<exists>k ch. channels_get chans k = Some ch \<and> ci_contains (ch_members ch) a \<and> ci_contains (ch_members ch) b)"

lemma quit_received:
  assumes inv: "users_inv reg" and ch: "channels_inv chans"
  shows "received c (snd (broadcast_quit_and_remove nick m chans reg)) =
    (case get_by_connection reg c of
       Some t \<Rightarrow> if \<not> nickname_eq nick (us_nickname t) \<and> share_channel chans nick (us_nickname t) then [m] else []
     | None \<Rightarrow> [])"
proof (cases "get_by_connection reg c")
  case None
  then show ?thesis using quit_loop_no_session [OF inv None] by (simp add: broadcast_quit_and_remove_def)
next
  case (Some t)
  note I = channels_invD [OF ch]
  have wf: "ci_wf (ch_members b)" if "(a, b) \<in> set (channels_list_all chans)" for a b
    using I(2) channels_list_all_get [OF I(1) that] by (simp add: chan_wf_def)
  have "(\<exists>(a, b) \<in> set (channels_list_all chans). ci_contains (ch_members b) nick \<and> member_in t b)
      \<longleftrightarrow> share_channel chans nick (us_nickname t)"
    using channels_list_all_get [OF I(1)] channels_list_all_in [OF I(1)]
    unfolding share_channel_def channels_get_def member_in_def by fastforce
  then show ?thesis
    using Some quit_loop_received [OF inv Some wf, where notified = "[]"]
    by (simp add: broadcast_quit_and_remove_def ci_contains_def)
qed

lemma quit_dispatch:
  assumes inv: "server_inv sv" and st: "pr_registered st" and s: "get_by_connection (sv_users sv) conn = Some s"
    and q: "msg_command msg = Quit" "msg_params msg = [reason]"
  shows "sv_channels (server_after E cfg msg conn st sv) =
      fst (broadcast_quit_and_remove (us_nickname s) (message_with_prefix (session_prefix s) Quit [reason])
        (sv_channels sv) (sv_users (touched E msg conn sv)))"
    "sv_groups (server_after E cfg msg conn st sv) =
      fst (remove_user_from_all_groups (us_nickname s) (session_prefix s) (sv_users (touched E msg conn sv)) (sv_groups sv))"
    "sv_users (server_after E cfg msg conn st sv) = snd (remove_by_connection conn (sv_users (touched E msg conn sv)))"
    "filter (\<lambda>d. msg_command (snd d) = Quit) (deliveries E cfg msg conn st sv) =
      filter (\<lambda>d. msg_command (snd d) = Quit)
        (snd (broadcast_quit_and_remove (us_nickname s) (message_with_prefix (session_prefix s) Quit [reason])
          (sv_channels sv) (sv_users (touched E msg conn sv))))"
    "sv_prekeys (server_after E cfg msg conn st sv) = sv_prekeys sv" "sv_offline (server_after E cfg msg conn st sv) = sv_offline sv"
proof -
  let ?u = "sv_users (touched E msg conn sv)"
  obtain l where l: "get_by_connection ?u conn = Some (s\<lparr>us_last_active := l\<rparr>)" using touched_session [OF s] by blast
  obtain out where out: "handle_quit msg conn ?u (sv_channels sv) (sv_groups sv) conn st =
    (st\<lparr>pr_registered := False\<rparr>, snd (remove_by_connection conn ?u),
     fst (broadcast_quit_and_remove (us_nickname s) (message_with_prefix (session_prefix s) Quit [reason]) (sv_channels sv) ?u),
     fst (remove_user_from_all_groups (us_nickname s) (session_prefix s) ?u (sv_groups sv)),
     snd (broadcast_quit_and_remove (us_nickname s) (message_with_prefix (session_prefix s) Quit [reason]) (sv_channels sv) ?u) @ out)"
    "\<forall>d \<in> set out. msg_command (snd d) \<noteq> Quit"
    using handle_quit_Some [OF l st q(2)] by (metis (no_types, lifting) session_prefix_touched
        user_session.select_convs(2) user_session.surjective user_session.update_convs(10))
  have h: "handle_message E cfg msg conn conn st sv =
      (case handle_quit msg conn ?u (sv_channels sv) (sv_groups sv) conn st of (st', reg', chans', gr', out) \<Rightarrow>
        (HrQuit, st', (touched E msg conn sv)\<lparr>sv_users := reg', sv_channels := chans', sv_groups := gr'\<rparr>, out))"
    using st q unfolding handle_message_def handle_registered_def touched_def [symmetric] by (simp add: Let_def touched_simps)
  note h' = h [unfolded out(1), simplified]
  have "filter (\<lambda>d. msg_command (snd d) = Quit) out = []" using out(2) by (simp add: filter_empty_conv)
  then show "sv_channels (server_after E cfg msg conn st sv) =
      fst (broadcast_quit_and_remove (us_nickname s) (message_with_prefix (session_prefix s) Quit [reason]) (sv_channels sv) ?u)"
    "sv_groups (server_after E cfg msg conn st sv) =
      fst (remove_user_from_all_groups (us_nickname s) (session_prefix s) ?u (sv_groups sv))"
    "sv_users (server_after E cfg msg conn st sv) = snd (remove_by_connection conn ?u)"
    "filter (\<lambda>d. msg_command (snd d) = Quit) (deliveries E cfg msg conn st sv) =
      filter (\<lambda>d. msg_command (snd d) = Quit)
        (snd (broadcast_quit_and_remove (us_nickname s) (message_with_prefix (session_prefix s) Quit [reason]) (sv_channels sv) ?u))"
    "sv_prekeys (server_after E cfg msg conn st sv) = sv_prekeys sv" "sv_offline (server_after E cfg msg conn st sv) = sv_offline sv"
    by (simp_all add: server_after_def deliveries_def h' touched_simps)
qed


lemma filter_received: "filter (\<lambda>m. P m) (received c out) = received c (filter (\<lambda>d. P (snd d)) out)"
  by (induction out) auto

lemma same_connection:
  assumes "users_inv reg" "get_by_connection reg conn = Some s" "get_by_connection reg c = Some t"
  shows "nickname_eq (us_nickname s) (us_nickname t) \<longleftrightarrow> c = conn"
  using assms(2,3) nicks.linked_same [OF registry_invD(2) [OF users_invD(1) [OF assms(1)]], of "us_nickname t" t "us_nickname s" s]
    ci_get_ci [of "us_nickname s" "us_nickname t" "by_nick reg"]
  by (auto simp: get_by_connection_iff [OF users_invD(1) [OF assms(1)]] get_by_nick_def nickname_eq_sym)

text \<open>
  C36. QUIT ends the presence of a user: every channel is as before without the user, and gone when
  nobody else was in it; the user is in no group and not in the registry; and every other connected
  user who shares a channel with the user receives the QUIT message exactly once, everybody else
  does not. The two stores of the server stay as they are: messages that wait for a user who is
  offline, and the pre-key bundles, so that the bundle of the user who quit is still handed out.
\<close>

theorem quit_complete:
  assumes inv: "server_inv sv" and st: "pr_registered st" and s: "get_by_connection (sv_users sv) conn = Some s"
    and q: "msg_command msg = Quit" "msg_params msg = [reason]"
  shows "let sv' = server_after E cfg msg conn st sv in
    (\<forall>k. channels_get (sv_channels sv') k = without (us_nickname s) (channels_get (sv_channels sv) k))
    \<and> (\<forall>i. \<not> group_is_member (sv_groups sv') i (us_nickname s))
    \<and> get_by_connection (sv_users sv') conn = None \<and> get_by_nick (sv_users sv') (us_nickname s) = None
    \<and> sv_prekeys sv' = sv_prekeys sv \<and> sv_offline sv' = sv_offline sv
    \<and> (\<forall>c. filter (\<lambda>m. msg_command m = Quit) (received c (deliveries E cfg msg conn st sv)) =
         (case get_by_connection (sv_users sv) c of
            None \<Rightarrow> []
          | Some t \<Rightarrow> if c \<noteq> conn \<and> share_channel (sv_channels sv) (us_nickname s) (us_nickname t)
                     then [message_with_prefix (session_prefix s) Quit [reason]] else []))"
proof -
  note I = server_invD [OF inv] and D = quit_dispatch [OF inv st s q]
  note U = touched_users [OF I(1), of E msg conn]
  let ?u = "sv_users (touched E msg conn sv)" and ?m = "message_with_prefix (session_prefix s) Quit [reason]"
  let ?P = "\<lambda>n. if \<not> nickname_eq (us_nickname s) n \<and> share_channel (sv_channels sv) (us_nickname s) n then [?m] else []"
  obtain l where l: "get_by_connection ?u conn = Some (s\<lparr>us_last_active := l\<rparr>)" using touched_session [OF s] by blast
  have quits: "filter (\<lambda>m. msg_command m = Quit) (received c (deliveries E cfg msg conn st sv)) =
      (case get_by_connection (sv_users sv) c of None \<Rightarrow> [] | Some t \<Rightarrow> ?P (us_nickname t))" for c
  proof -
    have B: "received c (snd (broadcast_quit_and_remove (us_nickname s) ?m (sv_channels sv) ?u)) =
        (case get_by_connection (sv_users sv) c of None \<Rightarrow> [] | Some t \<Rightarrow> ?P (us_nickname t))"
      unfolding quit_received [OF U I(2)] by (rule touched_other_sessions [OF I(1)])
    have cmd: "msg_command ?m = Quit" by (simp add: message_with_prefix_def)
    have "filter (\<lambda>m. msg_command m = Quit) (received c (deliveries E cfg msg conn st sv)) =
        filter (\<lambda>m. msg_command m = Quit)
          (received c (snd (broadcast_quit_and_remove (us_nickname s) ?m (sv_channels sv) ?u)))"
      by (simp only: filter_received D(4))
    then show ?thesis by (simp only: B) (simp add: cmd split: option.split)
  qed
  have "c \<noteq> conn \<longleftrightarrow> \<not> nickname_eq (us_nickname s) (us_nickname t)" if "get_by_connection (sv_users sv) c = Some t" for c t
    using same_connection [OF I(1) s that] by simp
  then have "filter (\<lambda>m. msg_command m = Quit) (received c (deliveries E cfg msg conn st sv)) =
      (case get_by_connection (sv_users sv) c of None \<Rightarrow> []
       | Some t \<Rightarrow> if c \<noteq> conn \<and> share_channel (sv_channels sv) (us_nickname s) (us_nickname t) then [?m] else [])" for c
    unfolding quits by (simp split: option.split)
  moreover have "channels_get (sv_channels (server_after E cfg msg conn st sv)) k = without (us_nickname s) (channels_get (sv_channels sv) k)" for k
    unfolding D(1) channels_get_def by (rule quit_channels [OF I(2)])
  moreover have "get_by_connection (sv_users (server_after E cfg msg conn st sv)) conn = None"
    "get_by_nick (sv_users (server_after E cfg msg conn st sv)) (us_nickname s) = None"
    using remove_by_connection_gone [OF users_invD(1) [OF U] l] by (simp_all add: D(3))
  ultimately show ?thesis unfolding Let_def D(2) using remove_user_from_all_groups_complete D(5,6) by blast
qed


section \<open>Messages for users who are offline\<close>

lemma take_messages_ci: "nickname_eq a b \<Longrightarrow> take_messages a t off = take_messages b t off"
proof -
  assume "nickname_eq a b"
  then have "ci_get (os_queues off) a = ci_get (os_queues off) b" "ci_remove a (os_queues off) = ci_remove b (os_queues off)"
    by (simp_all add: ci_get_def ci_remove_def nickname_eq_iff)
  then show ?thesis by (simp only: take_messages_def)
qed

lemma queued_then_pending:
  assumes "offline_inv off" "queue_message target relay now off = (True, off1)" "now \<le> t" "t - now < os_message_ttl off"
  shows "pending_for off1 target t = pending_for off target t @ [relay]"
proof -
  note Q = queue_message_effect [OF assms(1,2)]
  have "qm_fresh off1 = qm_fresh off" by (simp add: qm_fresh_def fun_eq_iff Q(1))
  then show ?thesis using assms(3,4) by (simp add: pending_for_queue Q(3) filter_fresh_later del: filter_filter)
qed

text \<open>
  C38. A message to a user who is offline is delivered. If the offline store accepts it and the user registers before it
  expires, under any spelling of the nickname, registration succeeds and ends with the delivery of
  all pending messages, this one last among those of its kind: key-exchange messages come before
  the others, otherwise in the order of arrival; nothing is left to deliver again.
\<close>

theorem offline_message_delivered:
  assumes inv: "offline_inv off" and off: "get_by_nick reg target = None"
    and acc: "queue_message target relay (env_instant E) off = (True, off1)"
    and later: "env_instant E \<le> env_instant E'" "env_instant E' - env_instant E < os_message_ttl off"
    and st: "pr_nick st = Some nick" "nickname_eq nick target" "\<not> nick_in_use reg' nick"
  shows "case complete_registration E' conn conn cfg st reg'
           (fst (send_or_queue E sender me target what relay reg off)) of
    (st', reg'', off', out) \<Rightarrow>
      pr_registered st' \<and> get_by_nick reg'' nick \<noteq> None
      \<and> (\<exists>welcome. out = welcome @ map (Pair conn)
            (sort_key offline_priority (pending_for off target (env_instant E') @ [relay])))
      \<and> pending_for off' nick (env_instant E') = []"
proof -
  have o1: "fst (send_or_queue E sender me target what relay reg off) = off1"
    by (simp add: send_or_queue_def off acc)
  have s: "us_nickname (new_session E' conn conn st) = nick" by (simp add: new_session_def st(1))
  have r: "fst (register (new_session E' conn conn st) reg') = Ok ()"
    "get_by_nick (snd (register (new_session E' conn conn st) reg')) nick \<noteq> None"
    using st(3) by (simp_all add: register_def Let_def s nick_in_use_def get_by_nick_def)
  have p: "pending_for off1 nick (env_instant E') = pending_for off target (env_instant E') @ [relay]"
    using queued_then_pending [OF inv acc later] by (simp add: take_messages_ci [OF st(2)])
  have "pending_for (snd (take_messages nick (env_instant E') off1)) nick (env_instant E') = []"
    by (auto simp: take_messages_def split: option.split)
  then show ?thesis
    using r p unfolding o1 complete_registration_def
    by (auto simp: Let_def s deliver_offline_messages_def case_prod_beta split: sum.split)
qed

theorem offline_message_delivered_witness:
  "case complete_registration (sample_server_env\<lparr>env_instant := 30\<rparr>) 3 3 sample_server_config
       ((pre_registration_new ''h'')\<lparr>pr_nick := Some ''Dave''\<rparr>) user_registry_new
       (fst (send_or_queue sample_server_env 1 ''alice'' ''dave'' ''Message'' (message_new (Pirc Encrypted) [''dave'', ''x''])
          user_registry_new sample_offline)) of
    (st', reg'', off', out) \<Rightarrow>
      pr_registered st' \<and> get_by_nick reg'' ''Dave'' \<noteq> None
      \<and> (\<exists>welcome. out = welcome @ map (Pair 3) (sort_key offline_priority
            (pending_for sample_offline ''dave'' 30 @ [message_new (Pirc Encrypted) [''dave'', ''x'']])))
      \<and> pending_for off' ''Dave'' 30 = []"
proof -
  let ?m = "message_new (Pirc Encrypted) [''dave'', ''x'']"
  let ?st = "(pre_registration_new ''h'')\<lparr>pr_nick := Some ''Dave''\<rparr>"
  have q: "queue_message ''dave'' ?m (env_instant sample_server_env) sample_offline
      = (True, snd (queue_message ''dave'' ?m (env_instant sample_server_env) sample_offline))"
    by (rule prod_eqI) (code_simp, simp)
  have n: "pr_nick ?st = Some ''Dave''" "nickname_eq ''Dave'' ''dave''" "\<not> nick_in_use user_registry_new ''Dave''"
    by (simp, code_simp, code_simp)
  have g: "get_by_nick user_registry_new ''dave'' = None" by code_simp
  show ?thesis
    using offline_message_delivered [OF sample_offline_inv g q _ _ n,
        of "sample_server_env\<lparr>env_instant := 30\<rparr>" 3 sample_server_config 1 "''alice''" "''Message''"]
    by (simp add: sample_server_env_def sample_offline_def offline_store_new_def)
qed

section \<open>Witnesses\<close>

definition alice :: user_session where
  "alice = the (get_by_connection (sv_users (w_server two_users)) 1)"

definition hash_a :: channel where
  "hash_a = the (channels_get (sv_channels (w_server two_users)) ''#a'')"

lemma the_Some: "x \<noteq> None \<Longrightarrow> x = Some (the x)" by simp

lemma alice_session: "get_by_connection (sv_users (w_server two_users)) 1 = Some alice"
  unfolding alice_def by (rule the_Some) code_simp

lemma hash_a_channel: "channels_get (sv_channels (w_server two_users)) ''#a'' = Some hash_a"
  unfolding hash_a_def by (rule the_Some) code_simp

theorem channel_message_delivery_witness:
  "received 2 (deliveries sample_server_env sample_server_config (message_new Privmsg [''#a'', ''hello'']) 1 sample_st
     (w_server two_users)) = [message_with_prefix (session_prefix alice) Privmsg [''#a'', ''hello'']]"
proof -
  have n: "channel_name_new ''#a'' = Ok ''#a''" by code_simp
  have sp: "may_speak hash_a (us_nickname alice)" by code_simp
  obtain b where b: "get_by_connection (sv_users (w_server two_users)) 2 = Some b" "ci_contains (ch_members hash_a) (us_nickname b)"
  proof -
    have "get_by_connection (sv_users (w_server two_users)) 2 \<noteq> None"
      "ci_contains (ch_members hash_a) (us_nickname (the (get_by_connection (sv_users (w_server two_users)) 2)))" by code_simp+
    then show ?thesis using that by auto
  qed
  show ?thesis
    using channel_message_delivery [OF two_users_inv _ alice_session _ _ n hash_a_channel, of sample_st
        "message_new Privmsg [''#a'', ''hello'']" "''hello''" 2] sp b
    by (simp add: sample_st_def message_new_def starts_with_def)
qed

theorem quit_complete_witness:
  "let sv' = server_after sample_server_env sample_server_config (message_new Quit [''bye'']) 1 sample_st (w_server two_users) in
   channels_get (sv_channels sv') ''#a'' = without (us_nickname alice) (Some hash_a)
   \<and> get_by_nick (sv_users sv') (us_nickname alice) = None"
  using quit_complete [OF two_users_inv _ alice_session, of sample_st "message_new Quit [''bye'']" "''bye''"] hash_a_channel
  by (simp add: Let_def sample_st_def message_new_def)

section \<open>Memberships that outlive their user\<close>

text \<open>
  Alice creates a channel, leaves her nickname, and Bob takes it: Bob, who never joined, is operator of the
  channel. The same happens when Alice's connection is lost.
\<close>

definition takeover :: "server_event list \<Rightarrow> world" where
  "takeover leave = run_events sample_server_env sample_server_config
     (login 1 ''alice'' @ [Receive 1 (message_new Join [''#a''])] @ leave @ login 2 ''alice'') (world_new sample_offline)"

text \<open>
  A channel membership belongs to a nickname, not to a user: after NICK, and after a connection is lost without
  QUIT, the channel keeps the old nickname as operator, and whoever registers that nickname next is
  operator of a channel that this user never joined. Both worlds are reachable.
\<close>

theorem stale_membership_takeover:
  "list_all (\<lambda>leave.
     events_fresh sample_server_env sample_server_config
       (login 1 ''alice'' @ [Receive 1 (message_new Join [''#a''])] @ leave @ login 2 ''alice'') (world_new sample_offline)
     \<and> (case (get_by_connection (sv_users (w_server (takeover leave))) 2,
              channels_get (sv_channels (w_server (takeover leave))) ''#a'') of
          (Some bob, Some ch) \<Rightarrow> operator_in bob ch \<and> us_connection_id bob = 2
        | _ \<Rightarrow> False))
   [[Receive 1 (message_new Nick [''alicia''])], [Disconnect 1]]"
  by code_simp

end
