(* ===== verification/Cluster_Failover.thy ===== *)
theory Cluster_Failover
  imports Cluster_State Server_World
begin

text \<open>
  What a server does with committed cluster commands and with failing nodes: the index of home
  nodes and the migration of users (\<^verbatim>\<open>migration.rs\<close>), the queue of messages for users in
  migration (\<^verbatim>\<open>failover_queue.rs\<close>), the failure detector (\<^verbatim>\<open>raft/health.rs\<close>), the degraded mode
  (\<^verbatim>\<open>degraded_mode.rs\<close>), the redirection of users on shutdown (\<^verbatim>\<open>graceful_shutdown.rs\<close>) and the
  commit consumer (\<^verbatim>\<open>commit_consumer.rs\<close>) that applies committed commands to the local tables.

  A \<^verbatim>\<open>HashSet<String>\<close> is a list without repetition. The clock is an argument. The background
  tasks are step functions over the events that they receive; whether a proposal to Raft is
  accepted (\<^verbatim>\<open>RaftHandle::propose\<close>) is an argument of the step that proposes.
\<close>

section \<open>Home nodes\<close>

record user_node_index =
  user_to_node :: "(string \<times> node_id) list"
  node_to_users :: "(node_id \<times> string list) list"

definition user_node_index_new :: user_node_index where
  "user_node_index_new = \<lparr>user_to_node = [], node_to_users = []\<rparr>"

definition users_on_node :: "user_node_index \<Rightarrow> node_id \<Rightarrow> string list" where
  "users_on_node ix node = (case hm_get (node_to_users ix) node of None \<Rightarrow> [] | Some us \<Rightarrow> us)"

definition active_nodes :: "user_node_index \<Rightarrow> node_id list" where
  "active_nodes ix = map fst (node_to_users ix)"

text \<open>Removing a key from the users of a node; a node without users is dropped.\<close>

definition drop_home :: "string \<Rightarrow> node_id \<Rightarrow> user_node_index \<Rightarrow> user_node_index" where
  "drop_home key node ix =
     (case hm_get (node_to_users ix) node of
        None \<Rightarrow> ix
      | Some us \<Rightarrow>
          ix\<lparr>node_to_users := (if removeAll key us = [] then hm_remove node (node_to_users ix)
                               else hm_insert node (removeAll key us) (node_to_users ix))\<rparr>)"

definition set_home_node :: "string \<Rightarrow> node_id \<Rightarrow> user_node_index \<Rightarrow> user_node_index" where
  "set_home_node nickname node ix =
     (let key = to_ascii_lowercase nickname;
          ix1 = (case hm_get (user_to_node ix) key of
                   Some old \<Rightarrow> if old \<noteq> node then drop_home key old ix else ix
                 | None \<Rightarrow> ix) in
      ix1\<lparr>user_to_node := hm_insert key node (user_to_node ix1),
          node_to_users := hm_insert node (List.insert key (users_on_node ix1 node)) (node_to_users ix1)\<rparr>)"

definition index_remove_user :: "string \<Rightarrow> user_node_index \<Rightarrow> user_node_index" where
  "index_remove_user nickname ix =
     (let key = to_ascii_lowercase nickname in
      case hm_get (user_to_node ix) key of
        None \<Rightarrow> ix
      | Some node \<Rightarrow> drop_home key node (ix\<lparr>user_to_node := hm_remove key (user_to_node ix)\<rparr>))"

definition index_rename_user :: "string \<Rightarrow> string \<Rightarrow> user_node_index \<Rightarrow> user_node_index" where
  "index_rename_user old_nick new_nick ix =
     (let old_key = to_ascii_lowercase old_nick; new_key = to_ascii_lowercase new_nick in
      case hm_get (user_to_node ix) old_key of
        None \<Rightarrow> ix
      | Some node \<Rightarrow>
          ix\<lparr>user_to_node := hm_insert new_key node (hm_remove old_key (user_to_node ix)),
             node_to_users := (case hm_get (node_to_users ix) node of
                None \<Rightarrow> node_to_users ix
              | Some us \<Rightarrow> hm_insert node (List.insert new_key (removeAll old_key us)) (node_to_users ix))\<rparr>)"

fun update_user_node_index :: "cluster_command \<Rightarrow> user_node_index \<Rightarrow> user_node_index" where
  "update_user_node_index (UserRegistered _ nickname _ _ _ _ (Some node)) ix = set_home_node nickname node ix"
| "update_user_node_index (UserMigrated nickname _ to_node) ix = set_home_node nickname to_node ix"
| "update_user_node_index (UserQuit nickname _) ix = index_remove_user nickname ix"
| "update_user_node_index (UserKilled nickname _) ix = index_remove_user nickname ix"
| "update_user_node_index (NickChanged old_nick new_nick) ix = index_rename_user old_nick new_nick ix"
| "update_user_node_index _ ix = ix"

section \<open>Migration\<close>

datatype peer_status = Online | Suspected | Down
datatype health_event = NodeSuspected node_id | NodeDown node_id | NodeUp node_id

text \<open>The nodes that users of a failed node may go to.\<close>

definition surviving_nodes :: "node_id \<Rightarrow> node_id list \<Rightarrow> node_id \<Rightarrow> node_id list" where
  "surviving_nodes self_id peer_ids failed =
     sort (filter (\<lambda>i. i \<noteq> failed) peer_ids @ (if self_id \<noteq> failed then [self_id] else []))"

definition migration_proposals :: "node_id list \<Rightarrow> node_id \<Rightarrow> string list \<Rightarrow> cluster_command list" where
  "migration_proposals surviving failed affected =
     map (\<lambda>(i, nickname). UserMigrated nickname failed (surviving ! (i mod length surviving)))
       (List.enumerate 0 affected)"

text \<open>One event of the migration service: the commands that it proposes.\<close>

definition migration_step ::
  "bool \<Rightarrow> node_id \<Rightarrow> node_id list \<Rightarrow> user_node_index \<Rightarrow> health_event \<Rightarrow> cluster_command list" where
  "migration_step leader self_id peer_ids ix ev =
     (case ev of
        NodeDown failed \<Rightarrow>
          if \<not> leader then []
          else
            (let surviving = surviving_nodes self_id peer_ids failed; affected = users_on_node ix failed in
             if surviving = [] then [] else if affected = [] then []
             else migration_proposals surviving failed affected)
      | NodeSuspected _ \<Rightarrow> []
      | NodeUp _ \<Rightarrow> [])"

section \<open>Failure detection\<close>

record health_config =
  hc_suspect_threshold :: nat
  hc_failure_threshold :: nat

definition health_config_from_heartbeat :: "nat \<Rightarrow> health_config" where
  "health_config_from_heartbeat heartbeat =
     \<lparr>hc_suspect_threshold = heartbeat * 3, hc_failure_threshold = heartbeat * 6\<rparr>"

record peer_state =
  ps_status :: peer_status
  ps_last_seen :: nat

record health_monitor =
  hm_config :: health_config
  hm_peers :: "(node_id \<times> peer_state) list"
  hm_dirty :: bool

definition health_monitor_new :: "node_id list \<Rightarrow> health_config \<Rightarrow> nat \<Rightarrow> health_monitor" where
  "health_monitor_new peer_ids cfg now =
     \<lparr>hm_config = cfg,
      hm_peers = fold (\<lambda>i. hm_insert i \<lparr>ps_status = Online, ps_last_seen = now\<rparr>) peer_ids [],
      hm_dirty = False\<rparr>"

definition record_response :: "node_id \<Rightarrow> nat \<Rightarrow> health_monitor \<Rightarrow> health_monitor \<times> health_event list" where
  "record_response peer_id now m =
     (case hm_get (hm_peers m) peer_id of
        None \<Rightarrow> (m, [])
      | Some p \<Rightarrow>
          (let m1 = m\<lparr>hm_peers := hm_insert peer_id \<lparr>ps_status = Online, ps_last_seen = now\<rparr> (hm_peers m)\<rparr> in
           if ps_status p \<noteq> Online then (m1\<lparr>hm_dirty := True\<rparr>, [NodeUp peer_id]) else (m1, [])))"

definition status_after :: "health_config \<Rightarrow> nat \<Rightarrow> peer_status" where
  "status_after c elapsed =
     (if elapsed \<ge> hc_failure_threshold c then Down
      else if elapsed \<ge> hc_suspect_threshold c then Suspected else Online)"

fun status_event :: "peer_status \<Rightarrow> node_id \<Rightarrow> health_event" where
  "status_event Down i = NodeDown i"
| "status_event Suspected i = NodeSuspected i"
| "status_event Online i = NodeUp i"

fun evaluate_peers ::
  "health_config \<Rightarrow> nat \<Rightarrow> (node_id \<times> peer_state) list \<Rightarrow> (node_id \<times> peer_state) list \<times> health_event list" where
  "evaluate_peers c now [] = ([], [])"
| "evaluate_peers c now ((i, p) # ps) =
     (let new_status = status_after c (now - ps_last_seen p) in
      case evaluate_peers c now ps of
        (ps', evs) \<Rightarrow>
          ((i, p\<lparr>ps_status := new_status\<rparr>) # ps',
           (if new_status \<noteq> ps_status p then status_event new_status i # evs else evs)))"

definition evaluate :: "nat \<Rightarrow> health_monitor \<Rightarrow> health_monitor \<times> health_event list" where
  "evaluate now m =
     (case evaluate_peers (hm_config m) now (hm_peers m) of
        (ps, evs) \<Rightarrow> (m\<lparr>hm_peers := ps, hm_dirty := hm_dirty m \<or> evs \<noteq> []\<rparr>, evs))"

definition add_peer :: "node_id \<Rightarrow> nat \<Rightarrow> health_monitor \<Rightarrow> health_monitor" where
  "add_peer i now m =
     (if hm_get (hm_peers m) i \<noteq> None then m
      else m\<lparr>hm_peers := hm_insert i \<lparr>ps_status = Online, ps_last_seen = now\<rparr> (hm_peers m)\<rparr>)"

definition remove_peer :: "node_id \<Rightarrow> health_monitor \<Rightarrow> health_monitor" where
  "remove_peer i m = m\<lparr>hm_peers := hm_remove i (hm_peers m)\<rparr>"

definition clear_dirty :: "health_monitor \<Rightarrow> health_monitor" where
  "clear_dirty m = m\<lparr>hm_dirty := False\<rparr>"

definition peer_statuses :: "health_monitor \<Rightarrow> (node_id \<times> peer_status) list" where
  "peer_statuses m = map (\<lambda>(i, p). (i, ps_status p)) (hm_peers m)"

definition get_peer_status :: "health_monitor \<Rightarrow> node_id \<Rightarrow> peer_status option" where
  "get_peer_status m i = map_option ps_status (hm_get (hm_peers m) i)"

definition down_peers :: "health_monitor \<Rightarrow> node_id list" where
  "down_peers m = map fst (filter (\<lambda>(_, p). ps_status p = Down) (hm_peers m))"

section \<open>Messages for users in migration\<close>

record buffered_message =
  bm_message :: message
  bm_enqueued_at :: nat

record failover_queue =
  fq_queues :: "(string \<times> buffered_message list) list"
  fq_max_per_user :: nat
  fq_ttl :: nat

definition failover_queue_new :: "nat \<Rightarrow> nat \<Rightarrow> failover_queue" where
  "failover_queue_new max_per_user ttl = \<lparr>fq_queues = [], fq_max_per_user = max_per_user, fq_ttl = ttl\<rparr>"

definition fq_get :: "failover_queue \<Rightarrow> string \<Rightarrow> buffered_message list" where
  "fq_get q key = (case hm_get (fq_queues q) key of None \<Rightarrow> [] | Some xs \<Rightarrow> xs)"

definition bm_fresh :: "failover_queue \<Rightarrow> nat \<Rightarrow> buffered_message \<Rightarrow> bool" where
  "bm_fresh q now bm \<longleftrightarrow> now - bm_enqueued_at bm < fq_ttl q"

definition fq_enqueue :: "string \<Rightarrow> message \<Rightarrow> nat \<Rightarrow> failover_queue \<Rightarrow> bool \<times> failover_queue" where
  "fq_enqueue nickname msg now q =
     (let key = to_ascii_lowercase nickname; queue = fq_get q key;
          evicted = length queue \<ge> fq_max_per_user q;
          kept = (if evicted then tl queue else queue) in
      (\<not> evicted,
       q\<lparr>fq_queues := hm_insert key (kept @ [\<lparr>bm_message = msg, bm_enqueued_at = now\<rparr>]) (fq_queues q)\<rparr>))"

definition fq_drain :: "string \<Rightarrow> nat \<Rightarrow> failover_queue \<Rightarrow> message list \<times> failover_queue" where
  "fq_drain nickname now q =
     (let key = to_ascii_lowercase nickname in
      case hm_get (fq_queues q) key of
        None \<Rightarrow> ([], q)
      | Some queue \<Rightarrow> (map bm_message (filter (bm_fresh q now) queue), q\<lparr>fq_queues := hm_remove key (fq_queues q)\<rparr>))"

definition fq_remove :: "string \<Rightarrow> failover_queue \<Rightarrow> failover_queue" where
  "fq_remove nickname q = q\<lparr>fq_queues := hm_remove (to_ascii_lowercase nickname) (fq_queues q)\<rparr>"

definition fq_rename :: "string \<Rightarrow> string \<Rightarrow> failover_queue \<Rightarrow> failover_queue" where
  "fq_rename old_nick new_nick q =
     (let old_key = to_ascii_lowercase old_nick; new_key = to_ascii_lowercase new_nick in
      if old_key = new_key then q
      else case hm_get (fq_queues q) old_key of
        None \<Rightarrow> q
      | Some old_queue \<Rightarrow>
          q\<lparr>fq_queues := hm_insert new_key (fq_get q new_key @ old_queue) (hm_remove old_key (fq_queues q))\<rparr>)"

definition fq_expire_all :: "nat \<Rightarrow> failover_queue \<Rightarrow> failover_queue" where
  "fq_expire_all now q =
     q\<lparr>fq_queues := filter (\<lambda>(_, queue). queue \<noteq> [])
         (map (\<lambda>(k, queue). (k, filter (bm_fresh q now) queue)) (fq_queues q))\<rparr>"

definition fq_user_count :: "failover_queue \<Rightarrow> nat" where
  "fq_user_count q = length (fq_queues q)"

definition fq_message_count :: "failover_queue \<Rightarrow> string \<Rightarrow> nat" where
  "fq_message_count q nickname = length (fq_get q (to_ascii_lowercase nickname))"


section \<open>Degraded mode\<close>

record degraded_monitor =
  dm_degraded :: bool
  dm_prev_leader_known :: bool

definition quorum_lost_text :: string where
  "quorum_lost_text = ''*** Cluster quorum lost '' @ [CHR 0xE2, CHR 0x80, CHR 0x94] @ '' operating in degraded mode. State changes are local only and will be reconciled when quorum is restored.''"

definition quorum_restored_text :: string where
  "quorum_restored_text = ''*** Cluster quorum restored '' @ [CHR 0xE2, CHR 0x80, CHR 0x94] @ '' state is being reconciled via Raft log replay.''"

text \<open>One change of the Raft state that the monitor observes; \<open>leader\<close> is the known leader.\<close>

definition degraded_step ::
  "bool \<Rightarrow> node_id option \<Rightarrow> user_registry \<Rightarrow> degraded_monitor \<Rightarrow> degraded_monitor \<times> delivery list" where
  "degraded_step single leader reg m =
     (let leader_known = (leader \<noteq> None) in
      if single then (m, [])
      else if dm_prev_leader_known m \<and> \<not> leader_known
      then (m\<lparr>dm_degraded := True, dm_prev_leader_known := leader_known\<rparr>, notice_all reg quorum_lost_text)
      else if \<not> dm_prev_leader_known m \<and> leader_known \<and> dm_degraded m
      then (m\<lparr>dm_degraded := False, dm_prev_leader_known := leader_known\<rparr>, notice_all reg quorum_restored_text)
      else (m\<lparr>dm_prev_leader_known := leader_known\<rparr>, []))"

section \<open>Shutting down\<close>

definition select_migration_targets ::
  "node_id list \<Rightarrow> (node_id \<times> string) list \<Rightarrow> (node_id \<times> string) list" where
  "select_migration_targets peer_ids peer_map =
     sort_key fst (List.map_filter (\<lambda>i. map_option (Pair i) (hm_get peer_map i)) peer_ids)"

definition send_redirect_notice :: "user_registry \<Rightarrow> string \<Rightarrow> string \<Rightarrow> delivery list" where
  "send_redirect_notice reg nickname addr =
     (case nickname_new nickname of
        Err _ \<Rightarrow> []
      | Ok nick \<Rightarrow>
          (case get_by_nick reg nick of
             None \<Rightarrow> []
           | Some s \<Rightarrow>
               [(us_sender s, message_with_prefix (Server SERVER_NAME) Notice
                   [nickname, ''*** Server shutting down. Please reconnect to '' @ addr]),
                (us_sender s, message_new ErrorCmd
                   [''Closing Link: '' @ us_hostname s @ '' (Server shutting down, reconnect to '' @ addr @ '')''])]))"

text \<open>The loop over the local users; \<open>accepted\<close> tells whether Raft takes a proposal.\<close>

fun propose_migrations ::
  "(cluster_command \<Rightarrow> bool) \<Rightarrow> user_registry \<Rightarrow> node_id \<Rightarrow> (node_id \<times> string) list \<Rightarrow> nat \<Rightarrow> string list \<Rightarrow>
     cluster_command list \<times> delivery list" where
  "propose_migrations accepted reg self_id targets i [] = ([], [])"
| "propose_migrations accepted reg self_id targets i (nickname # rest) =
     (case targets ! (i mod length targets) of
        (target_id, target_addr) \<Rightarrow>
          (let cmd = UserMigrated nickname self_id target_id in
           case propose_migrations accepted reg self_id targets (i + 1) rest of
             (cmds, out) \<Rightarrow>
               if accepted cmd then (cmd # cmds, send_redirect_notice reg nickname target_addr @ out)
               else (cmds, out)))"

definition propose_migrations_and_notify ::
  "(cluster_command \<Rightarrow> bool) \<Rightarrow> user_registry \<Rightarrow> node_id \<Rightarrow> (node_id \<times> string) list \<Rightarrow> user_node_index \<Rightarrow>
     cluster_command list \<times> delivery list" where
  "propose_migrations_and_notify accepted reg self_id targets ix =
     propose_migrations accepted reg self_id targets 0 (users_on_node ix self_id)"

section \<open>The commit consumer\<close>

fun parse_member_status :: "string \<Rightarrow> member_status" where
  "parse_member_status st =
     (if st = ''operator'' then MsOperator else if st = ''voiced'' then MsVoiced else MsNormal)"

definition parse_channel_mode :: "string \<Rightarrow> channel_mode option" where
  "parse_channel_mode st = map_of [(''i'', InviteOnly), (''m'', Moderated), (''n'', NoExternalMessages),
     (''s'', Secret), (''t'', TopicProtected)] st"

definition parse_user_mode :: "string \<Rightarrow> user_mode option" where
  "parse_user_mode st = map_of [(''i'', Normal), (''w'', Normal), (''o'', Operator), (''v'', Voiced)] st"

text \<open>\<open>with_nick\<close> and \<open>with_chan\<close>: the validations at the start of each function.\<close>

definition with_nick :: "string \<Rightarrow> (string \<Rightarrow> 'a) \<Rightarrow> 'a \<Rightarrow> 'a" where
  "with_nick nickname f unchanged = (case nickname_new nickname of Err _ \<Rightarrow> unchanged | Ok nick \<Rightarrow> f nick)"

definition with_chan :: "string \<Rightarrow> (string \<Rightarrow> 'a) \<Rightarrow> 'a \<Rightarrow> 'a" where
  "with_chan channel f unchanged = (case channel_name_new channel of Err _ \<Rightarrow> unchanged | Ok chan \<Rightarrow> f chan)"

text \<open>A session of a user on another node; its queue (\<open>dummy\<close>) is read by nobody.\<close>

definition remote_session :: "nat \<Rightarrow> nat \<Rightarrow> nat \<Rightarrow> string \<Rightarrow> string \<Rightarrow> string \<Rightarrow> string \<Rightarrow> nat \<Rightarrow> user_session" where
  "remote_session now dummy conn nick username realname hostname signon_time =
     \<lparr>us_connection_id = conn, us_nickname = nick, us_username = username, us_realname = realname,
      us_hostname = hostname, us_modes = {}, us_away_message = None, us_connected_at = now,
      us_signon_time = signon_time, us_last_active = now, us_registered = True, us_sender = dummy\<rparr>"

definition local_user_registered ::
  "nat \<Rightarrow> nat \<Rightarrow> nat \<Rightarrow> string \<Rightarrow> string \<Rightarrow> string \<Rightarrow> string \<Rightarrow> nat \<Rightarrow> user_registry \<Rightarrow> user_registry" where
  "local_user_registered now dummy conn nickname username realname hostname signon_time reg =
     with_nick nickname (\<lambda>nick.
       if nick_in_use reg nick then reg
       else snd (register (remote_session now dummy conn nick username realname hostname signon_time) reg)) reg"

definition local_nick_changed :: "string \<Rightarrow> string \<Rightarrow> user_registry \<Rightarrow> user_registry" where
  "local_nick_changed old_nick new_nick reg =
     with_nick old_nick (\<lambda>old. with_nick new_nick (\<lambda>new.
       if get_by_nick reg old = None then reg else snd (change_nick old new reg)) reg) reg"

definition local_user_quit ::
  "string \<Rightarrow> user_registry \<Rightarrow> channel_registry \<Rightarrow> user_registry \<times> channel_registry" where
  "local_user_quit nickname reg chans =
     with_nick nickname (\<lambda>nick.
       case get_by_nick reg nick of
         None \<Rightarrow> (reg, chans)
       | Some s \<Rightarrow>
           (let chans1 = map (\<lambda>(key, name, ch). (key, name, ch\<lparr>ch_members := ci_remove nick (ch_members ch)\<rparr>)) chans;
                chans2 = fold (\<lambda>(name, _) c. snd (channels_remove_if_empty name c)) (channels_list_all chans1) chans1 in
            (snd (remove_by_connection (us_connection_id s) reg), chans2))) (reg, chans)"

definition update_nick :: "string \<Rightarrow> (user_session \<Rightarrow> user_session) \<Rightarrow> user_registry \<Rightarrow> user_registry" where
  "update_nick nickname f reg =
     with_nick nickname (\<lambda>nick. reg\<lparr>by_nick := ci_update nick f (by_nick reg)\<rparr>) reg"

definition local_user_mode_changed :: "string list \<Rightarrow> string list \<Rightarrow> user_session \<Rightarrow> user_session" where
  "local_user_mode_changed added removed s =
     s\<lparr>us_modes := (us_modes s \<union> set (List.map_filter parse_user_mode added))
                     - set (List.map_filter parse_user_mode removed)\<rparr>"

definition local_channel_joined :: "nat \<Rightarrow> string \<Rightarrow> string \<Rightarrow> string \<Rightarrow> channel_registry \<Rightarrow> channel_registry" where
  "local_channel_joined now nickname channel status chans =
     with_nick nickname (\<lambda>nick. with_chan channel (\<lambda>chan.
       case channels_get_or_create chan now chans of (ch, chans1) \<Rightarrow>
         if ci_contains (ch_members ch) nick then chans1
         else ci_update chan (\<lambda>_. ch\<lparr>ch_members := ci_insert nick (parse_member_status status) (ch_members ch)\<rparr>) chans1)
       chans) chans"

definition local_channel_parted :: "string \<Rightarrow> string \<Rightarrow> channel_registry \<Rightarrow> channel_registry" where
  "local_channel_parted nickname channel chans =
     with_nick nickname (\<lambda>nick. with_chan channel (\<lambda>chan.
       case channels_get chans chan of None \<Rightarrow> chans | Some _ \<Rightarrow> part_member nick chan chans) chans) chans"

definition update_chan :: "string \<Rightarrow> (channel \<Rightarrow> channel) \<Rightarrow> channel_registry \<Rightarrow> channel_registry" where
  "update_chan channel f chans = with_chan channel (\<lambda>chan. ci_update chan f chans) chans"

fun set_status :: "string \<times> string \<Rightarrow> member_status ci_map \<Rightarrow> member_status ci_map" where
  "set_status (nick_str, status_str) ms =
     (case nickname_new nick_str of
        Err _ \<Rightarrow> ms
      | Ok nick \<Rightarrow> if ci_contains ms nick then ci_insert nick (parse_member_status status_str) ms else ms)"

definition local_channel_mode_changed ::
  "string list \<Rightarrow> string list \<Rightarrow> string option \<Rightarrow> nat option \<Rightarrow> (string \<times> string) list \<Rightarrow> channel \<Rightarrow> channel" where
  "local_channel_mode_changed added removed key limit changes ch =
     ch\<lparr>ch_modes := fold removeAll (List.map_filter parse_channel_mode removed)
                      (fold List.insert (List.map_filter parse_channel_mode added) (ch_modes ch)),
        ch_key := (case key of Some k \<Rightarrow> Some k | None \<Rightarrow> ch_key ch),
        ch_user_limit := (case limit of Some l \<Rightarrow> Some l | None \<Rightarrow> ch_user_limit ch),
        ch_members := fold set_status changes (ch_members ch)\<rparr>"

definition local_ban_added :: "string \<Rightarrow> string \<Rightarrow> nat \<Rightarrow> channel \<Rightarrow> channel" where
  "local_ban_added mask' who_set timestamp ch =
     (if list_ex (\<lambda>b. ban_mask b = mask') (ch_ban_list ch) then ch
      else ch\<lparr>ch_ban_list := ch_ban_list ch @ [\<lparr>ban_mask = mask', ban_who_set = who_set, ban_timestamp = timestamp\<rparr>]\<rparr>)"

definition local_user_migrated :: "string \<Rightarrow> user_registry \<Rightarrow> user_registry" where
  "local_user_migrated nickname reg =
     with_nick nickname (\<lambda>nick.
       case get_by_nick reg nick of
         None \<Rightarrow> reg
       | Some s \<Rightarrow> snd (remove_by_connection (us_connection_id s) reg)) reg"

text \<open>\<open>now\<close> is the clock, \<open>dummy\<close> the queue of a remote session.\<close>

fun apply_command ::
  "nat \<Rightarrow> nat \<Rightarrow> cluster_command \<Rightarrow> user_registry \<times> channel_registry \<Rightarrow> user_registry \<times> channel_registry" where
  "apply_command now dummy (UserRegistered conn nickname username realname hostname signon_time _) (reg, chans) =
     (local_user_registered now dummy conn nickname username realname hostname signon_time reg, chans)"
| "apply_command now dummy (NickChanged old_nick new_nick) (reg, chans) = (local_nick_changed old_nick new_nick reg, chans)"
| "apply_command now dummy (UserQuit nickname _) (reg, chans) = local_user_quit nickname reg chans"
| "apply_command now dummy (UserKilled nickname _) (reg, chans) = local_user_quit nickname reg chans"
| "apply_command now dummy (UserAway nickname message) (reg, chans) =
     (update_nick nickname (\<lambda>s. s\<lparr>us_away_message := message\<rparr>) reg, chans)"
| "apply_command now dummy (UserModeChanged nickname added removed) (reg, chans) =
     (update_nick nickname (local_user_mode_changed added removed) reg, chans)"
| "apply_command now dummy (ChannelJoined nickname channel status) (reg, chans) =
     (reg, local_channel_joined now nickname channel status chans)"
| "apply_command now dummy (ChannelParted nickname channel _) (reg, chans) =
     (reg, local_channel_parted nickname channel chans)"
| "apply_command now dummy (UserKicked channel nickname _ _) (reg, chans) =
     (reg, local_channel_parted nickname channel chans)"
| "apply_command now dummy (TopicSet channel topic) (reg, chans) =
     (reg, update_chan channel (\<lambda>ch. ch\<lparr>ch_topic := map_option (\<lambda>t. (ti_text t, ti_who t, ti_timestamp t)) topic\<rparr>) chans)"
| "apply_command now dummy (ChannelModeChanged channel added removed key limit changes) (reg, chans) =
     (reg, update_chan channel (local_channel_mode_changed added removed key limit changes) chans)"
| "apply_command now dummy (BanAdded channel mask' who_set timestamp) (reg, chans) =
     (reg, update_chan channel (local_ban_added mask' who_set timestamp) chans)"
| "apply_command now dummy (BanRemoved channel mask') (reg, chans) =
     (reg, update_chan channel (\<lambda>ch. ch\<lparr>ch_ban_list := filter (\<lambda>b. ban_mask b \<noteq> mask') (ch_ban_list ch)\<rparr>) chans)"
| "apply_command now dummy (InviteAdded channel nickname) (reg, chans) =
     (reg, with_nick nickname (\<lambda>nick.
        update_chan channel (\<lambda>ch. ch\<lparr>ch_invite_list := ci_insert nick () (ch_invite_list ch)\<rparr>) chans) chans)"
| "apply_command now dummy (OperGranted nickname) (reg, chans) =
     (update_nick nickname (\<lambda>s. s\<lparr>us_modes := insert Operator (us_modes s)\<rparr>) reg, chans)"
| "apply_command now dummy (UserMigrated nickname _ _) (reg, chans) = (local_user_migrated nickname reg, chans)"
| "apply_command now dummy (ServerAdded _ _) (reg, chans) = (reg, chans)"
| "apply_command now dummy (ServerRemoved _) (reg, chans) = (reg, chans)"
| "apply_command now dummy (Noop _) (reg, chans) = (reg, chans)"

fun handle_failover_queue ::
  "nat \<Rightarrow> node_id option \<Rightarrow> cluster_command \<Rightarrow> user_registry \<Rightarrow> failover_queue \<Rightarrow> failover_queue \<times> delivery list" where
  "handle_failover_queue now self_id (UserRegistered _ nickname _ _ _ _ home_node) reg q =
     (if home_node \<noteq> self_id then (q, [])
      else if fq_message_count q nickname = 0 then (q, [])
      else case fq_drain nickname now q of
        (messages, q') \<Rightarrow>
          (q', with_nick nickname (\<lambda>nick.
             case get_by_nick reg nick of None \<Rightarrow> [] | Some s \<Rightarrow> map (Pair (us_sender s)) messages) []))"
| "handle_failover_queue now self_id (UserQuit nickname _) reg q = (fq_remove nickname q, [])"
| "handle_failover_queue now self_id (UserKilled nickname _) reg q = (fq_remove nickname q, [])"
| "handle_failover_queue now self_id (NickChanged old_nick new_nick) reg q = (fq_rename old_nick new_nick q, [])"
| "handle_failover_queue now self_id _ reg q = (q, [])"

text \<open>One committed entry in the consumer task, with the index and the queue configured.\<close>

record consumer =
  co_users :: user_registry
  co_channels :: channel_registry
  co_index :: user_node_index
  co_queue :: failover_queue

definition consume_entry ::
  "nat \<Rightarrow> nat \<Rightarrow> node_id option \<Rightarrow> cluster_command \<Rightarrow> consumer \<Rightarrow> consumer \<times> delivery list" where
  "consume_entry now dummy self_id cmd co =
     (case apply_command now dummy cmd (co_users co, co_channels co) of
        (reg, chans) \<Rightarrow>
          (case handle_failover_queue now self_id cmd reg (co_queue co) of
             (q, out) \<Rightarrow>
               (\<lparr>co_users = reg, co_channels = chans,
                 co_index = update_user_node_index cmd (co_index co), co_queue = q\<rparr>, out)))"


section \<open>The index of home nodes\<close>

lemma users_on_drop [simp]:
  "users_on_node (drop_home key node ix) n = (if n = node then removeAll key (users_on_node ix n) else users_on_node ix n)"
  by (auto simp: drop_home_def users_on_node_def split: option.split)

lemma user_to_node_drop [simp]: "user_to_node (drop_home key node ix) = user_to_node ix"
  by (auto simp: drop_home_def split: option.split)

definition index_inv :: "user_node_index \<Rightarrow> bool" where
  "index_inv ix \<longleftrightarrow> (\<forall>key node. hm_get (user_to_node ix) key = Some node \<longleftrightarrow> key \<in> set (users_on_node ix node))
     \<and> (\<forall>node. distinct (users_on_node ix node))"

lemma index_invD:
  assumes "index_inv ix"
  shows "hm_get (user_to_node ix) key = Some node \<longleftrightarrow> key \<in> set (users_on_node ix node)"
    "distinct (users_on_node ix node)"
  using assms unfolding index_inv_def by blast+

lemma index_inv_new: "index_inv user_node_index_new"
  by (simp add: index_inv_def user_node_index_new_def users_on_node_def)

lemma set_home_users:
  "users_on_node (set_home_node nick node ix) n =
     (let key = to_ascii_lowercase nick in
      if n = node then List.insert key (users_on_node ix n)
      else if hm_get (user_to_node ix) key = Some n then removeAll key (users_on_node ix n) else users_on_node ix n)"
  by (auto simp: set_home_node_def Let_def users_on_node_def drop_home_def split: option.splits)

lemma set_home_node_of [simp]:
  "hm_get (user_to_node (set_home_node nick node ix)) k =
     (if k = to_ascii_lowercase nick then Some node else hm_get (user_to_node ix) k)"
  by (auto simp: set_home_node_def Let_def split: option.split)

lemma index_inv_set_home:
  assumes "index_inv ix"
  shows "index_inv (set_home_node nick node ix)"
  unfolding index_inv_def
proof (intro conjI allI)
  fix k n
  show "hm_get (user_to_node (set_home_node nick node ix)) k = Some n \<longleftrightarrow>
      k \<in> set (users_on_node (set_home_node nick node ix) n)"
    using index_invD(1) [OF assms, of k n] index_invD(1) [OF assms, of "to_ascii_lowercase nick" n]
    by (auto simp: set_home_users Let_def)
qed (use index_invD(2) [OF assms] in \<open>auto simp: set_home_users Let_def distinct_removeAll\<close>)

lemma index_remove_of [simp]:
  "hm_get (user_to_node (index_remove_user nick ix)) k =
     (if k = to_ascii_lowercase nick then None else hm_get (user_to_node ix) k)"
  by (auto simp: index_remove_user_def Let_def split: option.split)

lemma index_inv_remove:
  assumes "index_inv ix"
  shows "index_inv (index_remove_user nick ix)"
proof -
  let ?k = "to_ascii_lowercase nick"
  have "users_on_node (index_remove_user nick ix) n = removeAll ?k (users_on_node ix n)" for n
    using index_invD(1) [OF assms, of ?k n]
    by (auto simp: index_remove_user_def Let_def users_on_node_def drop_home_def split: option.splits)
  then show ?thesis using assms by (auto simp: index_inv_def distinct_removeAll)
qed

lemma index_rename_of:
  "hm_get (user_to_node (index_rename_user old new ix)) k =
     (case hm_get (user_to_node ix) (to_ascii_lowercase old) of
        None \<Rightarrow> hm_get (user_to_node ix) k
      | Some node \<Rightarrow> if k = to_ascii_lowercase new then Some node
                    else if k = to_ascii_lowercase old then None else hm_get (user_to_node ix) k)"
  by (auto simp: index_rename_user_def Let_def split: option.split)

lemma index_inv_rename:
  assumes "index_inv ix"
    and new: "to_ascii_lowercase old = to_ascii_lowercase new \<or> hm_get (user_to_node ix) (to_ascii_lowercase new) = None"
  shows "index_inv (index_rename_user old new ix)"
proof (cases "hm_get (user_to_node ix) (to_ascii_lowercase old)")
  case None
  then show ?thesis using assms by (simp add: index_rename_user_def Let_def)
next
  case (Some node)
  let ?o = "to_ascii_lowercase old" and ?n = "to_ascii_lowercase new"
  have "?o \<in> set (users_on_node ix node)" using Some index_invD(1) [OF assms(1)] by simp
  then have u: "users_on_node (index_rename_user old new ix) n =
      (if n = node then List.insert ?n (removeAll ?o (users_on_node ix n)) else users_on_node ix n)" for n
    using Some by (auto simp: index_rename_user_def Let_def users_on_node_def split: option.splits)
  show ?thesis
    unfolding index_inv_def
  proof (intro conjI allI)
    fix k n
    show "hm_get (user_to_node (index_rename_user old new ix)) k = Some n \<longleftrightarrow>
        k \<in> set (users_on_node (index_rename_user old new ix) n)"
      using index_invD(1) [OF assms(1), of k n] index_invD(1) [OF assms(1), of ?o n]
        index_invD(1) [OF assms(1), of ?n n] Some new
      by (auto simp: index_rename_of u)
  qed (use index_invD(2) [OF assms(1)] in \<open>auto simp: u distinct_removeAll\<close>)
qed

text \<open>The commands that the index follows exactly, in a replicated state \<open>s\<close>.\<close>

fun home_ok :: "cluster_command \<Rightarrow> cluster_state \<Rightarrow> bool" where
  "home_ok (UserRegistered _ nickname _ _ _ _ _) s \<longleftrightarrow> get_user s nickname = None"
| "home_ok (NickChanged old_nick new_nick) s \<longleftrightarrow>
     to_ascii_lowercase old_nick = to_ascii_lowercase new_nick \<or> get_user s new_nick = None"
| "home_ok (UserMigrated nickname _ _) s \<longleftrightarrow> get_user s nickname \<noteq> None"
| "home_ok _ s \<longleftrightarrow> True"

definition homes_agree :: "user_node_index \<Rightarrow> cluster_state \<Rightarrow> bool" where
  "homes_agree ix s \<longleftrightarrow> index_inv ix
     \<and> (\<forall>k. hm_get (user_to_node ix) k = (case hm_get (cs_users s) k of None \<Rightarrow> None | Some u \<Rightarrow> ru_home_node u))"

lemma homes_agree_cong:
  "homes_agree ix s \<Longrightarrow> (\<And>k. map_option ru_home_node (hm_get (cs_users s') k) = map_option ru_home_node (hm_get (cs_users s) k))
    \<Longrightarrow> homes_agree ix s'"
  unfolding homes_agree_def by (auto split: option.splits) (metis option.map_disc_iff option.simps(9) option.inject)+


lemma cluster_apply_users:
  "hm_get (cs_users (apply_nick_changed old new s)) k =
     (case hm_get (cs_users s) (to_ascii_lowercase old) of
        None \<Rightarrow> hm_get (cs_users s) k
      | Some u \<Rightarrow> if k = to_ascii_lowercase new then Some (u\<lparr>ru_nickname := new\<rparr>)
                 else if k = to_ascii_lowercase old then None else hm_get (cs_users s) k)"
  "hm_get (cs_users (remove_user nick s)) k = (if k = to_ascii_lowercase nick then None else hm_get (cs_users s) k)"
  "cs_users (remove_member_from_channel c nick s) = cs_users s"
  "cs_users (apply_channel_mode_changed c a r key l ch s) = cs_users s"
  by (auto simp: apply_nick_changed_def remove_user_def remove_user_from_all_channels_def
      remove_member_from_channel_def apply_channel_mode_changed_def Let_def split: option.split)

text \<open>
  The index of home nodes follows the replicated state: if it agrees with the home nodes recorded there, it still does
  after every committed command, provided that registrations are for new nicknames, renamings go to
  free ones and migrations concern registered users; and then the users listed for a node are
  exactly those whose home it is.
\<close>

theorem home_index_follows_state:
  assumes agree: "homes_agree ix s" and ok: "home_ok cmd s"
  shows "homes_agree (update_user_node_index cmd ix) (cluster_apply cmd s)"
proof -
  have inv: "index_inv ix"
    and h: "\<And>k. hm_get (user_to_node ix) k = (case hm_get (cs_users s) k of None \<Rightarrow> None | Some u \<Rightarrow> ru_home_node u)"
    using agree by (simp_all add: homes_agree_def)
  show ?thesis
  proof (cases cmd)
    case (UserRegistered conn nick un rn hn st home)
    then show ?thesis using ok inv h
      by (cases home) (auto simp: homes_agree_def index_inv_set_home apply_user_registered_def get_user_def)
  next
    case (NickChanged old new)
    have "index_inv (index_rename_user old new ix)"
      using ok h NickChanged by (intro index_inv_rename [OF inv]) (auto simp: get_user_def)
    then show ?thesis
      using NickChanged ok h
      by (auto simp: homes_agree_def index_rename_of cluster_apply_users get_user_def split: option.splits)
  next
    case (UserMigrated nick from_node to_node)
    then show ?thesis using ok inv h
      by (auto simp: homes_agree_def index_inv_set_home get_user_def)
  qed (use inv h in \<open>auto simp: homes_agree_def index_inv_remove cluster_apply_users split: option.split\<close>)
qed

definition sample_index_state :: "user_node_index \<times> cluster_state" where
  "sample_index_state =
     (let cmd = UserRegistered 1 ''Alice'' ''a'' ''A'' ''h'' 0 (Some 7) in
      (update_user_node_index cmd user_node_index_new, cluster_apply cmd cluster_state_new))"

lemma homes_agree_new: "homes_agree user_node_index_new cluster_state_new"
  by (simp add: homes_agree_def index_inv_new) (simp add: user_node_index_new_def cluster_state_new_def)

theorem home_index_follows_state_witness:
  "homes_agree (update_user_node_index (UserRegistered 1 ''Alice'' ''a'' ''A'' ''h'' 0 (Some 7)) user_node_index_new)
     (cluster_apply (UserRegistered 1 ''Alice'' ''a'' ''A'' ''h'' 0 (Some 7)) cluster_state_new)
   \<and> users_on_node (fst sample_index_state) 7 = [''alice'']"
proof
  show "homes_agree (update_user_node_index (UserRegistered 1 ''Alice'' ''a'' ''A'' ''h'' 0 (Some 7)) user_node_index_new)
     (cluster_apply (UserRegistered 1 ''Alice'' ''a'' ''A'' ''h'' 0 (Some 7)) cluster_state_new)"
    by (rule home_index_follows_state [OF homes_agree_new]) (simp add: get_user_def cluster_state_new_def)
qed code_simp

section \<open>Migration empties the failed node\<close>

lemma update_index_migrated:
  "update_user_node_index (UserMigrated n f t) ix = set_home_node n t ix" by simp

lemma migrate_all:
  assumes "index_inv ix" "\<And>n t. (n, t) \<in> set ps \<Longrightarrow> to_ascii_lowercase n = n \<and> t \<noteq> failed"
    and "set (users_on_node ix failed) \<subseteq> fst ` set ps"
  shows "index_inv (fold (\<lambda>(n, t). set_home_node n t) ps ix)
    \<and> users_on_node (fold (\<lambda>(n, t). set_home_node n t) ps ix) failed = []"
  using assms
proof (induction ps arbitrary: ix)
  case (Cons p ps)
  obtain n t where p: "p = (n, t)" by force
  have low: "to_ascii_lowercase n = n" "t \<noteq> failed" using Cons.prems(2) p by auto
  have u: "set (users_on_node (set_home_node n t ix) failed) = set (users_on_node ix failed) - {n}"
    using low index_invD(1) [OF Cons.prems(1), of n failed] by (auto simp: set_home_users Let_def)
  have step: "index_inv (set_home_node n t ix)" "set (users_on_node (set_home_node n t ix) failed) \<subseteq> fst ` set ps"
    using index_inv_set_home [OF Cons.prems(1)] Cons.prems(3) p u by auto
  have "to_ascii_lowercase n' = n' \<and> t' \<noteq> failed" if "(n', t') \<in> set ps" for n' t'
    using Cons.prems(2) [of n' t'] that by simp
  from Cons.IH [OF step(1) this step(2)] show ?case by (simp add: p)
qed auto

lemma surviving_nodes_set:
  "set (surviving_nodes self_id peer_ids failed) = (set peer_ids \<union> {self_id}) - {failed}"
  by (auto simp: surviving_nodes_def)

lemma fold_proposals:
  "fold update_user_node_index (map (\<lambda>(i, n). UserMigrated n f (g i)) xs) ix =
     fold (\<lambda>(n, t). set_home_node n t) (map (\<lambda>(i, n). (n, g i)) xs) ix"
  by (induction xs arbitrary: ix) (auto simp: case_prod_beta)

text \<open>
  C40. When a node fails, the leader moves all its users away: the proposals name every user of the failed node
  once, send each to another member of the cluster, and once they are committed no user is at home
  on the failed node; on a node that is not the leader nothing is proposed.
\<close>

theorem migration_empties_failed_node:
  assumes inv: "index_inv ix" and low: "\<forall>n \<in> set (users_on_node ix failed). to_ascii_lowercase n = n"
    and other: "set peer_ids \<union> {self_id} \<noteq> {failed}"
  shows "migration_step False self_id peer_ids ix (NodeDown failed) = []
    \<and> (\<exists>ts. migration_step True self_id peer_ids ix (NodeDown failed) =
         map2 (\<lambda>n t. UserMigrated n failed t) (users_on_node ix failed) ts
       \<and> length ts = length (users_on_node ix failed)
       \<and> set ts \<subseteq> (set peer_ids \<union> {self_id}) - {failed})
    \<and> users_on_node (fold update_user_node_index (migration_step True self_id peer_ids ix (NodeDown failed)) ix) failed = []"
proof -
  let ?us = "users_on_node ix failed" and ?sv = "surviving_nodes self_id peer_ids failed"
  let ?g = "\<lambda>i. ?sv ! (i mod length ?sv)"
  have ne: "?sv \<noteq> []" using other surviving_nodes_set [of self_id peer_ids failed] by fastforce
  have g: "?g i \<in> (set peer_ids \<union> {self_id}) - {failed}" for i
    using ne surviving_nodes_set [of self_id peer_ids failed] nth_mem [of "i mod length ?sv" ?sv] by simp
  have m: "migration_step True self_id peer_ids ix (NodeDown failed) =
      map (\<lambda>(i, n). UserMigrated n failed (?g i)) (List.enumerate 0 ?us)"
    using ne by (simp add: migration_step_def Let_def migration_proposals_def)
  have E: "migration_step True self_id peer_ids ix (NodeDown failed) =
      map2 (\<lambda>n t. UserMigrated n failed t) ?us (map ?g [0..<length ?us])"
    unfolding m by (rule nth_equalityI) (simp_all add: nth_enumerate_eq)
  have T: "set (map ?g [0..<length ?us]) \<subseteq> (set peer_ids \<union> {self_id}) - {failed}" using g by auto
  have "map fst (map (\<lambda>(i, n). (n, ?g i)) (List.enumerate 0 ?us)) = ?us"
    by (rule nth_equalityI) (simp_all add: nth_enumerate_eq)
  then have "fst ` set (map (\<lambda>(i, n). (n, ?g i)) (List.enumerate 0 ?us)) = set ?us" by (metis set_map)
  then have U: "users_on_node (fold (\<lambda>(n, t). set_home_node n t) (map (\<lambda>(i, n). (n, ?g i)) (List.enumerate 0 ?us)) ix) failed = []"
    using low g by (intro migrate_all [OF inv, THEN conjunct2]) (auto simp: in_set_enumerate_eq)
  show ?thesis
  proof (intro conjI exI)
    show "migration_step False self_id peer_ids ix (NodeDown failed) = []" by (simp add: migration_step_def)
    show "users_on_node (fold update_user_node_index (migration_step True self_id peer_ids ix (NodeDown failed)) ix) failed = []"
      unfolding m fold_proposals by (rule U)
  qed (rule E, simp, rule T)
qed


theorem migration_empties_failed_node_witness:
  "users_on_node (fold update_user_node_index
     (migration_step True 1 [2, 7] (fst sample_index_state) (NodeDown 7)) (fst sample_index_state)) 7 = []
   \<and> users_on_node (fst sample_index_state) 7 = [''alice'']"
proof -
  have inv: "index_inv (fst sample_index_state)"
    by (simp add: sample_index_state_def index_inv_set_home index_inv_new)
  have u: "users_on_node (fst sample_index_state) 7 = [''alice'']" by code_simp
  have "to_ascii_lowercase ''alice'' = ''alice''" by code_simp
  then show ?thesis using migration_empties_failed_node [OF inv, of 7 "[2, 7]" 1] u by simp
qed

section \<open>The failover queue\<close>

lemma fq_get_enqueue:
  "fq_get (snd (fq_enqueue nick m now q)) k =
     (if k = to_ascii_lowercase nick
      then (if length (fq_get q k) \<ge> fq_max_per_user q then tl (fq_get q k) else fq_get q k)
             @ [\<lparr>bm_message = m, bm_enqueued_at = now\<rparr>]
      else fq_get q k)"
  by (simp add: fq_enqueue_def Let_def fq_get_def)

lemma fq_enqueue_frame [simp]:
  "fq_max_per_user (snd (fq_enqueue nick m now q)) = fq_max_per_user q" "fq_ttl (snd (fq_enqueue nick m now q)) = fq_ttl q"
  by (simp_all add: fq_enqueue_def Let_def)

definition enqueue_all :: "string \<Rightarrow> (message \<times> nat) list \<Rightarrow> failover_queue \<Rightarrow> failover_queue" where
  "enqueue_all nick ms q = fold (\<lambda>(m, t) q. snd (fq_enqueue nick m t q)) ms q"

definition last_n :: "nat \<Rightarrow> 'a list \<Rightarrow> 'a list" where
  "last_n k xs = drop (length xs - k) xs"

lemma last_n_snoc: "0 < k \<Longrightarrow> last_n k (xs @ [x]) = (if length (last_n k xs) \<ge> k then tl (last_n k xs) else last_n k xs) @ [x]"
  by (auto simp: last_n_def tl_drop drop_Suc [symmetric] Suc_diff_le not_le)

lemma enqueue_all_frame [simp]:
  "fq_max_per_user (enqueue_all nick ms q) = fq_max_per_user q" "fq_ttl (enqueue_all nick ms q) = fq_ttl q"
  by (induction ms arbitrary: q) (auto simp: enqueue_all_def)

lemma enqueue_all_get:
  assumes "0 < fq_max_per_user q" "fq_get q (to_ascii_lowercase nick) = []"
  shows "fq_get (enqueue_all nick ms q) (to_ascii_lowercase nick) =
    last_n (fq_max_per_user q) (map (\<lambda>(m, t). \<lparr>bm_message = m, bm_enqueued_at = t\<rparr>) ms)"
proof (induction ms rule: rev_induct)
  case Nil
  then show ?case using assms by (simp add: enqueue_all_def last_n_def)
next
  case (snoc p ms)
  obtain m t where p: "p = (m, t)" by force
  have "enqueue_all nick (ms @ [p]) q = snd (fq_enqueue nick m t (enqueue_all nick ms q))"
    by (simp add: enqueue_all_def p)
  then show ?case using snoc assms by (simp add: fq_get_enqueue p last_n_snoc)
qed

lemma fq_drain_get:
  "fst (fq_drain nick now q) = map bm_message (filter (bm_fresh q now) (fq_get q (to_ascii_lowercase nick)))"
  "fq_get (snd (fq_drain nick now q)) k = (if k = to_ascii_lowercase nick then [] else fq_get q k)"
  by (auto simp: fq_drain_def fq_get_def Let_def split: option.split)

text \<open>
  A user in migration finds the newest messages: of the messages queued for a nickname, in any spelling, the queue keeps the last ones up to its
  capacity, and draining returns those of them that have not expired, in their order; the queue is
  empty afterwards and the queues of the other users are as they were.
\<close>

theorem failover_queue_keeps_newest:
  assumes cap: "0 < fq_max_per_user q" and e: "fq_message_count q nick = 0"
    and n: "to_ascii_lowercase nick' = to_ascii_lowercase nick"
  shows "fst (fq_drain nick' now (enqueue_all nick ms q)) =
      map fst (filter (\<lambda>(m, t). now - t < fq_ttl q) (last_n (fq_max_per_user q) ms))
    \<and> fq_message_count (enqueue_all nick ms q) nick' \<le> fq_max_per_user q
    \<and> fq_message_count (snd (fq_drain nick' now (enqueue_all nick ms q))) nick' = 0
    \<and> (to_ascii_lowercase k \<noteq> to_ascii_lowercase nick \<longrightarrow>
         fst (fq_drain k now (snd (fq_drain nick' now (enqueue_all nick ms q)))) = fst (fq_drain k now q))"
proof -
  let ?k = "to_ascii_lowercase nick"
  have e': "fq_get q ?k = []" using e by (simp add: fq_message_count_def)
  note G = enqueue_all_get [OF cap e', of ms]
  have fresh: "bm_fresh (enqueue_all nick ms q) = bm_fresh q" "bm_fresh (snd (fq_drain nick' now (enqueue_all nick ms q))) = bm_fresh q"
    by (auto simp: bm_fresh_def fun_eq_iff fq_drain_def Let_def split: option.split)
  have o: "fq_get (enqueue_all nick ms q) j = fq_get q j" if "j \<noteq> ?k" for j
    using that by (induction ms rule: rev_induct) (auto simp: enqueue_all_def fq_get_enqueue)
  have "map bm_message (filter (bm_fresh q now) (last_n c (map (\<lambda>(m, t). \<lparr>bm_message = m, bm_enqueued_at = t\<rparr>) ms))) =
      map fst (filter (\<lambda>(m, t). now - t < fq_ttl q) (last_n c ms))" for c
    by (simp add: last_n_def drop_map filter_map comp_def bm_fresh_def case_prod_unfold)
  then show ?thesis using G n o
    by (simp add: fq_drain_get fresh fq_message_count_def) (simp add: last_n_def)
qed

theorem failover_queue_keeps_newest_witness:
  "let q = failover_queue_new 2 60; m = (\<lambda>t. message_new Privmsg [''alice'', t]) in
   fst (fq_drain ''ALICE'' 50 (enqueue_all ''Alice'' [(m ''1'', 1), (m ''2'', 2), (m ''3'', 3)] q)) = [m ''2'', m ''3'']"
proof -
  have "to_ascii_lowercase ''ALICE'' = to_ascii_lowercase ''Alice''" by code_simp
  then show ?thesis
    using failover_queue_keeps_newest [of "failover_queue_new 2 60" "''Alice''" "''ALICE''" 50
        "[(message_new Privmsg [''alice'', ''1''], 1), (message_new Privmsg [''alice'', ''2''], 2),
          (message_new Privmsg [''alice'', ''3''], 3)]" "''bob''"]
    by (simp add: Let_def failover_queue_new_def fq_message_count_def fq_get_def last_n_def)
qed


section \<open>The commit consumer\<close>

lemma with_nick_cong:
  "(\<And>n. nickname_new nick = Ok n \<Longrightarrow> f n = g n) \<Longrightarrow> u = v \<Longrightarrow> with_nick nick f u = with_nick nick g v"
  by (simp add: with_nick_def split: sum.split)

lemma alist_update_twice: "AList.update a x (AList.update a y m) = AList.update a x m"
  by (induction m) auto

lemma alist_update_same: "map_of m a = Some x \<Longrightarrow> AList.update a x m = m"
  by (induction m) (auto split: if_splits)

lemma ci_insert_twice: "ci_insert k v (ci_insert k w m) = ci_insert k v m"
  by (auto simp: ci_insert_def Let_def alist_update_twice split: option.split)

lemma ci_insert_same:
  assumes "ci_get m k = Some v"
  shows "ci_insert k v m = m"
proof -
  obtain k0 where k0: "hm_get m (to_ascii_lowercase k) = Some (k0, v)"
    using assms by (auto simp: ci_get_def)
  then show ?thesis by (simp add: ci_insert_def Let_def alist_update_same)
qed

lemma ci_update_idem: "(\<And>v. f (f v) = f v) \<Longrightarrow> ci_update k f (ci_update k f m) = ci_update k f m"
  by (auto simp: ci_update_def ci_insert_twice split: option.split)

lemma local_nick_changed_idem:
  "local_nick_changed old new (local_nick_changed old new reg) = local_nick_changed old new reg"
proof -
  have "(if get_by_nick (snd (change_nick a b reg)) a = None then snd (change_nick a b reg)
         else snd (change_nick a b (snd (change_nick a b reg)))) = snd (change_nick a b reg)"
    for a b
  proof (cases "nickname_eq a b")
    case True
    have "ci_update a (\<lambda>s. s\<lparr>us_nickname := b\<rparr>) (ci_update a (\<lambda>s. s\<lparr>us_nickname := b\<rparr>) m)
        = ci_update a (\<lambda>s. s\<lparr>us_nickname := b\<rparr>) m" for m :: "user_session ci_map" by (rule ci_update_idem) simp
    then show ?thesis using True by (simp add: change_nick_def)
  next
    case False
    then show ?thesis
      by (auto simp: change_nick_def get_by_nick_def nickname_eq_sym split: option.split)
  qed
  then show ?thesis by (auto simp: local_nick_changed_def with_nick_def split: sum.split)
qed

lemma get_by_nick_removed:
  assumes "registry_inv reg" "get_by_nick reg n = Some s"
  shows "get_by_nick (snd (remove_by_connection (us_connection_id s) reg)) n = None"
proof -
  obtain k where "hm_get (by_connection reg) (us_connection_id s) = Some k" "nickname_eq k n"
    using nicks.linkedD(3) [OF registry_invD(2) [OF assms(1)]] assms(2) by (auto simp: get_by_nick_def)
  then show ?thesis using assms(2) ci_get_ci [of k n "by_nick reg"]
    by (simp add: remove_by_connection_def Let_def get_by_nick_def)
qed

lemma settle_ban:
  "local_ban_added m w t (local_ban_added m w t ch) = local_ban_added m w t ch"
  by (auto simp: local_ban_added_def)


text \<open>A status change as an update of the values, so that a list of changes can be applied twice.\<close>

definition new_status :: "string \<Rightarrow> string \<times> string \<Rightarrow> member_status \<Rightarrow> member_status" where
  "new_status key c v =
     (case nickname_new (fst c) of Err _ \<Rightarrow> v
      | Ok nick \<Rightarrow> if to_ascii_lowercase nick = key then parse_member_status (snd c) else v)"

lemma alist_update_map:
  "hm_wf m \<Longrightarrow> map_of m a \<noteq> None \<Longrightarrow> AList.update a x m = map (\<lambda>(k, v). (k, if k = a then x else v)) m"
proof (induction m)
  case (Cons p m)
  have "map (\<lambda>(k, v). (k, if k = a then x else v)) m = m" if "a \<notin> fst ` set m"
    using that by (induction m) auto
  then show ?case using Cons by (cases p) (auto split: if_splits)
qed simp

lemma set_status_map:
  assumes "ci_wf ms"
  shows "set_status c ms = map (\<lambda>(key, k, v). (key, k, new_status key c v)) ms"
proof (cases "nickname_new (fst c)")
  case (Inl e)
  then show ?thesis by (cases c) (simp add: new_status_def)
next
  case (Inr nick)
  obtain a b where c: "c = (a, b)" by force
  let ?key = "to_ascii_lowercase nick"
  show ?thesis
  proof (cases "hm_get ms ?key")
    case None
    then have "?key \<notin> fst ` set ms" by (simp add: map_of_eq_None_iff)
    then have "map (\<lambda>(key, k, v). (key, k, new_status key c v)) ms = ms"
      using Inr by (intro map_idI) (auto simp: new_status_def image_iff)
    then show ?thesis using None Inr c by (simp add: ci_contains_def ci_get_def)
  next
    case (Some p)
    obtain k0 v0 where p: "p = (k0, v0)" by force
    have "(key = ?key) \<longrightarrow> k = k0" if "(key, k, v) \<in> set ms" for key k v
    proof -
      have "map_of ms key = Some (k, v)" using that ci_wfD [OF assms] by (rule map_of_is_SomeI [rotated])
      then show ?thesis using Some p by auto
    qed
    then have "map (\<lambda>(key, kv). (key, if key = ?key then (k0, parse_member_status b) else kv)) ms
        = map (\<lambda>(key, k, v). (key, k, new_status key c v)) ms"
      using Inr c by (intro map_cong) (auto simp: new_status_def)
    then show ?thesis
      using Some p Inr c alist_update_map [OF ci_wfD [OF assms], of ?key "(k0, parse_member_status b)"]
      by (simp add: ci_contains_def ci_get_def ci_insert_def Let_def)
  qed
qed

lemma fold_set_status:
  "ci_wf ms \<Longrightarrow> fold set_status cs ms = map (\<lambda>(key, k, v). (key, k, fold (new_status key) cs v)) ms
     \<and> ci_wf (fold set_status cs ms)"
proof (induction cs arbitrary: ms)
  case (Cons c cs)
  have "ci_wf (set_status c ms)" using Cons.prems by (cases c) (auto split: sum.split)
  note IH = Cons.IH [OF this]
  have "fold set_status (c # cs) ms = map (\<lambda>(key, k, v). (key, k, fold (new_status key) (c # cs) v)) ms"
    using IH [THEN conjunct1] unfolding set_status_map [OF Cons.prems, of c]
    by (simp add: comp_def case_prod_unfold set_status_map [OF Cons.prems, of c])
  moreover have "ci_wf (fold set_status (c # cs) ms)" using IH [THEN conjunct2] by (simp only: fold_simps)
  ultimately show ?case by blast
qed (simp add: map_idI)

lemma fold_new_status_twice: "fold (new_status key) cs (fold (new_status key) cs v) = fold (new_status key) cs v"
proof (induction cs arbitrary: v rule: rev_induct)
  case (snoc c cs)
  have "(\<forall>w. new_status key c w = w) \<or> (\<exists>x. \<forall>w. new_status key c w = x)"
    by (auto simp: new_status_def split: sum.split)
  then show ?case using snoc by auto
qed simp

lemma fold_set_status_twice:
  assumes "ci_wf ms"
  shows "fold set_status cs (fold set_status cs ms) = fold set_status cs ms"
proof -
  note once = fold_set_status [OF assms, of cs]
  have "fold set_status cs (fold set_status cs ms) = map (\<lambda>(key, k, v). (key, k, fold (new_status key) cs v)) (fold set_status cs ms)"
    by (rule fold_set_status [OF once [THEN conjunct2], THEN conjunct1])
  also have "\<dots> = fold set_status cs ms"
    unfolding once [THEN conjunct1] by (simp add: comp_def case_prod_unfold fold_new_status_twice)
  finally show ?thesis .
qed

lemma fold_insert_prefix:
  "\<exists>xs. fold List.insert as ms = xs @ ms \<and> set xs = set as - set ms"
proof (induction as arbitrary: ms rule: rev_induct)
  case (snoc a as)
  then obtain xs where xs: "fold List.insert as ms = xs @ ms" "set xs = set as - set ms" by blast
  have f: "fold List.insert (as @ [a]) ms = List.insert a (xs @ ms)" using xs(1) by simp
  show ?case
  proof (cases "a \<in> set (xs @ ms)")
    case True
    then have "fold List.insert (as @ [a]) ms = xs @ ms" unfolding f by (simp add: List.insert_def)
    then show ?thesis using True xs(2) by (intro exI [of _ xs]) auto
  next
    case False
    then have "fold List.insert (as @ [a]) ms = (a # xs) @ ms" unfolding f by (simp add: List.insert_def)
    then show ?thesis using False xs(2) by (intro exI [of _ "a # xs"]) auto
  qed
qed simp

lemma fold_removeAll: "fold removeAll rs ms = filter (\<lambda>x. x \<notin> set rs) ms"
  by (induction rs arbitrary: ms) (auto simp: removeAll_filter_not_eq intro: filter_cong)

lemma modes_twice:
  "fold removeAll rs (fold List.insert as (fold removeAll rs (fold List.insert as ms))) = fold removeAll rs (fold List.insert as ms)"
proof -
  let ?m = "fold removeAll rs (fold List.insert as ms)"
  obtain ys where ys: "fold List.insert as ms = ys @ ms" "set ys = set as - set ms"
    using fold_insert_prefix [of as ms] by auto
  have sub: "set as - set rs \<subseteq> set ?m" "set ?m \<inter> set rs = {}"
    unfolding fold_removeAll ys(1) using ys(2) by auto
  obtain xs where xs: "fold List.insert as ?m = xs @ ?m" "set xs = set as - set ?m"
    using fold_insert_prefix [of as ?m] by (elim exE conjE)
  have "filter (\<lambda>x. x \<notin> set rs) xs = []" unfolding filter_empty_conv using xs(2) sub by blast
  moreover have "filter (\<lambda>x. x \<notin> set rs) ?m = ?m" by (rule filter_True) (use sub(2) in blast)
  ultimately show ?thesis unfolding xs(1) fold_removeAll [of rs "xs @ ?m"] filter_append by (simp only: append_Nil)
qed


lemma update_chan_idem: "(\<And>ch. f (f ch) = f ch) \<Longrightarrow> update_chan c f (update_chan c f chans) = update_chan c f chans"
  by (simp add: update_chan_def with_chan_def ci_update_idem split: sum.split)

lemma update_nick_idem: "(\<And>s. f (f s) = f s) \<Longrightarrow> update_nick n f (update_nick n f reg) = update_nick n f reg"
  by (simp add: update_nick_def with_nick_def ci_update_idem split: sum.split)

lemma part_member_twice: "ci_get (part_member n k chans) k \<noteq> None \<Longrightarrow>
    part_member n k (part_member n k chans) = part_member n k chans"
proof -
  assume "ci_get (part_member n k chans) k \<noteq> None"
  then obtain ch where ch: "ci_get (part_member n k chans) k = Some (ch\<lparr>ch_members := ci_remove n (ch_members ch)\<rparr>)"
      "ci_remove n (ch_members ch) \<noteq> []"
    by (auto simp: part_member_get split: option.splits if_splits)
  then have "ci_update k (\<lambda>c. c\<lparr>ch_members := ci_remove n (ch_members c)\<rparr>) (part_member n k chans) = part_member n k chans"
    by (simp add: ci_update_def ci_insert_same AList.delete_idem ci_remove_def)
  then show ?thesis
    using ch by (simp add: part_member_def [of n k "part_member n k chans"] channels_remove_if_empty_def channel_is_empty_def)
qed

lemma joined_twice: "local_channel_joined now2 n c st (local_channel_joined now1 n c st chans) = local_channel_joined now1 n c st chans"
  by (auto simp: local_channel_joined_def with_nick_def with_chan_def get_or_create_cases ci_contains_def
      split: sum.split option.split)

lemma parted_twice: "local_channel_parted n c (local_channel_parted n c chans) = local_channel_parted n c chans"
  by (auto simp: local_channel_parted_def with_nick_def with_chan_def channels_get_def
      intro!: part_member_twice split: sum.split option.split)

lemma registered_twice:
  "local_user_registered now2 d2 c n u r h t (local_user_registered now1 d1 c n u r h t reg) = local_user_registered now1 d1 c n u r h t reg"
  by (auto simp: local_user_registered_def with_nick_def nick_in_use_def register_def Let_def ci_contains_def
      remote_session_def split: sum.split)

lemma quit_twice:
  assumes "registry_inv reg"
  shows "(case local_user_quit n reg chans of (r, c) \<Rightarrow> local_user_quit n r c) = local_user_quit n reg chans"
  using get_by_nick_removed [OF assms]
  by (auto simp: local_user_quit_def with_nick_def Let_def split: sum.split option.split)

lemma migrated_twice:
  assumes "registry_inv reg"
  shows "local_user_migrated n (local_user_migrated n reg) = local_user_migrated n reg"
  using get_by_nick_removed [OF assms]
  by (auto simp: local_user_migrated_def with_nick_def split: sum.split option.split)


lemma user_mode_twice:
  "local_user_mode_changed a r (local_user_mode_changed a r s) = local_user_mode_changed a r s"
proof -
  have "((M \<union> A) - R \<union> A) - R = (M \<union> A) - R" for M A R :: "user_mode set" by blast
  then show ?thesis by (simp add: local_user_mode_changed_def)
qed

lemma mode_changed_twice:
  assumes "channels_inv chans"
  shows "update_chan c (local_channel_mode_changed a r k l cs) (update_chan c (local_channel_mode_changed a r k l cs) chans)
    = update_chan c (local_channel_mode_changed a r k l cs) chans"
proof -
  let ?f = "local_channel_mode_changed a r k l cs"
  have "?f (?f ch) = ?f ch" if "ci_wf (ch_members ch)" for ch
    using fold_set_status_twice [OF that, of cs]
    by (simp add: local_channel_mode_changed_def modes_twice split: option.split)
  then have "ci_update n ?f (ci_update n ?f chans) = ci_update n ?f chans" for n
    using channels_invD(2) [OF assms, of n]
    by (auto simp: ci_update_def ci_insert_twice chan_wf_def split: option.split)
  then show ?thesis by (simp add: update_chan_def with_chan_def split: sum.split)
qed

text \<open>
  Applying a committed command to the local tables is idempotent, as the source says: on consistent tables, applying the
  command again, at any later time, changes nothing.
\<close>

theorem apply_command_idempotent:
  assumes "registry_inv reg" "channels_inv chans"
  shows "apply_command now' dummy' cmd (apply_command now dummy cmd (reg, chans)) = apply_command now dummy cmd (reg, chans)"
proof (cases cmd)
  case (UserQuit n r)
  then show ?thesis using quit_twice [OF assms(1), of n chans] by (auto split: prod.splits)
next
  case (UserKilled n r)
  then show ?thesis using quit_twice [OF assms(1), of n chans] by (auto split: prod.splits)
next
  case (InviteAdded c n)
  have "update_chan c (\<lambda>ch. ch\<lparr>ch_invite_list := ci_insert k () (ch_invite_list ch)\<rparr>)
      (update_chan c (\<lambda>ch. ch\<lparr>ch_invite_list := ci_insert k () (ch_invite_list ch)\<rparr>) chans)
      = update_chan c (\<lambda>ch. ch\<lparr>ch_invite_list := ci_insert k () (ch_invite_list ch)\<rparr>) chans" for k
    by (rule update_chan_idem) (simp add: ci_insert_twice)
  then show ?thesis using InviteAdded by (simp add: with_nick_def split: sum.split)
qed (use assms in \<open>auto simp: registered_twice local_nick_changed_idem update_nick_idem joined_twice parted_twice
      update_chan_idem mode_changed_twice settle_ban migrated_twice user_mode_twice\<close>)

theorem apply_command_idempotent_witness:
  "let cmd = ChannelJoined ''alice'' ''#a'' ''operator'' in
   apply_command 9 9 cmd (apply_command 5 5 cmd (user_registry_new, [])) = apply_command 5 5 cmd (user_registry_new, [])"
  using apply_command_idempotent [OF registry_inv_new, of "[]" 9 9 "ChannelJoined ''alice'' ''#a'' ''operator''" 5 5]
  by (simp add: channels_inv_def)

text \<open>
  Connection numbers are not unique in a cluster: they count the connections of one node, and a committed registration
  of a user on another node whose connection has the number of a local connection takes the
  place of the local user. From then on the commands of the local connection run in the name of
  the remote user.
\<close>

theorem remote_registration_takes_connection:
  assumes "get_by_connection reg conn = Some s" "nickname_new nickname = Ok nick" "\<not> nick_in_use reg nick"
  shows "get_by_connection (fst (apply_command now dummy
      (UserRegistered conn nickname username realname hostname signon_time home) (reg, chans))) conn
    = Some (remote_session now dummy conn nick username realname hostname signon_time)"
  using assms
  by (simp add: local_user_registered_def with_nick_def register_def Let_def nick_in_use_def get_by_connection_def
      remote_session_def)

theorem remote_registration_takes_connection_witness:
  "map_option us_nickname (get_by_connection (fst (apply_command 0 0
      (UserRegistered 1 ''mallory'' ''m'' ''m'' ''h'' 0 (Some 2)) (sv_users (w_server two_users), []))) 1)
    = Some ''mallory''
   \<and> map_option us_nickname (get_by_connection (sv_users (w_server two_users)) 1) = Some ''alice''"
proof -
  have a: "map_option us_nickname (get_by_connection (sv_users (w_server two_users)) 1) = Some ''alice''" by code_simp
  then obtain s where s: "get_by_connection (sv_users (w_server two_users)) 1 = Some s" by auto
  have n: "nickname_new ''mallory'' = Ok ''mallory''" by code_simp
  have u: "\<not> nick_in_use (sv_users (w_server two_users)) ''mallory''" by code_simp
  show ?thesis using remote_registration_takes_connection [OF s n u] a by (simp add: remote_session_def)
qed

end
