(* ===== verification/Bytes.thy ===== *)
theory Bytes
  imports Prelude
begin

text \<open>
  Byte vectors, which the key formats, the ratchet messages and the peer-to-peer protocols share:
  integers as bytes in either order, hexadecimal numerals, strings as their bytes and the lossy
  conversion back.
\<close>

unbundle bit_operations_syntax

type_synonym bytes = "8 word list"
type_synonym u16 = "16 word"
type_synonym u32 = "32 word"
type_synonym u64 = "64 word"

section \<open>Integers as bytes\<close>

definition u16_to_be :: "u16 \<Rightarrow> bytes" where
  "u16_to_be w = [ucast (drop_bit 8 w), ucast w]"

definition u32_to_be :: "u32 \<Rightarrow> bytes" where
  "u32_to_be w = map (\<lambda>i. ucast (drop_bit (8 * i) w)) [3, 2, 1, 0]"

definition u32_to_le :: "u32 \<Rightarrow> bytes" where
  "u32_to_le w = rev (u32_to_be w)"

definition u64_to_le :: "u64 \<Rightarrow> bytes" where
  "u64_to_le w = map (\<lambda>i. ucast (drop_bit (8 * i) w)) [0, 1, 2, 3, 4, 5, 6, 7]"

text \<open>Reading the first bytes of a slice, the most significant one first or last.\<close>

definition from_bytes_be :: "bytes \<Rightarrow> 'a::len word" where
  "from_bytes_be bs = foldl (\<lambda>w b. push_bit 8 w OR ucast b) 0 bs"

definition u16_from_be :: "bytes \<Rightarrow> u16" where "u16_from_be bs = from_bytes_be (take 2 bs)"
definition u32_from_be :: "bytes \<Rightarrow> u32" where "u32_from_be bs = from_bytes_be (take 4 bs)"
definition u32_from_le :: "bytes \<Rightarrow> u32" where "u32_from_le bs = from_bytes_be (rev (take 4 bs))"
definition u64_from_le :: "bytes \<Rightarrow> u64" where "u64_from_le bs = from_bytes_be (rev (take 8 bs))"

lemma u16_bytes_length [simp]: "length (u16_to_be w) = 2"
  by (simp add: u16_to_be_def)

lemma u32_bytes_length [simp]: "length (u32_to_be w) = 4" "length (u32_to_le w) = 4"
  by (simp_all add: u32_to_be_def u32_to_le_def)

lemma u64_bytes_length [simp]: "length (u64_to_le w) = 8"
  by (simp add: u64_to_le_def)

lemma push_low_byte:
  fixes w :: "'a::len word"
  shows "push_bit 8 (drop_bit 8 w) OR ucast (ucast w :: 8 word) = w"
  by (rule bit_word_eqI) (auto simp: bit_simps)

lemma push_low_byte_at:
  fixes w :: "'a::len word"
  shows "push_bit 8 (drop_bit (8 + n) w) OR ucast (ucast (drop_bit n w) :: 8 word) = drop_bit n w"
  using push_low_byte [of "drop_bit n w"] by (simp add: ac_simps)

lemma top_byte: "LENGTH('a::len) = n + 8 \<Longrightarrow> ucast (ucast (drop_bit n w) :: 8 word) = drop_bit n (w :: 'a word)"
  by (rule bit_word_eqI) (auto simp: bit_simps dest: bit_imp_le_length)

lemma u16_be_roundtrip [simp]: "u16_from_be (u16_to_be w @ r) = w"
  using push_low_byte_at [of 0 w] top_byte [of 8 w] by (simp add: u16_from_be_def u16_to_be_def from_bytes_be_def)

lemma u32_be_roundtrip [simp]: "u32_from_be (u32_to_be w @ r) = w"
  using push_low_byte_at [of 16 w] push_low_byte_at [of 8 w] push_low_byte_at [of 0 w] top_byte [of 24 w]
  by (simp add: u32_from_be_def u32_to_be_def from_bytes_be_def)

lemma u32_le_roundtrip [simp]: "u32_from_le (u32_to_le w @ r) = w"
  using u32_be_roundtrip [of w "[]"] by (simp add: u32_from_le_def u32_to_le_def u32_from_be_def)

lemma u64_le_roundtrip [simp]: "u64_from_le (u64_to_le w @ r) = w"
  using push_low_byte_at [of 48 w] push_low_byte_at [of 40 w] push_low_byte_at [of 32 w] push_low_byte_at [of 24 w]
    push_low_byte_at [of 16 w] push_low_byte_at [of 8 w] push_low_byte_at [of 0 w] top_byte [of 56 w]
  by (simp add: u64_from_le_def u64_to_le_def from_bytes_be_def)

lemmas bytes_roundtrip_nil [simp] =
  u16_be_roundtrip [of _ "[]", simplified] u32_be_roundtrip [of _ "[]", simplified] u32_le_roundtrip [of _ "[]", simplified]
  u64_le_roundtrip [of _ "[]", simplified]

text \<open>A byte string literal.\<close>

definition ascii :: "string \<Rightarrow> bytes" where
  "ascii s = map (\<lambda>c. word_of_nat (of_char c)) s"

section \<open>Hexadecimal numerals\<close>

definition hex_digit :: "nat \<Rightarrow> char" where
  "hex_digit n = ''0123456789ABCDEF'' ! n"

definition hex_byte :: "8 word \<Rightarrow> string" where
  "hex_byte b = [hex_digit (unat b div 16), hex_digit (unat b mod 16)]"

text \<open>\<^verbatim>\<open>{:04X}\<close> and the like: a number with a given number of digits.\<close>

fun hex_width :: "nat \<Rightarrow> nat \<Rightarrow> string" where
  "hex_width 0 n = []"
| "hex_width (Suc w) n = hex_width w (n div 16) @ [hex_digit (n mod 16)]"

section \<open>Bytes as text\<close>

text \<open>
  \<^verbatim>\<open>String::from_utf8_lossy\<close>: an ill-formed sequence, up to the byte that breaks it, becomes the
  replacement character.
\<close>

definition REPLACEMENT :: string where "REPLACEMENT = [CHR 0xEF, CHR 0xBF, CHR 0xBD]"

definition second_ok :: "char \<Rightarrow> char \<Rightarrow> bool" where
  "second_ok b0 b1 =
     (if byte_in 194 223 b0 then utf8_cont b1
      else if b0 = CHR 0xE0 then byte_in 160 191 b1
      else if b0 = CHR 0xED then byte_in 128 159 b1
      else if byte_in 225 239 b0 then utf8_cont b1
      else if b0 = CHR 0xF0 then byte_in 144 191 b1
      else if b0 = CHR 0xF4 then byte_in 128 143 b1
      else byte_in 241 243 b0 \<and> utf8_cont b1)"

definition char_width :: "char \<Rightarrow> nat" where
  "char_width b = (if byte_in 0 127 b then 1 else if byte_in 194 223 b then 2 else if byte_in 224 239 b then 3
     else if byte_in 240 244 b then 4 else 0)"

definition good_bytes :: "string \<Rightarrow> nat" where
  "good_bytes s =
     (case s of
        [] \<Rightarrow> 0
      | b0 # r \<Rightarrow>
          if char_width b0 \<le> 1 \<or> r = [] \<or> \<not> second_ok b0 (hd r) then 1
          else 2 + length (takeWhile utf8_cont (take (char_width b0 - 2) (tl r))))"

function from_utf8_lossy :: "string \<Rightarrow> string" where
  "from_utf8_lossy s =
     (if s = [] then []
      else
        (let n = good_bytes s in
         (if n = char_width (hd s) then take n s else REPLACEMENT) @ from_utf8_lossy (drop n s)))"
  by pat_completeness auto
termination
  by (relation "measure length") (auto simp: good_bytes_def split: list.splits)

declare from_utf8_lossy.simps [simp del]

definition to_chars :: "bytes \<Rightarrow> string" where "to_chars bs = map (\<lambda>w. char_of (unat w)) bs"

lemma lossy_step:
  assumes "char_width b = Suc n" "length r = n" "n > 0 \<Longrightarrow> second_ok b (hd r) \<and> list_all utf8_cont (tl r)"
  shows "from_utf8_lossy (b # r @ s) = b # r @ from_utf8_lossy s"
proof -
  have "takeWhile utf8_cont (tl r) = tl r" if "n > 0" using assms(3) [OF that] by (simp add: list_all_iff)
  then have "length (takeWhile utf8_cont (tl r)) = length (tl r)" if "n > 0" using that by metis
  then have "good_bytes (b # r @ s) = Suc n"
    using assms by (cases r) (auto simp: good_bytes_def)
  then show ?thesis using assms(1,2) by (subst from_utf8_lossy.simps) simp
qed

lemma char_code_eq: "b = c \<longleftrightarrow> of_char b = (of_char c :: nat)"
  by simp

lemma from_utf8_lossy_valid: "valid_utf8 s \<Longrightarrow> from_utf8_lossy s = s"
proof (induction s rule: valid_utf8.induct)
  case 1
  then show ?case by (simp add: from_utf8_lossy.simps)
next
  case (2 b0 bs)
  note codes = char_code_eq [of b0 "CHR 0xE0"] char_code_eq [of b0 "CHR 0xED"] char_code_eq [of b0 "CHR 0xF0"] char_code_eq [of b0 "CHR 0xF4"]
  consider "byte_in 0 127 b0" "valid_utf8 bs" "from_utf8_lossy bs = bs"
    | b1 r where "bs = b1 # r" "byte_in 194 223 b0" "second_ok b0 b1" "from_utf8_lossy r = r"
    | b1 b2 r where "bs = b1 # b2 # r" "byte_in 224 239 b0" "second_ok b0 b1" "utf8_cont b2" "from_utf8_lossy r = r"
    | b1 b2 b3 r where "bs = b1 # b2 # b3 # r" "byte_in 240 244 b0" "second_ok b0 b1" "utf8_cont b2" "utf8_cont b3" "from_utf8_lossy r = r"
    using 2 by (auto simp: second_ok_def codes byte_in_def split: if_splits list.splits)
  then show ?case
  proof cases
    case 1
    then show ?thesis using lossy_step [of b0 0 "[]" bs] by (simp add: char_width_def)
  next
    case (2 b1 r)
    then show ?thesis using lossy_step [of b0 1 "[b1]" r] by (simp add: char_width_def byte_in_def)
  next
    case (3 b1 b2 r)
    then show ?thesis using lossy_step [of b0 2 "[b1, b2]" r] by (simp add: char_width_def byte_in_def)
  next
    case (4 b1 b2 b3 r)
    then show ?thesis using lossy_step [of b0 3 "[b1, b2, b3]" r] by (simp add: char_width_def byte_in_def)
  qed
qed

lemma to_chars_ascii [simp]: "to_chars (ascii s) = s"
proof -
  have "unat (word_of_nat (of_char c) :: 8 word) = of_char c" for c
    by (simp add: unsigned_of_nat take_bit_nat_eq_self)
  then show ?thesis by (simp add: to_chars_def ascii_def comp_def)
qed

lemma length_ascii [simp]: "length (ascii s) = length s"
  by (simp add: ascii_def)

end
