(* ===== verification/Crypto_Base.thy ===== *)
theory Crypto_Base
  imports Bytes
begin

text \<open>
  The bottom of \<^verbatim>\<open>pirc-crypto\<close>: errors (\<^verbatim>\<open>error.rs\<close>), key derivation (\<^verbatim>\<open>kdf.rs\<close>), authenticated
  encryption (\<^verbatim>\<open>aead.rs\<close>), X25519 (\<^verbatim>\<open>x25519.rs\<close>), ML-KEM (\<^verbatim>\<open>kem.rs\<close>) and ML-DSA (\<^verbatim>\<open>signing.rs\<close>).

  The primitives come from other packages. They are the fields of the record \<open>crypto_prims\<close>, an
  argument of every definition that uses them; \<open>crypto_laws\<close> collects what their documentation
  promises. Values drawn from the random number generator are arguments. Byte arrays are lists of
  bytes, \<^verbatim>\<open>u32\<close> is a 32-bit word.
\<close>

section \<open>Errors\<close>

datatype crypto_error =
    KeyExchangeErr string
  | AeadErr string
  | KeyDerivationErr string
  | KemErr string
  | SignatureErr string
  | RatchetErr string
  | HeaderEncryptionErr string
  | SerializationErr string
  | InvalidKeyErr string

fun crypto_error_display :: "crypto_error \<Rightarrow> string" where
  "crypto_error_display (KeyExchangeErr s) = ''key exchange error: '' @ s"
| "crypto_error_display (AeadErr s) = ''AEAD error: '' @ s"
| "crypto_error_display (KeyDerivationErr s) = ''key derivation error: '' @ s"
| "crypto_error_display (KemErr s) = ''KEM error: '' @ s"
| "crypto_error_display (SignatureErr s) = ''signature error: '' @ s"
| "crypto_error_display (RatchetErr s) = ''ratchet error: '' @ s"
| "crypto_error_display (HeaderEncryptionErr s) = ''header encryption error: '' @ s"
| "crypto_error_display (SerializationErr s) = ''serialization error: '' @ s"
| "crypto_error_display (InvalidKeyErr s) = ''invalid key: '' @ s"

section \<open>The primitives\<close>

record crypto_prims =
  hkdf_extract_fn :: "bytes \<Rightarrow> bytes \<Rightarrow> bytes"
  hkdf_expand_fn :: "bytes \<Rightarrow> bytes \<Rightarrow> nat \<Rightarrow> bytes"
  x25519_base :: "bytes \<Rightarrow> bytes"
  x25519_fn :: "bytes \<Rightarrow> bytes \<Rightarrow> bytes"
  gcm_seal :: "bytes \<Rightarrow> bytes \<Rightarrow> bytes \<Rightarrow> bytes \<Rightarrow> bytes option"
  gcm_open :: "bytes \<Rightarrow> bytes \<Rightarrow> bytes \<Rightarrow> bytes \<Rightarrow> bytes option"
  kem_public :: "bytes \<Rightarrow> bytes"
  kem_encaps :: "bytes \<Rightarrow> bytes \<Rightarrow> (bytes \<times> bytes) option"
  kem_decaps :: "bytes \<Rightarrow> bytes \<Rightarrow> bytes option"
  dsa_public :: "bytes \<Rightarrow> bytes"
  dsa_sign :: "bytes \<Rightarrow> bytes \<Rightarrow> bytes"
  dsa_verify :: "bytes \<Rightarrow> bytes \<Rightarrow> bytes \<Rightarrow> bool"
  dsa_signature_valid :: "bytes \<Rightarrow> bool"

definition KEY_SIZE :: nat where "KEY_SIZE = 32"
definition NONCE_SIZE :: nat where "NONCE_SIZE = 12"
definition TAG_SIZE :: nat where "TAG_SIZE = 16"
definition PUBLIC_KEY_LEN :: nat where "PUBLIC_KEY_LEN = 1184"
definition CIPHERTEXT_LEN :: nat where "CIPHERTEXT_LEN = 1088"
definition SECRET_KEY_LEN :: nat where "SECRET_KEY_LEN = 2400"
definition VERIFYING_KEY_LEN :: nat where "VERIFYING_KEY_LEN = 1952"
definition SIGNATURE_LEN :: nat where "SIGNATURE_LEN = 3309"
definition MAX_OUTPUT_LEN :: nat where "MAX_OUTPUT_LEN = 255 * KEY_SIZE"

lemmas size_defs = KEY_SIZE_def NONCE_SIZE_def TAG_SIZE_def PUBLIC_KEY_LEN_def CIPHERTEXT_LEN_def
  SECRET_KEY_LEN_def VERIFYING_KEY_LEN_def SIGNATURE_LEN_def MAX_OUTPUT_LEN_def

text \<open>
  What the primitives promise: Diffie-Hellman agrees and does not give zero on generated keys;
  AES-GCM opens what it sealed; ML-KEM never fails and
  decapsulates what was encapsulated under the matching key; ML-DSA accepts its own signatures;
  and the sizes of all outputs.
\<close>

definition dh_laws :: "crypto_prims \<Rightarrow> bool" where
  "dh_laws P \<longleftrightarrow>
     (\<forall>a b. x25519_fn P a (x25519_base P b) = x25519_fn P b (x25519_base P a)) \<and>
     (\<forall>a b. x25519_fn P a (x25519_base P b) \<noteq> replicate KEY_SIZE 0) \<and>
     (\<forall>a. length (x25519_base P a) = KEY_SIZE) \<and> (\<forall>a b. length (x25519_fn P a b) = KEY_SIZE)"

definition gcm_laws :: "crypto_prims \<Rightarrow> bool" where
  "gcm_laws P \<longleftrightarrow>
     (\<forall>k n p a c. gcm_seal P k n p a = Some c \<longrightarrow>
        gcm_open P k n c a = Some p \<and> length c = length p + TAG_SIZE)"

definition kem_laws :: "crypto_prims \<Rightarrow> bool" where
  "kem_laws P \<longleftrightarrow>
     (\<forall>ek r. \<exists>ct ss. kem_encaps P ek r = Some (ct, ss) \<and> length ct = CIPHERTEXT_LEN) \<and>
     (\<forall>dk ct. kem_decaps P dk ct \<noteq> None) \<and>
     (\<forall>dk r ct ss. kem_encaps P (kem_public P dk) r = Some (ct, ss) \<longrightarrow> kem_decaps P dk ct = Some ss) \<and>
     (\<forall>dk. length (kem_public P dk) = PUBLIC_KEY_LEN)"

definition dsa_laws :: "crypto_prims \<Rightarrow> bool" where
  "dsa_laws P \<longleftrightarrow>
     (\<forall>sk m. dsa_verify P (dsa_public P sk) m (dsa_sign P sk m)) \<and>
     (\<forall>sk m. dsa_signature_valid P (dsa_sign P sk m) \<and> length (dsa_sign P sk m) = SIGNATURE_LEN) \<and>
     (\<forall>sk. length (dsa_public P sk) = VERIFYING_KEY_LEN)"

section \<open>Key derivation\<close>

definition hkdf_extract :: "crypto_prims \<Rightarrow> bytes \<Rightarrow> bytes \<Rightarrow> bytes" where
  "hkdf_extract P salt ikm = hkdf_extract_fn P salt ikm"

text \<open>The buffer version is the version with a length; both refuse a length of zero or too long.\<close>

definition hkdf_expand :: "crypto_prims \<Rightarrow> bytes \<Rightarrow> bytes \<Rightarrow> nat \<Rightarrow> crypto_error + bytes" where
  "hkdf_expand P prk info len =
     (if len = 0 then Err (KeyDerivationErr ''output length must be at least 1'')
      else if len > MAX_OUTPUT_LEN
      then Err (KeyDerivationErr ''expand failed: invalid number of blocks, too large output'')
      else Ok (hkdf_expand_fn P prk info len))"

definition derive_key :: "crypto_prims \<Rightarrow> bytes \<Rightarrow> bytes \<Rightarrow> bytes \<Rightarrow> nat \<Rightarrow> crypto_error + bytes" where
  "derive_key P salt ikm info len = hkdf_expand P (hkdf_extract P salt ikm) info len"

definition kdf_chain :: "crypto_prims \<Rightarrow> bytes \<Rightarrow> bytes \<Rightarrow> bytes \<times> bytes" where
  "kdf_chain P chain_key input =
     (let prk = hkdf_extract P chain_key input in
      (hkdf_expand_fn P prk (ascii ''pirc-chain-key'') KEY_SIZE,
       hkdf_expand_fn P prk (ascii ''pirc-message-key'') KEY_SIZE))"

section \<open>Authenticated encryption\<close>

definition aead_encrypt ::
  "crypto_prims \<Rightarrow> bytes \<Rightarrow> bytes \<Rightarrow> bytes \<Rightarrow> bytes \<Rightarrow> crypto_error + bytes" where
  "aead_encrypt P key nonce plaintext aad =
     ok_or (AeadErr ''encryption failed: aead::Error'') (gcm_seal P key nonce plaintext aad)"

definition aead_decrypt ::
  "crypto_prims \<Rightarrow> bytes \<Rightarrow> bytes \<Rightarrow> bytes \<Rightarrow> bytes \<Rightarrow> crypto_error + bytes" where
  "aead_decrypt P key nonce ciphertext aad =
     (if length ciphertext < TAG_SIZE
      then Err (AeadErr ''ciphertext too short to contain authentication tag'')
      else ok_or (AeadErr ''decryption failed: aead::Error'') (gcm_open P key nonce ciphertext aad))"

lemma aead_roundtrip:
  assumes "gcm_laws P" "aead_encrypt P k n p a = Ok c"
  shows "aead_decrypt P k n c a = Ok p"
  using assms by (fastforce simp: gcm_laws_def aead_encrypt_def aead_decrypt_def)

section \<open>X25519\<close>

record key_pair =
  kp_secret :: bytes
  kp_public :: bytes

text \<open>\<^verbatim>\<open>KeyPair::generate\<close> (the secret is the drawn value) and \<^verbatim>\<open>KeyPair::from_secret_bytes\<close>.\<close>

definition key_pair_from_secret :: "crypto_prims \<Rightarrow> bytes \<Rightarrow> key_pair" where
  "key_pair_from_secret P secret = \<lparr>kp_secret = secret, kp_public = x25519_base P secret\<rparr>"

definition diffie_hellman :: "crypto_prims \<Rightarrow> key_pair \<Rightarrow> bytes \<Rightarrow> crypto_error + bytes" where
  "diffie_hellman P our_keys their_public =
     (let raw = x25519_fn P (kp_secret our_keys) their_public in
      if raw = replicate KEY_SIZE 0
      then Err (KeyExchangeErr ''DH produced all-zero shared secret (low-order point)'')
      else Ok raw)"

definition pair_ok :: "crypto_prims \<Rightarrow> key_pair \<Rightarrow> bool" where
  "pair_ok P kp \<longleftrightarrow> kp_public kp = x25519_base P (kp_secret kp)"

lemma pair_ok_from_secret [simp]: "pair_ok P (key_pair_from_secret P s)"
  by (simp add: pair_ok_def key_pair_from_secret_def)

lemma diffie_hellman_agrees:
  assumes "dh_laws P" "pair_ok P a" "pair_ok P b"
  obtains s where "diffie_hellman P a (kp_public b) = Ok s" "diffie_hellman P b (kp_public a) = Ok s"
  using assms by (auto simp: dh_laws_def pair_ok_def diffie_hellman_def Let_def)

section \<open>ML-KEM and ML-DSA\<close>

text \<open>A key pair is its decapsulation key; the encapsulation key is computed from it.\<close>

record kem_key_pair =
  kem_dk :: bytes
  kem_ek :: bytes

definition kem_generate :: "crypto_prims \<Rightarrow> bytes \<Rightarrow> kem_key_pair" where
  "kem_generate P dk = \<lparr>kem_dk = dk, kem_ek = kem_public P dk\<rparr>"

definition encapsulate :: "crypto_prims \<Rightarrow> bytes \<Rightarrow> bytes \<Rightarrow> crypto_error + bytes \<times> bytes" where
  "encapsulate P ek rnd = ok_or (KemErr ''encapsulation failed'') (kem_encaps P ek rnd)"

definition decapsulate :: "crypto_prims \<Rightarrow> kem_key_pair \<Rightarrow> bytes \<Rightarrow> crypto_error + bytes" where
  "decapsulate P kp ct = ok_or (KemErr ''decapsulation failed'') (kem_decaps P (kem_dk kp) ct)"

definition kem_public_from_bytes :: "bytes \<Rightarrow> crypto_error + bytes" where
  "kem_public_from_bytes bs =
     (if length bs = PUBLIC_KEY_LEN then Ok bs
      else Err (InvalidKeyErr (''expected 1184 bytes, got '' @ nat_to_string (length bs))))"

definition kem_ciphertext_from_bytes :: "bytes \<Rightarrow> crypto_error + bytes" where
  "kem_ciphertext_from_bytes bs =
     (if length bs = CIPHERTEXT_LEN then Ok bs
      else Err (KemErr (''expected 1088 byte ciphertext, got '' @ nat_to_string (length bs))))"

text \<open>\<^verbatim>\<open>KemKeyPair::to_bytes\<close> and \<^verbatim>\<open>KemKeyPair::from_bytes\<close>: both keys, one after the other.\<close>

definition kem_pair_to_bytes :: "kem_key_pair \<Rightarrow> bytes" where
  "kem_pair_to_bytes kp = kem_dk kp @ kem_ek kp"

definition kem_pair_from_bytes :: "bytes \<Rightarrow> crypto_error + kem_key_pair" where
  "kem_pair_from_bytes bs =
     (if length bs \<noteq> SECRET_KEY_LEN + PUBLIC_KEY_LEN
      then Err (InvalidKeyErr (''KemKeyPair: expected 3584 bytes, got '' @ nat_to_string (length bs)))
      else Ok \<lparr>kem_dk = take SECRET_KEY_LEN bs, kem_ek = drop SECRET_KEY_LEN bs\<rparr>)"

definition verifying_key_from_bytes :: "bytes \<Rightarrow> crypto_error + bytes" where
  "verifying_key_from_bytes bs =
     (if length bs = VERIFYING_KEY_LEN then Ok bs
      else Err (InvalidKeyErr (''expected 1952 bytes, got '' @ nat_to_string (length bs))))"

definition signature_from_bytes :: "crypto_prims \<Rightarrow> bytes \<Rightarrow> crypto_error + bytes" where
  "signature_from_bytes P bs =
     (if dsa_signature_valid P bs then Ok bs else Err (SignatureErr ''invalid signature: signature error''))"

definition verify_signature :: "crypto_prims \<Rightarrow> bytes \<Rightarrow> bytes \<Rightarrow> bytes \<Rightarrow> crypto_error + unit" where
  "verify_signature P vk msg sig =
     (if dsa_verify P vk msg sig then Ok ()
      else Err (SignatureErr ''verification failed: signature error''))"

end
