(* ===== verification/Crypto_Keys.thy ===== *)
theory Crypto_Keys
  imports Crypto_Base
begin

text \<open>
  The long-term and pre-published keys of \<^verbatim>\<open>pirc-crypto\<close>: signing key pairs (\<^verbatim>\<open>signing.rs\<close>),
  identities (\<^verbatim>\<open>identity.rs\<close>) and pre-keys with their public halves and bundles (\<^verbatim>\<open>prekey.rs\<close>).
  Each type has its operations, its byte format and a predicate for the sizes that the fixed-length
  arrays of the code carry in their types. The locale \<open>fixed_format\<close> states what a format of a fixed
  length promises; every key type is an instance.
\<close>

section \<open>Formats of a fixed length\<close>

locale fixed_format =
  fixes enc :: "'a \<Rightarrow> bytes" and dec :: "bytes \<Rightarrow> crypto_error + 'a" and wf :: "'a \<Rightarrow> bool" and len :: nat
  assumes enc_length: "wf x \<Longrightarrow> length (enc x) = len"
    and dec_enc: "wf x \<Longrightarrow> dec (enc x) = Ok x"
    and dec_length: "dec bs = Ok x \<Longrightarrow> length bs = len"
begin

lemma dec_prefix: "wf x \<Longrightarrow> dec (take len (enc x @ r)) = Ok x"
  by (simp add: enc_length dec_enc)

lemma drop_prefix: "wf x \<Longrightarrow> drop len (enc x @ r) = r"
  by (simp add: enc_length)

lemma enc_inj: "wf x \<Longrightarrow> wf y \<Longrightarrow> enc x = enc y \<Longrightarrow> x = y"
  by (metis dec_enc sum.inject(2))

lemma dec_wrong_length: "length bs \<noteq> len \<Longrightarrow> \<exists>e. dec bs = Err e"
  using dec_length by (cases "dec bs") auto

end

section \<open>Signing keys\<close>

definition SIGNING_KEY_LEN :: nat where "SIGNING_KEY_LEN = 4032"

record signing_key_pair =
  sk_signing :: bytes
  sk_verifying :: bytes

definition signing_generate :: "crypto_prims \<Rightarrow> bytes \<Rightarrow> signing_key_pair" where
  "signing_generate P sk = \<lparr>sk_signing = sk, sk_verifying = dsa_public P sk\<rparr>"

text \<open>Deterministic signing fails only for a context longer than 255 bytes; the code passes the empty one.\<close>

definition sign_message :: "crypto_prims \<Rightarrow> signing_key_pair \<Rightarrow> bytes \<Rightarrow> crypto_error + bytes" where
  "sign_message P kp msg = Ok (dsa_sign P (sk_signing kp) msg)"

definition signing_to_bytes :: "signing_key_pair \<Rightarrow> bytes" where
  "signing_to_bytes kp = sk_signing kp @ sk_verifying kp"

definition signing_from_bytes :: "bytes \<Rightarrow> crypto_error + signing_key_pair" where
  "signing_from_bytes bs =
     (if length bs \<noteq> SIGNING_KEY_LEN + VERIFYING_KEY_LEN
      then Err (InvalidKeyErr (''SigningKeyPair: expected 5984 bytes, got '' @ nat_to_string (length bs)))
      else Ok \<lparr>sk_signing = take SIGNING_KEY_LEN bs, sk_verifying = drop SIGNING_KEY_LEN bs\<rparr>)"

definition signing_wf :: "crypto_prims \<Rightarrow> signing_key_pair \<Rightarrow> bool" where
  "signing_wf P kp \<longleftrightarrow> length (sk_signing kp) = SIGNING_KEY_LEN \<and>
     sk_verifying kp = dsa_public P (sk_signing kp) \<and> length (dsa_public P (sk_signing kp)) = VERIFYING_KEY_LEN"

interpretation signing: fixed_format signing_to_bytes signing_from_bytes "signing_wf P" "SIGNING_KEY_LEN + VERIFYING_KEY_LEN" for P
  by unfold_locales (auto simp: signing_to_bytes_def signing_from_bytes_def signing_wf_def split: if_splits)

section \<open>Identities\<close>

definition IDENTITY_PUBLIC_KEY_LEN :: nat where "IDENTITY_PUBLIC_KEY_LEN = VERIFYING_KEY_LEN + KEY_SIZE"
definition IDENTITY_KEY_PAIR_LEN :: nat where "IDENTITY_KEY_PAIR_LEN = SIGNING_KEY_LEN + VERIFYING_KEY_LEN + KEY_SIZE"

record identity_key_pair =
  ik_signing :: signing_key_pair
  ik_dh :: key_pair

record identity_public_key =
  ip_verifying :: bytes
  ip_dh_public :: bytes

definition identity_generate :: "crypto_prims \<Rightarrow> bytes \<Rightarrow> bytes \<Rightarrow> identity_key_pair" where
  "identity_generate P sk dh_secret = \<lparr>ik_signing = signing_generate P sk, ik_dh = key_pair_from_secret P dh_secret\<rparr>"

definition public_identity :: "identity_key_pair \<Rightarrow> identity_public_key" where
  "public_identity ik = \<lparr>ip_verifying = sk_verifying (ik_signing ik), ip_dh_public = kp_public (ik_dh ik)\<rparr>"

definition identity_sign :: "crypto_prims \<Rightarrow> identity_key_pair \<Rightarrow> bytes \<Rightarrow> crypto_error + bytes" where
  "identity_sign P ik msg = sign_message P (ik_signing ik) msg"

definition identity_to_bytes :: "identity_key_pair \<Rightarrow> bytes" where
  "identity_to_bytes ik = signing_to_bytes (ik_signing ik) @ kp_secret (ik_dh ik)"

definition identity_from_bytes :: "crypto_prims \<Rightarrow> bytes \<Rightarrow> crypto_error + identity_key_pair" where
  "identity_from_bytes P bs =
     (if length bs \<noteq> IDENTITY_KEY_PAIR_LEN
      then Err (InvalidKeyErr (''IdentityKeyPair: expected 6016 bytes, got '' @ nat_to_string (length bs)))
      else
        (let sk_len = SIGNING_KEY_LEN + VERIFYING_KEY_LEN in
         result_bind (signing_from_bytes (take sk_len bs)) (\<lambda>signing_key.
           Ok \<lparr>ik_signing = signing_key, ik_dh = key_pair_from_secret P (drop sk_len bs)\<rparr>)))"

definition identity_verify :: "crypto_prims \<Rightarrow> identity_public_key \<Rightarrow> bytes \<Rightarrow> bytes \<Rightarrow> crypto_error + unit" where
  "identity_verify P ip msg sig = verify_signature P (ip_verifying ip) msg sig"

definition identity_public_to_bytes :: "identity_public_key \<Rightarrow> bytes" where
  "identity_public_to_bytes ip = ip_verifying ip @ ip_dh_public ip"

definition identity_public_from_bytes :: "bytes \<Rightarrow> crypto_error + identity_public_key" where
  "identity_public_from_bytes bs =
     (if length bs \<noteq> IDENTITY_PUBLIC_KEY_LEN
      then Err (InvalidKeyErr (''expected 1984 bytes, got '' @ nat_to_string (length bs)))
      else
        result_bind (verifying_key_from_bytes (take VERIFYING_KEY_LEN bs)) (\<lambda>verifying_key.
          Ok \<lparr>ip_verifying = verifying_key, ip_dh_public = drop VERIFYING_KEY_LEN bs\<rparr>))"

text \<open>A generated X25519 pair.\<close>

definition pair_wf :: "crypto_prims \<Rightarrow> key_pair \<Rightarrow> bool" where
  "pair_wf P kp \<longleftrightarrow> length (kp_secret kp) = KEY_SIZE \<and> length (kp_public kp) = KEY_SIZE \<and> pair_ok P kp"

lemma pair_wf_from_secret [simp]: "pair_wf P kp \<Longrightarrow> key_pair_from_secret P (kp_secret kp) = kp"
  by (simp add: pair_wf_def pair_ok_def key_pair_from_secret_def)

lemma pair_wf_generated: "dh_laws P \<Longrightarrow> length s = KEY_SIZE \<Longrightarrow> pair_wf P (key_pair_from_secret P s)"
  by (simp add: pair_wf_def dh_laws_def key_pair_from_secret_def pair_ok_def)

definition identity_wf :: "crypto_prims \<Rightarrow> identity_key_pair \<Rightarrow> bool" where
  "identity_wf P ik \<longleftrightarrow> signing_wf P (ik_signing ik) \<and> pair_wf P (ik_dh ik)"

definition identity_public_wf :: "identity_public_key \<Rightarrow> bool" where
  "identity_public_wf ip \<longleftrightarrow> length (ip_verifying ip) = VERIFYING_KEY_LEN \<and> length (ip_dh_public ip) = KEY_SIZE"

lemma public_identity_wf: "identity_wf P ik \<Longrightarrow> identity_public_wf (public_identity ik)"
  by (simp add: identity_wf_def identity_public_wf_def public_identity_def signing_wf_def pair_wf_def)

lemma identity_wf_generated:
  assumes "dh_laws P" "dsa_laws P" "length sk = SIGNING_KEY_LEN" "length s = KEY_SIZE"
  shows "identity_wf P (identity_generate P sk s)"
  using assms pair_wf_generated [of P s]
  by (simp add: identity_wf_def identity_generate_def signing_wf_def signing_generate_def dsa_laws_def)

interpretation identity: fixed_format identity_to_bytes "identity_from_bytes P" "identity_wf P" IDENTITY_KEY_PAIR_LEN for P
proof unfold_locales
  fix x :: identity_key_pair
  assume w: "identity_wf P x"
  then have l: "length (signing_to_bytes (ik_signing x)) = SIGNING_KEY_LEN + VERIFYING_KEY_LEN" "length (kp_secret (ik_dh x)) = KEY_SIZE"
    using signing.enc_length by (auto simp: identity_wf_def pair_wf_def)
  then show len: "length (identity_to_bytes x) = IDENTITY_KEY_PAIR_LEN"
    by (simp add: identity_to_bytes_def IDENTITY_KEY_PAIR_LEN_def)
  have "signing_from_bytes (signing_to_bytes (ik_signing x)) = Ok (ik_signing x)"
    using w signing.dec_enc by (auto simp: identity_wf_def)
  then show "identity_from_bytes P (identity_to_bytes x) = Ok x"
    using w len l by (simp add: identity_from_bytes_def identity_wf_def) (simp add: identity_to_bytes_def Let_def)
next
  show "length bs = IDENTITY_KEY_PAIR_LEN" if "identity_from_bytes P bs = Ok x" for bs x
    using that by (simp add: identity_from_bytes_def split: if_splits)
qed

interpretation identity_public: fixed_format identity_public_to_bytes identity_public_from_bytes identity_public_wf IDENTITY_PUBLIC_KEY_LEN
  by unfold_locales (auto simp: identity_public_to_bytes_def identity_public_from_bytes_def identity_public_wf_def
      IDENTITY_PUBLIC_KEY_LEN_def verifying_key_from_bytes_def split: if_splits)

text \<open>What an identity signs, its public half accepts.\<close>

lemma identity_signs:
  assumes "dsa_laws P" "identity_wf P ik" "identity_sign P ik msg = Ok sig"
  shows "identity_verify P (public_identity ik) msg sig = Ok ()" "dsa_signature_valid P sig" "length sig = SIGNATURE_LEN"
  using assms by (auto simp: identity_sign_def sign_message_def identity_verify_def verify_signature_def public_identity_def
      dsa_laws_def identity_wf_def signing_wf_def)

section \<open>Signed pre-keys\<close>

definition SIGNED_PRE_KEY_PUBLIC_LEN :: nat where "SIGNED_PRE_KEY_PUBLIC_LEN = 4 + KEY_SIZE + SIGNATURE_LEN + 8"
definition ONE_TIME_PRE_KEY_PUBLIC_LEN :: nat where "ONE_TIME_PRE_KEY_PUBLIC_LEN = 4 + KEY_SIZE"
definition KEM_PRE_KEY_PUBLIC_LEN :: nat where "KEM_PRE_KEY_PUBLIC_LEN = 4 + PUBLIC_KEY_LEN + SIGNATURE_LEN"

lemmas key_size_defs = size_defs SIGNING_KEY_LEN_def IDENTITY_PUBLIC_KEY_LEN_def IDENTITY_KEY_PAIR_LEN_def
  SIGNED_PRE_KEY_PUBLIC_LEN_def ONE_TIME_PRE_KEY_PUBLIC_LEN_def KEM_PRE_KEY_PUBLIC_LEN_def

record signed_pre_key =
  spk_id :: u32
  spk_pair :: key_pair
  spk_signature :: bytes
  spk_timestamp :: u64

record signed_pre_key_public =
  spp_id :: u32
  spp_public :: bytes
  spp_signature :: bytes
  spp_timestamp :: u64

definition signed_generate ::
  "crypto_prims \<Rightarrow> bytes \<Rightarrow> u32 \<Rightarrow> identity_key_pair \<Rightarrow> u64 \<Rightarrow> crypto_error + signed_pre_key" where
  "signed_generate P secret i ik timestamp =
     (let pair = key_pair_from_secret P secret in
      result_bind (identity_sign P ik (kp_public pair)) (\<lambda>signature.
        Ok \<lparr>spk_id = i, spk_pair = pair, spk_signature = signature, spk_timestamp = timestamp\<rparr>))"

definition signed_verify :: "crypto_prims \<Rightarrow> signed_pre_key \<Rightarrow> identity_public_key \<Rightarrow> crypto_error + unit" where
  "signed_verify P spk ip = identity_verify P ip (kp_public (spk_pair spk)) (spk_signature spk)"

definition signed_to_public :: "signed_pre_key \<Rightarrow> signed_pre_key_public" where
  "signed_to_public spk = \<lparr>spp_id = spk_id spk, spp_public = kp_public (spk_pair spk),
     spp_signature = spk_signature spk, spp_timestamp = spk_timestamp spk\<rparr>"

definition signed_to_bytes :: "signed_pre_key \<Rightarrow> bytes" where
  "signed_to_bytes spk = u32_to_le (spk_id spk) @ kp_secret (spk_pair spk) @ spk_signature spk @ u64_to_le (spk_timestamp spk)"

text \<open>The common reading of a key, a signature and a timestamp after an id.\<close>

definition read_signed :: "crypto_prims \<Rightarrow> bytes \<Rightarrow> crypto_error + u32 \<times> bytes \<times> bytes \<times> u64" where
  "read_signed P bs =
     (let i = u32_from_le bs;
          r1 = drop 4 bs;
          key = take KEY_SIZE r1;
          r2 = drop KEY_SIZE r1 in
      result_bind (signature_from_bytes P (take SIGNATURE_LEN r2)) (\<lambda>signature.
        Ok (i, key, signature, u64_from_le (drop SIGNATURE_LEN r2))))"

definition signed_from_bytes :: "crypto_prims \<Rightarrow> bytes \<Rightarrow> crypto_error + signed_pre_key" where
  "signed_from_bytes P bs =
     (if length bs \<noteq> 4 + KEY_SIZE + SIGNATURE_LEN + 8
      then Err (SerializationErr (''SignedPreKey: expected 3353 bytes, got '' @ nat_to_string (length bs)))
      else result_bind (read_signed P bs) (\<lambda>(i, secret, signature, timestamp).
        Ok \<lparr>spk_id = i, spk_pair = key_pair_from_secret P secret, spk_signature = signature, spk_timestamp = timestamp\<rparr>))"

definition signed_public_verify :: "crypto_prims \<Rightarrow> signed_pre_key_public \<Rightarrow> identity_public_key \<Rightarrow> crypto_error + unit" where
  "signed_public_verify P spp ip = identity_verify P ip (spp_public spp) (spp_signature spp)"

definition signed_public_to_bytes :: "signed_pre_key_public \<Rightarrow> bytes" where
  "signed_public_to_bytes spp = u32_to_le (spp_id spp) @ spp_public spp @ spp_signature spp @ u64_to_le (spp_timestamp spp)"

definition signed_public_from_bytes :: "crypto_prims \<Rightarrow> bytes \<Rightarrow> crypto_error + signed_pre_key_public" where
  "signed_public_from_bytes P bs =
     (if length bs \<noteq> SIGNED_PRE_KEY_PUBLIC_LEN
      then Err (SerializationErr (''SignedPreKeyPublic: expected 3353 bytes, got '' @ nat_to_string (length bs)))
      else result_bind (read_signed P bs) (\<lambda>(i, public_key, signature, timestamp).
        Ok \<lparr>spp_id = i, spp_public = public_key, spp_signature = signature, spp_timestamp = timestamp\<rparr>))"

text \<open>A signature that the signing library decodes.\<close>

definition signature_wf :: "crypto_prims \<Rightarrow> bytes \<Rightarrow> bool" where
  "signature_wf P sig \<longleftrightarrow> dsa_signature_valid P sig \<and> length sig = SIGNATURE_LEN"

lemma signature_from_bytes_wf [simp]: "signature_wf P sig \<Longrightarrow> signature_from_bytes P sig = Ok sig"
  by (simp add: signature_wf_def signature_from_bytes_def)

definition signed_wf :: "crypto_prims \<Rightarrow> signed_pre_key \<Rightarrow> bool" where
  "signed_wf P spk \<longleftrightarrow> pair_wf P (spk_pair spk) \<and> signature_wf P (spk_signature spk)"

definition signed_public_wf :: "crypto_prims \<Rightarrow> signed_pre_key_public \<Rightarrow> bool" where
  "signed_public_wf P spp \<longleftrightarrow> length (spp_public spp) = KEY_SIZE \<and> signature_wf P (spp_signature spp)"

lemma read_signed_written:
  assumes "length key = KEY_SIZE" "signature_wf P sig"
  shows "read_signed P (u32_to_le i @ key @ sig @ u64_to_le t) = Ok (i, key, sig, t)"
  using assms by (simp add: read_signed_def Let_def) (simp add: signature_wf_def)

interpretation signed: fixed_format signed_to_bytes "signed_from_bytes P" "signed_wf P" "4 + KEY_SIZE + SIGNATURE_LEN + 8" for P
  by unfold_locales (auto simp: signed_to_bytes_def signed_from_bytes_def signed_wf_def pair_wf_def signature_wf_def
      read_signed_written split: if_splits)

interpretation signed_public: fixed_format signed_public_to_bytes "signed_public_from_bytes P" "signed_public_wf P" SIGNED_PRE_KEY_PUBLIC_LEN for P
  by unfold_locales (auto simp: signed_public_to_bytes_def signed_public_from_bytes_def signed_public_wf_def signature_wf_def
      SIGNED_PRE_KEY_PUBLIC_LEN_def read_signed_written split: if_splits)

lemma signed_generate_ok:
  assumes "dh_laws P" "dsa_laws P" "identity_wf P ik" "length secret = KEY_SIZE" "signed_generate P secret i ik t = Ok spk"
  shows "signed_wf P spk" "signed_public_verify P (signed_to_public spk) (public_identity ik) = Ok ()"
  using assms identity_signs [OF assms(2,3)] pair_wf_generated [OF assms(1,4)]
  by (auto simp: signed_generate_def signed_wf_def signature_wf_def signed_public_verify_def signed_to_public_def Let_def)

lemma signed_to_public_wf: "signed_wf P spk \<Longrightarrow> signed_public_wf P (signed_to_public spk)"
  by (simp add: signed_wf_def signed_public_wf_def signed_to_public_def pair_wf_def)

section \<open>One-time pre-keys\<close>

record one_time_pre_key =
  opk_id :: u32
  opk_pair :: key_pair

record one_time_pre_key_public =
  opp_id :: u32
  opp_public :: bytes

definition one_time_generate :: "crypto_prims \<Rightarrow> bytes \<Rightarrow> u32 \<Rightarrow> one_time_pre_key" where
  "one_time_generate P secret i = \<lparr>opk_id = i, opk_pair = key_pair_from_secret P secret\<rparr>"

definition one_time_to_public :: "one_time_pre_key \<Rightarrow> one_time_pre_key_public" where
  "one_time_to_public opk = \<lparr>opp_id = opk_id opk, opp_public = kp_public (opk_pair opk)\<rparr>"

definition one_time_to_bytes :: "one_time_pre_key \<Rightarrow> bytes" where
  "one_time_to_bytes opk = u32_to_le (opk_id opk) @ kp_secret (opk_pair opk)"

definition one_time_from_bytes :: "crypto_prims \<Rightarrow> bytes \<Rightarrow> crypto_error + one_time_pre_key" where
  "one_time_from_bytes P bs =
     (if length bs \<noteq> 4 + KEY_SIZE
      then Err (SerializationErr (''OneTimePreKey: expected 36 bytes, got '' @ nat_to_string (length bs)))
      else Ok \<lparr>opk_id = u32_from_le bs, opk_pair = key_pair_from_secret P (drop 4 bs)\<rparr>)"

definition one_time_public_to_bytes :: "one_time_pre_key_public \<Rightarrow> bytes" where
  "one_time_public_to_bytes opp = u32_to_le (opp_id opp) @ opp_public opp"

definition one_time_public_from_bytes :: "bytes \<Rightarrow> crypto_error + one_time_pre_key_public" where
  "one_time_public_from_bytes bs =
     (if length bs \<noteq> ONE_TIME_PRE_KEY_PUBLIC_LEN
      then Err (SerializationErr (''OneTimePreKeyPublic: expected 36 bytes, got '' @ nat_to_string (length bs)))
      else Ok \<lparr>opp_id = u32_from_le bs, opp_public = drop 4 bs\<rparr>)"

definition one_time_wf :: "crypto_prims \<Rightarrow> one_time_pre_key \<Rightarrow> bool" where
  "one_time_wf P opk \<longleftrightarrow> pair_wf P (opk_pair opk)"

definition one_time_public_wf :: "one_time_pre_key_public \<Rightarrow> bool" where
  "one_time_public_wf opp \<longleftrightarrow> length (opp_public opp) = KEY_SIZE"

interpretation one_time: fixed_format one_time_to_bytes "one_time_from_bytes P" "one_time_wf P" "4 + KEY_SIZE" for P
  by unfold_locales (auto simp: one_time_to_bytes_def one_time_from_bytes_def one_time_wf_def pair_wf_def split: if_splits)

interpretation one_time_public: fixed_format one_time_public_to_bytes one_time_public_from_bytes one_time_public_wf ONE_TIME_PRE_KEY_PUBLIC_LEN
  by unfold_locales (auto simp: one_time_public_to_bytes_def one_time_public_from_bytes_def one_time_public_wf_def
      ONE_TIME_PRE_KEY_PUBLIC_LEN_def split: if_splits)

lemma one_time_generate_wf: "dh_laws P \<Longrightarrow> length secret = KEY_SIZE \<Longrightarrow> one_time_wf P (one_time_generate P secret i)"
  by (simp add: one_time_wf_def one_time_generate_def pair_wf_generated)

lemma one_time_to_public_wf: "one_time_wf P opk \<Longrightarrow> one_time_public_wf (one_time_to_public opk)"
  by (simp add: one_time_wf_def one_time_public_wf_def one_time_to_public_def pair_wf_def)

section \<open>KEM pre-keys\<close>

record kem_pre_key =
  kpk_id :: u32
  kpk_pair :: kem_key_pair
  kpk_signature :: bytes

record kem_pre_key_public =
  kpp_id :: u32
  kpp_public :: bytes
  kpp_signature :: bytes

definition kem_pre_generate :: "crypto_prims \<Rightarrow> bytes \<Rightarrow> u32 \<Rightarrow> identity_key_pair \<Rightarrow> crypto_error + kem_pre_key" where
  "kem_pre_generate P dk i ik =
     (let pair = kem_generate P dk in
      result_bind (identity_sign P ik (kem_ek pair)) (\<lambda>signature.
        Ok \<lparr>kpk_id = i, kpk_pair = pair, kpk_signature = signature\<rparr>))"

definition kem_pre_to_public :: "kem_pre_key \<Rightarrow> kem_pre_key_public" where
  "kem_pre_to_public kpk = \<lparr>kpp_id = kpk_id kpk, kpp_public = kem_ek (kpk_pair kpk), kpp_signature = kpk_signature kpk\<rparr>"

definition kem_pre_to_bytes :: "kem_pre_key \<Rightarrow> bytes" where
  "kem_pre_to_bytes kpk = u32_to_le (kpk_id kpk) @ kem_pair_to_bytes (kpk_pair kpk) @ kpk_signature kpk"

definition kem_pre_from_bytes :: "crypto_prims \<Rightarrow> bytes \<Rightarrow> crypto_error + kem_pre_key" where
  "kem_pre_from_bytes P bs =
     (let kem_pair_len = SECRET_KEY_LEN + PUBLIC_KEY_LEN in
      if length bs \<noteq> 4 + kem_pair_len + SIGNATURE_LEN
      then Err (SerializationErr (''KemPreKey: expected 6897 bytes, got '' @ nat_to_string (length bs)))
      else
        (let r1 = drop 4 bs in
         result_bind (kem_pair_from_bytes (take kem_pair_len r1)) (\<lambda>pair.
         result_bind (signature_from_bytes P (drop kem_pair_len r1)) (\<lambda>signature.
           Ok \<lparr>kpk_id = u32_from_le bs, kpk_pair = pair, kpk_signature = signature\<rparr>))))"

definition kem_pre_public_verify :: "crypto_prims \<Rightarrow> kem_pre_key_public \<Rightarrow> identity_public_key \<Rightarrow> crypto_error + unit" where
  "kem_pre_public_verify P kpp ip = identity_verify P ip (kpp_public kpp) (kpp_signature kpp)"

definition kem_pre_public_to_bytes :: "kem_pre_key_public \<Rightarrow> bytes" where
  "kem_pre_public_to_bytes kpp = u32_to_le (kpp_id kpp) @ kpp_public kpp @ kpp_signature kpp"

definition kem_pre_public_from_bytes :: "crypto_prims \<Rightarrow> bytes \<Rightarrow> crypto_error + kem_pre_key_public" where
  "kem_pre_public_from_bytes P bs =
     (if length bs \<noteq> KEM_PRE_KEY_PUBLIC_LEN
      then Err (SerializationErr (''KemPreKeyPublic: expected 4497 bytes, got '' @ nat_to_string (length bs)))
      else
        (let r1 = drop 4 bs in
         result_bind (kem_public_from_bytes (take PUBLIC_KEY_LEN r1)) (\<lambda>public_key.
         result_bind (signature_from_bytes P (drop PUBLIC_KEY_LEN r1)) (\<lambda>signature.
           Ok \<lparr>kpp_id = u32_from_le bs, kpp_public = public_key, kpp_signature = signature\<rparr>))))"

definition kem_pair_wf :: "crypto_prims \<Rightarrow> kem_key_pair \<Rightarrow> bool" where
  "kem_pair_wf P kp \<longleftrightarrow> length (kem_dk kp) = SECRET_KEY_LEN \<and> kem_ek kp = kem_public P (kem_dk kp) \<and>
     length (kem_public P (kem_dk kp)) = PUBLIC_KEY_LEN"

definition kem_pre_wf :: "crypto_prims \<Rightarrow> kem_pre_key \<Rightarrow> bool" where
  "kem_pre_wf P kpk \<longleftrightarrow> kem_pair_wf P (kpk_pair kpk) \<and> signature_wf P (kpk_signature kpk)"

definition kem_pre_public_wf :: "crypto_prims \<Rightarrow> kem_pre_key_public \<Rightarrow> bool" where
  "kem_pre_public_wf P kpp \<longleftrightarrow> length (kpp_public kpp) = PUBLIC_KEY_LEN \<and> signature_wf P (kpp_signature kpp)"

interpretation kem_pair: fixed_format kem_pair_to_bytes kem_pair_from_bytes "kem_pair_wf P" "SECRET_KEY_LEN + PUBLIC_KEY_LEN" for P
  by unfold_locales (auto simp: kem_pair_to_bytes_def kem_pair_from_bytes_def kem_pair_wf_def split: if_splits)

interpretation kem_pre: fixed_format kem_pre_to_bytes "kem_pre_from_bytes P" "kem_pre_wf P" "4 + (SECRET_KEY_LEN + PUBLIC_KEY_LEN) + SIGNATURE_LEN" for P
proof unfold_locales
  fix x :: kem_pre_key
  assume w: "kem_pre_wf P x"
  then have l: "length (kem_pair_to_bytes (kpk_pair x)) = SECRET_KEY_LEN + PUBLIC_KEY_LEN" "length (kpk_signature x) = SIGNATURE_LEN"
    using kem_pair.enc_length by (auto simp: kem_pre_wf_def signature_wf_def)
  then show "length (kem_pre_to_bytes x) = 4 + (SECRET_KEY_LEN + PUBLIC_KEY_LEN) + SIGNATURE_LEN"
    by (simp add: kem_pre_to_bytes_def)
  show "kem_pre_from_bytes P (kem_pre_to_bytes x) = Ok x"
    using w l kem_pair.dec_enc [of P "kpk_pair x"] by (simp add: kem_pre_from_bytes_def kem_pre_to_bytes_def kem_pre_wf_def Let_def)
next
  show "length bs = 4 + (SECRET_KEY_LEN + PUBLIC_KEY_LEN) + SIGNATURE_LEN" if "kem_pre_from_bytes P bs = Ok x" for bs x
    using that by (simp add: kem_pre_from_bytes_def Let_def split: if_splits)
qed

interpretation kem_pre_public: fixed_format kem_pre_public_to_bytes "kem_pre_public_from_bytes P" "kem_pre_public_wf P" KEM_PRE_KEY_PUBLIC_LEN for P
  by unfold_locales (auto simp: kem_pre_public_to_bytes_def kem_pre_public_from_bytes_def kem_pre_public_wf_def
      KEM_PRE_KEY_PUBLIC_LEN_def kem_public_from_bytes_def signature_from_bytes_def signature_wf_def Let_def split: if_splits)

lemma kem_pre_generate_ok:
  assumes "kem_laws P" "dsa_laws P" "identity_wf P ik" "length dk = SECRET_KEY_LEN" "kem_pre_generate P dk i ik = Ok kpk"
  shows "kem_pre_wf P kpk" "kem_pre_public_verify P (kem_pre_to_public kpk) (public_identity ik) = Ok ()"
  using assms identity_signs [OF assms(2,3)]
  by (auto simp: kem_pre_generate_def kem_pre_wf_def kem_pair_wf_def kem_generate_def kem_laws_def signature_wf_def
      kem_pre_public_verify_def kem_pre_to_public_def Let_def)

lemma kem_pre_to_public_wf: "kem_pre_wf P kpk \<Longrightarrow> kem_pre_public_wf P (kem_pre_to_public kpk)"
  by (simp add: kem_pre_wf_def kem_pre_public_wf_def kem_pre_to_public_def kem_pair_wf_def)

section \<open>Pre-key bundles\<close>

record pre_key_bundle =
  pb_identity :: identity_public_key
  pb_signed :: signed_pre_key_public
  pb_kem :: kem_pre_key_public
  pb_one_time :: "one_time_pre_key_public option"

definition bundle_validate :: "crypto_prims \<Rightarrow> pre_key_bundle \<Rightarrow> crypto_error + unit" where
  "bundle_validate P b =
     result_bind (signed_public_verify P (pb_signed b) (pb_identity b)) (\<lambda>_.
     result_bind (kem_pre_public_verify P (pb_kem b) (pb_identity b)) (\<lambda>_. Ok ()))"

definition bundle_to_bytes :: "pre_key_bundle \<Rightarrow> bytes" where
  "bundle_to_bytes b =
     identity_public_to_bytes (pb_identity b) @ signed_public_to_bytes (pb_signed b) @ kem_pre_public_to_bytes (pb_kem b) @
     (case pb_one_time b of Some otpk \<Rightarrow> 1 # one_time_public_to_bytes otpk | None \<Rightarrow> [0])"

definition read_one_time :: "bytes \<Rightarrow> crypto_error + one_time_pre_key_public option" where
  "read_one_time r =
     (if r ! 0 = 1
      then if length (drop 1 r) < ONE_TIME_PRE_KEY_PUBLIC_LEN
           then Err (SerializationErr (''PreKeyBundle: expected 36 bytes for OTPK, got '' @ nat_to_string (length (drop 1 r))))
           else result_bind (one_time_public_from_bytes (take ONE_TIME_PRE_KEY_PUBLIC_LEN (drop 1 r))) (\<lambda>otpk. Ok (Some otpk))
      else Ok None)"

definition bundle_from_bytes :: "crypto_prims \<Rightarrow> bytes \<Rightarrow> crypto_error + pre_key_bundle" where
  "bundle_from_bytes P bs =
     (if length bs < IDENTITY_PUBLIC_KEY_LEN + SIGNED_PRE_KEY_PUBLIC_LEN + KEM_PRE_KEY_PUBLIC_LEN + 1
      then Err (SerializationErr (''PreKeyBundle: expected at least 9835 bytes, got '' @ nat_to_string (length bs)))
      else
        result_bind (identity_public_from_bytes (take IDENTITY_PUBLIC_KEY_LEN bs)) (\<lambda>identity_public.
          let r1 = drop IDENTITY_PUBLIC_KEY_LEN bs in
        result_bind (signed_public_from_bytes P (take SIGNED_PRE_KEY_PUBLIC_LEN r1)) (\<lambda>signed.
          let r2 = drop SIGNED_PRE_KEY_PUBLIC_LEN r1 in
        result_bind (kem_pre_public_from_bytes P (take KEM_PRE_KEY_PUBLIC_LEN r2)) (\<lambda>kem.
        result_bind (read_one_time (drop KEM_PRE_KEY_PUBLIC_LEN r2)) (\<lambda>one_time.
          Ok \<lparr>pb_identity = identity_public, pb_signed = signed, pb_kem = kem, pb_one_time = one_time\<rparr>)))))"

definition bundle_wf :: "crypto_prims \<Rightarrow> pre_key_bundle \<Rightarrow> bool" where
  "bundle_wf P b \<longleftrightarrow> identity_public_wf (pb_identity b) \<and> signed_public_wf P (pb_signed b) \<and>
     kem_pre_public_wf P (pb_kem b) \<and> pred_option one_time_public_wf (pb_one_time b)"

lemma read_one_time_written:
  "pred_option one_time_public_wf x \<Longrightarrow>
   read_one_time (case x of Some otpk \<Rightarrow> 1 # one_time_public_to_bytes otpk | None \<Rightarrow> [0]) = Ok x"
  by (cases x) (simp_all add: read_one_time_def one_time_public.enc_length one_time_public.dec_enc)

lemma bundle_roundtrip:
  assumes "bundle_wf P b"
  shows "bundle_from_bytes P (bundle_to_bytes b) = Ok b"
proof -
  note w = assms [unfolded bundle_wf_def]
  show ?thesis
    using w read_one_time_written [of "pb_one_time b"]
    by (simp add: bundle_from_bytes_def bundle_to_bytes_def Let_def identity_public.enc_length identity_public.dec_enc
        signed_public.enc_length signed_public.dec_enc kem_pre_public.enc_length kem_pre_public.dec_enc split: option.splits)
qed

end
