(* ===== verification/Crypto_Messages.thy ===== *)
theory Crypto_Messages
  imports Crypto_Base
begin

text \<open>
  The binary formats of messages in \<^verbatim>\<open>pirc-crypto\<close>: message headers and encrypted messages
  (\<^verbatim>\<open>message.rs\<close>) and header encryption (\<^verbatim>\<open>header.rs\<close>). Every reader inverts its writer.
\<close>

section \<open>Message headers\<close>

record message_header =
  mh_dh_public :: bytes
  mh_message_number :: u32
  mh_previous_chain_length :: u32
  mh_kem_ciphertext :: "bytes option"
  mh_kem_public :: "bytes option"

definition HEADER_FIXED_LEN :: nat where "HEADER_FIXED_LEN = KEY_SIZE + 4 + 4 + 1"

definition header_flags :: "message_header \<Rightarrow> 8 word" where
  "header_flags h = (if mh_kem_ciphertext h \<noteq> None then 1 else 0) OR (if mh_kem_public h \<noteq> None then 2 else 0)"

definition option_bytes :: "bytes option \<Rightarrow> bytes" where
  "option_bytes x = (case x of None \<Rightarrow> [] | Some bs \<Rightarrow> bs)"

definition header_to_bytes :: "message_header \<Rightarrow> bytes" where
  "header_to_bytes h =
     mh_dh_public h @ u32_to_be (mh_message_number h) @ u32_to_be (mh_previous_chain_length h) @
     [header_flags h] @ option_bytes (mh_kem_ciphertext h) @ option_bytes (mh_kem_public h)"

definition read_kem_ciphertext :: "8 word \<Rightarrow> bytes \<Rightarrow> crypto_error + bytes option \<times> bytes" where
  "read_kem_ciphertext flags bs =
     (if flags AND 1 = 0 then Ok (None, bs)
      else if length bs < CIPHERTEXT_LEN
      then Err (SerializationErr (''header too short for KEM ciphertext: need 1088 more bytes, have '' @
                  nat_to_string (length bs)))
      else result_bind (kem_ciphertext_from_bytes (take CIPHERTEXT_LEN bs))
             (\<lambda>ct. Ok (Some ct, drop CIPHERTEXT_LEN bs)))"

definition read_kem_public :: "8 word \<Rightarrow> bytes \<Rightarrow> crypto_error + bytes option" where
  "read_kem_public flags bs =
     (if flags AND 2 = 0 then Ok None
      else if length bs < PUBLIC_KEY_LEN
      then Err (SerializationErr (''header too short for KEM public key: need 1184 more bytes, have '' @
                  nat_to_string (length bs)))
      else result_bind (kem_public_from_bytes (take PUBLIC_KEY_LEN bs)) (\<lambda>pk. Ok (Some pk)))"

definition header_from_bytes :: "bytes \<Rightarrow> crypto_error + message_header" where
  "header_from_bytes bs =
     (if length bs < HEADER_FIXED_LEN
      then Err (SerializationErr (''header too short: expected at least 41 bytes, got '' @ nat_to_string (length bs)))
      else
        (let dh_public = take KEY_SIZE bs;
             r1 = drop KEY_SIZE bs;
             message_number = u32_from_be r1;
             r2 = drop 4 r1;
             previous_chain_length = u32_from_be r2;
             r3 = drop 4 r2;
             flags = r3 ! 0;
             r4 = drop 1 r3 in
         result_bind (read_kem_ciphertext flags r4) (\<lambda>(ct, r5).
         result_bind (read_kem_public flags r5) (\<lambda>pk.
           Ok \<lparr>mh_dh_public = dh_public, mh_message_number = message_number,
               mh_previous_chain_length = previous_chain_length,
               mh_kem_ciphertext = ct, mh_kem_public = pk\<rparr>))))"

text \<open>The headers that the program builds.\<close>

definition header_wf :: "message_header \<Rightarrow> bool" where
  "header_wf h \<longleftrightarrow> length (mh_dh_public h) = KEY_SIZE \<and>
     pred_option (\<lambda>ct. length ct = CIPHERTEXT_LEN) (mh_kem_ciphertext h) \<and>
     pred_option (\<lambda>pk. length pk = PUBLIC_KEY_LEN) (mh_kem_public h)"

lemma header_flags_bits [simp]:
  "header_flags h AND 1 = 0 \<longleftrightarrow> mh_kem_ciphertext h = None"
  "header_flags h AND 2 = 0 \<longleftrightarrow> mh_kem_public h = None"
  by (simp_all add: header_flags_def)

lemma read_kem_ciphertext_written:
  assumes "pred_option (\<lambda>ct. length ct = CIPHERTEXT_LEN) x" "flags AND 1 = 0 \<longleftrightarrow> x = None"
  shows "read_kem_ciphertext flags (option_bytes x @ r) = Ok (x, r)"
  using assms by (cases x) (auto simp: read_kem_ciphertext_def option_bytes_def kem_ciphertext_from_bytes_def)

lemma read_kem_public_written:
  assumes "pred_option (\<lambda>pk. length pk = PUBLIC_KEY_LEN) x" "flags AND 2 = 0 \<longleftrightarrow> x = None"
  shows "read_kem_public flags (option_bytes x) = Ok x"
  using assms by (cases x) (auto simp: read_kem_public_def option_bytes_def kem_public_from_bytes_def)

lemma header_roundtrip:
  assumes "header_wf h"
  shows "header_from_bytes (header_to_bytes h) = Ok h"
proof -
  have l: "length (mh_dh_public h) = KEY_SIZE"
    and ct: "pred_option (\<lambda>ct. length ct = CIPHERTEXT_LEN) (mh_kem_ciphertext h)"
    and pk: "pred_option (\<lambda>pk. length pk = PUBLIC_KEY_LEN) (mh_kem_public h)"
    using assms by (simp_all add: header_wf_def)
  let ?r = "option_bytes (mh_kem_ciphertext h) @ option_bytes (mh_kem_public h)"
  have "\<not> length (header_to_bytes h) < HEADER_FIXED_LEN"
    by (simp add: header_to_bytes_def HEADER_FIXED_LEN_def l)
  then show ?thesis
    using read_kem_ciphertext_written [OF ct header_flags_bits(1), of "option_bytes (mh_kem_public h)"]
      read_kem_public_written [OF pk header_flags_bits(2)]
    by (simp add: header_from_bytes_def header_to_bytes_def l Let_def)
qed

section \<open>Encrypted messages\<close>

record encrypted_message =
  em_encrypted_header :: bytes
  em_header_nonce :: bytes
  em_ciphertext :: bytes
  em_body_nonce :: bytes

definition message_to_bytes :: "encrypted_message \<Rightarrow> bytes outcome" where
  "message_to_bytes m =
     (if length (em_encrypted_header m) > 4294967295 then Panics ''encrypted header exceeds u32::MAX bytes''
      else if length (em_ciphertext m) > 4294967295 then Panics ''ciphertext exceeds u32::MAX bytes''
      else Returns
        (u32_to_be (word_of_nat (length (em_encrypted_header m))) @ em_encrypted_header m @ em_header_nonce m @
         u32_to_be (word_of_nat (length (em_ciphertext m))) @ em_ciphertext m @ em_body_nonce m))"

text \<open>A field with its length in front, and a nonce after it.\<close>

definition read_sized :: "string \<Rightarrow> bytes \<Rightarrow> crypto_error + bytes \<times> bytes \<times> bytes" where
  "read_sized what bs =
     (if length bs < 4
      then Err (SerializationErr (''message too short for '' @
              (if what = ''header'' then ''header length'' else ''ciphertext length'')))
      else
        (let n = unat (u32_from_be bs); r1 = drop 4 bs in
         if length r1 < n
         then Err (SerializationErr (''message too short for '' @
                (if what = ''header'' then ''encrypted header'' else ''ciphertext'')))
         else
           (let r2 = drop n r1 in
            if length r2 < NONCE_SIZE
            then Err (SerializationErr (''message too short for '' @
                   (if what = ''header'' then ''header nonce'' else ''body nonce'')))
            else Ok (take n r1, take NONCE_SIZE r2, drop NONCE_SIZE r2))))"

definition message_from_bytes :: "bytes \<Rightarrow> crypto_error + encrypted_message" where
  "message_from_bytes bs =
     result_bind (read_sized ''header'' bs) (\<lambda>(encrypted_header, header_nonce, r).
     result_bind (read_sized ''ciphertext'' r) (\<lambda>(ciphertext, body_nonce, _).
       Ok \<lparr>em_encrypted_header = encrypted_header, em_header_nonce = header_nonce,
           em_ciphertext = ciphertext, em_body_nonce = body_nonce\<rparr>))"

lemma read_sized_written:
  assumes "length x \<le> 4294967295" "length nonce = NONCE_SIZE"
  shows "read_sized what (u32_to_be (word_of_nat (length x)) @ x @ nonce @ r) = Ok (x, nonce, r)"
proof -
  have "unat (word_of_nat (length x) :: u32) = length x"
    using assms(1) by (simp add: unsigned_of_nat take_bit_nat_eq_self)
  then show ?thesis using assms(2) by (simp add: read_sized_def Let_def)
qed

lemma message_roundtrip:
  assumes "message_to_bytes m = Returns bs" "length (em_header_nonce m) = NONCE_SIZE" "length (em_body_nonce m) = NONCE_SIZE"
  shows "message_from_bytes bs = Ok m"
proof -
  have bs: "bs = u32_to_be (word_of_nat (length (em_encrypted_header m))) @ em_encrypted_header m @ em_header_nonce m @
         u32_to_be (word_of_nat (length (em_ciphertext m))) @ em_ciphertext m @ em_body_nonce m @ []"
    and l: "length (em_encrypted_header m) \<le> 4294967295" "length (em_ciphertext m) \<le> 4294967295"
    using assms(1) by (auto simp: message_to_bytes_def split: if_splits)
  show ?thesis unfolding bs message_from_bytes_def
    by (simp only: read_sized_written [OF l(1) assms(2)] read_sized_written [OF l(2) assms(3)]
        result_bind_simps case_prod_conv) simp
qed

section \<open>Header encryption\<close>

definition encrypt_header ::
  "crypto_prims \<Rightarrow> bytes \<Rightarrow> bytes \<Rightarrow> message_header \<Rightarrow> crypto_error + bytes \<times> bytes" where
  "encrypt_header P header_key nonce header =
     result_bind
       (map_err (\<lambda>e. HeaderEncryptionErr (''encrypt failed: '' @ crypto_error_display e))
          (aead_encrypt P header_key nonce (header_to_bytes header) []))
       (\<lambda>ciphertext. Ok (ciphertext, nonce))"

definition decrypt_header ::
  "crypto_prims \<Rightarrow> bytes \<Rightarrow> bytes \<Rightarrow> bytes \<Rightarrow> crypto_error + message_header" where
  "decrypt_header P header_key encrypted nonce =
     result_bind
       (map_err (\<lambda>e. HeaderEncryptionErr (''decrypt failed: '' @ crypto_error_display e))
          (aead_decrypt P header_key nonce encrypted []))
       header_from_bytes"

text \<open>\<^verbatim>\<open>try_decrypt_header\<close>: the first of several keys that opens the header.\<close>

fun try_decrypt_from ::
  "crypto_prims \<Rightarrow> nat \<Rightarrow> bytes list \<Rightarrow> bytes \<Rightarrow> bytes \<Rightarrow> crypto_error + message_header \<times> nat" where
  "try_decrypt_from P i [] encrypted nonce = Err (HeaderEncryptionErr ''no header key could decrypt the header'')"
| "try_decrypt_from P i (key # keys) encrypted nonce =
     (case decrypt_header P key encrypted nonce of
        Ok header \<Rightarrow> Ok (header, i)
      | Err _ \<Rightarrow> try_decrypt_from P (i + 1) keys encrypted nonce)"

definition try_decrypt_header ::
  "crypto_prims \<Rightarrow> bytes list \<Rightarrow> bytes \<Rightarrow> bytes \<Rightarrow> crypto_error + message_header \<times> nat" where
  "try_decrypt_header P keys encrypted nonce = try_decrypt_from P 0 keys encrypted nonce"

lemma decrypt_encrypt_header:
  assumes "gcm_laws P" "header_wf h" "encrypt_header P k nonce h = Ok (c, nonce')"
  shows "decrypt_header P k c nonce' = Ok h" "nonce' = nonce"
  using assms aead_roundtrip [OF assms(1), of k nonce "header_to_bytes h" "[]" c] header_roundtrip [OF assms(2)]
  by (auto simp: encrypt_header_def decrypt_header_def)

end
