(* ===== verification/Crypto_Ratchet.thy ===== *)
theory Crypto_Ratchet
  imports Crypto_Messages
begin

text \<open>
  The ratchets of \<^verbatim>\<open>pirc-crypto\<close>: the symmetric chain (\<^verbatim>\<open>symmetric_ratchet.rs\<close>), the Diffie-Hellman
  ratchet (\<^verbatim>\<open>dh_ratchet.rs\<close>), the post-quantum ratchet (\<^verbatim>\<open>pq_ratchet.rs\<close>) and the session that combines
  them (\<^verbatim>\<open>triple_ratchet/mod.rs\<close>).

  A method that fails leaves behind what it changed before the failure, so a method returns its
  result and the state afterwards. Counters are words that wrap around, as in a release build.
\<close>

section \<open>The symmetric chain\<close>

definition MAX_SKIP :: u32 where "MAX_SKIP = 1000"

record symmetric_ratchet =
  sr_chain_key :: bytes
  sr_message_number :: u32

definition symmetric_new :: "bytes \<Rightarrow> symmetric_ratchet" where
  "symmetric_new chain_key = \<lparr>sr_chain_key = chain_key, sr_message_number = 0\<rparr>"

definition sr_advance :: "crypto_prims \<Rightarrow> symmetric_ratchet \<Rightarrow> bytes \<times> symmetric_ratchet" where
  "sr_advance P r =
     (case kdf_chain P (sr_chain_key r) [] of
        (new_ck, mk) \<Rightarrow> (mk, \<lparr>sr_chain_key = new_ck, sr_message_number = sr_message_number r + 1\<rparr>))"

fun sr_advance_many :: "crypto_prims \<Rightarrow> nat \<Rightarrow> symmetric_ratchet \<Rightarrow> (u32 \<times> bytes) list \<times> symmetric_ratchet" where
  "sr_advance_many P 0 r = ([], r)"
| "sr_advance_many P (Suc n) r =
     (case sr_advance P r of
        (mk, r1) \<Rightarrow> (case sr_advance_many P n r1 of (keys, r2) \<Rightarrow> ((sr_message_number r, mk) # keys, r2)))"

definition skip_to ::
  "crypto_prims \<Rightarrow> u32 \<Rightarrow> symmetric_ratchet \<Rightarrow> (crypto_error + (u32 \<times> bytes) list) \<times> symmetric_ratchet" where
  "skip_to P target r =
     (if target < sr_message_number r
      then (Err (RatchetErr (''cannot skip backwards: current '' @ nat_to_string (unat (sr_message_number r)) @
              '', target '' @ nat_to_string (unat target))), r)
      else
        (let skip_count = target - sr_message_number r + 1 in
         if skip_count > MAX_SKIP
         then (Err (RatchetErr (''skip distance '' @ nat_to_string (unat skip_count) @ '' exceeds MAX_SKIP (1000)'')), r)
         else (case sr_advance_many P (unat skip_count) r of (keys, r') \<Rightarrow> (Ok keys, r'))))"

section \<open>The Diffie-Hellman ratchet\<close>

record dh_ratchet =
  dr_dh_pair :: key_pair
  dr_remote_public :: "bytes option"
  dr_root_key :: bytes
  dr_sending_chain :: "symmetric_ratchet option"
  dr_receiving_chain :: "symmetric_ratchet option"
  dr_step_count :: u32

definition root_kdf :: "crypto_prims \<Rightarrow> bytes \<Rightarrow> bytes \<Rightarrow> crypto_error + bytes \<times> bytes \<times> bytes" where
  "root_kdf P root dh_output =
     result_bind (derive_key P root dh_output (ascii ''pirc-dh-ratchet-root'') 96)
       (\<lambda>output. Ok (take 32 output, take 32 (drop 32 output), take 32 (drop 64 output)))"

definition dh_init_sender ::
  "crypto_prims \<Rightarrow> bytes \<Rightarrow> bytes \<Rightarrow> bytes \<Rightarrow> crypto_error + dh_ratchet \<times> bytes" where
  "dh_init_sender P secret root_key remote_public =
     (let dh_pair = key_pair_from_secret P secret in
      result_bind (diffie_hellman P dh_pair remote_public) (\<lambda>dh_output.
      result_bind (root_kdf P root_key dh_output) (\<lambda>(new_rk, sending_ck, header_key).
        Ok (\<lparr>dr_dh_pair = dh_pair, dr_remote_public = Some remote_public, dr_root_key = new_rk,
             dr_sending_chain = Some (symmetric_new sending_ck), dr_receiving_chain = None,
             dr_step_count = 0\<rparr>, header_key))))"

definition dh_init_receiver :: "bytes \<Rightarrow> key_pair \<Rightarrow> dh_ratchet" where
  "dh_init_receiver root_key dh_pair =
     \<lparr>dr_dh_pair = dh_pair, dr_remote_public = None, dr_root_key = root_key,
      dr_sending_chain = None, dr_receiving_chain = None, dr_step_count = 0\<rparr>"

definition ratchet_step ::
  "crypto_prims \<Rightarrow> bytes \<Rightarrow> bytes \<Rightarrow> dh_ratchet \<Rightarrow> (crypto_error + bytes \<times> bytes) \<times> dh_ratchet" where
  "ratchet_step P secret new_remote_public d =
     (case result_bind (diffie_hellman P (dr_dh_pair d) new_remote_public) (root_kdf P (dr_root_key d)) of
        Err e \<Rightarrow> (Err e, d)
      | Ok (rk1, recv_chain_key, recv_header_key) \<Rightarrow>
          (let d1 = d\<lparr>dr_root_key := rk1, dr_receiving_chain := Some (symmetric_new recv_chain_key),
                      dr_dh_pair := key_pair_from_secret P secret\<rparr> in
           case result_bind (diffie_hellman P (dr_dh_pair d1) new_remote_public) (root_kdf P (dr_root_key d1)) of
             Err e \<Rightarrow> (Err e, d1)
           | Ok (rk2, send_chain_key, send_header_key) \<Rightarrow>
               (Ok (recv_header_key, send_header_key),
                d1\<lparr>dr_root_key := rk2, dr_sending_chain := Some (symmetric_new send_chain_key),
                   dr_remote_public := Some new_remote_public, dr_step_count := dr_step_count d1 + 1\<rparr>)))"

definition encrypt_message_key :: "crypto_prims \<Rightarrow> dh_ratchet \<Rightarrow> (crypto_error + bytes \<times> u32 \<times> bytes) \<times> dh_ratchet" where
  "encrypt_message_key P d =
     (case dr_sending_chain d of
        None \<Rightarrow> (Err (RatchetErr ''sending chain not initialized''), d)
      | Some chain \<Rightarrow>
          (case sr_advance P chain of
             (mk, chain') \<Rightarrow> (Ok (mk, sr_message_number chain, kp_public (dr_dh_pair d)),
                              d\<lparr>dr_sending_chain := Some chain'\<rparr>)))"

text \<open>The last key of a skip is the target; there is none when the skip distance wraps around to zero.\<close>

definition receive_message_key ::
  "crypto_prims \<Rightarrow> u32 \<Rightarrow> dh_ratchet \<Rightarrow> (crypto_error + bytes \<times> (u32 \<times> bytes) list) outcome \<times> dh_ratchet" where
  "receive_message_key P msg_num d =
     (case dr_receiving_chain d of
        None \<Rightarrow> (Returns (Err (RatchetErr ''receiving chain not initialized'')), d)
      | Some chain \<Rightarrow>
          (let current = sr_message_number chain in
           if msg_num < current
           then (Returns (Err (RatchetErr (''message number '' @ nat_to_string (unat msg_num) @
                   '' already consumed (current: '' @ nat_to_string (unat current) @ '')''))), d)
           else if msg_num = current
           then (case sr_advance P chain of
                   (mk, chain') \<Rightarrow> (Returns (Ok (mk, [])), d\<lparr>dr_receiving_chain := Some chain'\<rparr>))
           else (case skip_to P msg_num chain of
                   (Err e, chain') \<Rightarrow> (Returns (Err e), d\<lparr>dr_receiving_chain := Some chain'\<rparr>)
                 | (Ok keys, chain') \<Rightarrow>
                     (if keys = [] then Panics ''skip_to always returns at least one key''
                      else Returns (Ok (snd (last keys), butlast keys)), d\<lparr>dr_receiving_chain := Some chain'\<rparr>))))"

definition skip_remaining_receiving_keys ::
  "crypto_prims \<Rightarrow> u32 \<Rightarrow> dh_ratchet \<Rightarrow> (crypto_error + (u32 \<times> bytes) list) \<times> dh_ratchet" where
  "skip_remaining_receiving_keys P up_to d =
     (case dr_receiving_chain d of
        None \<Rightarrow> (Ok [], d)
      | Some chain \<Rightarrow>
          if up_to \<le> sr_message_number chain then (Ok [], d)
          else (case skip_to P (up_to - 1) chain of (r, chain') \<Rightarrow> (r, d\<lparr>dr_receiving_chain := Some chain'\<rparr>)))"

section \<open>The post-quantum ratchet\<close>

record pq_ratchet =
  pq_kem_pair :: kem_key_pair
  pq_remote_kem_public :: "bytes option"
  pq_chain_key :: bytes
  pq_step_counter :: u32

definition pq_with_keypair :: "bytes \<Rightarrow> kem_key_pair \<Rightarrow> pq_ratchet" where
  "pq_with_keypair initial_key kem_pair =
     \<lparr>pq_kem_pair = kem_pair, pq_remote_kem_public = None, pq_chain_key = initial_key, pq_step_counter = 0\<rparr>"

definition pq_new :: "crypto_prims \<Rightarrow> bytes \<Rightarrow> bytes \<Rightarrow> pq_ratchet" where
  "pq_new P dk initial_key = pq_with_keypair initial_key (kem_generate P dk)"

definition pq_mix :: "crypto_prims \<Rightarrow> bytes \<Rightarrow> bytes \<Rightarrow> crypto_error + bytes" where
  "pq_mix P chain_key shared_secret = derive_key P chain_key shared_secret (ascii ''pirc-pq-ratchet-chain'') KEY_SIZE"

definition initiate_step ::
  "crypto_prims \<Rightarrow> bytes \<Rightarrow> bytes \<Rightarrow> pq_ratchet \<Rightarrow> (crypto_error + bytes \<times> bytes) \<times> pq_ratchet" where
  "initiate_step P rnd dk q =
     (case pq_remote_kem_public q of
        None \<Rightarrow> (Err (RatchetErr ''remote KEM public key not set''), q)
      | Some remote_pk \<Rightarrow>
          (case result_bind (encapsulate P remote_pk rnd) (\<lambda>(ct, ss).
                  result_bind (pq_mix P (pq_chain_key q) ss) (\<lambda>key. Ok (ct, key))) of
             Err e \<Rightarrow> (Err e, q)
           | Ok (ct, new_key) \<Rightarrow>
               (let kp = kem_generate P dk in
                (Ok (ct, kem_ek kp),
                 q\<lparr>pq_chain_key := new_key, pq_kem_pair := kp, pq_step_counter := pq_step_counter q + 1\<rparr>))))"

definition complete_step ::
  "crypto_prims \<Rightarrow> bytes \<Rightarrow> bytes \<Rightarrow> bytes \<Rightarrow> pq_ratchet \<Rightarrow> (crypto_error + unit) \<times> pq_ratchet" where
  "complete_step P dk ciphertext new_remote_public q =
     (case result_bind (decapsulate P (pq_kem_pair q) ciphertext) (pq_mix P (pq_chain_key q)) of
        Err e \<Rightarrow> (Err e, q)
      | Ok new_key \<Rightarrow>
          (Ok (), q\<lparr>pq_chain_key := new_key, pq_remote_kem_public := Some new_remote_public,
                    pq_kem_pair := kem_generate P dk, pq_step_counter := pq_step_counter q + 1\<rparr>))"

definition decrypt_message_key ::
  "crypto_prims \<Rightarrow> bytes \<Rightarrow> bytes \<Rightarrow> u32 \<Rightarrow> dh_ratchet \<Rightarrow>
     (crypto_error + bytes \<times> (u32 \<times> bytes) list) outcome \<times> dh_ratchet" where
  "decrypt_message_key P secret remote_public msg_num d =
     (if dr_remote_public d \<noteq> Some remote_public
      then (case ratchet_step P secret remote_public d of
              (Err e, d1) \<Rightarrow> (Returns (Err e), d1)
            | (Ok _, d1) \<Rightarrow> receive_message_key P msg_num d1)
      else receive_message_key P msg_num d)"

section \<open>The session\<close>

definition MAX_SKIPPED_KEYS :: nat where "MAX_SKIPPED_KEYS = 1000"
definition DEFAULT_PQ_INTERVAL :: u32 where "DEFAULT_PQ_INTERVAL = 20"
definition MAX_RETAINED_HEADER_KEYS :: nat where "MAX_RETAINED_HEADER_KEYS = 10"

record skipped_key =
  sk_key :: bytes
  sk_dh_step :: u32

record triple_ratchet =
  tr_dh_ratchet :: dh_ratchet
  tr_pq_ratchet :: pq_ratchet
  tr_sending_header_key :: bytes
  tr_receiving_header_key :: bytes
  tr_previous_receiving_header_key :: "bytes option"
  tr_retained_header_keys :: "bytes list"
  tr_next_sending_header_key :: bytes
  tr_next_receiving_header_key :: bytes
  tr_skipped_keys :: "((bytes \<times> u32) \<times> skipped_key) list"
  tr_pq_step_interval :: u32
  tr_dh_steps_since_pq :: u32
  tr_previous_chain_length :: u32
  tr_sending_message_number :: u32
  tr_total_messages_sent :: u64
  tr_total_messages_received :: u64

definition derive_initial_key :: "crypto_prims \<Rightarrow> bytes \<Rightarrow> bytes \<Rightarrow> crypto_error + bytes" where
  "derive_initial_key P shared_secret info = derive_key P shared_secret [] info KEY_SIZE"

definition extract_key :: "bytes \<Rightarrow> nat \<Rightarrow> bytes" where
  "extract_key buf index = take 32 (drop (index * 32) buf)"

definition initial_header_keys :: "crypto_prims \<Rightarrow> bytes \<Rightarrow> crypto_error + bytes" where
  "initial_header_keys P shared_secret =
     derive_key P shared_secret [] (ascii ''pirc-triple-ratchet-header-keys'') 96"

definition triple_init_sender ::
  "crypto_prims \<Rightarrow> bytes \<Rightarrow> bytes \<Rightarrow> bytes \<Rightarrow> bytes \<Rightarrow> bytes \<Rightarrow> crypto_error + triple_ratchet" where
  "triple_init_sender P dh_secret kem_secret shared_secret remote_dh_public remote_kem_public =
     result_bind (derive_initial_key P shared_secret (ascii ''pirc-triple-ratchet-root'')) (\<lambda>root_key.
     result_bind (initial_header_keys P shared_secret) (\<lambda>hk.
     result_bind (dh_init_sender P dh_secret root_key remote_dh_public) (\<lambda>(dh, init_hk).
     result_bind (derive_initial_key P shared_secret (ascii ''pirc-triple-ratchet-pq-chain'')) (\<lambda>pq_key.
       Ok \<lparr>tr_dh_ratchet = dh,
           tr_pq_ratchet = (pq_new P kem_secret pq_key)\<lparr>pq_remote_kem_public := Some remote_kem_public\<rparr>,
           tr_sending_header_key = extract_key hk 0,
           tr_receiving_header_key = extract_key hk 1,
           tr_previous_receiving_header_key = None,
           tr_retained_header_keys = [],
           tr_next_sending_header_key = init_hk,
           tr_next_receiving_header_key = extract_key hk 2,
           tr_skipped_keys = [],
           tr_pq_step_interval = DEFAULT_PQ_INTERVAL,
           tr_dh_steps_since_pq = 0,
           tr_previous_chain_length = 0,
           tr_sending_message_number = 0,
           tr_total_messages_sent = 0,
           tr_total_messages_received = 0\<rparr>))))"

definition triple_init_receiver ::
  "crypto_prims \<Rightarrow> bytes \<Rightarrow> key_pair \<Rightarrow> kem_key_pair \<Rightarrow> crypto_error + triple_ratchet" where
  "triple_init_receiver P shared_secret dh_pair kem_pair =
     result_bind (derive_initial_key P shared_secret (ascii ''pirc-triple-ratchet-root'')) (\<lambda>root_key.
     result_bind (initial_header_keys P shared_secret) (\<lambda>hk.
     result_bind (derive_initial_key P shared_secret (ascii ''pirc-triple-ratchet-pq-chain'')) (\<lambda>pq_key.
       Ok \<lparr>tr_dh_ratchet = dh_init_receiver root_key dh_pair,
           tr_pq_ratchet = pq_with_keypair pq_key kem_pair,
           tr_sending_header_key = extract_key hk 1,
           tr_receiving_header_key = extract_key hk 0,
           tr_previous_receiving_header_key = None,
           tr_retained_header_keys = [],
           tr_next_sending_header_key = extract_key hk 2,
           tr_next_receiving_header_key = extract_key hk 2,
           tr_skipped_keys = [],
           tr_pq_step_interval = DEFAULT_PQ_INTERVAL,
           tr_dh_steps_since_pq = 0,
           tr_previous_chain_length = 0,
           tr_sending_message_number = 0,
           tr_total_messages_sent = 0,
           tr_total_messages_received = 0\<rparr>)))"

text \<open>The values that encrypting or decrypting one message draws.\<close>

record draws =
  d_kem_seed :: bytes
  d_kem_secret :: bytes
  d_dh_secret :: bytes
  d_header_nonce :: bytes
  d_body_nonce :: bytes

definition pq_step_due :: "triple_ratchet \<Rightarrow> bool" where
  "pq_step_due s \<longleftrightarrow> tr_pq_step_interval s > 0 \<and> tr_dh_steps_since_pq s \<ge> tr_pq_step_interval s"

definition encrypt_pq ::
  "crypto_prims \<Rightarrow> draws \<Rightarrow> triple_ratchet \<Rightarrow> (crypto_error + bytes option \<times> bytes option) \<times> triple_ratchet" where
  "encrypt_pq P rnd s =
     (if pq_step_due s
      then (case initiate_step P (d_kem_seed rnd) (d_kem_secret rnd) (tr_pq_ratchet s) of
              (Err e, q) \<Rightarrow> (Err e, s\<lparr>tr_pq_ratchet := q\<rparr>)
            | (Ok (ct, pk), q) \<Rightarrow> (Ok (Some ct, Some pk), s\<lparr>tr_pq_ratchet := q, tr_dh_steps_since_pq := 0\<rparr>))
      else (Ok (None, None), s))"

definition triple_encrypt ::
  "crypto_prims \<Rightarrow> draws \<Rightarrow> bytes \<Rightarrow> triple_ratchet \<Rightarrow> (crypto_error + encrypted_message) \<times> triple_ratchet" where
  "triple_encrypt P rnd plaintext s =
     (case encrypt_pq P rnd s of
        (Err e, s1) \<Rightarrow> (Err e, s1)
      | (Ok (kem_ciphertext, kem_public'), s1) \<Rightarrow>
          (case encrypt_message_key P (tr_dh_ratchet s1) of
             (Err e, d) \<Rightarrow> (Err e, s1\<lparr>tr_dh_ratchet := d\<rparr>)
           | (Ok (message_key, msg_num, dh_public), d) \<Rightarrow>
               (let s2 = s1\<lparr>tr_dh_ratchet := d, tr_sending_message_number := msg_num + 1\<rparr>;
                    header = \<lparr>mh_dh_public = dh_public, mh_message_number = msg_num,
                              mh_previous_chain_length = tr_previous_chain_length s2,
                              mh_kem_ciphertext = kem_ciphertext, mh_kem_public = kem_public'\<rparr> in
                case result_bind (encrypt_header P (tr_sending_header_key s2) (d_header_nonce rnd) header)
                       (\<lambda>(encrypted_header, header_nonce).
                          result_bind (aead_encrypt P message_key (d_body_nonce rnd) plaintext encrypted_header)
                            (\<lambda>ciphertext. Ok (encrypted_header, header_nonce, ciphertext))) of
                  Err e \<Rightarrow> (Err e, s2)
                | Ok (encrypted_header, header_nonce, ciphertext) \<Rightarrow>
                    (Ok \<lparr>em_encrypted_header = encrypted_header, em_header_nonce = header_nonce,
                         em_ciphertext = ciphertext, em_body_nonce = d_body_nonce rnd\<rparr>,
                     s2\<lparr>tr_total_messages_sent := tr_total_messages_sent s2 + 1\<rparr>))))"

definition store_skipped_key :: "bytes \<Rightarrow> u32 \<times> bytes \<Rightarrow> triple_ratchet \<Rightarrow> triple_ratchet" where
  "store_skipped_key dh_public nk s =
     (let kept = (if length (tr_skipped_keys s) \<ge> MAX_SKIPPED_KEYS
                  then (case tr_skipped_keys s of [] \<Rightarrow> [] | (k, _) # _ \<Rightarrow> hm_remove k (tr_skipped_keys s))
                  else tr_skipped_keys s) in
      s\<lparr>tr_skipped_keys := hm_insert (dh_public, fst nk)
           \<lparr>sk_key = snd nk, sk_dh_step = dr_step_count (tr_dh_ratchet s)\<rparr> kept\<rparr>)"

text \<open>\<^verbatim>\<open>Result::ok\<close> of a header decryption.\<close>

definition try_header :: "crypto_prims \<Rightarrow> encrypted_message \<Rightarrow> bytes \<Rightarrow> message_header option" where
  "try_header P m key =
     (case decrypt_header P key (em_encrypted_header m) (em_header_nonce m) of Err _ \<Rightarrow> None | Ok h \<Rightarrow> Some h)"

fun first_some :: "('a \<Rightarrow> 'b option) \<Rightarrow> 'a list \<Rightarrow> 'b option" where
  "first_some f [] = None"
| "first_some f (x # xs) = (case f x of Some y \<Rightarrow> Some y | None \<Rightarrow> first_some f xs)"

definition skipped_header_keys :: "triple_ratchet \<Rightarrow> bytes list" where
  "skipped_header_keys s =
     [tr_receiving_header_key s, tr_next_receiving_header_key s] @
     (case tr_previous_receiving_header_key s of None \<Rightarrow> [] | Some k \<Rightarrow> [k]) @ tr_retained_header_keys s"

definition try_skipped_keys ::
  "crypto_prims \<Rightarrow> encrypted_message \<Rightarrow> triple_ratchet \<Rightarrow> (crypto_error + bytes option) \<times> triple_ratchet" where
  "try_skipped_keys P m s =
     (if tr_skipped_keys s = [] then (Ok None, s)
      else case first_some (try_header P m) (skipped_header_keys s) of
        None \<Rightarrow> (Ok None, s)
      | Some hdr \<Rightarrow>
          (let lookup = (mh_dh_public hdr, mh_message_number hdr) in
           case hm_get (tr_skipped_keys s) lookup of
             None \<Rightarrow> (Ok None, s)
           | Some skipped \<Rightarrow>
               (let s1 = s\<lparr>tr_skipped_keys := hm_remove lookup (tr_skipped_keys s)\<rparr> in
                case aead_decrypt P (sk_key skipped) (em_body_nonce m) (em_ciphertext m) (em_encrypted_header m) of
                  Err e \<Rightarrow> (Err e, s1)
                | Ok plaintext \<Rightarrow>
                    (Ok (Some plaintext), s1\<lparr>tr_total_messages_received := tr_total_messages_received s1 + 1\<rparr>))))"

definition detect_ratchet ::
  "crypto_prims \<Rightarrow> encrypted_message \<Rightarrow> triple_ratchet \<Rightarrow> crypto_error + message_header \<times> bool" where
  "detect_ratchet P m s =
     (case try_header P m (tr_next_receiving_header_key s) of
        Some header \<Rightarrow> Ok (header, True)
      | None \<Rightarrow>
          (case try_header P m (tr_receiving_header_key s) of
             Some header \<Rightarrow> Ok (header, dr_remote_public (tr_dh_ratchet s) \<noteq> Some (mh_dh_public header))
           | None \<Rightarrow>
               (case Option.bind (tr_previous_receiving_header_key s) (try_header P m) of
                  Some header \<Rightarrow> Ok (header, False)
                | None \<Rightarrow> Err (HeaderEncryptionErr ''no header key could decrypt the header''))))"

text \<open>What \<^verbatim>\<open>decrypt\<close> does when the sender's Diffie-Hellman key is new.\<close>

definition save_old_chain ::
  "crypto_prims \<Rightarrow> message_header \<Rightarrow> triple_ratchet \<Rightarrow> (crypto_error + unit) \<times> triple_ratchet" where
  "save_old_chain P header s =
     (case dr_remote_public (tr_dh_ratchet s) of
        None \<Rightarrow> (Ok (), s)
      | Some old_remote \<Rightarrow>
          (case skip_remaining_receiving_keys P (mh_previous_chain_length header) (tr_dh_ratchet s) of
             (Err e, d) \<Rightarrow> (Err e, s\<lparr>tr_dh_ratchet := d\<rparr>)
           | (Ok old_keys, d) \<Rightarrow> (Ok (), fold (store_skipped_key old_remote) old_keys (s\<lparr>tr_dh_ratchet := d\<rparr>))))"

definition rotate_header_keys :: "triple_ratchet \<Rightarrow> triple_ratchet" where
  "rotate_header_keys s =
     s\<lparr>tr_previous_receiving_header_key := Some (tr_receiving_header_key s),
       tr_retained_header_keys :=
         (case tr_previous_receiving_header_key s of
            Some prev \<Rightarrow> if length (tr_retained_header_keys s) < MAX_RETAINED_HEADER_KEYS
                         then tr_retained_header_keys s @ [prev] else tr_retained_header_keys s
          | None \<Rightarrow> tr_retained_header_keys s),
       tr_receiving_header_key := tr_next_receiving_header_key s,
       tr_sending_header_key := tr_next_sending_header_key s\<rparr>"

definition enter_epoch ::
  "crypto_prims \<Rightarrow> bytes \<Rightarrow> message_header \<Rightarrow> triple_ratchet \<Rightarrow> (crypto_error + unit) \<times> triple_ratchet" where
  "enter_epoch P secret header s =
     (case save_old_chain P header s of
        (Err e, s1) \<Rightarrow> (Err e, s1)
      | (Ok _, s1) \<Rightarrow>
          (let s2 = rotate_header_keys s1 in
           case ratchet_step P secret (mh_dh_public header) (tr_dh_ratchet s2) of
             (Err e, d) \<Rightarrow> (Err e, s2\<lparr>tr_dh_ratchet := d\<rparr>)
           | (Ok (recv_hk, send_hk), d) \<Rightarrow>
               (Ok (), s2\<lparr>tr_dh_ratchet := d,
                          tr_dh_steps_since_pq := tr_dh_steps_since_pq s2 + 1,
                          tr_next_receiving_header_key := recv_hk,
                          tr_next_sending_header_key := send_hk,
                          tr_previous_chain_length := tr_sending_message_number s2,
                          tr_sending_message_number := 0\<rparr>)))"

definition decrypt_pq ::
  "crypto_prims \<Rightarrow> bytes \<Rightarrow> message_header \<Rightarrow> triple_ratchet \<Rightarrow> (crypto_error + unit) \<times> triple_ratchet" where
  "decrypt_pq P dk header s =
     (case (mh_kem_ciphertext header, mh_kem_public header) of
        (Some ct, Some new_pk) \<Rightarrow>
          (case complete_step P dk ct new_pk (tr_pq_ratchet s) of (r, q) \<Rightarrow> (r, s\<lparr>tr_pq_ratchet := q\<rparr>))
      | _ \<Rightarrow> (Ok (), s))"

definition decrypt_body ::
  "crypto_prims \<Rightarrow> encrypted_message \<Rightarrow> message_header \<Rightarrow> triple_ratchet \<Rightarrow> (crypto_error + bytes) outcome \<times> triple_ratchet" where
  "decrypt_body P m header s =
     (case receive_message_key P (mh_message_number header) (tr_dh_ratchet s) of
        (Panics e, d) \<Rightarrow> (Panics e, s\<lparr>tr_dh_ratchet := d\<rparr>)
      | (Returns (Err e), d) \<Rightarrow> (Returns (Err e), s\<lparr>tr_dh_ratchet := d\<rparr>)
      | (Returns (Ok (message_key, skipped)), d) \<Rightarrow>
          (let s1 = fold (store_skipped_key (mh_dh_public header)) skipped (s\<lparr>tr_dh_ratchet := d\<rparr>) in
           case aead_decrypt P message_key (em_body_nonce m) (em_ciphertext m) (em_encrypted_header m) of
             Err e \<Rightarrow> (Returns (Err e), s1)
           | Ok plaintext \<Rightarrow>
               (Returns (Ok plaintext), s1\<lparr>tr_total_messages_received := tr_total_messages_received s1 + 1\<rparr>)))"

definition triple_decrypt ::
  "crypto_prims \<Rightarrow> draws \<Rightarrow> encrypted_message \<Rightarrow> triple_ratchet \<Rightarrow> (crypto_error + bytes) outcome \<times> triple_ratchet" where
  "triple_decrypt P rnd m s =
     (case try_skipped_keys P m s of
        (Err e, s0) \<Rightarrow> (Returns (Err e), s0)
      | (Ok (Some plaintext), s0) \<Rightarrow> (Returns (Ok plaintext), s0)
      | (Ok None, s0) \<Rightarrow>
          (case detect_ratchet P m s0 of
             Err e \<Rightarrow> (Returns (Err e), s0)
           | Ok (header, dh_changed) \<Rightarrow>
               (case (if dh_changed then enter_epoch P (d_dh_secret rnd) header s0 else (Ok (), s0)) of
                  (Err e, s1) \<Rightarrow> (Returns (Err e), s1)
                | (Ok _, s1) \<Rightarrow>
                    (case decrypt_pq P (d_kem_secret rnd) header s1 of
                       (Err e, s2) \<Rightarrow> (Returns (Err e), s2)
                     | (Ok _, s2) \<Rightarrow> decrypt_body P m header s2))))"

definition set_pq_interval :: "u32 \<Rightarrow> triple_ratchet \<Rightarrow> triple_ratchet" where
  "set_pq_interval interval s = s\<lparr>tr_pq_step_interval := interval\<rparr>"

definition purge_skipped_keys_older_than :: "u32 \<Rightarrow> triple_ratchet \<Rightarrow> triple_ratchet" where
  "purge_skipped_keys_older_than max_age s =
     (let current = unat (dr_step_count (tr_dh_ratchet s)) in
      s\<lparr>tr_skipped_keys := filter (\<lambda>(_, sk). current - unat (sk_dh_step sk) \<le> unat max_age) (tr_skipped_keys s)\<rparr>)"

end
