(* ===== verification/Crypto_Conversation.thy ===== *)
theory Crypto_Conversation
  imports Crypto_Ratchet
begin

text \<open>
  Two parties in conversation over channels that keep the order of messages, as the server's relay
  does. Each may send at any time, so messages cross; every message that is delivered decrypts to
  what was sent. The invariant \<open>ahead\<close> describes the two sessions and the messages under way.

  The second part is about the post-quantum step: the party that answered the key exchange cannot
  send any more once the step is due.
\<close>

section \<open>Messages under way\<close>

text \<open>\<open>sealed P hk h mk (m, p)\<close>: the message \<open>m\<close> carries the header \<open>h\<close> under \<open>hk\<close> and \<open>p\<close> under \<open>mk\<close>.\<close>

definition sealed :: "crypto_prims \<Rightarrow> bytes \<Rightarrow> message_header \<Rightarrow> bytes \<Rightarrow> encrypted_message \<times> bytes \<Rightarrow> bool" where
  "sealed P hk h mk mp \<longleftrightarrow> header_wf h \<and>
     encrypt_header P hk (em_header_nonce (fst mp)) h = Ok (em_encrypted_header (fst mp), em_header_nonce (fst mp)) \<and>
     aead_encrypt P mk (em_body_nonce (fst mp)) (snd mp) (em_encrypted_header (fst mp)) = Ok (em_ciphertext (fst mp))"

text \<open>
  \<open>on_chain P H hk pub prev ch ms ch'\<close>: sending \<open>ms\<close>, with headers from \<open>H\<close>, took the chain from \<open>ch\<close>
  to \<open>ch'\<close>.
\<close>

fun on_chain ::
  "crypto_prims \<Rightarrow> message_header set \<Rightarrow> bytes \<Rightarrow> bytes \<Rightarrow> u32 \<Rightarrow> symmetric_ratchet \<Rightarrow> (encrypted_message \<times> bytes) list \<Rightarrow> symmetric_ratchet \<Rightarrow> bool" where
  "on_chain P H hk pub prev ch [] ch' \<longleftrightarrow> ch = ch'"
| "on_chain P H hk pub prev ch (mp # ms) ch' \<longleftrightarrow>
     (\<exists>h. sealed P hk h (fst (sr_advance P ch)) mp \<and> mh_dh_public h = pub \<and>
        mh_message_number h = sr_message_number ch \<and> mh_previous_chain_length h = prev \<and> h \<in> H) \<and>
     on_chain P H hk pub prev (snd (sr_advance P ch)) ms ch'"

lemma on_chain_snoc:
  assumes "on_chain P H hk pub prev ch ms ch'" "sealed P hk h (fst (sr_advance P ch')) mp" "mh_dh_public h = pub"
    "mh_message_number h = sr_message_number ch'" "mh_previous_chain_length h = prev" "h \<in> H"
  shows "on_chain P H hk pub prev ch (ms @ [mp]) (snd (sr_advance P ch'))"
  using assms by (induction ms arbitrary: ch) auto

section \<open>Reading one message\<close>

lemma try_header_sealed:
  assumes "gcm_laws P" "sealed P hk h mk (m, p)"
  shows "try_header P m hk = Some h"
  using decrypt_encrypt_header(1) [OF assms(1), of h hk "em_header_nonce m" "em_encrypted_header m" "em_header_nonce m"] assms(2)
  by (simp add: try_header_def sealed_def)

text \<open>Of the header keys that a session tries, not more than one opens the message.\<close>

definition one_key_opens :: "crypto_prims \<Rightarrow> encrypted_message \<Rightarrow> triple_ratchet \<Rightarrow> bool" where
  "one_key_opens P m s \<longleftrightarrow>
     length (filter (\<lambda>k. try_header P m k \<noteq> None)
       ([tr_next_receiving_header_key s, tr_receiving_header_key s] @
        (case tr_previous_receiving_header_key s of None \<Rightarrow> [] | Some k \<Rightarrow> [k]))) \<le> 1"

definition no_kem :: "message_header set \<Rightarrow> bool" where
  "no_kem H \<longleftrightarrow> (\<forall>h\<in>H. mh_kem_ciphertext h = None)"

definition readable :: "triple_ratchet \<Rightarrow> bytes \<Rightarrow> bool" where
  "readable s hk \<longleftrightarrow> hk = tr_receiving_header_key s \<or> tr_previous_receiving_header_key s = Some hk"

lemma detect_same_epoch:
  assumes "gcm_laws P" "sealed P hk h mk (m, p)" "one_key_opens P m s" "readable s hk"
    "dr_remote_public (tr_dh_ratchet s) = Some (mh_dh_public h)"
  shows "detect_ratchet P m s = Ok (h, False)"
  using assms(3-5) try_header_sealed [OF assms(1,2)]
  by (auto simp: detect_ratchet_def one_key_opens_def readable_def split: if_splits)

lemma detect_new_epoch:
  assumes "gcm_laws P" "sealed P hk h mk (m, p)" "one_key_opens P m s"
    "hk = tr_next_receiving_header_key s \<or> dr_remote_public (tr_dh_ratchet s) = None \<and> hk = tr_receiving_header_key s"
  shows "detect_ratchet P m s = Ok (h, True)"
  using assms(3,4) try_header_sealed [OF assms(1,2)]
  by (auto simp: detect_ratchet_def one_key_opens_def split: if_splits)

text \<open>The post-quantum part of a message never stops its decryption.\<close>

lemma derive_key_ok: "0 < n \<Longrightarrow> n \<le> MAX_OUTPUT_LEN \<Longrightarrow> derive_key P salt ikm info n = Ok (hkdf_expand_fn P (hkdf_extract P salt ikm) info n)"
  by (simp add: derive_key_def hkdf_expand_def)

lemma decrypt_pq_ok:
  assumes "kem_laws P"
  obtains q where "decrypt_pq P dk h s = (Ok (), s\<lparr>tr_pq_ratchet := q\<rparr>)"
    "mh_kem_ciphertext h = None \<longrightarrow> q = tr_pq_ratchet s"
proof -
  have step: "\<exists>q'. complete_step P dk ct pk q = (Ok (), q')" for ct pk q
  proof -
    have "kem_decaps P (kem_dk (pq_kem_pair q)) ct \<noteq> None" using assms unfolding kem_laws_def by blast
    then obtain ss where ss: "decapsulate P (pq_kem_pair q) ct = Ok ss" by (auto simp: decapsulate_def)
    obtain key where "pq_mix P (pq_chain_key q) ss = Ok key" by (simp add: pq_mix_def derive_key_ok size_defs)
    with ss show ?thesis by (simp add: complete_step_def)
  qed
  show thesis
  proof (cases "mh_kem_ciphertext h = None \<or> mh_kem_public h = None")
    case True
    then have "decrypt_pq P dk h s = (Ok (), s\<lparr>tr_pq_ratchet := tr_pq_ratchet s\<rparr>)"
      by (auto simp: decrypt_pq_def split: option.split)
    then show ?thesis by (rule that) simp
  next
    case False
    then obtain ct pk where h: "mh_kem_ciphertext h = Some ct" "mh_kem_public h = Some pk" by auto
    obtain q where "complete_step P dk ct pk (tr_pq_ratchet s) = (Ok (), q)" using step by blast
    then have "decrypt_pq P dk h s = (Ok (), s\<lparr>tr_pq_ratchet := q\<rparr>)" by (simp add: decrypt_pq_def h)
    then show ?thesis by (rule that) (simp add: h)
  qed
qed

lemma decrypt_body_ok:
  assumes "gcm_laws P" "sealed P hk h (fst (sr_advance P ch)) (m, p)"
    "dr_receiving_chain (tr_dh_ratchet s) = Some ch" "mh_message_number h = sr_message_number ch"
  shows "decrypt_body P m h s =
    (Returns (Ok p), s\<lparr>tr_dh_ratchet := (tr_dh_ratchet s)\<lparr>dr_receiving_chain := Some (snd (sr_advance P ch))\<rparr>,
                       tr_total_messages_received := tr_total_messages_received s + 1\<rparr>)"
  using assms aead_roundtrip [OF assms(1)]
  by (auto simp: decrypt_body_def receive_message_key_def sealed_def case_prod_beta)

lemma decrypt_same_epoch:
  assumes laws: "gcm_laws P" "kem_laws P" and s: "sealed P hk h (fst (sr_advance P ch)) (m, p)"
    and k: "one_key_opens P m s" "readable s hk" and sk: "tr_skipped_keys s = []"
    and d: "dr_remote_public (tr_dh_ratchet s) = Some (mh_dh_public h)"
      "dr_receiving_chain (tr_dh_ratchet s) = Some ch" "mh_message_number h = sr_message_number ch"
  obtains q where "mh_kem_ciphertext h = None \<longrightarrow> q = tr_pq_ratchet s" "triple_decrypt P rnd m s =
    (Returns (Ok p), s\<lparr>tr_pq_ratchet := q,
        tr_dh_ratchet := (tr_dh_ratchet s)\<lparr>dr_receiving_chain := Some (snd (sr_advance P ch))\<rparr>,
        tr_total_messages_received := tr_total_messages_received s + 1\<rparr>)"
proof -
  obtain q where q: "decrypt_pq P (d_kem_secret rnd) h s = (Ok (), s\<lparr>tr_pq_ratchet := q\<rparr>)"
      "mh_kem_ciphertext h = None \<longrightarrow> q = tr_pq_ratchet s"
    by (rule decrypt_pq_ok [OF laws(2)])
  show thesis
    using that [OF q(2)] detect_same_epoch [OF laws(1) s k d(1)] decrypt_body_ok [OF laws(1) s, of "s\<lparr>tr_pq_ratchet := q\<rparr>"] sk d q(1)
    by (simp add: triple_decrypt_def try_skipped_keys_def)
qed

text \<open>Entering the epoch of a new key of the sender, when nothing of the old epoch is missing.\<close>

lemma enter_epoch_ok:
  assumes "diffie_hellman P (dr_dh_pair (tr_dh_ratchet s)) (mh_dh_public h) = Ok o1"
    "root_kdf P (dr_root_key (tr_dh_ratchet s)) o1 = Ok (rk1, ck1, hk1)"
    "diffie_hellman P (key_pair_from_secret P sec) (mh_dh_public h) = Ok o2"
    "root_kdf P rk1 o2 = Ok (rk2, ck2, hk2)"
    "\<And>c. dr_receiving_chain (tr_dh_ratchet s) = Some c \<Longrightarrow> mh_previous_chain_length h = sr_message_number c"
  shows "enter_epoch P sec h s =
    (Ok (), (rotate_header_keys s)\<lparr>
        tr_dh_ratchet := \<lparr>dr_dh_pair = key_pair_from_secret P sec, dr_remote_public = Some (mh_dh_public h),
          dr_root_key = rk2, dr_sending_chain = Some (symmetric_new ck2),
          dr_receiving_chain = Some (symmetric_new ck1), dr_step_count = dr_step_count (tr_dh_ratchet s) + 1\<rparr>,
        tr_dh_steps_since_pq := tr_dh_steps_since_pq s + 1,
        tr_next_receiving_header_key := hk1, tr_next_sending_header_key := hk2,
        tr_previous_chain_length := tr_sending_message_number s, tr_sending_message_number := 0\<rparr>)"
proof -
  have "save_old_chain P h s = (Ok (), s)"
    using assms(5) by (auto simp: save_old_chain_def skip_remaining_receiving_keys_def split: option.split)
  then show ?thesis
    using assms(1-4) by (simp add: enter_epoch_def ratchet_step_def rotate_header_keys_def Let_def)
qed

lemma decrypt_new_epoch:
  assumes laws: "gcm_laws P" "kem_laws P" and s: "sealed P hk h (fst (sr_advance P (symmetric_new ck1))) (m, p)"
    and k: "one_key_opens P m s"
      "hk = tr_next_receiving_header_key s \<or> dr_remote_public (tr_dh_ratchet s) = None \<and> hk = tr_receiving_header_key s"
    and sk: "tr_skipped_keys s = []" and n: "mh_message_number h = 0"
    and dh: "diffie_hellman P (dr_dh_pair (tr_dh_ratchet s)) (mh_dh_public h) = Ok o1"
      "root_kdf P (dr_root_key (tr_dh_ratchet s)) o1 = Ok (rk1, ck1, hk1)"
      "diffie_hellman P (key_pair_from_secret P (d_dh_secret rnd)) (mh_dh_public h) = Ok o2"
      "root_kdf P rk1 o2 = Ok (rk2, ck2, hk2)"
      "\<And>c. dr_receiving_chain (tr_dh_ratchet s) = Some c \<Longrightarrow> mh_previous_chain_length h = sr_message_number c"
  obtains q where "mh_kem_ciphertext h = None \<longrightarrow> q = tr_pq_ratchet s" "triple_decrypt P rnd m s =
    (Returns (Ok p), (rotate_header_keys s)\<lparr>
        tr_pq_ratchet := q,
        tr_dh_ratchet := \<lparr>dr_dh_pair = key_pair_from_secret P (d_dh_secret rnd), dr_remote_public = Some (mh_dh_public h),
          dr_root_key = rk2, dr_sending_chain = Some (symmetric_new ck2),
          dr_receiving_chain = Some (snd (sr_advance P (symmetric_new ck1))),
          dr_step_count = dr_step_count (tr_dh_ratchet s) + 1\<rparr>,
        tr_dh_steps_since_pq := tr_dh_steps_since_pq s + 1,
        tr_next_receiving_header_key := hk1, tr_next_sending_header_key := hk2,
        tr_previous_chain_length := tr_sending_message_number s, tr_sending_message_number := 0,
        tr_total_messages_received := tr_total_messages_received s + 1\<rparr>)"
proof -
  note e = enter_epoch_ok [OF dh]
  obtain q where q: "decrypt_pq P (d_kem_secret rnd) h (snd (enter_epoch P (d_dh_secret rnd) h s))
      = (Ok (), (snd (enter_epoch P (d_dh_secret rnd) h s))\<lparr>tr_pq_ratchet := q\<rparr>)"
      "mh_kem_ciphertext h = None \<longrightarrow> q = tr_pq_ratchet (snd (enter_epoch P (d_dh_secret rnd) h s))"
    by (rule decrypt_pq_ok [OF laws(2)])
  have "triple_decrypt P rnd m s = decrypt_body P m h ((snd (enter_epoch P (d_dh_secret rnd) h s))\<lparr>tr_pq_ratchet := q\<rparr>)"
    using detect_new_epoch [OF laws(1) s k] sk q(1) e by (simp add: triple_decrypt_def try_skipped_keys_def)
  then show thesis
    using decrypt_body_ok [OF laws(1) s, of "(snd (enter_epoch P (d_dh_secret rnd) h s))\<lparr>tr_pq_ratchet := q\<rparr>"] n q(2)
    by (intro that [of q]) (simp_all add: e symmetric_new_def rotate_header_keys_def)
qed

section \<open>Sending one message\<close>

lemma encrypt_pq_ok:
  assumes "kem_laws P" "encrypt_pq P rnd s = (Ok (ct, pk), s1)"
  shows "\<exists>q n. s1 = s\<lparr>tr_pq_ratchet := q, tr_dh_steps_since_pq := n\<rparr>"
    "pred_option (\<lambda>c. length c = CIPHERTEXT_LEN) ct" "pred_option (\<lambda>k. length k = PUBLIC_KEY_LEN) pk"
    "\<not> pq_step_due s \<Longrightarrow> ct = None \<and> s1 = s"
proof -
  have c: "length c = CIPHERTEXT_LEN" if "encapsulate P ek r = Ok (c, ss)" for ek r c ss
  proof -
    have "\<exists>c' ss'. kem_encaps P ek r = Some (c', ss') \<and> length c' = CIPHERTEXT_LEN"
      using assms(1) unfolding kem_laws_def by blast
    then show ?thesis using that by (auto simp: encapsulate_def)
  qed
  have k: "length (kem_public P dk) = PUBLIC_KEY_LEN" for dk using assms(1) by (simp add: kem_laws_def)
  have id: "\<exists>q n. s = s\<lparr>tr_pq_ratchet := q, tr_dh_steps_since_pq := n\<rparr>" for s :: triple_ratchet
    by (rule exI [of _ "tr_pq_ratchet s"], rule exI [of _ "tr_dh_steps_since_pq s"]) simp
  show "\<exists>q n. s1 = s\<lparr>tr_pq_ratchet := q, tr_dh_steps_since_pq := n\<rparr>"
    "pred_option (\<lambda>c. length c = CIPHERTEXT_LEN) ct" "pred_option (\<lambda>k. length k = PUBLIC_KEY_LEN) pk"
    "\<not> pq_step_due s \<Longrightarrow> ct = None \<and> s1 = s"
    using assms(2) c k
    by (auto simp: encrypt_pq_def initiate_step_def Let_def kem_generate_def
        split: if_splits prod.splits sum.splits option.splits intro: id)
qed

lemma encrypt_ok:
  assumes laws: "kem_laws P" "dh_laws P" and pair: "pair_ok P (dr_dh_pair (tr_dh_ratchet s))"
    and enc: "triple_encrypt P rnd p s = (Ok m, s')"
  obtains ch h q n where
    "dr_sending_chain (tr_dh_ratchet s) = Some ch"
    "sealed P (tr_sending_header_key s) h (fst (sr_advance P ch)) (m, p)"
    "mh_dh_public h = kp_public (dr_dh_pair (tr_dh_ratchet s))" "mh_message_number h = sr_message_number ch"
    "mh_previous_chain_length h = tr_previous_chain_length s"
    "pq_step_due s \<or> mh_kem_ciphertext h = None \<and> q = tr_pq_ratchet s \<and> n = tr_dh_steps_since_pq s"
    "s' = s\<lparr>tr_pq_ratchet := q, tr_dh_steps_since_pq := n,
       tr_dh_ratchet := (tr_dh_ratchet s)\<lparr>dr_sending_chain := Some (snd (sr_advance P ch))\<rparr>,
       tr_sending_message_number := sr_message_number ch + 1,
       tr_total_messages_sent := tr_total_messages_sent s + 1\<rparr>"
proof -
  obtain ct pk s1 where pq: "encrypt_pq P rnd s = (Ok (ct, pk), s1)"
    using enc by (auto simp: triple_encrypt_def split: prod.splits sum.splits)
  obtain q n where s1: "s1 = s\<lparr>tr_pq_ratchet := q, tr_dh_steps_since_pq := n\<rparr>"
    using encrypt_pq_ok(1) [OF laws(1) pq] by blast
  have nd: "ct = None \<and> q = tr_pq_ratchet s \<and> n = tr_dh_steps_since_pq s" if "\<not> pq_step_due s"
    using encrypt_pq_ok(4) [OF laws(1) pq that] s1 by (cases s) simp
  obtain ch where ch: "dr_sending_chain (tr_dh_ratchet s) = Some ch"
    using enc pq s1 by (auto simp: triple_encrypt_def encrypt_message_key_def split: option.splits)
  let ?h = "\<lparr>mh_dh_public = kp_public (dr_dh_pair (tr_dh_ratchet s)), mh_message_number = sr_message_number ch,
      mh_previous_chain_length = tr_previous_chain_length s, mh_kem_ciphertext = ct, mh_kem_public = pk\<rparr>"
  have wf: "header_wf ?h"
    using encrypt_pq_ok(2,3) [OF laws(1) pq] laws(2) pair by (simp add: header_wf_def dh_laws_def pair_ok_def)
  show thesis
    using enc pq ch s1 wf nd
    by (intro that [where ch = ch and h = ?h and q = q and n = n])
      (auto simp: triple_encrypt_def encrypt_message_key_def sealed_def encrypt_header_def Let_def case_prod_beta
        split: sum.splits)
qed

section \<open>The invariant of a conversation\<close>

abbreviation dh_pair :: "triple_ratchet \<Rightarrow> key_pair" where "dh_pair s \<equiv> dr_dh_pair (tr_dh_ratchet s)"
abbreviation dh_public :: "triple_ratchet \<Rightarrow> bytes" where "dh_public s \<equiv> kp_public (dh_pair s)"
abbreviation remote_key :: "triple_ratchet \<Rightarrow> bytes option" where
  "remote_key s \<equiv> dr_remote_public (tr_dh_ratchet s)"
abbreviation sending :: "triple_ratchet \<Rightarrow> symmetric_ratchet option" where
  "sending s \<equiv> dr_sending_chain (tr_dh_ratchet s)"
abbreviation receiving :: "triple_ratchet \<Rightarrow> symmetric_ratchet option" where
  "receiving s \<equiv> dr_receiving_chain (tr_dh_ratchet s)"

text \<open>The messages \<open>ms\<close> continue the receiving chain of \<open>s\<close> up to \<open>e\<close>.\<close>

definition same_epoch ::
  "crypto_prims \<Rightarrow> message_header set \<Rightarrow> triple_ratchet \<Rightarrow> bytes \<Rightarrow> bytes \<Rightarrow> u32 \<Rightarrow> (encrypted_message \<times> bytes) list \<Rightarrow> symmetric_ratchet \<Rightarrow> bool" where
  "same_epoch P H s hk pub prev ms e \<longleftrightarrow>
     (\<exists>c. receiving s = Some c \<and> remote_key s = Some pub \<and> readable s hk \<and> on_chain P H hk pub prev c ms e)"

text \<open>Messages of the epoch before the newest one of \<open>x\<close>, which \<open>y\<close> still reads with its receiving chain.\<close>

definition old_epoch :: "crypto_prims \<Rightarrow> message_header set \<Rightarrow> triple_ratchet \<Rightarrow> triple_ratchet \<Rightarrow> (encrypted_message \<times> bytes) list \<Rightarrow> bool" where
  "old_epoch P H x y ms \<longleftrightarrow> receiving y = None \<and> ms = [] \<or>
     (\<exists>hk pub prev e. same_epoch P H y hk pub prev ms e \<and> sr_message_number e = tr_previous_chain_length x)"

text \<open>Messages of the newest epoch of \<open>x\<close>, which \<open>y\<close> has yet to enter.\<close>

definition new_epoch :: "crypto_prims \<Rightarrow> message_header set \<Rightarrow> triple_ratchet \<Rightarrow> triple_ratchet \<Rightarrow> (encrypted_message \<times> bytes) list \<Rightarrow> bool" where
  "new_epoch P H x y ms \<longleftrightarrow>
     (\<exists>s ck c. diffie_hellman P (dh_pair y) (dh_public x) = Ok s \<and>
        root_kdf P (dr_root_key (tr_dh_ratchet y)) s = Ok (dr_root_key (tr_dh_ratchet x), ck, tr_next_sending_header_key x) \<and>
        sending x = Some c \<and> tr_sending_message_number x = sr_message_number c \<and>
        on_chain P H (tr_sending_header_key x) (dh_public x) (tr_previous_chain_length x) (symmetric_new ck) ms c)"

text \<open>Messages of \<open>y\<close>, whose newest epoch \<open>x\<close> has entered.\<close>

definition known_epoch :: "crypto_prims \<Rightarrow> message_header set \<Rightarrow> triple_ratchet \<Rightarrow> triple_ratchet \<Rightarrow> (encrypted_message \<times> bytes) list \<Rightarrow> bool" where
  "known_epoch P H x y ms \<longleftrightarrow>
     (case sending y of
        None \<Rightarrow> ms = [] \<and> receiving x = None
      | Some c \<Rightarrow> tr_sending_message_number y = sr_message_number c \<and>
          same_epoch P H x (tr_sending_header_key y) (dh_public y) (tr_previous_chain_length y) ms c)"

text \<open>\<open>x\<close> has made the last step of the Diffie-Hellman ratchet.\<close>

definition ahead ::
  "crypto_prims \<Rightarrow> message_header set \<Rightarrow> triple_ratchet \<Rightarrow> triple_ratchet \<Rightarrow> (encrypted_message \<times> bytes) list \<Rightarrow> (encrypted_message \<times> bytes) list \<Rightarrow> bool" where
  "ahead P H x y qxy qyx \<longleftrightarrow>
     pair_ok P (dh_pair x) \<and> pair_ok P (dh_pair y) \<and> tr_skipped_keys x = [] \<and> tr_skipped_keys y = [] \<and>
     remote_key x = Some (dh_public y) \<and> tr_next_receiving_header_key x = tr_next_sending_header_key y \<and>
     (tr_sending_header_key x = tr_next_receiving_header_key y \<or>
        remote_key y = None \<and> tr_sending_header_key x = tr_receiving_header_key y) \<and>
     (\<exists>old new. qxy = old @ new \<and> old_epoch P H x y old \<and> new_epoch P H x y new) \<and> known_epoch P H x y qyx"

text \<open>Sending leaves the header keys and the root key alone.\<close>

definition same_keys :: "triple_ratchet \<Rightarrow> triple_ratchet \<Rightarrow> bool" where
  "same_keys x x' \<longleftrightarrow> tr_sending_header_key x' = tr_sending_header_key x \<and> tr_receiving_header_key x' = tr_receiving_header_key x \<and>
     tr_previous_receiving_header_key x' = tr_previous_receiving_header_key x \<and>
     tr_next_sending_header_key x' = tr_next_sending_header_key x \<and>
     tr_next_receiving_header_key x' = tr_next_receiving_header_key x \<and>
     dr_root_key (tr_dh_ratchet x') = dr_root_key (tr_dh_ratchet x)"

text \<open>A step of the ratchet moves the header keys on, the newest one comes from the root key of \<open>x\<close>.\<close>

definition keys_moved :: "crypto_prims \<Rightarrow> triple_ratchet \<Rightarrow> triple_ratchet \<Rightarrow> triple_ratchet \<Rightarrow> bool" where
  "keys_moved P x y y' \<longleftrightarrow> tr_sending_header_key y' = tr_next_sending_header_key y \<and>
     tr_receiving_header_key y' = tr_next_receiving_header_key y \<and>
     tr_previous_receiving_header_key y' = Some (tr_receiving_header_key y) \<and>
     tr_next_receiving_header_key y' = tr_next_sending_header_key x \<and>
     (\<exists>s ck. root_kdf P (dr_root_key (tr_dh_ratchet x)) s = Ok (dr_root_key (tr_dh_ratchet y'), ck, tr_next_sending_header_key y'))"

lemma readable_cong:
  "readable (s\<lparr>tr_pq_ratchet := q, tr_dh_ratchet := d, tr_total_messages_received := n\<rparr>) hk = readable s hk"
  "readable (s\<lparr>tr_pq_ratchet := q, tr_dh_steps_since_pq := k, tr_dh_ratchet := d, tr_sending_message_number := a,
      tr_total_messages_sent := b\<rparr>) hk = readable s hk"
  by (simp_all add: readable_def)

lemma sr_advance_number [simp]: "sr_message_number (snd (sr_advance P c)) = sr_message_number c + 1"
  by (simp add: sr_advance_def case_prod_beta)

lemma ahead_send_x:
  assumes a: "ahead P H x y qxy qyx" and laws: "kem_laws P" "dh_laws P"
    and enc: "triple_encrypt P rnd p x = (Ok m, x')" and H: "H = UNIV \<or> \<not> pq_step_due x \<and> {h. mh_kem_ciphertext h = None} \<subseteq> H"
  shows "ahead P H x' y (qxy @ [(m, p)]) qyx" "tr_pq_step_interval x' = tr_pq_step_interval x"
    "pq_step_due x \<or> tr_pq_ratchet x' = tr_pq_ratchet x \<and> tr_dh_steps_since_pq x' = tr_dh_steps_since_pq x"
    "old_epoch P H x' y = old_epoch P H x y" "new_epoch P H x y ms \<Longrightarrow> new_epoch P H x' y (ms @ [(m, p)])"
    "\<exists>h mk. sealed P (tr_sending_header_key x) h mk (m, p)" "same_keys x x'"
proof -
  have "pair_ok P (dh_pair x)" using a by (simp add: ahead_def)
  obtain ch h q n where ch: "sending x = Some ch" and se: "sealed P (tr_sending_header_key x) h (fst (sr_advance P ch)) (m, p)"
    and h: "mh_dh_public h = dh_public x" "mh_message_number h = sr_message_number ch"
      "mh_previous_chain_length h = tr_previous_chain_length x"
    and nd: "pq_step_due x \<or> mh_kem_ciphertext h = None \<and> q = tr_pq_ratchet x \<and> n = tr_dh_steps_since_pq x"
    and x': "x' = x\<lparr>tr_pq_ratchet := q, tr_dh_steps_since_pq := n,
       tr_dh_ratchet := (tr_dh_ratchet x)\<lparr>dr_sending_chain := Some (snd (sr_advance P ch))\<rparr>,
       tr_sending_message_number := sr_message_number ch + 1,
       tr_total_messages_sent := tr_total_messages_sent x + 1\<rparr>"
    by (rule encrypt_ok [OF laws \<open>pair_ok P (dh_pair x)\<close> enc])
  have hH: "h \<in> H" using H nd by blast
  obtain old new where q: "qxy = old @ new" "old_epoch P H x y old" "new_epoch P H x y new"
    using a by (auto simp: ahead_def)
  have new: "new_epoch P H x' y (ms @ [(m, p)])" if "new_epoch P H x y ms" for ms
    using that ch on_chain_snoc [OF _ se h hH] unfolding x' new_epoch_def by fastforce
  then show "new_epoch P H x y ms \<Longrightarrow> new_epoch P H x' y (ms @ [(m, p)])" .
  show "\<exists>h mk. sealed P (tr_sending_header_key x) h mk (m, p)" using se by blast
  show "same_keys x x'" by (simp add: same_keys_def x')
  have "new_epoch P H x' y (new @ [(m, p)])" by (rule new [OF q(3)])
  moreover show old: "old_epoch P H x' y = old_epoch P H x y" by (simp add: fun_eq_iff old_epoch_def x')
  moreover have "known_epoch P H x' y qyx"
    using a by (auto simp: ahead_def known_epoch_def same_epoch_def readable_cong x' split: option.splits)
  ultimately show "ahead P H x' y (qxy @ [(m, p)]) qyx" using a q by (auto simp: ahead_def x')
  show "tr_pq_step_interval x' = tr_pq_step_interval x"
    "pq_step_due x \<or> tr_pq_ratchet x' = tr_pq_ratchet x \<and> tr_dh_steps_since_pq x' = tr_dh_steps_since_pq x"
    using nd by (auto simp: x')
qed

lemma ahead_send_y:
  assumes a: "ahead P H x y qxy qyx" and laws: "kem_laws P" "dh_laws P"
    and enc: "triple_encrypt P rnd p y = (Ok m, y')" and H: "H = UNIV \<or> \<not> pq_step_due y \<and> {h. mh_kem_ciphertext h = None} \<subseteq> H"
  shows "ahead P H x y' qxy (qyx @ [(m, p)])" "tr_pq_step_interval y' = tr_pq_step_interval y"
    "pq_step_due y \<or> tr_pq_ratchet y' = tr_pq_ratchet y \<and> tr_dh_steps_since_pq y' = tr_dh_steps_since_pq y"
    "old_epoch P H x y' = old_epoch P H x y" "new_epoch P H x y' = new_epoch P H x y"
proof -
  have "pair_ok P (dh_pair y)" using a by (simp add: ahead_def)
  obtain ch h q n where ch: "sending y = Some ch" and se: "sealed P (tr_sending_header_key y) h (fst (sr_advance P ch)) (m, p)"
    and h: "mh_dh_public h = dh_public y" "mh_message_number h = sr_message_number ch"
      "mh_previous_chain_length h = tr_previous_chain_length y"
    and nd: "pq_step_due y \<or> mh_kem_ciphertext h = None \<and> q = tr_pq_ratchet y \<and> n = tr_dh_steps_since_pq y"
    and y': "y' = y\<lparr>tr_pq_ratchet := q, tr_dh_steps_since_pq := n,
       tr_dh_ratchet := (tr_dh_ratchet y)\<lparr>dr_sending_chain := Some (snd (sr_advance P ch))\<rparr>,
       tr_sending_message_number := sr_message_number ch + 1,
       tr_total_messages_sent := tr_total_messages_sent y + 1\<rparr>"
    by (rule encrypt_ok [OF laws \<open>pair_ok P (dh_pair y)\<close> enc])
  have hH: "h \<in> H" using H nd by blast
  obtain old new where q: "qxy = old @ new" "old_epoch P H x y old" "new_epoch P H x y new"
    using a by (auto simp: ahead_def)
  have "known_epoch P H x y' (qyx @ [(m, p)])"
    using a ch on_chain_snoc [OF _ se h hH] by (fastforce simp: ahead_def known_epoch_def same_epoch_def y')
  moreover show eq: "old_epoch P H x y' = old_epoch P H x y" "new_epoch P H x y' = new_epoch P H x y"
    by (simp_all add: fun_eq_iff old_epoch_def new_epoch_def same_epoch_def readable_cong y')
  ultimately show "ahead P H x y' qxy (qyx @ [(m, p)])" using a q by (auto simp: ahead_def y')
  show "tr_pq_step_interval y' = tr_pq_step_interval y"
    "pq_step_due y \<or> tr_pq_ratchet y' = tr_pq_ratchet y \<and> tr_dh_steps_since_pq y' = tr_dh_steps_since_pq y"
    using nd by (auto simp: y')
qed

text \<open>Delivering a message of an epoch that the receiver is in.\<close>

lemma deliver_same_epoch:
  assumes laws: "gcm_laws P" "kem_laws P" and e: "same_epoch P H s hk pub prev ((m, p) # ms) e"
    and k: "one_key_opens P m s" "tr_skipped_keys s = []"
  obtains q c s' where "triple_decrypt P rnd m s = (Returns (Ok p), s')" "same_epoch P H s' hk pub prev ms e"
    "no_kem H \<longrightarrow> tr_pq_ratchet s' = tr_pq_ratchet s"
    "s' = s\<lparr>tr_pq_ratchet := q,
        tr_dh_ratchet := (tr_dh_ratchet s)\<lparr>dr_receiving_chain := Some (snd (sr_advance P c))\<rparr>,
        tr_total_messages_received := tr_total_messages_received s + 1\<rparr>"
proof -
  obtain c h where c: "receiving s = Some c" "remote_key s = Some pub" "readable s hk"
    and h: "sealed P hk h (fst (sr_advance P c)) (m, p)" "mh_dh_public h = pub" "mh_message_number h = sr_message_number c" "h \<in> H"
    and r: "on_chain P H hk pub prev (snd (sr_advance P c)) ms e"
    using e by (auto simp: same_epoch_def)
  show thesis
    by (rule decrypt_same_epoch [OF laws h(1) k(1) c(3) k(2), of rnd])
      (use c h that r in \<open>auto simp: same_epoch_def readable_cong no_kem_def\<close>)
qed

lemma ahead_deliver_x:
  assumes a: "ahead P H x y qxy ((m, p) # ms)" and laws: "gcm_laws P" "kem_laws P" and k: "one_key_opens P m x"
  obtains x' where "triple_decrypt P rnd m x = (Returns (Ok p), x')" "ahead P H x' y qxy ms"
    "old_epoch P H x' y = old_epoch P H x y" "new_epoch P H x' y = new_epoch P H x y"
    "tr_dh_steps_since_pq x' = tr_dh_steps_since_pq x" "tr_pq_step_interval x' = tr_pq_step_interval x"
    "no_kem H \<longrightarrow> tr_pq_ratchet x' = tr_pq_ratchet x"
proof -
  obtain cy where cy: "sending y = Some cy" "tr_sending_message_number y = sr_message_number cy"
    and e: "same_epoch P H x (tr_sending_header_key y) (dh_public y) (tr_previous_chain_length y) ((m, p) # ms) cy"
    using a by (auto simp: ahead_def known_epoch_def split: option.splits)
  have sk: "tr_skipped_keys x = []" using a by (simp add: ahead_def)
  obtain old new where q: "qxy = old @ new" "old_epoch P H x y old" "new_epoch P H x y new"
    using a by (auto simp: ahead_def)
  obtain q c x' where d: "triple_decrypt P rnd m x = (Returns (Ok p), x')" and e': "same_epoch P H x' (tr_sending_header_key y) (dh_public y) (tr_previous_chain_length y) ms cy"
    and pq: "no_kem H \<longrightarrow> tr_pq_ratchet x' = tr_pq_ratchet x"
    and x': "x' = x\<lparr>tr_pq_ratchet := q,
        tr_dh_ratchet := (tr_dh_ratchet x)\<lparr>dr_receiving_chain := Some (snd (sr_advance P c))\<rparr>,
        tr_total_messages_received := tr_total_messages_received x + 1\<rparr>"
    by (rule deliver_same_epoch [OF laws e k sk])
  have eq: "old_epoch P H x' y = old_epoch P H x y" "new_epoch P H x' y = new_epoch P H x y"
    by (simp_all add: fun_eq_iff old_epoch_def new_epoch_def x')
  moreover have "known_epoch P H x' y ms" using cy e' by (simp add: known_epoch_def)
  ultimately have "ahead P H x' y qxy ms" using a q by (auto simp: ahead_def x')
  with d show thesis using eq by (rule that) (use pq in \<open>simp_all add: x'\<close>)
qed

lemma ahead_deliver_old:
  assumes a: "ahead P H x y ((m, p) # old @ new) qyx" and laws: "gcm_laws P" "kem_laws P" and k: "one_key_opens P m y"
    and o: "old_epoch P H x y ((m, p) # old)" "new_epoch P H x y new"
  obtains y' where "triple_decrypt P rnd m y = (Returns (Ok p), y')" "ahead P H x y' (old @ new) qyx"
    "old_epoch P H x y' old" "new_epoch P H x y' new"
    "tr_dh_steps_since_pq y' = tr_dh_steps_since_pq y" "tr_pq_step_interval y' = tr_pq_step_interval y"
    "no_kem H \<longrightarrow> tr_pq_ratchet y' = tr_pq_ratchet y"
proof -
  obtain hk pub prev e where e: "same_epoch P H y hk pub prev ((m, p) # old) e" "sr_message_number e = tr_previous_chain_length x"
    using o(1) by (auto simp: old_epoch_def)
  have sk: "tr_skipped_keys y = []" using a by (simp add: ahead_def)
  obtain q c y' where d: "triple_decrypt P rnd m y = (Returns (Ok p), y')" and e': "same_epoch P H y' hk pub prev old e"
    and pq: "no_kem H \<longrightarrow> tr_pq_ratchet y' = tr_pq_ratchet y"
    and y': "y' = y\<lparr>tr_pq_ratchet := q,
        tr_dh_ratchet := (tr_dh_ratchet y)\<lparr>dr_receiving_chain := Some (snd (sr_advance P c))\<rparr>,
        tr_total_messages_received := tr_total_messages_received y + 1\<rparr>"
    by (rule deliver_same_epoch [OF laws e(1) k sk])
  have o': "old_epoch P H x y' old" using e' e(2) by (auto simp: old_epoch_def)
  moreover have n': "new_epoch P H x y' new" using o(2) by (simp add: new_epoch_def y')
  moreover have "known_epoch P H x y' qyx" using a by (simp add: ahead_def known_epoch_def y' split: option.splits)
  ultimately have "ahead P H x y' (old @ new) qyx" using a by (auto simp: ahead_def y')
  with d show thesis using o' n' by (rule that) (use pq in \<open>simp_all add: y'\<close>)
qed

lemma ahead_deliver_new:
  assumes a: "ahead P H x y ((m, p) # new) qyx" and laws: "gcm_laws P" "kem_laws P" "dh_laws P" and k: "one_key_opens P m y"
    and o: "old_epoch P H x y []" "new_epoch P H x y ((m, p) # new)"
  obtains y' where "triple_decrypt P rnd m y = (Returns (Ok p), y')" "ahead P H y' x qyx new"
    "old_epoch P H y' x qyx" "new_epoch P H y' x []" "keys_moved P x y y'"
    "tr_dh_steps_since_pq y' = tr_dh_steps_since_pq y + 1" "tr_pq_step_interval y' = tr_pq_step_interval y"
    "no_kem H \<longrightarrow> tr_pq_ratchet y' = tr_pq_ratchet y"
proof -
  obtain o1 ck c h where dh: "diffie_hellman P (dh_pair y) (dh_public x) = Ok o1"
      "root_kdf P (dr_root_key (tr_dh_ratchet y)) o1 = Ok (dr_root_key (tr_dh_ratchet x), ck, tr_next_sending_header_key x)"
    and c: "sending x = Some c" "tr_sending_message_number x = sr_message_number c"
    and h: "sealed P (tr_sending_header_key x) h (fst (sr_advance P (symmetric_new ck))) (m, p)"
      "mh_dh_public h = dh_public x" "mh_message_number h = 0" "mh_previous_chain_length h = tr_previous_chain_length x" "h \<in> H"
    and r: "on_chain P H (tr_sending_header_key x) (dh_public x) (tr_previous_chain_length x) (snd (sr_advance P (symmetric_new ck))) new c"
    using o(2) by (auto simp: new_epoch_def symmetric_new_def)
  let ?kp = "key_pair_from_secret P (d_dh_secret rnd)"
  obtain o2 where o2: "diffie_hellman P ?kp (dh_public x) = Ok o2" "diffie_hellman P (dh_pair x) (kp_public ?kp) = Ok o2"
    using diffie_hellman_agrees [OF laws(3) pair_ok_from_secret] a by (metis ahead_def)
  obtain rk2 ck2 hk2 where kdf: "root_kdf P (dr_root_key (tr_dh_ratchet x)) o2 = Ok (rk2, ck2, hk2)"
    by (simp add: root_kdf_def derive_key_ok size_defs)
  have old: "mh_previous_chain_length h = sr_message_number c'" if "receiving y = Some c'" for c'
    using o(1) that h(4) by (auto simp: old_epoch_def same_epoch_def)
  have key: "tr_sending_header_key x = tr_next_receiving_header_key y \<or>
      remote_key y = None \<and> tr_sending_header_key x = tr_receiving_header_key y"
    and sk: "tr_skipped_keys y = []" using a by (simp_all add: ahead_def)
  obtain q where pq: "mh_kem_ciphertext h = None \<longrightarrow> q = tr_pq_ratchet y"
    and d: "triple_decrypt P rnd m y =
    (Returns (Ok p), (rotate_header_keys y)\<lparr>
        tr_pq_ratchet := q,
        tr_dh_ratchet := \<lparr>dr_dh_pair = ?kp, dr_remote_public = Some (mh_dh_public h),
          dr_root_key = rk2, dr_sending_chain = Some (symmetric_new ck2),
          dr_receiving_chain = Some (snd (sr_advance P (symmetric_new ck))),
          dr_step_count = dr_step_count (tr_dh_ratchet y) + 1\<rparr>,
        tr_dh_steps_since_pq := tr_dh_steps_since_pq y + 1,
        tr_next_receiving_header_key := tr_next_sending_header_key x, tr_next_sending_header_key := hk2,
        tr_previous_chain_length := tr_sending_message_number y, tr_sending_message_number := 0,
        tr_total_messages_received := tr_total_messages_received y + 1\<rparr>)" (is "_ = (_, ?y')")
    by (rule decrypt_new_epoch [OF laws(1,2) h(1) k key sk h(3), of o1 "dr_root_key (tr_dh_ratchet x)" _ rnd o2 rk2 ck2 hk2])
      (use dh o2 kdf old h(2) in auto)
  have o': "old_epoch P H ?y' x qyx"
    using a by (auto simp: ahead_def known_epoch_def old_epoch_def split: option.splits)
  moreover have n': "new_epoch P H ?y' x []" using o2(2) kdf by (simp add: new_epoch_def symmetric_new_def)
  moreover have "known_epoch P H ?y' x new"
    using c r key h(2) by (auto simp: known_epoch_def same_epoch_def readable_def rotate_header_keys_def)
  ultimately have "ahead P H ?y' x qyx new"
    using a h(2) by (auto simp: ahead_def rotate_header_keys_def)
  moreover have km: "keys_moved P x y ?y'" using kdf by (auto simp: keys_moved_def rotate_header_keys_def)
  ultimately show thesis using d o' n' by (intro that [of ?y']) (use pq h(5) in \<open>auto simp: rotate_header_keys_def no_kem_def\<close>)
qed

lemma ahead_deliver_y:
  assumes a: "ahead P H x y ((m, p) # ms) qyx" and laws: "gcm_laws P" "kem_laws P" "dh_laws P" and k: "one_key_opens P m y"
  obtains
    y' where "triple_decrypt P rnd m y = (Returns (Ok p), y')" "ahead P H x y' ms qyx"
      "tr_dh_steps_since_pq y' = tr_dh_steps_since_pq y" "tr_pq_step_interval y' = tr_pq_step_interval y"
      "no_kem H \<longrightarrow> tr_pq_ratchet y' = tr_pq_ratchet y"
    "no_kem H \<longrightarrow> tr_pq_ratchet y' = tr_pq_ratchet y"
  | y' where "triple_decrypt P rnd m y = (Returns (Ok p), y')" "ahead P H y' x qyx ms"
      "old_epoch P H y' x qyx" "new_epoch P H y' x []"
      "tr_dh_steps_since_pq y' = tr_dh_steps_since_pq y + 1" "tr_pq_step_interval y' = tr_pq_step_interval y"
      "no_kem H \<longrightarrow> tr_pq_ratchet y' = tr_pq_ratchet y"
    "no_kem H \<longrightarrow> tr_pq_ratchet y' = tr_pq_ratchet y"
proof -
  obtain old new where q: "(m, p) # ms = old @ new" "old_epoch P H x y old" "new_epoch P H x y new"
    using a by (auto simp: ahead_def)
  show thesis
  proof (cases old)
    case Nil
    then have "ahead P H x y ((m, p) # ms) qyx" "old_epoch P H x y []" "new_epoch P H x y ((m, p) # ms)" using a q by simp_all
    then show ?thesis using that(2) by (rule ahead_deliver_new [OF _ laws k])
  next
    case (Cons mp old')
    then have o: "ahead P H x y ((m, p) # old' @ new) qyx" "old_epoch P H x y ((m, p) # old')" and ms: "ms = old' @ new"
      using a q by auto
    show ?thesis
      by (rule ahead_deliver_old [OF o(1) laws(1,2) k o(2) q(3), where rnd = rnd]) (use that(1) ms in auto)
  qed
qed

section \<open>Conversations\<close>

record conversation =
  cv_a :: triple_ratchet
  cv_b :: triple_ratchet
  cv_to_b :: "(encrypted_message \<times> bytes) list"
  cv_to_a :: "(encrypted_message \<times> bytes) list"

text \<open>
  A party sends, or the first message under way to a party is delivered, with the plaintext kept
  beside the message. The header keys of the receiver are different then, which derived keys are but
  for collisions.
\<close>

inductive talks :: "crypto_prims \<Rightarrow> conversation \<Rightarrow> conversation \<Rightarrow> bool" for P where
  send_a: "triple_encrypt P rnd p (cv_a c) = (Ok m, a') \<Longrightarrow>
     talks P c (c\<lparr>cv_a := a', cv_to_b := cv_to_b c @ [(m, p)]\<rparr>)"
| send_b: "triple_encrypt P rnd p (cv_b c) = (Ok m, b') \<Longrightarrow>
     talks P c (c\<lparr>cv_b := b', cv_to_a := cv_to_a c @ [(m, p)]\<rparr>)"
| deliver_a: "cv_to_a c = (m, p) # ms \<Longrightarrow> one_key_opens P m (cv_a c) \<Longrightarrow> triple_decrypt P rnd m (cv_a c) = (r, a') \<Longrightarrow>
     talks P c (c\<lparr>cv_a := a', cv_to_a := ms\<rparr>)"
| deliver_b: "cv_to_b c = (m, p) # ms \<Longrightarrow> one_key_opens P m (cv_b c) \<Longrightarrow> triple_decrypt P rnd m (cv_b c) = (r, b') \<Longrightarrow>
     talks P c (c\<lparr>cv_b := b', cv_to_b := ms\<rparr>)"

inductive_cases talksE: "talks P c c'"

definition in_step :: "crypto_prims \<Rightarrow> message_header set \<Rightarrow> conversation \<Rightarrow> bool" where
  "in_step P H c \<longleftrightarrow> ahead P H (cv_a c) (cv_b c) (cv_to_b c) (cv_to_a c) \<or> ahead P H (cv_b c) (cv_a c) (cv_to_a c) (cv_to_b c)"

definition crypto_laws :: "crypto_prims \<Rightarrow> bool" where
  "crypto_laws P \<longleftrightarrow> dh_laws P \<and> gcm_laws P \<and> kem_laws P \<and> dsa_laws P"

lemma crypto_lawsD: "crypto_laws P \<Longrightarrow> dh_laws P" "crypto_laws P \<Longrightarrow> gcm_laws P" "crypto_laws P \<Longrightarrow> kem_laws P"
  "crypto_laws P \<Longrightarrow> dsa_laws P"
  by (simp_all add: crypto_laws_def)

lemma in_step_deliver_a:
  assumes "in_step P H c" "crypto_laws P" "cv_to_a c = (m, p) # ms" "one_key_opens P m (cv_a c)"
  obtains a' where "triple_decrypt P rnd m (cv_a c) = (Returns (Ok p), a')" "in_step P H (c\<lparr>cv_a := a', cv_to_a := ms\<rparr>)"
proof (cases "ahead P H (cv_a c) (cv_b c) (cv_to_b c) (cv_to_a c)")
  case True
  show ?thesis
    by (rule ahead_deliver_x [OF True [unfolded assms(3)] crypto_lawsD(2,3) [OF assms(2)] assms(4), of rnd])
      (use that in \<open>auto simp: in_step_def\<close>)
next
  case False
  then have b: "ahead P H (cv_b c) (cv_a c) ((m, p) # ms) (cv_to_b c)" using assms(1,3) by (simp add: in_step_def)
  show ?thesis
    by (rule ahead_deliver_y [OF b crypto_lawsD(2,3,1) [OF assms(2)] assms(4), of rnd])
      (use that in \<open>auto simp: in_step_def\<close>)
qed

lemma in_step_deliver_b:
  assumes "in_step P H c" "crypto_laws P" "cv_to_b c = (m, p) # ms" "one_key_opens P m (cv_b c)"
  obtains b' where "triple_decrypt P rnd m (cv_b c) = (Returns (Ok p), b')" "in_step P H (c\<lparr>cv_b := b', cv_to_b := ms\<rparr>)"
proof -
  let ?c = "c\<lparr>cv_a := cv_b c, cv_b := cv_a c, cv_to_a := cv_to_b c, cv_to_b := cv_to_a c\<rparr>"
  have "in_step P H ?c" "cv_to_a ?c = (m, p) # ms" "one_key_opens P m (cv_a ?c)" using assms by (auto simp: in_step_def)
  from in_step_deliver_a [OF this(1) assms(2) this(2,3), of rnd]
  show thesis using that by (auto simp: in_step_def)
qed

lemma talks_in_step:
  assumes "talks P c c'" "in_step P UNIV c" "crypto_laws P"
  shows "in_step P UNIV c'"
  using assms(1)
proof cases
  case (send_a rnd p m a')
  then show ?thesis
    using assms(2) ahead_send_x [OF _ crypto_lawsD(3,1) [OF assms(3)]] ahead_send_y [OF _ crypto_lawsD(3,1) [OF assms(3)]]
    by (auto simp: in_step_def)
next
  case (send_b rnd p m b')
  then show ?thesis
    using assms(2) ahead_send_x [OF _ crypto_lawsD(3,1) [OF assms(3)]] ahead_send_y [OF _ crypto_lawsD(3,1) [OF assms(3)]]
    by (auto simp: in_step_def)
next
  case (deliver_a m p ms rnd r a')
  then show ?thesis using in_step_deliver_a [OF assms(2,3) deliver_a(2,3), of rnd] by auto
next
  case (deliver_b m p ms rnd r b')
  then show ?thesis using in_step_deliver_b [OF assms(2,3) deliver_b(2,3), of rnd] by auto
qed

text \<open>The sessions that the two sides of a key exchange create.\<close>

definition conversation_start :: "crypto_prims \<Rightarrow> conversation \<Rightarrow> bool" where
  "conversation_start P c \<longleftrightarrow>
     (\<exists>dh_secret kem_secret shared_secret dh_pair kem_pair. pair_ok P dh_pair \<and>
        triple_init_sender P dh_secret kem_secret shared_secret (kp_public dh_pair) (kem_ek kem_pair) = Ok (cv_a c) \<and>
        triple_init_receiver P shared_secret dh_pair kem_pair = Ok (cv_b c)) \<and>
     cv_to_a c = [] \<and> cv_to_b c = []"

lemma session_start_ahead:
  assumes "pair_ok P kp" "dh_laws P" "triple_init_sender P sec ksec ss (kp_public kp) (kem_ek kk) = Ok a"
    "triple_init_receiver P ss kp kk = Ok b"
  shows "ahead P H a b [] []"
proof -
  obtain s where s: "diffie_hellman P (key_pair_from_secret P sec) (kp_public kp) = Ok s"
      "diffie_hellman P kp (kp_public (key_pair_from_secret P sec)) = Ok s"
    by (rule diffie_hellman_agrees [OF assms(2) pair_ok_from_secret assms(1)])
  show ?thesis using assms s
    by (auto simp: triple_init_sender_def triple_init_receiver_def dh_init_sender_def dh_init_receiver_def
        ahead_def old_epoch_def new_epoch_def known_epoch_def symmetric_new_def Let_def)
qed

lemma conversation_start_ahead:
  assumes "conversation_start P c" "dh_laws P"
  shows "ahead P H (cv_a c) (cv_b c) [] []"
  using assms session_start_ahead by (auto simp: conversation_start_def)

text \<open>
  C3. In a conversation over channels that keep the order of messages, every message decrypts to what was sent: whatever the two parties
  have sent and received since the key exchange, in any interleaving, the next message under way to
  either of them decrypts to its plaintext.
\<close>

theorem conversation_delivers:
  assumes laws: "crypto_laws P" and start: "conversation_start P c0" and run: "(talks P)\<^sup>*\<^sup>* c0 c"
  shows "(cv_to_a c = (m, p) # ms \<longrightarrow> one_key_opens P m (cv_a c) \<longrightarrow> fst (triple_decrypt P rnd m (cv_a c)) = Returns (Ok p)) \<and>
    (cv_to_b c = (m, p) # ms \<longrightarrow> one_key_opens P m (cv_b c) \<longrightarrow> fst (triple_decrypt P rnd m (cv_b c)) = Returns (Ok p))"
proof -
  have "in_step P UNIV c"
    using run
  proof induction
    case base
    then show ?case
      using conversation_start_ahead [OF start crypto_lawsD(1) [OF laws]] start by (simp add: in_step_def conversation_start_def)
  next
    case (step c c')
    then show ?case using talks_in_step laws by blast
  qed
  then show ?thesis by (metis in_step_deliver_a in_step_deliver_b laws fst_conv)
qed

section \<open>The post-quantum step silences the responder\<close>

text \<open>The headers without post-quantum data.\<close>

abbreviation plain_headers :: "message_header set" where
  "plain_headers \<equiv> {h. mh_kem_ciphertext h = None}"

definition before_step :: "crypto_prims \<Rightarrow> conversation \<Rightarrow> bool" where
  "before_step P c \<longleftrightarrow>
     tr_pq_step_interval (cv_a c) = DEFAULT_PQ_INTERVAL \<and> tr_pq_step_interval (cv_b c) = DEFAULT_PQ_INTERVAL \<and>
     pq_remote_kem_public (tr_pq_ratchet (cv_b c)) = None \<and> tr_dh_steps_since_pq (cv_a c) \<le> 19 \<and>
     (ahead P plain_headers (cv_a c) (cv_b c) (cv_to_b c) (cv_to_a c) \<and>
        tr_dh_steps_since_pq (cv_b c) = tr_dh_steps_since_pq (cv_a c) \<or>
      ahead P plain_headers (cv_b c) (cv_a c) (cv_to_a c) (cv_to_b c) \<and>
        tr_dh_steps_since_pq (cv_b c) = tr_dh_steps_since_pq (cv_a c) + 1 \<and>
        (tr_dh_steps_since_pq (cv_b c) = 20 \<longrightarrow>
           old_epoch P plain_headers (cv_b c) (cv_a c) (cv_to_a c) \<and> new_epoch P plain_headers (cv_b c) (cv_a c) []))"

lemma no_kem_plain [simp]: "no_kem plain_headers"
  by (simp add: no_kem_def)

lemma step_bounds:
  "(w :: u32) \<le> 19 \<Longrightarrow> w + 1 \<le> 20" "(w :: u32) \<le> 19 \<Longrightarrow> w + 1 \<noteq> 20 \<Longrightarrow> w + 1 \<le> 19"
  by unat_arith+

lemma not_due: "tr_dh_steps_since_pq s \<le> 19 \<Longrightarrow> tr_pq_step_interval s = DEFAULT_PQ_INTERVAL \<Longrightarrow> \<not> pq_step_due s"
  unfolding pq_step_due_def DEFAULT_PQ_INTERVAL_def by unat_arith

lemma blocked_encrypt:
  assumes "pq_step_due s" "pq_remote_kem_public (tr_pq_ratchet s) = None"
  shows "triple_encrypt P rnd p s = (Err (RatchetErr ''remote KEM public key not set''), s)"
  using assms by (simp add: triple_encrypt_def encrypt_pq_def initiate_step_def)

lemma before_step_send_a:
  assumes b: "before_step P c" and laws: "crypto_laws P" and enc: "triple_encrypt P rnd p (cv_a c) = (Ok m, a')"
  shows "before_step P (c\<lparr>cv_a := a', cv_to_b := cv_to_b c @ [(m, p)]\<rparr>)"
proof -
  have nd: "\<not> pq_step_due (cv_a c)" using b by (intro not_due) (simp_all add: before_step_def)
  then have H: "plain_headers = UNIV \<or> \<not> pq_step_due (cv_a c) \<and> plain_headers \<subseteq> plain_headers" by blast
  note x = ahead_send_x [OF _ crypto_lawsD(3,1) [OF laws] enc H] and y = ahead_send_y [OF _ crypto_lawsD(3,1) [OF laws] enc H]
  show ?thesis
  proof (cases "ahead P plain_headers (cv_a c) (cv_b c) (cv_to_b c) (cv_to_a c) \<and>
      tr_dh_steps_since_pq (cv_b c) = tr_dh_steps_since_pq (cv_a c)")
    case True
    then show ?thesis using b nd x [OF True [THEN conjunct1]] by (simp add: before_step_def)
  next
    case False
    then have F: "ahead P plain_headers (cv_b c) (cv_a c) (cv_to_a c) (cv_to_b c)" using b by (auto simp: before_step_def)
    show ?thesis using b nd False y [OF F] by (auto simp: before_step_def)
  qed
qed

lemma before_step_send_b:
  assumes b: "before_step P c" and laws: "crypto_laws P" and enc: "triple_encrypt P rnd p (cv_b c) = (Ok m, b')"
  shows "before_step P (c\<lparr>cv_b := b', cv_to_a := cv_to_a c @ [(m, p)]\<rparr>)"
proof -
  have nd: "\<not> pq_step_due (cv_b c)"
    using enc b blocked_encrypt [of "cv_b c" P rnd p] by (auto simp: before_step_def)
  then have n20: "tr_dh_steps_since_pq (cv_b c) \<noteq> 20"
    using b by (auto simp: before_step_def pq_step_due_def DEFAULT_PQ_INTERVAL_def)
  from nd have H: "plain_headers = UNIV \<or> \<not> pq_step_due (cv_b c) \<and> plain_headers \<subseteq> plain_headers" by blast
  note x = ahead_send_x [OF _ crypto_lawsD(3,1) [OF laws] enc H] and y = ahead_send_y [OF _ crypto_lawsD(3,1) [OF laws] enc H]
  show ?thesis
  proof (cases "ahead P plain_headers (cv_a c) (cv_b c) (cv_to_b c) (cv_to_a c) \<and>
      tr_dh_steps_since_pq (cv_b c) = tr_dh_steps_since_pq (cv_a c)")
    case True
    then show ?thesis using b nd y [OF True [THEN conjunct1]] by (simp add: before_step_def)
  next
    case False
    then have F: "ahead P plain_headers (cv_b c) (cv_a c) (cv_to_a c) (cv_to_b c)" using b by (auto simp: before_step_def)
    show ?thesis using b nd n20 False x [OF F] by (auto simp: before_step_def)
  qed
qed

lemma before_step_deliver_a:
  assumes b: "before_step P c" and laws: "crypto_laws P" and q: "cv_to_a c = (m, p) # ms" and k: "one_key_opens P m (cv_a c)"
    and dec: "triple_decrypt P rnd m (cv_a c) = (r, a')"
  shows "before_step P (c\<lparr>cv_a := a', cv_to_a := ms\<rparr>)"
proof (cases "ahead P plain_headers (cv_a c) (cv_b c) (cv_to_b c) (cv_to_a c) \<and>
      tr_dh_steps_since_pq (cv_b c) = tr_dh_steps_since_pq (cv_a c)")
  case True
  show ?thesis
    by (rule ahead_deliver_x [OF True [THEN conjunct1, unfolded q] crypto_lawsD(2,3) [OF laws] k, of rnd])
      (use b True dec in \<open>auto simp: before_step_def\<close>)
next
  case False
  then have F: "ahead P plain_headers (cv_b c) (cv_a c) ((m, p) # ms) (cv_to_b c)"
      "tr_dh_steps_since_pq (cv_b c) = tr_dh_steps_since_pq (cv_a c) + 1" using b q by (auto simp: before_step_def)
  show ?thesis
  proof (cases "tr_dh_steps_since_pq (cv_b c) = 20")
    case True
    then have o: "old_epoch P plain_headers (cv_b c) (cv_a c) ((m, p) # ms)" "new_epoch P plain_headers (cv_b c) (cv_a c) []"
      using b False q by (auto simp: before_step_def)
    show ?thesis
      by (rule ahead_deliver_old [OF _ crypto_lawsD(2,3) [OF laws] k o, where rnd = rnd])
        (use b F dec in \<open>auto simp: before_step_def\<close>)
  next
    case n20: False
    show ?thesis
      by (rule ahead_deliver_y [OF F(1) crypto_lawsD(2,3,1) [OF laws] k, where rnd = rnd])
        (use b F dec n20 step_bounds(2) in \<open>auto simp: before_step_def\<close>)
  qed
qed

lemma before_step_deliver_b:
  assumes b: "before_step P c" and laws: "crypto_laws P" and q: "cv_to_b c = (m, p) # ms" and k: "one_key_opens P m (cv_b c)"
    and dec: "triple_decrypt P rnd m (cv_b c) = (r, b')"
  shows "before_step P (c\<lparr>cv_b := b', cv_to_b := ms\<rparr>)"
proof (cases "ahead P plain_headers (cv_a c) (cv_b c) (cv_to_b c) (cv_to_a c) \<and>
      tr_dh_steps_since_pq (cv_b c) = tr_dh_steps_since_pq (cv_a c)")
  case True
  show ?thesis
    by (rule ahead_deliver_y [OF True [THEN conjunct1, unfolded q] crypto_lawsD(2,3,1) [OF laws] k, where rnd = rnd])
      (use b True dec in \<open>auto simp: before_step_def\<close>)
next
  case False
  then have F: "ahead P plain_headers (cv_b c) (cv_a c) (cv_to_a c) ((m, p) # ms)" using b q by (auto simp: before_step_def)
  show ?thesis
    by (rule ahead_deliver_x [OF F crypto_lawsD(2,3) [OF laws] k, of rnd])
      (use b False dec in \<open>auto simp: before_step_def\<close>)
qed

lemma talks_before_step:
  "talks P c c' \<Longrightarrow> before_step P c \<Longrightarrow> crypto_laws P \<Longrightarrow> before_step P c'"
  by (elim talksE)
    (auto intro: before_step_send_a before_step_send_b before_step_deliver_a before_step_deliver_b)

lemma before_step_start:
  assumes "conversation_start P c" "dh_laws P"
  shows "before_step P c"
proof -
  have "tr_pq_step_interval (cv_a c) = DEFAULT_PQ_INTERVAL \<and> tr_pq_step_interval (cv_b c) = DEFAULT_PQ_INTERVAL \<and>
     pq_remote_kem_public (tr_pq_ratchet (cv_b c)) = None \<and> tr_dh_steps_since_pq (cv_a c) = 0 \<and>
     tr_dh_steps_since_pq (cv_b c) = 0 \<and> cv_to_a c = [] \<and> cv_to_b c = []"
    using assms(1) unfolding conversation_start_def triple_init_sender_def triple_init_receiver_def pq_with_keypair_def
    by (cases "cv_a c"; cases "cv_b c") auto
  then show ?thesis using conversation_start_ahead [OF assms] by (simp add: before_step_def)
qed

lemma silent_due:
  assumes "before_step P c" "tr_dh_steps_since_pq (cv_b c) = 20"
  shows "triple_encrypt P rnd p (cv_b c) = (Err (RatchetErr ''remote KEM public key not set''), cv_b c)"
    "ahead P plain_headers (cv_b c) (cv_a c) (cv_to_a c) (cv_to_b c)"
proof -
  show "triple_encrypt P rnd p (cv_b c) = (Err (RatchetErr ''remote KEM public key not set''), cv_b c)"
    using assms by (intro blocked_encrypt) (simp_all add: before_step_def pq_step_due_def DEFAULT_PQ_INTERVAL_def)
  have "tr_dh_steps_since_pq (cv_a c) \<noteq> 20" using assms(1) unfolding before_step_def by unat_arith
  then show "ahead P plain_headers (cv_b c) (cv_a c) (cv_to_a c) (cv_to_b c)"
    using assms by (auto simp: before_step_def)
qed

lemma silent_stays:
  assumes "talks P c c'" "before_step P c" "crypto_laws P" "tr_dh_steps_since_pq (cv_b c) = 20"
  shows "tr_dh_steps_since_pq (cv_b c') = 20"
  using assms(1)
proof cases
  case (send_b rnd p m b')
  then show ?thesis using silent_due(1) [OF assms(2,4), of rnd p] by simp
next
  case (deliver_b m p ms rnd r b')
  have "ahead P plain_headers (cv_b c) (cv_a c) (cv_to_a c) ((m, p) # ms)"
    using silent_due(2) [OF assms(2,4)] deliver_b(2) by simp
  then show ?thesis
    by (rule ahead_deliver_x [OF _ crypto_lawsD(2,3) [OF assms(3)] deliver_b(3), where rnd = rnd])
      (use deliver_b assms(4) in auto)
qed (use assms(4) in auto)

text \<open>
  C6. The party that answered a key exchange cannot take part in it for long: it counts one step more than the initiator, and when it has
  made twenty steps of the Diffie-Hellman ratchet a post-quantum step is due, for which it lacks the
  initiator's key. From then on it cannot send any message, whatever happens.
\<close>

theorem responder_falls_silent:
  assumes laws: "crypto_laws P" and start: "conversation_start P c0" and run: "(talks P)\<^sup>*\<^sup>* c0 c"
  shows "tr_dh_steps_since_pq (cv_b c) \<le> 20 \<and>
    (tr_dh_steps_since_pq (cv_b c) = 20 \<longrightarrow> (talks P)\<^sup>*\<^sup>* c c' \<longrightarrow>
       triple_encrypt P rnd p (cv_b c') = (Err (RatchetErr ''remote KEM public key not set''), cv_b c'))"
proof -
  have inv: "before_step P d" if "(talks P)\<^sup>*\<^sup>* c0 d" for d
    using that by induction (use before_step_start [OF start crypto_lawsD(1) [OF laws]] talks_before_step laws in blast)+
  have bound: "tr_dh_steps_since_pq (cv_b c) \<le> 20"
  proof -
    have "tr_dh_steps_since_pq (cv_b c) \<le> 19 \<or> tr_dh_steps_since_pq (cv_b c) = tr_dh_steps_since_pq (cv_a c) + 1"
      "tr_dh_steps_since_pq (cv_a c) \<le> 19" using inv [OF run] by (auto simp: before_step_def)
    then show ?thesis using step_bounds(1) [of "tr_dh_steps_since_pq (cv_a c)"] by unat_arith
  qed
  have "before_step P d \<and> tr_dh_steps_since_pq (cv_b d) = 20"
    if "(talks P)\<^sup>*\<^sup>* c d" "tr_dh_steps_since_pq (cv_b c) = 20" for d
    using that by induction (use inv [OF run] silent_stays [OF _ _ laws] talks_before_step [OF _ _ laws] in blast)+
  then show ?thesis using bound silent_due(1) by blast
qed

section \<open>Conversations that happen\<close>

text \<open>A message that is sent and delivered at once, when the sender is ahead.\<close>

lemma encrypt_succeeds:
  assumes "\<And>k n p a. gcm_seal P k n p a \<noteq> None" "sending s = Some ch" "\<not> pq_step_due s"
  shows "\<exists>m s'. triple_encrypt P rnd p s = (Ok m, s')"
proof -
  have "\<exists>c. aead_encrypt P k n p a = Ok c" for k n p a using assms(1) [of k n p a] by (auto simp: aead_encrypt_def)
  then obtain f where "aead_encrypt P k n p a = Ok (f k n p a)" for k n p a by metis
  then show ?thesis using assms(2,3)
    by (simp add: triple_encrypt_def encrypt_pq_def encrypt_message_key_def encrypt_header_def case_prod_beta Let_def)
qed

lemma keys_moved_cong: "same_keys x x' \<Longrightarrow> keys_moved P x' y y' \<Longrightarrow> keys_moved P x y y'"
  by (simp add: keys_moved_def same_keys_def)

lemma pass_message:
  assumes "ahead P UNIV x y [] []" "crypto_laws P" "\<And>k n p a. gcm_seal P k n p a \<noteq> None" "\<not> pq_step_due x"
    and opens: "\<And>m h mk. sealed P (tr_sending_header_key x) h mk (m, p) \<Longrightarrow> one_key_opens P m y"
  obtains m x' y' where "triple_encrypt P rnd p x = (Ok m, x')" "one_key_opens P m y"
    "triple_decrypt P rnd m y = (Returns (Ok p), y')" "ahead P UNIV y' x' [] []" "same_keys x x'" "keys_moved P x y y'"
    "tr_dh_steps_since_pq x' = tr_dh_steps_since_pq x" "tr_dh_steps_since_pq y' = tr_dh_steps_since_pq y + 1"
proof -
  obtain ch where "sending x = Some ch" and on: "old_epoch P UNIV x y []" "new_epoch P UNIV x y []"
    using assms(1) by (auto simp: ahead_def new_epoch_def)
  then obtain m x' where enc: "triple_encrypt P rnd p x = (Ok m, x')" using encrypt_succeeds assms(3,4) by blast
  note s = ahead_send_x [OF assms(1) crypto_lawsD(3,1) [OF assms(2)] enc, simplified]
  have k: "one_key_opens P m y" using s(6) opens by blast
  have o: "old_epoch P UNIV x' y []" "new_epoch P UNIV x' y [(m, p)]" using s(4) s(5) [of "[]"] on by simp_all
  show thesis
    by (rule ahead_deliver_new [OF s(1) crypto_lawsD(2,3,1) [OF assms(2)] k o, where rnd = rnd])
      (use enc k s(3,7) assms(4) keys_moved_cong in \<open>auto intro!: that\<close>)
qed

text \<open>Primitives that satisfy the laws; they are not secure.\<close>

definition pad :: "nat \<Rightarrow> bytes \<Rightarrow> bytes" where
  "pad n bs = take n (bs @ replicate n 0)"

definition sample_expand :: "bytes \<Rightarrow> bytes \<Rightarrow> nat \<Rightarrow> bytes" where
  "sample_expand prk info n =
     (let c = (case prk of [] \<Rightarrow> 0 | b # _ \<Rightarrow> b) in
      if n = 96 then replicate 32 c @ replicate 32 (c + 64) @ replicate 32 (c + 128)
      else replicate n (c + word_of_nat (length info)))"

definition sample_extract :: "bytes \<Rightarrow> bytes \<Rightarrow> bytes" where
  "sample_extract salt ikm = map (\<lambda>b. b + 1) (take 1 salt)"

definition sample_dh :: "bytes \<Rightarrow> bytes \<Rightarrow> bytes" where
  "sample_dh a b = 1 # tl (map2 (+) (pad 32 a) (pad 32 b))"

definition sample_seal :: "bytes \<Rightarrow> bytes \<Rightarrow> bytes \<Rightarrow> bytes \<Rightarrow> bytes option" where
  "sample_seal k n p a = Some (p @ pad 16 k)"

definition sample_open :: "bytes \<Rightarrow> bytes \<Rightarrow> bytes \<Rightarrow> bytes \<Rightarrow> bytes option" where
  "sample_open k n c a = (let l = length c - 16 in if drop l c = pad 16 k then Some (take l c) else None)"

definition sample_encaps :: "bytes \<Rightarrow> bytes \<Rightarrow> (bytes \<times> bytes) option" where
  "sample_encaps ek r = Some (pad 1088 r, pad 32 r)"

definition sample_decaps :: "bytes \<Rightarrow> bytes \<Rightarrow> bytes option" where
  "sample_decaps dk ct = Some (pad 32 ct)"

definition sample_sign :: "bytes \<Rightarrow> bytes \<Rightarrow> bytes" where
  "sample_sign sk m = pad 3309 sk"

definition sample_verify :: "bytes \<Rightarrow> bytes \<Rightarrow> bytes \<Rightarrow> bool" where
  "sample_verify vk m sig \<longleftrightarrow> pad 1952 sig = vk"

definition sample_valid :: "bytes \<Rightarrow> bool" where
  "sample_valid sig \<longleftrightarrow> True"

lemmas sample_defs = sample_extract_def sample_expand_def sample_dh_def sample_seal_def sample_open_def
  sample_encaps_def sample_decaps_def sample_sign_def sample_verify_def sample_valid_def

definition sample_prims :: crypto_prims where
  "sample_prims =
     \<lparr>hkdf_extract_fn = sample_extract, hkdf_expand_fn = sample_expand, x25519_base = pad 32, x25519_fn = sample_dh,
      gcm_seal = sample_seal, gcm_open = sample_open, kem_public = pad 1184, kem_encaps = sample_encaps,
      kem_decaps = sample_decaps, dsa_public = pad 1952, dsa_sign = sample_sign, dsa_verify = sample_verify,
      dsa_signature_valid = sample_valid\<rparr>"

definition sample_draws :: draws where
  "sample_draws = \<lparr>d_kem_seed = [1], d_kem_secret = [2], d_dh_secret = [3], d_header_nonce = replicate 12 4,
     d_body_nonce = replicate 12 5\<rparr>"

lemma length_pad [simp]: "length (pad n bs) = n"
  by (simp add: pad_def)

lemma pad_pad [simp]: "m \<le> n \<Longrightarrow> pad m (pad n bs) = pad m bs"
  by (auto simp: pad_def min_def take_append take_replicate)

lemma sample_laws: "crypto_laws sample_prims"
proof -
  have "map2 (+) (pad 32 a) (pad 32 b) = map2 (+) (pad 32 b) (pad 32 a)" for a b :: bytes
    by (rule nth_equalityI) (simp_all add: add.commute)
  moreover have "1 # xs \<noteq> replicate 32 (0 :: 8 word)" for xs using replicate_Suc [of 31 "0 :: 8 word"] by simp
  ultimately have "dh_laws sample_prims" by (simp add: dh_laws_def sample_prims_def sample_defs size_defs)
  moreover have "gcm_laws sample_prims" by (simp add: gcm_laws_def sample_prims_def sample_defs size_defs)
  moreover have "kem_laws sample_prims" by (simp add: kem_laws_def sample_prims_def sample_defs size_defs)
  moreover have "dsa_laws sample_prims" by (simp add: dsa_laws_def sample_prims_def sample_defs size_defs)
  ultimately show ?thesis by (simp add: crypto_laws_def)
qed

text \<open>Keys of these primitives are a repeated byte; a step of the root key counts on.\<close>

definition sample_key :: "nat \<Rightarrow> bytes" where "sample_key v = replicate 32 (word_of_nat v)"

lemma sample_root_kdf: "root_kdf sample_prims (sample_key v) s = Ok (sample_key (v + 1), sample_key (v + 65), sample_key (v + 129))"
proof -
  have "take 1 (replicate 32 w) = [w]" for w :: "8 word" by simp
  then have "derive_key sample_prims (sample_key v) s info 96 =
      Ok (replicate 32 (word_of_nat (v + 1)) @ replicate 32 (word_of_nat (v + 65)) @ replicate 32 (word_of_nat (v + 129)))" for info
    by (simp only: derive_key_def hkdf_expand_def hkdf_extract_def sample_prims_def sample_extract_def sample_expand_def
        size_defs sample_key_def crypto_prims.simps) (simp add: ac_simps)
  then show ?thesis by (simp add: root_kdf_def sample_key_def)
qed

definition below :: "nat \<Rightarrow> bytes \<Rightarrow> bool" where
  "below n k \<longleftrightarrow> (\<exists>i<n. k = sample_key i)"

text \<open>A message under the key of \<open>s\<close> is opened by one header key of \<open>y\<close> only.\<close>

definition fits :: "triple_ratchet \<Rightarrow> nat \<Rightarrow> bool" where
  "fits y s \<longleftrightarrow>
     tr_next_receiving_header_key y = sample_key s \<and> below s (tr_receiving_header_key y) \<and>
       pred_option (below s) (tr_previous_receiving_header_key y) \<or>
     tr_receiving_header_key y = sample_key s \<and> tr_previous_receiving_header_key y = None \<and>
       (\<exists>v. s < v \<and> v < 256 \<and> tr_next_receiving_header_key y = sample_key v)"

lemma sample_key_eq: "i < 256 \<Longrightarrow> j < 256 \<Longrightarrow> pad 16 (sample_key i) = pad 16 (sample_key j) \<longleftrightarrow> i = j"
  by (auto simp: pad_def sample_key_def word_of_nat_eq_iff take_bit_nat_eq_self)

lemma sample_try_header:
  assumes "sealed sample_prims hk h mk (m, p)" "pad 16 k \<noteq> pad 16 hk"
  shows "try_header sample_prims m k = None"
proof -
  have "em_encrypted_header m = header_to_bytes h @ pad 16 hk"
    using assms(1) by (auto simp: sealed_def encrypt_header_def aead_encrypt_def sample_prims_def sample_seal_def)
  then show ?thesis using assms(2)
    by (simp add: try_header_def decrypt_header_def aead_decrypt_def sample_prims_def sample_open_def size_defs)
qed

lemma fits_opens:
  assumes "fits y s" "s < 256" "sealed sample_prims (sample_key s) h mk (m, p)"
  shows "one_key_opens sample_prims m y"
proof -
  have w: "try_header sample_prims m (sample_key i) = None" if "i < 256" "i \<noteq> s" for i
    using sample_try_header [OF assms(3)] sample_key_eq that assms(2) by blast
  have "try_header sample_prims m k = None" if "below s k" for k using that w assms(2) by (auto simp: below_def)
  then show ?thesis using assms(1) w
    by (auto simp: fits_def one_key_opens_def split: option.split)
qed

definition sample_turn :: "triple_ratchet \<Rightarrow> triple_ratchet \<Rightarrow> nat \<Rightarrow> nat \<Rightarrow> nat \<Rightarrow> bool" where
  "sample_turn x y s t u \<longleftrightarrow> ahead sample_prims UNIV x y [] [] \<and>
     tr_sending_header_key x = sample_key s \<and> tr_next_receiving_header_key x = sample_key t \<and>
     tr_next_sending_header_key x = sample_key (u + 128) \<and> dr_root_key (tr_dh_ratchet x) = sample_key u \<and>
     s < t \<and> t < u + 128 \<and> fits y s \<and> below (u + 128) (tr_next_receiving_header_key y) \<and>
     below (u + 128) (tr_receiving_header_key y) \<and> below t (tr_receiving_header_key x) \<and>
     pred_option (below t) (tr_previous_receiving_header_key x)"

lemma below_mono: "below m k \<Longrightarrow> m \<le> n \<Longrightarrow> below n k"
  unfolding below_def using order_less_le_trans by blast

lemma below_key: "i < n \<Longrightarrow> below n (sample_key i)"
  unfolding below_def by blast

lemma sample_half_turn:
  assumes turn: "sample_turn x y s t u" and u: "u < 127" and nd: "\<not> pq_step_due x"
  obtains m x' y' where "triple_encrypt sample_prims rnd p x = (Ok m, x')" "one_key_opens sample_prims m y"
    "triple_decrypt sample_prims rnd m y = (Returns (Ok p), y')" "sample_turn y' x' t (u + 128) (u + 1)"
    "tr_dh_steps_since_pq x' = tr_dh_steps_since_pq x" "tr_dh_steps_since_pq y' = tr_dh_steps_since_pq y + 1"
proof -
  note T = turn [unfolded sample_turn_def]
  have seal: "gcm_seal sample_prims k n p a \<noteq> None" for k n p a by (simp add: sample_prims_def sample_seal_def)
  have opens: "one_key_opens sample_prims m y" if "sealed sample_prims (tr_sending_header_key x) h mk (m, p)" for m h mk
    using T u that by (intro fits_opens [of y s]) auto
  obtain m x' y' where M: "triple_encrypt sample_prims rnd p x = (Ok m, x')" "one_key_opens sample_prims m y"
    "triple_decrypt sample_prims rnd m y = (Returns (Ok p), y')" "ahead sample_prims UNIV y' x' [] []"
    "same_keys x x'" "keys_moved sample_prims x y y'"
    "tr_dh_steps_since_pq x' = tr_dh_steps_since_pq x" "tr_dh_steps_since_pq y' = tr_dh_steps_since_pq y + 1"
    by (rule pass_message [OF T [THEN conjunct1] sample_laws seal nd opens])
  have n: "tr_next_sending_header_key y = sample_key t" using T unfolding ahead_def by argo
  have "dr_root_key (tr_dh_ratchet y') = sample_key (u + 1)" "tr_next_sending_header_key y' = sample_key (u + 1 + 128)"
    using M(6) T by (auto simp: keys_moved_def sample_root_kdf add.commute)
  then have "sample_turn y' x' t (u + 128) (u + 1)"
    using M(4-6) T n below_mono [of t _ "u + 1 + 128"] below_key [of t "u + 1 + 128"]
    unfolding sample_turn_def keys_moved_def same_keys_def fits_def [of x'] by simp
  with M show thesis by (intro that)
qed

definition sample_start :: conversation where
  "sample_start =
     (let bob = key_pair_from_secret sample_prims [9]; kem = kem_generate sample_prims [8] in
      case triple_init_sender sample_prims [3] [2] [7] (kp_public bob) (kem_ek kem) of
        Ok a \<Rightarrow> (case triple_init_receiver sample_prims [7] bob kem of
                   Ok b \<Rightarrow> \<lparr>cv_a = a, cv_b = b, cv_to_b = [], cv_to_a = []\<rparr>))"

lemma sample_derive:
  "derive_key sample_prims [7] [] info 32 = Ok (sample_key (8 + length info))"
  "derive_key sample_prims [7] [] info 96 = Ok (sample_key 8 @ sample_key 72 @ sample_key 136)"
  by (simp_all add: derive_key_def hkdf_expand_def hkdf_extract_def sample_prims_def sample_extract_def sample_expand_def
      sample_key_def size_defs)

lemma sample_dh_ok: "\<exists>s. diffie_hellman sample_prims kp pub = Ok s"
proof -
  have "1 # xs \<noteq> replicate 32 (0 :: 8 word)" for xs using replicate_Suc [of 31 "0 :: 8 word"] by simp
  then show ?thesis by (simp add: diffie_hellman_def sample_prims_def sample_dh_def size_defs)
qed

lemma extract_sample:
  "extract_key (sample_key a @ sample_key b @ sample_key c) 0 = sample_key a"
  "extract_key (sample_key a @ sample_key b @ sample_key c) 1 = sample_key b"
  "extract_key (sample_key a @ sample_key b @ sample_key c) 2 = sample_key c"
  by (simp_all add: extract_key_def sample_key_def)

lemma sample_start_ok:
  shows "conversation_start sample_prims sample_start" and "sample_turn (cv_a sample_start) (cv_b sample_start) 8 136 33"
    and "tr_dh_steps_since_pq (cv_a sample_start) = 0" "tr_dh_steps_since_pq (cv_b sample_start) = 0"
proof -
  let ?bob = "key_pair_from_secret sample_prims [9]" and ?kem = "kem_generate sample_prims [8]"
  obtain s where s: "diffie_hellman sample_prims (key_pair_from_secret sample_prims [3]) (kp_public ?bob) = Ok s"
    using sample_dh_ok by blast
  note d = triple_init_sender_def triple_init_receiver_def derive_initial_key_def initial_header_keys_def
    dh_init_sender_def dh_init_receiver_def sample_derive s sample_root_kdf KEY_SIZE_def
  obtain a where a: "triple_init_sender sample_prims [3] [2] [7] (kp_public ?bob) (kem_ek ?kem) = Ok a"
    and ak: "tr_sending_header_key a = sample_key 8" "tr_receiving_header_key a = sample_key 72"
      "tr_previous_receiving_header_key a = None" "tr_next_receiving_header_key a = sample_key 136"
      "tr_next_sending_header_key a = sample_key 161" "dr_root_key (tr_dh_ratchet a) = sample_key 33" "tr_dh_steps_since_pq a = 0"
    by (simp add: d extract_sample extract_sample(2) [simplified] ascii_def)
  obtain b where b: "triple_init_receiver sample_prims [7] ?bob ?kem = Ok b"
    and bk: "tr_receiving_header_key b = sample_key 8" "tr_previous_receiving_header_key b = None"
      "tr_next_receiving_header_key b = sample_key 136" "tr_dh_steps_since_pq b = 0"
    by (simp add: d extract_sample extract_sample(2) [simplified] ascii_def)
  have st: "sample_start = \<lparr>cv_a = a, cv_b = b, cv_to_b = [], cv_to_a = []\<rparr>" by (simp add: sample_start_def a b Let_def)
  show cs: "conversation_start sample_prims sample_start"
    unfolding conversation_start_def st using a b pair_ok_from_secret [of sample_prims "[9]"] by fastforce
  have "fits b 8" unfolding fits_def using bk by (intro disjI2) (auto intro!: exI [of _ 136])
  then show "sample_turn (cv_a sample_start) (cv_b sample_start) 8 136 33"
    using conversation_start_ahead [OF cs crypto_lawsD(1) [OF sample_laws]] ak bk below_key
    by (auto simp: sample_turn_def st)
  show "tr_dh_steps_since_pq (cv_a sample_start) = 0" "tr_dh_steps_since_pq (cv_b sample_start) = 0"
    by (simp_all add: st ak bk)
qed

lemma reachable_before_step:
  assumes "conversation_start P c0" "crypto_laws P" "(talks P)\<^sup>*\<^sup>* c0 c"
  shows "before_step P c"
  using assms(3) by induction
    (use before_step_start [OF assms(1) crypto_lawsD(1) [OF assms(2)]] talks_before_step assms(2) in blast)+

text \<open>\<open>n\<close> rounds, in each of which both sides send a message.\<close>

definition sample_rounds :: "nat \<Rightarrow> conversation \<Rightarrow> bool" where
  "sample_rounds n c \<longleftrightarrow> (talks sample_prims)\<^sup>*\<^sup>* sample_start c \<and> cv_to_a c = [] \<and> cv_to_b c = [] \<and>
     (\<exists>s t. sample_turn (cv_a c) (cv_b c) s t (33 + 2 * n)) \<and>
     tr_dh_steps_since_pq (cv_a c) = word_of_nat n \<and> tr_dh_steps_since_pq (cv_b c) = word_of_nat n"

lemma steps_not_due:
  assumes "before_step P c" "n < 20"
  shows "tr_dh_steps_since_pq (cv_a c) = word_of_nat n \<Longrightarrow> \<not> pq_step_due (cv_a c)"
    "tr_dh_steps_since_pq (cv_b c) = word_of_nat n \<Longrightarrow> \<not> pq_step_due (cv_b c)"
proof -
  have w: "(word_of_nat n :: u32) \<le> 19" using assms(2) by (simp add: word_le_nat_alt unsigned_of_nat take_bit_nat_eq_self)
  have i: "tr_pq_step_interval (cv_a c) = DEFAULT_PQ_INTERVAL" "tr_pq_step_interval (cv_b c) = DEFAULT_PQ_INTERVAL"
    using assms(1) by (simp_all add: before_step_def)
  show "tr_dh_steps_since_pq (cv_a c) = word_of_nat n \<Longrightarrow> \<not> pq_step_due (cv_a c)"
    "tr_dh_steps_since_pq (cv_b c) = word_of_nat n \<Longrightarrow> \<not> pq_step_due (cv_b c)"
    using w i not_due [of "cv_a c"] not_due [of "cv_b c"] by simp_all
qed

text \<open>One message from each side to the other, with nothing else under way.\<close>

lemma sample_pass_b:
  assumes "sample_rounds n c" "n < 20"
  obtains m a b where "(talks sample_prims)\<^sup>*\<^sup>* sample_start (c\<lparr>cv_a := a, cv_to_b := [(m, p)]\<rparr>)"
    "one_key_opens sample_prims m (cv_b c)"
    "(talks sample_prims)\<^sup>*\<^sup>* sample_start (c\<lparr>cv_a := a, cv_b := b\<rparr>)" "\<exists>s t. sample_turn b a s t (34 + 2 * n)"
    "tr_dh_steps_since_pq a = word_of_nat n" "tr_dh_steps_since_pq b = word_of_nat (n + 1)"
proof -
  note R = assms(1) [unfolded sample_rounds_def]
  obtain s t where st: "sample_turn (cv_a c) (cv_b c) s t (33 + 2 * n)" using R by blast
  have nd: "\<not> pq_step_due (cv_a c)"
    using steps_not_due(1) [OF reachable_before_step [OF sample_start_ok(1) sample_laws] assms(2)] R by blast
  obtain m a b where M: "triple_encrypt sample_prims sample_draws p (cv_a c) = (Ok m, a)" "one_key_opens sample_prims m (cv_b c)"
    "triple_decrypt sample_prims sample_draws m (cv_b c) = (Returns (Ok p), b)" "sample_turn b a t (33 + 2 * n + 128) (33 + 2 * n + 1)"
    "tr_dh_steps_since_pq a = tr_dh_steps_since_pq (cv_a c)" "tr_dh_steps_since_pq b = tr_dh_steps_since_pq (cv_b c) + 1"
    by (rule sample_half_turn [OF st _ nd]) (use assms(2) in auto)
  have t1: "talks sample_prims c (c\<lparr>cv_a := a, cv_to_b := [(m, p)]\<rparr>)" using send_a [OF M(1)] R by simp
  have t2: "talks sample_prims (c\<lparr>cv_a := a, cv_to_b := [(m, p)]\<rparr>) (c\<lparr>cv_a := a, cv_b := b\<rparr>)"
    using deliver_b [of "c\<lparr>cv_a := a, cv_to_b := [(m, p)]\<rparr>" m p "[]" sample_prims sample_draws] M(2,3) R by (cases c) simp
  show thesis
    using R t1 t2 M by (intro that [where a = a and m = m and b = b]) (auto intro: rtranclp.rtrancl_into_rtrancl)
qed

lemma sample_round:
  assumes "sample_rounds n c" "n < 19"
  shows "\<exists>c'. sample_rounds (Suc n) c'"
proof -
  obtain m a b s t where B: "(talks sample_prims)\<^sup>*\<^sup>* sample_start (c\<lparr>cv_a := a, cv_b := b\<rparr>)"
      "sample_turn b a s t (34 + 2 * n)" "tr_dh_steps_since_pq a = word_of_nat n" "tr_dh_steps_since_pq b = word_of_nat (n + 1)"
    by (rule sample_pass_b [OF assms(1), of "[]"]) (use assms(2) in auto)
  let ?c = "c\<lparr>cv_a := a, cv_b := b\<rparr>"
  have "\<not> pq_step_due (cv_b ?c)"
    by (rule steps_not_due(2) [OF reachable_before_step [OF sample_start_ok(1) sample_laws B(1)], where n = "n + 1"]) (use B assms(2) in auto)
  then have nd: "\<not> pq_step_due b" by simp
  obtain m b' a' where M: "triple_encrypt sample_prims sample_draws [] b = (Ok m, b')" "one_key_opens sample_prims m a"
    "triple_decrypt sample_prims sample_draws m a = (Returns (Ok []), a')" "sample_turn a' b' t (34 + 2 * n + 128) (34 + 2 * n + 1)"
    "tr_dh_steps_since_pq b' = tr_dh_steps_since_pq b" "tr_dh_steps_since_pq a' = tr_dh_steps_since_pq a + 1"
    by (rule sample_half_turn [OF B(2) _ nd]) (use assms(2) in auto)
  have q: "cv_to_a c = []" "cv_to_b c = []" using assms(1) by (simp_all add: sample_rounds_def)
  have t1: "talks sample_prims ?c (?c\<lparr>cv_b := b', cv_to_a := [(m, [])]\<rparr>)" using send_b [of sample_prims sample_draws "[]" ?c] M(1) q by simp
  have t2: "talks sample_prims (?c\<lparr>cv_b := b', cv_to_a := [(m, [])]\<rparr>) (c\<lparr>cv_a := a', cv_b := b'\<rparr>)"
    using deliver_a [of "?c\<lparr>cv_b := b', cv_to_a := [(m, [])]\<rparr>" m "[]" "[]" sample_prims sample_draws] M(2,3) q by (cases c) simp
  have "sample_rounds (Suc n) (c\<lparr>cv_a := a', cv_b := b'\<rparr>)"
    unfolding sample_rounds_def using B t1 t2 M(4-6) q
    by (auto intro: rtranclp.rtrancl_into_rtrancl simp: ac_simps)
  then show ?thesis by blast
qed

lemma sample_rounds_ex: "n \<le> 19 \<Longrightarrow> \<exists>c. sample_rounds n c"
proof (induction n)
  case 0
  have "cv_to_a sample_start = [] \<and> cv_to_b sample_start = []" using sample_start_ok(1) by (simp add: conversation_start_def)
  then have "sample_rounds 0 sample_start" using sample_start_ok by (auto simp: sample_rounds_def)
  then show ?case by blast
qed (use sample_round in auto)

theorem conversation_delivers_witness:
  "\<exists>m c. (talks sample_prims)\<^sup>*\<^sup>* sample_start c \<and> cv_to_b c = [(m, [1, 2, 3])] \<and>
     fst (triple_decrypt sample_prims sample_draws m (cv_b c)) = Returns (Ok [1, 2, 3])"
proof -
  have "sample_rounds 0 sample_start"
    using sample_start_ok by (auto simp: sample_rounds_def conversation_start_def)
  then obtain m a where c: "(talks sample_prims)\<^sup>*\<^sup>* sample_start (sample_start\<lparr>cv_a := a, cv_to_b := [(m, [1, 2, 3])]\<rparr>)"
      "one_key_opens sample_prims m (cv_b sample_start)"
    by (rule sample_pass_b [of 0 sample_start "[1, 2, 3]"]) auto
  then show ?thesis
    using conversation_delivers [OF sample_laws sample_start_ok(1) c(1), of m "[1, 2, 3]" "[]" sample_draws] by force
qed

theorem responder_falls_silent_witness:
  "\<exists>c. (talks sample_prims)\<^sup>*\<^sup>* sample_start c \<and> tr_dh_steps_since_pq (cv_b c) = 20 \<and>
     fst (triple_encrypt sample_prims sample_draws [1, 2, 3] (cv_b c)) = Err (RatchetErr ''remote KEM public key not set'')"
proof -
  obtain c where "sample_rounds 19 c" using sample_rounds_ex [of 19] by auto
  then obtain a b where c: "(talks sample_prims)\<^sup>*\<^sup>* sample_start (c\<lparr>cv_a := a, cv_b := b\<rparr>)" "tr_dh_steps_since_pq b = word_of_nat 20"
    by (rule sample_pass_b [of 19 c "[]"]) auto
  then show ?thesis
    using responder_falls_silent [OF sample_laws sample_start_ok(1) c(1), of "c\<lparr>cv_a := a, cv_b := b\<rparr>" sample_draws "[1, 2, 3]"]
    by (intro exI [of _ "c\<lparr>cv_a := a, cv_b := b\<rparr>"]) simp
qed

end
