(* ===== verification/Crypto_Exchange.thy ===== *)
theory Crypto_Exchange
  imports Crypto_Keys Crypto_Conversation
begin

text \<open>
  The key exchange of \<^verbatim>\<open>pirc-crypto\<close>: the sender's and the receiver's half (\<^verbatim>\<open>x3dh.rs\<close>) and the
  messages that carry it (\<^verbatim>\<open>protocol.rs\<close>). The two halves derive the same secret, and the
  ratchet sessions that are created from it are the start of a conversation.

  The base64 codec of the text protocol comes from another package; its two functions are arguments.
\<close>

section \<open>The first message\<close>

record x3dh_init =
  xi_sender_identity :: identity_public_key
  xi_ephemeral_public :: bytes
  xi_kem_ciphertext :: bytes
  xi_one_time_id :: "u32 option"
  xi_signed_id :: u32
  xi_kem_id :: u32

record x3dh_sender_result =
  xs_shared_secret :: bytes
  xs_ephemeral_public :: bytes
  xs_kem_ciphertext :: bytes
  xs_one_time_id :: "u32 option"

definition init_to_bytes :: "x3dh_init \<Rightarrow> bytes" where
  "init_to_bytes m =
     identity_public_to_bytes (xi_sender_identity m) @ xi_ephemeral_public m @
     u32_to_le (word_of_nat (length (xi_kem_ciphertext m))) @ xi_kem_ciphertext m @
     (case xi_one_time_id m of Some i \<Rightarrow> 1 # u32_to_le i | None \<Rightarrow> [0]) @
     u32_to_le (xi_signed_id m) @ u32_to_le (xi_kem_id m)"

text \<open>The ids at the end, and before them the ciphertext, whose length is given.\<close>

definition read_ids :: "bytes \<Rightarrow> crypto_error + u32 option \<times> u32 \<times> u32" where
  "read_ids r =
     (if length r < 1 then Err (SerializationErr ''X3DHInitMessage: missing OTPK flag'')
      else
        result_bind
          (if r ! 0 = 1
           then if length (drop 1 r) < 4 then Err (SerializationErr ''X3DHInitMessage: missing OTPK id'')
                else Ok (Some (u32_from_le (drop 1 r)), drop 5 r)
           else Ok (None, drop 1 r))
          (\<lambda>(one_time_id, r').
             if length r' < 8 then Err (SerializationErr ''X3DHInitMessage: missing SPK/KEM pre-key ids'')
             else Ok (one_time_id, u32_from_le r', u32_from_le (drop 4 r'))))"

definition init_from_bytes :: "bytes \<Rightarrow> crypto_error + x3dh_init" where
  "init_from_bytes bs =
     (if length bs < IDENTITY_PUBLIC_KEY_LEN + 32 + 4 + 1 + 4 + 4
      then Err (SerializationErr (''X3DHInitMessage: expected at least 2029 bytes, got '' @ nat_to_string (length bs)))
      else
        result_bind (identity_public_from_bytes (take IDENTITY_PUBLIC_KEY_LEN bs)) (\<lambda>sender_identity.
          let r1 = drop IDENTITY_PUBLIC_KEY_LEN bs;
              ephemeral_public = take 32 r1;
              r2 = drop 32 r1;
              kem_ct_len = unat (u32_from_le r2);
              r3 = drop 4 r2 in
          if length r3 < kem_ct_len
          then Err (SerializationErr (''X3DHInitMessage: KEM ciphertext truncated (need '' @ nat_to_string kem_ct_len @
                 '', have '' @ nat_to_string (length r3) @ '')''))
          else
            result_bind (kem_ciphertext_from_bytes (take kem_ct_len r3)) (\<lambda>ct.
            result_bind (read_ids (drop kem_ct_len r3)) (\<lambda>(one_time_id, signed_id, kem_id).
              Ok \<lparr>xi_sender_identity = sender_identity, xi_ephemeral_public = ephemeral_public, xi_kem_ciphertext = ct,
                  xi_one_time_id = one_time_id, xi_signed_id = signed_id, xi_kem_id = kem_id\<rparr>))))"

definition init_wf :: "x3dh_init \<Rightarrow> bool" where
  "init_wf m \<longleftrightarrow> identity_public_wf (xi_sender_identity m) \<and> length (xi_ephemeral_public m) = 32 \<and>
     length (xi_kem_ciphertext m) = CIPHERTEXT_LEN"

lemma read_ids_written:
  "read_ids ((case x of Some i \<Rightarrow> 1 # u32_to_le i | None \<Rightarrow> [0]) @ u32_to_le s @ u32_to_le k) = Ok (x, s, k)"
  by (cases x) (simp_all add: read_ids_def)

lemma init_roundtrip:
  assumes "init_wf m"
  shows "init_from_bytes (init_to_bytes m) = Ok m"
proof -
  have "unat (word_of_nat CIPHERTEXT_LEN :: u32) = CIPHERTEXT_LEN" "0 < CIPHERTEXT_LEN" by (simp_all add: size_defs)
  then show ?thesis
    using assms read_ids_written [of "xi_one_time_id m" "xi_signed_id m" "xi_kem_id m"]
    by (simp add: init_wf_def init_from_bytes_def init_to_bytes_def Let_def identity_public.enc_length identity_public.dec_enc
        kem_ciphertext_from_bytes_def)
qed

section \<open>The two halves\<close>

definition HKDF_SALT :: bytes where "HKDF_SALT = replicate 32 0"
definition HKDF_INFO :: bytes where "HKDF_INFO = ascii ''pirc-x3dh-shared-secret''"

text \<open>The optional fourth Diffie-Hellman operation and the derivation, which both halves share.\<close>

definition dh_optional :: "('a \<Rightarrow> crypto_error + bytes) \<Rightarrow> 'a option \<Rightarrow> crypto_error + bytes option" where
  "dh_optional f x = (case x of Some a \<Rightarrow> result_bind (f a) (\<lambda>s. Ok (Some s)) | None \<Rightarrow> Ok None)"

definition x3dh_ikm :: "bytes \<Rightarrow> bytes \<Rightarrow> bytes \<Rightarrow> bytes option \<Rightarrow> bytes \<Rightarrow> bytes" where
  "x3dh_ikm dh1 dh2 dh3 dh4 kem_ss = dh1 @ dh2 @ dh3 @ option_bytes dh4 @ kem_ss"

definition x3dh_sender ::
  "crypto_prims \<Rightarrow> bytes \<Rightarrow> bytes \<Rightarrow> identity_key_pair \<Rightarrow> pre_key_bundle \<Rightarrow> crypto_error + x3dh_sender_result \<times> x3dh_init" where
  "x3dh_sender P eph_secret kem_rnd sender_identity bundle =
     result_bind (bundle_validate P bundle) (\<lambda>_.
       let ephemeral = key_pair_from_secret P eph_secret in
     result_bind (diffie_hellman P (ik_dh sender_identity) (spp_public (pb_signed bundle))) (\<lambda>dh1.
     result_bind (diffie_hellman P ephemeral (ip_dh_public (pb_identity bundle))) (\<lambda>dh2.
     result_bind (diffie_hellman P ephemeral (spp_public (pb_signed bundle))) (\<lambda>dh3.
     result_bind (dh_optional (\<lambda>otpk. diffie_hellman P ephemeral (opp_public otpk)) (pb_one_time bundle)) (\<lambda>dh4.
     result_bind (encapsulate P (kpp_public (pb_kem bundle)) kem_rnd) (\<lambda>(ct, kem_ss).
     result_bind (derive_key P HKDF_SALT (x3dh_ikm dh1 dh2 dh3 dh4 kem_ss) HKDF_INFO 32) (\<lambda>shared_secret.
       let used = map_option opp_id (pb_one_time bundle) in
       Ok (\<lparr>xs_shared_secret = shared_secret, xs_ephemeral_public = kp_public ephemeral,
            xs_kem_ciphertext = ct, xs_one_time_id = used\<rparr>,
           \<lparr>xi_sender_identity = public_identity sender_identity, xi_ephemeral_public = kp_public ephemeral,
            xi_kem_ciphertext = ct, xi_one_time_id = used, xi_signed_id = spp_id (pb_signed bundle),
            xi_kem_id = kpp_id (pb_kem bundle)\<rparr>))))))))"

definition x3dh_receiver ::
  "crypto_prims \<Rightarrow> identity_key_pair \<Rightarrow> signed_pre_key \<Rightarrow> kem_pre_key \<Rightarrow> one_time_pre_key option \<Rightarrow> x3dh_init \<Rightarrow> crypto_error + bytes" where
  "x3dh_receiver P receiver_identity spk kpk opk init =
     result_bind (diffie_hellman P (spk_pair spk) (ip_dh_public (xi_sender_identity init))) (\<lambda>dh1.
     result_bind (diffie_hellman P (ik_dh receiver_identity) (xi_ephemeral_public init)) (\<lambda>dh2.
     result_bind (diffie_hellman P (spk_pair spk) (xi_ephemeral_public init)) (\<lambda>dh3.
     result_bind (dh_optional (\<lambda>otpk. diffie_hellman P (opk_pair otpk) (xi_ephemeral_public init)) opk) (\<lambda>dh4.
     result_bind (decapsulate P (kpk_pair kpk) (xi_kem_ciphertext init)) (\<lambda>kem_ss.
       derive_key P HKDF_SALT (x3dh_ikm dh1 dh2 dh3 dh4 kem_ss) HKDF_INFO 32)))))"

section \<open>The keys of a party\<close>

text \<open>What a party publishes a bundle of.\<close>

record party_keys =
  pk_identity :: identity_key_pair
  pk_signed :: signed_pre_key
  pk_kem :: kem_pre_key

definition published :: "party_keys \<Rightarrow> one_time_pre_key option \<Rightarrow> pre_key_bundle" where
  "published k opk = \<lparr>pb_identity = public_identity (pk_identity k), pb_signed = signed_to_public (pk_signed k),
     pb_kem = kem_pre_to_public (pk_kem k), pb_one_time = map_option one_time_to_public opk\<rparr>"

definition party_wf :: "crypto_prims \<Rightarrow> party_keys \<Rightarrow> bool" where
  "party_wf P k \<longleftrightarrow> identity_wf P (pk_identity k) \<and> signed_wf P (pk_signed k) \<and> kem_pre_wf P (pk_kem k) \<and>
     bundle_validate P (published k None) = Ok ()"

lemma published_valid: "party_wf P k \<Longrightarrow> bundle_validate P (published k opk) = Ok ()"
  by (simp add: party_wf_def bundle_validate_def published_def)

lemma published_wf: "party_wf P k \<Longrightarrow> pred_option (one_time_wf P) opk \<Longrightarrow> bundle_wf P (published k opk)"
  by (cases opk) (auto simp: party_wf_def bundle_wf_def published_def public_identity_wf signed_to_public_wf
      kem_pre_to_public_wf one_time_to_public_wf)

text \<open>Generated keys are such keys.\<close>

lemma party_generated:
  assumes "dh_laws P" "kem_laws P" "dsa_laws P" "length sk = SIGNING_KEY_LEN" "length s = KEY_SIZE" "length s' = KEY_SIZE"
    "length dk = SECRET_KEY_LEN" "ik = identity_generate P sk s" "signed_generate P s' i ik t = Ok spk" "kem_pre_generate P dk j ik = Ok kpk"
  shows "party_wf P \<lparr>pk_identity = ik, pk_signed = spk, pk_kem = kpk\<rparr>"
proof -
  have i: "identity_wf P ik" using assms identity_wf_generated by blast
  show ?thesis
    using i signed_generate_ok [OF assms(1,3) i assms(6,9)] kem_pre_generate_ok [OF assms(2,3) i assms(7,10)]
    by (simp add: party_wf_def bundle_validate_def published_def)
qed

section \<open>Agreement\<close>

lemma kem_agrees:
  assumes "kem_laws P" "kem_pair_wf P kp"
  obtains ct ss where "encapsulate P (kem_ek kp) rnd = Ok (ct, ss)" "decapsulate P kp ct = Ok ss" "length ct = CIPHERTEXT_LEN"
proof -
  obtain ct ss where e: "kem_encaps P (kem_public P (kem_dk kp)) rnd = Some (ct, ss)" "length ct = CIPHERTEXT_LEN"
    using assms(1) unfolding kem_laws_def by blast
  then have "kem_decaps P (kem_dk kp) ct = Some ss" using assms(1) unfolding kem_laws_def by blast
  then show thesis using that e assms(2) by (simp add: encapsulate_def decapsulate_def kem_pair_wf_def)
qed

text \<open>The secret of the key material \<open>ikm\<close>, and the fourth Diffie-Hellman secret as the sender computes it.\<close>

definition x3dh_secret :: "crypto_prims \<Rightarrow> bytes \<Rightarrow> bytes" where
  "x3dh_secret P ikm = hkdf_expand_fn P (hkdf_extract P HKDF_SALT ikm) HKDF_INFO 32"

definition fourth_secret :: "crypto_prims \<Rightarrow> bytes \<Rightarrow> one_time_pre_key option \<Rightarrow> bytes option" where
  "fourth_secret P es opk = map_option (\<lambda>k. x25519_fn P es (kp_public (opk_pair k))) opk"

lemma derive_x3dh [simp]: "derive_key P HKDF_SALT ikm HKDF_INFO 32 = Ok (x3dh_secret P ikm)"
  by (simp add: derive_key_def hkdf_expand_def x3dh_secret_def size_defs)

lemma dh_optional_agrees:
  assumes "dh_laws P" "pred_option (one_time_wf P) opk"
  shows "dh_optional (\<lambda>otpk. diffie_hellman P (key_pair_from_secret P es) (opp_public otpk)) (map_option one_time_to_public opk)
      = Ok (fourth_secret P es opk)"
    "dh_optional (\<lambda>otpk. diffie_hellman P (opk_pair otpk) (x25519_base P es)) opk = Ok (fourth_secret P es opk)"
  using assms by (cases opk; auto simp: dh_optional_def fourth_secret_def one_time_wf_def pair_wf_def pair_ok_def dh_laws_def
      diffie_hellman_def key_pair_from_secret_def one_time_to_public_def Let_def)+

text \<open>
  The sender's run on a published bundle, and what the receiver derives from its message with any
  one-time pre-key.
\<close>

lemma x3dh_material:
  assumes "dh_laws P" "kem_laws P" "identity_wf P ik" "party_wf P k" "pred_option (one_time_wf P) opk"
  obtains d1 d2 d3 ss res init where "x3dh_sender P es rnd ik (published k opk) = Ok (res, init)"
    "length (xi_kem_ciphertext init) = CIPHERTEXT_LEN"
    "xs_shared_secret res = x3dh_secret P (x3dh_ikm d1 d2 d3 (fourth_secret P es opk) ss)"
    "\<And>opk'. pred_option (one_time_wf P) opk' \<Longrightarrow> x3dh_receiver P (pk_identity k) (pk_signed k) (pk_kem k) opk' init =
       Ok (x3dh_secret P (x3dh_ikm d1 d2 d3 (fourth_secret P es opk') ss))"
    "xi_sender_identity init = public_identity ik" "xi_ephemeral_public init = x25519_base P es"
    "xi_one_time_id init = map_option opk_id opk" "xi_signed_id init = spk_id (pk_signed k)" "xi_kem_id init = kpk_id (pk_kem k)"
proof -
  let ?e = "key_pair_from_secret P es"
  have e: "kp_public ?e = x25519_base P es" by (simp add: key_pair_from_secret_def)
  have p: "pair_ok P (ik_dh ik)" "pair_ok P (ik_dh (pk_identity k))" "pair_ok P (spk_pair (pk_signed k))" "kem_pair_wf P (kpk_pair (pk_kem k))"
    using assms(3,4) by (auto simp: identity_wf_def party_wf_def pair_wf_def signed_wf_def kem_pre_wf_def)
  obtain d1 where d1: "diffie_hellman P (ik_dh ik) (kp_public (spk_pair (pk_signed k))) = Ok d1"
      "diffie_hellman P (spk_pair (pk_signed k)) (kp_public (ik_dh ik)) = Ok d1"
    by (rule diffie_hellman_agrees [OF assms(1) p(1,3)])
  obtain d2 where d2: "diffie_hellman P ?e (kp_public (ik_dh (pk_identity k))) = Ok d2"
      "diffie_hellman P (ik_dh (pk_identity k)) (kp_public ?e) = Ok d2"
    by (rule diffie_hellman_agrees [OF assms(1) pair_ok_from_secret p(2)])
  obtain d3 where d3: "diffie_hellman P ?e (kp_public (spk_pair (pk_signed k))) = Ok d3"
      "diffie_hellman P (spk_pair (pk_signed k)) (kp_public ?e) = Ok d3"
    by (rule diffie_hellman_agrees [OF assms(1) pair_ok_from_secret p(3)])
  obtain ct ss where kem: "encapsulate P (kem_ek (kpk_pair (pk_kem k))) rnd = Ok (ct, ss)"
      "decapsulate P (kpk_pair (pk_kem k)) ct = Ok ss" "length ct = CIPHERTEXT_LEN"
    by (rule kem_agrees [OF assms(2) p(4)])
  let ?s = "x3dh_secret P (x3dh_ikm d1 d2 d3 (fourth_secret P es opk) ss)"
  let ?init = "\<lparr>xi_sender_identity = public_identity ik, xi_ephemeral_public = x25519_base P es, xi_kem_ciphertext = ct,
    xi_one_time_id = map_option opk_id opk, xi_signed_id = spk_id (pk_signed k), xi_kem_id = kpk_id (pk_kem k)\<rparr>"
  let ?res = "\<lparr>xs_shared_secret = ?s, xs_ephemeral_public = x25519_base P es, xs_kem_ciphertext = ct, xs_one_time_id = map_option opk_id opk\<rparr>"
  have "map_option opp_id (map_option one_time_to_public opk) = map_option opk_id opk" by (cases opk) (simp_all add: one_time_to_public_def)
  then have "x3dh_sender P es rnd ik (published k opk) = Ok (?res, ?init)"
    using d1 d2 d3 dh_optional_agrees(1) [OF assms(1,5), of es] kem e published_valid [OF assms(4), of opk]
    by (simp add: x3dh_sender_def published_def public_identity_def signed_to_public_def kem_pre_to_public_def Let_def)
  moreover have "x3dh_receiver P (pk_identity k) (pk_signed k) (pk_kem k) opk' ?init =
      Ok (x3dh_secret P (x3dh_ikm d1 d2 d3 (fourth_secret P es opk') ss))" if "pred_option (one_time_wf P) opk'" for opk'
    using d1 d2 d3 dh_optional_agrees(2) [OF assms(1) that, of es] kem e by (simp add: x3dh_receiver_def public_identity_def)
  ultimately show thesis using that [of ?res ?init d1 d2 d3 ss] kem(3) by simp
qed

lemma x3dh_agreement:
  assumes "dh_laws P" "kem_laws P" "identity_wf P ik" "party_wf P k" "pred_option (one_time_wf P) opk"
  obtains res init where "x3dh_sender P es rnd ik (published k opk) = Ok (res, init)" "length (xi_kem_ciphertext init) = CIPHERTEXT_LEN"
    "x3dh_receiver P (pk_identity k) (pk_signed k) (pk_kem k) opk init = Ok (xs_shared_secret res)"
    "xi_sender_identity init = public_identity ik" "xi_ephemeral_public init = x25519_base P es"
    "xi_one_time_id init = map_option opk_id opk" "xi_signed_id init = spk_id (pk_signed k)" "xi_kem_id init = kpk_id (pk_kem k)"
  by (rule x3dh_material [OF assms, of es rnd]) (use assms(5) that in simp)

section \<open>Messages of the key exchange\<close>

datatype key_exchange_message =
    RequestBundle
  | Bundle pre_key_bundle
  | InitMessage x3dh_init
  | Complete

fun exchange_to_bytes :: "key_exchange_message \<Rightarrow> bytes" where
  "exchange_to_bytes RequestBundle = [0]"
| "exchange_to_bytes (Bundle b) = 1 # bundle_to_bytes b"
| "exchange_to_bytes (InitMessage m) = 2 # init_to_bytes m"
| "exchange_to_bytes Complete = [3]"

definition exchange_from_bytes :: "crypto_prims \<Rightarrow> bytes \<Rightarrow> crypto_error + key_exchange_message" where
  "exchange_from_bytes P bs =
     (case bs of
        [] \<Rightarrow> Err (SerializationErr ''KeyExchangeMessage: empty data'')
      | tag # payload \<Rightarrow>
          if tag = 0 then Ok RequestBundle
          else if tag = 1 then result_bind (bundle_from_bytes P payload) (\<lambda>b. Ok (Bundle b))
          else if tag = 2 then result_bind (init_from_bytes payload) (\<lambda>m. Ok (InitMessage m))
          else if tag = 3 then Ok Complete
          else Err (SerializationErr (''KeyExchangeMessage: unknown tag '' @ nat_to_string (unat tag))))"

record base64_codec =
  b64_encode :: "bytes \<Rightarrow> string"
  b64_decode :: "string \<Rightarrow> string + bytes"

definition encode_for_wire :: "base64_codec \<Rightarrow> bytes \<Rightarrow> string" where
  "encode_for_wire C bs = b64_encode C bs"

definition decode_from_wire :: "base64_codec \<Rightarrow> string \<Rightarrow> crypto_error + bytes" where
  "decode_from_wire C s = map_err (\<lambda>e. SerializationErr (''base64 decode error: '' @ e)) (b64_decode C s)"

definition exchange_wf :: "crypto_prims \<Rightarrow> key_exchange_message \<Rightarrow> bool" where
  "exchange_wf P m = (case m of Bundle b \<Rightarrow> bundle_wf P b | InitMessage i \<Rightarrow> init_wf i | _ \<Rightarrow> True)"

lemma exchange_roundtrip:
  "exchange_wf P m \<Longrightarrow> exchange_from_bytes P (exchange_to_bytes m) = Ok m"
  by (cases m) (simp_all add: exchange_wf_def exchange_from_bytes_def bundle_roundtrip init_roundtrip)

definition base64_laws :: "base64_codec \<Rightarrow> bool" where
  "base64_laws C \<longleftrightarrow> (\<forall>bs. b64_decode C (b64_encode C bs) = Ok bs)"

definition over_wire :: "crypto_prims \<Rightarrow> base64_codec \<Rightarrow> key_exchange_message \<Rightarrow> crypto_error + key_exchange_message" where
  "over_wire P C m = result_bind (decode_from_wire C (encode_for_wire C (exchange_to_bytes m))) (exchange_from_bytes P)"

lemma over_wire_id: "base64_laws C \<Longrightarrow> exchange_wf P m \<Longrightarrow> over_wire P C m = Ok m"
  by (simp add: over_wire_def base64_laws_def encode_for_wire_def decode_from_wire_def exchange_roundtrip)

section \<open>From the exchange to a conversation\<close>

text \<open>
  \<^verbatim>\<open>TripleRatchetSession\<close>s created from the two secrets, on the pre-keys of the bundle, start a
  conversation.
\<close>

lemma triple_init_total:
  assumes "dh_laws P" "pair_ok P dh"
  shows "\<exists>a. triple_init_sender P ds ks ss (kp_public dh) ek = Ok a" "\<exists>b. triple_init_receiver P ss dh kk = Ok b"
proof -
  obtain s where s: "diffie_hellman P (key_pair_from_secret P ds) (kp_public dh) = Ok s"
    by (rule diffie_hellman_agrees [OF assms(1) pair_ok_from_secret assms(2)])
  have d: "\<exists>x. derive_initial_key P ss info = Ok x" "\<exists>x. initial_header_keys P ss = Ok x" "\<exists>x. root_kdf P rk s = Ok x" for info rk
    by (simp_all add: derive_initial_key_def initial_header_keys_def root_kdf_def derive_key_def hkdf_expand_def size_defs)
  obtain r hk pq where x: "derive_initial_key P ss (ascii ''pirc-triple-ratchet-root'') = Ok r" "initial_header_keys P ss = Ok hk"
      "derive_initial_key P ss (ascii ''pirc-triple-ratchet-pq-chain'') = Ok pq"
    using d(1) [of "ascii ''pirc-triple-ratchet-root''"] d(2) d(1) [of "ascii ''pirc-triple-ratchet-pq-chain''"] by blast
  obtain y where "root_kdf P r s = Ok y" using d(3) by blast
  then show "\<exists>a. triple_init_sender P ds ks ss (kp_public dh) ek = Ok a"
    using s x by (cases y) (auto simp: triple_init_sender_def dh_init_sender_def Let_def)
  show "\<exists>b. triple_init_receiver P ss dh kk = Ok b" using x by (simp add: triple_init_receiver_def)
qed

end
