(* ===== verification/Crypto_Storage.thy ===== *)
theory Crypto_Storage
  imports Crypto_Exchange
begin

text \<open>
  Key storage (\<^verbatim>\<open>key_storage/mod.rs\<close>), rotation of pre-keys (\<^verbatim>\<open>key_storage/rotation.rs\<close>) and the
  rotation policy (\<^verbatim>\<open>rotation.rs\<close>). Argon2 comes from another package and is the argument \<open>argon2\<close>;
  drawn secrets, salts and nonces are arguments. A stored key bundle is what is read back, and the
  ids of the keys of a store stay distinct.
\<close>

section \<open>The serialised key bundle\<close>

record key_bundle =
  kb_identity :: identity_key_pair
  kb_signed :: "signed_pre_key list"
  kb_one_time :: "one_time_pre_key list"
  kb_kem :: "kem_pre_key list"
  kb_next_id :: u32
  kb_kem_timestamps :: "u64 list"

definition write_blob :: "bytes \<Rightarrow> bytes" where
  "write_blob data = u32_to_le (word_of_nat (length data)) @ data"

definition write_count :: "nat \<Rightarrow> bytes" where
  "write_count n = u32_to_le (word_of_nat n)"

definition write_keys :: "('a \<Rightarrow> bytes) \<Rightarrow> 'a list \<Rightarrow> bytes" where
  "write_keys enc ks = write_count (length ks) @ concat (map (\<lambda>k. write_blob (enc k)) ks)"

definition bundle_serialize :: "key_bundle \<Rightarrow> bytes" where
  "bundle_serialize b =
     write_blob (identity_to_bytes (kb_identity b)) @
     write_keys signed_to_bytes (kb_signed b) @
     write_keys one_time_to_bytes (kb_one_time b) @
     write_keys kem_pre_to_bytes (kb_kem b) @
     u32_to_le (kb_next_id b) @
     write_count (length (kb_kem_timestamps b)) @ concat (map u64_to_le (kb_kem_timestamps b))"

text \<open>The readers take the whole data and an offset, and return the new offset.\<close>

definition read_u32_at :: "bytes \<Rightarrow> nat \<Rightarrow> crypto_error + u32 \<times> nat" where
  "read_u32_at data off =
     (if off + 4 > length data then Err (SerializationErr ''unexpected end of data'')
      else Ok (u32_from_le (drop off data), off + 4))"

definition read_blob_at :: "bytes \<Rightarrow> nat \<Rightarrow> crypto_error + bytes \<times> nat" where
  "read_blob_at data off =
     result_bind (read_u32_at data off) (\<lambda>(w, off).
       let n = unat w in
       if off + n > length data
       then Err (SerializationErr (''expected '' @ nat_to_string n @ '' bytes at offset '' @ nat_to_string off @
              '', got '' @ nat_to_string (length data - off)))
       else Ok (take n (drop off data), off + n))"

fun read_keys_at :: "(bytes \<Rightarrow> crypto_error + 'a) \<Rightarrow> bytes \<Rightarrow> nat \<Rightarrow> nat \<Rightarrow> crypto_error + 'a list \<times> nat" where
  "read_keys_at dec data 0 off = Ok ([], off)"
| "read_keys_at dec data (Suc n) off =
     result_bind (read_blob_at data off) (\<lambda>(bs, off).
     result_bind (dec bs) (\<lambda>k.
     result_bind (read_keys_at dec data n off) (\<lambda>(ks, off). Ok (k # ks, off))))"

definition read_counted_at :: "(bytes \<Rightarrow> crypto_error + 'a) \<Rightarrow> bytes \<Rightarrow> nat \<Rightarrow> crypto_error + 'a list \<times> nat" where
  "read_counted_at dec data off =
     result_bind (read_u32_at data off) (\<lambda>(n, off). read_keys_at dec data (unat n) off)"

fun read_times_at :: "bytes \<Rightarrow> nat \<Rightarrow> nat \<Rightarrow> crypto_error + u64 list \<times> nat" where
  "read_times_at data 0 off = Ok ([], off)"
| "read_times_at data (Suc n) off =
     (if off + 8 > length data then Err (SerializationErr ''unexpected end of data reading KEM timestamps'')
      else result_bind (read_times_at data n (off + 8)) (\<lambda>(ts, off'). Ok (u64_from_le (drop off data) # ts, off')))"

definition bundle_deserialize :: "crypto_prims \<Rightarrow> bytes \<Rightarrow> crypto_error + key_bundle" where
  "bundle_deserialize P data =
     result_bind (read_blob_at data 0) (\<lambda>(id_bytes, off).
     result_bind (identity_from_bytes P id_bytes) (\<lambda>identity.
     result_bind (read_counted_at (signed_from_bytes P) data off) (\<lambda>(spks, off).
     result_bind (read_counted_at (one_time_from_bytes P) data off) (\<lambda>(opks, off).
     result_bind (read_counted_at (kem_pre_from_bytes P) data off) (\<lambda>(kpks, off).
     result_bind (read_u32_at data off) (\<lambda>(next_id, off).
     result_bind
       (if off + 4 \<le> length data
        then result_bind (read_u32_at data off) (\<lambda>(n, off).
             result_bind (read_times_at data (unat n) off) (\<lambda>(ts, _). Ok ts))
        else Ok (replicate (length kpks) 0))
       (\<lambda>timestamps.
          Ok \<lparr>kb_identity = identity, kb_signed = spks, kb_one_time = opks, kb_kem = kpks, kb_next_id = next_id,
              kb_kem_timestamps = timestamps\<rparr>)))))))"

definition key_bundle_wf :: "crypto_prims \<Rightarrow> key_bundle \<Rightarrow> bool" where
  "key_bundle_wf P b \<longleftrightarrow> identity_wf P (kb_identity b) \<and> list_all (signed_wf P) (kb_signed b) \<and>
     list_all (one_time_wf P) (kb_one_time b) \<and> list_all (kem_pre_wf P) (kb_kem b) \<and>
     length (kb_signed b) < 2 ^ 32 \<and> length (kb_one_time b) < 2 ^ 32 \<and> length (kb_kem b) < 2 ^ 32 \<and>
     length (kb_kem_timestamps b) < 2 ^ 32"

lemma u32_of_nat [simp]: "n < 2 ^ 32 \<Longrightarrow> unat (word_of_nat n :: u32) = n"
  by (simp add: unat_of_nat take_bit_nat_eq_self)

lemma read_u32_written:
  "data = pre @ u32_to_le w @ post \<Longrightarrow> read_u32_at data (length pre) = Ok (w, length (pre @ u32_to_le w))"
  by (simp add: read_u32_at_def)

lemma read_blob_written:
  assumes "data = pre @ write_blob bs @ post" "length bs < 2 ^ 32"
  shows "read_blob_at data (length pre) = Ok (bs, length (pre @ write_blob bs))"
proof -
  have "read_u32_at data (length pre) = Ok (word_of_nat (length bs), length pre + 4)"
    using read_u32_written [of data pre "word_of_nat (length bs)" "bs @ post"] assms(1) by (simp add: write_blob_def)
  moreover have "drop (length pre + 4) data = bs @ post" using assms(1) by (simp add: write_blob_def)
  ultimately show ?thesis
    using u32_of_nat [OF assms(2)] assms(1) by (simp add: read_blob_at_def write_blob_def)
qed

context fixed_format
begin

lemma read_keys_written:
  assumes "list_all wf xs" "len < 2 ^ 32" "data = pre @ concat (map (\<lambda>k. write_blob (enc k)) xs) @ post"
  shows "read_keys_at dec data (length xs) (length pre) = Ok (xs, length (pre @ concat (map (\<lambda>k. write_blob (enc k)) xs)))"
  using assms
proof (induction xs arbitrary: pre)
  case (Cons x xs)
  have "read_blob_at data (length pre) = Ok (enc x, length (pre @ write_blob (enc x)))"
    using Cons.prems enc_length by (intro read_blob_written) auto
  moreover have "read_keys_at dec data (length xs) (length (pre @ write_blob (enc x))) =
      Ok (xs, length ((pre @ write_blob (enc x)) @ concat (map (\<lambda>k. write_blob (enc k)) xs)))"
    using Cons.prems by (intro Cons.IH) auto
  ultimately show ?case using Cons.prems dec_enc by (simp add: add.assoc)
qed simp

lemma read_counted_written:
  assumes "list_all wf xs" "len < 2 ^ 32" "length xs < 2 ^ 32" "data = pre @ write_keys enc xs @ post"
  shows "read_counted_at dec data (length pre) = Ok (xs, length (pre @ write_keys enc xs))"
  using read_u32_written [of data pre "word_of_nat (length xs)" "concat (map (\<lambda>k. write_blob (enc k)) xs) @ post"]
    read_keys_written [of xs data "pre @ write_count (length xs)" post] assms
  by (simp add: read_counted_at_def write_keys_def write_count_def add.assoc)

end

lemma read_times_written:
  "data = pre @ concat (map u64_to_le ts) @ post \<Longrightarrow>
   read_times_at data (length ts) (length pre) = Ok (ts, length (pre @ concat (map u64_to_le ts)))"
proof (induction ts arbitrary: pre)
  case (Cons t ts)
  then show ?case using Cons.IH [of "pre @ u64_to_le t"] by simp
qed simp

lemma lens_fit: "IDENTITY_KEY_PAIR_LEN < 2 ^ 32" "4 + KEY_SIZE + SIGNATURE_LEN + 8 < 2 ^ 32" "4 + KEY_SIZE < 2 ^ 32"
  "4 + (SECRET_KEY_LEN + PUBLIC_KEY_LEN) + SIGNATURE_LEN < 2 ^ 32"
  by (simp_all add: key_size_defs)

lemma key_bundle_roundtrip:
  assumes "key_bundle_wf P b"
  shows "bundle_deserialize P (bundle_serialize b) = Ok b"
proof -
  note w = assms [unfolded key_bundle_wf_def]
  define data where "data = bundle_serialize b"
  define p1 where "p1 = write_blob (identity_to_bytes (kb_identity b))"
  define p2 where "p2 = p1 @ write_keys signed_to_bytes (kb_signed b)"
  define p3 where "p3 = p2 @ write_keys one_time_to_bytes (kb_one_time b)"
  define p4 where "p4 = p3 @ write_keys kem_pre_to_bytes (kb_kem b)"
  define p5 where "p5 = p4 @ u32_to_le (kb_next_id b)"
  define p6 where "p6 = p5 @ write_count (length (kb_kem_timestamps b))"
  note d = data_def bundle_serialize_def p1_def p2_def p3_def p4_def p5_def p6_def
  have l: "length (identity_to_bytes (kb_identity b)) < 2 ^ 32" using w identity.enc_length [of P] lens_fit(1) by simp
  have 1: "read_blob_at data 0 = Ok (identity_to_bytes (kb_identity b), length p1)"
    using read_blob_written [OF _ l, of data "[]"] by (simp add: d)
  have 2: "read_counted_at (signed_from_bytes P) data (length p1) = Ok (kb_signed b, length p2)"
    unfolding p2_def using w lens_fit(2) by (intro signed.read_counted_written) (auto simp: d)
  have 3: "read_counted_at (one_time_from_bytes P) data (length p2) = Ok (kb_one_time b, length p3)"
    unfolding p3_def using w lens_fit(3) by (intro one_time.read_counted_written) (auto simp: d)
  have 4: "read_counted_at (kem_pre_from_bytes P) data (length p3) = Ok (kb_kem b, length p4)"
    unfolding p4_def using w lens_fit(4) by (intro kem_pre.read_counted_written) (auto simp: d)
  have 5: "read_u32_at data (length p4) = Ok (kb_next_id b, length p5)"
    unfolding p5_def by (rule read_u32_written) (simp add: d)
  have 6: "read_u32_at data (length p5) = Ok (word_of_nat (length (kb_kem_timestamps b)), length p6)"
    unfolding p6_def write_count_def by (rule read_u32_written) (simp add: d write_count_def)
  have 7: "read_times_at data (length (kb_kem_timestamps b)) (length p6) = Ok (kb_kem_timestamps b, length data)"
    using read_times_written [of data p6 "kb_kem_timestamps b" "[]"] by (simp add: d)
  have "length p5 + 4 \<le> length data" by (simp add: d write_count_def)
  then have "bundle_deserialize P data = Ok b"
    using 1 2 3 4 5 6 7 w identity.dec_enc [of P "kb_identity b"] by (simp add: bundle_deserialize_def)
  then show ?thesis by (simp add: data_def)
qed

section \<open>The encrypted store\<close>

record encrypted_key_store =
  eks_salt :: bytes
  eks_nonce :: bytes
  eks_ciphertext :: bytes

definition SALT_LEN :: nat where "SALT_LEN = 16"

definition encrypted_to_bytes :: "encrypted_key_store \<Rightarrow> bytes" where
  "encrypted_to_bytes e = eks_salt e @ eks_nonce e @ eks_ciphertext e"

definition encrypted_from_bytes :: "bytes \<Rightarrow> crypto_error + encrypted_key_store" where
  "encrypted_from_bytes bs =
     (if length bs < SALT_LEN + NONCE_SIZE + TAG_SIZE
      then Err (SerializationErr (''EncryptedKeyStore: expected at least 44 bytes, got '' @ nat_to_string (length bs)))
      else Ok \<lparr>eks_salt = take SALT_LEN bs, eks_nonce = take NONCE_SIZE (drop SALT_LEN bs),
               eks_ciphertext = drop (SALT_LEN + NONCE_SIZE) bs\<rparr>)"

type_synonym argon2 = "bytes \<Rightarrow> bytes \<Rightarrow> string + bytes"

definition storage_key_derive :: "argon2 \<Rightarrow> bytes \<Rightarrow> bytes \<Rightarrow> crypto_error + bytes" where
  "storage_key_derive argon2 passphrase salt =
     map_err (\<lambda>e. KeyDerivationErr (''argon2 hash: '' @ e)) (argon2 passphrase salt)"

definition STORE_AAD :: bytes where "STORE_AAD = ascii ''pirc-key-store-v1''"

definition key_store_open :: "crypto_prims \<Rightarrow> argon2 \<Rightarrow> encrypted_key_store \<Rightarrow> bytes \<Rightarrow> crypto_error + key_bundle" where
  "key_store_open P argon2 e passphrase =
     result_bind (storage_key_derive argon2 passphrase (eks_salt e)) (\<lambda>key.
     result_bind (map_err (\<lambda>_. AeadErr ''wrong passphrase or corrupted data'')
                    (aead_decrypt P key (eks_nonce e) (eks_ciphertext e) STORE_AAD)) (\<lambda>plaintext.
       bundle_deserialize P plaintext))"

definition key_store_save ::
  "crypto_prims \<Rightarrow> argon2 \<Rightarrow> bytes \<Rightarrow> bytes \<Rightarrow> key_bundle \<Rightarrow> bytes \<Rightarrow> crypto_error + encrypted_key_store" where
  "key_store_save P argon2 salt nonce b passphrase =
     result_bind (storage_key_derive argon2 passphrase salt) (\<lambda>key.
     result_bind (aead_encrypt P key nonce (bundle_serialize b) STORE_AAD) (\<lambda>ciphertext.
       Ok \<lparr>eks_salt = salt, eks_nonce = nonce, eks_ciphertext = ciphertext\<rparr>))"

lemma encrypted_roundtrip:
  "length (eks_salt e) = SALT_LEN \<Longrightarrow> length (eks_nonce e) = NONCE_SIZE \<Longrightarrow> TAG_SIZE \<le> length (eks_ciphertext e) \<Longrightarrow>
   encrypted_from_bytes (encrypted_to_bytes e) = Ok e"
  by (simp add: encrypted_from_bytes_def encrypted_to_bytes_def)

lemma key_store_roundtrip:
  assumes "gcm_laws P" "key_bundle_wf P b" "key_store_save P argon2 salt nonce b pw = Ok e" "length salt = SALT_LEN" "length nonce = NONCE_SIZE"
  shows "encrypted_from_bytes (encrypted_to_bytes e) = Ok e" "key_store_open P argon2 e pw = Ok b"
proof -
  obtain key ct where k: "storage_key_derive argon2 pw salt = Ok key" "aead_encrypt P key nonce (bundle_serialize b) STORE_AAD = Ok ct"
    "e = \<lparr>eks_salt = salt, eks_nonce = nonce, eks_ciphertext = ct\<rparr>"
    using assms(3) by (auto simp: key_store_save_def)
  have "TAG_SIZE \<le> length ct" using k(2) assms(1) by (auto simp: gcm_laws_def aead_encrypt_def)
  then show "encrypted_from_bytes (encrypted_to_bytes e) = Ok e" using assms(4,5) k(3) by (simp add: encrypted_roundtrip)
  show "key_store_open P argon2 e pw = Ok b"
    using k aead_roundtrip [OF assms(1) k(2)] key_bundle_roundtrip [OF assms(2)] by (simp add: key_store_open_def)
qed

section \<open>Operations of a key store\<close>

text \<open>A \<^verbatim>\<open>KeyStore\<close> is its bundle. The draws of a call are its first arguments.\<close>

definition key_store_create :: "crypto_prims \<Rightarrow> bytes \<Rightarrow> bytes \<Rightarrow> bytes \<Rightarrow> bytes \<Rightarrow> crypto_error + key_bundle" where
  "key_store_create P sk dh_secret spk_secret kem_secret =
     (let identity = identity_generate P sk dh_secret in
      result_bind (signed_generate P spk_secret 1 identity 0) (\<lambda>spk.
      result_bind (kem_pre_generate P kem_secret 2 identity) (\<lambda>kpk.
        Ok \<lparr>kb_identity = identity, kb_signed = [spk], kb_one_time = [], kb_kem = [kpk], kb_next_id = 3,
            kb_kem_timestamps = [0]\<rparr>)))"

definition public_bundle :: "crypto_prims \<Rightarrow> key_bundle \<Rightarrow> crypto_error + pre_key_bundle" where
  "public_bundle P b =
     (case kb_signed b of
        [] \<Rightarrow> Err (InvalidKeyErr ''no signed pre-keys available'')
      | spk # _ \<Rightarrow>
          (case kb_kem b of
             [] \<Rightarrow> Err (InvalidKeyErr ''no KEM pre-keys available'')
           | kpk # _ \<Rightarrow>
               (let bundle = \<lparr>pb_identity = public_identity (kb_identity b), pb_signed = signed_to_public spk,
                      pb_kem = kem_pre_to_public kpk,
                      pb_one_time = (case kb_one_time b of [] \<Rightarrow> None | opk # _ \<Rightarrow> Some (one_time_to_public opk))\<rparr> in
                result_bind (bundle_validate P bundle) (\<lambda>_. Ok bundle))))"

text \<open>\<^verbatim>\<open>iter().position(..)\<close> and \<^verbatim>\<open>Vec::remove\<close>: the first element with the id leaves the list.\<close>

fun take_by_id :: "('a \<Rightarrow> u32) \<Rightarrow> u32 \<Rightarrow> 'a list \<Rightarrow> 'a option \<times> 'a list" where
  "take_by_id f i [] = (None, [])"
| "take_by_id f i (x # xs) = (if f x = i then (Some x, xs) else (case take_by_id f i xs of (r, ys) \<Rightarrow> (r, x # ys)))"

definition consume_one_time :: "u32 \<Rightarrow> key_bundle \<Rightarrow> one_time_pre_key option \<times> key_bundle" where
  "consume_one_time i b = (case take_by_id opk_id i (kb_one_time b) of (r, ks) \<Rightarrow> (r, b\<lparr>kb_one_time := ks\<rparr>))"

fun generate_loop :: "crypto_prims \<Rightarrow> bytes list \<Rightarrow> key_bundle \<Rightarrow> one_time_pre_key_public list \<times> key_bundle" where
  "generate_loop P [] b = ([], b)"
| "generate_loop P (secret # ss) b =
     (let opk = one_time_generate P secret (kb_next_id b) in
      case generate_loop P ss (b\<lparr>kb_next_id := kb_next_id b + 1, kb_one_time := kb_one_time b @ [opk]\<rparr>) of
        (ps, b') \<Rightarrow> (one_time_to_public opk # ps, b'))"

definition generate_one_time :: "crypto_prims \<Rightarrow> (nat \<Rightarrow> bytes) \<Rightarrow> u32 \<Rightarrow> key_bundle \<Rightarrow> one_time_pre_key_public list \<times> key_bundle" where
  "generate_one_time P rng count b = generate_loop P (map rng [0..<unat count]) b"

definition replenish_one_time :: "crypto_prims \<Rightarrow> (nat \<Rightarrow> bytes) \<Rightarrow> u32 \<Rightarrow> key_bundle \<Rightarrow> one_time_pre_key_public list \<times> key_bundle" where
  "replenish_one_time P rng target_count b =
     (let current = word_of_nat (length (kb_one_time b)) :: u32 in
      if current \<ge> target_count then ([], b) else generate_one_time P rng (target_count - current) b)"

fun those_ok :: "('e + 'a) list \<Rightarrow> 'e + 'a list" where
  "those_ok [] = Ok []"
| "those_ok (r # rs) = result_bind r (\<lambda>x. result_bind (those_ok rs) (\<lambda>xs. Ok (x # xs)))"

definition from_parts ::
  "crypto_prims \<Rightarrow> identity_key_pair \<Rightarrow> signed_pre_key \<Rightarrow> kem_pre_key \<Rightarrow> one_time_pre_key list \<Rightarrow> crypto_error + key_bundle" where
  "from_parts P identity spk kpk opks =
     result_bind (identity_from_bytes P (identity_to_bytes identity)) (\<lambda>identity'.
     result_bind (signed_from_bytes P (signed_to_bytes spk)) (\<lambda>spk'.
     result_bind (kem_pre_from_bytes P (kem_pre_to_bytes kpk)) (\<lambda>kpk'.
     result_bind (those_ok (map (\<lambda>k. one_time_from_bytes P (one_time_to_bytes k)) opks)) (\<lambda>opks'.
       let max_id = Max (set (spk_id spk # kpk_id kpk # map opk_id opks)) in
       Ok \<lparr>kb_identity = identity', kb_signed = [spk'], kb_one_time = opks', kb_kem = [kpk'], kb_next_id = max_id + 1,
           kb_kem_timestamps = [0]\<rparr>))))"

definition into_parts ::
  "key_bundle \<Rightarrow> crypto_error + identity_key_pair \<times> signed_pre_key \<times> kem_pre_key \<times> one_time_pre_key list" where
  "into_parts b =
     (case kb_signed b of
        [] \<Rightarrow> Err (InvalidKeyErr ''no signed pre-keys in store'')
      | spk # _ \<Rightarrow>
          (case kb_kem b of
             [] \<Rightarrow> Err (InvalidKeyErr ''no KEM pre-keys in store'')
           | kpk # _ \<Rightarrow> Ok (kb_identity b, spk, kpk, kb_one_time b)))"

section \<open>Rotation\<close>

definition rotate_signed :: "crypto_prims \<Rightarrow> bytes \<Rightarrow> u64 \<Rightarrow> key_bundle \<Rightarrow> (crypto_error + signed_pre_key_public) \<times> key_bundle" where
  "rotate_signed P secret timestamp b =
     (let i = kb_next_id b; b1 = b\<lparr>kb_next_id := i + 1\<rparr> in
      case signed_generate P secret i (kb_identity b) timestamp of
        Err e \<Rightarrow> (Err e, b1)
      | Ok spk \<Rightarrow> (Ok (signed_to_public spk), b1\<lparr>kb_signed := spk # kb_signed b\<rparr>))"

definition rotate_kem :: "crypto_prims \<Rightarrow> bytes \<Rightarrow> u64 \<Rightarrow> key_bundle \<Rightarrow> (crypto_error + kem_pre_key_public) \<times> key_bundle" where
  "rotate_kem P dk timestamp b =
     (let i = kb_next_id b; b1 = b\<lparr>kb_next_id := i + 1\<rparr> in
      case kem_pre_generate P dk i (kb_identity b) of
        Err e \<Rightarrow> (Err e, b1)
      | Ok kpk \<Rightarrow> (Ok (kem_pre_to_public kpk),
                   b1\<lparr>kb_kem := kpk # kb_kem b, kb_kem_timestamps := timestamp # kb_kem_timestamps b\<rparr>))"

text \<open>
  The loop over the KEM pre-keys with its index. \<^verbatim>\<open>Vec::remove\<close> on the timestamps panics when there
  are fewer timestamps than keys.
\<close>

function cleanup_kem :: "u64 \<Rightarrow> nat \<Rightarrow> kem_pre_key list \<Rightarrow> u64 list \<Rightarrow> (kem_pre_key list \<times> u64 list) outcome" where
  "cleanup_kem cutoff i ks ts =
     (if i < length ks
      then (let t = (if i < length ts then ts ! i else 0) in
            if t < cutoff
            then if i < length ts then cleanup_kem cutoff i (list_remove i ks) (list_remove i ts)
                 else Panics ''removal index should be < len''
            else cleanup_kem cutoff (i + 1) ks ts)
      else Returns (ks, ts))"
  by pat_completeness auto
termination
  by (relation "measure (\<lambda>(c, i, ks, ts). length ks - i)") (auto simp: list_remove_def)

declare cleanup_kem.simps [simp del]

definition cleanup_expired :: "u64 \<Rightarrow> key_bundle \<Rightarrow> (nat \<times> key_bundle) outcome" where
  "cleanup_expired cutoff b =
     (let signed' = (case kb_signed b of
            spk # r \<Rightarrow> if r \<noteq> [] then spk # filter (\<lambda>k. spk_timestamp k \<ge> cutoff) r else kb_signed b
          | [] \<Rightarrow> []);
          removed = length (kb_signed b) - length signed';
          b1 = b\<lparr>kb_signed := signed'\<rparr> in
      if length (kb_kem b) > 1
      then (case cleanup_kem cutoff 1 (kb_kem b) (kb_kem_timestamps b) of
              Panics e \<Rightarrow> Panics e
            | Returns (ks, ts) \<Rightarrow>
                Returns (removed + (length (kb_kem b) - length ks), b1\<lparr>kb_kem := ks, kb_kem_timestamps := ts\<rparr>))
      else Returns (removed, b1))"

definition find_signed :: "u32 \<Rightarrow> key_bundle \<Rightarrow> signed_pre_key option" where
  "find_signed i b = find (\<lambda>k. spk_id k = i) (kb_signed b)"

definition find_kem :: "u32 \<Rightarrow> key_bundle \<Rightarrow> kem_pre_key option" where
  "find_kem i b = find (\<lambda>k. kpk_id k = i) (kb_kem b)"

definition first_of :: "'a list \<Rightarrow> 'a option" where
  "first_of xs = (case xs of [] \<Rightarrow> None | x # _ \<Rightarrow> Some x)"

definition current_signed_timestamp :: "key_bundle \<Rightarrow> u64 option" where
  "current_signed_timestamp b = map_option spk_timestamp (first_of (kb_signed b))"

definition current_kem_timestamp :: "key_bundle \<Rightarrow> u64 option" where
  "current_kem_timestamp b = first_of (kb_kem_timestamps b)"

definition count_expired :: "u64 \<Rightarrow> key_bundle \<Rightarrow> nat" where
  "count_expired cutoff b =
     length (filter (\<lambda>k. spk_timestamp k < cutoff) (drop 1 (kb_signed b))) +
     length (filter (\<lambda>t. t < cutoff) (drop 1 (kb_kem_timestamps b)))"

record rotation_policy =
  rp_signed_max_age :: u64
  rp_kem_max_age :: u64
  rp_grace_period :: u64
  rp_min_one_time :: u32
  rp_batch_size :: u32

definition default_policy :: rotation_policy where
  "default_policy = \<lparr>rp_signed_max_age = 604800, rp_kem_max_age = 604800, rp_grace_period = 172800,
     rp_min_one_time = 25, rp_batch_size = 100\<rparr>"

record rotation_check =
  rc_signed :: bool
  rc_kem :: bool
  rc_one_time :: bool
  rc_expired :: nat

definition saturating_sub :: "u64 \<Rightarrow> u64 \<Rightarrow> u64" where
  "saturating_sub a b = (if b \<le> a then a - b else 0)"

definition older_than :: "u64 \<Rightarrow> u64 option \<Rightarrow> u64 \<Rightarrow> bool" where
  "older_than now ts age = (case ts of None \<Rightarrow> True | Some t \<Rightarrow> saturating_sub now t \<ge> age)"

definition check_rotation :: "key_bundle \<Rightarrow> rotation_policy \<Rightarrow> u64 \<Rightarrow> rotation_check" where
  "check_rotation b p now =
     \<lparr>rc_signed = older_than now (current_signed_timestamp b) (rp_signed_max_age p),
      rc_kem = older_than now (current_kem_timestamp b) (rp_kem_max_age p),
      rc_one_time = (word_of_nat (length (kb_one_time b)) < rp_min_one_time p),
      rc_expired = count_expired (saturating_sub now (rp_grace_period p)) b\<rparr>"

section \<open>What the operations keep\<close>

text \<open>
  Stored keys are well formed and valid, every KEM pre-key has its timestamp, the ids within each
  list are distinct and below the next one.
\<close>

definition ids_below :: "u32 \<Rightarrow> u32 list \<Rightarrow> bool" where
  "ids_below n is \<longleftrightarrow> distinct is \<and> (\<forall>i\<in>set is. i < n)"

definition store_inv :: "crypto_prims \<Rightarrow> key_bundle \<Rightarrow> bool" where
  "store_inv P b \<longleftrightarrow> identity_wf P (kb_identity b) \<and>
     (\<forall>k\<in>set (kb_signed b). signed_wf P k \<and> signed_public_verify P (signed_to_public k) (public_identity (kb_identity b)) = Ok ()) \<and>
     (\<forall>k\<in>set (kb_kem b). kem_pre_wf P k \<and> kem_pre_public_verify P (kem_pre_to_public k) (public_identity (kb_identity b)) = Ok ()) \<and>
     (\<forall>k\<in>set (kb_one_time b). one_time_wf P k) \<and>
     kb_signed b \<noteq> [] \<and> kb_kem b \<noteq> [] \<and> length (kb_kem_timestamps b) = length (kb_kem b) \<and>
     ids_below (kb_next_id b) (map spk_id (kb_signed b)) \<and> ids_below (kb_next_id b) (map kpk_id (kb_kem b)) \<and>
     ids_below (kb_next_id b) (map opk_id (kb_one_time b))"

lemma unat_next: "(n :: u32) \<noteq> - 1 \<Longrightarrow> unat (n + 1) = unat n + 1"
proof -
  assume n: "n \<noteq> - 1"
  have "unat n < 4294967296" using unsigned_less [of n, where ?'a = nat] by simp
  moreover have "unat n \<noteq> 4294967295" using n by (simp add: word_unat_eq_iff unsigned_minus_1_eq_mask mask_eq_exp_minus_1)
  ultimately show ?thesis by (simp add: unat_word_ariths)
qed

lemma next_above: "(i :: u32) < n \<Longrightarrow> n \<noteq> - 1 \<Longrightarrow> i < n + 1" "(n :: u32) \<noteq> - 1 \<Longrightarrow> n < n + 1"
  by (simp_all add: word_less_nat_alt unat_next)

lemma ids_below_cons: "ids_below n is \<Longrightarrow> n \<noteq> - 1 \<Longrightarrow> ids_below (n + 1) (n # is)"
  using next_above by (fastforce simp: ids_below_def)

lemma ids_below_snoc: "ids_below n is \<Longrightarrow> n \<noteq> - 1 \<Longrightarrow> ids_below (n + 1) (is @ [n])"
  using next_above by (fastforce simp: ids_below_def)

lemma ids_below_up: "ids_below n is \<Longrightarrow> n \<noteq> - 1 \<Longrightarrow> ids_below (n + 1) is"
  using next_above by (fastforce simp: ids_below_def)

text \<open>The loop over the KEM pre-keys is a filter on the pairs of key and timestamp.\<close>

lemma cleanup_kem_filter:
  assumes "length ts = length ks"
  shows "cleanup_kem cutoff i ks ts =
    (let r = filter (\<lambda>(k, t). \<not> t < cutoff) (zip (drop i ks) (drop i ts)) in Returns (take i ks @ map fst r, take i ts @ map snd r))"
  using assms
proof (induction cutoff i ks ts rule: cleanup_kem.induct)
  case (1 cutoff i ks ts)
  show ?case
  proof (cases "i < length ks")
    case True
    then have d: "drop i ks = ks ! i # drop (Suc i) ks" "drop i ts = ts ! i # drop (Suc i) ts"
      "take (Suc i) ks = take i ks @ [ks ! i]" "take (Suc i) ts = take i ts @ [ts ! i]"
      using 1(3) by (simp_all add: Cons_nth_drop_Suc take_Suc_conv_app_nth)
    show ?thesis
    proof (cases "ts ! i < cutoff")
      case True
      then show ?thesis
        using 1(1) [OF \<open>i < length ks\<close> refl] 1(3) \<open>i < length ks\<close> by (simp add: cleanup_kem.simps [of cutoff i] d Let_def)
    next
      case False
      then show ?thesis
        using 1(2) [OF \<open>i < length ks\<close> refl] 1(3) \<open>i < length ks\<close> by (simp add: cleanup_kem.simps [of cutoff i] d Let_def)
    qed
  next
    case False
    then show ?thesis using 1(3) by (simp add: cleanup_kem.simps [of cutoff i])
  qed
qed

lemma zip_filter_length:
  "length ts = length ks \<Longrightarrow> length (filter (\<lambda>(k, t). Q t) (zip ks ts)) = length (filter Q ts)"
  by (induction ks ts rule: list_induct2') auto

lemma set_zip_filter: "set (map fst (filter (\<lambda>(k, t). Q t) (zip ks ts))) \<subseteq> set ks"
  by (auto dest: set_zip_leftD)

lemma distinct_zip_filter:
  "distinct (map f ks) \<Longrightarrow> distinct (map f (map fst (filter (\<lambda>(k, t). Q t) (zip ks ts))))"
proof (induction ks arbitrary: ts)
  case (Cons k ks)
  then show ?case using set_zip_filter [of Q ks] by (cases ts) (auto dest!: set_zip_leftD)
qed simp

text \<open>What is left after a cleanup.\<close>

definition unexpired :: "u64 \<Rightarrow> key_bundle \<Rightarrow> key_bundle" where
  "unexpired cutoff b =
     (let r = filter (\<lambda>(k, t). \<not> t < cutoff) (zip (tl (kb_kem b)) (tl (kb_kem_timestamps b))) in
      b\<lparr>kb_signed := hd (kb_signed b) # filter (\<lambda>k. \<not> spk_timestamp k < cutoff) (tl (kb_signed b)),
        kb_kem := hd (kb_kem b) # map fst r, kb_kem_timestamps := hd (kb_kem_timestamps b) # map snd r\<rparr>)"

lemma filter_not_length: "length xs - length (filter (\<lambda>x. \<not> Q x) xs) = length (filter Q xs)"
  using sum_length_filter_compl [of Q xs] by linarith

lemma cleanup_expired_spec:
  assumes "kb_signed b \<noteq> []" "kb_kem b \<noteq> []" "length (kb_kem_timestamps b) = length (kb_kem b)"
  shows "cleanup_expired cutoff b = Returns (count_expired cutoff b, unexpired cutoff b)"
proof -
  obtain s ss k ks t ts where b: "kb_signed b = s # ss" "kb_kem b = k # ks" "kb_kem_timestamps b = t # ts" "length ts = length ks"
    using assms by (cases "kb_signed b"; cases "kb_kem b"; cases "kb_kem_timestamps b") auto
  have k: "cleanup_kem cutoff 1 (k # ks) (t # ts) =
      (let r = filter (\<lambda>(k, t). \<not> t < cutoff) (zip ks ts) in Returns (k # map fst r, t # map snd r))"
    using b(4) by (subst cleanup_kem_filter) (simp_all add: Let_def)
  have l: "length ks - length (filter (\<lambda>(k, t). \<not> t < cutoff) (zip ks ts)) = length (filter (\<lambda>t. t < cutoff) ts)"
    using zip_filter_length [OF b(4), of "\<lambda>t. \<not> t < cutoff"] filter_not_length [of ts "\<lambda>t. t < cutoff"] b(4) by simp
  show ?thesis
    using b k l sum_length_filter_compl [of "\<lambda>k. spk_timestamp k < cutoff" ss]
    by (cases b) (auto simp: cleanup_expired_def count_expired_def unexpired_def Let_def not_less)
qed

lemma store_inv_unexpired:
  assumes "store_inv P b"
  shows "store_inv P (unexpired cutoff b)"
proof -
  obtain s ss k ks t ts where b: "kb_signed b = s # ss" "kb_kem b = k # ks" "kb_kem_timestamps b = t # ts" "length ts = length ks"
    using assms unfolding store_inv_def by (cases "kb_signed b"; cases "kb_kem b"; cases "kb_kem_timestamps b") auto
  have "distinct (map kpk_id (k # map fst (filter (\<lambda>(k, t). \<not> t < cutoff) (zip ks ts))))"
    using assms b distinct_zip_filter [of kpk_id ks "\<lambda>t. \<not> t < cutoff" ts] set_zip_filter [of "\<lambda>t. \<not> t < cutoff" ks ts]
    by (auto simp: store_inv_def ids_below_def)
  then show ?thesis
    using assms b set_zip_filter [of "\<lambda>t. \<not> t < cutoff" ks ts]
    by (auto simp: store_inv_def unexpired_def ids_below_def Let_def distinct_map_filter dest!: set_zip_leftD)
qed

section \<open>Histories of a store\<close>

text \<open>
  What the owner of a store does between two exchanges, as long as there are ids left: rotate keys
  and generate one-time pre-keys; and, at some time, give a one-time pre-key out and clean up.
\<close>

inductive rotates :: "crypto_prims \<Rightarrow> key_bundle \<Rightarrow> key_bundle \<Rightarrow> bool" for P where
  rotate_signed: "rotate_signed P secret t b = (Ok p, b') \<Longrightarrow> length secret = KEY_SIZE \<Longrightarrow> kb_next_id b \<noteq> - 1 \<Longrightarrow> rotates P b b'"
| rotate_kem: "rotate_kem P dk t b = (Ok q, b') \<Longrightarrow> length dk = SECRET_KEY_LEN \<Longrightarrow> kb_next_id b \<noteq> - 1 \<Longrightarrow> rotates P b b'"
| generate: "generate_one_time P rng n b = (ps, b') \<Longrightarrow> \<forall>i. length (rng i) = KEY_SIZE \<Longrightarrow>
     unat (kb_next_id b) + unat n < 2 ^ 32 \<Longrightarrow> rotates P b b'"

inductive store_step :: "crypto_prims \<Rightarrow> key_bundle \<Rightarrow> key_bundle \<Rightarrow> bool" for P where
  rotates: "rotates P b b' \<Longrightarrow> store_step P b b'"
| consume: "consume_one_time i b = (r, b') \<Longrightarrow> store_step P b b'"
| cleanup: "cleanup_expired cutoff b = Returns (n, b') \<Longrightarrow> store_step P b b'"

inductive_cases rotatesE: "rotates P b b'"
inductive_cases store_stepE: "store_step P b b'"

lemma store_inv_rotate_signed:
  assumes "dh_laws P" "dsa_laws P" "store_inv P b" "length secret = KEY_SIZE" "kb_next_id b \<noteq> - 1" "rotate_signed P secret t b = (Ok p, b')"
  shows "store_inv P b'"
proof -
  have i: "identity_wf P (kb_identity b)" using assms(3) by (simp add: store_inv_def)
  obtain spk where g: "signed_generate P secret (kb_next_id b) (kb_identity b) t = Ok spk"
    and b': "b' = b\<lparr>kb_next_id := kb_next_id b + 1, kb_signed := spk # kb_signed b\<rparr>"
    using assms(6) by (auto simp: rotate_signed_def Let_def split: sum.splits)
  have "spk_id spk = kb_next_id b" using g by (auto simp: signed_generate_def Let_def)
  then show ?thesis
    using assms(3,5) b' signed_generate_ok [OF assms(1,2) i assms(4) g] ids_below_cons ids_below_up by (simp add: store_inv_def)
qed

lemma store_inv_rotate_kem:
  assumes "kem_laws P" "dsa_laws P" "store_inv P b" "length dk = SECRET_KEY_LEN" "kb_next_id b \<noteq> - 1" "rotate_kem P dk t b = (Ok q, b')"
  shows "store_inv P b'"
proof -
  have i: "identity_wf P (kb_identity b)" using assms(3) by (simp add: store_inv_def)
  obtain kpk where g: "kem_pre_generate P dk (kb_next_id b) (kb_identity b) = Ok kpk"
    and b': "b' = b\<lparr>kb_next_id := kb_next_id b + 1, kb_kem := kpk # kb_kem b, kb_kem_timestamps := t # kb_kem_timestamps b\<rparr>"
    using assms(6) by (auto simp: rotate_kem_def Let_def split: sum.splits)
  have "kpk_id kpk = kb_next_id b" using g by (auto simp: kem_pre_generate_def Let_def)
  then show ?thesis
    using assms(3,5) b' kem_pre_generate_ok [OF assms(1,2) i assms(4) g] ids_below_cons ids_below_up by (simp add: store_inv_def)
qed

lemma store_inv_generate:
  assumes "dh_laws P" "store_inv P b" "list_all (\<lambda>s. length s = KEY_SIZE) ss" "unat (kb_next_id b) + length ss < 2 ^ 32"
    "generate_loop P ss b = (ps, b')"
  shows "store_inv P b' \<and> kb_signed b' = kb_signed b \<and> kb_kem b' = kb_kem b \<and> kb_identity b' = kb_identity b \<and>
    set (kb_one_time b) \<subseteq> set (kb_one_time b')"
  using assms(2-5)
proof (induction ss arbitrary: b ps)
  case (Cons s ss)
  let ?b = "b\<lparr>kb_next_id := kb_next_id b + 1, kb_one_time := kb_one_time b @ [one_time_generate P s (kb_next_id b)]\<rparr>"
  have n: "kb_next_id b \<noteq> - 1" using Cons.prems(3) by (auto simp: unsigned_minus_1_eq_mask mask_eq_exp_minus_1)
  obtain ps' where r: "generate_loop P ss ?b = (ps', b')" using Cons.prems(4) by (auto simp: Let_def split: prod.splits)
  have "store_inv P ?b"
    using Cons.prems(1,2) n ids_below_up [OF _ n] ids_below_snoc [OF _ n] one_time_generate_wf [OF assms(1), of s "kb_next_id b"]
    by (auto simp: store_inv_def one_time_generate_def)
  from Cons.IH [OF this _ _ r] show ?case using Cons.prems(2,3) unat_next [OF n] by auto
qed simp

lemma generate_one_time_inv:
  assumes "dh_laws P" "store_inv P b" "\<forall>i. length (rng i) = KEY_SIZE" "unat (kb_next_id b) + unat n < 2 ^ 32"
    "generate_one_time P rng n b = (ps, b')"
  shows "store_inv P b' \<and> kb_signed b' = kb_signed b \<and> kb_kem b' = kb_kem b \<and> kb_identity b' = kb_identity b \<and>
    set (kb_one_time b) \<subseteq> set (kb_one_time b')"
  using assms by (intro store_inv_generate [where ss = "map rng [0..<unat n]"]) (auto simp: generate_one_time_def list_all_iff)

lemma rotates_keeps:
  assumes "crypto_laws P" "rotates P b b'" "store_inv P b"
  shows "store_inv P b' \<and> kb_identity b' = kb_identity b \<and> set (kb_signed b) \<subseteq> set (kb_signed b') \<and> set (kb_kem b) \<subseteq> set (kb_kem b') \<and>
    set (kb_one_time b) \<subseteq> set (kb_one_time b')"
  using assms(2)
proof cases
  case (rotate_signed secret t p)
  then show ?thesis
    using store_inv_rotate_signed [OF crypto_lawsD(1,4) [OF assms(1)] assms(3)]
    by (auto simp: rotate_signed_def Let_def split: sum.splits)
next
  case (rotate_kem dk t q)
  then show ?thesis
    using store_inv_rotate_kem [OF crypto_lawsD(3,4) [OF assms(1)] assms(3)]
    by (auto simp: rotate_kem_def Let_def split: sum.splits)
next
  case (generate rng n ps)
  then show ?thesis using generate_one_time_inv [OF crypto_lawsD(1) [OF assms(1)] assms(3) generate(2,3,1)] by simp
qed

lemma take_by_id_set: "take_by_id f i xs = (r, ys) \<Longrightarrow> set ys \<subseteq> set xs"
  by (induction xs arbitrary: ys) (auto split: if_splits prod.splits)

lemma take_by_id_distinct: "take_by_id f i xs = (r, ys) \<Longrightarrow> distinct (map f xs) \<Longrightarrow> distinct (map f ys)"
proof (induction xs arbitrary: ys)
  case (Cons x xs)
  show ?case
  proof (cases "f x = i")
    case False
    then obtain zs where z: "take_by_id f i xs = (r, zs)" "ys = x # zs" using Cons.prems(1) by (auto split: prod.splits)
    then have "f x \<notin> f ` set zs" using Cons.prems(2) take_by_id_set [OF z(1)] by auto
    then show ?thesis using z Cons.IH [OF z(1)] Cons.prems(2) by simp
  qed (use Cons.prems in auto)
qed simp

lemma store_step_inv:
  assumes "crypto_laws P" "store_step P b b'" "store_inv P b"
  shows "store_inv P b'"
  using assms(2)
proof cases
  case rotates
  then show ?thesis using rotates_keeps [OF assms(1) _ assms(3)] by blast
next
  case (consume i r)
  then obtain ks where "take_by_id opk_id i (kb_one_time b) = (r, ks)" "b' = b\<lparr>kb_one_time := ks\<rparr>"
    by (auto simp: consume_one_time_def split: prod.splits)
  then show ?thesis using assms(3) take_by_id_set [of opk_id i "kb_one_time b" r ks]
      take_by_id_distinct [of opk_id i "kb_one_time b" r ks]
    by (auto simp: store_inv_def ids_below_def)
next
  case (cleanup cutoff n)
  then show ?thesis
    using cleanup_expired_spec [of b cutoff] store_inv_unexpired [OF assms(3)] assms(3) by (simp add: store_inv_def)
qed

lemma store_inv_create:
  assumes "crypto_laws P" "length sk = SIGNING_KEY_LEN" "length s = KEY_SIZE" "length s' = KEY_SIZE" "length dk = SECRET_KEY_LEN"
    "key_store_create P sk s s' dk = Ok b"
  shows "store_inv P b"
proof -
  let ?i = "identity_generate P sk s"
  have i: "identity_wf P ?i" using assms identity_wf_generated crypto_lawsD by blast
  obtain spk kpk where g: "signed_generate P s' 1 ?i 0 = Ok spk" "kem_pre_generate P dk 2 ?i = Ok kpk"
    and b: "b = \<lparr>kb_identity = ?i, kb_signed = [spk], kb_one_time = [], kb_kem = [kpk], kb_next_id = 3, kb_kem_timestamps = [0]\<rparr>"
    using assms(6) by (auto simp: key_store_create_def Let_def)
  have "spk_id spk = 1" "kpk_id kpk = 2" using g by (auto simp: signed_generate_def kem_pre_generate_def Let_def)
  then show ?thesis
    using i b signed_generate_ok [OF crypto_lawsD(1,4) [OF assms(1)] i assms(4) g(1)]
      kem_pre_generate_ok [OF crypto_lawsD(3,4) [OF assms(1)] i assms(5) g(2)]
    by (simp add: store_inv_def ids_below_def)
qed

section \<open>Exchanges across a rotation\<close>

definition created :: "crypto_prims \<Rightarrow> key_bundle \<Rightarrow> bool" where
  "created P b \<longleftrightarrow> (\<exists>sk s s' dk. length sk = SIGNING_KEY_LEN \<and> length s = KEY_SIZE \<and> length s' = KEY_SIZE \<and>
     length dk = SECRET_KEY_LEN \<and> key_store_create P sk s s' dk = Ok b)"

lemma store_inv_reachable:
  assumes "crypto_laws P" "created P b0" "(store_step P)\<^sup>*\<^sup>* b0 b"
  shows "store_inv P b"
  using assms(3)
proof induction
  case base
  then show ?case using assms(1,2) store_inv_create unfolding created_def by blast
next
  case (step b b')
  then show ?case using store_step_inv [OF assms(1)] by blast
qed

lemma rotates_many:
  assumes "crypto_laws P" "(rotates P)\<^sup>*\<^sup>* b b'" "store_inv P b"
  shows "store_inv P b' \<and> kb_identity b' = kb_identity b \<and> set (kb_signed b) \<subseteq> set (kb_signed b') \<and> set (kb_kem b) \<subseteq> set (kb_kem b') \<and>
    set (kb_one_time b) \<subseteq> set (kb_one_time b')"
  using assms(2)
proof induction
  case (step b1 b2)
  then show ?case using rotates_keeps [OF assms(1), of b1 b2] by auto
qed (use assms(3) in simp)

lemma find_distinct: "distinct (map f xs) \<Longrightarrow> x \<in> set xs \<Longrightarrow> find (\<lambda>k. f k = f x) xs = Some x"
  by (induction xs) (auto simp: image_iff)

lemma take_distinct: "distinct (map f xs) \<Longrightarrow> x \<in> set xs \<Longrightarrow> fst (take_by_id f (f x) xs) = Some x"
  by (induction xs) (auto simp: image_iff split: prod.splits)

lemma consume_found: "fst (consume_one_time i b) = fst (take_by_id opk_id i (kb_one_time b))"
  by (simp add: consume_one_time_def split: prod.splits)

lemma public_bundle_published:
  assumes "store_inv P b"
  obtains spk kpk where "kb_signed b = spk # tl (kb_signed b)" "kb_kem b = kpk # tl (kb_kem b)"
    "party_wf P \<lparr>pk_identity = kb_identity b, pk_signed = spk, pk_kem = kpk\<rparr>"
    "public_bundle P b = Ok (published \<lparr>pk_identity = kb_identity b, pk_signed = spk, pk_kem = kpk\<rparr> (first_of (kb_one_time b)))"
proof -
  obtain spk ss kpk ks where b: "kb_signed b = spk # ss" "kb_kem b = kpk # ks"
    using assms unfolding store_inv_def by (cases "kb_signed b"; cases "kb_kem b") auto
  let ?k = "\<lparr>pk_identity = kb_identity b, pk_signed = spk, pk_kem = kpk\<rparr>"
  have w: "party_wf P ?k" using assms b by (simp add: store_inv_def party_wf_def bundle_validate_def published_def)
  have "public_bundle P b = Ok (published ?k (first_of (kb_one_time b)))"
    using b published_valid [OF w, of "first_of (kb_one_time b)"]
    by (cases "kb_one_time b") (simp_all add: public_bundle_def published_def first_of_def Let_def)
  then show thesis using that w b by simp
qed

text \<open>
  C5. A published pre-key bundle stays usable while its owner rotates keys and generates new
  one-time pre-keys: a sender that starts a key exchange from it succeeds, the owner finds the
  signed and the KEM pre-key by the ids in the sender's message, and both derive the same secret.
\<close>

theorem exchange_survives_rotation:
  assumes "crypto_laws P" "created P b0" "(store_step P)\<^sup>*\<^sup>* b0 b" "(rotates P)\<^sup>*\<^sup>* b b'" "identity_wf P ik"
  shows "\<exists>bundle res init spk kpk. public_bundle P b = Ok bundle \<and> x3dh_sender P eph rnd ik bundle = Ok (res, init) \<and>
    find_signed (xi_signed_id init) b' = Some spk \<and> find_kem (xi_kem_id init) b' = Some kpk \<and>
    x3dh_receiver P (kb_identity b') spk kpk (Option.bind (xi_one_time_id init) (\<lambda>i. fst (consume_one_time i b'))) init
      = Ok (xs_shared_secret res)"
proof -
  have inv: "store_inv P b" by (rule store_inv_reachable [OF assms(1-3)])
  obtain spk kpk where k: "kb_signed b = spk # tl (kb_signed b)" "kb_kem b = kpk # tl (kb_kem b)"
    "party_wf P \<lparr>pk_identity = kb_identity b, pk_signed = spk, pk_kem = kpk\<rparr>"
    "public_bundle P b = Ok (published \<lparr>pk_identity = kb_identity b, pk_signed = spk, pk_kem = kpk\<rparr> (first_of (kb_one_time b)))"
    by (rule public_bundle_published [OF inv])
  have o: "pred_option (one_time_wf P) (first_of (kb_one_time b))" "set_option (first_of (kb_one_time b)) \<subseteq> set (kb_one_time b)"
    using inv by (auto simp: store_inv_def first_of_def split: list.splits)
  obtain res init where x: "x3dh_sender P eph rnd ik (published \<lparr>pk_identity = kb_identity b, pk_signed = spk, pk_kem = kpk\<rparr>
        (first_of (kb_one_time b))) = Ok (res, init)"
      "x3dh_receiver P (kb_identity b) spk kpk (first_of (kb_one_time b)) init = Ok (xs_shared_secret res)"
      "xi_one_time_id init = map_option opk_id (first_of (kb_one_time b))" "xi_signed_id init = spk_id spk" "xi_kem_id init = kpk_id kpk"
    by (rule x3dh_agreement [OF crypto_lawsD(1,3) [OF assms(1)] assms(5) k(3) o(1), of eph rnd]) auto
  note r = rotates_many [OF assms(1,4) inv]
  have "spk \<in> set (kb_signed b)" "kpk \<in> set (kb_kem b)" by (subst k(1), simp) (subst k(2), simp)
  then have "find_signed (spk_id spk) b' = Some spk" "find_kem (kpk_id kpk) b' = Some kpk"
    using r by (auto simp: find_signed_def find_kem_def store_inv_def ids_below_def intro!: find_distinct)
  moreover have "Option.bind (map_option opk_id (first_of (kb_one_time b))) (\<lambda>i. fst (consume_one_time i b')) = first_of (kb_one_time b)"
    using r o(2) take_distinct [of opk_id "kb_one_time b'"]
    by (cases "first_of (kb_one_time b)") (auto simp: consume_found store_inv_def ids_below_def)
  ultimately show ?thesis using k(4) x r by auto
qed

text \<open>A store of the sample primitives, and one with its signed pre-key rotated.\<close>

definition sample_store :: key_bundle where
  "sample_store = (case key_store_create sample_prims (replicate 4032 1) (replicate 32 2) (replicate 32 3) (replicate 2400 4) of Ok b \<Rightarrow> b)"

lemma sample_store_created:
  "key_store_create sample_prims (replicate 4032 1) (replicate 32 2) (replicate 32 3) (replicate 2400 4) = Ok sample_store"
  by (simp add: sample_store_def key_store_create_def signed_generate_def kem_pre_generate_def identity_sign_def sign_message_def Let_def)

lemma sample_created: "created sample_prims sample_store"
  unfolding created_def
  by (rule exI [of _ "replicate 4032 1"], rule exI [of _ "replicate 32 2"], rule exI [of _ "replicate 32 3"], rule exI [of _ "replicate 2400 4"])
    (simp add: key_size_defs sample_store_created)

lemma sample_next: "kb_next_id sample_store = 3"
  by (simp add: sample_store_def key_store_create_def signed_generate_def kem_pre_generate_def identity_sign_def sign_message_def Let_def)

definition sample_identity :: identity_key_pair where
  "sample_identity = identity_generate sample_prims (replicate 4032 7) (replicate 32 8)"

lemma sample_identity_wf: "identity_wf sample_prims sample_identity"
  unfolding sample_identity_def
  by (rule identity_wf_generated [OF crypto_lawsD(1,4) [OF sample_laws]]) (simp_all add: key_size_defs)

theorem exchange_survives_rotation_witness:
  "\<exists>p b'. rotate_signed sample_prims (replicate 32 5) 1000 sample_store = (Ok p, b') \<and>
     (\<exists>bundle res init spk kpk. public_bundle sample_prims sample_store = Ok bundle \<and>
        x3dh_sender sample_prims (replicate 32 6) [9] sample_identity bundle = Ok (res, init) \<and>
        find_signed (xi_signed_id init) b' = Some spk \<and> find_kem (xi_kem_id init) b' = Some kpk \<and>
        x3dh_receiver sample_prims (kb_identity b') spk kpk (Option.bind (xi_one_time_id init) (\<lambda>i. fst (consume_one_time i b'))) init
          = Ok (xs_shared_secret res))"
proof -
  obtain p b' where r: "rotate_signed sample_prims (replicate 32 5) 1000 sample_store = (Ok p, b')"
    by (auto simp: rotate_signed_def signed_generate_def identity_sign_def sign_message_def Let_def)
  have "rotates sample_prims sample_store b'"
    by (rule rotates.rotate_signed [OF r]) (simp_all add: key_size_defs sample_next)
  then have "(rotates sample_prims)\<^sup>*\<^sup>* sample_store b'" by blast
  from exchange_survives_rotation [OF sample_laws sample_created rtranclp.rtrancl_refl this sample_identity_wf, of "replicate 32 6" "[9]"] r
  show ?thesis by blast
qed

text \<open>
  A key store survives being written to disk: whatever its owner did with it before, the saved
  file parses, the same passphrase opens it, and every key, id and timestamp is what it was.
\<close>

theorem key_store_reopens:
  assumes "crypto_laws P" "created P b0" "(store_step P)\<^sup>*\<^sup>* b0 b"
    "key_store_save P argon2 salt nonce b passphrase = Ok e" "length salt = SALT_LEN" "length nonce = NONCE_SIZE"
    "length (kb_signed b) < 2 ^ 32" "length (kb_kem b) < 2 ^ 32" "length (kb_one_time b) < 2 ^ 32"
  shows "result_bind (encrypted_from_bytes (encrypted_to_bytes e)) (\<lambda>e'. key_store_open P argon2 e' passphrase) = Ok b"
proof -
  have "key_bundle_wf P b"
    using store_inv_reachable [OF assms(1-3)] assms(7-9) by (simp add: key_bundle_wf_def store_inv_def list_all_iff)
  from key_store_roundtrip [OF crypto_lawsD(2) [OF assms(1)] this assms(4-6)] show ?thesis by simp
qed

theorem key_store_reopens_witness:
  "\<exists>e. key_store_save sample_prims (\<lambda>pw salt. Ok (pad 32 pw)) (replicate 16 1) (replicate 12 2) sample_store [7] = Ok e \<and>
     result_bind (encrypted_from_bytes (encrypted_to_bytes e)) (\<lambda>e'. key_store_open sample_prims (\<lambda>pw salt. Ok (pad 32 pw)) e' [7])
       = Ok sample_store"
proof -
  obtain e where e: "key_store_save sample_prims (\<lambda>pw salt. Ok (pad 32 pw)) (replicate 16 1) (replicate 12 2) sample_store [7] = Ok e"
    by (simp add: key_store_save_def storage_key_derive_def aead_encrypt_def sample_prims_def sample_seal_def)
  have "length (kb_signed sample_store) = 1" "length (kb_kem sample_store) = 1" "length (kb_one_time sample_store) = 0"
    by (simp_all add: sample_store_def key_store_create_def signed_generate_def kem_pre_generate_def identity_sign_def sign_message_def Let_def)
  then show ?thesis
    using key_store_reopens [OF sample_laws sample_created rtranclp.rtrancl_refl e] e by (simp add: SALT_LEN_def NONCE_SIZE_def)
qed

text \<open>
  A cleanup removes exactly the retained keys that the rotation check counts as expired: it never
  panics on a store that its owner's operations produced, keeps the current keys and every key that
  is not older than the cutoff, in order, with the timestamps in step.
\<close>

theorem cleanup_removes_counted:
  assumes "crypto_laws P" "created P b0" "(store_step P)\<^sup>*\<^sup>* b0 b"
  shows "cleanup_expired cutoff b = Returns (count_expired cutoff b, unexpired cutoff b)"
  using store_inv_reachable [OF assms] by (intro cleanup_expired_spec) (auto simp: store_inv_def)

theorem cleanup_removes_counted_witness:
  "cleanup_expired 5 sample_store = Returns (count_expired 5 sample_store, unexpired 5 sample_store)"
  by (rule cleanup_removes_counted [OF sample_laws sample_created rtranclp.rtrancl_refl])

end
