(* ===== verification/Client_Manager.thy ===== *)
theory Client_Manager
  imports Crypto_Storage "HOL-Library.List_Lexorder" "HOL-Library.Char_ord"
begin

text \<open>
  The client's encryption manager (\<^verbatim>\<open>pirc-client/src/encryption/mod.rs\<close>): identity and pre-keys, the
  ratchet session with each peer, and the key exchanges under way. The exchange between two managers
  ends with sessions that are in conversation with each other, the queued messages under way.

  SHA-256 comes from another package and is the argument \<open>sha256\<close>; results of file operations are
  arguments of the persistence functions.
\<close>

section \<open>State\<close>

datatype encryption_status = NoEncryption | Establishing | Active

datatype pending_exchange =
    AwaitingBundle (pe_queued: "bytes list")
  | AwaitingComplete (pe_session: triple_ratchet) (pe_queued: "bytes list")

record encryption_manager =
  mgr_identity :: identity_key_pair
  mgr_sessions :: "(string \<times> triple_ratchet) list"
  mgr_pending :: "(string \<times> pending_exchange) list"
  mgr_signed :: signed_pre_key
  mgr_kem :: kem_pre_key
  mgr_one_time :: "one_time_pre_key list"
  mgr_peers :: "(string \<times> identity_public_key) list"
  mgr_keys_dir :: "string option"
  mgr_passphrase :: "bytes option"

definition ONE_TIME_PRE_KEY_BATCH_SIZE :: nat where "ONE_TIME_PRE_KEY_BATCH_SIZE = 10"

record manager_draws =
  md_signing :: bytes
  md_dh :: bytes
  md_signed :: bytes
  md_kem :: bytes
  md_one_time :: "nat \<Rightarrow> bytes"

definition manager_with ::
  "identity_key_pair \<Rightarrow> signed_pre_key \<Rightarrow> kem_pre_key \<Rightarrow> one_time_pre_key list \<Rightarrow> encryption_manager" where
  "manager_with identity spk kpk opks =
     \<lparr>mgr_identity = identity, mgr_sessions = [], mgr_pending = [], mgr_signed = spk, mgr_kem = kpk, mgr_one_time = opks,
      mgr_peers = [], mgr_keys_dir = None, mgr_passphrase = None\<rparr>"

definition manager_new :: "crypto_prims \<Rightarrow> manager_draws \<Rightarrow> u64 \<Rightarrow> encryption_manager outcome" where
  "manager_new P d timestamp =
     (let identity = identity_generate P (md_signing d) (md_dh d) in
      case signed_generate P (md_signed d) 1 identity timestamp of
        Err _ \<Rightarrow> Panics ''signed pre-key generation should not fail''
      | Ok spk \<Rightarrow>
          (case kem_pre_generate P (md_kem d) 1 identity of
             Err _ \<Rightarrow> Panics ''KEM pre-key generation should not fail''
           | Ok kpk \<Rightarrow>
               Returns (manager_with identity spk kpk
                 (map (\<lambda>i. one_time_generate P (md_one_time d i) (word_of_nat i)) [0..<ONE_TIME_PRE_KEY_BATCH_SIZE]))))"

section \<open>Persistence\<close>

definition IDENTITY_FILE :: string where "IDENTITY_FILE = ''identity.enc''"

definition to_key_store :: "crypto_prims \<Rightarrow> encryption_manager \<Rightarrow> crypto_error + key_bundle" where
  "to_key_store P m = from_parts P (mgr_identity m) (mgr_signed m) (mgr_kem m) (mgr_one_time m)"

definition from_key_store :: "key_bundle \<Rightarrow> string + encryption_manager" where
  "from_key_store b =
     result_bind (map_err crypto_error_display (into_parts b)) (\<lambda>(identity, spk, kpk, opks). Ok (manager_with identity spk kpk opks))"

text \<open>
  The errors of creating the directory, writing the file and setting its permissions. Writing truncates the
  file first: when it fails after that, some number of bytes has been written.
\<close>

record disk_results =
  dk_create_dir :: "string option"
  dk_write :: "(string \<times> nat option) option"
  dk_permissions :: "string option"

definition io_step :: "string \<Rightarrow> string option \<Rightarrow> string + unit" where
  "io_step what r = (case r of None \<Rightarrow> Ok () | Some e \<Rightarrow> Err (what @ '': '' @ e))"

text \<open>The outcome, and the new contents of the file if it was touched.\<close>

definition save_identity_to_disk ::
  "crypto_prims \<Rightarrow> argon2 \<Rightarrow> bytes \<Rightarrow> bytes \<Rightarrow> disk_results \<Rightarrow> encryption_manager \<Rightarrow> (string + unit) \<times> bytes option" where
  "save_identity_to_disk P argon2 salt nonce dk m =
     (case result_bind (ok_or ''no keys directory configured'' (mgr_keys_dir m)) (\<lambda>keys_dir.
           result_bind (ok_or ''no passphrase configured'' (mgr_passphrase m)) (\<lambda>passphrase.
           result_bind (io_step ''failed to create keys directory'' (dk_create_dir dk)) (\<lambda>_.
           result_bind (map_err crypto_error_display (to_key_store P m)) (\<lambda>store.
           result_bind (map_err crypto_error_display (key_store_save P argon2 salt nonce store passphrase)) (\<lambda>encrypted.
             Ok (keys_dir @ ''/'' @ IDENTITY_FILE, encrypted_to_bytes encrypted)))))) of
        Err e \<Rightarrow> (Err e, None)
      | Ok (path, data) \<Rightarrow>
          (case dk_write dk of
             Some (e, written) \<Rightarrow> (Err (''failed to write '' @ path @ '': '' @ e), map_option (\<lambda>k. take k data) written)
           | None \<Rightarrow> (io_step (''failed to set permissions on '' @ path) (dk_permissions dk), Some data)))"

definition load_from_disk :: "crypto_prims \<Rightarrow> argon2 \<Rightarrow> string \<Rightarrow> string + bytes \<Rightarrow> bytes \<Rightarrow> string + encryption_manager" where
  "load_from_disk P argon2 path file passphrase =
     result_bind (map_err (\<lambda>e. ''failed to read '' @ path @ '': '' @ e) file) (\<lambda>data.
     result_bind (map_err crypto_error_display (encrypted_from_bytes data)) (\<lambda>encrypted.
     result_bind (map_err crypto_error_display (key_store_open P argon2 encrypted passphrase)) from_key_store))"

text \<open>The manager, and the file if one was written; \<open>file\<close> is absent when there is none.\<close>

definition load_or_create ::
  "crypto_prims \<Rightarrow> argon2 \<Rightarrow> manager_draws \<Rightarrow> u64 \<Rightarrow> bytes \<Rightarrow> bytes \<Rightarrow> disk_results \<Rightarrow> string \<Rightarrow> (string + bytes) option \<Rightarrow> bytes \<Rightarrow>
     (encryption_manager \<times> bytes option) outcome" where
  "load_or_create P argon2 d now salt nonce dk keys_dir file passphrase =
     (let path = keys_dir @ ''/'' @ IDENTITY_FILE;
          loaded = (case file of None \<Rightarrow> Err ''no such file'' | Some f \<Rightarrow> load_from_disk P argon2 path f passphrase) in
      case loaded of
        Ok m \<Rightarrow> Returns (m\<lparr>mgr_keys_dir := Some keys_dir, mgr_passphrase := Some passphrase\<rparr>, None)
      | Err _ \<Rightarrow>
          (case manager_new P d now of
             Panics e \<Rightarrow> Panics e
           | Returns m0 \<Rightarrow>
               (let m = m0\<lparr>mgr_keys_dir := Some keys_dir, mgr_passphrase := Some passphrase\<rparr> in
                Returns (m, snd (save_identity_to_disk P argon2 salt nonce dk m)))))"

definition persist :: "crypto_prims \<Rightarrow> argon2 \<Rightarrow> bytes \<Rightarrow> bytes \<Rightarrow> disk_results \<Rightarrow> encryption_manager \<Rightarrow> bytes option" where
  "persist P argon2 salt nonce dk m =
     (if mgr_keys_dir m \<noteq> None \<and> mgr_passphrase m \<noteq> None
      then snd (save_identity_to_disk P argon2 salt nonce dk m)
      else None)"

section \<open>Sessions\<close>

definition has_session :: "encryption_manager \<Rightarrow> string \<Rightarrow> bool" where
  "has_session m peer \<longleftrightarrow> hm_get (mgr_sessions m) peer \<noteq> None"

definition has_pending_exchange :: "encryption_manager \<Rightarrow> string \<Rightarrow> bool" where
  "has_pending_exchange m peer \<longleftrightarrow> hm_get (mgr_pending m) peer \<noteq> None"

definition status_of :: "encryption_manager \<Rightarrow> string \<Rightarrow> encryption_status" where
  "status_of m peer =
     (if hm_get (mgr_sessions m) peer \<noteq> None then Active
      else if hm_get (mgr_pending m) peer \<noteq> None then Establishing
      else NoEncryption)"

definition no_session_error :: "string \<Rightarrow> crypto_error" where
  "no_session_error peer = RatchetErr (''no active session with peer '' @ [CHR 0x27] @ peer @ [CHR 0x27])"

definition manager_encrypt ::
  "crypto_prims \<Rightarrow> draws \<Rightarrow> string \<Rightarrow> bytes \<Rightarrow> encryption_manager \<Rightarrow> (crypto_error + encrypted_message) \<times> encryption_manager" where
  "manager_encrypt P rnd peer plaintext m =
     (case hm_get (mgr_sessions m) peer of
        None \<Rightarrow> (Err (no_session_error peer), m)
      | Some s \<Rightarrow> (case triple_encrypt P rnd plaintext s of
                    (r, s') \<Rightarrow> (r, m\<lparr>mgr_sessions := hm_insert peer s' (mgr_sessions m)\<rparr>)))"

definition manager_decrypt ::
  "crypto_prims \<Rightarrow> draws \<Rightarrow> string \<Rightarrow> encrypted_message \<Rightarrow> encryption_manager \<Rightarrow> (crypto_error + bytes) outcome \<times> encryption_manager" where
  "manager_decrypt P rnd peer msg m =
     (case hm_get (mgr_sessions m) peer of
        None \<Rightarrow> (Returns (Err (no_session_error peer)), m)
      | Some s \<Rightarrow> (case triple_decrypt P rnd msg s of
                    (r, s') \<Rightarrow> (r, m\<lparr>mgr_sessions := hm_insert peer s' (mgr_sessions m)\<rparr>)))"

definition create_pre_key_bundle :: "encryption_manager \<Rightarrow> pre_key_bundle" where
  "create_pre_key_bundle m =
     \<lparr>pb_identity = public_identity (mgr_identity m), pb_signed = signed_to_public (mgr_signed m),
      pb_kem = kem_pre_to_public (mgr_kem m), pb_one_time = map_option one_time_to_public (first_of (mgr_one_time m))\<rparr>"

section \<open>Fingerprints and lists\<close>

definition identity_fingerprint :: "(bytes \<Rightarrow> bytes) \<Rightarrow> identity_public_key \<Rightarrow> bytes" where
  "identity_fingerprint sha256 ip = sha256 (ip_verifying ip @ ip_dh_public ip)"

definition hex_fingerprint :: "bytes \<Rightarrow> string" where
  "hex_fingerprint fp = join_with '':'' (map hex_byte fp)"

definition get_identity_fingerprint :: "(bytes \<Rightarrow> bytes) \<Rightarrow> encryption_manager \<Rightarrow> string" where
  "get_identity_fingerprint sha256 m = hex_fingerprint (identity_fingerprint sha256 (public_identity (mgr_identity m)))"

definition get_peer_fingerprint :: "(bytes \<Rightarrow> bytes) \<Rightarrow> encryption_manager \<Rightarrow> string \<Rightarrow> string option" where
  "get_peer_fingerprint sha256 m peer =
     map_option (\<lambda>ip. hex_fingerprint (identity_fingerprint sha256 ip)) (hm_get (mgr_peers m) peer)"

definition list_peers :: "encryption_manager \<Rightarrow> (string \<times> encryption_status) list" where
  "list_peers m =
     sort_key fst
       (map (\<lambda>(p, _). (p, Active)) (mgr_sessions m) @
        map (\<lambda>(p, _). (p, Establishing)) (filter (\<lambda>(p, _). \<not> has_session m p) (mgr_pending m)))"

section \<open>The key exchange\<close>

definition manager_initiate :: "string \<Rightarrow> encryption_manager \<Rightarrow> key_exchange_message \<times> encryption_manager" where
  "manager_initiate peer m = (RequestBundle, m\<lparr>mgr_pending := hm_insert peer (AwaitingBundle []) (mgr_pending m)\<rparr>)"

definition manager_queue :: "string \<Rightarrow> bytes \<Rightarrow> encryption_manager \<Rightarrow> bool \<times> encryption_manager" where
  "manager_queue peer plaintext m =
     (case hm_get (mgr_pending m) peer of
        Some (AwaitingBundle qs) \<Rightarrow>
          (True, m\<lparr>mgr_pending := hm_insert peer (AwaitingBundle (qs @ [plaintext])) (mgr_pending m)\<rparr>)
      | Some (AwaitingComplete s qs) \<Rightarrow>
          (True, m\<lparr>mgr_pending := hm_insert peer (AwaitingComplete s (qs @ [plaintext])) (mgr_pending m)\<rparr>)
      | None \<Rightarrow> (False, m))"

record exchange_draws =
  xd_ephemeral :: bytes
  xd_kem_seed :: bytes
  xd_dh_secret :: bytes
  xd_kem_secret :: bytes
  xd_messages :: "nat \<Rightarrow> draws"

fun encrypt_queued ::
  "crypto_prims \<Rightarrow> (nat \<Rightarrow> draws) \<Rightarrow> nat \<Rightarrow> bytes list \<Rightarrow> triple_ratchet \<Rightarrow> (crypto_error + encrypted_message list) \<times> triple_ratchet" where
  "encrypt_queued P rnd i [] s = (Ok [], s)"
| "encrypt_queued P rnd i (p # ps) s =
     (case triple_encrypt P (rnd i) p s of
        (Err e, s1) \<Rightarrow> (Err e, s1)
      | (Ok c, s1) \<Rightarrow>
          (case encrypt_queued P rnd (i + 1) ps s1 of
             (Err e, s2) \<Rightarrow> (Err e, s2)
           | (Ok cs, s2) \<Rightarrow> (Ok (c # cs), s2)))"

definition manager_bundle_response ::
  "crypto_prims \<Rightarrow> exchange_draws \<Rightarrow> string \<Rightarrow> pre_key_bundle \<Rightarrow> encryption_manager \<Rightarrow>
     (crypto_error + x3dh_init \<times> encrypted_message list) \<times> encryption_manager" where
  "manager_bundle_response P d peer bundle m =
     (case x3dh_sender P (xd_ephemeral d) (xd_kem_seed d) (mgr_identity m) bundle of
        Err e \<Rightarrow> (Err e, m)
      | Ok (result, init) \<Rightarrow>
          (let m1 = m\<lparr>mgr_peers := hm_insert peer (pb_identity bundle) (mgr_peers m)\<rparr> in
           case triple_init_sender P (xd_dh_secret d) (xd_kem_secret d) (xs_shared_secret result)
                  (spp_public (pb_signed bundle)) (kpp_public (pb_kem bundle)) of
             Err e \<Rightarrow> (Err e, m1)
           | Ok session \<Rightarrow>
               (let queued = (case hm_get (mgr_pending m1) peer of Some (AwaitingBundle qs) \<Rightarrow> qs | _ \<Rightarrow> []);
                    m2 = m1\<lparr>mgr_pending := hm_remove peer (mgr_pending m1)\<rparr> in
                case encrypt_queued P (xd_messages d) 0 queued session of
                  (Err e, _) \<Rightarrow> (Err e, m2)
                | (Ok encrypted, session') \<Rightarrow>
                    (Ok (init, encrypted),
                     m2\<lparr>mgr_pending := hm_insert peer (AwaitingComplete session' []) (mgr_pending m2)\<rparr>))))"

definition manager_init_message ::
  "crypto_prims \<Rightarrow> string \<Rightarrow> x3dh_init \<Rightarrow> encryption_manager \<Rightarrow> (crypto_error + key_exchange_message) \<times> encryption_manager" where
  "manager_init_message P peer init m =
     (case (case xi_one_time_id init of None \<Rightarrow> (None, mgr_one_time m) | Some i \<Rightarrow> take_by_id opk_id i (mgr_one_time m)) of
        (otpk, rest) \<Rightarrow>
          (let m1 = m\<lparr>mgr_one_time := rest\<rparr> in
           case x3dh_receiver P (mgr_identity m1) (mgr_signed m1) (mgr_kem m1) otpk init of
             Err e \<Rightarrow> (Err e, m1)
           | Ok shared_secret \<Rightarrow>
               (let m2 = m1\<lparr>mgr_peers := hm_insert peer (xi_sender_identity init) (mgr_peers m1)\<rparr>;
                    ratchet_dh = key_pair_from_secret P (kp_secret (spk_pair (mgr_signed m2))) in
                case result_bind
                       (map_err (\<lambda>e. RatchetErr (''failed to reconstruct KEM key pair: '' @ crypto_error_display e))
                          (kem_pair_from_bytes (kem_pair_to_bytes (kpk_pair (mgr_kem m2)))))
                       (\<lambda>ratchet_kem. triple_init_receiver P shared_secret ratchet_dh ratchet_kem) of
                  Err e \<Rightarrow> (Err e, m2)
                | Ok session \<Rightarrow> (Ok Complete, m2\<lparr>mgr_sessions := hm_insert peer session (mgr_sessions m2)\<rparr>))))"

definition manager_complete :: "string \<Rightarrow> encryption_manager \<Rightarrow> encryption_manager" where
  "manager_complete peer m =
     (let m1 = m\<lparr>mgr_pending := hm_remove peer (mgr_pending m)\<rparr> in
      case hm_get (mgr_pending m) peer of
        Some (AwaitingComplete s _) \<Rightarrow> m1\<lparr>mgr_sessions := hm_insert peer s (mgr_sessions m1)\<rparr>
      | _ \<Rightarrow> m1)"

definition remove_session :: "string \<Rightarrow> encryption_manager \<Rightarrow> encryption_manager" where
  "remove_session peer m =
     m\<lparr>mgr_sessions := hm_remove peer (mgr_sessions m), mgr_pending := hm_remove peer (mgr_pending m),
       mgr_peers := hm_remove peer (mgr_peers m)\<rparr>"

section \<open>Managers that exchange keys\<close>

definition manager_party :: "encryption_manager \<Rightarrow> party_keys" where
  "manager_party m = \<lparr>pk_identity = mgr_identity m, pk_signed = mgr_signed m, pk_kem = mgr_kem m\<rparr>"

definition manager_wf :: "crypto_prims \<Rightarrow> encryption_manager \<Rightarrow> bool" where
  "manager_wf P m \<longleftrightarrow> party_wf P (manager_party m) \<and> list_all (one_time_wf P) (mgr_one_time m) \<and> distinct (map opk_id (mgr_one_time m))"

definition draws_wf :: "manager_draws \<Rightarrow> bool" where
  "draws_wf d \<longleftrightarrow> length (md_signing d) = SIGNING_KEY_LEN \<and> length (md_dh d) = KEY_SIZE \<and> length (md_signed d) = KEY_SIZE \<and>
     length (md_kem d) = SECRET_KEY_LEN \<and> (\<forall>i. length (md_one_time d i) = KEY_SIZE)"

lemma manager_new_wf:
  assumes "crypto_laws P" "draws_wf d"
  obtains m where "manager_new P d now = Returns m" "manager_wf P m" "mgr_one_time m \<noteq> []" "mgr_sessions m = []" "mgr_pending m = []"
proof -
  let ?i = "identity_generate P (md_signing d) (md_dh d)"
  let ?o = "map (\<lambda>i. one_time_generate P (md_one_time d i) (word_of_nat i)) [0..<ONE_TIME_PRE_KEY_BATCH_SIZE]"
  obtain spk kpk where g: "signed_generate P (md_signed d) 1 ?i now = Ok spk" "kem_pre_generate P (md_kem d) 1 ?i = Ok kpk"
    by (simp add: signed_generate_def kem_pre_generate_def identity_sign_def sign_message_def Let_def)
  have "party_wf P \<lparr>pk_identity = ?i, pk_signed = spk, pk_kem = kpk\<rparr>"
    using assms(2) by (intro party_generated [OF crypto_lawsD(1,3,4) [OF assms(1)] _ _ _ _ refl g]) (auto simp: draws_wf_def)
  moreover have "list_all (one_time_wf P) ?o"
    using one_time_generate_wf [OF crypto_lawsD(1) [OF assms(1)]] assms(2) by (simp add: list_all_iff draws_wf_def)
  moreover have "map opk_id ?o = map word_of_nat [0..<10]" by (simp add: one_time_generate_def ONE_TIME_PRE_KEY_BATCH_SIZE_def comp_def)
  then have "distinct (map opk_id ?o)" by (simp only: upt_conv_Cons) (simp add: upt_rec)
  ultimately show thesis
    using that [of "manager_with ?i spk kpk ?o"] g
    by (simp add: manager_new_def manager_wf_def manager_party_def manager_with_def ONE_TIME_PRE_KEY_BATCH_SIZE_def)
qed

lemma create_bundle_published: "create_pre_key_bundle m = published (manager_party m) (first_of (mgr_one_time m))"
  by (simp add: create_pre_key_bundle_def published_def manager_party_def)

lemma first_one_time:
  assumes "manager_wf P m"
  shows "pred_option (one_time_wf P) (first_of (mgr_one_time m))"
    "fst (case map_option opk_id (first_of (mgr_one_time m)) of None \<Rightarrow> (None, mgr_one_time m)
       | Some i \<Rightarrow> take_by_id opk_id i (mgr_one_time m)) = first_of (mgr_one_time m)"
  using assms by (cases "mgr_one_time m"; simp add: manager_wf_def first_of_def)+

section \<open>Queued messages\<close>

lemma encrypt_queued_talks:
  assumes "crypto_laws P" "\<forall>k n p a. gcm_seal P k n p a \<noteq> None" "ahead P UNIV (cv_a c) (cv_b c) (cv_to_b c) (cv_to_a c)" "\<not> pq_step_due (cv_a c)"
  shows "\<exists>cs a'. encrypt_queued P rnd i qs (cv_a c) = (Ok cs, a') \<and> length cs = length qs \<and>
    (talks P)\<^sup>*\<^sup>* c (c\<lparr>cv_a := a', cv_to_b := cv_to_b c @ zip cs qs\<rparr>)"
  using assms(3,4)
proof (induction qs arbitrary: c i)
  case (Cons q qs)
  obtain ch where "sending (cv_a c) = Some ch" using Cons.prems(1) by (auto simp: ahead_def new_epoch_def)
  then obtain m x where e: "triple_encrypt P (rnd i) q (cv_a c) = (Ok m, x)" using encrypt_succeeds assms(2) Cons.prems(2) by blast
  let ?c = "c\<lparr>cv_a := x, cv_to_b := cv_to_b c @ [(m, q)]\<rparr>"
  note s = ahead_send_x [OF Cons.prems(1) crypto_lawsD(3,1) [OF assms(1)] e, simplified]
  have "\<not> pq_step_due (cv_a ?c)" using s(2,3) Cons.prems(2) by (auto simp: pq_step_due_def)
  then obtain cs a' where r: "encrypt_queued P rnd (i + 1) qs (cv_a ?c) = (Ok cs, a')" "length cs = length qs"
      "(talks P)\<^sup>*\<^sup>* ?c (?c\<lparr>cv_a := a', cv_to_b := cv_to_b ?c @ zip cs qs\<rparr>)"
    using Cons.IH [of ?c "i + 1"] s(1) by auto
  have "talks P c ?c" by (rule talks.send_a [OF e])
  then have "(talks P)\<^sup>*\<^sup>* c (?c\<lparr>cv_a := a', cv_to_b := cv_to_b ?c @ zip cs qs\<rparr>)"
    using r(3) by (rule converse_rtranclp_into_rtranclp)
  then show ?case using e r(1,2) by (intro exI [of _ "m # cs"] exI [of _ a']) simp
qed simp

section \<open>The whole exchange\<close>

text \<open>
  The exchange between \<open>A\<close>, known as \<open>a\<close>, and \<open>B\<close>, known as \<open>b\<close>: the bundle of \<open>B\<close> and the first message
  of \<open>A\<close> go over the wire, \<open>B\<close> answers, and \<open>A\<close> hears that it is complete.
\<close>

definition run_exchange ::
  "crypto_prims \<Rightarrow> base64_codec \<Rightarrow> exchange_draws \<Rightarrow> string \<Rightarrow> string \<Rightarrow> encryption_manager \<Rightarrow> encryption_manager \<Rightarrow>
     crypto_error + encrypted_message list \<times> encryption_manager \<times> encryption_manager" where
  "run_exchange P C d a b A B =
     result_bind (over_wire P C (Bundle (create_pre_key_bundle B))) (\<lambda>m1.
       case m1 of
         Bundle bundle \<Rightarrow>
           (case manager_bundle_response P d b bundle A of
              (Err e, _) \<Rightarrow> Err e
            | (Ok (init, queued), A1) \<Rightarrow>
                result_bind (over_wire P C (InitMessage init)) (\<lambda>m2.
                  case m2 of
                    InitMessage init' \<Rightarrow>
                      (case manager_init_message P a init' B of
                         (Err e, _) \<Rightarrow> Err e
                       | (Ok _, B1) \<Rightarrow> Ok (queued, manager_complete b A1, B1))
                  | _ \<Rightarrow> Err (SerializationErr ''unexpected message'')))
       | _ \<Rightarrow> Err (SerializationErr ''unexpected message''))"

lemma triple_init_sender_fresh:
  assumes "triple_init_sender P ds ks ss pub ek = Ok a"
  shows "\<not> pq_step_due a"
  using assms by (auto simp: triple_init_sender_def pq_step_due_def DEFAULT_PQ_INTERVAL_def)

lemma exchange_parts:
  assumes laws: "crypto_laws P" "\<forall>k n p a. gcm_seal P k n p a \<noteq> None" and wf: "manager_wf P A" "manager_wf P B"
    and q: "hm_get (mgr_pending A) b = Some (AwaitingBundle qs)"
  obtains init cs A1 B1 c0 c where
    "manager_bundle_response P d b (create_pre_key_bundle B) A = (Ok (init, cs), A1)" "init_wf init"
    "manager_init_message P a init B = (Ok Complete, B1)" "conversation_start P c0" "(talks P)\<^sup>*\<^sup>* c0 c"
    "hm_get (mgr_pending A1) b = Some (AwaitingComplete (cv_a c) [])" "hm_get (mgr_sessions B1) a = Some (cv_b c)"
    "cv_to_b c = zip cs qs" "length cs = length qs" "cv_to_a c = []"
    "hm_get (mgr_peers A1) b = Some (public_identity (mgr_identity B))" "hm_get (mgr_peers B1) a = Some (public_identity (mgr_identity A))"
proof -
  let ?o = "first_of (mgr_one_time B)" and ?k = "manager_party B"
  have w: "identity_wf P (mgr_identity A)" "party_wf P ?k" "signed_wf P (mgr_signed B)" "kem_pre_wf P (mgr_kem B)"
    using wf by (simp_all add: manager_wf_def party_wf_def manager_party_def)
  obtain res init where x: "x3dh_sender P (xd_ephemeral d) (xd_kem_seed d) (mgr_identity A) (published ?k ?o) = Ok (res, init)"
      "length (xi_kem_ciphertext init) = CIPHERTEXT_LEN"
      "x3dh_receiver P (mgr_identity B) (mgr_signed B) (mgr_kem B) ?o init = Ok (xs_shared_secret res)"
      "xi_sender_identity init = public_identity (mgr_identity A)" "xi_ephemeral_public init = x25519_base P (xd_ephemeral d)"
      "xi_one_time_id init = map_option opk_id ?o"
    by (rule x3dh_agreement [OF crypto_lawsD(1,3) [OF laws(1)] w(1,2) first_one_time(1) [OF wf(2)], of "xd_ephemeral d" "xd_kem_seed d"])
      (auto simp: manager_party_def)
  have iw: "init_wf init"
    using x(2,4,5) public_identity_wf [OF w(1)] crypto_lawsD(1) [OF laws(1)] by (simp add: init_wf_def dh_laws_def KEY_SIZE_def)
  have pk: "pair_ok P (spk_pair (mgr_signed B))" "pair_wf P (spk_pair (mgr_signed B))" "kem_pair_wf P (kpk_pair (mgr_kem B))"
    using w(3,4) by (auto simp: signed_wf_def kem_pre_wf_def pair_wf_def)
  obtain s0 where s0: "triple_init_sender P (xd_dh_secret d) (xd_kem_secret d) (xs_shared_secret res) (kp_public (spk_pair (mgr_signed B)))
        (kem_ek (kpk_pair (mgr_kem B))) = Ok s0"
    using triple_init_total(1) [OF crypto_lawsD(1) [OF laws(1)] pk(1)] by blast
  obtain r0 where r0: "triple_init_receiver P (xs_shared_secret res) (spk_pair (mgr_signed B)) (kpk_pair (mgr_kem B)) = Ok r0"
    using triple_init_total(2) [OF crypto_lawsD(1) [OF laws(1)] pk(1)] by blast
  define c0 where "c0 = \<lparr>cv_a = s0, cv_b = r0, cv_to_b = [], cv_to_a = []\<rparr>"
  have start: "conversation_start P c0" using s0 r0 pk(1) by (fastforce simp: conversation_start_def c0_def)
  obtain cs s1 where e: "encrypt_queued P (xd_messages d) 0 qs s0 = (Ok cs, s1)" "length cs = length qs"
      "(talks P)\<^sup>*\<^sup>* c0 (c0\<lparr>cv_a := s1, cv_to_b := zip cs qs\<rparr>)"
    using encrypt_queued_talks [OF laws, of c0 "xd_messages d" 0 qs] conversation_start_ahead [OF start crypto_lawsD(1) [OF laws(1)]]
      triple_init_sender_fresh [OF s0] by (auto simp: c0_def)
  define A1 where "A1 = A\<lparr>mgr_peers := hm_insert b (public_identity (mgr_identity B)) (mgr_peers A),
    mgr_pending := hm_insert b (AwaitingComplete s1 []) (hm_remove b (mgr_pending A))\<rparr>"
  have A1: "manager_bundle_response P d b (create_pre_key_bundle B) A = (Ok (init, cs), A1)"
    using x(1) s0 e(1) q
    by (simp add: manager_bundle_response_def create_bundle_published A1_def Let_def)
      (simp add: published_def manager_party_def signed_to_public_def kem_pre_to_public_def)
  obtain rest where rest: "(case xi_one_time_id init of None \<Rightarrow> (None, mgr_one_time B) | Some i \<Rightarrow> take_by_id opk_id i (mgr_one_time B)) = (?o, rest)"
    using first_one_time(2) [OF wf(2)] x(6) by (metis prod.collapse)
  define B1 where "B1 = B\<lparr>mgr_one_time := rest, mgr_peers := hm_insert a (public_identity (mgr_identity A)) (mgr_peers B),
    mgr_sessions := hm_insert a r0 (mgr_sessions B)\<rparr>"
  have "manager_init_message P a init B = (Ok Complete, B1)"
    using x(3,4) r0 pk(2) kem_pair.dec_enc [OF pk(3)] by (simp add: manager_init_message_def rest B1_def Let_def)
  then show thesis
    using that [OF A1 iw _ start e(3)] e(2) by (simp add: A1_def B1_def c0_def update_conv)
qed

text \<open>
  C4. A key exchange between two clients succeeds and puts them into conversation: whatever was
  queued for the peer in the meantime, the bundle and the first message survive the wire, both
  sides derive the same secret and keep the other's identity, and the resulting sessions are those
  of a conversation that has just begun, in which the queued messages are under way in order.
\<close>

theorem exchange_establishes_conversation:
  assumes "crypto_laws P" "\<forall>k n p a. gcm_seal P k n p a \<noteq> None" "base64_laws C" "manager_wf P A" "manager_wf P B"
    "hm_get (mgr_pending A) b = Some (AwaitingBundle qs)"
  shows "\<exists>cs A' B' c0 c. run_exchange P C d a b A B = Ok (cs, A', B') \<and> conversation_start P c0 \<and> (talks P)\<^sup>*\<^sup>* c0 c \<and>
    hm_get (mgr_sessions A') b = Some (cv_a c) \<and> hm_get (mgr_sessions B') a = Some (cv_b c) \<and>
    cv_to_b c = zip cs qs \<and> length cs = length qs \<and> cv_to_a c = [] \<and>
    hm_get (mgr_peers A') b = Some (public_identity (mgr_identity B)) \<and> hm_get (mgr_peers B') a = Some (public_identity (mgr_identity A))"
proof -
  obtain init cs A1 B1 c0 c where x:
    "manager_bundle_response P d b (create_pre_key_bundle B) A = (Ok (init, cs), A1)" "init_wf init"
    "manager_init_message P a init B = (Ok Complete, B1)" "conversation_start P c0" "(talks P)\<^sup>*\<^sup>* c0 c"
    "hm_get (mgr_pending A1) b = Some (AwaitingComplete (cv_a c) [])" "hm_get (mgr_sessions B1) a = Some (cv_b c)"
    "cv_to_b c = zip cs qs" "length cs = length qs" "cv_to_a c = []"
    "hm_get (mgr_peers A1) b = Some (public_identity (mgr_identity B))" "hm_get (mgr_peers B1) a = Some (public_identity (mgr_identity A))"
    by (rule exchange_parts [OF assms(1,2,4,5,6)])
  have "bundle_wf P (create_pre_key_bundle B)"
    using published_wf first_one_time(1) [OF assms(5)] assms(5) by (simp add: create_bundle_published manager_wf_def)
  then have "run_exchange P C d a b A B = Ok (cs, manager_complete b A1, B1)"
    using x(1-3) over_wire_id [OF assms(3), of P] by (simp add: run_exchange_def exchange_wf_def)
  moreover have "hm_get (mgr_sessions (manager_complete b A1)) b = Some (cv_a c)" "mgr_peers (manager_complete b A1) = mgr_peers A1"
    using x(6) by (simp_all add: manager_complete_def Let_def update_conv)
  ultimately show ?thesis using x by auto
qed

section \<open>A one-time pre-key that is gone\<close>

lemma take_missing: "x \<notin> f ` set xs \<Longrightarrow> take_by_id f x xs = (None, xs)"
  by (induction xs) auto

lemma init_message_keeps:
  assumes "manager_init_message P a init B = (r, B')"
  shows "mgr_identity B' = mgr_identity B" "mgr_signed B' = mgr_signed B" "mgr_kem B' = mgr_kem B"
    "mgr_one_time B' = (case xi_one_time_id init of None \<Rightarrow> mgr_one_time B | Some i \<Rightarrow> snd (take_by_id opk_id i (mgr_one_time B)))"
  using assms by (auto simp: manager_init_message_def Let_def split: prod.splits option.splits sum.splits)

text \<open>
  A one-time pre-key serves one exchange only, and nobody notices the second: when two peers
  start from the same published bundle, the client answers the second one with \<^verbatim>\<open>Complete\<close> as well,
  but it derives the session from key material without the fourth Diffie-Hellman secret, which the
  peer has included.
\<close>

theorem second_exchange_diverges:
  assumes "crypto_laws P" "manager_wf P B" "mgr_one_time B = opk # opks" "identity_wf P ik1" "identity_wf P ik2"
    "x3dh_sender P e1 r1 ik1 (create_pre_key_bundle B) = Ok (res1, init1)" "manager_init_message P a1 init1 B = (reply, B1)"
    "x3dh_sender P e2 r2 ik2 (create_pre_key_bundle B) = Ok (res2, init2)"
  shows "\<exists>B2 session ikm ikm'. manager_init_message P a2 init2 B1 = (Ok Complete, B2) \<and>
    triple_init_receiver P (x3dh_secret P ikm') (spk_pair (mgr_signed B)) (kpk_pair (mgr_kem B)) = Ok session \<and>
    hm_get (mgr_sessions B2) a2 = Some session \<and>
    xs_shared_secret res2 = x3dh_secret P ikm \<and> length ikm = length ikm' + 32"
proof -
  let ?k = "manager_party B"
  have w: "party_wf P ?k" "pred_option (one_time_wf P) (Some opk)" "opk_id opk \<notin> opk_id ` set opks"
    using assms(2,3) by (auto simp: manager_wf_def)
  have b: "create_pre_key_bundle B = published ?k (Some opk)" using assms(3) by (simp add: create_bundle_published first_of_def)
  note laws = crypto_lawsD(1,3) [OF assms(1)]
  have i1: "xi_one_time_id init1 = Some (opk_id opk)"
    using assms(6) by (rule_tac x3dh_material [OF laws assms(4) w(1,2), of e1 r1]) (simp add: b)
  then have k1: "mgr_one_time B1 = opks" "mgr_identity B1 = mgr_identity B" "mgr_signed B1 = mgr_signed B" "mgr_kem B1 = mgr_kem B"
    using init_message_keeps [OF assms(7)] assms(3) by auto
  obtain d1 d2 d3 ss where m: "xs_shared_secret res2 = x3dh_secret P (x3dh_ikm d1 d2 d3 (fourth_secret P e2 (Some opk)) ss)"
      "x3dh_receiver P (mgr_identity B) (mgr_signed B) (mgr_kem B) None init2 = Ok (x3dh_secret P (x3dh_ikm d1 d2 d3 None ss))"
      "xi_one_time_id init2 = Some (opk_id opk)"
    using assms(8) by (rule_tac x3dh_material [OF laws assms(5) w(1,2), of e2 r2]) (auto simp: b manager_party_def fourth_secret_def)
  have pk: "pair_ok P (spk_pair (mgr_signed B))" "pair_wf P (spk_pair (mgr_signed B))" "kem_pair_wf P (kpk_pair (mgr_kem B))"
    using w(1) by (auto simp: party_wf_def manager_party_def signed_wf_def kem_pre_wf_def pair_wf_def)
  let ?ikm = "x3dh_ikm d1 d2 d3 (fourth_secret P e2 (Some opk)) ss" and ?ikm' = "x3dh_ikm d1 d2 d3 None ss"
  obtain s where s: "triple_init_receiver P (x3dh_secret P ?ikm') (spk_pair (mgr_signed B)) (kpk_pair (mgr_kem B)) = Ok s"
    using triple_init_total(2) [OF laws(1) pk(1)] by blast
  have "length ?ikm = length ?ikm' + 32"
    using laws(1) by (simp add: x3dh_ikm_def fourth_secret_def option_bytes_def dh_laws_def KEY_SIZE_def)
  moreover have "\<exists>B2. manager_init_message P a2 init2 B1 = (Ok Complete, B2) \<and> hm_get (mgr_sessions B2) a2 = Some s"
    using m(2,3) s k1 take_missing [OF w(3)] pk(2) kem_pair.dec_enc [OF pk(3)]
    by (simp add: manager_init_message_def Let_def update_conv)
  ultimately show ?thesis using m(1) s by blast
qed

section \<open>Messages that are lost\<close>

text \<open>
  A message that is queued after the peer's bundle arrived is dropped: the session becomes active
  when the peer answers, nothing is pending any more, and the message is neither sent nor kept.
\<close>

theorem late_queued_message_lost:
  assumes "hm_get (mgr_pending m) peer = Some (AwaitingComplete s qs)"
  shows "fst (manager_queue peer p m) = True \<and>
    manager_complete peer (snd (manager_queue peer p m)) =
      m\<lparr>mgr_pending := hm_remove peer (mgr_pending m), mgr_sessions := hm_insert peer s (mgr_sessions m)\<rparr> \<and>
    status_of (manager_complete peer (snd (manager_queue peer p m))) peer = Active"
  using assms by (simp add: manager_queue_def manager_complete_def status_of_def Let_def update_conv delete_update_same)

section \<open>Restarting the client\<close>

context fixed_format
begin

lemma those_ok_written: "list_all wf xs \<Longrightarrow> those_ok (map (\<lambda>x. dec (enc x)) xs) = Ok xs"
  by (induction xs) (simp_all add: dec_enc)

end

lemma to_key_store_wf:
  assumes "manager_wf P m"
  obtains n where "to_key_store P m = Ok \<lparr>kb_identity = mgr_identity m, kb_signed = [mgr_signed m], kb_one_time = mgr_one_time m,
    kb_kem = [mgr_kem m], kb_next_id = n, kb_kem_timestamps = [0]\<rparr>"
proof -
  have "identity_wf P (mgr_identity m)" "signed_wf P (mgr_signed m)" "kem_pre_wf P (mgr_kem m)" "list_all (one_time_wf P) (mgr_one_time m)"
    using assms by (simp_all add: manager_wf_def party_wf_def manager_party_def)
  then show thesis
    using that by (simp add: to_key_store_def from_parts_def identity.dec_enc signed.dec_enc kem_pre.dec_enc one_time.those_ok_written Let_def)
qed

text \<open>
  A client that is restarted with the same passphrase is the same party: from the file that was
  saved it recovers the identity and every pre-key, in a manager without sessions, and writes
  nothing.
\<close>

theorem restart_keeps_keys:
  assumes "gcm_laws P" "manager_wf P m" "mgr_keys_dir m = Some dir" "mgr_passphrase m = Some pw" "length (mgr_one_time m) < 2 ^ 32"
    "length salt = SALT_LEN" "length nonce = NONCE_SIZE" "save_identity_to_disk P argon2 salt nonce dk m = (r, Some file)" "dk_write dk = None"
  shows "load_or_create P argon2 d now salt' nonce' dk' dir (Some (Ok file)) pw =
    Returns (m\<lparr>mgr_sessions := [], mgr_pending := [], mgr_peers := []\<rparr>, None)"
proof -
  obtain n where st: "to_key_store P m = Ok \<lparr>kb_identity = mgr_identity m, kb_signed = [mgr_signed m], kb_one_time = mgr_one_time m,
      kb_kem = [mgr_kem m], kb_next_id = n, kb_kem_timestamps = [0]\<rparr>" (is "_ = Ok ?b")
    by (rule to_key_store_wf [OF assms(2)])
  obtain e where e: "key_store_save P argon2 salt nonce ?b pw = Ok e" "file = encrypted_to_bytes e"
    using assms(3,4,8,9) st by (auto simp: save_identity_to_disk_def result_bind_def split: sum.splits)
  have "key_bundle_wf P ?b"
    using assms(2,5) by (simp add: key_bundle_wf_def manager_wf_def party_wf_def manager_party_def)
  from key_store_roundtrip [OF assms(1) this e(1) assms(6,7)]
  have "load_from_disk P argon2 path (Ok file) pw = Ok (manager_with (mgr_identity m) (mgr_signed m) (mgr_kem m) (mgr_one_time m))" for path
    by (simp add: load_from_disk_def e(2) from_key_store_def into_parts_def)
  then show ?thesis using assms(3,4) by (simp add: load_or_create_def manager_with_def Let_def)
qed

section \<open>An exchange that happens\<close>

definition sample_codec :: base64_codec where
  "sample_codec = \<lparr>b64_encode = map (\<lambda>w. char_of (unat w)), b64_decode = (\<lambda>s. Ok (map (\<lambda>c. word_of_nat (of_char c)) s))\<rparr>"

lemma sample_codec_laws: "base64_laws sample_codec"
proof -
  have "unat (w :: 8 word) < 256" for w using unsigned_less [of w, where ?'a = nat] by simp
  then have "word_of_nat (of_char (char_of (unat w) :: char)) = (w :: 8 word)" for w by (simp add: word_unat_eq_iff unat_of_nat)
  then show ?thesis by (simp add: base64_laws_def sample_codec_def comp_def)
qed

definition sample_md :: "8 word \<Rightarrow> manager_draws" where
  "sample_md w = \<lparr>md_signing = replicate 4032 w, md_dh = replicate 32 (w + 1), md_signed = replicate 32 (w + 2),
     md_kem = replicate 2400 (w + 3), md_one_time = (\<lambda>i. replicate 32 (w + 4 + word_of_nat i))\<rparr>"

definition sample_manager :: "8 word \<Rightarrow> encryption_manager" where
  "sample_manager w = (case manager_new sample_prims (sample_md w) 1000 of Returns m \<Rightarrow> m)"

lemma sample_manager_ok:
  "manager_wf sample_prims (sample_manager w)" "mgr_one_time (sample_manager w) \<noteq> []" "mgr_pending (sample_manager w) = []"
proof -
  have "draws_wf (sample_md w)" by (simp add: draws_wf_def sample_md_def key_size_defs)
  from manager_new_wf [OF sample_laws this, of 1000]
  show "manager_wf sample_prims (sample_manager w)" "mgr_one_time (sample_manager w) \<noteq> []" "mgr_pending (sample_manager w) = []"
    unfolding sample_manager_def by (metis outcome.case(1))+
qed

definition sample_xd :: exchange_draws where
  "sample_xd = \<lparr>xd_ephemeral = replicate 32 50, xd_kem_seed = [51], xd_dh_secret = replicate 32 52, xd_kem_secret = replicate 2400 53,
     xd_messages = (\<lambda>i. sample_draws)\<rparr>"

definition sample_alice :: encryption_manager where
  "sample_alice = snd (manager_queue ''bob'' [1, 2, 3] (snd (manager_initiate ''bob'' (sample_manager 1))))"

lemma sample_alice_ok: "manager_wf sample_prims sample_alice" "hm_get (mgr_pending sample_alice) ''bob'' = Some (AwaitingBundle [[1, 2, 3]])"
  using sample_manager_ok [of 1]
  by (simp_all add: sample_alice_def manager_initiate_def manager_queue_def manager_wf_def manager_party_def update_conv)

lemma sample_seal_total: "\<forall>k n p a. gcm_seal sample_prims k n p a \<noteq> None"
  by (simp add: sample_prims_def sample_seal_def)

theorem exchange_establishes_conversation_witness:
  "\<exists>c1 A' B' c0 c. run_exchange sample_prims sample_codec sample_xd ''alice'' ''bob'' sample_alice (sample_manager 2) = Ok ([c1], A', B') \<and>
     conversation_start sample_prims c0 \<and> (talks sample_prims)\<^sup>*\<^sup>* c0 c \<and> hm_get (mgr_sessions A') ''bob'' = Some (cv_a c) \<and>
     hm_get (mgr_sessions B') ''alice'' = Some (cv_b c) \<and> cv_to_b c = [(c1, [1, 2, 3])]"
proof -
  obtain cs A' B' c0 c where "run_exchange sample_prims sample_codec sample_xd ''alice'' ''bob'' sample_alice (sample_manager 2) = Ok (cs, A', B')"
    "conversation_start sample_prims c0" "(talks sample_prims)\<^sup>*\<^sup>* c0 c" "hm_get (mgr_sessions A') ''bob'' = Some (cv_a c)"
    "hm_get (mgr_sessions B') ''alice'' = Some (cv_b c)" "cv_to_b c = zip cs [[1, 2, 3]]" "length cs = length [[1 :: 8 word, 2, 3]]"
    using exchange_establishes_conversation [OF sample_laws sample_seal_total sample_codec_laws sample_alice_ok(1) sample_manager_ok(1) [of 2]
        sample_alice_ok(2), of sample_xd "''alice''"] by blast
  then show ?thesis by (cases cs) auto
qed

theorem second_exchange_diverges_witness:
  "\<exists>res1 init1 reply B1 res2 init2 B2 ikm ikm'.
     x3dh_sender sample_prims (replicate 32 60) [61] sample_identity (create_pre_key_bundle (sample_manager 2)) = Ok (res1, init1) \<and>
     manager_init_message sample_prims ''alice'' init1 (sample_manager 2) = (reply, B1) \<and>
     x3dh_sender sample_prims (replicate 32 62) [63] sample_identity (create_pre_key_bundle (sample_manager 2)) = Ok (res2, init2) \<and>
     manager_init_message sample_prims ''carol'' init2 B1 = (Ok Complete, B2) \<and>
     xs_shared_secret res2 = x3dh_secret sample_prims ikm \<and> length ikm = length (ikm' :: bytes) + 32"
proof -
  let ?B = "sample_manager 2"
  obtain k ks where o: "mgr_one_time ?B = k # ks" using sample_manager_ok(2) [of 2] by (cases "mgr_one_time ?B") auto
  have s: "\<exists>res init. x3dh_sender sample_prims e r sample_identity (create_pre_key_bundle ?B) = Ok (res, init)" for e r
    unfolding create_bundle_published
    by (rule x3dh_agreement [OF crypto_lawsD(1,3) [OF sample_laws] sample_identity_wf _ first_one_time(1) [OF sample_manager_ok(1) [of 2]], of "manager_party ?B" e r])
      (use sample_manager_ok(1) [of 2] in \<open>auto simp: manager_wf_def\<close>)
  obtain res1 init1 where 1: "x3dh_sender sample_prims (replicate 32 60) [61] sample_identity (create_pre_key_bundle ?B) = Ok (res1, init1)"
    using s by blast
  obtain res2 init2 where 2: "x3dh_sender sample_prims (replicate 32 62) [63] sample_identity (create_pre_key_bundle ?B) = Ok (res2, init2)"
    using s by blast
  obtain reply B1 where 3: "manager_init_message sample_prims ''alice'' init1 ?B = (reply, B1)" by fastforce
  from second_exchange_diverges [OF sample_laws sample_manager_ok(1) o sample_identity_wf sample_identity_wf 1 3 2, of "''carol''"] 1 2 3
  show ?thesis by blast
qed

theorem late_queued_message_lost_witness:
  "\<exists>s. hm_get (mgr_pending (snd (manager_bundle_response sample_prims sample_xd ''bob'' (create_pre_key_bundle (sample_manager 2)) sample_alice)))
       ''bob'' = Some (AwaitingComplete s []) \<and>
     (let m = snd (manager_bundle_response sample_prims sample_xd ''bob'' (create_pre_key_bundle (sample_manager 2)) sample_alice) in
      fst (manager_queue ''bob'' [4] m) = True \<and>
      mgr_pending (manager_complete ''bob'' (snd (manager_queue ''bob'' [4] m))) = hm_remove ''bob'' (mgr_pending m))"
proof -
  let ?m = "snd (manager_bundle_response sample_prims sample_xd ''bob'' (create_pre_key_bundle (sample_manager 2)) sample_alice)"
  obtain s where s: "hm_get (mgr_pending ?m) ''bob'' = Some (AwaitingComplete s [])"
    by (rule exchange_parts [OF sample_laws sample_seal_total sample_alice_ok(1) sample_manager_ok(1) [of 2] sample_alice_ok(2), of sample_xd "''alice''"])
      auto
  then show ?thesis using late_queued_message_lost [OF s, of "[4]"] by (simp add: Let_def)
qed

theorem restart_keeps_keys_witness:
  "\<exists>file. save_identity_to_disk sample_prims (\<lambda>pw salt. Ok (pad 32 pw)) (replicate 16 1) (replicate 12 2)
       \<lparr>dk_create_dir = None, dk_write = None, dk_permissions = None\<rparr>
       ((sample_manager 1)\<lparr>mgr_keys_dir := Some ''/keys'', mgr_passphrase := Some [7]\<rparr>) = (Ok (), Some file) \<and>
     load_or_create sample_prims (\<lambda>pw salt. Ok (pad 32 pw)) (sample_md 9) 2000 [] [] \<lparr>dk_create_dir = None, dk_write = None, dk_permissions = None\<rparr>
       ''/keys'' (Some (Ok file)) [7] =
     Returns ((sample_manager 1)\<lparr>mgr_keys_dir := Some ''/keys'', mgr_passphrase := Some [7], mgr_sessions := [], mgr_pending := [], mgr_peers := []\<rparr>, None)"
proof -
  let ?m = "(sample_manager 1)\<lparr>mgr_keys_dir := Some ''/keys'', mgr_passphrase := Some [7]\<rparr>"
  have w: "manager_wf sample_prims ?m" using sample_manager_ok(1) [of 1] by (simp add: manager_wf_def manager_party_def)
  obtain fl where f: "save_identity_to_disk sample_prims (\<lambda>pw salt. Ok (pad 32 pw)) (replicate 16 1) (replicate 12 2)
       \<lparr>dk_create_dir = None, dk_write = None, dk_permissions = None\<rparr> ?m = (Ok (), Some fl)"
    by (rule to_key_store_wf [OF w]) (simp add: save_identity_to_disk_def io_step_def key_store_save_def storage_key_derive_def
        aead_encrypt_def sample_prims_def sample_seal_def Let_def)
  have "length (mgr_one_time (sample_manager 1)) = 10"
    by (simp add: sample_manager_def manager_new_def signed_generate_def kem_pre_generate_def identity_sign_def sign_message_def
        manager_with_def ONE_TIME_PRE_KEY_BATCH_SIZE_def Let_def)
  then have "load_or_create sample_prims (\<lambda>pw salt. Ok (pad 32 pw)) (sample_md 9) 2000 [] [] \<lparr>dk_create_dir = None, dk_write = None, dk_permissions = None\<rparr>
       ''/keys'' (Some (Ok fl)) [7] = Returns (?m\<lparr>mgr_sessions := [], mgr_pending := [], mgr_peers := []\<rparr>, None)"
    by (intro restart_keeps_keys [OF crypto_lawsD(2) [OF sample_laws] w _ _ _ _ _ f]) (simp_all add: SALT_LEN_def NONCE_SIZE_def)
  then show ?thesis using f by simp
qed

end
