(* ===== verification/Client_Buffer.thy ===== *)
theory Client_Buffer
  imports Prelude
begin

text \<open>
  The message buffers of the client: a bounded scrollback with a scroll offset
  (\<^verbatim>\<open>tui/message_buffer.rs\<close>) and the manager of the open buffers (\<^verbatim>\<open>tui/buffer_manager.rs\<close>). The
  manager keeps the status buffer in front and the active buffer valid, and an operation changes
  which buffer is active only when it is meant to.

  Searching in a buffer and the time of the last activity are left out.
\<close>

section \<open>One buffer\<close>

datatype line_type = MessageLine | ActionLine | NoticeLine | JoinLine | PartLine | QuitLine | KickLine | ModeLine | TopicLine
  | SystemLine | ErrorLine

record buffer_line =
  bl_timestamp :: string
  bl_sender :: "string option"
  bl_content :: string
  bl_type :: line_type

record message_buffer =
  mb_messages :: "buffer_line list"
  mb_capacity :: nat
  mb_scroll :: nat
  mb_unread :: nat
  mb_activity :: bool

definition buffer_new :: "nat \<Rightarrow> message_buffer" where
  "buffer_new capacity = \<lparr>mb_messages = [], mb_capacity = capacity, mb_scroll = 0, mb_unread = 0, mb_activity = False\<rparr>"

definition push_message :: "buffer_line \<Rightarrow> message_buffer \<Rightarrow> message_buffer" where
  "push_message line b =
     (let full = (length (mb_messages b) \<ge> mb_capacity b \<and> mb_capacity b > 0);
          b1 = (if full then b\<lparr>mb_messages := tl (mb_messages b), mb_scroll := mb_scroll b - 1\<rparr> else b);
          b2 = (if mb_capacity b > 0 then b1\<lparr>mb_messages := mb_messages b1 @ [line]\<rparr> else b1) in
      b2\<lparr>mb_unread := mb_unread b2 + 1, mb_activity := True\<rparr>)"

definition messages_in_view :: "nat \<Rightarrow> message_buffer \<Rightarrow> buffer_line list" where
  "messages_in_view visible b =
     (let len = length (mb_messages b) in
      if len = 0 \<or> visible = 0 then []
      else (let e = len - mb_scroll b; s = e - visible in take (e - s) (drop s (mb_messages b))))"

definition scroll_up :: "nat \<Rightarrow> message_buffer \<Rightarrow> message_buffer" where
  "scroll_up n b = b\<lparr>mb_scroll := min (mb_scroll b + n) (length (mb_messages b) - 1)\<rparr>"

definition scroll_down :: "nat \<Rightarrow> message_buffer \<Rightarrow> message_buffer" where
  "scroll_down n b = b\<lparr>mb_scroll := mb_scroll b - n\<rparr>"

definition scroll_to_bottom :: "message_buffer \<Rightarrow> message_buffer" where
  "scroll_to_bottom b = b\<lparr>mb_scroll := 0\<rparr>"

definition mark_read :: "message_buffer \<Rightarrow> message_buffer" where
  "mark_read b = b\<lparr>mb_unread := 0, mb_activity := False\<rparr>"

definition buffer_clear :: "message_buffer \<Rightarrow> message_buffer" where
  "buffer_clear b = b\<lparr>mb_messages := [], mb_scroll := 0, mb_unread := 0, mb_activity := False\<rparr>"

definition buffer_ok :: "message_buffer \<Rightarrow> bool" where
  "buffer_ok b \<longleftrightarrow> length (mb_messages b) \<le> mb_capacity b \<and> mb_scroll b \<le> length (mb_messages b) - 1"

lemma buffer_ok_ops [intro, simp]:
  "buffer_ok (buffer_new n)" "buffer_ok b \<Longrightarrow> buffer_ok (push_message l b)" "buffer_ok b \<Longrightarrow> buffer_ok (scroll_up n b)"
  "buffer_ok b \<Longrightarrow> buffer_ok (scroll_down n b)" "buffer_ok b \<Longrightarrow> buffer_ok (scroll_to_bottom b)"
  "buffer_ok b \<Longrightarrow> buffer_ok (mark_read b)" "buffer_ok b \<Longrightarrow> buffer_ok (buffer_clear b)"
  by (auto simp: buffer_ok_def buffer_new_def push_message_def scroll_up_def scroll_down_def scroll_to_bottom_def mark_read_def
      buffer_clear_def Let_def)

text \<open>A buffer keeps the last messages that were pushed to it.\<close>

definition keep_last :: "nat \<Rightarrow> 'a list \<Rightarrow> 'a list" where
  "keep_last n xs = drop (length xs - n) xs"

lemma push_keeps_last:
  assumes "buffer_ok b"
  shows "mb_messages (push_message l b) = keep_last (mb_capacity b) (mb_messages b @ [l])"
  using assms by (cases "mb_messages b") (auto simp: buffer_ok_def push_message_def keep_last_def Let_def drop_Suc)

lemma keep_last_append: "keep_last n (keep_last n xs @ ys) = keep_last n (xs @ ys)"
  by (cases "length xs \<le> n") (auto simp: keep_last_def drop_append add.commute)

text \<open>
  A scrolled view does not stay where it is when a message arrives in a full buffer: it moves by two
  lines, since the messages move by one and the offset is reduced as well.
\<close>

lemma scrolled_view_moves:
  assumes "length (mb_messages b) = mb_capacity b" "0 < mb_scroll b" "mb_scroll b + n + 2 \<le> length (mb_messages b)" "0 < n"
  shows "messages_in_view n b = take n (drop (length (mb_messages b) - mb_scroll b - n) (mb_messages b))"
    "messages_in_view n (push_message l b) = take n (drop (length (mb_messages b) - mb_scroll b - n + 2) (mb_messages b @ [l]))"
proof -
  show "messages_in_view n b = take n (drop (length (mb_messages b) - mb_scroll b - n) (mb_messages b))"
    using assms by (auto simp: messages_in_view_def Let_def)
  obtain m ms where m: "mb_messages b = m # ms" using assms by (cases "mb_messages b") auto
  show "messages_in_view n (push_message l b) = take n (drop (length (mb_messages b) - mb_scroll b - n + 2) (mb_messages b @ [l]))"
    using assms m by (auto simp: messages_in_view_def push_message_def Let_def Suc_diff_le numeral_2_eq_2 add.commute)
qed

section \<open>The open buffers\<close>

datatype buffer_id = StatusBuffer | ChannelBuffer string | QueryBuffer string

fun buffer_id_display :: "buffer_id \<Rightarrow> string" where
  "buffer_id_display StatusBuffer = ''Status''"
| "buffer_id_display (ChannelBuffer name) = name"
| "buffer_id_display (QueryBuffer nick) = nick"

record buffer_entry =
  be_id :: buffer_id
  be_messages :: message_buffer
  be_label :: string

record buffer_manager =
  bm_buffers :: "buffer_entry list"
  bm_active :: nat
  bm_scrollback :: nat

definition new_entry :: "nat \<Rightarrow> buffer_id \<Rightarrow> buffer_entry" where
  "new_entry n i = \<lparr>be_id = i, be_messages = buffer_new n, be_label = buffer_id_display i\<rparr>"

definition buffers_new :: "nat \<Rightarrow> buffer_manager" where
  "buffers_new n = \<lparr>bm_buffers = [new_entry n StatusBuffer], bm_active = 0, bm_scrollback = n\<rparr>"

definition find_index :: "buffer_id \<Rightarrow> buffer_manager \<Rightarrow> nat option" where
  "find_index i m = position (\<lambda>e. be_id e = i) (bm_buffers m)"

definition update_entry :: "nat \<Rightarrow> (message_buffer \<Rightarrow> message_buffer) \<Rightarrow> buffer_manager \<Rightarrow> buffer_manager" where
  "update_entry k f m =
     m\<lparr>bm_buffers := (bm_buffers m)[k := (bm_buffers m ! k)\<lparr>be_messages := f (be_messages (bm_buffers m ! k))\<rparr>]\<rparr>"

definition add_buffer :: "buffer_id \<Rightarrow> buffer_manager \<Rightarrow> buffer_manager" where
  "add_buffer i m = m\<lparr>bm_buffers := bm_buffers m @ [new_entry (bm_scrollback m) i]\<rparr>"

definition open_buffer :: "buffer_id \<Rightarrow> buffer_manager \<Rightarrow> buffer_manager" where
  "open_buffer i m =
     (let (m1, index) = (case find_index i m of Some k \<Rightarrow> (m, k) | None \<Rightarrow> (add_buffer i m, length (bm_buffers m)));
          m2 = update_entry (bm_active m1) mark_read m1 in
      update_entry index mark_read (m2\<lparr>bm_active := index\<rparr>))"

definition ensure_open :: "buffer_id \<Rightarrow> buffer_manager \<Rightarrow> bool \<times> buffer_manager" where
  "ensure_open i m = (if find_index i m \<noteq> None then (False, m) else (True, add_buffer i m))"

definition list_insert :: "nat \<Rightarrow> 'a \<Rightarrow> 'a list \<Rightarrow> 'a list" where
  "list_insert k x xs = take k xs @ x # drop k xs"

definition close_buffer :: "buffer_id \<Rightarrow> buffer_manager \<Rightarrow> bool \<times> buffer_manager" where
  "close_buffer i m =
     (if i = StatusBuffer then (False, m)
      else case find_index i m of
        None \<Rightarrow> (False, m)
      | Some k \<Rightarrow>
          (let m1 = m\<lparr>bm_buffers := list_remove k (bm_buffers m)\<rparr> in
           if bm_active m = k
           then (let a = (if k \<ge> length (bm_buffers m1) then length (bm_buffers m1) - 1 else k) in
                 (True, update_entry a mark_read (m1\<lparr>bm_active := a\<rparr>)))
           else if bm_active m > k then (True, m1\<lparr>bm_active := bm_active m - 1\<rparr>)
           else (True, m1)))"

definition switch_by_index :: "nat \<Rightarrow> buffer_manager \<Rightarrow> bool \<times> buffer_manager" where
  "switch_by_index k m = (if k \<ge> length (bm_buffers m) then (False, m) else (True, update_entry k mark_read (m\<lparr>bm_active := k\<rparr>)))"

definition switch_to :: "buffer_id \<Rightarrow> buffer_manager \<Rightarrow> bool \<times> buffer_manager" where
  "switch_to i m = (case find_index i m of None \<Rightarrow> (False, m) | Some k \<Rightarrow> (True, update_entry k mark_read (m\<lparr>bm_active := k\<rparr>)))"

definition switch_next :: "buffer_manager \<Rightarrow> buffer_manager" where
  "switch_next m = (let a = (bm_active m + 1) mod length (bm_buffers m) in update_entry a mark_read (m\<lparr>bm_active := a\<rparr>))"

definition switch_prev :: "buffer_manager \<Rightarrow> buffer_manager" where
  "switch_prev m =
     (let a = (if bm_active m = 0 then length (bm_buffers m) - 1 else bm_active m - 1) in update_entry a mark_read (m\<lparr>bm_active := a\<rparr>))"

definition reorder :: "nat \<Rightarrow> nat \<Rightarrow> buffer_manager \<Rightarrow> bool \<times> buffer_manager" where
  "reorder from to m =
     (if from = 0 \<or> to = 0 then (False, m)
      else if from \<ge> length (bm_buffers m) \<or> to \<ge> length (bm_buffers m) then (False, m)
      else if from = to then (True, m)
      else
        (let a = bm_active m in
         (True, m\<lparr>bm_buffers := list_insert to (bm_buffers m ! from) (list_remove from (bm_buffers m)),
                  bm_active := (if a = from then to
                                else if from < to then (if a > from \<and> a \<le> to then a - 1 else a)
                                else if a \<ge> to \<and> a < from then a + 1 else a)\<rparr>)))"

definition push_to :: "buffer_id \<Rightarrow> buffer_line \<Rightarrow> buffer_manager \<Rightarrow> buffer_manager" where
  "push_to i line m =
     (let to_active = (find_index i m = Some (bm_active m));
          m1 = (case find_index i m of
                  Some _ \<Rightarrow> Some m
                | None \<Rightarrow> (case i of QueryBuffer _ \<Rightarrow> Some (add_buffer i m) | _ \<Rightarrow> None)) in
      case m1 of
        None \<Rightarrow> m
      | Some m1 \<Rightarrow>
          (case find_index i m1 of
             None \<Rightarrow> m1
           | Some k \<Rightarrow> update_entry k (\<lambda>b. if to_active then mark_read (push_message line b) else push_message line b) m1))"

section \<open>The invariant\<close>

definition buffers_ok :: "buffer_manager \<Rightarrow> bool" where
  "buffers_ok m \<longleftrightarrow> bm_buffers m \<noteq> [] \<and> be_id (hd (bm_buffers m)) = StatusBuffer \<and> distinct (map be_id (bm_buffers m)) \<and>
     bm_active m < length (bm_buffers m) \<and> list_all (\<lambda>e. buffer_ok (be_messages e) \<and> be_label e = buffer_id_display (be_id e)) (bm_buffers m)"

definition active_id :: "buffer_manager \<Rightarrow> buffer_id" where
  "active_id m = be_id (bm_buffers m ! bm_active m)"

lemma update_entry_ids [simp]:
  "map be_id (bm_buffers (update_entry k f m)) = map be_id (bm_buffers m)" "bm_active (update_entry k f m) = bm_active m"
  "length (bm_buffers (update_entry k f m)) = length (bm_buffers m)"
proof -
  have "(map be_id (bm_buffers m))[k := be_id (bm_buffers m ! k)] = map be_id (bm_buffers m)"
    by (cases "k < length (bm_buffers m)") (simp_all add: list_update_same_conv list_update_beyond)
  then show "map be_id (bm_buffers (update_entry k f m)) = map be_id (bm_buffers m)" by (simp add: update_entry_def map_update)
qed (simp_all add: update_entry_def)

lemma update_entry_ok:
  assumes "buffers_ok m" "\<And>b. buffer_ok b \<Longrightarrow> buffer_ok (f b)"
  shows "buffers_ok (update_entry k f m)"
proof (cases "k < length (bm_buffers m)")
  case True
  have "be_id (hd (bm_buffers (update_entry k f m))) = be_id (hd (bm_buffers m))"
    using update_entry_ids(1) [of k f m] assms(1) unfolding buffers_ok_def by (metis hd_map map_is_Nil_conv)
  moreover have "list_all (\<lambda>e. buffer_ok (be_messages e) \<and> be_label e = buffer_id_display (be_id e)) (bm_buffers (update_entry k f m))"
    using assms True unfolding buffers_ok_def update_entry_def list_all_length by (auto simp: nth_list_update)
  moreover have "bm_buffers (update_entry k f m) \<noteq> []" using assms(1) unfolding buffers_ok_def by (metis update_entry_ids(3) length_0_conv)
  ultimately show ?thesis using assms(1) by (simp add: buffers_ok_def)
qed (use assms(1) in \<open>simp add: update_entry_def list_update_beyond\<close>)

lemma active_at: "buffers_ok m \<Longrightarrow> k < length (bm_buffers m) \<Longrightarrow> buffers_ok (m\<lparr>bm_active := k\<rparr>)"
  by (simp add: buffers_ok_def)

lemma add_buffer_ok: "buffers_ok m \<Longrightarrow> find_index i m = None \<Longrightarrow> buffers_ok (add_buffer i m)"
  by (auto simp: buffers_ok_def add_buffer_def find_index_def position_None new_entry_def)

lemma add_buffer_found: "find_index i m = None \<Longrightarrow> find_index i (add_buffer i m) = Some (length (bm_buffers m))"
proof -
  have "position p (xs @ [x]) = Some (length xs)" if "position p xs = None" "p x" for p and xs :: "buffer_entry list" and x
    using that by (induction xs) (auto split: if_splits)
  then show "find_index i m = None \<Longrightarrow> find_index i (add_buffer i m) = Some (length (bm_buffers m))"
    by (simp add: find_index_def add_buffer_def new_entry_def)
qed

lemma switch_ok: "buffers_ok m \<Longrightarrow> k < length (bm_buffers m) \<Longrightarrow> buffers_ok (update_entry k mark_read (m\<lparr>bm_active := k\<rparr>))"
  by (intro update_entry_ok active_at) auto

lemma open_buffer_ok: "buffers_ok m \<Longrightarrow> buffers_ok (open_buffer i m)"
proof -
  assume m: "buffers_ok m"
  show ?thesis
  proof (cases "find_index i m")
    case None
    have "buffers_ok (update_entry (bm_active m) mark_read (add_buffer i m))" using add_buffer_ok [OF m None] by (rule update_entry_ok) simp
    then show ?thesis using None by (auto simp: open_buffer_def Let_def add_buffer_def intro!: switch_ok)
  next
    case (Some k)
    then have "k < length (bm_buffers m)" using position_Some by (auto simp: find_index_def)
    moreover have "buffers_ok (update_entry (bm_active m) mark_read m)" using m by (rule update_entry_ok) simp
    ultimately show ?thesis using Some by (auto simp: open_buffer_def Let_def intro!: switch_ok)
  qed
qed

lemma list_remove_set:
  assumes "k < length xs"
  shows "distinct (map f xs) \<Longrightarrow> distinct (map f (list_remove k xs)) \<and> f (xs ! k) \<notin> f ` set (list_remove k xs)"
    "set (list_remove k xs) \<subseteq> set xs" "length (list_remove k xs) = length xs - 1"
proof -
  note x = id_take_nth_drop [OF assms]
  show "distinct (map f xs) \<Longrightarrow> distinct (map f (list_remove k xs)) \<and> f (xs ! k) \<notin> f ` set (list_remove k xs)"
    by (subst (asm) x) (auto simp: list_remove_def)
  show "set (list_remove k xs) \<subseteq> set xs" by (auto simp: list_remove_def dest: in_set_takeD in_set_dropD)
  show "length (list_remove k xs) = length xs - 1" using assms by (simp add: list_remove_def)
qed

lemma list_remove_hd: "0 < k \<Longrightarrow> xs \<noteq> [] \<Longrightarrow> list_remove k xs \<noteq> [] \<and> hd (list_remove k xs) = hd xs"
  by (cases xs; cases k) (auto simp: list_remove_def)

lemma list_insert_set:
  "distinct (map f (list_insert k x xs)) \<longleftrightarrow> distinct (map f xs) \<and> f x \<notin> f ` set xs" "set (list_insert k x xs) = insert x (set xs)"
  "length (list_insert k x xs) = length xs + 1"
proof -
  have "set xs = set (take k xs) \<union> set (drop k xs)" by (metis append_take_drop_id set_append)
  then show "set (list_insert k x xs) = insert x (set xs)" "length (list_insert k x xs) = length xs + 1" by (auto simp: list_insert_def)
  have "distinct (map f xs) \<longleftrightarrow> distinct (map f (take k xs) @ map f (drop k xs))" by (metis append_take_drop_id map_append)
  then show "distinct (map f (list_insert k x xs)) \<longleftrightarrow> distinct (map f xs) \<and> f x \<notin> f ` set xs"
    using \<open>set xs = set (take k xs) \<union> set (drop k xs)\<close> by (auto simp: list_insert_def)
qed

lemma list_insert_hd: "0 < k \<Longrightarrow> xs \<noteq> [] \<Longrightarrow> hd (list_insert k x xs) = hd xs"
  by (cases xs; cases k) (auto simp: list_insert_def)

lemma not_status_later: "buffers_ok m \<Longrightarrow> i \<noteq> StatusBuffer \<Longrightarrow> find_index i m = Some k \<Longrightarrow> 0 < k \<and> k < length (bm_buffers m)"
  using position_Some [of "\<lambda>e. be_id e = i" "bm_buffers m" k] by (cases k) (auto simp: find_index_def buffers_ok_def hd_conv_nth)

lemma remove_ok:
  assumes "buffers_ok m" "0 < k" "k < length (bm_buffers m)" "a < length (bm_buffers m) - 1"
  shows "buffers_ok (m\<lparr>bm_buffers := list_remove k (bm_buffers m), bm_active := a\<rparr>)"
  using assms list_remove_set(1) [OF assms(3), of be_id] list_remove_set(2,3) [OF assms(3)] list_remove_hd [OF assms(2), of "bm_buffers m"]
  by (auto simp: buffers_ok_def list_all_iff)

lemma close_buffer_ok:
  assumes m: "buffers_ok m"
  shows "buffers_ok (snd (close_buffer i m))"
proof (cases "i = StatusBuffer \<or> find_index i m = None")
  case False
  then obtain k where i: "i \<noteq> StatusBuffer" "find_index i m = Some k" by blast
  note k = not_status_later [OF m i]
  have l: "length (list_remove k (bm_buffers m)) = length (bm_buffers m) - 1" using list_remove_set(3) k by blast
  have a: "bm_active m < length (bm_buffers m)" using m by (simp add: buffers_ok_def)
  let ?a = "if k \<ge> length (bm_buffers m) - 1 then length (bm_buffers m) - 1 - 1 else k"
  have 1: "buffers_ok (update_entry ?a mark_read (m\<lparr>bm_buffers := list_remove k (bm_buffers m), bm_active := ?a\<rparr>))"
    using k by (intro update_entry_ok remove_ok [OF m]) auto
  have 2: "buffers_ok (m\<lparr>bm_buffers := list_remove k (bm_buffers m), bm_active := bm_active m - 1\<rparr>)" if "bm_active m > k"
    using that k a by (intro remove_ok [OF m]) auto
  have 3: "buffers_ok (m\<lparr>bm_buffers := list_remove k (bm_buffers m), bm_active := bm_active m\<rparr>)" if "bm_active m < k"
    using that k a by (intro remove_ok [OF m]) auto
  show ?thesis using i 1 2 3 l by (cases "bm_active m" k rule: linorder_cases) (auto simp: close_buffer_def Let_def split: if_splits)
qed (use m in \<open>auto simp: close_buffer_def\<close>)

lemma reorder_ok:
  assumes m: "buffers_ok m"
  shows "buffers_ok (snd (reorder from to m))"
proof (cases "from = 0 \<or> to = 0 \<or> from \<ge> length (bm_buffers m) \<or> to \<ge> length (bm_buffers m) \<or> from = to")
  case False
  then have ft: "0 < from" "0 < to" "from < length (bm_buffers m)" "to < length (bm_buffers m)" by auto
  note r = list_remove_set [OF ft(3)] list_remove_hd [OF ft(1), of "bm_buffers m"]
  have x: "bm_buffers m ! from \<in> set (bm_buffers m)" using ft by simp
  have ne: "bm_buffers m \<noteq> []" using ft(3) by auto
  have "hd (list_insert to (bm_buffers m ! from) (list_remove from (bm_buffers m))) = hd (bm_buffers m)"
    using list_insert_hd [OF ft(2), of "list_remove from (bm_buffers m)" "bm_buffers m ! from"] r(4) [OF ne] by simp
  moreover have "list_insert to (bm_buffers m ! from) (list_remove from (bm_buffers m)) \<noteq> []" by (simp add: list_insert_def)
  ultimately show ?thesis
    using m False ft r(1) [of be_id] r(2,3) x by (auto simp: buffers_ok_def reorder_def list_insert_set list_all_iff Let_def)
qed (use m in \<open>auto simp: reorder_def\<close>)

lemma push_to_ok:
  assumes "buffers_ok m"
  shows "buffers_ok (push_to i line m)"
  using assms add_buffer_ok [OF assms, of i]
  by (auto simp: push_to_def Let_def split: option.splits buffer_id.splits intro!: update_entry_ok)

section \<open>What the user sees\<close>

datatype buffer_op = OpenBuffer buffer_id | EnsureOpen buffer_id | CloseBuffer buffer_id | SwitchTo buffer_id | SwitchNext | SwitchPrev
  | SwitchIndex nat | Reorder nat nat | PushTo buffer_id buffer_line | ScrollUp nat | ScrollDown nat | ScrollBottom | ClearActive

fun buffer_step :: "buffer_op \<Rightarrow> buffer_manager \<Rightarrow> buffer_manager" where
  "buffer_step (OpenBuffer i) m = open_buffer i m"
| "buffer_step (EnsureOpen i) m = snd (ensure_open i m)"
| "buffer_step (CloseBuffer i) m = snd (close_buffer i m)"
| "buffer_step (SwitchTo i) m = snd (switch_to i m)"
| "buffer_step SwitchNext m = switch_next m"
| "buffer_step SwitchPrev m = switch_prev m"
| "buffer_step (SwitchIndex k) m = snd (switch_by_index k m)"
| "buffer_step (Reorder a b) m = snd (reorder a b m)"
| "buffer_step (PushTo i l) m = push_to i l m"
| "buffer_step (ScrollUp n) m = update_entry (bm_active m) (scroll_up n) m"
| "buffer_step (ScrollDown n) m = update_entry (bm_active m) (scroll_down n) m"
| "buffer_step ScrollBottom m = update_entry (bm_active m) scroll_to_bottom m"
| "buffer_step ClearActive m = update_entry (bm_active m) buffer_clear m"

lemma buffer_step_ok:
  assumes m: "buffers_ok m"
  shows "buffers_ok (buffer_step op m)"
proof (cases op)
  case (SwitchTo i)
  then show ?thesis
    using m position_Some [of "\<lambda>e. be_id e = i" "bm_buffers m"] by (auto simp: switch_to_def find_index_def intro!: switch_ok split: option.splits)
next
  case SwitchNext
  have "(bm_active m + 1) mod length (bm_buffers m) < length (bm_buffers m)" using m by (simp add: buffers_ok_def)
  then show ?thesis using SwitchNext m by (simp add: switch_next_def Let_def switch_ok)
next
  case SwitchPrev
  have "(if bm_active m = 0 then length (bm_buffers m) - 1 else bm_active m - 1) < length (bm_buffers m)"
    using m by (auto simp: buffers_ok_def)
  then show ?thesis using SwitchPrev m by (simp add: switch_prev_def Let_def switch_ok)
next
  case (EnsureOpen i)
  then show ?thesis using m by (simp add: ensure_open_def add_buffer_ok)
qed (use m in \<open>auto simp: switch_by_index_def open_buffer_ok close_buffer_ok reorder_ok push_to_ok intro!: update_entry_ok switch_ok\<close>)

lemma buffers_new_ok: "buffers_ok (buffers_new n)"
  by (simp add: buffers_ok_def buffers_new_def new_entry_def)

lemma list_remove_nth: "k < length xs \<Longrightarrow> i < length xs - 1 \<Longrightarrow> list_remove k xs ! i = (if i < k then xs ! i else xs ! Suc i)"
  by (auto simp: list_remove_def nth_append)

lemma list_insert_nth:
  "k \<le> length xs \<Longrightarrow> i \<le> length xs \<Longrightarrow> list_insert k x xs ! i = (if i < k then xs ! i else if i = k then x else xs ! (i - 1))"
  by (auto simp: list_insert_def nth_append nth_Cons')

lemma reorder_keeps_active:
  assumes "buffers_ok m"
  shows "active_id (snd (reorder from to m)) = active_id m"
proof (cases "from = 0 \<or> to = 0 \<or> from \<ge> length (bm_buffers m) \<or> to \<ge> length (bm_buffers m) \<or> from = to")
  case False
  then have ft: "from < length (bm_buffers m)" "to < length (bm_buffers m)" by auto
  have "bm_active m < length (bm_buffers m)" using assms by (simp add: buffers_ok_def)
  then show ?thesis
    using False ft list_remove_set(3) [OF ft(1)]
    by (auto simp: reorder_def active_id_def Let_def list_insert_nth list_remove_nth)
qed (auto simp: reorder_def)

lemma update_entry_active [simp]: "bm_active m < length (bm_buffers m) \<Longrightarrow> active_id (update_entry k f m) = active_id m"
  unfolding active_id_def by (metis nth_map update_entry_ids)

lemma add_buffer_active [simp]:
  "bm_active m < length (bm_buffers m) \<Longrightarrow> active_id (add_buffer i m) = active_id m" "bm_active (add_buffer i m) = bm_active m"
  "length (bm_buffers (add_buffer i m)) = Suc (length (bm_buffers m))"
  by (simp_all add: active_id_def add_buffer_def nth_append)

lemma push_to_keeps_active: "buffers_ok m \<Longrightarrow> active_id (push_to i l m) = active_id m"
  by (auto simp: push_to_def buffers_ok_def Let_def split: option.splits buffer_id.splits)

lemma close_other_keeps_active:
  assumes "buffers_ok m" "i \<noteq> active_id m"
  shows "active_id (snd (close_buffer i m)) = active_id m"
proof (cases "find_index i m")
  case (Some k)
  then have k: "k < length (bm_buffers m)" "be_id (bm_buffers m ! k) = i" using position_Some by (auto simp: find_index_def)
  then have "bm_active m \<noteq> k" using assms(2) by (auto simp: active_id_def)
  then show ?thesis
    using Some k assms(1) by (auto simp: close_buffer_def active_id_def Let_def list_remove_nth buffers_ok_def)
qed (simp add: close_buffer_def)

text \<open>
  The user's view is stable: however buffers are opened, closed, switched, moved and written to,
  the status buffer stays in front, every buffer is open once and the active one exists; and
  moving a buffer, receiving a message or closing another buffer does not change which one is active.
\<close>

theorem active_buffer_stable:
  "let m = fold buffer_step ops (buffers_new n) in
   buffers_ok m \<and> active_id (snd (reorder from to m)) = active_id m \<and> active_id (push_to i l m) = active_id m \<and>
   (j \<noteq> active_id m \<longrightarrow> active_id (snd (close_buffer j m)) = active_id m)"
proof -
  have "buffers_ok (fold buffer_step ops m0)" if "buffers_ok m0" for m0
    using that by (induction ops arbitrary: m0) (simp_all add: buffer_step_ok)
  then have "buffers_ok (fold buffer_step ops (buffers_new n))" using buffers_new_ok by simp
  then show ?thesis using reorder_keeps_active push_to_keeps_active close_other_keeps_active by (simp add: Let_def)
qed

theorem active_buffer_stable_witness:
  "let m = fold buffer_step [OpenBuffer (ChannelBuffer ''#a''), OpenBuffer (ChannelBuffer ''#b'')] (buffers_new 100) in
   active_id m = ChannelBuffer ''#b'' \<and> active_id (snd (reorder 2 1 m)) = ChannelBuffer ''#b'' \<and>
   active_id (snd (close_buffer (ChannelBuffer ''#a'') m)) = ChannelBuffer ''#b''"
proof -
  have "active_id (fold buffer_step [OpenBuffer (ChannelBuffer ''#a''), OpenBuffer (ChannelBuffer ''#b'')] (buffers_new 100)) = ChannelBuffer ''#b''"
    by (simp add: buffers_new_def new_entry_def open_buffer_def find_index_def add_buffer_def update_entry_def mark_read_def active_id_def)
  then show ?thesis
    using active_buffer_stable [of "[OpenBuffer (ChannelBuffer ''#a''), OpenBuffer (ChannelBuffer ''#b'')]" 100 2 1 StatusBuffer undefined
        "ChannelBuffer ''#a''"] by (simp add: Let_def)
qed

end
