(* ===== verification/Client_Exchange.thy ===== *)
theory Client_Exchange
  imports Client_Manager Client_Buffer Server_Users
begin

text \<open>
  How the client drives key exchanges and private messages (\<^verbatim>\<open>pirc-client/src/app/encryption.rs\<close>):
  splitting key exchange data into chunks and joining it, dispatching what arrives, sending a private
  message through encryption, and the \<^verbatim>\<open>/encryption\<close> and \<^verbatim>\<open>/fingerprint\<close> commands. Chunks that a
  client sends are joined by the receiving client; the server's answer to a bundle request is not
  understood by the client that asked.

  The record \<open>client_env\<close> holds what is outside: the cryptographic primitives and their draws, the
  text codec, the result of sending on the connection, the clock's text and the disk.
\<close>

section \<open>State\<close>

record client_env =
  ce_prims :: crypto_prims
  ce_codec :: base64_codec
  ce_exchange :: exchange_draws
  ce_draws :: draws
  ce_argon2 :: argon2
  ce_salt :: bytes
  ce_nonce :: bytes
  ce_disk :: disk_results
  ce_sha256 :: "bytes \<Rightarrow> bytes"
  ce_send_error :: "message \<Rightarrow> string option"
  ce_timestamp :: string
  ce_nick :: string

text \<open>The messages that the connection took, oldest first, and the last key file that was written.\<close>

record client_app =
  app_encryption :: encryption_manager
  app_chunks :: "(string \<times> (string option list \<times> nat)) list"
  app_connected :: bool
  app_sent :: "message list"
  app_view :: buffer_manager
  app_key_file :: "bytes option"

definition push_line :: "client_env \<Rightarrow> buffer_id \<Rightarrow> string option \<Rightarrow> line_type \<Rightarrow> string \<Rightarrow> client_app \<Rightarrow> client_app" where
  "push_line E i who t text app =
     app\<lparr>app_view := push_to i \<lparr>bl_timestamp = ce_timestamp E, bl_sender = who, bl_content = text, bl_type = t\<rparr> (app_view app)\<rparr>"

definition push_status :: "client_env \<Rightarrow> string \<Rightarrow> client_app \<Rightarrow> client_app" where
  "push_status E text app = push_line E StatusBuffer None SystemLine text app"

definition push_encryption_event :: "client_env \<Rightarrow> string \<Rightarrow> string \<Rightarrow> client_app \<Rightarrow> client_app" where
  "push_encryption_event E peer text app = push_line E (QueryBuffer peer) None SystemLine text app"

text \<open>Sending on the connection, if there is one.\<close>

definition app_send :: "client_env \<Rightarrow> message \<Rightarrow> client_app \<Rightarrow> string option \<times> client_app" where
  "app_send E msg app =
     (if app_connected app
      then (case ce_send_error E msg of Some e \<Rightarrow> (Some e, app) | None \<Rightarrow> (None, app\<lparr>app_sent := app_sent app @ [msg]\<rparr>))
      else (None, app))"

definition app_persist :: "client_env \<Rightarrow> client_app \<Rightarrow> client_app" where
  "app_persist E app =
     (case persist (ce_prims E) (ce_argon2 E) (ce_salt E) (ce_nonce E) (ce_disk E) (app_encryption app) of
        None \<Rightarrow> app | Some written \<Rightarrow> app\<lparr>app_key_file := Some written\<rparr>)"

section \<open>Chunks\<close>

definition KEY_EXCHANGE_CHUNK_SIZE :: nat where "KEY_EXCHANGE_CHUNK_SIZE = 400"

definition chunk_messages :: "string \<Rightarrow> string \<Rightarrow> message list outcome" where
  "chunk_messages target data =
     (if length data \<le> KEY_EXCHANGE_CHUNK_SIZE then Returns [message_new (Pirc KeyExchange) [target, data]]
      else
        (let chunks = chunks_of KEY_EXCHANGE_CHUNK_SIZE data in
         if list_all valid_utf8 chunks
         then Returns (map (\<lambda>(i, chunk). message_new (Pirc KeyExchange)
                [target, nat_to_string (i + 1) @ ''/'' @ nat_to_string (length chunks), chunk])
              (List.enumerate 0 chunks))
         else Panics ''base64 is valid UTF-8''))"

fun send_all :: "client_env \<Rightarrow> message list \<Rightarrow> client_app \<Rightarrow> bool \<times> client_app" where
  "send_all E [] app = (True, app)"
| "send_all E (m # ms) app =
     (case app_send E m app of (Some _, app') \<Rightarrow> (False, app') | (None, app') \<Rightarrow> send_all E ms app')"

definition send_chunked_key_exchange :: "client_env \<Rightarrow> string \<Rightarrow> string \<Rightarrow> client_app \<Rightarrow> (bool \<times> client_app) outcome" where
  "send_chunked_key_exchange E target data app =
     (case chunk_messages target data of Panics e \<Rightarrow> Panics e | Returns ms \<Rightarrow> Returns (send_all E ms app))"

text \<open>\<^verbatim>\<open>vec![None; total]\<close> of 24-byte elements panics beyond \<^verbatim>\<open>isize::MAX\<close> bytes.\<close>

definition empty_slots :: "nat \<Rightarrow> (string option list \<times> nat) outcome" where
  "empty_slots count = (if count * 24 > 9223372036854775807 then Panics ''capacity overflow'' else Returns (replicate count None, count))"

definition chunk_arrives :: "string \<Rightarrow> string \<Rightarrow> nat \<Rightarrow> nat \<Rightarrow> client_app \<Rightarrow> (string option \<times> client_app) outcome" where
  "chunk_arrives sender chunk n count app =
     (let start = (case hm_get (app_chunks app) sender of
                     Some e \<Rightarrow> if snd e = count then Returns e else empty_slots count
                   | None \<Rightarrow> empty_slots count) in
      case start of
        Panics e \<Rightarrow> Panics e
      | Returns (slots, t) \<Rightarrow>
          (let slots' = (if n \<ge> 1 \<and> n \<le> count then slots[n - 1 := Some chunk] else slots) in
           if list_all (\<lambda>c. c \<noteq> None) slots'
           then Returns (Some (concat (map (\<lambda>c. case c of None \<Rightarrow> [] | Some x \<Rightarrow> x) slots')), app\<lparr>app_chunks := hm_remove sender (app_chunks app)\<rparr>)
           else Returns (None, app\<lparr>app_chunks := hm_insert sender (slots', t) (app_chunks app)\<rparr>)))"

section \<open>Bundles and sessions\<close>

definition upload_pre_key_bundle :: "client_env \<Rightarrow> client_app \<Rightarrow> client_app outcome" where
  "upload_pre_key_bundle E app =
     (let encoded = encode_for_wire (ce_codec E) (exchange_to_bytes (Bundle (create_pre_key_bundle (app_encryption app)))) in
      case send_chunked_key_exchange E ''*'' encoded app of
        Panics e \<Rightarrow> Panics e
      | Returns (False, app') \<Rightarrow> Returns (push_status E ''Failed to upload encryption keys'' app')
      | Returns (True, app') \<Rightarrow> Returns app')"

definition handle_request_bundle :: "client_env \<Rightarrow> string \<Rightarrow> client_app \<Rightarrow> client_app outcome" where
  "handle_request_bundle E requester app =
     (case send_chunked_key_exchange E requester
            (encode_for_wire (ce_codec E) (exchange_to_bytes (Bundle (create_pre_key_bundle (app_encryption app))))) app of
        Panics e \<Rightarrow> Panics e
      | Returns (_, app') \<Rightarrow> Returns app')"

definition send_encrypted_message :: "client_env \<Rightarrow> string \<Rightarrow> encrypted_message \<Rightarrow> client_app \<Rightarrow> client_app outcome" where
  "send_encrypted_message E peer c app =
     (case message_to_bytes c of
        Panics e \<Rightarrow> Panics e
      | Returns bs \<Rightarrow> Returns (snd (app_send E (message_new (Pirc Encrypted) [peer, encode_for_wire (ce_codec E) bs]) app)))"

fun send_encrypted_all :: "client_env \<Rightarrow> string \<Rightarrow> encrypted_message list \<Rightarrow> client_app \<Rightarrow> client_app outcome" where
  "send_encrypted_all E peer [] app = Returns app"
| "send_encrypted_all E peer (c # cs) app =
     (case send_encrypted_message E peer c app of Panics e \<Rightarrow> Panics e | Returns app' \<Rightarrow> send_encrypted_all E peer cs app')"

definition handle_bundle_response :: "client_env \<Rightarrow> string \<Rightarrow> pre_key_bundle \<Rightarrow> client_app \<Rightarrow> client_app outcome" where
  "handle_bundle_response E peer bundle app =
     (case manager_bundle_response (ce_prims E) (ce_exchange E) peer bundle (app_encryption app) of
        (Err e, m) \<Rightarrow>
          Returns (push_status E (''Key exchange with '' @ peer @ '' failed: '' @ crypto_error_display e) (app\<lparr>app_encryption := m\<rparr>))
      | (Ok (init, queued), m) \<Rightarrow>
          (case send_chunked_key_exchange E peer (encode_for_wire (ce_codec E) (exchange_to_bytes (InitMessage init))) (app\<lparr>app_encryption := m\<rparr>) of
             Panics e \<Rightarrow> Panics e
           | Returns (False, app') \<Rightarrow> Returns (push_status E (''Failed to send key exchange to '' @ peer) app')
           | Returns (True, app') \<Rightarrow> send_encrypted_all E peer queued app'))"

definition established :: "client_env \<Rightarrow> string \<Rightarrow> client_app \<Rightarrow> client_app" where
  "established E peer app =
     (let text = ''Encrypted session established with '' @ peer in
      app_persist E (push_encryption_event E peer text (push_status E text app)))"

definition handle_init_message :: "client_env \<Rightarrow> string \<Rightarrow> x3dh_init \<Rightarrow> client_app \<Rightarrow> client_app" where
  "handle_init_message E peer init app =
     (case manager_init_message (ce_prims E) peer init (app_encryption app) of
        (Err e, m) \<Rightarrow> push_status E (''Key exchange with '' @ peer @ '' failed: '' @ crypto_error_display e) (app\<lparr>app_encryption := m\<rparr>)
      | (Ok Complete, m) \<Rightarrow>
          established E peer (snd (app_send E (message_new (Pirc KeyExchangeComplete) [peer]) (app\<lparr>app_encryption := m\<rparr>)))
      | (Ok _, m) \<Rightarrow> app\<lparr>app_encryption := m\<rparr>)"

definition handle_key_exchange_complete :: "client_env \<Rightarrow> string \<Rightarrow> client_app \<Rightarrow> client_app" where
  "handle_key_exchange_complete E peer app =
     established E peer (app\<lparr>app_encryption := manager_complete peer (app_encryption app)\<rparr>)"

definition handle_key_exchange_message :: "client_env \<Rightarrow> string \<Rightarrow> string \<Rightarrow> client_app \<Rightarrow> client_app outcome" where
  "handle_key_exchange_message E sender data app =
     (case result_bind (decode_from_wire (ce_codec E) data) (exchange_from_bytes (ce_prims E)) of
        Err _ \<Rightarrow> Returns app
      | Ok RequestBundle \<Rightarrow> handle_request_bundle E sender app
      | Ok (Bundle b) \<Rightarrow> handle_bundle_response E sender b app
      | Ok (InitMessage i) \<Rightarrow> Returns (handle_init_message E sender i app)
      | Ok Complete \<Rightarrow> Returns (handle_key_exchange_complete E sender app))"

section \<open>Messages\<close>

definition handle_encrypted_message :: "client_env \<Rightarrow> string \<Rightarrow> string \<Rightarrow> client_app \<Rightarrow> client_app outcome" where
  "handle_encrypted_message E sender data app =
     (case result_bind (decode_from_wire (ce_codec E) data) message_from_bytes of
        Err _ \<Rightarrow> Returns app
      | Ok c \<Rightarrow>
          (case manager_decrypt (ce_prims E) (ce_draws E) sender c (app_encryption app) of
             (Panics e, m) \<Rightarrow> Panics e
           | (Returns (Err _), m) \<Rightarrow>
               Returns (push_line E (QueryBuffer sender) None ErrorLine (''Failed to decrypt message from '' @ sender) (app\<lparr>app_encryption := m\<rparr>))
           | (Returns (Ok plaintext), m) \<Rightarrow>
               Returns (push_line E (QueryBuffer sender) (Some sender) MessageLine (from_utf8_lossy (to_chars plaintext)) (app\<lparr>app_encryption := m\<rparr>))))"

definition handle_pirc_message :: "client_env \<Rightarrow> message \<Rightarrow> client_app \<Rightarrow> (bool \<times> client_app) outcome" where
  "handle_pirc_message E msg app =
     (case msg_prefix msg of
        Some (UserPrefix sender _ _) \<Rightarrow>
          (if msg_command msg = Pirc KeyExchange then
             (let params = msg_params msg;
                  direct = Returns (if length params \<ge> 2 then Some (params ! 1) else None, app);
                  assembled =
                    (if length params \<ge> 3
                     then (case parse_chunk_header (params ! 1) of
                             Some (n, count) \<Rightarrow> chunk_arrives sender (params ! 2) n count app
                           | None \<Rightarrow> direct)
                     else direct) in
              case assembled of
                Panics e \<Rightarrow> Panics e
              | Returns (None, app') \<Rightarrow> Returns (True, app')
              | Returns (Some data, app') \<Rightarrow>
                  (case handle_key_exchange_message E sender data app' of
                     Panics e \<Rightarrow> Panics e | Returns app'' \<Rightarrow> Returns (True, app'')))
           else if msg_command msg = Pirc KeyExchangeComplete then Returns (True, handle_key_exchange_complete E sender app)
           else if msg_command msg = Pirc Encrypted then
             (if length (msg_params msg) \<ge> 2
              then (case handle_encrypted_message E sender (msg_params msg ! 1) app of
                      Panics e \<Rightarrow> Panics e | Returns app' \<Rightarrow> Returns (True, app'))
              else Returns (True, app))
           else Returns (False, app))
      | _ \<Rightarrow> Returns (False, app))"

section \<open>Private messages\<close>

definition initiate_key_exchange :: "client_env \<Rightarrow> string \<Rightarrow> string option \<Rightarrow> client_app \<Rightarrow> client_app" where
  "initiate_key_exchange E peer queued app =
     (let enqueue = (\<lambda>app. case queued of
            None \<Rightarrow> app | Some text \<Rightarrow> app\<lparr>app_encryption := snd (manager_queue peer (ascii text) (app_encryption app))\<rparr>) in
      if has_pending_exchange (app_encryption app) peer then enqueue app
      else
        (case manager_initiate peer (app_encryption app) of
           (ke, m) \<Rightarrow>
             (case app_send E (message_new (Pirc KeyExchange) [peer, encode_for_wire (ce_codec E) (exchange_to_bytes ke)]) (app\<lparr>app_encryption := m\<rparr>) of
                (Some e, app') \<Rightarrow> push_status E (''Failed to initiate encryption with '' @ peer @ '': '' @ e) app'
              | (None, app') \<Rightarrow>
                  (let text = ''Establishing encrypted session with '' @ peer @ ''...'' in
                   push_encryption_event E peer text (push_status E text (enqueue app'))))))"

definition send_private_message :: "client_env \<Rightarrow> string \<Rightarrow> string \<Rightarrow> client_app \<Rightarrow> (bool \<times> client_app) outcome" where
  "send_private_message E peer text app =
     (if has_session (app_encryption app) peer
      then (case manager_encrypt (ce_prims E) (ce_draws E) peer (ascii text) (app_encryption app) of
              (Ok c, m) \<Rightarrow>
                (case send_encrypted_message E peer c (app\<lparr>app_encryption := m\<rparr>) of
                   Panics e \<Rightarrow> Panics e | Returns app' \<Rightarrow> Returns (True, app'))
            | (Err e, m) \<Rightarrow>
                Returns (False, push_status E (''Encryption failed for '' @ peer @ '': '' @ crypto_error_display e) (app\<lparr>app_encryption := m\<rparr>)))
      else if has_pending_exchange (app_encryption app) peer
      then Returns (True, push_status E (''Message to '' @ peer @ '' queued (key exchange in progress)'')
             (app\<lparr>app_encryption := snd (manager_queue peer (ascii text) (app_encryption app))\<rparr>))
      else Returns (True, initiate_key_exchange E peer (Some text) app))"

definition handle_private_msg_command :: "client_env \<Rightarrow> string \<Rightarrow> string \<Rightarrow> client_app \<Rightarrow> client_app outcome" where
  "handle_private_msg_command E target text app =
     (if \<not> app_connected app then Returns (push_status E ''Not connected'' app)
      else
        (case send_private_message E target text app of
           Panics e \<Rightarrow> Panics e
         | Returns (handled, app1) \<Rightarrow>
             (let app2 = push_line E (QueryBuffer target) (Some (ce_nick E)) MessageLine text app1 in
              if handled then Returns app2
              else (case app_send E (message_new Privmsg [target, text]) app2 of
                      (Some e, app3) \<Rightarrow> Returns (push_status E (''Send error: '' @ e) app3)
                    | (None, app3) \<Rightarrow> Returns app3))))"

section \<open>The commands about encryption\<close>

fun status_text :: "encryption_status \<Rightarrow> string" where
  "status_text Active = ''active''"
| "status_text Establishing = ''establishing''"
| "status_text NoEncryption = ''none''"

datatype encryption_subcommand = EncStatus | EncReset string | EncInfo string

definition handle_encryption_status :: "client_env \<Rightarrow> client_app \<Rightarrow> client_app" where
  "handle_encryption_status E app =
     (let peers = list_peers (app_encryption app) in
      if peers = [] then push_status E ''No active or pending encrypted sessions.'' app
      else fold (\<lambda>(peer, st). push_status E (''  '' @ peer @ '': '' @ status_text st)) peers (push_status E ''Encrypted sessions:'' app))"

definition handle_encryption_reset :: "client_env \<Rightarrow> string \<Rightarrow> client_app \<Rightarrow> client_app" where
  "handle_encryption_reset E nick app =
     push_encryption_event E nick (''Encrypted session with '' @ nick @ '' has been reset'')
       (push_status E (''Encrypted session with '' @ nick @ '' has been reset. Next message will trigger fresh key exchange.'')
         (app\<lparr>app_encryption := remove_session nick (app_encryption app)\<rparr>))"

definition handle_encryption_info :: "client_env \<Rightarrow> string \<Rightarrow> client_app \<Rightarrow> client_app" where
  "handle_encryption_info E nick app =
     push_status E
       (case get_peer_fingerprint (ce_sha256 E) (app_encryption app) nick of
          Some fp \<Rightarrow> ''  Peer fingerprint: '' @ fp
        | None \<Rightarrow> ''  Peer fingerprint: unknown (no prior key exchange)'')
       (push_status E (''  Session state: '' @ status_text (status_of (app_encryption app) nick))
         (push_status E (''Encryption info for '' @ nick @ '':'') app))"

fun handle_encryption_command :: "client_env \<Rightarrow> encryption_subcommand \<Rightarrow> client_app \<Rightarrow> client_app" where
  "handle_encryption_command E EncStatus app = handle_encryption_status E app"
| "handle_encryption_command E (EncReset nick) app = handle_encryption_reset E nick app"
| "handle_encryption_command E (EncInfo nick) app = handle_encryption_info E nick app"

fun handle_fingerprint_command :: "client_env \<Rightarrow> string option \<Rightarrow> client_app \<Rightarrow> client_app" where
  "handle_fingerprint_command E None app =
     push_status E (''Your fingerprint: '' @ get_identity_fingerprint (ce_sha256 E) (app_encryption app)) app"
| "handle_fingerprint_command E (Some nick) app =
     push_status E
       (case get_peer_fingerprint (ce_sha256 E) (app_encryption app) nick of
          Some fp \<Rightarrow> ''Fingerprint for '' @ nick @ '': '' @ fp
        | None \<Rightarrow> ''No fingerprint available for '' @ nick @ '' (no prior key exchange)'') app"

section \<open>Chunks from client to client\<close>

text \<open>What a peer receives of a message that the server relays with the sender's prefix.\<close>

definition relayed :: "prefix \<Rightarrow> message \<Rightarrow> message" where
  "relayed p m = message_with_prefix p (msg_command m) (msg_params m)"

fun receive_all :: "client_env \<Rightarrow> message list \<Rightarrow> client_app \<Rightarrow> client_app outcome" where
  "receive_all E [] app = Returns app"
| "receive_all E (m # ms) app =
     (case handle_pirc_message E m app of Panics e \<Rightarrow> Panics e | Returns (_, app') \<Rightarrow> receive_all E ms app')"

lemma concat_chunks_of: "0 < k \<Longrightarrow> concat (chunks_of k xs) = xs"
  by (induction k xs rule: chunks_of.induct) (subst chunks_of.simps, simp)

lemma length_chunks_of: "0 < k \<Longrightarrow> length (chunks_of k xs) \<le> length xs div k + 1"
proof (induction k xs rule: chunks_of.induct)
  case (1 k xs)
  show ?case
  proof (cases "k \<le> length xs")
    case True
    then have "length (chunks_of k (drop k xs)) \<le> (length xs - k) div k + 1" using 1 by (cases "xs = []") auto
    then show ?thesis using True 1(2) by (subst chunks_of.simps) (simp add: le_div_geq)
  next
    case False
    then have "drop k xs = []" by simp
    then have "chunks_of k (drop k xs) = []" by (subst chunks_of.simps) simp
    then show ?thesis by (subst chunks_of.simps) simp
  qed
qed

lemma parse_written_header:
  assumes "1 \<le> n" "n \<le> t" "t \<le> U64_MAX"
  shows "parse_chunk_header (nat_to_string n @ ''/'' @ nat_to_string t) = Some (n, t)"
proof -
  have "\<not> is_ascii_digit (of_char (CHR ''/''))" by (simp add: is_ascii_digit_def)
  then have "split_at_byte (CHR ''/'') (nat_to_string n @ CHR ''/'' # nat_to_string t) = Some (nat_to_string n, nat_to_string t)"
    by (intro split_at_byte_append nat_to_string_no_byte)
  then show ?thesis using assms by (simp add: parse_chunk_header_def parse_unsigned_nat_to_string)
qed

lemma receive_all_append:
  "receive_all E (xs @ ys) app = (case receive_all E xs app of Panics e \<Rightarrow> Panics e | Returns app' \<Rightarrow> receive_all E ys app')"
  by (induction xs arbitrary: app) (auto split: outcome.splits)

lemma chunks_of_valid: "0 < k \<Longrightarrow> list_all (byte_in 0 127) xs \<Longrightarrow> list_all valid_utf8 (chunks_of k xs)"
proof (induction k xs rule: chunks_of.induct)
  case (1 k xs)
  have ascii_valid: "list_all (byte_in 0 127) ys \<Longrightarrow> valid_utf8 ys" for ys by (induction ys) auto
  have "list_all (byte_in 0 127) (take k xs)" "list_all (byte_in 0 127) (drop k xs)"
    using "1.prems"(2) by (auto simp: list_all_iff dest: in_set_takeD in_set_dropD)
  then show ?case using 1 ascii_valid by (subst chunks_of.simps) auto
qed

text \<open>
  What an unfinished transfer of a sender leaves: nothing, or the chunks that arrived before it broke
  off. The last chunk is not among them, since chunks are sent in order.
\<close>

definition unfinished :: "string \<Rightarrow> client_app \<Rightarrow> bool" where
  "unfinished nick app \<longleftrightarrow>
     (case hm_get (app_chunks app) nick of
        None \<Rightarrow> True
      | Some (slots, count) \<Rightarrow> slots \<noteq> [] \<and> count = length slots \<and> last slots = None)"

text \<open>The slots that a chunk of a transfer of \<open>count\<close> chunks goes into, and those after \<open>k\<close> chunks of a transfer.\<close>

abbreviation chunk_start :: "string \<Rightarrow> nat \<Rightarrow> client_app \<Rightarrow> (string option list \<times> nat) outcome" where
  "chunk_start nick count app \<equiv>
     (case hm_get (app_chunks app) nick of Some e \<Rightarrow> if snd e = count then Returns e else empty_slots count | None \<Rightarrow> empty_slots count)"

definition filled :: "string list \<Rightarrow> nat \<Rightarrow> string option list \<Rightarrow> bool" where
  "filled cs k slots \<longleftrightarrow> length slots = length cs \<and> (\<forall>i<k. slots ! i = Some (cs ! i)) \<and> (k < length cs \<longrightarrow> last slots = None)"

lemma filled_all: "filled cs (length cs) slots \<Longrightarrow> slots = map Some cs"
  by (intro nth_equalityI) (auto simp: filled_def)

lemma filled_start:
  assumes "unfinished nick app" "cs \<noteq> []" "length cs * 24 \<le> 9223372036854775807"
  shows "\<exists>slots. chunk_start nick (length cs) app = Returns (slots, length cs) \<and> filled cs 0 slots"
  using assms by (auto simp: unfinished_def filled_def empty_slots_def split: option.splits)

lemma filled_next:
  assumes "filled cs k slots" "k < length cs"
  shows "filled cs (Suc k) (slots[k := Some (cs ! k)])"
    "list_all (\<lambda>c. c \<noteq> None) (slots[k := Some (cs ! k)]) \<longleftrightarrow> Suc k = length cs"
proof -
  have l: "length slots = length cs" "last slots = None" "slots \<noteq> []" using assms by (auto simp: filled_def)
  have stays: "last (slots[k := Some (cs ! k)]) = None" if "Suc k < length cs" using l that by (simp add: last_conv_nth)
  show f: "filled cs (Suc k) (slots[k := Some (cs ! k)])"
    using assms l stays by (auto simp: filled_def nth_list_update less_Suc_eq)
  show "list_all (\<lambda>c. c \<noteq> None) (slots[k := Some (cs ! k)]) \<longleftrightarrow> Suc k = length cs"
  proof
    assume "Suc k = length cs"
    then show "list_all (\<lambda>c. c \<noteq> None) (slots[k := Some (cs ! k)])" using filled_all [of cs "slots[k := Some (cs ! k)]"] f by (simp add: list_all_iff)
  next
    assume "list_all (\<lambda>c. c \<noteq> None) (slots[k := Some (cs ! k)])"
    then have "last (slots[k := Some (cs ! k)]) \<noteq> None"
      using l(3) unfolding list_all_iff by (metis last_in_set list_update_nonempty)
    then show "Suc k = length cs" using stays assms(2) by linarith
  qed
qed

lemma chunk_arrives_next:
  assumes "chunk_start nick (length cs) app = Returns (slots, length cs)" "filled cs k slots" "k < length cs"
  shows "chunk_arrives nick (cs ! k) (Suc k) (length cs) app =
    (if Suc k = length cs then Returns (Some (concat cs), app\<lparr>app_chunks := hm_remove nick (app_chunks app)\<rparr>)
     else Returns (None, app\<lparr>app_chunks := hm_insert nick (slots[k := Some (cs ! k)], length cs) (app_chunks app)\<rparr>))"
proof -
  note n = filled_next [OF assms(2,3)]
  have "concat (map (\<lambda>c. case c of None \<Rightarrow> [] | Some x \<Rightarrow> x) (slots[k := Some (cs ! k)])) = concat cs" if "Suc k = length cs"
    using filled_all [of cs "slots[k := Some (cs ! k)]"] n(1) that by (simp add: comp_def)
  then show ?thesis
    unfolding chunk_arrives_def assms(1) using n(2) assms(3) by (simp add: Let_def del: not_None_eq)
qed

text \<open>The message with chunk \<open>k\<close> as the peer receives it.\<close>

definition chunk_message :: "prefix \<Rightarrow> string \<Rightarrow> string list \<Rightarrow> nat \<Rightarrow> message" where
  "chunk_message p target cs k =
     message_with_prefix p (Pirc KeyExchange) [target, nat_to_string (Suc k) @ ''/'' @ nat_to_string (length cs), cs ! k]"

lemma handle_chunk:
  assumes "k < length cs" "length cs * 24 \<le> 9223372036854775807"
  shows "handle_pirc_message E (chunk_message (UserPrefix nick u h) target cs k) app =
    (case chunk_arrives nick (cs ! k) (Suc k) (length cs) app of
       Panics e \<Rightarrow> Panics e
     | Returns (None, app') \<Rightarrow> Returns (True, app')
     | Returns (Some data, app') \<Rightarrow>
         (case handle_key_exchange_message E nick data app' of Panics e \<Rightarrow> Panics e | Returns app'' \<Rightarrow> Returns (True, app'')))"
  using parse_written_header [of "Suc k" "length cs"] assms
  by (simp add: handle_pirc_message_def chunk_message_def message_with_prefix_def Let_def)

lemma receive_some_chunks:
  assumes "unfinished nick app" "length cs * 24 \<le> 9223372036854775807" "k < length cs"
  shows "\<exists>slots app'. receive_all E (map (chunk_message (UserPrefix nick u h) target cs) [0..<k]) app = Returns app' \<and>
    chunk_start nick (length cs) app' = Returns (slots, length cs) \<and> filled cs k slots \<and> unfinished nick app' \<and>
    (\<exists>pending. app' = app\<lparr>app_chunks := pending\<rparr> \<and> hm_remove nick pending = hm_remove nick (app_chunks app))"
  using assms(3)
proof (induction k)
  case 0
  then show ?case using filled_start [OF assms(1) _ assms(2)] assms(1) by (fastforce intro: exI [of _ "app_chunks app"])
next
  case (Suc k)
  then obtain slots app' pending where IH: "receive_all E (map (chunk_message (UserPrefix nick u h) target cs) [0..<k]) app = Returns app'"
      "chunk_start nick (length cs) app' = Returns (slots, length cs)" "filled cs k slots"
      "app' = app\<lparr>app_chunks := pending\<rparr>" "hm_remove nick pending = hm_remove nick (app_chunks app)"
    by auto
  let ?slots = "slots[k := Some (cs ! k)]"
  let ?pending = "hm_insert nick (?slots, length cs) pending"
  have "k < length cs" using Suc.prems by simp
  note f = filled_next(1) [OF IH(3) this] and a = chunk_arrives_next [OF IH(2,3) this] and h = handle_chunk [OF this assms(2)]
  have "receive_all E (map (chunk_message (UserPrefix nick u h) target cs) [0..<Suc k]) app = Returns (app\<lparr>app_chunks := ?pending\<rparr>)"
    using Suc.prems IH(1) a h by (simp add: receive_all_append IH(4))
  moreover have "unfinished nick (app\<lparr>app_chunks := ?pending\<rparr>)" using f Suc.prems by (auto simp: unfinished_def filled_def update_conv)
  moreover have "hm_remove nick ?pending = hm_remove nick (app_chunks app)" using IH(5) by (simp add: delete_update_same)
  ultimately show ?case using f by (fastforce simp: update_conv)
qed

lemma receive_chunks:
  assumes "unfinished nick app" "length cs * 24 \<le> 9223372036854775807" "cs \<noteq> []"
  shows "receive_all E (map (chunk_message (UserPrefix nick u h) target cs) [0..<length cs]) app =
    handle_key_exchange_message E nick (concat cs) (app\<lparr>app_chunks := hm_remove nick (app_chunks app)\<rparr>)"
proof -
  obtain k where k: "length cs = Suc k" "k < length cs" using assms(3) by (cases cs) auto
  from receive_some_chunks [OF assms(1,2) k(2), of E u h target] obtain slots app' pending where
    r: "receive_all E (map (chunk_message (UserPrefix nick u h) target cs) [0..<k]) app = Returns app'"
      "chunk_start nick (length cs) app' = Returns (slots, length cs)" "filled cs k slots"
      "app' = app\<lparr>app_chunks := pending\<rparr>" "hm_remove nick pending = hm_remove nick (app_chunks app)" by auto
  have split: "[0..<length cs] = [0..<k] @ [k]" using k(1) by simp
  show ?thesis
    unfolding split using r(1,4,5) chunk_arrives_next [OF r(2,3) k(2)] handle_chunk [OF k(2) assms(2), of E nick u h target app'] k(1)
    by (simp add: receive_all_append split: outcome.splits)
qed

lemma relayed_chunks:
  "map (relayed p) (map (\<lambda>(i, chunk). message_new (Pirc KeyExchange) [target, nat_to_string (i + 1) @ ''/'' @ nat_to_string (length cs), chunk])
     (List.enumerate 0 cs)) = map (chunk_message p target cs) [0..<length cs]"
  by (intro nth_equalityI) (simp_all add: nth_enumerate_eq relayed_def message_new_def chunk_message_def)

text \<open>
  C18. Key exchange data reaches the peer: a client splits it into messages, without a panic as the data is
  ASCII text (base64), and the messages, relayed in order under the sender's prefix, make the receiving
  client handle exactly that data once and leave no chunk of the sender behind. This holds when the
  receiver has nothing pending from the sender and also when an earlier transfer broke off: a transfer
  of which only the first messages arrive leaves the receiver as it was but for its chunks, and ready
  for the next transfer in the same sense. The length of the data is at most that of a Rust string.
\<close>

theorem chunked_data_arrives:
  assumes "list_all (byte_in 0 127) data" "length data \<le> 9223372036854775807" "unfinished nick app"
  shows "\<exists>ms. chunk_messages target data = Returns ms \<and>
    receive_all E (map (relayed (UserPrefix nick u h)) ms) app =
      handle_key_exchange_message E nick data
        (if length data \<le> KEY_EXCHANGE_CHUNK_SIZE then app else app\<lparr>app_chunks := hm_remove nick (app_chunks app)\<rparr>) \<and>
    (\<forall>j<length ms. \<exists>app'. receive_all E (map (relayed (UserPrefix nick u h)) (take j ms)) app = Returns app' \<and>
       unfinished nick app' \<and> app'\<lparr>app_chunks := app_chunks app\<rparr> = app)"
proof (cases "length data \<le> KEY_EXCHANGE_CHUNK_SIZE")
  case True
  then show ?thesis using assms(3)
    by (simp add: chunk_messages_def relayed_def message_new_def message_with_prefix_def handle_pirc_message_def Let_def split: outcome.splits)
next
  case False
  define cs where "cs = chunks_of KEY_EXCHANGE_CHUNK_SIZE data"
  have c: "concat cs = data" by (simp add: cs_def concat_chunks_of KEY_EXCHANGE_CHUNK_SIZE_def)
  have "length cs \<le> length data div 400 + 1" using length_chunks_of [of 400 data] by (simp add: cs_def KEY_EXCHANGE_CHUNK_SIZE_def)
  then have l: "length cs * 24 \<le> 9223372036854775807" using assms(2) by linarith
  have ne: "cs \<noteq> []" using c False by (auto simp: KEY_EXCHANGE_CHUNK_SIZE_def)
  obtain ms where ms: "chunk_messages target data = Returns ms"
      "map (relayed (UserPrefix nick u h)) ms = map (chunk_message (UserPrefix nick u h) target cs) [0..<length cs]"
    using False chunks_of_valid [OF _ assms(1), of KEY_EXCHANGE_CHUNK_SIZE] relayed_chunks [of "UserPrefix nick u h" target cs]
    by (simp add: chunk_messages_def cs_def KEY_EXCHANGE_CHUNK_SIZE_def Let_def)
  have "\<exists>app'. receive_all E (map (relayed (UserPrefix nick u h)) (take j ms)) app = Returns app' \<and>
      unfinished nick app' \<and> app'\<lparr>app_chunks := app_chunks app\<rparr> = app" if "j < length ms" for j
  proof -
    have "j < length cs" using that arg_cong [OF ms(2), of length] by simp
    moreover from this have "map (relayed (UserPrefix nick u h)) (take j ms) = map (chunk_message (UserPrefix nick u h) target cs) [0..<j]"
      unfolding take_map [symmetric] ms(2) by (simp add: take_map)
    ultimately show ?thesis using receive_some_chunks [OF assms(3) l, of j E u h target] by auto
  qed
  then show ?thesis using ms(1) receive_chunks [OF assms(3) l ne, of E u h target] False c by (simp add: ms(2))
qed

section \<open>The server's answer to a request\<close>

lemma server_messages_ignored:
  "msg_prefix m = Some (Server name) \<Longrightarrow> handle_pirc_message E m app = Returns (False, app)"
  by (simp add: handle_pirc_message_def)

lemma receive_all_server:
  "list_all (\<lambda>m. \<exists>name. msg_prefix m = Some (Server name)) ms \<Longrightarrow> receive_all E ms app = Returns app"
  by (induction ms) (auto simp: server_messages_ignored)

lemma bundle_replies_server: "list_all (\<lambda>m. \<exists>name. msg_prefix m = Some (Server name)) (bundle_replies nick encoded)"
  by (auto simp: bundle_replies_def message_with_prefix_def list_all_iff Let_def)

lemma request_answers_server:
  assumes "is_request_bundle S msg"
  shows "list_all (\<lambda>m. \<exists>name. msg_prefix m = Some (Server name)) (map snd (snd (handle_key_exchange S msg conn reg sender pk off)))"
  using assms bundle_replies_server
  by (auto simp: handle_key_exchange_def send_numeric_def send_server_notice_def message_with_prefix_def Let_def list_all_iff
      split: option.splits sum.splits)

text \<open>
  C7. A key exchange that a client starts does not get anywhere: whatever the server answers to the
  request for the peer's bundle, the client ignores it, since it comes from the server and not from
  a user; it stays waiting for the bundle, and each further private message to the peer is queued and
  nothing is sent.
\<close>

theorem bundle_answer_ignored:
  assumes "is_request_bundle S msg" "hm_get (mgr_pending (app_encryption app)) peer = Some (AwaitingBundle qs)"
    "hm_get (mgr_sessions (app_encryption app)) peer = None"
  shows "receive_all E (map snd (snd (handle_key_exchange S msg conn reg sender pk off))) app = Returns app \<and>
    (\<exists>app'. send_private_message E peer text app = Returns (True, app') \<and> app_sent app' = app_sent app \<and>
       hm_get (mgr_pending (app_encryption app')) peer = Some (AwaitingBundle (qs @ [ascii text])))"
  using receive_all_server [OF request_answers_server [OF assms(1)]] assms(2,3)
  by (simp add: send_private_message_def has_session_def has_pending_exchange_def manager_queue_def push_status_def push_line_def update_conv)

section \<open>Messages in the clear\<close>

text \<open>
  C8. Encryption that fails ends in plaintext: once the party that answered a key exchange has made
  twenty steps of the Diffie-Hellman ratchet, its client sends every further private message to the
  peer as an ordinary \<^verbatim>\<open>PRIVMSG\<close> with the text in the clear.
\<close>

theorem private_message_leaks:
  assumes "crypto_laws (ce_prims E)" "conversation_start (ce_prims E) c0" "(talks (ce_prims E))\<^sup>*\<^sup>* c0 c" "tr_dh_steps_since_pq (cv_b c) = 20"
    "hm_get (mgr_sessions (app_encryption app)) peer = Some (cv_b c)" "app_connected app" "ce_send_error E (message_new Privmsg [peer, text]) = None"
  shows "\<exists>app'. handle_private_msg_command E peer text app = Returns app' \<and> app_sent app' = app_sent app @ [message_new Privmsg [peer, text]] \<and>
    hm_get (mgr_sessions (app_encryption app')) peer = Some (cv_b c)"
  using silent_due(1) [OF reachable_before_step [OF assms(2,1,3)] assms(4)] assms(5-7)
  by (simp add: handle_private_msg_command_def send_private_message_def has_session_def manager_encrypt_def push_status_def push_line_def
      app_send_def update_conv Let_def)

text \<open>A chunk header that announces too many chunks stops the client.\<close>

lemma chunk_header_panics:
  assumes "parse_chunk_header header = Some (n, count)" "count * 24 > 9223372036854775807" "hm_get (app_chunks app) nick = None"
  shows "handle_pirc_message E (message_with_prefix (UserPrefix nick u h) (Pirc KeyExchange) [target, header, data]) app = Panics ''capacity overflow''"
  using assms by (simp add: handle_pirc_message_def message_with_prefix_def chunk_arrives_def empty_slots_def Let_def)

section \<open>Concrete clients\<close>

definition sample_client :: client_env where
  "sample_client = \<lparr>ce_prims = sample_prims, ce_codec = sample_codec, ce_exchange = sample_xd, ce_draws = sample_draws,
     ce_argon2 = (\<lambda>pw salt. Ok (pad 32 pw)), ce_salt = replicate 16 1, ce_nonce = replicate 12 2,
     ce_disk = \<lparr>dk_create_dir = None, dk_write = None, dk_permissions = None\<rparr>, ce_sha256 = (\<lambda>bs. pad 32 bs),
     ce_send_error = (\<lambda>m. None), ce_timestamp = ''12:00'', ce_nick = ''alice''\<rparr>"

definition sample_app :: "encryption_manager \<Rightarrow> client_app" where
  "sample_app m = \<lparr>app_encryption = m, app_chunks = [], app_connected = True, app_sent = [], app_view = buffers_new 100, app_key_file = None\<rparr>"

text \<open>A peer that has one chunk of two from a transfer that broke off.\<close>

definition sample_receiver :: client_app where
  "sample_receiver = (sample_app (sample_manager 1))\<lparr>app_chunks := [(''alice'', [Some ''old'', None], 2)]\<rparr>"

theorem chunked_data_arrives_witness:
  "let data = replicate 500 (CHR ''A'') in
   \<exists>ms. chunk_messages ''bob'' data = Returns ms \<and> length ms = 2 \<and>
     receive_all sample_client (map (relayed (UserPrefix ''alice'' ''a'' ''h'')) ms) sample_receiver =
       handle_key_exchange_message sample_client ''alice'' data (sample_app (sample_manager 1))"
proof -
  have "length (chunks_of 400 (replicate 500 (CHR ''A''))) = 2" by (subst chunks_of.simps, simp, subst chunks_of.simps, simp, subst chunks_of.simps, simp)
  moreover have "byte_in 0 127 (CHR ''A'')" by (simp add: byte_in_def)
  ultimately show ?thesis
    using chunked_data_arrives [of "replicate 500 (CHR ''A'')" "''alice''" sample_receiver "''bob''" sample_client "''a''" "''h''"]
    by (auto simp: sample_receiver_def sample_app_def unfinished_def chunk_messages_def KEY_EXCHANGE_CHUNK_SIZE_def Let_def list_all_iff split: if_splits)
qed

definition answering_env :: server_env where
  "answering_env = \<lparr>env_unix = 0, env_instant = 0, env_read_file = (\<lambda>f. None), env_version = ''1'', env_encode = id, env_decode = Some\<rparr>"

definition answering_users :: user_registry where
  "answering_users = snd (register \<lparr>us_connection_id = 1, us_nickname = ''alice'', us_username = ''a'', us_realname = ''A'', us_hostname = ''h'',
     us_modes = {}, us_away_message = None, us_connected_at = 0, us_signon_time = 0, us_last_active = 0, us_registered = True, us_sender = 5\<rparr>
     user_registry_new)"

definition sample_answer :: "message list" where
  "sample_answer = map snd (snd (handle_key_exchange answering_env (message_new (Pirc KeyExchange) [''bob'']) 1 answering_users 5
     (store_bundle ''bob'' ''QUJD'' prekey_store_new) (offline_store_new 10 1000 60)))"

theorem bundle_answer_ignored_witness:
  "sample_answer \<noteq> [] \<and> receive_all sample_client sample_answer (sample_app sample_alice) = Returns (sample_app sample_alice) \<and>
   (\<exists>app'. send_private_message sample_client ''bob'' ''hi'' (sample_app sample_alice) = Returns (True, app') \<and> app_sent app' = [])"
proof -
  have "is_request_bundle answering_env (message_new (Pirc KeyExchange) [''bob''])"
    by (simp add: is_request_bundle_def message_new_def answering_env_def)
  moreover have "hm_get (mgr_sessions sample_alice) ''bob'' = None"
    by (simp add: sample_alice_def manager_initiate_def manager_queue_def sample_manager_def manager_new_def signed_generate_def kem_pre_generate_def
        identity_sign_def sign_message_def manager_with_def update_conv Let_def)
  moreover have "sample_answer \<noteq> []"
  proof -
    have "nickname_new ''bob'' = Ok ''bob''" by code_simp
    moreover have "\<exists>u. get_by_connection answering_users 1 = Some u"
      by (simp add: answering_users_def register_def user_registry_new_def get_by_connection_def ci_contains_def ci_get_def ci_insert_def Let_def)
    ultimately show ?thesis
      by (auto simp: sample_answer_def handle_key_exchange_def message_new_def answering_env_def is_request_bundle_def get_bundle_def
          store_bundle_def bundle_replies_def BUNDLE_CHUNK_SIZE_def)
  qed
  ultimately show ?thesis
    using bundle_answer_ignored [of answering_env "message_new (Pirc KeyExchange) [''bob'']" "sample_app sample_alice" "''bob''" "[[1, 2, 3]]" sample_client 1
        answering_users 5 "store_bundle ''bob'' ''QUJD'' prekey_store_new" "offline_store_new 10 1000 60" "''hi''"] sample_alice_ok(2)
    by (auto simp: sample_app_def sample_answer_def)
qed

theorem private_message_leaks_witness:
  "\<exists>c. (talks sample_prims)\<^sup>*\<^sup>* sample_start c \<and> tr_dh_steps_since_pq (cv_b c) = 20 \<and>
     (\<exists>app'. handle_private_msg_command sample_client ''bob'' ''secret'' (sample_app ((sample_manager 1)\<lparr>mgr_sessions := [(''bob'', cv_b c)]\<rparr>)) = Returns app' \<and>
        app_sent app' = [message_new Privmsg [''bob'', ''secret'']])"
proof -
  obtain c where "sample_rounds 19 c" using sample_rounds_ex [of 19] by auto
  then obtain a b where c: "(talks sample_prims)\<^sup>*\<^sup>* sample_start (c\<lparr>cv_a := a, cv_b := b\<rparr>)" "tr_dh_steps_since_pq b = word_of_nat 20"
    by (rule sample_pass_b [of 19 c "[]"]) auto
  let ?c = "c\<lparr>cv_a := a, cv_b := b\<rparr>" and ?app = "sample_app ((sample_manager 1)\<lparr>mgr_sessions := [(''bob'', b)]\<rparr>)"
  have "\<exists>app'. handle_private_msg_command sample_client ''bob'' ''secret'' ?app = Returns app' \<and>
      app_sent app' = app_sent ?app @ [message_new Privmsg [''bob'', ''secret'']] \<and> hm_get (mgr_sessions (app_encryption app')) ''bob'' = Some (cv_b ?c)"
    by (rule private_message_leaks [where ?c0.0 = sample_start])
      (use c sample_laws sample_start_ok(1) in \<open>simp_all add: sample_client_def sample_app_def\<close>)
  then show ?thesis using c by (intro exI [of _ ?c]) (auto simp: sample_app_def)
qed

end
