(* ===== verification/P2P_Group.thy ===== *)
theory P2P_Group
  imports Prelude
begin

text \<open>
  How a client follows the connections to the members of a group: the session of
  \<^verbatim>\<open>pirc-p2p/src/group_session.rs\<close> and the mesh of \<^verbatim>\<open>pirc-p2p/src/group_mesh.rs\<close>. A transport is a
  value of a type parameter here. The state of the session is that of its members after every
  sequence of reports; the mesh knows each member once, and a member has a transport exactly
  when it is connected. The hash sets are sets, the hash maps association lists.
\<close>

section \<open>The group session\<close>

datatype group_session_state = GroupCreating | GroupEstablishing | GroupActive | GroupDegraded

datatype group_session_event =
  SessionMemberConnected string | SessionMemberDisconnected string | SessionFallbackToRelay string string
  | SessionStateChanged group_session_state

record group_session =
  gs_group :: string
  gs_state :: group_session_state
  gs_expected :: "string set"
  gs_connected :: "string set"
  gs_relay :: "string set"
  gs_sessions :: "(string \<times> string) list"
  gs_events :: "group_session_event list"

definition gs_new :: "string \<Rightarrow> string set \<Rightarrow> group_session" where
  "gs_new g members =
     \<lparr>gs_group = g, gs_state = GroupCreating, gs_expected = members, gs_connected = {}, gs_relay = {}, gs_sessions = [], gs_events = []\<rparr>"

definition gs_drain_events :: "group_session \<Rightarrow> group_session_event list \<times> group_session" where
  "gs_drain_events s = (gs_events s, s\<lparr>gs_events := []\<rparr>)"

definition gs_transition :: "group_session_state \<Rightarrow> group_session \<Rightarrow> group_session" where
  "gs_transition new s =
     (if gs_state s \<noteq> new then s\<lparr>gs_state := new, gs_events := gs_events s @ [SessionStateChanged new]\<rparr> else s)"

definition recalculate_state :: "group_session \<Rightarrow> group_session" where
  "recalculate_state s =
     (if gs_expected s = {} then gs_transition GroupActive s
      else
        (let all_accounted = card (gs_connected s) + card (gs_relay s) = card (gs_expected s);
             all_connected = card (gs_connected s) = card (gs_expected s) in
         gs_transition (if all_connected then GroupActive else if all_accounted then GroupDegraded else GroupEstablishing) s))"

definition begin_establishing :: "group_session \<Rightarrow> group_session" where
  "begin_establishing s = (if gs_state s = GroupCreating then gs_transition GroupEstablishing s else s)"

definition gs_member_connected :: "string \<Rightarrow> group_session \<Rightarrow> group_session" where
  "gs_member_connected member s =
     (if member \<notin> gs_expected s then s
      else recalculate_state
        (s\<lparr>gs_connected := insert member (gs_connected s), gs_relay := gs_relay s - {member},
           gs_events := gs_events s @ [SessionMemberConnected member]\<rparr>))"

definition gs_member_disconnected :: "string \<Rightarrow> group_session \<Rightarrow> group_session" where
  "gs_member_disconnected member s =
     (if member \<in> gs_connected s
      then recalculate_state
        (s\<lparr>gs_connected := gs_connected s - {member}, gs_events := gs_events s @ [SessionMemberDisconnected member]\<rparr>)
      else s)"

definition gs_member_fallback_to_relay :: "string \<Rightarrow> string \<Rightarrow> group_session \<Rightarrow> group_session" where
  "gs_member_fallback_to_relay member reason s =
     (if member \<notin> gs_expected s then s
      else recalculate_state
        (s\<lparr>gs_connected := gs_connected s - {member}, gs_relay := insert member (gs_relay s),
           gs_events := gs_events s @ [SessionFallbackToRelay member reason]\<rparr>))"

definition gs_set_member_session :: "string \<Rightarrow> string \<Rightarrow> group_session \<Rightarrow> group_session" where
  "gs_set_member_session member i s = s\<lparr>gs_sessions := hm_insert member i (gs_sessions s)\<rparr>"

definition gs_get_member_session :: "group_session \<Rightarrow> string \<Rightarrow> string option" where
  "gs_get_member_session s member = hm_get (gs_sessions s) member"

definition gs_add_expected_member :: "string \<Rightarrow> group_session \<Rightarrow> group_session" where
  "gs_add_expected_member member s = recalculate_state (s\<lparr>gs_expected := insert member (gs_expected s)\<rparr>)"

definition gs_remove_member :: "string \<Rightarrow> group_session \<Rightarrow> group_session" where
  "gs_remove_member member s =
     recalculate_state
       (s\<lparr>gs_expected := gs_expected s - {member}, gs_connected := gs_connected s - {member}, gs_relay := gs_relay s - {member},
          gs_sessions := hm_remove member (gs_sessions s)\<rparr>)"

datatype gs_op =
  BeginEstablishing | ReportConnected string | ReportDisconnected string | ReportFallback string string
  | SetMemberSession string string | AddExpected string | RemoveExpected string | DrainSession

fun gs_step :: "gs_op \<Rightarrow> group_session \<Rightarrow> group_session" where
  "gs_step BeginEstablishing s = begin_establishing s"
| "gs_step (ReportConnected m) s = gs_member_connected m s"
| "gs_step (ReportDisconnected m) s = gs_member_disconnected m s"
| "gs_step (ReportFallback m r) s = gs_member_fallback_to_relay m r s"
| "gs_step (SetMemberSession m i) s = gs_set_member_session m i s"
| "gs_step (AddExpected m) s = gs_add_expected_member m s"
| "gs_step (RemoveExpected m) s = gs_remove_member m s"
| "gs_step DrainSession s = snd (gs_drain_events s)"

section \<open>The state of the session\<close>

text \<open>What the documentation of the states says, without counting.\<close>

definition group_state_of :: "string set \<Rightarrow> string set \<Rightarrow> string set \<Rightarrow> group_session_state" where
  "group_state_of expected connected relay =
     (if connected = expected then GroupActive else if connected \<union> relay = expected then GroupDegraded else GroupEstablishing)"

abbreviation gs_state_of :: "group_session \<Rightarrow> group_session_state" where
  "gs_state_of s \<equiv> group_state_of (gs_expected s) (gs_connected s) (gs_relay s)"

definition gs_members_ok :: "group_session \<Rightarrow> bool" where
  "gs_members_ok s \<longleftrightarrow> finite (gs_expected s) \<and> gs_connected s \<union> gs_relay s \<subseteq> gs_expected s \<and> gs_connected s \<inter> gs_relay s = {}"

definition gs_ok :: "group_session \<Rightarrow> bool" where
  "gs_ok s \<longleftrightarrow> gs_members_ok s \<and>
     (gs_state s = gs_state_of s \<or> gs_state s \<in> {GroupCreating, GroupEstablishing} \<and> gs_connected s = {} \<and> gs_relay s = {})"

lemma gs_transition_members [simp]:
  "gs_expected (gs_transition n s) = gs_expected s" "gs_connected (gs_transition n s) = gs_connected s"
  "gs_relay (gs_transition n s) = gs_relay s" "gs_state (gs_transition n s) = n"
  by (simp_all add: gs_transition_def)

lemma counts_are_sets:
  assumes "gs_members_ok s"
  shows "card (gs_connected s) = card (gs_expected s) \<longleftrightarrow> gs_connected s = gs_expected s"
    "card (gs_connected s) + card (gs_relay s) = card (gs_expected s) \<longleftrightarrow> gs_connected s \<union> gs_relay s = gs_expected s"
proof -
  have f: "finite (gs_expected s)" "gs_connected s \<subseteq> gs_expected s" "gs_relay s \<subseteq> gs_expected s" "gs_connected s \<inter> gs_relay s = {}"
    using assms by (auto simp: gs_members_ok_def)
  show "card (gs_connected s) = card (gs_expected s) \<longleftrightarrow> gs_connected s = gs_expected s"
    using f card_subset_eq by metis
  have "card (gs_connected s) + card (gs_relay s) = card (gs_connected s \<union> gs_relay s)"
    using f by (metis card_Un_disjoint finite_subset)
  then show "card (gs_connected s) + card (gs_relay s) = card (gs_expected s) \<longleftrightarrow> gs_connected s \<union> gs_relay s = gs_expected s"
    using f card_subset_eq [of "gs_expected s" "gs_connected s \<union> gs_relay s"] by auto
qed

lemma recalculate_ok:
  assumes "gs_members_ok s"
  shows "gs_ok (recalculate_state s)"
    "gs_state (recalculate_state s) = gs_state_of s"
    "gs_expected (recalculate_state s) = gs_expected s" "gs_connected (recalculate_state s) = gs_connected s"
    "gs_relay (recalculate_state s) = gs_relay s"
  using assms counts_are_sets [OF assms]
  by (auto simp: recalculate_state_def gs_ok_def gs_members_ok_def group_state_of_def Let_def)

lemma gs_step_ok:
  assumes "gs_ok s"
  shows "gs_ok (gs_step op s)"
proof -
  have m: "gs_members_ok s" using assms by (simp add: gs_ok_def)
  show ?thesis
  proof (cases op)
    case BeginEstablishing
    then show ?thesis using assms
      by (auto simp: begin_establishing_def gs_ok_def gs_members_ok_def group_state_of_def split: if_splits)
  next
    case (ReportConnected x)
    then show ?thesis using assms m by (auto simp: gs_member_connected_def gs_members_ok_def intro!: recalculate_ok)
  next
    case (ReportDisconnected x)
    then show ?thesis using assms m by (auto simp: gs_member_disconnected_def gs_members_ok_def intro!: recalculate_ok)
  next
    case (ReportFallback x r)
    then show ?thesis using assms m by (auto simp: gs_member_fallback_to_relay_def gs_members_ok_def intro!: recalculate_ok)
  next
    case (AddExpected x)
    then show ?thesis using m by (auto simp: gs_add_expected_member_def gs_members_ok_def intro!: recalculate_ok)
  next
    case (RemoveExpected x)
    then show ?thesis using m by (auto simp: gs_remove_member_def gs_members_ok_def intro!: recalculate_ok)
  qed (use assms in \<open>simp_all add: gs_set_member_session_def gs_drain_events_def gs_ok_def gs_members_ok_def\<close>)
qed

text \<open>
  The counters of the group session stand for the sets of its members: after any sequence of
  reports about a new group, in any order and for any nicknames, the members that are connected
  and those on the relay are disjoint sets of expected members, and as soon as one of them is
  known to be either, the session is active exactly when every expected member is connected and
  degraded exactly when every one is connected or relayed but not all are connected.
\<close>

theorem group_session_state_exact:
  assumes "finite members" "s = fold gs_step ops (gs_new g members)"
  shows "gs_connected s \<union> gs_relay s \<subseteq> gs_expected s \<and> gs_connected s \<inter> gs_relay s = {} \<and>
    (gs_connected s \<union> gs_relay s \<noteq> {} \<longrightarrow> gs_state s = group_state_of (gs_expected s) (gs_connected s) (gs_relay s)) \<and>
    (gs_state s = GroupActive \<longrightarrow> gs_connected s = gs_expected s) \<and>
    (gs_state s = GroupDegraded \<longrightarrow> gs_relay s \<noteq> {} \<and> gs_connected s \<union> gs_relay s = gs_expected s)"
proof -
  have "gs_ok (gs_new g members)" using assms(1) by (simp add: gs_ok_def gs_members_ok_def gs_new_def)
  then have "gs_ok s" unfolding assms(2)
    by (induction ops arbitrary: g members rule: rev_induct) (simp_all add: gs_step_ok)
  then show ?thesis by (auto simp: gs_ok_def gs_members_ok_def group_state_of_def split: if_splits)
qed

theorem group_session_state_exact_witness:
  "let s = fold gs_step [BeginEstablishing, ReportConnected ''bob'', ReportFallback ''eve'' ''timeout'', RemoveExpected ''eve'']
             (gs_new ''g'' {''bob'', ''eve''}) in
   gs_connected s = {''bob''} \<and> gs_state s = GroupActive"
proof -
  let ?s = "fold gs_step [BeginEstablishing, ReportConnected ''bob'', ReportFallback ''eve'' ''timeout'', RemoveExpected ''eve'']
             (gs_new ''g'' {''bob'', ''eve''})"
  have m: "gs_connected ?s = {''bob''} \<and> gs_expected ?s = {''bob''}"
    by (simp add: begin_establishing_def gs_member_connected_def gs_member_fallback_to_relay_def gs_remove_member_def
        recalculate_state_def gs_new_def Let_def insert_Diff_if)
  show ?thesis
    using m group_session_state_exact [of "{''bob'', ''eve''}" ?s _ "''g''", OF _ refl]
    by (simp only: Let_def) (simp add: group_state_of_def)
qed

section \<open>The mesh\<close>

datatype peer_connection_state = MeshConnecting | MeshConnected | MeshRelayFallback | MeshDisconnected

datatype group_mesh_event =
  MeshMemberConnected string | MeshMemberDisconnected string | MeshMemberDegraded string string | MeshReady | MeshDegraded

record 'tr group_mesh =
  gm_group :: string
  gm_members :: "(string \<times> 'tr \<times> peer_connection_state) list"
  gm_tracked :: "(string \<times> peer_connection_state) list"
  gm_events :: "group_mesh_event list"

definition gm_new :: "string \<Rightarrow> 'tr group_mesh" where
  "gm_new g = \<lparr>gm_group = g, gm_members = [], gm_tracked = [], gm_events = []\<rparr>"

definition gm_drain_events :: "'tr group_mesh \<Rightarrow> group_mesh_event list \<times> 'tr group_mesh" where
  "gm_drain_events m = (gm_events m, m\<lparr>gm_events := []\<rparr>)"

definition gm_member_state :: "'tr group_mesh \<Rightarrow> string \<Rightarrow> peer_connection_state option" where
  "gm_member_state m member =
     (case hm_get (gm_members m) member of Some mt \<Rightarrow> Some (snd mt) | None \<Rightarrow> hm_get (gm_tracked m) member)"

definition gm_known :: "'tr group_mesh \<Rightarrow> string \<Rightarrow> bool" where
  "gm_known m member \<longleftrightarrow> hm_get (gm_members m) member \<noteq> None \<or> hm_get (gm_tracked m) member \<noteq> None"

definition gm_member_count :: "'tr group_mesh \<Rightarrow> nat" where
  "gm_member_count m = length (gm_members m) + length (gm_tracked m)"

definition is_fully_connected :: "'tr group_mesh \<Rightarrow> bool" where
  "is_fully_connected m \<longleftrightarrow>
     gm_members m = [] \<and> gm_tracked m = [] \<or>
     gm_tracked m = [] \<and> list_all (\<lambda>(_, _, st). st = MeshConnected) (gm_members m)"

definition mesh_is_degraded :: "'tr group_mesh \<Rightarrow> bool" where
  "mesh_is_degraded m \<longleftrightarrow> list_ex (\<lambda>(_, st). st = MeshRelayFallback) (gm_tracked m)"

definition check_mesh_state :: "'tr group_mesh \<Rightarrow> 'tr group_mesh" where
  "check_mesh_state m =
     (if gm_member_count m = 0 then m
      else if is_fully_connected m then m\<lparr>gm_events := gm_events m @ [MeshReady]\<rparr>
      else if mesh_is_degraded m then m\<lparr>gm_events := gm_events m @ [MeshDegraded]\<rparr>
      else m)"

definition gm_add_member :: "string \<Rightarrow> 'tr group_mesh \<Rightarrow> 'tr group_mesh" where
  "gm_add_member member m =
     (if gm_known m member then m else m\<lparr>gm_tracked := hm_insert member MeshConnecting (gm_tracked m)\<rparr>)"

definition gm_remove_member :: "string \<Rightarrow> 'tr group_mesh \<Rightarrow> 'tr group_mesh" where
  "gm_remove_member member m =
     (let was_connected = (case hm_get (gm_members m) member of Some mt \<Rightarrow> snd mt = MeshConnected | None \<Rightarrow> False);
          m1 = m\<lparr>gm_members := hm_remove member (gm_members m), gm_tracked := hm_remove member (gm_tracked m)\<rparr> in
      if was_connected then check_mesh_state (m1\<lparr>gm_events := gm_events m1 @ [MeshMemberDisconnected member]\<rparr>) else m1)"

definition gm_member_connected :: "string \<Rightarrow> 'tr \<Rightarrow> 'tr group_mesh \<Rightarrow> 'tr group_mesh" where
  "gm_member_connected member transport m =
     (if \<not> gm_known m member then m
      else check_mesh_state
        (m\<lparr>gm_tracked := hm_remove member (gm_tracked m), gm_members := hm_insert member (transport, MeshConnected) (gm_members m),
           gm_events := gm_events m @ [MeshMemberConnected member]\<rparr>))"

definition gm_member_degraded :: "string \<Rightarrow> string \<Rightarrow> 'tr group_mesh \<Rightarrow> 'tr group_mesh" where
  "gm_member_degraded member reason m =
     (if \<not> gm_known m member then m
      else check_mesh_state
        (m\<lparr>gm_members := hm_remove member (gm_members m), gm_tracked := hm_insert member MeshRelayFallback (gm_tracked m),
           gm_events := gm_events m @ [MeshMemberDegraded member reason]\<rparr>))"

definition gm_member_disconnected :: "string \<Rightarrow> 'tr group_mesh \<Rightarrow> 'tr group_mesh" where
  "gm_member_disconnected member m =
     (if \<not> gm_known m member then m
      else
        (let was_connected = hm_get (gm_members m) member \<noteq> None;
             m1 = m\<lparr>gm_members := hm_remove member (gm_members m), gm_tracked := hm_insert member MeshDisconnected (gm_tracked m)\<rparr> in
         if was_connected then check_mesh_state (m1\<lparr>gm_events := gm_events m1 @ [MeshMemberDisconnected member]\<rparr>) else m1))"

definition get_transport :: "'tr group_mesh \<Rightarrow> string \<Rightarrow> 'tr option" where
  "get_transport m member =
     (case hm_get (gm_members m) member of
        None \<Rightarrow> None
      | Some (transport, st) \<Rightarrow> if st = MeshConnected then Some transport else None)"

definition gm_connected_members :: "'tr group_mesh \<Rightarrow> string list" where
  "gm_connected_members m = map fst (filter (\<lambda>(_, _, st). st = MeshConnected) (gm_members m))"

definition gm_degraded_members :: "'tr group_mesh \<Rightarrow> string list" where
  "gm_degraded_members m = map fst (filter (\<lambda>(_, st). st = MeshRelayFallback) (gm_tracked m))"

definition gm_members_needing_reconnect :: "'tr group_mesh \<Rightarrow> string list" where
  "gm_members_needing_reconnect m =
     map fst (filter (\<lambda>(_, st). st \<in> {MeshRelayFallback, MeshDisconnected}) (gm_tracked m))"

datatype 'tr gm_op =
  MeshAdd string | MeshRemove string | MeshConnect string 'tr | MeshDegrade string string | MeshDisconnect string | MeshDrain

fun gm_step :: "'tr gm_op \<Rightarrow> 'tr group_mesh \<Rightarrow> 'tr group_mesh" where
  "gm_step (MeshAdd x) m = gm_add_member x m"
| "gm_step (MeshRemove x) m = gm_remove_member x m"
| "gm_step (MeshConnect x t) m = gm_member_connected x t m"
| "gm_step (MeshDegrade x r) m = gm_member_degraded x r m"
| "gm_step (MeshDisconnect x) m = gm_member_disconnected x m"
| "gm_step MeshDrain m = snd (gm_drain_events m)"

section \<open>Each member once\<close>

definition gm_ok :: "'tr group_mesh \<Rightarrow> bool" where
  "gm_ok m \<longleftrightarrow> hm_wf (gm_members m) \<and> hm_wf (gm_tracked m) \<and> (\<forall>x. map_of (gm_members m) x = None \<or> map_of (gm_tracked m) x = None) \<and>
     (\<forall>x t st. map_of (gm_members m) x = Some (t, st) \<longrightarrow> st = MeshConnected) \<and> (\<forall>x. map_of (gm_tracked m) x \<noteq> Some MeshConnected)"

text \<open>The state of each member, as a map: what a mesh is about.\<close>

fun mesh_effect :: "'tr gm_op \<Rightarrow> (string \<Rightarrow> peer_connection_state option) \<Rightarrow> (string \<Rightarrow> peer_connection_state option)" where
  "mesh_effect (MeshAdd x) f = (if f x = None then f(x \<mapsto> MeshConnecting) else f)"
| "mesh_effect (MeshRemove x) f = f(x := None)"
| "mesh_effect (MeshConnect x t) f = (if f x = None then f else f(x \<mapsto> MeshConnected))"
| "mesh_effect (MeshDegrade x r) f = (if f x = None then f else f(x \<mapsto> MeshRelayFallback))"
| "mesh_effect (MeshDisconnect x) f = (if f x = None then f else f(x \<mapsto> MeshDisconnected))"
| "mesh_effect MeshDrain f = f"

lemma check_mesh_parts [simp]:
  "gm_members (check_mesh_state m) = gm_members m" "gm_tracked (check_mesh_state m) = gm_tracked m"
  by (simp_all add: check_mesh_state_def)

lemmas gm_op_defs = gm_add_member_def gm_remove_member_def gm_member_connected_def gm_member_degraded_def gm_member_disconnected_def
  gm_drain_events_def

lemma gm_step_parts:
  "gm_members (gm_step op m) =
     (case op of MeshRemove x \<Rightarrow> hm_remove x (gm_members m)
      | MeshConnect x t \<Rightarrow> if gm_known m x then hm_insert x (t, MeshConnected) (gm_members m) else gm_members m
      | MeshDegrade x r \<Rightarrow> if gm_known m x then hm_remove x (gm_members m) else gm_members m
      | MeshDisconnect x \<Rightarrow> if gm_known m x then hm_remove x (gm_members m) else gm_members m
      | _ \<Rightarrow> gm_members m)"
  "gm_tracked (gm_step op m) =
     (case op of MeshAdd x \<Rightarrow> if gm_known m x then gm_tracked m else hm_insert x MeshConnecting (gm_tracked m)
      | MeshRemove x \<Rightarrow> hm_remove x (gm_tracked m)
      | MeshConnect x t \<Rightarrow> if gm_known m x then hm_remove x (gm_tracked m) else gm_tracked m
      | MeshDegrade x r \<Rightarrow> if gm_known m x then hm_insert x MeshRelayFallback (gm_tracked m) else gm_tracked m
      | MeshDisconnect x \<Rightarrow> if gm_known m x then hm_insert x MeshDisconnected (gm_tracked m) else gm_tracked m
      | MeshDrain \<Rightarrow> gm_tracked m)"
  by (cases op; simp add: gm_op_defs Let_def)+

declare gm_step.simps [simp del]

lemma gm_step_ok: "gm_ok m \<Longrightarrow> gm_ok (gm_step op m)"
  by (cases op)
    (auto simp: gm_ok_def gm_step_parts gm_known_def update_conv' delete_conv' simp del: map_of_eq_Some_iff not_None_eq
      split: if_splits)

lemma gm_step_state: "gm_ok m \<Longrightarrow> gm_member_state (gm_step op m) = mesh_effect op (gm_member_state m)"
  by (cases op)
    (auto simp: fun_eq_iff gm_member_state_def gm_step_parts gm_known_def gm_ok_def update_conv' delete_conv'
      simp del: map_of_eq_Some_iff split: option.splits)

lemma gm_new_ok [simp]: "gm_ok (gm_new g)"
  by (simp add: gm_ok_def gm_new_def)

lemma gm_run_ok: "gm_ok m \<Longrightarrow> gm_ok (fold gm_step ops m)"
  by (induction ops arbitrary: m) (simp_all add: gm_step_ok)

lemma gm_run_state: "gm_ok m \<Longrightarrow> gm_member_state (fold gm_step ops m) = fold mesh_effect ops (gm_member_state m)"
  by (induction ops arbitrary: m) (simp_all add: gm_step_state gm_step_ok)

text \<open>A member has a transport exactly when its state is connected, and the counts agree.\<close>

lemma transport_iff_connected:
  assumes "gm_ok m"
  shows "(\<exists>t. get_transport m x = Some t) \<longleftrightarrow> gm_member_state m x = Some MeshConnected"
  using assms by (auto simp: get_transport_def gm_member_state_def gm_ok_def split: option.splits)

lemma gm_queries:
  assumes "gm_ok m"
  shows "x \<in> set (gm_connected_members m) \<longleftrightarrow> gm_member_state m x = Some MeshConnected"
    "x \<in> set (gm_degraded_members m) \<longleftrightarrow> gm_member_state m x = Some MeshRelayFallback"
    "gm_member_count m = card {x. gm_member_state m x \<noteq> None}"
    "is_fully_connected m \<longleftrightarrow> (\<forall>x. gm_member_state m x \<in> {None, Some MeshConnected})"
proof -
  note ok = assms [unfolded gm_ok_def]
  have get: "map_of (gm_members m) y = Some v \<longleftrightarrow> (y, v) \<in> set (gm_members m)"
    "map_of (gm_tracked m) y = Some w \<longleftrightarrow> (y, w) \<in> set (gm_tracked m)" for y v w using ok by simp_all
  have "x \<in> set (gm_connected_members m) \<longleftrightarrow> (\<exists>t. map_of (gm_members m) x = Some (t, MeshConnected))"
    by (force simp: gm_connected_members_def get)
  then show "x \<in> set (gm_connected_members m) \<longleftrightarrow> gm_member_state m x = Some MeshConnected"
    using ok by (cases "map_of (gm_members m) x") (auto simp: gm_member_state_def simp del: map_of_eq_Some_iff)
  have "x \<in> set (gm_degraded_members m) \<longleftrightarrow> map_of (gm_tracked m) x = Some MeshRelayFallback"
    by (force simp: gm_degraded_members_def get)
  then show "x \<in> set (gm_degraded_members m) \<longleftrightarrow> gm_member_state m x = Some MeshRelayFallback"
    using ok by (cases "map_of (gm_members m) x") (auto simp: gm_member_state_def simp del: map_of_eq_Some_iff, (metis option.distinct(1) peer_connection_state.distinct)+)
  have dom: "{x. gm_member_state m x \<noteq> None} = fst ` set (gm_members m) \<union> fst ` set (gm_tracked m)"
    using map_of_eq_None_iff [of "gm_members m"] map_of_eq_None_iff [of "gm_tracked m"]
    by (auto simp: gm_member_state_def simp del: map_of_eq_Some_iff not_None_eq split: option.splits)
  have dj: "fst ` set (gm_members m) \<inter> fst ` set (gm_tracked m) = {}" using ok unfolding map_of_eq_None_iff by blast
  have "card (fst ` set (gm_members m)) = length (gm_members m)" "card (fst ` set (gm_tracked m)) = length (gm_tracked m)"
    using ok distinct_card [of "map fst (gm_members m)"] distinct_card [of "map fst (gm_tracked m)"] by simp_all
  then show "gm_member_count m = card {x. gm_member_state m x \<noteq> None}"
    unfolding dom gm_member_count_def using dj by (simp add: card_Un_disjoint)
  have t: "gm_tracked m = [] \<longleftrightarrow> (\<forall>y. map_of (gm_tracked m) y = None)" by (rule hm_empty_iff)
  have all: "list_all (\<lambda>(_, _, st). st = MeshConnected) (gm_members m)" using ok get by (fastforce simp: list_all_iff)
  show "is_fully_connected m \<longleftrightarrow> (\<forall>x. gm_member_state m x \<in> {None, Some MeshConnected})"
  proof -
    have "gm_member_state m y \<notin> {None, Some MeshConnected}" if "map_of (gm_tracked m) y \<noteq> None" for y
      using that ok by (metis empty_iff gm_member_state_def insert_iff option.simps(4))
    moreover have "gm_member_state m y \<in> {None, Some MeshConnected}" if "map_of (gm_tracked m) y = None" for y
      using that ok by (auto simp: gm_member_state_def split: option.split simp del: map_of_eq_Some_iff)
    ultimately show ?thesis unfolding is_fully_connected_def t using all by blast
  qed
qed

text \<open>
  The last event of a mesh tells its state only as long as connections are reported: when the
  member that kept the mesh from being complete is removed, the mesh is complete and does not say so.
\<close>

lemma mesh_ready_missed:
  assumes "gm_ok m" "gm_members m \<noteq> []" "gm_tracked m = [(x, st)]"
  shows "is_fully_connected (gm_remove_member x m) \<and> gm_member_count (gm_remove_member x m) \<noteq> 0 \<and>
    gm_events (gm_remove_member x m) = gm_events m"
proof -
  have n: "map_of (gm_members m) x = None" using assms(1,3) unfolding gm_ok_def by (metis map_of_Cons_code(2) option.distinct(1))
  then have r: "gm_remove_member x m = m\<lparr>gm_tracked := []\<rparr>"
    using assms(3) delete_id [of x "gm_members m"] by (simp add: gm_remove_member_def map_of_eq_None_iff [symmetric] Let_def)
  have "list_all (\<lambda>(_, _, st). st = MeshConnected) (gm_members m)"
    using assms(1) by (fastforce simp: gm_ok_def list_all_iff)
  then show ?thesis using assms(2) by (simp add: r is_fully_connected_def gm_member_count_def)
qed

end
