(* ===== verification/P2P_Codec.thy ===== *)
theory P2P_Codec
  imports Bytes
begin

text \<open>
  The wire formats of the peer-to-peer layer (\<^verbatim>\<open>pirc-p2p\<close>): STUN messages (\<^verbatim>\<open>stun.rs\<close>), TURN messages
  and channel data (\<^verbatim>\<open>turn/codec.rs\<close>, \<^verbatim>\<open>turn/types.rs\<close>, \<^verbatim>\<open>turn/client.rs\<close>) and the frames of the
  transports (\<^verbatim>\<open>transport.rs\<close>). Both kinds of message are a header and a list of attributes in
  type-length-value form; the locale \<open>attribute_format\<close> is the contract between the two attribute
  types and the loop that reads them. The keyed hash of the \<^verbatim>\<open>hmac\<close> crate is a parameter.
\<close>

section \<open>Addresses and errors\<close>

text \<open>An IPv4 address is its 32 bits, an IPv6 address its 16 octets.\<close>

datatype ip_addr = V4 u32 | V6 bytes

record socket_addr =
  sa_ip :: ip_addr
  sa_port :: u16

definition address_wf :: "socket_addr \<Rightarrow> bool" where
  "address_wf a \<longleftrightarrow> (case sa_ip a of V4 _ \<Rightarrow> True | V6 octets \<Rightarrow> length octets = 16)"

datatype p2p_error =
    StunErr string
  | StunTimeout socket_addr
  | TurnErr string
  | TurnTimeout socket_addr
  | IceErr string
  | IoErr string

definition MAGIC_COOKIE :: u32 where "MAGIC_COOKIE = 0x2112A442"
definition HEADER_SIZE :: nat where "HEADER_SIZE = 20"
definition TRANSACTION_ID_SIZE :: nat where "TRANSACTION_ID_SIZE = 12"
definition FAMILY_IPV4 :: "8 word" where "FAMILY_IPV4 = 1"
definition FAMILY_IPV6 :: "8 word" where "FAMILY_IPV6 = 2"

lemmas wire_constants = MAGIC_COOKIE_def HEADER_SIZE_def TRANSACTION_ID_SIZE_def FAMILY_IPV4_def FAMILY_IPV6_def

section \<open>Addresses on the wire\<close>

definition xor_port :: "u16 \<Rightarrow> u16" where
  "xor_port p = p XOR ucast (drop_bit 16 MAGIC_COOKIE)"

definition xor_octets :: "bytes \<Rightarrow> bytes \<Rightarrow> bytes" where
  "xor_octets tid octets = map2 (\<lambda>a b. a XOR b) octets (u32_to_be MAGIC_COOKIE @ tid)"

definition encode_xor_address :: "bytes \<Rightarrow> socket_addr \<Rightarrow> bytes" where
  "encode_xor_address tid a =
     0 # (case sa_ip a of
            V4 ip \<Rightarrow> FAMILY_IPV4 # u16_to_be (xor_port (sa_port a)) @ u32_to_be (ip XOR MAGIC_COOKIE)
          | V6 octets \<Rightarrow> FAMILY_IPV6 # u16_to_be (xor_port (sa_port a)) @ xor_octets tid octets)"

definition encode_mapped_address :: "socket_addr \<Rightarrow> bytes" where
  "encode_mapped_address a =
     0 # (case sa_ip a of
            V4 ip \<Rightarrow> FAMILY_IPV4 # u16_to_be (sa_port a) @ u32_to_be ip
          | V6 octets \<Rightarrow> FAMILY_IPV6 # u16_to_be (sa_port a) @ octets)"

text \<open>The two parsers of XOR-ed addresses differ in the error and in the name they report.\<close>

definition parse_xor :: "(string \<Rightarrow> p2p_error) \<Rightarrow> string \<Rightarrow> bytes \<Rightarrow> bytes \<Rightarrow> p2p_error + socket_addr" where
  "parse_xor err name tid data =
     (if length data < 4 then Err (err (name @ '' too short''))
      else
        (let family = data ! 1; port = xor_port (u16_from_be (drop 2 data)) in
         if family = FAMILY_IPV4 then
           if length data < 8 then Err (err (name @ '' IPv4 too short''))
           else Ok \<lparr>sa_ip = V4 (u32_from_be (drop 4 data) XOR MAGIC_COOKIE), sa_port = port\<rparr>
         else if family = FAMILY_IPV6 then
           if length data < 20 then Err (err (name @ '' IPv6 too short''))
           else Ok \<lparr>sa_ip = V6 (xor_octets tid (take 16 (drop 4 data))), sa_port = port\<rparr>
         else Err (err (''unknown address family: 0x'' @ hex_width 2 (unat family)))))"

definition parse_xor_mapped_address :: "bytes \<Rightarrow> bytes \<Rightarrow> p2p_error + socket_addr" where
  "parse_xor_mapped_address = parse_xor StunErr ''XOR-MAPPED-ADDRESS''"

definition parse_xor_address :: "bytes \<Rightarrow> bytes \<Rightarrow> p2p_error + socket_addr" where
  "parse_xor_address = parse_xor TurnErr ''XOR address''"

definition parse_mapped_address :: "bytes \<Rightarrow> p2p_error + socket_addr" where
  "parse_mapped_address data =
     (if length data < 4 then Err (StunErr ''MAPPED-ADDRESS too short'')
      else
        (let family = data ! 1; port = u16_from_be (drop 2 data) in
         if family = FAMILY_IPV4 then
           if length data < 8 then Err (StunErr ''MAPPED-ADDRESS IPv4 too short'')
           else Ok \<lparr>sa_ip = V4 (u32_from_be (drop 4 data)), sa_port = port\<rparr>
         else if family = FAMILY_IPV6 then
           if length data < 20 then Err (StunErr ''MAPPED-ADDRESS IPv6 too short'')
           else Ok \<lparr>sa_ip = V6 (take 16 (drop 4 data)), sa_port = port\<rparr>
         else Err (StunErr (''unknown address family: 0x'' @ hex_width 2 (unat family)))))"

lemma xor_port_involution [simp]: "xor_port (xor_port p) = p"
  by (simp add: xor_port_def xor.assoc)

lemma xor_octets_length: "length tid = 12 \<Longrightarrow> length octets = 16 \<Longrightarrow> length (xor_octets tid octets) = 16"
  by (simp add: xor_octets_def)

lemma xor_octets_involution: "length tid = 12 \<Longrightarrow> length octets = 16 \<Longrightarrow> xor_octets tid (xor_octets tid octets) = octets"
  by (rule nth_equalityI) (simp_all add: xor_octets_def xor.assoc)

lemma encode_xor_address_length:
  "length tid = 12 \<Longrightarrow> address_wf a \<Longrightarrow> length (encode_xor_address tid a) \<le> 20"
  by (auto simp: encode_xor_address_def address_wf_def xor_octets_length split: ip_addr.splits)

lemma drop_u16_be [simp]: "drop 2 (x # y # u16_to_be p @ r) = u16_to_be p @ r" "drop 4 (x # y # u16_to_be p @ r) = r"
  by (simp_all add: numeral_2_eq_2 u16_to_be_def numeral_eq_Suc)

lemma parse_encode_xor:
  assumes "length tid = 12" "address_wf a"
  shows "parse_xor err name tid (encode_xor_address tid a) = Ok a"
  using assms
  by (cases "sa_ip a")
    (simp_all add: parse_xor_def encode_xor_address_def address_wf_def xor_octets_length xor_octets_involution xor.assoc wire_constants)

lemma parse_encode_mapped:
  assumes "address_wf a"
  shows "parse_mapped_address (encode_mapped_address a) = Ok a" "length (encode_mapped_address a) \<le> 20"
  using assms
  by (cases "sa_ip a"; simp add: parse_mapped_address_def encode_mapped_address_def address_wf_def wire_constants)+

section \<open>Attributes\<close>

text \<open>An attribute is written as its type, its length, its value and padding to a multiple of four bytes.\<close>

definition pad_to_4 :: "nat \<Rightarrow> bytes" where
  "pad_to_4 unpadded_len = replicate ((4 - unpadded_len mod 4) mod 4) 0"

definition encode_tlv :: "u16 \<times> bytes \<Rightarrow> bytes" where
  "encode_tlv tv =
     (let (attr_type, v) = tv in u16_to_be attr_type @ u16_to_be (word_of_nat (length v)) @ v @ pad_to_4 (length v))"

text \<open>\<^verbatim>\<open>(attr_len + 3) & !3\<close>.\<close>

definition padded_len :: "nat \<Rightarrow> nat" where
  "padded_len n = (n + 3) - (n + 3) mod 4"

text \<open>The loop of both parsers, over what is left of the data.\<close>

function parse_attributes :: "(string \<Rightarrow> p2p_error) \<Rightarrow> (u16 \<Rightarrow> bytes \<Rightarrow> p2p_error + 'a) \<Rightarrow> bytes \<Rightarrow> p2p_error + 'a list" where
  "parse_attributes err dec data =
     (if length data < 4 then Ok []
      else
        (let attr_type = u16_from_be data; attr_len = unat (u16_from_be (drop 2 data)); rest = drop 4 data in
         if attr_len > length rest
         then Err (err (''attribute 0x'' @ hex_width 4 (unat attr_type) @ '' truncated: needs '' @ nat_to_string attr_len
                @ '' bytes, '' @ nat_to_string (length rest) @ '' available''))
         else
           result_bind (dec attr_type (take attr_len rest)) (\<lambda>attr.
           result_bind (parse_attributes err dec (drop (padded_len attr_len) rest)) (\<lambda>attrs. Ok (attr # attrs)))))"
  by pat_completeness auto
termination
  by (relation "measure (\<lambda>(_, _, data). length data)") auto

declare parse_attributes.simps [simp del]

lemma padded_len_split: "padded_len n = n + (4 - n mod 4) mod 4"
proof -
  obtain q k where n: "n = 4 * q + k" "k < 4" by (metis div_mult_mod_eq mod_less_divisor mult.commute zero_less_numeral)
  then have "k \<in> {0, 1, 2, 3}" by auto
  then show ?thesis by (auto simp: padded_len_def n(1) mod_mult_self4)
qed

lemma padded_len_mono: "m \<le> n \<Longrightarrow> padded_len m \<le> padded_len n"
  by (simp add: padded_len_def minus_mod_eq_div_mult div_le_mono)

lemma tlv_length: "length (encode_tlv (t, v)) = 4 + padded_len (length v)"
  by (simp add: encode_tlv_def pad_to_4_def padded_len_split)

lemma parse_encoded_tlv:
  assumes "length v < 2 ^ 16" "dec t v = Ok a" "parse_attributes err dec r = Ok as"
  shows "parse_attributes err dec (encode_tlv (t, v) @ r) = Ok (a # as)"
proof -
  define D where "D = encode_tlv (t, v) @ r"
  have d: "D = u16_to_be t @ u16_to_be (word_of_nat (length v)) @ v @ pad_to_4 (length v) @ r" by (simp add: D_def encode_tlv_def)
  have "u16_from_be D = t" "\<not> length D < 4" by (simp_all add: d)
  moreover have "unat (u16_from_be (drop 2 D)) = length v" using assms(1) by (simp add: d unsigned_of_nat take_bit_nat_eq_self)
  moreover have "take (length v) (drop 4 D) = v" "\<not> length v > length (drop 4 D)" by (simp_all add: d)
  moreover have "drop (padded_len (length v)) (drop 4 D) = r" using tlv_length [of t v] by (simp add: D_def)
  ultimately have "parse_attributes err dec D = Ok (a # as)"
    using assms(2,3) by (subst parse_attributes.simps) (simp only: Let_def if_False result_bind_simps)
  then show ?thesis by (simp add: D_def)
qed

lemma parse_encoded_attributes:
  "list_all2 (\<lambda>(t, v) a. length v < 2 ^ 16 \<and> dec t v = Ok a) tvs as \<Longrightarrow>
    parse_attributes err dec (concat (map encode_tlv tvs)) = Ok as"
proof (induction rule: list_all2_induct)
  case Nil
  then show ?case by (simp add: parse_attributes.simps)
next
  case (Cons tv tvs a as)
  then show ?case using parse_encoded_tlv by (cases tv) auto
qed

locale attribute_format =
  fixes enc :: "'a \<Rightarrow> u16 \<times> bytes" and dec :: "u16 \<Rightarrow> bytes \<Rightarrow> p2p_error + 'a" and ok :: "'a \<Rightarrow> bool"
  assumes dec_enc: "ok a \<Longrightarrow> enc a = (t, v) \<Longrightarrow> dec t v = Ok a"
    and enc_short: "ok a \<Longrightarrow> enc a = (t, v) \<Longrightarrow> length v < 2 ^ 16"
begin

lemma attributes_read_back:
  assumes "list_all ok as"
  shows "parse_attributes err dec (concat (map encode_tlv (map enc as))) = Ok as"
proof (rule parse_encoded_attributes)
  show "list_all2 (\<lambda>(t, v) a. length v < 2 ^ 16 \<and> dec t v = Ok a) (map enc as) as"
    using assms dec_enc enc_short
    by (auto simp: list_all2_conv_all_nth list_all_length split: prod.splits)
qed

end

section \<open>STUN messages\<close>

definition BINDING_REQUEST :: u16 where "BINDING_REQUEST = 0x0001"
definition BINDING_RESPONSE :: u16 where "BINDING_RESPONSE = 0x0101"
definition BINDING_ERROR_RESPONSE :: u16 where "BINDING_ERROR_RESPONSE = 0x0111"
definition ATTR_MAPPED_ADDRESS :: u16 where "ATTR_MAPPED_ADDRESS = 0x0001"
definition ATTR_XOR_MAPPED_ADDRESS :: u16 where "ATTR_XOR_MAPPED_ADDRESS = 0x0020"

lemmas stun_constants = BINDING_REQUEST_def BINDING_RESPONSE_def BINDING_ERROR_RESPONSE_def ATTR_MAPPED_ADDRESS_def
  ATTR_XOR_MAPPED_ADDRESS_def

datatype stun_attribute = XorMappedAddress socket_addr | MappedAddress socket_addr | UnknownAttribute u16 bytes

record stun_message =
  sm_type :: u16
  sm_tid :: bytes
  sm_attributes :: "stun_attribute list"

fun stun_value :: "bytes \<Rightarrow> stun_attribute \<Rightarrow> u16 \<times> bytes" where
  "stun_value tid (XorMappedAddress a) = (ATTR_XOR_MAPPED_ADDRESS, encode_xor_address tid a)"
| "stun_value tid (MappedAddress a) = (ATTR_MAPPED_ADDRESS, encode_mapped_address a)"
| "stun_value tid (UnknownAttribute t v) = (t, v)"

definition stun_attribute_parse :: "bytes \<Rightarrow> u16 \<Rightarrow> bytes \<Rightarrow> p2p_error + stun_attribute" where
  "stun_attribute_parse tid t v =
     (if t = ATTR_XOR_MAPPED_ADDRESS then result_bind (parse_xor_mapped_address tid v) (\<lambda>a. Ok (XorMappedAddress a))
      else if t = ATTR_MAPPED_ADDRESS then result_bind (parse_mapped_address v) (\<lambda>a. Ok (MappedAddress a))
      else Ok (UnknownAttribute t v))"

definition stun_header :: "u16 \<Rightarrow> nat \<Rightarrow> bytes \<Rightarrow> bytes" where
  "stun_header msg_type msg_len tid = u16_to_be msg_type @ u16_to_be (word_of_nat msg_len) @ u32_to_be MAGIC_COOKIE @ tid"

definition binding_request :: "bytes \<Rightarrow> stun_message" where
  "binding_request tid = \<lparr>sm_type = BINDING_REQUEST, sm_tid = tid, sm_attributes = []\<rparr>"

definition stun_encode_attributes :: "stun_message \<Rightarrow> bytes" where
  "stun_encode_attributes m = concat (map encode_tlv (map (stun_value (sm_tid m)) (sm_attributes m)))"

definition stun_to_bytes :: "stun_message \<Rightarrow> bytes" where
  "stun_to_bytes m =
     (let attrs_bytes = stun_encode_attributes m in stun_header (sm_type m) (length attrs_bytes) (sm_tid m) @ attrs_bytes)"

definition stun_from_bytes :: "bytes \<Rightarrow> p2p_error + stun_message" where
  "stun_from_bytes data =
     (if length data < HEADER_SIZE
      then Err (StunErr (''message too short: '' @ nat_to_string (length data) @ '' bytes (minimum '' @ nat_to_string HEADER_SIZE @ '')''))
      else
        (let msg_type = u16_from_be data; msg_len = unat (u16_from_be (drop 2 data)); cookie = u32_from_be (drop 4 data) in
         if cookie \<noteq> MAGIC_COOKIE
         then Err (StunErr (''invalid magic cookie: 0x'' @ hex_width 8 (unat cookie) @ '' (expected 0x'' @ hex_width 8 (unat MAGIC_COOKIE) @ '')''))
         else if msg_type AND 0xC000 \<noteq> 0
         then Err (StunErr (''invalid message type: 0x'' @ hex_width 4 (unat msg_type) @ '' (top two bits must be zero)''))
         else
           (let tid = take 12 (drop 8 data) in
            if length data < HEADER_SIZE + msg_len
            then Err (StunErr (''message truncated: header says '' @ nat_to_string msg_len @ '' attribute bytes but only ''
                   @ nat_to_string (length data - HEADER_SIZE) @ '' available''))
            else
              result_bind (parse_attributes StunErr (stun_attribute_parse tid) (take msg_len (drop HEADER_SIZE data)))
                (\<lambda>attributes. Ok \<lparr>sm_type = msg_type, sm_tid = tid, sm_attributes = attributes\<rparr>))))"

definition is_binding_response :: "stun_message \<Rightarrow> bool" where "is_binding_response m \<longleftrightarrow> sm_type m = BINDING_RESPONSE"
definition is_binding_error :: "stun_message \<Rightarrow> bool" where "is_binding_error m \<longleftrightarrow> sm_type m = BINDING_ERROR_RESPONSE"

text \<open>The first attribute of a given form.\<close>

fun first_attr :: "('a \<Rightarrow> 'b option) \<Rightarrow> 'a list \<Rightarrow> 'b option" where
  "first_attr f [] = None"
| "first_attr f (a # as) = (case f a of Some b \<Rightarrow> Some b | None \<Rightarrow> first_attr f as)"

definition stun_mapped_address :: "stun_message \<Rightarrow> socket_addr option" where
  "stun_mapped_address m =
     (case first_attr (\<lambda>a. case a of XorMappedAddress x \<Rightarrow> Some x | _ \<Rightarrow> None) (sm_attributes m) of
        Some x \<Rightarrow> Some x
      | None \<Rightarrow> first_attr (\<lambda>a. case a of MappedAddress x \<Rightarrow> Some x | _ \<Rightarrow> None) (sm_attributes m))"

text \<open>What a message of this program satisfies: fields of their size, and types of their own for unknown attributes.\<close>

fun stun_attribute_ok :: "bytes \<Rightarrow> stun_attribute \<Rightarrow> bool" where
  "stun_attribute_ok tid (XorMappedAddress a) \<longleftrightarrow> length tid = 12 \<and> address_wf a"
| "stun_attribute_ok tid (MappedAddress a) \<longleftrightarrow> address_wf a"
| "stun_attribute_ok tid (UnknownAttribute t v) \<longleftrightarrow> t \<notin> {ATTR_XOR_MAPPED_ADDRESS, ATTR_MAPPED_ADDRESS} \<and> length v < 2 ^ 16"

definition stun_ok :: "stun_message \<Rightarrow> bool" where
  "stun_ok m \<longleftrightarrow> sm_type m AND 0xC000 = 0 \<and> length (sm_tid m) = TRANSACTION_ID_SIZE \<and>
     list_all (stun_attribute_ok (sm_tid m)) (sm_attributes m) \<and> length (stun_encode_attributes m) < 2 ^ 16"

interpretation stun_attr: attribute_format "stun_value tid" "stun_attribute_parse tid" "stun_attribute_ok tid" for tid
proof
  show "stun_attribute_parse tid t v = Ok a" if "stun_attribute_ok tid a" "stun_value tid a = (t, v)" for a t v
    using that by (cases a) (auto simp: stun_attribute_parse_def parse_xor_mapped_address_def parse_encode_xor parse_encode_mapped stun_constants)
  show "length v < 2 ^ 16" if "stun_attribute_ok tid a" "stun_value tid a = (t, v)" for a t v
    using that encode_xor_address_length [of tid] parse_encode_mapped(2) by (cases a) fastforce+
qed

text \<open>Reading a message whose header is the one that is written.\<close>

lemma stun_from_header:
  assumes "length tid = 12" "t AND 0xC000 = 0" "length attrs < 2 ^ 16" "parse_attributes StunErr (stun_attribute_parse tid) attrs = Ok as"
  shows "stun_from_bytes (stun_header t (length attrs) tid @ attrs) = Ok \<lparr>sm_type = t, sm_tid = tid, sm_attributes = as\<rparr>"
proof -
  define D where "D = stun_header t (length attrs) tid @ attrs"
  have "length D = 20 + length attrs" using assms(1) by (simp add: D_def stun_header_def)
  moreover have "u16_from_be D = t" "unat (u16_from_be (drop 2 D)) = length attrs" "u32_from_be (drop 4 D) = MAGIC_COOKIE"
    using assms(3) by (simp_all add: D_def stun_header_def unsigned_of_nat take_bit_nat_eq_self)
  moreover have "take 12 (drop 8 D) = tid" "drop 20 D = attrs" using assms(1) by (simp_all add: D_def stun_header_def)
  ultimately show ?thesis using assms(2,4) unfolding D_def [symmetric] by (simp add: stun_from_bytes_def HEADER_SIZE_def Let_def)
qed

text \<open>A STUN message is read back as it was written.\<close>

lemma stun_roundtrip:
  assumes "stun_ok m"
  shows "stun_from_bytes (stun_to_bytes m) = Ok m"
  using assms stun_from_header [of "sm_tid m" "sm_type m" "stun_encode_attributes m" "sm_attributes m"]
    stun_attr.attributes_read_back [of "sm_tid m" "sm_attributes m" StunErr]
  by (simp add: stun_ok_def stun_to_bytes_def stun_encode_attributes_def TRANSACTION_ID_SIZE_def Let_def)

section \<open>TURN messages\<close>

definition ALLOCATE_REQUEST :: u16 where "ALLOCATE_REQUEST = 0x0003"
definition ALLOCATE_RESPONSE :: u16 where "ALLOCATE_RESPONSE = 0x0103"
definition ALLOCATE_ERROR_RESPONSE :: u16 where "ALLOCATE_ERROR_RESPONSE = 0x0113"
definition REFRESH_REQUEST :: u16 where "REFRESH_REQUEST = 0x0004"
definition REFRESH_RESPONSE :: u16 where "REFRESH_RESPONSE = 0x0104"
definition CREATE_PERMISSION_REQUEST :: u16 where "CREATE_PERMISSION_REQUEST = 0x0008"
definition CREATE_PERMISSION_RESPONSE :: u16 where "CREATE_PERMISSION_RESPONSE = 0x0108"
definition CREATE_PERMISSION_ERROR_RESPONSE :: u16 where "CREATE_PERMISSION_ERROR_RESPONSE = 0x0118"
definition CHANNEL_BIND_REQUEST :: u16 where "CHANNEL_BIND_REQUEST = 0x0009"
definition CHANNEL_BIND_RESPONSE :: u16 where "CHANNEL_BIND_RESPONSE = 0x0109"
definition CHANNEL_BIND_ERROR_RESPONSE :: u16 where "CHANNEL_BIND_ERROR_RESPONSE = 0x0119"
definition SEND_INDICATION :: u16 where "SEND_INDICATION = 0x0016"
definition DATA_INDICATION :: u16 where "DATA_INDICATION = 0x0017"
definition ATTR_CHANNEL_NUMBER :: u16 where "ATTR_CHANNEL_NUMBER = 0x000C"
definition ATTR_LIFETIME :: u16 where "ATTR_LIFETIME = 0x000D"
definition ATTR_XOR_PEER_ADDRESS :: u16 where "ATTR_XOR_PEER_ADDRESS = 0x0012"
definition ATTR_DATA :: u16 where "ATTR_DATA = 0x0013"
definition ATTR_XOR_RELAYED_ADDRESS :: u16 where "ATTR_XOR_RELAYED_ADDRESS = 0x0016"
definition ATTR_REQUESTED_TRANSPORT :: u16 where "ATTR_REQUESTED_TRANSPORT = 0x0019"
definition ATTR_USERNAME :: u16 where "ATTR_USERNAME = 0x0006"
definition ATTR_REALM :: u16 where "ATTR_REALM = 0x0014"
definition ATTR_NONCE :: u16 where "ATTR_NONCE = 0x0015"
definition ATTR_MESSAGE_INTEGRITY :: u16 where "ATTR_MESSAGE_INTEGRITY = 0x0008"
definition ATTR_ERROR_CODE :: u16 where "ATTR_ERROR_CODE = 0x0009"
definition TRANSPORT_UDP :: "8 word" where "TRANSPORT_UDP = 17"
definition HMAC_SHA1_LEN :: nat where "HMAC_SHA1_LEN = 20"

lemmas turn_types = ALLOCATE_REQUEST_def ALLOCATE_RESPONSE_def ALLOCATE_ERROR_RESPONSE_def REFRESH_REQUEST_def REFRESH_RESPONSE_def
  CREATE_PERMISSION_REQUEST_def CREATE_PERMISSION_RESPONSE_def CREATE_PERMISSION_ERROR_RESPONSE_def CHANNEL_BIND_REQUEST_def
  CHANNEL_BIND_RESPONSE_def CHANNEL_BIND_ERROR_RESPONSE_def SEND_INDICATION_def DATA_INDICATION_def

lemmas turn_attribute_types = ATTR_CHANNEL_NUMBER_def ATTR_LIFETIME_def ATTR_XOR_PEER_ADDRESS_def ATTR_DATA_def
  ATTR_XOR_RELAYED_ADDRESS_def ATTR_REQUESTED_TRANSPORT_def ATTR_USERNAME_def ATTR_REALM_def ATTR_NONCE_def
  ATTR_MESSAGE_INTEGRITY_def ATTR_ERROR_CODE_def ATTR_XOR_MAPPED_ADDRESS_def ATTR_MAPPED_ADDRESS_def

datatype turn_attribute =
    Username string
  | Realm string
  | Nonce string
  | MessageIntegrity bytes
  | Lifetime u32
  | TurnRelayedAddress socket_addr
  | TurnMappedAddress socket_addr
  | TurnPeerAddress socket_addr
  | RequestedTransport "8 word"
  | ChannelNumber u16
  | TurnData bytes
  | ErrorCode u16 string
  | TurnUnknown u16 bytes

record turn_message =
  tm_type :: u16
  tm_tid :: bytes
  tm_attributes :: "turn_attribute list"

record turn_credentials =
  tc_username :: string
  tc_password :: string
  tc_realm :: string
  tc_nonce :: string

fun turn_value :: "bytes \<Rightarrow> turn_attribute \<Rightarrow> u16 \<times> bytes" where
  "turn_value tid (Username u) = (ATTR_USERNAME, ascii u)"
| "turn_value tid (Realm r) = (ATTR_REALM, ascii r)"
| "turn_value tid (Nonce n) = (ATTR_NONCE, ascii n)"
| "turn_value tid (MessageIntegrity hmac_val) = (ATTR_MESSAGE_INTEGRITY, hmac_val)"
| "turn_value tid (Lifetime lt) = (ATTR_LIFETIME, u32_to_be lt)"
| "turn_value tid (TurnRelayedAddress a) = (ATTR_XOR_RELAYED_ADDRESS, encode_xor_address tid a)"
| "turn_value tid (TurnMappedAddress a) = (ATTR_XOR_MAPPED_ADDRESS, encode_xor_address tid a)"
| "turn_value tid (TurnPeerAddress a) = (ATTR_XOR_PEER_ADDRESS, encode_xor_address tid a)"
| "turn_value tid (RequestedTransport proto) = (ATTR_REQUESTED_TRANSPORT, [proto, 0, 0, 0])"
| "turn_value tid (ChannelNumber ch) = (ATTR_CHANNEL_NUMBER, u16_to_be ch @ [0, 0])"
| "turn_value tid (TurnData d) = (ATTR_DATA, d)"
| "turn_value tid (ErrorCode code reason) = (ATTR_ERROR_CODE, [0, 0, ucast (code div 100), ucast (code mod 100)] @ ascii reason)"
| "turn_value tid (TurnUnknown t v) = (t, v)"

definition turn_attribute_parse :: "bytes \<Rightarrow> u16 \<Rightarrow> bytes \<Rightarrow> p2p_error + turn_attribute" where
  "turn_attribute_parse tid t v =
     (if t = ATTR_USERNAME then Ok (Username (from_utf8_lossy (to_chars v)))
      else if t = ATTR_REALM then Ok (Realm (from_utf8_lossy (to_chars v)))
      else if t = ATTR_NONCE then Ok (Nonce (from_utf8_lossy (to_chars v)))
      else if t = ATTR_MESSAGE_INTEGRITY then
        if length v \<noteq> HMAC_SHA1_LEN
        then Err (TurnErr (''MESSAGE-INTEGRITY wrong size: '' @ nat_to_string (length v) @ '' (expected '' @ nat_to_string HMAC_SHA1_LEN @ '')''))
        else Ok (MessageIntegrity v)
      else if t = ATTR_LIFETIME then
        if length v < 4 then Err (TurnErr ''LIFETIME too short'') else Ok (Lifetime (u32_from_be v))
      else if t = ATTR_XOR_RELAYED_ADDRESS then result_bind (parse_xor_address tid v) (\<lambda>a. Ok (TurnRelayedAddress a))
      else if t = ATTR_XOR_MAPPED_ADDRESS then result_bind (parse_xor_address tid v) (\<lambda>a. Ok (TurnMappedAddress a))
      else if t = ATTR_XOR_PEER_ADDRESS then result_bind (parse_xor_address tid v) (\<lambda>a. Ok (TurnPeerAddress a))
      else if t = ATTR_REQUESTED_TRANSPORT then
        if v = [] then Err (TurnErr ''REQUESTED-TRANSPORT empty'') else Ok (RequestedTransport (v ! 0))
      else if t = ATTR_CHANNEL_NUMBER then
        if length v < 4 then Err (TurnErr ''CHANNEL-NUMBER too short'') else Ok (ChannelNumber (u16_from_be v))
      else if t = ATTR_DATA then Ok (TurnData v)
      else if t = ATTR_ERROR_CODE then
        if length v < 4 then Err (TurnErr ''ERROR-CODE too short'')
        else Ok (ErrorCode (ucast (v ! 2) * 100 + ucast (v ! 3)) (if length v > 4 then from_utf8_lossy (to_chars (drop 4 v)) else []))
      else Ok (TurnUnknown t v))"

definition turn_encode_attributes :: "turn_message \<Rightarrow> bytes" where
  "turn_encode_attributes m = concat (map encode_tlv (map (turn_value (tm_tid m)) (tm_attributes m)))"

definition turn_to_bytes :: "(bytes \<Rightarrow> bytes \<Rightarrow> bytes) \<Rightarrow> turn_message \<Rightarrow> bytes option \<Rightarrow> bytes" where
  "turn_to_bytes hmac m integrity_key =
     (let attrs_bytes = turn_encode_attributes m;
          mi_bytes = (case integrity_key of
             None \<Rightarrow> []
           | Some key \<Rightarrow>
               u16_to_be ATTR_MESSAGE_INTEGRITY @ u16_to_be (word_of_nat HMAC_SHA1_LEN)
                 @ hmac key (stun_header (tm_type m) (length attrs_bytes + (4 + HMAC_SHA1_LEN)) (tm_tid m) @ attrs_bytes)) in
      stun_header (tm_type m) (length attrs_bytes + length mi_bytes) (tm_tid m) @ attrs_bytes @ mi_bytes)"

definition turn_from_bytes :: "bytes \<Rightarrow> p2p_error + turn_message" where
  "turn_from_bytes data =
     result_bind (stun_from_bytes data) (\<lambda>stun_msg.
       let attr_data = take (min (length data - HEADER_SIZE) (unat (u16_from_be (drop 2 data)))) (drop HEADER_SIZE data) in
     result_bind (parse_attributes TurnErr (turn_attribute_parse (sm_tid stun_msg)) attr_data) (\<lambda>attributes.
       Ok \<lparr>tm_type = sm_type stun_msg, tm_tid = sm_tid stun_msg, tm_attributes = attributes\<rparr>))"

fun turn_attribute_ok :: "bytes \<Rightarrow> turn_attribute \<Rightarrow> bool" where
  "turn_attribute_ok tid (Username u) \<longleftrightarrow> valid_utf8 u \<and> length u < 2 ^ 16"
| "turn_attribute_ok tid (Realm r) \<longleftrightarrow> valid_utf8 r \<and> length r < 2 ^ 16"
| "turn_attribute_ok tid (Nonce n) \<longleftrightarrow> valid_utf8 n \<and> length n < 2 ^ 16"
| "turn_attribute_ok tid (MessageIntegrity h) \<longleftrightarrow> length h = HMAC_SHA1_LEN"
| "turn_attribute_ok tid (Lifetime lt) \<longleftrightarrow> True"
| "turn_attribute_ok tid (TurnRelayedAddress a) \<longleftrightarrow> length tid = 12 \<and> address_wf a"
| "turn_attribute_ok tid (TurnMappedAddress a) \<longleftrightarrow> length tid = 12 \<and> address_wf a"
| "turn_attribute_ok tid (TurnPeerAddress a) \<longleftrightarrow> length tid = 12 \<and> address_wf a"
| "turn_attribute_ok tid (RequestedTransport proto) \<longleftrightarrow> True"
| "turn_attribute_ok tid (ChannelNumber ch) \<longleftrightarrow> True"
| "turn_attribute_ok tid (TurnData d) \<longleftrightarrow> length d < 2 ^ 16"
| "turn_attribute_ok tid (ErrorCode code reason) \<longleftrightarrow> unat code < 25600 \<and> valid_utf8 reason \<and> length reason < 2 ^ 16 - 4"
| "turn_attribute_ok tid (TurnUnknown t v) \<longleftrightarrow>
     t \<notin> {ATTR_USERNAME, ATTR_REALM, ATTR_NONCE, ATTR_MESSAGE_INTEGRITY, ATTR_LIFETIME, ATTR_XOR_RELAYED_ADDRESS,
       ATTR_XOR_MAPPED_ADDRESS, ATTR_XOR_PEER_ADDRESS, ATTR_REQUESTED_TRANSPORT, ATTR_CHANNEL_NUMBER, ATTR_DATA, ATTR_ERROR_CODE,
       ATTR_MAPPED_ADDRESS} \<and> length v < 2 ^ 16"

lemma error_code_back:
  fixes code :: u16
  assumes "unat code < 25600"
  shows "ucast (ucast (code div 100) :: 8 word) * 100 + ucast (ucast (code mod 100) :: 8 word) = code"
proof -
  have "ucast (ucast x :: 8 word) = x" if "unat x < 256" for x :: u16
    using that by (simp add: word_unat_eq_iff unsigned_ucast_eq unsigned_take_bit_eq take_bit_nat_eq_self)
  then have "ucast (ucast (code div 100) :: 8 word) = code div 100" "ucast (ucast (code mod 100) :: 8 word) = code mod 100"
    using assms by (simp_all add: unat_div unat_mod)
  then show ?thesis by (simp add: div_mult_mod_eq)
qed

lemma turn_value_parses:
  assumes "turn_attribute_ok tid a" "turn_value tid a = (t, v)"
  shows "turn_attribute_parse tid t v = Ok a"
proof (cases a)
  case (ErrorCode code reason)
  then show ?thesis
    using assms error_code_back [of code]
    by (cases reason) (auto simp: turn_attribute_parse_def turn_attribute_types from_utf8_lossy_valid ascii_def [of "[]"])
next
  case (TurnUnknown t v)
  then show ?thesis using assms by (auto simp: turn_attribute_parse_def)
qed (use assms in \<open>auto simp: turn_attribute_parse_def turn_attribute_types from_utf8_lossy_valid parse_xor_address_def parse_encode_xor HMAC_SHA1_LEN_def\<close>)

lemma turn_value_short:
  assumes "turn_attribute_ok tid a" "turn_value tid a = (t, v)"
  shows "length v < 2 ^ 16"
  using assms encode_xor_address_length [of tid] by (cases a) (fastforce simp: HMAC_SHA1_LEN_def)+

interpretation turn_attr: attribute_format "turn_value tid" "turn_attribute_parse tid" "turn_attribute_ok tid" for tid
  by unfold_locales (auto intro: turn_value_parses dest: turn_value_short)

text \<open>The header of a TURN message is read by the STUN parser, which has to accept its attributes.\<close>

lemma turn_value_stun:
  assumes "turn_attribute_ok tid a" "turn_value tid a = (t, v)"
  shows "\<exists>b. stun_attribute_parse tid t v = Ok b"
proof (cases a)
  case (TurnUnknown t v)
  then show ?thesis using assms by (auto simp: stun_attribute_parse_def)
qed (use assms in \<open>auto simp: stun_attribute_parse_def turn_attribute_types parse_xor_mapped_address_def parse_encode_xor\<close>)

lemma turn_attributes_stun:
  assumes "list_all (turn_attribute_ok tid) as"
  shows "\<exists>bs. parse_attributes StunErr (stun_attribute_parse tid) (concat (map encode_tlv (map (turn_value tid) as))) = Ok bs"
proof -
  have "\<exists>bs. list_all2 (\<lambda>(t, v) b. length v < 2 ^ 16 \<and> stun_attribute_parse tid t v = Ok b) (map (turn_value tid) as) bs"
    using assms
  proof (induction as)
    case (Cons a as)
    then obtain bs where "list_all2 (\<lambda>(t, v) b. length v < 2 ^ 16 \<and> stun_attribute_parse tid t v = Ok b) (map (turn_value tid) as) bs" by auto
    moreover obtain t v where "turn_value tid a = (t, v)" by fastforce
    moreover then obtain b where "stun_attribute_parse tid t v = Ok b" "length v < 2 ^ 16"
      using turn_value_stun turn_value_short Cons.prems by fastforce
    ultimately show ?case by (intro exI [of _ "b # bs"]) simp
  qed auto
  then show ?thesis using parse_encoded_attributes by blast
qed

definition turn_ok :: "turn_message \<Rightarrow> bool" where
  "turn_ok m \<longleftrightarrow> tm_type m AND 0xC000 = 0 \<and> length (tm_tid m) = TRANSACTION_ID_SIZE \<and>
     list_all (turn_attribute_ok (tm_tid m)) (tm_attributes m) \<and> length (turn_encode_attributes m) + 24 < 2 ^ 16"

lemma turn_from_attributes:
  assumes "length tid = 12" "t AND 0xC000 = 0" "list_all (turn_attribute_ok tid) as"
    "attrs = concat (map encode_tlv (map (turn_value tid) as))" "length attrs < 2 ^ 16"
  shows "turn_from_bytes (stun_header t (length attrs) tid @ attrs) = Ok \<lparr>tm_type = t, tm_tid = tid, tm_attributes = as\<rparr>"
proof -
  define D where "D = stun_header t (length attrs) tid @ attrs"
  obtain bs where "stun_from_bytes D = Ok \<lparr>sm_type = t, sm_tid = tid, sm_attributes = bs\<rparr>"
    using turn_attributes_stun [OF assms(3)] stun_from_header [OF assms(1,2,5)] assms(4) unfolding D_def by blast
  moreover have "length D - 20 = length attrs" "unat (u16_from_be (drop 2 D)) = length attrs" "drop 20 D = attrs"
    using assms(1,5) by (simp_all add: D_def stun_header_def unsigned_of_nat take_bit_nat_eq_self)
  moreover have "parse_attributes TurnErr (turn_attribute_parse tid) attrs = Ok as"
    using turn_attr.attributes_read_back [OF assms(3)] assms(4) by simp
  ultimately show ?thesis unfolding D_def [symmetric] by (simp add: turn_from_bytes_def HEADER_SIZE_def Let_def)
qed

lemma integrity_tlv:
  assumes "length h = HMAC_SHA1_LEN"
  shows "u16_to_be ATTR_MESSAGE_INTEGRITY @ u16_to_be (word_of_nat HMAC_SHA1_LEN) @ h = encode_tlv (turn_value tid (MessageIntegrity h))"
  using assms by (simp add: encode_tlv_def pad_to_4_def HMAC_SHA1_LEN_def)

lemma turn_read_back:
  assumes "turn_ok m"
  shows "turn_from_bytes (turn_to_bytes hmac m None) = Ok m"
  using turn_from_attributes [of "tm_tid m" "tm_type m" "tm_attributes m" "turn_encode_attributes m"] assms
  by (simp add: turn_ok_def TRANSACTION_ID_SIZE_def turn_to_bytes_def turn_encode_attributes_def Let_def)

text \<open>The bytes of a message with a key: what is hashed, and the attribute with the hash.\<close>

lemma turn_signed_parts:
  assumes "length h = HMAC_SHA1_LEN" "hashed = stun_header (tm_type m) (length (turn_encode_attributes m) + 24) (tm_tid m) @ turn_encode_attributes m"
    "h = hmac key hashed"
  shows "turn_to_bytes hmac m (Some key) = hashed @ encode_tlv (turn_value (tm_tid m) (MessageIntegrity h))"
    "length (encode_tlv (turn_value (tm_tid m) (MessageIntegrity h))) = 24"
  using assms integrity_tlv [of h "tm_tid m"]
  by (simp_all add: turn_to_bytes_def Let_def HMAC_SHA1_LEN_def tlv_length padded_len_def add.commute)

text \<open>
  C21. A TURN message is read back as it was written. If it is written with a key, it comes back with
  one attribute more, which holds the keyed hash of everything before that attribute in the bytes
  that were sent, so that a server that recomputes the hash over what it received accepts it.
\<close>

theorem turn_roundtrip:
  assumes "turn_ok m" "\<And>k d. length (hmac k d) = HMAC_SHA1_LEN"
  shows "turn_from_bytes (turn_to_bytes hmac m None) = Ok m \<and>
    (let sent = turn_to_bytes hmac m (Some key) in
     turn_from_bytes sent = Ok (m\<lparr>tm_attributes := tm_attributes m @ [MessageIntegrity (hmac key (take (length sent - 24) sent))]\<rparr>))"
proof -
  let ?a = "turn_encode_attributes m"
  define hashed where "hashed = stun_header (tm_type m) (length ?a + 24) (tm_tid m) @ ?a"
  define h where "h = hmac key hashed"
  define as where "as = tm_attributes m @ [MessageIntegrity h]"
  have h: "length h = HMAC_SHA1_LEN" using assms(2) by (simp add: h_def)
  note sent = turn_signed_parts [of h hashed m hmac key, OF h hashed_def h_def]
  have attrs: "concat (map encode_tlv (map (turn_value (tm_tid m)) as)) = ?a @ encode_tlv (turn_value (tm_tid m) (MessageIntegrity h))"
    by (simp add: as_def turn_encode_attributes_def)
  have "turn_from_bytes (turn_to_bytes hmac m (Some key)) = Ok \<lparr>tm_type = tm_type m, tm_tid = tm_tid m, tm_attributes = as\<rparr>"
    using turn_from_attributes [of "tm_tid m" "tm_type m" as, OF _ _ _ refl] assms(1) h sent(2)
    unfolding sent(1) attrs by (simp add: as_def hashed_def turn_ok_def TRANSACTION_ID_SIZE_def)
  moreover have "take (length (turn_to_bytes hmac m (Some key)) - 24) (turn_to_bytes hmac m (Some key)) = hashed"
    using sent by simp
  ultimately show ?thesis using turn_read_back [OF assms(1)] by (simp add: Let_def as_def h_def)
qed

section \<open>Requests\<close>

definition allocate_request :: "bytes \<Rightarrow> turn_message" where
  "allocate_request tid = \<lparr>tm_type = ALLOCATE_REQUEST, tm_tid = tid, tm_attributes = [RequestedTransport TRANSPORT_UDP]\<rparr>"

definition credential_attributes :: "turn_credentials \<Rightarrow> turn_attribute list" where
  "credential_attributes creds = [Username (tc_username creds), Realm (tc_realm creds), Nonce (tc_nonce creds)]"

definition allocate_request_with_credentials :: "bytes \<Rightarrow> turn_credentials \<Rightarrow> turn_message" where
  "allocate_request_with_credentials tid creds =
     \<lparr>tm_type = ALLOCATE_REQUEST, tm_tid = tid, tm_attributes = RequestedTransport TRANSPORT_UDP # credential_attributes creds\<rparr>"

definition create_permission_request :: "bytes \<Rightarrow> socket_addr \<Rightarrow> turn_credentials \<Rightarrow> turn_message" where
  "create_permission_request tid peer creds =
     \<lparr>tm_type = CREATE_PERMISSION_REQUEST, tm_tid = tid, tm_attributes = TurnPeerAddress peer # credential_attributes creds\<rparr>"

definition channel_bind_request :: "bytes \<Rightarrow> u16 \<Rightarrow> socket_addr \<Rightarrow> turn_credentials \<Rightarrow> turn_message" where
  "channel_bind_request tid channel peer creds =
     \<lparr>tm_type = CHANNEL_BIND_REQUEST, tm_tid = tid,
      tm_attributes = ChannelNumber channel # TurnPeerAddress peer # credential_attributes creds\<rparr>"

definition refresh_request :: "bytes \<Rightarrow> u32 \<Rightarrow> turn_credentials \<Rightarrow> turn_message" where
  "refresh_request tid lifetime creds =
     \<lparr>tm_type = REFRESH_REQUEST, tm_tid = tid, tm_attributes = Lifetime lifetime # credential_attributes creds\<rparr>"

definition send_indication :: "bytes \<Rightarrow> socket_addr \<Rightarrow> bytes \<Rightarrow> turn_message" where
  "send_indication tid peer data =
     \<lparr>tm_type = SEND_INDICATION, tm_tid = tid, tm_attributes = [TurnPeerAddress peer, TurnData data]\<rparr>"

section \<open>Fields of a message\<close>

definition relayed_address :: "turn_message \<Rightarrow> socket_addr option" where
  "relayed_address m = first_attr (\<lambda>a. case a of TurnRelayedAddress x \<Rightarrow> Some x | _ \<Rightarrow> None) (tm_attributes m)"

definition turn_mapped_address :: "turn_message \<Rightarrow> socket_addr option" where
  "turn_mapped_address m = first_attr (\<lambda>a. case a of TurnMappedAddress x \<Rightarrow> Some x | _ \<Rightarrow> None) (tm_attributes m)"

definition turn_lifetime :: "turn_message \<Rightarrow> u32 option" where
  "turn_lifetime m = first_attr (\<lambda>a. case a of Lifetime x \<Rightarrow> Some x | _ \<Rightarrow> None) (tm_attributes m)"

definition peer_address :: "turn_message \<Rightarrow> socket_addr option" where
  "peer_address m = first_attr (\<lambda>a. case a of TurnPeerAddress x \<Rightarrow> Some x | _ \<Rightarrow> None) (tm_attributes m)"

definition turn_data :: "turn_message \<Rightarrow> bytes option" where
  "turn_data m = first_attr (\<lambda>a. case a of TurnData x \<Rightarrow> Some x | _ \<Rightarrow> None) (tm_attributes m)"

definition turn_error_code :: "turn_message \<Rightarrow> (u16 \<times> string) option" where
  "turn_error_code m = first_attr (\<lambda>a. case a of ErrorCode c r \<Rightarrow> Some (c, r) | _ \<Rightarrow> None) (tm_attributes m)"

definition turn_realm :: "turn_message \<Rightarrow> string option" where
  "turn_realm m = first_attr (\<lambda>a. case a of Realm x \<Rightarrow> Some x | _ \<Rightarrow> None) (tm_attributes m)"

definition turn_nonce :: "turn_message \<Rightarrow> string option" where
  "turn_nonce m = first_attr (\<lambda>a. case a of Nonce x \<Rightarrow> Some x | _ \<Rightarrow> None) (tm_attributes m)"

definition turn_channel_number :: "turn_message \<Rightarrow> u16 option" where
  "turn_channel_number m = first_attr (\<lambda>a. case a of ChannelNumber x \<Rightarrow> Some x | _ \<Rightarrow> None) (tm_attributes m)"

text \<open>\<^verbatim>\<open>parse_data_indication\<close>.\<close>

definition parse_data_indication :: "bytes \<Rightarrow> p2p_error + socket_addr \<times> bytes" where
  "parse_data_indication data =
     result_bind (turn_from_bytes data) (\<lambda>msg.
       if tm_type msg \<noteq> DATA_INDICATION then Err (TurnErr (''not a Data Indication: 0x'' @ hex_width 4 (unat (tm_type msg))))
       else
         result_bind (ok_or (TurnErr ''Data Indication missing XOR-PEER-ADDRESS'') (peer_address msg)) (\<lambda>peer.
         result_bind (ok_or (TurnErr ''Data Indication missing DATA attribute'') (turn_data msg)) (\<lambda>payload.
           Ok (peer, payload))))"

section \<open>Channel data\<close>

definition encode_channel_data :: "u16 \<Rightarrow> bytes \<Rightarrow> bytes" where
  "encode_channel_data channel data =
     u16_to_be channel @ u16_to_be (word_of_nat (length data)) @ data @ replicate ((4 - length data mod 4) mod 4) 0"

definition decode_channel_data :: "bytes \<Rightarrow> p2p_error + u16 \<times> bytes" where
  "decode_channel_data data =
     (if length data < 4 then Err (TurnErr ''ChannelData too short'')
      else
        (let channel = u16_from_be data; len = unat (u16_from_be (drop 2 data)) in
         if length data < 4 + len
         then Err (TurnErr (''ChannelData truncated: header says '' @ nat_to_string len @ '' bytes, ''
                @ nat_to_string (length data - 4) @ '' available''))
         else Ok (channel, take len (drop 4 data))))"

lemma channel_data_roundtrip: "length data < 2 ^ 16 \<Longrightarrow> decode_channel_data (encode_channel_data channel data) = Ok (channel, data)"
  by (simp add: decode_channel_data_def encode_channel_data_def unsigned_of_nat take_bit_nat_eq_self Let_def)

section \<open>Frames\<close>

definition MAX_PAYLOAD_SIZE :: nat where "MAX_PAYLOAD_SIZE = 1200"
definition FRAME_HEADER_SIZE :: nat where "FRAME_HEADER_SIZE = 2"

definition encode_frame :: "bytes \<Rightarrow> p2p_error + bytes" where
  "encode_frame payload =
     (if payload = [] then Err (IceErr ''cannot send empty payload'')
      else if length payload > MAX_PAYLOAD_SIZE
      then Err (IceErr (''payload too large: '' @ nat_to_string (length payload) @ '' bytes (max '' @ nat_to_string MAX_PAYLOAD_SIZE @ '')''))
      else Ok (u16_to_be (word_of_nat (length payload)) @ payload))"

definition decode_frame :: "bytes \<Rightarrow> p2p_error + bytes" where
  "decode_frame data =
     (if length data < FRAME_HEADER_SIZE
      then Err (IceErr (''frame too short: '' @ nat_to_string (length data) @ '' bytes (minimum '' @ nat_to_string FRAME_HEADER_SIZE @ '')''))
      else
        (let len = unat (u16_from_be data) in
         if length data < FRAME_HEADER_SIZE + len
         then Err (IceErr (''frame truncated: header says '' @ nat_to_string len @ '' bytes, ''
                @ nat_to_string (length data - FRAME_HEADER_SIZE) @ '' available''))
         else if len = 0 then Err (IceErr ''frame with zero-length payload'')
         else Ok (take len (drop FRAME_HEADER_SIZE data))))"

text \<open>The direct transport: a datagram is cut to the size of the receiver's buffer.\<close>

definition udp_send :: "bytes \<Rightarrow> p2p_error + bytes" where "udp_send payload = encode_frame payload"

definition udp_recv :: "bytes \<Rightarrow> p2p_error + bytes" where
  "udp_recv datagram = decode_frame (take (FRAME_HEADER_SIZE + MAX_PAYLOAD_SIZE) datagram)"

lemma frame_roundtrip:
  assumes "encode_frame payload = Ok f"
  shows "udp_recv f = Ok payload" "length f \<le> 1202"
  using assms
  by (auto simp: encode_frame_def udp_recv_def decode_frame_def MAX_PAYLOAD_SIZE_def FRAME_HEADER_SIZE_def unsigned_of_nat
      take_bit_nat_eq_self Let_def split: if_splits)

section \<open>A concrete request\<close>

definition sample_request :: turn_message where
  "sample_request = allocate_request_with_credentials (replicate 12 5) \<lparr>tc_username = ''alice'', tc_password = ''pw'', tc_realm = ''pirc'', tc_nonce = ''n1''\<rparr>"

definition sample_hmac :: "bytes \<Rightarrow> bytes \<Rightarrow> bytes" where "sample_hmac key d = take 20 (key @ d @ replicate 20 0)"

lemma sample_request_ok: "turn_ok sample_request"
  by (simp add: sample_request_def turn_ok_def allocate_request_with_credentials_def credential_attributes_def TRANSACTION_ID_SIZE_def turn_types
      turn_encode_attributes_def tlv_length padded_len_def byte_in_def)

lemma sample_hmac_length: "length (sample_hmac k d) = HMAC_SHA1_LEN"
  by (simp add: sample_hmac_def HMAC_SHA1_LEN_def)

theorem turn_roundtrip_witness:
  "turn_from_bytes (turn_to_bytes sample_hmac sample_request None) = Ok sample_request \<and>
    (let sent = turn_to_bytes sample_hmac sample_request (Some [9]) in
     turn_from_bytes sent = Ok (sample_request\<lparr>tm_attributes := tm_attributes sample_request
       @ [MessageIntegrity (sample_hmac [9] (take (length sent - 24) sent))]\<rparr>))"
  by (rule turn_roundtrip [OF sample_request_ok sample_hmac_length])

end
