(* ===== verification/Client_Groups.thy ===== *)
theory Client_Groups
  imports Client_Exchange P2P_Group P2P_Codec
begin

text \<open>
  Encrypted group chat: the pairwise sessions of a group (\<^verbatim>\<open>pirc-crypto/src/group_key.rs\<close>), the envelope
  and the manager of the client (\<^verbatim>\<open>pirc-client/src/group_chat\<close>), the encrypted transport
  (\<^verbatim>\<open>pirc-p2p/src/encrypted_transport.rs\<close>) and its cipher (\<^verbatim>\<open>pirc-client/src/p2p_crypto.rs\<close>).
  A message goes to exactly the members whose keys are ready, over the transport of a connected
  member or through the server, and each of them reads what was written.

  Sending on a transport is a parameter that changes a state of the outside; the draws of the
  \<open>i\<close>-th encryption are \<open>rnd i\<close>. The counter of messages is 64 bits wide and wraps around.
\<close>

section \<open>Pairwise keys\<close>

datatype group_encryption_state = KeysPending | KeysEstablishing | KeysReady

record group_key_manager =
  gk_group :: nat
  gk_sessions :: "(string \<times> triple_ratchet) list"
  gk_states :: "(string \<times> group_encryption_state) list"

definition gk_new :: "nat \<Rightarrow> group_key_manager" where
  "gk_new gid = \<lparr>gk_group = gid, gk_sessions = [], gk_states = []\<rparr>"

definition gk_add_member :: "string \<Rightarrow> group_key_manager \<Rightarrow> group_key_manager" where
  "gk_add_member nick k = (if hm_get (gk_states k) nick = None then k\<lparr>gk_states := hm_insert nick KeysPending (gk_states k)\<rparr> else k)"

definition gk_set_establishing :: "string \<Rightarrow> group_key_manager \<Rightarrow> group_key_manager" where
  "gk_set_establishing nick k = k\<lparr>gk_states := hm_insert nick KeysEstablishing (gk_states k)\<rparr>"

definition gk_set_session :: "string \<Rightarrow> triple_ratchet \<Rightarrow> group_key_manager \<Rightarrow> group_key_manager" where
  "gk_set_session nick s k =
     k\<lparr>gk_sessions := hm_insert nick s (gk_sessions k), gk_states := hm_insert nick KeysReady (gk_states k)\<rparr>"

definition gk_remove_member :: "string \<Rightarrow> group_key_manager \<Rightarrow> group_key_manager" where
  "gk_remove_member nick k = k\<lparr>gk_sessions := hm_remove nick (gk_sessions k), gk_states := hm_remove nick (gk_states k)\<rparr>"

definition gk_member_state :: "group_key_manager \<Rightarrow> string \<Rightarrow> group_encryption_state option" where
  "gk_member_state k nick = hm_get (gk_states k) nick"

definition gk_members :: "group_key_manager \<Rightarrow> (string \<times> group_encryption_state) list" where
  "gk_members k = sort_key fst (gk_states k)"

definition gk_ready_count :: "group_key_manager \<Rightarrow> nat" where
  "gk_ready_count k = length (filter (\<lambda>(_, st). st = KeysReady) (gk_states k))"

definition gk_all_ready :: "group_key_manager \<Rightarrow> bool" where
  "gk_all_ready k \<longleftrightarrow> gk_states k \<noteq> [] \<and> list_all (\<lambda>(_, st). st = KeysReady) (gk_states k)"

definition gk_has_session :: "group_key_manager \<Rightarrow> string \<Rightarrow> bool" where
  "gk_has_session k nick \<longleftrightarrow> hm_get (gk_sessions k) nick \<noteq> None"

definition ready_members :: "group_key_manager \<Rightarrow> string list" where
  "ready_members k = map fst (filter (\<lambda>(_, st). st = KeysReady) (gk_states k))"

fun encrypt_members ::
  "crypto_prims \<Rightarrow> (nat \<Rightarrow> draws) \<Rightarrow> nat \<Rightarrow> bytes \<Rightarrow> string list \<Rightarrow> (string \<times> encrypted_message) list \<Rightarrow> group_key_manager \<Rightarrow>
     (crypto_error + (string \<times> encrypted_message) list) \<times> group_key_manager" where
  "encrypt_members P rnd i plaintext [] done_so_far k = (Ok done_so_far, k)"
| "encrypt_members P rnd i plaintext (nick # nicks) done_so_far k =
     (case hm_get (gk_sessions k) nick of
        None \<Rightarrow> (Err (RatchetErr (''member '' @ [CHR 0x27] @ nick @ [CHR 0x27] @ '' is Ready but has no session'')), k)
      | Some s \<Rightarrow>
          (case triple_encrypt P (rnd i) plaintext s of
             (Err e, s') \<Rightarrow> (Err e, k\<lparr>gk_sessions := hm_insert nick s' (gk_sessions k)\<rparr>)
           | (Ok c, s') \<Rightarrow>
               encrypt_members P rnd (i + 1) plaintext nicks (hm_insert nick c done_so_far)
                 (k\<lparr>gk_sessions := hm_insert nick s' (gk_sessions k)\<rparr>)))"

definition encrypt_for_group ::
  "crypto_prims \<Rightarrow> (nat \<Rightarrow> draws) \<Rightarrow> bytes \<Rightarrow> group_key_manager \<Rightarrow>
     (crypto_error + (string \<times> encrypted_message) list) \<times> group_key_manager" where
  "encrypt_for_group P rnd plaintext k =
     (if ready_members k = [] then (Err (RatchetErr ''no group members with ready sessions''), k)
      else encrypt_members P rnd 0 plaintext (ready_members k) [] k)"

definition decrypt_from_member ::
  "crypto_prims \<Rightarrow> draws \<Rightarrow> string \<Rightarrow> encrypted_message \<Rightarrow> group_key_manager \<Rightarrow> (crypto_error + bytes) outcome \<times> group_key_manager" where
  "decrypt_from_member P rnd sender c k =
     (case hm_get (gk_sessions k) sender of
        None \<Rightarrow> (Returns (Err (RatchetErr (''no pairwise session with group member '' @ [CHR 0x27] @ sender @ [CHR 0x27]))), k)
      | Some s \<Rightarrow> (case triple_decrypt P rnd c s of (r, s') \<Rightarrow> (r, k\<lparr>gk_sessions := hm_insert sender s' (gk_sessions k)\<rparr>)))"

section \<open>The envelope\<close>

record message_envelope =
  me_sequence :: u64
  me_timestamp :: u64
  me_plaintext :: bytes

definition ENVELOPE_HEADER_SIZE :: nat where "ENVELOPE_HEADER_SIZE = 16"

definition u64_to_be :: "u64 \<Rightarrow> bytes" where "u64_to_be w = rev (u64_to_le w)"
definition u64_from_be :: "bytes \<Rightarrow> u64" where "u64_from_be bs = from_bytes_be (take 8 bs)"

definition envelope_to_bytes :: "message_envelope \<Rightarrow> bytes" where
  "envelope_to_bytes e = u64_to_be (me_sequence e) @ u64_to_be (me_timestamp e) @ me_plaintext e"

definition envelope_from_bytes :: "bytes \<Rightarrow> string + message_envelope" where
  "envelope_from_bytes bs =
     (if length bs < ENVELOPE_HEADER_SIZE
      then Err (''envelope too short: expected at least '' @ nat_to_string ENVELOPE_HEADER_SIZE @ '' bytes, got '' @ nat_to_string (length bs))
      else Ok \<lparr>me_sequence = u64_from_be bs, me_timestamp = u64_from_be (drop 8 bs), me_plaintext = drop ENVELOPE_HEADER_SIZE bs\<rparr>)"

lemma u64_be [simp]: "length (u64_to_be w) = 8" "u64_from_be (u64_to_be w @ r) = w"
  using u64_le_roundtrip [of w "[]"] by (simp_all add: u64_to_be_def u64_from_be_def u64_from_le_def)

lemma envelope_roundtrip [simp]: "envelope_from_bytes (envelope_to_bytes e) = Ok e"
  by (simp add: envelope_from_bytes_def envelope_to_bytes_def ENVELOPE_HEADER_SIZE_def)

section \<open>The manager\<close>

datatype delivery_path = P2pPath | RelayPath

record delivery_result =
  dr_recipient :: string
  dr_path :: delivery_path
  dr_payload :: bytes

record relay_message =
  rl_group :: nat
  rl_target :: string
  rl_payload :: bytes

record received_group_message =
  rg_group :: nat
  rg_sender :: string
  rg_sequence :: u64
  rg_timestamp :: u64
  rg_plaintext :: bytes

record 'tr chat_group =
  cg_keys :: group_key_manager
  cg_mesh :: "'tr group_mesh"
  cg_next_sequence :: u64

type_synonym 'tr group_chat = "(nat \<times> 'tr chat_group) list"

definition chat_new :: "'tr group_chat" where "chat_new = []"

definition chat_add_group :: "nat \<Rightarrow> 'tr group_chat \<Rightarrow> 'tr group_chat" where
  "chat_add_group gid g =
     (if hm_get g gid = None
      then hm_insert gid \<lparr>cg_keys = gk_new gid, cg_mesh = gm_new (nat_to_string gid), cg_next_sequence = 1\<rparr> g else g)"

definition chat_remove_group :: "nat \<Rightarrow> 'tr group_chat \<Rightarrow> 'tr group_chat" where
  "chat_remove_group gid g = hm_remove gid g"

definition chat_has_group :: "'tr group_chat \<Rightarrow> nat \<Rightarrow> bool" where "chat_has_group g gid \<longleftrightarrow> hm_get g gid \<noteq> None"

definition chat_group_ids :: "'tr group_chat \<Rightarrow> nat list" where "chat_group_ids g = map fst g"

text \<open>What happens to the state of a group, if there is one.\<close>

definition in_group :: "nat \<Rightarrow> ('tr chat_group \<Rightarrow> 'tr chat_group) \<Rightarrow> 'tr group_chat \<Rightarrow> 'tr group_chat" where
  "in_group gid f g = (case hm_get g gid of None \<Rightarrow> g | Some st \<Rightarrow> hm_insert gid (f st) g)"

definition member_added :: "string \<Rightarrow> 'tr chat_group \<Rightarrow> 'tr chat_group" where
  "member_added nick st = st\<lparr>cg_keys := gk_add_member nick (cg_keys st), cg_mesh := gm_add_member nick (cg_mesh st)\<rparr>"

definition member_removed :: "string \<Rightarrow> 'tr chat_group \<Rightarrow> 'tr chat_group" where
  "member_removed nick st = st\<lparr>cg_keys := gk_remove_member nick (cg_keys st), cg_mesh := gm_remove_member nick (cg_mesh st)\<rparr>"

definition chat_add_member :: "nat \<Rightarrow> string \<Rightarrow> 'tr group_chat \<Rightarrow> 'tr group_chat" where
  "chat_add_member gid nick = in_group gid (member_added nick)"

definition chat_remove_member :: "nat \<Rightarrow> string \<Rightarrow> 'tr group_chat \<Rightarrow> 'tr group_chat" where
  "chat_remove_member gid nick = in_group gid (member_removed nick)"

definition chat_set_establishing :: "nat \<Rightarrow> string \<Rightarrow> 'tr group_chat \<Rightarrow> 'tr group_chat" where
  "chat_set_establishing gid nick = in_group gid (\<lambda>st. st\<lparr>cg_keys := gk_set_establishing nick (cg_keys st)\<rparr>)"

definition chat_set_session :: "nat \<Rightarrow> string \<Rightarrow> triple_ratchet \<Rightarrow> 'tr group_chat \<Rightarrow> 'tr group_chat" where
  "chat_set_session gid nick s = in_group gid (\<lambda>st. st\<lparr>cg_keys := gk_set_session nick s (cg_keys st)\<rparr>)"

definition chat_member_connected :: "nat \<Rightarrow> string \<Rightarrow> 'tr \<Rightarrow> 'tr group_chat \<Rightarrow> 'tr group_chat" where
  "chat_member_connected gid nick t = in_group gid (\<lambda>st. st\<lparr>cg_mesh := gm_member_connected nick t (cg_mesh st)\<rparr>)"

definition chat_member_degraded :: "nat \<Rightarrow> string \<Rightarrow> string \<Rightarrow> 'tr group_chat \<Rightarrow> 'tr group_chat" where
  "chat_member_degraded gid nick reason = in_group gid (\<lambda>st. st\<lparr>cg_mesh := gm_member_degraded nick reason (cg_mesh st)\<rparr>)"

definition chat_member_disconnected :: "nat \<Rightarrow> string \<Rightarrow> 'tr group_chat \<Rightarrow> 'tr group_chat" where
  "chat_member_disconnected gid nick = in_group gid (\<lambda>st. st\<lparr>cg_mesh := gm_member_disconnected nick (cg_mesh st)\<rparr>)"

definition reconnect_member :: "nat \<Rightarrow> string \<Rightarrow> 'tr \<Rightarrow> 'tr group_chat \<Rightarrow> bool \<times> 'tr group_chat" where
  "reconnect_member gid nick t g =
     (case hm_get g gid of
        None \<Rightarrow> (False, g)
      | Some st \<Rightarrow>
          (if gm_member_state (cg_mesh st) nick \<in> {Some MeshRelayFallback, Some MeshDisconnected, Some MeshConnecting}
           then (True, hm_insert gid (st\<lparr>cg_mesh := gm_member_connected nick t (cg_mesh st)\<rparr>) g)
           else (False, g)))"

definition chat_members_needing_reconnect :: "'tr group_chat \<Rightarrow> nat \<Rightarrow> string list" where
  "chat_members_needing_reconnect g gid =
     (case hm_get g gid of
        None \<Rightarrow> []
      | Some st \<Rightarrow> filter (\<lambda>nick. gk_member_state (cg_keys st) nick = Some KeysReady) (gm_members_needing_reconnect (cg_mesh st)))"

definition chat_member_join :: "nat \<Rightarrow> string \<Rightarrow> 'tr group_chat \<Rightarrow> bool \<times> 'tr group_chat" where
  "chat_member_join gid nick g =
     (case hm_get g gid of
        None \<Rightarrow> (False, g)
      | Some st \<Rightarrow>
          if gk_member_state (cg_keys st) nick \<noteq> None then (False, g) else (True, hm_insert gid (member_added nick st) g))"

definition chat_member_leave :: "nat \<Rightarrow> string \<Rightarrow> 'tr group_chat \<Rightarrow> bool \<times> 'tr group_chat" where
  "chat_member_leave gid nick g =
     (case hm_get g gid of
        None \<Rightarrow> (False, g)
      | Some st \<Rightarrow>
          if gk_member_state (cg_keys st) nick = None then (False, g) else (True, hm_insert gid (member_removed nick st) g))"

definition chat_group_members :: "'tr group_chat \<Rightarrow> nat \<Rightarrow> string list" where
  "chat_group_members g gid = (case hm_get g gid of None \<Rightarrow> [] | Some st \<Rightarrow> map fst (gk_members (cg_keys st)))"

definition chat_encryption_state :: "'tr group_chat \<Rightarrow> nat \<Rightarrow> string \<Rightarrow> group_encryption_state option" where
  "chat_encryption_state g gid nick = Option.bind (hm_get g gid) (\<lambda>st. gk_member_state (cg_keys st) nick)"

definition chat_connection_state :: "'tr group_chat \<Rightarrow> nat \<Rightarrow> string \<Rightarrow> peer_connection_state option" where
  "chat_connection_state g gid nick = Option.bind (hm_get g gid) (\<lambda>st. gm_member_state (cg_mesh st) nick)"

definition chat_connected_members :: "'tr group_chat \<Rightarrow> nat \<Rightarrow> string list" where
  "chat_connected_members g gid = (case hm_get g gid of None \<Rightarrow> [] | Some st \<Rightarrow> gm_connected_members (cg_mesh st))"

definition chat_degraded_members :: "'tr group_chat \<Rightarrow> nat \<Rightarrow> string list" where
  "chat_degraded_members g gid = (case hm_get g gid of None \<Rightarrow> [] | Some st \<Rightarrow> gm_degraded_members (cg_mesh st))"

definition chat_drain_events :: "nat \<Rightarrow> 'tr group_chat \<Rightarrow> group_mesh_event list \<times> 'tr group_chat" where
  "chat_drain_events gid g =
     (case hm_get g gid of
        None \<Rightarrow> ([], g)
      | Some st \<Rightarrow> (case gm_drain_events (cg_mesh st) of (es, m) \<Rightarrow> (es, hm_insert gid (st\<lparr>cg_mesh := m\<rparr>) g)))"

definition chat_all_ready :: "'tr group_chat \<Rightarrow> nat \<Rightarrow> bool" where
  "chat_all_ready g gid = (case hm_get g gid of None \<Rightarrow> False | Some st \<Rightarrow> gk_all_ready (cg_keys st))"

section \<open>Sending and receiving\<close>

fun fan_out ::
  "('tr \<Rightarrow> bytes \<Rightarrow> 'w \<Rightarrow> (p2p_error + unit) \<times> 'w) \<Rightarrow> nat \<Rightarrow> 'tr group_mesh \<Rightarrow> (string \<times> encrypted_message) list \<Rightarrow> 'w \<Rightarrow>
     (delivery_result list \<times> relay_message list \<times> 'w) outcome" where
  "fan_out send gid mesh [] w = Returns ([], [], w)"
| "fan_out send gid mesh ((nick, c) # rest) w =
     (case message_to_bytes c of
        Panics e \<Rightarrow> Panics e
      | Returns payload \<Rightarrow>
          (case (case get_transport mesh nick of
                   None \<Rightarrow> (RelayPath, w)
                 | Some transport \<Rightarrow>
                     (case send transport payload w of (Ok _, w1) \<Rightarrow> (P2pPath, w1) | (Err _, w1) \<Rightarrow> (RelayPath, w1))) of
             (path, w1) \<Rightarrow>
               (case fan_out send gid mesh rest w1 of
                  Panics e \<Rightarrow> Panics e
                | Returns (ds, rs, w2) \<Rightarrow>
                    Returns (\<lparr>dr_recipient = nick, dr_path = path, dr_payload = payload\<rparr> # ds,
                      (if path = RelayPath then [\<lparr>rl_group = gid, rl_target = nick, rl_payload = payload\<rparr>] else []) @ rs, w2))))"

definition chat_send_message ::
  "crypto_prims \<Rightarrow> (nat \<Rightarrow> draws) \<Rightarrow> ('tr \<Rightarrow> bytes \<Rightarrow> 'w \<Rightarrow> (p2p_error + unit) \<times> 'w) \<Rightarrow> u64 \<Rightarrow> nat \<Rightarrow> bytes \<Rightarrow> 'tr group_chat \<Rightarrow> 'w \<Rightarrow>
     ((string + delivery_result list \<times> relay_message list) \<times> 'tr group_chat \<times> 'w) outcome" where
  "chat_send_message P rnd send now gid plaintext g w =
     (case hm_get g gid of
        None \<Rightarrow> Returns (Err (''group '' @ nat_to_string gid @ '' not found''), g, w)
      | Some st \<Rightarrow>
          (let envelope = \<lparr>me_sequence = cg_next_sequence st, me_timestamp = now, me_plaintext = plaintext\<rparr> in
           case encrypt_for_group P rnd (envelope_to_bytes envelope) (cg_keys st) of
             (r, k) \<Rightarrow>
               (let g' = hm_insert gid (st\<lparr>cg_next_sequence := cg_next_sequence st + 1, cg_keys := k\<rparr>) g in
                case r of
                  Err e \<Rightarrow> Returns (Err (''encryption failed: '' @ crypto_error_display e), g', w)
                | Ok encrypted \<Rightarrow>
                    (case fan_out send gid (cg_mesh st) encrypted w of
                       Panics e \<Rightarrow> Panics e
                     | Returns (ds, rs, w') \<Rightarrow> Returns (Ok (ds, rs), g', w')))))"

definition chat_receive_message ::
  "crypto_prims \<Rightarrow> draws \<Rightarrow> nat \<Rightarrow> string \<Rightarrow> bytes \<Rightarrow> 'tr group_chat \<Rightarrow> ((string + received_group_message) \<times> 'tr group_chat) outcome" where
  "chat_receive_message P rnd gid sender payload g =
     (case hm_get g gid of
        None \<Rightarrow> Returns (Err (''group '' @ nat_to_string gid @ '' not found''), g)
      | Some st \<Rightarrow>
          (case message_from_bytes payload of
             Err e \<Rightarrow> Returns (Err (''failed to deserialize encrypted message: '' @ crypto_error_display e), g)
           | Ok c \<Rightarrow>
               (case decrypt_from_member P rnd sender c (cg_keys st) of
                  (Panics e, k) \<Rightarrow> Panics e
                | (Returns (Err e), k) \<Rightarrow>
                    Returns (Err (''decryption failed: '' @ crypto_error_display e), hm_insert gid (st\<lparr>cg_keys := k\<rparr>) g)
                | (Returns (Ok bs), k) \<Rightarrow>
                    (let g' = hm_insert gid (st\<lparr>cg_keys := k\<rparr>) g in
                     case envelope_from_bytes bs of
                       Err e \<Rightarrow> Returns (Err e, g')
                     | Ok env \<Rightarrow>
                         Returns (Ok \<lparr>rg_group = gid, rg_sender = sender, rg_sequence = me_sequence env,
                                      rg_timestamp = me_timestamp env, rg_plaintext = me_plaintext env\<rparr>, g')))))"

section \<open>The encrypted transport\<close>

text \<open>
  The cipher of a transport and the transport below it, each with its state. The cipher of the
  client shares the encryption manager, whose lock it only tries.
\<close>

definition encrypted_send ::
  "('c \<Rightarrow> bytes \<Rightarrow> (string + bytes) outcome \<times> 'c) \<Rightarrow> (bytes \<Rightarrow> 'w \<Rightarrow> (p2p_error + unit) \<times> 'w) \<Rightarrow> bytes \<Rightarrow> 'c \<times> 'w \<Rightarrow>
     (p2p_error + unit) outcome \<times> 'c \<times> 'w" where
  "encrypted_send enc inner plaintext cw =
     (case cw of (c, w) \<Rightarrow>
       (case enc c plaintext of
          (Panics e, c') \<Rightarrow> (Panics e, c', w)
        | (Returns (Err e), c') \<Rightarrow> (Returns (Err (IceErr (''encryption failed: '' @ e))), c', w)
        | (Returns (Ok ciphertext), c') \<Rightarrow> (case inner ciphertext w of (r, w') \<Rightarrow> (Returns r, c', w'))))"

definition encrypted_recv ::
  "('c \<Rightarrow> bytes \<Rightarrow> (string + bytes) outcome \<times> 'c) \<Rightarrow> p2p_error + bytes \<Rightarrow> 'c \<Rightarrow> (p2p_error + bytes) outcome \<times> 'c" where
  "encrypted_recv dec received c =
     (case received of
        Err e \<Rightarrow> (Returns (Err e), c)
      | Ok ciphertext \<Rightarrow>
          (case dec c ciphertext of
             (Panics e, c') \<Rightarrow> (Panics e, c')
           | (Returns (Err e), c') \<Rightarrow> (Returns (Err (IceErr (''decryption failed: '' @ e))), c')
           | (Returns (Ok plaintext), c') \<Rightarrow> (Returns (Ok plaintext), c')))"

definition ratchet_encrypt ::
  "crypto_prims \<Rightarrow> draws \<Rightarrow> bool \<Rightarrow> string \<Rightarrow> encryption_manager \<Rightarrow> bytes \<Rightarrow> (string + bytes) outcome \<times> encryption_manager" where
  "ratchet_encrypt P rnd locked peer m plaintext =
     (if locked then (Returns (Err ''encryption manager is locked''), m)
      else
        (case manager_encrypt P rnd peer plaintext m of
           (Err e, m') \<Rightarrow> (Returns (Err (crypto_error_display e)), m')
         | (Ok c, m') \<Rightarrow> (case message_to_bytes c of Panics e \<Rightarrow> (Panics e, m') | Returns bs \<Rightarrow> (Returns (Ok bs), m'))))"

definition ratchet_decrypt ::
  "crypto_prims \<Rightarrow> draws \<Rightarrow> bool \<Rightarrow> string \<Rightarrow> encryption_manager \<Rightarrow> bytes \<Rightarrow> (string + bytes) outcome \<times> encryption_manager" where
  "ratchet_decrypt P rnd locked peer m ciphertext =
     (case message_from_bytes ciphertext of
        Err e \<Rightarrow> (Returns (Err (crypto_error_display e)), m)
      | Ok c \<Rightarrow>
          if locked then (Returns (Err ''encryption manager is locked''), m)
          else
            (case manager_decrypt P rnd peer c m of
               (Panics e, m') \<Rightarrow> (Panics e, m')
             | (Returns (Err e), m') \<Rightarrow> (Returns (Err (crypto_error_display e)), m')
             | (Returns (Ok plaintext), m') \<Rightarrow> (Returns (Ok plaintext), m')))"

section \<open>What an encryption looks like\<close>

lemma aead_length: "gcm_laws P \<Longrightarrow> aead_encrypt P k n p a = Ok c \<Longrightarrow> length c = length p + TAG_SIZE"
  by (auto simp: aead_encrypt_def gcm_laws_def split: option.splits)

lemma encrypt_nonces:
  assumes "triple_encrypt P rnd p s = (Ok c, s')"
  shows "em_header_nonce c = d_header_nonce rnd" "em_body_nonce c = d_body_nonce rnd"
  using assms by (auto simp: triple_encrypt_def encrypt_header_def Let_def split: prod.splits sum.splits)

lemma encrypt_lengths:
  assumes "triple_encrypt P rnd p s = (Ok c, s')" "gcm_laws P" "\<not> pq_step_due s"
  shows "length (em_encrypted_header c) = length (kp_public (dr_dh_pair (tr_dh_ratchet s))) + 9 + TAG_SIZE"
    "length (em_ciphertext c) = length p + TAG_SIZE"
  using assms(1,3) aead_length [OF assms(2)]
  by (auto simp: triple_encrypt_def encrypt_pq_def encrypt_message_key_def encrypt_header_def header_to_bytes_def option_bytes_def
      Let_def case_prod_beta split: option.splits sum.splits)

section \<open>Who gets a message\<close>

lemma encrypt_members_result:
  assumes "encrypt_members P rnd i p ns sofar k = (Ok out, k')" "distinct ns" "hm_wf sofar"
  shows "hm_wf out \<and> set (map fst out) = set ns \<union> set (map fst sofar) \<and>
    (\<forall>n c. map_of out n = Some c \<longrightarrow>
       (if n \<in> set ns then \<exists>s j s'. map_of (gk_sessions k) n = Some s \<and> triple_encrypt P (rnd j) p s = (Ok c, s') else map_of sofar n = Some c))"
  using assms
proof (induction ns arbitrary: i sofar k)
  case (Cons n ns)
  obtain s where s: "map_of (gk_sessions k) n = Some s" using Cons.prems(1) by (auto split: option.splits)
  obtain c s' where e: "triple_encrypt P (rnd i) p s = (Ok c, s')" using Cons.prems(1) s by (auto split: prod.splits sum.splits)
  let ?k = "k\<lparr>gk_sessions := hm_insert n s' (gk_sessions k)\<rparr>"
  have "encrypt_members P rnd (i + 1) p ns (hm_insert n c sofar) ?k = (Ok out, k')" using Cons.prems(1) s e by simp
  moreover have d: "distinct ns" "hm_wf (hm_insert n c sofar)" using Cons.prems(2,3) by auto
  ultimately have ih: "hm_wf out" "set (map fst out) = set ns \<union> set (map fst (hm_insert n c sofar))"
    "map_of out m = Some x \<Longrightarrow> (if m \<in> set ns then \<exists>s j s'. map_of (gk_sessions ?k) m = Some s \<and> triple_encrypt P (rnd j) p s = (Ok x, s')
       else map_of (hm_insert n c sofar) m = Some x)" for m x
    using Cons.IH by blast+
  show ?case
  proof (intro conjI allI impI)
    show "hm_wf out" by (rule ih)
    show "set (map fst out) = set (n # ns) \<union> set (map fst sofar)" using ih(2) by (auto simp: dom_update)
    fix m x assume m: "map_of out m = Some x"
    show "if m \<in> set (n # ns) then \<exists>s j s'. map_of (gk_sessions k) m = Some s \<and> triple_encrypt P (rnd j) p s = (Ok x, s') else map_of sofar m = Some x"
    proof (cases "m = n")
      case True
      then have "x = c" using ih(3) [OF m] Cons.prems(2) by (auto simp: update_conv' simp del: map_of_eq_Some_iff)
      with True show ?thesis using s e by auto
    next
      case False
      then show ?thesis using ih(3) [OF m] by (auto simp: update_conv' simp del: map_of_eq_Some_iff split: if_splits)
    qed
  qed
qed simp

definition relay_of :: "nat \<Rightarrow> delivery_result \<Rightarrow> relay_message" where
  "relay_of gid d = \<lparr>rl_group = gid, rl_target = dr_recipient d, rl_payload = dr_payload d\<rparr>"

lemma fan_out_result:
  assumes "fan_out send gid mesh es w = Returns (ds, rs, w')"
  shows "map dr_recipient ds = map fst es \<and> rs = map (relay_of gid) (filter (\<lambda>d. dr_path d = RelayPath) ds) \<and>
    (\<forall>d\<in>set ds. (\<exists>c. (dr_recipient d, c) \<in> set es \<and> message_to_bytes c = Returns (dr_payload d)) \<and>
       (dr_path d = P2pPath \<longrightarrow> get_transport mesh (dr_recipient d) \<noteq> None))"
  using assms
proof (induction send gid mesh es w arbitrary: ds rs rule: fan_out.induct)
  case (2 send gid mesh nick c rest w)
  obtain payload where p: "message_to_bytes c = Returns payload" using "2.prems" by (auto split: outcome.splits)
  obtain path w1 where w1: "(case get_transport mesh nick of None \<Rightarrow> (RelayPath, w)
      | Some transport \<Rightarrow> (case send transport payload w of (Ok _, w1) \<Rightarrow> (P2pPath, w1) | (Err _, w1) \<Rightarrow> (RelayPath, w1))) = (path, w1)"
    by fastforce
  obtain ds' rs' where r: "fan_out send gid mesh rest w1 = Returns (ds', rs', w')"
    "ds = \<lparr>dr_recipient = nick, dr_path = path, dr_payload = payload\<rparr> # ds'"
    "rs = (if path = RelayPath then [\<lparr>rl_group = gid, rl_target = nick, rl_payload = payload\<rparr>] else []) @ rs'"
    using "2.prems" p w1 by (auto split: outcome.splits)
  have "path = P2pPath \<Longrightarrow> get_transport mesh nick \<noteq> None" using w1 by (auto split: option.splits)
  then show ?case using "2.IH" [OF p w1 [symmetric] r(1)] p r by (auto simp: relay_of_def)
qed simp

lemma ready_members_iff: "hm_wf (gk_states k) \<Longrightarrow> nick \<in> set (ready_members k) \<longleftrightarrow> gk_member_state k nick = Some KeysReady"
  by (force simp: ready_members_def gk_member_state_def)

lemma distinct_ready: "hm_wf (gk_states k) \<Longrightarrow> distinct (ready_members k)"
  by (simp add: ready_members_def distinct_map_filter)

lemma encrypt_for_group_result:
  assumes "encrypt_for_group P rnd p k = (Ok out, k')" "hm_wf (gk_states k)"
  shows "hm_wf out" "set (map fst out) = set (ready_members k)"
    "map_of out n = Some c \<Longrightarrow> \<exists>s j s'. map_of (gk_sessions k) n = Some s \<and> triple_encrypt P (rnd j) p s = (Ok c, s')"
proof -
  have e: "encrypt_members P rnd 0 p (ready_members k) [] k = (Ok out, k')" using assms(1) by (auto simp: encrypt_for_group_def split: if_splits)
  have "hm_wf ([] :: (string \<times> encrypted_message) list)" by simp
  note r = encrypt_members_result [OF e distinct_ready [OF assms(2)] this]
  show "hm_wf out" "set (map fst out) = set (ready_members k)" using r by simp_all
  show "\<exists>s j s'. map_of (gk_sessions k) n = Some s \<and> triple_encrypt P (rnd j) p s = (Ok c, s')" if "map_of out n = Some c"
    using r [THEN conjunct2, THEN conjunct2, rule_format, OF that] by (simp split: if_splits)
qed

lemma chat_send_result:
  assumes "chat_send_message P rnd send now gid text g w = Returns (Ok (ds, rs), g', w')" "hm_get g gid = Some st"
  obtains out k where
    "encrypt_for_group P rnd (envelope_to_bytes \<lparr>me_sequence = cg_next_sequence st, me_timestamp = now, me_plaintext = text\<rparr>) (cg_keys st) = (Ok out, k)"
    "fan_out send gid (cg_mesh st) out w = Returns (ds, rs, w')"
    "g' = hm_insert gid (st\<lparr>cg_next_sequence := cg_next_sequence st + 1, cg_keys := k\<rparr>) g"
  using assms by (auto simp: chat_send_message_def Let_def split: prod.splits sum.splits outcome.splits)

lemma in_step_next_delivered:
  assumes "in_step P UNIV c" "crypto_laws P" "cv_to_b c = []" "triple_encrypt P rnd p (cv_a c) = (Ok m, a')" "one_key_opens P m (cv_b c)"
  shows "\<exists>b'. triple_decrypt P rnd' m (cv_b c) = (Returns (Ok p), b')"
proof -
  let ?c = "c\<lparr>cv_a := a', cv_to_b := [(m, p)]\<rparr>"
  have "in_step P UNIV ?c" using talks_in_step [OF send_a [OF assms(4)] assms(1,2)] assms(3) by simp
  moreover have "cv_to_b ?c = [(m, p)]" "one_key_opens P m (cv_b ?c)" using assms(5) by simp_all
  ultimately show ?thesis using in_step_deliver_b [OF _ assms(2), of UNIV ?c m p "[]" rnd'] by auto
qed

text \<open>
  C9. A group message reaches exactly the members whose keys are ready, each once; it goes over a
  transport only to a member that has one, and every other member's copy is handed to the server.
  Whichever way it goes, a member whose session is in step with the sender's reads the text with
  the sender's number and time.
\<close>

theorem group_text_delivered:
  fixes g :: "'tr group_chat" and h :: "'ur group_chat"
  assumes laws: "crypto_laws P" and nonces: "\<And>i. length (d_header_nonce (rnd i)) = NONCE_SIZE \<and> length (d_body_nonce (rnd i)) = NONCE_SIZE"
    and g: "hm_get g gid = Some st" "hm_wf (gk_states (cg_keys st))"
    and sent: "chat_send_message P rnd send now gid text g w = Returns (Ok (ds, rs), g', w')"
  shows "set (map dr_recipient ds) = {n. gk_member_state (cg_keys st) n = Some KeysReady} \<and> distinct (map dr_recipient ds) \<and>
    rs = map (relay_of gid) (filter (\<lambda>d. dr_path d = RelayPath) ds) \<and>
    (\<forall>d\<in>set ds. (dr_path d = P2pPath \<longrightarrow> get_transport (cg_mesh st) (dr_recipient d) \<noteq> None) \<and>
      (in_step P UNIV c \<longrightarrow> cv_to_b c = [] \<longrightarrow> hm_get (gk_sessions (cg_keys st)) (dr_recipient d) = Some (cv_a c) \<longrightarrow>
       hm_get h gid = Some st' \<longrightarrow> hm_get (gk_sessions (cg_keys st')) me = Some (cv_b c) \<longrightarrow>
       (\<forall>m. message_from_bytes (dr_payload d) = Ok m \<longrightarrow> one_key_opens P m (cv_b c)) \<longrightarrow>
       (\<exists>h'. chat_receive_message P rnd' gid me (dr_payload d) h =
          Returns (Ok \<lparr>rg_group = gid, rg_sender = me, rg_sequence = cg_next_sequence st, rg_timestamp = now, rg_plaintext = text\<rparr>, h'))))"
proof -
  let ?e = "\<lparr>me_sequence = cg_next_sequence st, me_timestamp = now, me_plaintext = text\<rparr>"
  obtain out k where o: "encrypt_for_group P rnd (envelope_to_bytes ?e) (cg_keys st) = (Ok out, k)"
    "fan_out send gid (cg_mesh st) out w = Returns (ds, rs, w')" by (rule chat_send_result [OF sent g(1)])
  note f = fan_out_result [OF o(2)] and e = encrypt_for_group_result [OF o(1) g(2)]
  have recipients: "set (map dr_recipient ds) = {n. gk_member_state (cg_keys st) n = Some KeysReady}" "distinct (map dr_recipient ds)"
    using f e(1,2) ready_members_iff [OF g(2)] by auto
  have read: "\<exists>h'. chat_receive_message P rnd' gid me (dr_payload d) h =
      Returns (Ok \<lparr>rg_group = gid, rg_sender = me, rg_sequence = cg_next_sequence st, rg_timestamp = now, rg_plaintext = text\<rparr>, h')"
    if d: "d \<in> set ds" and c: "in_step P UNIV c" "cv_to_b c = []" "hm_get (gk_sessions (cg_keys st)) (dr_recipient d) = Some (cv_a c)"
      and h: "hm_get h gid = Some st'" "hm_get (gk_sessions (cg_keys st')) me = Some (cv_b c)"
      and opens: "\<forall>m. message_from_bytes (dr_payload d) = Ok m \<longrightarrow> one_key_opens P m (cv_b c)" for d
  proof -
    obtain m where m: "(dr_recipient d, m) \<in> set out" "message_to_bytes m = Returns (dr_payload d)" using f d by blast
    obtain j a' where j: "triple_encrypt P (rnd j) (envelope_to_bytes ?e) (cv_a c) = (Ok m, a')"
      using e(3) [of "dr_recipient d" m] m(1) e(1) c(3) by auto
    have "message_from_bytes (dr_payload d) = Ok m" using message_roundtrip [OF m(2)] encrypt_nonces [OF j] nonces by simp
    moreover obtain b' where "triple_decrypt P rnd' m (cv_b c) = (Returns (Ok (envelope_to_bytes ?e)), b')"
      using in_step_next_delivered [OF c(1) laws c(2) j] opens calculation by blast
    ultimately show ?thesis using h by (simp add: chat_receive_message_def decrypt_from_member_def Let_def)
  qed
  then show ?thesis using recipients f by blast
qed

section \<open>That a message is sent\<close>

text \<open>The sessions of a group that can encrypt without a post-quantum step.\<close>

definition can_send :: "triple_ratchet \<Rightarrow> bool" where
  "can_send s \<longleftrightarrow> sending s \<noteq> None \<and> \<not> pq_step_due s \<and> length (kp_public (dr_dh_pair (tr_dh_ratchet s))) = KEY_SIZE"

lemma encrypt_members_succeeds:
  assumes "\<And>k n p a. gcm_seal P k n p a \<noteq> None" "distinct ns" "\<forall>n\<in>set ns. \<exists>s. map_of (gk_sessions k) n = Some s \<and> can_send s"
  shows "\<exists>out k'. encrypt_members P rnd i p ns sofar k = (Ok out, k')"
  using assms(2,3)
proof (induction ns arbitrary: i sofar k)
  case (Cons n ns)
  then obtain s where s: "map_of (gk_sessions k) n = Some s" "can_send s" by auto
  then obtain c s' where e: "triple_encrypt P (rnd i) p s = (Ok c, s')" using encrypt_succeeds [OF assms(1)] by (fastforce simp: can_send_def)
  let ?k = "k\<lparr>gk_sessions := hm_insert n s' (gk_sessions k)\<rparr>"
  have "\<forall>m\<in>set ns. \<exists>s. map_of (gk_sessions ?k) m = Some s \<and> can_send s" using Cons.prems by (auto simp: update_conv')
  then show ?case using Cons.IH [of ?k "i + 1" "hm_insert n c sofar"] Cons.prems(1) s(1) e by simp
qed simp

lemma fan_out_returns:
  assumes "\<forall>(n, c)\<in>set es. \<exists>bs. message_to_bytes c = Returns bs"
  shows "\<exists>ds rs w'. fan_out send gid mesh es w = Returns (ds, rs, w')"
  using assms
proof (induction es arbitrary: w)
  case (Cons e es)
  obtain n c where [simp]: "e = (n, c)" by fastforce
  obtain bs where bs: "message_to_bytes c = Returns bs" using Cons.prems by auto
  obtain path w1 where w1: "(case get_transport mesh n of None \<Rightarrow> (RelayPath, w)
      | Some transport \<Rightarrow> (case send transport bs w of (Ok _, w1) \<Rightarrow> (P2pPath, w1) | (Err _, w1) \<Rightarrow> (RelayPath, w1))) = (path, w1)"
    by fastforce
  obtain ds rs w' where "fan_out send gid mesh es w1 = Returns (ds, rs, w')" using Cons.IH [of w1] Cons.prems by auto
  then show ?case using bs w1 by simp
qed simp

lemma group_message_sent:
  assumes "gcm_laws P" "\<And>k n p a. gcm_seal P k n p a \<noteq> None" "hm_get g gid = Some st" "hm_wf (gk_states (cg_keys st))"
    and ready: "ready_members (cg_keys st) \<noteq> []" "\<forall>n\<in>set (ready_members (cg_keys st)). \<exists>s. map_of (gk_sessions (cg_keys st)) n = Some s \<and> can_send s"
    and "length text \<le> 4000000000"
  shows "\<exists>ds rs g' w'. chat_send_message P rnd send now gid text g w = Returns (Ok (ds, rs), g', w')"
proof -
  let ?p = "envelope_to_bytes \<lparr>me_sequence = cg_next_sequence st, me_timestamp = now, me_plaintext = text\<rparr>"
  have "\<exists>out k'. encrypt_members P rnd 0 ?p (ready_members (cg_keys st)) [] (cg_keys st) = (Ok out, k')"
    by (rule encrypt_members_succeeds [OF assms(2) distinct_ready [OF assms(4)] ready(2)])
  then obtain out k where e: "encrypt_for_group P rnd ?p (cg_keys st) = (Ok out, k)" using ready(1) by (auto simp: encrypt_for_group_def)
  have "\<exists>bs. message_to_bytes c = Returns bs" if n: "(n, c) \<in> set out" for n c
  proof -
    note r = encrypt_for_group_result [OF e assms(4)]
    obtain s j s' where s: "map_of (gk_sessions (cg_keys st)) n = Some s" "triple_encrypt P (rnd j) ?p s = (Ok c, s')"
      using r(3) [of n c] r(1) n by auto
    have "n \<in> set (ready_members (cg_keys st))" using r(2) n by force
    then have "can_send s" using ready(2) s(1) by auto
    then have "length (em_encrypted_header c) \<le> 100" "length (em_ciphertext c) = length ?p + TAG_SIZE"
      using encrypt_lengths [OF s(2) assms(1)] by (auto simp: can_send_def size_defs)
    then show ?thesis using assms(7) by (simp add: message_to_bytes_def envelope_to_bytes_def size_defs)
  qed
  then obtain ds rs w' where "fan_out send gid (cg_mesh st) out w = Returns (ds, rs, w')"
    using fan_out_returns [of out send gid "cg_mesh st" w] by blast
  then show ?thesis using e assms(3) by (simp add: chat_send_message_def Let_def)
qed

section \<open>Over the encrypted transport\<close>

text \<open>What one client sends on an encrypted direct transport is what the other one receives.\<close>

lemma encrypted_transport_delivers:
  assumes laws: "crypto_laws P" and c: "in_step P UNIV c" "cv_to_b c = []"
    and m: "hm_get (mgr_sessions m) bob = Some (cv_a c)" "hm_get (mgr_sessions n) alice = Some (cv_b c)"
    and nonces: "length (d_header_nonce rnd) = NONCE_SIZE" "length (d_body_nonce rnd) = NONCE_SIZE"
    and sent: "encrypted_send (ratchet_encrypt P rnd False bob) (\<lambda>x w. case encode_frame x of Err e \<Rightarrow> (Err e, w) | Ok f \<Rightarrow> (Ok (), w @ [f])) text (m, [])
      = (Returns (Ok ()), m', [f])"
    and opens: "\<And>x. message_from_bytes (drop 2 f) = Ok x \<Longrightarrow> one_key_opens P x (cv_b c)"
  shows "\<exists>n'. encrypted_recv (ratchet_decrypt P rnd' False alice) (udp_recv f) n = (Returns (Ok text), n')"
proof -
  obtain x a' where x: "triple_encrypt P rnd text (cv_a c) = (Ok x, a')"
    using sent m(1) by (auto simp: encrypted_send_def ratchet_encrypt_def manager_encrypt_def split: prod.splits sum.splits)
  obtain bs where bs: "message_to_bytes x = Returns bs"
    using sent m(1) x by (auto simp: encrypted_send_def ratchet_encrypt_def manager_encrypt_def split: outcome.splits)
  have f: "encode_frame bs = Ok f"
    using sent m(1) x bs by (auto simp: encrypted_send_def ratchet_encrypt_def manager_encrypt_def split: sum.splits)
  then have "drop 2 f = bs" by (auto simp: encode_frame_def split: if_splits)
  moreover have "message_from_bytes bs = Ok x" using message_roundtrip [OF bs] encrypt_nonces [OF x] nonces by simp
  ultimately obtain b' where "triple_decrypt P rnd' x (cv_b c) = (Returns (Ok text), b')" "message_from_bytes bs = Ok x"
    using in_step_next_delivered [OF c(1) laws c(2) x] opens by auto
  then show ?thesis using frame_roundtrip(1) [OF f] m(2) by (simp add: encrypted_recv_def ratchet_decrypt_def manager_decrypt_def)
qed

section \<open>A concrete group\<close>

definition sample_group :: "string \<Rightarrow> triple_ratchet \<Rightarrow> unit group_chat" where
  "sample_group nick s = chat_set_session 7 nick s (chat_add_member 7 nick (chat_add_group 7 chat_new))"

lemma sample_group_get:
  "hm_get (sample_group nick s) 7 =
     Some \<lparr>cg_keys = \<lparr>gk_group = 7, gk_sessions = [(nick, s)], gk_states = [(nick, KeysReady)]\<rparr>,
           cg_mesh = (gm_new (nat_to_string 7))\<lparr>gm_tracked := [(nick, MeshConnecting)]\<rparr>, cg_next_sequence = 1\<rparr>"
  by (simp add: sample_group_def chat_set_session_def chat_add_member_def chat_add_group_def chat_new_def in_group_def gk_new_def
      member_added_def gk_set_session_def gk_add_member_def gm_add_member_def gm_known_def gm_new_def update_conv' del: nat_to_string.simps)

lemma init_sender_pair:
  "triple_init_sender P dhs ks ss pub ek = Ok a \<Longrightarrow> dr_dh_pair (tr_dh_ratchet a) = key_pair_from_secret P dhs"
  by (auto simp: triple_init_sender_def dh_init_sender_def Let_def result_bind_def split: sum.splits)

lemma sample_message:
  assumes "length p \<le> 4000000000"
  obtains m a bs where "triple_encrypt sample_prims sample_draws p (cv_a sample_start) = (Ok m, a)" "one_key_opens sample_prims m (cv_b sample_start)"
    "message_to_bytes m = Returns bs" "message_from_bytes bs = Ok m"
proof -
  have "before_step sample_prims sample_start" by (rule reachable_before_step [OF sample_start_ok(1) sample_laws rtranclp.rtrancl_refl])
  then have nd: "\<not> pq_step_due (cv_a sample_start)" using steps_not_due(1) [of sample_prims sample_start 0] sample_start_ok(3) by simp
  obtain m a b where m: "triple_encrypt sample_prims sample_draws p (cv_a sample_start) = (Ok m, a)" "one_key_opens sample_prims m (cv_b sample_start)"
    by (rule sample_half_turn [OF sample_start_ok(2) _ nd]) auto
  obtain dhs ks ss pub ek where "triple_init_sender sample_prims dhs ks ss pub ek = Ok (cv_a sample_start)"
    using sample_start_ok(1) by (auto simp: conversation_start_def)
  then have "length (kp_public (dr_dh_pair (tr_dh_ratchet (cv_a sample_start)))) = 32"
    by (simp add: init_sender_pair key_pair_from_secret_def sample_prims_def)
  then have "length (em_encrypted_header m) \<le> 4294967295" "length (em_ciphertext m) \<le> 4294967295"
    using encrypt_lengths [OF m(1) crypto_lawsD(2) [OF sample_laws] nd] assms by (simp_all add: size_defs)
  then obtain bs where bs: "message_to_bytes m = Returns bs" by (simp add: message_to_bytes_def)
  moreover have "message_from_bytes bs = Ok m"
    using message_roundtrip [OF bs] encrypt_nonces [OF m(1)] by (simp add: sample_draws_def size_defs)
  ultimately show thesis using m that by blast
qed

theorem group_text_delivered_witness:
  "\<exists>payload rs g' h'. chat_send_message sample_prims (\<lambda>_. sample_draws) (\<lambda>_ _ w. (Ok (), w)) 5 7 [104, 105] (sample_group ''bob'' (cv_a sample_start)) () =
       Returns (Ok ([\<lparr>dr_recipient = ''bob'', dr_path = RelayPath, dr_payload = payload\<rparr>], rs), g', ()) \<and>
     chat_receive_message sample_prims sample_draws 7 ''alice'' payload (sample_group ''alice'' (cv_b sample_start)) =
       Returns (Ok \<lparr>rg_group = 7, rg_sender = ''alice'', rg_sequence = 1, rg_timestamp = 5, rg_plaintext = [104, 105]\<rparr>, h')"
proof -
  let ?e = "envelope_to_bytes \<lparr>me_sequence = 1, me_timestamp = 5, me_plaintext = [104, 105]\<rparr>"
  obtain m a bs where m: "triple_encrypt sample_prims sample_draws ?e (cv_a sample_start) = (Ok m, a)"
    "one_key_opens sample_prims m (cv_b sample_start)" "message_to_bytes m = Returns bs" "message_from_bytes bs = Ok m"
    by (rule sample_message [of ?e]) (simp_all add: envelope_to_bytes_def)
  let ?d = "\<lparr>dr_recipient = ''bob'', dr_path = RelayPath, dr_payload = bs\<rparr>"
  have "get_transport ((gm_new (nat_to_string 7) :: unit group_mesh)\<lparr>gm_tracked := [(''bob'', MeshConnecting)]\<rparr>) ''bob'' = None"
    by (simp add: get_transport_def gm_new_def)
  then obtain g' where s: "chat_send_message sample_prims (\<lambda>_. sample_draws) (\<lambda>_ _ w. (Ok (), w)) 5 7 [104, 105] (sample_group ''bob'' (cv_a sample_start)) () =
      Returns (Ok ([?d], [relay_of 7 ?d]), g', ())"
    using m by (auto simp: chat_send_message_def sample_group_get encrypt_for_group_def ready_members_def relay_of_def Let_def)
  have "in_step sample_prims UNIV sample_start" "cv_to_b sample_start = []"
    using conversation_start_ahead [OF sample_start_ok(1) crypto_lawsD(1) [OF sample_laws]] sample_start_ok(1)
    by (auto simp: in_step_def conversation_start_def)
  moreover have "length (d_header_nonce sample_draws) = NONCE_SIZE \<and> length (d_body_nonce sample_draws) = NONCE_SIZE"
    by (simp add: sample_draws_def size_defs)
  moreover have "hm_wf (gk_states (cg_keys (the (hm_get (sample_group ''bob'' (cv_a sample_start)) 7))))" by (simp add: sample_group_get)
  ultimately have "\<exists>h'. chat_receive_message sample_prims sample_draws 7 ''alice'' bs (sample_group ''alice'' (cv_b sample_start)) =
       Returns (Ok \<lparr>rg_group = 7, rg_sender = ''alice'', rg_sequence = 1, rg_timestamp = 5, rg_plaintext = [104, 105]\<rparr>, h')"
    using group_text_delivered [OF sample_laws _ sample_group_get _ s, of sample_start "sample_group ''alice'' (cv_b sample_start)" _ "''alice''" sample_draws]
      m(2,4) by (simp add: sample_group_get)
  with s show ?thesis by blast
qed

end
