(* ===== verification/Client_Group_App.thy ===== *)
theory Client_Group_App
  imports Client_Groups
begin

text \<open>
  The group commands of the client and what it does with the group messages of the server
  (\<^verbatim>\<open>pirc-client/src/app/group.rs\<close>), over the group chat manager. No handler of the client gives the manager
  a session: whatever the server sends and the user types, a text for a group is never sent and
  none that arrives is read.
\<close>

section \<open>Buffers and status lines\<close>

record 'tr group_app =
  ga_client :: client_app
  ga_chat :: "'tr group_chat"

definition group_buffer_id :: "nat \<Rightarrow> buffer_id" where
  "group_buffer_id gid = ChannelBuffer (''group:'' @ nat_to_string gid)"

fun group_id_from_buffer :: "buffer_id \<Rightarrow> nat option" where
  "group_id_from_buffer (ChannelBuffer name) = (if starts_with name ''group:'' then group_id_from_str (drop 6 name) else None)"
| "group_id_from_buffer _ = None"

definition current_group_context :: "'tr group_app \<Rightarrow> nat option" where
  "current_group_context a = group_id_from_buffer (active_id (app_view (ga_client a)))"

definition on_client :: "(client_app \<Rightarrow> client_app) \<Rightarrow> 'tr group_app \<Rightarrow> 'tr group_app" where
  "on_client f a = a\<lparr>ga_client := f (ga_client a)\<rparr>"

definition group_status :: "client_env \<Rightarrow> string \<Rightarrow> 'tr group_app \<Rightarrow> 'tr group_app" where
  "group_status E text = on_client (push_status E text)"

definition ensure_group_buffer :: "nat \<Rightarrow> client_app \<Rightarrow> client_app" where
  "ensure_group_buffer gid app = app\<lparr>app_view := snd (ensure_open (group_buffer_id gid) (app_view app))\<rparr>"

definition push_group_system :: "client_env \<Rightarrow> nat \<Rightarrow> string \<Rightarrow> 'tr group_app \<Rightarrow> 'tr group_app" where
  "push_group_system E gid text =
     on_client (\<lambda>app. push_line E (group_buffer_id gid) None SystemLine text (ensure_group_buffer gid app))"

definition send_or_status :: "client_env \<Rightarrow> message \<Rightarrow> 'tr group_app \<Rightarrow> 'tr group_app" where
  "send_or_status E msg =
     on_client (\<lambda>app.
       if app_connected app
       then (case app_send E msg app of (Some e, app') \<Rightarrow> push_status E (''Send error: '' @ e) app' | (None, app') \<Rightarrow> app')
       else push_status E ''Not connected'' app)"

definition not_in_group_buffer :: string where
  "not_in_group_buffer = ''Not in a group buffer. Switch to a group buffer first.''"

section \<open>The commands\<close>

datatype group_subcommand = CmdCreate string | CmdInvite string | CmdJoin nat | CmdLeave | CmdMembers | CmdList | CmdInfo

definition cmd_group_create :: "client_env \<Rightarrow> string \<Rightarrow> 'tr group_app \<Rightarrow> 'tr group_app" where
  "cmd_group_create E name = send_or_status E (message_new (Pirc GroupCreate) [name])"

definition cmd_group_invite :: "client_env \<Rightarrow> string \<Rightarrow> 'tr group_app \<Rightarrow> 'tr group_app" where
  "cmd_group_invite E nick a =
     (case current_group_context a of
        None \<Rightarrow> group_status E not_in_group_buffer a
      | Some gid \<Rightarrow> send_or_status E (message_new (Pirc GroupInvite) [nat_to_string gid, nick]) a)"

definition cmd_group_join :: "client_env \<Rightarrow> nat \<Rightarrow> 'tr group_app \<Rightarrow> 'tr group_app" where
  "cmd_group_join E gid = send_or_status E (message_new (Pirc GroupJoin) [nat_to_string gid])"

definition cmd_group_leave :: "client_env \<Rightarrow> 'tr group_app \<Rightarrow> 'tr group_app" where
  "cmd_group_leave E a =
     (case current_group_context a of
        None \<Rightarrow> group_status E not_in_group_buffer a
      | Some gid \<Rightarrow> send_or_status E (message_new (Pirc GroupLeave) [nat_to_string gid]) a)"

definition cmd_group_members :: "client_env \<Rightarrow> 'tr group_app \<Rightarrow> 'tr group_app" where
  "cmd_group_members E a =
     (case current_group_context a of
        None \<Rightarrow> group_status E not_in_group_buffer a
      | Some gid \<Rightarrow>
          (let members = chat_group_members (ga_chat a) gid in
           if members = [] then group_status E (''Group '' @ nat_to_string gid @ '': no members tracked locally'') a
           else group_status E (''Group '' @ nat_to_string gid @ '' members: '' @ join_with '', '' members) a))"

definition cmd_group_list :: "client_env \<Rightarrow> 'tr group_app \<Rightarrow> 'tr group_app" where
  "cmd_group_list E a =
     (let ids = chat_group_ids (ga_chat a) in
      if ids = [] then group_status E ''You are not in any groups.'' a
      else fold (\<lambda>gid a. group_status E (''  Group '' @ nat_to_string gid @ '' ('' @
               nat_to_string (length (chat_group_members (ga_chat a) gid)) @ '' members)'') a)
             ids (group_status E ''Groups:'' a))"

definition cmd_group_info :: "client_env \<Rightarrow> 'tr group_app \<Rightarrow> 'tr group_app" where
  "cmd_group_info E a =
     (case current_group_context a of
        None \<Rightarrow> group_status E not_in_group_buffer a
      | Some gid \<Rightarrow>
          fold (group_status E)
            [''Group '' @ nat_to_string gid,
             ''  Members: '' @ nat_to_string (length (chat_group_members (ga_chat a) gid)),
             ''  P2P connected: '' @ nat_to_string (length (chat_connected_members (ga_chat a) gid)),
             ''  Relay fallback: '' @ nat_to_string (length (chat_degraded_members (ga_chat a) gid)),
             ''  Encryption: '' @ (if chat_all_ready (ga_chat a) gid then ''all ready'' else ''not all members ready'')] a)"

fun handle_group_command :: "client_env \<Rightarrow> group_subcommand \<Rightarrow> 'tr group_app \<Rightarrow> 'tr group_app" where
  "handle_group_command E (CmdCreate name) a = cmd_group_create E name a"
| "handle_group_command E (CmdInvite nick) a = cmd_group_invite E nick a"
| "handle_group_command E (CmdJoin gid) a = cmd_group_join E gid a"
| "handle_group_command E CmdLeave a = cmd_group_leave E a"
| "handle_group_command E CmdMembers a = cmd_group_members E a"
| "handle_group_command E CmdList a = cmd_group_list E a"
| "handle_group_command E CmdInfo a = cmd_group_info E a"

section \<open>Messages of the server\<close>

definition msg_group :: "message \<Rightarrow> nat option" where
  "msg_group msg = (case msg_params msg of [] \<Rightarrow> None | p # _ \<Rightarrow> group_id_from_str p)"

definition param_or_empty :: "nat \<Rightarrow> message \<Rightarrow> string" where
  "param_or_empty i msg = (if i < length (msg_params msg) then msg_params msg ! i else [])"

definition prefix_nick :: "message \<Rightarrow> string option" where
  "prefix_nick msg = (case msg_prefix msg of Some (UserPrefix nick _ _) \<Rightarrow> Some nick | _ \<Rightarrow> None)"

definition on_group_create_response :: "client_env \<Rightarrow> message \<Rightarrow> 'tr group_app \<Rightarrow> 'tr group_app" where
  "on_group_create_response E msg a =
     (case msg_group msg of
        None \<Rightarrow> a
      | Some gid \<Rightarrow>
          (let text = ''Group '' @ [CHR 0x27] @ param_or_empty 1 msg @ [CHR 0x27] @ '' created (ID: '' @ nat_to_string gid @ '')'' in
           group_status E text
             (push_group_system E gid text
               (on_client (ensure_group_buffer gid) (a\<lparr>ga_chat := chat_add_group gid (ga_chat a)\<rparr>)))))"

definition on_group_invite :: "client_env \<Rightarrow> message \<Rightarrow> 'tr group_app \<Rightarrow> 'tr group_app" where
  "on_group_invite E msg a =
     (let inviter = (case prefix_nick msg of Some nick \<Rightarrow> nick | None \<Rightarrow> ''unknown'') in
      case msg_group msg of
        None \<Rightarrow> a
      | Some gid \<Rightarrow>
          group_status E (inviter @ '' invited you to group '' @ [CHR 0x27] @ param_or_empty 2 msg @ [CHR 0x27] @ '' (ID: '' @
            nat_to_string gid @ ''). Use /group join '' @ nat_to_string gid @ '' to accept.'') a)"

definition on_group_join_broadcast :: "client_env \<Rightarrow> message \<Rightarrow> 'tr group_app \<Rightarrow> 'tr group_app" where
  "on_group_join_broadcast E msg a =
     (case (prefix_nick msg, msg_group msg) of
        (Some joiner, Some gid) \<Rightarrow>
          (if joiner = ce_nick E
           then push_group_system E gid ''You have joined the group''
                  (on_client (ensure_group_buffer gid) (a\<lparr>ga_chat := chat_add_group gid (ga_chat a)\<rparr>))
           else push_group_system E gid (joiner @ '' has joined the group'') (a\<lparr>ga_chat := snd (chat_member_join gid joiner (ga_chat a))\<rparr>))
      | _ \<Rightarrow> a)"

definition on_group_leave_broadcast :: "client_env \<Rightarrow> message \<Rightarrow> 'tr group_app \<Rightarrow> 'tr group_app" where
  "on_group_leave_broadcast E msg a =
     (case (prefix_nick msg, msg_group msg) of
        (Some leaver, Some gid) \<Rightarrow>
          (if leaver = ce_nick E
           then (let a1 = push_group_system E gid ''You have left the group'' a in a1\<lparr>ga_chat := chat_remove_group gid (ga_chat a1)\<rparr>)
           else push_group_system E gid (leaver @ '' has left the group'') (a\<lparr>ga_chat := snd (chat_member_leave gid leaver (ga_chat a))\<rparr>))
      | _ \<Rightarrow> a)"

definition on_group_members :: "client_env \<Rightarrow> message \<Rightarrow> 'tr group_app \<Rightarrow> 'tr group_app" where
  "on_group_members E msg a =
     (case msg_group msg of
        None \<Rightarrow> a
      | Some gid \<Rightarrow>
          (let members = drop 1 (msg_params msg) in
           push_group_system E gid (''Members: '' @ join_with '', '' members)
             (a\<lparr>ga_chat := fold (\<lambda>member g. if member \<noteq> ce_nick E then snd (chat_member_join gid member g) else g) members (ga_chat a)\<rparr>)))"

definition on_group_msg :: "client_env \<Rightarrow> message \<Rightarrow> 'tr group_app \<Rightarrow> 'tr group_app outcome" where
  "on_group_msg E msg a =
     (case (prefix_nick msg, msg_group msg) of
        (Some sender, Some gid) \<Rightarrow>
          (if length (msg_params msg) < 3 then Returns a
           else case decode_from_wire (ce_codec E) (msg_params msg ! 2) of
             Err _ \<Rightarrow> Returns a
           | Ok bs \<Rightarrow>
               (case chat_receive_message (ce_prims E) (ce_draws E) gid sender bs (ga_chat a) of
                  Panics e \<Rightarrow> Panics e
                | Returns (Ok received, g) \<Rightarrow>
                    Returns (on_client (push_line E (group_buffer_id gid) (Some sender) MessageLine
                               (from_utf8_lossy (to_chars (rg_plaintext received)))) (a\<lparr>ga_chat := g\<rparr>))
                | Returns (Err _, g) \<Rightarrow>
                    Returns (push_group_system E gid (''Failed to decrypt message from '' @ sender) (a\<lparr>ga_chat := g\<rparr>))))
      | _ \<Rightarrow> Returns a)"

definition handle_group_message :: "client_env \<Rightarrow> message \<Rightarrow> 'tr group_app \<Rightarrow> (bool \<times> 'tr group_app) outcome" where
  "handle_group_message E msg a =
     (if msg_command msg = Pirc GroupCreate then Returns (True, on_group_create_response E msg a)
      else if msg_command msg = Pirc GroupInvite then Returns (True, on_group_invite E msg a)
      else if msg_command msg = Pirc GroupJoin then Returns (True, on_group_join_broadcast E msg a)
      else if msg_command msg = Pirc GroupLeave then Returns (True, on_group_leave_broadcast E msg a)
      else if msg_command msg = Pirc GroupMembers then Returns (True, on_group_members E msg a)
      else if msg_command msg = Pirc GroupMessage
      then (case on_group_msg E msg a of Panics e \<Rightarrow> Panics e | Returns a' \<Rightarrow> Returns (True, a'))
      else Returns (False, a))"

section \<open>Texts of the user\<close>

definition relay_to_message :: "client_env \<Rightarrow> nat \<Rightarrow> relay_message \<Rightarrow> message" where
  "relay_to_message E gid relay =
     message_new (Pirc GroupMessage) [nat_to_string gid, rl_target relay, encode_for_wire (ce_codec E) (rl_payload relay)]"

definition handle_group_chat_message ::
  "client_env \<Rightarrow> (nat \<Rightarrow> draws) \<Rightarrow> ('tr \<Rightarrow> bytes \<Rightarrow> 'w \<Rightarrow> (p2p_error + unit) \<times> 'w) \<Rightarrow> u64 \<Rightarrow> nat \<Rightarrow> string \<Rightarrow> buffer_id \<Rightarrow>
     'tr group_app \<Rightarrow> 'w \<Rightarrow> ('tr group_app \<times> 'w) outcome" where
  "handle_group_chat_message E rnd send now gid text target a w =
     (case chat_send_message (ce_prims E) rnd send now gid (ascii text) (ga_chat a) w of
        Panics e \<Rightarrow> Panics e
      | Returns (Err e, g, w') \<Rightarrow> Returns (group_status E (''Group send error: '' @ e) (a\<lparr>ga_chat := g\<rparr>), w')
      | Returns (Ok (_, relays), g, w') \<Rightarrow>
          (if relays \<noteq> [] \<and> \<not> app_connected (ga_client a)
           then Returns (group_status E ''Not connected'' (a\<lparr>ga_chat := g\<rparr>), w')
           else Returns
             (on_client (\<lambda>app. push_line E target (Some (ce_nick E)) MessageLine text
                                 (fold (\<lambda>relay app. snd (app_send E (relay_to_message E gid relay) app)) relays app))
                (a\<lparr>ga_chat := g\<rparr>), w')))"

section \<open>Group texts are never sent or read\<close>

text \<open>The states that the client reaches: the rest of the client does not touch the groups.\<close>

inductive group_reach :: "('tr \<Rightarrow> bytes \<Rightarrow> 'w \<Rightarrow> (p2p_error + unit) \<times> 'w) \<Rightarrow> 'tr group_app \<Rightarrow> bool" for send where
  start: "group_reach send \<lparr>ga_client = c, ga_chat = chat_new\<rparr>"
| received: "group_reach send a \<Longrightarrow> handle_group_message E msg a = Returns (b, a') \<Longrightarrow> group_reach send a'"
| command: "group_reach send a \<Longrightarrow> group_reach send (handle_group_command E sub a)"
| typed: "group_reach send a \<Longrightarrow> handle_group_chat_message E rnd send now gid text target a w = Returns (a', w') \<Longrightarrow> group_reach send a'"
| elsewhere: "group_reach send a \<Longrightarrow> group_reach send (a\<lparr>ga_client := c\<rparr>)"

definition keyless :: "'tr group_chat \<Rightarrow> bool" where
  "keyless g \<longleftrightarrow> (\<forall>gid st. map_of g gid = Some st \<longrightarrow> gk_sessions (cg_keys st) = [] \<and> ready_members (cg_keys st) = [])"

lemma keyless_insert: "keyless g \<Longrightarrow> gk_sessions (cg_keys st) = [] \<Longrightarrow> ready_members (cg_keys st) = [] \<Longrightarrow> keyless (hm_insert gid st g)"
  by (simp add: keyless_def update_conv')

lemma keyless_group: "keyless g \<Longrightarrow> map_of g gid = Some st \<Longrightarrow> gk_sessions (cg_keys st) = [] \<and> ready_members (cg_keys st) = []"
  by (simp add: keyless_def)

lemma ready_members_empty_iff: "ready_members k = [] \<longleftrightarrow> (\<forall>x\<in>set (gk_states k). snd x \<noteq> KeysReady)"
  by (auto simp: ready_members_def filter_empty_conv)

lemma hm_entries: "x \<in> set (AList.update k v al) \<Longrightarrow> x = (k, v) \<or> x \<in> set al" "x \<in> set (AList.delete k al) \<Longrightarrow> x \<in> set al"
  by (induction al) (auto simp: AList.delete_eq split: if_splits)

lemma ready_members_added: "ready_members k = [] \<Longrightarrow> ready_members (gk_add_member n k) = []"
  by (auto simp: ready_members_empty_iff gk_add_member_def dest!: hm_entries)

lemma ready_members_removed: "ready_members k = [] \<Longrightarrow> ready_members (gk_remove_member n k) = []"
  by (auto simp: ready_members_empty_iff gk_remove_member_def dest!: hm_entries)

lemma sessions_changed:
  "gk_sessions (gk_add_member n k) = gk_sessions k" "gk_sessions (gk_remove_member n k) = hm_remove n (gk_sessions k)"
  by (simp_all add: gk_add_member_def gk_remove_member_def)

lemma keyless_ops:
  assumes "keyless g"
  shows "keyless (chat_add_group gid g)" "keyless (chat_remove_group gid g)" "keyless (snd (chat_member_join gid nick g))"
    "keyless (snd (chat_member_leave gid nick g))"
proof -
  show "keyless (chat_add_group gid g)"
    using assms by (simp add: chat_add_group_def keyless_insert gk_new_def ready_members_def)
  show "keyless (chat_remove_group gid g)" using assms by (simp add: chat_remove_group_def keyless_def delete_conv')
  show "keyless (snd (chat_member_join gid nick g))"
    using assms keyless_group [OF assms]
    by (auto simp: chat_member_join_def member_added_def ready_members_added sessions_changed intro!: keyless_insert split: option.split)
  show "keyless (snd (chat_member_leave gid nick g))"
    using assms keyless_group [OF assms]
    by (auto simp: chat_member_leave_def member_removed_def ready_members_removed sessions_changed intro!: keyless_insert split: option.split)
qed

lemma keyless_joins: "keyless g \<Longrightarrow> keyless (fold (\<lambda>member g. if member \<noteq> n then snd (chat_member_join gid member g) else g) ms g)"
  by (induction ms arbitrary: g) (simp_all add: keyless_ops)

lemma keyless_receive:
  assumes "keyless g"
  shows "\<exists>e g'. chat_receive_message P rnd gid sender payload g = Returns (Err e, g') \<and> keyless g'"
  using assms keyless_group [OF assms]
  by (auto simp: chat_receive_message_def decrypt_from_member_def intro!: keyless_insert split: option.split sum.split)

lemma keyless_send:
  assumes "keyless g"
  shows "\<exists>g'. chat_send_message P rnd send now gid text g w =
     Returns (Err (if chat_has_group g gid then ''encryption failed: ratchet error: no group members with ready sessions''
                   else ''group '' @ nat_to_string gid @ '' not found''), g', w) \<and> keyless g'"
  using assms keyless_group [OF assms]
  by (auto simp: chat_send_message_def chat_has_group_def encrypt_for_group_def Let_def intro!: keyless_insert split: option.split)

lemma on_client_chat [simp]:
  "ga_chat (on_client f a) = ga_chat a" "ga_chat (group_status E text a) = ga_chat a"
  "ga_chat (push_group_system E gid text a) = ga_chat a" "ga_chat (send_or_status E msg a) = ga_chat a"
  by (simp_all add: on_client_def group_status_def push_group_system_def send_or_status_def)

lemma fold_status_chat [simp]: "ga_chat (fold (group_status E) ts a) = ga_chat a"
  "ga_chat (fold (\<lambda>x a. group_status E (f x a) a) xs a) = ga_chat a"
  by (induction ts arbitrary: a, simp_all) (induction xs arbitrary: a, simp_all)

lemma command_chat [simp]: "ga_chat (handle_group_command E sub a) = ga_chat a"
  by (cases sub)
    (simp_all add: cmd_group_create_def cmd_group_invite_def cmd_group_join_def cmd_group_leave_def cmd_group_members_def
      cmd_group_list_def cmd_group_info_def Let_def split: option.split)

lemma message_keyless:
  assumes "handle_group_message E msg a = Returns (b, a')" "keyless (ga_chat a)"
  shows "keyless (ga_chat a')"
proof -
  have "keyless (ga_chat x)" if r: "on_group_msg E msg a = Returns x" for x
  proof -
    have "ga_chat x = ga_chat a \<or>
        (\<exists>gid n bs res. chat_receive_message (ce_prims E) (ce_draws E) gid n bs (ga_chat a) = Returns (res, ga_chat x))"
      using r by (fastforce simp: on_group_msg_def split: option.splits if_splits sum.splits outcome.splits prod.splits)
    then show ?thesis using keyless_receive [OF assms(2)] assms(2) by (metis Pair_inject outcome.inject(1))
  qed
  moreover have "keyless (ga_chat (on_group_create_response E msg a))" "keyless (ga_chat (on_group_join_broadcast E msg a))"
    "keyless (ga_chat (on_group_leave_broadcast E msg a))" "keyless (ga_chat (on_group_members E msg a))" "keyless (ga_chat (on_group_invite E msg a))"
    using assms(2)
    by (simp_all add: keyless_ops keyless_joins on_group_create_response_def on_group_join_broadcast_def on_group_leave_broadcast_def on_group_members_def
        on_group_invite_def Let_def split: option.split)
  ultimately show ?thesis using assms by (auto simp: handle_group_message_def split: if_splits outcome.splits)
qed

lemma reach_keyless: "group_reach send a \<Longrightarrow> keyless (ga_chat a)"
proof (induction rule: group_reach.induct)
  case (typed a E rnd now gid words target w a' w')
  then show ?case
    using keyless_send [of "ga_chat a" "ce_prims E" rnd send now gid "ascii words" w] by (auto simp: handle_group_chat_message_def)
qed (simp_all add: chat_new_def keyless_def [of "[]"] message_keyless)

text \<open>
  C10. Group chat does not work in the client: in every state that the messages of the server, the
  commands and texts of the user and the rest of the client lead to, a text for a group sends
  nothing to anyone and leaves only an error in the status buffer, and every payload of a group
  message is refused. The handlers add members to a group and remove them, but none gives it keys.
\<close>

theorem group_chat_mute:
  assumes "group_reach send a"
  shows "(\<exists>a'. handle_group_chat_message E rnd send now gid text target a w = Returns (a', w) \<and>
      ga_client a' = push_status E (''Group send error: '' @
        (if chat_has_group (ga_chat a) gid then ''encryption failed: ratchet error: no group members with ready sessions''
         else ''group '' @ nat_to_string gid @ '' not found'')) (ga_client a) \<and>
      app_sent (ga_client a') = app_sent (ga_client a)) \<and>
    (\<exists>e g. chat_receive_message P rnd' gid sender payload (ga_chat a) = Returns (Err e, g))"
proof -
  have k: "keyless (ga_chat a)" by (rule reach_keyless [OF assms])
  show ?thesis
    using keyless_send [OF k, of "ce_prims E" rnd send now gid "ascii text" w] keyless_receive [OF k, of P rnd' gid sender payload]
    by (auto simp: handle_group_chat_message_def group_status_def on_client_def push_status_def push_line_def)
qed

definition sample_join :: "string \<Rightarrow> message" where
  "sample_join nick = message_with_prefix (UserPrefix nick ''u'' ''h'') (Pirc GroupJoin) [nat_to_string 7]"

definition sample_group_app :: "unit group_app" where
  "sample_group_app =
     on_group_join_broadcast sample_client (sample_join ''bob'')
       (on_group_join_broadcast sample_client (sample_join ''alice'') \<lparr>ga_client = sample_app (sample_manager 1), ga_chat = chat_new\<rparr>)"

lemma sample_join_parts: "prefix_nick (sample_join n) = Some n" "msg_group (sample_join n) = Some 7"
  "handle_group_message E (sample_join n) a = Returns (True, on_group_join_broadcast E (sample_join n) a)"
proof -
  have "group_id_from_str (nat_to_string 7) = Some 7" unfolding group_id_from_str_def by (rule parse_unsigned_nat_to_string) simp
  then show "prefix_nick (sample_join n) = Some n" "msg_group (sample_join n) = Some 7"
    "handle_group_message E (sample_join n) a = Returns (True, on_group_join_broadcast E (sample_join n) a)"
    by (simp_all add: sample_join_def message_with_prefix_def prefix_nick_def msg_group_def handle_group_message_def
        del: nat_to_string.simps)
qed

lemma sample_group_app_reached: "group_reach send sample_group_app"
  unfolding sample_group_app_def by (intro group_reach.received [OF _ sample_join_parts(3)] group_reach.start)

lemma sample_group_app_state:
  "map_of (ga_chat sample_group_app) 7 =
     Some \<lparr>cg_keys = \<lparr>gk_group = 7, gk_sessions = [], gk_states = [(''bob'', KeysPending)]\<rparr>,
           cg_mesh = (gm_new (nat_to_string 7))\<lparr>gm_tracked := [(''bob'', MeshConnecting)]\<rparr>, cg_next_sequence = 1\<rparr>"
  "app_sent (ga_client sample_group_app) = []"
  by (simp_all add: sample_group_app_def on_group_join_broadcast_def sample_join_parts sample_client_def sample_app_def on_client_def
      push_group_system_def push_line_def ensure_group_buffer_def chat_member_join_def chat_add_group_def chat_new_def member_added_def gk_member_state_def
      gk_add_member_def gk_new_def gm_add_member_def gm_known_def gm_new_def update_conv' del: nat_to_string.simps)

theorem group_chat_mute_witness:
  "chat_group_members (ga_chat sample_group_app) 7 = [''bob''] \<and>
   (\<exists>a'. handle_group_chat_message sample_client (\<lambda>_. sample_draws) (\<lambda>_ _ w. (Ok (), w)) 5 7 ''hi'' (group_buffer_id 7) sample_group_app () =
       Returns (a', ()) \<and>
     ga_client a' = push_status sample_client ''Group send error: encryption failed: ratchet error: no group members with ready sessions''
       (ga_client sample_group_app) \<and> app_sent (ga_client a') = [])"
proof -
  have "chat_group_members (ga_chat sample_group_app) 7 = [''bob'']" by (simp add: chat_group_members_def sample_group_app_state gk_members_def)
  then show ?thesis
    using group_chat_mute [OF sample_group_app_reached [of "\<lambda>_ _ w. (Ok (), w)"], of sample_client "\<lambda>_. sample_draws" 5 7 "''hi''" "group_buffer_id 7" "()"]
    by (simp add: chat_has_group_def sample_group_app_state)
qed

end
