(* ===== verification/Client_Input.thy ===== *)
theory Client_Input
  imports Prelude
begin

text \<open>
  The input line of the client (\<^verbatim>\<open>tui/input_line_state.rs\<close>) and its history (\<^verbatim>\<open>tui/input_history.rs\<close>).
  The line keeps its cursor twice, as a number of characters and as a byte offset into UTF-8 text;
  it refines an editor on two lists of characters, the ones before and the ones after the cursor.
\<close>

section \<open>Characters in UTF-8\<close>

text \<open>A character is given by its bytes: a byte that is no continuation byte, then continuation bytes.\<close>

definition utf8_char :: "string \<Rightarrow> bool" where
  "utf8_char c \<longleftrightarrow> c \<noteq> [] \<and> \<not> utf8_cont (hd c) \<and> list_all utf8_cont (tl c)"

definition char_is_whitespace :: "string \<Rightarrow> bool" where
  "char_is_whitespace c \<longleftrightarrow> c \<in> set whitespace_seqs"

text \<open>\<^verbatim>\<open>chars().count()\<close> counts the bytes that start a character.\<close>

definition char_count :: "string \<Rightarrow> nat" where
  "char_count s = length (filter (\<lambda>b. \<not> utf8_cont b) s)"

definition is_char_boundary :: "string \<Rightarrow> nat \<Rightarrow> bool" where
  "is_char_boundary s i \<longleftrightarrow> i = 0 \<or> i = length s \<or> i < length s \<and> \<not> utf8_cont (s ! i)"

fun prev_char_boundary :: "string \<Rightarrow> nat \<Rightarrow> nat" where
  "prev_char_boundary s 0 = 0"
| "prev_char_boundary s (Suc i) = (if \<not> utf8_cont (s ! i) then i else prev_char_boundary s i)"

definition next_char_boundary :: "string \<Rightarrow> nat \<Rightarrow> nat" where
  "next_char_boundary s pos = pos + 1 + length (takeWhile utf8_cont (drop (pos + 1) s))"

section \<open>The input line\<close>

record input_line =
  il_buf :: string
  il_cursor_char :: nat
  il_cursor_byte :: nat
  il_scroll :: nat

definition input_new :: input_line where
  "input_new = \<lparr>il_buf = [], il_cursor_char = 0, il_cursor_byte = 0, il_scroll = 0\<rparr>"

definition input_clear :: "input_line \<Rightarrow> input_line" where
  "input_clear s = input_new"

text \<open>\<^verbatim>\<open>String::insert\<close>, \<^verbatim>\<open>drain\<close> and \<^verbatim>\<open>truncate\<close> panic away from character boundaries.\<close>

definition string_insert :: "string \<Rightarrow> nat \<Rightarrow> string \<Rightarrow> string outcome" where
  "string_insert s i c = (if is_char_boundary s i then Returns (take i s @ c @ drop i s) else Panics ''is_char_boundary'')"

definition string_drain :: "string \<Rightarrow> nat \<Rightarrow> nat \<Rightarrow> string outcome" where
  "string_drain s i j = (if i \<le> j \<and> is_char_boundary s i \<and> is_char_boundary s j then Returns (take i s @ drop j s) else Panics ''is_char_boundary'')"

definition with_buf :: "('a \<Rightarrow> 'b) \<Rightarrow> 'a outcome \<Rightarrow> 'b outcome" where
  "with_buf f r = (case r of Returns b \<Rightarrow> Returns (f b) | Panics e \<Rightarrow> Panics e)"

definition insert_char :: "string \<Rightarrow> input_line \<Rightarrow> input_line outcome" where
  "insert_char c s =
     with_buf (\<lambda>b. s\<lparr>il_buf := b, il_cursor_byte := il_cursor_byte s + length c, il_cursor_char := il_cursor_char s + 1\<rparr>)
       (string_insert (il_buf s) (il_cursor_byte s) c)"

text \<open>These two also say whether a character was deleted.\<close>

definition backspace :: "input_line \<Rightarrow> (bool \<times> input_line) outcome" where
  "backspace s =
     (if il_cursor_char s = 0 then Returns (False, s)
      else
        (let prev = prev_char_boundary (il_buf s) (il_cursor_byte s) in
         with_buf (\<lambda>b. (True, s\<lparr>il_buf := b, il_cursor_byte := prev, il_cursor_char := il_cursor_char s - 1\<rparr>))
           (string_drain (il_buf s) prev (il_cursor_byte s))))"

definition delete_char :: "input_line \<Rightarrow> (bool \<times> input_line) outcome" where
  "delete_char s =
     (if il_cursor_byte s \<ge> length (il_buf s) then Returns (False, s)
      else with_buf (\<lambda>b. (True, s\<lparr>il_buf := b\<rparr>))
             (string_drain (il_buf s) (il_cursor_byte s) (next_char_boundary (il_buf s) (il_cursor_byte s))))"

definition move_left :: "input_line \<Rightarrow> input_line" where
  "move_left s =
     (if il_cursor_char s = 0 then s
      else s\<lparr>il_cursor_byte := prev_char_boundary (il_buf s) (il_cursor_byte s), il_cursor_char := il_cursor_char s - 1\<rparr>)"

definition move_right :: "input_line \<Rightarrow> input_line" where
  "move_right s =
     (if il_cursor_byte s \<ge> length (il_buf s) then s
      else s\<lparr>il_cursor_byte := next_char_boundary (il_buf s) (il_cursor_byte s), il_cursor_char := il_cursor_char s + 1\<rparr>)"

definition move_home :: "input_line \<Rightarrow> input_line" where
  "move_home s = s\<lparr>il_cursor_char := 0, il_cursor_byte := 0\<rparr>"

definition move_end :: "input_line \<Rightarrow> input_line" where
  "move_end s = s\<lparr>il_cursor_char := char_count (il_buf s), il_cursor_byte := length (il_buf s)\<rparr>"

definition kill_to_end :: "input_line \<Rightarrow> input_line outcome" where
  "kill_to_end s =
     (if il_cursor_byte s \<le> length (il_buf s)
      then if is_char_boundary (il_buf s) (il_cursor_byte s) then Returns (s\<lparr>il_buf := take (il_cursor_byte s) (il_buf s)\<rparr>)
           else Panics ''is_char_boundary''
      else Returns s)"

text \<open>The two loops over the characters before the cursor; they stop at its character count.\<close>

fun back_while :: "(string \<Rightarrow> bool) \<Rightarrow> string \<Rightarrow> nat \<Rightarrow> nat \<Rightarrow> nat \<times> nat" where
  "back_while p s 0 byte = (0, byte)"
| "back_while p s (Suc n) byte =
     (let prev = prev_char_boundary s byte in
      if p (take (byte - prev) (drop prev s)) then back_while p s n prev else (Suc n, byte))"

definition delete_word_backward :: "input_line \<Rightarrow> input_line outcome" where
  "delete_word_backward s =
     (if il_cursor_char s = 0 then Returns s
      else
        (case back_while char_is_whitespace (il_buf s) (il_cursor_char s) (il_cursor_byte s) of
           (n1, b1) \<Rightarrow>
             (case back_while (\<lambda>c. \<not> char_is_whitespace c) (il_buf s) n1 b1 of
                (n2, b2) \<Rightarrow>
                  (let s1 = s\<lparr>il_cursor_char := n2, il_cursor_byte := b2\<rparr> in
                   if il_cursor_char s - n2 > 0
                   then with_buf (\<lambda>b. s1\<lparr>il_buf := b\<rparr>) (string_drain (il_buf s) b2 (il_cursor_byte s))
                   else Returns s1))))"

definition update_scroll :: "nat \<Rightarrow> input_line \<Rightarrow> input_line" where
  "update_scroll width s =
     (if width = 0 then s\<lparr>il_scroll := 0\<rparr>
      else if il_cursor_char s < il_scroll s then s\<lparr>il_scroll := il_cursor_char s\<rparr>
      else if il_cursor_char s \<ge> il_scroll s + width then s\<lparr>il_scroll := il_cursor_char s - width + 1\<rparr>
      else s)"

definition set_content :: "string \<Rightarrow> input_line \<Rightarrow> input_line" where
  "set_content text s = \<lparr>il_buf = text, il_cursor_char = char_count text, il_cursor_byte = length text, il_scroll = 0\<rparr>"

section \<open>The editor that it refines\<close>

text \<open>The characters before the cursor, the nearest one last, and the characters after it.\<close>

type_synonym editor = "string list \<times> string list"

datatype edit = EInsert string | EBackspace | EDelete | ELeft | ERight | EHome | EEnd | EKill | EKillToEnd | EDeleteWord
  | EScroll nat | ESet "string list"

fun edit_spec :: "edit \<Rightarrow> editor \<Rightarrow> editor" where
  "edit_spec (EInsert c) (l, r) = (l @ [c], r)"
| "edit_spec EBackspace (l, r) = (butlast l, r)"
| "edit_spec EDelete (l, r) = (l, tl r)"
| "edit_spec ELeft (l, r) = (if l = [] then (l, r) else (butlast l, last l # r))"
| "edit_spec ERight (l, r) = (if r = [] then (l, r) else (l @ [hd r], tl r))"
| "edit_spec EHome (l, r) = ([], l @ r)"
| "edit_spec EEnd (l, r) = (l @ r, [])"
| "edit_spec EKill (l, r) = ([], [])"
| "edit_spec EKillToEnd (l, r) = (l, [])"
| "edit_spec EDeleteWord (l, r) = (rev (dropWhile (\<lambda>c. \<not> char_is_whitespace c) (dropWhile char_is_whitespace (rev l))), r)"
| "edit_spec (EScroll w) (l, r) = (l, r)"
| "edit_spec (ESet cs) (l, r) = (cs, [])"

fun edit_line :: "edit \<Rightarrow> input_line \<Rightarrow> input_line outcome" where
  "edit_line (EInsert c) s = insert_char c s"
| "edit_line EBackspace s = with_buf snd (backspace s)"
| "edit_line EDelete s = with_buf snd (delete_char s)"
| "edit_line ELeft s = Returns (move_left s)"
| "edit_line ERight s = Returns (move_right s)"
| "edit_line EHome s = Returns (move_home s)"
| "edit_line EEnd s = Returns (move_end s)"
| "edit_line EKill s = Returns (input_clear s)"
| "edit_line EKillToEnd s = kill_to_end s"
| "edit_line EDeleteWord s = delete_word_backward s"
| "edit_line (EScroll w) s = Returns (update_scroll w s)"
| "edit_line (ESet cs) s = Returns (set_content (concat cs) s)"

fun edit_ok :: "edit \<Rightarrow> bool" where
  "edit_ok (EInsert c) = utf8_char c"
| "edit_ok (ESet cs) = list_all utf8_char cs"
| "edit_ok _ = True"

fun edit_lines :: "edit list \<Rightarrow> input_line \<Rightarrow> input_line outcome" where
  "edit_lines [] s = Returns s"
| "edit_lines (e # es) s = (case edit_line e s of Returns s' \<Rightarrow> edit_lines es s' | Panics m \<Rightarrow> Panics m)"

definition displays :: "input_line \<Rightarrow> editor \<Rightarrow> bool" where
  "displays s e \<longleftrightarrow> (case e of (l, r) \<Rightarrow> list_all utf8_char l \<and> list_all utf8_char r \<and>
     il_buf s = concat l @ concat r \<and> il_cursor_byte s = length (concat l) \<and> il_cursor_char s = length l)"

section \<open>Boundaries\<close>

lemma utf8_charE:
  assumes "utf8_char c"
  obtains b bs where "c = b # bs" "\<not> utf8_cont b" "list_all utf8_cont bs"
  using assms by (cases c) (auto simp: utf8_char_def)

lemma starts_char: "list_all utf8_char cs \<Longrightarrow> concat cs \<noteq> [] \<Longrightarrow> \<not> utf8_cont (hd (concat cs))"
  by (cases cs) (auto simp: utf8_char_def)

lemma boundary_between: "list_all utf8_char cs \<Longrightarrow> is_char_boundary (a @ concat cs) (length a)"
  using starts_char [of cs] by (cases "concat cs") (auto simp: is_char_boundary_def nth_append hd_conv_nth)

lemma prev_boundary:
  assumes "utf8_char c"
  shows "prev_char_boundary (a @ c @ r) (length (a @ c)) = length a"
proof -
  obtain b bs where c: "c = b # bs" "\<not> utf8_cont b" "list_all utf8_cont bs" by (rule utf8_charE [OF assms])
  have "prev_char_boundary (a @ c @ r) (length a + 1 + k) = length a" if "k \<le> length bs" for k
    using that
  proof (induction k)
    case (Suc k)
    have "(a @ c @ r) ! (length a + 1 + k) = bs ! k" using Suc.prems by (simp add: c nth_append)
    then show ?case using Suc c(3) by (simp add: list_all_length)
  qed (use c in \<open>simp add: nth_append\<close>)
  from this [of "length bs"] show ?thesis by (simp add: c)
qed

lemma next_boundary:
  assumes "utf8_char c" "list_all utf8_char cs"
  shows "next_char_boundary (a @ c @ concat cs) (length a) = length (a @ c)"
proof -
  obtain b bs where c: "c = b # bs" "\<not> utf8_cont b" "list_all utf8_cont bs" by (rule utf8_charE [OF assms(1)])
  have "takeWhile utf8_cont (concat cs) = []" unfolding takeWhile_eq_Nil_iff using starts_char [OF assms(2)] by blast
  then have "takeWhile utf8_cont (bs @ concat cs) = bs" using c(3) by (simp add: takeWhile_append2 list_all_iff)
  then show ?thesis by (simp add: next_char_boundary_def c)
qed

lemma char_count_concat: "list_all utf8_char cs \<Longrightarrow> char_count (concat cs) = length cs"
proof (induction cs)
  case (Cons c cs)
  then obtain b bs where "c = b # bs" "\<not> utf8_cont b" "list_all utf8_cont bs" by (auto elim: utf8_charE)
  moreover have "filter (\<lambda>b. \<not> utf8_cont b) bs = []" using \<open>list_all utf8_cont bs\<close> by (simp add: filter_empty_conv list_all_iff)
  ultimately show ?case using Cons by (simp add: char_count_def)
qed (simp add: char_count_def)

definition back_to :: "(string \<Rightarrow> bool) \<Rightarrow> string list \<Rightarrow> string list" where
  "back_to p l = rev (dropWhile p (rev l))"

lemma back_to_prefix: "l = back_to p l @ rev (takeWhile p (rev l))"
  by (metis back_to_def rev_append rev_rev_ident takeWhile_dropWhile_id)

lemma back_while_spec:
  "list_all utf8_char l \<Longrightarrow> back_while p (concat l @ r) (length l) (length (concat l)) = (length (back_to p l), length (concat (back_to p l)))"
proof (induction l arbitrary: r rule: rev_induct)
  case (snoc c l)
  then have c: "utf8_char c" "list_all utf8_char l" by auto
  have "prev_char_boundary (concat (l @ [c]) @ r) (length (concat (l @ [c]))) = length (concat l)"
    using prev_boundary [OF c(1), of "concat l" r] by simp
  then show ?case using snoc.IH [OF c(2), of "c @ r"] by (simp add: back_to_def)
qed (simp add: back_to_def)

section \<open>Refinement\<close>

lemma displays_new: "displays input_new ([], [])"
  by (simp add: displays_def input_new_def)

lemma displays_delete_word:
  assumes "displays s (l, r)"
  shows "\<exists>s'. delete_word_backward s = Returns s' \<and> displays s' (edit_spec EDeleteWord (l, r))"
proof -
  define l1 where "l1 = back_to char_is_whitespace l"
  define l2 where "l2 = back_to (\<lambda>c. \<not> char_is_whitespace c) l1"
  obtain d1 where d1: "l = l1 @ d1" using back_to_prefix l1_def by metis
  obtain d2 where d2: "l1 = l2 @ d2" using back_to_prefix l2_def by metis
  have s: "list_all utf8_char l" "list_all utf8_char r" "il_buf s = concat l @ concat r" "il_cursor_byte s = length (concat l)"
    "il_cursor_char s = length l" using assms by (simp_all add: displays_def)
  have 1: "back_while char_is_whitespace (il_buf s) (il_cursor_char s) (il_cursor_byte s) = (length l1, length (concat l1))"
    using back_while_spec [OF s(1)] s by (simp add: l1_def)
  have 2: "back_while (\<lambda>c. \<not> char_is_whitespace c) (il_buf s) (length l1) (length (concat l1)) = (length l2, length (concat l2))"
    using back_while_spec [of l1 _ "concat d1 @ concat r"] s(1,3) d1 by (simp add: l2_def)
  have e: "edit_spec EDeleteWord (l, r) = (l2, r)" by (simp add: l1_def l2_def back_to_def)
  have "is_char_boundary (il_buf s) (length (concat l2))" "is_char_boundary (il_buf s) (length (concat l))"
    using boundary_between [of "d2 @ d1 @ r" "concat l2"] boundary_between [of r "concat l"] s d1 d2 by auto
  then show ?thesis
    using 1 2 s d1 d2 unfolding e
    by (auto simp: delete_word_backward_def displays_def string_drain_def with_buf_def Let_def)
qed

lemma edit_refines:
  assumes "displays s e" "edit_ok x"
  shows "\<exists>s'. edit_line x s = Returns s' \<and> displays s' (edit_spec x e)"
proof -
  obtain l r where e: "e = (l, r)" by (cases e)
  have s: "list_all utf8_char l" "list_all utf8_char r" "il_buf s = concat l @ concat r" "il_cursor_byte s = length (concat l)"
    "il_cursor_char s = length l" using assms(1) by (simp_all add: displays_def e)
  have b: "is_char_boundary (il_buf s) (length (concat l))" using boundary_between [OF s(2)] s(3) by simp
  have left: "prev_char_boundary (il_buf s) (length (concat l)) = length (concat l0)" "is_char_boundary (il_buf s) (length (concat l0))"
    if "l = l0 @ [c]" for l0 c
    using prev_boundary [of c "concat l0" "concat r"] boundary_between [of "c # r" "concat l0"] s that by auto
  have right: "next_char_boundary (il_buf s) (length (concat l)) = length (concat (l @ [c]))"
      "is_char_boundary (il_buf s) (length (concat (l @ [c])))" "length (concat l) < length (il_buf s)" if "r = c # r0" for c r0
    using next_boundary [of c r0 "concat l"] boundary_between [of r0 "concat (l @ [c])"] s that by (auto simp: utf8_char_def)
  have nil: "length (concat r) = 0 \<longleftrightarrow> r = []" using s(2) by (cases r) (auto simp: utf8_char_def)
  show ?thesis
  proof (cases x)
    case EBackspace
    then show ?thesis using e s b left
      by (cases l rule: rev_cases) (auto simp: displays_def backspace_def string_drain_def with_buf_def Let_def)
  next
    case EDelete
    then show ?thesis using e s b right
      by (cases r) (auto simp: displays_def delete_char_def string_drain_def with_buf_def)
  next
    case ELeft
    then show ?thesis using e s left by (cases l rule: rev_cases) (auto simp: displays_def move_left_def)
  next
    case ERight
    then show ?thesis using e s right by (cases r) (auto simp: displays_def move_right_def)
  next
    case EDeleteWord
    then show ?thesis using e displays_delete_word assms(1) by simp
  next
    case (EInsert c)
    then show ?thesis using e s b assms(2) by (simp add: displays_def insert_char_def string_insert_def with_buf_def)
  next
    case EHome
    then show ?thesis using e s by (simp add: displays_def move_home_def)
  next
    case EEnd
    then show ?thesis using e s char_count_concat [of "l @ r"] by (simp add: displays_def move_end_def)
  next
    case EKill
    then show ?thesis using e displays_new by (simp add: input_clear_def)
  next
    case EKillToEnd
    then show ?thesis using e s b by (simp add: displays_def kill_to_end_def)
  next
    case (EScroll w)
    then show ?thesis using e s by (simp add: displays_def update_scroll_def)
  next
    case (ESet cs)
    then show ?thesis using e assms(2) char_count_concat [of cs] by (simp add: displays_def set_content_def)
  qed
qed

text \<open>
  C17. The input line is a correct text editor for UTF-8: after any sequence of keystrokes the code
  has not panicked at a character boundary, and its buffer, byte offset and character count are
  those of an editor that keeps the characters before and after the cursor.
\<close>

theorem input_line_refines:
  assumes "list_all edit_ok es"
  shows "\<exists>s. edit_lines es input_new = Returns s \<and> displays s (fold edit_spec es ([], []))"
proof -
  have "\<exists>s'. edit_lines es s = Returns s' \<and> displays s' (fold edit_spec es e)" if "displays s e" for s e
    using that assms
  proof (induction es arbitrary: s e)
    case (Cons x es)
    obtain s1 where "edit_line x s = Returns s1" "displays s1 (edit_spec x e)" using edit_refines Cons.prems by fastforce
    then show ?case using Cons.IH [of s1 "edit_spec x e"] Cons.prems by simp
  qed simp
  then show ?thesis using displays_new by blast
qed

theorem input_line_refines_witness:
  "\<exists>s. edit_lines [EInsert ''a'', EInsert [CHR 0xC3, CHR 0xA9], EInsert '' '', ELeft, ELeft, EBackspace, EEnd] input_new = Returns s \<and>
     displays s ([[CHR 0xC3, CHR 0xA9], '' ''], [])"
proof -
  have "list_all edit_ok [EInsert ''a'', EInsert [CHR 0xC3, CHR 0xA9], EInsert '' '', ELeft, ELeft, EBackspace, EEnd]"
    by (simp add: utf8_char_def byte_in_def)
  from input_line_refines [OF this] show ?thesis by simp
qed

text \<open>After an update of the scroll offset the cursor is in the window.\<close>

lemma update_scroll_visible:
  "0 < w \<Longrightarrow> il_scroll (update_scroll w s) \<le> il_cursor_char s \<and> il_cursor_char s < il_scroll (update_scroll w s) + w"
  by (auto simp: update_scroll_def)

section \<open>The history\<close>

record input_history =
  ih_entries :: "string list"
  ih_max :: nat
  ih_cursor :: nat
  ih_draft :: string

definition history_new :: "nat \<Rightarrow> input_history" where
  "history_new n = \<lparr>ih_entries = [], ih_max = n, ih_cursor = 0, ih_draft = []\<rparr>"

definition reset_navigation :: "input_history \<Rightarrow> input_history" where
  "reset_navigation h = h\<lparr>ih_cursor := length (ih_entries h), ih_draft := []\<rparr>"

definition history_push :: "string \<Rightarrow> input_history \<Rightarrow> input_history" where
  "history_push line h =
     (if trim line = [] then h
      else if ih_entries h \<noteq> [] \<and> last (ih_entries h) = line then reset_navigation h
      else
        (let es = ih_entries h @ [line] in
         reset_navigation (h\<lparr>ih_entries := if length es > ih_max h then tl es else es\<rparr>)))"

definition navigate_up :: "string \<Rightarrow> input_history \<Rightarrow> string option \<times> input_history" where
  "navigate_up current h =
     (if ih_entries h = [] then (None, h)
      else
        (let h1 = (if ih_cursor h = length (ih_entries h) then h\<lparr>ih_draft := current\<rparr> else h) in
         if ih_cursor h1 = 0 then (None, h1)
         else (Some (ih_entries h ! (ih_cursor h1 - 1)), h1\<lparr>ih_cursor := ih_cursor h1 - 1\<rparr>)))"

definition navigate_down :: "input_history \<Rightarrow> string option \<times> input_history" where
  "navigate_down h =
     (if ih_cursor h \<ge> length (ih_entries h) then (None, h)
      else
        (let h1 = h\<lparr>ih_cursor := ih_cursor h + 1\<rparr> in
         (Some (if ih_cursor h1 = length (ih_entries h) then ih_draft h else ih_entries h ! ih_cursor h1), h1)))"

definition history_wf :: "input_history \<Rightarrow> bool" where
  "history_wf h \<longleftrightarrow> ih_cursor h \<le> length (ih_entries h) \<and> length (ih_entries h) \<le> ih_max h \<and>
     distinct_adj (ih_entries h)"

lemma history_wf_push: "history_wf h \<Longrightarrow> history_wf (history_push line h)"
proof -
  assume h: "history_wf h"
  have "distinct_adj (tl xs)" if "distinct_adj xs" for xs :: "string list" using that by (cases xs) (auto simp: distinct_adj_Cons)
  moreover have "distinct_adj (ih_entries h @ [line])" if "ih_entries h = [] \<or> last (ih_entries h) \<noteq> line"
    using h that by (auto simp: history_wf_def distinct_adj_append_iff)
  ultimately show ?thesis using h by (auto simp: history_wf_def history_push_def reset_navigation_def Let_def)
qed

lemma history_wf_navigate: "history_wf h \<Longrightarrow> history_wf (snd (navigate_up t h))" "history_wf h \<Longrightarrow> history_wf (snd (navigate_down h))"
  by (auto simp: history_wf_def navigate_up_def navigate_down_def Let_def)

text \<open>Going up and down again shows what was there before.\<close>

lemma navigate_up_down:
  assumes "history_wf h" "navigate_up t h = (Some e, h')"
  shows "navigate_down h' = (Some (if ih_cursor h = length (ih_entries h) then t else ih_entries h ! ih_cursor h),
    h\<lparr>ih_draft := ih_draft h'\<rparr>)"
  using assms by (auto simp: history_wf_def navigate_up_def navigate_down_def Let_def split: if_splits)

end
