(* ===== verification/P2P_Session.thy ===== *)
theory P2P_Session
  imports P2P_Codec
begin

text \<open>
  Establishing a peer-to-peer connection (\<^verbatim>\<open>pirc-p2p\<close>): the STUN and TURN clients (\<^verbatim>\<open>stun.rs\<close>,
  \<^verbatim>\<open>turn/client.rs\<close>), ICE candidates (\<^verbatim>\<open>ice.rs\<close>), connectivity checks (\<^verbatim>\<open>connectivity.rs\<close>), the session
  (\<^verbatim>\<open>session.rs\<close>) and the transports (\<^verbatim>\<open>transport.rs\<close>). The network is a parameter: for each attempt of a
  request it gives the outcome of sending and what is received before the timeout. Transaction ids
  are drawn from a parameter, and so are the text form of IP addresses and the hash functions.
\<close>

section \<open>Requests over the network\<close>

datatype recv_result = Datagram bytes | RecvError string | TimedOut

text \<open>For each attempt, the error of sending, if any, and what is received.\<close>

type_synonym network = "nat \<Rightarrow> string option \<times> recv_result"

definition MAX_RETRANSMISSIONS :: nat where "MAX_RETRANSMISSIONS = 3"

fun discover_loop :: "network \<Rightarrow> bytes \<Rightarrow> socket_addr \<Rightarrow> nat list \<Rightarrow> p2p_error + socket_addr" where
  "discover_loop net expected_tid server [] = Err (StunTimeout server)"
| "discover_loop net expected_tid server (attempt # attempts) =
     (case net attempt of
        (Some e, _) \<Rightarrow> Err (IoErr e)
      | (None, Datagram d) \<Rightarrow>
          result_bind (stun_from_bytes (take 1024 d)) (\<lambda>response.
            if sm_tid response \<noteq> expected_tid then discover_loop net expected_tid server attempts
            else if is_binding_error response then Err (StunErr ''server returned Binding Error Response'')
            else if \<not> is_binding_response response
            then Err (StunErr (''unexpected message type: 0x'' @ hex_width 4 (unat (sm_type response))))
            else ok_or (StunErr ''Binding Response contained no MAPPED-ADDRESS or XOR-MAPPED-ADDRESS'') (stun_mapped_address response))
      | (None, RecvError e) \<Rightarrow> Err (IoErr e)
      | (None, TimedOut) \<Rightarrow> discover_loop net expected_tid server attempts)"

definition discover_reflexive_address :: "network \<Rightarrow> bytes \<Rightarrow> socket_addr \<Rightarrow> p2p_error + socket_addr" where
  "discover_reflexive_address net tid server = discover_loop net tid server [0..<MAX_RETRANSMISSIONS + 1]"

fun turn_request_loop :: "network \<Rightarrow> bytes \<Rightarrow> socket_addr \<Rightarrow> nat list \<Rightarrow> p2p_error + turn_message" where
  "turn_request_loop net expected_tid server [] = Err (TurnTimeout server)"
| "turn_request_loop net expected_tid server (attempt # attempts) =
     (case net attempt of
        (Some e, _) \<Rightarrow> Err (IoErr e)
      | (None, Datagram d) \<Rightarrow>
          result_bind (turn_from_bytes (take 4096 d)) (\<lambda>response.
            if tm_tid response \<noteq> expected_tid then turn_request_loop net expected_tid server attempts else Ok response)
      | (None, RecvError e) \<Rightarrow> Err (IoErr e)
      | (None, TimedOut) \<Rightarrow> turn_request_loop net expected_tid server attempts)"

text \<open>The bytes that are sent and the answer.\<close>

definition send_turn_request ::
  "(bytes \<Rightarrow> bytes \<Rightarrow> bytes) \<Rightarrow> network \<Rightarrow> socket_addr \<Rightarrow> turn_message \<Rightarrow> bytes option \<Rightarrow> bytes \<times> (p2p_error + turn_message)" where
  "send_turn_request hmac net server msg integrity_key =
     (turn_to_bytes hmac msg integrity_key, turn_request_loop net (tm_tid msg) server [0..<MAX_RETRANSMISSIONS + 1])"

definition compute_long_term_key :: "(bytes \<Rightarrow> bytes) \<Rightarrow> string \<Rightarrow> string \<Rightarrow> string \<Rightarrow> bytes" where
  "compute_long_term_key md5 username realm password = md5 (ascii (username @ '':'' @ realm @ '':'' @ password))"

record turn_allocation =
  al_relay_addr :: socket_addr
  al_mapped_addr :: "socket_addr option"
  al_lifetime :: u32

record turn_env =
  te_hmac :: "bytes \<Rightarrow> bytes \<Rightarrow> bytes"
  te_md5 :: "bytes \<Rightarrow> bytes"
  te_net :: "nat \<Rightarrow> network"
  te_tid :: "nat \<Rightarrow> bytes"

text \<open>The error text of a response, with what is reported if it has none.\<close>

definition error_text :: "turn_message \<Rightarrow> string" where
  "error_text response =
     (let (code, reason) = (case turn_error_code response of Some cr \<Rightarrow> cr | None \<Rightarrow> (0, ''unknown error'')) in
      nat_to_string (unat code) @ '': '' @ reason)"

definition unexpected_type :: "turn_message \<Rightarrow> string" where
  "unexpected_type response = ''unexpected message type: 0x'' @ hex_width 4 (unat (tm_type response))"

definition allocate :: "turn_env \<Rightarrow> socket_addr \<Rightarrow> string \<Rightarrow> string \<Rightarrow> p2p_error + turn_allocation" where
  "allocate E server username password =
     result_bind (snd (send_turn_request (te_hmac E) (te_net E 0) server (allocate_request (te_tid E 0)) None)) (\<lambda>response.
       if tm_type response \<noteq> ALLOCATE_ERROR_RESPONSE
       then Err (TurnErr ''expected 401 Unauthorized from initial allocate, got success'')
       else
         (let error_code = (case turn_error_code response of Some (c, _) \<Rightarrow> c | None \<Rightarrow> 0) in
          if error_code \<noteq> 401
          then Err (TurnErr (''unexpected error '' @ nat_to_string (unat error_code) @ '': ''
                 @ (case turn_error_code response of Some (_, r) \<Rightarrow> r | None \<Rightarrow> [])))
          else
            result_bind (ok_or (TurnErr ''401 response missing REALM'') (turn_realm response)) (\<lambda>realm.
            result_bind (ok_or (TurnErr ''401 response missing NONCE'') (turn_nonce response)) (\<lambda>nonce.
              let creds = \<lparr>tc_username = username, tc_password = password, tc_realm = realm, tc_nonce = nonce\<rparr>;
                  key = compute_long_term_key (te_md5 E) username realm password in
            result_bind (snd (send_turn_request (te_hmac E) (te_net E 1) server
                (allocate_request_with_credentials (te_tid E 1) creds) (Some key))) (\<lambda>auth_response.
              if tm_type auth_response = ALLOCATE_ERROR_RESPONSE
              then Err (TurnErr (''allocate failed with error '' @ error_text auth_response))
              else if tm_type auth_response \<noteq> ALLOCATE_RESPONSE then Err (TurnErr (unexpected_type auth_response))
              else
                result_bind (ok_or (TurnErr ''Allocate response missing XOR-RELAYED-ADDRESS'') (relayed_address auth_response)) (\<lambda>relay_addr.
                  Ok \<lparr>al_relay_addr = relay_addr, al_mapped_addr = turn_mapped_address auth_response,
                      al_lifetime = (case turn_lifetime auth_response of Some l \<Rightarrow> l | None \<Rightarrow> 600)\<rparr>))))))"

definition create_permission :: "turn_env \<Rightarrow> socket_addr \<Rightarrow> socket_addr \<Rightarrow> turn_credentials \<Rightarrow> p2p_error + unit" where
  "create_permission E server peer creds =
     (let key = compute_long_term_key (te_md5 E) (tc_username creds) (tc_realm creds) (tc_password creds) in
      result_bind (snd (send_turn_request (te_hmac E) (te_net E 0) server (create_permission_request (te_tid E 0) peer creds) (Some key)))
        (\<lambda>response.
          if tm_type response = CREATE_PERMISSION_ERROR_RESPONSE
          then Err (TurnErr (''CreatePermission failed with error '' @ error_text response))
          else if tm_type response \<noteq> CREATE_PERMISSION_RESPONSE then Err (TurnErr (unexpected_type response))
          else Ok ()))"

definition channel_bind :: "turn_env \<Rightarrow> socket_addr \<Rightarrow> u16 \<Rightarrow> socket_addr \<Rightarrow> turn_credentials \<Rightarrow> p2p_error + unit" where
  "channel_bind E server channel peer creds =
     (if \<not> (0x4000 \<le> channel \<and> channel \<le> 0x7FFF)
      then Err (TurnErr (''invalid channel number 0x'' @ hex_width 4 (unat channel) @ '': must be in range 0x4000-0x7FFF''))
      else
        (let key = compute_long_term_key (te_md5 E) (tc_username creds) (tc_realm creds) (tc_password creds) in
         result_bind (snd (send_turn_request (te_hmac E) (te_net E 0) server (channel_bind_request (te_tid E 0) channel peer creds) (Some key)))
           (\<lambda>response.
             if tm_type response = CHANNEL_BIND_ERROR_RESPONSE
             then Err (TurnErr (''ChannelBind failed with error '' @ error_text response))
             else if tm_type response \<noteq> CHANNEL_BIND_RESPONSE then Err (TurnErr (unexpected_type response))
             else Ok ())))"

section \<open>Transports\<close>

text \<open>The datagram that carries a payload through the relay, and the first payload among the datagrams that arrive.\<close>

definition relay_send :: "(bytes \<Rightarrow> bytes \<Rightarrow> bytes) \<Rightarrow> bytes \<Rightarrow> socket_addr \<Rightarrow> bytes \<Rightarrow> p2p_error + bytes" where
  "relay_send hmac tid peer payload =
     result_bind (encode_frame payload) (\<lambda>frame. Ok (turn_to_bytes hmac (send_indication tid peer frame) None))"

fun relay_recv :: "bytes list \<Rightarrow> (p2p_error + bytes) option" where
  "relay_recv [] = None"
| "relay_recv (d # ds) =
     (case parse_data_indication (take 4096 d) of
        Ok (_, data) \<Rightarrow> Some (decode_frame data)
      | Err _ \<Rightarrow> relay_recv ds)"

text \<open>What the keep-alive tasks of both transports send.\<close>

definition keepalive :: "bytes \<Rightarrow> bytes" where "keepalive tid = stun_to_bytes (binding_request tid)"

text \<open>
  A keep-alive reaches the application of the peer: the direct transport does not ignore the
  binding request of the other side but takes it for a frame and delivers a message of one zero byte.
\<close>

theorem keepalive_delivered: "udp_recv (keepalive tid) = Ok [0]"
proof -
  have "keepalive tid = [0, 1, 0, 0] @ u32_to_be MAGIC_COOKIE @ tid"
    by (simp add: keepalive_def stun_to_bytes_def binding_request_def stun_encode_attributes_def stun_header_def u16_to_be_def BINDING_REQUEST_def)
  then show ?thesis
    by (simp add: udp_recv_def decode_frame_def FRAME_HEADER_SIZE_def MAX_PAYLOAD_SIZE_def u16_from_be_def from_bytes_be_def numeral_2_eq_2 [symmetric])
qed

lemma relayed_frame_arrives:
  assumes "encode_frame payload = Ok frame" "length tid = 12" "address_wf peer"
  shows "relay_recv [turn_to_bytes hmac \<lparr>tm_type = DATA_INDICATION, tm_tid = tid, tm_attributes = [TurnPeerAddress peer, TurnData frame]\<rparr> None]
    = Some (Ok payload)"
proof -
  let ?m = "\<lparr>tm_type = DATA_INDICATION, tm_tid = tid, tm_attributes = [TurnPeerAddress peer, TurnData frame]\<rparr>"
  have short: "length frame \<le> 1202" "decode_frame frame = Ok payload"
    using frame_roundtrip [OF assms(1)] by (simp_all add: udp_recv_def FRAME_HEADER_SIZE_def MAX_PAYLOAD_SIZE_def)
  have "length (turn_encode_attributes ?m) \<le> 8 + padded_len 20 + padded_len (length frame)"
    using encode_xor_address_length [OF assms(2,3)] by (simp add: turn_encode_attributes_def tlv_length padded_len_mono)
  moreover have "padded_len (length frame) \<le> 1205" using short(1) by (simp add: padded_len_def)
  ultimately have len: "length (turn_encode_attributes ?m) \<le> 1233" by (simp add: padded_len_def)
  then have "turn_ok ?m" using assms(2,3) short(1) by (simp add: turn_ok_def TRANSACTION_ID_SIZE_def DATA_INDICATION_def)
  moreover have "length (turn_to_bytes hmac ?m None) \<le> 4096" using len assms(2) by (simp add: turn_to_bytes_def stun_header_def Let_def)
  ultimately show ?thesis
    by (simp add: parse_data_indication_def turn_read_back peer_address_def turn_data_def short(2))
qed

lemma discover_skips:
  assumes "\<forall>j\<in>set before. net j = (None, TimedOut)"
  shows "discover_loop net tid server (before @ after) = discover_loop net tid server after"
  using assms by (induction before) auto

lemma discover_answered:
  assumes "\<forall>j<i. net j = (None, TimedOut)" "i \<le> MAX_RETRANSMISSIONS" "net i = (None, Datagram (stun_to_bytes r))"
    "stun_ok r" "length (stun_to_bytes r) \<le> 1024" "sm_tid r = tid" "sm_type r = BINDING_RESPONSE" "stun_mapped_address r = Some a"
  shows "discover_reflexive_address net tid server = Ok a"
proof -
  have "[0..<MAX_RETRANSMISSIONS + 1] = [0..<i] @ i # [Suc i..<MAX_RETRANSMISSIONS + 1]"
    using assms(2) upt_add_eq_append [of 0 i "MAX_RETRANSMISSIONS + 1 - i"] by (simp add: upt_conv_Cons)
  then show ?thesis
    using discover_skips [of "[0..<i]" net tid server] assms
    by (simp add: discover_reflexive_address_def stun_roundtrip is_binding_error_def is_binding_response_def stun_constants)
qed

text \<open>Datagrams that are not meant for the request use up its attempts.\<close>

lemma discover_exhausted:
  assumes "\<And>i. \<exists>r. net i = (None, Datagram (stun_to_bytes r)) \<and> stun_ok r \<and> length (stun_to_bytes r) \<le> 1024 \<and> sm_tid r \<noteq> tid"
  shows "discover_reflexive_address net tid server = Err (StunTimeout server)"
proof -
  have "discover_loop net tid server attempts = Err (StunTimeout server)" for attempts
  proof (induction attempts)
    case (Cons i attempts)
    obtain r where "net i = (None, Datagram (stun_to_bytes r))" "stun_ok r" "length (stun_to_bytes r) \<le> 1024" "sm_tid r \<noteq> tid"
      using assms by blast
    then show ?case using Cons by (simp add: stun_roundtrip)
  qed simp
  then show ?thesis by (simp add: discover_reflexive_address_def)
qed

section \<open>Candidates\<close>

datatype candidate_type = Host | ServerReflexive | Relay

fun type_preference :: "candidate_type \<Rightarrow> u32" where
  "type_preference Host = 126"
| "type_preference ServerReflexive = 100"
| "type_preference Relay = 0"

fun candidate_type_display :: "candidate_type \<Rightarrow> string" where
  "candidate_type_display Host = ''host''"
| "candidate_type_display ServerReflexive = ''srflx''"
| "candidate_type_display Relay = ''relay''"

definition candidate_type_from_str :: "string \<Rightarrow> p2p_error + candidate_type" where
  "candidate_type_from_str s =
     (if s = ''host'' then Ok Host else if s = ''srflx'' then Ok ServerReflexive else if s = ''relay'' then Ok Relay
      else Err (IceErr (''unknown candidate type: '' @ s)))"

record ice_candidate =
  ic_type :: candidate_type
  ic_address :: socket_addr
  ic_priority :: u32
  ic_foundation :: string
  ic_component :: u16

definition compute_priority :: "candidate_type \<Rightarrow> u16 \<Rightarrow> u16 \<Rightarrow> u32" where
  "compute_priority candidate_type local_preference component =
     push_bit 24 (type_preference candidate_type) + push_bit 8 (ucast local_preference) + (256 - ucast component)"

definition candidate_new :: "candidate_type \<Rightarrow> socket_addr \<Rightarrow> u16 \<Rightarrow> string \<Rightarrow> u16 \<Rightarrow> ice_candidate" where
  "candidate_new t address local_preference foundation component =
     \<lparr>ic_type = t, ic_address = address, ic_priority = compute_priority t local_preference component,
      ic_foundation = foundation, ic_component = component\<rparr>"

text \<open>\<^verbatim>\<open>Display\<close> and \<^verbatim>\<open>FromStr\<close> of \<^verbatim>\<open>IpAddr\<close>.\<close>

record ip_text =
  ip_display :: "ip_addr \<Rightarrow> string"
  ip_parse :: "string \<Rightarrow> string + ip_addr"

definition ip_text_laws :: "ip_text \<Rightarrow> bool" where
  "ip_text_laws T \<longleftrightarrow>
     (\<forall>ip. (case ip of V4 _ \<Rightarrow> True | V6 octets \<Rightarrow> length octets = 16) \<longrightarrow>
        ip_parse T (ip_display T ip) = Ok ip \<and> ip_display T ip \<noteq> [] \<and> list_all ascii_graphic (ip_display T ip))"

definition sdp_words :: "ip_text \<Rightarrow> ice_candidate \<Rightarrow> string list" where
  "sdp_words T c =
     [ic_foundation c, nat_to_string (unat (ic_component c)), ''udp'', nat_to_string (unat (ic_priority c)),
      ip_display T (sa_ip (ic_address c)), nat_to_string (unat (sa_port (ic_address c))), ''typ'', candidate_type_display (ic_type c)]"

definition to_sdp_string :: "ip_text \<Rightarrow> ice_candidate \<Rightarrow> string" where
  "to_sdp_string T c = join_with '' '' (sdp_words T c)"

text \<open>\<^verbatim>\<open>str::parse\<close> for unsigned integers with its errors.\<close>

fun uint_digits :: "nat \<Rightarrow> nat \<Rightarrow> string \<Rightarrow> string + nat" where
  "uint_digits bound acc [] = Ok acc"
| "uint_digits bound acc (c # cs) =
     (if \<not> is_ascii_digit (of_char c) then Err ''invalid digit found in string''
      else
        (let v = acc * 10 + (of_char c - 48) in
         if v > bound then Err ''number too large to fit in target type'' else uint_digits bound v cs))"

definition parse_uint :: "nat \<Rightarrow> string \<Rightarrow> string + nat" where
  "parse_uint bound s =
     (if s = [] then Err ''cannot parse integer from empty string''
      else if s = ''+'' then Err ''invalid digit found in string''
      else uint_digits bound 0 (if hd s = CHR ''+'' then tl s else s))"

definition from_sdp_string :: "ip_text \<Rightarrow> string \<Rightarrow> p2p_error + ice_candidate" where
  "from_sdp_string T s =
     (let parts = split_whitespace s in
      if length parts \<noteq> 8
      then Err (IceErr (''invalid candidate string: expected 8 fields, got '' @ nat_to_string (length parts)))
      else if parts ! 2 \<noteq> ''udp'' then Err (IceErr (''unsupported transport: '' @ parts ! 2 @ '' (expected udp)''))
      else if parts ! 6 \<noteq> ''typ'' then Err (IceErr (''expected 'typ' keyword at position 6, got '' @ [CHR 0x27] @ parts ! 6 @ [CHR 0x27]))
      else
        result_bind (map_err (\<lambda>e. IceErr (''invalid component: '' @ e)) (parse_uint U16_MAX (parts ! 1))) (\<lambda>component.
        result_bind (map_err (\<lambda>e. IceErr (''invalid priority: '' @ e)) (parse_uint U32_MAX (parts ! 3))) (\<lambda>priority.
        result_bind (map_err (\<lambda>e. IceErr (''invalid IP address: '' @ e)) (ip_parse T (parts ! 4))) (\<lambda>ip.
        result_bind (map_err (\<lambda>e. IceErr (''invalid port: '' @ e)) (parse_uint U16_MAX (parts ! 5))) (\<lambda>port.
        result_bind (candidate_type_from_str (parts ! 7)) (\<lambda>t.
          Ok \<lparr>ic_type = t, ic_address = \<lparr>sa_ip = ip, sa_port = word_of_nat port\<rparr>, ic_priority = word_of_nat priority,
              ic_foundation = parts ! 0, ic_component = word_of_nat component\<rparr>))))))"

lemma parse_digits_ge: "parse_digits acc s = Some n \<Longrightarrow> acc \<le> n"
  by (induction acc s rule: parse_digits.induct) (force split: if_splits)+

lemma uint_digits_parse: "parse_digits acc s = Some n \<Longrightarrow> n \<le> bound \<Longrightarrow> uint_digits bound acc s = Ok n"
proof (induction acc s rule: parse_digits.induct)
  case (2 acc c cs)
  then show ?case using parse_digits_ge [of "acc * 10 + (of_char c - 48)" cs n] by (auto simp: Let_def split: if_splits)
qed simp

lemma parse_uint_display: "n \<le> bound \<Longrightarrow> parse_uint bound (nat_to_string n) = Ok n"
proof -
  assume n: "n \<le> bound"
  obtain c cs where s: "nat_to_string n = c # cs" by (cases "nat_to_string n") simp_all
  have "c \<noteq> CHR ''+''" using nat_to_string_digits [of c n] by (auto simp: s is_ascii_digit_def)
  then show ?thesis using uint_digits_parse [OF parse_digits_nat_to_string n] by (auto simp: parse_uint_def s)
qed

definition candidate_ok :: "ice_candidate \<Rightarrow> bool" where
  "candidate_ok c \<longleftrightarrow> address_wf (ic_address c) \<and> ic_foundation c \<noteq> [] \<and> list_all ascii_graphic (ic_foundation c)"

lemma sdp_words_graphic:
  assumes "ip_text_laws T" "candidate_ok c"
  shows "list_all (\<lambda>w. w \<noteq> [] \<and> list_all ascii_graphic w) (sdp_words T c)" "ip_parse T (ip_display T (sa_ip (ic_address c))) = Ok (sa_ip (ic_address c))"
proof -
  let ?ip = "ip_display T (sa_ip (ic_address c))"
  have ip: "?ip \<noteq> []" "list_all ascii_graphic ?ip" and "ip_parse T ?ip = Ok (sa_ip (ic_address c))"
    using assms by (auto simp: ip_text_laws_def candidate_ok_def address_wf_def)
  then show "ip_parse T ?ip = Ok (sa_ip (ic_address c))" by blast
  have "list_all ascii_graphic (nat_to_string n)" for n by (simp add: list_all_iff digits_graphic)
  moreover have "candidate_type_display (ic_type c) \<noteq> [] \<and> list_all ascii_graphic (candidate_type_display (ic_type c))"
    by (cases "ic_type c") (simp_all add: ascii_graphic_def byte_in_def)
  moreover have "list_all ascii_graphic ''udp''" "list_all ascii_graphic ''typ''" by (simp_all add: ascii_graphic_def byte_in_def)
  ultimately show "list_all (\<lambda>w. w \<noteq> [] \<and> list_all ascii_graphic w) (sdp_words T c)"
    using assms(2) ip by (simp add: sdp_words_def candidate_ok_def)
qed

text \<open>A candidate is read back from the string that is sent to the peer.\<close>

lemma sdp_roundtrip:
  assumes "ip_text_laws T" "candidate_ok c"
  shows "from_sdp_string T (to_sdp_string T c) = Ok c"
proof -
  have "split_whitespace (to_sdp_string T c) = sdp_words T c"
    unfolding to_sdp_string_def by (rule split_whitespace_words [OF sdp_words_graphic(1) [OF assms]])
  moreover have "candidate_type_from_str (candidate_type_display (ic_type c)) = Ok (ic_type c)"
    by (cases "ic_type c") (simp_all add: candidate_type_from_str_def)
  moreover have "unat (x :: u16) \<le> U16_MAX" "unat (y :: u32) \<le> U32_MAX" for x y
  proof -
    have "unat x < 2 ^ LENGTH(16)" "unat y < 2 ^ LENGTH(32)" by (rule unsigned_less)+
    then show "unat x \<le> U16_MAX" "unat y \<le> U32_MAX" by simp_all
  qed
  ultimately show ?thesis
    using sdp_words_graphic(2) [OF assms] by (simp add: from_sdp_string_def sdp_words_def parse_uint_display)
qed

text \<open>
  The kind of a candidate decides before the local preference: a host candidate comes before a
  reflexive one and that before a relayed one.
\<close>

lemma priority_value:
  assumes "unat component \<le> 256"
  shows "unat (compute_priority t lp component) = unat (type_preference t) * 2 ^ 24 + unat lp * 2 ^ 8 + (256 - unat component)"
proof -
  let ?n = "unat (type_preference t) * 2 ^ 24 + unat lp * 2 ^ 8 + (256 - unat component)"
  have w: "compute_priority t lp component = word_of_nat ?n"
    using assms by (simp add: compute_priority_def push_bit_eq_mult of_nat_diff)
  have "unat lp < 2 ^ LENGTH(16)" by (rule unsigned_less)
  moreover have "unat (type_preference t) \<le> 126" by (cases t) simp_all
  ultimately have "?n < 2 ^ LENGTH(32)" by simp
  then show ?thesis unfolding w by (simp only: unsigned_of_nat take_bit_nat_eq_self of_nat_id)
qed

lemma priority_order:
  assumes "1 \<le> unat c1" "unat c1 \<le> 256" "1 \<le> unat c2" "unat c2 \<le> 256"
  shows "compute_priority Host l1 c1 > compute_priority ServerReflexive l2 c2"
    "compute_priority ServerReflexive l1 c1 > compute_priority Relay l2 c2"
proof -
  have "unat l2 < 2 ^ LENGTH(16)" by (rule unsigned_less)
  then show "compute_priority Host l1 c1 > compute_priority ServerReflexive l2 c2"
    "compute_priority ServerReflexive l1 c1 > compute_priority Relay l2 c2"
    using assms by (simp_all add: word_less_nat_alt priority_value)
qed

section \<open>Gathering\<close>

record gatherer_config =
  gc_stun_server :: "socket_addr option"
  gc_turn_server :: "socket_addr option"
  gc_turn_username :: "string option"
  gc_turn_password :: "string option"

text \<open>Binding the socket, and the networks behind it.\<close>

record p2p_env =
  pe_bind :: "string + socket_addr"
  pe_stun_net :: network
  pe_stun_tid :: bytes
  pe_turn :: turn_env
  pe_ip_text :: ip_text

definition COMPONENT_RTP :: u16 where "COMPONENT_RTP = 1"

definition gather :: "p2p_env \<Rightarrow> gatherer_config \<Rightarrow> p2p_error + ice_candidate list" where
  "gather E cfg =
     result_bind (map_err IoErr (pe_bind E)) (\<lambda>local_addr.
       let host = candidate_new Host local_addr 65535 ''host1'' COMPONENT_RTP;
           srflx = (case gc_stun_server cfg of
              None \<Rightarrow> []
            | Some server \<Rightarrow>
                (case discover_reflexive_address (pe_stun_net E) (pe_stun_tid E) server of
                   Ok a \<Rightarrow> [candidate_new ServerReflexive a 65535 ''srflx1'' COMPONENT_RTP]
                 | Err _ \<Rightarrow> []));
           relay = (case gc_turn_server cfg of
              None \<Rightarrow> []
            | Some server \<Rightarrow>
                (case (gc_turn_username cfg, gc_turn_password cfg) of
                   (Some username, Some password) \<Rightarrow>
                     (case allocate (pe_turn E) server username password of
                        Ok al \<Rightarrow> [candidate_new Relay (al_relay_addr al) 65535 ''relay1'' COMPONENT_RTP]
                      | Err _ \<Rightarrow> [])
                 | _ \<Rightarrow> [])) in
       Ok (sort_key (\<lambda>c. - int (unat (ic_priority c))) (host # srflx @ relay)))"

section \<open>Candidate pairs\<close>

datatype ice_role = Controlling | Controlled

datatype pair_state = Waiting | InProgress | Succeeded | PairFailed

record candidate_pair =
  cp_local :: ice_candidate
  cp_remote :: ice_candidate
  cp_state :: pair_state
  cp_priority :: u64

definition compute_pair_priority :: "u32 \<Rightarrow> u32 \<Rightarrow> ice_role \<Rightarrow> u64" where
  "compute_pair_priority local_priority remote_priority role =
     (let (g, d) = (case role of
            Controlling \<Rightarrow> (ucast local_priority, ucast remote_priority)
          | Controlled \<Rightarrow> (ucast remote_priority, ucast local_priority)) in
      push_bit 32 1 * min g d + 2 * max g d + (if g > d then 1 else 0))"

definition pair_new :: "ice_role \<Rightarrow> ice_candidate \<Rightarrow> ice_candidate \<Rightarrow> candidate_pair" where
  "pair_new role l r =
     \<lparr>cp_local = l, cp_remote = r, cp_state = Waiting, cp_priority = compute_pair_priority (ic_priority l) (ic_priority r) role\<rparr>"

definition form_pairs :: "ice_candidate list \<Rightarrow> ice_candidate list \<Rightarrow> ice_role \<Rightarrow> candidate_pair list" where
  "form_pairs local_cs remote_cs role =
     sort_key (\<lambda>p. - int (unat (cp_priority p))) (concat (map (\<lambda>l. map (pair_new role l) remote_cs) local_cs))"

text \<open>\<^verbatim>\<open>Iterator::max_by_key\<close>: the last element with the largest key.\<close>

fun max_by_key :: "('a \<Rightarrow> 'k::linorder) \<Rightarrow> 'a list \<Rightarrow> 'a option" where
  "max_by_key f [] = None"
| "max_by_key f (x # xs) = (case max_by_key f xs of None \<Rightarrow> Some x | Some y \<Rightarrow> if f y \<ge> f x then Some y else Some x)"

definition nominated_pair :: "candidate_pair list \<Rightarrow> candidate_pair option" where
  "nominated_pair pairs = max_by_key cp_priority (filter (\<lambda>p. cp_state p = Succeeded) pairs)"

text \<open>
  The circumstances of one check: whether the overall deadline has passed before it, whether the
  remaining time is zero when it is measured, the error of binding any socket, and the network.
\<close>

record check_env =
  ck_expired :: bool
  ck_no_budget :: bool
  ck_bind_error :: "string option"
  ck_net :: network
  ck_tid :: bytes

definition MAX_CHECK_RETRIES :: nat where "MAX_CHECK_RETRIES = 2"

definition address_text :: "ip_text \<Rightarrow> socket_addr \<Rightarrow> string" where
  "address_text T a =
     (case sa_ip a of
        V4 _ \<Rightarrow> ip_display T (sa_ip a)
      | V6 _ \<Rightarrow> ''['' @ ip_display T (sa_ip a) @ '']'') @ '':'' @ nat_to_string (unat (sa_port a))"

text \<open>The result of a check, and the datagrams that it sent, each with its destination.\<close>

fun check_loop :: "check_env \<Rightarrow> ip_text \<Rightarrow> socket_addr \<Rightarrow> nat list \<Rightarrow> (p2p_error + unit) \<times> (socket_addr \<times> bytes) list" where
  "check_loop C T remote [] = (Err (IceErr (''STUN connectivity check to '' @ address_text T remote @ '' timed out'')), [])"
| "check_loop C T remote (attempt # attempts) =
     (if ck_no_budget C then (Err (IceErr ''check budget exhausted''), [])
      else
        (let request = (remote, stun_to_bytes (binding_request (ck_tid C)));
             retry = apsnd (Cons request) (check_loop C T remote attempts) in
         case ck_net C attempt of
           (Some e, _) \<Rightarrow> (Err (IoErr e), [])
         | (None, Datagram d) \<Rightarrow>
             (case stun_from_bytes (take 1024 d) of
                Ok response \<Rightarrow>
                  if sm_tid response = ck_tid C \<and> is_binding_response response then (Ok (), [request]) else retry
              | Err _ \<Rightarrow> retry)
         | (None, RecvError e) \<Rightarrow> (Err (IoErr e), [request])
         | (None, TimedOut) \<Rightarrow> retry))"

definition check_pair :: "check_env \<Rightarrow> ip_text \<Rightarrow> socket_addr \<Rightarrow> (p2p_error + unit) \<times> (socket_addr \<times> bytes) list" where
  "check_pair C T remote =
     (case ck_bind_error C of Some e \<Rightarrow> (Err (IoErr e), []) | None \<Rightarrow> check_loop C T remote [0..<MAX_CHECK_RETRIES + 1])"

fun check_all :: "(nat \<Rightarrow> check_env) \<Rightarrow> ip_text \<Rightarrow> nat \<Rightarrow> candidate_pair list \<Rightarrow> candidate_pair list \<times> (socket_addr \<times> bytes) list" where
  "check_all C T i [] = ([], [])"
| "check_all C T i (p # ps) =
     (if ck_expired (C i) then (p # ps, [])
      else
        (case check_pair (C i) T (ic_address (cp_remote p)) of
           (r, sent) \<Rightarrow>
             (case check_all C T (i + 1) ps of
                (qs, sent') \<Rightarrow> (p\<lparr>cp_state := (case r of Ok _ \<Rightarrow> Succeeded | Err _ \<Rightarrow> PairFailed)\<rparr> # qs, sent @ sent'))))"

definition checker_run ::
  "(nat \<Rightarrow> check_env) \<Rightarrow> ip_text \<Rightarrow> candidate_pair list \<Rightarrow> (p2p_error + candidate_pair) \<times> (socket_addr \<times> bytes) list" where
  "checker_run C T pairs =
     (if pairs = [] then (Err (IceErr ''no candidate pairs to check''), [])
      else (case check_all C T 0 pairs of
              (pairs', sent) \<Rightarrow> (ok_or (IceErr ''all connectivity checks failed'') (nominated_pair pairs'), sent)))"

section \<open>The session\<close>

datatype session_state = Idle | GatheringCandidates | OfferSent | AnswerSent | Checking | Connected | SessionFailed

datatype p2p_event =
    SendOffer string "string list"
  | SendAnswer string "string list"
  | SendIceCandidate string string
  | ConnectionEstablished string socket_addr socket_addr
  | ConnectionFailed string string

record p2p_session =
  ps_state :: session_state
  ps_target :: string
  ps_config :: gatherer_config
  ps_local :: "ice_candidate list"
  ps_remote :: "ice_candidate list"
  ps_nominated_local :: "socket_addr option"
  ps_nominated_remote :: "socket_addr option"
  ps_events :: "p2p_event list"

fun session_state_debug :: "session_state \<Rightarrow> string" where
  "session_state_debug Idle = ''Idle''"
| "session_state_debug GatheringCandidates = ''GatheringCandidates''"
| "session_state_debug OfferSent = ''OfferSent''"
| "session_state_debug AnswerSent = ''AnswerSent''"
| "session_state_debug Checking = ''Checking''"
| "session_state_debug Connected = ''Connected''"
| "session_state_debug SessionFailed = ''Failed''"

fun p2p_error_display :: "ip_text \<Rightarrow> p2p_error \<Rightarrow> string" where
  "p2p_error_display T (StunErr e) = ''STUN error: '' @ e"
| "p2p_error_display T (StunTimeout a) = ''STUN request to '' @ address_text T a @ '' timed out''"
| "p2p_error_display T (TurnErr e) = ''TURN error: '' @ e"
| "p2p_error_display T (TurnTimeout a) = ''TURN request to '' @ address_text T a @ '' timed out''"
| "p2p_error_display T (IceErr e) = ''ICE error: '' @ e"
| "p2p_error_display T (IoErr e) = ''I/O error: '' @ e"

definition session_new :: "string \<Rightarrow> gatherer_config \<Rightarrow> p2p_session" where
  "session_new target cfg =
     \<lparr>ps_state = Idle, ps_target = target, ps_config = cfg, ps_local = [], ps_remote = [], ps_nominated_local = None,
      ps_nominated_remote = None, ps_events = []\<rparr>"

definition drain_events :: "p2p_session \<Rightarrow> p2p_event list \<times> p2p_session" where
  "drain_events s = (ps_events s, s\<lparr>ps_events := []\<rparr>)"

definition push_event :: "p2p_event \<Rightarrow> p2p_session \<Rightarrow> p2p_session" where
  "push_event e s = s\<lparr>ps_events := ps_events s @ [e]\<rparr>"

definition session_fail :: "string \<Rightarrow> p2p_session \<Rightarrow> p2p_session" where
  "session_fail reason s = push_event (ConnectionFailed (ps_target s) reason) (s\<lparr>ps_state := SessionFailed\<rparr>)"

definition gather_candidates :: "p2p_env \<Rightarrow> p2p_session \<Rightarrow> (p2p_error + unit) \<times> p2p_session" where
  "gather_candidates E s =
     (let s1 = s\<lparr>ps_state := GatheringCandidates\<rparr> in
      case gather E (ps_config s) of
        Err e \<Rightarrow> (Err e, s1)
      | Ok cs \<Rightarrow>
          (Ok (), s1\<lparr>ps_local := cs, ps_events := ps_events s @ map (\<lambda>c. SendIceCandidate (ps_target s) (to_sdp_string (pe_ip_text E) c)) cs\<rparr>))"

definition initiate :: "p2p_env \<Rightarrow> p2p_session \<Rightarrow> (p2p_error + unit) \<times> p2p_session" where
  "initiate E s =
     (if ps_state s \<noteq> Idle then (Err (IceErr (''cannot initiate from state '' @ session_state_debug (ps_state s))), s)
      else
        (case gather_candidates E s of
           (Err e, s1) \<Rightarrow> (Err e, s1)
         | (Ok _, s1) \<Rightarrow>
             (Ok (), push_event (SendOffer (ps_target s) (map (to_sdp_string (pe_ip_text E)) (ps_local s1))) (s1\<lparr>ps_state := OfferSent\<rparr>))))"

definition respond :: "p2p_env \<Rightarrow> ice_candidate list \<Rightarrow> p2p_session \<Rightarrow> (p2p_error + unit) \<times> p2p_session" where
  "respond E remote_candidates s =
     (if ps_state s \<noteq> Idle then (Err (IceErr (''cannot respond from state '' @ session_state_debug (ps_state s))), s)
      else
        (case gather_candidates E (s\<lparr>ps_remote := remote_candidates\<rparr>) of
           (Err e, s1) \<Rightarrow> (Err e, s1)
         | (Ok _, s1) \<Rightarrow>
             (Ok (), push_event (SendAnswer (ps_target s) (map (to_sdp_string (pe_ip_text E)) (ps_local s1))) (s1\<lparr>ps_state := AnswerSent\<rparr>))))"

definition set_remote_candidates :: "ice_candidate list \<Rightarrow> p2p_session \<Rightarrow> p2p_session" where
  "set_remote_candidates cs s = s\<lparr>ps_remote := cs\<rparr>"

definition add_remote_candidate :: "ice_candidate \<Rightarrow> p2p_session \<Rightarrow> p2p_session" where
  "add_remote_candidate c s = s\<lparr>ps_remote := ps_remote s @ [c]\<rparr>"

text \<open>
  \<open>late\<close> says that the timeout around all checks fires before they end. What the checks send is the
  second component of \<open>checker_run\<close>; the session itself sends nothing.
\<close>

definition run_checks :: "p2p_env \<Rightarrow> (nat \<Rightarrow> check_env) \<Rightarrow> bool \<Rightarrow> p2p_session \<Rightarrow> (p2p_error + unit) \<times> p2p_session" where
  "run_checks E C late s =
     (if ps_state s \<noteq> OfferSent \<and> ps_state s \<noteq> AnswerSent
      then (Err (IceErr (''cannot run checks from state '' @ session_state_debug (ps_state s))), s)
      else if ps_remote s = []
      then (Err (IceErr ''no remote candidates available''), session_fail ''no remote candidates available'' s)
      else
        (let role = (if ps_state s = OfferSent then Controlling else Controlled);
             s1 = s\<lparr>ps_state := Checking\<rparr>;
             timeout_reason = ''session timeout: connection not established within 5 seconds'' in
         if late then (Err (IceErr timeout_reason), session_fail timeout_reason s1)
         else
           (case fst (checker_run C (pe_ip_text E) (form_pairs (ps_local s) (ps_remote s) role)) of
              Err e \<Rightarrow> (Err e, session_fail (p2p_error_display (pe_ip_text E) e) s1)
            | Ok p \<Rightarrow>
                (let l = ic_address (cp_local p); r = ic_address (cp_remote p) in
                 (Ok (), push_event (ConnectionEstablished (ps_target s) l r)
                    (s1\<lparr>ps_state := Connected, ps_nominated_local := Some l, ps_nominated_remote := Some r\<rparr>))))))"

section \<open>What the checks guarantee\<close>

lemma max_by_key_None: "max_by_key f xs = None \<longleftrightarrow> xs = []"
  by (cases xs) (auto split: option.splits)

lemma max_by_key_max: "max_by_key f xs = Some x \<Longrightarrow> x \<in> set xs \<and> (\<forall>y\<in>set xs. f y \<le> f x)"
  by (induction xs arbitrary: x) (force split: option.splits if_splits simp: max_by_key_None)+

text \<open>Both sides give the same priority to the two views of a pair.\<close>

lemma pair_priority_mirror: "compute_pair_priority g d Controlling = compute_pair_priority d g Controlled"
  by (simp add: compute_pair_priority_def)

text \<open>A check only succeeds on a binding response to its own request.\<close>

definition answered :: "check_env \<Rightarrow> bool" where
  "answered C \<longleftrightarrow> (\<exists>a d r. ck_net C a = (None, Datagram d) \<and> stun_from_bytes (take 1024 d) = Ok r \<and> sm_tid r = ck_tid C \<and> is_binding_response r)"

lemma check_loop_answered: "fst (check_loop C T remote attempts) = Ok u \<Longrightarrow> answered C"
  by (induction attempts) (auto simp: answered_def Let_def split: if_splits prod.splits option.splits recv_result.splits sum.splits)

lemma check_pair_answered: "fst (check_pair C T remote) = Ok u \<Longrightarrow> answered C"
  by (auto simp: check_pair_def split: option.splits dest: check_loop_answered)

lemma check_all_succeeded:
  "p \<in> set (fst (check_all C T i ps)) \<Longrightarrow> cp_state p = Succeeded \<Longrightarrow> \<forall>q\<in>set ps. cp_state q = Waiting \<Longrightarrow>
    \<exists>q\<in>set ps. \<exists>j. cp_local p = cp_local q \<and> cp_remote p = cp_remote q \<and> answered (C j)"
  by (induction ps arbitrary: i) (auto simp: case_prod_beta split: if_splits sum.splits dest: check_pair_answered)

text \<open>All that the checks send are the binding requests of their transactions.\<close>

lemma check_loop_sends: "x \<in> set (snd (check_loop C T remote attempts)) \<Longrightarrow> x = (remote, stun_to_bytes (binding_request (ck_tid C)))"
  by (induction attempts) (auto simp: Let_def split: if_splits prod.splits option.splits recv_result.splits sum.splits)

lemma check_all_sends: "x \<in> set (snd (check_all C T i ps)) \<Longrightarrow> \<exists>j remote. x = (remote, stun_to_bytes (binding_request (ck_tid (C j))))"
  by (induction ps arbitrary: i) (auto simp: case_prod_beta check_pair_def split: if_splits option.splits dest: check_loop_sends)

lemma checker_run_sends:
  "x \<in> set (snd (checker_run C T pairs)) \<Longrightarrow> \<exists>j remote. x = (remote, stun_to_bytes (binding_request (ck_tid (C j))))"
  by (auto simp: checker_run_def case_prod_beta split: if_splits dest: check_all_sends)

lemma form_pairs_set: "set (form_pairs L R role) = {pair_new role l r | l r. l \<in> set L \<and> r \<in> set R}"
  by (auto simp: form_pairs_def)

lemma checker_run_sound:
  assumes "fst (checker_run C T (form_pairs L R role)) = Ok p"
  shows "cp_local p \<in> set L" "cp_remote p \<in> set R" "\<exists>j. answered (C j)"
proof -
  let ?ps = "filter (\<lambda>p. cp_state p = Succeeded) (fst (check_all C T 0 (form_pairs L R role)))"
  have "max_by_key cp_priority ?ps = Some p"
    using assms by (auto simp: checker_run_def nominated_pair_def ok_or_def case_prod_beta split: if_splits option.splits)
  from max_by_key_max [OF this] have "p \<in> set (fst (check_all C T 0 (form_pairs L R role)))" "cp_state p = Succeeded" by auto
  moreover have "\<forall>q\<in>set (form_pairs L R role). cp_state q = Waiting" by (auto simp: form_pairs_set pair_new_def)
  ultimately obtain q j where "q \<in> set (form_pairs L R role)" "cp_local p = cp_local q" "cp_remote p = cp_remote q" "answered (C j)"
    using check_all_succeeded by blast
  then show "cp_local p \<in> set L" "cp_remote p \<in> set R" "\<exists>j. answered (C j)" by (auto simp: form_pairs_set pair_new_def)
qed

text \<open>A session that reports a connection has one: its addresses are those of two candidates, and a request was answered.\<close>

lemma connected_sound:
  assumes "run_checks E C late s = (Ok (), s')"
  shows "ps_state s' = Connected" "\<exists>j. answered (C j)"
    "\<exists>l\<in>set (ps_local s). \<exists>r\<in>set (ps_remote s). ps_nominated_local s' = Some (ic_address l) \<and> ps_nominated_remote s' = Some (ic_address r)"
proof -
  obtain role p where p: "fst (checker_run C (pe_ip_text E) (form_pairs (ps_local s) (ps_remote s) role)) = Ok p"
    and s': "ps_state s' = Connected" "ps_nominated_local s' = Some (ic_address (cp_local p))" "ps_nominated_remote s' = Some (ic_address (cp_remote p))"
    using assms by (auto simp: run_checks_def push_event_def Let_def split: if_splits sum.splits)
  from checker_run_sound [OF p] s'
  show "ps_state s' = Connected" "\<exists>j. answered (C j)"
    "\<exists>l\<in>set (ps_local s). \<exists>r\<in>set (ps_remote s). ps_nominated_local s' = Some (ic_address l) \<and> ps_nominated_remote s' = Some (ic_address r)"
    by auto
qed

text \<open>Checks that are not answered fail, and with them the session.\<close>

lemma unanswered_checks_fail:
  assumes "ps_state s \<in> {OfferSent, AnswerSent}" "\<forall>i. \<not> answered (C i)"
  shows "\<exists>e s'. run_checks E C late s = (Err e, s') \<and> ps_state s' = SessionFailed \<and> ps_nominated_remote s' = ps_nominated_remote s"
proof -
  have "\<exists>e. fst (checker_run C T (form_pairs L R role)) = Err e" for T L R role
    using checker_run_sound(3) [of C T L R role] assms(2) by (cases "fst (checker_run C T (form_pairs L R role))") auto
  then obtain e where "\<And>role. fst (checker_run C (pe_ip_text E) (form_pairs (ps_local s) (ps_remote s) role)) = Err (e role)" by metis
  then show ?thesis
    using assms(1) by (auto simp: run_checks_def session_fail_def push_event_def Let_def)
qed

lemma unanswered_not_connected:
  assumes "ps_state s \<noteq> Connected" "\<forall>i. \<not> answered (C i)"
  shows "ps_state (snd (run_checks E C late s)) \<noteq> Connected"
proof (cases "ps_state s \<in> {OfferSent, AnswerSent}")
  case True
  then show ?thesis using unanswered_checks_fail [OF True assms(2), where E = E and late = late] by auto
next
  case False
  then show ?thesis using assms(1) by (auto simp: run_checks_def)
qed

text \<open>A binding request is read as a request, and never as a response.\<close>

lemma request_is_no_response:
  assumes "length tid = TRANSACTION_ID_SIZE" "stun_from_bytes (take 1024 (stun_to_bytes (binding_request tid))) = Ok r"
  shows "\<not> is_binding_response r"
proof -
  have "stun_ok (binding_request tid)" "length (stun_to_bytes (binding_request tid)) \<le> 1024"
    using assms(1) by (simp_all add: stun_ok_def binding_request_def stun_encode_attributes_def stun_to_bytes_def stun_header_def stun_constants
        TRANSACTION_ID_SIZE_def Let_def)
  then show ?thesis using assms(2) by (auto simp: stun_roundtrip binding_request_def is_binding_response_def stun_constants)
qed

text \<open>A session whose candidates cannot be gathered is stuck: it has not failed, and it cannot be started again.\<close>

lemma failed_gathering_stuck:
  assumes "ps_state s = Idle" "pe_bind E = Err e"
  shows "\<exists>s'. initiate E s = (Err (IoErr e), s') \<and> ps_state s' = GatheringCandidates \<and> ps_events s' = ps_events s \<and>
    (\<forall>E'. \<exists>e'. initiate E' s' = (Err e', s')) \<and> (\<forall>E' C late. \<exists>e'. run_checks E' C late s' = (Err e', s'))"
  using assms by (simp add: initiate_def gather_candidates_def gather_def run_checks_def Let_def)

section \<open>A concrete session\<close>

definition sample_peer :: socket_addr where "sample_peer = \<lparr>sa_ip = V4 0x0A000001, sa_port = 4000\<rparr>"

definition sample_session :: p2p_session where
  "sample_session = (session_new ''bob'' \<lparr>gc_stun_server = None, gc_turn_server = None, gc_turn_username = None, gc_turn_password = None\<rparr>)
     \<lparr>ps_state := OfferSent, ps_local := [candidate_new Host sample_peer 65535 ''host1'' 1], ps_remote := [candidate_new Host sample_peer 65535 ''host1'' 1]\<rparr>"

definition sample_check :: check_env where
  "sample_check = \<lparr>ck_expired = False, ck_no_budget = False, ck_bind_error = None,
     ck_net = (\<lambda>a. (None, Datagram (stun_to_bytes (binding_request (replicate 12 7))))), ck_tid = replicate 12 1\<rparr>"

definition sample_p2p :: p2p_env where
  "sample_p2p = \<lparr>pe_bind = Ok sample_peer, pe_stun_net = (\<lambda>a. (None, TimedOut)), pe_stun_tid = replicate 12 2,
     pe_turn = \<lparr>te_hmac = (\<lambda>k d. replicate 20 0), te_md5 = (\<lambda>d. replicate 16 0), te_net = (\<lambda>i a. (None, TimedOut)), te_tid = (\<lambda>i. replicate 12 3)\<rparr>,
     pe_ip_text = \<lparr>ip_display = (\<lambda>ip. ''10.0.0.1''), ip_parse = (\<lambda>t. Ok (V4 0x0A000001))\<rparr>\<rparr>"

end
