(* ===== verification/P2P_Client.thy ===== *)
theory P2P_Client
  imports P2P_Session Protocol_Roundtrip
begin

text \<open>
  The peer-to-peer manager of the client (\<^verbatim>\<open>pirc-client\<close>: \<^verbatim>\<open>p2p.rs\<close>, \<^verbatim>\<open>app/p2p.rs\<close>): sessions by peer, the
  signalling messages that their events become, and the handlers of the signalling messages that
  arrive. A transport is only known by whether it is direct; what sending on it gives is a parameter.
\<close>

section \<open>The manager\<close>

record p2p_manager =
  pm_sessions :: "(string \<times> p2p_session) list"
  pm_config :: gatherer_config
  pm_transports :: "(string \<times> bool) list"

record p2p_config =
  pc_stun_server :: "string option"
  pc_turn_server :: "string option"
  pc_turn_username :: "string option"
  pc_turn_password :: "string option"

definition p2p_manager_new :: "(string \<Rightarrow> socket_addr option) \<Rightarrow> p2p_config \<Rightarrow> p2p_manager" where
  "p2p_manager_new parse_addr cfg =
     \<lparr>pm_sessions = [],
      pm_config = \<lparr>gc_stun_server = Option.bind (pc_stun_server cfg) parse_addr, gc_turn_server = Option.bind (pc_turn_server cfg) parse_addr,
        gc_turn_username = pc_turn_username cfg, gc_turn_password = pc_turn_password cfg\<rparr>,
      pm_transports = []\<rparr>"

definition session_state_of :: "p2p_manager \<Rightarrow> string \<Rightarrow> session_state option" where
  "session_state_of m nick = map_option ps_state (hm_get (pm_sessions m) nick)"

definition p2p_is_connected :: "p2p_manager \<Rightarrow> string \<Rightarrow> bool" where
  "p2p_is_connected m nick \<longleftrightarrow> session_state_of m nick = Some Connected"

fun event_to_message :: "p2p_event \<Rightarrow> message" where
  "event_to_message (SendOffer target offer_data) = message_new (Pirc P2pOffer) (target # offer_data)"
| "event_to_message (SendAnswer target answer_data) = message_new (Pirc P2pAnswer) (target # answer_data)"
| "event_to_message (SendIceCandidate target candidate) = message_new (Pirc P2pIce) [target, candidate]"
| "event_to_message (ConnectionEstablished target l r) = message_new (Pirc P2pEstablished) [target]"
| "event_to_message (ConnectionFailed target reason) = message_new (Pirc P2pFailed) [target, reason]"

definition drain_session_messages :: "p2p_session \<Rightarrow> message list \<times> p2p_session" where
  "drain_session_messages s = (map event_to_message (ps_events s), s\<lparr>ps_events := []\<rparr>)"

definition put_session :: "string \<Rightarrow> p2p_session \<Rightarrow> p2p_manager \<Rightarrow> p2p_manager" where
  "put_session nick s m = m\<lparr>pm_sessions := hm_insert nick s (pm_sessions m)\<rparr>"

definition p2p_initiate :: "p2p_env \<Rightarrow> string \<Rightarrow> p2p_manager \<Rightarrow> message list \<times> p2p_manager" where
  "p2p_initiate E target m =
     (if hm_get (pm_sessions m) target \<noteq> None then ([], m)
      else
        (case initiate E (session_new target (pm_config m)) of
           (Err _, _) \<Rightarrow> ([], m)
         | (Ok _, s) \<Rightarrow> (let (msgs, s1) = drain_session_messages s in (msgs, put_session target s1 m))))"

text \<open>The candidate lines that can be read.\<close>

definition read_candidates :: "ip_text \<Rightarrow> string list \<Rightarrow> ice_candidate list" where
  "read_candidates T ls = List.map_filter (\<lambda>l. case from_sdp_string T l of Ok c \<Rightarrow> Some c | Err _ \<Rightarrow> None) ls"

definition p2p_handle_offer :: "p2p_env \<Rightarrow> (nat \<Rightarrow> check_env) \<Rightarrow> bool \<Rightarrow> string \<Rightarrow> string list \<Rightarrow> p2p_manager \<Rightarrow> message list \<times> p2p_manager" where
  "p2p_handle_offer E C late sender candidate_lines m =
     (let remote = read_candidates (pe_ip_text E) candidate_lines in
      if remote = [] then ([], m)
      else
        (let m1 = m\<lparr>pm_sessions := hm_remove sender (pm_sessions m)\<rparr> in
         case respond E remote (session_new sender (pm_config m)) of
           (Err _, _) \<Rightarrow> ([], m1)
         | (Ok _, s) \<Rightarrow>
             (let (msgs, s1) = drain_session_messages (snd (run_checks E C late s)) in (msgs, put_session sender s1 m1))))"

definition p2p_handle_answer :: "p2p_env \<Rightarrow> (nat \<Rightarrow> check_env) \<Rightarrow> bool \<Rightarrow> string \<Rightarrow> string list \<Rightarrow> p2p_manager \<Rightarrow> message list \<times> p2p_manager" where
  "p2p_handle_answer E C late sender candidate_lines m =
     (case hm_get (pm_sessions m) sender of
        None \<Rightarrow> ([], m)
      | Some s \<Rightarrow>
          if ps_state s \<noteq> OfferSent then ([], m)
          else
            (let s1 = set_remote_candidates (read_candidates (pe_ip_text E) candidate_lines) s;
                 (msgs, s2) = drain_session_messages (snd (run_checks E C late s1)) in
             (msgs, put_session sender s2 m)))"

definition p2p_handle_ice :: "p2p_env \<Rightarrow> string \<Rightarrow> string \<Rightarrow> p2p_manager \<Rightarrow> p2p_manager" where
  "p2p_handle_ice E sender candidate_line m =
     (case hm_get (pm_sessions m) sender of
        None \<Rightarrow> m
      | Some s \<Rightarrow>
          (case from_sdp_string (pe_ip_text E) candidate_line of
             Ok c \<Rightarrow> put_session sender (add_remote_candidate c s) m
           | Err _ \<Rightarrow> m))"

definition p2p_handle_failed :: "string \<Rightarrow> p2p_manager \<Rightarrow> p2p_manager" where
  "p2p_handle_failed sender m =
     m\<lparr>pm_sessions := hm_remove sender (pm_sessions m), pm_transports := hm_remove sender (pm_transports m)\<rparr>"

definition p2p_remove_session :: "string \<Rightarrow> p2p_manager \<Rightarrow> p2p_manager" where
  "p2p_remove_session nick m =
     m\<lparr>pm_sessions := hm_remove nick (pm_sessions m), pm_transports := hm_remove nick (pm_transports m)\<rparr>"

definition p2p_clear :: "p2p_manager \<Rightarrow> p2p_manager" where
  "p2p_clear m = m\<lparr>pm_sessions := [], pm_transports := []\<rparr>"

definition set_transport :: "string \<Rightarrow> bool \<Rightarrow> p2p_manager \<Rightarrow> p2p_manager" where
  "set_transport nick direct m = m\<lparr>pm_transports := hm_insert nick direct (pm_transports m)\<rparr>"

definition send_p2p :: "(string + unit) \<Rightarrow> string \<Rightarrow> p2p_manager \<Rightarrow> (string + bool) \<times> p2p_manager" where
  "send_p2p sent nick m =
     (if hm_get (pm_transports m) nick = None then (Ok False, m)
      else (case sent of Ok _ \<Rightarrow> (Ok True, m) | Err e \<Rightarrow> (Err e, m\<lparr>pm_transports := hm_remove nick (pm_transports m)\<rparr>)))"

definition recv_p2p :: "(string + bytes) \<Rightarrow> string \<Rightarrow> p2p_manager \<Rightarrow> (string + bytes) \<times> p2p_manager" where
  "recv_p2p received nick m =
     (if hm_get (pm_transports m) nick = None then (Err ''no P2P transport for peer'', m)
      else (case received of Ok d \<Rightarrow> (Ok d, m) | Err e \<Rightarrow> (Err e, m\<lparr>pm_transports := hm_remove nick (pm_transports m)\<rparr>)))"

section \<open>Signalling\<close>

text \<open>Whether the message was handled, the lines for the status buffer, the messages to send and the manager.\<close>

definition handle_p2p_message ::
  "p2p_env \<Rightarrow> (nat \<Rightarrow> check_env) \<Rightarrow> bool \<Rightarrow> message \<Rightarrow> p2p_manager \<Rightarrow> bool \<times> string list \<times> message list \<times> p2p_manager" where
  "handle_p2p_message E C late msg m =
     (case msg_prefix msg of
        Some (UserPrefix sender _ _) \<Rightarrow>
          (let params = msg_params msg in
           case msg_command msg of
             Pirc P2pOffer \<Rightarrow>
               (let (out, m1) = p2p_handle_offer E C late sender (tl params) m in (True, [''P2P offer received from '' @ sender], out, m1))
           | Pirc P2pAnswer \<Rightarrow>
               (let (out, m1) = p2p_handle_answer E C late sender (tl params) m in (True, [''P2P answer received from '' @ sender], out, m1))
           | Pirc P2pIce \<Rightarrow>
               (True, [], [], if length params > 1 then p2p_handle_ice E sender (params ! 1) m else m)
           | Pirc P2pEstablished \<Rightarrow> (True, [''P2P connection established with '' @ sender], [], m)
           | Pirc P2pFailed \<Rightarrow>
               (let reason = (if length params > 1 then params ! 1 else []) in
                (True, [''P2P connection with '' @ sender @ '' failed: '' @ reason], [], p2p_handle_failed sender m))
           | _ \<Rightarrow> (False, [], [], m))
      | _ \<Rightarrow> (False, [], [], m))"

text \<open>A candidate line is made of eight words, and a single word is not a candidate.\<close>

lemma words_not_candidates:
  "list_all (\<lambda>w. w \<noteq> [] \<and> list_all ascii_graphic w) ws \<Longrightarrow> read_candidates T (ws @ ls) = read_candidates T ls"
proof (induction ws)
  case (Cons w ws)
  then have "\<exists>e. from_sdp_string T w = Err e" using split_whitespace_words [of "[w]"] by (simp add: from_sdp_string_def)
  then show ?case using Cons by (auto simp: read_candidates_def map_filter_simps)
qed simp

lemma sdp_words_middle:
  assumes "ip_text_laws T" "candidate_ok c" "hd (ic_foundation c) \<noteq> CHR '':''" "hd (ip_display T (sa_ip (ic_address c))) \<noteq> CHR '':''"
  shows "list_all middle_param (sdp_words T c)"
proof -
  have "CHR '' '' \<notin> set w" if "list_all ascii_graphic w" for w using that by (auto simp: list_all_iff ascii_graphic_def byte_in_def)
  then have "list_all (\<lambda>w. w \<noteq> [] \<and> CHR '' '' \<notin> set w) (sdp_words T c)"
    using sdp_words_graphic(1) [OF assms(1,2)] by (auto simp: list_all_iff)
  moreover have "hd (nat_to_string n) \<noteq> CHR '':''" for n
    using nat_to_string_digits [of "hd (nat_to_string n)" n] by (auto simp: is_ascii_digit_def)
  moreover have "hd (candidate_type_display t) \<noteq> CHR '':''" for t by (cases t) simp_all
  ultimately show ?thesis using assms(3,4) by (simp add: sdp_words_def middle_param_def)
qed

lemma params_spread:
  assumes "ws \<noteq> []"
  shows "params_display (p # join_with '' '' ws # [q]) = params_display (p # ws @ [q])"
proof -
  have "concat (map (\<lambda>w. CHR '' '' # w) ws) = CHR '' '' # join_with '' '' ws"
    using assms by (induction "'' ''" ws rule: join_with.induct) auto
  then show ?thesis by (simp add: params_display_def)
qed

text \<open>
  C20. Of two candidates in an offer the first one is lost: a candidate line has spaces, so that every
  line but the last falls apart into words on the wire, and the peer reads the last candidate only,
  which is the one of the lowest priority.
\<close>

theorem offer_loses_candidates:
  assumes "ip_text_laws T" "candidate_ok c1" "candidate_ok c2" "middle_param target" "hd (ic_foundation c1) \<noteq> CHR '':''"
    "hd (ip_display T (sa_ip (ic_address c1))) \<noteq> CHR '':''"
    "length (message_display (event_to_message (SendOffer target [to_sdp_string T c1, to_sdp_string T c2]))) + 2 \<le> MAX_MESSAGE_LEN"
  shows "\<exists>m. parse (message_display (event_to_message (SendOffer target [to_sdp_string T c1, to_sdp_string T c2])) @ [CHR 0x0D, CHR 0x0A]) = Ok m \<and>
    msg_command m = Pirc P2pOffer \<and> hd (msg_params m) = target \<and> read_candidates T (tl (msg_params m)) = [c2]"
proof -
  define m where "m = message_new (Pirc P2pOffer) (target # sdp_words T c1 @ [to_sdp_string T c2])"
  have d: "message_display (event_to_message (SendOffer target [to_sdp_string T c1, to_sdp_string T c2])) = message_display m"
    using params_spread [of "sdp_words T c1" target "to_sdp_string T c2"]
    by (simp add: message_display_def message_new_def m_def to_sdp_string_def [of T c1]) (simp add: sdp_words_def)
  have "message_wire m"
    using sdp_words_middle [OF assms(1,2,5,6)] assms(4)
    by (simp add: m_def message_new_def message_wire_def command_wire_def params_wire_def butlast_append MAX_PARAMS_def) (simp add: sdp_words_def)
  then have "parse (message_display m @ [CHR 0x0D, CHR 0x0A]) = Ok m"
    using assms(7) unfolding d by (intro parse_line) (simp_all add: strip_line_end_crlf)
  moreover have "read_candidates T (tl (msg_params m)) = [c2]"
    using words_not_candidates [OF sdp_words_graphic(1) [OF assms(1,2)], of T "[to_sdp_string T c2]"] sdp_roundtrip [OF assms(1,3)]
    by (simp add: m_def message_new_def read_candidates_def map_filter_simps)
  ultimately show ?thesis unfolding d by (simp add: m_def message_new_def)
qed

section \<open>A concrete offer\<close>

text \<open>A text form of addresses: IPv4 in decimal, IPv6 by two letters for each octet.\<close>

fun sample_display :: "ip_addr \<Rightarrow> string" where
  "sample_display (V4 w) = nat_to_string (unat w)"
| "sample_display (V6 octets) = CHR ''v'' # concat (map (\<lambda>b. [char_of (65 + unat b div 16), char_of (65 + unat b mod 16)]) octets)"

fun sample_octets :: "string \<Rightarrow> bytes" where
  "sample_octets (a # b # r) = word_of_nat ((of_char a - 65) * 16 + (of_char b - 65)) # sample_octets r"
| "sample_octets _ = []"

definition sample_text :: ip_text where
  "sample_text = \<lparr>ip_display = sample_display,
     ip_parse = (\<lambda>t. if t \<noteq> [] \<and> hd t = CHR ''v'' then Ok (V6 (sample_octets (tl t)))
       else (case parse_unsigned U32_MAX t of Some n \<Rightarrow> Ok (V4 (word_of_nat n)) | None \<Rightarrow> Err ''invalid IP address syntax''))\<rparr>"

lemma byte_bound: "unat (b :: 8 word) < 256"
proof -
  have "unat b < 2 ^ LENGTH(8)" by (rule unsigned_less)
  then show ?thesis by simp
qed

lemma sample_text_laws: "ip_text_laws sample_text"
proof -
  have octet: "unat b div 16 \<le> 15" "unat b mod 16 \<le> 15" for b :: "8 word" using byte_bound [of b] by auto
  have v6: "sample_octets (concat (map (\<lambda>b. [char_of (65 + unat b div 16), char_of (65 + unat b mod 16)]) bs)) = bs" for bs :: bytes
  proof (induction bs)
    case (Cons b bs)
    then show ?case using octet [of b] by (simp add: take_bit_nat_eq_self)
  qed simp
  have g: "list_all ascii_graphic (concat (map (\<lambda>b. [char_of (65 + unat b div 16), char_of (65 + unat b mod 16)]) bs))" for bs :: bytes
  proof (induction bs)
    case (Cons b bs)
    then show ?case using octet [of b] by (simp add: ascii_graphic_def byte_in_def take_bit_nat_eq_self)
  qed simp
  have v4: "unat (w :: u32) \<le> U32_MAX" for w
  proof -
    have "unat w < 2 ^ LENGTH(32)" by (rule unsigned_less)
    then show ?thesis by simp
  qed
  have "hd (nat_to_string n) \<noteq> CHR ''v''" for n using nat_to_string_digits [of "hd (nat_to_string n)" n] by (auto simp: is_ascii_digit_def)
  then have "ip_parse sample_text (sample_display (V4 w)) = Ok (V4 w) \<and> sample_display (V4 w) \<noteq> [] \<and> list_all ascii_graphic (sample_display (V4 w))" for w
    using v4 by (simp add: sample_text_def parse_unsigned_nat_to_string list_all_iff digits_graphic)
  moreover have "ip_parse sample_text (sample_display (V6 bs)) = Ok (V6 bs) \<and> sample_display (V6 bs) \<noteq> [] \<and> list_all ascii_graphic (sample_display (V6 bs))" for bs
    using v6 g by (simp add: sample_text_def) (simp add: ascii_graphic_def byte_in_def)
  moreover have "ip_display sample_text = sample_display" by (simp add: sample_text_def)
  ultimately show ?thesis by (simp add: ip_text_laws_def split: ip_addr.splits)
qed

definition sample_host :: ice_candidate where
  "sample_host = \<lparr>ic_type = Host, ic_address = \<lparr>sa_ip = V4 167772161, sa_port = 4000\<rparr>, ic_priority = 2130706431, ic_foundation = ''host1'', ic_component = 1\<rparr>"

definition sample_srflx :: ice_candidate where
  "sample_srflx = \<lparr>ic_type = ServerReflexive, ic_address = \<lparr>sa_ip = V4 3405803777, sa_port = 4001\<rparr>, ic_priority = 1694498815, ic_foundation = ''srflx1'',
     ic_component = 1\<rparr>"

theorem offer_loses_candidates_witness:
  "\<exists>m. parse (message_display (event_to_message (SendOffer ''bob'' [to_sdp_string sample_text sample_host, to_sdp_string sample_text sample_srflx]))
      @ [CHR 0x0D, CHR 0x0A]) = Ok m \<and> read_candidates sample_text (tl (msg_params m)) = [sample_srflx]"
proof -
  have "candidate_ok sample_host" "candidate_ok sample_srflx"
    by (simp_all add: candidate_ok_def sample_host_def sample_srflx_def address_wf_def ascii_graphic_def byte_in_def)
  moreover have "length (message_display (event_to_message (SendOffer ''bob'' [to_sdp_string sample_text sample_host, to_sdp_string sample_text sample_srflx]))) + 2
      \<le> MAX_MESSAGE_LEN"
    by (simp add: message_display_def message_new_def params_display_def to_sdp_string_def sdp_words_def sample_host_def sample_srflx_def sample_text_def
        nat_to_string.simps MAX_MESSAGE_LEN_def)
  moreover have "hd (nat_to_string n) \<noteq> CHR '':''" for n
    using nat_to_string_digits [of "hd (nat_to_string n)" n] by (auto simp: is_ascii_digit_def)
  ultimately show ?thesis
    using offer_loses_candidates [OF sample_text_laws, of sample_host sample_srflx "''bob''"]
    by (auto simp: middle_param_def sample_host_def sample_text_def)
qed

end
