(* ===== verification/P2P_Peers.thy ===== *)
theory P2P_Peers
  imports P2P_Client
begin

text \<open>
  Clients that try to connect to each other: any number of peer-to-peer managers (\<^verbatim>\<open>pirc-client/src/p2p.rs\<close>),
  driven by any signalling messages, and the datagrams that they have sent to candidates and on
  transports. Sending and receiving are separate steps, so that the checks of several clients overlap
  in every way.
\<close>

section \<open>Clients and datagrams\<close>

record peer_world =
  pw_clients :: "string \<Rightarrow> p2p_manager"
  pw_wire :: "(socket_addr \<times> bytes) set"

definition peers_start :: "(string \<Rightarrow> socket_addr option) \<Rightarrow> (string \<Rightarrow> p2p_config) \<Rightarrow> peer_world" where
  "peers_start parse_addr cfg = \<lparr>pw_clients = (\<lambda>k. p2p_manager_new parse_addr (cfg k)), pw_wire = {}\<rparr>"

text \<open>
  The network loses, repeats and redirects datagrams, but makes up none: what a check receives is
  something that a client has sent, or belongs to another transaction, as a late answer of a STUN or
  TURN server to the gathering of candidates does.
\<close>

definition other_transaction :: "bytes \<Rightarrow> bytes \<Rightarrow> bool" where
  "other_transaction tid d \<longleftrightarrow> (case stun_from_bytes (take 1024 d) of Ok r \<Rightarrow> sm_tid r \<noteq> tid | Err _ \<Rightarrow> True)"

definition heard :: "peer_world \<Rightarrow> (nat \<Rightarrow> check_env) \<Rightarrow> bool" where
  "heard w C \<longleftrightarrow>
     (\<forall>i a d. ck_net (C i) a = (None, Datagram d) \<longrightarrow> d \<in> snd ` pw_wire w \<or> other_transaction (ck_tid (C i)) d)"

abbreviation set_client :: "string \<Rightarrow> p2p_manager \<Rightarrow> peer_world \<Rightarrow> peer_world" where
  "set_client k m w \<equiv> w\<lparr>pw_clients := (pw_clients w)(k := m)\<rparr>"

abbreviation emit :: "socket_addr \<times> bytes \<Rightarrow> peer_world \<Rightarrow> peer_world" where
  "emit x w \<equiv> w\<lparr>pw_wire := insert x (pw_wire w)\<rparr>"

text \<open>
  The steps: a client starts a session; the connectivity checker of some client sends one of its
  datagrams; a client handles a signalling message and runs the checks that belong to it, which hear
  what has been sent by then; a client attaches a transport to a connected session, and sends frames
  and keep-alives on it; a client loses a transport, removes a session, or clears everything.
\<close>

inductive peer_step :: "peer_world \<Rightarrow> peer_world \<Rightarrow> bool" where
  Start: "peer_step w (set_client k (snd (p2p_initiate E target (pw_clients w k))) w)"
| Check: "\<lbrakk>\<forall>i. length (ck_tid (C i)) = TRANSACTION_ID_SIZE; x \<in> set (snd (checker_run C T pairs))\<rbrakk> \<Longrightarrow> peer_step w (emit x w)"
| Signal: "\<lbrakk>heard w C; handle_p2p_message E C late msg (pw_clients w k) = (handled, shown, out, m)\<rbrakk> \<Longrightarrow> peer_step w (set_client k m w)"
| Attach: "p2p_is_connected (pw_clients w k) nick \<Longrightarrow> peer_step w (set_client k (set_transport nick direct (pw_clients w k)) w)"
| Frame: "\<lbrakk>hm_get (pm_transports (pw_clients w k)) nick \<noteq> None; encode_frame payload = Ok d\<rbrakk> \<Longrightarrow> peer_step w (emit (peer, d) w)"
| Keepalive: "hm_get (pm_transports (pw_clients w k)) nick \<noteq> None \<Longrightarrow> peer_step w (emit (peer, keepalive tid) w)"
| Sent: "peer_step w (set_client k (snd (send_p2p result nick (pw_clients w k))) w)"
| Received: "peer_step w (set_client k (snd (recv_p2p received nick (pw_clients w k))) w)"
| Remove: "peer_step w (set_client k (p2p_remove_session nick (pw_clients w k)) w)"
| Clear: "peer_step w (set_client k (p2p_clear (pw_clients w k)) w)"

section \<open>No client connects\<close>

definition unconnected :: "p2p_manager \<Rightarrow> bool" where
  "unconnected m \<longleftrightarrow> pm_transports m = [] \<and> (\<forall>nick s. hm_get (pm_sessions m) nick = Some s \<longrightarrow> ps_state s \<noteq> Connected)"

definition peers_inv :: "peer_world \<Rightarrow> bool" where
  "peers_inv w \<longleftrightarrow> (\<forall>k. unconnected (pw_clients w k)) \<and>
     (\<forall>d\<in>snd ` pw_wire w. \<exists>tid. length tid = TRANSACTION_ID_SIZE \<and> d = stun_to_bytes (binding_request tid))"

lemma unconnected_put: "unconnected m \<Longrightarrow> ps_state s \<noteq> Connected \<Longrightarrow> unconnected (put_session nick s m)"
  by (auto simp: unconnected_def put_session_def update_conv)

lemma unconnected_remove: "unconnected m \<Longrightarrow> unconnected (m\<lparr>pm_sessions := hm_remove nick (pm_sessions m)\<rparr>)"
  by (auto simp: unconnected_def delete_conv split: if_splits)

text \<open>In a world in which only requests have been sent, no check hears an answer.\<close>

lemma heard_unanswered:
  assumes "peers_inv w" "heard w C"
  shows "\<forall>i. \<not> answered (C i)"
proof (intro allI notI)
  fix i
  assume "answered (C i)"
  then obtain a d r where d: "ck_net (C i) a = (None, Datagram d)" "stun_from_bytes (take 1024 d) = Ok r"
      "sm_tid r = ck_tid (C i)" "is_binding_response r"
    by (auto simp: answered_def)
  then have "d \<in> snd ` pw_wire w" using assms(2) by (fastforce simp: heard_def other_transaction_def split: sum.splits)
  then obtain tid where "length tid = TRANSACTION_ID_SIZE" "d = stun_to_bytes (binding_request tid)"
    using assms(1) unfolding peers_inv_def by blast
  then show False using request_is_no_response d(2,4) by blast
qed

lemma started_state:
  "initiate E (session_new target cfg) = (Ok u, s) \<Longrightarrow> ps_state s = OfferSent"
  "respond E cs (session_new target cfg) = (Ok u, s) \<Longrightarrow> ps_state s = AnswerSent"
  by (auto simp: initiate_def respond_def push_event_def split: if_splits prod.splits sum.splits)

lemma drained_state [simp]: "drain_session_messages s = (out, s') \<Longrightarrow> ps_state s' = ps_state s"
  by (auto simp: drain_session_messages_def)

lemma unconnected_initiate: "unconnected m \<Longrightarrow> unconnected (snd (p2p_initiate E target m))"
  using started_state(1) [of E target "pm_config m"]
  by (auto simp: p2p_initiate_def Let_def intro!: unconnected_put split: prod.splits sum.splits)

lemma unconnected_offer:
  assumes "unconnected m" "\<forall>i. \<not> answered (C i)"
  shows "unconnected (snd (p2p_handle_offer E C late sender ls m))"
proof -
  note r = started_state(2) [of E _ sender "pm_config m"]
  have "ps_state (snd (run_checks E C late s)) \<noteq> Connected" if "ps_state s = AnswerSent" for s
    using unanswered_not_connected [OF _ assms(2)] that by simp
  then show ?thesis
    using assms(1) unconnected_remove [OF assms(1), of sender] r
    by (auto simp: p2p_handle_offer_def Let_def intro!: unconnected_put split: prod.splits sum.splits)
qed

lemma unconnected_answer:
  assumes "unconnected m" "\<forall>i. \<not> answered (C i)"
  shows "unconnected (snd (p2p_handle_answer E C late sender ls m))"
proof -
  have "ps_state (snd (run_checks E C late (set_remote_candidates cs s))) \<noteq> Connected" if "ps_state s = OfferSent" for s cs
    using unanswered_not_connected [OF _ assms(2)] that by (simp add: set_remote_candidates_def)
  then show ?thesis
    using assms(1) by (auto simp: p2p_handle_answer_def Let_def intro!: unconnected_put split: prod.splits option.splits)
qed

lemma unconnected_ice: "unconnected m \<Longrightarrow> unconnected (p2p_handle_ice E sender line m)"
  by (auto simp: p2p_handle_ice_def add_remote_candidate_def unconnected_def put_session_def update_conv split: option.splits sum.splits)

lemma unconnected_lost:
  assumes "unconnected m"
  shows "unconnected (p2p_handle_failed nick m)" "unconnected (p2p_remove_session nick m)" "unconnected (p2p_clear m)"
    "snd (send_p2p result nick m) = m" "snd (recv_p2p received nick m) = m"
  using assms by (auto simp: p2p_handle_failed_def p2p_remove_session_def p2p_clear_def send_p2p_def recv_p2p_def unconnected_def delete_conv
      split: if_splits)

lemma unconnected_message:
  assumes "unconnected m" "\<forall>i. \<not> answered (C i)"
  shows "unconnected (snd (snd (snd (handle_p2p_message E C late msg m))))"
  using assms(1) unconnected_offer [OF assms] unconnected_answer [OF assms] unconnected_ice [OF assms(1)] unconnected_lost(1) [OF assms(1)]
  by (auto simp: handle_p2p_message_def Let_def case_prod_beta split: option.splits prefix.splits command.splits pirc_subcommand.splits)

lemma peers_inv_client: "peers_inv w \<Longrightarrow> unconnected m \<Longrightarrow> peers_inv (set_client k m w)"
  by (auto simp: peers_inv_def)

lemma peers_inv_step:
  assumes "peer_step w w'" "peers_inv w"
  shows "peers_inv w'"
proof -
  have u: "unconnected (pw_clients w k)" for k using assms(2) by (simp add: peers_inv_def)
  then have idle: "\<not> p2p_is_connected (pw_clients w k) nick" "hm_get (pm_transports (pw_clients w k)) nick = None" for k nick
    by (auto simp: unconnected_def p2p_is_connected_def session_state_of_def)
  from assms(1) show ?thesis
  proof cases
    case (Check C x T pairs)
    then obtain j remote where "x = (remote, stun_to_bytes (binding_request (ck_tid (C j))))" using checker_run_sends by blast
    then show ?thesis using Check assms(2) unfolding peers_inv_def by auto
  next
    case (Signal C E late msg k handled shown out m)
    then show ?thesis
      using unconnected_message [OF u [of k] heard_unanswered [OF assms(2) Signal(2)], of E late msg] peers_inv_client [OF assms(2)] by simp
  qed (use idle assms(2) unconnected_initiate [OF u] unconnected_lost [OF u] peers_inv_client [OF assms(2)] in \<open>simp_all\<close>)
qed

lemma peers_inv_reachable:
  assumes "peer_step\<^sup>*\<^sup>* (peers_start parse_addr cfg) w"
  shows "peers_inv w"
  using assms
proof (induction rule: rtranclp_induct)
  case base
  show ?case by (simp add: peers_inv_def unconnected_def peers_start_def p2p_manager_new_def)
qed (rule peers_inv_step)

text \<open>
  C19. Clients never connect directly. In every state that any number of clients reach by starting
  sessions, handling signalling messages of any content and order, and running their connectivity
  checks, concurrently and with a network that loses, repeats and redirects their datagrams but makes
  up none, no session is connected and no transport is in use; and whatever candidates a session has,
  its checks fail. The checks wait for binding responses, and all that they send are requests.
\<close>

theorem peers_never_connect:
  assumes "peer_step\<^sup>*\<^sup>* (peers_start parse_addr cfg) w"
  shows "\<not> p2p_is_connected (pw_clients w k) nick \<and> hm_get (pm_transports (pw_clients w k)) nick = None \<and>
    (\<forall>E C late s. heard w C \<and> ps_state s \<in> {OfferSent, AnswerSent} \<longrightarrow>
       (\<exists>e s'. run_checks E C late s = (Err e, s') \<and> ps_state s' = SessionFailed \<and> ps_nominated_remote s' = ps_nominated_remote s))"
proof -
  note inv = peers_inv_reachable [OF assms]
  then have "unconnected (pw_clients w k)" by (simp add: peers_inv_def)
  then have "\<not> p2p_is_connected (pw_clients w k) nick" "hm_get (pm_transports (pw_clients w k)) nick = None"
    by (auto simp: unconnected_def p2p_is_connected_def session_state_of_def)
  moreover have "\<exists>e s'. run_checks E C late s = (Err e, s') \<and> ps_state s' = SessionFailed \<and> ps_nominated_remote s' = ps_nominated_remote s"
    if "heard w C" "ps_state s \<in> {OfferSent, AnswerSent}" for E C late s
    by (rule unanswered_checks_fail [OF that(2) heard_unanswered [OF inv that(1)]])
  ultimately show ?thesis by blast
qed

text \<open>A client hears the request of another one, which has sent it to the same address.\<close>

definition sample_sender :: check_env where
  "sample_sender = \<lparr>ck_expired = False, ck_no_budget = False, ck_bind_error = None, ck_net = (\<lambda>a. (None, TimedOut)), ck_tid = replicate 12 7\<rparr>"

definition no_servers :: p2p_config where
  "no_servers = \<lparr>pc_stun_server = None, pc_turn_server = None, pc_turn_username = None, pc_turn_password = None\<rparr>"

lemma sample_sent:
  "(sample_peer, stun_to_bytes (binding_request (replicate 12 7))) \<in>
     set (snd (checker_run (\<lambda>i. sample_sender) (pe_ip_text sample_p2p) (form_pairs (ps_local sample_session) (ps_remote sample_session) Controlling)))"
  by (simp add: checker_run_def form_pairs_def pair_new_def check_pair_def sample_sender_def sample_session_def session_new_def
      candidate_new_def MAX_CHECK_RETRIES_def upt_conv_Cons Let_def)

theorem peers_never_connect_witness:
  "\<exists>w. peer_step\<^sup>*\<^sup>* (peers_start (\<lambda>a. None) (\<lambda>k. no_servers)) w \<and> pw_wire w \<noteq> {} \<and> hm_get (pm_sessions (pw_clients w ''alice'')) ''bob'' \<noteq> None \<and>
     \<not> p2p_is_connected (pw_clients w ''alice'') ''bob'' \<and>
     (\<exists>e s'. run_checks sample_p2p (\<lambda>i. sample_check) False sample_session = (Err e, s') \<and> ps_state s' = SessionFailed)"
proof -
  let ?w0 = "peers_start (\<lambda>a. None) (\<lambda>k. no_servers)"
  let ?w1 = "set_client ''alice'' (snd (p2p_initiate sample_p2p ''bob'' (pw_clients ?w0 ''alice''))) ?w0"
  let ?w2 = "emit (sample_peer, stun_to_bytes (binding_request (replicate 12 7))) ?w1"
  have "peer_step ?w0 ?w1" by (rule Start)
  moreover have "peer_step ?w1 ?w2"
    by (rule Check [OF _ sample_sent]) (simp add: sample_sender_def TRANSACTION_ID_SIZE_def)
  ultimately have r: "peer_step\<^sup>*\<^sup>* ?w0 ?w2" by simp
  have "hm_get (pm_sessions (pw_clients ?w2 ''alice'')) ''bob'' \<noteq> None"
    by (simp add: peers_start_def p2p_manager_new_def p2p_initiate_def initiate_def session_new_def gather_candidates_def gather_def sample_p2p_def
        no_servers_def put_session_def drain_session_messages_def push_event_def Let_def)
  moreover have "heard ?w2 (\<lambda>i. sample_check)" "ps_state sample_session \<in> {OfferSent, AnswerSent}"
    by (simp_all add: heard_def sample_check_def sample_session_def)
  then have "\<exists>e s'. run_checks sample_p2p (\<lambda>i. sample_check) False sample_session = (Err e, s') \<and> ps_state s' = SessionFailed"
    using peers_never_connect [OF r, of "''alice''" "''bob''"] by blast
  moreover have "pw_wire ?w2 \<noteq> {}" by simp
  ultimately show ?thesis using peers_never_connect [OF r, of "''alice''" "''bob''"] r by blast
qed

end
