(* ===== verification/Script_Lexer.thy ===== *)
theory Script_Lexer
  imports Prelude
begin

text \<open>
  Tokens and lexer of the scripting language: \<^verbatim>\<open>pirc-scripting/src/token.rs\<close>, \<^verbatim>\<open>lexer.rs\<close> and the
  positions and lexical errors of \<^verbatim>\<open>error.rs\<close>. The lexer is the source text and a byte position; each
  operation takes both and returns the position afterwards. A 64-bit integer is an \<^typ>\<open>int\<close> with its
  range written out. An \<^verbatim>\<open>f64\<close> is the 64-bit pattern that represents it; reading a decimal as an \<^verbatim>\<open>f64\<close>
  is the parameter \<open>parse_f64\<close>.
\<close>

section \<open>Numbers\<close>

type_synonym f64 = "64 word"

abbreviation I64_MIN :: int where "I64_MIN \<equiv> - 9223372036854775808"
abbreviation I64_MAX :: int where "I64_MAX \<equiv> 9223372036854775807"

text \<open>\<^verbatim>\<open>str::parse::<i64>()\<close>.\<close>

definition parse_i64 :: "string \<Rightarrow> int option" where
  "parse_i64 s =
     (let neg = (case s of c # _ \<Rightarrow> c = CHR ''-'' | [] \<Rightarrow> False);
          ds = (case s of c # cs \<Rightarrow> if c = CHR ''+'' \<or> c = CHR ''-'' then cs else s | [] \<Rightarrow> []) in
      if ds = [] then None
      else case parse_digits 0 ds of
        None \<Rightarrow> None
      | Some n \<Rightarrow> (let v = (if neg then - int n else int n) in
                    if I64_MIN \<le> v \<and> v \<le> I64_MAX then Some v else None))"

definition int_to_string :: "int \<Rightarrow> string" where
  "int_to_string n = (if n < 0 then CHR ''-'' # nat_to_string (nat (- n)) else nat_to_string (nat n))"

section \<open>Tokens\<close>

record span =
  sp_offset :: nat
  sp_length :: nat

definition span_new :: "nat \<Rightarrow> nat \<Rightarrow> span" where
  "span_new offset' length' = \<lparr>sp_offset = offset', sp_length = length'\<rparr>"

definition span_end :: "span \<Rightarrow> nat" where
  "span_end s = sp_offset s + sp_length s"

definition span_merge :: "span \<Rightarrow> span \<Rightarrow> span" where
  "span_merge s t =
     (let start = min (sp_offset s) (sp_offset t) in
      \<lparr>sp_offset = start, sp_length = max (span_end s) (span_end t) - start\<rparr>)"

datatype token_kind =
    TAlias | TOn | TIf | TElseIf | TElse | TWhile | TVar | TSet | TTimer | TReturn | TBreak | TContinue
  | TTrue | TFalse
  | TString string | TNumber f64 | TInt int
  | TIdentifier string | TVariable string | TGlobalVariable string | TBuiltin string
  | TPlus | TMinus | TStar | TSlash | TPercent | TEqual | TEqualEqual | TBangEqual
  | TLess | TGreater | TLessEqual | TGreaterEqual | TAmpAmp | TPipePipe | TBang
  | TLeftBrace | TRightBrace | TLeftParen | TRightParen | TComma | TColon | TSemicolon
  | TNewline | TEof | TComment string

record token =
  tk_kind :: token_kind
  tk_span :: span

definition keyword_table :: "(string \<times> token_kind) list" where
  "keyword_table =
     [(''alias'', TAlias), (''on'', TOn), (''if'', TIf), (''elseif'', TElseIf), (''else'', TElse),
      (''while'', TWhile), (''var'', TVar), (''set'', TSet), (''timer'', TTimer), (''return'', TReturn),
      (''break'', TBreak), (''continue'', TContinue), (''true'', TTrue), (''false'', TFalse)]"

definition keyword :: "string \<Rightarrow> token_kind option" where
  "keyword name = map_of keyword_table name"

section \<open>Errors\<close>

record source_location =
  loc_line :: nat
  loc_column :: nat

fun location_scan :: "string list \<Rightarrow> nat \<Rightarrow> nat \<Rightarrow> nat \<Rightarrow> nat \<Rightarrow> source_location" where
  "location_scan [] i offset' line col = \<lparr>loc_line = line, loc_column = col\<rparr>"
| "location_scan (ch # chs) i offset' line col =
     (if i \<ge> offset' then \<lparr>loc_line = line, loc_column = col\<rparr>
      else if ch = [CHR 0x0A] then location_scan chs (i + length ch) offset' (line + 1) 1
      else location_scan chs (i + length ch) offset' line (col + 1))"

definition location_from_offset :: "string \<Rightarrow> nat \<Rightarrow> source_location" where
  "location_from_offset source offset' = location_scan (str_chars source) 0 offset' 1 1"

datatype lex_error =
    UnexpectedCharacter string span source_location
  | UnterminatedString span source_location
  | InvalidEscape string span source_location
  | InvalidNumber string span source_location

fun lex_error_span :: "lex_error \<Rightarrow> span" where
  "lex_error_span (UnexpectedCharacter ch sp l) = sp"
| "lex_error_span (UnterminatedString sp l) = sp"
| "lex_error_span (InvalidEscape ch sp l) = sp"
| "lex_error_span (InvalidNumber msg sp l) = sp"

section \<open>The lexer\<close>

definition is_ident_start :: "char \<Rightarrow> bool" where
  "is_ident_start b \<longleftrightarrow> is_ascii_alphabetic (of_char b) \<or> b = CHR ''_''"

definition is_ident_continue :: "char \<Rightarrow> bool" where
  "is_ident_continue b \<longleftrightarrow>
     is_ascii_alphabetic (of_char b) \<or> is_ascii_digit (of_char b) \<or> b = CHR ''_'' \<or> b = CHR ''-''"

definition peek_at :: "string \<Rightarrow> nat \<Rightarrow> nat \<Rightarrow> char option" where
  "peek_at source pos k = (if pos + k < length source then Some (source ! (pos + k)) else None)"

definition advance_while :: "(char \<Rightarrow> bool) \<Rightarrow> string \<Rightarrow> nat \<Rightarrow> nat" where
  "advance_while p source pos = pos + length (takeWhile p (drop pos source))"

definition skip_whitespace :: "string \<Rightarrow> nat \<Rightarrow> nat" where
  "skip_whitespace source pos = advance_while (\<lambda>b. b = CHR '' '' \<or> b = CHR 0x09) source pos"

definition slice :: "string \<Rightarrow> nat \<Rightarrow> nat \<Rightarrow> string" where
  "slice source i j = take (j - i) (drop i source)"

text \<open>\<^verbatim>\<open>source[pos..].chars().next().unwrap_or('\0')\<close>.\<close>

definition char_at :: "string \<Rightarrow> nat \<Rightarrow> string" where
  "char_at source pos = (case str_chars (drop pos source) of [] \<Rightarrow> [CHR 0x00] | ch # _ \<Rightarrow> ch)"

definition token_at :: "token_kind \<Rightarrow> nat \<Rightarrow> nat \<Rightarrow> lex_error + token \<times> nat" where
  "token_at kind start end' = Ok (\<lparr>tk_kind = kind, tk_span = span_new start (end' - start)\<rparr>, end')"

definition lex_comment :: "string \<Rightarrow> nat \<Rightarrow> lex_error + token \<times> nat" where
  "lex_comment source start =
     (let end' = advance_while (\<lambda>b. b \<noteq> CHR 0x0A) source (start + 1) in
      token_at (TComment (trim_end (slice source (start + 1) end'))) start end')"

definition escape_table :: "(char \<times> char) list" where
  "escape_table = [(CHR ''n'', CHR 0x0A), (CHR ''t'', CHR 0x09), (CHR ''r'', CHR 0x0D),
     (CHR 0x5C, CHR 0x5C), (CHR 0x22, CHR 0x22)]"

definition unterminated :: "string \<Rightarrow> nat \<Rightarrow> nat \<Rightarrow> lex_error" where
  "unterminated source start pos = UnterminatedString (span_new start (pos - start)) (location_from_offset source start)"

lemma str_chars_ne: "s \<noteq> [] \<Longrightarrow> \<exists>ch chs. str_chars s = ch # chs \<and> ch \<noteq> []"
  by (cases s) (auto simp: Let_def)

lemma char_at_ne [simp]: "char_at source pos \<noteq> []"
  using str_chars_ne [of "drop pos source"] by (cases "drop pos source = []") (auto simp: char_at_def)

text \<open>The loop of \<^verbatim>\<open>lex_string\<close>, from \<open>pos\<close> with the characters read so far.\<close>

function lex_string_loop :: "string \<Rightarrow> nat \<Rightarrow> nat \<Rightarrow> string \<Rightarrow> lex_error + token \<times> nat" where
  "lex_string_loop source start pos value =
     (if pos \<ge> length source then Err (unterminated source start pos)
      else let b = source ! pos in
        if b = CHR 0x22 then token_at (TString value) start (pos + 1)
        else if b = CHR 0x5C then
          (if pos + 1 \<ge> length source then Err (unterminated source start (pos + 1))
           else case map_of escape_table (source ! (pos + 1)) of
             Some c \<Rightarrow> lex_string_loop source start (pos + 2) (value @ [c])
           | None \<Rightarrow>
               (let ch = char_at source (pos + 1) in
                Err (InvalidEscape ch (span_new pos (pos + 1 + length ch - pos)) (location_from_offset source pos))))
        else if b = CHR 0x0A then Err (unterminated source start pos)
        else let ch = char_at source pos in lex_string_loop source start (pos + length ch) (value @ ch))"
  by pat_completeness auto
termination
  by (relation "measure (\<lambda>(source, start, pos, value). length source - pos)")
     (auto simp: diff_less_mono2)

declare lex_string_loop.simps [simp del]

definition lex_string :: "string \<Rightarrow> nat \<Rightarrow> lex_error + token \<times> nat" where
  "lex_string source start = lex_string_loop source start (start + 1) []"

text \<open>\<^verbatim>\<open>lex_variable\<close>, \<^verbatim>\<open>lex_global_variable\<close> and \<^verbatim>\<open>lex_builtin_identifier\<close> skip \<open>k\<close> marker bytes.\<close>

definition lex_name :: "(string \<Rightarrow> token_kind) \<Rightarrow> nat \<Rightarrow> string \<Rightarrow> nat \<Rightarrow> lex_error + token \<times> nat" where
  "lex_name kind k source start =
     (let end' = advance_while is_ident_continue source (start + k) in
      token_at (kind (slice source (start + k) end')) start end')"

definition lex_number :: "(string \<Rightarrow> string + f64) \<Rightarrow> string \<Rightarrow> nat \<Rightarrow> lex_error + token \<times> nat" where
  "lex_number parse_f64 source start =
     (let digits = (\<lambda>b. is_ascii_digit (of_char b));
          pos = advance_while digits source start;
          is_float = (pos < length source \<and> source ! pos = CHR ''.'' \<and>
                      (case peek_at source pos 1 of Some b \<Rightarrow> digits b | None \<Rightarrow> False));
          end' = (if is_float then advance_while digits source (pos + 1) else pos);
          text' = slice source start end';
          bad = (\<lambda>msg. Err (InvalidNumber msg (span_new start (end' - start)) (location_from_offset source start))) in
      if is_float
      then (case parse_f64 text' of Ok v \<Rightarrow> token_at (TNumber v) start end' | Err e \<Rightarrow> bad e)
      else (case parse_i64 text' of Some v \<Rightarrow> token_at (TInt v) start end'
            | None \<Rightarrow> bad ''number too large to fit in target type''))"

definition lex_identifier_or_keyword :: "string \<Rightarrow> nat \<Rightarrow> lex_error + token \<times> nat" where
  "lex_identifier_or_keyword source start =
     (let end' = advance_while is_ident_continue source start;
          text' = slice source start end' in
      token_at (case keyword text' of Some k \<Rightarrow> k | None \<Rightarrow> TIdentifier text') start end')"

definition single_table :: "(char \<times> token_kind) list" where
  "single_table =
     [(CHR ''+'', TPlus), (CHR ''-'', TMinus), (CHR ''*'', TStar), (CHR 0x2F, TSlash),
      (CHR 0x7B, TLeftBrace), (CHR 0x7D, TRightBrace), (CHR 0x28, TLeftParen), (CHR 0x29, TRightParen),
      (CHR 0x2C, TComma), (CHR 0x3A, TColon), (CHR 0x3D, TEqual), (CHR 0x21, TBang),
      (CHR 0x3C, TLess), (CHR 0x3E, TGreater)]"

definition double_table :: "((char \<times> char) \<times> token_kind) list" where
  "double_table =
     [((CHR 0x3D, CHR 0x3D), TEqualEqual), ((CHR 0x21, CHR 0x3D), TBangEqual), ((CHR 0x3C, CHR 0x3D), TLessEqual),
      ((CHR 0x3E, CHR 0x3D), TGreaterEqual), ((CHR 0x26, CHR 0x26), TAmpAmp), ((CHR 0x7C, CHR 0x7C), TPipePipe)]"

definition lex_operator :: "string \<Rightarrow> nat \<Rightarrow> lex_error + token \<times> nat" where
  "lex_operator source start =
     (case (case peek_at source start 1 of Some c \<Rightarrow> map_of double_table (source ! start, c) | None \<Rightarrow> None) of
        Some kind \<Rightarrow> token_at kind start (start + 2)
      | None \<Rightarrow>
          (case map_of single_table (source ! start) of
             Some kind \<Rightarrow> token_at kind start (start + 1)
           | None \<Rightarrow>
               (let ch = char_at source start in
                Err (UnexpectedCharacter ch (span_new start (length ch)) (location_from_offset source start)))))"

definition lex_token :: "(string \<Rightarrow> string + f64) \<Rightarrow> string \<Rightarrow> nat \<Rightarrow> lex_error + token \<times> nat" where
  "lex_token parse_f64 source pos0 =
     (let start = skip_whitespace source pos0 in
      if start \<ge> length source then token_at TEof start start
      else let ch = source ! start; next = peek_at source start 1 in
        if ch = CHR 0x0A then token_at TNewline start (start + 1)
        else if ch = CHR 0x0D
        then token_at TNewline start (if next = Some (CHR 0x0A) then start + 2 else start + 1)
        else if ch = CHR 0x3B then lex_comment source start
        else if ch = CHR 0x22 then lex_string source start
        else if ch = CHR 0x25 then
          (case next of
             Some c \<Rightarrow> if c = CHR 0x25 then lex_name TGlobalVariable 2 source start
                       else if is_ident_start c then lex_name TVariable 1 source start
                       else token_at TPercent start (start + 1)
           | None \<Rightarrow> token_at TPercent start (start + 1))
        else if ch = CHR 0x24 \<and> (case next of Some c \<Rightarrow> is_ident_start c \<or> is_ascii_digit (of_char c) | None \<Rightarrow> False)
        then lex_name TBuiltin 1 source start
        else if is_ascii_digit (of_char ch) then lex_number parse_f64 source start
        else if is_ident_start ch then lex_identifier_or_keyword source start
        else lex_operator source start)"

lemma advance_while_ge: "pos \<le> advance_while p source pos"
  by (simp add: advance_while_def)

lemma advance_while_le: "pos \<le> length source \<Longrightarrow> advance_while p source pos \<le> length source"
  using length_takeWhile_le [of p "drop pos source"] by (simp add: advance_while_def)

lemma advance_while_more: "pos < length source \<Longrightarrow> p (source ! pos) \<Longrightarrow> pos < advance_while p source pos"
  by (simp add: advance_while_def Cons_nth_drop_Suc [symmetric])

lemma char_at_fits: "pos < length source \<Longrightarrow> pos + length (char_at source pos) \<le> length source"
  by (cases "drop pos source") (auto simp: char_at_def Let_def dest!: arg_cong [where f = length])

text \<open>A token that a lexing function returns at \<open>start\<close>: where it lies, and that it is not the end of the file.\<close>

definition lexes_at :: "string \<Rightarrow> nat \<Rightarrow> lex_error + token \<times> nat \<Rightarrow> bool" where
  "lexes_at source start r \<longleftrightarrow>
     (case r of Err e \<Rightarrow> True
      | Ok (t, p) \<Rightarrow> start < p \<and> p \<le> length source \<and> tk_span t = span_new start (p - start) \<and> tk_kind t \<noteq> TEof)"

lemma lexes_at_token: "start < p \<Longrightarrow> p \<le> length source \<Longrightarrow> k \<noteq> TEof \<Longrightarrow> lexes_at source start (token_at k start p)"
  by (simp add: lexes_at_def token_at_def)

lemma lexes_at_Err [simp]: "lexes_at source start (Err e)"
  by (simp add: lexes_at_def)

lemma lexes_at_string_loop:
  "start < pos \<Longrightarrow> lexes_at source start (lex_string_loop source start pos value)"
proof (induction source start pos "value" rule: lex_string_loop.induct)
  case (1 source start pos v)
  then show ?case
    by (subst lex_string_loop.simps) (auto simp: Let_def intro!: lexes_at_token split: option.splits)
qed

lemma lexes_at_comment: "start < length source \<Longrightarrow> lexes_at source start (lex_comment source start)"
  using advance_while_ge [of "start + 1"] advance_while_le [of "start + 1" source]
  by (auto simp: lex_comment_def Let_def intro!: lexes_at_token) (meson Suc_le_lessD)

lemma lexes_at_name:
  "start + k \<le> length source \<Longrightarrow> 0 < k \<Longrightarrow> (\<And>n. kind n \<noteq> TEof) \<Longrightarrow> lexes_at source start (lex_name kind k source start)"
  using advance_while_ge [of "start + k" is_ident_continue source] advance_while_le [of "start + k" source is_ident_continue]
  by (auto simp: lex_name_def Let_def intro!: lexes_at_token)

lemma lexes_at_number:
  assumes "start < length source" "is_ascii_digit (of_char (source ! start))"
  shows "lexes_at source start (lex_number parse_f64 source start)"
proof -
  let ?d = "\<lambda>b. is_ascii_digit (of_char b)"
  have 1: "start < advance_while ?d source start" using assms by (auto intro: advance_while_more)
  have 2: "advance_while ?d source start \<le> length source" using assms(1) by (simp add: advance_while_le)
  have 3: "start < advance_while ?d source (Suc p)" if "start < p" for p
    using advance_while_ge [of "Suc p" ?d source] that by simp
  have 4: "advance_while ?d source (Suc p) \<le> length source" if "p < length source" for p
    using advance_while_le [of "Suc p" source ?d] that by simp
  show ?thesis using 1 2 3 4 by (auto simp: lex_number_def Let_def intro!: lexes_at_token split: sum.splits option.splits)
qed

lemma keyword_not_eof [simp]: "keyword s \<noteq> Some TEof"
  by (auto simp: keyword_def keyword_table_def split: if_splits)

lemma lexes_at_identifier:
  assumes "start < length source" "is_ident_start (source ! start)"
  shows "lexes_at source start (lex_identifier_or_keyword source start)"
proof -
  have "is_ident_continue (source ! start)" using assms(2) by (auto simp: is_ident_start_def is_ident_continue_def)
  then show ?thesis
    using assms(1) advance_while_more [of start source is_ident_continue] advance_while_le [of start source is_ident_continue]
    by (auto simp: lex_identifier_or_keyword_def Let_def intro!: lexes_at_token split: option.splits)
qed

lemma operator_tables [simp]: "map_of double_table p \<noteq> Some TEof" "map_of single_table c \<noteq> Some TEof"
  by (auto simp: double_table_def single_table_def split: if_splits)

lemma lexes_at_operator: "start < length source \<Longrightarrow> lexes_at source start (lex_operator source start)"
  by (auto simp: lex_operator_def peek_at_def Let_def intro!: lexes_at_token split: option.splits)

lemma lex_token_lexes:
  assumes "skip_whitespace source pos < length source"
  shows "lexes_at source (skip_whitespace source pos) (lex_token parse_f64 source pos)"
  using assms
  by (auto simp: lex_token_def Let_def peek_at_def lex_string_def lexes_at_token lexes_at_comment lexes_at_name
      lexes_at_number lexes_at_identifier lexes_at_operator lexes_at_string_loop split: if_splits option.splits)

lemma lex_token_end:
  "length source \<le> skip_whitespace source pos \<Longrightarrow>
    lex_token parse_f64 source pos = token_at TEof (skip_whitespace source pos) (skip_whitespace source pos)"
  by (simp add: lex_token_def Let_def)

lemma lex_token_progress:
  assumes "lex_token parse_f64 source pos = Ok (t, p)" "tk_kind t \<noteq> TEof"
  shows "length source - p < length source - pos"
proof -
  have "skip_whitespace source pos < length source"
    using assms lex_token_end [of source pos parse_f64] by (force simp: token_at_def)
  then show ?thesis
    using lex_token_lexes [of source pos parse_f64] assms advance_while_ge [of pos "\<lambda>b. b = CHR '' '' \<or> b = CHR 0x09" source]
    by (simp add: lexes_at_def skip_whitespace_def diff_less_mono2)
qed

text \<open>\<^verbatim>\<open>Lexer::tokenize\<close>.\<close>

function tokenize_from :: "(string \<Rightarrow> string + f64) \<Rightarrow> string \<Rightarrow> nat \<Rightarrow> lex_error + token list" where
  "tokenize_from parse_f64 source pos =
     (case lex_token parse_f64 source pos of
        Err e \<Rightarrow> Err e
      | Ok (t, p) \<Rightarrow>
          if tk_kind t = TEof then Ok [t]
          else result_bind (tokenize_from parse_f64 source p) (\<lambda>ts. Ok (t # ts)))"
  by pat_completeness auto
termination
  by (relation "measure (\<lambda>(f, source, pos). length source - pos)") (auto dest: lex_token_progress)

declare tokenize_from.simps [simp del]

definition tokenize :: "(string \<Rightarrow> string + f64) \<Rightarrow> string \<Rightarrow> lex_error + token list" where
  "tokenize parse_f64 source = tokenize_from parse_f64 source 0"

end
