(* ===== verification/Script_Parser.thy ===== *)
theory Script_Parser
  imports Script_Lexer
begin

text \<open>
  Syntax trees and parser of the scripting language: \<^verbatim>\<open>pirc-scripting/src/ast.rs\<close>, \<^verbatim>\<open>parser/mod.rs\<close> and
  the parse errors of \<^verbatim>\<open>error.rs\<close>. The state of the parser is the list of the tokens from its
  position on. Recursive descent takes fuel; \<open>parse_script\<close> gives it in proportion to the number of tokens,
  which is shown to be enough.
\<close>

section \<open>Syntax trees\<close>

datatype binary_op = Add | Sub | Mul | Div | Mod | Eq | Neq | Lt | Gt | Lte | Gte | And | Or

datatype unary_op = Not | Neg

datatype expression =
    BinaryOp expression binary_op expression span
  | UnaryOp unary_op expression span
  | StringLiteral string span
  | NumberLiteral f64 span
  | IntLiteral int span
  | BoolLiteral bool span
  | Variable string span
  | GlobalVariable string span
  | BuiltinId string span
  | Identifier string span
  | FunctionCall string "expression list" span
  | Interpolated "string_part list" span
  | Grouped expression span
and string_part = PartLiteral string | PartExpr expression

fun expr_span :: "expression \<Rightarrow> span" where
  "expr_span (BinaryOp l op' r sp) = sp"
| "expr_span (UnaryOp op' e sp) = sp"
| "expr_span (StringLiteral v sp) = sp"
| "expr_span (NumberLiteral v sp) = sp"
| "expr_span (IntLiteral v sp) = sp"
| "expr_span (BoolLiteral v sp) = sp"
| "expr_span (Variable v sp) = sp"
| "expr_span (GlobalVariable v sp) = sp"
| "expr_span (BuiltinId v sp) = sp"
| "expr_span (Identifier v sp) = sp"
| "expr_span (FunctionCall v es sp) = sp"
| "expr_span (Interpolated ps sp) = sp"
| "expr_span (Grouped e sp) = sp"

text \<open>
  The structs \<^verbatim>\<open>CommandStatement\<close>, \<^verbatim>\<open>IfStatement\<close>, \<^verbatim>\<open>ElseIfBranch\<close>, \<^verbatim>\<open>WhileStatement\<close>, \<^verbatim>\<open>VarDeclStatement\<close>,
  \<^verbatim>\<open>SetStatement\<close>, \<^verbatim>\<open>ReturnStatement\<close> and \<^verbatim>\<open>ExprStatement\<close> are the arguments of their constructors.
\<close>

datatype statement =
    Command string "expression list" span
  | If expression "statement list" "elseif_branch list" "statement list option" span
  | While expression "statement list" span
  | VarDecl string bool expression span
  | Set string bool expression span
  | Return "expression option" span
  | Break span
  | Continue span
  | ExprStatement expression span
and elseif_branch = ElseIfBranch expression "statement list" span

fun stmt_span :: "statement \<Rightarrow> span" where
  "stmt_span (Command n as sp) = sp"
| "stmt_span (If c b bs e sp) = sp"
| "stmt_span (While c b sp) = sp"
| "stmt_span (VarDecl n g e sp) = sp"
| "stmt_span (Set n g e sp) = sp"
| "stmt_span (Return e sp) = sp"
| "stmt_span (Break sp) = sp"
| "stmt_span (Continue sp) = sp"
| "stmt_span (ExprStatement e sp) = sp"

datatype event_type =
    EvText | EvJoin | EvPart | EvKick | EvQuit | EvConnect | EvDisconnect | EvInvite | EvNotice | EvNick
  | EvTopic | EvMode | EvCtcp | EvAction | EvNumeric

record alias_definition =
  ad_name :: string
  ad_body :: "statement list"
  ad_span :: span

record event_handler =
  eh_event_type :: event_type
  eh_pattern :: string
  eh_body :: "statement list"
  eh_span :: span

record timer_definition =
  td_name :: string
  td_interval :: expression
  td_repetitions :: expression
  td_body :: "statement list"
  td_span :: span

datatype top_level_item = TopAlias alias_definition | TopEvent event_handler | TopTimer timer_definition

record script =
  sc_items :: "top_level_item list"
  sc_span :: span

section \<open>Results of parsing\<close>

datatype parse_error =
    UnexpectedToken string string span source_location
  | UnexpectedEof string span source_location
  | InvalidEventType string span source_location

text \<open>\<open>Crashed\<close> is an index past the last token, \<open>Exhausted\<close> is the end of the fuel.\<close>

datatype 'a parsed = Parsed 'a "token list" | Failed parse_error | Crashed | Exhausted

type_synonym 'a parser = "token list \<Rightarrow> 'a parsed"

definition ret :: "'a \<Rightarrow> 'a parser" where
  "ret a ts = Parsed a ts"

definition bnd :: "'a parser \<Rightarrow> ('a \<Rightarrow> 'b parser) \<Rightarrow> 'b parser" where
  "bnd p f ts = (case p ts of Parsed a ts' \<Rightarrow> f a ts' | Failed e \<Rightarrow> Failed e | Crashed \<Rightarrow> Crashed | Exhausted \<Rightarrow> Exhausted)"

section \<open>Helpers\<close>

definition peek :: "token parser" where
  "peek ts = (case ts of [] \<Rightarrow> Crashed | t # _ \<Rightarrow> Parsed t ts)"

definition advance :: "token parser" where
  "advance ts = (case ts of [] \<Rightarrow> Crashed | t # ts' \<Rightarrow> Parsed t (if ts' = [] then ts else ts'))"

text \<open>
  \<^verbatim>\<open>check\<close> compares the variants of the two kinds and not their data; it is asked for kinds without
  data only, where this is equality.
\<close>

definition check :: "token_kind \<Rightarrow> bool parser" where
  "check kind = bnd peek (\<lambda>t. ret (tk_kind t = kind))"

definition at_end :: "bool parser" where
  "at_end = check TEof"

definition current_span :: "span parser" where
  "current_span = bnd peek (\<lambda>t. ret (tk_span t))"

definition quoted :: "string \<Rightarrow> string" where
  "quoted s = [CHR 0x27] @ s @ [CHR 0x27]"

definition punctuation :: "(token_kind \<times> string) list" where
  "punctuation =
     [(TPlus, ''+''), (TMinus, ''-''), (TStar, ''*''), (TSlash, [CHR 0x2F]), (TPercent, [CHR 0x25]), (TEqual, ''=''),
      (TEqualEqual, ''==''), (TBangEqual, ''!=''), (TLess, ''<''), (TGreater, ''>''), (TLessEqual, ''<=''),
      (TGreaterEqual, ''>=''), (TAmpAmp, ''&&''), (TPipePipe, [CHR 0x7C, CHR 0x7C]), (TBang, ''!''), (TLeftBrace, [CHR 0x7B]),
      (TRightBrace, [CHR 0x7D]), (TLeftParen, ''(''), (TRightParen, '')''), (TComma, '',''), (TColon, '':''),
      (TSemicolon, '';'')]"

fun describe_token :: "token_kind \<Rightarrow> string" where
  "describe_token (TString _) = ''string literal''"
| "describe_token (TNumber _) = ''number literal''"
| "describe_token (TInt _) = ''integer literal''"
| "describe_token (TIdentifier name) = ''identifier '' @ quoted name"
| "describe_token (TVariable name) = ''variable '' @ quoted ([CHR 0x25] @ name)"
| "describe_token (TGlobalVariable name) = ''variable '' @ quoted ([CHR 0x25, CHR 0x25] @ name)"
| "describe_token (TBuiltin name) = ''builtin '' @ quoted ([CHR 0x24] @ name)"
| "describe_token TNewline = ''newline''"
| "describe_token TEof = ''end of input''"
| "describe_token (TComment _) = ''comment''"
| "describe_token k =
     (case map_of punctuation k of
        Some s \<Rightarrow> quoted s
      | None \<Rightarrow> (case map_of (map prod.swap keyword_table) k of Some s \<Rightarrow> quoted s | None \<Rightarrow> []))"

definition unexpected_token :: "string \<Rightarrow> string \<Rightarrow> 'a parser" where
  "unexpected_token source expected =
     bnd peek (\<lambda>t _. Failed (UnexpectedToken expected (describe_token (tk_kind t)) (tk_span t)
                              (location_from_offset source (sp_offset (tk_span t)))))"

definition unexpected_eof :: "string \<Rightarrow> string \<Rightarrow> 'a parser" where
  "unexpected_eof source expected =
     bnd current_span (\<lambda>sp _. Failed (UnexpectedEof expected sp (location_from_offset source (sp_offset sp))))"

definition expect :: "string \<Rightarrow> token_kind \<Rightarrow> string \<Rightarrow> token parser" where
  "expect source kind desc =
     bnd at_end (\<lambda>e. if e then unexpected_eof source desc
       else bnd (check kind) (\<lambda>c. if c then advance else unexpected_token source desc))"

definition expect_identifier :: "string \<Rightarrow> string \<Rightarrow> string parser" where
  "expect_identifier source desc =
     bnd at_end (\<lambda>e. if e then unexpected_eof source desc
       else bnd peek (\<lambda>t. case tk_kind t of
              TIdentifier name \<Rightarrow> bnd advance (\<lambda>_. ret name)
            | _ \<Rightarrow> unexpected_token source desc))"

definition expect_variable :: "string \<Rightarrow> string \<Rightarrow> (string \<times> bool) parser" where
  "expect_variable source desc =
     bnd at_end (\<lambda>e. if e then unexpected_eof source desc
       else bnd peek (\<lambda>t. case tk_kind t of
              TVariable name \<Rightarrow> bnd advance (\<lambda>_. ret (name, False))
            | TGlobalVariable name \<Rightarrow> bnd advance (\<lambda>_. ret (name, True))
            | _ \<Rightarrow> unexpected_token source desc))"

fun is_trivia :: "token_kind \<Rightarrow> bool" where
  "is_trivia TNewline = True"
| "is_trivia (TComment _) = True"
| "is_trivia _ = False"

fun skip_trivia :: "unit parser" where
  "skip_trivia [] = Crashed"
| "skip_trivia (t # ts) = (if is_trivia (tk_kind t) then skip_trivia ts else Parsed () (t # ts))"

section \<open>String interpolation\<close>

definition is_interp_start :: "char \<Rightarrow> bool" where
  "is_interp_start b \<longleftrightarrow> is_ascii_alphabetic (of_char b) \<or> b = CHR ''_''"

definition is_interp_continue :: "char \<Rightarrow> bool" where
  "is_interp_continue b \<longleftrightarrow>
     is_ascii_alphabetic (of_char b) \<or> is_ascii_digit (of_char b) \<or> b = CHR ''_'' \<or> b = CHR ''-''"

definition flush_literal :: "string \<Rightarrow> string_part list" where
  "flush_literal buf = (if buf = [] then [] else [PartLiteral buf])"

text \<open>
  The loop over the bytes of the literal, from the rest \<open>bs\<close> with the literal buffer \<open>buf\<close>; it
  returns the parts and the last buffer.
\<close>

function interpolation_loop :: "span \<Rightarrow> string \<Rightarrow> string \<Rightarrow> string_part list \<times> string" where
  "interpolation_loop sp [] buf = ([], buf)"
| "interpolation_loop sp (b # bs) buf =
     (if b = CHR 0x24 \<and> bs \<noteq> [] \<and> is_interp_start (hd bs)
      then (case interpolation_loop sp (dropWhile is_interp_continue bs) [] of
              (ps, rest) \<Rightarrow>
                (flush_literal buf @ PartExpr (BuiltinId (takeWhile is_interp_continue bs) sp) # ps, rest))
      else if b = CHR 0x25 \<and> bs \<noteq> [] \<and> is_interp_start (hd bs)
      then (let global = (hd bs = CHR 0x25); after = (if global then tl bs else bs);
                name = takeWhile is_interp_continue after in
            case interpolation_loop sp (dropWhile is_interp_continue after) [] of
              (ps, rest) \<Rightarrow>
                (flush_literal buf @ PartExpr (if global then GlobalVariable name sp else Variable name sp) # ps, rest))
      else interpolation_loop sp (drop (length (char_at (b # bs) 0)) (b # bs)) (buf @ char_at (b # bs) 0))"
  by pat_completeness auto
termination
proof (relation "measure (\<lambda>(sp, bs, buf). length bs)", goal_cases)
  case 1
  show ?case by simp
next
  case (2 sp b bs buf)
  then show ?case using length_dropWhile_le [of is_interp_continue bs] by simp
next
  case (3 sp b bs buf x xa xb)
  have "length xa \<le> length bs" using 3 by auto
  then show ?case using length_dropWhile_le [of is_interp_continue xa] by simp
next
  case (4 sp b bs buf)
  have "0 < length (char_at (b # bs) 0)" by simp
  then show ?case by (simp add: diff_less_Suc del: char_at_ne)
qed

definition parse_string_interpolation :: "string \<Rightarrow> span \<Rightarrow> expression" where
  "parse_string_interpolation raw sp =
     (case interpolation_loop sp raw [] of
        (ps, buf) \<Rightarrow> if ps = [] then StringLiteral raw sp else Interpolated (ps @ flush_literal buf) sp)"

section \<open>Expressions\<close>

fun infix_op :: "token_kind \<Rightarrow> binary_op option" where
  "infix_op TPipePipe = Some Or"
| "infix_op TAmpAmp = Some And"
| "infix_op TEqualEqual = Some Eq"
| "infix_op TBangEqual = Some Neq"
| "infix_op TLess = Some Lt"
| "infix_op TGreater = Some Gt"
| "infix_op TLessEqual = Some Lte"
| "infix_op TGreaterEqual = Some Gte"
| "infix_op TPlus = Some Add"
| "infix_op TMinus = Some Sub"
| "infix_op TStar = Some Mul"
| "infix_op TSlash = Some Div"
| "infix_op TPercent = Some Mod"
| "infix_op _ = None"

fun left_bp :: "binary_op \<Rightarrow> nat" where
  "left_bp Or = 1"
| "left_bp And = 3"
| "left_bp Eq = 5" | "left_bp Neq = 5"
| "left_bp Lt = 7" | "left_bp Gt = 7" | "left_bp Lte = 7" | "left_bp Gte = 7"
| "left_bp Add = 9" | "left_bp Sub = 9"
| "left_bp Mul = 11" | "left_bp Div = 11" | "left_bp Mod = 11"

definition infix_binding_power :: "binary_op \<Rightarrow> nat \<times> nat" where
  "infix_binding_power op' = (left_bp op', left_bp op' + 1)"

definition PREFIX_BP :: nat where "PREFIX_BP = 13"

definition exhausted :: "'a parser" where
  "exhausted ts = Exhausted"

text \<open>The primary expressions of one token, except the built-in identifiers, which may start a call.\<close>

fun atom :: "token_kind \<Rightarrow> span \<Rightarrow> expression option" where
  "atom (TInt v) sp = Some (IntLiteral v sp)"
| "atom (TNumber v) sp = Some (NumberLiteral v sp)"
| "atom (TString v) sp = Some (parse_string_interpolation v sp)"
| "atom TTrue sp = Some (BoolLiteral True sp)"
| "atom TFalse sp = Some (BoolLiteral False sp)"
| "atom (TVariable name) sp = Some (Variable name sp)"
| "atom (TGlobalVariable name) sp = Some (GlobalVariable name sp)"
| "atom (TIdentifier name) sp = Some (Identifier name sp)"
| "atom _ sp = None"

fun builtin_name :: "token_kind \<Rightarrow> string option" where
  "builtin_name (TBuiltin name) = Some name"
| "builtin_name _ = None"

text \<open>
  The mutually recursive functions of the source: each takes as \<open>expr\<close> the parser for the expressions
  inside it, by least binding power, and loops with fuel \<open>n\<close>; \<open>parse_expression_bp\<close> ties the knot.
\<close>

primrec more_arguments :: "(nat \<Rightarrow> expression parser) \<Rightarrow> nat \<Rightarrow> expression list \<Rightarrow> expression list parser" where
  "more_arguments expr 0 args = exhausted"
| "more_arguments expr (Suc n) args =
     bnd (check TComma) (\<lambda>c.
       if c then bnd advance (\<lambda>_. bnd (expr 0) (\<lambda>arg. more_arguments expr n (args @ [arg])))
       else ret args)"

definition parse_function_call ::
  "string \<Rightarrow> (nat \<Rightarrow> expression parser) \<Rightarrow> nat \<Rightarrow> string \<Rightarrow> span \<Rightarrow> expression parser" where
  "parse_function_call src expr n name start_span =
     bnd advance (\<lambda>_. bnd (check TRightParen) (\<lambda>empty'.
       bnd (if empty' then ret [] else bnd (expr 0) (\<lambda>arg. more_arguments expr n [arg])) (\<lambda>args.
         bnd (expect src TRightParen (quoted '')'')) (\<lambda>close.
           ret (FunctionCall name args (span_merge start_span (tk_span close)))))))"

definition primary_expression :: "string \<Rightarrow> (nat \<Rightarrow> expression parser) \<Rightarrow> nat \<Rightarrow> expression parser" where
  "primary_expression src expr n =
     bnd peek (\<lambda>t.
       case atom (tk_kind t) (tk_span t) of
         Some e \<Rightarrow> bnd advance (\<lambda>_. ret e)
       | None \<Rightarrow>
           (case builtin_name (tk_kind t) of
              Some name \<Rightarrow>
                bnd advance (\<lambda>_. bnd (check TLeftParen) (\<lambda>c.
                  if c then parse_function_call src expr n name (tk_span t) else ret (BuiltinId name (tk_span t))))
            | None \<Rightarrow>
                if tk_kind t = TLeftParen
                then bnd advance (\<lambda>_. bnd (expr 0) (\<lambda>inner.
                       bnd (expect src TRightParen (quoted '')'')) (\<lambda>close.
                         ret (Grouped inner (span_merge (tk_span t) (tk_span close))))))
                else unexpected_token src ''expression''))"

definition parse_prefix_expr :: "string \<Rightarrow> (nat \<Rightarrow> expression parser) \<Rightarrow> nat \<Rightarrow> expression parser" where
  "parse_prefix_expr src expr n =
     bnd peek (\<lambda>t.
       if tk_kind t = TBang \<or> tk_kind t = TMinus
       then bnd advance (\<lambda>_. bnd (expr PREFIX_BP) (\<lambda>operand.
              ret (UnaryOp (if tk_kind t = TBang then Not else Neg) operand
                     (span_merge (tk_span t) (expr_span operand)))))
       else primary_expression src expr n)"

primrec infix_loop :: "(nat \<Rightarrow> expression parser) \<Rightarrow> nat \<Rightarrow> nat \<Rightarrow> expression \<Rightarrow> expression parser" where
  "infix_loop expr 0 min_bp lhs = exhausted"
| "infix_loop expr (Suc n) min_bp lhs =
     bnd peek (\<lambda>t. case infix_op (tk_kind t) of
         None \<Rightarrow> ret lhs
       | Some op' \<Rightarrow>
           (case infix_binding_power op' of (l_bp, r_bp) \<Rightarrow>
              if l_bp < min_bp then ret lhs
              else bnd advance (\<lambda>_. bnd (expr r_bp) (\<lambda>rhs.
                     infix_loop expr n min_bp
                       (BinaryOp lhs op' rhs (span_merge (expr_span lhs) (expr_span rhs)))))))"

primrec parse_expression_bp :: "string \<Rightarrow> nat \<Rightarrow> nat \<Rightarrow> expression parser" where
  "parse_expression_bp src 0 min_bp = exhausted"
| "parse_expression_bp src (Suc n) min_bp =
     bnd (parse_prefix_expr src (parse_expression_bp src n) n) (infix_loop (parse_expression_bp src n) n min_bp)"

definition parse_expression :: "string \<Rightarrow> nat \<Rightarrow> expression parser" where
  "parse_expression src n = parse_expression_bp src n 0"

definition parse_primary_expression :: "string \<Rightarrow> nat \<Rightarrow> expression parser" where
  "parse_primary_expression src n = primary_expression src (parse_expression_bp src n) n"

section \<open>Statements\<close>

text \<open>Where the arguments of a command and the value of a \<^verbatim>\<open>return\<close> end.\<close>

fun ends_statement :: "token_kind \<Rightarrow> bool" where
  "ends_statement TNewline = True"
| "ends_statement TRightBrace = True"
| "ends_statement TEof = True"
| "ends_statement (TComment _) = True"
| "ends_statement _ = False"

primrec command_arguments :: "string \<Rightarrow> nat \<Rightarrow> expression list \<Rightarrow> expression list parser" where
  "command_arguments src 0 args = exhausted"
| "command_arguments src (Suc n) args =
     bnd peek (\<lambda>t.
       if ends_statement (tk_kind t) then ret args
       else bnd (parse_primary_expression src n) (\<lambda>e. command_arguments src n (args @ [e])))"

definition parse_command_statement :: "string \<Rightarrow> nat \<Rightarrow> statement parser" where
  "parse_command_statement src n =
     bnd current_span (\<lambda>start_span. bnd (check TSlash) (\<lambda>slash.
       bnd (if slash then bnd advance (\<lambda>_. ret ()) else ret ()) (\<lambda>_.
       bnd (expect_identifier src ''command name'') (\<lambda>name.
       bnd (command_arguments src n []) (\<lambda>args.
         let end_span = (if args = [] then span_new (sp_offset start_span) (length name) else expr_span (last args)) in
         ret (Command name args (span_merge start_span end_span)))))))"

definition parse_var_statement :: "string \<Rightarrow> nat \<Rightarrow> statement parser" where
  "parse_var_statement src n =
     bnd advance (\<lambda>start. bnd (expect_variable src ''variable name'') (\<lambda>(name, global).
       bnd (expect src TEqual (quoted ''='')) (\<lambda>_. bnd (parse_expression src n) (\<lambda>v.
         ret (VarDecl name global v (span_merge (tk_span start) (expr_span v)))))))"

definition parse_set_statement :: "string \<Rightarrow> nat \<Rightarrow> statement parser" where
  "parse_set_statement src n =
     bnd advance (\<lambda>start. bnd (expect_variable src ''variable name'') (\<lambda>(name, global).
       bnd (parse_expression src n) (\<lambda>v.
         ret (Set name global v (span_merge (tk_span start) (expr_span v))))))"

definition parse_return_statement :: "string \<Rightarrow> nat \<Rightarrow> statement parser" where
  "parse_return_statement src n =
     bnd advance (\<lambda>start. bnd peek (\<lambda>t.
       bnd (if ends_statement (tk_kind t) then ret None
            else bnd (parse_expression src n) (\<lambda>e. ret (Some e))) (\<lambda>v.
         ret (Return v (span_merge (tk_span start)
                (case v of None \<Rightarrow> tk_span start | Some e \<Rightarrow> expr_span e))))))"

definition parse_condition :: "string \<Rightarrow> nat \<Rightarrow> expression parser" where
  "parse_condition src n =
     bnd (expect src TLeftParen (quoted ''('')) (\<lambda>_. bnd (parse_expression src n) (\<lambda>c.
       bnd (expect src TRightParen (quoted '')'')) (\<lambda>_. ret c)))"

text \<open>\<open>stmt\<close> is the parser for the statements of a block.\<close>

primrec block_loop :: "statement parser \<Rightarrow> nat \<Rightarrow> statement list \<Rightarrow> statement list parser" where
  "block_loop stmt 0 stmts = exhausted"
| "block_loop stmt (Suc n) stmts =
     bnd (check TRightBrace) (\<lambda>c. bnd at_end (\<lambda>e.
       if c \<or> e then ret stmts
       else bnd stmt (\<lambda>s. bnd skip_trivia (\<lambda>_. block_loop stmt n (stmts @ [s])))))"

definition parse_block :: "string \<Rightarrow> statement parser \<Rightarrow> nat \<Rightarrow> statement list parser" where
  "parse_block src stmt n =
     bnd (expect src TLeftBrace (quoted [CHR 0x7B])) (\<lambda>_. bnd skip_trivia (\<lambda>_.
       bnd (block_loop stmt n []) (\<lambda>stmts.
         bnd (expect src TRightBrace (quoted [CHR 0x7D])) (\<lambda>_. ret stmts))))"

primrec if_branches ::
  "string \<Rightarrow> statement parser \<Rightarrow> nat \<Rightarrow> elseif_branch list \<Rightarrow> (elseif_branch list \<times> statement list option) parser" where
  "if_branches src stmt 0 branches = exhausted"
| "if_branches src stmt (Suc n) branches =
     bnd skip_trivia (\<lambda>_. bnd peek (\<lambda>t.
       if tk_kind t = TElseIf
       then bnd advance (\<lambda>_. bnd (parse_condition src n) (\<lambda>cond. bnd skip_trivia (\<lambda>_.
              bnd (parse_block src stmt n) (\<lambda>body. bnd current_span (\<lambda>branch_end.
                if_branches src stmt n
                  (branches @ [ElseIfBranch cond body (span_merge (tk_span t) branch_end)]))))))
       else if tk_kind t = TElse
       then bnd advance (\<lambda>_. bnd skip_trivia (\<lambda>_. bnd (parse_block src stmt n) (\<lambda>body. ret (branches, Some body))))
       else ret (branches, None)))"

definition parse_if_statement :: "string \<Rightarrow> statement parser \<Rightarrow> nat \<Rightarrow> statement parser" where
  "parse_if_statement src stmt n =
     bnd advance (\<lambda>start. bnd (parse_condition src n) (\<lambda>cond. bnd skip_trivia (\<lambda>_.
       bnd (parse_block src stmt n) (\<lambda>then_body. bnd (if_branches src stmt n []) (\<lambda>(branches, else_body).
         bnd current_span (\<lambda>end_span.
           ret (If cond then_body branches else_body (span_merge (tk_span start) end_span))))))))"

definition parse_while_statement :: "string \<Rightarrow> statement parser \<Rightarrow> nat \<Rightarrow> statement parser" where
  "parse_while_statement src stmt n =
     bnd advance (\<lambda>start. bnd (parse_condition src n) (\<lambda>cond. bnd skip_trivia (\<lambda>_.
       bnd (parse_block src stmt n) (\<lambda>body. bnd current_span (\<lambda>end_span.
         ret (While cond body (span_merge (tk_span start) end_span)))))))"

definition is_identifier :: "token_kind \<Rightarrow> bool" where
  "is_identifier k = (case k of TIdentifier _ \<Rightarrow> True | _ \<Rightarrow> False)"

primrec parse_statement :: "string \<Rightarrow> nat \<Rightarrow> statement parser" where
  "parse_statement src 0 = exhausted"
| "parse_statement src (Suc n) =
     bnd peek (\<lambda>t.
       if tk_kind t = TIf then parse_if_statement src (parse_statement src n) n
       else if tk_kind t = TWhile then parse_while_statement src (parse_statement src n) n
       else if tk_kind t = TVar then parse_var_statement src n
       else if tk_kind t = TSet then parse_set_statement src n
       else if tk_kind t = TReturn then parse_return_statement src n
       else if tk_kind t = TBreak then bnd advance (\<lambda>_. ret (Break (tk_span t)))
       else if tk_kind t = TContinue then bnd advance (\<lambda>_. ret (Continue (tk_span t)))
       else if tk_kind t = TSlash \<or> is_identifier (tk_kind t) then parse_command_statement src n
       else unexpected_token src ''statement'')"

section \<open>Top-level items\<close>

definition body_end :: "span \<Rightarrow> statement list \<Rightarrow> span" where
  "body_end start_span body = (if body = [] then start_span else stmt_span (last body))"

definition parse_alias :: "string \<Rightarrow> nat \<Rightarrow> alias_definition parser" where
  "parse_alias src n =
     bnd advance (\<lambda>start. bnd (expect_identifier src ''alias name'') (\<lambda>name. bnd skip_trivia (\<lambda>_.
       bnd (check TLeftBrace) (\<lambda>block.
         bnd (if block then parse_block src (parse_statement src n) n
              else bnd (parse_statement src n) (\<lambda>s. ret [s])) (\<lambda>body.
           ret \<lparr>ad_name = name, ad_body = body,
                ad_span = span_merge (tk_span start) (body_end (tk_span start) body)\<rparr>)))))"

definition event_names :: "(string \<times> event_type) list" where
  "event_names =
     [(''TEXT'', EvText), (''JOIN'', EvJoin), (''PART'', EvPart), (''KICK'', EvKick), (''QUIT'', EvQuit),
      (''CONNECT'', EvConnect), (''DISCONNECT'', EvDisconnect), (''INVITE'', EvInvite), (''NOTICE'', EvNotice),
      (''NICK'', EvNick), (''TOPIC'', EvTopic), (''MODE'', EvMode), (''CTCP'', EvCtcp), (''ACTION'', EvAction),
      (''NUMERIC'', EvNumeric)]"

text \<open>\<^verbatim>\<open>to_uppercase\<close> of an identifier, which the lexer makes of ASCII characters.\<close>

definition ascii_upper :: "char \<Rightarrow> char" where
  "ascii_upper c = (if 97 \<le> (of_char c :: nat) \<and> (of_char c :: nat) \<le> 122
                    then char_of (of_char c - 32 :: nat) else c)"

definition parse_event_type :: "string \<Rightarrow> string \<Rightarrow> token \<Rightarrow> parse_error + event_type" where
  "parse_event_type src name t =
     (case map_of event_names (map ascii_upper name) of
        Some e \<Rightarrow> Ok e
      | None \<Rightarrow> Err (InvalidEventType name (tk_span t) (location_from_offset src (sp_offset (tk_span t)))))"

fun pattern_text :: "string \<Rightarrow> token \<Rightarrow> string" where
  "pattern_text src t =
     (case tk_kind t of
        TStar \<Rightarrow> ''*'' | TIdentifier name \<Rightarrow> name | TString s \<Rightarrow> s | TInt v \<Rightarrow> int_to_string v
      | TColon \<Rightarrow> '':'' | TMinus \<Rightarrow> ''-''
      | _ \<Rightarrow> slice src (sp_offset (tk_span t)) (span_end (tk_span t)))"

fun ends_pattern :: "token_kind \<Rightarrow> bool" where
  "ends_pattern TLeftBrace = True"
| "ends_pattern TNewline = True"
| "ends_pattern TEof = True"
| "ends_pattern _ = False"

primrec pattern_loop :: "string \<Rightarrow> nat \<Rightarrow> string \<Rightarrow> string parser" where
  "pattern_loop src 0 pattern = exhausted"
| "pattern_loop src (Suc n) pattern =
     bnd peek (\<lambda>t.
       if ends_pattern (tk_kind t) then ret pattern
       else bnd advance (\<lambda>_. pattern_loop src n (pattern @ pattern_text src t)))"

definition parse_pattern :: "string \<Rightarrow> nat \<Rightarrow> string parser" where
  "parse_pattern src n =
     bnd (pattern_loop src n []) (\<lambda>pattern.
       let trimmed = trim pattern in ret (if trimmed = [] then ''*'' else trimmed))"

definition lift_result :: "parse_error + 'a \<Rightarrow> 'a parser" where
  "lift_result r ts = (case r of Err e \<Rightarrow> Failed e | Ok a \<Rightarrow> Parsed a ts)"

definition parse_event :: "string \<Rightarrow> nat \<Rightarrow> event_handler parser" where
  "parse_event src n =
     bnd advance (\<lambda>start. bnd peek (\<lambda>type_token. bnd (expect_identifier src ''event type'') (\<lambda>name.
       bnd (lift_result (parse_event_type src name type_token)) (\<lambda>event_type.
       bnd (check TColon) (\<lambda>colon.
       bnd (if colon then bnd advance (\<lambda>_. parse_pattern src n) else ret ''*'') (\<lambda>pattern.
       bnd skip_trivia (\<lambda>_. bnd (parse_block src (parse_statement src n) n) (\<lambda>body.
       bnd current_span (\<lambda>end_span.
         ret \<lparr>eh_event_type = event_type, eh_pattern = pattern, eh_body = body,
              eh_span = span_merge (tk_span start) end_span\<rparr>)))))))))"

definition parse_timer :: "string \<Rightarrow> nat \<Rightarrow> timer_definition parser" where
  "parse_timer src n =
     bnd advance (\<lambda>start. bnd (expect_identifier src ''timer name'') (\<lambda>name.
       bnd (parse_primary_expression src n) (\<lambda>interval. bnd (parse_primary_expression src n) (\<lambda>repetitions.
       bnd skip_trivia (\<lambda>_. bnd (parse_block src (parse_statement src n) n) (\<lambda>body.
       bnd current_span (\<lambda>end_span.
         ret \<lparr>td_name = name, td_interval = interval, td_repetitions = repetitions, td_body = body,
              td_span = span_merge (tk_span start) end_span\<rparr>)))))))"

definition parse_top_level_item :: "string \<Rightarrow> nat \<Rightarrow> top_level_item parser" where
  "parse_top_level_item src n =
     bnd peek (\<lambda>t.
       if tk_kind t = TAlias then bnd (parse_alias src n) (\<lambda>a. ret (TopAlias a))
       else if tk_kind t = TOn then bnd (parse_event src n) (\<lambda>e. ret (TopEvent e))
       else if tk_kind t = TTimer then bnd (parse_timer src n) (\<lambda>d. ret (TopTimer d))
       else unexpected_token src
         (quoted ''alias'' @ '', '' @ quoted ''on'' @ '', or '' @ quoted ''timer''))"

primrec items_loop :: "string \<Rightarrow> nat \<Rightarrow> top_level_item list \<Rightarrow> top_level_item list parser" where
  "items_loop src 0 items = exhausted"
| "items_loop src (Suc n) items =
     bnd at_end (\<lambda>e.
       if e then ret items
       else bnd (parse_top_level_item src n) (\<lambda>item. bnd skip_trivia (\<lambda>_. items_loop src n (items @ [item]))))"

definition parse_with :: "string \<Rightarrow> nat \<Rightarrow> script parser" where
  "parse_with src n =
     bnd current_span (\<lambda>start_span. bnd skip_trivia (\<lambda>_. bnd (items_loop src n []) (\<lambda>items.
       bnd current_span (\<lambda>end_span.
         ret \<lparr>sc_items = items, sc_span = (if items = [] then start_span else span_merge start_span end_span)\<rparr>))))"

text \<open>\<^verbatim>\<open>Parser::parse\<close>. Every call consumes a token or is one of few calls before the next token is consumed.\<close>

definition parse_fuel :: "token list \<Rightarrow> nat" where
  "parse_fuel ts = length ts + 1"

definition parse_script :: "string \<Rightarrow> token list \<Rightarrow> script parsed" where
  "parse_script src ts = parse_with src (parse_fuel ts) ts"

end
