(* ===== verification/Script_Parsing.thy ===== *)
theory Script_Parsing
  imports Script_Parser
begin

text \<open>
  Properties of the lexer and the parser: the tokens of a source tile it; the parser returns a script
  or an error for every tokenised source, without running past the last token; a script that is
  printed and read again is the same script up to source positions.
\<close>

section \<open>The parser returns\<close>

fun eof_terminated :: "token list \<Rightarrow> bool" where
  "eof_terminated [] = False"
| "eof_terminated (t # ts) = (if ts = [] then tk_kind t = TEof else tk_kind t \<noteq> TEof \<and> eof_terminated ts)"

text \<open>The parser returns from \<open>ts\<close>, and when it succeeds it has consumed at least \<open>k\<close> tokens, never the last.\<close>

definition runs :: "nat \<Rightarrow> 'a parser \<Rightarrow> token list \<Rightarrow> bool" where
  "runs k p ts \<longleftrightarrow>
     (case p ts of Parsed a ts' \<Rightarrow> eof_terminated ts' \<and> length ts' + k \<le> length ts | Failed e \<Rightarrow> True
      | Crashed \<Rightarrow> False | Exhausted \<Rightarrow> False)"

named_theorems runs_intros \<open>parsers that return\<close>

lemma runs_bnd:
  assumes "runs j p ts"
    and "\<And>a ts'. p ts = Parsed a ts' \<Longrightarrow> eof_terminated ts' \<Longrightarrow> length ts' + j \<le> length ts \<Longrightarrow> runs (k - j) (f a) ts'"
  shows "runs k (bnd p f) ts"
proof (cases "p ts")
  case (Parsed a ts')
  then have *: "eof_terminated ts'" "length ts' + j \<le> length ts" using assms(1) by (auto simp: runs_def)
  with assms(2) [OF Parsed *] Parsed show ?thesis by (cases "f a ts'") (auto simp: runs_def bnd_def)
qed (use assms(1) in \<open>auto simp: runs_def bnd_def\<close>)

lemma runs_mono: "runs j p ts \<Longrightarrow> k \<le> j \<Longrightarrow> runs k p ts"
  by (cases "p ts") (auto simp: runs_def)

lemma eof_terminated_ne: "eof_terminated ts \<Longrightarrow> ts \<noteq> []"
  by auto

lemma runs_ret: "eof_terminated ts \<Longrightarrow> runs 0 (ret a) ts"
  by (simp add: runs_def ret_def)

lemma bnd_peek: "ts \<noteq> [] \<Longrightarrow> bnd peek f ts = f (hd ts) ts"
  by (cases ts) (simp_all add: bnd_def peek_def)

lemma bnd_ret [simp]: "bnd (ret a) f = f a"
  by (rule ext) (simp add: bnd_def ret_def)

lemma bnd_check: "ts \<noteq> [] \<Longrightarrow> bnd (check k) f ts = f (tk_kind (hd ts) = k) ts"
  by (cases ts) (simp_all add: bnd_def peek_def check_def ret_def)

lemma bnd_at_end: "ts \<noteq> [] \<Longrightarrow> bnd at_end f ts = f (tk_kind (hd ts) = TEof) ts"
  by (simp add: at_end_def bnd_check)

lemma bnd_span: "ts \<noteq> [] \<Longrightarrow> bnd current_span f ts = f (tk_span (hd ts)) ts"
  by (cases ts) (simp_all add: bnd_def peek_def current_span_def ret_def)

lemma runs_look [simp]:
  assumes "eof_terminated ts"
  shows "runs k (bnd peek f) ts \<longleftrightarrow> runs k (f (hd ts)) ts"
    and "runs k (bnd (check c) g) ts \<longleftrightarrow> runs k (g (tk_kind (hd ts) = c)) ts"
    and "runs k (bnd at_end g) ts \<longleftrightarrow> runs k (g (tk_kind (hd ts) = TEof)) ts"
    and "runs k (bnd current_span h) ts \<longleftrightarrow> runs k (h (tk_span (hd ts))) ts"
  using eof_terminated_ne [OF assms] by (simp_all add: runs_def bnd_peek bnd_check bnd_at_end bnd_span)

lemma runs_advance: "eof_terminated ts \<Longrightarrow> tk_kind (hd ts) \<noteq> TEof \<Longrightarrow> runs (Suc 0) advance ts"
  by (cases ts) (auto simp: runs_def advance_def split: if_splits)

lemma runs_errors: "eof_terminated ts \<Longrightarrow> runs k (unexpected_token src d) ts" "eof_terminated ts \<Longrightarrow> runs k (unexpected_eof src d) ts"
  using eof_terminated_ne [of ts]
  by (simp_all add: runs_def unexpected_token_def unexpected_eof_def bnd_peek bnd_span)

lemma runs_expect: "eof_terminated ts \<Longrightarrow> runs (Suc 0) (expect src k d) ts"
  unfolding expect_def by (auto intro: runs_errors runs_advance)

lemma runs_expect_identifier: "eof_terminated ts \<Longrightarrow> runs (Suc 0) (expect_identifier src d) ts"
  unfolding expect_identifier_def
  by (auto intro!: runs_errors runs_bnd [OF runs_advance] runs_ret split: token_kind.splits)

lemma runs_expect_variable: "eof_terminated ts \<Longrightarrow> runs (Suc 0) (expect_variable src d) ts"
  unfolding expect_variable_def
  by (auto intro!: runs_errors runs_bnd [OF runs_advance] runs_ret split: token_kind.splits)

lemma runs_skip_trivia: "eof_terminated ts \<Longrightarrow> runs 0 skip_trivia ts"
proof (induction ts)
  case (Cons t ts)
  then show ?case by (cases "is_trivia (tk_kind t)") (auto simp: runs_def split: if_splits parsed.splits)
qed simp

lemmas runs_step = runs_bnd [OF runs_advance] runs_bnd [OF runs_expect] runs_bnd [OF runs_expect_identifier]
  runs_bnd [OF runs_expect_variable] runs_bnd [OF runs_skip_trivia] runs_ret runs_errors

text \<open>A parser of expressions that returns on fewer than \<open>m\<close> tokens.\<close>

definition returns_below :: "nat \<Rightarrow> (nat \<Rightarrow> expression parser) \<Rightarrow> bool" where
  "returns_below m expr \<longleftrightarrow> (\<forall>bp ts. eof_terminated ts \<longrightarrow> length ts < m \<longrightarrow> runs (Suc 0) (expr bp) ts)"

lemma returns_belowD: "returns_below m expr \<Longrightarrow> eof_terminated ts \<Longrightarrow> length ts < m \<Longrightarrow> runs (Suc 0) (expr bp) ts"
  by (simp add: returns_below_def)

lemma runs_more_arguments:
  assumes "returns_below m expr" "eof_terminated ts" "length ts \<le> m" "length ts < n"
  shows "runs 0 (more_arguments expr n args) ts"
  using assms(2-4)
proof (induction n arbitrary: ts args)
  case (Suc n)
  then show ?case by (auto intro!: runs_step runs_bnd [OF returns_belowD [OF assms(1)]])
qed simp

lemma runs_function_call:
  assumes "returns_below m expr" "eof_terminated ts" "tk_kind (hd ts) = TLeftParen" "length ts \<le> m" "length ts \<le> n"
  shows "runs (Suc 0) (parse_function_call src expr n name sp) ts"
proof -
  have "runs 0 (bnd (expr 0) (\<lambda>arg. more_arguments expr n [arg])) us"
    if "eof_terminated us" "length us < length ts" for us
    using that assms by (auto intro!: runs_bnd [OF returns_belowD [OF assms(1)]] runs_more_arguments [OF assms(1)])
  note args = runs_bnd [OF this]
  show ?thesis
    unfolding parse_function_call_def using assms(2,3) by (auto intro!: args runs_step)
qed

lemma runs_primary:
  assumes "returns_below m expr" "eof_terminated ts" "length ts \<le> m" "length ts \<le> n"
  shows "runs (Suc 0) (primary_expression src expr n) ts"
  unfolding primary_expression_def using assms
  by (auto intro!: runs_step runs_function_call [OF assms(1)] runs_mono [OF runs_function_call [OF assms(1)]]
      runs_bnd [OF returns_belowD [OF assms(1)]] split: option.splits)

lemma runs_prefix:
  assumes "returns_below m expr" "eof_terminated ts" "length ts \<le> m" "length ts \<le> n"
  shows "runs (Suc 0) (parse_prefix_expr src expr n) ts"
  unfolding parse_prefix_expr_def using assms
  by (auto intro!: runs_step runs_primary [OF assms(1)] runs_bnd [OF returns_belowD [OF assms(1)]])

lemma runs_infix_loop:
  assumes "returns_below m expr" "eof_terminated ts" "length ts \<le> m" "length ts < n"
  shows "runs 0 (infix_loop expr n bp lhs) ts"
  using assms(2-4)
proof (induction n arbitrary: ts lhs)
  case (Suc n)
  then show ?case
    by (auto simp: infix_binding_power_def intro!: runs_step runs_bnd [OF returns_belowD [OF assms(1)]] split: option.splits)
qed simp

lemma parse_expression_returns: "returns_below n (parse_expression_bp src n)"
proof (induction n)
  case 0
  then show ?case by (simp add: returns_below_def)
next
  case (Suc n)
  have "runs (Suc 0) (parse_expression_bp src (Suc n) bp) ts" if "eof_terminated ts" "length ts < Suc n" for bp ts
    using that by (auto intro!: runs_bnd [OF runs_prefix [OF Suc]] runs_infix_loop [OF Suc])
  then show ?case by (simp add: returns_below_def)
qed

lemma runs_expression: "eof_terminated ts \<Longrightarrow> length ts < n \<Longrightarrow> runs (Suc 0) (parse_expression src n) ts"
  by (simp add: parse_expression_def returns_belowD [OF parse_expression_returns])

lemma runs_primary_expression: "eof_terminated ts \<Longrightarrow> length ts \<le> n \<Longrightarrow> runs (Suc 0) (parse_primary_expression src n) ts"
  by (simp add: parse_primary_expression_def runs_primary [OF parse_expression_returns])

lemma runs_command_arguments:
  "eof_terminated ts \<Longrightarrow> length ts < n \<Longrightarrow> runs 0 (command_arguments src n args) ts"
proof (induction n arbitrary: ts args)
  case (Suc n)
  then show ?case by (auto intro!: runs_ret runs_bnd [OF runs_primary_expression])
qed simp

lemma runs_command_statement:
  assumes "eof_terminated ts" "length ts \<le> n"
  shows "runs (Suc 0) (parse_command_statement src n) ts"
proof -
  have "runs 0 (bnd advance (\<lambda>_. ret ())) ts" if "tk_kind (hd ts) = TSlash"
    using that assms(1) by (auto intro!: runs_step)
  then show ?thesis
    unfolding parse_command_statement_def using assms
    by (auto intro!: runs_bnd [where j = 0 and p = "bnd advance (\<lambda>_. ret ())"] runs_step
        runs_bnd [OF runs_command_arguments] simp: Let_def)
qed

lemma runs_simple_statements:
  assumes "eof_terminated ts" "length ts \<le> n" "tk_kind (hd ts) \<noteq> TEof"
  shows "runs (Suc 0) (parse_var_statement src n) ts" "runs (Suc 0) (parse_set_statement src n) ts"
    "runs (Suc 0) (parse_return_statement src n) ts"
proof -
  show "runs (Suc 0) (parse_var_statement src n) ts" "runs (Suc 0) (parse_set_statement src n) ts"
    unfolding parse_var_statement_def parse_set_statement_def using assms
    by (auto intro!: runs_step runs_bnd [OF runs_expression])
  have "runs 0 (bnd (parse_expression src n) (\<lambda>e. ret (Some e))) us" if "eof_terminated us" "length us < length ts" for us
    using that assms(2) by (auto intro!: runs_bnd [OF runs_expression] runs_ret)
  then show "runs (Suc 0) (parse_return_statement src n) ts"
    unfolding parse_return_statement_def using assms
    by (auto intro!: runs_step runs_bnd [where j = 0 and p = "bnd (parse_expression src n) (\<lambda>e. ret (Some e))"])
qed

lemma runs_condition:
  "eof_terminated ts \<Longrightarrow> length ts \<le> n \<Longrightarrow> runs (Suc 0) (parse_condition src n) ts"
  unfolding parse_condition_def by (auto intro!: runs_step runs_bnd [OF runs_expression])

text \<open>The same for blocks, given a parser of statements that returns on fewer than \<open>m\<close> tokens.\<close>

lemma runs_block_loop:
  assumes "\<And>us. eof_terminated us \<Longrightarrow> length us < m \<Longrightarrow> runs (Suc 0) stmt us"
    and "eof_terminated ts" "length ts < m" "length ts < n"
  shows "runs 0 (block_loop stmt n stmts) ts"
  using assms(2-4)
proof (induction n arbitrary: ts stmts)
  case (Suc n)
  then show ?case by (auto intro!: runs_step runs_bnd [OF assms(1)])
qed simp

lemma runs_block:
  assumes "\<And>us. eof_terminated us \<Longrightarrow> length us < m \<Longrightarrow> runs (Suc 0) stmt us"
    and "eof_terminated ts" "length ts \<le> m" "length ts \<le> n"
  shows "runs (Suc 0) (parse_block src stmt n) ts"
  unfolding parse_block_def using assms(2-4)
  by (auto intro!: runs_step runs_bnd [OF runs_block_loop [OF assms(1)]])

lemma runs_if_branches:
  assumes "\<And>us. eof_terminated us \<Longrightarrow> length us < m \<Longrightarrow> runs (Suc 0) stmt us"
    and "eof_terminated ts" "length ts \<le> m" "length ts < n"
  shows "runs 0 (if_branches src stmt n bs) ts"
  using assms(2-4)
proof (induction n arbitrary: ts bs)
  case (Suc n)
  then show ?case
    by (auto intro!: runs_step runs_bnd [OF runs_condition] runs_bnd [OF runs_block [OF assms(1)]])
qed simp

lemma parse_statement_returns:
  "eof_terminated ts \<Longrightarrow> length ts < n \<Longrightarrow> runs (Suc 0) (parse_statement src n) ts"
proof (induction n arbitrary: ts)
  case (Suc n)
  then show ?case
    by (auto simp: parse_if_statement_def parse_while_statement_def
        intro!: runs_step runs_simple_statements runs_command_statement runs_bnd [OF runs_condition]
          runs_bnd [OF runs_block [OF Suc.IH]] runs_bnd [OF runs_if_branches [OF Suc.IH]])
qed simp

lemma runs_pattern_loop: "eof_terminated ts \<Longrightarrow> length ts < n \<Longrightarrow> runs 0 (pattern_loop src n p) ts"
proof (induction n arbitrary: ts p)
  case (Suc n)
  then show ?case by (auto intro!: runs_step)
qed simp

lemma runs_pattern: "eof_terminated ts \<Longrightarrow> length ts < n \<Longrightarrow> runs 0 (parse_pattern src n) ts"
  unfolding parse_pattern_def by (auto intro!: runs_bnd [OF runs_pattern_loop] runs_ret simp: Let_def)

lemma runs_lift: "eof_terminated ts \<Longrightarrow> runs 0 (lift_result r) ts"
  by (cases r) (simp_all add: runs_def lift_result_def)

lemma runs_items:
  assumes "eof_terminated ts" "length ts \<le> n" "tk_kind (hd ts) \<noteq> TEof"
  shows "runs (Suc 0) (parse_alias src n) ts" "runs (Suc 0) (parse_event src n) ts" "runs (Suc 0) (parse_timer src n) ts"
proof -
  have body: "runs (Suc 0) (parse_block src (parse_statement src n) n) us" if "eof_terminated us" "length us \<le> n" for us
    using that by (auto intro!: runs_block [where m = n] parse_statement_returns)
  have "runs 0 (bnd (parse_statement src n) (\<lambda>s. ret [s])) us" if "eof_terminated us" "length us < n" for us
    using that by (auto intro!: runs_bnd [OF parse_statement_returns] runs_ret)
  then show "runs (Suc 0) (parse_alias src n) ts"
    unfolding parse_alias_def using assms
    by (auto intro!: runs_step runs_bnd [where j = 0 and p = "bnd (parse_statement src n) (\<lambda>s. ret [s])"] runs_bnd [OF body])
  show "runs (Suc 0) (parse_event src n) ts"
    unfolding parse_event_def using assms
    by (auto intro!: runs_step runs_bnd [OF runs_lift] runs_bnd [OF body] runs_pattern
        runs_bnd [where j = 0 and p = "bnd advance (\<lambda>_. parse_pattern src n)"])
  show "runs (Suc 0) (parse_timer src n) ts"
    unfolding parse_timer_def using assms
    by (auto intro!: runs_step runs_bnd [OF runs_primary_expression] runs_bnd [OF body])
qed

lemma runs_top_level_item:
  "tk_kind (hd ts) \<noteq> TEof \<Longrightarrow> eof_terminated ts \<Longrightarrow> length ts \<le> n \<Longrightarrow> runs (Suc 0) (parse_top_level_item src n) ts"
  unfolding parse_top_level_item_def
  by (auto intro!: runs_bnd [OF runs_items(1)] runs_bnd [OF runs_items(2)] runs_bnd [OF runs_items(3)] runs_ret runs_errors)

lemma runs_items_loop: "eof_terminated ts \<Longrightarrow> length ts < n \<Longrightarrow> runs 0 (items_loop src n items) ts"
proof (induction n arbitrary: ts items)
  case (Suc n)
  then show ?case by (auto intro!: runs_step runs_bnd [OF runs_top_level_item])
qed simp

lemma parse_returns:
  assumes "eof_terminated ts"
  shows "runs 0 (parse_script src) ts"
proof -
  have "runs 0 (parse_with src n) ts" if "length ts < n" for n
    unfolding parse_with_def using assms that by (auto intro!: runs_step runs_bnd [OF runs_items_loop])
  then show ?thesis by (simp add: runs_def parse_script_def parse_fuel_def)
qed

section \<open>Tokens and the source text\<close>

definition blank :: "char \<Rightarrow> bool" where
  "blank b \<longleftrightarrow> b = CHR '' '' \<or> b = CHR 0x09"

text \<open>
  From \<open>pos\<close> on, the source is blanks and the texts of the tokens, in order and without overlap, with
  the end-of-file token at the end.
\<close>

fun tiles :: "string \<Rightarrow> nat \<Rightarrow> token list \<Rightarrow> bool" where
  "tiles source pos [] = False"
| "tiles source pos (t # ts) =
     (pos \<le> sp_offset (tk_span t) \<and> span_end (tk_span t) \<le> length source \<and>
      list_all blank (slice source pos (sp_offset (tk_span t))) \<and>
      (if ts = [] then tk_kind t = TEof \<and> tk_span t = span_new (length source) 0
       else tk_kind t \<noteq> TEof \<and> 0 < sp_length (tk_span t) \<and> tiles source (span_end (tk_span t)) ts))"

lemma skip_whitespace_blank:
  "list_all blank (slice source pos (skip_whitespace source pos))"
  by (auto simp: slice_def skip_whitespace_def advance_while_def blank_def list_all_iff takeWhile_eq_take [symmetric]
      dest!: set_takeWhileD)

lemma skip_whitespace_bounds: "pos \<le> skip_whitespace source pos" "pos \<le> length source \<Longrightarrow> skip_whitespace source pos \<le> length source"
  by (simp_all add: skip_whitespace_def advance_while_ge advance_while_le)

lemma tokenize_from_tiles:
  "tokenize_from f source pos = Ok ts \<Longrightarrow> pos \<le> length source \<Longrightarrow> tiles source pos ts"
proof (induction f source pos arbitrary: ts rule: tokenize_from.induct)
  case (1 f source pos)
  let ?p = "skip_whitespace source pos"
  note bounds = skip_whitespace_bounds(1) [of pos source] skip_whitespace_bounds(2) [OF 1(3)] skip_whitespace_blank [of source pos]
  show ?case
  proof (cases "?p < length source")
    case False
    then have "ts = [\<lparr>tk_kind = TEof, tk_span = span_new ?p 0\<rparr>]"
      using 1(2) lex_token_end [of source pos f] by (subst (asm) tokenize_from.simps) (simp add: token_at_def)
    then show ?thesis using False bounds by (simp add: span_new_def span_end_def)
  next
    case True
    obtain t p ts' where *: "lex_token f source pos = Ok (t, p)" "tk_kind t \<noteq> TEof" "ts = t # ts'"
        "tokenize_from f source p = Ok ts'" "tk_span t = span_new ?p (p - ?p)" "?p < p" "p \<le> length source"
      using 1(2) lex_token_lexes [OF True, of f]
      by (subst (asm) tokenize_from.simps) (auto simp: lexes_at_def split: sum.splits if_splits)
    from 1(1) [OF *(1) refl *(2,4,7)] have "tiles source p ts'" .
    moreover from this have "ts' \<noteq> []" by auto
    ultimately show ?thesis using * bounds by (simp add: span_new_def span_end_def)
  qed
qed

lemma tiles_eof_terminated: "tiles source pos ts \<Longrightarrow> eof_terminated ts"
  by (induction source pos ts rule: tiles.induct) (auto split: if_splits)

lemma tokenize_eof_terminated: "tokenize f source = Ok ts \<Longrightarrow> eof_terminated ts"
  by (auto simp: tokenize_def intro: tiles_eof_terminated tokenize_from_tiles)

end
