(* ===== verification/Script_Roundtrip.thy ===== *)
theory Script_Roundtrip
  imports Script_Parsing
begin

text \<open>
  Printing scripts, and that lexer and parser read a printed script back. Trees are compared up to
  their source positions, which \<open>erase_expr\<close>, \<open>erase_stmt\<close> and \<open>erase_item\<close> reset.
\<close>

section \<open>Erasing positions\<close>

abbreviation no_span :: span where "no_span \<equiv> \<lparr>sp_offset = 0, sp_length = 0\<rparr>"

fun erase_expr :: "expression \<Rightarrow> expression" and erase_part :: "string_part \<Rightarrow> string_part" where
  "erase_expr (BinaryOp l op' r sp) = BinaryOp (erase_expr l) op' (erase_expr r) no_span"
| "erase_expr (UnaryOp op' e sp) = UnaryOp op' (erase_expr e) no_span"
| "erase_expr (StringLiteral v sp) = StringLiteral v no_span"
| "erase_expr (NumberLiteral v sp) = NumberLiteral v no_span"
| "erase_expr (IntLiteral v sp) = IntLiteral v no_span"
| "erase_expr (BoolLiteral v sp) = BoolLiteral v no_span"
| "erase_expr (Variable v sp) = Variable v no_span"
| "erase_expr (GlobalVariable v sp) = GlobalVariable v no_span"
| "erase_expr (BuiltinId v sp) = BuiltinId v no_span"
| "erase_expr (Identifier v sp) = Identifier v no_span"
| "erase_expr (FunctionCall v es sp) = FunctionCall v (map erase_expr es) no_span"
| "erase_expr (Interpolated ps sp) = Interpolated (map erase_part ps) no_span"
| "erase_expr (Grouped e sp) = Grouped (erase_expr e) no_span"
| "erase_part (PartLiteral s) = PartLiteral s"
| "erase_part (PartExpr e) = PartExpr (erase_expr e)"

fun erase_stmt :: "statement \<Rightarrow> statement" and erase_branch :: "elseif_branch \<Rightarrow> elseif_branch" where
  "erase_stmt (Command n as sp) = Command n (map erase_expr as) no_span"
| "erase_stmt (If c b bs e sp) =
     If (erase_expr c) (map erase_stmt b) (map erase_branch bs) (map_option (map erase_stmt) e) no_span"
| "erase_stmt (While c b sp) = While (erase_expr c) (map erase_stmt b) no_span"
| "erase_stmt (VarDecl n g e sp) = VarDecl n g (erase_expr e) no_span"
| "erase_stmt (Set n g e sp) = Set n g (erase_expr e) no_span"
| "erase_stmt (Return e sp) = Return (map_option erase_expr e) no_span"
| "erase_stmt (Break sp) = Break no_span"
| "erase_stmt (Continue sp) = Continue no_span"
| "erase_stmt (ExprStatement e sp) = ExprStatement (erase_expr e) no_span"
| "erase_branch (ElseIfBranch c b sp) = ElseIfBranch (erase_expr c) (map erase_stmt b) no_span"

section \<open>Printing expressions\<close>

fun op_token :: "binary_op \<Rightarrow> token_kind" where
  "op_token Or = TPipePipe" | "op_token And = TAmpAmp" | "op_token Eq = TEqualEqual" | "op_token Neq = TBangEqual"
| "op_token Lt = TLess" | "op_token Gt = TGreater" | "op_token Lte = TLessEqual" | "op_token Gte = TGreaterEqual"
| "op_token Add = TPlus" | "op_token Sub = TMinus" | "op_token Mul = TStar" | "op_token Div = TSlash"
| "op_token Mod = TPercent"

fun commas :: "token_kind list list \<Rightarrow> token_kind list" where
  "commas [] = []"
| "commas [ks] = ks"
| "commas (ks # kss) = ks @ TComma # commas kss"

text \<open>What a part of an interpolated string looks like in the literal.\<close>

fun part_text :: "string_part \<Rightarrow> string" where
  "part_text (PartLiteral s) = s"
| "part_text (PartExpr (BuiltinId n sp)) = CHR 0x24 # n"
| "part_text (PartExpr (Variable n sp)) = CHR 0x25 # n"
| "part_text (PartExpr _) = []"

fun expr_tokens :: "expression \<Rightarrow> token_kind list" where
  "expr_tokens (BinaryOp l op' r sp) = expr_tokens l @ op_token op' # expr_tokens r"
| "expr_tokens (UnaryOp op' e sp) = (case op' of Not \<Rightarrow> TBang | Neg \<Rightarrow> TMinus) # expr_tokens e"
| "expr_tokens (StringLiteral v sp) = [TString v]"
| "expr_tokens (NumberLiteral v sp) = [TNumber v]"
| "expr_tokens (IntLiteral v sp) = [TInt v]"
| "expr_tokens (BoolLiteral v sp) = [if v then TTrue else TFalse]"
| "expr_tokens (Variable v sp) = [TVariable v]"
| "expr_tokens (GlobalVariable v sp) = [TGlobalVariable v]"
| "expr_tokens (BuiltinId v sp) = [TBuiltin v]"
| "expr_tokens (Identifier v sp) = [TIdentifier v]"
| "expr_tokens (FunctionCall v es sp) = TBuiltin v # TLeftParen # commas (map expr_tokens es) @ [TRightParen]"
| "expr_tokens (Interpolated ps sp) = [TString (concat (map part_text ps))]"
| "expr_tokens (Grouped e sp) = TLeftParen # expr_tokens e @ [TRightParen]"

text \<open>
  A string refers to something where a dollar or percent sign stands before the start of a name. The
  parts of an interpolated string are texts without a reference and references, and no text follows
  another or continues the name of the reference before it. A global variable is not among the
  references: the parser takes the first percent sign of \<^verbatim>\<open>%%name\<close> as text.
\<close>

fun no_reference :: "string \<Rightarrow> bool" where
  "no_reference (b # c # bs) \<longleftrightarrow> \<not> ((b = CHR 0x24 \<or> b = CHR 0x25) \<and> is_interp_start c) \<and> no_reference (c # bs)"
| "no_reference _ \<longleftrightarrow> True"

definition reference_name :: "string \<Rightarrow> bool" where
  "reference_name n \<longleftrightarrow> n \<noteq> [] \<and> is_interp_start (hd n) \<and> list_all is_interp_continue n"

fun is_reference :: "expression \<Rightarrow> bool" where
  "is_reference (BuiltinId n sp) \<longleftrightarrow> reference_name n"
| "is_reference (Variable n sp) \<longleftrightarrow> reference_name n"
| "is_reference _ \<longleftrightarrow> False"

fun parts_ok :: "string_part list \<Rightarrow> bool" where
  "parts_ok [] \<longleftrightarrow> True"
| "parts_ok (PartLiteral t # ps) \<longleftrightarrow>
     t \<noteq> [] \<and> valid_utf8 t \<and> no_reference t \<and> (case ps of PartLiteral _ # _ \<Rightarrow> False | _ \<Rightarrow> True) \<and> parts_ok ps"
| "parts_ok (PartExpr e # ps) \<longleftrightarrow>
     is_reference e \<and> (case ps of PartLiteral t # _ \<Rightarrow> \<not> is_interp_continue (hd t) | _ \<Rightarrow> True) \<and> parts_ok ps"

definition is_part_expr :: "string_part \<Rightarrow> bool" where
  "is_part_expr p \<longleftrightarrow> (case p of PartExpr _ \<Rightarrow> True | PartLiteral _ \<Rightarrow> False)"

text \<open>
  The trees that the grammar derives at a least binding power: operators of lower power and
  right-nested operators of equal power occur only inside \<^const>\<open>Grouped\<close>, and a string that contains a
  reference is an \<^const>\<open>Interpolated\<close> one.
\<close>

fun expr_ok :: "nat \<Rightarrow> expression \<Rightarrow> bool" where
  "expr_ok bp (BinaryOp l op' r sp) \<longleftrightarrow> bp \<le> left_bp op' \<and> expr_ok (left_bp op') l \<and> expr_ok (left_bp op' + 1) r"
| "expr_ok bp (UnaryOp op' e sp) \<longleftrightarrow> expr_ok PREFIX_BP e"
| "expr_ok bp (StringLiteral v sp) \<longleftrightarrow> no_reference v"
| "expr_ok bp (FunctionCall v es sp) \<longleftrightarrow> list_all (expr_ok 0) es"
| "expr_ok bp (Interpolated ps sp) \<longleftrightarrow> parts_ok ps \<and> list_ex is_part_expr ps"
| "expr_ok bp (Grouped e sp) \<longleftrightarrow> expr_ok 0 e"
| "expr_ok bp _ \<longleftrightarrow> True"

section \<open>Reading expressions back\<close>

lemma expr_ok_mono: "expr_ok bp e \<Longrightarrow> bp' \<le> bp \<Longrightarrow> expr_ok bp' e"
  by (cases e) auto

lemma infix_op_token [simp]: "infix_op (op_token op') = Some op'"
  by (cases op') auto

lemma left_bp_bound: "left_bp op' < PREFIX_BP"
  by (cases op') (auto simp: PREFIX_BP_def)

lemma op_token_simps [simp]: "op_token op' \<noteq> TLeftParen" "op_token op' \<noteq> TEof"
  by (cases op'; simp)+

lemma expr_tokens_ne [simp]: "expr_tokens e \<noteq> []"
  by (cases e) auto

lemma hd_expr_tokens: "hd (expr_tokens e) \<noteq> TRightParen" "\<not> ends_statement (hd (expr_tokens e))"
proof -
  have "hd (expr_tokens e) \<noteq> TRightParen \<and> \<not> ends_statement (hd (expr_tokens e))"
    by (induction e rule: expr_tokens.induct) (auto split: unary_op.splits)
  then show "hd (expr_tokens e) \<noteq> TRightParen" "\<not> ends_statement (hd (expr_tokens e))" by auto
qed

text \<open>A well-formed string starts with an ASCII character or with a complete longer one.\<close>

lemma valid_utf8_cases:
  assumes "valid_utf8 s" "s \<noteq> []"
  obtains (ascii) b s' where "s = b # s'" "byte_in 0 127 b" "valid_utf8 s'"
  | (multi) ch s' where "s = ch @ s'" "valid_utf8 s'" "ch \<noteq> []" "list_all (byte_in 128 255) ch" "\<forall>w. hd (str_chars (ch @ w)) = ch"
proof -
  obtain b0 bs where s: "s = b0 # bs" using assms(2) by (cases s) auto
  consider "byte_in 0 127 b0" "valid_utf8 bs"
    | b1 r where "bs = b1 # r" "byte_in 194 223 b0" "byte_in 128 191 b1" "valid_utf8 r"
    | b1 b2 r where "bs = b1 # b2 # r" "byte_in 224 239 b0" "byte_in 128 191 b1" "byte_in 128 191 b2" "valid_utf8 r"
    | b1 b2 b3 r where "bs = b1 # b2 # b3 # r" "byte_in 240 244 b0" "byte_in 128 191 b1" "byte_in 128 191 b2" "byte_in 128 191 b3" "valid_utf8 r"
    using assms(1) s by (auto simp: byte_in_def split: if_splits list.splits)
  then show thesis
  proof cases
    case 1
    then show ?thesis using ascii s by blast
  next
    case 2
    then show ?thesis using multi [of "[b0, b1]"] s by (auto simp: byte_in_def Let_def)
  next
    case 3
    then show ?thesis using multi [of "[b0, b1, b2]"] s by (auto simp: byte_in_def Let_def)
  next
    case 4
    then show ?thesis using multi [of "[b0, b1, b2, b3]"] s by (auto simp: byte_in_def Let_def)
  qed
qed

lemma takeWhile_word: "list_all p w \<Longrightarrow> r = [] \<or> \<not> p (hd r) \<Longrightarrow> takeWhile p (w @ r) = w"
  by (induction w) (cases r, auto)

lemma dropWhile_word: "list_all p w \<Longrightarrow> r = [] \<or> \<not> p (hd r) \<Longrightarrow> dropWhile p (w @ r) = r"
  by (induction w) (cases r, auto)

subsection \<open>Interpolated strings\<close>

lemma no_reference_tl: "no_reference (b # bs) \<Longrightarrow> no_reference bs"
  by (cases bs) auto

lemma no_reference_drop: "no_reference s \<Longrightarrow> no_reference (drop k s)"
  by (induction k arbitrary: s) (auto simp: drop_Suc dest: no_reference_tl split: list.splits, metis drop_Suc no_reference_tl list.collapse drop_Nil list.sel(2))

lemma no_reference_head: "no_reference (b # bs) \<Longrightarrow> b = CHR 0x24 \<or> b = CHR 0x25 \<Longrightarrow> bs = [] \<or> \<not> is_interp_start (hd bs)"
  by (cases bs) auto

lemma char_at_prefix: "char_at (b # bs) 0 @ drop (length (char_at (b # bs) 0)) (b # bs) = b # bs"
proof -
  obtain k where "char_at (b # bs) 0 = b # take k bs" by (simp add: char_at_def Let_def split: if_splits)
  then show ?thesis by (simp add: min_def)
qed

text \<open>A text without a reference goes into the buffer of the loop, at the end of the string or before a reference.\<close>

lemma interpolation_plain: "no_reference s \<Longrightarrow> interpolation_loop sp s buf = ([], buf @ s)"
proof (induction sp s buf rule: interpolation_loop.induct)
  case (2 sp b bs buf)
  let ?c = "char_at (b # bs) 0"
  have c: "?c @ drop (length ?c) (b # bs) = b # bs" by (rule char_at_prefix)
  have "interpolation_loop sp (b # bs) buf = interpolation_loop sp (drop (length ?c) (b # bs)) (buf @ ?c)"
    using no_reference_head [OF "2.prems"] by auto
  also have "\<dots> = ([], (buf @ ?c) @ drop (length ?c) (b # bs))"
    by (rule "2.IH"(3)) (use no_reference_head [OF "2.prems"] no_reference_drop [OF "2.prems"] in auto)
  finally show ?case using c by simp
qed simp

lemma interpolation_char:
  assumes "hd (str_chars (ch @ w)) = ch" "ch \<noteq> []" "(hd ch = CHR 0x24 \<or> hd ch = CHR 0x25) \<longrightarrow> tl ch @ w = [] \<or> \<not> is_interp_start (hd (tl ch @ w))"
  shows "interpolation_loop sp (ch @ w) buf = interpolation_loop sp w (buf @ ch)"
proof -
  obtain b bs where ch: "ch = b # bs" using assms(2) by (cases ch) auto
  then have "char_at (b # bs @ w) 0 = ch" using assms(1) by (simp add: char_at_def Let_def)
  then show ?thesis using assms(3) ch by (auto simp del: append_is_Nil_conv)
qed

definition starts_reference :: "string \<Rightarrow> bool" where
  "starts_reference r \<longleftrightarrow> r \<noteq> [] \<and> (hd r = CHR 0x24 \<or> hd r = CHR 0x25)"

lemma no_reference_before: "no_reference (b # s) \<Longrightarrow> r = [] \<or> starts_reference r \<Longrightarrow> b = CHR 0x24 \<or> b = CHR 0x25 \<Longrightarrow> s @ r = [] \<or> \<not> is_interp_start (hd (s @ r))"
  by (cases s) (auto simp: starts_reference_def is_interp_start_def is_ascii_alphabetic_def)

lemma interpolation_text:
  "valid_utf8 s \<Longrightarrow> no_reference s \<Longrightarrow> r = [] \<or> starts_reference r \<Longrightarrow>
    interpolation_loop sp (s @ r) buf = interpolation_loop sp r (buf @ s)"
proof (induction "length s" arbitrary: s buf rule: less_induct)
  case less
  show ?case
  proof (cases "s = []")
    case False
    from less.prems(1) False show ?thesis
    proof (cases rule: valid_utf8_cases)
      case (ascii b s')
      then have "hd (str_chars ([b] @ s' @ r)) = [b]" by (simp add: byte_in_def Let_def)
      then have "interpolation_loop sp ([b] @ s' @ r) buf = interpolation_loop sp (s' @ r) (buf @ [b])"
        by (rule interpolation_char) (use no_reference_before [of b s' r] less.prems ascii in auto)
      then show ?thesis using less.hyps [of s' "buf @ [b]"] less.prems ascii no_reference_tl by auto
    next
      case (multi ch s')
      have "interpolation_loop sp (ch @ s' @ r) buf = interpolation_loop sp (s' @ r) (buf @ ch)"
        by (rule interpolation_char) (use multi in \<open>auto simp: byte_in_def list_all_iff neq_Nil_conv\<close>)
      moreover have "no_reference s'" using no_reference_drop [OF less.prems(2), of "length ch"] multi(1) by simp
      ultimately show ?thesis using less.hyps [of s' "buf @ ch"] less.prems multi by auto
    qed
  qed simp
qed

lemma interpolation_reference:
  assumes "is_reference e" "r = [] \<or> \<not> is_interp_continue (hd r)"
  shows "\<exists>e'. erase_expr e' = erase_expr e \<and>
    interpolation_loop sp (part_text (PartExpr e) @ r) buf =
      (flush_literal buf @ PartExpr e' # fst (interpolation_loop sp r []), snd (interpolation_loop sp r []))"
proof -
  have "takeWhile is_interp_continue (n @ r) = n" "dropWhile is_interp_continue (n @ r) = r" "n @ r \<noteq> []" "is_interp_start (hd (n @ r))"
      "hd (n @ r) \<noteq> CHR 0x25"
    if "reference_name n" for n
    using that takeWhile_word [of is_interp_continue n r] dropWhile_word [of is_interp_continue n r] assms(2)
    by (auto simp: reference_name_def is_interp_start_def is_ascii_alphabetic_def)
  then show ?thesis
    using assms(1) by (cases e rule: is_reference.cases) (auto simp: case_prod_beta Let_def)
qed

lemma parts_start:
  assumes "parts_ok ps"
  shows "ps = [] \<Longrightarrow> concat (map part_text ps) = []" "ps = PartExpr e # qs \<Longrightarrow> starts_reference (concat (map part_text ps))"
    "ps = PartLiteral t # qs \<Longrightarrow> concat (map part_text ps) \<noteq> [] \<and> hd (concat (map part_text ps)) = hd t"
  using assms by (auto simp: starts_reference_def elim!: is_reference.elims)

lemma starts_reference_ends: "starts_reference r \<Longrightarrow> \<not> is_interp_continue (hd r)"
  by (auto simp: starts_reference_def is_interp_continue_def is_ascii_alphabetic_def is_ascii_digit_def)

lemma interpolation_reads_parts:
  "parts_ok ps \<Longrightarrow> buf = [] \<or> (\<forall>t qs. ps \<noteq> PartLiteral t # qs) \<Longrightarrow>
    map erase_part (case interpolation_loop sp (concat (map part_text ps)) buf of (qs, rest) \<Rightarrow> qs @ flush_literal rest) =
      map erase_part (flush_literal buf @ ps)"
proof (induction ps arbitrary: buf)
  case (Cons p ps)
  let ?r = "concat (map part_text ps)"
  note start = parts_start [of ps]
  show ?case
  proof (cases p)
    case (PartLiteral t)
    then have t: "t \<noteq> []" "valid_utf8 t" "no_reference t" "parts_ok ps" "\<forall>t qs. ps \<noteq> PartLiteral t # qs" "buf = []"
      using Cons.prems by (auto split: list.splits)
    then have "?r = [] \<or> starts_reference ?r" using start by (cases ps rule: parts_ok.cases) auto
    then have "interpolation_loop sp (t @ ?r) [] = interpolation_loop sp ?r t" using interpolation_text [OF t(2,3), of ?r sp "[]"] by simp
    then show ?thesis using Cons.IH [of t] t PartLiteral by (simp add: flush_literal_def)
  next
    case (PartExpr e)
    then have e: "is_reference e" "parts_ok ps" using Cons.prems by auto
    have "?r = [] \<or> \<not> is_interp_continue (hd ?r)"
      using start starts_reference_ends Cons.prems PartExpr by (cases ps rule: parts_ok.cases) auto
    from interpolation_reference [OF e(1) this, of sp buf] obtain e' where
      e': "erase_expr e' = erase_expr e" "interpolation_loop sp (part_text (PartExpr e) @ ?r) buf =
        (flush_literal buf @ PartExpr e' # fst (interpolation_loop sp ?r []), snd (interpolation_loop sp ?r []))" by blast
    then show ?thesis using Cons.IH [of "[]"] e PartExpr by (simp add: case_prod_beta flush_literal_def)
  qed
qed simp

lemma list_ex_erase_part: "list_ex is_part_expr (map erase_part ps) \<longleftrightarrow> list_ex is_part_expr ps"
proof -
  have "is_part_expr (erase_part p) = is_part_expr p" for p by (cases p) (auto simp: is_part_expr_def)
  then show ?thesis by (induction ps) auto
qed

lemma interpolated_reads_back:
  assumes "parts_ok ps" "list_ex is_part_expr ps"
  shows "erase_expr (parse_string_interpolation (concat (map part_text ps)) sp) = Interpolated (map erase_part ps) no_span"
proof -
  obtain qs rest where l: "interpolation_loop sp (concat (map part_text ps)) [] = (qs, rest)" by fastforce
  then have e: "map erase_part (qs @ flush_literal rest) = map erase_part ps"
    using interpolation_reads_parts [OF assms(1), of "[]" sp] by (simp add: flush_literal_def)
  have "qs \<noteq> []"
  proof
    assume "qs = []"
    then have "list_ex is_part_expr (map erase_part (flush_literal rest))" using e assms(2) list_ex_erase_part [of ps] by simp
    then show False by (auto simp: flush_literal_def is_part_expr_def split: if_splits)
  qed
  then show ?thesis using l e by (simp add: parse_string_interpolation_def)
qed

lemma plain_reads_back:
  "no_reference v \<Longrightarrow> erase_expr (parse_string_interpolation v sp) = StringLiteral v no_span"
  by (simp add: parse_string_interpolation_def interpolation_plain)

subsection \<open>Expressions\<close>

text \<open>The next token neither continues an expression of the binding power \<open>bp\<close> nor makes an identifier a call.\<close>

definition stops :: "nat \<Rightarrow> token list \<Rightarrow> bool" where
  "stops bp rest \<longleftrightarrow> rest \<noteq> [] \<and> tk_kind (hd rest) \<noteq> TLeftParen \<and>
     (case infix_op (tk_kind (hd rest)) of None \<Rightarrow> True | Some op' \<Rightarrow> left_bp op' < bp)"

lemma stops_ne: "stops bp rest \<Longrightarrow> rest \<noteq> []"
  by (simp add: stops_def)

lemma stops_mono: "stops bp rest \<Longrightarrow> bp \<le> bp' \<Longrightarrow> stops bp' rest"
  by (auto simp: stops_def split: option.splits)

lemma stops_prefix: "stops bp rest \<Longrightarrow> stops PREFIX_BP rest"
  using left_bp_bound by (auto simp: stops_def split: option.splits)

definition top_bp :: "expression \<Rightarrow> nat" where
  "top_bp e = (case e of BinaryOp l op' r sp \<Rightarrow> left_bp op' + 1 | _ \<Rightarrow> PREFIX_BP)"

text \<open>A parser reads the kinds \<open>ks\<close> and returns what satisfies \<open>Q\<close>, leaving what follows.\<close>

definition reads :: "'a parser \<Rightarrow> token_kind list \<Rightarrow> token list \<Rightarrow> ('a \<Rightarrow> bool) \<Rightarrow> bool" where
  "reads p ks rest Q \<longleftrightarrow> (\<forall>us. map tk_kind us = ks \<longrightarrow> (\<exists>a. p (us @ rest) = Parsed a rest \<and> Q a))"

lemma readsI: "(\<And>us. map tk_kind us = ks \<Longrightarrow> \<exists>a. p (us @ rest) = Parsed a rest \<and> Q a) \<Longrightarrow> reads p ks rest Q"
  by (simp add: reads_def)

lemma readsE:
  assumes "reads p ks rest Q" "map tk_kind us = ks"
  obtains a where "p (us @ rest) = Parsed a rest" "Q a"
  using assms by (auto simp: reads_def)

lemma bnd_parsed: "p ts = Parsed a ts' \<Longrightarrow> bnd p f ts = f a ts'"
  by (simp add: bnd_def)

lemma reads_bnd:
  assumes "reads p ks (us' @ rest) P" "map tk_kind us' = ks'" "map tk_kind us = ks"
    and "\<And>a. P a \<Longrightarrow> \<exists>b. f a (us' @ rest) = Parsed b rest \<and> Q b"
  shows "\<exists>b. bnd p f (us @ us' @ rest) = Parsed b rest \<and> Q b"
  using readsE [OF assms(1,3)] assms(4) by (metis bnd_parsed)

lemma advance_Cons: "ts \<noteq> [] \<Longrightarrow> advance (t # ts) = Parsed t ts"
  by (simp add: advance_def)

lemma bnd_advance: "ts \<noteq> [] \<Longrightarrow> bnd advance f (t # ts) = f t ts"
  by (simp add: bnd_parsed advance_Cons)

lemma bnd_expect: "tk_kind t = k \<Longrightarrow> k \<noteq> TEof \<Longrightarrow> ts \<noteq> [] \<Longrightarrow> bnd (expect src k d) f (t # ts) = f t ts"
  by (simp add: bnd_parsed expect_def bnd_at_end bnd_check advance_Cons)

lemma map_kind_Cons: "map tk_kind us = k # ks \<longleftrightarrow> (\<exists>t us'. us = t # us' \<and> tk_kind t = k \<and> map tk_kind us' = ks)"
  by (cases us) auto

lemma map_kind_append: "map tk_kind us = ks @ ks' \<longleftrightarrow> (\<exists>vs ws. us = vs @ ws \<and> map tk_kind vs = ks \<and> map tk_kind ws = ks')"
  by (auto simp: map_eq_append_conv)

text \<open>\<open>expr\<close> reads back every tree of fewer than \<open>m\<close> tokens.\<close>

definition reads_below :: "nat \<Rightarrow> (nat \<Rightarrow> expression parser) \<Rightarrow> bool" where
  "reads_below m expr \<longleftrightarrow>
     (\<forall>bp e rest. expr_ok bp e \<longrightarrow> stops bp rest \<longrightarrow> length (expr_tokens e) < m \<longrightarrow>
        reads (expr bp) (expr_tokens e) rest (\<lambda>e'. erase_expr e' = erase_expr e))"

lemma reads_belowE:
  assumes "reads_below m expr" "expr_ok bp e" "stops bp rest" "length (expr_tokens e) < m" "map tk_kind us = expr_tokens e"
  obtains e' where "expr bp (us @ rest) = Parsed e' rest" "erase_expr e' = erase_expr e"
  using assms unfolding reads_below_def reads_def by blast

lemma stops_close [simp]: "tk_kind t = TRightParen \<Longrightarrow> stops bp (t # ts)" "tk_kind t = TComma \<Longrightarrow> stops bp (t # ts)"
  by (simp_all add: stops_def)

lemma reads_more_arguments:
  assumes "reads_below m expr" "list_all (expr_ok 0) es" "rest \<noteq> []" "tk_kind (hd rest) = TRightParen"
    and "map tk_kind us = concat (map (\<lambda>e. TComma # expr_tokens e) es)" "length us \<le> m" "length us < n"
  shows "\<exists>es'. more_arguments expr n acc (us @ rest) = Parsed (acc @ es') rest \<and> map erase_expr es' = map erase_expr es"
  using assms(2,5-7)
proof (induction es arbitrary: us n acc)
  case Nil
  then show ?case using assms(3,4) by (cases n; cases rest) (auto simp: bnd_check ret_def)
next
  case (Cons e es)
  obtain t vs ws where us: "us = t # vs @ ws" "tk_kind t = TComma" "map tk_kind vs = expr_tokens e"
      "map tk_kind ws = concat (map (\<lambda>e. TComma # expr_tokens e) es)"
    using Cons.prems(2) by (auto simp: map_kind_Cons map_kind_append)
  obtain k where n: "n = Suc k" using Cons.prems(4) by (cases n) auto
  have len: "length vs = length (expr_tokens e)" using us(3) by (metis length_map)
  have st: "stops 0 (ws @ rest)" using assms(3,4) us(4) by (cases es; cases rest) (auto simp: map_kind_Cons)
  obtain e' where e': "expr 0 (vs @ ws @ rest) = Parsed e' (ws @ rest)" "erase_expr e' = erase_expr e"
    by (rule reads_belowE [OF assms(1) _ st _ us(3)]) (use Cons.prems us len in auto)
  obtain es' where "more_arguments expr k (acc @ [e']) (ws @ rest) = Parsed ((acc @ [e']) @ es') rest"
      "map erase_expr es' = map erase_expr es"
    using Cons.IH [OF _ us(4), of k "acc @ [e']"] Cons.prems us n by auto
  then show ?case using us e' assms(3)
    by (intro exI [of _ "e' # es'"]) (simp add: n bnd_check bnd_advance bnd_parsed [where p = "expr 0", OF e'(1)])
qed

lemma commas_Cons: "commas (ks # kss) = ks @ concat (map (\<lambda>ks. TComma # ks) kss)"
  by (induction kss arbitrary: ks) auto

lemma reads_call:
  assumes "reads_below m expr" "list_all (expr_ok 0) es" "rest \<noteq> []" "length (commas (map expr_tokens es)) < m"
    and "length (commas (map expr_tokens es)) < n" "map tk_kind us = commas (map expr_tokens es)"
    and "tk_kind lp = TLeftParen" "tk_kind rp = TRightParen"
  shows "\<exists>e'. parse_function_call src expr n name sp (lp # us @ rp # rest) = Parsed e' rest \<and>
    erase_expr e' = FunctionCall name (map erase_expr es) no_span"
proof (cases es)
  case Nil
  then show ?thesis using assms
    by (simp add: parse_function_call_def bnd_advance bnd_check bnd_expect ret_def)
next
  case (Cons e es')
  then obtain vs ws where us: "us = vs @ ws" "map tk_kind vs = expr_tokens e"
      "map tk_kind ws = concat (map (\<lambda>e. TComma # expr_tokens e) es')"
    using assms(6) by (auto simp: commas_Cons map_kind_append comp_def)
  have len: "length vs = length (expr_tokens e)" "length us = length (commas (map expr_tokens es))"
    using us(2) assms(6) by (metis length_map)+
  have st: "stops 0 (ws @ rp # rest)" using us(3) assms(8) by (cases es') (auto simp: map_kind_Cons)
  obtain e' where e': "expr 0 (vs @ ws @ rp # rest) = Parsed e' (ws @ rp # rest)" "erase_expr e' = erase_expr e"
    by (rule reads_belowE [OF assms(1) _ st _ us(2)]) (use assms Cons len us in auto)
  obtain es'' where es'': "more_arguments expr n [e'] (ws @ rp # rest) = Parsed ([e'] @ es'') (rp # rest)"
      "map erase_expr es'' = map erase_expr es'"
    using reads_more_arguments [OF assms(1) _ _ _ us(3), of "rp # rest" n "[e']"] assms len Cons us by auto
  have "vs \<noteq> []" using us(2) by (metis expr_tokens_ne list.map_disc_iff)
  then have ne: "tk_kind (hd (vs @ ws @ rp # rest)) \<noteq> TRightParen"
    using us(2) hd_expr_tokens(1) [of e] by (metis hd_append2 list.map_sel(1))
  show ?thesis unfolding us(1) parse_function_call_def
    using assms(3,7,8) ne e' es'' Cons
    by (simp add: bnd_advance bnd_check bnd_parsed [where p = "bnd (expr 0) (\<lambda>arg. more_arguments expr n [arg])"]
        bnd_parsed [where p = "expr 0", OF e'(1)] bnd_def [of "bnd (expr 0) _"] bnd_expect ret_def)
qed

text \<open>Reading one operand: everything but a binary operation.\<close>

definition is_binary :: "expression \<Rightarrow> bool" where
  "is_binary e = (case e of BinaryOp l op' r sp \<Rightarrow> True | _ \<Rightarrow> False)"

definition is_primary :: "expression \<Rightarrow> bool" where
  "is_primary e = (case e of BinaryOp l op' r sp \<Rightarrow> False | UnaryOp op' e sp \<Rightarrow> False | _ \<Rightarrow> True)"

lemma reads_primary:
  assumes "reads_below m expr" "is_primary e" "expr_ok bp e" "length (expr_tokens e) \<le> m" "length (expr_tokens e) \<le> n"
    and "map tk_kind us = expr_tokens e" "rest \<noteq> []" "tk_kind (hd rest) \<noteq> TLeftParen"
  shows "\<exists>e'. primary_expression src expr n (us @ rest) = Parsed e' rest \<and> erase_expr e' = erase_expr e"
proof (cases e)
  case (FunctionCall name es sp)
  then obtain t lp vs rp where us: "us = t # lp # vs @ [rp]" "tk_kind t = TBuiltin name" "tk_kind lp = TLeftParen"
      "map tk_kind vs = commas (map expr_tokens es)" "tk_kind rp = TRightParen"
    using assms(6) by (auto simp: map_kind_Cons map_kind_append)
  show ?thesis
    using reads_call [OF assms(1) _ assms(7) _ _ us(4,3,5), of n src name "tk_span t"] assms(3-5) us FunctionCall
    by (simp add: primary_expression_def bnd_peek bnd_advance bnd_check)
next
  case (Grouped e1 sp)
  then obtain lp vs rp where us: "us = lp # vs @ [rp]" "tk_kind lp = TLeftParen"
      "map tk_kind vs = expr_tokens e1" "tk_kind rp = TRightParen"
    using assms(6) by (auto simp: map_kind_Cons map_kind_append)
  obtain e' where e': "expr 0 (vs @ rp # rest) = Parsed e' (rp # rest)" "erase_expr e' = erase_expr e1"
    by (rule reads_belowE [OF assms(1) _ _ _ us(3)]) (use assms(3,4) Grouped us in auto)
  then show ?thesis using us Grouped assms(7)
    by (simp add: primary_expression_def bnd_peek bnd_advance bnd_parsed [where p = "expr 0", OF e'(1)] bnd_expect ret_def)
next
  case (Interpolated ps sp)
  then obtain t where t: "us = [t]" "tk_kind t = TString (concat (map part_text ps))"
    using assms(6) by (auto simp: map_kind_Cons)
  have "erase_expr (parse_string_interpolation (concat (map part_text ps)) (tk_span t)) = erase_expr e"
    using interpolated_reads_back [of ps "tk_span t"] assms(3) Interpolated by simp
  then show ?thesis using t assms(7) by (simp add: primary_expression_def bnd_peek bnd_advance ret_def)
qed (use assms in \<open>auto simp: is_primary_def map_kind_Cons primary_expression_def bnd_peek bnd_advance bnd_check ret_def
      plain_reads_back split: if_splits\<close>)

lemma reads_operand:
  assumes "reads_below n (parse_expression_bp src n)" "\<not> is_binary e" "expr_ok bp e" "length (expr_tokens e) \<le> n"
    and "map tk_kind us = expr_tokens e" "stops PREFIX_BP rest"
  shows "\<exists>e'. parse_prefix_expr src (parse_expression_bp src n) n (us @ rest) = Parsed e' rest \<and> erase_expr e' = erase_expr e"
proof (cases "is_primary e")
  case True
  have "us \<noteq> []" using assms(5) by (metis expr_tokens_ne list.map_disc_iff)
  moreover have "tk_kind (hd us) \<noteq> TBang" "tk_kind (hd us) \<noteq> TMinus"
    using True assms(5) by (cases e; auto simp: is_primary_def map_kind_Cons split: if_splits)+
  ultimately show ?thesis
    using reads_primary [OF assms(1) True assms(3,4,4,5), of rest src] assms(6)
    by (simp add: parse_prefix_expr_def bnd_peek stops_def)
next
  case False
  then obtain op' e1 sp where e: "e = UnaryOp op' e1 sp"
    using assms(2) by (cases e) (auto simp: is_primary_def is_binary_def)
  then obtain t vs where us: "us = t # vs" "tk_kind t = (case op' of Not \<Rightarrow> TBang | Neg \<Rightarrow> TMinus)" "map tk_kind vs = expr_tokens e1"
    using assms(5) by (auto simp: map_kind_Cons)
  obtain e' where e': "parse_expression_bp src n PREFIX_BP (vs @ rest) = Parsed e' rest" "erase_expr e' = erase_expr e1"
    by (rule reads_belowE [OF assms(1) _ assms(6) _ us(3)]) (use assms(3,4) e in auto)
  then show ?thesis using us e stops_ne [OF assms(6)]
    by (cases op') (simp_all add: parse_prefix_expr_def bnd_peek bnd_advance bnd_parsed [where p = "parse_expression_bp src n PREFIX_BP", OF e'(1)] ret_def)
qed

lemma reads_operand_spine:
  assumes below: "reads_below n (parse_expression_bp src n)" and "\<not> is_binary e"
    and "expr_ok bp e" "length (expr_tokens e) \<le> n" "map tk_kind us = expr_tokens e" "stops (top_bp e) rest"
  shows "\<exists>e' k. bnd (parse_prefix_expr src (parse_expression_bp src n) n) (infix_loop (parse_expression_bp src n) m bp) (us @ rest) =
           infix_loop (parse_expression_bp src n) k bp e' rest \<and> erase_expr e' = erase_expr e \<and> m < k + length us"
proof -
  have "stops PREFIX_BP rest" using stops_prefix [OF assms(6)] .
  then obtain e' where e': "parse_prefix_expr src (parse_expression_bp src n) n (us @ rest) = Parsed e' rest" "erase_expr e' = erase_expr e"
    using reads_operand [OF below assms(2-5)] by blast
  have "us \<noteq> []" using assms(5) by (metis expr_tokens_ne list.map_disc_iff)
  then show ?thesis using e'(2) by (intro exI [of _ e'] exI [of _ m]) (simp add: bnd_def e'(1))
qed

text \<open>Induction along the left operands.\<close>

lemma expr_cases_induct [case_names BinaryOp other]:
  assumes "\<And>l op' r sp. P l \<Longrightarrow> P (BinaryOp l op' r sp)" "\<And>e. \<not> is_binary e \<Longrightarrow> P e"
  shows "P e"
proof (induction "size e" arbitrary: e rule: less_induct)
  case less
  then show ?case using assms by (cases e) (auto simp: is_binary_def)
qed

text \<open>
  Reading a tree and staying in the loop over infix operators: after the tokens of \<open>e\<close> the loop goes on
  with \<open>e\<close> as its left operand.
\<close>

lemma reads_left_spine:
  assumes below: "reads_below n (parse_expression_bp src n)"
  shows "\<lbrakk>expr_ok bp e; length (expr_tokens e) \<le> n; length (expr_tokens e) \<le> m; map tk_kind us = expr_tokens e; stops (top_bp e) rest\<rbrakk> \<Longrightarrow>
    \<exists>e' k. bnd (parse_prefix_expr src (parse_expression_bp src n) n) (infix_loop (parse_expression_bp src n) m bp) (us @ rest) =
           infix_loop (parse_expression_bp src n) k bp e' rest \<and> erase_expr e' = erase_expr e \<and> m < k + length us"
proof (induction e arbitrary: us rest rule: expr_cases_induct)
  case (BinaryOp l op' r sp)
  obtain ul t ur where us: "us = ul @ t # ur" "map tk_kind ul = expr_tokens l" "tk_kind t = op_token op'" "map tk_kind ur = expr_tokens r"
    using BinaryOp.prems(4) by (auto simp: map_kind_Cons map_kind_append)
  have len: "length ul = length (expr_tokens l)" "length ur = length (expr_tokens r)" using us by (metis length_map)+
  have st: "stops (top_bp l) (t # ur @ rest)"
    using BinaryOp.prems(1) us(3) left_bp_bound [of op'] by (cases l) (auto simp: stops_def top_bp_def PREFIX_BP_def)
  have "expr_ok bp l" using BinaryOp.prems(1) expr_ok_mono by fastforce
  then obtain l' k where l': "bnd (parse_prefix_expr src (parse_expression_bp src n) n) (infix_loop (parse_expression_bp src n) m bp) (ul @ t # ur @ rest) =
           infix_loop (parse_expression_bp src n) k bp l' (t # ur @ rest)" "erase_expr l' = erase_expr l" "m < k + length ul"
    using BinaryOp.IH [OF _ _ _ us(2) st] BinaryOp.prems(2,3) by auto
  obtain k' where k: "k = Suc k'" using l'(3) BinaryOp.prems(3) len by (cases k) auto
  obtain r' where r': "parse_expression_bp src n (Suc (left_bp op')) (ur @ rest) = Parsed r' rest" "erase_expr r' = erase_expr r"
    by (rule reads_belowE [OF below _ _ _ us(4)]) (use BinaryOp.prems len in \<open>auto simp: top_bp_def\<close>)
  have "ur \<noteq> []" using us(4) by (metis expr_tokens_ne list.map_disc_iff)
  then have "infix_loop (parse_expression_bp src n) k bp l' (t # ur @ rest) =
     infix_loop (parse_expression_bp src n) k' bp (BinaryOp l' op' r' (span_merge (expr_span l') (expr_span r'))) rest"
    using us(3) BinaryOp.prems(1)
    by (simp add: k bnd_peek infix_binding_power_def bnd_advance bnd_parsed [where p = "parse_expression_bp src n (Suc (left_bp op'))", OF r'(1)])
  then show ?case using l' r' us len k by (intro exI conjI) (simp, auto)
qed (rule reads_operand_spine [OF below])

lemma infix_loop_stops: "stops bp rest \<Longrightarrow> infix_loop expr (Suc k) bp e rest = Parsed e rest"
  by (auto simp: stops_def bnd_peek infix_binding_power_def ret_def split: option.splits)

lemma stops_top: "expr_ok bp e \<Longrightarrow> stops bp rest \<Longrightarrow> stops (top_bp e) rest"
  by (cases e) (auto simp: top_bp_def intro: stops_prefix stops_mono)

lemma expression_reads_back: "reads_below n (parse_expression_bp src n)"
proof (induction n)
  case 0
  then show ?case by (simp add: reads_below_def)
next
  case (Suc n)
  have "\<exists>e'. parse_expression_bp src (Suc n) bp (us @ rest) = Parsed e' rest \<and> erase_expr e' = erase_expr e"
    if ok: "expr_ok bp e" "stops bp rest" "length (expr_tokens e) < Suc n" "map tk_kind us = expr_tokens e" for bp e rest us
  proof -
    have len: "length us = length (expr_tokens e)" using ok(4) by (metis length_map)
    obtain e' k where *: "bnd (parse_prefix_expr src (parse_expression_bp src n) n) (infix_loop (parse_expression_bp src n) n bp) (us @ rest) =
           infix_loop (parse_expression_bp src n) k bp e' rest" "erase_expr e' = erase_expr e" "n < k + length us"
      using reads_left_spine [OF Suc ok(1) _ _ ok(4) stops_top [OF ok(1,2)], of n] ok(3) by auto
    then show ?thesis using infix_loop_stops [OF ok(2)] ok(3) len by (cases k) auto
  qed
  then show ?case by (simp add: reads_below_def reads_def)
qed

section \<open>Printing and reading statements\<close>

text \<open>
  Arguments stand next to each other: each is a primary expression, and an identifier that would
  become a call with the next one is not followed by a parenthesis.
\<close>

fun args_ok :: "expression list \<Rightarrow> bool" where
  "args_ok [] \<longleftrightarrow> True"
| "args_ok (a # as) \<longleftrightarrow>
     is_primary a \<and> expr_ok 0 a \<and> (as \<noteq> [] \<longrightarrow> hd (expr_tokens (hd as)) \<noteq> TLeftParen) \<and> args_ok as"

definition block_tokens :: "token_kind list list \<Rightarrow> token_kind list" where
  "block_tokens body = TLeftBrace # TNewline # concat (map (\<lambda>ks. ks @ [TNewline]) body) @ [TRightBrace]"

definition variable_token :: "bool \<Rightarrow> string \<Rightarrow> token_kind" where
  "variable_token global name = (if global then TGlobalVariable name else TVariable name)"

fun stmt_tokens :: "statement \<Rightarrow> token_kind list" and branch_tokens :: "elseif_branch \<Rightarrow> token_kind list" where
  "stmt_tokens (Command n as sp) = TIdentifier n # concat (map expr_tokens as)"
| "stmt_tokens (If c b bs e sp) =
     TIf # TLeftParen # expr_tokens c @ TRightParen # block_tokens (map stmt_tokens b) @
     concat (map branch_tokens bs) @
     (case e of None \<Rightarrow> [] | Some b' \<Rightarrow> TElse # block_tokens (map stmt_tokens b'))"
| "stmt_tokens (While c b sp) = TWhile # TLeftParen # expr_tokens c @ TRightParen # block_tokens (map stmt_tokens b)"
| "stmt_tokens (VarDecl n g e sp) = TVar # variable_token g n # TEqual # expr_tokens e"
| "stmt_tokens (Set n g e sp) = TSet # variable_token g n # expr_tokens e"
| "stmt_tokens (Return e sp) = TReturn # (case e of None \<Rightarrow> [] | Some e' \<Rightarrow> expr_tokens e')"
| "stmt_tokens (Break sp) = [TBreak]"
| "stmt_tokens (Continue sp) = [TContinue]"
| "stmt_tokens (ExprStatement e sp) = expr_tokens e"
| "branch_tokens (ElseIfBranch c b sp) =
     TElseIf # TLeftParen # expr_tokens c @ TRightParen # block_tokens (map stmt_tokens b)"

text \<open>An expression statement has no syntax: the parser never makes one.\<close>

fun stmt_ok :: "statement \<Rightarrow> bool" and branch_ok :: "elseif_branch \<Rightarrow> bool" where
  "stmt_ok (Command n as sp) \<longleftrightarrow> args_ok as"
| "stmt_ok (If c b bs e sp) \<longleftrightarrow>
     expr_ok 0 c \<and> list_all stmt_ok b \<and> list_all branch_ok bs \<and>
     (case e of None \<Rightarrow> True | Some b' \<Rightarrow> list_all stmt_ok b')"
| "stmt_ok (While c b sp) \<longleftrightarrow> expr_ok 0 c \<and> list_all stmt_ok b"
| "stmt_ok (VarDecl n g e sp) \<longleftrightarrow> expr_ok 0 e"
| "stmt_ok (Set n g e sp) \<longleftrightarrow> expr_ok 0 e"
| "stmt_ok (Return e sp) \<longleftrightarrow> (case e of None \<Rightarrow> True | Some e' \<Rightarrow> expr_ok 0 e')"
| "stmt_ok (Break sp) \<longleftrightarrow> True"
| "stmt_ok (Continue sp) \<longleftrightarrow> True"
| "stmt_ok (ExprStatement e sp) \<longleftrightarrow> False"
| "branch_ok (ElseIfBranch c b sp) \<longleftrightarrow> expr_ok 0 c \<and> list_all stmt_ok b"

lemma reads_expression:
  assumes "expr_ok 0 e" "stops 0 rest" "length (expr_tokens e) < n" "map tk_kind us = expr_tokens e"
  obtains e' where "parse_expression src n (us @ rest) = Parsed e' rest" "erase_expr e' = erase_expr e"
  using reads_belowE [OF expression_reads_back assms] unfolding parse_expression_def by blast

lemma reads_command_arguments:
  assumes "args_ok as" "rest \<noteq> []" "ends_statement (tk_kind (hd rest))"
    and "map tk_kind us = concat (map expr_tokens as)" "length us < n"
  shows "\<exists>as'. command_arguments src n acc (us @ rest) = Parsed (acc @ as') rest \<and> map erase_expr as' = map erase_expr as"
  using assms(1,4,5)
proof (induction as arbitrary: us n acc)
  case Nil
  then show ?case using assms(2,3) by (cases n) (auto simp: bnd_peek ret_def)
next
  case (Cons a as)
  obtain vs ws where us: "us = vs @ ws" "map tk_kind vs = expr_tokens a" "map tk_kind ws = concat (map expr_tokens as)"
    using Cons.prems(2) by (auto simp: map_kind_append)
  have vs: "vs \<noteq> []" "length vs = length (expr_tokens a)" using us(2) by (metis expr_tokens_ne list.map_disc_iff, metis length_map)
  obtain k where n: "n = Suc k" using Cons.prems(3) by (cases n) auto
  have "\<not> ends_statement (tk_kind (hd vs))" using us(2) vs(1) hd_expr_tokens(2) [of a] by (metis list.map_sel(1))
  moreover have "tk_kind (hd (ws @ rest)) \<noteq> TLeftParen"
  proof (cases as)
    case Nil
    then show ?thesis using us(3) assms(2,3) by (cases rest) auto
  next
    case (Cons b bs)
    then have "ws \<noteq> []" "tk_kind (hd ws) = hd (expr_tokens b)"
      using us(3) by (cases ws; simp; metis expr_tokens_ne hd_append2 list.map_disc_iff list.sel(1) list.simps(9))+
    then show ?thesis using Cons.prems(1) \<open>as = b # bs\<close> by simp
  qed
  ultimately obtain a' where a': "parse_primary_expression src k (vs @ ws @ rest) = Parsed a' (ws @ rest)" "erase_expr a' = erase_expr a"
    using reads_primary [OF expression_reads_back _ _ _ _ us(2), of 0 k k "ws @ rest" src src] Cons.prems(1,3) vs us(1) n assms(2)
    by (auto simp: parse_primary_expression_def)
  have "length ws < k" using Cons.prems(3) vs(1) us(1) n by (cases vs) auto
  then obtain as' where "command_arguments src k (acc @ [a']) (ws @ rest) = Parsed ((acc @ [a']) @ as') rest" "map erase_expr as' = map erase_expr as"
    using Cons.IH [OF _ us(3), of k "acc @ [a']"] Cons.prems(1) by auto
  then show ?case using a' us(1) vs(1) \<open>\<not> ends_statement _\<close>
    by (intro exI [of _ "a' # as'"]) (simp add: n bnd_peek bnd_parsed [where p = "parse_primary_expression src k", OF a'(1)])
qed

text \<open>What may follow a statement: a newline, and then not another branch of an \<^verbatim>\<open>if\<close>.\<close>

definition after_stmt :: "token list \<Rightarrow> bool" where
  "after_stmt rest \<longleftrightarrow> rest \<noteq> [] \<and> tk_kind (hd rest) = TNewline \<and>
     (\<exists>t ts. skip_trivia rest = Parsed () (t # ts) \<and> tk_kind t \<noteq> TElseIf \<and> tk_kind t \<noteq> TElse)"

lemma after_stmt_stops: "after_stmt rest \<Longrightarrow> stops bp rest \<and> rest \<noteq> [] \<and> ends_statement (tk_kind (hd rest))"
  by (auto simp: after_stmt_def stops_def)

definition reads_stmt :: "statement parser \<Rightarrow> statement \<Rightarrow> token list \<Rightarrow> token list \<Rightarrow> bool" where
  "reads_stmt p s us rest \<longleftrightarrow>
     (\<exists>s' rest'. p (us @ rest) = Parsed s' rest' \<and> erase_stmt s' = erase_stmt s \<and> skip_trivia rest' = skip_trivia rest)"

definition stmts_below :: "nat \<Rightarrow> statement parser \<Rightarrow> bool" where
  "stmts_below m p \<longleftrightarrow>
     (\<forall>s us rest. stmt_ok s \<longrightarrow> map tk_kind us = stmt_tokens s \<longrightarrow> length us < m \<longrightarrow> after_stmt rest \<longrightarrow> reads_stmt p s us rest)"

lemma skip_trivia_idem: "skip_trivia ts = Parsed () us \<Longrightarrow> skip_trivia us = Parsed () us"
  by (induction ts) (auto split: if_splits)

lemma skip_trivia_start: "us \<noteq> [] \<Longrightarrow> \<not> is_trivia (tk_kind (hd us)) \<Longrightarrow> skip_trivia (us @ rest) = Parsed () (us @ rest)"
  by (cases us) auto

definition starts_stmt :: "token_kind \<Rightarrow> bool" where
  "starts_stmt k \<longleftrightarrow> k = TIf \<or> k = TWhile \<or> k = TVar \<or> k = TSet \<or> k = TReturn \<or> k = TBreak \<or> k = TContinue \<or> is_identifier k"

lemma starts_stmt_simps:
  "starts_stmt k \<Longrightarrow> \<not> is_trivia k \<and> k \<noteq> TElse \<and> k \<noteq> TElseIf \<and> k \<noteq> TRightBrace \<and> k \<noteq> TEof \<and> k \<noteq> TSlash"
  by (cases k) (auto simp: starts_stmt_def is_identifier_def)

lemma hd_stmt_tokens: "stmt_ok s \<Longrightarrow> stmt_tokens s \<noteq> [] \<and> starts_stmt (hd (stmt_tokens s))"
  by (cases s) (auto simp: starts_stmt_def is_identifier_def)

lemma hd_spelled: "map tk_kind us = ks \<Longrightarrow> ks \<noteq> [] \<Longrightarrow> us \<noteq> [] \<and> tk_kind (hd us) = hd ks"
  by (cases us) auto

text \<open>The statements of a block, each on a line of its own.\<close>

lemma reads_block_loop:
  assumes stmt: "stmts_below m p"
    and "list_all stmt_ok b" "tk_kind rb = TRightBrace"
    and "map tk_kind us = concat (map (\<lambda>s. stmt_tokens s @ [TNewline]) b)" "length us < n" "length us \<le> m"
  shows "\<exists>b'. block_loop p n acc (us @ rb # rest) = Parsed (acc @ b') (rb # rest) \<and> map erase_stmt b' = map erase_stmt b"
  using assms(2,4-6)
proof (induction b arbitrary: us n acc)
  case Nil
  then show ?case using assms(3) by (cases n) (auto simp: bnd_check bnd_at_end ret_def)
next
  case (Cons s b)
  obtain vs nl ws where us: "us = vs @ nl # ws" "map tk_kind vs = stmt_tokens s" "tk_kind nl = TNewline"
      "map tk_kind ws = concat (map (\<lambda>s. stmt_tokens s @ [TNewline]) b)"
    using Cons.prems(2) by (auto simp: map_kind_append map_kind_Cons)
  obtain k where n: "n = Suc k" using Cons.prems(3) by (cases n) auto
  have hd: "vs \<noteq> []" "starts_stmt (tk_kind (hd vs))"
    using hd_spelled [OF us(2)] hd_stmt_tokens [of s] Cons.prems(1) by auto
  have next_start: "skip_trivia (ws @ rb # rest) = Parsed () (ws @ rb # rest) \<and> tk_kind (hd (ws @ rb # rest)) \<noteq> TElse \<and>
      tk_kind (hd (ws @ rb # rest)) \<noteq> TElseIf"
  proof (cases b)
    case Nil
    then show ?thesis using us(4) assms(3) by auto
  next
    case (Cons s2 b2)
    then have "ws \<noteq> [] \<and> starts_stmt (tk_kind (hd ws))"
      using hd_spelled [OF us(4)] hd_stmt_tokens [of s2] Cons.prems(1) by auto
    then show ?thesis using skip_trivia_start [of ws] starts_stmt_simps by (cases ws) auto
  qed
  then have "after_stmt (nl # ws @ rb # rest)" using us(3) by (cases "ws @ rb # rest") (auto simp: after_stmt_def)
  then have "reads_stmt p s vs (nl # ws @ rb # rest)" using stmt us(2) Cons.prems(1,4) us(1) by (simp add: stmts_below_def)
  then obtain s' rest' where s': "p (vs @ nl # ws @ rb # rest) = Parsed s' rest'" "erase_stmt s' = erase_stmt s"
      "skip_trivia rest' = skip_trivia (nl # ws @ rb # rest)"
    unfolding reads_stmt_def by blast
  obtain b' where b': "block_loop p k (acc @ [s']) (ws @ rb # rest) = Parsed ((acc @ [s']) @ b') (rb # rest)" "map erase_stmt b' = map erase_stmt b"
    using Cons.IH [OF _ us(4), of k "acc @ [s']"] Cons.prems(1,3,4) us(1) n hd(1) by auto
  have "skip_trivia rest' = Parsed () (ws @ rb # rest)" using s'(3) next_start us(3) by simp
  then have "bnd p (\<lambda>s. bnd skip_trivia (\<lambda>_. block_loop p k (acc @ [s]))) (vs @ nl # ws @ rb # rest) = Parsed ((acc @ [s']) @ b') (rb # rest)"
    using s'(1) b'(1) by (simp add: bnd_def)
  moreover have "tk_kind (hd (vs @ nl # ws @ rb # rest)) \<noteq> TRightBrace" "tk_kind (hd (vs @ nl # ws @ rb # rest)) \<noteq> TEof"
    using hd starts_stmt_simps by auto
  ultimately show ?case using us(1) s'(2) b'(2)
    by (intro exI [of _ "s' # b'"]) (simp add: n bnd_check bnd_at_end)
qed

lemma reads_block:
  assumes stmt: "stmts_below m p"
    and "list_all stmt_ok b" "rest \<noteq> []"
    and "map tk_kind us = block_tokens (map stmt_tokens b)" "length us \<le> n" "length us \<le> m"
  obtains b' where "parse_block src p n (us @ rest) = Parsed b' rest" "map erase_stmt b' = map erase_stmt b"
proof -
  obtain lb nl vs rb where us: "us = lb # nl # vs @ [rb]" "tk_kind lb = TLeftBrace" "tk_kind nl = TNewline" "tk_kind rb = TRightBrace"
      "map tk_kind vs = concat (map (\<lambda>s. stmt_tokens s @ [TNewline]) b)"
    using assms(4) by (auto simp: block_tokens_def map_kind_Cons map_kind_append comp_def)
  have "skip_trivia (vs @ rb # rest) = Parsed () (vs @ rb # rest)"
  proof (cases b)
    case Nil
    then show ?thesis using us(4,5) by auto
  next
    case (Cons s b2)
    then have "vs \<noteq> [] \<and> starts_stmt (tk_kind (hd vs))"
      using hd_spelled [OF us(5)] hd_stmt_tokens [of s] assms(2) by auto
    then show ?thesis using skip_trivia_start [of vs] starts_stmt_simps by auto
  qed
  then have sk: "skip_trivia (nl # vs @ rb # rest) = Parsed () (vs @ rb # rest)" using us(3) by simp
  obtain b' where b': "block_loop p n [] (vs @ rb # rest) = Parsed b' (rb # rest)" "map erase_stmt b' = map erase_stmt b"
    using reads_block_loop [OF stmt assms(2) us(4,5), where n = n and acc = "[]" and rest = rest] assms(5,6) us(1) by auto
  have "parse_block src p n (us @ rest) = Parsed b' rest"
    using us assms(3) sk b'(1)
    by (simp add: parse_block_def bnd_expect bnd_parsed [where p = skip_trivia, OF sk] bnd_parsed [where p = "block_loop p n []", OF b'(1)] ret_def)
  then show ?thesis using that b'(2) by blast
qed

lemma reads_condition:
  assumes "expr_ok 0 c" "map tk_kind us = TLeftParen # expr_tokens c @ [TRightParen]" "length us \<le> n" "rest \<noteq> []"
  obtains c' where "parse_condition src n (us @ rest) = Parsed c' rest" "erase_expr c' = erase_expr c"
proof -
  obtain lp vs rp where us: "us = lp # vs @ [rp]" "tk_kind lp = TLeftParen" "tk_kind rp = TRightParen" "map tk_kind vs = expr_tokens c"
    using assms(2) by (auto simp: map_kind_Cons map_kind_append)
  have len: "length vs = length (expr_tokens c)" using us(4) by (metis length_map)
  obtain c' where c': "parse_expression src n (vs @ rp # rest) = Parsed c' (rp # rest)" "erase_expr c' = erase_expr c"
    by (rule reads_expression [OF assms(1) _ _ us(4), where rest = "rp # rest" and n = n and src = src]) (use assms(3) us len in auto)
  have "parse_condition src n (us @ rest) = Parsed c' rest"
    using us assms(4) by (simp add: parse_condition_def bnd_expect bnd_parsed [where p = "parse_expression src n", OF c'(1)] ret_def)
  then show ?thesis using that c'(2) by blast
qed

text \<open>The condition and the block of \<^verbatim>\<open>if\<close>, \<^verbatim>\<open>elseif\<close> and \<^verbatim>\<open>while\<close>, in the way the three functions read them.\<close>

lemma reads_guarded_block:
  assumes stmt: "stmts_below m p"
    and "expr_ok 0 c" "list_all stmt_ok b" "rest \<noteq> []" "length us \<le> n" "length us \<le> m"
    and "map tk_kind us = TLeftParen # expr_tokens c @ TRightParen # block_tokens (map stmt_tokens b)"
  obtains c' b' ws where "erase_expr c' = erase_expr c" "map erase_stmt b' = map erase_stmt b"
    "parse_condition src n (us @ rest) = Parsed c' (ws @ rest)" "skip_trivia (ws @ rest) = Parsed () (ws @ rest)"
    "parse_block src p n (ws @ rest) = Parsed b' rest"
proof -
  have "map tk_kind us = (TLeftParen # expr_tokens c @ [TRightParen]) @ block_tokens (map stmt_tokens b)"
    using assms(7) by simp
  then obtain vs ws where us: "us = vs @ ws" "map tk_kind vs = TLeftParen # expr_tokens c @ [TRightParen]" "map tk_kind ws = block_tokens (map stmt_tokens b)"
    unfolding map_kind_append by (elim exE conjE) (rule that)
  have ws: "ws \<noteq> []" "tk_kind (hd ws) = TLeftBrace" using us(3) by (auto simp: block_tokens_def map_kind_Cons)
  obtain c' where c': "parse_condition src n (vs @ ws @ rest) = Parsed c' (ws @ rest)" "erase_expr c' = erase_expr c"
    by (rule reads_condition [OF assms(2) us(2), where n = n and src = src and rest = "ws @ rest"]) (use assms(5) us ws in auto)
  obtain b' where b': "parse_block src p n (ws @ rest) = Parsed b' rest" "map erase_stmt b' = map erase_stmt b"
    by (rule reads_block [OF stmt assms(3,4) us(3), where n = n and src = src]) (use assms(5,6) us in auto)
  have "skip_trivia (ws @ rest) = Parsed () (ws @ rest)" using ws skip_trivia_start [of ws] by simp
  then show ?thesis using that [OF c'(2) b'(2) _ _ b'(1)] c'(1) us(1) by simp
qed

lemma reads_if_branches:
  assumes stmt: "stmts_below m p"
    and "list_all branch_ok bs" "case e of None \<Rightarrow> True | Some b \<Rightarrow> list_all stmt_ok b" "after_stmt rest"
    and "map tk_kind us = concat (map branch_tokens bs) @ (case e of None \<Rightarrow> [] | Some b \<Rightarrow> TElse # block_tokens (map stmt_tokens b))"
    and "length us < n" "length us \<le> m"
  shows "\<exists>bs' e' rest'. if_branches src p n acc (us @ rest) = Parsed (acc @ bs', e') rest' \<and> map erase_branch bs' = map erase_branch bs \<and>
    map_option (map erase_stmt) e' = map_option (map erase_stmt) e \<and> skip_trivia rest' = skip_trivia rest \<and> rest' \<noteq> []"
  using assms(2,5-7)
proof (induction bs arbitrary: us n acc)
  case Nil
  obtain k where n: "n = Suc k" using Nil.prems(3) by (cases n) auto
  show ?case
  proof (cases e)
    case None
    obtain t ts where t: "skip_trivia rest = Parsed () (t # ts)" "tk_kind t \<noteq> TElseIf" "tk_kind t \<noteq> TElse"
      using assms(4) by (auto simp: after_stmt_def)
    then have "if_branches src p n acc (us @ rest) = Parsed (acc, None) (t # ts)"
      using Nil.prems(2) None by (simp add: n bnd_parsed [where p = skip_trivia, OF t(1)] bnd_peek ret_def)
    then show ?thesis using None t(1) skip_trivia_idem [OF t(1)] by auto
  next
    case (Some b)
    obtain t ws where us: "us = t # ws" "tk_kind t = TElse" "map tk_kind ws = block_tokens (map stmt_tokens b)"
      using Nil.prems(2) Some by (auto simp: map_kind_Cons)
    have ws: "ws \<noteq> []" "tk_kind (hd ws) = TLeftBrace" using us(3) by (auto simp: block_tokens_def map_kind_Cons)
    obtain b' where b': "parse_block src p k (ws @ rest) = Parsed b' rest" "map erase_stmt b' = map erase_stmt b"
      by (rule reads_block [OF stmt _ _ us(3), where n = k and src = src and rest = rest]) (use assms(3,4) Some Nil.prems us n in \<open>auto simp: after_stmt_def\<close>)
    have sk: "skip_trivia (t # ws @ rest) = Parsed () (t # ws @ rest)" "skip_trivia (ws @ rest) = Parsed () (ws @ rest)"
      using us(2) ws skip_trivia_start [of ws] by auto
    have "if_branches src p n acc (us @ rest) = Parsed (acc, Some b') rest"
      using us ws b'(1) by (simp add: n bnd_parsed [where p = skip_trivia, OF sk(1)] bnd_parsed [where p = skip_trivia, OF sk(2)]
          bnd_peek bnd_advance bnd_parsed [where p = "parse_block src p k", OF b'(1)] ret_def del: skip_trivia.simps)
    then show ?thesis using Some b'(2) assms(4) by (auto simp: after_stmt_def)
  qed
next
  case (Cons br bs)
  obtain c b sp where br: "br = ElseIfBranch c b sp" by (cases br)
  obtain k where n: "n = Suc k" using Cons.prems(3) by (cases n) auto
  let ?more = "concat (map branch_tokens bs) @ (case e of None \<Rightarrow> [] | Some b \<Rightarrow> TElse # block_tokens (map stmt_tokens b))"
  have "map tk_kind us = TElseIf # (TLeftParen # expr_tokens c @ TRightParen # block_tokens (map stmt_tokens b)) @ ?more"
    using Cons.prems(2) br by simp
  then obtain t vs ws where us: "us = t # vs @ ws" "tk_kind t = TElseIf" "map tk_kind ws = ?more"
      "map tk_kind vs = TLeftParen # expr_tokens c @ TRightParen # block_tokens (map stmt_tokens b)"
    unfolding map_kind_Cons map_kind_append by blast
  have rest: "ws @ rest \<noteq> []" using assms(4) by (auto simp: after_stmt_def)
  obtain c' b' xs where cb: "erase_expr c' = erase_expr c" "map erase_stmt b' = map erase_stmt b"
      "parse_condition src k (vs @ ws @ rest) = Parsed c' (xs @ ws @ rest)" "skip_trivia (xs @ ws @ rest) = Parsed () (xs @ ws @ rest)"
      "parse_block src p k (xs @ ws @ rest) = Parsed b' (ws @ rest)"
    by (rule reads_guarded_block [OF stmt _ _ rest _ _ us(4), where n = k and src = src]) (use Cons.prems br us n in auto)
  define acc' where "acc' = acc @ [ElseIfBranch c' b' (span_merge (tk_span t) (tk_span (hd (ws @ rest))))]"
  obtain bs' e' rest' where *: "if_branches src p k acc' (ws @ rest) = Parsed (acc' @ bs', e') rest'" "map erase_branch bs' = map erase_branch bs"
      "map_option (map erase_stmt) e' = map_option (map erase_stmt) e" "skip_trivia rest' = skip_trivia rest" "rest' \<noteq> []"
    using Cons.IH [OF _ us(3), of k acc'] Cons.prems us n by auto
  have sk: "skip_trivia (t # vs @ ws @ rest) = Parsed () (t # vs @ ws @ rest)" using us(2) by simp
  have "if_branches src p n acc (us @ rest) = Parsed (acc' @ bs', e') rest'"
    using us rest *(1) acc'_def
    by (simp add: n bnd_parsed [where p = skip_trivia, OF sk] bnd_peek bnd_advance bnd_span
        bnd_parsed [where p = "parse_condition src k", OF cb(3)] bnd_parsed [where p = skip_trivia, OF cb(4)]
        bnd_parsed [where p = "parse_block src p k", OF cb(5)] del: skip_trivia.simps)
  then show ?case using * br cb acc'_def by (intro exI [of _ "ElseIfBranch c' b' (span_merge (tk_span t) (tk_span (hd (ws @ rest)))) # bs'"]) auto
qed

lemma reads_expect_variable:
  "tk_kind t = variable_token g n \<Longrightarrow> ts \<noteq> [] \<Longrightarrow> bnd (expect_variable src d) f (t # ts) = f (n, g) ts"
  by (auto simp: expect_variable_def variable_token_def bnd_def at_end_def check_def peek_def ret_def advance_def split: if_splits)

lemma reads_expect_identifier:
  "tk_kind t = TIdentifier n \<Longrightarrow> ts \<noteq> [] \<Longrightarrow> bnd (expect_identifier src d) f (t # ts) = f n ts"
  by (auto simp: expect_identifier_def bnd_def at_end_def check_def peek_def ret_def advance_def)

lemma reads_stmtI:
  "p (us @ rest) = Parsed s' rest \<Longrightarrow> erase_stmt s' = erase_stmt s \<Longrightarrow> reads_stmt p s us rest"
  by (auto simp: reads_stmt_def)

lemma reads_simple_stmt:
  assumes "stmt_ok s" "map tk_kind us = stmt_tokens s" "length us \<le> n" "after_stmt rest"
    and "case s of If c b bs e sp \<Rightarrow> False | While c b sp \<Rightarrow> False | _ \<Rightarrow> True"
  shows "reads_stmt (parse_statement src (Suc n)) s us rest"
proof (cases s)
  case (Command name as sp)
  then obtain t vs where us: "us = t # vs" "tk_kind t = TIdentifier name" "map tk_kind vs = concat (map expr_tokens as)"
    using assms(2) by (auto simp: map_kind_Cons)
  obtain as' where as': "command_arguments src n [] (vs @ rest) = Parsed as' rest" "map erase_expr as' = map erase_expr as"
    using reads_command_arguments [OF _ _ _ us(3), of rest n src "[]"] after_stmt_stops [OF assms(4)] assms(1,3) us(1) Command by auto
  show ?thesis
    using us assms(4) as' Command
    by (intro reads_stmtI) (auto simp: bnd_peek is_identifier_def parse_command_statement_def bnd_span bnd_check reads_expect_identifier
        bnd_parsed [where p = "command_arguments src n []", OF as'(1)] ret_def Let_def after_stmt_def)
next
  case (VarDecl name g e sp)
  then obtain t v eq vs where us: "us = t # v # eq # vs" "tk_kind t = TVar" "tk_kind v = variable_token g name" "tk_kind eq = TEqual" "map tk_kind vs = expr_tokens e"
    using assms(2) by (auto simp: map_kind_Cons)
  obtain e' where e': "parse_expression src n (vs @ rest) = Parsed e' rest" "erase_expr e' = erase_expr e"
    by (rule reads_expression [OF _ _ _ us(5), where rest = rest and n = n and src = src])
      (use after_stmt_stops [OF assms(4)] assms(1,3) us VarDecl in \<open>auto dest: arg_cong [where f = length]\<close>)
  show ?thesis
    using us e' VarDecl after_stmt_stops [OF assms(4)]
    by (intro reads_stmtI) (auto simp: bnd_peek parse_var_statement_def bnd_advance reads_expect_variable bnd_expect
        bnd_parsed [where p = "parse_expression src n", OF e'(1)] ret_def)
next
  case (Set name g e sp)
  then obtain t v vs where us: "us = t # v # vs" "tk_kind t = TSet" "tk_kind v = variable_token g name" "map tk_kind vs = expr_tokens e"
    using assms(2) by (auto simp: map_kind_Cons)
  obtain e' where e': "parse_expression src n (vs @ rest) = Parsed e' rest" "erase_expr e' = erase_expr e"
    by (rule reads_expression [OF _ _ _ us(4), where rest = rest and n = n and src = src])
      (use after_stmt_stops [OF assms(4)] assms(1,3) us Set in \<open>auto dest: arg_cong [where f = length]\<close>)
  show ?thesis
    using us e' Set after_stmt_stops [OF assms(4)]
    by (intro reads_stmtI) (auto simp: bnd_peek parse_set_statement_def bnd_advance reads_expect_variable
        bnd_parsed [where p = "parse_expression src n", OF e'(1)] ret_def)
next
  case (Return v sp)
  show ?thesis
  proof (cases v)
    case None
    then obtain t where "us = [t]" "tk_kind t = TReturn" using Return assms(2) by (auto simp: map_kind_Cons)
    then show ?thesis using Return None after_stmt_stops [OF assms(4)]
      by (intro reads_stmtI) (auto simp: bnd_peek parse_return_statement_def bnd_advance ret_def)
  next
    case (Some e)
    then obtain t vs where us: "us = t # vs" "tk_kind t = TReturn" "map tk_kind vs = expr_tokens e"
      using Return assms(2) by (auto simp: map_kind_Cons)
    obtain e' where e': "parse_expression src n (vs @ rest) = Parsed e' rest" "erase_expr e' = erase_expr e"
      by (rule reads_expression [OF _ _ _ us(3), where rest = rest and n = n and src = src])
        (use after_stmt_stops [OF assms(4)] assms(1,3) us Return Some in \<open>auto dest: arg_cong [where f = length]\<close>)
    have "vs \<noteq> []" "\<not> ends_statement (tk_kind (hd vs))" using hd_spelled [OF us(3)] hd_expr_tokens(2) [of e] by auto
    then show ?thesis using us e' Return Some
      by (intro reads_stmtI) (auto simp: bnd_peek parse_return_statement_def bnd_advance bnd_def [of "bnd (parse_expression src n) _"]
          bnd_parsed [where p = "parse_expression src n", OF e'(1)] ret_def)
  qed
qed (use assms after_stmt_stops [OF assms(4)] in \<open>auto simp: map_kind_Cons bnd_peek bnd_advance ret_def intro!: reads_stmtI\<close>)

lemma reads_while:
  assumes stmt: "stmts_below n (parse_statement src n)"
    and "stmt_ok (While c b sp)" "map tk_kind us = stmt_tokens (While c b sp)" "length us \<le> n" "after_stmt rest"
  shows "reads_stmt (parse_statement src (Suc n)) (While c b sp) us rest"
proof -
  obtain t vs where us: "us = t # vs" "tk_kind t = TWhile"
      "map tk_kind vs = TLeftParen # expr_tokens c @ TRightParen # block_tokens (map stmt_tokens b)"
    using assms(3) by (auto simp: map_kind_Cons)
  obtain c' b' xs where cb: "erase_expr c' = erase_expr c" "map erase_stmt b' = map erase_stmt b"
      "parse_condition src n (vs @ rest) = Parsed c' (xs @ rest)" "skip_trivia (xs @ rest) = Parsed () (xs @ rest)"
      "parse_block src (parse_statement src n) n (xs @ rest) = Parsed b' rest"
    by (rule reads_guarded_block [OF stmt _ _ _ _ _ us(3), where n = n and src = src and rest = rest])
      (use assms us in \<open>auto simp: after_stmt_def\<close>)
  show ?thesis
    using us cb(1,2) assms(5)
    by (intro reads_stmtI) (auto simp: bnd_peek parse_while_statement_def bnd_advance bnd_span
        bnd_parsed [where p = "parse_condition src n", OF cb(3)] bnd_parsed [where p = skip_trivia, OF cb(4)]
        bnd_parsed [where p = "parse_block src (parse_statement src n) n", OF cb(5)] ret_def after_stmt_def)
qed

lemma reads_if:
  assumes stmt: "stmts_below n (parse_statement src n)"
    and "stmt_ok (If c b bs e sp)" "map tk_kind us = stmt_tokens (If c b bs e sp)" "length us \<le> n" "after_stmt rest"
  shows "reads_stmt (parse_statement src (Suc n)) (If c b bs e sp) us rest"
proof -
  let ?more = "concat (map branch_tokens bs) @ (case e of None \<Rightarrow> [] | Some b \<Rightarrow> TElse # block_tokens (map stmt_tokens b))"
  have "map tk_kind us = TIf # (TLeftParen # expr_tokens c @ TRightParen # block_tokens (map stmt_tokens b)) @ ?more"
    using assms(3) by simp
  then obtain t vs ws where us: "us = t # vs @ ws" "tk_kind t = TIf" "map tk_kind ws = ?more"
      "map tk_kind vs = TLeftParen # expr_tokens c @ TRightParen # block_tokens (map stmt_tokens b)"
    unfolding map_kind_Cons map_kind_append by blast
  have rest: "ws @ rest \<noteq> []" using assms(5) by (auto simp: after_stmt_def)
  obtain c' b' xs where cb: "erase_expr c' = erase_expr c" "map erase_stmt b' = map erase_stmt b"
      "parse_condition src n (vs @ ws @ rest) = Parsed c' (xs @ ws @ rest)" "skip_trivia (xs @ ws @ rest) = Parsed () (xs @ ws @ rest)"
      "parse_block src (parse_statement src n) n (xs @ ws @ rest) = Parsed b' (ws @ rest)"
    by (rule reads_guarded_block [OF stmt _ _ rest _ _ us(4), where n = n and src = src]) (use assms us in auto)
  obtain bs' e' rest' where *: "if_branches src (parse_statement src n) n [] (ws @ rest) = Parsed (bs', e') rest'"
      "map erase_branch bs' = map erase_branch bs" "map_option (map erase_stmt) e' = map_option (map erase_stmt) e"
      "skip_trivia rest' = skip_trivia rest" "rest' \<noteq> []"
    using reads_if_branches [OF stmt _ _ assms(5) us(3), where n = n and acc = "[]" and src = src] assms us by auto
  have "parse_statement src (Suc n) (us @ rest) = Parsed (If c' b' bs' e' (span_merge (tk_span t) (tk_span (hd rest')))) rest'"
    using us rest *(1,5)
    by (auto simp: bnd_peek parse_if_statement_def bnd_advance bnd_span
        bnd_parsed [where p = "parse_condition src n", OF cb(3)] bnd_parsed [where p = skip_trivia, OF cb(4)]
        bnd_parsed [where p = "parse_block src (parse_statement src n) n", OF cb(5)]
        bnd_parsed [where p = "if_branches src (parse_statement src n) n []", OF *(1)] ret_def)
  then show ?thesis using * cb(1,2) by (auto simp: reads_stmt_def)
qed

lemma statement_reads_back: "stmts_below n (parse_statement src n)"
proof (induction n)
  case 0
  then show ?case by (simp add: stmts_below_def)
next
  case (Suc n)
  have "reads_stmt (parse_statement src (Suc n)) s us rest"
    if "stmt_ok s" "map tk_kind us = stmt_tokens s" "length us < Suc n" "after_stmt rest" for s us rest
    using that reads_while [OF Suc] reads_if [OF Suc] reads_simple_stmt [of s us n rest src]
    by (cases s) (auto simp del: parse_statement.simps)
  then show ?case by (simp add: stmts_below_def del: parse_statement.simps)
qed

section \<open>Printing and reading scripts\<close>

fun erase_item :: "top_level_item \<Rightarrow> top_level_item" where
  "erase_item (TopAlias a) = TopAlias (a\<lparr>ad_body := map erase_stmt (ad_body a), ad_span := no_span\<rparr>)"
| "erase_item (TopEvent e) = TopEvent (e\<lparr>eh_body := map erase_stmt (eh_body e), eh_span := no_span\<rparr>)"
| "erase_item (TopTimer t) =
     TopTimer (t\<lparr>td_interval := erase_expr (td_interval t), td_repetitions := erase_expr (td_repetitions t),
                 td_body := map erase_stmt (td_body t), td_span := no_span\<rparr>)"

definition event_name :: "event_type \<Rightarrow> string" where
  "event_name e = the (map_of (map prod.swap event_names) e)"

fun item_tokens :: "top_level_item \<Rightarrow> token_kind list" where
  "item_tokens (TopAlias a) = TAlias # TIdentifier (ad_name a) # block_tokens (map stmt_tokens (ad_body a))"
| "item_tokens (TopEvent e) =
     TOn # TIdentifier (event_name (eh_event_type e)) # TColon # TString (eh_pattern e) #
     block_tokens (map stmt_tokens (eh_body e))"
| "item_tokens (TopTimer t) =
     TTimer # TIdentifier (td_name t) # expr_tokens (td_interval t) @ expr_tokens (td_repetitions t) @
     block_tokens (map stmt_tokens (td_body t))"

definition script_tokens :: "script \<Rightarrow> token_kind list" where
  "script_tokens s = concat (map (\<lambda>i. item_tokens i @ [TNewline]) (sc_items s))"

fun item_ok :: "top_level_item \<Rightarrow> bool" where
  "item_ok (TopAlias a) \<longleftrightarrow> list_all stmt_ok (ad_body a)"
| "item_ok (TopEvent e) \<longleftrightarrow> list_all stmt_ok (eh_body e) \<and> eh_pattern e \<noteq> [] \<and> trim (eh_pattern e) = eh_pattern e"
| "item_ok (TopTimer t) \<longleftrightarrow> args_ok [td_interval t, td_repetitions t] \<and> list_all stmt_ok (td_body t)"

lemma event_name_back: "map_of event_names (map ascii_upper (event_name e)) = Some e"
  by (cases e) (simp_all add: event_name_def event_names_def ascii_upper_def)

lemma reads_body:
  assumes "list_all stmt_ok b" "map tk_kind us = block_tokens (map stmt_tokens b)" "length us \<le> n" "rest \<noteq> []"
  obtains b' where "parse_block src (parse_statement src n) n (us @ rest) = Parsed b' rest" "map erase_stmt b' = map erase_stmt b"
    "us \<noteq> []" "tk_kind (hd us) = TLeftBrace" "skip_trivia (us @ rest) = Parsed () (us @ rest)"
proof -
  have us: "us \<noteq> []" "tk_kind (hd us) = TLeftBrace" using assms(2) by (auto simp: block_tokens_def map_kind_Cons)
  then have "skip_trivia (us @ rest) = Parsed () (us @ rest)" using skip_trivia_start [of us] by simp
  with us show ?thesis
    using reads_block [OF statement_reads_back assms(1,4,2,3,3), of src] that by metis
qed

lemma reads_alias:
  assumes "list_all stmt_ok (ad_body a)" "map tk_kind us = item_tokens (TopAlias a)" "length us \<le> n" "rest \<noteq> []"
  shows "\<exists>a'. parse_alias src n (us @ rest) = Parsed a' rest \<and> erase_item (TopAlias a') = erase_item (TopAlias a)"
proof -
  obtain t i ws where us: "us = t # i # ws" "tk_kind t = TAlias" "tk_kind i = TIdentifier (ad_name a)"
      "map tk_kind ws = block_tokens (map stmt_tokens (ad_body a))"
    using assms(2) by (auto simp: map_kind_Cons)
  obtain b' where b': "parse_block src (parse_statement src n) n (ws @ rest) = Parsed b' rest" "map erase_stmt b' = map erase_stmt (ad_body a)"
      "ws \<noteq> []" "tk_kind (hd ws) = TLeftBrace" "skip_trivia (ws @ rest) = Parsed () (ws @ rest)"
    by (rule reads_body [OF assms(1) us(4) _ assms(4), where n = n and src = src]) (use assms(3) us in auto)
  show ?thesis
    using us b'(2-4) assms(4)
    by (auto simp: parse_alias_def bnd_advance reads_expect_identifier bnd_parsed [where p = skip_trivia, OF b'(5)] bnd_check
        bnd_parsed [where p = "parse_block src (parse_statement src n) n", OF b'(1)] ret_def)
qed

lemma reads_event:
  assumes "item_ok (TopEvent e)" "map tk_kind us = item_tokens (TopEvent e)" "length us \<le> n" "rest \<noteq> []"
  shows "\<exists>e'. parse_event src n (us @ rest) = Parsed e' rest \<and> erase_item (TopEvent e') = erase_item (TopEvent e)"
proof -
  obtain t i c p ws where us: "us = t # i # c # p # ws" "tk_kind t = TOn" "tk_kind i = TIdentifier (event_name (eh_event_type e))"
      "tk_kind c = TColon" "tk_kind p = TString (eh_pattern e)" "map tk_kind ws = block_tokens (map stmt_tokens (eh_body e))"
    using assms(2) by (auto simp: map_kind_Cons)
  obtain b' where b': "parse_block src (parse_statement src n) n (ws @ rest) = Parsed b' rest" "map erase_stmt b' = map erase_stmt (eh_body e)"
      "ws \<noteq> []" "tk_kind (hd ws) = TLeftBrace" "skip_trivia (ws @ rest) = Parsed () (ws @ rest)"
    by (rule reads_body [OF _ us(6) _ assms(4), where n = n and src = src]) (use assms(1,3) us in auto)
  obtain k where "n = Suc (Suc k)" using assms(3) us(1) by (cases n; cases "n - 1") auto
  then have "pattern_loop src n [] (p # ws @ rest) = Parsed (eh_pattern e) (ws @ rest)"
    using us(5) b'(3,4) by (simp add: bnd_peek bnd_advance ret_def)
  then have pat: "parse_pattern src n (p # ws @ rest) = Parsed (eh_pattern e) (ws @ rest)"
    using assms(1) by (simp add: parse_pattern_def ret_def bnd_def Let_def)
  have "parse_event_type src (event_name (eh_event_type e)) i = Ok (eh_event_type e)"
    by (simp add: parse_event_type_def event_name_back)
  then show ?thesis
    using us b'(2-4) assms(4)
    by (auto simp: parse_event_def bnd_advance bnd_peek reads_expect_identifier bnd_check bnd_def [of "lift_result _"] lift_result_def
        bnd_def [of "bnd advance _"] pat bnd_parsed [where p = skip_trivia, OF b'(5)] bnd_span
        bnd_parsed [where p = "parse_block src (parse_statement src n) n", OF b'(1)] ret_def)
qed

lemma reads_timer:
  assumes "item_ok (TopTimer d)" "map tk_kind us = item_tokens (TopTimer d)" "length us \<le> n" "rest \<noteq> []"
  shows "\<exists>d'. parse_timer src n (us @ rest) = Parsed d' rest \<and> erase_item (TopTimer d') = erase_item (TopTimer d)"
proof -
  obtain t i us1 us2 ws where us: "us = t # i # us1 @ us2 @ ws" "tk_kind t = TTimer" "tk_kind i = TIdentifier (td_name d)"
      "map tk_kind us1 = expr_tokens (td_interval d)" "map tk_kind us2 = expr_tokens (td_repetitions d)"
      "map tk_kind ws = block_tokens (map stmt_tokens (td_body d))"
    using assms(2) by (auto simp: map_kind_Cons map_kind_append)
  obtain b' where b': "parse_block src (parse_statement src n) n (ws @ rest) = Parsed b' rest" "map erase_stmt b' = map erase_stmt (td_body d)"
      "ws \<noteq> []" "tk_kind (hd ws) = TLeftBrace" "skip_trivia (ws @ rest) = Parsed () (ws @ rest)"
    by (rule reads_body [OF _ us(6) _ assms(4), where n = n and src = src]) (use assms(1,3) us in auto)
  have h: "us1 \<noteq> []" "us2 \<noteq> []" "tk_kind (hd us2) = hd (expr_tokens (td_repetitions d))"
    "length (expr_tokens (td_interval d)) = length us1" "length (expr_tokens (td_repetitions d)) = length us2"
    using hd_spelled [OF us(4)] hd_spelled [OF us(5)] us(4,5) by (auto dest: arg_cong [where f = length])
  obtain e1 where e1: "parse_primary_expression src n (us1 @ us2 @ ws @ rest) = Parsed e1 (us2 @ ws @ rest)" "erase_expr e1 = erase_expr (td_interval d)"
    using reads_primary [OF expression_reads_back [of n src] _ _ _ _ us(4), where n = n and src = src and rest = "us2 @ ws @ rest" and bp = 0] assms(1,3) us(1) h
    by (auto simp: parse_primary_expression_def)
  obtain e2 where e2: "parse_primary_expression src n (us2 @ ws @ rest) = Parsed e2 (ws @ rest)" "erase_expr e2 = erase_expr (td_repetitions d)"
    using reads_primary [OF expression_reads_back [of n src] _ _ _ _ us(5), where n = n and src = src and rest = "ws @ rest" and bp = 0] assms(1,3) us(1) h b'(3,4)
    by (auto simp: parse_primary_expression_def)
  show ?thesis
    using us h b'(2-4) assms(4) e1(2) e2(2)
    by (auto simp: parse_timer_def bnd_advance reads_expect_identifier bnd_span bnd_parsed [where p = skip_trivia, OF b'(5)]
        bnd_parsed [where p = "parse_primary_expression src n", OF e1(1)] bnd_parsed [where p = "parse_primary_expression src n", OF e2(1)]
        bnd_parsed [where p = "parse_block src (parse_statement src n) n", OF b'(1)] ret_def)
qed

end
