(* ===== verification/Script_Reading.thy ===== *)
theory Script_Reading
  imports Script_Roundtrip
begin

text \<open>
  Lexer and parser together: the text of a script is tokenised into the tokens it was printed from,
  and these are parsed into the script.
\<close>

section \<open>Whole scripts\<close>

lemma reads_item:
  assumes "item_ok i" "map tk_kind us = item_tokens i" "length us \<le> n" "rest \<noteq> []"
  obtains i' where "parse_top_level_item src n (us @ rest) = Parsed i' rest" "erase_item i' = erase_item i"
    "us \<noteq> []" "tk_kind (hd us) \<noteq> TEof"
proof -
  have "us \<noteq> [] \<and> tk_kind (hd us) = hd (item_tokens i)" using hd_spelled [OF assms(2)] by (cases i) auto
  moreover have "\<exists>i'. parse_top_level_item src n (us @ rest) = Parsed i' rest \<and> erase_item i' = erase_item i"
  proof (cases i)
    case (TopAlias a)
    then obtain a' where a': "parse_alias src n (us @ rest) = Parsed a' rest" "erase_item (TopAlias a') = erase_item (TopAlias a)"
      using reads_alias [of a us n rest src] assms by auto
    then show ?thesis using TopAlias calculation
      by (auto simp: parse_top_level_item_def bnd_peek bnd_parsed [where p = "parse_alias src n", OF a'(1)] ret_def)
  next
    case (TopEvent e)
    then obtain e' where e': "parse_event src n (us @ rest) = Parsed e' rest" "erase_item (TopEvent e') = erase_item (TopEvent e)"
      using reads_event [of e us n rest src] assms by auto
    then show ?thesis using TopEvent calculation
      by (auto simp: parse_top_level_item_def bnd_peek bnd_parsed [where p = "parse_event src n", OF e'(1)] ret_def)
  next
    case (TopTimer d)
    then obtain d' where d': "parse_timer src n (us @ rest) = Parsed d' rest" "erase_item (TopTimer d') = erase_item (TopTimer d)"
      using reads_timer [of d us n rest src] assms by auto
    then show ?thesis using TopTimer calculation
      by (auto simp: parse_top_level_item_def bnd_peek bnd_parsed [where p = "parse_timer src n", OF d'(1)] ret_def)
  qed
  moreover have "hd (item_tokens i) \<noteq> TEof" by (cases i) auto
  ultimately show ?thesis using that by auto
qed

lemma item_start: "map tk_kind us = concat (map (\<lambda>i. item_tokens i @ [TNewline]) is) \<Longrightarrow> tk_kind t = TEof \<Longrightarrow>
    skip_trivia (us @ [t]) = Parsed () (us @ [t])"
proof (cases "is")
  case (Cons i is')
  moreover assume "map tk_kind us = concat (map (\<lambda>i. item_tokens i @ [TNewline]) is)"
  ultimately have "us \<noteq> []" "tk_kind (hd us) = hd (item_tokens i)"
    using hd_spelled [of us] by (cases i; auto)+
  then show ?thesis using skip_trivia_start [of us "[t]"] by (cases i) auto
qed auto

lemma reads_items_loop:
  assumes "list_all item_ok is" "map tk_kind us = concat (map (\<lambda>i. item_tokens i @ [TNewline]) is)" "length us < n" "tk_kind t = TEof"
  shows "\<exists>is'. items_loop src n acc (us @ [t]) = Parsed (acc @ is') [t] \<and> map erase_item is' = map erase_item is"
  using assms(1-3)
proof (induction "is" arbitrary: us n acc)
  case Nil
  then show ?case using assms(4) by (cases n) (auto simp: bnd_at_end ret_def)
next
  case (Cons i "is")
  obtain vs nl ws where us: "us = vs @ nl # ws" "map tk_kind vs = item_tokens i" "tk_kind nl = TNewline"
      "map tk_kind ws = concat (map (\<lambda>i. item_tokens i @ [TNewline]) is)"
    using Cons.prems(2) by (auto simp: map_kind_append map_kind_Cons)
  obtain k where n: "n = Suc k" using Cons.prems(3) by (cases n) auto
  obtain i' where i': "parse_top_level_item src k (vs @ nl # ws @ [t]) = Parsed i' (nl # ws @ [t])" "erase_item i' = erase_item i"
      "vs \<noteq> []" "tk_kind (hd vs) \<noteq> TEof"
    by (rule reads_item [OF _ us(2), where n = k and src = src and rest = "nl # ws @ [t]"]) (use Cons.prems us n in auto)
  obtain is' where *: "items_loop src k (acc @ [i']) (ws @ [t]) = Parsed ((acc @ [i']) @ is') [t]" "map erase_item is' = map erase_item is"
    using Cons.IH [OF _ us(4), of k "acc @ [i']"] Cons.prems us n by auto
  have sk: "skip_trivia (nl # ws @ [t]) = Parsed () (ws @ [t])" using us(3) item_start [OF us(4) assms(4)] by simp
  have "items_loop src n acc (us @ [t]) = Parsed ((acc @ [i']) @ is') [t]"
    using us(1) i'(3,4) *(1)
    by (simp add: n bnd_at_end bnd_parsed [where p = "parse_top_level_item src k", OF i'(1)] bnd_parsed [where p = skip_trivia, OF sk])
  then show ?case using i'(2) *(2) by (intro exI [of _ "i' # is'"]) auto
qed

lemma script_reads_back:
  assumes "list_all item_ok (sc_items s)" "map tk_kind ts = script_tokens s @ [TEof]"
  obtains s' rest where "parse_script src ts = Parsed s' rest" "map erase_item (sc_items s') = map erase_item (sc_items s)"
proof -
  obtain us t where ts: "ts = us @ [t]" "tk_kind t = TEof" "map tk_kind us = concat (map (\<lambda>i. item_tokens i @ [TNewline]) (sc_items s))"
    using assms(2) by (auto simp: map_kind_append script_tokens_def)
  obtain is' where *: "items_loop src (parse_fuel ts) [] (us @ [t]) = Parsed is' [t]" "map erase_item is' = map erase_item (sc_items s)"
    using reads_items_loop [OF assms(1) ts(3) _ ts(2), where n = "parse_fuel ts" and acc = "[]" and src = src] ts by (auto simp: parse_fuel_def)
  have "\<exists>sp. parse_script src ts = Parsed \<lparr>sc_items = is', sc_span = sp\<rparr> [t]"
    unfolding parse_script_def parse_with_def
    by (simp add: ts(1) bnd_span bnd_parsed [where p = skip_trivia, OF item_start [OF ts(3,2)]]
        bnd_parsed [where p = "items_loop src (parse_fuel ts) []", OF *(1), unfolded ts(1)] ret_def)
  then show ?thesis using that *(2) by fastforce
qed

section \<open>Printing tokens\<close>

definition escape_byte :: "char \<Rightarrow> string" where
  "escape_byte c =
     (if c = CHR 0x22 \<or> c = CHR 0x5C then [CHR 0x5C, c] else if c = CHR 0x0A then [CHR 0x5C, CHR ''n''] else [c])"

text \<open>How a floating-point literal is spelled is an argument, as its reading is one of the lexer.\<close>

fun token_text :: "(f64 \<Rightarrow> string) \<Rightarrow> token_kind \<Rightarrow> string" where
  "token_text show_f64 (TString s) = CHR 0x22 # concat (map escape_byte s) @ [CHR 0x22]"
| "token_text show_f64 (TNumber v) = show_f64 v"
| "token_text show_f64 (TInt n) = nat_to_string (nat n)"
| "token_text show_f64 (TIdentifier s) = s"
| "token_text show_f64 (TVariable s) = CHR 0x25 # s"
| "token_text show_f64 (TGlobalVariable s) = CHR 0x25 # CHR 0x25 # s"
| "token_text show_f64 (TBuiltin s) = CHR 0x24 # s"
| "token_text show_f64 TNewline = [CHR 0x0A]"
| "token_text show_f64 k =
     (case map_of punctuation k of
        Some s \<Rightarrow> s | None \<Rightarrow> (case map_of (map prod.swap keyword_table) k of Some s \<Rightarrow> s | None \<Rightarrow> []))"

definition text_of :: "(f64 \<Rightarrow> string) \<Rightarrow> token_kind list \<Rightarrow> string" where
  "text_of show_f64 ks = concat (map (\<lambda>k. CHR '' '' # token_text show_f64 k) ks)"

definition name_ok :: "string \<Rightarrow> bool" where
  "name_ok s \<longleftrightarrow> s \<noteq> [] \<and> is_ident_start (hd s) \<and> list_all is_ident_continue s"

text \<open>Digits, a point and digits.\<close>

definition is_decimal :: "string \<Rightarrow> bool" where
  "is_decimal w \<longleftrightarrow>
     (let digit = (\<lambda>b. is_ascii_digit (of_char b)); rest = dropWhile digit w in
      w \<noteq> [] \<and> digit (hd w) \<and> rest \<noteq> [] \<and> hd rest = CHR ''.'' \<and> tl rest \<noteq> [] \<and> list_all digit (tl rest))"

text \<open>
  The tokens that have a spelling: names are names, integers are not negative (a minus sign is an
  operator) and fit, and the spelling of a floating-point number is a decimal that is read as it.
  Semicolons, comments and the end of the file are not part of any tree.
\<close>

fun token_ok :: "(string \<Rightarrow> string + f64) \<Rightarrow> (f64 \<Rightarrow> string) \<Rightarrow> token_kind \<Rightarrow> bool" where
  "token_ok f show_f64 (TString s) \<longleftrightarrow> valid_utf8 s"
| "token_ok f show_f64 (TNumber v) \<longleftrightarrow> is_decimal (show_f64 v) \<and> f (show_f64 v) = Ok v"
| "token_ok f show_f64 (TInt n) \<longleftrightarrow> 0 \<le> n \<and> n \<le> I64_MAX"
| "token_ok f show_f64 (TIdentifier s) \<longleftrightarrow> name_ok s \<and> keyword s = None"
| "token_ok f show_f64 (TVariable s) \<longleftrightarrow> name_ok s"
| "token_ok f show_f64 (TGlobalVariable s) \<longleftrightarrow> list_all is_ident_continue s"
| "token_ok f show_f64 (TBuiltin s) \<longleftrightarrow> s \<noteq> [] \<and> (is_ident_start (hd s) \<or> is_ascii_digit (of_char (hd s))) \<and> list_all is_ident_continue s"
| "token_ok f show_f64 TEof \<longleftrightarrow> False"
| "token_ok f show_f64 TSemicolon \<longleftrightarrow> False"
| "token_ok f show_f64 (TComment s) \<longleftrightarrow> False"
| "token_ok f show_f64 k \<longleftrightarrow> True"

section \<open>Reading tokens back\<close>

definition ends_token :: "string \<Rightarrow> bool" where
  "ends_token r \<longleftrightarrow> r = [] \<or> hd r = CHR '' ''"

lemma drop_Cons_nth: "drop i s = c # cs \<Longrightarrow> i < length s \<and> s ! i = c \<and> drop (Suc i) s = cs"
  by (metis drop_eq_Nil2 list.discI linorder_not_le Cons_nth_drop_Suc list.sel(1) list.sel(3) nth_via_drop)

lemma drop_add: "drop i s = w @ r \<Longrightarrow> drop (i + length w) s = r"
  by (metis append_eq_conv_conj drop_drop add.commute)

lemma peek_next: "drop i s = c # cs \<Longrightarrow> peek_at s i (Suc 0) = (case cs of [] \<Rightarrow> None | d # _ \<Rightarrow> Some d)"
  using drop_Cons_nth [of i s c cs] drop_Cons_nth [of "Suc i" s]
  by (cases cs) (auto simp: peek_at_def)

lemma advance_over: "drop i s = w @ r \<Longrightarrow> list_all p w \<Longrightarrow> r = [] \<or> \<not> p (hd r) \<Longrightarrow> advance_while p s i = i + length w"
  by (simp add: advance_while_def takeWhile_word)

lemma slice_over: "drop i s = w @ r \<Longrightarrow> slice s i (i + length w) = w"
  by (simp add: slice_def)

lemma skip_blank:
  assumes "drop pos s = CHR '' '' # c # cs" "c \<noteq> CHR '' ''" "c \<noteq> CHR 0x09"
  shows "skip_whitespace s pos = Suc pos"
  using advance_over [of pos s "[CHR '' '']" "c # cs" "\<lambda>b. b = CHR '' '' \<or> b = CHR 0x09"] assms
  by (simp add: skip_whitespace_def)

lemma blank_not_name [simp]: "\<not> is_ident_continue (CHR '' '')" "\<not> is_ascii_digit (of_char (CHR '' ''))"
  by (simp_all add: is_ident_continue_def is_ascii_alphabetic_def is_ascii_digit_def)

lemma lex_name_over:
  assumes "drop (start + k) s = w @ r" "list_all is_ident_continue w" "ends_token r"
  shows "lex_name kind k s start = token_at (kind w) start (start + k + length w)"
  using advance_over [OF assms(1,2)] slice_over [OF assms(1)] assms(3)
  by (auto simp: lex_name_def Let_def ends_token_def)

lemma lex_identifier_over:
  assumes "drop start s = w @ r" "name_ok w" "ends_token r"
  shows "lex_identifier_or_keyword s start =
    token_at (case keyword w of Some k \<Rightarrow> k | None \<Rightarrow> TIdentifier w) start (start + length w)"
  using advance_over [OF assms(1), of is_ident_continue] slice_over [OF assms(1)] assms(2,3)
  by (auto simp: lex_identifier_or_keyword_def Let_def ends_token_def name_ok_def split: option.split)

lemma parse_i64_digits:
  assumes "0 \<le> n" "n \<le> I64_MAX"
  shows "parse_i64 (nat_to_string (nat n)) = Some n"
proof -
  obtain c cs where s: "nat_to_string (nat n) = c # cs" by (cases "nat_to_string (nat n)") simp_all
  have "c \<noteq> CHR ''+''" "c \<noteq> CHR ''-''"
    using nat_to_string_digits [of c "nat n"] by (auto simp: s is_ascii_digit_def)
  then show ?thesis
    using parse_digits_nat_to_string [of "nat n"] assms by (simp add: parse_i64_def s)
qed

lemma lex_number_over:
  assumes "drop start s = nat_to_string (nat n) @ r" "0 \<le> n" "n \<le> I64_MAX" "ends_token r"
  shows "lex_number f s start = token_at (TInt n) start (start + length (nat_to_string (nat n)))"
proof -
  let ?w = "nat_to_string (nat n)"
  have adv: "advance_while (\<lambda>b. is_ascii_digit (of_char b)) s start = start + length ?w"
    by (rule advance_over [OF assms(1)])
      (use assms(4) nat_to_string_digits [of _ "nat n"] in \<open>auto simp: ends_token_def list_all_iff is_ascii_digit_def\<close>)
  have "drop (start + length ?w) s = r" using assms(1) by (metis append_eq_conv_conj drop_drop add.commute)
  then have "\<not> (start + length ?w < length s \<and> s ! (start + length ?w) = CHR ''.'')"
    using assms(4) by (cases r) (auto simp: ends_token_def dest: drop_Cons_nth)
  then show ?thesis
    using adv slice_over [OF assms(1)] parse_i64_digits [OF assms(2,3)] by (auto simp: lex_number_def Let_def)
qed

lemma lex_float_over:
  assumes "drop start s = w @ r" "is_decimal w" "f w = Ok v" "ends_token r"
  shows "lex_number f s start = token_at (TNumber v) start (start + length w)"
proof -
  let ?d = "\<lambda>b. is_ascii_digit (of_char b)"
  obtain xs ys where w: "w = xs @ CHR ''.'' # ys" "list_all ?d xs" "list_all ?d ys" "ys \<noteq> []"
  proof -
    obtain c ys where "dropWhile ?d w = c # ys" using assms(2) by (cases "dropWhile ?d w") (auto simp: is_decimal_def)
    then have "w = takeWhile ?d w @ CHR ''.'' # ys" "list_all ?d ys" "ys \<noteq> []"
      using assms(2) takeWhile_dropWhile_id [of ?d w] by (auto simp: is_decimal_def)
    moreover have "list_all ?d (takeWhile ?d w)" by (auto simp: list_all_iff dest: set_takeWhileD)
    ultimately show thesis using that by blast
  qed
  have d: "drop start s = xs @ CHR ''.'' # ys @ r" using assms(1) w(1) by simp
  have d1: "drop (start + length xs) s = CHR ''.'' # ys @ r" by (rule drop_add [OF d])
  have a1: "advance_while ?d s start = start + length xs"
    by (rule advance_over [OF d w(2)]) (simp add: is_ascii_digit_def)
  have d2: "drop (start + length xs + 1) s = ys @ r" using drop_Cons_nth [OF d1] by simp
  have a2: "advance_while ?d s (start + length xs + 1) = start + length w"
    using advance_over [OF d2 w(3)] assms(4) w(1) by (auto simp: ends_token_def is_ascii_digit_def)
  have "peek_at s (start + length xs) 1 = Some (hd ys)" using peek_next [OF d1] w(4) by (cases ys) auto
  moreover have "?d (hd ys)" using w(3,4) by (cases ys) auto
  ultimately show ?thesis
    using a1 a2 drop_Cons_nth [OF d1] slice_over [OF assms(1)] assms(3) by (simp add: lex_number_def Let_def)
qed

lemma char_at_drop: "drop i s = c # cs \<Longrightarrow> char_at s i = hd (str_chars (c # cs))"
  by (simp add: char_at_def Let_def)

lemma escape_plain: "byte_in 128 255 c \<Longrightarrow> escape_byte c = [c]"
  by (auto simp: escape_byte_def byte_in_def)

lemma lex_string_char:
  assumes "drop pos s = ch @ w" "ch = hd (str_chars (ch @ w))" "ch \<noteq> []" "hd ch \<notin> {CHR 0x22, CHR 0x5C, CHR 0x0A}"
  shows "lex_string_loop s start pos buf = lex_string_loop s start (pos + length ch) (buf @ ch)"
proof -
  obtain c cs where ch: "ch @ w = c # cs" using assms(3) by (cases ch) auto
  have "char_at s pos = ch" using char_at_drop [of pos s c cs] assms(1,2) ch by simp
  then show ?thesis
    using drop_Cons_nth [of pos s c cs] assms ch by (subst lex_string_loop.simps) (auto simp: Let_def)
qed

lemma lex_string_escape:
  assumes "drop pos s = CHR 0x5C # e # w" "map_of escape_table e = Some c"
  shows "lex_string_loop s start pos buf = lex_string_loop s start (pos + 2) (buf @ [c])"
  using drop_Cons_nth [of pos s] drop_Cons_nth [of "Suc pos" s] assms
  by (subst lex_string_loop.simps) (auto simp: Let_def)

lemma lex_string_byte:
  assumes "drop pos s = escape_byte c @ w" "byte_in 0 127 c"
  shows "lex_string_loop s start pos buf = lex_string_loop s start (pos + length (escape_byte c)) (buf @ [c])"
proof (cases "c = CHR 0x22 \<or> c = CHR 0x5C \<or> c = CHR 0x0A")
  case True
  then show ?thesis using assms(1) lex_string_escape [of pos s _ w c] by (auto simp: escape_byte_def escape_table_def)
next
  case False
  then show ?thesis using assms lex_string_char [of pos s "[c]" w] by (auto simp: escape_byte_def byte_in_def Let_def)
qed

lemma escape_multi: "list_all (byte_in 128 255) ch \<Longrightarrow> concat (map escape_byte ch) = ch"
  by (induction ch) (auto simp: escape_plain)

lemma lex_string_reads:
  "valid_utf8 s \<Longrightarrow> drop pos src = concat (map escape_byte s) @ CHR 0x22 # r \<Longrightarrow>
    lex_string_loop src start pos buf = token_at (TString (buf @ s)) start (pos + length (concat (map escape_byte s)) + 1)"
proof (induction "length s" arbitrary: s pos buf rule: less_induct)
  case less
  show ?case
  proof (cases "s = []")
    case True
    then show ?thesis using less.prems drop_Cons_nth [of pos src] by (subst lex_string_loop.simps) (auto simp: Let_def)
  next
    case False
    from less.prems(1) False show ?thesis
    proof (cases rule: valid_utf8_cases)
      case (ascii b s')
      then have d: "drop pos src = escape_byte b @ concat (map escape_byte s') @ CHR 0x22 # r" using less.prems(2) by simp
      show ?thesis using less.hyps [OF _ ascii(3) drop_add [OF d], of "buf @ [b]"] lex_string_byte [OF d ascii(2), of start buf] ascii(1)
        by (simp add: add.assoc)
    next
      case (multi ch s')
      then have d: "drop pos src = ch @ concat (map escape_byte s') @ CHR 0x22 # r" using less.prems(2) escape_multi by simp
      have "hd ch \<notin> {CHR 0x22, CHR 0x5C, CHR 0x0A}" using multi(3,4) by (cases ch) (auto simp: byte_in_def)
      then show ?thesis
        using less.hyps [OF _ multi(2) drop_add [OF d], of "buf @ ch"] lex_string_char [OF d _ multi(3), of start buf] multi escape_multi
        by (simp add: add.assoc)
    qed
  qed
qed

lemma token_text_operator:
  assumes "map_of punctuation k = Some w" "k \<noteq> TPercent" "k \<noteq> TSemicolon" "drop start s = w @ r" "ends_token r"
  shows "lex_operator s start = token_at k start (start + length w)"
proof -
  have "ends_token r \<Longrightarrow> r = [] \<or> (\<exists>r'. r = CHR '' '' # r')" by (cases r) (auto simp: ends_token_def)
  with assms show ?thesis
    by (auto simp: punctuation_def lex_operator_def double_table_def single_table_def peek_next drop_Cons_nth split: if_splits)
qed

text \<open>How the lexer dispatches on the first byte of a token.\<close>

lemma lex_token_dispatch:
  assumes "drop pos s = CHR '' '' # c # cs" "c \<noteq> CHR '' ''" "c \<noteq> CHR 0x09"
  shows "lex_token f s pos =
    (if c = CHR 0x0A then token_at TNewline (Suc pos) (Suc pos + 1)
     else if c = CHR 0x0D then token_at TNewline (Suc pos) (if peek_at s (Suc pos) 1 = Some (CHR 0x0A) then Suc pos + 2 else Suc pos + 1)
     else if c = CHR 0x3B then lex_comment s (Suc pos)
     else if c = CHR 0x22 then lex_string s (Suc pos)
     else if c = CHR 0x25 then
       (case cs of
          d # _ \<Rightarrow> if d = CHR 0x25 then lex_name TGlobalVariable 2 s (Suc pos)
                   else if is_ident_start d then lex_name TVariable 1 s (Suc pos) else token_at TPercent (Suc pos) (Suc pos + 1)
        | [] \<Rightarrow> token_at TPercent (Suc pos) (Suc pos + 1))
     else if c = CHR 0x24 \<and> (case cs of d # _ \<Rightarrow> is_ident_start d \<or> is_ascii_digit (of_char d) | [] \<Rightarrow> False)
     then lex_name TBuiltin 1 s (Suc pos)
     else if is_ascii_digit (of_char c) then lex_number f s (Suc pos)
     else if is_ident_start c then lex_identifier_or_keyword s (Suc pos)
     else lex_operator s (Suc pos))"
proof -
  have d: "drop (Suc pos) s = c # cs" using drop_Cons_nth [OF assms(1)] by simp
  show ?thesis
    using skip_blank [OF assms] drop_Cons_nth [OF d] peek_next [OF d]
    by (simp add: lex_token_def Let_def split: list.splits)
qed

lemma ident_start_facts:
  assumes "is_ident_start c"
  shows "c \<noteq> CHR '' ''" "c \<noteq> CHR 0x09" "c \<noteq> CHR 0x0A" "c \<noteq> CHR 0x0D" "c \<noteq> CHR 0x3B" "c \<noteq> CHR 0x22" "c \<noteq> CHR 0x25" "c \<noteq> CHR 0x24"
    "\<not> is_ascii_digit (of_char c)"
  using assms by (auto simp: is_ident_start_def is_ascii_alphabetic_def is_ascii_digit_def)

lemma keyword_table_named: "list_all (\<lambda>(w, k). name_ok w \<and> keyword w = Some k) keyword_table"
  by code_simp

lemma keywords_named: "map_of (map prod.swap keyword_table) k = Some w \<Longrightarrow> name_ok w \<and> keyword w = Some k"
  using keyword_table_named by (auto dest!: map_of_SomeD simp: list_all_iff)

lemma punctuation_start:
  "list_all (\<lambda>(k, w). k = TPercent \<or> k = TSemicolon \<or>
     w \<noteq> [] \<and> hd w \<notin> set [CHR '' '', CHR 0x09, CHR 0x0A, CHR 0x0D, CHR 0x3B, CHR 0x22, CHR 0x25, CHR 0x24] \<and>
     \<not> is_ascii_digit (of_char (hd w)) \<and> \<not> is_ident_start (hd w)) punctuation"
  by code_simp

definition reads_token :: "(string \<Rightarrow> string + f64) \<Rightarrow> token_kind \<Rightarrow> string \<Rightarrow> string \<Rightarrow> nat \<Rightarrow> bool" where
  "reads_token f k w s pos \<longleftrightarrow>
     lex_token f s pos = token_at k (Suc pos) (Suc pos + length w)"

lemma reads_word:
  assumes "drop pos s = CHR '' '' # w @ r" "name_ok w" "ends_token r"
  shows "reads_token f (case keyword w of Some k \<Rightarrow> k | None \<Rightarrow> TIdentifier w) w s pos"
proof -
  obtain c cs where w: "w = c # cs" "is_ident_start c" using assms(2) by (cases w) (auto simp: name_ok_def)
  have "drop (Suc pos) s = w @ r" using drop_Cons_nth [OF assms(1)] by simp
  from lex_identifier_over [OF this assms(2,3)] show ?thesis
    using lex_token_dispatch [of pos s c "cs @ r" f] assms(1) w ident_start_facts [OF w(2)]
    by (simp add: reads_token_def)
qed

lemma reads_operator:
  assumes "map_of punctuation k = Some w" "k \<noteq> TPercent" "k \<noteq> TSemicolon" "drop pos s = CHR '' '' # w @ r" "ends_token r"
  shows "reads_token f k w s pos"
proof -
  have d: "drop (Suc pos) s = w @ r" using drop_Cons_nth [OF assms(4)] by simp
  have "w \<noteq> [] \<and> hd w \<notin> set [CHR '' '', CHR 0x09, CHR 0x0A, CHR 0x0D, CHR 0x3B, CHR 0x22, CHR 0x25, CHR 0x24] \<and>
      \<not> is_ascii_digit (of_char (hd w)) \<and> \<not> is_ident_start (hd w)"
    using punctuation_start map_of_SomeD [OF assms(1)] assms(2,3) unfolding list_all_iff by blast
  then obtain c cs where w: "w = c # cs" "c \<notin> set [CHR '' '', CHR 0x09, CHR 0x0A, CHR 0x0D, CHR 0x3B, CHR 0x22, CHR 0x25, CHR 0x24]"
      "\<not> is_ascii_digit (of_char c)" "\<not> is_ident_start c"
    by (cases w) auto
  show ?thesis
    using lex_token_dispatch [of pos s c "cs @ r" f] assms(4) w token_text_operator [OF assms(1-3) d assms(5)]
    by (simp add: reads_token_def)
qed

lemma reads_sigil:
  assumes "drop pos s = CHR '' '' # c # w @ r" "ends_token r"
  shows "c = CHR 0x25 \<Longrightarrow> name_ok w \<Longrightarrow> reads_token f (TVariable w) (c # w) s pos"
    and "c = CHR 0x24 \<Longrightarrow> token_ok f sf (TBuiltin w) \<Longrightarrow> reads_token f (TBuiltin w) (c # w) s pos"
proof -
  have d: "drop (Suc pos + 1) s = w @ r" using drop_Cons_nth [OF assms(1)] drop_Cons_nth [of "Suc pos" s c "w @ r"] by simp
  show "c = CHR 0x25 \<Longrightarrow> name_ok w \<Longrightarrow> reads_token f (TVariable w) (c # w) s pos"
    using lex_token_dispatch [OF assms(1), of f] lex_name_over [OF d _ assms(2)] ident_start_facts(7) [of "hd w"]
    by (cases w) (auto simp: reads_token_def name_ok_def)
  show "c = CHR 0x24 \<Longrightarrow> token_ok f sf (TBuiltin w) \<Longrightarrow> reads_token f (TBuiltin w) (c # w) s pos"
    using lex_token_dispatch [OF assms(1), of f] lex_name_over [OF d _ assms(2)]
    by (cases w) (auto simp: reads_token_def)
qed

lemma reads_global:
  assumes "drop pos s = CHR '' '' # CHR 0x25 # CHR 0x25 # w @ r" "ends_token r" "list_all is_ident_continue w"
  shows "reads_token f (TGlobalVariable w) (CHR 0x25 # CHR 0x25 # w) s pos"
proof -
  have "drop (Suc pos + 2) s = w @ r"
    using drop_add [of pos s "[CHR '' '', CHR 0x25, CHR 0x25]" "w @ r"] assms(1) by simp
  then show ?thesis
    using lex_token_dispatch [OF assms(1), of f] lex_name_over [OF _ assms(3,2)] by (simp add: reads_token_def)
qed

lemma reads_literal:
  assumes "drop pos s = CHR '' '' # w @ r" "ends_token r"
  shows "w = token_text sf (TString v) \<Longrightarrow> valid_utf8 v \<Longrightarrow> reads_token f (TString v) w s pos"
    and "w = token_text sf (TInt n) \<Longrightarrow> token_ok f sf (TInt n) \<Longrightarrow> reads_token f (TInt n) w s pos"
    and "w = token_text sf (TNumber x) \<Longrightarrow> token_ok f sf (TNumber x) \<Longrightarrow> reads_token f (TNumber x) w s pos"
proof -
  have d: "drop (Suc pos) s = w @ r" using drop_Cons_nth [OF assms(1)] by simp
  have number: "lex_token f s pos = lex_number f s (Suc pos)" if "w = c # cs" "is_ascii_digit (of_char c)" for c cs
  proof -
    have "c \<notin> {CHR '' '', CHR 0x09, CHR 0x0A, CHR 0x0D, CHR 0x3B, CHR 0x22, CHR 0x25, CHR 0x24}"
      using that(2) by (auto simp: is_ascii_digit_def)
    then show ?thesis using lex_token_dispatch [of pos s c "cs @ r" f] assms(1) that by simp
  qed
  show "reads_token f (TString v) w s pos" if "w = token_text sf (TString v)" "valid_utf8 v"
  proof -
    have "drop (Suc (Suc pos)) s = concat (map escape_byte v) @ CHR 0x22 # r" using drop_Cons_nth [of "Suc pos" s] d that(1) by simp
    from lex_string_reads [OF that(2) this, of "Suc pos" "[]"] show ?thesis
      using lex_token_dispatch [of pos s "CHR 0x22" _ f] assms(1) that(1) by (simp add: reads_token_def lex_string_def)
  qed
  show "reads_token f (TInt n) w s pos" if "w = token_text sf (TInt n)" "token_ok f sf (TInt n)"
  proof -
    have "w \<noteq> []" using that(1) by simp
    then obtain c cs where w: "w = c # cs" by (cases w) auto
    then have "is_ascii_digit (of_char c)" using nat_to_string_digits [of c "nat n"] that(1) by (metis list.set_intros(1) token_text.simps(3))
    then show ?thesis using number [OF w] lex_number_over [of "Suc pos" s n r f] assms that d by (simp add: reads_token_def)
  qed
  show "reads_token f (TNumber x) w s pos" if "w = token_text sf (TNumber x)" "token_ok f sf (TNumber x)"
  proof -
    have "is_decimal w" using that by simp
    then obtain c cs where w: "w = c # cs" "is_ascii_digit (of_char c)" by (cases w) (auto simp: is_decimal_def Let_def)
    then show ?thesis using number [OF w] lex_float_over [OF d _ _ assms(2), of f x] that by (simp add: reads_token_def)
  qed
qed

lemma token_reads_back:
  assumes "token_ok f sf k" "drop pos s = CHR '' '' # token_text sf k @ r" "ends_token r"
  shows "reads_token f k (token_text sf k) s pos"
proof -
  have percent: "lex_token f s pos = token_at TPercent (Suc pos) (Suc pos + 1)" if "drop pos s = CHR '' '' # CHR 0x25 # r"
    using lex_token_dispatch [OF that, of f] assms(3)
    by (cases r) (auto simp: ends_token_def is_ident_start_def is_ascii_alphabetic_def)
  have newline: "lex_token f s pos = token_at TNewline (Suc pos) (Suc pos + 1)" if "drop pos s = CHR '' '' # CHR 0x0A # r"
    using lex_token_dispatch [OF that, of f] by simp
  have word: "reads_token f k w s pos" if "map_of (map prod.swap keyword_table) k = Some w" "drop pos s = CHR '' '' # w @ r" for w
    using reads_word [OF that(2) _ assms(3), of f] keywords_named [OF that(1)] by simp
  show ?thesis
  proof (cases k)
    case (TIdentifier w)
    then show ?thesis using reads_word [of pos s w r f] assms by simp
  next
    case TPercent
    then show ?thesis using percent assms(2) by (simp add: reads_token_def punctuation_def)
  next
    case TNewline
    then show ?thesis using newline assms(2) by (simp add: reads_token_def)
  qed (use assms word [of "token_text sf k"] reads_operator [of k "token_text sf k" pos s r f] reads_sigil [of pos s _ _ r f] reads_sigil(2) [of pos s _ _ r f sf]
      reads_global [of pos s _ r f] reads_literal [OF assms(2,3), where sf = sf and f = f]
      in \<open>auto simp: punctuation_def keyword_table_def\<close>)
qed

lemma tokens_read_back:
  "list_all (token_ok f sf) ks \<Longrightarrow> drop pos s = text_of sf ks \<Longrightarrow> pos \<le> length s \<Longrightarrow>
    \<exists>ts. tokenize_from f s pos = Ok ts \<and> map tk_kind ts = ks @ [TEof]"
proof (induction ks arbitrary: pos)
  case Nil
  then have "pos = length s" by (simp add: text_of_def)
  then have "lex_token f s pos = token_at TEof pos pos"
    using lex_token_end [of s pos f] by (simp add: skip_whitespace_def advance_while_def)
  then show ?case by (subst tokenize_from.simps) (simp add: token_at_def)
next
  case (Cons k ks)
  have d: "drop pos s = CHR '' '' # token_text sf k @ text_of sf ks" using Cons.prems(2) by (simp add: text_of_def)
  have "ends_token (text_of sf ks)" by (cases ks) (auto simp: ends_token_def text_of_def)
  then have k: "reads_token f k (token_text sf k) s pos" using token_reads_back [OF _ d] Cons.prems(1) by simp
  let ?p = "Suc pos + length (token_text sf k)"
  have d': "drop ?p s = text_of sf ks" using drop_add [of pos s "CHR '' '' # token_text sf k"] d by simp
  have "length (drop pos s) = Suc (length (token_text sf k) + length (text_of sf ks))" using d by simp
  then have "?p \<le> length s" by simp
  then obtain ts where "tokenize_from f s ?p = Ok ts" "map tk_kind ts = ks @ [TEof]"
    using Cons.IH [OF _ d'] Cons.prems(1) by auto
  moreover have "k \<noteq> TEof" using Cons.prems(1) by auto
  ultimately show ?case using k by (subst tokenize_from.simps) (simp add: reads_token_def token_at_def)
qed

definition script_text :: "(f64 \<Rightarrow> string) \<Rightarrow> script \<Rightarrow> string" where
  "script_text show_f64 s = text_of show_f64 (script_tokens s)"

definition script_ok :: "(string \<Rightarrow> string + f64) \<Rightarrow> (f64 \<Rightarrow> string) \<Rightarrow> script \<Rightarrow> bool" where
  "script_ok f show_f64 s \<longleftrightarrow> list_all item_ok (sc_items s) \<and> list_all (token_ok f show_f64) (script_tokens s)"

text \<open>
  C25. Printing a script and reading the text with the lexer and the parser gives the script back, up to
  source positions: operator precedence, string escapes, the texts and references of interpolated
  strings, blocks, branches and all three kinds of top-level items. The script is one that the grammar
  can express (\<open>expr_ok\<close>, \<open>stmt_ok\<close>, \<open>item_ok\<close>, \<open>token_ok\<close>): in particular an interpolated string is any
  sequence of non-empty texts without a reference, no two of them adjacent, and of references to
  identifiers and local variables, where no text continues the name before it; integers are not
  negative; and a floating-point literal is printed as a decimal that the conversion of the standard
  library, an argument of the lexer, reads as that number.
\<close>

theorem script_roundtrip:
  assumes "script_ok parse_f64 show_f64 s"
  shows "\<exists>ts s' rest. tokenize parse_f64 (script_text show_f64 s) = Ok ts \<and> parse_script (script_text show_f64 s) ts = Parsed s' rest \<and>
    map erase_item (sc_items s') = map erase_item (sc_items s)"
proof -
  have "list_all item_ok (sc_items s)" "list_all (token_ok parse_f64 show_f64) (script_tokens s)" using assms by (simp_all add: script_ok_def)
  then obtain ts where ts: "tokenize parse_f64 (script_text show_f64 s) = Ok ts" "map tk_kind ts = script_tokens s @ [TEof]"
    using tokens_read_back [of parse_f64 show_f64 "script_tokens s" 0 "script_text show_f64 s"] by (auto simp: tokenize_def script_text_def)
  from script_reads_back [OF \<open>list_all item_ok (sc_items s)\<close> ts(2)]
  show ?thesis using ts(1) by metis
qed

text \<open>
  A script with an alias whose body has a loop, a call, an interpolated string, nested operators and a
  floating-point number.
\<close>

definition sample_script :: script where
  "sample_script =
     \<lparr>sc_items =
       [TopAlias \<lparr>ad_name = ''greet'', ad_body =
          [VarDecl ''i'' False (IntLiteral 1 no_span) no_span,
           While (BinaryOp (BinaryOp (Variable ''i'' no_span) Add (BinaryOp (NumberLiteral 5 no_span) Mul (IntLiteral 3 no_span) no_span) no_span)
                    Lt (IntLiteral 10 no_span) no_span)
             [Command ''msg'' [BuiltinId ''chan'' no_span,
                Interpolated [PartLiteral ''hi '', PartExpr (BuiltinId ''nick'' no_span), PartLiteral '', 100%'', PartExpr (Variable ''i'' no_span),
                  PartExpr (BuiltinId ''me'' no_span), PartLiteral ''!''] no_span] no_span,
              Set ''i'' False (FunctionCall ''len'' [Variable ''i'' no_span] no_span) no_span] no_span],
          ad_span = no_span\<rparr>,
        TopEvent \<lparr>eh_event_type = EvJoin, eh_pattern = ''#a'', eh_body = [Return None no_span], eh_span = no_span\<rparr>],
      sc_span = no_span\<rparr>"

definition sample_parse_f64 :: "string \<Rightarrow> string + f64" where
  "sample_parse_f64 w = (if w = ''2.5'' then Ok 5 else Err ''invalid float literal'')"

definition sample_show_f64 :: "f64 \<Rightarrow> string" where
  "sample_show_f64 v = ''2.5''"

lemma sample_script_ok: "script_ok sample_parse_f64 sample_show_f64 sample_script"
  by code_simp

theorem script_roundtrip_witness:
  "\<exists>ts s' rest. tokenize sample_parse_f64 (script_text sample_show_f64 sample_script) = Ok ts \<and>
     parse_script (script_text sample_show_f64 sample_script) ts = Parsed s' rest \<and>
     map erase_item (sc_items s') = map erase_item (sc_items sample_script)"
  by (rule script_roundtrip [OF sample_script_ok])

text \<open>
  C26. The parser returns for every source text that the lexer accepts: it ends with a script or an
  error, and never looks past the last token. The tokens cover the source from left to right, with
  nothing but blanks between them.
\<close>

theorem parser_returns:
  assumes "tokenize parse_f64 source = Ok ts"
  shows "tiles source 0 ts \<and> ((\<exists>s rest. parse_script source ts = Parsed s rest) \<or> (\<exists>e. parse_script source ts = Failed e))"
proof
  show "tiles source 0 ts" using tokenize_from_tiles [of parse_f64 source 0 ts] assms by (simp add: tokenize_def)
  show "(\<exists>s rest. parse_script source ts = Parsed s rest) \<or> (\<exists>e. parse_script source ts = Failed e)"
    using parse_returns [OF tokenize_eof_terminated [OF assms], of source] by (cases "parse_script source ts") (auto simp: runs_def)
qed

theorem parser_returns_witness:
  "\<exists>ts. tokenize (\<lambda>_. Err []) ''alias'' = Ok ts \<and> tiles ''alias'' 0 ts \<and>
     ((\<exists>s rest. parse_script ''alias'' ts = Parsed s rest) \<or> (\<exists>e. parse_script ''alias'' ts = Failed e))"
proof -
  have "tokenize (\<lambda>_. Err []) ''alias'' =
      Ok [\<lparr>tk_kind = TAlias, tk_span = span_new 0 5\<rparr>, \<lparr>tk_kind = TEof, tk_span = span_new 5 0\<rparr>]"
    by code_simp
  from parser_returns [OF this] this show ?thesis by blast
qed

end
