(* ===== verification/Script_Values.thy ===== *)
theory Script_Values
  imports Script_Parser "HOL-Library.Signed_Division"
begin

text \<open>
  Run-time values of the scripting language, built-in identifiers and functions, and variables:
  \<^verbatim>\<open>pirc-scripting/src/interpreter/\<close> \<^verbatim>\<open>value.rs\<close>, \<^verbatim>\<open>builtins.rs\<close>, \<^verbatim>\<open>functions.rs\<close>, \<^verbatim>\<open>environment.rs\<close>,
  \<^verbatim>\<open>command.rs\<close>. Floating-point arithmetic, the Unicode case tables and the \<^verbatim>\<open>regex\<close> crate are the fields of
  \<open>script_prims\<close>. Integer arithmetic wraps, except for the division that Rust checks in every build.
\<close>

section \<open>Primitives\<close>

datatype ordering = OrdLess | OrdEqual | OrdGreater

record script_prims =
  f64_of_int :: "int \<Rightarrow> f64"
  f64_to_int :: "f64 \<Rightarrow> int"
  f64_add :: "f64 \<Rightarrow> f64 \<Rightarrow> f64"
  f64_sub :: "f64 \<Rightarrow> f64 \<Rightarrow> f64"
  f64_mul :: "f64 \<Rightarrow> f64 \<Rightarrow> f64"
  f64_div :: "f64 \<Rightarrow> f64 \<Rightarrow> f64"
  f64_rem :: "f64 \<Rightarrow> f64 \<Rightarrow> f64"
  f64_neg :: "f64 \<Rightarrow> f64"
  f64_eq :: "f64 \<Rightarrow> f64 \<Rightarrow> bool"
  f64_cmp :: "f64 \<Rightarrow> f64 \<Rightarrow> ordering option"
  f64_display :: "f64 \<Rightarrow> string"
  to_lowercase :: "string \<Rightarrow> string"
  to_uppercase :: "string \<Rightarrow> string"
  regex_captures :: "string \<Rightarrow> string \<Rightarrow> string + (string option list) option"
  f64_max :: "f64 \<Rightarrow> f64 \<Rightarrow> f64"
  f64_to_u64 :: "f64 \<Rightarrow> nat"
  duration_from_secs :: "f64 \<Rightarrow> nat option"
  duration_display :: "nat \<Rightarrow> string"

text \<open>
  A \<^verbatim>\<open>Duration\<close> is its number of nanoseconds; \<open>duration_from_secs\<close> is \<open>None\<close> where \<^verbatim>\<open>from_secs_f64\<close>
  panics. The \<^verbatim>\<open>f64\<close> zero has all bits zero.
\<close>

abbreviation f64_zero :: f64 where "f64_zero \<equiv> 0"

definition wrap64 :: "int \<Rightarrow> int" where
  "wrap64 n = (n + 9223372036854775808) mod 18446744073709551616 - 9223372036854775808"

lemma wrap64_range: "I64_MIN \<le> wrap64 n \<and> wrap64 n \<le> I64_MAX"
  using pos_mod_bound [of 18446744073709551616 "n + 9223372036854775808"]
    pos_mod_sign [of 18446744073709551616 "n + 9223372036854775808"]
  by (simp add: wrap64_def)

section \<open>Values\<close>

datatype script_value = VString string | VInt int | VNumber f64 | VBool bool | VNull

datatype runtime_error =
    TypeError string
  | UndefinedVariable string
  | DivisionByZero
  | UnknownBuiltin string
  | UnknownFunction string
  | UnknownCommand string
  | LoopLimit
  | AliasRecursionLimit
  | Halt
  | ReturnSignal script_value
  | BreakSignal
  | ContinueSignal

text \<open>What an evaluation ends with: a value, a \<^verbatim>\<open>RuntimeError\<close>, or a panic.\<close>

datatype 'a run = Val 'a | Fail runtime_error | Panic string

fun value_display :: "script_prims \<Rightarrow> script_value \<Rightarrow> string" where
  "value_display P (VString s) = s"
| "value_display P (VInt n) = int_to_string n"
| "value_display P (VNumber x) = f64_display P x"
| "value_display P (VBool b) = (if b then ''true'' else ''false'')"
| "value_display P VNull = []"

fun is_truthy :: "script_prims \<Rightarrow> script_value \<Rightarrow> bool" where
  "is_truthy P VNull = False"
| "is_truthy P (VBool b) = b"
| "is_truthy P (VInt n) = (n \<noteq> 0)"
| "is_truthy P (VNumber x) = (\<not> f64_eq P x f64_zero)"
| "is_truthy P (VString s) = (s \<noteq> [])"

fun type_name :: "script_value \<Rightarrow> string" where
  "type_name (VString _) = ''string''"
| "type_name (VInt _) = ''int''"
| "type_name (VNumber _) = ''number''"
| "type_name (VBool _) = ''bool''"
| "type_name VNull = ''null''"

fun value_equals :: "script_prims \<Rightarrow> script_value \<Rightarrow> script_value \<Rightarrow> bool" where
  "value_equals P (VString a) (VString b) = eq_ignore_ascii_case a b"
| "value_equals P (VInt a) (VInt b) = (a = b)"
| "value_equals P (VNumber a) (VNumber b) = f64_eq P a b"
| "value_equals P (VInt a) (VNumber b) = f64_eq P (f64_of_int P a) b"
| "value_equals P (VNumber b) (VInt a) = f64_eq P (f64_of_int P a) b"
| "value_equals P (VBool a) (VBool b) = (a = b)"
| "value_equals P VNull VNull = True"
| "value_equals P _ _ = False"

definition type_error :: "string \<Rightarrow> script_value \<Rightarrow> string \<Rightarrow> script_value \<Rightarrow> script_value run" where
  "type_error verb a prep b = Fail (TypeError (verb @ type_name a @ prep @ type_name b))"

fun value_add :: "script_prims \<Rightarrow> script_value \<Rightarrow> script_value \<Rightarrow> script_value run" where
  "value_add P (VInt a) (VInt b) = Val (VInt (wrap64 (a + b)))"
| "value_add P (VNumber a) (VNumber b) = Val (VNumber (f64_add P a b))"
| "value_add P (VInt a) (VNumber b) = Val (VNumber (f64_add P (f64_of_int P a) b))"
| "value_add P (VNumber a) (VInt b) = Val (VNumber (f64_add P a (f64_of_int P b)))"
| "value_add P (VString a) (VString b) = Val (VString (a @ b))"
| "value_add P a b = type_error ''cannot add '' a '' and '' b"

fun value_sub :: "script_prims \<Rightarrow> script_value \<Rightarrow> script_value \<Rightarrow> script_value run" where
  "value_sub P (VInt a) (VInt b) = Val (VInt (wrap64 (a - b)))"
| "value_sub P (VNumber a) (VNumber b) = Val (VNumber (f64_sub P a b))"
| "value_sub P (VInt a) (VNumber b) = Val (VNumber (f64_sub P (f64_of_int P a) b))"
| "value_sub P (VNumber a) (VInt b) = Val (VNumber (f64_sub P a (f64_of_int P b)))"
| "value_sub P a b = type_error ''cannot subtract '' b '' from '' a"

fun value_mul :: "script_prims \<Rightarrow> script_value \<Rightarrow> script_value \<Rightarrow> script_value run" where
  "value_mul P (VInt a) (VInt b) = Val (VInt (wrap64 (a * b)))"
| "value_mul P (VNumber a) (VNumber b) = Val (VNumber (f64_mul P a b))"
| "value_mul P (VInt a) (VNumber b) = Val (VNumber (f64_mul P (f64_of_int P a) b))"
| "value_mul P (VNumber a) (VInt b) = Val (VNumber (f64_mul P a (f64_of_int P b)))"
| "value_mul P a b = type_error ''cannot multiply '' a '' and '' b"

fun value_div :: "script_prims \<Rightarrow> script_value \<Rightarrow> script_value \<Rightarrow> script_value run" where
  "value_div P (VInt a) (VInt b) =
     (if b = 0 then Fail DivisionByZero
      else if a = I64_MIN \<and> b = -1 then Panic ''attempt to divide with overflow''
      else Val (VInt (a sdiv b)))"
| "value_div P (VNumber a) (VNumber b) =
     (if f64_eq P b f64_zero then Fail DivisionByZero else Val (VNumber (f64_div P a b)))"
| "value_div P (VInt a) (VNumber b) =
     (if f64_eq P b f64_zero then Fail DivisionByZero else Val (VNumber (f64_div P (f64_of_int P a) b)))"
| "value_div P (VNumber a) (VInt b) =
     (if b = 0 then Fail DivisionByZero else Val (VNumber (f64_div P a (f64_of_int P b))))"
| "value_div P a b = type_error ''cannot divide '' a '' by '' b"

fun value_modulo :: "script_prims \<Rightarrow> script_value \<Rightarrow> script_value \<Rightarrow> script_value run" where
  "value_modulo P (VInt a) (VInt b) =
     (if b = 0 then Fail DivisionByZero
      else if a = I64_MIN \<and> b = -1 then Panic ''attempt to calculate the remainder with overflow''
      else Val (VInt (a smod b)))"
| "value_modulo P (VNumber a) (VNumber b) =
     (if f64_eq P b f64_zero then Fail DivisionByZero else Val (VNumber (f64_rem P a b)))"
| "value_modulo P (VInt a) (VNumber b) =
     (if f64_eq P b f64_zero then Fail DivisionByZero else Val (VNumber (f64_rem P (f64_of_int P a) b)))"
| "value_modulo P (VNumber a) (VInt b) =
     (if b = 0 then Fail DivisionByZero else Val (VNumber (f64_rem P a (f64_of_int P b))))"
| "value_modulo P a b = type_error ''cannot compute modulo of '' a '' and '' b"

fun value_negate :: "script_prims \<Rightarrow> script_value \<Rightarrow> script_value run" where
  "value_negate P (VInt n) = Val (VInt (wrap64 (- n)))"
| "value_negate P (VNumber x) = Val (VNumber (f64_neg P x))"
| "value_negate P a = Fail (TypeError (''cannot negate '' @ type_name a))"

fun bytes_cmp :: "string \<Rightarrow> string \<Rightarrow> ordering" where
  "bytes_cmp [] [] = OrdEqual"
| "bytes_cmp [] (_ # _) = OrdLess"
| "bytes_cmp (_ # _) [] = OrdGreater"
| "bytes_cmp (a # as) (b # bs) =
     (if (of_char a :: nat) < of_char b then OrdLess else if (of_char b :: nat) < of_char a then OrdGreater
      else bytes_cmp as bs)"

definition int_cmp :: "int \<Rightarrow> int \<Rightarrow> ordering" where
  "int_cmp a b = (if a < b then OrdLess else if b < a then OrdGreater else OrdEqual)"

definition f64_compare :: "script_prims \<Rightarrow> f64 \<Rightarrow> f64 \<Rightarrow> ordering run" where
  "f64_compare P a b =
     (case f64_cmp P a b of Some c \<Rightarrow> Val c | None \<Rightarrow> Fail (TypeError ''cannot compare NaN values''))"

fun partial_cmp_values :: "script_prims \<Rightarrow> script_value \<Rightarrow> script_value \<Rightarrow> ordering run" where
  "partial_cmp_values P (VInt a) (VInt b) = Val (int_cmp a b)"
| "partial_cmp_values P (VNumber a) (VNumber b) = f64_compare P a b"
| "partial_cmp_values P (VInt a) (VNumber b) = f64_compare P (f64_of_int P a) b"
| "partial_cmp_values P (VNumber a) (VInt b) = f64_compare P a (f64_of_int P b)"
| "partial_cmp_values P (VString a) (VString b) = Val (bytes_cmp (to_lowercase P a) (to_lowercase P b))"
| "partial_cmp_values P a b = Fail (TypeError (''cannot compare '' @ type_name a @ '' and '' @ type_name b))"

text \<open>\<^verbatim>\<open>compare\<close>, \<^verbatim>\<open>compare_lte\<close> and \<^verbatim>\<open>compare_gte\<close> accept one or two orderings.\<close>

definition value_compare :: "script_prims \<Rightarrow> ordering list \<Rightarrow> script_value \<Rightarrow> script_value \<Rightarrow> script_value run" where
  "value_compare P accepted a b =
     (case partial_cmp_values P a b of Val c \<Rightarrow> Val (VBool (c \<in> set accepted)) | Fail e \<Rightarrow> Fail e | Panic m \<Rightarrow> Panic m)"

section \<open>Built-in identifiers\<close>

record builtin_context =
  bc_identifiers :: "(string \<times> script_value) list"
  bc_event_text :: "string option"

definition context_new :: builtin_context where
  "context_new = \<lparr>bc_identifiers = [], bc_event_text = None\<rparr>"

definition context_set :: "string \<Rightarrow> script_value \<Rightarrow> builtin_context \<Rightarrow> builtin_context" where
  "context_set name v c = c\<lparr>bc_identifiers := hm_insert name v (bc_identifiers c)\<rparr>"

definition set_event_text :: "string \<Rightarrow> builtin_context \<Rightarrow> builtin_context" where
  "set_event_text text' c = context_set ''text'' (VString text') (c\<lparr>bc_event_text := Some text'\<rparr>)"

definition static_table :: "(string \<times> script_value) list" where
  "static_table =
     [(''null'', VNull), (''true'', VBool True), (''false'', VBool False), (''cr'', VString [CHR 0x0D]),
      (''lf'', VString [CHR 0x0A]), (''crlf'', VString [CHR 0x0D, CHR 0x0A]), (''tab'', VString [CHR 0x09])]"

definition resolve_static :: "string \<Rightarrow> script_value option" where
  "resolve_static name = map_of static_table name"

definition resolve_numeric_param :: "builtin_context \<Rightarrow> string \<Rightarrow> script_value option" where
  "resolve_numeric_param c name =
     (case parse_unsigned U64_MAX name of
        None \<Rightarrow> None
      | Some n \<Rightarrow>
          if n > 9 then None
          else let text' = (case bc_event_text c of None \<Rightarrow> [] | Some t \<Rightarrow> t) in
            if n = 0 then Some (VString text')
            else let tokens = split_whitespace text' in
              Some (if n - 1 < length tokens then VString (tokens ! (n - 1)) else VNull))"

definition context_resolve :: "builtin_context \<Rightarrow> string \<Rightarrow> script_value" where
  "context_resolve c name =
     (case resolve_static name of
        Some v \<Rightarrow> v
      | None \<Rightarrow>
          (case resolve_numeric_param c name of
             Some v \<Rightarrow> v
           | None \<Rightarrow> (case hm_get (bc_identifiers c) name of Some v \<Rightarrow> v | None \<Rightarrow> VNull)))"

section \<open>Built-in functions\<close>

text \<open>The captures of the last \<^verbatim>\<open>$regex\<close>, which the functions may replace.\<close>

type_synonym regex_state = "string list"

definition to_i64 :: "script_prims \<Rightarrow> script_value \<Rightarrow> string \<Rightarrow> int run" where
  "to_i64 P v fn =
     (case v of
        VInt n \<Rightarrow> Val n
      | VNumber x \<Rightarrow> Val (f64_to_int P x)
      | VString s \<Rightarrow>
          (case parse_i64 s of Some n \<Rightarrow> Val n
           | None \<Rightarrow> Fail (TypeError ([CHR 0x24] @ fn @ '': expected number, got string '' @ [CHR 0x22] @ s @ [CHR 0x22])))
      | _ \<Rightarrow> Fail (TypeError ([CHR 0x24] @ fn @ '': expected number, got '' @ type_name v)))"

definition run_map :: "('a \<Rightarrow> 'b run) \<Rightarrow> 'a run \<Rightarrow> 'b run" where
  "run_map f r = (case r of Val a \<Rightarrow> f a | Fail e \<Rightarrow> Fail e | Panic m \<Rightarrow> Panic m)"

definition to_usize :: "script_prims \<Rightarrow> script_value \<Rightarrow> string \<Rightarrow> nat run" where
  "to_usize P v fn =
     run_map (\<lambda>n. if n < 0
                  then Fail (TypeError ([CHR 0x24] @ fn @ '': argument must be non-negative, got '' @ int_to_string n))
                  else Val (nat n)) (to_i64 P v fn)"

text \<open>\<^verbatim>\<open>str::split\<close> at a non-empty delimiter and \<^verbatim>\<open>str::replace\<close>.\<close>

function split_str :: "string \<Rightarrow> string \<Rightarrow> string list" where
  "split_str d s =
     (case str_find d s of
        Some i \<Rightarrow> if d = [] then [s] else take i s # split_str d (drop (i + length d) s)
      | None \<Rightarrow> [s])"
  by pat_completeness auto

lemma str_find_bound: "str_find d s = Some i \<Longrightarrow> i + length d \<le> length s"
proof (induction d s arbitrary: i rule: str_find.induct)
  case (2 p c cs)
  then show ?case by (auto split: if_splits dest: arg_cong [where f = length])
qed (auto split: if_splits)

termination split_str
proof (relation "measure (\<lambda>(d, s). length s)")
  fix d s :: string and i
  assume "str_find d s = Some i" and d: "d \<noteq> []"
  then have "i + length d \<le> length s" by (simp add: str_find_bound)
  moreover have "0 < length d" using d by simp
  ultimately have "length s - (i + length d) < length s" by linarith
  then show "((d, drop (i + length d) s), d, s) \<in> measure (\<lambda>(d, s). length s)" by simp
qed simp

definition join_str :: "string \<Rightarrow> string list \<Rightarrow> string" where
  "join_str sep xs = (case xs of [] \<Rightarrow> [] | x # xs' \<Rightarrow> x @ concat (map (\<lambda>y. sep @ y) xs'))"

definition str_replace :: "string \<Rightarrow> string \<Rightarrow> string \<Rightarrow> string" where
  "str_replace s find' repl =
     (if find' = [] then repl @ concat (map (\<lambda>ch. ch @ repl) (str_chars s)) else join_str repl (split_str find' s))"

text \<open>\<^verbatim>\<open>char::from_u32\<close> and the UTF-8 bytes of the character.\<close>

definition utf8_encode :: "nat \<Rightarrow> string" where
  "utf8_encode n =
     map char_of
       (if n < 128 then [n]
        else if n < 2048 then [192 + n div 64, 128 + n mod 64]
        else if n < 65536 then [224 + n div 4096, 128 + n div 64 mod 64, 128 + n mod 64]
        else [240 + n div 262144, 128 + n div 4096 mod 64, 128 + n div 64 mod 64, 128 + n mod 64])"

definition char_from_u32 :: "nat \<Rightarrow> string option" where
  "char_from_u32 n = (if n < 55296 \<or> 57344 \<le> n \<and> n \<le> 1114111 then Some (utf8_encode n) else None)"

definition or_blank :: "string \<Rightarrow> string" where
  "or_blank delim = (if delim = [] then '' '' else delim)"

definition fn_token :: "script_prims \<Rightarrow> script_value list \<Rightarrow> script_value run" where
  "fn_token P args =
     run_map (\<lambda>n. if n < 1 then Val VNull
                  else let tokens = split_str (or_blank (value_display P (args ! 2))) (value_display P (args ! 0)) in
                       Val (if nat (n - 1) < length tokens then VString (tokens ! nat (n - 1)) else VNull))
       (to_i64 P (args ! 1) ''token'')"

definition fn_chr :: "script_prims \<Rightarrow> script_value list \<Rightarrow> script_value run" where
  "fn_chr P args =
     run_map (\<lambda>n. if n < 0 then Fail (TypeError ([CHR 0x24] @ ''chr: code point must be non-negative''))
                  else if n > int U32_MAX then Fail (TypeError ([CHR 0x24] @ ''chr: code point too large: '' @ int_to_string n))
                  else case char_from_u32 (nat n) of
                    Some ch \<Rightarrow> Val (VString ch)
                  | None \<Rightarrow> Fail (TypeError ([CHR 0x24] @ ''chr: invalid code point '' @ int_to_string n)))
       (to_i64 P (args ! 0) ''chr'')"

definition fn_asc :: "script_prims \<Rightarrow> script_value list \<Rightarrow> script_value run" where
  "fn_asc P args =
     (case utf8_chars (value_display P (args ! 0)) of
        ch # _ \<Rightarrow> Val (VInt (int ch))
      | [] \<Rightarrow> Fail (TypeError ([CHR 0x24] @ ''asc: empty string'')))"

definition fn_regex :: "script_prims \<Rightarrow> script_value list \<Rightarrow> regex_state \<Rightarrow> script_value run \<times> regex_state" where
  "fn_regex P args rs =
     (case regex_captures P (value_display P (args ! 1)) (value_display P (args ! 0)) of
        Err e \<Rightarrow> (Fail (TypeError ([CHR 0x24] @ ''regex: invalid pattern: '' @ e)), rs)
      | Ok (Some caps) \<Rightarrow> (Val (VInt 1), map (\<lambda>m. case m of None \<Rightarrow> [] | Some s \<Rightarrow> s) caps)
      | Ok None \<Rightarrow> (Val (VInt 0), []))"

definition fn_regml :: "script_prims \<Rightarrow> script_value list \<Rightarrow> regex_state \<Rightarrow> script_value run" where
  "fn_regml P args rs =
     run_map (\<lambda>n. if n < 0 then Fail (TypeError ([CHR 0x24] @ ''regml: index must be non-negative''))
                  else Val (if nat n < length rs then VString (rs ! nat n) else VNull))
       (to_i64 P (args ! 0) ''regml'')"

definition function_arity :: "(string \<times> nat) list" where
  "function_arity =
     [(''len'', 1), (''left'', 2), (''right'', 2), (''mid'', 3), (''upper'', 1), (''lower'', 1), (''replace'', 3),
      (''find'', 2), (''token'', 3), (''numtok'', 2), (''strip'', 1), (''chr'', 1), (''asc'', 1), (''regex'', 2), (''regml'', 1)]"

text \<open>The functions that neither read nor change the captures.\<close>

definition text_function :: "script_prims \<Rightarrow> string \<Rightarrow> script_value list \<Rightarrow> script_value run" where
  "text_function P name args =
     (let s = value_display P (args ! 0); chars = str_chars s in
      if name = ''len'' then Val (VInt (int (length s)))
      else if name = ''left''
      then run_map (\<lambda>n. Val (VString (concat (take n chars)))) (to_usize P (args ! 1) ''left'')
      else if name = ''right''
      then run_map (\<lambda>n. Val (VString (concat (drop (length chars - n) chars)))) (to_usize P (args ! 1) ''right'')
      else if name = ''mid''
      then run_map (\<lambda>start. run_map (\<lambda>len. Val (VString (concat (take len (drop start chars)))))
                     (to_usize P (args ! 2) ''mid'')) (to_usize P (args ! 1) ''mid'')
      else if name = ''upper'' then Val (VString (to_uppercase P s))
      else if name = ''lower'' then Val (VString (to_lowercase P s))
      else if name = ''replace''
      then Val (VString (str_replace s (value_display P (args ! 1)) (value_display P (args ! 2))))
      else if name = ''find''
      then Val (VInt (case str_find (value_display P (args ! 1)) s of Some i \<Rightarrow> int i | None \<Rightarrow> -1))
      else if name = ''token'' then fn_token P args
      else if name = ''numtok''
      then Val (VInt (if s = [] then 0 else int (length (split_str (or_blank (value_display P (args ! 1))) s))))
      else if name = ''strip'' then Val (VString (trim s))
      else if name = ''chr'' then fn_chr P args
      else fn_asc P args)"

definition call_function :: "script_prims \<Rightarrow> string \<Rightarrow> script_value list \<Rightarrow> regex_state \<Rightarrow> script_value run \<times> regex_state" where
  "call_function P name args rs =
     (case map_of function_arity name of
        None \<Rightarrow> (Fail (UnknownFunction name), rs)
      | Some n \<Rightarrow>
          if length args \<noteq> n
          then (Fail (TypeError ([CHR 0x24] @ name @ '': expected '' @ nat_to_string n @ '' argument'' @
                       (if n = 1 then [] else ''s'') @ '', got '' @ nat_to_string (length args))), rs)
          else if name = ''regex'' then fn_regex P args rs
          else if name = ''regml'' then (fn_regml P args rs, rs)
          else (text_function P name args, rs))"

section \<open>Variables\<close>

record environment =
  env_local_scopes :: "(string \<times> script_value) list list"
  env_globals :: "(string \<times> script_value) list"

definition env_new :: environment where
  "env_new = \<lparr>env_local_scopes = [[]], env_globals = []\<rparr>"

definition push_scope :: "environment \<Rightarrow> environment" where
  "push_scope e = e\<lparr>env_local_scopes := env_local_scopes e @ [[]]\<rparr>"

definition pop_scope :: "environment \<Rightarrow> environment outcome" where
  "pop_scope e =
     (if length (env_local_scopes e) > 1 then Returns (e\<lparr>env_local_scopes := butlast (env_local_scopes e)\<rparr>)
      else Panics ''cannot pop the root scope'')"

fun lookup_scopes :: "(string \<times> script_value) list list \<Rightarrow> string \<Rightarrow> script_value option" where
  "lookup_scopes [] name = None"
| "lookup_scopes (scope # scopes) name =
     (case hm_get scope name of Some v \<Rightarrow> Some v | None \<Rightarrow> lookup_scopes scopes name)"

definition get_local :: "environment \<Rightarrow> string \<Rightarrow> script_value option" where
  "get_local e name = lookup_scopes (rev (env_local_scopes e)) name"

definition set_local :: "string \<Rightarrow> script_value \<Rightarrow> environment \<Rightarrow> environment" where
  "set_local name v e =
     (case rev (env_local_scopes e) of
        [] \<Rightarrow> e
      | scope # outer \<Rightarrow> e\<lparr>env_local_scopes := rev (hm_insert name v scope # outer)\<rparr>)"

fun update_scopes :: "string \<Rightarrow> script_value \<Rightarrow> (string \<times> script_value) list list \<Rightarrow> (string \<times> script_value) list list option" where
  "update_scopes name v [] = None"
| "update_scopes name v (scope # scopes) =
     (if hm_get scope name \<noteq> None then Some (hm_insert name v scope # scopes)
      else map_option (\<lambda>ss. scope # ss) (update_scopes name v scopes))"

definition update_local :: "string \<Rightarrow> script_value \<Rightarrow> environment \<Rightarrow> environment" where
  "update_local name v e =
     (case update_scopes name v (rev (env_local_scopes e)) of
        Some ss \<Rightarrow> e\<lparr>env_local_scopes := rev ss\<rparr>
      | None \<Rightarrow> set_local name v e)"

definition get_global :: "environment \<Rightarrow> string \<Rightarrow> script_value option" where
  "get_global e name = hm_get (env_globals e) name"

definition set_global :: "string \<Rightarrow> script_value \<Rightarrow> environment \<Rightarrow> environment" where
  "set_global name v e = e\<lparr>env_globals := hm_insert name v (env_globals e)\<rparr>"

section \<open>Aliases\<close>

type_synonym alias_registry = "(string \<times> statement list) list"

definition alias_register :: "script_prims \<Rightarrow> alias_definition \<Rightarrow> alias_registry \<Rightarrow> alias_registry" where
  "alias_register P a r = hm_insert (to_lowercase P (ad_name a)) (ad_body a) r"

definition alias_get :: "script_prims \<Rightarrow> alias_registry \<Rightarrow> string \<Rightarrow> statement list option" where
  "alias_get P r name = hm_get r (to_lowercase P name)"

definition alias_contains :: "script_prims \<Rightarrow> alias_registry \<Rightarrow> string \<Rightarrow> bool" where
  "alias_contains P r name \<longleftrightarrow> hm_get r (to_lowercase P name) \<noteq> None"

definition alias_remove :: "script_prims \<Rightarrow> string \<Rightarrow> alias_registry \<Rightarrow> alias_registry" where
  "alias_remove P name r = hm_remove (to_lowercase P name) r"

end
