(* ===== verification/Script_Timers.thy ===== *)
theory Script_Timers
  imports Script_Values "HOL-Library.List_Lexorder" "HOL-Library.Char_ord"
begin

text \<open>
  The timer manager of the scripting engine: \<^verbatim>\<open>pirc-scripting/src/interpreter/timer.rs\<close>. An \<^verbatim>\<open>Instant\<close> and
  a \<^verbatim>\<open>Duration\<close> are numbers of nanoseconds; their sum panics when its seconds leave the signed 64 bits
  that the platform keeps. The properties follow one timer through a sequence of ticks.
\<close>

section \<open>Timers\<close>

record timer =
  tm_interval :: nat
  tm_remaining :: "nat option"
  tm_body :: "statement list"
  tm_next_fire :: nat

record fired_timer =
  ft_name :: string
  ft_body :: "statement list"

type_synonym timer_manager = "(string \<times> timer) list"

definition INSTANT_LIMIT :: nat where "INSTANT_LIMIT = 9223372036854775808 * 1000000000"

definition instant_add :: "nat \<Rightarrow> nat \<Rightarrow> nat outcome" where
  "instant_add t d =
     (if t + d < INSTANT_LIMIT then Returns (t + d) else Panics ''overflow when adding duration to instant'')"

definition timer_register ::
  "script_prims \<Rightarrow> string \<Rightarrow> nat \<Rightarrow> nat \<Rightarrow> statement list \<Rightarrow> nat \<Rightarrow> timer_manager \<Rightarrow> timer_manager outcome" where
  "timer_register P name interval repetitions body now m =
     (case instant_add now interval of
        Panics e \<Rightarrow> Panics e
      | Returns next \<Rightarrow>
          Returns (hm_insert (to_lowercase P name)
            \<lparr>tm_interval = interval, tm_remaining = (if repetitions = 0 then None else Some repetitions),
             tm_body = body, tm_next_fire = next\<rparr> m))"

definition timer_remove :: "script_prims \<Rightarrow> string \<Rightarrow> timer_manager \<Rightarrow> bool \<times> timer_manager" where
  "timer_remove P name m =
     (hm_get m (to_lowercase P name) \<noteq> None, hm_remove (to_lowercase P name) m)"

text \<open>
  One timer that is due: whether it is used up, and its new state. The decrement of the \<^verbatim>\<open>u64\<close> wraps.
\<close>

definition timer_fire :: "timer \<Rightarrow> (bool \<times> timer) outcome" where
  "timer_fire t =
     (let t' = t\<lparr>tm_remaining := map_option (\<lambda>n. (n + U64_MAX) mod (U64_MAX + 1)) (tm_remaining t)\<rparr> in
      if tm_remaining t' = Some 0 then Returns (True, t')
      else case instant_add (tm_next_fire t') (tm_interval t') of
        Panics e \<Rightarrow> Panics e
      | Returns next \<Rightarrow> Returns (False, t'\<lparr>tm_next_fire := next\<rparr>))"

text \<open>The loop of \<^verbatim>\<open>tick\<close>: the timers that fire, the table, and the names to remove.\<close>

fun tick_loop :: "nat \<Rightarrow> timer_manager \<Rightarrow> (fired_timer list \<times> timer_manager \<times> string list) outcome" where
  "tick_loop now [] = Returns ([], [], [])"
| "tick_loop now ((name, t) # m) =
     (if tm_next_fire t \<le> now
      then (case timer_fire t of
              Panics e \<Rightarrow> Panics e
            | Returns (gone, t') \<Rightarrow>
                (case tick_loop now m of
                   Panics e \<Rightarrow> Panics e
                 | Returns (fired, m', names) \<Rightarrow>
                     Returns (\<lparr>ft_name = name, ft_body = tm_body t\<rparr> # fired, (name, t') # m',
                       (if gone then [name] else []) @ names)))
      else (case tick_loop now m of
              Panics e \<Rightarrow> Panics e
            | Returns (fired, m', names) \<Rightarrow> Returns (fired, (name, t) # m', names)))"

definition tick :: "nat \<Rightarrow> timer_manager \<Rightarrow> (fired_timer list \<times> timer_manager) outcome" where
  "tick now m =
     (case tick_loop now m of
        Panics e \<Rightarrow> Panics e
      | Returns (fired, m', names) \<Rightarrow> Returns (fired, fold hm_remove names m'))"

definition timer_contains :: "script_prims \<Rightarrow> string \<Rightarrow> timer_manager \<Rightarrow> bool" where
  "timer_contains P name m \<longleftrightarrow> hm_get m (to_lowercase P name) \<noteq> None"

definition timer_info :: "script_prims \<Rightarrow> timer_manager \<Rightarrow> string list" where
  "timer_info P m =
     sort (map (\<lambda>(name, t). name @ '': interval='' @ duration_display P (tm_interval t) @ ''s, repetitions='' @
                  (case tm_remaining t of Some n \<Rightarrow> nat_to_string n | None \<Rightarrow> ''infinite'')) m)"

end
