(* ===== verification/Script_Interp.thy ===== *)
theory Script_Interp
  imports Script_Timers
begin

text \<open>
  The tree-walking interpreter of the scripting language: \<^verbatim>\<open>pirc-scripting/src/interpreter/mod.rs\<close>. The
  \<^verbatim>\<open>CommandHandler\<close> is the parameter \<open>H\<close>, a function on the state of the host that may return an error.
  Executing a statement recurses on the statement; the body of an alias is run by the parameter \<open>call\<close>,
  which \<open>exec_fuel\<close> ties with one unit of fuel for each alias call that is open.
\<close>

section \<open>The interpreter\<close>

abbreviation MAX_LOOP_ITERATIONS :: nat where "MAX_LOOP_ITERATIONS \<equiv> 100000"
abbreviation MAX_ALIAS_DEPTH :: nat where "MAX_ALIAS_DEPTH \<equiv> 100"

record 'h interpreter =
  in_env :: environment
  in_host :: 'h
  in_ctx :: builtin_context
  in_regex :: regex_state
  in_aliases :: "alias_registry option"
  in_echo :: "string list option"
  in_timers :: "timer_manager option"
  in_depth :: nat
  in_override :: "builtin_context option"

type_synonym 'h command_handler = "string \<Rightarrow> script_value list \<Rightarrow> 'h \<Rightarrow> runtime_error option \<times> 'h"

text \<open>An action returns with a value, an error or a panic; \<open>None\<close> is the end of the fuel.\<close>

type_synonym ('a, 'h) action = "'h interpreter \<Rightarrow> ('a run \<times> 'h interpreter) option"

definition with_context ::
  "environment \<Rightarrow> 'h \<Rightarrow> builtin_context \<Rightarrow> regex_state \<Rightarrow> 'h interpreter" where
  "with_context e h ctx rs =
     \<lparr>in_env = e, in_host = h, in_ctx = ctx, in_regex = rs, in_aliases = None, in_echo = None, in_timers = None,
      in_depth = 0, in_override = None\<rparr>"

definition effective_ctx :: "'h interpreter \<Rightarrow> builtin_context" where
  "effective_ctx s = (case in_override s of Some c \<Rightarrow> c | None \<Rightarrow> in_ctx s)"

section \<open>Expressions\<close>

text \<open>Of the state, evaluation reads the variables and the context and changes the captures.\<close>

type_synonym 'a evaluation = "regex_state \<Rightarrow> 'a run \<times> regex_state"

definition pure :: "'a run \<Rightarrow> 'a evaluation" where
  "pure r rs = (r, rs)"

definition ev_bind :: "'a evaluation \<Rightarrow> ('a \<Rightarrow> 'b evaluation) \<Rightarrow> 'b evaluation" where
  "ev_bind m k rs =
     (case m rs of (Val a, rs') \<Rightarrow> k a rs' | (Fail e, rs') \<Rightarrow> (Fail e, rs') | (Panic x, rs') \<Rightarrow> (Panic x, rs'))"

definition strict_op :: "script_prims \<Rightarrow> binary_op \<Rightarrow> script_value \<Rightarrow> script_value \<Rightarrow> script_value run" where
  "strict_op P b lv rv =
     (case b of
        Add \<Rightarrow> value_add P lv rv
      | Sub \<Rightarrow> value_sub P lv rv
      | Mul \<Rightarrow> value_mul P lv rv
      | Div \<Rightarrow> value_div P lv rv
      | Mod \<Rightarrow> value_modulo P lv rv
      | Eq \<Rightarrow> Val (VBool (value_equals P lv rv))
      | Neq \<Rightarrow> Val (VBool (\<not> value_equals P lv rv))
      | Lt \<Rightarrow> value_compare P [OrdLess] lv rv
      | Gt \<Rightarrow> value_compare P [OrdGreater] lv rv
      | Lte \<Rightarrow> value_compare P [OrdLess, OrdEqual] lv rv
      | Gte \<Rightarrow> value_compare P [OrdGreater, OrdEqual] lv rv
      | And \<Rightarrow> Panic ''internal error: entered unreachable code''
      | Or \<Rightarrow> Panic ''internal error: entered unreachable code'')"

definition eval_binary_op ::
  "script_prims \<Rightarrow> script_value evaluation \<Rightarrow> binary_op \<Rightarrow> script_value evaluation \<Rightarrow> script_value evaluation" where
  "eval_binary_op P left b right =
     (if b = And
      then ev_bind left (\<lambda>lv. if \<not> is_truthy P lv then pure (Val (VBool False))
             else ev_bind right (\<lambda>rv. pure (Val (VBool (is_truthy P rv)))))
      else if b = Or
      then ev_bind left (\<lambda>lv. if is_truthy P lv then pure (Val (VBool True))
             else ev_bind right (\<lambda>rv. pure (Val (VBool (is_truthy P rv)))))
      else ev_bind left (\<lambda>lv. ev_bind right (\<lambda>rv. pure (strict_op P b lv rv))))"

definition eval_unary_op :: "script_prims \<Rightarrow> unary_op \<Rightarrow> script_value evaluation \<Rightarrow> script_value evaluation" where
  "eval_unary_op P u operand =
     ev_bind operand (\<lambda>v. pure (case u of Not \<Rightarrow> Val (VBool (\<not> is_truthy P v)) | Neg \<Rightarrow> value_negate P v))"

fun eval_expr :: "script_prims \<Rightarrow> environment \<Rightarrow> builtin_context \<Rightarrow> expression \<Rightarrow> script_value evaluation"
  and eval_args :: "script_prims \<Rightarrow> environment \<Rightarrow> builtin_context \<Rightarrow> expression list \<Rightarrow> script_value list evaluation"
  and eval_parts :: "script_prims \<Rightarrow> environment \<Rightarrow> builtin_context \<Rightarrow> string_part list \<Rightarrow> string evaluation" where
  "eval_expr P e c (StringLiteral v sp) = pure (Val (VString v))"
| "eval_expr P e c (IntLiteral v sp) = pure (Val (VInt v))"
| "eval_expr P e c (NumberLiteral v sp) = pure (Val (VNumber v))"
| "eval_expr P e c (BoolLiteral v sp) = pure (Val (VBool v))"
| "eval_expr P e c (Variable name sp) =
     pure (case get_local e name of Some v \<Rightarrow> Val v | None \<Rightarrow> Fail (UndefinedVariable (CHR ''%'' # name)))"
| "eval_expr P e c (GlobalVariable name sp) = pure (Val (case get_global e name of Some v \<Rightarrow> v | None \<Rightarrow> VNull))"
| "eval_expr P e c (BuiltinId name sp) = pure (Val (context_resolve c name))"
| "eval_expr P e c (Identifier name sp) = pure (Val (VString name))"
| "eval_expr P e c (FunctionCall name as sp) = ev_bind (eval_args P e c as) (\<lambda>vs. call_function P name vs)"
| "eval_expr P e c (Interpolated ps sp) = ev_bind (eval_parts P e c ps) (\<lambda>s. pure (Val (VString s)))"
| "eval_expr P e c (Grouped x sp) = eval_expr P e c x"
| "eval_expr P e c (BinaryOp l b r sp) = eval_binary_op P (eval_expr P e c l) b (eval_expr P e c r)"
| "eval_expr P e c (UnaryOp u x sp) = eval_unary_op P u (eval_expr P e c x)"
| "eval_args P e c [] = pure (Val [])"
| "eval_args P e c (x # xs) = ev_bind (eval_expr P e c x) (\<lambda>v. ev_bind (eval_args P e c xs) (\<lambda>vs. pure (Val (v # vs))))"
| "eval_parts P e c [] = pure (Val [])"
| "eval_parts P e c (PartLiteral s # ps) = ev_bind (eval_parts P e c ps) (\<lambda>t. pure (Val (s @ t)))"
| "eval_parts P e c (PartExpr x # ps) =
     ev_bind (eval_expr P e c x) (\<lambda>v. ev_bind (eval_parts P e c ps) (\<lambda>t. pure (Val (value_display P v @ t))))"

section \<open>Actions\<close>

definition finish :: "'a run \<Rightarrow> ('a, 'h) action" where
  "finish r s = Some (r, s)"

definition seq :: "('a, 'h) action \<Rightarrow> ('a \<Rightarrow> ('b, 'h) action) \<Rightarrow> ('b, 'h) action" where
  "seq m k s =
     (case m s of
        None \<Rightarrow> None
      | Some (Val a, s') \<Rightarrow> k a s'
      | Some (Fail e, s') \<Rightarrow> Some (Fail e, s')
      | Some (Panic x, s') \<Rightarrow> Some (Panic x, s'))"

definition modify :: "('h interpreter \<Rightarrow> 'h interpreter) \<Rightarrow> (script_value, 'h) action" where
  "modify f s = Some (Val VNull, f s)"

definition eval_in ::
  "(environment \<Rightarrow> builtin_context \<Rightarrow> 'a evaluation) \<Rightarrow> ('a, 'h) action" where
  "eval_in ev s = (case ev (in_env s) (effective_ctx s) (in_regex s) of (r, rs) \<Rightarrow> Some (r, s\<lparr>in_regex := rs\<rparr>))"

text \<open>A body between \<^verbatim>\<open>push_scope\<close> and \<^verbatim>\<open>pop_scope\<close>; the result is handed on after the pop.\<close>

definition scoped :: "(script_value, 'h) action \<Rightarrow> (script_value, 'h) action" where
  "scoped body s =
     (case body (s\<lparr>in_env := push_scope (in_env s)\<rparr>) of
        None \<Rightarrow> None
      | Some (Panic x, s') \<Rightarrow> Some (Panic x, s')
      | Some (r, s') \<Rightarrow>
          (case pop_scope (in_env s') of
             Returns e \<Rightarrow> Some (r, s'\<lparr>in_env := e\<rparr>)
           | Panics x \<Rightarrow> Some (Panic x, s')))"

section \<open>Statements\<close>

definition exec_var_decl :: "script_prims \<Rightarrow> string \<Rightarrow> bool \<Rightarrow> expression \<Rightarrow> (script_value, 'h) action" where
  "exec_var_decl P name global expr =
     seq (eval_in (\<lambda>e c. eval_expr P e c expr))
       (\<lambda>v. modify (\<lambda>s. s\<lparr>in_env := (if global then set_global name v else set_local name v) (in_env s)\<rparr>))"

definition exec_set :: "script_prims \<Rightarrow> string \<Rightarrow> bool \<Rightarrow> expression \<Rightarrow> (script_value, 'h) action" where
  "exec_set P name global expr =
     seq (eval_in (\<lambda>e c. eval_expr P e c expr))
       (\<lambda>v. modify (\<lambda>s. s\<lparr>in_env :=
          (if global then set_global name v
           else if get_local (in_env s) name \<noteq> None then update_local name v
           else set_local name v) (in_env s)\<rparr>))"

definition exec_return :: "script_prims \<Rightarrow> expression option \<Rightarrow> (script_value, 'h) action" where
  "exec_return P expr =
     seq (case expr of Some x \<Rightarrow> eval_in (\<lambda>e c. eval_expr P e c x) | None \<Rightarrow> finish (Val VNull))
       (\<lambda>v. finish (Fail (ReturnSignal v)))"

text \<open>
  The loop of \<^verbatim>\<open>exec_while\<close> after \<open>n\<close> iterations. It is bounded, so it is a function whatever its
  condition and body do.
\<close>

function while_loop ::
  "script_prims \<Rightarrow> (script_value, 'h) action \<Rightarrow> (script_value, 'h) action \<Rightarrow> nat \<Rightarrow> (script_value, 'h) action" where
  "while_loop P cond body n s =
     (case cond s of
        None \<Rightarrow> None
      | Some (Fail e, s1) \<Rightarrow> Some (Fail e, s1)
      | Some (Panic x, s1) \<Rightarrow> Some (Panic x, s1)
      | Some (Val v, s1) \<Rightarrow>
          if \<not> is_truthy P v then Some (Val VNull, s1)
          else if n + 1 > MAX_LOOP_ITERATIONS then Some (Fail LoopLimit, s1)
          else (case scoped body s1 of
                  None \<Rightarrow> None
                | Some (Val _, s2) \<Rightarrow> while_loop P cond body (n + 1) s2
                | Some (Fail e, s2) \<Rightarrow>
                    if e = ContinueSignal then while_loop P cond body (n + 1) s2
                    else if e = BreakSignal then Some (Val VNull, s2)
                    else Some (Fail e, s2)
                | Some (Panic x, s2) \<Rightarrow> Some (Panic x, s2)))"
  by pat_completeness auto
termination by (relation "measure (\<lambda>(P, cond, body, n, s). MAX_LOOP_ITERATIONS - n)") auto

declare while_loop.simps [simp del]

section \<open>Commands\<close>

definition push_echo :: "string list \<Rightarrow> 'h interpreter \<Rightarrow> 'h interpreter" where
  "push_echo lines s = s\<lparr>in_echo := map_option (\<lambda>out. out @ lines) (in_echo s)\<rparr>"

definition remove_timer :: "script_prims \<Rightarrow> string \<Rightarrow> 'h interpreter \<Rightarrow> 'h interpreter" where
  "remove_timer P name s = s\<lparr>in_timers := map_option (\<lambda>m. snd (timer_remove P name m)) (in_timers s)\<rparr>"

definition join_args :: "script_prims \<Rightarrow> script_value list \<Rightarrow> string" where
  "join_args P args = join_str '' '' (map (value_display P) args)"

definition list_timers :: "script_prims \<Rightarrow> 'h interpreter \<Rightarrow> 'h interpreter" where
  "list_timers P s =
     (case in_timers s of
        None \<Rightarrow> s
      | Some m \<Rightarrow> push_echo (if timer_info P m = [] then [''No active timers''] else timer_info P m) s)"

definition try_builtin_command :: "script_prims \<Rightarrow> string \<Rightarrow> script_value list \<Rightarrow> (script_value, 'h) action option" where
  "try_builtin_command P name args =
     (let lower = to_lowercase P name in
      if lower = ''echo'' then Some (modify (push_echo [join_args P args]))
      else if lower = ''noop'' then Some (finish (Val VNull))
      else if lower = ''halt'' then Some (finish (Fail Halt))
      else if lower = ''timer''
      then (if length args \<ge> 2 \<and> value_display P (args ! 0) = ''-r''
            then Some (modify (remove_timer P (value_display P (args ! 1)))) else None)
      else if lower = ''timeoff''
      then Some (case args of [] \<Rightarrow> finish (Val VNull) | a # _ \<Rightarrow> modify (remove_timer P (value_display P a)))
      else if lower = ''timers'' then Some (modify (list_timers P))
      else None)"

definition handle_command :: "'h command_handler \<Rightarrow> string \<Rightarrow> script_value list \<Rightarrow> (script_value, 'h) action" where
  "handle_command H name args s =
     (case H name args (in_host s) of
        (None, h) \<Rightarrow> Some (Val VNull, s\<lparr>in_host := h\<rparr>)
      | (Some e, h) \<Rightarrow> Some (Fail e, s\<lparr>in_host := h\<rparr>))"

text \<open>\<^verbatim>\<open>exec_alias_call\<close>, where \<open>call\<close> runs the statements of the body.\<close>

definition exec_alias_call ::
  "script_prims \<Rightarrow> (script_value, 'h) action \<Rightarrow> script_value list \<Rightarrow> (script_value, 'h) action" where
  "exec_alias_call P body args s =
     (if in_depth s \<ge> MAX_ALIAS_DEPTH then Some (Fail AliasRecursionLimit, s)
      else case scoped body (s\<lparr>in_override := Some (set_event_text (join_args P args) (effective_ctx s)),
                               in_depth := in_depth s + 1\<rparr>) of
        None \<Rightarrow> None
      | Some (Panic x, s') \<Rightarrow> Some (Panic x, s')
      | Some (r, s') \<Rightarrow>
          Some (case r of Fail (ReturnSignal v) \<Rightarrow> Val VNull | Fail e \<Rightarrow> Fail e | _ \<Rightarrow> Val VNull,
            s'\<lparr>in_override := in_override s, in_depth := in_depth s\<rparr>))"

definition exec_command ::
  "script_prims \<Rightarrow> 'h command_handler \<Rightarrow> (statement list \<Rightarrow> (script_value, 'h) action) \<Rightarrow> string \<Rightarrow> expression list \<Rightarrow>
     (script_value, 'h) action" where
  "exec_command P H call name exprs =
     seq (eval_in (\<lambda>e c. eval_args P e c exprs))
       (\<lambda>args s.
          case in_aliases s of
            None \<Rightarrow> handle_command H name args s
          | Some aliases \<Rightarrow>
              (case try_builtin_command P name args of
                 Some act \<Rightarrow> act s
               | None \<Rightarrow>
                   (case alias_get P aliases name of
                      Some body \<Rightarrow> exec_alias_call P (call body) args s
                    | None \<Rightarrow> handle_command H name args s)))"

fun exec_stmt ::
  "script_prims \<Rightarrow> 'h command_handler \<Rightarrow> (statement list \<Rightarrow> (script_value, 'h) action) \<Rightarrow> statement \<Rightarrow> (script_value, 'h) action"
  and exec_stmts ::
  "script_prims \<Rightarrow> 'h command_handler \<Rightarrow> (statement list \<Rightarrow> (script_value, 'h) action) \<Rightarrow> statement list \<Rightarrow> script_value \<Rightarrow>
     (script_value, 'h) action"
  and exec_branches ::
  "script_prims \<Rightarrow> 'h command_handler \<Rightarrow> (statement list \<Rightarrow> (script_value, 'h) action) \<Rightarrow> elseif_branch list \<Rightarrow>
     (script_value, 'h) action \<Rightarrow> (script_value, 'h) action" where
  "exec_stmt P H call (VarDecl name global expr sp) = exec_var_decl P name global expr"
| "exec_stmt P H call (Set name global expr sp) = exec_set P name global expr"
| "exec_stmt P H call (If c body bs els sp) =
     seq (eval_in (\<lambda>e ctx. eval_expr P e ctx c))
       (\<lambda>v. if is_truthy P v then scoped (exec_stmts P H call body VNull)
            else exec_branches P H call bs
                   (case els of Some b \<Rightarrow> scoped (exec_stmts P H call b VNull) | None \<Rightarrow> finish (Val VNull)))"
| "exec_stmt P H call (While c body sp) =
     while_loop P (eval_in (\<lambda>e ctx. eval_expr P e ctx c)) (exec_stmts P H call body VNull) 0"
| "exec_stmt P H call (Return expr sp) = exec_return P expr"
| "exec_stmt P H call (Break sp) = finish (Fail BreakSignal)"
| "exec_stmt P H call (Continue sp) = finish (Fail ContinueSignal)"
| "exec_stmt P H call (ExprStatement expr sp) =
     seq (eval_in (\<lambda>e ctx. eval_expr P e ctx expr)) (\<lambda>_. finish (Val VNull))"
| "exec_stmt P H call (Command name args sp) = exec_command P H call name args"
| "exec_stmts P H call [] result = finish (Val result)"
| "exec_stmts P H call (st # sts) result = seq (exec_stmt P H call st) (\<lambda>v. exec_stmts P H call sts v)"
| "exec_branches P H call [] otherwise = otherwise"
| "exec_branches P H call (ElseIfBranch c body sp # bs) otherwise =
     seq (eval_in (\<lambda>e ctx. eval_expr P e ctx c))
       (\<lambda>v. if is_truthy P v then scoped (exec_stmts P H call body VNull)
            else exec_branches P H call bs otherwise)"

primrec exec_fuel :: "nat \<Rightarrow> script_prims \<Rightarrow> 'h command_handler \<Rightarrow> statement list \<Rightarrow> (script_value, 'h) action" where
  "exec_fuel 0 P H body = (\<lambda>s. None)"
| "exec_fuel (Suc n) P H body = exec_stmts P H (exec_fuel n P H) body VNull"

text \<open>Fuel for every alias call that the recursion limit allows, and for the body itself.\<close>

definition run_body :: "script_prims \<Rightarrow> 'h command_handler \<Rightarrow> statement list \<Rightarrow> (script_value, 'h) action" where
  "run_body P H body = exec_fuel (MAX_ALIAS_DEPTH + 1) P H body"

end
