(* ===== verification/Script_Execution.thy ===== *)
theory Script_Execution
  imports Script_Interp
begin

text \<open>
  What every run of the interpreter does: it returns, it leaves the scopes, the alias depth and the
  context as it found them, and it panics only where integer division overflows. \<open>does\<close> is a total
  correctness judgement on actions with one rule for each construct of the interpreter.
\<close>

named_theorems does_rule \<open>rules of the judgement on actions\<close>

section \<open>Evaluation\<close>

definition overflow_panics :: "string set" where
  "overflow_panics = {''attempt to divide with overflow'', ''attempt to calculate the remainder with overflow''}"

text \<open>The errors of an expression: never a control signal, a limit or an unknown command.\<close>

fun plain_error :: "runtime_error \<Rightarrow> bool" where
  "plain_error (TypeError m) = True"
| "plain_error (UndefinedVariable x) = True"
| "plain_error DivisionByZero = True"
| "plain_error (UnknownFunction f) = True"
| "plain_error _ = False"

definition plain_run :: "'a run \<Rightarrow> bool" where
  "plain_run r \<longleftrightarrow> (case r of Val v \<Rightarrow> True | Fail e \<Rightarrow> plain_error e | Panic x \<Rightarrow> x \<in> overflow_panics)"

lemma plain_simps [simp]: "plain_run (Val v)" "plain_run (Fail e) = plain_error e" "plain_run (Panic x) = (x \<in> overflow_panics)"
  by (simp_all add: plain_run_def)

lemma plain_run_map: "plain_run r \<Longrightarrow> (\<And>a. plain_run (f a)) \<Longrightarrow> plain_run (run_map f r)"
  by (cases r) (simp_all add: run_map_def)

lemma plain_to_i64 [simp]: "plain_run (to_i64 P v fn)"
  by (cases v) (simp_all add: to_i64_def split: option.split)

lemma plain_to_usize [simp]: "plain_run (to_usize P v fn)"
  by (simp add: to_usize_def plain_run_map)

lemma plain_if: "plain_run r \<Longrightarrow> plain_run r' \<Longrightarrow> plain_run (if b then r else r')"
  by simp

lemma plain_fns [simp]: "plain_run (fn_token P args)" "plain_run (fn_chr P args)" "plain_run (fn_asc P args)" "plain_run (fn_regml P args rs)"
  by (auto simp: fn_token_def fn_chr_def fn_asc_def fn_regml_def Let_def intro!: plain_run_map split: option.split list.split)

lemma plain_text_function: "plain_run (text_function P name args)"
  unfolding text_function_def Let_def
  by (intro plain_if plain_run_map plain_simps(1) plain_to_usize plain_fns)

lemma plain_call_function: "plain_run (fst (call_function P name args rs))"
  by (simp add: call_function_def fn_regex_def plain_text_function split: option.split sum.split)

lemma plain_type_error [simp]: "plain_run (type_error v a p b)"
  by (simp add: type_error_def)

lemma plain_arith [simp]:
  "plain_run (value_add P a b)" "plain_run (value_sub P a b)" "plain_run (value_mul P a b)" "plain_run (value_negate P a)"
  by (cases a; cases b; simp)+

lemma plain_division [simp]: "plain_run (value_div P a b)" "plain_run (value_modulo P a b)"
  by (cases a; cases b; simp add: overflow_panics_def)+

lemma plain_compare [simp]: "plain_run (value_compare P os a b)"
  by (cases a; cases b; simp add: value_compare_def f64_compare_def split: option.split)

lemma plain_strict_op: "b \<noteq> And \<Longrightarrow> b \<noteq> Or \<Longrightarrow> plain_run (strict_op P b lv rv)"
  by (cases b) (simp_all add: strict_op_def)

lemma plain_ev_bind: "(\<And>rs. plain_run (fst (m rs))) \<Longrightarrow> (\<And>a rs. plain_run (fst (k a rs))) \<Longrightarrow> plain_run (fst (ev_bind m k rs))"
proof -
  assume m: "\<And>rs. plain_run (fst (m rs))" and k: "\<And>a rs. plain_run (fst (k a rs))"
  obtain r rs' where "m rs = (r, rs')" by force
  then show ?thesis using m [of rs] k by (cases r) (simp_all add: ev_bind_def)
qed

lemma plain_eval:
  "plain_run (fst (eval_expr P e c x rs))"
  "plain_run (fst (eval_args P e c xs rs))"
  "plain_run (fst (eval_parts P e c ps rs))"
proof (induction P e c x and P e c xs and P e c ps arbitrary: rs and rs and rs
    rule: eval_expr_eval_args_eval_parts.induct)
  case (12 P e c l b r sp)
  then show ?case
    by (auto simp: eval_binary_op_def pure_def plain_strict_op intro!: plain_ev_bind)
next
  case (13 P e c u x sp)
  then show ?case
    by (auto simp: eval_unary_op_def pure_def intro!: plain_ev_bind split: unary_op.split)
qed (auto simp: pure_def plain_call_function intro!: plain_ev_bind split: option.split)

section \<open>A judgement on actions\<close>

abbreviation scope_count :: "'h interpreter \<Rightarrow> nat" where
  "scope_count s \<equiv> length (env_local_scopes (in_env s))"

text \<open>
  What a run keeps; timers may only be removed, and \<open>K\<close> is a property of the host that its commands keep.
\<close>

definition fewer_timers :: "timer_manager option \<Rightarrow> timer_manager option \<Rightarrow> bool" where
  "fewer_timers a b \<longleftrightarrow> (case a of None \<Rightarrow> b = None | Some m \<Rightarrow> (\<exists>m'. b = Some m' \<and> set m' \<subseteq> set m))"

definition frame :: "('h \<Rightarrow> bool) \<Rightarrow> 'h interpreter \<Rightarrow> 'h interpreter \<Rightarrow> bool" where
  "frame K s s' \<longleftrightarrow>
     scope_count s' = scope_count s \<and> in_ctx s' = in_ctx s \<and> in_aliases s' = in_aliases s \<and>
     in_depth s' = in_depth s \<and> in_override s' = in_override s \<and>
     (in_echo s' = None \<longleftrightarrow> in_echo s = None) \<and> fewer_timers (in_timers s) (in_timers s') \<and>
     (K (in_host s) \<longrightarrow> K (in_host s'))"

lemma fewer_timers_refl [simp]: "fewer_timers a a"
  by (simp add: fewer_timers_def split: option.split)

lemma fewer_timers_trans: "fewer_timers a b \<Longrightarrow> fewer_timers b c \<Longrightarrow> fewer_timers a c"
  by (auto simp: fewer_timers_def split: option.splits)

definition post :: "('h \<Rightarrow> bool) \<Rightarrow> (runtime_error \<Rightarrow> bool) \<Rightarrow> 'h interpreter \<Rightarrow> 'a run \<Rightarrow> 'h interpreter \<Rightarrow> bool" where
  "post K Q s r s' \<longleftrightarrow>
     (case r of Val v \<Rightarrow> frame K s s' | Fail e \<Rightarrow> Q e \<and> frame K s s' | Panic x \<Rightarrow> x \<in> overflow_panics)"

definition does :: "('h \<Rightarrow> bool) \<Rightarrow> alias_registry option \<Rightarrow> nat \<Rightarrow> (runtime_error \<Rightarrow> bool) \<Rightarrow> ('a, 'h) action \<Rightarrow> bool" where
  "does K al d Q m \<longleftrightarrow>
     (\<forall>s. in_aliases s = al \<longrightarrow> in_depth s = d \<longrightarrow> 0 < scope_count s \<longrightarrow>
        (\<exists>r s'. m s = Some (r, s') \<and> post K Q s r s'))"

lemma frame_refl [simp]: "frame K s s"
  by (simp add: frame_def)

lemma frame_trans: "frame K s s' \<Longrightarrow> frame K s' s'' \<Longrightarrow> frame K s s''"
  by (auto simp: frame_def intro: fewer_timers_trans)

lemma frame_regex [simp]: "frame K s (s'\<lparr>in_regex := rs\<rparr>) = frame K s s'"
  by (simp add: frame_def)

lemma post_simps [simp]:
  "post K Q s (Val v) s' = frame K s s'"
  "post K Q s (Fail e) s' = (Q e \<and> frame K s s')"
  "post K Q s (Panic x) s' = (x \<in> overflow_panics)"
  by (simp_all add: post_def)

lemma doesD:
  assumes "does K al d Q m" "in_aliases s = al" "in_depth s = d" "0 < scope_count s"
  obtains r s' where "m s = Some (r, s')" "post K Q s r s'"
  using assms by (auto simp: does_def)

lemma post_frame: "post K Q s' r s'' \<Longrightarrow> frame K s s' \<Longrightarrow> post K Q s r s''"
  by (cases r) (auto intro: frame_trans)

lemma does_weaken: "does K al d Q m \<Longrightarrow> (\<And>e. Q e \<Longrightarrow> Q' e) \<Longrightarrow> does K al d Q' m"
proof -
  assume m: "does K al d Q m" and Q: "\<And>e. Q e \<Longrightarrow> Q' e"
  have "post K Q' s r s'" if "post K Q s r s'" for s s' r using that Q by (cases r) auto
  then show ?thesis using m unfolding does_def by blast
qed

lemma does_finish [does_rule]:
  "does K al d Q (finish (Val v))"
  "Q e \<Longrightarrow> does K al d Q (finish (Fail e))"
  by (simp_all add: does_def finish_def)

lemma does_modify [does_rule]: "(\<And>s. 0 < scope_count s \<Longrightarrow> frame K s (f s)) \<Longrightarrow> does K al d Q (modify f)"
  by (simp add: does_def modify_def)

lemma does_seq [does_rule]:
  fixes m :: "('a, 'h) action"
  assumes m: "does K al d Q m" and k: "\<And>a. does K al d Q (k a)"
  shows "does K al d Q (seq m k)"
  unfolding does_def
proof (intro allI impI)
  fix s :: "'h interpreter" assume s: "in_aliases s = al" "in_depth s = d" "0 < scope_count s"
  obtain r s' where r: "m s = Some (r, s')" "post K Q s r s'" by (rule doesD [OF m s])
  show "\<exists>r s'. seq m k s = Some (r, s') \<and> post K Q s r s'"
  proof (cases r)
    case (Val a)
    with r s have f: "frame K s s'" and "in_aliases s' = al" "in_depth s' = d" "0 < scope_count s'"
      by (auto simp: frame_def)
    then obtain r2 s2 where "k a s' = Some (r2, s2)" "post K Q s' r2 s2" using doesD [OF k] by metis
    then show ?thesis using r Val f post_frame by (fastforce simp: seq_def)
  qed (use r in \<open>auto simp: seq_def\<close>)
qed

lemma does_evaluate [does_rule]:
  assumes "\<And>e c rs. plain_run (fst (ev e c rs))" "\<And>e. plain_error e \<Longrightarrow> Q e"
  shows "does K al d Q (eval_in ev :: ('a, 'h) action)"
  unfolding does_def
proof (intro allI impI)
  fix s :: "'h interpreter"
  obtain r rs where r: "ev (in_env s) (effective_ctx s) (in_regex s) = (r, rs)" by force
  then have "plain_run r" using assms(1) by (metis fst_conv)
  then have "post K Q s r (s\<lparr>in_regex := rs\<rparr>)" by (cases r) (simp_all add: assms(2))
  then show "\<exists>r s'. (eval_in ev :: ('a, 'h) action) s = Some (r, s') \<and> post K Q s r s'" by (simp add: eval_in_def r)
qed

lemma frame_pushed:
  assumes "frame K (s\<lparr>in_env := push_scope (in_env s)\<rparr>) s'" "0 < scope_count s"
  shows "\<exists>e. pop_scope (in_env s') = Returns e \<and> frame K s (s'\<lparr>in_env := e\<rparr>)"
  using assms by (auto simp: frame_def push_scope_def pop_scope_def)

lemma does_scoped [does_rule]:
  fixes body :: "(script_value, 'h) action"
  assumes "does K al d Q body"
  shows "does K al d Q (scoped body)"
  unfolding does_def
proof (intro allI impI)
  fix s :: "'h interpreter" assume s: "in_aliases s = al" "in_depth s = d" "0 < scope_count s"
  let ?p = "s\<lparr>in_env := push_scope (in_env s)\<rparr>"
  obtain r s' where r: "body ?p = Some (r, s')" "post K Q ?p r s'"
    by (rule doesD [OF assms, of ?p]) (use s in \<open>auto simp: push_scope_def\<close>)
  show "\<exists>r s'. scoped body s = Some (r, s') \<and> post K Q s r s'"
    using r frame_pushed [of K s s'] s by (cases r) (auto simp: scoped_def)
qed

abbreviation loop_error :: "(runtime_error \<Rightarrow> bool) \<Rightarrow> runtime_error \<Rightarrow> bool" where
  "loop_error Q \<equiv> \<lambda>e. e = BreakSignal \<or> e = ContinueSignal \<or> Q e"

lemma does_while_loop:
  fixes s :: "'h interpreter"
  assumes cond: "does K al d Q cond" and body: "does K al d (loop_error Q) body" and limit: "Q LoopLimit"
  shows "in_aliases s = al \<Longrightarrow> in_depth s = d \<Longrightarrow> 0 < scope_count s \<Longrightarrow>
    \<exists>r s'. while_loop P cond body n s = Some (r, s') \<and> post K Q s r s'"
proof (induction "MAX_LOOP_ITERATIONS - n" arbitrary: n s)
  fix n and s :: "'h interpreter"
  note unfold = while_loop.simps [of P cond body n s]
  assume 0: "0 = MAX_LOOP_ITERATIONS - n" and s: "in_aliases s = al" "in_depth s = d" "0 < scope_count s"
  obtain r s' where "cond s = Some (r, s')" "post K Q s r s'" by (rule doesD [OF cond s])
  then show "\<exists>r s'. while_loop P cond body n s = Some (r, s') \<and> post K Q s r s'"
    using 0 limit by (cases r) (auto simp: unfold)
next
  fix k n and s :: "'h interpreter"
  note unfold = while_loop.simps [of P cond body n s]
  assume IH: "\<And>m s. k = MAX_LOOP_ITERATIONS - m \<Longrightarrow> in_aliases s = al \<Longrightarrow> in_depth s = d \<Longrightarrow> 0 < scope_count s \<Longrightarrow>
      \<exists>r s'. while_loop P cond body m s = Some (r, s') \<and> post K Q s r s'"
    and k: "Suc k = MAX_LOOP_ITERATIONS - n" and s: "in_aliases s = al" "in_depth s = d" "0 < scope_count s"
  obtain r s1 where r: "cond s = Some (r, s1)" "post K Q s r s1" by (rule doesD [OF cond s])
  show "\<exists>r s'. while_loop P cond body n s = Some (r, s') \<and> post K Q s r s'"
  proof (cases "\<exists>v. r = Val v \<and> is_truthy P v")
    case False
    then show ?thesis using r by (cases r) (auto simp: unfold)
  next
    case True
    with r s have f: "frame K s s1" and s1: "in_aliases s1 = al" "in_depth s1 = d" "0 < scope_count s1"
      by (auto simp: frame_def)
    obtain r2 s2 where r2: "scoped body s1 = Some (r2, s2)" "post K (loop_error Q) s1 r2 s2"
      by (rule doesD [OF does_scoped [OF body] s1])
    have post2: "post K (loop_error Q) s r2 s2" using post_frame [OF r2(2) f] .
    have more: "\<exists>r s'. while_loop P cond body (n + 1) s2 = Some (r, s') \<and> post K Q s r s'" if "frame K s s2"
    proof -
      have "in_aliases s2 = al" "in_depth s2 = d" "0 < scope_count s2" "k = MAX_LOOP_ITERATIONS - (n + 1)"
        using that s k by (auto simp: frame_def)
      then obtain r s' where "while_loop P cond body (n + 1) s2 = Some (r, s')" "post K Q s2 r s'"
        using IH by blast
      then show ?thesis using post_frame [OF _ that] by blast
    qed
    show ?thesis using True r r2 post2 k more by (cases r2) (auto simp: unfold)
  qed
qed

lemma does_while [does_rule]:
  "does K al d Q cond \<Longrightarrow> does K al d (loop_error Q) body \<Longrightarrow> Q LoopLimit \<Longrightarrow> does K al d Q (while_loop P cond body n)"
  unfolding does_def [of K al d Q "while_loop P cond body n"] using does_while_loop by blast

section \<open>Statements and commands\<close>

lemma scopes_set_local [simp]: "length (env_local_scopes (set_local name v e)) = length (env_local_scopes e)"
  by (cases "rev (env_local_scopes e)")
    (auto simp: set_local_def dest: arg_cong [where f = length])

lemma length_update_scopes: "update_scopes name v ss = Some ss' \<Longrightarrow> length ss' = length ss"
  by (induction ss arbitrary: ss') (auto split: if_splits)

lemma scopes_update_local [simp]: "length (env_local_scopes (update_local name v e)) = length (env_local_scopes e)"
  by (auto simp: update_local_def dest: length_update_scopes split: option.split)

lemma scopes_set_global [simp]: "env_local_scopes (set_global name v e) = env_local_scopes e"
  by (simp add: set_global_def)

lemma frame_env: "length (env_local_scopes e) = scope_count s \<Longrightarrow> frame K s (s\<lparr>in_env := e\<rparr>)"
  by (simp add: frame_def)

lemma fewer_timers_remove: "fewer_timers a (map_option (\<lambda>m. snd (timer_remove P name m)) a)"
  by (auto simp: fewer_timers_def timer_remove_def AList.delete_eq split: option.split)

lemma frame_output [simp]:
  "frame K s (push_echo lines s)" "frame K s (remove_timer P name s)" "frame K s (list_timers P s)"
  by (auto simp: frame_def push_echo_def remove_timer_def list_timers_def fewer_timers_remove split: option.split)

text \<open>
  The errors that may leave a statement. In the strict reading the statement has passed the analysis, so
  that \<^verbatim>\<open>break\<close> and \<^verbatim>\<open>continue\<close> do not leave it unless it stands in a loop.
\<close>

definition allowed :: "bool \<Rightarrow> bool \<Rightarrow> runtime_error \<Rightarrow> bool" where
  "allowed strict in_loop e \<longleftrightarrow> (strict \<and> \<not> in_loop \<longrightarrow> e \<noteq> BreakSignal \<and> e \<noteq> ContinueSignal)"

fun stray_free :: "bool \<Rightarrow> statement \<Rightarrow> bool" and stray_free_branch :: "bool \<Rightarrow> elseif_branch \<Rightarrow> bool" where
  "stray_free l (If c b bs els sp) \<longleftrightarrow>
     (\<forall>st\<in>set b. stray_free l st) \<and> (\<forall>br\<in>set bs. stray_free_branch l br) \<and>
     (case els of None \<Rightarrow> True | Some b' \<Rightarrow> (\<forall>st\<in>set b'. stray_free l st))"
| "stray_free l (While c b sp) \<longleftrightarrow> (\<forall>st\<in>set b. stray_free True st)"
| "stray_free l (Break sp) \<longleftrightarrow> l"
| "stray_free l (Continue sp) \<longleftrightarrow> l"
| "stray_free l _ \<longleftrightarrow> True"
| "stray_free_branch l (ElseIfBranch c b sp) \<longleftrightarrow> (\<forall>st\<in>set b. stray_free l st)"

abbreviation body_ok :: "bool \<Rightarrow> bool \<Rightarrow> statement list \<Rightarrow> bool" where
  "body_ok strict l body \<equiv> strict \<longrightarrow> (\<forall>st\<in>set body. stray_free l st)"

definition aliases_ok :: "bool \<Rightarrow> alias_registry option \<Rightarrow> bool" where
  "aliases_ok strict al \<longleftrightarrow>
     (strict \<longrightarrow> (case al of None \<Rightarrow> True | Some r \<Rightarrow> (\<forall>(name, body)\<in>set r. \<forall>st\<in>set body. stray_free False st)))"

definition handler_ok :: "('h \<Rightarrow> bool) \<Rightarrow> bool \<Rightarrow> 'h command_handler \<Rightarrow> bool" where
  "handler_ok K strict H \<longleftrightarrow>
     (\<forall>name args h. K h \<longrightarrow> K (snd (H name args h))) \<and>
     (strict \<longrightarrow> (\<forall>name args h e. fst (H name args h) = Some e \<longrightarrow> e \<noteq> BreakSignal \<and> e \<noteq> ContinueSignal))"

lemma allowed_plain [simp]: "plain_error e \<Longrightarrow> allowed strict l e"
  by (auto simp: allowed_def)

lemma allowed_simps [simp]:
  "allowed strict l LoopLimit" "allowed strict l Halt" "allowed strict l AliasRecursionLimit"
  "allowed strict l (ReturnSignal v)" "allowed strict True e"
  by (simp_all add: allowed_def)

lemma does_eval [does_rule]:
  "does K al d (allowed strict l) (eval_in (\<lambda>e c. eval_expr P e c x))"
  "does K al d (allowed strict l) (eval_in (\<lambda>e c. eval_args P e c xs))"
  by (auto intro!: does_evaluate simp: plain_eval)

lemma does_builtin:
  "try_builtin_command P name args = Some act \<Longrightarrow> does K al d (allowed strict l) act"
  by (auto simp: try_builtin_command_def Let_def intro!: does_rule split: if_splits list.splits)

lemma does_handle_command:
  "handler_ok K strict (H :: 'h command_handler) \<Longrightarrow> does K al d (allowed strict l) (handle_command H name args)"
  unfolding does_def
proof (intro allI impI)
  fix s :: "'h interpreter"
  assume H: "handler_ok K strict H"
  obtain r h where r: "H name args (in_host s) = (r, h)" by force
  then have "K (in_host s) \<longrightarrow> K h" "\<forall>e. r = Some e \<longrightarrow> allowed strict l e"
    using H unfolding handler_ok_def allowed_def by (metis fst_conv snd_conv)+
  then show "\<exists>r s'. handle_command H name args s = Some (r, s') \<and> post K (allowed strict l) s r s'"
    by (cases r) (auto simp: handle_command_def r frame_def)
qed

lemma does_alias_call:
  fixes body :: "(script_value, 'h) action"
  assumes body: "d < MAX_ALIAS_DEPTH \<Longrightarrow> does K al (d + 1) (allowed strict False) body"
  shows "does K al d (allowed strict l) (exec_alias_call P body args)"
  unfolding does_def
proof (intro allI impI)
  fix s :: "'h interpreter" assume s: "in_aliases s = al" "in_depth s = d" "0 < scope_count s"
  show "\<exists>r s'. exec_alias_call P body args s = Some (r, s') \<and> post K (allowed strict l) s r s'"
  proof (cases "d < MAX_ALIAS_DEPTH")
    case False
    then show ?thesis using s by (simp add: exec_alias_call_def)
  next
    case True
    let ?s = "s\<lparr>in_override := Some (set_event_text (join_args P args) (effective_ctx s)), in_depth := in_depth s + 1\<rparr>"
    obtain r s' where r: "scoped body ?s = Some (r, s')" "post K (allowed strict False) ?s r s'"
      by (rule doesD [OF does_scoped [OF body [OF True]], of ?s]) (use s in auto)
    have restored: "frame K s (s'\<lparr>in_override := in_override s, in_depth := in_depth s\<rparr>)" if "frame K ?s s'"
      using that by (simp add: frame_def)
    show ?thesis using r s True restored
      by (cases r) (auto simp: exec_alias_call_def allowed_def split: runtime_error.split)
  qed
qed

definition call_ok ::
  "('h \<Rightarrow> bool) \<Rightarrow> bool \<Rightarrow> alias_registry option \<Rightarrow> nat \<Rightarrow> (statement list \<Rightarrow> (script_value, 'h) action) \<Rightarrow> bool" where
  "call_ok K strict al d call \<longleftrightarrow>
     (\<forall>body. d < MAX_ALIAS_DEPTH \<longrightarrow> body_ok strict False body \<longrightarrow> does K al (d + 1) (allowed strict False) (call body))"

lemma call_okD:
  "call_ok K strict al d call \<Longrightarrow> d < MAX_ALIAS_DEPTH \<Longrightarrow> body_ok strict False body \<Longrightarrow>
    does K al (d + 1) (allowed strict False) (call body)"
  by (simp add: call_ok_def)

lemma does_command:
  fixes call :: "statement list \<Rightarrow> (script_value, 'h) action"
  assumes H: "handler_ok K strict H" and al: "aliases_ok strict al"
    and calls: "call_ok K strict al d call"
  shows "does K al d (allowed strict l) (exec_command P H call name xs)"
  unfolding exec_command_def
proof (intro does_seq does_eval)
  fix args
  have body: "body_ok strict False body" if "al = Some r" "alias_get P r name = Some body" for r body
    using that al by (auto simp: aliases_ok_def alias_get_def dest!: map_of_SomeD)
  show "does K al d (allowed strict l)
     (\<lambda>s. case in_aliases s of
            None \<Rightarrow> handle_command H name args s
          | Some aliases \<Rightarrow>
              (case try_builtin_command P name args of
                 Some act \<Rightarrow> act s
               | None \<Rightarrow>
                   (case alias_get P aliases name of
                      Some body \<Rightarrow> exec_alias_call P (call body) args s
                    | None \<Rightarrow> handle_command H name args s)))" (is "does K al d ?Q ?m")
    unfolding does_def
  proof (intro allI impI)
    fix s :: "'h interpreter" assume s: "in_aliases s = al" "in_depth s = d" "0 < scope_count s"
    have host: "\<exists>r s'. handle_command H name args s = Some (r, s') \<and> post K ?Q s r s'"
      using does_handle_command [OF H, of al d l name args] s unfolding does_def by blast
    show "\<exists>r s'. ?m s = Some (r, s') \<and> post K ?Q s r s'"
    proof (cases al)
      case None
      then show ?thesis using host s by simp
    next
      case r: (Some r)
      show ?thesis
      proof (cases "try_builtin_command P name args :: (script_value, 'h) action option")
        case builtin: None
        show ?thesis
        proof (cases "alias_get P r name")
          case None
          then show ?thesis using host s r builtin by simp
        next
          case (Some code)
          have "does K al d ?Q (exec_alias_call P (call code) args)"
            by (rule does_alias_call, rule call_okD [OF calls]) (use body [OF r Some] in auto)
          then have "\<exists>r s'. exec_alias_call P (call code) args s = Some (r, s') \<and> post K ?Q s r s'"
            using s unfolding does_def by blast
          then show ?thesis using s r Some builtin by simp
        qed
      next
        case (Some act)
        have "\<exists>r s'. act s = Some (r, s') \<and> post K ?Q s r s'"
          using does_builtin [OF Some, of K al d strict l] s unfolding does_def by blast
        then show ?thesis using s r Some by simp
      qed
    qed
  qed
qed

text \<open>Every statement, given that the bodies of aliases behave one level deeper.\<close>

lemma does_exec:
  fixes call :: "statement list \<Rightarrow> (script_value, 'h) action"
  assumes H: "handler_ok K strict H" and al: "aliases_ok strict al"
    and calls: "call_ok K strict al d call"
  shows "strict \<longrightarrow> stray_free l st \<Longrightarrow> does K al d (allowed strict l) (exec_stmt P H call st)"
    and "body_ok strict l sts \<Longrightarrow> does K al d (allowed strict l) (exec_stmts P H call sts v)"
    and "(strict \<longrightarrow> (\<forall>br\<in>set bs. stray_free_branch l br)) \<Longrightarrow> does K al d (allowed strict l) other \<Longrightarrow>
      does K al d (allowed strict l) (exec_branches P H call bs other)"
  using H calls
proof (induction P H call st and P H call sts v and P H call bs other arbitrary: l and l and l
    rule: exec_stmt_exec_stmts_exec_branches.induct)
  case (3 P H call c body bs els sp)
  have els: "does K al d (allowed strict l)
      (case els of Some b \<Rightarrow> scoped (exec_stmts P H call b VNull) | None \<Rightarrow> finish (Val VNull))"
    using 3(2) [of VNull] 3(4-) by (cases els) (auto intro!: does_rule)
  show ?case using 3 els by (auto intro!: does_rule)
next
  case (4 P H call c body sp)
  have "does K al d (allowed strict True) (exec_stmts P H call body VNull)" using 4 by auto
  then have "does K al d (loop_error (allowed strict l)) (exec_stmts P H call body VNull)"
    by (rule does_weaken) (auto simp: allowed_def)
  then show ?case by (auto intro!: does_rule)
next
  case (9 P H call name args sp)
  then show ?case using al by (simp add: does_command)
qed (auto simp: exec_var_decl_def exec_set_def exec_return_def allowed_def
    intro!: does_rule frame_env split: option.split)

section \<open>Fuel\<close>

text \<open>A unit of fuel for every alias call that may still be opened, and one for the body, is enough.\<close>

lemma does_exec_fuel:
  assumes "handler_ok K strict H" "aliases_ok strict al"
  shows "body_ok strict False body \<Longrightarrow> 0 < n \<Longrightarrow> MAX_ALIAS_DEPTH < n + d \<Longrightarrow>
    does K al d (allowed strict False) (exec_fuel n P H body)"
proof (induction n arbitrary: body d)
  case (Suc n)
  have "call_ok K strict al d (exec_fuel n P H)" using Suc.IH [of _ "d + 1"] Suc.prems by (simp add: call_ok_def)
  then show ?case using does_exec(2) [OF assms _ Suc.prems(1)] by simp
qed simp

definition extends :: "('a, 'h) action \<Rightarrow> ('a, 'h) action \<Rightarrow> bool" where
  "extends m m' \<longleftrightarrow> (\<forall>s x. m s = Some x \<longrightarrow> m' s = Some x)"

named_theorems extends_rule \<open>constructs that are monotone in their fuel\<close>

lemma extends_refl [simp, extends_rule]: "extends m m"
  by (simp add: extends_def)

lemma extends_seq [extends_rule]:
  "extends m m' \<Longrightarrow> (\<And>a. extends (k a) (k' a)) \<Longrightarrow> extends (seq m k) (seq m' k')"
  by (fastforce simp: extends_def seq_def split: option.splits prod.splits run.splits)

lemma extends_scoped [extends_rule]: "extends m m' \<Longrightarrow> extends (scoped m) (scoped m')"
  by (fastforce simp: extends_def scoped_def split: option.splits prod.splits)

lemma extends_alias_call [extends_rule]:
  "extends m m' \<Longrightarrow> extends (exec_alias_call P m args) (exec_alias_call P m' args)"
  using extends_scoped [of m m'] unfolding extends_def exec_alias_call_def
  by (auto split: option.splits prod.splits if_splits)

lemma extends_while [extends_rule]:
  assumes "extends m m'"
  shows "extends (while_loop P cond m n) (while_loop P cond m' n)"
proof -
  have "while_loop P cond m n s = Some x \<Longrightarrow> while_loop P cond m' n s = Some x" for s x
    using assms
  proof (induction P cond m n s rule: while_loop.induct)
    case (1 P cond m n s)
    note left = while_loop.simps [of P cond m n s] and right = while_loop.simps [of P cond m' n s]
    show ?case
    proof (cases "\<exists>v s1. cond s = Some (Val v, s1) \<and> is_truthy P v \<and> n + 1 \<le> MAX_LOOP_ITERATIONS")
      case False
      then show ?thesis using "1.prems" unfolding left right
        by (cases "cond s") (auto split: run.splits if_splits)
    next
      case True
      then obtain v s1 where c: "cond s = Some (Val v, s1)" "is_truthy P v" "\<not> n + 1 > MAX_LOOP_ITERATIONS" by auto
      then obtain r s2 where r: "scoped m s1 = Some (r, s2)"
        using "1.prems" unfolding left by (cases "scoped m s1") auto
      then have r': "scoped m' s1 = Some (r, s2)" using extends_scoped [OF "1.prems"(2)] by (simp add: extends_def)
      show ?thesis using "1.prems" "1.IH" c r r' unfolding left right by (cases r) (auto split: if_splits)
    qed
  qed
  then show ?thesis by (simp add: extends_def)
qed

lemma extends_command [extends_rule]:
  assumes "\<And>b. extends (call b) (call' b)"
  shows "extends (exec_command P H call name xs) (exec_command P H call' name xs)"
  unfolding exec_command_def
proof (rule extends_seq)
  fix args
  show "extends
     (\<lambda>s. case in_aliases s of
            None \<Rightarrow> handle_command H name args s
          | Some aliases \<Rightarrow>
              (case try_builtin_command P name args of
                 Some act \<Rightarrow> act s
               | None \<Rightarrow>
                   (case alias_get P aliases name of
                      Some body \<Rightarrow> exec_alias_call P (call body) args s
                    | None \<Rightarrow> handle_command H name args s)))
     (\<lambda>s. case in_aliases s of
            None \<Rightarrow> handle_command H name args s
          | Some aliases \<Rightarrow>
              (case try_builtin_command P name args of
                 Some act \<Rightarrow> act s
               | None \<Rightarrow>
                   (case alias_get P aliases name of
                      Some body \<Rightarrow> exec_alias_call P (call' body) args s
                    | None \<Rightarrow> handle_command H name args s)))"
    using extends_alias_call [OF assms, of P _ args] by (auto simp: extends_def split: option.splits)
qed simp

lemma extends_exec:
  fixes call :: "statement list \<Rightarrow> (script_value, 'h) action"
  assumes "\<forall>b. extends (call b) (call' b)"
  shows "extends (exec_stmt P H call st) (exec_stmt P H call' st)"
    and "extends (exec_stmts P H call sts v) (exec_stmts P H call' sts v)"
    and "extends other other' \<Longrightarrow> extends (exec_branches P H call bs other) (exec_branches P H call' bs other')"
  using assms
proof (induction P H call st and P H call sts v and P H call bs other arbitrary: and and other'
    rule: exec_stmt_exec_stmts_exec_branches.induct)
  case (3 P H call c body bs els sp)
  have els: "extends (case els of Some b \<Rightarrow> scoped (exec_stmts P H call b VNull) | None \<Rightarrow> finish (Val VNull))
      (case els of Some b \<Rightarrow> scoped (exec_stmts P H call' b VNull) | None \<Rightarrow> finish (Val VNull))"
    using 3(2) [of VNull] 3(4-) by (cases els) (auto intro!: extends_rule)
  show ?case using 3 els by (auto intro!: extends_rule)
qed (auto intro!: extends_rule)

lemma exec_fuel_mono: "extends (exec_fuel n P H body) (exec_fuel (n + k) P H body)"
proof (induction n arbitrary: body)
  case 0
  then show ?case by (simp add: extends_def)
next
  case (Suc n)
  then have "\<forall>b. extends (exec_fuel n P H b) (exec_fuel (n + k) P H b)" by blast
  then show ?case by (simp add: extends_exec(2))
qed

lemma exec_fuel_agree:
  assumes "exec_fuel n P H body s = Some x" "exec_fuel m P H body s = Some y"
  shows "x = y"
proof -
  have "exec_fuel (n + m) P H body s = Some x" "exec_fuel (n + m) P H body s = Some y"
    using assms exec_fuel_mono [of n P H body m] exec_fuel_mono [of m P H body n]
    unfolding extends_def add.commute [of m n] by blast+
  then show ?thesis by simp
qed

lemma handler_ok_lenient [simp]: "handler_ok (\<lambda>_. True) False H" "aliases_ok False al"
  by (simp_all add: handler_ok_def aliases_ok_def)

section \<open>An instance\<close>

text \<open>Primitives and an interpreter on which the properties are instantiated.\<close>

definition script_sample :: script_prims where
  "script_sample =
     \<lparr>f64_of_int = of_int, f64_to_int = sint, f64_add = (+), f64_sub = (-), f64_mul = (*), f64_div = (\<lambda>a b. a),
      f64_rem = (\<lambda>a b. 0), f64_neg = uminus, f64_eq = (=), f64_cmp = (\<lambda>a b. None), f64_display = (\<lambda>a. []),
      to_lowercase = to_ascii_lowercase, to_uppercase = id, regex_captures = (\<lambda>p s. Ok None), f64_max = (\<lambda>a b. a),
      f64_to_u64 = unat, duration_from_secs = (\<lambda>x. Some (unat x)), duration_display = nat_to_string\<rparr>"

definition sample_interp :: "alias_registry \<Rightarrow> unit interpreter" where
  "sample_interp al = (with_context env_new () context_new [])\<lparr>in_aliases := Some al, in_echo := Some []\<rparr>"

definition no_command :: "unit command_handler" where
  "no_command name args h = (Some (UnknownCommand name), h)"

abbreviation no_sp :: span where "no_sp \<equiv> \<lparr>sp_offset = 0, sp_length = 0\<rparr>"

lemma sample_interp_scopes [simp]: "scope_count (sample_interp al) = 1"
  by (simp add: sample_interp_def with_context_def env_new_def)

text \<open>The division that overflows: \<^verbatim>\<open>(-9223372036854775807 - 1) / -1\<close>.\<close>

definition min_int_div :: "statement list" where
  "min_int_div =
     [ExprStatement (BinaryOp (Grouped (BinaryOp (UnaryOp Neg (IntLiteral I64_MAX no_sp) no_sp) Sub
          (IntLiteral 1 no_sp) no_sp) no_sp) Div (UnaryOp Neg (IntLiteral 1 no_sp) no_sp) no_sp) no_sp]"

lemmas run_simps = exec_fuel.simps seq_def eval_in_def ev_bind_def pure_def finish_def
  eval_binary_op_def eval_unary_op_def strict_op_def

lemma division_overflow_panics:
  "run_body P H min_int_div s = Some (Panic ''attempt to divide with overflow'', s)"
  by (simp add: run_body_def min_int_div_def run_simps wrap64_def numeral_nat(1) eval_nat_numeral)

section \<open>Properties\<close>

text \<open>
  C27. Every body of statements that the interpreter is given finishes, whatever the script, the aliases
  it calls (recursively or not), its loops and the command handler do: there is one result that every
  amount of fuel beyond the alias limit computes, and \<open>run_body\<close> has that amount.
\<close>

theorem script_terminates:
  assumes "0 < scope_count s"
  shows "\<exists>r s'. run_body P H body s = Some (r, s') \<and>
    (\<forall>n>MAX_ALIAS_DEPTH - in_depth s. exec_fuel n P H body s = Some (r, s'))"
proof -
  let ?al = "in_aliases s" and ?d = "in_depth s"
  have total: "\<exists>x. exec_fuel n P H body s = Some x" if "MAX_ALIAS_DEPTH - ?d < n" for n
  proof -
    have "does (\<lambda>_. True) ?al ?d (allowed False False) (exec_fuel n P H body)" using that by (intro does_exec_fuel) auto
    then show ?thesis using assms unfolding does_def by blast
  qed
  then obtain r s' where r: "run_body P H body s = Some (r, s')"
    using total [of "MAX_ALIAS_DEPTH + 1"] unfolding run_body_def by (metis diff_le_self le_imp_less_Suc surj_pair add.commute plus_1_eq_Suc)
  moreover have "exec_fuel n P H body s = Some (r, s')" if "MAX_ALIAS_DEPTH - ?d < n" for n
    using total [OF that] r exec_fuel_agree unfolding run_body_def by blast
  ultimately show ?thesis by blast
qed

theorem script_terminates_witness:
  "\<exists>r s'. run_body script_sample no_command [Command ''again'' [] no_sp]
      (sample_interp [(''again'', [While (BoolLiteral True no_sp) [Command ''again'' [] no_sp] no_sp])]) = Some (r, s')"
  using script_terminates [of "sample_interp [(''again'', [While (BoolLiteral True no_sp) [Command ''again'' [] no_sp] no_sp])]"
      script_sample no_command "[Command ''again'' [] no_sp]"]
  by auto

text \<open>
  C28. A run leaves the interpreter as it found it, on success and on every error: as many scopes, the
  same alias depth, context and aliases; the root scope is never popped. The only panics are the
  overflows of integer division.
\<close>

theorem interpreter_restores:
  assumes "0 < scope_count s" "run_body P H body s = Some (r, s')"
  shows "case r of
      Panic x \<Rightarrow> x \<in> overflow_panics
    | _ \<Rightarrow> scope_count s' = scope_count s \<and> in_depth s' = in_depth s \<and> in_override s' = in_override s \<and>
        in_ctx s' = in_ctx s \<and> in_aliases s' = in_aliases s"
proof -
  have "does (\<lambda>_. True) (in_aliases s) (in_depth s) (allowed False False) (run_body P H body)"
    unfolding run_body_def by (intro does_exec_fuel) auto
  then have "post (\<lambda>_. True) (allowed False False) s r s'" using assms by (auto simp: does_def)
  then show ?thesis by (cases r) (auto simp: frame_def)
qed

theorem interpreter_restores_witness:
  "\<exists>s'. run_body script_sample no_command
      [If (BoolLiteral True no_sp) [VarDecl ''x'' False (IntLiteral 1 no_sp) no_sp, Command ''halt'' [] no_sp] [] None no_sp]
      (sample_interp []) = Some (Fail Halt, s') \<and> scope_count s' = 1"
proof -
  let ?body = "[If (BoolLiteral True no_sp) [VarDecl ''x'' False (IntLiteral 1 no_sp) no_sp, Command ''halt'' [] no_sp] [] None no_sp]"
  have "\<exists>s'. run_body script_sample no_command ?body (sample_interp []) = Some (Fail Halt, s')"
    by (simp add: run_body_def run_simps sample_interp_def script_sample_def with_context_def scoped_def push_scope_def
        pop_scope_def env_new_def exec_var_decl_def set_local_def modify_def exec_command_def try_builtin_command_def
        to_ascii_lowercase_def ascii_lower_def eval_nat_numeral)
  then obtain s' where s': "run_body script_sample no_command ?body (sample_interp []) = Some (Fail Halt, s')" ..
  then show ?thesis using interpreter_restores [OF _ s'] by auto
qed

end
