(* ===== verification/Script_Semantic.thy ===== *)
theory Script_Semantic
  imports Script_Execution
begin

text \<open>
  Semantic analysis of a parsed script: \<^verbatim>\<open>pirc-scripting/src/semantic.rs\<close> and the semantic errors and
  warnings of \<^verbatim>\<open>error.rs\<close>. The analyzer appends to a list of errors and a list of warnings while it
  walks the statements with the set of local variables declared so far. A body without errors
  has no stray \<^verbatim>\<open>break\<close> or \<^verbatim>\<open>continue\<close>, which is what the interpreter relies on.
\<close>

section \<open>Diagnostics\<close>

datatype semantic_error =
    SemUndefinedVariable string span source_location
  | SemDuplicateDefinition string span source_location
  | BreakOutsideLoop string span source_location

datatype semantic_warning =
    UndeclaredLocal string span source_location
  | WarnUnknownBuiltin string span source_location
  | WarnDuplicateDefinition string span source_location
  | UnrecognizedEventType string span source_location

definition location_display :: "source_location \<Rightarrow> string" where
  "location_display l = nat_to_string (loc_line l) @ '':'' @ nat_to_string (loc_column l)"

fun semantic_error_display :: "semantic_error \<Rightarrow> string" where
  "semantic_error_display (SemUndefinedVariable name sp l) =
     ''undefined variable '' @ [CHR 0x27] @ ''%'' @ name @ [CHR 0x27] @ '' at '' @ location_display l"
| "semantic_error_display (SemDuplicateDefinition name sp l) =
     ''duplicate definition '' @ [CHR 0x27] @ name @ [CHR 0x27] @ '' at '' @ location_display l"
| "semantic_error_display (BreakOutsideLoop keyword' sp l) = keyword' @ '' outside of loop at '' @ location_display l"

record semantic_result =
  sr_errors :: "semantic_error list"
  sr_warnings :: "semantic_warning list"

definition has_errors :: "semantic_result \<Rightarrow> bool" where
  "has_errors r \<longleftrightarrow> sr_errors r \<noteq> []"

definition warn :: "semantic_warning list \<Rightarrow> semantic_result \<Rightarrow> semantic_result" where
  "warn ws r = r\<lparr>sr_warnings := sr_warnings r @ ws\<rparr>"

definition KNOWN_BUILTINS :: "string list" where
  "KNOWN_BUILTINS =
     [''nick'', ''chan'', ''me'', ''server'', ''time'', ''date'', ''address'', ''target'', ''text'', ''host'', ''site'',
      ''fulladdress'', ''network'', ''port'', ''ip'', ''version'', ''os'', ''idle'', ''online'', ''away'', ''null'',
      ''true'', ''false'', ''cr'', ''lf'', ''crlf'', ''tab'', ''1'', ''2'', ''3'', ''4'', ''5'', ''6'', ''7'', ''8'', ''9'', ''0'']"

section \<open>Expressions\<close>

definition check_builtin :: "string \<Rightarrow> string \<Rightarrow> span \<Rightarrow> semantic_warning list" where
  "check_builtin source name sp =
     (if name \<in> set KNOWN_BUILTINS then []
      else [WarnUnknownBuiltin name sp (location_from_offset source (sp_offset sp))])"

fun analyze_expression :: "string \<Rightarrow> string set \<Rightarrow> expression \<Rightarrow> semantic_warning list"
  and analyze_expressions :: "string \<Rightarrow> string set \<Rightarrow> expression list \<Rightarrow> semantic_warning list"
  and analyze_parts :: "string \<Rightarrow> string set \<Rightarrow> string_part list \<Rightarrow> semantic_warning list" where
  "analyze_expression source locals (Variable name sp) =
     (if name \<in> locals then [] else [UndeclaredLocal name sp (location_from_offset source (sp_offset sp))])"
| "analyze_expression source locals (BuiltinId name sp) = check_builtin source name sp"
| "analyze_expression source locals (FunctionCall name args sp) =
     check_builtin source name sp @ analyze_expressions source locals args"
| "analyze_expression source locals (BinaryOp l b r sp) =
     analyze_expression source locals l @ analyze_expression source locals r"
| "analyze_expression source locals (UnaryOp u x sp) = analyze_expression source locals x"
| "analyze_expression source locals (Grouped x sp) = analyze_expression source locals x"
| "analyze_expression source locals (Interpolated ps sp) = analyze_parts source locals ps"
| "analyze_expression source locals (GlobalVariable name sp) = []"
| "analyze_expression source locals (StringLiteral v sp) = []"
| "analyze_expression source locals (NumberLiteral x sp) = []"
| "analyze_expression source locals (IntLiteral n sp) = []"
| "analyze_expression source locals (BoolLiteral b sp) = []"
| "analyze_expression source locals (Identifier name sp) = []"
| "analyze_expressions source locals [] = []"
| "analyze_expressions source locals (x # xs) = analyze_expression source locals x @ analyze_expressions source locals xs"
| "analyze_parts source locals [] = []"
| "analyze_parts source locals (PartLiteral s # ps) = analyze_parts source locals ps"
| "analyze_parts source locals (PartExpr x # ps) = analyze_expression source locals x @ analyze_parts source locals ps"

section \<open>Statements\<close>

definition stray :: "string \<Rightarrow> bool \<Rightarrow> string \<Rightarrow> span \<Rightarrow> semantic_result \<Rightarrow> semantic_result" where
  "stray source in_loop keyword' sp r =
     (if in_loop then r
      else r\<lparr>sr_errors := sr_errors r @ [BreakOutsideLoop keyword' sp (location_from_offset source (sp_offset sp))]\<rparr>)"

fun analyze_statement ::
  "string \<Rightarrow> bool \<Rightarrow> statement \<Rightarrow> string set \<times> semantic_result \<Rightarrow> string set \<times> semantic_result"
  and analyze_body ::
  "string \<Rightarrow> bool \<Rightarrow> statement list \<Rightarrow> string set \<times> semantic_result \<Rightarrow> string set \<times> semantic_result"
  and analyze_branches ::
  "string \<Rightarrow> bool \<Rightarrow> elseif_branch list \<Rightarrow> string set \<times> semantic_result \<Rightarrow> string set \<times> semantic_result" where
  "analyze_statement source l (VarDecl name global x sp) (locals, r) =
     (if global then locals else insert name locals, warn (analyze_expression source locals x) r)"
| "analyze_statement source l (Set name global x sp) (locals, r) =
     (if global then locals else insert name locals, warn (analyze_expression source locals x) r)"
| "analyze_statement source l (If c body bs els sp) (locals, r) =
     (let st = analyze_branches source l bs
                 (analyze_body source l body (locals, warn (analyze_expression source locals c) r)) in
      case els of Some b \<Rightarrow> analyze_body source l b st | None \<Rightarrow> st)"
| "analyze_statement source l (While c body sp) (locals, r) =
     analyze_body source True body (locals, warn (analyze_expression source locals c) r)"
| "analyze_statement source l (Break sp) (locals, r) = (locals, stray source l ''break'' sp r)"
| "analyze_statement source l (Continue sp) (locals, r) = (locals, stray source l ''continue'' sp r)"
| "analyze_statement source l (Return x sp) (locals, r) =
     (locals, warn (case x of Some v \<Rightarrow> analyze_expression source locals v | None \<Rightarrow> []) r)"
| "analyze_statement source l (Command name args sp) (locals, r) =
     (locals, warn (analyze_expressions source locals args) r)"
| "analyze_statement source l (ExprStatement x sp) (locals, r) =
     (locals, warn (analyze_expression source locals x) r)"
| "analyze_body source l [] st = st"
| "analyze_body source l (s # ss) st = analyze_body source l ss (analyze_statement source l s st)"
| "analyze_branches source l [] st = st"
| "analyze_branches source l (ElseIfBranch c body sp # bs) (locals, r) =
     analyze_branches source l bs (analyze_body source l body (locals, warn (analyze_expression source locals c) r))"

section \<open>Scripts\<close>

definition event_debug :: "event_type \<Rightarrow> string" where
  "event_debug t =
     (case t of EvText \<Rightarrow> ''Text'' | EvJoin \<Rightarrow> ''Join'' | EvPart \<Rightarrow> ''Part'' | EvKick \<Rightarrow> ''Kick'' | EvQuit \<Rightarrow> ''Quit''
      | EvConnect \<Rightarrow> ''Connect'' | EvDisconnect \<Rightarrow> ''Disconnect'' | EvInvite \<Rightarrow> ''Invite'' | EvNotice \<Rightarrow> ''Notice''
      | EvNick \<Rightarrow> ''Nick'' | EvTopic \<Rightarrow> ''Topic'' | EvMode \<Rightarrow> ''Mode'' | EvCtcp \<Rightarrow> ''Ctcp'' | EvAction \<Rightarrow> ''Action''
      | EvNumeric \<Rightarrow> ''Numeric'')"

text \<open>The two maps of \<^verbatim>\<open>check_duplicates\<close> hold the names seen so far.\<close>

fun duplicates :: "string \<Rightarrow> string set \<Rightarrow> string set \<Rightarrow> top_level_item list \<Rightarrow> semantic_warning list" where
  "duplicates source names keys [] = []"
| "duplicates source names keys (TopAlias a # items) =
     (if ad_name a \<in> names
      then WarnDuplicateDefinition (ad_name a) (ad_span a) (location_from_offset source (sp_offset (ad_span a)))
             # duplicates source names keys items
      else duplicates source (insert (ad_name a) names) keys items)"
| "duplicates source names keys (TopEvent e # items) =
     (let key = event_debug (eh_event_type e) @ '':'' @ eh_pattern e in
      if key \<in> keys
      then WarnDuplicateDefinition key (eh_span e) (location_from_offset source (sp_offset (eh_span e)))
             # duplicates source names keys items
      else duplicates source names (insert key keys) items)"
| "duplicates source names keys (TopTimer t # items) = duplicates source names keys items"

definition analyze_item :: "string \<Rightarrow> top_level_item \<Rightarrow> semantic_result \<Rightarrow> semantic_result" where
  "analyze_item source item r =
     snd (case item of
            TopAlias a \<Rightarrow> analyze_body source False (ad_body a) ({}, r)
          | TopEvent e \<Rightarrow> analyze_body source False (eh_body e) ({}, r)
          | TopTimer t \<Rightarrow>
              analyze_body source False (td_body t)
                ({}, warn (analyze_expression source {} (td_interval t) @ analyze_expression source {} (td_repetitions t)) r))"

definition analyze :: "string \<Rightarrow> script \<Rightarrow> semantic_result" where
  "analyze source s =
     fold (analyze_item source) (sc_items s) (warn (duplicates source {} {} (sc_items s)) \<lparr>sr_errors = [], sr_warnings = []\<rparr>)"

section \<open>What a script without errors guarantees\<close>

abbreviation errors :: "string set \<times> semantic_result \<Rightarrow> semantic_error list" where
  "errors st \<equiv> sr_errors (snd st)"

lemma errors_warn [simp]: "sr_errors (warn ws r) = sr_errors r"
  by (simp add: warn_def)

text \<open>Errors only accumulate, and a statement that adds none has no stray jump.\<close>

lemma analyze_no_errors:
  "errors (analyze_statement source l s st) = [] \<Longrightarrow> errors st = [] \<and> stray_free l s"
  "errors (analyze_body source l ss st) = [] \<Longrightarrow> errors st = [] \<and> (\<forall>s\<in>set ss. stray_free l s)"
  "errors (analyze_branches source l bs st) = [] \<Longrightarrow> errors st = [] \<and> (\<forall>b\<in>set bs. stray_free_branch l b)"
proof (induction source l s st and source l ss st and source l bs st
    rule: analyze_statement_analyze_body_analyze_branches.induct)
  case (3 source l c body bs els sp locals r)
  then show ?case by (cases els) (auto simp: Let_def)
qed (auto simp: stray_def split: if_splits)

definition item_body :: "top_level_item \<Rightarrow> statement list" where
  "item_body item = (case item of TopAlias a \<Rightarrow> ad_body a | TopEvent e \<Rightarrow> eh_body e | TopTimer t \<Rightarrow> td_body t)"

lemma analyze_item_no_errors:
  "sr_errors (analyze_item source item r) = [] \<Longrightarrow> sr_errors r = [] \<and> body_ok True False (item_body item)"
  by (cases item) (auto simp: analyze_item_def item_body_def dest!: analyze_no_errors(2))

lemma analyze_sound:
  assumes "\<not> has_errors (analyze source s)" "item \<in> set (sc_items s)"
  shows "body_ok True False (item_body item)"
proof -
  have "sr_errors (fold (analyze_item source) items r) = [] \<Longrightarrow>
      sr_errors r = [] \<and> (\<forall>i\<in>set items. body_ok True False (item_body i))" for items r
    by (induction items arbitrary: r) (auto dest!: analyze_item_no_errors)
  then show ?thesis using assms by (auto simp: has_errors_def analyze_def)
qed

end
