(* ===== verification/Script_Engine.thy ===== *)
theory Script_Engine
  imports Script_Semantic Script_Parsing Glob
begin

text \<open>
  The event dispatcher and the engine: \<^verbatim>\<open>pirc-scripting/src/interpreter/event.rs\<close>, \<^verbatim>\<open>engine/mod.rs\<close> and
  \<^verbatim>\<open>execute_fired\<close> of \<^verbatim>\<open>timer.rs\<close>. The \<^verbatim>\<open>ScriptHost\<close> is a record of functions on the state of the host. A
  file that the engine reads is its name with its contents or the error of reading it.
\<close>

section \<open>Event contexts\<close>

record event_context =
  ec_event_type :: "event_type option"
  ec_nick :: "string option"
  ec_channel :: "string option"
  ec_text :: "string option"
  ec_raw_params :: "string option"
  ec_me :: "string option"
  ec_server :: "string option"
  ec_target :: "string option"

definition set_if :: "string \<Rightarrow> string option \<Rightarrow> builtin_context \<Rightarrow> builtin_context" where
  "set_if name v c = (case v of Some x \<Rightarrow> context_set name (VString x) c | None \<Rightarrow> c)"

definition or_else :: "'a option \<Rightarrow> 'a option \<Rightarrow> 'a option" where
  "or_else a b = (case a of Some x \<Rightarrow> Some x | None \<Rightarrow> b)"

definition or_empty :: "string option \<Rightarrow> string" where
  "or_empty a = (case a of Some x \<Rightarrow> x | None \<Rightarrow> [])"

definition apply_to_context :: "event_context \<Rightarrow> builtin_context \<Rightarrow> builtin_context" where
  "apply_to_context e c =
     set_event_text (or_empty (or_else (ec_raw_params e) (ec_text e)))
       (set_if ''target'' (ec_target e) (set_if ''server'' (ec_server e) (set_if ''me'' (ec_me e)
         (set_if ''chan'' (ec_channel e) (set_if ''nick'' (ec_nick e) c)))))"

definition to_builtin_context :: "event_context \<Rightarrow> builtin_context" where
  "to_builtin_context e = apply_to_context e context_new"

section \<open>The dispatcher\<close>

record handler_entry =
  he_pattern :: string
  he_body :: "statement list"
  he_source :: "string option"

type_synonym event_dispatcher = "(event_type \<times> handler_entry list) list"

definition register_with_source ::
  "script_prims \<Rightarrow> event_handler \<Rightarrow> string option \<Rightarrow> event_dispatcher \<Rightarrow> event_dispatcher" where
  "register_with_source P h source d =
     (let entry = \<lparr>he_pattern = to_lowercase P (eh_pattern h), he_body = eh_body h, he_source = source\<rparr>;
          old = (case hm_get d (eh_event_type h) of Some hs \<Rightarrow> hs | None \<Rightarrow> []) in
      hm_insert (eh_event_type h) (old @ [entry]) d)"

definition remove_by_source :: "string \<Rightarrow> event_dispatcher \<Rightarrow> event_dispatcher" where
  "remove_by_source source d =
     hm_retain (\<lambda>_ hs. hs \<noteq> []) (hm_map_values (filter (\<lambda>h. he_source h \<noteq> Some source)) d)"

definition handler_count :: "event_dispatcher \<Rightarrow> nat" where
  "handler_count d = sum_list (map (\<lambda>(t, hs). length hs) d)"

definition event_glob_match :: "string \<Rightarrow> string \<Rightarrow> bool" where
  "event_glob_match pattern text' = glob_accepts 63 42 (utf8_chars pattern) (utf8_chars text')"

definition match_text_for :: "event_type \<Rightarrow> event_context \<Rightarrow> string" where
  "match_text_for t c =
     or_empty
       (if t \<in> {EvText, EvNotice, EvAction, EvCtcp} then or_else (ec_text c) (ec_channel c)
        else if t \<in> {EvJoin, EvPart, EvKick, EvTopic, EvMode, EvInvite} then ec_channel c
        else if t \<in> {EvNick, EvQuit} then ec_nick c
        else if t = EvNumeric then or_else (ec_raw_params c) (ec_text c)
        else ec_server c)"

text \<open>What the runs of one dispatch share: the variables, the host, the captures, the echo buffer, the timers.\<close>

record 'h shared =
  sh_env :: environment
  sh_host :: 'h
  sh_regex :: regex_state
  sh_echo :: "string list option"
  sh_timers :: "timer_manager option"

definition interp_of :: "alias_registry option \<Rightarrow> builtin_context \<Rightarrow> 'h shared \<Rightarrow> 'h interpreter" where
  "interp_of aliases ctx st =
     (with_context (sh_env st) (sh_host st) ctx (sh_regex st))
       \<lparr>in_echo := sh_echo st, in_aliases := aliases, in_timers := sh_timers st\<rparr>"

definition shared_of :: "'h interpreter \<Rightarrow> 'h shared" where
  "shared_of i =
     \<lparr>sh_env = in_env i, sh_host = in_host i, sh_regex = in_regex i, sh_echo = in_echo i, sh_timers = in_timers i\<rparr>"

text \<open>
  A body run by a new interpreter between \<^verbatim>\<open>push_scope\<close> and \<^verbatim>\<open>pop_scope\<close>: the error that is not a \<^verbatim>\<open>return\<close>, if
  any. The fuel of \<open>run_body\<close> never runs out.
\<close>

definition run_scoped ::
  "script_prims \<Rightarrow> 'h command_handler \<Rightarrow> alias_registry option \<Rightarrow> builtin_context \<Rightarrow> statement list \<Rightarrow> 'h shared \<Rightarrow>
     (runtime_error option \<times> 'h shared) outcome" where
  "run_scoped P H aliases ctx body st =
     (case scoped (run_body P H body) (interp_of aliases ctx st) of
        None \<Rightarrow> Panics ''out of fuel''
      | Some (Panic x, i) \<Rightarrow> Panics x
      | Some (Val v, i) \<Rightarrow> Returns (None, shared_of i)
      | Some (Fail e, i) \<Rightarrow> Returns (case e of ReturnSignal v \<Rightarrow> None | _ \<Rightarrow> Some e, shared_of i))"

fun dispatch_loop ::
  "script_prims \<Rightarrow> 'h command_handler \<Rightarrow> alias_registry option \<Rightarrow> builtin_context \<Rightarrow> string \<Rightarrow> handler_entry list \<Rightarrow>
     'h shared \<Rightarrow> (runtime_error option \<times> 'h shared) outcome" where
  "dispatch_loop P H aliases ctx text' [] st = Returns (None, st)"
| "dispatch_loop P H aliases ctx text' (h # hs) st =
     (if \<not> event_glob_match (he_pattern h) (to_lowercase P text') then dispatch_loop P H aliases ctx text' hs st
      else case run_scoped P H aliases ctx (he_body h) st of
        Panics x \<Rightarrow> Panics x
      | Returns (Some e, st') \<Rightarrow> Returns (Some e, st')
      | Returns (None, st') \<Rightarrow> dispatch_loop P H aliases ctx text' hs st')"

definition dispatch_full ::
  "script_prims \<Rightarrow> 'h command_handler \<Rightarrow> event_dispatcher \<Rightarrow> event_type \<Rightarrow> event_context \<Rightarrow> builtin_context option \<Rightarrow>
     alias_registry option \<Rightarrow> 'h shared \<Rightarrow> (runtime_error option \<times> 'h shared) outcome" where
  "dispatch_full P H d t context base aliases st =
     (case hm_get d t of
        None \<Rightarrow> Returns (None, st)
      | Some handlers \<Rightarrow>
          dispatch_loop P H aliases
            (case base of Some b \<Rightarrow> apply_to_context context b | None \<Rightarrow> to_builtin_context context)
            (match_text_for t context) handlers st)"

text \<open>\<^verbatim>\<open>TimerManager::execute_fired\<close>.\<close>

definition execute_fired ::
  "script_prims \<Rightarrow> 'h command_handler \<Rightarrow> fired_timer \<Rightarrow> builtin_context \<Rightarrow> environment \<Rightarrow> 'h \<Rightarrow> regex_state \<Rightarrow>
     (runtime_error option \<times> 'h shared) outcome" where
  "execute_fired P H fired ctx e h rs =
     run_scoped P H None ctx (ft_body fired)
       \<lparr>sh_env = e, sh_host = h, sh_regex = rs, sh_echo = None, sh_timers = None\<rparr>"

section \<open>The engine\<close>

record loaded_script =
  ls_source :: string
  ls_aliases :: "string list"
  ls_timers :: "string list"

record script_engine =
  en_env :: environment
  en_events :: event_dispatcher
  en_aliases :: alias_registry
  en_timers :: timer_manager
  en_ctx :: builtin_context
  en_regex :: regex_state
  en_scripts :: "(string \<times> loaded_script) list"

definition engine_new :: script_engine where
  "engine_new =
     \<lparr>en_env = env_new, en_events = [], en_aliases = [], en_timers = [], en_ctx = context_new, en_regex = [],
      en_scripts = []\<rparr>"

datatype load_error =
    LoadLex string lex_error
  | LoadParse string parse_error
  | LoadSemantic string "string list"
  | LoadIo string string

record script_runtime_error =
  se_error :: runtime_error
  se_filename :: "string option"
  se_context :: string

record 'h script_host =
  ho_command :: "'h command_handler"
  ho_nick :: "'h \<Rightarrow> string"
  ho_server :: "'h \<Rightarrow> string option"
  ho_channel :: "'h \<Rightarrow> string option"
  ho_port :: "'h \<Rightarrow> nat"
  ho_echo :: "string \<Rightarrow> 'h \<Rightarrow> 'h"
  ho_report_error :: "script_runtime_error \<Rightarrow> 'h \<Rightarrow> 'h"

subsection \<open>Loading\<close>

definition unload_script :: "script_prims \<Rightarrow> string \<Rightarrow> script_engine \<Rightarrow> script_engine" where
  "unload_script P filename en =
     (case hm_get (en_scripts en) filename of
        None \<Rightarrow> en
      | Some loaded \<Rightarrow>
          en\<lparr>en_scripts := hm_remove filename (en_scripts en),
             en_aliases := fold (alias_remove P) (ls_aliases loaded) (en_aliases en),
             en_events := remove_by_source filename (en_events en),
             en_timers := fold (\<lambda>name m. snd (timer_remove P name m)) (ls_timers loaded) (en_timers en)\<rparr>)"

definition eval_const_expr :: "script_prims \<Rightarrow> expression \<Rightarrow> f64" where
  "eval_const_expr P x =
     (case x of IntLiteral n sp \<Rightarrow> f64_of_int P n | NumberLiteral v sp \<Rightarrow> v | _ \<Rightarrow> f64_zero)"

text \<open>The bits of the \<^verbatim>\<open>f64\<close> 0.1.\<close>

abbreviation f64_tenth :: f64 where "f64_tenth \<equiv> 0x3FB999999999999A"

definition register_timer ::
  "script_prims \<Rightarrow> timer_definition \<Rightarrow> nat \<Rightarrow> timer_manager \<Rightarrow> timer_manager outcome" where
  "register_timer P t now m =
     (let interval_secs = eval_const_expr P (td_interval t);
          repetitions = eval_const_expr P (td_repetitions t);
          reps = (if f64_cmp P repetitions f64_zero \<in> {Some OrdLess, Some OrdEqual} then 0
                  else f64_to_u64 P repetitions) in
      case duration_from_secs P (f64_max P interval_secs f64_tenth) of
        None \<Rightarrow> Panics ''cannot convert float seconds to Duration''
      | Some duration \<Rightarrow> timer_register P (td_name t) duration reps (td_body t) now m)"

fun register_items ::
  "script_prims \<Rightarrow> string \<Rightarrow> nat \<Rightarrow> top_level_item list \<Rightarrow> loaded_script \<Rightarrow> script_engine \<Rightarrow>
     (loaded_script \<times> script_engine) outcome" where
  "register_items P filename now [] loaded en = Returns (loaded, en)"
| "register_items P filename now (TopAlias a # items) loaded en =
     register_items P filename now items
       (loaded\<lparr>ls_aliases := ls_aliases loaded @ [to_lowercase P (ad_name a)]\<rparr>)
       (en\<lparr>en_aliases := alias_register P a (en_aliases en)\<rparr>)"
| "register_items P filename now (TopEvent e # items) loaded en =
     register_items P filename now items loaded
       (en\<lparr>en_events := register_with_source P e (Some filename) (en_events en)\<rparr>)"
| "register_items P filename now (TopTimer t # items) loaded en =
     (case register_timer P t now (en_timers en) of
        Panics x \<Rightarrow> Panics x
      | Returns m \<Rightarrow>
          register_items P filename now items
            (loaded\<lparr>ls_timers := ls_timers loaded @ [to_lowercase P (td_name t)]\<rparr>) (en\<lparr>en_timers := m\<rparr>))"

type_synonym load_result = "load_error + semantic_warning list"

definition install_script ::
  "script_prims \<Rightarrow> string \<Rightarrow> string \<Rightarrow> nat \<Rightarrow> script \<Rightarrow> script_engine \<Rightarrow> (load_result \<times> script_engine) outcome" where
  "install_script P source filename now s en =
     (let result = analyze source s in
      if has_errors result
      then Returns (Err (LoadSemantic filename (map semantic_error_display (sr_errors result))), en)
      else case register_items P filename now (sc_items s) \<lparr>ls_source = source, ls_aliases = [], ls_timers = []\<rparr> en of
        Panics x \<Rightarrow> Panics x
      | Returns (loaded, en') \<Rightarrow>
          Returns (Ok (sr_warnings result), en'\<lparr>en_scripts := hm_insert filename loaded (en_scripts en')\<rparr>))"

definition load_script ::
  "script_prims \<Rightarrow> (string \<Rightarrow> string + f64) \<Rightarrow> string \<Rightarrow> string \<Rightarrow> nat \<Rightarrow> script_engine \<Rightarrow>
     (load_result \<times> script_engine) outcome" where
  "load_script P parse_f64 source filename now en0 =
     (let en = (if hm_get (en_scripts en0) filename \<noteq> None then unload_script P filename en0 else en0) in
      case tokenize parse_f64 source of
        Err e \<Rightarrow> Returns (Err (LoadLex filename e), en)
      | Ok tokens \<Rightarrow>
          (case parse_script source tokens of
             Failed e \<Rightarrow> Returns (Err (LoadParse filename e), en)
           | Crashed \<Rightarrow> Panics ''index out of bounds''
           | Exhausted \<Rightarrow> Panics ''out of fuel''
           | Parsed s rest \<Rightarrow> install_script P source filename now s en))"

definition load_script_file ::
  "script_prims \<Rightarrow> (string \<Rightarrow> string + f64) \<Rightarrow> string \<Rightarrow> string + string \<Rightarrow> nat \<Rightarrow> script_engine \<Rightarrow>
     (load_result \<times> script_engine) outcome" where
  "load_script_file P parse_f64 filename contents now en =
     (case contents of
        Err e \<Rightarrow> Returns (Err (LoadIo filename e), en)
      | Ok source \<Rightarrow> load_script P parse_f64 source filename now en)"

text \<open>\<^verbatim>\<open>load_scripts_dir\<close> on the files of a directory, which are read when their turn comes.\<close>

definition is_script_file :: "string \<Rightarrow> bool" where
  "is_script_file name \<longleftrightarrow> ends_with name ''.pirc'' \<and> name \<noteq> ''.pirc''"

fun load_files ::
  "script_prims \<Rightarrow> (string \<Rightarrow> string + f64) \<Rightarrow> nat \<Rightarrow> (string \<times> (string + string)) list \<Rightarrow> script_engine \<Rightarrow>
     ((string \<times> load_result) list \<times> script_engine) outcome" where
  "load_files P parse_f64 now [] en = Returns ([], en)"
| "load_files P parse_f64 now ((name, contents) # files) en =
     (case load_script_file P parse_f64 name contents now en of
        Panics x \<Rightarrow> Panics x
      | Returns (r, en') \<Rightarrow>
          (case load_files P parse_f64 now files en' of
             Panics x \<Rightarrow> Panics x
           | Returns (rs, en'') \<Rightarrow> Returns ((name, r) # rs, en'')))"

definition load_scripts_dir ::
  "script_prims \<Rightarrow> (string \<Rightarrow> string + f64) \<Rightarrow> string \<Rightarrow> string + (string \<times> (string + string)) list \<Rightarrow> nat \<Rightarrow> script_engine \<Rightarrow>
     ((string \<times> load_result) list \<times> script_engine) outcome" where
  "load_scripts_dir P parse_f64 dir entries now en =
     (case entries of
        Err e \<Rightarrow> Returns ([(dir, Err (LoadIo dir e))], en)
      | Ok files \<Rightarrow> load_files P parse_f64 now (sort_key fst (filter (\<lambda>f. is_script_file (fst f)) files)) en)"

definition reload_script ::
  "script_prims \<Rightarrow> (string \<Rightarrow> string + f64) \<Rightarrow> string \<Rightarrow> nat \<Rightarrow> script_engine \<Rightarrow> (load_result \<times> script_engine) outcome" where
  "reload_script P parse_f64 filename now en =
     (case hm_get (en_scripts en) filename of
        None \<Rightarrow> Returns (Err (LoadIo filename ''script not loaded''), en)
      | Some loaded \<Rightarrow> load_script P parse_f64 (ls_source loaded) filename now en)"

subsection \<open>Running\<close>

definition sync_builtins_from_host :: "'h script_host \<Rightarrow> 'h \<Rightarrow> script_engine \<Rightarrow> script_engine" where
  "sync_builtins_from_host S h en =
     en\<lparr>en_ctx := context_set ''port'' (VInt (int (ho_port S h)))
          (set_if ''chan'' (ho_channel S h) (set_if ''server'' (ho_server S h)
            (context_set ''me'' (VString (ho_nick S h)) (en_ctx en))))\<rparr>"

definition shared_state :: "script_engine \<Rightarrow> 'h \<Rightarrow> 'h shared" where
  "shared_state en h =
     \<lparr>sh_env = en_env en, sh_host = h, sh_regex = en_regex en, sh_echo = Some [], sh_timers = Some (en_timers en)\<rparr>"

text \<open>
  After a run: the engine gets its variables, captures and timers back; the echo buffer goes to the host,
  then the error is reported.
\<close>

definition conclude ::
  "'h script_host \<Rightarrow> string \<Rightarrow> script_engine \<Rightarrow> runtime_error option \<times> 'h shared \<Rightarrow> script_engine \<times> 'h" where
  "conclude S context en res =
     (case res of (err, st) \<Rightarrow>
        let h = fold (ho_echo S) (case sh_echo st of Some lines \<Rightarrow> lines | None \<Rightarrow> []) (sh_host st) in
        (en\<lparr>en_env := sh_env st, en_regex := sh_regex st,
            en_timers := (case sh_timers st of Some m \<Rightarrow> m | None \<Rightarrow> en_timers en)\<rparr>,
         case err of
           None \<Rightarrow> h
         | Some e \<Rightarrow> ho_report_error S \<lparr>se_error = e, se_filename = None, se_context = context\<rparr> h))"

definition dispatch_event ::
  "script_prims \<Rightarrow> 'h script_host \<Rightarrow> event_type \<Rightarrow> event_context \<Rightarrow> script_engine \<Rightarrow> 'h \<Rightarrow> (script_engine \<times> 'h) outcome" where
  "dispatch_event P S t context en0 h =
     (let en = sync_builtins_from_host S h en0 in
      case dispatch_full P (ho_command S) (en_events en) t context (Some (en_ctx en)) (Some (en_aliases en)) (shared_state en h) of
        Panics x \<Rightarrow> Panics x
      | Returns res \<Rightarrow> Returns (conclude S ''event handler'' en res))"

definition execute_alias ::
  "script_prims \<Rightarrow> 'h script_host \<Rightarrow> string \<Rightarrow> string \<Rightarrow> script_engine \<Rightarrow> 'h \<Rightarrow> (bool \<times> script_engine \<times> 'h) outcome" where
  "execute_alias P S name args en0 h =
     (case alias_get P (en_aliases en0) name of
        None \<Rightarrow> Returns (False, en0, h)
      | Some body \<Rightarrow>
          (let en = sync_builtins_from_host S h en0 in
           case run_scoped P (ho_command S) (Some (en_aliases en)) (set_event_text args (en_ctx en)) body (shared_state en h) of
             Panics x \<Rightarrow> Panics x
           | Returns res \<Rightarrow> Returns (True, conclude S (''alias '' @ [CHR 0x27] @ name @ [CHR 0x27]) en res)))"

definition split_once_whitespace :: "string \<Rightarrow> (string \<times> string) option" where
  "split_once_whitespace s =
     (let chars = str_chars s; name = takeWhile (\<lambda>ch. ch \<notin> set whitespace_seqs) chars in
      if length name = length chars then None else Some (concat name, concat (drop (length name + 1) chars)))"

definition execute_command ::
  "script_prims \<Rightarrow> 'h script_host \<Rightarrow> string \<Rightarrow> script_engine \<Rightarrow> 'h \<Rightarrow> (bool \<times> script_engine \<times> 'h) outcome" where
  "execute_command P S input en h =
     (let line = trim input in
      if line = [] then Returns (False, en, h)
      else case split_once_whitespace line of
        Some (name, args) \<Rightarrow> execute_alias P S name (trim args) en h
      | None \<Rightarrow> execute_alias P S line [] en h)"

fun run_fired ::
  "script_prims \<Rightarrow> 'h script_host \<Rightarrow> fired_timer list \<Rightarrow> script_engine \<Rightarrow> 'h \<Rightarrow> (script_engine \<times> 'h) outcome" where
  "run_fired P S [] en h = Returns (en, h)"
| "run_fired P S (t # ts) en h =
     (case run_scoped P (ho_command S) (Some (en_aliases en)) (en_ctx en) (ft_body t) (shared_state en h) of
        Panics x \<Rightarrow> Panics x
      | Returns res \<Rightarrow>
          (case conclude S (''timer '' @ [CHR 0x27] @ ft_name t @ [CHR 0x27]) en res of
             (en', h') \<Rightarrow> run_fired P S ts en' h'))"

definition tick_timers ::
  "script_prims \<Rightarrow> 'h script_host \<Rightarrow> nat \<Rightarrow> script_engine \<Rightarrow> 'h \<Rightarrow> (script_engine \<times> 'h) outcome" where
  "tick_timers P S now en0 h =
     (let en = sync_builtins_from_host S h en0 in
      case tick now (en_timers en) of
        Panics x \<Rightarrow> Panics x
      | Returns (fired, m) \<Rightarrow> run_fired P S fired (en\<lparr>en_timers := m\<rparr>) h)"

definition list_aliases :: "script_engine \<Rightarrow> string list" where
  "list_aliases en = sort (map fst (en_aliases en))"

definition list_timer_names :: "script_engine \<Rightarrow> string list" where
  "list_timer_names en = sort (map fst (en_timers en))"

definition list_scripts :: "script_engine \<Rightarrow> string list" where
  "list_scripts en = sort (map fst (en_scripts en))"

definition set_builtin :: "string \<Rightarrow> script_value \<Rightarrow> script_engine \<Rightarrow> script_engine" where
  "set_builtin name v en = en\<lparr>en_ctx := context_set name v (en_ctx en)\<rparr>"

end
