(* ===== verification/Script_Safety.thy ===== *)
theory Script_Safety
  imports Script_Engine
begin

text \<open>
  Sessions of the scripting engine: sequences of its public operations. The engine keeps the invariant
  that every body it has registered passed the analysis and that only the root scope is left between
  operations; hence what it reports to the host are errors of the script, never the signals by which
  the interpreter implements its control flow.
\<close>

section \<open>Runs\<close>

fun control_signal :: "runtime_error \<Rightarrow> bool" where
  "control_signal (ReturnSignal v) = True"
| "control_signal BreakSignal = True"
| "control_signal ContinueSignal = True"
| "control_signal _ = False"

abbreviation env_scopes :: "environment \<Rightarrow> nat" where
  "env_scopes e \<equiv> length (env_local_scopes e)"

text \<open>What a run does to the shared state.\<close>

definition good_run :: "('h \<Rightarrow> bool) \<Rightarrow> 'h shared \<Rightarrow> (runtime_error option \<times> 'h shared) outcome \<Rightarrow> bool" where
  "good_run K st res \<longleftrightarrow>
     (case res of
        Panics x \<Rightarrow> x \<in> overflow_panics
      | Returns (err, st') \<Rightarrow>
          (\<forall>e. err = Some e \<longrightarrow> \<not> control_signal e) \<and> env_scopes (sh_env st') = env_scopes (sh_env st) \<and>
          fewer_timers (sh_timers st) (sh_timers st') \<and> (K (sh_host st) \<longrightarrow> K (sh_host st')))"

lemma good_run_simps [simp]:
  "good_run K st (Panics x) \<longleftrightarrow> x \<in> overflow_panics"
  "good_run K st (Returns (None, st)) = True"
  by (simp_all add: good_run_def)

lemma good_run_trans:
  "good_run K st (Returns (None, st')) \<Longrightarrow> good_run K st' res \<Longrightarrow> good_run K st res"
  by (auto simp: good_run_def intro: fewer_timers_trans split: outcome.splits)

lemma run_scoped_good:
  fixes H :: "'h command_handler"
  assumes H: "handler_ok K True H" and al: "aliases_ok True al" and body: "body_ok True False body"
    and scopes: "0 < env_scopes (sh_env st)"
  shows "good_run K st (run_scoped P H al ctx body st)"
proof -
  let ?i = "interp_of al ctx st"
  have "does K al 0 (allowed True False) (scoped (run_body P H body))"
    unfolding run_body_def by (intro does_scoped does_exec_fuel [OF H al body]) auto
  then obtain r i where r: "scoped (run_body P H body) ?i = Some (r, i)" "post K (allowed True False) ?i r i"
    by (rule doesD [of K al 0 _ _ ?i]) (use scopes in \<open>auto simp: interp_of_def with_context_def\<close>)
  have "good_run K st (Returns (err, shared_of i))" if "frame K ?i i" "\<forall>e. err = Some e \<longrightarrow> \<not> control_signal e" for err
    using that by (auto simp: good_run_def frame_def interp_of_def with_context_def shared_of_def)
  then show ?thesis using r
    by (cases r) (auto simp: run_scoped_def allowed_def split: runtime_error.split)
qed

lemma dispatch_loop_good:
  assumes H: "handler_ok K True H" and al: "aliases_ok True al"
  shows "\<forall>h\<in>set hs. body_ok True False (he_body h) \<Longrightarrow> 0 < env_scopes (sh_env st) \<Longrightarrow>
    good_run K st (dispatch_loop P H al ctx text' hs st)"
proof (induction hs arbitrary: st)
  case (Cons h hs)
  have run: "good_run K st (run_scoped P H al ctx (he_body h) st)"
    using Cons.prems by (intro run_scoped_good [OF H al]) auto
  show ?case
  proof (cases "run_scoped P H al ctx (he_body h) st")
    case (Returns res)
    obtain err st' where res: "res = (err, st')" by force
    show ?thesis
    proof (cases err)
      case None
      have "0 < env_scopes (sh_env st')" using run Cons.prems by (auto simp: Returns res good_run_def)
      then have "good_run K st' (dispatch_loop P H al ctx text' hs st')" using Cons by simp
      then show ?thesis using Cons run good_run_trans by (auto simp: Returns res None)
    qed (use Cons run in \<open>auto simp: Returns res\<close>)
  qed (use Cons run in auto)
qed simp

section \<open>The invariant of the engine\<close>

definition registered :: "script_engine \<Rightarrow> statement list set" where
  "registered en =
     snd ` set (en_aliases en) \<union> {he_body h |h t hs. (t, hs) \<in> set (en_events en) \<and> h \<in> set hs} \<union>
     (\<lambda>p. tm_body (snd p)) ` set (en_timers en)"

definition engine_ok :: "script_engine \<Rightarrow> bool" where
  "engine_ok en \<longleftrightarrow> env_scopes (en_env en) = 1 \<and> (\<forall>body\<in>registered en. body_ok True False body)"

lemma engine_ok_new: "engine_ok engine_new"
  by (simp add: engine_ok_def engine_new_def env_new_def registered_def)

lemma engine_ok_grow:
  "engine_ok en \<Longrightarrow> env_scopes (en_env en') = env_scopes (en_env en) \<Longrightarrow> registered en' \<subseteq> registered en \<union> new \<Longrightarrow>
    (\<And>body. body \<in> new \<Longrightarrow> body_ok True False body) \<Longrightarrow> engine_ok en'"
  unfolding engine_ok_def by (metis Un_iff subset_iff)

lemma engine_ok_frame [simp]:
  "engine_ok (en\<lparr>en_ctx := c\<rparr>) = engine_ok en" "engine_ok (en\<lparr>en_regex := rs\<rparr>) = engine_ok en"
  "engine_ok (en\<lparr>en_scripts := ss\<rparr>) = engine_ok en"
  by (simp_all add: engine_ok_def registered_def)

lemma set_update_subset: "set (AList.update k v m) \<subseteq> insert (k, v) (set m)"
  by (induction m) auto

lemma set_delete_subset: "set (AList.delete k m) \<subseteq> set m"
  by (auto simp: AList.delete_eq)

lemma fold_delete_subset: "set (fold (\<lambda>k. AList.delete (f k)) ks m) \<subseteq> set m"
proof (induction ks arbitrary: m)
  case (Cons k ks)
  then show ?case using Cons [of "AList.delete (f k) m"] set_delete_subset [of "f k" m] by auto
qed simp

lemma registered_mono:
  assumes "set (en_aliases en') \<subseteq> set (en_aliases en)" "set (en_timers en') \<subseteq> set (en_timers en)"
    and "\<And>t hs h. (t, hs) \<in> set (en_events en') \<Longrightarrow> h \<in> set hs \<Longrightarrow> \<exists>hs'. (t, hs') \<in> set (en_events en) \<and> h \<in> set hs'"
  shows "registered en' \<subseteq> registered en"
proof -
  have "{he_body h |h t hs. (t, hs) \<in> set (en_events en') \<and> h \<in> set hs}
      \<subseteq> {he_body h |h t hs. (t, hs) \<in> set (en_events en) \<and> h \<in> set hs}"
    using assms(3) by blast
  then show ?thesis unfolding registered_def using assms(1,2) by (intro Un_mono image_mono)
qed

lemma remove_by_source_sub:
  "(t, hs) \<in> set (remove_by_source src d) \<Longrightarrow> h \<in> set hs \<Longrightarrow> \<exists>hs'. (t, hs') \<in> set d \<and> h \<in> set hs'"
  by (auto simp: remove_by_source_def hm_retain_def hm_map_values_def)

lemma engine_ok_unload:
  assumes "engine_ok en"
  shows "engine_ok (unload_script P filename en)"
proof (cases "hm_get (en_scripts en) filename")
  case (Some loaded)
  have fns: "alias_remove P = (\<lambda>k. AList.delete (to_lowercase P k))"
    "(\<lambda>name m. snd (timer_remove P name m)) = (\<lambda>k. AList.delete (to_lowercase P k))"
    by (simp_all add: fun_eq_iff alias_remove_def timer_remove_def)
  have "registered (unload_script P filename en) \<subseteq> registered en"
    by (rule registered_mono)
      (simp_all add: unload_script_def Some fns fold_delete_subset remove_by_source_sub)
  then show ?thesis using engine_ok_grow [OF assms, of _ "{}"] by (simp add: unload_script_def Some)
qed (use assms in \<open>simp add: unload_script_def\<close>)

definition overflow_loading :: "string set" where
  "overflow_loading = {''cannot convert float seconds to Duration'', ''overflow when adding duration to instant''}"

lemma timer_register_panics: "timer_register P name d n body now m = Panics x \<Longrightarrow> x \<in> overflow_loading"
  by (auto simp: timer_register_def instant_add_def overflow_loading_def split: if_splits)

lemma timer_register_returns:
  "timer_register P name d n body now m = Returns m' \<Longrightarrow>
    \<exists>tm. tm_body tm = body \<and> m' = hm_insert (to_lowercase P name) tm m"
  unfolding timer_register_def by (split outcome.splits) force+

lemma register_timer_panics: "register_timer P t now m = Panics x \<Longrightarrow> x \<in> overflow_loading"
  unfolding register_timer_def Let_def
  by (auto simp: overflow_loading_def dest: timer_register_panics split: option.splits)

lemma register_timer_returns:
  "register_timer P t now m = Returns m' \<Longrightarrow>
    \<exists>tm. tm_body tm = td_body t \<and> m' = hm_insert (to_lowercase P (td_name t)) tm m"
  unfolding register_timer_def Let_def by (auto dest: timer_register_returns split: option.splits)

lemma engine_ok_alias:
  assumes "engine_ok en" "body_ok True False (ad_body a)"
  shows "engine_ok (en\<lparr>en_aliases := alias_register P a (en_aliases en)\<rparr>)"
  using set_update_subset [of "to_lowercase P (ad_name a)" "ad_body a" "en_aliases en"] assms(2)
  by (intro engine_ok_grow [OF assms(1), of _ "{ad_body a}"]) (auto simp: registered_def alias_register_def)

lemma engine_ok_timer:
  assumes "engine_ok en" "body_ok True False (tm_body tm)"
  shows "engine_ok (en\<lparr>en_timers := hm_insert k tm (en_timers en)\<rparr>)"
  using set_update_subset [of k tm "en_timers en"] assms(2)
  by (intro engine_ok_grow [OF assms(1), of _ "{tm_body tm}"]) (auto simp: registered_def)

lemma register_with_source_sub:
  assumes "(t, hs) \<in> set (register_with_source P e src d)" "h \<in> set hs"
  shows "(\<exists>hs'. (t, hs') \<in> set d \<and> h \<in> set hs') \<or> he_body h = eh_body e"
proof -
  let ?old = "case hm_get d (eh_event_type e) of Some hs \<Rightarrow> hs | None \<Rightarrow> []"
  let ?entry = "\<lparr>he_pattern = to_lowercase P (eh_pattern e), he_body = eh_body e, he_source = src\<rparr>"
  have "(t, hs) \<in> set d \<or> (t, hs) = (eh_event_type e, ?old @ [?entry])"
    using assms(1) set_update_subset [of "eh_event_type e" "?old @ [?entry]" d]
    by (auto simp: register_with_source_def Let_def)
  then show ?thesis using assms(2) by (auto split: option.splits) (metis map_of_SomeD)
qed

lemma engine_ok_event:
  assumes "engine_ok en" "body_ok True False (eh_body e)"
  shows "engine_ok (en\<lparr>en_events := register_with_source P e src (en_events en)\<rparr>)"
proof (rule engine_ok_grow [OF assms(1), of _ "{eh_body e}"])
  show "registered (en\<lparr>en_events := register_with_source P e src (en_events en)\<rparr>) \<subseteq> registered en \<union> {eh_body e}"
  proof
    fix body
    assume body: "body \<in> registered (en\<lparr>en_events := register_with_source P e src (en_events en)\<rparr>)"
    show "body \<in> registered en \<union> {eh_body e}"
    proof (cases "body \<in> snd ` set (en_aliases en) \<union> (\<lambda>p. tm_body (snd p)) ` set (en_timers en)")
      case False
      then obtain t hs h where "(t, hs) \<in> set (register_with_source P e src (en_events en))" "h \<in> set hs" "body = he_body h"
        using body by (auto simp: registered_def)
      then show ?thesis using register_with_source_sub [of t hs P e src "en_events en" h] by (auto simp: registered_def)
    qed (auto simp: registered_def)
  qed
qed (use assms(2) in auto)

lemma register_items_ok:
  "engine_ok en \<Longrightarrow> \<forall>item\<in>set items. body_ok True False (item_body item) \<Longrightarrow>
    case register_items P filename now items loaded en of
      Panics x \<Rightarrow> x \<in> overflow_loading
    | Returns (loaded', en') \<Rightarrow> engine_ok en'"
proof (induction P filename now items loaded en rule: register_items.induct)
  case (2 P filename now a items loaded en)
  then show ?case by (simp add: engine_ok_alias item_body_def)
next
  case (3 P filename now e items loaded en)
  then show ?case by (simp add: engine_ok_event item_body_def)
next
  case (4 P filename now t items loaded en)
  show ?case
  proof (cases "register_timer P t now (en_timers en)")
    case (Returns m')
    then obtain tm where "tm_body tm = td_body t" "m' = hm_insert (to_lowercase P (td_name t)) tm (en_timers en)"
      using register_timer_returns by blast
    then show ?thesis using 4 Returns by (simp add: engine_ok_timer item_body_def)
  qed (simp add: register_timer_panics)
qed simp

lemma load_script_ok:
  assumes "engine_ok en"
  shows "case load_script P parse_f64 source filename now en of
      Panics x \<Rightarrow> x \<in> overflow_loading
    | Returns (r, en') \<Rightarrow> engine_ok en'"
proof -
  let ?en = "if hm_get (en_scripts en) filename \<noteq> None then unload_script P filename en else en"
  have ok: "engine_ok ?en" using assms by (simp add: engine_ok_unload)
  have install: "case install_script P source filename now s ?en of
      Panics x \<Rightarrow> x \<in> overflow_loading | Returns (r, en') \<Rightarrow> engine_ok en'" for s
    using register_items_ok [OF ok, of "sc_items s" P filename now "\<lparr>ls_source = source, ls_aliases = [], ls_timers = []\<rparr>"]
      analyze_sound [of source s] ok
    by (auto simp: install_script_def Let_def split: outcome.splits)
  show ?thesis
  proof (cases "tokenize parse_f64 source")
    case (Inr tokens)
    then have "runs 0 (parse_script source) tokens" by (intro parse_returns tokenize_eof_terminated)
    then show ?thesis using Inr ok install
      by (cases "parse_script source tokens") (simp_all add: load_script_def runs_def Let_def)
  qed (use ok in \<open>simp add: load_script_def\<close>)
qed

section \<open>Running registered bodies\<close>

definition host_ok :: "('h \<Rightarrow> bool) \<Rightarrow> 'h script_host \<Rightarrow> bool" where
  "host_ok K S \<longleftrightarrow>
     handler_ok K True (ho_command S) \<and> (\<forall>line h. K h \<longrightarrow> K (ho_echo S line h)) \<and>
     (\<forall>e h. K h \<longrightarrow> \<not> control_signal (se_error e) \<longrightarrow> K (ho_report_error S e h))"

definition good_engine :: "('h \<Rightarrow> bool) \<Rightarrow> (script_engine \<times> 'h) outcome \<Rightarrow> bool" where
  "good_engine K res \<longleftrightarrow>
     (case res of Panics x \<Rightarrow> x \<in> overflow_panics \<union> overflow_loading | Returns (en, h) \<Rightarrow> engine_ok en \<and> K h)"

lemma good_engine_simps [simp]:
  "good_engine K (Panics x) \<longleftrightarrow> x \<in> overflow_panics \<union> overflow_loading"
  "good_engine K (Returns (en, h)) \<longleftrightarrow> engine_ok en \<and> K h"
  by (simp_all add: good_engine_def)

lemma engine_ok_bodies:
  assumes "engine_ok en"
  shows "aliases_ok True (Some (en_aliases en))"
    and "(t, hs) \<in> set (en_events en) \<Longrightarrow> h \<in> set hs \<Longrightarrow> body_ok True False (he_body h)"
    and "(name, tm) \<in> set (en_timers en) \<Longrightarrow> body_ok True False (tm_body tm)"
  using assms by (force simp: engine_ok_def registered_def aliases_ok_def)+

lemma fold_keeps: "(\<And>x h. K h \<Longrightarrow> K (f x h)) \<Longrightarrow> K h \<Longrightarrow> K (fold f xs h)"
  by (induction xs arbitrary: h) auto

lemma conclude_good:
  assumes S: "host_ok K S" and en: "engine_ok en" and K: "K h" and run: "good_run K (shared_state en h) (Returns res)"
  shows "good_engine K (Returns (conclude S context en res))"
proof -
  obtain err st where res: "res = (err, st)" by force
  then obtain m where st: "env_scopes (sh_env st) = 1" "K (sh_host st)" "sh_timers st = Some m" "set m \<subseteq> set (en_timers en)"
    and err: "\<forall>e. err = Some e \<longrightarrow> \<not> control_signal e"
    using run en K by (auto simp: good_run_def shared_state_def fewer_timers_def engine_ok_def)
  have "registered (en\<lparr>en_env := sh_env st, en_regex := sh_regex st, en_timers := m\<rparr>) \<subseteq> registered en"
    by (rule registered_mono) (use st in auto)
  then have "engine_ok (en\<lparr>en_env := sh_env st, en_regex := sh_regex st, en_timers := m\<rparr>)"
    using en st(1) by (auto simp: engine_ok_def)
  moreover have "K (fold (ho_echo S) lines (sh_host st))" for lines
    using S st(2) by (auto simp: host_ok_def intro: fold_keeps)
  moreover have "K (fold (ho_echo S) [] (sh_host st))" using st(2) by simp
  ultimately show ?thesis using S err
    by (cases err; cases "sh_echo st") (simp_all add: conclude_def res st host_ok_def Let_def)
qed

lemma run_registered:
  assumes S: "host_ok K S" and en: "engine_ok en" and body: "body_ok True False body"
  shows "good_run K (shared_state en h) (run_scoped P (ho_command S) (Some (en_aliases en)) ctx body (shared_state en h))"
  using assms by (intro run_scoped_good) (auto simp: host_ok_def engine_ok_bodies engine_ok_def shared_state_def)

lemma engine_ok_sync [simp]: "engine_ok (sync_builtins_from_host S h en) = engine_ok en"
  by (simp add: sync_builtins_from_host_def)

lemma dispatch_event_good:
  assumes S: "host_ok K S" and en: "engine_ok en" and K: "K h"
  shows "good_engine K (dispatch_event P S t context en h)"
proof -
  let ?en = "sync_builtins_from_host S h en"
  let ?run = "dispatch_full P (ho_command S) (en_events ?en) t context (Some (en_ctx ?en)) (Some (en_aliases ?en)) (shared_state ?en h)"
  have ok: "engine_ok ?en" using en by simp
  have "good_run K (shared_state ?en h) ?run"
  proof (cases "hm_get (en_events ?en) t")
    case (Some hs)
    have "\<forall>h\<in>set hs. body_ok True False (he_body h)" using engine_ok_bodies(2) [OF ok map_of_SomeD [OF Some]] by blast
    then show ?thesis unfolding dispatch_full_def Some option.case
      using S ok by (intro dispatch_loop_good) (auto simp: host_ok_def engine_ok_bodies engine_ok_def shared_state_def)
  qed (simp add: dispatch_full_def)
  then show ?thesis using conclude_good [OF S ok K]
    by (cases ?run) (auto simp: dispatch_event_def Let_def)
qed

lemma execute_alias_good:
  assumes S: "host_ok K S" and en: "engine_ok en" and K: "K h"
  shows "good_engine K (case execute_alias P S name args en h of Panics x \<Rightarrow> Panics x | Returns (b, r) \<Rightarrow> Returns r)"
proof (cases "alias_get P (en_aliases en) name")
  case (Some body)
  let ?en = "sync_builtins_from_host S h en"
  let ?run = "run_scoped P (ho_command S) (Some (en_aliases ?en)) (set_event_text args (en_ctx ?en)) body (shared_state ?en h)"
  have ok: "engine_ok ?en" using en by simp
  have "body_ok True False body"
    using engine_ok_bodies(1) [OF en] Some by (auto simp: aliases_ok_def alias_get_def dest!: map_of_SomeD)
  then have "good_run K (shared_state ?en h) ?run" by (rule run_registered [OF S ok])
  then show ?thesis using conclude_good [OF S ok K]
    by (cases ?run) (auto simp: execute_alias_def Some Let_def)
qed (use en K in \<open>simp add: execute_alias_def\<close>)

lemma run_fired_good:
  assumes S: "host_ok K S"
  shows "engine_ok en \<Longrightarrow> K h \<Longrightarrow> \<forall>t\<in>set ts. body_ok True False (ft_body t) \<Longrightarrow> good_engine K (run_fired P S ts en h)"
proof (induction ts arbitrary: en h)
  case (Cons t ts)
  let ?run = "run_scoped P (ho_command S) (Some (en_aliases en)) (en_ctx en) (ft_body t) (shared_state en h)"
  have run: "good_run K (shared_state en h) ?run" using Cons.prems by (intro run_registered [OF S]) auto
  show ?case
  proof (cases ?run)
    case (Returns res)
    obtain en' h' where c: "conclude S (''timer '' @ [CHR 0x27] @ ft_name t @ [CHR 0x27]) en res = (en', h')" by force
    then have "engine_ok en'" "K h'" using conclude_good [OF S Cons.prems(1,2)] run
      by (metis Returns good_engine_simps(2))+
    then show ?thesis using Cons c by (simp add: Returns)
  qed (use run in simp)
qed simp

subsection \<open>Ticks\<close>

abbreviation timer_bodies :: "timer_manager \<Rightarrow> statement list set" where
  "timer_bodies m \<equiv> (\<lambda>p. tm_body (snd p)) ` set m"

lemma timer_fire_panics: "timer_fire t = Panics x \<Longrightarrow> x \<in> overflow_loading"
  by (auto simp: timer_fire_def instant_add_def overflow_loading_def Let_def split: if_splits)

lemma timer_fire_body: "timer_fire t = Returns (gone, t') \<Longrightarrow> tm_body t' = tm_body t"
  by (auto simp: timer_fire_def Let_def split: if_splits outcome.splits)

lemma tick_loop_bodies:
  "case tick_loop now m of
     Panics x \<Rightarrow> x \<in> overflow_loading
   | Returns (fired, m', names) \<Rightarrow> ft_body ` set fired \<subseteq> timer_bodies m \<and> timer_bodies m' \<subseteq> timer_bodies m"
proof (induction m)
  case (Cons p m)
  obtain name t where p: "p = (name, t)" by force
  show ?case using Cons
    by (cases "timer_fire t"; cases "tick_loop now m")
      (auto simp: p dest: timer_fire_panics timer_fire_body split: prod.splits)
qed simp

lemma tick_bodies:
  "case tick now m of
     Panics x \<Rightarrow> x \<in> overflow_loading
   | Returns (fired, m') \<Rightarrow> ft_body ` set fired \<subseteq> timer_bodies m \<and> timer_bodies m' \<subseteq> timer_bodies m"
proof (cases "tick_loop now m")
  case (Returns r)
  obtain fired m' names where r: "r = (fired, m', names)" by (cases r) auto
  have "set (fold AList.delete names m') \<subseteq> set m'" using fold_delete_subset [of "\<lambda>k. k" names m'] by simp
  then have "timer_bodies (fold AList.delete names m') \<subseteq> timer_bodies m'" by (rule image_mono)
  also have "\<dots> \<subseteq> timer_bodies m" using tick_loop_bodies [where now = now and m = m] by (simp add: Returns r)
  finally show ?thesis using tick_loop_bodies [where now = now and m = m] by (simp add: tick_def Returns r)
qed (use tick_loop_bodies [where now = now and m = m] in \<open>simp add: tick_def\<close>)

lemma engine_ok_fewer:
  assumes "engine_ok en" "timer_bodies m \<subseteq> timer_bodies (en_timers en)"
  shows "engine_ok (en\<lparr>en_timers := m\<rparr>)"
proof -
  have "registered (en\<lparr>en_timers := m\<rparr>) \<subseteq> registered en" unfolding registered_def by (intro Un_mono) (use assms(2) in simp_all)
  then show ?thesis using engine_ok_grow [OF assms(1), of _ "{}"] by simp
qed

lemma tick_timers_good:
  assumes S: "host_ok K S" and en: "engine_ok en" and K: "K h"
  shows "good_engine K (tick_timers P S now en h)"
proof (cases "tick now (en_timers en)")
  case (Returns r)
  obtain fired m where r: "r = (fired, m)" by force
  let ?en = "(sync_builtins_from_host S h en)\<lparr>en_timers := m\<rparr>"
  have sub: "ft_body ` set fired \<subseteq> timer_bodies (en_timers en)" "timer_bodies m \<subseteq> timer_bodies (en_timers en)"
    using tick_bodies [where now = now and m = "en_timers en"] by (simp_all add: Returns r)
  have "engine_ok ?en" using sub(2) en by (intro engine_ok_fewer) (simp_all add: sync_builtins_from_host_def)
  moreover have "\<forall>t\<in>set fired. body_ok True False (ft_body t)"
  proof
    fix t
    assume "t \<in> set fired"
    then have "ft_body t \<in> registered en" using sub(1) unfolding registered_def by (intro UnI2) (rule subsetD, auto)
    then show "body_ok True False (ft_body t)" using en by (simp add: engine_ok_def)
  qed
  ultimately show ?thesis using run_fired_good [OF S _ K]
    by (simp add: tick_timers_def Returns r Let_def sync_builtins_from_host_def)
qed (use tick_bodies [where now = now and m = "en_timers en"] in \<open>simp add: tick_timers_def sync_builtins_from_host_def Let_def\<close>)

section \<open>Sessions\<close>

datatype engine_op =
    OpLoad string string nat
  | OpUnload string
  | OpReload string nat
  | OpBuiltin string script_value
  | OpEvent event_type event_context
  | OpInput string
  | OpTick nat

definition engine_apply ::
  "script_prims \<Rightarrow> (string \<Rightarrow> string + f64) \<Rightarrow> 'h script_host \<Rightarrow> engine_op \<Rightarrow> script_engine \<times> 'h \<Rightarrow> (script_engine \<times> 'h) outcome" where
  "engine_apply P parse_f64 S op' w =
     (case w of (en, h) \<Rightarrow>
        case op' of
          OpLoad source filename now \<Rightarrow>
            (case load_script P parse_f64 source filename now en of Panics x \<Rightarrow> Panics x | Returns (r, en') \<Rightarrow> Returns (en', h))
        | OpUnload filename \<Rightarrow> Returns (unload_script P filename en, h)
        | OpReload filename now \<Rightarrow>
            (case reload_script P parse_f64 filename now en of Panics x \<Rightarrow> Panics x | Returns (r, en') \<Rightarrow> Returns (en', h))
        | OpBuiltin name v \<Rightarrow> Returns (set_builtin name v en, h)
        | OpEvent t context \<Rightarrow> dispatch_event P S t context en h
        | OpInput line \<Rightarrow>
            (case execute_command P S line en h of Panics x \<Rightarrow> Panics x | Returns (b, r) \<Rightarrow> Returns r)
        | OpTick now \<Rightarrow> tick_timers P S now en h)"

fun run_session ::
  "script_prims \<Rightarrow> (string \<Rightarrow> string + f64) \<Rightarrow> 'h script_host \<Rightarrow> engine_op list \<Rightarrow> script_engine \<times> 'h \<Rightarrow> (script_engine \<times> 'h) outcome" where
  "run_session P parse_f64 S [] w = Returns w"
| "run_session P parse_f64 S (op' # ops) w =
     (case engine_apply P parse_f64 S op' w of Panics x \<Rightarrow> Panics x | Returns w' \<Rightarrow> run_session P parse_f64 S ops w')"

lemma execute_command_good:
  assumes "host_ok K S" "engine_ok en" "K h"
  shows "good_engine K (case execute_command P S line en h of Panics x \<Rightarrow> Panics x | Returns (b, r) \<Rightarrow> Returns r)"
  using execute_alias_good [OF assms] assms
  by (auto simp: execute_command_def Let_def split: option.split)

lemma engine_apply_good:
  assumes S: "host_ok K S" and en: "engine_ok en" and K: "K h"
  shows "good_engine K (engine_apply P parse_f64 S op' (en, h))"
proof (cases op')
  case (OpLoad source filename now)
  moreover have "case load_script P parse_f64 source filename now en of Panics x \<Rightarrow> x \<in> overflow_loading | Returns (r, en') \<Rightarrow> engine_ok en'"
    by (rule load_script_ok [OF en])
  ultimately show ?thesis using K
    by (auto simp: engine_apply_def split: outcome.splits)
next
  case (OpReload filename now)
  show ?thesis
  proof (cases "hm_get (en_scripts en) filename")
    case (Some loaded)
    moreover have "case load_script P parse_f64 (ls_source loaded) filename now en of
        Panics x \<Rightarrow> x \<in> overflow_loading | Returns (r, en') \<Rightarrow> engine_ok en'"
      by (rule load_script_ok [OF en])
    ultimately show ?thesis using OpReload K
      by (auto simp: engine_apply_def reload_script_def split: outcome.splits)
  qed (use OpReload en K in \<open>simp add: engine_apply_def reload_script_def\<close>)
qed (use assms in \<open>auto simp: engine_apply_def engine_ok_unload set_builtin_def dispatch_event_good execute_command_good
    tick_timers_good\<close>)

text \<open>
  C29. In every session of the scripting engine, whatever scripts it loads and whatever they do, the
  operations return with the variables back at the root scope, and the host is never told of an error that
  is a control signal (\<^verbatim>\<open>return\<close>, \<^verbatim>\<open>break\<close>, \<^verbatim>\<open>continue\<close>): each property \<open>K\<close> of the host that its commands, its
  echo and the report of any other error keep, the session keeps. The only panics are overflows of integer
  division and of timer durations.
\<close>

theorem engine_sessions_safe:
  assumes "host_ok K S" "K h"
  shows "case run_session P parse_f64 S ops (engine_new, h) of
      Returns (en, h') \<Rightarrow> env_scopes (en_env en) = 1 \<and> K h'
    | Panics x \<Rightarrow> x \<in> overflow_panics \<union> overflow_loading"
proof -
  have "engine_ok en \<Longrightarrow> K h \<Longrightarrow> good_engine K (run_session P parse_f64 S ops (en, h))" for en h
  proof (induction ops arbitrary: en h)
    case (Cons op' ops)
    have step: "good_engine K (engine_apply P parse_f64 S op' (en, h))"
      using engine_apply_good [OF assms(1) Cons.prems] .
    show ?case
    proof (cases "engine_apply P parse_f64 S op' (en, h)")
      case (Returns w)
      then show ?thesis using Cons.IH step by (cases w) simp
    qed (use step in simp)
  qed simp
  then have "good_engine K (run_session P parse_f64 S ops (engine_new, h))" using engine_ok_new assms(2) by blast
  then show ?thesis by (auto simp: good_engine_def engine_ok_def split: outcome.splits)
qed

text \<open>A host that keeps the errors it is told of.\<close>

definition logging_host :: "runtime_error list script_host" where
  "logging_host =
     \<lparr>ho_command = (\<lambda>name args h. (Some (UnknownCommand name), h)), ho_nick = (\<lambda>h. ''me''), ho_server = (\<lambda>h. None),
      ho_channel = (\<lambda>h. None), ho_port = (\<lambda>h. 6667), ho_echo = (\<lambda>line h. h), ho_report_error = (\<lambda>e h. h @ [se_error e])\<rparr>"

theorem engine_sessions_safe_witness:
  "case run_session script_sample (\<lambda>_. Err []) logging_host
      [OpLoad ''alias x { while (true) { break } return 1 }'' ''a.pirc'' 0, OpInput ''x''] (engine_new, []) of
     Returns (en, log) \<Rightarrow> env_scopes (en_env en) = 1 \<and> (\<forall>e\<in>set log. \<not> control_signal e)
   | Panics x \<Rightarrow> x \<in> overflow_panics \<union> overflow_loading"
proof -
  have "host_ok (\<lambda>log. \<forall>e\<in>set log. \<not> control_signal e) logging_host"
    by (auto simp: host_ok_def handler_ok_def logging_host_def)
  then show ?thesis by (rule engine_sessions_safe) simp
qed

end
