(* ===== verification/Script_Schedule.thy ===== *)
theory Script_Schedule
  imports Script_Execution
begin

text \<open>
  The schedule of a script timer: the ticks at which the manager fires it are those of a counter that
  knows only its interval and how often it may still fire, whatever other timers there are and
  whenever the ticks come.
\<close>

fun run_ticks :: "nat list \<Rightarrow> timer_manager \<Rightarrow> (fired_timer list list \<times> timer_manager) outcome" where
  "run_ticks [] m = Returns ([], m)"
| "run_ticks (now # ticks) m =
     (case tick now m of
        Panics x \<Rightarrow> Panics x
      | Returns (fired, m') \<Rightarrow>
          (case run_ticks ticks m' of Panics x \<Rightarrow> Panics x | Returns (fs, m'') \<Rightarrow> Returns (fired # fs, m'')))"

definition names_of :: "fired_timer list \<Rightarrow> string list" where
  "names_of fired = map ft_name fired"

definition firing_times :: "string \<Rightarrow> nat list \<Rightarrow> fired_timer list list \<Rightarrow> nat list" where
  "firing_times k ticks fs = map fst (filter (\<lambda>(t, fired). k \<in> set (names_of fired)) (zip ticks fs))"

text \<open>The reference: a due timer fires at a tick and is due again one interval after it was due, not after it fired.\<close>

fun schedule :: "nat \<Rightarrow> nat \<Rightarrow> nat option \<Rightarrow> nat list \<Rightarrow> nat list" where
  "schedule i due left [] = []"
| "schedule i due left (now # ticks) =
     (if left = Some 0 then []
      else if due \<le> now then now # schedule i (due + i) (map_option (\<lambda>n. n - 1) left) ticks
      else schedule i due left ticks)"

section \<open>One tick\<close>

declare map_of_eq_Some_iff [simp del]

lemma tick_loop_names:
  assumes "tick_loop now m = Returns (fired, m', names)"
  shows "map fst m' = map fst m"
    and "names_of fired = map fst (filter (\<lambda>(k, t). tm_next_fire t \<le> now) m)"
    and "set names \<subseteq> fst ` set m"
  using assms
proof (induction now m arbitrary: fired m' names rule: tick_loop.induct)
  case (2 now name t m)
  {
    case 1
    then show ?case using 2 by (auto split: if_splits outcome.splits prod.splits)
  next
    case 2
    then show ?case using "2.IH" by (auto simp: names_of_def split: if_splits outcome.splits prod.splits)
  next
    case 3
    then show ?case using "2.IH" by (fastforce split: if_splits outcome.splits prod.splits)
  }
qed (auto simp: names_of_def)

lemma tick_loop_at:
  assumes "tick_loop now m = Returns (fired, m', names)" "hm_wf m" "map_of m k = Some t"
  shows "if tm_next_fire t \<le> now then \<exists>gone t'. timer_fire t = Returns (gone, t') \<and> map_of m' k = Some t' \<and> (k \<in> set names \<longleftrightarrow> gone)
    else map_of m' k = Some t \<and> k \<notin> set names"
  using assms
proof (induction m arbitrary: fired m' names)
  case (Cons p m)
  obtain name u where p: "p = (name, u)" by force
  obtain fired1 m1 names1 where rest: "tick_loop now m = Returns (fired1, m1, names1)"
    using Cons.prems(1) by (auto simp: p split: if_splits outcome.splits prod.splits)
  have "fst ` set m1 = fst ` set m" using tick_loop_names(1) [OF rest] by (metis list.set_map)
  then have other: "name \<notin> set names1" "map_of m1 name = None"
    using tick_loop_names(3) [OF rest] Cons.prems(2) by (auto simp: p map_of_eq_None_iff)
  show ?case
  proof (cases "k = name")
    case True
    then show ?thesis using Cons.prems other rest by (auto simp: p split: if_splits outcome.splits prod.splits)
  next
    case False
    then have "if tm_next_fire t \<le> now
        then \<exists>gone t'. timer_fire t = Returns (gone, t') \<and> map_of m1 k = Some t' \<and> (k \<in> set names1 \<longleftrightarrow> gone)
        else map_of m1 k = Some t \<and> k \<notin> set names1"
      using Cons.prems by (intro Cons.IH [OF rest]) (auto simp: p)
    moreover have "map_of m' k = map_of m1 k" "k \<in> set names \<longleftrightarrow> k \<in> set names1"
      using Cons.prems(1) rest False by (auto simp: p split: if_splits outcome.splits)
    ultimately show ?thesis by simp
  qed
qed simp

lemma map_of_fold_delete: "map_of (fold AList.delete ks m) k = (if k \<in> set ks then None else map_of m k)"
  by (induction ks arbitrary: m) auto

lemma hm_wf_fold_delete: "hm_wf m \<Longrightarrow> hm_wf (fold AList.delete ks m)"
  by (induction ks arbitrary: m) auto

lemma tick_at:
  assumes "tick now m = Returns (fired, m')" "hm_wf m"
  shows "hm_wf m'"
    and "map_of m k = None \<Longrightarrow> k \<notin> set (names_of fired) \<and> map_of m' k = None"
    and "map_of m k = Some t \<Longrightarrow> \<not> tm_next_fire t \<le> now \<Longrightarrow> k \<notin> set (names_of fired) \<and> map_of m' k = Some t"
    and "map_of m k = Some t \<Longrightarrow> tm_next_fire t \<le> now \<Longrightarrow> k \<in> set (names_of fired) \<and>
      (\<exists>gone t'. timer_fire t = Returns (gone, t') \<and> map_of m' k = (if gone then None else Some t'))"
proof -
  obtain m1 names where loop: "tick_loop now m = Returns (fired, m1, names)" and m': "m' = fold AList.delete names m1"
    using assms(1) by (auto simp: tick_def split: outcome.splits prod.splits)
  note names = tick_loop_names [OF loop]
  have fired: "k \<in> set (names_of fired) \<longleftrightarrow> (\<exists>t. map_of m k = Some t \<and> tm_next_fire t \<le> now)"
    using assms(2) by (force simp: names(2) map_of_eq_Some_iff image_iff)
  show "hm_wf m'" unfolding m' using names(1) assms(2) by (intro hm_wf_fold_delete) simp
  show "k \<notin> set (names_of fired) \<and> map_of m' k = None" if "map_of m k = None"
    using that fired names(1) by (simp add: m' map_of_fold_delete) (metis list.set_map map_of_eq_None_iff)
  show "k \<notin> set (names_of fired) \<and> map_of m' k = Some t" if "map_of m k = Some t" "\<not> tm_next_fire t \<le> now"
    using that fired tick_loop_at [OF loop assms(2) that(1)] by (simp add: m' map_of_fold_delete)
  show "k \<in> set (names_of fired) \<and>
      (\<exists>gone t'. timer_fire t = Returns (gone, t') \<and> map_of m' k = (if gone then None else Some t'))"
    if due: "map_of m k = Some t" "tm_next_fire t \<le> now"
  proof -
    obtain gone t' where "timer_fire t = Returns (gone, t')" "map_of m1 k = Some t'" "k \<in> set names \<longleftrightarrow> gone"
      using tick_loop_at [OF loop assms(2) due(1)] due(2) by auto
    then show ?thesis using due fired unfolding m' map_of_fold_delete by auto
  qed
qed

section \<open>Any number of ticks\<close>

definition on_schedule :: "nat \<Rightarrow> nat \<Rightarrow> nat option \<Rightarrow> timer \<Rightarrow> bool" where
  "on_schedule i due left t \<longleftrightarrow>
     tm_interval t = i \<and> tm_next_fire t = due \<and> tm_remaining t = left \<and> (\<forall>n. left = Some n \<longrightarrow> 0 < n \<and> n \<le> U64_MAX)"

lemma wrap_decrement: "0 < n \<Longrightarrow> n \<le> U64_MAX \<Longrightarrow> (n + U64_MAX) mod (U64_MAX + 1) = n - 1"
  by (simp add: le_mod_geq)

lemma timer_fire_on_schedule:
  assumes "on_schedule i due left t" "timer_fire t = Returns (gone, t')"
  shows "gone \<longleftrightarrow> left = Some 1"
    and "\<not> gone \<Longrightarrow> on_schedule i (due + i) (map_option (\<lambda>n. n - 1) left) t'"
proof -
  have dec: "map_option (\<lambda>n. (n + U64_MAX) mod (U64_MAX + 1)) left = map_option (\<lambda>n. n - 1) left"
    using assms(1) wrap_decrement by (cases left) (auto simp: on_schedule_def simp del: One_nat_def)
  show "gone \<longleftrightarrow> left = Some 1"
    using assms dec by (cases left) (auto simp: timer_fire_def on_schedule_def instant_add_def Let_def split: if_splits)
  then show "\<not> gone \<Longrightarrow> on_schedule i (due + i) (map_option (\<lambda>n. n - 1) left) t'"
    using assms dec by (cases left) (auto simp: timer_fire_def on_schedule_def instant_add_def Let_def split: if_splits)
qed

lemma firing_times_simps [simp]:
  "firing_times k [] fs = []"
  "firing_times k (now # ticks) (fired # fs) = (if k \<in> set (names_of fired) then [now] else []) @ firing_times k ticks fs"
  by (simp_all add: firing_times_def)

lemma no_timer_no_firing:
  "run_ticks ticks m = Returns (fs, m') \<Longrightarrow> hm_wf m \<Longrightarrow> map_of m k = None \<Longrightarrow> firing_times k ticks fs = [] \<and> map_of m' k = None"
proof (induction ticks m arbitrary: fs m' rule: run_ticks.induct)
  case (2 now ticks m)
  then obtain fired m1 fs1 where r: "tick now m = Returns (fired, m1)" "run_ticks ticks m1 = Returns (fs1, m')" "fs = fired # fs1"
    by (auto split: outcome.splits prod.splits)
  then show ?case using 2 tick_at(1,2) [OF r(1) "2.prems"(2)] by simp
qed simp

lemma firings_are_scheduled:
  "run_ticks ticks m = Returns (fs, m') \<Longrightarrow> hm_wf m \<Longrightarrow> map_of m k = Some t \<Longrightarrow> on_schedule i due left t \<Longrightarrow>
    firing_times k ticks fs = schedule i due left ticks"
proof (induction ticks m arbitrary: fs m' due left t rule: run_ticks.induct)
  case (2 now ticks m)
  then obtain fired m1 fs1 where r: "tick now m = Returns (fired, m1)" "run_ticks ticks m1 = Returns (fs1, m')" "fs = fired # fs1"
    by (auto split: outcome.splits prod.splits)
  note at = tick_at [OF r(1) "2.prems"(2)]
  have left: "left \<noteq> Some 0" and due: "tm_next_fire t = due" using "2.prems"(4) by (auto simp: on_schedule_def)
  show ?case
  proof (cases "due \<le> now")
    case False
    then have "map_of m1 k = Some t" "k \<notin> set (names_of fired)" using at(3) "2.prems"(3) due by auto
    then show ?thesis using "2.IH" [OF r(1) refl r(2) at(1) _ "2.prems"(4)] False r(3) left by simp
  next
    case True
    then obtain gone t' where g: "timer_fire t = Returns (gone, t')" "map_of m1 k = (if gone then None else Some t')"
      and fired: "k \<in> set (names_of fired)" using at(4) "2.prems"(3) due by blast
    note next' = timer_fire_on_schedule [OF "2.prems"(4) g(1)]
    have stop: "schedule i d (Some 0) ts = []" for d ts by (cases ts) simp_all
    show ?thesis
    proof (cases gone)
      case gone: True
      then have "firing_times k ticks fs1 = []" using no_timer_no_firing [OF r(2) at(1)] g by simp
      then show ?thesis using True fired r next'(1) gone stop by simp
    next
      case False
      then show ?thesis
        using "2.IH" [OF r(1) refl r(2) at(1) _ next'(2)] g True fired left r(3) by simp
    qed
  qed
qed simp

lemma schedule_bound: "length (schedule i due (Some n) ticks) \<le> n"
proof (induction ticks arbitrary: due n)
  case (Cons now ticks)
  then show ?case using Cons [of "due + i" "n - 1"] by (cases n) auto
qed simp

lemma schedule_due: "j < length (schedule i due left ticks) \<Longrightarrow> due + j * i \<le> schedule i due left ticks ! j"
proof (induction ticks arbitrary: due left j)
  case (Cons now ticks)
  then show ?case by (cases j) (fastforce split: if_splits)+
qed simp

text \<open>
  C30. A timer that a script registers at time \<open>now\<close> with interval \<open>i\<close> fires at exactly the ticks of its
  schedule, whatever other timers there are: at most \<open>n\<close> times when it has a count, never before
  \<open>now + j * i\<close> for the \<open>j\<close>-th time, and at no tick after it is used up. A late tick delays no later firing.
\<close>

theorem timer_fires_on_schedule:
  assumes "timer_register P name i n body now m = Returns m0" "hm_wf m" "n \<le> U64_MAX"
    and "run_ticks ticks m0 = Returns (fs, m')"
  shows "firing_times (to_lowercase P name) ticks fs = schedule i (now + i) (if n = 0 then None else Some n) ticks
    \<and> (0 < n \<longrightarrow> length (firing_times (to_lowercase P name) ticks fs) \<le> n)
    \<and> (\<forall>j < length (firing_times (to_lowercase P name) ticks fs).
         now + (j + 1) * i \<le> firing_times (to_lowercase P name) ticks fs ! j)"
proof -
  let ?left = "if n = 0 then None else Some n"
  obtain t where m0: "m0 = hm_insert (to_lowercase P name) t m" and t: "on_schedule i (now + i) ?left t"
    using assms(1,3) by (auto simp: timer_register_def instant_add_def on_schedule_def split: if_splits)
  then have "firing_times (to_lowercase P name) ticks fs = schedule i (now + i) ?left ticks"
    using assms(2,4) firings_are_scheduled [OF assms(4)] by simp
  then show ?thesis using schedule_bound schedule_due [of _ i "now + i" ?left ticks] by (simp add: algebra_simps)
qed

theorem timer_fires_on_schedule_witness:
  "\<exists>m0 fs m'. timer_register script_sample ''beep'' 10 2 [] 5 [] = Returns m0 \<and>
     run_ticks [3, 15, 40, 41, 60] m0 = Returns (fs, m') \<and>
     firing_times ''beep'' [3, 15, 40, 41, 60] fs = [15, 40]"
proof -
  let ?t = "\<lambda>left due. \<lparr>tm_interval = 10, tm_remaining = Some left, tm_body = [], tm_next_fire = due\<rparr>"
  let ?f = "\<lparr>ft_name = ''beep'', ft_body = []\<rparr>"
  have low: "to_lowercase script_sample ''beep'' = ''beep''" by code_simp
  have reg: "timer_register script_sample ''beep'' 10 2 [] 5 [] = Returns [(''beep'', ?t 2 15)]"
    by (simp add: timer_register_def instant_add_def INSTANT_LIMIT_def low)
  have run: "run_ticks [3, 15, 40, 41, 60] [(''beep'', ?t 2 15)] = Returns ([[], [?f], [?f], [], []], [])"
    by (simp add: tick_def timer_fire_def instant_add_def INSTANT_LIMIT_def Let_def)
  have "schedule 10 (5 + 10) (Some 2) [3, 15, 40, 41, 60] = [15, 40]" by simp
  then show ?thesis using timer_fires_on_schedule [OF reg _ _ run] reg run low by simp
qed

end
