(* ===== verification/Spec2Isabelle.thy ===== *)
theory Spec2Isabelle
  imports Raft_Cluster Raft_Sync Cluster_State Protocol_Roundtrip Server_Delivery Cluster_Failover
    Client_Group_App Client_Input P2P_Peers Script_Reading Script_Safety Script_Schedule
begin

text \<open>
  A verification library for \<^verbatim>\<open>pirc\<close>, an IRC system in Rust: a server that forms a Raft cluster, a
  wire protocol, and a client. The theories follow the files of the source; this theory imports them
  all and says what they hold.

  \<^bold>\<open>The program.\<close> A server (\<^verbatim>\<open>pirc-server\<close>) accepts connections (\<^verbatim>\<open>main.rs\<close>), parses the lines it
  receives with \<^verbatim>\<open>pirc-protocol\<close>, and dispatches each message (\<^verbatim>\<open>handler.rs\<close>) to a handler that reads
  and changes the shared tables: the registry of users, the channels, the store of messages for
  offline users, the pre-key bundles and the group chats. Names, modes and identifiers come from
  \<^verbatim>\<open>pirc-common\<close>. Servers of a cluster run Raft (\<^verbatim>\<open>raft/\<close>) over a log of \<^verbatim>\<open>ClusterCommand\<close>s; committed
  commands change the replicated state machine (\<^verbatim>\<open>raft/state_machine.rs\<close>) and, through the commit
  consumer (\<^verbatim>\<open>commit_consumer.rs\<close>), the local tables. A failure detector (\<^verbatim>\<open>raft/health.rs\<close>) drives the
  migration of the users of a failed node (\<^verbatim>\<open>migration.rs\<close>). The client (\<^verbatim>\<open>pirc-client\<close>) encrypts private
  messages end to end: its encryption manager agrees on keys with a peer (\<^verbatim>\<open>pirc-crypto\<close>, \<^verbatim>\<open>x3dh.rs\<close>) over key
  exchange messages that the server relays, and then runs a ratchet session with the peer. Scripts
  (\<^verbatim>\<open>pirc-scripting\<close>) extend the client by aliases, event handlers and timers. Clients may also connect to each other
  (\<^verbatim>\<open>pirc-p2p\<close>): they exchange candidates through the server and check pairs of them with STUN. A group chat encrypts
  each message for every member.

  \<^bold>\<open>Theories.\<close>
  \<^item> \<open>Prelude\<close>: results, Rust strings as byte lists, decimal numerals, hash maps, majorities.
  \<^item> \<open>Raft_Log\<close> (\<^verbatim>\<open>raft/log.rs\<close>): the log with its compaction offset; the conflict-resolving append is
    a recursive merge, compaction hides only what it compacts. The locale \<open>indexed_log\<close> is the
    interface that the rest relies on.
  \<^item> \<open>Raft_Membership\<close> (\<^verbatim>\<open>raft/election.rs\<close>, \<^verbatim>\<open>raft/membership.rs\<close>): vote counting, timeouts, changes
    of one server. The locale \<open>majority_quorum\<close> gives the intersection of quorums for both counters.
  \<^item> \<open>Raft_State\<close>, \<open>Raft_Replication\<close>, \<open>Raft_Node\<close> (\<^verbatim>\<open>raft/state.rs\<close>, \<^verbatim>\<open>raft/rpc.rs\<close>, \<^verbatim>\<open>raft/replication.rs\<close>,
    \<^verbatim>\<open>raft/node.rs\<close>, \<^verbatim>\<open>raft/driver.rs\<close>): the node, its messages and its handlers, also on the paths
    where the storage fails; the commit index as a maximum, exactly-once application.
  \<^item> \<open>Raft_Storage\<close> (\<^verbatim>\<open>raft/file_storage.rs\<close>): the files of a node over a file system whose writes may
    fail at each of their calls; the locale \<open>durable_storage\<close> is the contract of the storage trait.
  \<^item> \<open>Raft_Cluster\<close>, \<open>Raft_Sync\<close>: nodes over a network that loses, duplicates and reorders messages;
    safety of elections, its failure for stale votes, catching up by \<^verbatim>\<open>AppendEntries\<close> and by snapshot.
  \<^item> \<open>Cluster_State\<close> (\<^verbatim>\<open>raft/cluster_command.rs\<close>, \<^verbatim>\<open>raft/state_machine.rs\<close>): the replicated tables and
    their invariant under admissible commands.
  \<^item> \<open>Cluster_Failover\<close> (\<^verbatim>\<open>migration.rs\<close>, \<^verbatim>\<open>raft/health.rs\<close>, \<^verbatim>\<open>failover_queue.rs\<close>, \<^verbatim>\<open>degraded_mode.rs\<close>,
    \<^verbatim>\<open>graceful_shutdown.rs\<close>, \<^verbatim>\<open>commit_consumer.rs\<close>): what a server does with committed commands and with
    failing nodes; the index of home nodes refines the replicated state, migration empties a failed
    node, applying a command twice is applying it once.
  \<^item> \<open>Names\<close> (\<^verbatim>\<open>pirc-common\<close>), \<open>Protocol\<close>, \<open>Protocol_Roundtrip\<close> (\<^verbatim>\<open>pirc-protocol\<close>): exact validation of
    names; messages, commands, prefixes, parsing and printing with the round trip.
  \<^item> \<open>Glob\<close>, \<open>Server_Glob\<close> (\<^verbatim>\<open>handler_channel/util.rs\<close>, \<^verbatim>\<open>handler_oper.rs\<close>): the iterative wildcard matcher
    against the recursive meaning of a pattern, over any alphabet (locale \<open>wildcards\<close>); masks on bytes.
  \<^item> \<open>Server_Registry\<close>, \<open>Server_Messages\<close>, \<open>Server_Channels\<close>, \<open>Server_Stores\<close>, \<open>Server_Users\<close>, \<open>Server\<close>
    (\<^verbatim>\<open>registry.rs\<close>, \<^verbatim>\<open>channel_registry.rs\<close>, \<^verbatim>\<open>numeric.rs\<close>, \<^verbatim>\<open>handler_channel/\<close>, the stores, \<^verbatim>\<open>handler.rs\<close>,
    \<^verbatim>\<open>handler_oper.rs\<close>, \<^verbatim>\<open>handler_relay.rs\<close>, \<^verbatim>\<open>handler_p2p.rs\<close>, \<^verbatim>\<open>handler_group.rs\<close>, \<^verbatim>\<open>main.rs\<close>): the tables,
    every handler, the dispatch and the life of a connection. The locale \<open>ci_table\<close> states the laws of
    a map with case-insensitive keys and derives the two-way registry from them.
  \<^item> \<open>Server_Access\<close>, \<open>Server_World\<close>, \<open>Server_Delivery\<close>: properties of the whole server. The dispatch
    refines an access policy for channels; the tables are consistent in every reachable world; who
    receives a message, a notification of a QUIT and a queued message; how a server operator is made.
  \<^item> \<open>Bytes\<close>: integers, hexadecimal numerals and texts as byte vectors.
  \<^item> \<open>Crypto_Base\<close>, \<open>Crypto_Messages\<close>, \<open>Crypto_Ratchet\<close> (\<^verbatim>\<open>pirc-crypto\<close>: \<^verbatim>\<open>kdf.rs\<close>, \<^verbatim>\<open>aead.rs\<close>, \<^verbatim>\<open>x25519.rs\<close>, \<^verbatim>\<open>kem.rs\<close>,
    \<^verbatim>\<open>signing.rs\<close>, \<^verbatim>\<open>message.rs\<close>, \<^verbatim>\<open>header.rs\<close>, the ratchets): the wrappers of the primitives, the byte
    formats with their round trips, the three ratchets and the session that joins them. The algorithms
    of the external crates are the fields of \<open>crypto_prims\<close>; what is used of them are \<open>dh_laws\<close>, \<open>gcm_laws\<close>,
    \<open>kem_laws\<close> and \<open>dsa_laws\<close>, which an instance satisfies.
  \<^item> \<open>Crypto_Conversation\<close>: two sessions that exchange messages over order-preserving channels; every
    message decrypts to its plaintext, and the responder falls silent after twenty steps.
  \<^item> \<open>Crypto_Keys\<close>, \<open>Crypto_Exchange\<close> (\<^verbatim>\<open>signing.rs\<close>, \<^verbatim>\<open>identity.rs\<close>, \<^verbatim>\<open>prekey.rs\<close>, \<^verbatim>\<open>x3dh.rs\<close>, \<^verbatim>\<open>protocol.rs\<close>): identities,
    pre-keys, bundles and the two sides of the key agreement. The locale \<open>fixed_format\<close> is the contract of a
    byte format of fixed length, interpreted for each of the ten key formats; both sides derive the same secret.
  \<^item> \<open>Crypto_Storage\<close> (\<^verbatim>\<open>key_storage/\<close>, \<^verbatim>\<open>rotation.rs\<close>): the key store, its encrypted file, rotation and cleanup. A
    published bundle survives rotations, a saved store is read back, a cleanup removes what the check counts.
  \<^item> \<open>Client_Manager\<close>, \<open>Client_Exchange\<close> (\<^verbatim>\<open>pirc-client\<close>: \<^verbatim>\<open>encryption/mod.rs\<close>, \<^verbatim>\<open>app/encryption.rs\<close>): the encryption manager
    and the handlers around it. An exchange between two managers starts a conversation of \<open>Crypto_Conversation\<close>;
    chunked data arrives, also after transfers that broke off; the answer of the modelled server to a bundle request is ignored by the modelled
    client, and a session that cannot encrypt leads to plaintext.
  \<^item> \<open>Client_Input\<close>, \<open>Client_Buffer\<close> (\<^verbatim>\<open>tui/input_line_state.rs\<close>, \<^verbatim>\<open>tui/input_history.rs\<close>, \<^verbatim>\<open>tui/message_buffer.rs\<close>,
    \<^verbatim>\<open>tui/buffer_manager.rs\<close>): the line editor refines an editor on characters; the list of open buffers keeps
    its invariant.
  \<^item> \<open>P2P_Codec\<close>, \<open>P2P_Session\<close>, \<open>P2P_Client\<close>, \<open>P2P_Peers\<close> (\<^verbatim>\<open>pirc-p2p\<close>: \<^verbatim>\<open>stun.rs\<close>, \<^verbatim>\<open>turn/\<close>, \<^verbatim>\<open>transport.rs\<close>, \<^verbatim>\<open>ice.rs\<close>,
    \<^verbatim>\<open>connectivity.rs\<close>, \<^verbatim>\<open>session.rs\<close>; \<^verbatim>\<open>pirc-client\<close>: \<^verbatim>\<open>p2p.rs\<close>, \<^verbatim>\<open>app/p2p.rs\<close>): connections between two clients. The
    formats have their round trips, for which the locale \<open>attribute_format\<close> is interpreted for STUN and TURN; a
    session connects only to an address that answered. \<open>P2P_Peers\<close> lets any number of clients exchange datagrams:
    what their checks send are requests, none of them is answered, and no two clients connect.
  \<^item> \<open>P2P_Group\<close>, \<open>Client_Groups\<close>, \<open>Client_Group_App\<close> (\<^verbatim>\<open>group_session.rs\<close>, \<^verbatim>\<open>group_mesh.rs\<close>, \<^verbatim>\<open>encrypted_transport.rs\<close>,
    \<^verbatim>\<open>group_key.rs\<close>, \<^verbatim>\<open>group_chat/\<close>, \<^verbatim>\<open>p2p_crypto.rs\<close>, \<^verbatim>\<open>app/group.rs\<close>): group chat over pairwise sessions. The counters of a
    group session stand for sets, a mesh knows each member once, a message reaches the members with keys; the
    client never gives a group keys.
  \<^item> \<open>Script_Lexer\<close>, \<open>Script_Parser\<close>, \<open>Script_Parsing\<close>, \<open>Script_Roundtrip\<close>, \<open>Script_Reading\<close> (\<^verbatim>\<open>pirc-scripting\<close>: \<^verbatim>\<open>token.rs\<close>,
    \<^verbatim>\<open>lexer.rs\<close>, \<^verbatim>\<open>ast.rs\<close>, \<^verbatim>\<open>parser/mod.rs\<close>): the scripting language; the parser always returns, and it reads back
    every script of the grammar that is printed, the parts of interpolated strings included.
  \<^item> \<open>Script_Values\<close>, \<open>Script_Timers\<close>, \<open>Script_Interp\<close>, \<open>Script_Semantic\<close>, \<open>Script_Engine\<close> (\<^verbatim>\<open>interpreter/\<close>, \<^verbatim>\<open>semantic.rs\<close>,
    \<^verbatim>\<open>engine/mod.rs\<close>): values, functions, variables, timers, statements, the analysis, events and the engine.
    \<open>Script_Execution\<close> is a logic of total correctness for the interpreter: every body finishes and leaves the
    interpreter as it found it. \<open>Script_Schedule\<close> describes when timers fire, \<open>Script_Safety\<close> what whole sessions of
    the engine guarantee to the client.

  \<^bold>\<open>Conventions.\<close> A struct is a record, an enum a datatype, a trait a record of functions. A Rust string
  is the list of its UTF-8 bytes. A \<^verbatim>\<open>HashMap\<close> is an association list with distinct keys, whose order
  stands for the unspecified order of iteration; a map keyed by nicknames or channel names is a
  \<open>ci_map\<close>. A \<^verbatim>\<open>DashMap\<close> and an \<^verbatim>\<open>Arc<RwLock<T>>\<close> are the value they hold: a handler runs to its end
  before the next one starts, so interleavings inside a handler are not modelled. A sender handle is
  the number of the connection whose queue it feeds, and a handler returns the list of its deliveries.
  Clocks, random numbers, file contents, JSON and base64 codecs are parameters. Counters of 64 bits
  are natural numbers where the source guards the subtraction, which the model repeats; the integers of
  scripts wrap around in 64 bits, as in a release build. A panic is a value of its own. A background
  task is a step function over the events it receives.

  \<^bold>\<open>Loops.\<close> Loops are recursive functions with a proof of termination. The chunking of a snapshot is a
  partial function, since the source loops for a chunk size of zero; it is shown to return for every
  positive size. Two groups of mutually recursive functions use fuel. The parser of scripts has one unit more
  than there are tokens, and \<open>parser_returns\<close> shows that it never runs out. The interpreter has one unit for
  each alias call that its recursion limit of 100 allows, and one for the body; \<open>script_terminates\<close> shows that
  this is enough and that more fuel gives the same result.

  \<^bold>\<open>Not modelled.\<close> Sockets, TLS, connection pools and timers (\<^verbatim>\<open>pirc-network\<close>, \<^verbatim>\<open>raft/transport.rs\<close>, the
  accept loop of \<^verbatim>\<open>main.rs\<close>, the tasks that send keep-alives), the configuration file readers, the plugin loader
  behind its C interface, and the rendering and event loop of the client: these are input and output, or code
  whose behaviour is that of a library. Also left out are the cluster administration commands, whose work
  is done by the cluster service over the network, and the client's parser of typed commands.
\<close>

end
